(* ===== verification/Prelude.thy ===== *)
theory Prelude
  imports Main "HOL-Library.Multiset"
begin

text \<open>
  Shared vocabulary of the development.

  Go maps are association lists with distinct keys (\<open>wfmap\<close>): lookup is \<open>mget\<close>, assignment
  \<open>mput\<close>, \<open>delete\<close> is \<open>mdel\<close>, \<open>len\<close> is \<open>length\<close>. Go leaves the order of \<open>for k, v := range m\<close>
  open, so an operation that ranges over a map takes the order of that loop as an argument, a
  list of keys, and \<open>is_order\<close> says that the list enumerates the keys of the map once each.

  A reading of the clock (\<open>time.Now()\<close>) is an argument of the operation that reads it. Times and
  durations are integers, in nanoseconds; the zero time of Go is \<open>0\<close>. Integers of the source that
  only count or compare are \<open>int\<close> or \<open>nat\<close>.
\<close>

named_theorems map_simps \<open>lookup, size and key laws of Go maps\<close>
named_theorems wf_intros \<open>operations keep maps well formed\<close>

type_synonym time = int
type_synonym duration = int

abbreviation (input) time_zero :: time where
  "time_zero \<equiv> 0"

definition seconds :: "int \<Rightarrow> duration" where
  "seconds n = n * 1000000000"

definition minutes :: "int \<Rightarrow> duration" where
  "minutes n = seconds (60 * n)"

definition hours :: "int \<Rightarrow> duration" where
  "hours n = minutes (60 * n)"

text \<open>Arithmetic on \<open>int\<close> and \<open>time.Duration\<close>, which have 64 bits, where it may overflow.\<close>

definition wrap64 :: "int \<Rightarrow> int" where
  "wrap64 i = (i + 2 ^ 63) mod 2 ^ 64 - 2 ^ 63"

lemma wrap64_id: "- (2 ^ 63) \<le> i \<Longrightarrow> i < 2 ^ 63 \<Longrightarrow> wrap64 i = i"
  by (simp add: wrap64_def mod_pos_pos_trivial)

section \<open>Results\<close>

fun is_ok :: "'e + 'a \<Rightarrow> bool" where
  "is_ok (Inl e) = False"
| "is_ok (Inr a) = True"

lemma is_ok_iff: "is_ok r \<longleftrightarrow> (\<exists>a. r = Inr a)"
  by (cases r) auto

section \<open>Go maps\<close>

type_synonym ('k, 'v) gomap = "('k \<times> 'v) list"

definition mget :: "('k, 'v) gomap \<Rightarrow> 'k \<Rightarrow> 'v option" where
  "mget m k = map_of m k"

fun mput :: "'k \<Rightarrow> 'v \<Rightarrow> ('k, 'v) gomap \<Rightarrow> ('k, 'v) gomap" where
  "mput k v [] = [(k, v)]"
| "mput k v ((k', v') # m) = (if k' = k then (k, v) # m else (k', v') # mput k v m)"

fun mdel :: "'k \<Rightarrow> ('k, 'v) gomap \<Rightarrow> ('k, 'v) gomap" where
  "mdel k [] = []"
| "mdel k ((k', v') # m) = (if k' = k then mdel k m else (k', v') # mdel k m)"

definition mkeys :: "('k, 'v) gomap \<Rightarrow> 'k list" where
  "mkeys m = map fst m"

definition mvals :: "('k, 'v) gomap \<Rightarrow> 'v list" where
  "mvals m = map snd m"

definition wfmap :: "('k, 'v) gomap \<Rightarrow> bool" where
  "wfmap m \<longleftrightarrow> distinct (mkeys m)"

definition is_order :: "'k list \<Rightarrow> ('k, 'v) gomap \<Rightarrow> bool" where
  "is_order ks m \<longleftrightarrow> distinct ks \<and> set ks = set (mkeys m)"

lemma mget_Nil [simp, map_simps]: "mget [] k = None"
  by (simp add: mget_def)

lemma mget_Cons [simp]: "mget ((k', v) # m) k = (if k' = k then Some v else mget m k)"
  by (simp add: mget_def)

lemma mkeys_Nil [simp]: "mkeys [] = []"
  by (simp add: mkeys_def)

lemma mkeys_Cons [simp]: "mkeys (p # m) = fst p # mkeys m"
  by (simp add: mkeys_def)

lemma length_mkeys [simp]: "length (mkeys m) = length m"
  by (simp add: mkeys_def)

lemma mget_mput [map_simps]: "mget (mput k v m) k' = (if k' = k then Some v else mget m k')"
  by (induction m) auto

lemma mget_mput_fun: "mget (mput k v m) = (mget m)(k \<mapsto> v)"
  by (rule ext) (simp add: mget_mput)

lemma mget_mdel [map_simps]: "mget (mdel k m) k' = (if k' = k then None else mget m k')"
  by (induction m) auto

lemma mput_mput [simp]: "mput k v (mput k v' m) = mput k v m"
  by (induction m) auto

lemma mget_None_iff: "mget m k = None \<longleftrightarrow> k \<notin> set (mkeys m)"
  by (induction m) (auto split: if_splits)

lemma mget_Some_key: "mget m k = Some v \<Longrightarrow> k \<in> set (mkeys m)"
  using mget_None_iff [of m k] by auto

lemma key_mget: "k \<in> set (mkeys m) \<Longrightarrow> \<exists>v. mget m k = Some v"
  using mget_None_iff [of m k] by auto

lemma mget_in_set: "mget m k = Some v \<Longrightarrow> (k, v) \<in> set m"
  by (induction m) (auto split: if_splits)

lemma set_mkeys_mput [map_simps]: "set (mkeys (mput k v m)) = insert k (set (mkeys m))"
  by (induction k v m rule: mput.induct) (simp_all add: insert_commute)

lemma set_mkeys_mdel [map_simps]: "set (mkeys (mdel k m)) = set (mkeys m) - {k}"
  by (induction k m rule: mdel.induct) (simp_all add: insert_Diff_if)

lemma wfmap_Nil [simp, wf_intros]: "wfmap []"
  by (simp add: wfmap_def)

lemma wfmap_Cons [simp]: "wfmap (p # m) \<longleftrightarrow> fst p \<notin> set (mkeys m) \<and> wfmap m"
  by (simp add: wfmap_def)

lemma wfmap_mput [wf_intros]: "wfmap m \<Longrightarrow> wfmap (mput k v m)"
  by (induction m) (auto simp: set_mkeys_mput)

lemma wfmap_mdel [wf_intros]: "wfmap m \<Longrightarrow> wfmap (mdel k m)"
  by (induction m) (auto simp: set_mkeys_mdel)

lemma in_set_mget: "wfmap m \<Longrightarrow> (k, v) \<in> set m \<Longrightarrow> mget m k = Some v"
  by (induction m) (auto simp: mkeys_def rev_image_eqI)

lemma in_set_mget_iff: "wfmap m \<Longrightarrow> (k, v) \<in> set m \<longleftrightarrow> mget m k = Some v"
  using in_set_mget mget_in_set by metis

lemma length_mput [map_simps]:
  "length (mput k v m) = (if mget m k = None then Suc (length m) else length m)"
  by (induction m) (auto split: if_splits)

lemma mdel_absent: "mget m k = None \<Longrightarrow> mdel k m = m"
  by (induction m) (auto split: if_splits)

lemma mget_length_pos: "mget m k = Some v \<Longrightarrow> 0 < length m"
  by (cases m) auto

lemma length_mdel [map_simps]:
  "wfmap m \<Longrightarrow> length (mdel k m) = (if mget m k = None then length m else length m - 1)"
proof (induction k m rule: mdel.induct)
  case (1 k)
  then show ?case by simp
next
  case (2 k k' v m)
  show ?case
  proof (cases "k' = k")
    case True
    with "2.prems" have "mget m k = None" by (simp add: mget_None_iff)
    with True show ?thesis by (simp add: mdel_absent)
  next
    case False
    with 2 show ?thesis by (auto dest: mget_length_pos)
  qed
qed

lemma length_mdel_le: "length (mdel k m) \<le> length m"
  by (induction m) auto

lemma is_order_mkeys: "wfmap m \<Longrightarrow> is_order (mkeys m) m"
  by (simp add: is_order_def wfmap_def)

lemma is_order_mem: "is_order ks m \<Longrightarrow> k \<in> set ks \<longleftrightarrow> mget m k \<noteq> None"
  by (simp add: is_order_def mget_None_iff)

lemma is_order_length: "is_order ks m \<Longrightarrow> wfmap m \<Longrightarrow> length ks = length m"
  by (metis distinct_card is_order_def length_mkeys wfmap_def)

text \<open>Two maps that agree on every key enumerate the same entries.\<close>

lemma mget_ext_set: "wfmap m \<Longrightarrow> wfmap m' \<Longrightarrow> mget m = mget m' \<Longrightarrow> set m = set m'"
  by (metis in_set_mget_iff subrelI subset_antisym)

section \<open>Folding an operation over the keys of a map\<close>

text \<open>A loop whose body deletes the keys that satisfy a test, in any order.\<close>

fun del_all :: "'k list \<Rightarrow> ('k, 'v) gomap \<Rightarrow> ('k, 'v) gomap" where
  "del_all [] m = m"
| "del_all (k # ks) m = del_all ks (mdel k m)"

lemma mget_del_all [map_simps]: "mget (del_all ks m) k = (if k \<in> set ks then None else mget m k)"
  by (induction ks arbitrary: m) (auto simp: mget_mdel)

lemma wfmap_del_all [wf_intros]: "wfmap m \<Longrightarrow> wfmap (del_all ks m)"
  by (induction ks arbitrary: m) (auto intro: wfmap_mdel)

text \<open>A map that is filled by a loop.\<close>

lemma mget_fold_mput:
  "mget (fold (\<lambda>x. mput (k x) (v x)) xs m) key = Some y \<Longrightarrow> mget m key = Some y \<or> (\<exists>x \<in> set xs. k x = key \<and> y = v x)"
proof (induction xs arbitrary: m)
  case (Cons x xs)
  from Cons.IH [of "mput (k x) (v x) m"] Cons.prems show ?case by (auto simp: mget_mput split: if_splits)
qed simp

lemma set_mkeys_fold: "set (mkeys (fold (\<lambda>x. mput (k x) (v x)) xs m)) = k ` set xs \<union> set (mkeys m)"
  by (induction xs arbitrary: m) (auto simp: set_mkeys_mput)

text \<open>Assigning a new value to every entry; the keys and their order stay.\<close>

definition mmap :: "('v \<Rightarrow> 'w) \<Rightarrow> ('k, 'v) gomap \<Rightarrow> ('k, 'w) gomap" where
  "mmap f m = map (\<lambda>(k, v). (k, f v)) m"

lemma mget_mmap [map_simps]: "mget (mmap f m) k = map_option f (mget m k)"
  by (induction m) (auto simp: mmap_def)

lemma mkeys_mmap [simp]: "mkeys (mmap f m) = mkeys m"
  by (induction m) (auto simp: mmap_def)

lemma wfmap_mmap [wf_intros]: "wfmap m \<Longrightarrow> wfmap (mmap f m)"
  by (simp add: wfmap_def)

section \<open>List lemmas\<close>

lemma find_Some_split:
  "find P xs = Some x \<Longrightarrow> \<exists>ys zs. xs = ys @ x # zs \<and> P x \<and> (\<forall>y \<in> set ys. \<not> P y)"
proof (induction xs)
  case Nil
  then show ?case by simp
next
  case (Cons a xs)
  show ?case
  proof (cases "P a")
    case True
    with Cons.prems show ?thesis by (metis append_Nil empty_iff empty_set find.simps(2) option.inject)
  next
    case False
    with Cons obtain ys zs where "xs = ys @ x # zs" "P x" "\<forall>y \<in> set ys. \<not> P y"
      by auto
    with False have "a # xs = (a # ys) @ x # zs" "\<forall>y \<in> set (a # ys). \<not> P y"
      by auto
    with \<open>P x\<close> show ?thesis by blast
  qed
qed

lemma find_SomeD: "find P xs = Some x \<Longrightarrow> x \<in> set xs \<and> P x"
  by (induction xs) (auto split: if_splits)

lemma find_append: "find P (xs @ ys) = (case find P xs of Some x \<Rightarrow> Some x | None \<Rightarrow> find P ys)"
  by (induction xs) auto

text \<open>Changing the elements with one key, in a way that keeps their keys.\<close>

lemma find_map_key:
  "(\<And>x. key (f x) = key x) \<Longrightarrow>
   find (\<lambda>x. key x = v) (map (\<lambda>x. if key x = u then f x else x) xs) =
     map_option (\<lambda>x. if v = u then f x else x) (find (\<lambda>x. key x = v) xs)"
  by (induction xs) auto

lemma find_unique:
  "distinct (map key xs) \<Longrightarrow> (\<And>x. P x \<Longrightarrow> key x = y) \<Longrightarrow> find P xs = Some x \<longleftrightarrow> x \<in> set xs \<and> P x"
proof (induction xs)
  case (Cons a xs)
  have "key x = key a \<Longrightarrow> x \<in> set xs \<Longrightarrow> False" using Cons.prems(1) by (metis distinct.simps(2) image_eqI list.set_map list.simps(9))
  with Cons show ?case by auto
qed simp

lemma distinct_key_eq: "distinct (map k xs) \<Longrightarrow> x \<in> set xs \<Longrightarrow> y \<in> set xs \<Longrightarrow> k x = k y \<Longrightarrow> x = y"
  by (simp add: distinct_map inj_on_def)

lemma set_map_filter: "set (List.map_filter f xs) = {y. \<exists>x \<in> set xs. f x = Some y}"
  by (force simp: List.map_filter_def)

lemma remove1_absent: "x \<notin> set xs \<Longrightarrow> remove1 x xs = xs"
  by (rule remove1_idem)

end
