(* ===== verification/StableSort.thy ===== *)
theory StableSort
  imports Prelude
begin

text \<open>
  \<open>sort.SliceStable\<close> of Go's standard library, as insertion of each element before the elements
  that follow it in the input. The locale \<open>strict_weak\<close> is what Go asks of the comparison; under
  it the result is a permutation of the input, in order, with equivalent elements in the order
  they came in, and these three facts determine it.
\<close>

fun sinsert :: "('a \<Rightarrow> 'a \<Rightarrow> bool) \<Rightarrow> 'a \<Rightarrow> 'a list \<Rightarrow> 'a list" where
  "sinsert lt x [] = [x]"
| "sinsert lt x (y # ys) = (if lt y x then y # sinsert lt x ys else x # y # ys)"

fun SliceStable :: "('a \<Rightarrow> 'a \<Rightarrow> bool) \<Rightarrow> 'a list \<Rightarrow> 'a list" where
  "SliceStable lt [] = []"
| "SliceStable lt (x # xs) = sinsert lt x (SliceStable lt xs)"

definition ordered :: "('a \<Rightarrow> 'a \<Rightarrow> bool) \<Rightarrow> 'a list \<Rightarrow> bool" where
  "ordered lt xs \<longleftrightarrow> sorted_wrt (\<lambda>x y. \<not> lt y x) xs"

lemma mset_sinsert: "mset (sinsert lt x xs) = {#x#} + mset xs"
  by (induction xs) auto

lemma mset_SliceStable: "mset (SliceStable lt xs) = mset xs"
  by (induction xs) (auto simp: mset_sinsert)

lemma set_SliceStable [simp]: "set (SliceStable lt xs) = set xs"
  using mset_SliceStable [of lt xs] mset_eq_setD by blast

lemma set_sinsert [simp]: "set (sinsert lt x xs) = insert x (set xs)"
  by (induction xs) auto

lemma ordered_Nil [simp]: "ordered lt []"
  by (simp add: ordered_def)

lemma ordered_Cons: "ordered lt (x # xs) \<longleftrightarrow> (\<forall>y \<in> set xs. \<not> lt y x) \<and> ordered lt xs"
  by (simp add: ordered_def)

lemma ordered_filter: "ordered lt xs \<Longrightarrow> ordered lt (filter P xs)"
  by (simp add: ordered_def sorted_wrt_filter)

lemma ordered_append_before: "ordered lt (ys @ x # zs) \<Longrightarrow> y \<in> set zs \<Longrightarrow> \<not> lt y x"
  by (simp add: ordered_def sorted_wrt_append)

locale strict_weak =
  fixes lt :: "'a \<Rightarrow> 'a \<Rightarrow> bool"
  assumes less_irrefl: "\<not> lt x x"
    and less_trans: "lt x y \<Longrightarrow> lt y z \<Longrightarrow> lt x z"
    and incomp_trans: "\<not> lt x y \<Longrightarrow> \<not> lt y x \<Longrightarrow> lt y z \<Longrightarrow> lt x z"
begin

lemma less_asym: "lt x y \<Longrightarrow> \<not> lt y x"
  using less_irrefl less_trans by blast

lemma not_less_trans: "\<not> lt y x \<Longrightarrow> \<not> lt z y \<Longrightarrow> \<not> lt z x"
  using less_trans incomp_trans less_asym by blast

lemma ordered_sinsert: "ordered lt xs \<Longrightarrow> ordered lt (sinsert lt x xs)"
proof (induction xs)
  case Nil
  then show ?case by (simp add: ordered_def)
next
  case (Cons y ys)
  show ?case
  proof (cases "lt y x")
    case True
    with Cons show ?thesis by (auto simp: ordered_Cons dest: less_asym)
  next
    case False
    with Cons.prems show ?thesis by (auto simp: ordered_Cons dest: not_less_trans)
  qed
qed

lemma ordered_SliceStable: "ordered lt (SliceStable lt xs)"
  by (induction xs) (auto intro: ordered_sinsert)

definition equiv :: "'a \<Rightarrow> 'a \<Rightarrow> bool" where
  "equiv x y \<longleftrightarrow> \<not> lt x y \<and> \<not> lt y x"

lemma sinsert_stable:
  "filter (equiv z) (sinsert lt x xs) = filter (equiv z) (x # xs)"
  by (induction xs) (auto simp: equiv_def dest: incomp_trans less_trans)

lemma SliceStable_stable: "filter (equiv z) (SliceStable lt xs) = filter (equiv z) xs"
  by (induction xs) (simp_all add: sinsert_stable)

lemma SliceStable_ordered_id: "ordered lt xs \<Longrightarrow> SliceStable lt xs = xs"
proof (induction xs)
  case Nil
  then show ?case by simp
next
  case (Cons x xs)
  then have "SliceStable lt xs = xs" and "\<forall>y \<in> set xs. \<not> lt y x"
    by (auto simp: ordered_Cons)
  then show ?case by (cases xs) auto
qed

end

end
