(* ===== verification/Routing.thy ===== *)
theory Routing
  imports GoStrings StableSort
begin

text \<open>
  The routing table of the gateway (\<open>prism/internal/features/gateway/routing.go\<close>): parsing of path
  patterns, matching of request paths, the table of routes per method with its precedence order,
  and its operations. The table's mutex makes each operation atomic, so each is a function on the
  table. The loops that build lists over all methods take the order of that loop as an argument.
\<close>

section \<open>Data\<close>

record route_metadata =
  rm_Path :: string
  rm_Method :: string
  rm_ServiceID :: string
  rm_ServiceName :: string
  rm_ServiceURL :: string
  rm_Public :: bool
  rm_RequiredScopes :: "string list"
  rm_Priority :: int
  rm_Tags :: "(string, string) gomap"

datatype segment_type = StaticSegment | ParamSegment | WildcardSegment

record path_segment =
  seg_Type :: segment_type
  seg_Value :: string

record route_pattern =
  rp_Original :: string
  rp_Segments :: "path_segment list"
  rp_HasWildcard :: bool
  rp_NumParams :: nat

record route_entry =
  re_Metadata :: route_metadata
  re_Pattern :: route_pattern

record routing_table =
  rt_routes :: "(string, route_entry list) gomap"

datatype route_error = EmptyPath | EmptyMethod | EmptyServiceID

section \<open>Patterns\<close>

fun parse_segments :: "string list \<Rightarrow> route_pattern \<Rightarrow> route_pattern" where
  "parse_segments [] r = r"
| "parse_segments (seg # rest) r =
     (if seg = [] then parse_segments rest r
      else if seg = ''*''
        then r\<lparr>rp_Segments := rp_Segments r @ [\<lparr>seg_Type = WildcardSegment, seg_Value = []\<rparr>],
               rp_HasWildcard := True\<rparr>
      else if HasPrefix seg '':''
        then parse_segments rest
          (r\<lparr>rp_Segments := rp_Segments r @ [\<lparr>seg_Type = ParamSegment, seg_Value = drop 1 seg\<rparr>],
             rp_NumParams := rp_NumParams r + 1\<rparr>)
      else parse_segments rest
          (r\<lparr>rp_Segments := rp_Segments r @ [\<lparr>seg_Type = StaticSegment, seg_Value = seg\<rparr>]\<rparr>))"

definition ParsePattern :: "string \<Rightarrow> route_pattern" where
  "ParsePattern pattern =
     parse_segments (Split (CHR ''/'') (Trim (CHR ''/'') pattern))
       \<lparr>rp_Original = pattern, rp_Segments = [], rp_HasWildcard = False, rp_NumParams = 0\<rparr>"

text \<open>
  The comparison loop of the fast path. It runs after the lengths were found equal, so the last
  equation (the source would index out of range) is not reached.
\<close>

fun match_static :: "path_segment list \<Rightarrow> string list \<Rightarrow> bool" where
  "match_static [] ps = True"
| "match_static (s # ss) (p # ps) = (if seg_Value s \<noteq> p then False else match_static ss ps)"
| "match_static (s # ss) [] = False"

fun match_segments ::
  "path_segment list \<Rightarrow> string list \<Rightarrow> (string, string) gomap \<Rightarrow> (string, string) gomap option" where
  "match_segments [] ps params = Some params"
| "match_segments (s # ss) ps params =
     (if seg_Type s = WildcardSegment then Some (mput ''*'' (Join ''/'' ps) params)
      else (case ps of [] \<Rightarrow> None
            | p # ps' \<Rightarrow>
                if seg_Type s = StaticSegment
                then (if seg_Value s \<noteq> p then None else match_segments ss ps' params)
                else match_segments ss ps' (mput (seg_Value s) p params)))"

definition Match :: "route_pattern \<Rightarrow> string \<Rightarrow> (string, string) gomap option" where
  "Match rp path =
     (let pathSegments = Split (CHR ''/'') (Trim (CHR ''/'') path) in
      if rp_NumParams rp = 0 \<and> \<not> rp_HasWildcard rp then
        if length pathSegments \<noteq> length (rp_Segments rp) then None
        else if match_static (rp_Segments rp) pathSegments then Some [] else None
      else if rp_HasWildcard rp \<and> int (length pathSegments) < int (length (rp_Segments rp)) - 1 then None
      else if \<not> rp_HasWildcard rp \<and> length pathSegments \<noteq> length (rp_Segments rp) then None
      else match_segments (rp_Segments rp) pathSegments [])"

section \<open>The table\<close>

definition NewRoutingTable :: routing_table where
  "NewRoutingTable = \<lparr>rt_routes = []\<rparr>"

definition route_less :: "route_entry \<Rightarrow> route_entry \<Rightarrow> bool" where
  "route_less ri rj =
     (if rm_Priority (re_Metadata ri) \<noteq> rm_Priority (re_Metadata rj)
        then rm_Priority (re_Metadata ri) > rm_Priority (re_Metadata rj)
      else if rp_HasWildcard (re_Pattern ri) \<noteq> rp_HasWildcard (re_Pattern rj)
        then \<not> rp_HasWildcard (re_Pattern ri)
      else if rp_NumParams (re_Pattern ri) \<noteq> rp_NumParams (re_Pattern rj)
        then rp_NumParams (re_Pattern ri) < rp_NumParams (re_Pattern rj)
      else length (rp_Segments (re_Pattern ri)) > length (rp_Segments (re_Pattern rj)))"

definition sortRoutes :: "string \<Rightarrow> routing_table \<Rightarrow> routing_table" where
  "sortRoutes mthd rt =
     (case mget (rt_routes rt) mthd of
        None \<Rightarrow> rt
      | Some routes \<Rightarrow> rt\<lparr>rt_routes := mput mthd (SliceStable route_less routes) (rt_routes rt)\<rparr>)"

definition AddRoute :: "route_metadata \<Rightarrow> routing_table \<Rightarrow> route_error + routing_table" where
  "AddRoute route rt =
     (if rm_Path route = [] then Inl EmptyPath
      else if rm_Method route = [] then Inl EmptyMethod
      else if rm_ServiceID route = [] then Inl EmptyServiceID
      else
        let entry = \<lparr>re_Metadata = route, re_Pattern = ParsePattern (rm_Path route)\<rparr>;
            routes = (case mget (rt_routes rt) (rm_Method route) of None \<Rightarrow> [] | Some rs \<Rightarrow> rs)
        in Inr (sortRoutes (rm_Method route)
                  (rt\<lparr>rt_routes := mput (rm_Method route) (routes @ [entry]) (rt_routes rt)\<rparr>)))"

definition RemoveRoute :: "string \<Rightarrow> string \<Rightarrow> string \<Rightarrow> routing_table \<Rightarrow> routing_table" where
  "RemoveRoute serviceID mthd path rt =
     (case mget (rt_routes rt) mthd of
        None \<Rightarrow> rt
      | Some routes \<Rightarrow>
          rt\<lparr>rt_routes := mput mthd
               (filter (\<lambda>entry. \<not> (rm_ServiceID (re_Metadata entry) = serviceID
                                   \<and> rm_Path (re_Metadata entry) = path)) routes)
               (rt_routes rt)\<rparr>)"

definition remove_service_step ::
  "string \<Rightarrow> string \<Rightarrow> (string, route_entry list) gomap \<Rightarrow> (string, route_entry list) gomap" where
  "remove_service_step serviceID mthd m =
     (case mget m mthd of
        None \<Rightarrow> m
      | Some routes \<Rightarrow>
          let newRoutes = filter (\<lambda>entry. rm_ServiceID (re_Metadata entry) \<noteq> serviceID) routes
          in if newRoutes \<noteq> [] then mput mthd newRoutes m else mdel mthd m)"

text \<open>\<open>order\<close> is the order in which the loop visits the methods.\<close>

definition RemoveServiceRoutes :: "string list \<Rightarrow> string \<Rightarrow> routing_table \<Rightarrow> routing_table" where
  "RemoveServiceRoutes order serviceID rt =
     rt\<lparr>rt_routes := fold (remove_service_step serviceID) order (rt_routes rt)\<rparr>"

fun first_match ::
  "route_entry list \<Rightarrow> string \<Rightarrow> (route_metadata \<times> (string, string) gomap) option" where
  "first_match [] path = None"
| "first_match (entry # entries) path =
     (case Match (re_Pattern entry) path of
        Some params \<Rightarrow> Some (re_Metadata entry, params)
      | None \<Rightarrow> first_match entries path)"

definition LookupRoute ::
  "routing_table \<Rightarrow> string \<Rightarrow> string \<Rightarrow> (route_metadata \<times> (string, string) gomap) option" where
  "LookupRoute rt mthd path =
     (case (case mget (rt_routes rt) mthd of
              Some entries \<Rightarrow> first_match entries path | None \<Rightarrow> None) of
        Some r \<Rightarrow> Some r
      | None \<Rightarrow>
          (case mget (rt_routes rt) ''*'' of
             Some entries \<Rightarrow> first_match entries path | None \<Rightarrow> None))"

definition collect_routes ::
  "(route_entry \<Rightarrow> bool) \<Rightarrow> string list \<Rightarrow> routing_table \<Rightarrow> route_metadata list" where
  "collect_routes P order rt =
     concat (map (\<lambda>mthd. case mget (rt_routes rt) mthd of
                     None \<Rightarrow> []
                   | Some methodRoutes \<Rightarrow> map re_Metadata (filter P methodRoutes)) order)"

definition GetRoutes :: "string list \<Rightarrow> routing_table \<Rightarrow> route_metadata list" where
  "GetRoutes order rt = collect_routes (\<lambda>_. True) order rt"

definition GetPublicRoutes :: "string list \<Rightarrow> routing_table \<Rightarrow> route_metadata list" where
  "GetPublicRoutes order rt = collect_routes (\<lambda>e. rm_Public (re_Metadata e)) order rt"

definition GetProtectedRoutes :: "string list \<Rightarrow> routing_table \<Rightarrow> route_metadata list" where
  "GetProtectedRoutes order rt = collect_routes (\<lambda>e. \<not> rm_Public (re_Metadata e)) order rt"

definition GetServiceRoutes :: "string list \<Rightarrow> string \<Rightarrow> routing_table \<Rightarrow> route_metadata list" where
  "GetServiceRoutes order serviceID rt =
     collect_routes (\<lambda>e. rm_ServiceID (re_Metadata e) = serviceID) order rt"

section \<open>Pattern lemmas\<close>

text \<open>What parsing says of the segments it produced, relative to what was there before.\<close>

definition pattern_ok :: "route_pattern \<Rightarrow> bool" where
  "pattern_ok r \<longleftrightarrow>
     (\<forall>i < length (rp_Segments r).
        seg_Type (rp_Segments r ! i) = WildcardSegment \<longrightarrow> Suc i = length (rp_Segments r))
     \<and> (rp_HasWildcard r \<longleftrightarrow> (\<exists>s \<in> set (rp_Segments r). seg_Type s = WildcardSegment))
     \<and> rp_NumParams r = length (filter (\<lambda>s. seg_Type s = ParamSegment) (rp_Segments r))"

lemma parse_segments_Original [simp]: "rp_Original (parse_segments segs r) = rp_Original r"
  by (induction segs r rule: parse_segments.induct) auto

lemma parse_segments_ok:
  assumes "\<forall>s \<in> set (rp_Segments r). seg_Type s \<noteq> WildcardSegment"
    and "\<not> rp_HasWildcard r"
    and "rp_NumParams r = length (filter (\<lambda>s. seg_Type s = ParamSegment) (rp_Segments r))"
  shows "pattern_ok (parse_segments segs r)"
  using assms
proof (induction segs r rule: parse_segments.induct)
  case (1 r)
  then show ?case by (auto simp: pattern_ok_def)
next
  case (2 seg rest r)
  show ?case
  proof (cases "seg = ''*''")
    case True
    with 2 show ?thesis by (auto simp: pattern_ok_def nth_append)
  next
    case False
    with 2 show ?thesis by auto
  qed
qed

lemma ParsePattern_ok: "pattern_ok (ParsePattern pattern)"
  unfolding ParsePattern_def by (rule parse_segments_ok) auto

lemma ParsePattern_Original [simp]: "rp_Original (ParsePattern pattern) = pattern"
  by (simp add: ParsePattern_def)

text \<open>
  The declarative reading of a pattern: static segments stand for themselves, a parameter for any
  one segment, a wildcard for any rest.
\<close>

fun seg_accepts :: "path_segment list \<Rightarrow> string list \<Rightarrow> bool" where
  "seg_accepts [] ps = (ps = [])"
| "seg_accepts (s # ss) [] = (seg_Type s = WildcardSegment)"
| "seg_accepts (s # ss) (p # ps) =
     (case seg_Type s of
        WildcardSegment \<Rightarrow> True
      | StaticSegment \<Rightarrow> p = seg_Value s \<and> seg_accepts ss ps
      | ParamSegment \<Rightarrow> seg_accepts ss ps)"

lemma match_static_accepts:
  "\<forall>s \<in> set ss. seg_Type s = StaticSegment \<Longrightarrow> length ps = length ss \<Longrightarrow>
   match_static ss ps \<longleftrightarrow> seg_accepts ss ps"
  by (induction ss ps rule: match_static.induct) auto

lemma match_segments_accepts:
  assumes "length ps = length ss \<or> (\<exists>s \<in> set ss. seg_Type s = WildcardSegment)"
  shows "match_segments ss ps params \<noteq> None \<longleftrightarrow> seg_accepts ss ps"
  using assms
proof (induction ss ps params rule: match_segments.induct)
  case (1 ps params)
  then show ?case by auto
next
  case (2 s ss ps params)
  show ?case
  proof (cases ps)
    case Nil
    then show ?thesis by simp
  next
    case (Cons p ps')
    with 2 show ?thesis by (cases "seg_Type s") auto
  qed
qed

lemma seg_accepts_length:
  "seg_accepts ss ps \<Longrightarrow> \<forall>s \<in> set ss. seg_Type s \<noteq> WildcardSegment \<Longrightarrow> length ps = length ss"
  by (induction ss ps rule: seg_accepts.induct) (auto split: segment_type.splits)

lemma wildcard_last_tl:
  "\<forall>i < length (s # ss). seg_Type ((s # ss) ! i) = WildcardSegment \<longrightarrow> Suc i = length (s # ss) \<Longrightarrow>
   \<forall>i < length ss. seg_Type (ss ! i) = WildcardSegment \<longrightarrow> Suc i = length ss"
  by (metis Suc_less_eq Suc_inject length_Cons nth_Cons_Suc)

lemma seg_accepts_min_length:
  "seg_accepts ss ps \<Longrightarrow>
   \<forall>i < length ss. seg_Type (ss ! i) = WildcardSegment \<longrightarrow> Suc i = length ss \<Longrightarrow>
   length ss \<le> Suc (length ps)"
proof (induction ss arbitrary: ps)
  case Nil
  then show ?case by simp
next
  case (Cons s ss)
  show ?case
  proof (cases "seg_Type s = WildcardSegment")
    case True
    with Cons.prems(2) [rule_format, of 0] show ?thesis by simp
  next
    case False
    with Cons.prems(1) obtain p ps' where ps: "ps = p # ps'" and acc: "seg_accepts ss ps'"
      by (cases ps; cases "seg_Type s") auto
    have "length ss \<le> Suc (length ps')"
      using Cons.IH [OF acc wildcard_last_tl [OF Cons.prems(2)]] .
    with ps show ?thesis by simp
  qed
qed

abbreviation path_segments :: "string \<Rightarrow> string list" where
  "path_segments path \<equiv> Split (CHR ''/'') (Trim (CHR ''/'') path)"

lemma no_params_static:
  assumes "pattern_ok rp" "rp_NumParams rp = 0" "\<not> rp_HasWildcard rp"
  shows "\<forall>s \<in> set (rp_Segments rp). seg_Type s = StaticSegment"
  using assms segment_type.exhaust unfolding pattern_ok_def
  by (metis (full_types) filter_empty_conv length_0_conv)

lemma Match_accepts:
  assumes "pattern_ok rp"
  shows "Match rp path \<noteq> None \<longleftrightarrow> seg_accepts (rp_Segments rp) (path_segments path)"
proof -
  let ?ss = "rp_Segments rp" and ?ps = "path_segments path"
  have wild: "rp_HasWildcard rp \<longleftrightarrow> (\<exists>s \<in> set ?ss. seg_Type s = WildcardSegment)"
    and lst: "\<forall>i < length ?ss. seg_Type (?ss ! i) = WildcardSegment \<longrightarrow> Suc i = length ?ss"
    using assms by (auto simp: pattern_ok_def)
  consider (static) "rp_NumParams rp = 0" "\<not> rp_HasWildcard rp"
    | (wild) "rp_HasWildcard rp" | (param) "rp_NumParams rp \<noteq> 0" "\<not> rp_HasWildcard rp"
    by blast
  then show ?thesis
  proof cases
    case static
    have st: "\<forall>s \<in> set ?ss. seg_Type s = StaticSegment"
      using no_params_static [OF assms] static by blast
    then have "seg_accepts ?ss ?ps \<Longrightarrow> length ?ps = length ?ss"
      by (intro seg_accepts_length) auto
    with static st show ?thesis
      by (auto simp: Match_def Let_def match_static_accepts)
  next
    case wild
    then have "seg_accepts ?ss ?ps \<Longrightarrow> \<not> int (length ?ps) < int (length ?ss) - 1"
      using seg_accepts_min_length [OF _ lst, of ?ps] by linarith
    then show ?thesis using wild \<open>rp_HasWildcard rp \<longleftrightarrow> _\<close> match_segments_accepts [of ?ps ?ss "[]"]
      by (auto simp: Match_def Let_def)
  next
    case param
    then have "seg_accepts ?ss ?ps \<Longrightarrow> length ?ps = length ?ss"
      using wild by (intro seg_accepts_length) auto
    with param show ?thesis using match_segments_accepts [of ?ps ?ss "[]"]
      by (auto simp: Match_def Let_def)
  qed
qed

section \<open>Parameters of a match\<close>

text \<open>A path rebuilt from a pattern and the parameters that a match bound.\<close>

fun fill :: "path_segment list \<Rightarrow> (string, string) gomap \<Rightarrow> string list" where
  "fill [] params = []"
| "fill (s # ss) params =
     (case seg_Type s of
        StaticSegment \<Rightarrow> seg_Value s # fill ss params
      | ParamSegment \<Rightarrow> (case mget params (seg_Value s) of Some v \<Rightarrow> v | None \<Rightarrow> []) # fill ss params
      | WildcardSegment \<Rightarrow> [case mget params ''*'' of Some v \<Rightarrow> v | None \<Rightarrow> []])"

definition param_names :: "path_segment list \<Rightarrow> string list" where
  "param_names ss = map seg_Value (filter (\<lambda>s. seg_Type s = ParamSegment) ss)"

lemma param_names_simps [simp]:
  "param_names [] = []"
  "param_names (s # ss) =
     (if seg_Type s = ParamSegment then seg_Value s # param_names ss else param_names ss)"
  by (simp_all add: param_names_def)

lemma match_segments_frame:
  assumes "match_segments ss ps params = Some params'" "k \<notin> set (param_names ss)" "k \<noteq> ''*''"
  shows "mget params' k = mget params k"
  using assms
proof (induction ss arbitrary: ps params)
  case Nil
  then show ?case by simp
next
  case (Cons s ss)
  then show ?case
    by (cases "seg_Type s") (auto simp: mget_mput split: list.splits if_splits)
qed

text \<open>
  The segments that the parameters stand for: all of the path, or, when a wildcard took the rest,
  the path with that rest joined into one piece.
\<close>

lemma match_segments_fill:
  assumes "match_segments ss ps params = Some params'"
    and "distinct (param_names ss)" and "''*'' \<notin> set (param_names ss)"
    and "length ps = length ss \<or> (\<exists>s \<in> set ss. seg_Type s = WildcardSegment)"
  shows "\<exists>front rest. ps = front @ rest \<and>
           fill ss params' = front @ (if \<exists>s \<in> set ss. seg_Type s = WildcardSegment
                                      then [Join ''/'' rest] else rest)"
  using assms
proof (induction ss arbitrary: ps params)
  case Nil
  then show ?case by auto
next
  case (Cons s ss)
  show ?case
  proof (cases "seg_Type s = WildcardSegment")
    case True
    with Cons.prems show ?thesis by (auto simp: mget_mput)
  next
    case False
    then obtain p ps' params1 where ps: "ps = p # ps'"
      and rec: "match_segments ss ps' params1 = Some params'"
      and p1: "seg_Type s = ParamSegment \<Longrightarrow> params1 = mput (seg_Value s) p params"
      and st: "seg_Type s = StaticSegment \<Longrightarrow> seg_Value s = p"
      using Cons.prems(1) by (cases "seg_Type s") (auto split: list.splits if_splits)
    have "\<exists>front rest. ps' = front @ rest \<and>
           fill ss params' = front @ (if \<exists>s \<in> set ss. seg_Type s = WildcardSegment
                                      then [Join ''/'' rest] else rest)"
      using Cons.prems False ps by (intro Cons.IH [OF rec]) (auto split: if_splits)
    then obtain front rest where IH: "ps' = front @ rest"
      "fill ss params' = front @ (if \<exists>s \<in> set ss. seg_Type s = WildcardSegment
                                  then [Join ''/'' rest] else rest)"
      by blast
    have val: "seg_Type s = ParamSegment \<Longrightarrow> mget params' (seg_Value s) = Some p"
      using match_segments_frame [OF rec, of "seg_Value s"] p1 Cons.prems(2,3)
      by (auto simp: mget_mput)
    have "fill (s # ss) params' = p # fill ss params'"
      using False st val by (cases "seg_Type s") auto
    moreover have "(\<exists>x \<in> set (s # ss). seg_Type x = WildcardSegment)
                   \<longleftrightarrow> (\<exists>x \<in> set ss. seg_Type x = WildcardSegment)"
      using False by simp
    ultimately show ?thesis using IH ps
      by (intro exI [of _ "p # front"] exI [of _ rest]) (simp only: append_Cons)
  qed
qed

lemma Join_append: "xs \<noteq> [] \<Longrightarrow> ys \<noteq> [] \<Longrightarrow> Join sep (xs @ ys) = Join sep xs @ sep @ Join sep ys"
proof (induction xs)
  case Nil
  then show ?case by simp
next
  case (Cons x xs)
  then show ?case by (cases xs) (auto simp: Join_Cons)
qed

lemma Join_rest:
  "Join ''/'' (front @ [Join ''/'' rest]) =
     (if rest = [] \<and> front \<noteq> [] then Join ''/'' front @ ''/'' else Join ''/'' (front @ rest))"
  by (cases "front = []"; cases "rest = []") (auto simp: Join_append)

lemma Trim_back [simp]: "Trim c (s @ [c]) = Trim c s"
proof (cases "set s \<subseteq> {c}")
  case True
  then show ?thesis using Trim_all [of s c] Trim_all [of "s @ [c]" c] by simp
next
  case False
  then obtain x where "x \<in> set s" "x \<noteq> c" by auto
  then have "dropWhile (\<lambda>x. x = c) (s @ [c]) = dropWhile (\<lambda>x. x = c) s @ [c]"
    by (intro dropWhile_append1) auto
  then show ?thesis by (simp add: Trim_def)
qed

lemma hd_dropWhile_neq: "dropWhile (\<lambda>x. x = c) s \<noteq> [] \<Longrightarrow> hd (dropWhile (\<lambda>x. x = c) s) \<noteq> c"
  by (induction s) auto

lemma Trim_idem [simp]: "Trim c (Trim c s) = Trim c s"
proof -
  let ?f = "dropWhile (\<lambda>x. x = c) s"
  let ?t = "dropWhile (\<lambda>x. x = c) (rev ?f)"
  have t: "Trim c s = rev ?t" by (simp add: Trim_def)
  show ?thesis
  proof (cases "?t = []")
    case True
    then have "Trim c s = []" unfolding t by (simp only: rev.simps)
    then show ?thesis by (simp add: Trim_def [of c "[]"])
  next
    case False
    then have lst: "last (rev ?t) \<noteq> c"
      using hd_dropWhile_neq [of c "rev ?f"] by (simp add: last_rev)
    obtain pre where pre: "rev ?f = pre @ ?t"
      by (metis takeWhile_dropWhile_id)
    then have f: "?f = rev ?t @ rev pre"
      by (metis rev_append rev_rev_ident)
    then have "hd (rev ?t) = hd ?f" using False
      by (metis hd_append2 rev_is_Nil_conv)
    moreover have "hd ?f \<noteq> c"
      using f False by (intro hd_dropWhile_neq) (metis append_is_Nil_conv rev_is_Nil_conv)
    ultimately have "hd (rev ?t) \<noteq> c" by simp
    with lst show ?thesis unfolding t by (intro Trim_id) auto
  qed
qed

lemma path_segments_Join: "Join ''/'' (path_segments path) = Trim (CHR ''/'') path"
  by (rule Join_Split)

lemma Match_segments_cases:
  assumes "Match rp path = Some params" "pattern_ok rp"
  obtains "match_segments (rp_Segments rp) (path_segments path) [] = Some params"
    "length (path_segments path) = length (rp_Segments rp)
       \<or> (\<exists>s \<in> set (rp_Segments rp). seg_Type s = WildcardSegment)"
  | "path_segments path = map seg_Value (rp_Segments rp)" "params = []"
    "\<forall>s \<in> set (rp_Segments rp). seg_Type s = StaticSegment"
proof (cases "rp_NumParams rp = 0 \<and> \<not> rp_HasWildcard rp")
  case True
  then have st: "\<forall>s \<in> set (rp_Segments rp). seg_Type s = StaticSegment"
    using no_params_static [OF assms(2)] by blast
  have eq: "match_static ss ps \<Longrightarrow> length ps = length ss \<Longrightarrow> ps = map seg_Value ss" for ss ps
    by (induction ss ps rule: match_static.induct) (auto split: if_splits)
  show ?thesis using True assms(1) st eq
    by (intro that(2)) (auto simp: Match_def Let_def split: if_splits)
next
  case False
  then show ?thesis using assms
    by (intro that(1)) (auto simp: Match_def Let_def pattern_ok_def split: if_splits)
qed

lemma fill_static:
  "\<forall>s \<in> set ss. seg_Type s = StaticSegment \<Longrightarrow> fill ss params = map seg_Value ss"
  by (induction ss) auto

lemma Match_fill:
  assumes m: "Match rp path = Some params" and ok: "pattern_ok rp"
    and d: "distinct (param_names (rp_Segments rp))" "''*'' \<notin> set (param_names (rp_Segments rp))"
  shows "Trim (CHR ''/'') (Join ''/'' (fill (rp_Segments rp) params)) = Trim (CHR ''/'') path"
  using m ok
proof (cases rule: Match_segments_cases)
  case 1
  from match_segments_fill [OF 1(1) d 1(2)] obtain front rest where
    ps: "path_segments path = front @ rest" and
    f: "fill (rp_Segments rp) params = front @ [Join ''/'' rest]
        \<or> fill (rp_Segments rp) params = front @ rest"
    by (auto split: if_splits)
  have "Join ''/'' (fill (rp_Segments rp) params) \<in>
          {Trim (CHR ''/'') path, Trim (CHR ''/'') path @ ''/''}"
    using f ps path_segments_Join [of path] by (auto simp: Join_rest)
  then show ?thesis by auto
next
  case 2
  then show ?thesis using path_segments_Join [of path] by (simp add: fill_static)
qed

section \<open>The precedence order\<close>

interpretation rl: strict_weak route_less
  by unfold_locales (auto simp: route_less_def split: if_splits)

section \<open>The table's invariant\<close>

definition entry_ok :: "string \<Rightarrow> route_entry \<Rightarrow> bool" where
  "entry_ok mthd e \<longleftrightarrow>
     rm_Method (re_Metadata e) = mthd
     \<and> re_Pattern e = ParsePattern (rm_Path (re_Metadata e))
     \<and> rm_Path (re_Metadata e) \<noteq> [] \<and> rm_ServiceID (re_Metadata e) \<noteq> []"

definition table_inv :: "routing_table \<Rightarrow> bool" where
  "table_inv rt \<longleftrightarrow>
     wfmap (rt_routes rt)
     \<and> (\<forall>mthd es. mget (rt_routes rt) mthd = Some es \<longrightarrow>
           ordered route_less es \<and> (\<forall>e \<in> set es. entry_ok mthd e))"

definition table_routes :: "routing_table \<Rightarrow> route_metadata set" where
  "table_routes rt =
     {re_Metadata e | e mthd es. mget (rt_routes rt) mthd = Some es \<and> e \<in> set es}"

lemma table_inv_new: "table_inv NewRoutingTable"
  by (simp add: table_inv_def NewRoutingTable_def)

lemma AddRoute_Inr:
  "AddRoute route rt = Inr rt' \<longleftrightarrow>
     rm_Path route \<noteq> [] \<and> rm_Method route \<noteq> [] \<and> rm_ServiceID route \<noteq> []
     \<and> rt' = rt\<lparr>rt_routes :=
         mput (rm_Method route)
           (SliceStable route_less
              ((case mget (rt_routes rt) (rm_Method route) of None \<Rightarrow> [] | Some rs \<Rightarrow> rs)
                @ [\<lparr>re_Metadata = route, re_Pattern = ParsePattern (rm_Path route)\<rparr>]))
           (mput (rm_Method route)
              ((case mget (rt_routes rt) (rm_Method route) of None \<Rightarrow> [] | Some rs \<Rightarrow> rs)
                @ [\<lparr>re_Metadata = route, re_Pattern = ParsePattern (rm_Path route)\<rparr>])
              (rt_routes rt))\<rparr>"
  by (auto simp: AddRoute_def Let_def sortRoutes_def mget_mput)

lemma AddRoute_mget:
  assumes "AddRoute route rt = Inr rt'"
  shows "mget (rt_routes rt') mthd =
    (if mthd = rm_Method route
     then Some (SliceStable route_less
                 ((case mget (rt_routes rt) mthd of None \<Rightarrow> [] | Some rs \<Rightarrow> rs)
                   @ [\<lparr>re_Metadata = route, re_Pattern = ParsePattern (rm_Path route)\<rparr>]))
     else mget (rt_routes rt) mthd)"
  using assms by (auto simp: AddRoute_Inr mget_mput)

lemma AddRoute_inv: "table_inv rt \<Longrightarrow> AddRoute route rt = Inr rt' \<Longrightarrow> table_inv rt'"
proof -
  assume inv: "table_inv rt" and add: "AddRoute route rt = Inr rt'"
  have wf: "wfmap (rt_routes rt')"
    using inv add by (auto simp: AddRoute_Inr table_inv_def intro!: wfmap_mput)
  have ne: "rm_Path route \<noteq> []" "rm_ServiceID route \<noteq> []"
    using add by (auto simp: AddRoute_Inr)
  have old: "\<forall>e \<in> set (case mget (rt_routes rt) mthd of None \<Rightarrow> [] | Some rs \<Rightarrow> rs). entry_ok mthd e"
    for mthd
    using inv by (cases "mget (rt_routes rt) mthd") (auto simp: table_inv_def)
  have new: "entry_ok (rm_Method route) \<lparr>re_Metadata = route, re_Pattern = ParsePattern (rm_Path route)\<rparr>"
    using ne by (simp add: entry_ok_def)
  have "ordered route_less es \<and> (\<forall>e \<in> set es. entry_ok mthd e)"
    if m: "mget (rt_routes rt') mthd = Some es" for mthd es
  proof (cases "mthd = rm_Method route")
    case True
    let ?old = "case mget (rt_routes rt) mthd of None \<Rightarrow> [] | Some rs \<Rightarrow> rs"
    let ?new = "\<lparr>re_Metadata = route, re_Pattern = ParsePattern (rm_Path route)\<rparr>"
    have es: "es = SliceStable route_less (?old @ [?new])"
      using m True by (simp add: AddRoute_mget [OF add])
    have "set es = set ?old \<union> {?new}" unfolding es set_SliceStable by simp
    with old [of mthd] new True have "\<forall>e \<in> set es. entry_ok mthd e" by blast
    then show ?thesis unfolding es using rl.ordered_SliceStable by blast
  next
    case False
    with m inv show ?thesis by (simp add: AddRoute_mget [OF add] table_inv_def)
  qed
  with wf show ?thesis unfolding table_inv_def by blast
qed

lemma AddRoute_routes:
  "AddRoute route rt = Inr rt' \<Longrightarrow> table_routes rt' = insert route (table_routes rt)"
proof -
  assume add: "AddRoute route rt = Inr rt'"
  show ?thesis
  proof (intro set_eqI iffI)
    fix r assume "r \<in> table_routes rt'"
    then show "r \<in> insert route (table_routes rt)"
      by (auto simp: table_routes_def AddRoute_mget [OF add] split: if_splits option.splits)
  next
    fix r assume "r \<in> insert route (table_routes rt)"
    then consider "r = route"
      | e mthd es where "r = re_Metadata e" "mget (rt_routes rt) mthd = Some es" "e \<in> set es"
      by (auto simp: table_routes_def)
    then show "r \<in> table_routes rt'"
    proof cases
      case 1
      have "mget (rt_routes rt') (rm_Method route) \<noteq> None"
        by (simp add: AddRoute_mget [OF add])
      with 1 show ?thesis unfolding table_routes_def
        by (intro CollectI exI [of _ "\<lparr>re_Metadata = route, re_Pattern = ParsePattern (rm_Path route)\<rparr>"]
              exI [of _ "rm_Method route"]) (auto simp: AddRoute_mget [OF add])
    next
      case 2
      show ?thesis unfolding table_routes_def using 2
        by (intro CollectI exI [of _ e] exI [of _ mthd]) (auto simp: AddRoute_mget [OF add])
    qed
  qed
qed

lemma RemoveRoute_mget:
  "mget (rt_routes (RemoveRoute sid m path rt)) mthd =
     (if mthd = m
      then map_option (filter (\<lambda>e. \<not> (rm_ServiceID (re_Metadata e) = sid \<and> rm_Path (re_Metadata e) = path)))
             (mget (rt_routes rt) mthd)
      else mget (rt_routes rt) mthd)"
  by (auto simp: RemoveRoute_def mget_mput split: option.splits)

lemma RemoveRoute_inv: "table_inv rt \<Longrightarrow> table_inv (RemoveRoute sid m path rt)"
proof -
  assume inv: "table_inv rt"
  then have "wfmap (rt_routes (RemoveRoute sid m path rt))"
    by (auto simp: RemoveRoute_def table_inv_def intro!: wfmap_mput split: option.splits)
  with inv show ?thesis
    by (auto simp: table_inv_def RemoveRoute_mget ordered_filter)
qed

lemma remove_service_step_mget:
  "mget (remove_service_step sid m mp) mthd =
     (if mthd = m
      then (case mget mp mthd of
              None \<Rightarrow> None
            | Some es \<Rightarrow> let es' = filter (\<lambda>e. rm_ServiceID (re_Metadata e) \<noteq> sid) es
                         in if es' = [] then None else Some es')
      else mget mp mthd)"
  by (auto simp: remove_service_step_def Let_def mget_mput mget_mdel split: option.splits)

lemma remove_service_fold_mget:
  "distinct order \<Longrightarrow>
   mget (fold (remove_service_step sid) order mp) mthd =
     (if mthd \<in> set order
      then (case mget mp mthd of
              None \<Rightarrow> None
            | Some es \<Rightarrow> let es' = filter (\<lambda>e. rm_ServiceID (re_Metadata e) \<noteq> sid) es
                         in if es' = [] then None else Some es')
      else mget mp mthd)"
  by (induction order arbitrary: mp) (auto simp: remove_service_step_mget)

lemma remove_service_fold_wf: "wfmap mp \<Longrightarrow> wfmap (fold (remove_service_step sid) order mp)"
  by (induction order arbitrary: mp)
    (auto simp: remove_service_step_def Let_def intro!: wfmap_mput wfmap_mdel split: option.splits)

lemma RemoveServiceRoutes_mget:
  assumes "is_order order (rt_routes rt)"
  shows "mget (rt_routes (RemoveServiceRoutes order sid rt)) mthd =
     (case mget (rt_routes rt) mthd of
        None \<Rightarrow> None
      | Some es \<Rightarrow> let es' = filter (\<lambda>e. rm_ServiceID (re_Metadata e) \<noteq> sid) es
                   in if es' = [] then None else Some es')"
proof (cases "mthd \<in> set order")
  case True
  with assms show ?thesis
    by (simp add: RemoveServiceRoutes_def remove_service_fold_mget is_order_def)
next
  case False
  then have "mget (rt_routes rt) mthd = None"
    using assms is_order_mem by metis
  with False assms show ?thesis
    by (simp add: RemoveServiceRoutes_def remove_service_fold_mget is_order_def)
qed

lemma RemoveServiceRoutes_inv:
  assumes "table_inv rt" "is_order order (rt_routes rt)"
  shows "table_inv (RemoveServiceRoutes order sid rt)"
proof -
  have "wfmap (rt_routes (RemoveServiceRoutes order sid rt))"
    using assms by (simp add: RemoveServiceRoutes_def table_inv_def remove_service_fold_wf)
  with assms(1) show ?thesis
    by (auto simp: table_inv_def RemoveServiceRoutes_mget [OF assms(2)] Let_def ordered_filter
        split: option.splits if_splits)
qed

lemma RemoveServiceRoutes_routes:
  assumes "is_order order (rt_routes rt)"
  shows "table_routes (RemoveServiceRoutes order sid rt) =
           {r \<in> table_routes rt. rm_ServiceID r \<noteq> sid}"
proof -
  have iff: "(\<exists>es. mget (rt_routes (RemoveServiceRoutes order sid rt)) mthd = Some es \<and> e \<in> set es)
        \<longleftrightarrow> (\<exists>es. mget (rt_routes rt) mthd = Some es \<and> e \<in> set es) \<and> rm_ServiceID (re_Metadata e) \<noteq> sid"
    for e mthd
    by (auto simp: RemoveServiceRoutes_mget [OF assms] Let_def filter_empty_conv split: option.splits)
  show ?thesis unfolding table_routes_def using iff by blast
qed

section \<open>Lookup\<close>

lemma first_match_Some:
  assumes "first_match es path = Some (r, ps)"
  shows "\<exists>xs e ys. es = xs @ e # ys \<and> re_Metadata e = r \<and> Match (re_Pattern e) path = Some ps
           \<and> (\<forall>x \<in> set xs. Match (re_Pattern x) path = None)"
  using assms
proof (induction es)
  case Nil
  then show ?case by simp
next
  case (Cons a es)
  show ?case
  proof (cases "Match (re_Pattern a) path")
    case None
    with Cons obtain xs e ys where "es = xs @ e # ys" "re_Metadata e = r"
      "Match (re_Pattern e) path = Some ps" "\<forall>x \<in> set xs. Match (re_Pattern x) path = None"
      by auto
    with None show ?thesis by (intro exI [of _ "a # xs"]) auto
  next
    case (Some params)
    with Cons.prems show ?thesis by (intro exI [of _ "[]"]) auto
  qed
qed

lemma first_match_None: "first_match es path = None \<longleftrightarrow> (\<forall>e \<in> set es. Match (re_Pattern e) path = None)"
  by (induction es) (auto split: option.splits)

lemma LookupRoute_member: "LookupRoute rt mthd path = Some (r, ps) \<Longrightarrow> r \<in> table_routes rt"
  unfolding LookupRoute_def table_routes_def
  by (fastforce split: option.splits dest!: first_match_Some)

text \<open>
  What the gateway relies on of a routing table: which routes the two updates leave, and that a
  lookup answers with a route of the table.
\<close>

locale route_table =
  fixes inv :: "'t \<Rightarrow> bool"
    and routes :: "'t \<Rightarrow> route_metadata set"
    and add :: "route_metadata \<Rightarrow> 't \<Rightarrow> route_error + 't"
    and remove_service :: "string list \<Rightarrow> string \<Rightarrow> 't \<Rightarrow> 't"
    and lookup :: "'t \<Rightarrow> string \<Rightarrow> string \<Rightarrow> (route_metadata \<times> (string, string) gomap) option"
    and range_ok :: "string list \<Rightarrow> 't \<Rightarrow> bool"
  assumes add_inv: "inv t \<Longrightarrow> add r t = Inr t' \<Longrightarrow> inv t'"
    and add_routes: "add r t = Inr t' \<Longrightarrow> routes t' = insert r (routes t)"
    and add_error: "add r t = Inl e \<Longrightarrow> rm_Path r = [] \<or> rm_Method r = [] \<or> rm_ServiceID r = []"
    and remove_inv: "inv t \<Longrightarrow> range_ok order t \<Longrightarrow> inv (remove_service order sid t)"
    and remove_routes:
      "range_ok order t \<Longrightarrow> routes (remove_service order sid t) = {r \<in> routes t. rm_ServiceID r \<noteq> sid}"
    and lookup_routes: "lookup t mthd path = Some (r, ps) \<Longrightarrow> r \<in> routes t"
begin

lemma removed_never_found:
  "range_ok order t \<Longrightarrow> lookup (remove_service order sid t) mthd path = Some (r, ps)
   \<Longrightarrow> rm_ServiceID r \<noteq> sid"
  using lookup_routes remove_routes by blast

lemma add_ok: "rm_Path r \<noteq> [] \<Longrightarrow> rm_Method r \<noteq> [] \<Longrightarrow> rm_ServiceID r \<noteq> [] \<Longrightarrow> \<exists>t'. add r t = Inr t'"
  using add_error by (cases "add r t") blast+

end

interpretation gwt: route_table table_inv table_routes AddRoute RemoveServiceRoutes LookupRoute
  "\<lambda>order t. is_order order (rt_routes t)"
proof unfold_locales
  show "AddRoute r t = Inl e \<Longrightarrow> rm_Path r = [] \<or> rm_Method r = [] \<or> rm_ServiceID r = []" for r t e
    by (auto simp: AddRoute_def Let_def split: if_splits)
qed (auto simp: AddRoute_inv AddRoute_routes RemoveServiceRoutes_inv RemoveServiceRoutes_routes
    LookupRoute_member)

text \<open>Tables the operations build, starting from the empty table.\<close>

inductive reachable_table :: "routing_table \<Rightarrow> bool" where
  new_table: "reachable_table NewRoutingTable"
| add_route: "reachable_table rt \<Longrightarrow> AddRoute route rt = Inr rt' \<Longrightarrow> reachable_table rt'"
| remove_route: "reachable_table rt \<Longrightarrow> reachable_table (RemoveRoute sid mthd path rt)"
| remove_service: "reachable_table rt \<Longrightarrow> is_order order (rt_routes rt) \<Longrightarrow>
     reachable_table (RemoveServiceRoutes order sid rt)"

lemma reachable_table_inv: "reachable_table rt \<Longrightarrow> table_inv rt"
  by (induction rule: reachable_table.induct)
    (auto intro: table_inv_new gwt.add_inv RemoveRoute_inv gwt.remove_inv)

section \<open>The pattern language\<close>

text \<open>
  A pattern read as the list of its non-empty pieces: a star takes any rest, a piece that starts
  with a colon any one segment, any other piece the segment equal to it.
\<close>

fun word_accepts :: "string list \<Rightarrow> string list \<Rightarrow> bool" where
  "word_accepts [] ps = (ps = [])"
| "word_accepts (w # ws) ps =
     (if w = ''*'' then True
      else (case ps of
              [] \<Rightarrow> False
            | p # ps' \<Rightarrow> (HasPrefix w '':'' \<or> p = w) \<and> word_accepts ws ps'))"

abbreviation pattern_words :: "string \<Rightarrow> string list" where
  "pattern_words pattern \<equiv> filter (\<lambda>w. w \<noteq> []) (path_segments pattern)"

lemma parse_segments_prefix:
  "\<exists>ss. rp_Segments (parse_segments segs r) = rp_Segments r @ ss
     \<and> (\<forall>ps. seg_accepts ss ps \<longleftrightarrow> word_accepts (filter (\<lambda>w. w \<noteq> []) segs) ps)"
proof (induction segs r rule: parse_segments.induct)
  case (1 r)
  then show ?case by simp
next
  case (2 seg rest r)
  consider "seg = []" | "seg = ''*''" | "seg \<noteq> []" "seg \<noteq> ''*''" "HasPrefix seg '':''"
    | "seg \<noteq> []" "seg \<noteq> ''*''" "\<not> HasPrefix seg '':''" by blast
  then show ?case
  proof cases
    case 1
    with "2.IH"(1) show ?thesis by simp
  next
    case 2
    have "seg_accepts [\<lparr>seg_Type = WildcardSegment, seg_Value = []\<rparr>] ps" for ps by (cases ps) auto
    with 2 show ?thesis by auto
  next
    case 3
    from "2.IH"(2) [OF 3] obtain ss where ss:
      "rp_Segments (parse_segments (seg # rest) r)
         = rp_Segments r @ \<lparr>seg_Type = ParamSegment, seg_Value = drop 1 seg\<rparr> # ss"
      "\<forall>ps. seg_accepts ss ps \<longleftrightarrow> word_accepts (filter (\<lambda>w. w \<noteq> []) rest) ps"
      using 3 by auto
    have "seg_accepts (\<lparr>seg_Type = ParamSegment, seg_Value = drop 1 seg\<rparr> # ss) ps
            \<longleftrightarrow> word_accepts (filter (\<lambda>w. w \<noteq> []) (seg # rest)) ps" for ps
      using 3 ss(2) by (cases ps) auto
    with ss(1) show ?thesis by blast
  next
    case 4
    from "2.IH"(3) [OF 4] obtain ss where ss:
      "rp_Segments (parse_segments (seg # rest) r)
         = rp_Segments r @ \<lparr>seg_Type = StaticSegment, seg_Value = seg\<rparr> # ss"
      "\<forall>ps. seg_accepts ss ps \<longleftrightarrow> word_accepts (filter (\<lambda>w. w \<noteq> []) rest) ps"
      using 4 by auto
    have "seg_accepts (\<lparr>seg_Type = StaticSegment, seg_Value = seg\<rparr> # ss) ps
            \<longleftrightarrow> word_accepts (filter (\<lambda>w. w \<noteq> []) (seg # rest)) ps" for ps
      using 4 ss(2) by (cases ps) auto
    with ss(1) show ?thesis by blast
  qed
qed

lemma ParsePattern_accepts:
  "seg_accepts (rp_Segments (ParsePattern pattern)) ps \<longleftrightarrow> word_accepts (pattern_words pattern) ps"
  using parse_segments_prefix [of "path_segments pattern"
      "\<lparr>rp_Original = pattern, rp_Segments = [], rp_HasWildcard = False, rp_NumParams = 0\<rparr>"]
  by (auto simp: ParsePattern_def)

lemma Match_words:
  "Match (ParsePattern pattern) path \<noteq> None
     \<longleftrightarrow> word_accepts (pattern_words pattern) (path_segments path)"
  using Match_accepts [OF ParsePattern_ok] ParsePattern_accepts by metis

lemma table_inv_entry:
  assumes "table_inv rt" "mget (rt_routes rt) mthd = Some es" "e \<in> set es"
  shows "rm_Method (re_Metadata e) = mthd" "re_Pattern e = ParsePattern (rm_Path (re_Metadata e))"
  using assms by (auto simp: table_inv_def entry_ok_def)

lemma table_routes_method:
  assumes "table_inv rt" "r \<in> table_routes rt"
  shows "\<exists>es e. mget (rt_routes rt) (rm_Method r) = Some es \<and> e \<in> set es
           \<and> e = \<lparr>re_Metadata = r, re_Pattern = ParsePattern (rm_Path r)\<rparr>"
proof -
  from assms(2) obtain e mthd es where e: "r = re_Metadata e"
    "mget (rt_routes rt) mthd = Some es" "e \<in> set es"
    by (auto simp: table_routes_def)
  moreover have "rm_Method r = mthd" "re_Pattern e = ParsePattern (rm_Path r)"
    using table_inv_entry [OF assms(1) e(2,3)] e(1) by auto
  ultimately show ?thesis by (metis route_entry.surjective unit.exhaust)
qed

text \<open>One list of the table: what its first match says of the routes of that method.\<close>

definition lookup_in :: "routing_table \<Rightarrow> string \<Rightarrow> string \<Rightarrow> (route_metadata \<times> (string, string) gomap) option" where
  "lookup_in rt mthd path =
     (case mget (rt_routes rt) mthd of Some entries \<Rightarrow> first_match entries path | None \<Rightarrow> None)"

lemma LookupRoute_alt:
  "LookupRoute rt mthd path =
     (case lookup_in rt mthd path of Some r \<Rightarrow> Some r | None \<Rightarrow> lookup_in rt ''*'' path)"
  unfolding LookupRoute_def lookup_in_def by (rule refl)

text \<open>
  The order of precedence, stated over the segments of the two paths: a higher priority first, then
  no wildcard segment, then fewer parameter segments, then more segments.
\<close>

definition wild_path :: "string \<Rightarrow> bool" where
  "wild_path path \<longleftrightarrow> (\<exists>s \<in> set (rp_Segments (ParsePattern path)). seg_Type s = WildcardSegment)"

definition path_params :: "string \<Rightarrow> nat" where
  "path_params path = length (filter (\<lambda>s. seg_Type s = ParamSegment) (rp_Segments (ParsePattern path)))"

definition route_before :: "route_metadata \<Rightarrow> route_metadata \<Rightarrow> bool" where
  "route_before r r' \<longleftrightarrow>
     rm_Priority r > rm_Priority r'
     \<or> rm_Priority r = rm_Priority r' \<and>
       (\<not> wild_path (rm_Path r) \<and> wild_path (rm_Path r')
        \<or> wild_path (rm_Path r) = wild_path (rm_Path r') \<and>
          (path_params (rm_Path r) < path_params (rm_Path r')
           \<or> path_params (rm_Path r) = path_params (rm_Path r')
             \<and> length (rp_Segments (ParsePattern (rm_Path r))) > length (rp_Segments (ParsePattern (rm_Path r')))))"

lemma route_before_less:
  "route_before r r' = route_less \<lparr>re_Metadata = r, re_Pattern = ParsePattern (rm_Path r)\<rparr>
                                  \<lparr>re_Metadata = r', re_Pattern = ParsePattern (rm_Path r')\<rparr>"
proof -
  have "rp_HasWildcard (ParsePattern p) = wild_path p" "rp_NumParams (ParsePattern p) = path_params p" for p
    using ParsePattern_ok [of p] by (simp_all add: pattern_ok_def wild_path_def path_params_def)
  then show ?thesis by (auto simp: route_before_def route_less_def)
qed

lemma lookup_in_None:
  assumes "table_inv rt"
  shows "lookup_in rt mthd path = None \<longleftrightarrow>
           (\<forall>r \<in> table_routes rt. rm_Method r = mthd \<longrightarrow>
              \<not> word_accepts (pattern_words (rm_Path r)) (path_segments path))"
proof
  assume none: "lookup_in rt mthd path = None"
  show "\<forall>r \<in> table_routes rt. rm_Method r = mthd \<longrightarrow>
          \<not> word_accepts (pattern_words (rm_Path r)) (path_segments path)"
  proof (intro ballI impI)
    fix r assume "r \<in> table_routes rt" "rm_Method r = mthd"
    with table_routes_method [OF assms] obtain es where
      "mget (rt_routes rt) mthd = Some es"
      "\<lparr>re_Metadata = r, re_Pattern = ParsePattern (rm_Path r)\<rparr> \<in> set es" by blast
    with none have "Match (ParsePattern (rm_Path r)) path = None"
      by (auto simp: lookup_in_def first_match_None)
    then show "\<not> word_accepts (pattern_words (rm_Path r)) (path_segments path)"
      using Match_words by blast
  qed
next
  assume all: "\<forall>r \<in> table_routes rt. rm_Method r = mthd \<longrightarrow>
          \<not> word_accepts (pattern_words (rm_Path r)) (path_segments path)"
  have "Match (re_Pattern e) path = None" if "mget (rt_routes rt) mthd = Some es" "e \<in> set es" for es e
  proof -
    have "re_Metadata e \<in> table_routes rt" using that by (auto simp: table_routes_def)
    with all table_inv_entry [OF assms that] show ?thesis using Match_words by metis
  qed
  then show "lookup_in rt mthd path = None"
    by (auto simp: lookup_in_def first_match_None split: option.splits)
qed

lemma lookup_in_Some:
  assumes "table_inv rt" "lookup_in rt mthd path = Some (r, params)"
  shows "r \<in> table_routes rt" "rm_Method r = mthd"
    "Match (ParsePattern (rm_Path r)) path = Some params"
    "\<forall>r' \<in> table_routes rt. rm_Method r' = mthd \<and> route_before r' r \<longrightarrow>
       \<not> word_accepts (pattern_words (rm_Path r')) (path_segments path)"
proof -
  from assms(2) obtain es where es: "mget (rt_routes rt) mthd = Some es"
    and fm: "first_match es path = Some (r, params)"
    by (auto simp: lookup_in_def split: option.splits)
  from first_match_Some [OF fm] obtain xs e ys where split: "es = xs @ e # ys"
    and e: "re_Metadata e = r" "Match (re_Pattern e) path = Some params"
    and before: "\<forall>x \<in> set xs. Match (re_Pattern x) path = None" by blast
  have mem: "e \<in> set es" using split by simp
  show "r \<in> table_routes rt" using es mem e by (auto simp: table_routes_def)
  show "rm_Method r = mthd" using table_inv_entry [OF assms(1) es mem] e by simp
  have pat: "re_Pattern e = ParsePattern (rm_Path r)"
    using table_inv_entry [OF assms(1) es mem] e by simp
  then show "Match (ParsePattern (rm_Path r)) path = Some params" using e by simp
  have e_eq: "e = \<lparr>re_Metadata = r, re_Pattern = ParsePattern (rm_Path r)\<rparr>"
    using e(1) pat by (metis route_entry.surjective unit.exhaust)
  show "\<forall>r' \<in> table_routes rt. rm_Method r' = mthd \<and> route_before r' r \<longrightarrow>
       \<not> word_accepts (pattern_words (rm_Path r')) (path_segments path)"
  proof (intro ballI impI)
    fix r' assume r': "r' \<in> table_routes rt" "rm_Method r' = mthd \<and> route_before r' r"
    let ?e' = "\<lparr>re_Metadata = r', re_Pattern = ParsePattern (rm_Path r')\<rparr>"
    have "?e' \<in> set es" using table_routes_method [OF assms(1) r'(1)] r'(2) es by auto
    moreover have lt: "route_less ?e' e" using r'(2) e_eq by (simp add: route_before_less)
    moreover have "ordered route_less (xs @ e # ys)"
      using assms(1) es split by (auto simp: table_inv_def)
    ultimately have "?e' \<in> set xs"
      using split rl.less_irrefl ordered_append_before by fastforce
    with before have "Match (ParsePattern (rm_Path r')) path = None" by fastforce
    then show "\<not> word_accepts (pattern_words (rm_Path r')) (path_segments path)"
      using Match_words by blast
  qed
qed

section \<open>Properties\<close>

text \<open>C16: In every table that the operations can build, a successful lookup answers with a route
  of the table whose own pattern matches the path and bound the returned parameters. The route is
  of the requested method, or of the method star when no route of the requested method matches;
  and no route of the same method that comes before it (higher priority, then no wildcard, then
  fewer parameters, then more segments) matches the path.\<close>

theorem LookupRoute_best:
  assumes "reachable_table rt" "LookupRoute rt mthd path = Some (r, params)"
  shows "r \<in> table_routes rt \<and> Match (ParsePattern (rm_Path r)) path = Some params
    \<and> (rm_Method r = mthd \<or>
         rm_Method r = ''*'' \<and>
         (\<forall>r' \<in> table_routes rt. rm_Method r' = mthd \<longrightarrow>
            \<not> word_accepts (pattern_words (rm_Path r')) (path_segments path)))
    \<and> (\<forall>r' \<in> table_routes rt. rm_Method r' = rm_Method r \<and> route_before r' r \<longrightarrow>
          \<not> word_accepts (pattern_words (rm_Path r')) (path_segments path))"
proof -
  have inv: "table_inv rt" using assms(1) by (rule reachable_table_inv)
  show ?thesis
  proof (cases "lookup_in rt mthd path")
    case None
    then have l: "lookup_in rt ''*'' path = Some (r, params)"
      using assms(2) by (simp add: LookupRoute_alt)
    show ?thesis using lookup_in_Some [OF inv l] lookup_in_None [OF inv] None by simp
  next
    case (Some x)
    then have l: "lookup_in rt mthd path = Some (r, params)"
      using assms(2) by (simp add: LookupRoute_alt)
    show ?thesis using lookup_in_Some [OF inv l] by simp
  qed
qed

text \<open>In every table that the operations can build, a lookup fails exactly when no route of
  the requested method and none of the method star has a pattern that accepts the path.\<close>

lemma LookupRoute_None:
  assumes "reachable_table rt"
  shows "LookupRoute rt mthd path = None \<longleftrightarrow>
    (\<forall>r \<in> table_routes rt. rm_Method r = mthd \<or> rm_Method r = ''*'' \<longrightarrow>
       \<not> word_accepts (pattern_words (rm_Path r)) (path_segments path))"
proof -
  have inv: "table_inv rt" using assms by (rule reachable_table_inv)
  have "LookupRoute rt mthd path = None \<longleftrightarrow>
          lookup_in rt mthd path = None \<and> lookup_in rt ''*'' path = None"
    by (auto simp: LookupRoute_alt split: option.splits)
  then show ?thesis unfolding lookup_in_None [OF inv] by blast
qed

text \<open>C21: A parsed pattern matches a path exactly when its non-empty pieces accept the segments of
  the path one by one (a static piece only itself, a parameter any segment, a star any rest); the
  shortcuts of the matcher on lengths and on patterns with no parameters never change the answer.\<close>

theorem Match_correct:
  "Match (ParsePattern pattern) path \<noteq> None
     \<longleftrightarrow> word_accepts (pattern_words pattern) (path_segments path)"
  by (rule Match_words)

text \<open>When the parameter names of a pattern differ, the parameters a match binds determine the
  path: substituting them into the pattern gives the path back, up to slashes at its ends.\<close>

lemma Match_roundtrip:
  assumes "Match (ParsePattern pattern) path = Some params"
    and "distinct (param_names (rp_Segments (ParsePattern pattern)))"
    and "''*'' \<notin> set (param_names (rp_Segments (ParsePattern pattern)))"
  shows "Trim (CHR ''/'') (Join ''/'' (fill (rp_Segments (ParsePattern pattern)) params))
           = Trim (CHR ''/'') path"
  using Match_fill [OF assms(1) ParsePattern_ok assms(2,3)] .

text \<open>After the routes of a service are removed, in whatever order the loop visits the methods,
  no lookup answers with a route of that service, and the routes of all other services are kept.\<close>

lemma RemoveServiceRoutes_complete:
  assumes "is_order order (rt_routes rt)"
  shows "(\<forall>mthd path r params.
            LookupRoute (RemoveServiceRoutes order sid rt) mthd path = Some (r, params) \<longrightarrow>
            rm_ServiceID r \<noteq> sid)
    \<and> table_routes (RemoveServiceRoutes order sid rt) = {r \<in> table_routes rt. rm_ServiceID r \<noteq> sid}"
  using gwt.removed_never_found [OF assms] gwt.remove_routes [OF assms] by blast

text \<open>The pattern of the root path has no segments, and it matches no path at all, not even the
  root path itself, whose segment list is one empty string.\<close>

lemma root_pattern_matches_nothing:
  "rp_Segments (ParsePattern ''/'') = [] \<and> Match (ParsePattern ''/'') path = None"
proof -
  have "\<not> word_accepts (pattern_words ''/'') (path_segments path)" by (simp add: Trim_def)
  then have "Match (ParsePattern ''/'') path = None" using Match_words by blast
  moreover have "rp_Segments (ParsePattern ''/'') = []" by (simp add: ParsePattern_def Trim_def)
  ultimately show ?thesis by blast
qed

section \<open>Witnesses\<close>

definition sample_route :: "string \<Rightarrow> string \<Rightarrow> string \<Rightarrow> bool \<Rightarrow> route_metadata" where
  "sample_route sid mthd path public =
     \<lparr>rm_Path = path, rm_Method = mthd, rm_ServiceID = sid, rm_ServiceName = sid,
      rm_ServiceURL = ''http://'' @ sid, rm_Public = public, rm_RequiredScopes = [],
      rm_Priority = 0, rm_Tags = []\<rparr>"

definition sample_table :: routing_table where
  "sample_table =
     \<lparr>rt_routes =
        [(''GET'',
          [\<lparr>re_Metadata = sample_route ''users'' ''GET'' ''/users/:id'' True,
            re_Pattern = ParsePattern ''/users/:id''\<rparr>,
           \<lparr>re_Metadata = sample_route ''files'' ''GET'' ''/files/*'' False,
            re_Pattern = ParsePattern ''/files/*''\<rparr>])]\<rparr>"

lemma sample_table_step:
  "AddRoute (sample_route ''files'' ''GET'' ''/files/*'' False) NewRoutingTable =
     Inr \<lparr>rt_routes = [(''GET'', [\<lparr>re_Metadata = sample_route ''files'' ''GET'' ''/files/*'' False,
            re_Pattern = ParsePattern ''/files/*''\<rparr>])]\<rparr>"
  "AddRoute (sample_route ''users'' ''GET'' ''/users/:id'' True)
     \<lparr>rt_routes = [(''GET'', [\<lparr>re_Metadata = sample_route ''files'' ''GET'' ''/files/*'' False,
            re_Pattern = ParsePattern ''/files/*''\<rparr>])]\<rparr> = Inr sample_table"
  by code_simp+

lemma sample_table_reachable: "reachable_table sample_table"
  using new_table sample_table_step add_route by metis

lemma sample_lookup:
  "LookupRoute sample_table ''GET'' ''/users/42'' =
     Some (sample_route ''users'' ''GET'' ''/users/:id'' True, [(''id'', ''42'')])"
  by code_simp

theorem LookupRoute_best_witness:
  "Match (ParsePattern ''/users/:id'') ''/users/42'' = Some [(''id'', ''42'')]"
  using LookupRoute_best [OF sample_table_reachable sample_lookup] by (simp add: sample_route_def)

lemma LookupRoute_None_witness:
  "reachable_table sample_table \<and>
   (LookupRoute sample_table ''POST'' ''/x'' = None \<longleftrightarrow>
    (\<forall>r \<in> table_routes sample_table. rm_Method r = ''POST'' \<or> rm_Method r = ''*'' \<longrightarrow>
       \<not> word_accepts (pattern_words (rm_Path r)) (path_segments ''/x'')))"
  using LookupRoute_None [OF sample_table_reachable] sample_table_reachable by blast

lemma sample_match:
  "Match (ParsePattern ''/files/:id/*'') ''/files/7/a/b'' = Some [(''id'', ''7''), (''*'', ''a/b'')]"
  "distinct (param_names (rp_Segments (ParsePattern ''/files/:id/*'')))"
  "''*'' \<notin> set (param_names (rp_Segments (ParsePattern ''/files/:id/*'')))"
  by code_simp+

lemma Match_roundtrip_witness:
  "Trim (CHR ''/'') (Join ''/'' (fill (rp_Segments (ParsePattern ''/files/:id/*''))
      [(''id'', ''7''), (''*'', ''a/b'')])) = Trim (CHR ''/'') ''/files/7/a/b''"
  using Match_roundtrip [OF sample_match] .

lemma RemoveServiceRoutes_complete_witness:
  "is_order [''GET''] (rt_routes sample_table)
   \<and> table_routes (RemoveServiceRoutes [''GET''] ''users'' sample_table)
       = {r \<in> table_routes sample_table. rm_ServiceID r \<noteq> ''users''}"
proof -
  have o: "is_order [''GET''] (rt_routes sample_table)"
    by (simp add: is_order_def sample_table_def)
  with RemoveServiceRoutes_complete [OF o] show ?thesis by blast
qed

end
