(* ===== verification/Registry.thy ===== *)
theory Registry
  imports Prelude GoStrings
begin

text \<open>
  The service registry (\<open>prism/internal/features/discovery/service_registry.go\<close>) and its file
  repository (\<open>.../discovery/adapters/storage/service_repository.go\<close>).

  Every operation holds the registry's lock, so it is a function on the registry; an operation
  returns the registry it leaves behind together with the error it reports. The goroutines that
  persist the services are counted (\<open>sr_pending\<close>) when they are spawned and run as separate steps.
  The answer of \<open>url.Parse\<close> and the text form of durations are arguments.
\<close>

section \<open>Data\<close>

record route_config =
  rc_Path :: string
  rc_Method :: string
  rc_Public :: bool
  rc_RequiredScopes :: "string list"
  rc_Priority :: int

record service_config =
  sc_Name :: string
  sc_URL :: string
  sc_HealthCheckPath :: string
  sc_RequiresAuth :: bool
  sc_Timeout :: duration
  sc_RetryCount :: int
  sc_AllowedRoles :: "string list"
  sc_AllowedMethods :: "string list"
  sc_Routes :: "route_config list"

record url =
  u_Scheme :: string
  u_Host :: string
  u_Path :: string

record transport =
  tr_ResponseHeaderTimeout :: duration
  tr_ExpectContinueTimeout :: duration
  tr_MaxIdleConns :: int
  tr_IdleConnTimeout :: duration

record reverse_proxy =
  px_Target :: url
  px_Transport :: transport

record service_entry =
  se_Config :: service_config
  se_Proxy :: reverse_proxy

record registry =
  sr_services :: "(string, service_entry) gomap"
  sr_hasRepository :: bool
  sr_pending :: nat

datatype registry_error =
  AlreadyRegistered string | InvalidURL string | NotRegistered string
  | ReadFailed | ParseFailed | WriteFailed

section \<open>The registry\<close>

definition NewServiceRegistry :: "bool \<Rightarrow> registry" where
  "NewServiceRegistry hasRepo = \<lparr>sr_services = [], sr_hasRepository = hasRepo, sr_pending = 0\<rparr>"

text \<open>The tail of \<open>Register\<close> and \<open>Deregister\<close>: a goroutine is spawned when there is a repository.\<close>

definition spawn_persist :: "registry \<Rightarrow> registry" where
  "spawn_persist sr = (if sr_hasRepository sr then sr\<lparr>sr_pending := sr_pending sr + 1\<rparr> else sr)"

definition Register ::
  "(string \<Rightarrow> url option) \<Rightarrow> service_config \<Rightarrow> registry \<Rightarrow> registry \<times> registry_error option" where
  "Register url_parse svcConfig sr =
     (if mget (sr_services sr) (sc_Name svcConfig) \<noteq> None
      then (sr, Some (AlreadyRegistered (sc_Name svcConfig)))
      else (case url_parse (sc_URL svcConfig) of
              None \<Rightarrow> (sr, Some (InvalidURL (sc_URL svcConfig)))
            | Some serviceURL \<Rightarrow>
                let proxy = \<lparr>px_Target = serviceURL,
                             px_Transport = \<lparr>tr_ResponseHeaderTimeout = sc_Timeout svcConfig,
                                             tr_ExpectContinueTimeout = seconds 1,
                                             tr_MaxIdleConns = 100,
                                             tr_IdleConnTimeout = seconds 90\<rparr>\<rparr>
                in (spawn_persist
                      (sr\<lparr>sr_services := mput (sc_Name svcConfig)
                            \<lparr>se_Config = svcConfig, se_Proxy = proxy\<rparr> (sr_services sr)\<rparr>),
                    None)))"

definition Deregister :: "string \<Rightarrow> registry \<Rightarrow> registry \<times> registry_error option" where
  "Deregister serviceName sr =
     (if mget (sr_services sr) serviceName = None then (sr, Some (NotRegistered serviceName))
      else (spawn_persist (sr\<lparr>sr_services := mdel serviceName (sr_services sr)\<rparr>), None))"

definition Get :: "string \<Rightarrow> registry \<Rightarrow> service_entry option" where
  "Get serviceName sr = mget (sr_services sr) serviceName"

text \<open>\<open>order\<close> is the order of the loop over the map of services.\<close>

definition List_services :: "string list \<Rightarrow> registry \<Rightarrow> service_config list" where
  "List_services order sr =
     concat (map (\<lambda>name. case mget (sr_services sr) name of
                    None \<Rightarrow> [] | Some entry \<Rightarrow> [se_Config entry]) order)"

definition Update ::
  "(string \<Rightarrow> url option) \<Rightarrow> service_config \<Rightarrow> registry \<Rightarrow> registry \<times> registry_error option" where
  "Update url_parse svcConfig sr =
     (case Deregister (sc_Name svcConfig) sr of
        (sr1, Some err) \<Rightarrow> (sr1, Some err)
      | (sr1, None) \<Rightarrow> Register url_parse svcConfig sr1)"

fun register_all ::
  "(string \<Rightarrow> url option) \<Rightarrow> service_config list \<Rightarrow> registry \<Rightarrow> registry \<times> registry_error option" where
  "register_all url_parse [] sr = (sr, None)"
| "register_all url_parse (svc # svcs) sr =
     (case Register url_parse svc sr of
        (sr1, Some err) \<Rightarrow> (sr1, Some err)
      | (sr1, None) \<Rightarrow> register_all url_parse svcs sr1)"

definition LoadFromConfig ::
  "(string \<Rightarrow> url option) \<Rightarrow> service_config list \<Rightarrow> registry \<Rightarrow> registry \<times> registry_error option" where
  "LoadFromConfig url_parse cfgServices sr = register_all url_parse cfgServices sr"

text \<open>\<open>loaded\<close> is the answer of the repository's \<open>Load\<close>.\<close>

definition LoadFromRepository ::
  "(string \<Rightarrow> url option) \<Rightarrow> registry_error + service_config list \<Rightarrow> registry
   \<Rightarrow> registry \<times> registry_error option" where
  "LoadFromRepository url_parse loaded sr =
     (if \<not> sr_hasRepository sr then (sr, None)
      else (case loaded of
              Inl err \<Rightarrow> (sr, Some err)
            | Inr services \<Rightarrow> register_all url_parse services sr))"

section \<open>The file repository\<close>

record serviceDTO =
  dto_Name :: string
  dto_URL :: string
  dto_HealthCheckPath :: string
  dto_RequiresAuth :: bool
  dto_Timeout :: string
  dto_RetryCount :: int
  dto_AllowedRoles :: "string list"
  dto_AllowedMethods :: "string list"

text \<open>The state of the file: absent, not readable, not JSON of this shape, or a list of records.\<close>

datatype service_file = NoFile | Unreadable | NotJSON | Stored "serviceDTO list"

definition load_dto :: "(string \<Rightarrow> duration option) \<Rightarrow> serviceDTO \<Rightarrow> service_config" where
  "load_dto parse_duration svc =
     (let timeout = (case parse_duration (dto_Timeout svc) of Some d \<Rightarrow> d | None \<Rightarrow> seconds 30)
      in \<lparr>sc_Name = dto_Name svc, sc_URL = dto_URL svc, sc_HealthCheckPath = dto_HealthCheckPath svc,
          sc_RequiresAuth = dto_RequiresAuth svc, sc_Timeout = timeout,
          sc_RetryCount = dto_RetryCount svc, sc_AllowedRoles = dto_AllowedRoles svc,
          sc_AllowedMethods = dto_AllowedMethods svc, sc_Routes = []\<rparr>)"

definition save_dto :: "(duration \<Rightarrow> string) \<Rightarrow> service_config \<Rightarrow> serviceDTO" where
  "save_dto duration_string svc =
     \<lparr>dto_Name = sc_Name svc, dto_URL = sc_URL svc, dto_HealthCheckPath = sc_HealthCheckPath svc,
      dto_RequiresAuth = sc_RequiresAuth svc, dto_Timeout = duration_string (sc_Timeout svc),
      dto_RetryCount = sc_RetryCount svc, dto_AllowedRoles = sc_AllowedRoles svc,
      dto_AllowedMethods = sc_AllowedMethods svc\<rparr>"

definition Load ::
  "(string \<Rightarrow> duration option) \<Rightarrow> service_file \<Rightarrow> registry_error + service_config list" where
  "Load parse_duration file =
     (case file of
        NoFile \<Rightarrow> Inr []
      | Unreadable \<Rightarrow> Inl ReadFailed
      | NotJSON \<Rightarrow> Inl ParseFailed
      | Stored dtos \<Rightarrow> Inr (map (load_dto parse_duration) dtos))"

text \<open>\<open>write_ok\<close> says whether the operating system accepts the write.\<close>

definition Save ::
  "(duration \<Rightarrow> string) \<Rightarrow> bool \<Rightarrow> service_config list \<Rightarrow> service_file
   \<Rightarrow> service_file \<times> registry_error option" where
  "Save duration_string write_ok services file =
     (if write_ok then (Stored (map (save_dto duration_string) services), None)
      else (file, Some WriteFailed))"

section \<open>Persisting in the background\<close>

text \<open>
  The persisting goroutines: each first takes a snapshot of the services (\<open>List\<close>, under the
  lock) and then saves it. Between the two, anything else may run.
\<close>

record persist_state =
  ps_registry :: registry
  ps_snapshots :: "service_config list list"
  ps_file :: service_file

definition persist_list :: "string list \<Rightarrow> persist_state \<Rightarrow> persist_state" where
  "persist_list order ps =
     (if sr_pending (ps_registry ps) = 0 then ps
      else ps\<lparr>ps_registry := (ps_registry ps)\<lparr>sr_pending := sr_pending (ps_registry ps) - 1\<rparr>,
              ps_snapshots := ps_snapshots ps @ [List_services order (ps_registry ps)]\<rparr>)"

definition persist_save :: "(duration \<Rightarrow> string) \<Rightarrow> nat \<Rightarrow> persist_state \<Rightarrow> persist_state" where
  "persist_save duration_string i ps =
     (if i < length (ps_snapshots ps)
      then ps\<lparr>ps_file := fst (Save duration_string True (ps_snapshots ps ! i) (ps_file ps)),
              ps_snapshots := take i (ps_snapshots ps) @ drop (Suc i) (ps_snapshots ps)\<rparr>
      else ps)"

definition on_registry :: "(registry \<Rightarrow> registry \<times> registry_error option) \<Rightarrow> persist_state \<Rightarrow> persist_state" where
  "on_registry f ps = ps\<lparr>ps_registry := fst (f (ps_registry ps))\<rparr>"

definition persist_start :: persist_state where
  "persist_start = \<lparr>ps_registry = NewServiceRegistry True, ps_snapshots = [], ps_file = NoFile\<rparr>"

definition quiet :: "persist_state \<Rightarrow> bool" where
  "quiet ps \<longleftrightarrow> sr_pending (ps_registry ps) = 0 \<and> ps_snapshots ps = []"

inductive persist_run :: "(duration \<Rightarrow> string) \<Rightarrow> (string \<Rightarrow> url option) \<Rightarrow> persist_state \<Rightarrow> bool"
  for ds up where
  run_start: "persist_run ds up persist_start"
| run_register: "persist_run ds up ps \<Longrightarrow> persist_run ds up (on_registry (Register up cfg) ps)"
| run_deregister: "persist_run ds up ps \<Longrightarrow> persist_run ds up (on_registry (Deregister name) ps)"
| run_list: "persist_run ds up ps \<Longrightarrow> is_order order (sr_services (ps_registry ps)) \<Longrightarrow>
    persist_run ds up (persist_list order ps)"
| run_save: "persist_run ds up ps \<Longrightarrow> persist_run ds up (persist_save ds i ps)"

text \<open>The same runs with each goroutine's snapshot and save done in one go.\<close>

inductive serial_run :: "(duration \<Rightarrow> string) \<Rightarrow> (string \<Rightarrow> url option) \<Rightarrow> persist_state \<Rightarrow> bool"
  for ds up where
  ser_start: "serial_run ds up persist_start"
| ser_register: "serial_run ds up ps \<Longrightarrow> serial_run ds up (on_registry (Register up cfg) ps)"
| ser_deregister: "serial_run ds up ps \<Longrightarrow> serial_run ds up (on_registry (Deregister name) ps)"
| ser_persist: "serial_run ds up ps \<Longrightarrow> is_order order (sr_services (ps_registry ps)) \<Longrightarrow>
    0 < sr_pending (ps_registry ps) \<Longrightarrow>
    serial_run ds up (persist_save ds 0 (persist_list order ps))"

section \<open>The registry's contract\<close>

definition registry_inv :: "registry \<Rightarrow> bool" where
  "registry_inv sr \<longleftrightarrow>
     wfmap (sr_services sr)
     \<and> (\<forall>name e. mget (sr_services sr) name = Some e \<longrightarrow> sc_Name (se_Config e) = name)"

text \<open>The registry as a partial map from names to configurations.\<close>

definition registered :: "registry \<Rightarrow> string \<Rightarrow> service_config option" where
  "registered sr name = map_option se_Config (Get name sr)"

lemma spawn_persist_services [simp]: "sr_services (spawn_persist sr) = sr_services sr"
  by (simp add: spawn_persist_def)

lemma spawn_persist_repo [simp]: "sr_hasRepository (spawn_persist sr) = sr_hasRepository sr"
  by (simp add: spawn_persist_def)

lemma registry_inv_new: "registry_inv (NewServiceRegistry b)"
  by (simp add: registry_inv_def NewServiceRegistry_def)

lemma Register_ok_iff:
  "snd (Register up cfg sr) = None \<longleftrightarrow> registered sr (sc_Name cfg) = None \<and> up (sc_URL cfg) \<noteq> None"
  by (auto simp: Register_def registered_def Get_def Let_def split: option.splits)

lemma Register_ok:
  "snd (Register up cfg sr) = None \<Longrightarrow>
   registered (fst (Register up cfg sr)) = (registered sr)(sc_Name cfg \<mapsto> cfg)"
  by (rule ext) (auto simp: Register_def registered_def Get_def Let_def mget_mput split: option.splits if_splits)

lemma Register_err: "snd (Register up cfg sr) = Some e \<Longrightarrow> fst (Register up cfg sr) = sr"
  by (auto simp: Register_def Let_def split: option.splits if_splits)

lemma Deregister_ok_iff: "snd (Deregister name sr) = None \<longleftrightarrow> registered sr name \<noteq> None"
  by (auto simp: Deregister_def registered_def Get_def)

lemma Deregister_ok:
  "snd (Deregister name sr) = None \<Longrightarrow>
   registered (fst (Deregister name sr)) = (registered sr)(name := None)"
  by (rule ext) (auto simp: Deregister_def registered_def Get_def mget_mdel split: if_splits)

lemma Deregister_err: "snd (Deregister name sr) = Some e \<Longrightarrow> fst (Deregister name sr) = sr"
  by (auto simp: Deregister_def split: if_splits)

lemma Register_inv: "registry_inv sr \<Longrightarrow> registry_inv (fst (Register up cfg sr))"
  by (auto simp: registry_inv_def Register_def Let_def mget_mput intro: wfmap_mput split: option.splits)

lemma Deregister_inv: "registry_inv sr \<Longrightarrow> registry_inv (fst (Deregister name sr))"
  by (auto simp: registry_inv_def Deregister_def mget_mdel intro: wfmap_mdel)

text \<open>
  What the gateway relies on of a registry (\<open>ports.ServiceRegistry\<close>): a partial map from names to
  configurations whose two updates either take effect in full or leave it as it was.
\<close>

locale service_registry =
  fixes inv :: "'r \<Rightarrow> bool"
    and lookup :: "'r \<Rightarrow> string \<Rightarrow> service_config option"
    and valid :: "service_config \<Rightarrow> bool"
    and register :: "service_config \<Rightarrow> 'r \<Rightarrow> 'r \<times> registry_error option"
    and deregister :: "string \<Rightarrow> 'r \<Rightarrow> 'r \<times> registry_error option"
  assumes register_inv: "inv r \<Longrightarrow> inv (fst (register cfg r))"
    and deregister_inv: "inv r \<Longrightarrow> inv (fst (deregister name r))"
    and register_ok_iff: "snd (register cfg r) = None \<longleftrightarrow> lookup r (sc_Name cfg) = None \<and> valid cfg"
    and register_ok: "snd (register cfg r) = None \<Longrightarrow>
          lookup (fst (register cfg r)) = (lookup r)(sc_Name cfg \<mapsto> cfg)"
    and register_err: "snd (register cfg r) = Some e \<Longrightarrow> fst (register cfg r) = r"
    and deregister_ok_iff: "snd (deregister name r) = None \<longleftrightarrow> lookup r name \<noteq> None"
    and deregister_ok: "snd (deregister name r) = None \<Longrightarrow>
          lookup (fst (deregister name r)) = (lookup r)(name := None)"
    and deregister_err: "snd (deregister name r) = Some e \<Longrightarrow> fst (deregister name r) = r"
begin

lemma register_lookup:
  "lookup (fst (register cfg r)) =
     (if lookup r (sc_Name cfg) = None \<and> valid cfg then (lookup r)(sc_Name cfg \<mapsto> cfg) else lookup r)"
  using register_ok [of cfg r] register_ok_iff [of cfg r] register_err [of cfg r]
  by (cases "snd (register cfg r)") auto

lemma deregister_lookup: "lookup (fst (deregister name r)) = (lookup r)(name := None)"
proof (cases "snd (deregister name r)")
  case None
  then show ?thesis by (rule deregister_ok)
next
  case (Some e)
  then have "lookup r name = None" using deregister_ok_iff [of name r] by simp
  with deregister_err [OF Some] show ?thesis by (simp add: fun_upd_idem)
qed

lemma no_second_register:
  "snd (register cfg r) = None \<Longrightarrow> sc_Name cfg' = sc_Name cfg \<Longrightarrow>
   snd (register cfg' (fst (register cfg r))) \<noteq> None"
  using register_ok [of cfg r] register_ok_iff [of cfg'] by simp

lemma deregister_undoes_register:
  "snd (register cfg r) = None \<Longrightarrow>
   lookup (fst (deregister (sc_Name cfg) (fst (register cfg r)))) = lookup r"
  using register_ok [of cfg r] register_ok_iff [of cfg r] by (simp add: deregister_lookup fun_upd_idem)

end

interpretation msr: service_registry registry_inv registered "\<lambda>cfg. up (sc_URL cfg) \<noteq> None" "Register up" Deregister
  for up
  by unfold_locales
    (simp_all add: Register_inv Deregister_inv Register_ok_iff Register_ok Register_err
      Deregister_ok_iff Deregister_ok Deregister_err)

lemma Update_registered:
  "registered (fst (Update up cfg sr)) =
     (if registered sr (sc_Name cfg) = None then registered sr
      else if up (sc_URL cfg) = None then (registered sr)(sc_Name cfg := None)
      else (registered sr)(sc_Name cfg \<mapsto> cfg))"
proof (cases "snd (Deregister (sc_Name cfg) sr)")
  case None
  then have d: "Deregister (sc_Name cfg) sr = (fst (Deregister (sc_Name cfg) sr), None)"
    by (metis prod.collapse)
  have "Update up cfg sr = Register up cfg (fst (Deregister (sc_Name cfg) sr))"
    unfolding Update_def by (subst d) simp
  then show ?thesis using None
    by (auto simp: msr.register_lookup msr.deregister_lookup msr.deregister_ok_iff)
next
  case (Some e)
  then have d: "Deregister (sc_Name cfg) sr = (sr, Some e)"
    using Deregister_err by (metis prod.collapse)
  have "Update up cfg sr = (sr, Some e)" unfolding Update_def by (subst d) simp
  then show ?thesis using Some Deregister_ok_iff [of "sc_Name cfg" sr] by simp
qed

lemma Update_error:
  "snd (Update up cfg sr) = None \<longleftrightarrow> registered sr (sc_Name cfg) \<noteq> None \<and> up (sc_URL cfg) \<noteq> None"
proof (cases "snd (Deregister (sc_Name cfg) sr)")
  case None
  then have d: "Deregister (sc_Name cfg) sr = (fst (Deregister (sc_Name cfg) sr), None)"
    by (metis prod.collapse)
  have "Update up cfg sr = Register up cfg (fst (Deregister (sc_Name cfg) sr))"
    unfolding Update_def by (subst d) simp
  then show ?thesis using None
    by (simp add: msr.register_ok_iff msr.deregister_lookup msr.deregister_ok_iff)
next
  case (Some e)
  then have d: "Deregister (sc_Name cfg) sr = (sr, Some e)"
    using Deregister_err by (metis prod.collapse)
  have "Update up cfg sr = (sr, Some e)" unfolding Update_def by (subst d) simp
  then show ?thesis using Some Deregister_ok_iff [of "sc_Name cfg" sr] by simp
qed

section \<open>Listing\<close>

lemma List_services_Cons:
  "List_services (k # ks) sr =
     (case mget (sr_services sr) k of None \<Rightarrow> [] | Some e \<Rightarrow> [se_Config e]) @ List_services ks sr"
  by (simp add: List_services_def)

lemma List_services_map:
  assumes "registry_inv sr" "is_order order (sr_services sr)"
  shows "map sc_Name (List_services order sr) = order"
    and "set (List_services order sr) = ran (registered sr)"
proof -
  have "map sc_Name (List_services ks sr) = ks" if "\<forall>k \<in> set ks. mget (sr_services sr) k \<noteq> None" for ks
    using that assms(1) by (induction ks) (auto simp: List_services_def registry_inv_def)
  then show "map sc_Name (List_services order sr) = order"
    using assms(2) is_order_mem by metis
  have "cfg \<in> set (List_services ks sr) \<longleftrightarrow> (\<exists>k \<in> set ks. registered sr k = Some cfg)" for cfg ks
  proof (induction ks)
    case (Cons k ks)
    then show ?case
      by (cases "mget (sr_services sr) k") (auto simp: List_services_Cons registered_def Get_def)
  qed (simp add: List_services_def)
  moreover have "registered sr k = Some cfg \<Longrightarrow> k \<in> set order" for k cfg
    using is_order_mem [OF assms(2), of k] by (auto simp: registered_def Get_def)
  ultimately show "set (List_services order sr) = ran (registered sr)"
    unfolding ran_def by blast
qed

section \<open>Persistence\<close>

definition strip_routes :: "service_config \<Rightarrow> service_config" where
  "strip_routes svc = svc\<lparr>sc_Routes := []\<rparr>"

lemma load_save_dto:
  "parse_duration (duration_string (sc_Timeout svc)) = Some (sc_Timeout svc) \<Longrightarrow>
   load_dto parse_duration (save_dto duration_string svc) = strip_routes svc"
  by (simp add: load_dto_def save_dto_def strip_routes_def)

text \<open>What a serial run keeps: the file agrees with the registry unless a goroutine is pending.\<close>

definition in_step :: "(duration \<Rightarrow> string) \<Rightarrow> persist_state \<Rightarrow> bool" where
  "in_step ds ps \<longleftrightarrow>
     registry_inv (ps_registry ps) \<and> sr_hasRepository (ps_registry ps) \<and> ps_snapshots ps = []
     \<and> (sr_pending (ps_registry ps) = 0 \<longrightarrow>
          (ps_file ps = NoFile \<and> sr_services (ps_registry ps) = []) \<or>
          (\<exists>order. is_order order (sr_services (ps_registry ps)) \<and>
             ps_file ps = Stored (map (save_dto ds) (List_services order (ps_registry ps)))))"

lemma Register_pending:
  "sr_hasRepository sr \<Longrightarrow>
   fst (Register up cfg sr) = sr \<or> 0 < sr_pending (fst (Register up cfg sr))"
  by (auto simp: Register_def Let_def spawn_persist_def split: option.splits)

lemma Deregister_pending:
  "sr_hasRepository sr \<Longrightarrow>
   fst (Deregister name sr) = sr \<or> 0 < sr_pending (fst (Deregister name sr))"
  by (auto simp: Deregister_def spawn_persist_def)

lemma Register_repo [simp]: "sr_hasRepository (fst (Register up cfg sr)) = sr_hasRepository sr"
  by (auto simp: Register_def Let_def split: option.splits)

lemma Deregister_repo [simp]: "sr_hasRepository (fst (Deregister name sr)) = sr_hasRepository sr"
  by (auto simp: Deregister_def)

lemma in_step_op:
  assumes "in_step ds ps" "registry_inv (fst (f (ps_registry ps)))"
    and "sr_hasRepository (fst (f (ps_registry ps)))"
    and "fst (f (ps_registry ps)) = ps_registry ps \<or> 0 < sr_pending (fst (f (ps_registry ps)))"
  shows "in_step ds (on_registry f ps)"
  using assms by (auto simp: in_step_def on_registry_def)

lemma List_services_pending [simp]:
  "List_services order (sr\<lparr>sr_pending := n\<rparr>) = List_services order sr"
  by (simp add: List_services_def)

lemma registry_inv_pending [simp]: "registry_inv (sr\<lparr>sr_pending := n\<rparr>) = registry_inv sr"
  by (simp add: registry_inv_def)

lemma in_step_persist:
  assumes "in_step ds ps" "is_order order (sr_services (ps_registry ps))" "0 < sr_pending (ps_registry ps)"
  shows "in_step ds (persist_save ds 0 (persist_list order ps))"
  using assms unfolding in_step_def persist_list_def persist_save_def Save_def by auto

lemma serial_in_step: "serial_run ds up ps \<Longrightarrow> in_step ds ps"
proof (induction rule: serial_run.induct)
  case ser_start
  then show ?case
    by (simp add: in_step_def persist_start_def registry_inv_new) (simp add: NewServiceRegistry_def)
next
  case (ser_register ps cfg)
  then show ?case
    by (intro in_step_op) (auto simp: in_step_def Register_inv Register_pending)
next
  case (ser_deregister ps name)
  then show ?case
    by (intro in_step_op) (auto simp: in_step_def Deregister_inv Deregister_pending)
next
  case (ser_persist ps order)
  then show ?case by (intro in_step_persist)
qed

section \<open>Properties\<close>

text \<open>The registry behaves as a partial map from service names to configurations. Registering
  succeeds exactly for a new name with a valid URL and then adds just that binding; deregistering
  succeeds exactly for a bound name and then removes just that binding; an operation that reports
  an error leaves the registry as it was.\<close>

lemma registry_refines_map:
  "(snd (Register up cfg sr) = None \<longleftrightarrow> registered sr (sc_Name cfg) = None \<and> up (sc_URL cfg) \<noteq> None)
   \<and> registered (fst (Register up cfg sr)) =
       (if snd (Register up cfg sr) = None then (registered sr)(sc_Name cfg \<mapsto> cfg) else registered sr)
   \<and> (snd (Deregister name sr) = None \<longleftrightarrow> registered sr name \<noteq> None)
   \<and> registered (fst (Deregister name sr)) = (registered sr)(name := None)"
  using msr.register_ok_iff msr.register_lookup msr.deregister_ok_iff msr.deregister_lookup by simp

text \<open>An update succeeds exactly when the service is registered and the new URL is valid, and
  then replaces the configuration of that service alone. When the service is registered and the
  new URL is not valid, the update reports an error and the service is no longer registered.\<close>

lemma Update_behaviour:
  "(snd (Update up cfg sr) = None \<longleftrightarrow>
      registered sr (sc_Name cfg) \<noteq> None \<and> up (sc_URL cfg) \<noteq> None)
   \<and> registered (fst (Update up cfg sr)) =
       (if registered sr (sc_Name cfg) = None then registered sr
        else if up (sc_URL cfg) = None then (registered sr)(sc_Name cfg := None)
        else (registered sr)(sc_Name cfg \<mapsto> cfg))"
  using Update_error Update_registered by blast

text \<open>Whatever order the map iteration takes, the list of services holds each registered
  configuration exactly once.\<close>

lemma List_services_complete:
  assumes "registry_inv sr" "is_order order (sr_services sr)"
  shows "set (List_services order sr) = ran (registered sr)
    \<and> distinct (map sc_Name (List_services order sr))
    \<and> length (List_services order sr) = length (sr_services sr)"
proof -
  have "map sc_Name (List_services order sr) = order" by (rule List_services_map [OF assms])
  moreover have "length order = length (sr_services sr)"
    using assms is_order_length by (auto simp: registry_inv_def)
  ultimately show ?thesis
    using List_services_map(2) [OF assms] assms(2) by (metis is_order_def length_map)
qed

text \<open>Loading what was saved gives the services back in order with every field but one: the
  custom routes of a service are not part of the stored record and come back empty.\<close>

lemma Load_Save:
  assumes "\<And>d. parse_duration (duration_string d) = Some d"
  shows "Load parse_duration (fst (Save duration_string True svcs file)) = Inr (map strip_routes svcs)"
  using assms by (simp add: Load_def Save_def load_save_dto)

text \<open>If every persisting goroutine did its snapshot and its save in one go, then whenever no
  goroutine is left the file would hold exactly the registered services (without their routes).\<close>

lemma serial_persist_current:
  assumes "serial_run ds up ps" "quiet ps" "\<And>d. pd (ds d) = Some d"
  shows "\<exists>svcs. Load pd (ps_file ps) = Inr svcs
           \<and> set svcs = strip_routes ` ran (registered (ps_registry ps))"
proof -
  have st: "in_step ds ps" using assms(1) by (rule serial_in_step)
  with assms(2) consider "ps_file ps = NoFile" "sr_services (ps_registry ps) = []"
    | order where "is_order order (sr_services (ps_registry ps))"
      "ps_file ps = Stored (map (save_dto ds) (List_services order (ps_registry ps)))"
    by (auto simp: in_step_def quiet_def)
  then show ?thesis
  proof cases
    case 1
    then show ?thesis by (simp add: Load_def registered_def Get_def ran_def)
  next
    case 2
    have "registry_inv (ps_registry ps)" using st by (simp add: in_step_def)
    note l = List_services_map(2) [OF this 2(1)]
    have "Load pd (ps_file ps) = Inr (map strip_routes (List_services order (ps_registry ps)))"
      using 2(2) assms(3) by (simp add: Load_def load_save_dto)
    with l show ?thesis by simp
  qed
qed

section \<open>Witnesses\<close>

definition sample_service :: "string \<Rightarrow> service_config" where
  "sample_service name =
     \<lparr>sc_Name = name, sc_URL = ''http://'' @ name, sc_HealthCheckPath = ''/health'',
      sc_RequiresAuth = True, sc_Timeout = 3, sc_RetryCount = 1, sc_AllowedRoles = [],
      sc_AllowedMethods = [], sc_Routes = []\<rparr>"

definition sample_url_parse :: "string \<Rightarrow> url option" where
  "sample_url_parse s =
     (if HasPrefix s ''http://'' then Some \<lparr>u_Scheme = ''http'', u_Host = drop 7 s, u_Path = []\<rparr> else None)"

definition sample_registry :: registry where
  "sample_registry = fst (Register sample_url_parse (sample_service ''users'') (NewServiceRegistry True))"

text \<open>A text form of durations for the witnesses: unary, with the sign first.\<close>

definition sample_duration_string :: "duration \<Rightarrow> string" where
  "sample_duration_string d =
     (if d < 0 then CHR ''-'' # replicate (nat (- d)) (CHR ''n'') else replicate (nat d) (CHR ''n''))"

definition sample_parse_duration :: "string \<Rightarrow> duration option" where
  "sample_parse_duration s =
     (case s of [] \<Rightarrow> Some 0
      | c # r \<Rightarrow> if c = CHR ''-'' then Some (- int (length r)) else Some (int (length s)))"

lemma sample_durations: "sample_parse_duration (sample_duration_string d) = Some d"
proof (cases "d \<le> 0")
  case True
  then show ?thesis by (auto simp: sample_parse_duration_def sample_duration_string_def)
next
  case False
  then obtain k where "nat d = Suc k" by (metis gr0_implies_Suc not_le zero_less_nat_eq)
  with False show ?thesis by (simp add: sample_parse_duration_def sample_duration_string_def)
qed

theorem List_services_complete_witness:
  "set (List_services [''users''] sample_registry) = ran (registered sample_registry)"
proof -
  have i: "registry_inv sample_registry"
    unfolding sample_registry_def by (intro Register_inv registry_inv_new)
  have o: "is_order [''users''] (sr_services sample_registry)" by code_simp
  show ?thesis using List_services_complete [OF i o] by blast
qed

lemma Load_Save_witness:
  "Load sample_parse_duration (fst (Save sample_duration_string True [sample_service ''users''] NoFile))
     = Inr [strip_routes (sample_service ''users'')]"
  using Load_Save [of sample_parse_duration sample_duration_string "[sample_service ''users'']" NoFile]
    sample_durations by simp

definition sample_persisted :: persist_state where
  "sample_persisted = persist_save sample_duration_string 0 (persist_list [''users'']
     (on_registry (Register sample_url_parse (sample_service ''users'')) persist_start))"

lemma serial_persist_current_witness:
  "\<exists>svcs. Load sample_parse_duration (ps_file sample_persisted) = Inr svcs
     \<and> set svcs = strip_routes ` ran (registered (ps_registry sample_persisted))"
proof -
  have "serial_run sample_duration_string sample_url_parse sample_persisted"
    unfolding sample_persisted_def by (intro ser_persist ser_register ser_start; code_simp)
  moreover have "quiet sample_persisted" by code_simp
  ultimately show ?thesis by (rule serial_persist_current [OF _ _ sample_durations])
qed

section \<open>An interleaving that loses an update\<close>

definition lost_update :: persist_state where
  "lost_update =
     persist_save sample_duration_string 0 (persist_save sample_duration_string 1
       (persist_list [''users'', ''orders'']
         (on_registry (Register sample_url_parse (sample_service ''orders''))
           (persist_list [''users'']
             (on_registry (Register sample_url_parse (sample_service ''users'')) persist_start)))))"

text \<open>The goroutines may save in another order than they listed. There is a run that ends with
  no goroutine left, in which two services are registered and the file holds only the first.\<close>

lemma persist_race:
  "\<exists>ps. persist_run sample_duration_string sample_url_parse ps \<and> quiet ps
     \<and> registered (ps_registry ps) ''orders'' = Some (sample_service ''orders'')
     \<and> ps_file ps = Stored [save_dto sample_duration_string (sample_service ''users'')]"
proof -
  have o1: "is_order [''users''] (sr_services (ps_registry
      (on_registry (Register sample_url_parse (sample_service ''users'')) persist_start)))"
    by code_simp
  have o2: "is_order [''users'', ''orders''] (sr_services (ps_registry
      (on_registry (Register sample_url_parse (sample_service ''orders''))
           (persist_list [''users'']
             (on_registry (Register sample_url_parse (sample_service ''users'')) persist_start)))))"
    by code_simp
  have "persist_run sample_duration_string sample_url_parse lost_update"
    unfolding lost_update_def
    by (rule run_save, rule run_save, rule run_list, rule run_register, rule run_list,
        rule run_register, rule run_start, rule o1, rule o2)
  moreover have "quiet lost_update" by code_simp
  moreover have "registered (ps_registry lost_update) ''orders'' = Some (sample_service ''orders'')"
    by code_simp
  moreover have "ps_file lost_update = Stored [save_dto sample_duration_string (sample_service ''users'')]"
    unfolding lost_update_def
    by (simp add: persist_save_def persist_list_def on_registry_def persist_start_def
        NewServiceRegistry_def Register_def Let_def spawn_persist_def Save_def List_services_def
        sample_service_def sample_url_parse_def)
  ultimately show ?thesis by blast
qed

end
