(* ===== verification/Http.thy ===== *)
theory Http
  imports GoStrings
begin

text \<open>
  The part of \<open>net/http\<close> that the handlers use, and the request context of the gateway
  (\<open>prism/internal/domain/context.go\<close>).

  A handler maps a request and the state of everything behind it (\<open>'w\<close>) to the calls it makes on
  the response writer and the state it leaves. \<open>reply_of\<close> is what the client receives for such a
  list of calls: the first status code set counts, a body written before any code sets 200, and
  bodies are concatenated. Header names are in canonical form and have one value.
\<close>

type_synonym uuid = string
type_synonym user_role = string

text \<open>\<open>None\<close> is the nil map.\<close>

type_synonym role_map = "(uuid, user_role) gomap option"

record user_context_data =
  ucd_UserID :: string
  ucd_Roles :: role_map
  ucd_AuthProvider :: string
  ucd_SessionID :: string

text \<open>The values a context carries, one field per key of the source.\<close>

record req_context =
  cx_user :: "user_context_data option"
  cx_breaker_service :: "string option"
  cx_service_name :: "string option"
  cx_path_params :: "(string, string) gomap option"
  cx_route_params :: "(string, string) gomap option"

definition background :: req_context where
  "background = \<lparr>cx_user = None, cx_breaker_service = None, cx_service_name = None,
                 cx_path_params = None, cx_route_params = None\<rparr>"

record request =
  rq_Method :: string
  rq_Path :: string
  rq_Header :: "(string, string) gomap"
  rq_Query :: "(string, string) gomap"
  rq_RemoteAddr :: string
  rq_ctx :: req_context

definition value_or_empty :: "(string, string) gomap \<Rightarrow> string \<Rightarrow> string" where
  "value_or_empty m k = (case mget m k of None \<Rightarrow> [] | Some v \<Rightarrow> v)"

abbreviation header_get :: "request \<Rightarrow> string \<Rightarrow> string" where
  "header_get r k \<equiv> value_or_empty (rq_Header r) k"

abbreviation query_get :: "request \<Rightarrow> string \<Rightarrow> string" where
  "query_get r k \<equiv> value_or_empty (rq_Query r) k"

definition header_set :: "string \<Rightarrow> string \<Rightarrow> request \<Rightarrow> request" where
  "header_set k v r = r\<lparr>rq_Header := mput k v (rq_Header r)\<rparr>"

definition UserContextDataFromContext :: "request \<Rightarrow> user_context_data option" where
  "UserContextDataFromContext r = cx_user (rq_ctx r)"

definition ContextWithUserContextData :: "user_context_data \<Rightarrow> request \<Rightarrow> request" where
  "ContextWithUserContextData usr r = r\<lparr>rq_ctx := (rq_ctx r)\<lparr>cx_user := Some usr\<rparr>\<rparr>"

definition RolesFromContext :: "request \<Rightarrow> role_map" where
  "RolesFromContext r =
     (case UserContextDataFromContext r of None \<Rightarrow> None | Some u \<Rightarrow> ucd_Roles u)"

section \<open>Responses\<close>

datatype write_call = WriteHeader nat | Write string

type_synonym 'w handler = "request \<Rightarrow> 'w \<Rightarrow> write_call list \<times> 'w"

fun first_code :: "write_call list \<Rightarrow> nat" where
  "first_code [] = 200"
| "first_code (WriteHeader c # cs) = c"
| "first_code (Write b # cs) = 200"

fun body_of :: "write_call list \<Rightarrow> string" where
  "body_of [] = []"
| "body_of (WriteHeader c # cs) = body_of cs"
| "body_of (Write b # cs) = b @ body_of cs"

definition reply_of :: "write_call list \<Rightarrow> nat \<times> string" where
  "reply_of cs = (first_code cs, body_of cs)"

definition http_error :: "string \<Rightarrow> nat \<Rightarrow> write_call list" where
  "http_error msg code = [WriteHeader code, Write (msg @ [CHR 0x0A])]"

lemma first_code_append [simp]: "xs \<noteq> [] \<Longrightarrow> first_code (xs @ ys) = first_code xs"
  by (cases xs rule: first_code.cases) auto

lemma body_of_append [simp]: "body_of (xs @ ys) = body_of xs @ body_of ys"
  by (induction xs rule: body_of.induct) auto

lemma reply_http_error [simp]: "reply_of (http_error msg code) = (code, msg @ [CHR 0x0A])"
  by (simp add: reply_of_def http_error_def)

lemma header_get_set [simp]:
  "header_get (header_set k v r) k' = (if k' = k then v else header_get r k')"
  by (simp add: header_set_def value_or_empty_def mget_mput)

lemma header_set_frame [simp]:
  "rq_Path (header_set k v r) = rq_Path r" "rq_Method (header_set k v r) = rq_Method r"
  "rq_ctx (header_set k v r) = rq_ctx r" "rq_RemoteAddr (header_set k v r) = rq_RemoteAddr r"
  by (simp_all add: header_set_def)

end
