(* ===== verification/CircuitBreaker.thy ===== *)
theory CircuitBreaker
  imports Http
begin

text \<open>
  The in-memory circuit breaker (\<open>gateway/adapters/circuitbreaker/memory.go\<close>), its port
  (\<open>ports/circuitbreaker.go\<close>) and its builder (\<open>options.go\<close>).

  \<open>Execute\<close> takes the protected function as a state transformer on whatever lies behind the
  breaker; the value it yields says which branch of the final \<open>select\<close> was taken. \<open>clk i\<close> is the
  clock reading of the \<open>i\<close>-th call of \<open>time.Now\<close> on the way: 0 when the circuit is created, 1 in
  the test of the open timeout, 2 at the transition to half-open, 3 when the outcome is recorded.

  \<open>thread_step\<close> splits \<open>Execute\<close> at its accesses to the shared circuit, one program counter per
  goroutine; \<open>sys_step\<close> interleaves goroutines on one circuit.
\<close>

section \<open>Data\<close>

datatype breaker_state = StateClosed | StateOpen | StateHalfOpen

datatype 'e cb_error = ErrCircuitOpen | ErrTooManyConcurrentRequests | FnError 'e | CtxError string

text \<open>How the protected call ended: it returned (with an error or not), or the context was done first.\<close>

datatype 'e outcome = FnReturned "'e option" | CtxDone string

record redis_config =
  rd_Address :: string
  rd_Password :: string
  rd_DB :: int
  rd_CacheTTL :: duration

record breaker_config =
  bc_Enabled :: bool
  bc_Provider :: string
  bc_Threshold :: int
  bc_Timeout :: duration
  bc_HalfOpenSuccessThreshold :: int
  bc_MaxConcurrentRequests :: int
  bc_RequestTimeout :: duration
  bc_Redis :: "redis_config option"

record circuit =
  ci_name :: string
  ci_state :: breaker_state
  ci_failures :: int
  ci_successes :: int
  ci_rejected :: int
  ci_timeout :: int
  ci_lastStateChange :: time
  ci_openTimeout :: duration
  ci_failureThreshold :: int
  ci_successThreshold :: int
  ci_concurrentRequests :: int
  ci_maxConcurrent :: int

record breaker =
  cb_circuits :: "(string, circuit) gomap"
  cb_config :: breaker_config

record breaker_metrics =
  bm_Name :: string
  bm_State :: breaker_state
  bm_Failures :: int
  bm_Successes :: int
  bm_Rejected :: int
  bm_Timeout :: int
  bm_LastStateChange :: time

section \<open>Construction\<close>

text \<open>The conversion to a 32-bit signed integer keeps the low 32 bits.\<close>

definition int32_of :: "int \<Rightarrow> int" where
  "int32_of n = (n + 2147483648) mod 4294967296 - 2147483648"

definition breaker_defaults :: "breaker_config \<Rightarrow> breaker_config" where
  "breaker_defaults c =
     c\<lparr>bc_Threshold := (if bc_Threshold c \<le> 0 then 5 else bc_Threshold c),
       bc_Timeout := (if bc_Timeout c \<le> 0 then seconds 10 else bc_Timeout c),
       bc_HalfOpenSuccessThreshold :=
         (if bc_HalfOpenSuccessThreshold c \<le> 0 then 2 else bc_HalfOpenSuccessThreshold c),
       bc_MaxConcurrentRequests :=
         (if bc_MaxConcurrentRequests c \<le> 0 then 100 else bc_MaxConcurrentRequests c),
       bc_RequestTimeout := (if bc_RequestTimeout c \<le> 0 then seconds 2 else bc_RequestTimeout c)\<rparr>"

definition NewMemoryCircuitBreaker :: "breaker_config \<Rightarrow> breaker" where
  "NewMemoryCircuitBreaker config = \<lparr>cb_circuits = [], cb_config = breaker_defaults config\<rparr>"

definition new_circuit :: "breaker_config \<Rightarrow> string \<Rightarrow> time \<Rightarrow> circuit" where
  "new_circuit cfg name now =
     \<lparr>ci_name = name, ci_state = StateClosed, ci_failures = 0, ci_successes = 0, ci_rejected = 0,
      ci_timeout = 0, ci_lastStateChange = now, ci_openTimeout = bc_Timeout cfg,
      ci_failureThreshold = bc_Threshold cfg, ci_successThreshold = bc_HalfOpenSuccessThreshold cfg,
      ci_concurrentRequests = 0, ci_maxConcurrent = int32_of (bc_MaxConcurrentRequests cfg)\<rparr>"

definition getCircuit :: "time \<Rightarrow> string \<Rightarrow> breaker \<Rightarrow> circuit \<times> breaker" where
  "getCircuit now name cb =
     (case mget (cb_circuits cb) name of
        Some c \<Rightarrow> (c, cb)
      | None \<Rightarrow>
          let c = new_circuit (cb_config cb) name now
          in (c, cb\<lparr>cb_circuits := mput name c (cb_circuits cb)\<rparr>))"

section \<open>Recording outcomes\<close>

definition recordSuccess :: "time \<Rightarrow> circuit \<Rightarrow> circuit" where
  "recordSuccess now c0 =
     (let c = c0\<lparr>ci_successes := ci_successes c0 + 1\<rparr> in
      if ci_state c = StateHalfOpen then
        if ci_state c = StateHalfOpen \<and> ci_successes c \<ge> ci_successThreshold c
        then c\<lparr>ci_state := StateClosed, ci_lastStateChange := now, ci_failures := 0, ci_successes := 0\<rparr>
        else c
      else c)"

definition recordFailure :: "time \<Rightarrow> circuit \<Rightarrow> circuit" where
  "recordFailure now c0 =
     (let c = c0\<lparr>ci_failures := ci_failures c0 + 1\<rparr> in
      if ci_state c = StateClosed \<and> ci_failures c \<ge> ci_failureThreshold c \<or> ci_state c = StateHalfOpen
      then c\<lparr>ci_state := StateOpen, ci_lastStateChange := now\<rparr>
      else c)"

section \<open>Execute\<close>

text \<open>The first test of \<open>Execute\<close>: an open circuit rejects, or turns half-open when its timeout is over.\<close>

definition check_open :: "(nat \<Rightarrow> time) \<Rightarrow> circuit \<Rightarrow> circuit \<times> 'e cb_error option" where
  "check_open clk c =
     (if ci_state c = StateOpen then
        if clk 1 - ci_lastStateChange c > ci_openTimeout c
        then (c\<lparr>ci_state := StateHalfOpen, ci_lastStateChange := clk 2\<rparr>, None)
        else (c\<lparr>ci_rejected := ci_rejected c + 1\<rparr>, Some ErrCircuitOpen)
      else (c, None))"

definition record_outcome ::
  "time \<Rightarrow> 'e outcome \<Rightarrow> circuit \<Rightarrow> circuit \<times> 'e cb_error option" where
  "record_outcome now oc c =
     (case oc of
        FnReturned (Some e) \<Rightarrow> (recordFailure now c, Some (FnError e))
      | FnReturned None \<Rightarrow> (recordSuccess now c, None)
      | CtxDone e \<Rightarrow> (recordFailure now (c\<lparr>ci_timeout := ci_timeout c + 1\<rparr>), Some (CtxError e)))"

definition execute_circuit ::
  "(nat \<Rightarrow> time) \<Rightarrow> ('s \<Rightarrow> 'e outcome \<times> 's) \<Rightarrow> circuit \<times> 's \<Rightarrow> 'e cb_error option \<times> circuit \<times> 's" where
  "execute_circuit clk fn cs =
     (case cs of (c0, s) \<Rightarrow>
        (case check_open clk c0 of
           (c, Some err) \<Rightarrow> (Some err, c, s)
         | (c, None) \<Rightarrow>
             if ci_concurrentRequests c \<ge> ci_maxConcurrent c
             then (Some ErrTooManyConcurrentRequests, c\<lparr>ci_rejected := ci_rejected c + 1\<rparr>, s)
             else
               let c1 = c\<lparr>ci_concurrentRequests := ci_concurrentRequests c + 1\<rparr>;
                   (oc, s') = fn s;
                   (c2, err) = record_outcome (clk 3) oc c1
               in (err, c2\<lparr>ci_concurrentRequests := ci_concurrentRequests c2 - 1\<rparr>, s')))"

definition Execute ::
  "(nat \<Rightarrow> time) \<Rightarrow> string \<Rightarrow> ('s \<Rightarrow> 'e outcome \<times> 's) \<Rightarrow> breaker \<times> 's
   \<Rightarrow> 'e cb_error option \<times> breaker \<times> 's" where
  "Execute clk name fn bs =
     (case bs of (cb0, s) \<Rightarrow>
        let (c, cb) = getCircuit (clk 0) name cb0;
            (err, c', s') = execute_circuit clk fn (c, s)
        in (err, cb\<lparr>cb_circuits := mput name c' (cb_circuits cb)\<rparr>, s'))"

text \<open>The fallback is optional; it too acts on the state behind the breaker.\<close>

definition ExecuteWithFallback ::
  "(nat \<Rightarrow> time) \<Rightarrow> string \<Rightarrow> ('s \<Rightarrow> 'e outcome \<times> 's)
   \<Rightarrow> ('e cb_error \<Rightarrow> 's \<Rightarrow> 'e cb_error option \<times> 's) option
   \<Rightarrow> breaker \<times> 's \<Rightarrow> 'e cb_error option \<times> breaker \<times> 's" where
  "ExecuteWithFallback clk name fn fallback bs =
     (case Execute clk name fn bs of
        (Some err, cb, s) \<Rightarrow>
          (case fallback of
             Some fb \<Rightarrow> (let (r, s') = fb err s in (r, cb, s'))
           | None \<Rightarrow> (Some err, cb, s))
      | (None, cb, s) \<Rightarrow> (None, cb, s))"

section \<open>Queries, reset and close\<close>

definition GetState :: "string \<Rightarrow> breaker \<Rightarrow> breaker_state" where
  "GetState name cb =
     (case mget (cb_circuits cb) name of Some c \<Rightarrow> ci_state c | None \<Rightarrow> StateClosed)"

definition GetMetrics :: "string \<Rightarrow> breaker \<Rightarrow> breaker_metrics" where
  "GetMetrics name cb =
     (case mget (cb_circuits cb) name of
        Some c \<Rightarrow> \<lparr>bm_Name = ci_name c, bm_State = ci_state c, bm_Failures = ci_failures c,
                   bm_Successes = ci_successes c, bm_Rejected = ci_rejected c,
                   bm_Timeout = ci_timeout c, bm_LastStateChange = ci_lastStateChange c\<rparr>
      | None \<Rightarrow> \<lparr>bm_Name = name, bm_State = StateClosed, bm_Failures = 0, bm_Successes = 0,
                 bm_Rejected = 0, bm_Timeout = 0, bm_LastStateChange = time_zero\<rparr>)"

definition Reset :: "time \<Rightarrow> string \<Rightarrow> breaker \<Rightarrow> breaker" where
  "Reset now name cb =
     (case mget (cb_circuits cb) name of
        Some c \<Rightarrow>
          cb\<lparr>cb_circuits := mput name
               (c\<lparr>ci_state := StateClosed, ci_lastStateChange := now, ci_failures := 0,
                  ci_successes := 0, ci_rejected := 0, ci_timeout := 0\<rparr>) (cb_circuits cb)\<rparr>
      | None \<Rightarrow> cb)"

definition Close :: "breaker \<Rightarrow> breaker" where
  "Close cb = cb\<lparr>cb_circuits := []\<rparr>"

section \<open>The builder\<close>

datatype builder_error = ErrNilConfig | ErrNilLogger | ErrNilRedisConfig | ErrNilRedisClient

text \<open>The logger and the Redis client are present or not.\<close>

record builder =
  bd_config :: "breaker_config option"
  bd_logger :: bool
  bd_redisConfig :: "redis_config option"
  bd_redisClient :: bool

type_synonym breaker_option = "builder \<Rightarrow> builder_error + builder"

definition NewBuilder :: builder where
  "NewBuilder = \<lparr>bd_config = None, bd_logger = False, bd_redisConfig = None, bd_redisClient = False\<rparr>"

definition WithConfig :: "breaker_config option \<Rightarrow> breaker_option" where
  "WithConfig cfg b = (if cfg = None then Inl ErrNilConfig else Inr (b\<lparr>bd_config := cfg\<rparr>))"

definition WithLogger :: "bool \<Rightarrow> breaker_option" where
  "WithLogger logger b = (if \<not> logger then Inl ErrNilLogger else Inr (b\<lparr>bd_logger := True\<rparr>))"

definition WithRedisConfig :: "redis_config option \<Rightarrow> breaker_option" where
  "WithRedisConfig rc b = (if rc = None then Inl ErrNilRedisConfig else Inr (b\<lparr>bd_redisConfig := rc\<rparr>))"

definition WithRedisClient :: "bool \<Rightarrow> breaker_option" where
  "WithRedisClient client b =
     (if \<not> client then Inl ErrNilRedisClient else Inr (b\<lparr>bd_redisClient := True\<rparr>))"

text \<open>What is built: the memory breaker, or a call of the Redis constructor with its arguments.\<close>

datatype built = BuiltMemory breaker | BuiltRedis breaker_config redis_config

definition Build :: "builder \<Rightarrow> builder_error + built" where
  "Build b =
     (case bd_config b of
        None \<Rightarrow> Inl ErrNilConfig
      | Some cfg \<Rightarrow>
          if \<not> bd_logger b then Inl ErrNilLogger
          else if bc_Provider cfg = ''redis'' then
            (case bd_redisConfig b of
               Some rc \<Rightarrow> Inr (BuiltRedis cfg rc)
             | None \<Rightarrow>
                 (case bc_Redis cfg of
                    None \<Rightarrow> Inl ErrNilRedisConfig
                  | Some r \<Rightarrow>
                      Inr (BuiltRedis cfg \<lparr>rd_Address = rd_Address r, rd_Password = rd_Password r,
                                           rd_DB = rd_DB r, rd_CacheTTL = rd_CacheTTL r\<rparr>)))
          else Inr (BuiltMemory (NewMemoryCircuitBreaker cfg)))"

fun apply_options :: "breaker_option list \<Rightarrow> builder \<Rightarrow> builder_error + builder" where
  "apply_options [] b = Inr b"
| "apply_options (opt # opts) b =
     (case opt b of Inl err \<Rightarrow> Inl err | Inr b' \<Rightarrow> apply_options opts b')"

definition New :: "breaker_option list \<Rightarrow> builder_error + built" where
  "New opts = (case apply_options opts NewBuilder of Inl err \<Rightarrow> Inl err | Inr b \<Rightarrow> Build b)"

section \<open>Interleaved execution\<close>

datatype 'e pc =
  AtCheck | AtHalfOpen | AtLimit | AtInc | Running
  | AtSuccess | AtCloseLock | AtFailure "'e cb_error" | AtOpenLock "'e cb_error"
  | AtDec "'e cb_error option" | Done "'e cb_error option"

fun thread_step :: "time \<Rightarrow> 'e outcome \<Rightarrow> circuit \<times> 'e pc \<Rightarrow> circuit \<times> 'e pc" where
  "thread_step now oc (c, AtCheck) =
     (if ci_state c = StateOpen then
        if now - ci_lastStateChange c > ci_openTimeout c then (c, AtHalfOpen)
        else (c\<lparr>ci_rejected := ci_rejected c + 1\<rparr>, Done (Some ErrCircuitOpen))
      else (c, AtLimit))"
| "thread_step now oc (c, AtHalfOpen) =
     (if ci_state c = StateOpen then (c\<lparr>ci_state := StateHalfOpen, ci_lastStateChange := now\<rparr>, AtLimit)
      else (c, AtLimit))"
| "thread_step now oc (c, AtLimit) =
     (if ci_concurrentRequests c \<ge> ci_maxConcurrent c
      then (c\<lparr>ci_rejected := ci_rejected c + 1\<rparr>, Done (Some ErrTooManyConcurrentRequests))
      else (c, AtInc))"
| "thread_step now oc (c, AtInc) =
     (c\<lparr>ci_concurrentRequests := ci_concurrentRequests c + 1\<rparr>, Running)"
| "thread_step now oc (c, Running) =
     (case oc of
        FnReturned None \<Rightarrow> (c, AtSuccess)
      | FnReturned (Some e) \<Rightarrow> (c, AtFailure (FnError e))
      | CtxDone e \<Rightarrow> (c\<lparr>ci_timeout := ci_timeout c + 1\<rparr>, AtFailure (CtxError e)))"
| "thread_step now oc (c, AtSuccess) =
     (let c' = c\<lparr>ci_successes := ci_successes c + 1\<rparr>
      in (c', if ci_state c' = StateHalfOpen then AtCloseLock else AtDec None))"
| "thread_step now oc (c, AtCloseLock) =
     (if ci_state c = StateHalfOpen \<and> ci_successes c \<ge> ci_successThreshold c
      then (c\<lparr>ci_state := StateClosed, ci_lastStateChange := now, ci_failures := 0, ci_successes := 0\<rparr>,
            AtDec None)
      else (c, AtDec None))"
| "thread_step now oc (c, AtFailure e) =
     (let c' = c\<lparr>ci_failures := ci_failures c + 1\<rparr>
      in (c', if ci_state c' = StateClosed \<and> ci_failures c' \<ge> ci_failureThreshold c'
                 \<or> ci_state c' = StateHalfOpen
              then AtOpenLock e else AtDec (Some e)))"
| "thread_step now oc (c, AtOpenLock e) =
     (if ci_state c = StateClosed \<and> ci_failures c \<ge> ci_failureThreshold c \<or> ci_state c = StateHalfOpen
      then (c\<lparr>ci_state := StateOpen, ci_lastStateChange := now\<rparr>, AtDec (Some e))
      else (c, AtDec (Some e)))"
| "thread_step now oc (c, AtDec r) =
     (c\<lparr>ci_concurrentRequests := ci_concurrentRequests c - 1\<rparr>, Done r)"
| "thread_step now oc (c, Done r) = (c, Done r)"

text \<open>Any goroutine may take the next step, at any clock reading and with any outcome of its call.\<close>

inductive sys_step :: "circuit \<times> 'e pc list \<Rightarrow> circuit \<times> 'e pc list \<Rightarrow> bool" where
  step: "i < length ts \<Longrightarrow> thread_step now oc (c, ts ! i) = (c', p) \<Longrightarrow> sys_step (c, ts) (c', ts[i := p])"

inductive_cases sys_stepE: "sys_step (c, ts) s'"

inductive sys_reach :: "circuit \<times> 'e pc list \<Rightarrow> bool" where
  init: "sys_reach (new_circuit cfg name now, replicate n AtCheck)"
| more: "sys_reach s \<Longrightarrow> sys_step s s' \<Longrightarrow> sys_reach s'"

section \<open>Lemmas on one call\<close>

lemmas record_defs = recordSuccess_def recordFailure_def record_outcome_def

text \<open>The fields that no call ever changes.\<close>

definition same_settings :: "circuit \<Rightarrow> circuit \<Rightarrow> bool" where
  "same_settings c c' \<longleftrightarrow>
     ci_name c' = ci_name c \<and> ci_openTimeout c' = ci_openTimeout c
     \<and> ci_failureThreshold c' = ci_failureThreshold c \<and> ci_successThreshold c' = ci_successThreshold c
     \<and> ci_maxConcurrent c' = ci_maxConcurrent c"

definition expired :: "(nat \<Rightarrow> time) \<Rightarrow> circuit \<Rightarrow> bool" where
  "expired clk c \<longleftrightarrow> clk 1 - ci_lastStateChange c > ci_openTimeout c"

definition admitted :: "(nat \<Rightarrow> time) \<Rightarrow> circuit \<Rightarrow> bool" where
  "admitted clk c \<longleftrightarrow>
     (ci_state c = StateOpen \<longrightarrow> expired clk c) \<and> ci_concurrentRequests c < ci_maxConcurrent c"

definition failed :: "'e outcome \<Rightarrow> bool" where
  "failed oc \<longleftrightarrow> oc \<noteq> FnReturned None"

lemma execute_settings:
  "execute_circuit clk fn (c, s) = (err, c', s') \<Longrightarrow>
   same_settings c c' \<and> ci_concurrentRequests c' = ci_concurrentRequests c"
  by (auto simp: execute_circuit_def check_open_def same_settings_def record_defs Let_def
      split: if_splits outcome.splits option.splits prod.splits)

lemma execute_rejected:
  assumes "\<not> admitted clk c"
  shows "\<exists>c'. execute_circuit clk fn (c, s) =
           (Some (if ci_state c = StateOpen \<and> \<not> expired clk c then ErrCircuitOpen
                  else ErrTooManyConcurrentRequests), c', s)
         \<and> ci_rejected c' = ci_rejected c + 1
         \<and> ci_failures c' = ci_failures c \<and> ci_successes c' = ci_successes c
         \<and> (ci_state c = StateOpen \<and> \<not> expired clk c \<longrightarrow> c' = c\<lparr>ci_rejected := ci_rejected c + 1\<rparr>)"
  using assms by (auto simp: execute_circuit_def check_open_def admitted_def expired_def)

text \<open>The circuit a call works on once it is admitted.\<close>

definition entered :: "(nat \<Rightarrow> time) \<Rightarrow> circuit \<Rightarrow> circuit" where
  "entered clk c =
     (if ci_state c = StateOpen then c\<lparr>ci_state := StateHalfOpen, ci_lastStateChange := clk 2\<rparr> else c)"

lemma entered_simps [simp]:
  "ci_state (entered clk c) = (if ci_state c = StateOpen then StateHalfOpen else ci_state c)"
  "ci_failures (entered clk c) = ci_failures c" "ci_successes (entered clk c) = ci_successes c"
  "ci_failureThreshold (entered clk c) = ci_failureThreshold c"
  "ci_successThreshold (entered clk c) = ci_successThreshold c"
  "ci_concurrentRequests (entered clk c) = ci_concurrentRequests c"
  "ci_maxConcurrent (entered clk c) = ci_maxConcurrent c"
  "ci_timeout (entered clk c) = ci_timeout c" "ci_rejected (entered clk c) = ci_rejected c"
  by (simp_all add: entered_def)

lemma record_concurrent:
  "fst (record_outcome now oc (c\<lparr>ci_concurrentRequests := n\<rparr>)) =
     (fst (record_outcome now oc c))\<lparr>ci_concurrentRequests := n\<rparr>"
  by (cases oc) (auto simp: record_defs Let_def split: option.splits)

lemma record_concurrent_field [simp]:
  "ci_concurrentRequests (fst (record_outcome now oc c)) = ci_concurrentRequests c"
  by (cases oc) (auto simp: record_defs Let_def split: option.splits)

lemma record_err [simp]: "snd (record_outcome now oc (c\<lparr>ci_concurrentRequests := n\<rparr>)) = snd (record_outcome now oc c)"
  by (cases oc) (auto simp: record_outcome_def split: option.splits)

lemma execute_admitted:
  assumes "admitted clk c" "fn s = (oc, s')"
  shows "execute_circuit clk fn (c, s) =
           (snd (record_outcome (clk 3) oc (entered clk c)),
            fst (record_outcome (clk 3) oc (entered clk c)), s')"
proof -
  have chk: "check_open clk c = (entered clk c, None)"
    using assms(1) by (auto simp: check_open_def admitted_def expired_def entered_def)
  have lim: "\<not> ci_concurrentRequests (entered clk c) \<ge> ci_maxConcurrent (entered clk c)"
    using assms(1) by (simp add: admitted_def)
  show ?thesis
    using lim assms(2)
    by (auto simp: execute_circuit_def chk Let_def case_prod_unfold record_concurrent)
qed

lemma record_outcome_failed:
  "failed oc \<Longrightarrow> ci_failures (fst (record_outcome now oc c)) = ci_failures c + 1"
  "failed oc \<Longrightarrow> ci_successes (fst (record_outcome now oc c)) = ci_successes c"
  "failed oc \<Longrightarrow> ci_state (fst (record_outcome now oc c)) =
     (if ci_state c = StateClosed \<and> ci_failures c + 1 \<ge> ci_failureThreshold c \<or> ci_state c = StateHalfOpen
      then StateOpen else ci_state c)"
  by (cases oc; auto simp: record_defs failed_def Let_def split: option.splits)+

lemma record_outcome_ok:
  "fst (record_outcome now (FnReturned None) c) = recordSuccess now c"
  "snd (record_outcome now (FnReturned None) c) = None"
  by (simp_all add: record_outcome_def)

lemma recordSuccess_state:
  "ci_state (recordSuccess now c) =
     (if ci_state c = StateHalfOpen \<and> ci_successes c + 1 \<ge> ci_successThreshold c
      then StateClosed else ci_state c)"
  by (simp add: recordSuccess_def Let_def)

section \<open>Sequences of calls\<close>

fun run_calls :: "((nat \<Rightarrow> time) \<times> 'e outcome) list \<Rightarrow> circuit \<Rightarrow> circuit" where
  "run_calls [] c = c"
| "run_calls ((clk, oc) # calls) c =
     run_calls calls (fst (snd (execute_circuit clk (\<lambda>s. (oc, s)) (c, ()))))"

lemma exec_failing_closed:
  assumes "ci_state c = StateClosed" "ci_concurrentRequests c < ci_maxConcurrent c" "failed oc"
  shows "\<exists>err c'. execute_circuit clk (\<lambda>s. (oc, s)) (c, s) = (err, c', s)
           \<and> ci_failures c' = ci_failures c + 1
           \<and> ci_state c' = (if ci_failures c + 1 \<ge> ci_failureThreshold c then StateOpen else StateClosed)
           \<and> same_settings c c' \<and> ci_concurrentRequests c' = ci_concurrentRequests c"
proof -
  have adm: "admitted clk c" using assms by (simp add: admitted_def)
  note e = execute_admitted [OF adm, of "\<lambda>s. (oc, s)" s oc s, OF refl]
  show ?thesis
    using e execute_settings [OF e] assms record_outcome_failed [OF assms(3), of "clk 3" "entered clk c"]
    by (auto simp: entered_def)
qed

lemma failing_calls:
  assumes "ci_state c = StateClosed" "ci_concurrentRequests c < ci_maxConcurrent c"
    and "\<forall>(clk, oc) \<in> set calls. failed oc"
    and "ci_failures c + int (length calls) \<le> ci_failureThreshold c" "ci_failures c < ci_failureThreshold c"
  shows "ci_state (run_calls calls c) =
           (if ci_failures c + int (length calls) = ci_failureThreshold c then StateOpen else StateClosed)
         \<and> ci_failures (run_calls calls c) = ci_failures c + int (length calls)"
  using assms
proof (induction calls arbitrary: c)
  case Nil
  then show ?case by simp
next
  case (Cons call calls)
  obtain clk oc where call: "call = (clk, oc)" by (cases call)
  with Cons.prems have f: "failed oc" by simp
  from exec_failing_closed [OF Cons.prems(1,2) f, of clk "()"] obtain err c' where
    ex: "execute_circuit clk (\<lambda>s. (oc, s)) (c, ()) = (err, c', ())"
    and c': "ci_failures c' = ci_failures c + 1"
      "ci_state c' = (if ci_failures c + 1 \<ge> ci_failureThreshold c then StateOpen else StateClosed)"
      "same_settings c c'" "ci_concurrentRequests c' = ci_concurrentRequests c" by blast
  show ?case
  proof (cases "calls = []")
    case True
    with ex c' call Cons.prems show ?thesis by auto
  next
    case False
    then have len: "1 \<le> int (length calls)" by (cases calls) auto
    have st: "ci_state c' = StateClosed" using c'(2) len Cons.prems(4) by auto
    have "ci_concurrentRequests c' < ci_maxConcurrent c'" "\<forall>(clk, oc) \<in> set calls. failed oc"
      "ci_failures c' + int (length calls) \<le> ci_failureThreshold c'"
      "ci_failures c' < ci_failureThreshold c'"
      using c' len Cons.prems by (auto simp: same_settings_def)
    note IH = Cons.IH [OF st this]
    show ?thesis using IH ex call c' by (simp add: same_settings_def)
  qed
qed

lemma exec_ok:
  assumes "admitted clk c"
  shows "execute_circuit clk (\<lambda>s. (FnReturned None, s)) (c, s) = (None, recordSuccess (clk 3) (entered clk c), s)"
  using execute_admitted [OF assms, of "\<lambda>s. (FnReturned None, s)" s] by (simp add: record_outcome_ok)

lemma half_open_successes:
  assumes "ci_state c = StateHalfOpen" "ci_concurrentRequests c < ci_maxConcurrent c"
    and "\<forall>(clk, oc) \<in> set calls. oc = FnReturned (None :: 'e option)"
    and "ci_successes c + int (length calls) \<le> ci_successThreshold c" "calls \<noteq> []"
  shows "ci_state (run_calls calls c) =
           (if ci_successes c + int (length calls) = ci_successThreshold c then StateClosed else StateHalfOpen)"
  using assms
proof (induction calls arbitrary: c)
  case Nil
  then show ?case by simp
next
  case (Cons call calls)
  obtain clk where call: "call = (clk, FnReturned None)" using Cons.prems(3) by (cases call) auto
  have adm: "admitted clk c" using Cons.prems by (simp add: admitted_def)
  let ?c' = "recordSuccess (clk 3) (entered clk c)"
  have ex: "fst (snd (execute_circuit clk (\<lambda>s. (FnReturned (None :: 'e option), s)) (c, ()))) = ?c'"
    by (simp add: exec_ok [OF adm])
  show ?case
  proof (cases "calls = []")
    case True
    with ex call Cons.prems show ?thesis by (auto simp: recordSuccess_state)
  next
    case False
    then have "1 \<le> int (length calls)" by (cases calls) auto
    then have c': "?c' = c\<lparr>ci_successes := ci_successes c + 1\<rparr>"
      using Cons.prems(1,4) by (simp add: recordSuccess_def entered_def Let_def)
    have "ci_state (run_calls calls ?c') =
        (if ci_successes ?c' + int (length calls) = ci_successThreshold ?c' then StateClosed else StateHalfOpen)"
      using Cons.prems False by (intro Cons.IH) (auto simp: c')
    then show ?thesis using ex call by (simp add: c')
  qed
qed

section \<open>A goroutine on its own\<close>

fun reading :: "(nat \<Rightarrow> time) \<Rightarrow> 'e pc \<Rightarrow> time" where
  "reading clk AtCheck = clk 1"
| "reading clk AtHalfOpen = clk 2"
| "reading clk p = clk 3"

definition solo :: "(nat \<Rightarrow> time) \<Rightarrow> 'e outcome \<Rightarrow> circuit \<times> 'e pc \<Rightarrow> circuit \<times> 'e pc" where
  "solo clk oc s = thread_step (reading clk (snd s)) oc s"

lemma solo_Done [simp]: "(solo clk oc ^^ n) (c, Done r) = (c, Done r)"
  by (induction n) (simp_all add: solo_def)

lemma solo_add: "(solo clk oc ^^ n) s = t \<Longrightarrow> (solo clk oc ^^ m) t = u \<Longrightarrow> (solo clk oc ^^ (m + n)) s = u"
  by (simp add: funpow_add)

text \<open>From the increment on, the steps of a goroutine that runs alone record the outcome.\<close>

lemma solo_running:
  "\<exists>k \<le> 4. (solo clk oc ^^ k) (c, Running) =
     ((fst (record_outcome (clk 3) oc c))\<lparr>ci_concurrentRequests := ci_concurrentRequests c - 1\<rparr>,
      Done (snd (record_outcome (clk 3) oc c)))"
proof (cases oc)
  case (FnReturned r)
  show ?thesis
  proof (cases r)
    case None
    show ?thesis
    proof (cases "ci_state c = StateHalfOpen")
      case True
      then show ?thesis using FnReturned None
        by (intro exI [of _ 4])
          (simp add: solo_def eval_nat_numeral record_outcome_def recordSuccess_def Let_def)
    next
      case False
      then show ?thesis using FnReturned None
        by (intro exI [of _ 3])
          (simp add: solo_def eval_nat_numeral record_outcome_def recordSuccess_def Let_def)
    qed
  next
    case (Some e)
    show ?thesis
    proof (cases "ci_state c = StateClosed \<and> ci_failures c + 1 \<ge> ci_failureThreshold c \<or> ci_state c = StateHalfOpen")
      case True
      then show ?thesis using FnReturned Some
        by (intro exI [of _ 4])
          (simp add: solo_def eval_nat_numeral record_outcome_def recordFailure_def Let_def)
    next
      case False
      then show ?thesis using FnReturned Some
        by (intro exI [of _ 3])
          (auto simp: solo_def eval_nat_numeral record_outcome_def recordFailure_def Let_def)
    qed
  qed
next
  case (CtxDone e)
  show ?thesis
  proof (cases "ci_state c = StateClosed \<and> ci_failures c + 1 \<ge> ci_failureThreshold c \<or> ci_state c = StateHalfOpen")
    case True
    then show ?thesis using CtxDone
      by (intro exI [of _ 4])
        (simp add: solo_def eval_nat_numeral record_outcome_def recordFailure_def Let_def)
  next
    case False
    then show ?thesis using CtxDone
      by (intro exI [of _ 3])
        (auto simp: solo_def eval_nat_numeral record_outcome_def recordFailure_def Let_def)
  qed
qed

lemma solo_entry:
  assumes "admitted clk c"
  shows "\<exists>k \<le> 4. (solo clk oc ^^ k) (c, AtCheck) =
     ((entered clk c)\<lparr>ci_concurrentRequests := ci_concurrentRequests c + 1\<rparr>, Running)"
proof (cases "ci_state c = StateOpen")
  case True
  with assms show ?thesis
    by (intro exI [of _ 4]) (simp add: solo_def eval_nat_numeral admitted_def expired_def entered_def)
next
  case False
  with assms show ?thesis
    by (intro exI [of _ 3]) (simp add: solo_def eval_nat_numeral admitted_def expired_def entered_def)
qed

lemma solo_refines_admitted:
  assumes "admitted clk c"
  shows "\<exists>k. (solo clk oc ^^ k) (c, AtCheck) =
     (fst (record_outcome (clk 3) oc (entered clk c)), Done (snd (record_outcome (clk 3) oc (entered clk c))))"
proof -
  let ?c1 = "(entered clk c)\<lparr>ci_concurrentRequests := ci_concurrentRequests c + 1\<rparr>"
  obtain k where k: "(solo clk oc ^^ k) (c, AtCheck) = (?c1, Running)"
    using solo_entry [OF assms] by blast
  obtain l where l: "(solo clk oc ^^ l) (?c1, Running) =
     ((fst (record_outcome (clk 3) oc ?c1))\<lparr>ci_concurrentRequests := ci_concurrentRequests ?c1 - 1\<rparr>,
      Done (snd (record_outcome (clk 3) oc ?c1)))"
    using solo_running by blast
  have "(fst (record_outcome (clk 3) oc ?c1))\<lparr>ci_concurrentRequests := ci_concurrentRequests ?c1 - 1\<rparr>
          = fst (record_outcome (clk 3) oc (entered clk c))"
    by (simp add: record_concurrent)
  with solo_add [OF k l] show ?thesis by auto
qed

lemma solo_refines_rejected:
  assumes "\<not> admitted clk c"
  shows "\<exists>k. (solo clk oc ^^ k) (c, AtCheck) =
     (fst (snd (execute_circuit clk (\<lambda>s. (oc, s)) (c, ()))),
      Done (fst (execute_circuit clk (\<lambda>s. (oc, s)) (c, ()))))"
proof (cases "ci_state c = StateOpen")
  case True
  show ?thesis
  proof (cases "expired clk c")
    case False
    with True show ?thesis
      by (intro exI [of _ 1]) (simp add: solo_def expired_def execute_circuit_def check_open_def)
  next
    case ex: True
    with True assms show ?thesis
      by (intro exI [of _ 3])
        (auto simp: solo_def eval_nat_numeral expired_def execute_circuit_def check_open_def admitted_def)
  qed
next
  case False
  with assms show ?thesis
    by (intro exI [of _ 2])
      (simp add: solo_def eval_nat_numeral expired_def execute_circuit_def check_open_def admitted_def)
qed

section \<open>Goroutines together\<close>

fun in_flight :: "'e pc \<Rightarrow> bool" where
  "in_flight AtCheck = False"
| "in_flight AtHalfOpen = False"
| "in_flight AtLimit = False"
| "in_flight AtInc = False"
| "in_flight (Done r) = False"
| "in_flight p = True"

definition flights :: "'e pc list \<Rightarrow> nat" where
  "flights ts = length (filter in_flight ts)"

lemma flights_update:
  "i < length ts \<Longrightarrow>
   int (flights (ts[i := p])) =
     int (flights ts) + (if in_flight p then 1 else 0) - (if in_flight (ts ! i) then 1 else 0)"
proof (induction ts arbitrary: i)
  case Nil
  then show ?case by simp
next
  case (Cons t ts)
  show ?case
  proof (cases i)
    case 0
    then show ?thesis by (simp add: flights_def)
  next
    case (Suc j)
    with Cons.prems have "j < length ts" by simp
    from Cons.IH [OF this] Suc show ?thesis
      by (cases "in_flight p"; cases "in_flight (ts ! j)") (simp_all add: flights_def)
  qed
qed

lemma thread_step_flight:
  "thread_step now oc (c, p) = (c', p') \<Longrightarrow>
   ci_concurrentRequests c' =
     ci_concurrentRequests c + (if in_flight p' then 1 else 0) - (if in_flight p then 1 else 0)"
  by (cases p) (auto simp: Let_def split: if_splits outcome.splits option.splits)

lemma thread_step_settings: "thread_step now oc (c, p) = (c', p') \<Longrightarrow> same_settings c c'"
  by (cases p) (auto simp: Let_def same_settings_def split: if_splits outcome.splits option.splits)

lemma sys_reach_counter:
  "sys_reach s \<Longrightarrow> ci_concurrentRequests (fst s) = int (flights (snd s))"
proof (induction rule: sys_reach.induct)
  case (init cfg name now n)
  then show ?case by (simp add: new_circuit_def flights_def)
next
  case (more s s')
  obtain c ts where s: "s = (c, ts)" by (cases s)
  from more.hyps(2)[unfolded s] obtain i now oc c' p where
    st: "i < length ts" "thread_step now oc (c, ts ! i) = (c', p)" "s' = (c', ts[i := p])"
    by (auto elim: sys_stepE)
  then show ?case
    using more.IH s thread_step_flight [OF st(2)] flights_update [OF st(1), of p] by simp
qed

section \<open>The port\<close>

text \<open>
  What clients rely on of a circuit breaker (\<open>ports.CircuitBreaker\<close>): a rejected call leaves
  everything behind the breaker alone, any other call runs the function exactly once and reports
  its outcome; circuits of other names are not affected; a reset circuit is closed.
\<close>

definition rejection :: "'e cb_error option \<Rightarrow> bool" where
  "rejection err \<longleftrightarrow> err = Some ErrCircuitOpen \<or> err = Some ErrTooManyConcurrentRequests"

fun outcome_error :: "'e outcome \<Rightarrow> 'e cb_error option" where
  "outcome_error (FnReturned None) = None"
| "outcome_error (FnReturned (Some e)) = Some (FnError e)"
| "outcome_error (CtxDone e) = Some (CtxError e)"

locale circuit_breaker =
  fixes state_of :: "string \<Rightarrow> 'b \<Rightarrow> breaker_state"
    and execute :: "(nat \<Rightarrow> time) \<Rightarrow> string \<Rightarrow> ('s \<Rightarrow> 'e outcome \<times> 's) \<Rightarrow> 'b \<times> 's \<Rightarrow> 'e cb_error option \<times> 'b \<times> 's"
    and reset :: "time \<Rightarrow> string \<Rightarrow> 'b \<Rightarrow> 'b"
  assumes rejected_untouched: "execute clk name fn (b, s) = (err, b', s') \<Longrightarrow> rejection err \<Longrightarrow> s' = s"
    and ran_once: "execute clk name fn (b, s) = (err, b', s') \<Longrightarrow> \<not> rejection err \<Longrightarrow>
          s' = snd (fn s) \<and> err = outcome_error (fst (fn s))"
    and execute_other: "execute clk name fn (b, s) = (err, b', s') \<Longrightarrow> other \<noteq> name \<Longrightarrow>
          state_of other b' = state_of other b"
    and reset_closed: "state_of name (reset now name b) = StateClosed"
    and reset_other: "other \<noteq> name \<Longrightarrow> state_of other (reset now name b) = state_of other b"
begin

lemma success_means_run:
  "execute clk name fn (b, s) = (None, b', s') \<Longrightarrow> fst (fn s) = FnReturned None \<and> s' = snd (fn s)"
  using ran_once [of clk name fn b s None b' s']
  by (cases "fst (fn s)" rule: outcome_error.cases) (auto simp: rejection_def)

end

lemma execute_circuit_outcome:
  "execute_circuit clk fn (c, s) = (err, c', s') \<Longrightarrow>
   (if rejection err then s' = s else s' = snd (fn s) \<and> err = outcome_error (fst (fn s)))"
  by (auto simp: execute_circuit_def check_open_def rejection_def record_outcome_def Let_def
      split: if_splits outcome.splits option.splits prod.splits)

lemma getCircuit_other:
  "getCircuit now name cb = (c, cb') \<Longrightarrow> other \<noteq> name \<Longrightarrow>
   mget (cb_circuits cb') other = mget (cb_circuits cb) other"
  by (auto simp: getCircuit_def Let_def mget_mput split: option.splits)

lemma Execute_unfold:
  assumes "Execute clk name fn (cb, s) = (err, cb', s')"
  obtains c cb1 c' where "getCircuit (clk 0) name cb = (c, cb1)"
    "execute_circuit clk fn (c, s) = (err, c', s')"
    "cb' = cb1\<lparr>cb_circuits := mput name c' (cb_circuits cb1)\<rparr>"
  using assms by (auto simp: Execute_def Let_def split: prod.splits)

interpretation mcb: circuit_breaker GetState Execute Reset
proof unfold_locales
  fix clk name and fn :: "'s \<Rightarrow> 'e outcome \<times> 's" and b s err b' s'
  assume ex: "Execute clk name fn (b, s) = (err, b', s')"
  from ex show "rejection err \<Longrightarrow> s' = s"
    using execute_circuit_outcome by (elim Execute_unfold) fastforce
  from ex show "\<not> rejection err \<Longrightarrow> s' = snd (fn s) \<and> err = outcome_error (fst (fn s))"
    using execute_circuit_outcome by (elim Execute_unfold) fastforce
  from ex show "other \<noteq> name \<Longrightarrow> GetState other b' = GetState other b" for other
    by (elim Execute_unfold) (simp add: GetState_def mget_mput getCircuit_other)
qed (auto simp: GetState_def Reset_def mget_mput split: option.splits)

section \<open>Properties\<close>

text \<open>The state of a circuit changes in one call only along the edges of the breaker's state
  machine. A rejected open circuit stays open; a closed circuit opens exactly when the call fails
  and the failures reach the threshold; an open circuit whose timeout is over is entered as
  half-open; from half-open a failure opens it and a success closes it once the counted successes
  reach the threshold; in every other case it stays as it was.\<close>

lemma execute_transitions:
  assumes "execute_circuit clk fn (c, s) = (err, c', s')"
  shows "ci_state c' =
    (if ci_state c = StateOpen \<and> \<not> expired clk c then StateOpen
     else if ci_concurrentRequests c \<ge> ci_maxConcurrent c then ci_state (entered clk c)
     else if failed (fst (fn s)) then
       (if ci_state c = StateClosed \<and> ci_failures c + 1 < ci_failureThreshold c
        then StateClosed else StateOpen)
     else if ci_state c \<noteq> StateClosed \<and> ci_successes c + 1 < ci_successThreshold c
       then StateHalfOpen else StateClosed)"
proof (cases "admitted clk c")
  case True
  have e: "c' = fst (record_outcome (clk 3) (fst (fn s)) (entered clk c))"
    using assms execute_admitted [OF True, of fn s "fst (fn s)" "snd (fn s)"] by simp
  have adm: "ci_state c = StateOpen \<Longrightarrow> expired clk c" "ci_concurrentRequests c < ci_maxConcurrent c"
    using True by (auto simp: admitted_def)
  show ?thesis
  proof (cases "failed (fst (fn s))")
    case True
    then show ?thesis using adm by (cases "ci_state c") (auto simp: e record_outcome_failed)
  next
    case False
    then have "fst (fn s) = FnReturned None" by (simp add: failed_def)
    with False adm show ?thesis
      by (cases "ci_state c") (auto simp: e record_outcome_ok recordSuccess_state)
  qed
next
  case False
  then show ?thesis using assms
    by (auto simp: execute_circuit_def check_open_def admitted_def expired_def entered_def
        split: if_splits)
qed

text \<open>A closed circuit below its limit of concurrent requests opens after exactly as many
  failing calls in a row as the threshold has left, whatever the clock shows, and stays closed
  through every shorter run of failures.\<close>

lemma breaker_trips:
  assumes "ci_state c = StateClosed" "ci_concurrentRequests c < ci_maxConcurrent c"
    and "ci_failures c < ci_failureThreshold c"
    and "\<forall>(clk, oc) \<in> set calls. failed oc"
    and "ci_failures c + int (length calls) \<le> ci_failureThreshold c"
  shows "ci_state (run_calls calls c) = StateOpen \<longleftrightarrow>
           int (length calls) = ci_failureThreshold c - ci_failures c"
  using failing_calls [OF assms(1,2,4,5,3)] by auto

text \<open>A half-open circuit below its limit of concurrent requests closes after exactly as many
  successful calls in a row as bring the success counter to the threshold.\<close>

lemma breaker_recovers:
  assumes "ci_state c = StateHalfOpen" "ci_concurrentRequests c < ci_maxConcurrent c"
    and "\<forall>(clk, oc) \<in> set calls. oc = FnReturned (None :: 'e option)" "calls \<noteq> []"
    and "ci_successes c + int (length calls) \<le> ci_successThreshold c"
  shows "ci_state (run_calls calls c) = StateClosed \<longleftrightarrow>
           int (length calls) = ci_successThreshold c - ci_successes c"
  using half_open_successes [OF assms(1,2,3,5,4)] by auto

text \<open>An open circuit that has already counted enough successes, if only from the time before
  it opened, closes on the first successful call after its timeout: the counter of successes is
  not reset when the circuit turns half-open.\<close>

lemma stale_successes_close:
  assumes "ci_state c = StateOpen" "expired clk c" "ci_concurrentRequests c < ci_maxConcurrent c"
    and "ci_successThreshold c \<le> ci_successes c + 1"
  shows "ci_state (fst (snd (execute_circuit clk (\<lambda>s. (FnReturned None, s)) (c, s)))) = StateClosed"
proof -
  have "admitted clk c" using assms by (simp add: admitted_def)
  then show ?thesis using assms by (simp add: exec_ok recordSuccess_state)
qed


text \<open>However the goroutines interleave, the counter of concurrent requests equals the number
  of goroutines between their increment and their decrement; in particular it is never negative
  and is zero again when all calls are done.\<close>

lemma concurrent_counter_exact:
  assumes "sys_reach (c, ts)"
  shows "ci_concurrentRequests c = int (length (filter in_flight ts))
    \<and> ((\<forall>t \<in> set ts. \<not> in_flight t) \<longrightarrow> ci_concurrentRequests c = 0)"
  using sys_reach_counter [OF assms] by (auto simp: flights_def filter_empty_conv)

section \<open>Witnesses\<close>

definition sample_breaker_config :: breaker_config where
  "sample_breaker_config =
     \<lparr>bc_Enabled = True, bc_Provider = ''memory'', bc_Threshold = 2, bc_Timeout = 10,
      bc_HalfOpenSuccessThreshold = 2, bc_MaxConcurrentRequests = 1, bc_RequestTimeout = 2,
      bc_Redis = None\<rparr>"

abbreviation sample_circuit :: circuit where
  "sample_circuit \<equiv> new_circuit sample_breaker_config ''users'' 0"

lemma sample_circuit_fields [simp]:
  "ci_state sample_circuit = StateClosed" "ci_failures sample_circuit = 0"
  "ci_successes sample_circuit = 0" "ci_concurrentRequests sample_circuit = 0"
  "ci_maxConcurrent sample_circuit = 1" "ci_failureThreshold sample_circuit = 2"
  "ci_successThreshold sample_circuit = 2" "ci_openTimeout sample_circuit = 10"
  "ci_lastStateChange sample_circuit = 0"
  by (simp_all add: new_circuit_def sample_breaker_config_def int32_of_def)

abbreviation clock0 :: "nat \<Rightarrow> time" where
  "clock0 \<equiv> \<lambda>_. 0"

lemma execute_transitions_witness:
  "ci_state (fst (snd (execute_circuit clock0 (\<lambda>s. (FnReturned (Some ''e''), s)) (sample_circuit, ()))))
     = StateClosed"
proof -
  obtain err c' s' where ex: "execute_circuit clock0 (\<lambda>s. (FnReturned (Some ''e''), s)) (sample_circuit, ())
      = (err, c', s')"
    by (metis prod.exhaust)
  from execute_transitions [OF ex] have "ci_state c' = StateClosed" by (simp add: failed_def)
  with ex show ?thesis by simp
qed

lemma breaker_trips_witness:
  "ci_state (run_calls (replicate 2 (clock0, FnReturned (Some ''e''))) sample_circuit) = StateOpen"
  using breaker_trips [of sample_circuit "replicate 2 (clock0, FnReturned (Some ''e''))"]
  by (simp add: failed_def)

lemma breaker_recovers_witness:
  "ci_state (run_calls (replicate 2 (clock0, FnReturned (None :: nat option)))
     (sample_circuit\<lparr>ci_state := StateHalfOpen\<rparr>)) = StateClosed"
  using breaker_recovers [of "sample_circuit\<lparr>ci_state := StateHalfOpen\<rparr>"
      "replicate 2 (clock0, FnReturned (None :: nat option))"] by simp

text \<open>A circuit that served two requests, then failed twice and so opened.\<close>

definition opened_after_successes :: circuit where
  "opened_after_successes =
     run_calls [(clock0, FnReturned None), (clock0, FnReturned None),
                (clock0, FnReturned (Some ''e'')), (clock0, FnReturned (Some ''e''))] sample_circuit"

lemma stale_successes_close_witness:
  "ci_state (fst (snd (execute_circuit (\<lambda>_. 11) (\<lambda>s. (FnReturned (None :: nat option), s))
     (opened_after_successes, ())))) = StateClosed"
proof -
  have "ci_state opened_after_successes = StateOpen" "expired (\<lambda>_. 11) opened_after_successes"
    "ci_concurrentRequests opened_after_successes < ci_maxConcurrent opened_after_successes"
    "ci_successThreshold opened_after_successes \<le> ci_successes opened_after_successes + 1"
    by code_simp+
  then show ?thesis by (rule stale_successes_close)
qed


lemma concurrent_counter_exact_witness:
  "ci_concurrentRequests (new_circuit sample_breaker_config ''users'' 0) = 0"
  using concurrent_counter_exact [OF init [of sample_breaker_config "''users''" 0 2]] by simp

section \<open>An interleaving above the limit\<close>

text \<open>The test of the limit and the increment are two accesses. With a limit of one concurrent
  request, two goroutines that both test before either increments are both admitted, and two
  requests are in flight.\<close>

lemma limit_exceeded:
  "\<exists>c. sys_reach (c, [Running, Running] :: nat pc list)
     \<and> ci_concurrentRequests c = 2 \<and> ci_maxConcurrent c = 1"
proof -
  have s0: "sys_reach (sample_circuit, [AtCheck, AtCheck] :: nat pc list)"
    using init [of sample_breaker_config "''users''" 0 2] by (simp add: eval_nat_numeral)
  have "sys_step (sample_circuit, [AtCheck, AtCheck] :: nat pc list) (sample_circuit, [AtLimit, AtCheck])"
    using step [of 0 "[AtCheck, AtCheck] :: nat pc list" 0 "FnReturned None" sample_circuit sample_circuit AtLimit] by simp
  note s1 = more [OF s0 this]
  have "sys_step (sample_circuit, [AtLimit, AtCheck] :: nat pc list) (sample_circuit, [AtInc, AtCheck])"
    using step [of 0 "[AtLimit, AtCheck] :: nat pc list" 0 "FnReturned None" sample_circuit sample_circuit AtInc] by simp
  note s2 = more [OF s1 this]
  have "sys_step (sample_circuit, [AtInc, AtCheck] :: nat pc list) (sample_circuit, [AtInc, AtLimit])"
    using step [of 1 "[AtInc, AtCheck] :: nat pc list" 0 "FnReturned None" sample_circuit sample_circuit AtLimit] by simp
  note s3 = more [OF s2 this]
  have "sys_step (sample_circuit, [AtInc, AtLimit] :: nat pc list) (sample_circuit, [AtInc, AtInc])"
    using step [of 1 "[AtInc, AtLimit] :: nat pc list" 0 "FnReturned None" sample_circuit sample_circuit AtInc] by simp
  note s4 = more [OF s3 this]
  let ?c1 = "sample_circuit\<lparr>ci_concurrentRequests := 1\<rparr>"
  let ?c2 = "?c1\<lparr>ci_concurrentRequests := 2\<rparr>"
  have "sys_step (sample_circuit, [AtInc, AtInc] :: nat pc list) (?c1, [Running, AtInc])"
    using step [of 0 "[AtInc, AtInc] :: nat pc list" 0 "FnReturned None" sample_circuit ?c1 Running] by simp
  note s5 = more [OF s4 this]
  have "sys_step (?c1, [Running, AtInc] :: nat pc list) (?c2, [Running, Running])"
    using step [of 1 "[Running, AtInc] :: nat pc list" 0 "FnReturned None" ?c1 ?c2 Running] by simp
  note s6 = more [OF s5 this]
  show ?thesis using s6 by (intro exI [of _ ?c2]) simp
qed

end
