(* ===== verification/BreakerMiddleware.thy ===== *)
theory BreakerMiddleware
  imports CircuitBreaker
begin

text \<open>
  The circuit-breaker middleware (\<open>gateway/adapters/circuitbreaker/middleware.go\<close>). It is written
  against the port, so the breaker's \<open>Execute\<close> is an argument; the facts about it are proved in
  the locale of the port and hold for the memory breaker through its interpretation.

  \<open>late\<close> tells how the \<open>select\<close> of the breaker ends: \<open>None\<close> when the result of the wrapped handler
  is received, \<open>Some (k, e)\<close> when the context is done after the handler has made \<open>k\<close> of its calls
  on the response writer.
\<close>

section \<open>The service name of a request\<close>

fun split_path_loop :: "string \<Rightarrow> string \<Rightarrow> string list \<Rightarrow> string list" where
  "split_path_loop [] current segments = (if current \<noteq> [] then segments @ [current] else segments)"
| "split_path_loop (ch # path) current segments =
     (if ch = CHR ''/'' then
        if current \<noteq> [] then split_path_loop path [] (segments @ [current])
        else split_path_loop path current segments
      else split_path_loop path (current @ [ch]) segments)"

definition splitPath :: "string \<Rightarrow> string list" where
  "splitPath path = split_path_loop path [] []"

definition serviceNameFromRequest :: "request \<Rightarrow> string" where
  "serviceNameFromRequest r =
     (let path = rq_Path r;
          derived = (if length path \<le> 1 then ''default''
                     else (let segments = splitPath path in
                           if length segments > 0 then segments ! 0 else ''default''))
      in case cx_breaker_service (rq_ctx r) of
           Some contextService \<Rightarrow> if contextService \<noteq> [] then contextService else derived
         | None \<Rightarrow> derived)"

section \<open>The response writer\<close>

text \<open>The status code that the wrapper has recorded after the given calls.\<close>

fun rw_status :: "nat \<Rightarrow> write_call list \<Rightarrow> nat" where
  "rw_status code [] = code"
| "rw_status code (WriteHeader c # calls) = rw_status c calls"
| "rw_status code (Write b # calls) = rw_status (if code = 0 then 200 else code) calls"

section \<open>The handler\<close>

definition unavailable_body :: string where
  "unavailable_body = ''{\"error\":\"Service temporarily unavailable\"}''"

definition breaker_fn ::
  "(nat \<times> string) option \<Rightarrow> 'w handler \<Rightarrow> request \<Rightarrow> write_call list \<times> 'w
   \<Rightarrow> nat outcome \<times> (write_call list \<times> 'w)" where
  "breaker_fn late next r ws =
     (let (calls, w') = next r (snd ws)
      in case late of
           None \<Rightarrow> (if rw_status 0 calls \<ge> 500 then FnReturned (Some (rw_status 0 calls))
                    else FnReturned None,
                    (fst ws @ calls, w'))
         | Some (k, e) \<Rightarrow> (CtxDone e, (fst ws @ take k calls, w')))"

definition breaker_fallback ::
  "nat cb_error \<Rightarrow> write_call list \<times> 'w \<Rightarrow> nat cb_error option \<times> (write_call list \<times> 'w)" where
  "breaker_fallback err ws =
     (let code = (if err = ErrTooManyConcurrentRequests then 429 else 503)
      in (None, (fst ws @ [WriteHeader code, Write unavailable_body], snd ws)))"

text \<open>\<open>ExecuteWithFallback\<close> of the port, given the breaker's \<open>Execute\<close>.\<close>

definition with_fallback ::
  "((nat \<Rightarrow> time) \<Rightarrow> string \<Rightarrow> ('s \<Rightarrow> 'e outcome \<times> 's) \<Rightarrow> 'b \<times> 's \<Rightarrow> 'e cb_error option \<times> 'b \<times> 's)
   \<Rightarrow> (nat \<Rightarrow> time) \<Rightarrow> string \<Rightarrow> ('s \<Rightarrow> 'e outcome \<times> 's)
   \<Rightarrow> ('e cb_error \<Rightarrow> 's \<Rightarrow> 'e cb_error option \<times> 's) \<Rightarrow> 'b \<times> 's \<Rightarrow> 'e cb_error option \<times> 'b \<times> 's" where
  "with_fallback exe clk name fn fallback bs =
     (case exe clk name fn bs of
        (Some err, cb, s) \<Rightarrow> (let (r, s') = fallback err s in (r, cb, s'))
      | (None, cb, s) \<Rightarrow> (None, cb, s))"

definition breaker_handler ::
  "((nat \<Rightarrow> time) \<Rightarrow> string \<Rightarrow> (write_call list \<times> 'w \<Rightarrow> nat outcome \<times> (write_call list \<times> 'w))
     \<Rightarrow> 'b \<times> (write_call list \<times> 'w) \<Rightarrow> nat cb_error option \<times> 'b \<times> (write_call list \<times> 'w))
   \<Rightarrow> (nat \<Rightarrow> time) \<Rightarrow> (nat \<times> string) option \<Rightarrow> 'w handler \<Rightarrow> ('b \<times> 'w) handler" where
  "breaker_handler exe clk late next r bw =
     (let (err, cb, ws) = with_fallback exe clk (serviceNameFromRequest r) (breaker_fn late next r)
                            breaker_fallback (fst bw, ([], snd bw))
      in (fst ws, (cb, snd ws)))"

lemma with_fallback_memory: "with_fallback Execute clk name fn fb = ExecuteWithFallback clk name fn (Some fb)"
  by (rule ext) (simp add: with_fallback_def ExecuteWithFallback_def cong: option.case_cong)

section \<open>Splitting paths\<close>

lemma split_path_loop_eq:
  "split_path_loop path current segments =
     segments @ filter (\<lambda>w. w \<noteq> []) (case Split (CHR ''/'') path of w # ws \<Rightarrow> (current @ w) # ws)"
proof (induction path current segments rule: split_path_loop.induct)
  case (1 current segments)
  then show ?case by simp
next
  case (2 ch path current segments)
  obtain w ws where sp: "Split (CHR ''/'') path = w # ws"
    by (metis Split_ne neq_Nil_conv)
  show ?case using 2 sp by (cases "ch = CHR ''/''"; cases "current = []") auto
qed

lemma splitPath_eq: "splitPath path = filter (\<lambda>w. w \<noteq> []) (Split (CHR ''/'') path)"
proof -
  obtain w ws where "Split (CHR ''/'') path = w # ws" by (metis Split_ne neq_Nil_conv)
  then show ?thesis by (simp add: splitPath_def split_path_loop_eq)
qed

section \<open>Facts for every breaker\<close>

context circuit_breaker
begin

lemma handler_rejected:
  assumes "execute clk name fn (b, s) = (Some err, b', s')" "rejection (Some err)"
  shows "with_fallback execute clk name fn fb (b, s) = (fst (fb err s), b', snd (fb err s))"
  using assms rejected_untouched [OF assms] by (simp add: with_fallback_def case_prod_unfold Let_def)

lemma handler_ran:
  assumes "execute clk name fn (b, s) = (err, b', s')" "\<not> rejection err"
  shows "with_fallback execute clk name fn fb (b, s) =
    (case outcome_error (fst (fn s)) of
       None \<Rightarrow> (None, b', snd (fn s))
     | Some e \<Rightarrow> (fst (fb e (snd (fn s))), b', snd (fb e (snd (fn s)))))"
  using ran_once [OF assms] assms by (auto simp: with_fallback_def case_prod_unfold Let_def split: option.splits)

end

text \<open>What the client and the services behind see of one request.\<close>

lemma memory_handler_rejected:
  assumes "Execute clk (serviceNameFromRequest r) (breaker_fn late next r) (cb, ([], w)) = (Some err, cb', ws)"
    and "rejection (Some err)"
  shows "breaker_handler Execute clk late next r (cb, w) =
    ([WriteHeader (if err = ErrTooManyConcurrentRequests then 429 else 503), Write unavailable_body], (cb', w))"
  using mcb.handler_rejected [OF assms, of breaker_fallback]
  by (simp add: breaker_handler_def breaker_fallback_def)

lemma memory_handler_ran:
  assumes "Execute clk (serviceNameFromRequest r) (breaker_fn late next r) (cb, ([], w)) = (err, cb', ws)"
    and "\<not> rejection err"
  shows "breaker_handler Execute clk late next r (cb, w) =
    (let (calls, w') = next r w in
     case late of
       Some (k, e) \<Rightarrow> (take k calls @ [WriteHeader 503, Write unavailable_body], (cb', w'))
     | None \<Rightarrow> (if rw_status 0 calls \<ge> 500
                then calls @ [WriteHeader 503, Write unavailable_body] else calls, (cb', w')))"
  using mcb.handler_ran [OF assms, of breaker_fallback]
  by (auto simp: breaker_handler_def breaker_fn_def breaker_fallback_def Let_def case_prod_unfold
      split: option.splits)

lemma GetState_open_circuit:
  assumes "GetState name cb = StateOpen"
  obtains c where "mget (cb_circuits cb) name = Some c" "ci_state c = StateOpen"
  using assms by (auto simp: GetState_def split: option.splits)

section \<open>Properties\<close>

text \<open>While the circuit of a service is open and its timeout is not over, a request to that
  service is answered with status 503 and the fixed error body, and nothing behind the breaker is
  reached or changed.\<close>

lemma open_circuit_shields_service:
  assumes "mget (cb_circuits cb) (serviceNameFromRequest r) = Some c" "ci_state c = StateOpen"
    and "\<not> expired clk c"
  shows "\<exists>calls cb'. breaker_handler Execute clk late next r (cb, w) = (calls, (cb', w))
           \<and> reply_of calls = (503, unavailable_body)
           \<and> GetState (serviceNameFromRequest r) cb' = StateOpen"
proof -
  let ?name = "serviceNameFromRequest r" and ?fn = "breaker_fn late next r"
  have "\<not> admitted clk c" using assms by (simp add: admitted_def)
  from execute_rejected [OF this, of ?fn "([], w)"] assms
  have "execute_circuit clk ?fn (c, ([], w)) = (Some ErrCircuitOpen, c\<lparr>ci_rejected := ci_rejected c + 1\<rparr>, ([], w))"
    by auto
  then have ex: "Execute clk ?name ?fn (cb, ([], w)) = (Some ErrCircuitOpen,
      cb\<lparr>cb_circuits := mput ?name (c\<lparr>ci_rejected := ci_rejected c + 1\<rparr>) (cb_circuits cb)\<rparr>, ([], w))"
    using assms(1) by (simp add: Execute_def getCircuit_def)
  show ?thesis
    using memory_handler_rejected [OF ex] assms(2)
    by (simp add: rejection_def reply_of_def GetState_def mget_mput)
qed

text \<open>A request that the breaker lets through runs the wrapped handler once. If the handler
  finishes in time with a status below 500, the client receives exactly its response; if it
  finishes with a status of 500 or more, the client receives the status of the handler's first
  header but the body of the handler followed by the breaker's own error body.\<close>

lemma admitted_response:
  assumes "Execute clk (serviceNameFromRequest r) (breaker_fn None next r) (cb, ([], w)) = (err, cb', ws)"
    and "\<not> rejection err" "next r w = (calls, w')" "calls \<noteq> []"
  shows "\<exists>out. breaker_handler Execute clk None next r (cb, w) = (out, (cb', w'))
    \<and> (if rw_status 0 calls < 500 then out = calls
       else reply_of out = (fst (reply_of calls), snd (reply_of calls) @ unavailable_body))"
  using memory_handler_ran [OF assms(1,2)] assms(3,4) by (auto simp: reply_of_def)

text \<open>The name of the circuit for a request with no name in its context is the first non-empty
  segment of the path, or the fixed default name when the path has none.\<close>

lemma service_name_from_path:
  assumes "cx_breaker_service (rq_ctx r) = None"
  shows "serviceNameFromRequest r =
    (case filter (\<lambda>w. w \<noteq> []) (Split (CHR ''/'') (rq_Path r)) of
       [] \<Rightarrow> ''default''
     | seg # _ \<Rightarrow> if length (rq_Path r) \<le> 1 then ''default'' else seg)"
  using assms by (auto simp: serviceNameFromRequest_def splitPath_eq Let_def split: list.splits)

section \<open>Witnesses\<close>

definition sample_request :: "string \<Rightarrow> string \<Rightarrow> request" where
  "sample_request mthd path =
     \<lparr>rq_Method = mthd, rq_Path = path, rq_Header = [], rq_Query = [], rq_RemoteAddr = ''10.0.0.1:80'',
      rq_ctx = background\<rparr>"

definition sample_open_breaker :: breaker where
  "sample_open_breaker =
     \<lparr>cb_circuits = [(''users'', sample_circuit\<lparr>ci_state := StateOpen\<rparr>)], cb_config = sample_breaker_config\<rparr>"

definition sample_next :: "nat \<Rightarrow> nat handler" where
  "sample_next code r n = ([WriteHeader code, Write ''body''], n + 1)"

lemma open_circuit_shields_service_witness:
  "\<exists>calls cb'. breaker_handler Execute clock0 None (sample_next 200) (sample_request ''GET'' ''/users/1'')
       (sample_open_breaker, 7) = (calls, (cb', 7))
     \<and> reply_of calls = (503, unavailable_body)"
proof -
  have m: "mget (cb_circuits sample_open_breaker) (serviceNameFromRequest (sample_request ''GET'' ''/users/1''))
          = Some (sample_circuit\<lparr>ci_state := StateOpen\<rparr>)"
    by code_simp
  have "\<not> expired clock0 (sample_circuit\<lparr>ci_state := StateOpen\<rparr>)" by code_simp
  from open_circuit_shields_service [OF m _ this] show ?thesis by fastforce
qed

lemma admitted_response_witness:
  "\<exists>out cb'. breaker_handler Execute clock0 None (sample_next 500) (sample_request ''GET'' ''/users/1'')
       (NewMemoryCircuitBreaker sample_breaker_config, 7) = (out, (cb', 8))
     \<and> reply_of out = (500, ''body'' @ unavailable_body)"
proof -
  let ?r = "sample_request ''GET'' ''/users/1''"
  have name: "serviceNameFromRequest ?r = ''users''" by code_simp
  have ex: "Execute clock0 (serviceNameFromRequest ?r) (breaker_fn None (sample_next 500) ?r)
      (NewMemoryCircuitBreaker sample_breaker_config, ([], 7))
      = (Some (FnError 500),
         fst (snd (Execute clock0 ''users'' (breaker_fn None (sample_next 500) ?r)
            (NewMemoryCircuitBreaker sample_breaker_config, ([], 7)))),
         snd (snd (Execute clock0 ''users'' (breaker_fn None (sample_next 500) ?r)
            (NewMemoryCircuitBreaker sample_breaker_config, ([], 7)))))"
    unfolding name by code_simp
  have nx: "sample_next 500 ?r 7 = ([WriteHeader 500, Write ''body''], 8)"
    by (simp add: sample_next_def)
  from admitted_response [OF ex _ nx] show ?thesis
    by (auto simp: rejection_def reply_of_def)
qed

theorem service_name_from_path_witness:
  "serviceNameFromRequest (sample_request ''GET'' ''//orders/7'') = ''orders''"
proof -
  have n: "cx_breaker_service (rq_ctx (sample_request ''GET'' ''//orders/7'')) = None" by code_simp
  show ?thesis using service_name_from_path [OF n] by (simp add: sample_request_def)
qed

end
