(* ===== verification/Auth.thy ===== *)
theory Auth
  imports Http
begin

text \<open>
  Roles (\<open>prism/internal/domain/roles.go\<close>), token validation (\<open>domain/jwt.go\<close>) and the
  authentication middleware (\<open>features/auth/middleware.go\<close>).

  The JWT library is a parameter: \<open>parse\<close> is its \<open>ParseWithClaims\<close>, which calls back the key
  function of the source. \<open>jwt_sound\<close> states what its documentation promises: a token is returned
  only if the key function gave a key for it and the signature verifies under that key. Identifiers
  of tenants are their canonical text, and \<open>uuid_parse\<close> is the parser of the uuid library.
\<close>

section \<open>Roles\<close>

definition RoleAdmin :: user_role where
  "RoleAdmin = ''admin''"

definition RoleEditor :: user_role where
  "RoleEditor = ''editor''"

definition RoleViewer :: user_role where
  "RoleViewer = ''viewer''"

lemmas role_defs = RoleAdmin_def RoleEditor_def RoleViewer_def

text \<open>Reading a key that is not in the map gives 0.\<close>

definition roleHierarchy :: "user_role \<Rightarrow> int" where
  "roleHierarchy r =
     (case mget [(RoleViewer, 1), (RoleEditor, 2), (RoleAdmin, 3)] r of Some n \<Rightarrow> n | None \<Rightarrow> 0)"

definition HasPermission :: "user_role \<Rightarrow> user_role \<Rightarrow> bool" where
  "HasPermission r requiredRole \<longleftrightarrow> roleHierarchy r \<ge> roleHierarchy requiredRole"

datatype role_error = InvalidRole string | NilMapWrite

definition RoleFromString :: "string \<Rightarrow> role_error + user_role" where
  "RoleFromString role =
     (let l = ToLower role in
      if l = RoleAdmin then Inr RoleAdmin
      else if l = RoleEditor then Inr RoleEditor
      else if l = RoleViewer then Inr RoleViewer
      else Inl (InvalidRole role))"

definition IsValidRole :: "string \<Rightarrow> role_error option" where
  "IsValidRole role = (case RoleFromString role of Inl err \<Rightarrow> Some err | Inr _ \<Rightarrow> None)"

definition role_get :: "role_map \<Rightarrow> uuid \<Rightarrow> user_role option" where
  "role_get rm t = (case rm of None \<Rightarrow> None | Some m \<Rightarrow> mget m t)"

definition HasRole :: "role_map \<Rightarrow> uuid \<Rightarrow> user_role \<Rightarrow> bool" where
  "HasRole rm tenantID requiredRole =
     (case role_get rm tenantID of None \<Rightarrow> False | Some userRole \<Rightarrow> HasPermission userRole requiredRole)"

text \<open>Assigning to a nil map panics.\<close>

definition SetRole :: "role_map \<Rightarrow> uuid \<Rightarrow> string \<Rightarrow> role_error + role_map" where
  "SetRole rm tenantID role =
     (case RoleFromString role of
        Inl err \<Rightarrow> Inl err
      | Inr parsedRole \<Rightarrow>
          (case rm of None \<Rightarrow> Inl NilMapWrite | Some m \<Rightarrow> Inr (Some (mput tenantID parsedRole m))))"

definition RemoveRole :: "role_map \<Rightarrow> uuid \<Rightarrow> role_map" where
  "RemoveRole rm tenantID = map_option (mdel tenantID) rm"

fun HasAllRoles :: "role_map \<Rightarrow> uuid \<Rightarrow> string list \<Rightarrow> bool" where
  "HasAllRoles rm tenantID [] = True"
| "HasAllRoles rm tenantID (role # roles) =
     (if \<not> HasRole rm tenantID role then False else HasAllRoles rm tenantID roles)"

definition FormatTenantID :: "uuid \<Rightarrow> string" where
  "FormatTenantID tenantID = ''ten_'' @ tenantID"

text \<open>\<open>order\<close> is the order of the loop over the map.\<close>

definition GetTenantIDsAsUUIDs :: "uuid list \<Rightarrow> role_map \<Rightarrow> uuid list option" where
  "GetTenantIDsAsUUIDs order rm = (case rm of None \<Rightarrow> None | Some m \<Rightarrow> Some order)"

definition GetTenantIDsAsStrings :: "uuid list \<Rightarrow> role_map \<Rightarrow> string list option" where
  "GetTenantIDsAsStrings order rm =
     (case rm of None \<Rightarrow> None | Some m \<Rightarrow> Some (map FormatTenantID order))"

section \<open>Tokens\<close>

record custom_claims =
  cl_ID :: string
  cl_Subject :: string
  cl_ExpiresAt :: "time option"
  cl_TokenType :: string
  cl_Roles :: role_map
  cl_SessionID :: string
  cl_AuthProvider :: string

record jwt_token =
  tk_Alg :: string
  tk_kid :: "string option"
  tk_Claims :: custom_claims
  tk_Valid :: bool

definition GetUserContextData :: "custom_claims \<Rightarrow> user_context_data" where
  "GetUserContextData c =
     \<lparr>ucd_UserID = cl_Subject c, ucd_Roles = cl_Roles c, ucd_AuthProvider = cl_AuthProvider c,
      ucd_SessionID = cl_SessionID c\<rparr>"

datatype token_error = UnexpectedSigningMethod | UnknownKeyID | ParseError string
  | ErrTokenExpired | InvalidToken | NilExpiry

text \<open>The key function handed to the library. A missing key id is read as the empty string.\<close>

definition keyfunc :: "(string \<Rightarrow> 'key option) \<Rightarrow> jwt_token \<Rightarrow> token_error + 'key" where
  "keyfunc FindPublicKey token =
     (if tk_Alg token \<noteq> ''EdDSA'' then Inl UnexpectedSigningMethod
      else (let kid = (case tk_kid token of Some k \<Rightarrow> k | None \<Rightarrow> [])
            in case FindPublicKey kid of None \<Rightarrow> Inl UnknownKeyID | Some key \<Rightarrow> Inr key))"

type_synonym 'key jwt_parser = "(jwt_token \<Rightarrow> token_error + 'key) \<Rightarrow> string \<Rightarrow> token_error + jwt_token"

text \<open>Claims with no expiry make the comparison dereference a nil pointer.\<close>

definition ValidateToken ::
  "'key jwt_parser \<Rightarrow> (string \<Rightarrow> 'key option) \<Rightarrow> time \<Rightarrow> string \<Rightarrow> token_error + custom_claims" where
  "ValidateToken parse FindPublicKey now tokenString =
     (case parse (keyfunc FindPublicKey) tokenString of
        Inl err \<Rightarrow> Inl err
      | Inr token \<Rightarrow>
          if tk_Valid token then
            (case cl_ExpiresAt (tk_Claims token) of
               None \<Rightarrow> Inl NilExpiry
             | Some e \<Rightarrow> if e < now then Inl ErrTokenExpired else Inr (tk_Claims token))
          else Inl InvalidToken)"

definition EqualFold :: "string \<Rightarrow> string \<Rightarrow> bool" where
  "EqualFold s t \<longleftrightarrow> ToLower s = ToLower t"

definition ExtractTokenFromHeader :: "request \<Rightarrow> string" where
  "ExtractTokenFromHeader r =
     (let authHeader = header_get r ''Authorization'' in
      if authHeader = [] then []
      else (let parts = SplitN2 (CHR '' '') authHeader in
            if length parts = 2 \<and> EqualFold (parts ! 0) ''Bearer'' then parts ! 1 else []))"

section \<open>The middleware\<close>

text \<open>The answer of a revocation check: whether the token is revoked, or an error.\<close>

type_synonym revocation_checker = "string \<Rightarrow> string + bool"

record 'key auth_middleware =
  am_parse :: "'key jwt_parser"
  am_keys :: "string \<Rightarrow> 'key option"
  am_revocation :: "revocation_checker option"

text \<open>A panic drops the connection: the handler makes no call on the writer.\<close>

definition Authenticate :: "'key auth_middleware \<Rightarrow> time \<Rightarrow> 'w handler \<Rightarrow> 'w handler" where
  "Authenticate amw now next r w =
     (let tokenString = ExtractTokenFromHeader r in
      if tokenString = [] then (http_error ''Unauthorized: no token'' 401, w)
      else (case ValidateToken (am_parse amw) (am_keys amw) now tokenString of
              Inl NilExpiry \<Rightarrow> ([], w)
            | Inl _ \<Rightarrow> (http_error ''Unauthorized: invalid token'' 401, w)
            | Inr claims \<Rightarrow>
                if (case am_revocation amw of
                      None \<Rightarrow> False
                    | Some checker \<Rightarrow> cl_ID claims \<noteq> [] \<and> checker (cl_ID claims) = Inr True)
                then (http_error ''Unauthorized: token revoked'' 401, w)
                else next (ContextWithUserContextData (GetUserContextData claims) r) w))"

definition ExtractTenantIDFromRequest :: "request \<Rightarrow> string option" where
  "ExtractTenantIDFromRequest r =
     (if query_get r ''tenant_id'' \<noteq> [] then Some (query_get r ''tenant_id'')
      else if header_get r ''X-Tenant-Id'' \<noteq> [] then Some (header_get r ''X-Tenant-Id'')
      else None)"

text \<open>The loop over the required roles; \<open>None\<close> when it runs to its end.\<close>

fun check_roles :: "role_map \<Rightarrow> uuid \<Rightarrow> string list \<Rightarrow> write_call list option" where
  "check_roles roleMap tenantID [] = None"
| "check_roles roleMap tenantID (roleStr # roles) =
     (case RoleFromString roleStr of
        Inl _ \<Rightarrow> Some (http_error ''Server misconfigured: invalid required role'' 500)
      | Inr requiredRole \<Rightarrow>
          if \<not> HasRole roleMap tenantID requiredRole
          then Some (http_error ''Unauthorized: insufficient roles in tenant'' 403)
          else check_roles roleMap tenantID roles)"

definition Authorize :: "(string \<Rightarrow> uuid option) \<Rightarrow> string list \<Rightarrow> 'w handler \<Rightarrow> 'w handler" where
  "Authorize uuid_parse requiredRoles next r w =
     (case RolesFromContext r of
        None \<Rightarrow> (http_error ''Unauthorized: missing user roles'' 401, w)
      | Some m \<Rightarrow>
          (case ExtractTenantIDFromRequest r of
             None \<Rightarrow> (http_error ''Unauthorized: missing tenant id'' 401, w)
           | Some tenantIDStr \<Rightarrow>
               (case uuid_parse tenantIDStr of
                  None \<Rightarrow> (http_error ''Unauthorized: invalid tenant id'' 401, w)
                | Some tenantID \<Rightarrow>
                    (case check_roles (Some m) tenantID requiredRoles of
                       Some calls \<Rightarrow> (calls, w)
                     | None \<Rightarrow> next r w))))"

section \<open>Lemmas\<close>

lemma hierarchy_simps [simp]:
  "roleHierarchy ''viewer'' = 1" "roleHierarchy ''editor'' = 2" "roleHierarchy ''admin'' = 3"
  by (simp_all add: roleHierarchy_def role_defs)

lemma hierarchy_unknown:
  "r \<notin> {''viewer'', ''editor'', ''admin''} \<Longrightarrow> roleHierarchy r = 0"
  by (auto simp: roleHierarchy_def role_defs)

lemma hierarchy_nonneg: "0 \<le> roleHierarchy r"
  by (auto simp: roleHierarchy_def split: option.splits if_splits)

lemma RoleFromString_Inr:
  "RoleFromString s = Inr r \<longleftrightarrow> r = ToLower s \<and> r \<in> {''viewer'', ''editor'', ''admin''}"
  by (auto simp: RoleFromString_def role_defs Let_def)

text \<open>The order of roles, as the middleware and the role map use it.\<close>

locale role_order =
  fixes rank :: "user_role \<Rightarrow> int"
    and grants :: "user_role \<Rightarrow> user_role \<Rightarrow> bool"
  assumes grants_rank: "grants r s \<longleftrightarrow> rank r \<ge> rank s"
begin

lemma grants_refl: "grants r r"
  by (simp add: grants_rank)

lemma grants_trans: "grants r s \<Longrightarrow> grants s t \<Longrightarrow> grants r t"
  by (simp add: grants_rank)

lemma grants_total: "grants r s \<or> grants s r"
  by (auto simp: grants_rank)

lemma grants_all_max:
  "finite S \<Longrightarrow> S \<noteq> {} \<Longrightarrow> (\<forall>s \<in> S. grants r s) \<longleftrightarrow> rank r \<ge> Max (rank ` S)"
  by (simp add: grants_rank)

end

interpretation roles: role_order roleHierarchy HasPermission
  by unfold_locales (simp add: HasPermission_def)

lemma HasAllRoles_iff: "HasAllRoles rm t rs \<longleftrightarrow> (\<forall>r \<in> set rs. HasRole rm t r)"
  by (induction rs) auto

lemma check_roles_None:
  "check_roles rm t rs = None \<longleftrightarrow>
     (\<forall>r \<in> set rs. ToLower r \<in> {''viewer'', ''editor'', ''admin''} \<and> HasRole rm t (ToLower r))"
proof (induction rs)
  case Nil
  then show ?case by simp
next
  case (Cons r rs)
  show ?case
  proof (cases "RoleFromString r")
    case (Inl e)
    then have "ToLower r \<notin> {''viewer'', ''editor'', ''admin''}"
      using RoleFromString_Inr [of r "ToLower r"] by auto
    with Inl show ?thesis by auto
  next
    case (Inr q)
    then have q: "q = ToLower r" "ToLower r \<in> {''viewer'', ''editor'', ''admin''}"
      using RoleFromString_Inr [of r q] by auto
    show ?thesis using Inr q Cons by (cases "HasRole rm t q") auto
  qed
qed

text \<open>What the documentation of the JWT library promises of a returned token.\<close>

definition jwt_sound :: "'key jwt_parser \<Rightarrow> ('key \<Rightarrow> string \<Rightarrow> bool) \<Rightarrow> bool" where
  "jwt_sound parse signed \<longleftrightarrow>
     (\<forall>kf s tok. parse kf s = Inr tok \<longrightarrow> (\<exists>key. kf tok = Inr key \<and> signed key s))"

lemma keyfunc_Inr:
  "keyfunc fk tok = Inr key \<Longrightarrow>
   tk_Alg tok = ''EdDSA'' \<and> fk (case tk_kid tok of Some k \<Rightarrow> k | None \<Rightarrow> []) = Some key"
  by (auto simp: keyfunc_def Let_def split: if_splits option.splits)

lemma ValidateToken_Inr:
  assumes "ValidateToken parse fk now s = Inr claims" "jwt_sound parse signed"
  obtains tok key kid e where "parse (keyfunc fk) s = Inr tok" "tk_Claims tok = claims"
    "tk_Alg tok = ''EdDSA''" "fk kid = Some key" "signed key s" "cl_ExpiresAt claims = Some e" "now \<le> e"
proof -
  from assms(1) obtain tok e where t: "parse (keyfunc fk) s = Inr tok" "tk_Claims tok = claims"
    "cl_ExpiresAt claims = Some e" "\<not> e < now"
    by (auto simp: ValidateToken_def split: sum.splits if_splits option.splits)
  from assms(2) t(1) obtain key where "keyfunc fk tok = Inr key" "signed key s"
    unfolding jwt_sound_def by blast
  with keyfunc_Inr [of fk tok key] t that show ?thesis by force
qed

section \<open>Properties\<close>

lemma Authenticate_outcome:
  assumes "jwt_sound (am_parse amw) signed"
  shows "(\<exists>claims key kid e.
            signed key (ExtractTokenFromHeader r) \<and> am_keys amw kid = Some key
            \<and> cl_ExpiresAt claims = Some e \<and> now \<le> e
            \<and> (\<forall>checker. am_revocation amw = Some checker \<and> cl_ID claims \<noteq> [] \<longrightarrow>
                  checker (cl_ID claims) \<noteq> Inr True)
            \<and> Authenticate amw now next r w
                = next (ContextWithUserContextData (GetUserContextData claims) r) w)
       \<or> (snd (Authenticate amw now next r w) = w
          \<and> (fst (Authenticate amw now next r w) = []
             \<or> fst (reply_of (fst (Authenticate amw now next r w))) = 401))"
proof (cases "ExtractTokenFromHeader r = []")
  case True
  then show ?thesis by (simp add: Authenticate_def)
next
  case ne: False
  show ?thesis
  proof (cases "ValidateToken (am_parse amw) (am_keys amw) now (ExtractTokenFromHeader r)")
    case (Inl err)
    with ne show ?thesis by (cases err) (simp_all add: Authenticate_def)
  next
    case (Inr claims)
    from ValidateToken_Inr [OF Inr assms] obtain key kid e where v:
      "am_keys amw kid = Some key" "signed key (ExtractTokenFromHeader r)"
      "cl_ExpiresAt claims = Some e" "now \<le> e" by metis
    define revoked where "revoked = (case am_revocation amw of None \<Rightarrow> False
      | Some checker \<Rightarrow> cl_ID claims \<noteq> [] \<and> checker (cl_ID claims) = Inr True)"
    have a: "Authenticate amw now next r w =
        (if revoked then (http_error ''Unauthorized: token revoked'' 401, w)
         else next (ContextWithUserContextData (GetUserContextData claims) r) w)"
      using ne Inr by (simp add: Authenticate_def revoked_def)
    show ?thesis
    proof (cases revoked)
      case True
      then show ?thesis by (simp add: a)
    next
      case False
      then have "\<forall>checker. am_revocation amw = Some checker \<and> cl_ID claims \<noteq> [] \<longrightarrow>
                  checker (cl_ID claims) \<noteq> Inr True"
        by (auto simp: revoked_def)
      with v a False show ?thesis by metis
    qed
  qed
qed

text \<open>The wrapped handler runs only for a request whose bearer token is signed under EdDSA with
  a key of the key provider, has not expired and is not reported revoked; it then runs exactly
  once, on the request extended with the user data of that token's claims. In every other case
  nothing behind the middleware is reached, and the reply is 401 or none at all.\<close>

lemma Authenticate_sound:
  assumes "jwt_sound (am_parse amw) signed"
  shows "(\<exists>claims key kid e.
            signed key (ExtractTokenFromHeader r) \<and> am_keys amw kid = Some key
            \<and> cl_ExpiresAt claims = Some e \<and> now \<le> e
            \<and> (\<forall>checker. am_revocation amw = Some checker \<and> cl_ID claims \<noteq> [] \<longrightarrow>
                  checker (cl_ID claims) \<noteq> Inr True)
            \<and> Authenticate amw now next r w
                = next (ContextWithUserContextData (GetUserContextData claims) r) w)
       \<or> (snd (Authenticate amw now next r w) = w
          \<and> (fst (Authenticate amw now next r w) = []
             \<or> fst (reply_of (fst (Authenticate amw now next r w))) = 401))"
  using assms by (rule Authenticate_outcome)

text \<open>C8: With required roles that are valid, the wrapped handler runs exactly when the request
  carries user data with a role map, names a tenant whose id parses, and the user's role in that
  tenant ranks at least as high as every required role; otherwise nothing behind is reached.\<close>

theorem Authorize_exact:
  assumes "\<forall>q \<in> set required. ToLower q \<in> {''viewer'', ''editor'', ''admin''}"
  shows "if \<exists>m t tenant. RolesFromContext r = Some m \<and> ExtractTenantIDFromRequest r = Some t
              \<and> uuid_parse t = Some tenant
              \<and> (\<forall>q \<in> set required. \<exists>role. mget m tenant = Some role
                    \<and> roleHierarchy role \<ge> roleHierarchy (ToLower q))
         then Authorize uuid_parse required next r w = next r w
         else snd (Authorize uuid_parse required next r w) = w
              \<and> fst (reply_of (fst (Authorize uuid_parse required next r w))) \<in> {401, 403}"
proof -
  have denied: "check_roles (Some m) t rs = Some calls \<Longrightarrow>
      \<forall>q \<in> set rs. ToLower q \<in> {''viewer'', ''editor'', ''admin''} \<Longrightarrow> fst (reply_of calls) = 403"
    for m t rs calls
  proof (induction rs)
    case (Cons q rs)
    then have "RoleFromString q = Inr (ToLower q)" by (simp add: RoleFromString_Inr)
    with Cons show ?case by (cases "HasRole (Some m) t (ToLower q)") auto
  qed simp
  have has: "HasRole (Some m) t q \<longleftrightarrow> (\<exists>role. mget m t = Some role \<and> roleHierarchy role \<ge> roleHierarchy q)"
    for m t q
    by (auto simp: HasRole_def role_get_def HasPermission_def split: option.splits)
  have chk: "(\<forall>q \<in> set required. \<exists>role. mget m t = Some role \<and> roleHierarchy role \<ge> roleHierarchy (ToLower q))
      \<longleftrightarrow> check_roles (Some m) t required = None" for m t
    using assms by (simp add: check_roles_None has)
  show ?thesis
    using denied [OF _ assms] unfolding chk by (auto simp: Authorize_def split: option.splits)
qed

text \<open>A role requirement outside the three known roles is met by every role whatsoever: its rank
  reads as zero. So any member of a tenant passes a check for an unknown role.\<close>

lemma unknown_requirement_always_met:
  assumes "req \<notin> {''viewer'', ''editor'', ''admin''}" "role_get rm tenant = Some role"
  shows "HasPermission role req \<and> HasRole rm tenant req \<and> HasAllRoles rm tenant [req]"
  using assms hierarchy_nonneg [of role] by (simp add: HasPermission_def HasRole_def hierarchy_unknown)

text \<open>Assigning a role succeeds exactly for a role name that is valid up to case (and a map that
  is not nil); afterwards the tenant has just the permissions of that role and every other tenant
  those it had, and removing the role again leaves no permission in the tenant.\<close>

lemma SetRole_HasRole:
  assumes "SetRole rm tenant role = Inr rm'"
  shows "ToLower role \<in> {''viewer'', ''editor'', ''admin''}
    \<and> (\<forall>t req. HasRole rm' t req \<longleftrightarrow>
          (if t = tenant then roleHierarchy (ToLower role) \<ge> roleHierarchy req else HasRole rm t req))
    \<and> (\<forall>req. \<not> HasRole (RemoveRole rm' tenant) tenant req)"
proof -
  from assms obtain m parsed where rm: "rm = Some m" and p: "RoleFromString role = Inr parsed"
    and rm': "rm' = Some (mput tenant parsed m)"
    by (auto simp: SetRole_def split: sum.splits option.splits)
  from p have "parsed = ToLower role" "ToLower role \<in> {''viewer'', ''editor'', ''admin''}"
    using RoleFromString_Inr by auto
  then show ?thesis
    by (auto simp: rm rm' HasRole_def role_get_def mget_mput mget_mdel HasPermission_def RemoveRole_def)
qed

section \<open>Witnesses\<close>

definition sample_claims :: custom_claims where
  "sample_claims = \<lparr>cl_ID = ''jti'', cl_Subject = ''user_1'', cl_ExpiresAt = Some 100,
     cl_TokenType = ''access_token'', cl_Roles = Some [(''t1'', ''editor'')], cl_SessionID = ''s'',
     cl_AuthProvider = ''password''\<rparr>"

definition sample_token :: jwt_token where
  "sample_token = \<lparr>tk_Alg = ''EdDSA'', tk_kid = Some ''k1'', tk_Claims = sample_claims, tk_Valid = True\<rparr>"

definition sample_parse :: "nat jwt_parser" where
  "sample_parse kf s =
     (if s = ''good'' then
        (case kf sample_token of
           Inl e \<Rightarrow> Inl e | Inr key \<Rightarrow> if key = 7 then Inr sample_token else Inl (ParseError ''signature''))
      else Inl (ParseError ''malformed''))"

definition sample_signed :: "nat \<Rightarrow> string \<Rightarrow> bool" where
  "sample_signed key s \<longleftrightarrow> key = 7 \<and> s = ''good''"

lemma sample_jwt_sound: "jwt_sound sample_parse sample_signed"
  by (auto simp: jwt_sound_def sample_parse_def sample_signed_def split: if_splits sum.splits)

definition sample_auth :: "nat auth_middleware" where
  "sample_auth = \<lparr>am_parse = sample_parse, am_keys = (\<lambda>kid. if kid = ''k1'' then Some 7 else None),
     am_revocation = Some (\<lambda>_. Inr False)\<rparr>"

definition bearer_request :: "string \<Rightarrow> request" where
  "bearer_request token = \<lparr>rq_Method = ''GET'', rq_Path = ''/users/1'',
     rq_Header = [(''Authorization'', ''bearer '' @ token)], rq_Query = [(''tenant_id'', ''t1'')],
     rq_RemoteAddr = ''10.0.0.1:80'', rq_ctx = background\<rparr>"

definition echo_user :: "nat handler" where
  "echo_user r n =
     (case UserContextDataFromContext r of
        None \<Rightarrow> ([Write ''nobody''], n) | Some u \<Rightarrow> ([Write (ucd_UserID u)], n + 1))"

lemma Authenticate_sound_witness:
  "fst (Authenticate sample_auth 50 echo_user (bearer_request ''good'') 0) = [Write ''user_1'']
   \<and> (\<exists>key. sample_signed key (ExtractTokenFromHeader (bearer_request ''good'')))"
proof -
  have f: "fst (Authenticate sample_auth 50 echo_user (bearer_request ''good'') 0) = [Write ''user_1'']"
    by code_simp
  have s: "jwt_sound (am_parse sample_auth) sample_signed"
    using sample_jwt_sound by (simp add: sample_auth_def)
  have "first_code [Write ''user_1''] = 200" by simp
  with Authenticate_sound [OF s, of "bearer_request ''good''" 50 echo_user 0] f
  show ?thesis by (auto simp: reply_of_def)
qed

definition user_request :: request where
  "user_request = ContextWithUserContextData (GetUserContextData sample_claims) (bearer_request ''good'')"

lemma user_request_fields:
  "RolesFromContext user_request = Some [(''t1'', ''editor'')]"
  "ExtractTenantIDFromRequest user_request = Some ''t1''"
  by code_simp+

theorem Authorize_exact_witness:
  "Authorize Some [''Editor''] echo_user user_request 0 = echo_user user_request 0"
proof -
  have req: "\<forall>q \<in> set [''Editor'']. ToLower q \<in> {''viewer'', ''editor'', ''admin''}" by code_simp
  have low: "ToLower ''Editor'' = ''editor''" by code_simp
  from Authorize_exact [OF req, of user_request Some echo_user 0] show ?thesis
    by (simp add: user_request_fields low)
qed

lemma unknown_requirement_always_met_witness:
  "HasRole (Some [(''t1'', ''viewer'')]) ''t1'' ''owner''"
  using unknown_requirement_always_met [of "''owner''" "Some [(''t1'', ''viewer'')]" "''t1''" "''viewer''"]
  by (simp add: role_get_def)

theorem SetRole_HasRole_witness:
  "\<exists>rm'. SetRole (Some []) ''t1'' ''ADMIN'' = Inr rm' \<and> HasRole rm' ''t1'' ''editor''"
proof -
  have s: "SetRole (Some []) ''t1'' ''ADMIN'' = Inr (Some [(''t1'', ''admin'')])" by code_simp
  have low: "ToLower ''ADMIN'' = ''admin''" by code_simp
  from SetRole_HasRole [OF s] s low show ?thesis by auto
qed

end
