(* ===== verification/Proxy.thy ===== *)
theory Proxy
  imports Routing Registry BreakerMiddleware Auth
begin

text \<open>
  The service proxy of the gateway (\<open>prism/internal/features/gateway/proxy.go\<close> and
  \<open>proxy_options.go\<close>): how services become routes, the handler that forwards requests, and the
  handler that decides which requests need authentication.

  The legacy branch of the handler tests for an empty result of a split, which cannot occur.
  The network is a parameter: \<open>upstream\<close> takes the proxy of a service and the outgoing request and
  gives the calls with which the response is copied to the client, or \<open>None\<close> when the round trip
  fails. The routing table of a proxy is never nil (the constructor sets one and the option
  rejects nil), so the branch for a nil table is not part of the model.
\<close>

section \<open>Data\<close>

datatype proxy_error =
  ErrNilConfig | ErrNilLogger | ErrNilRegistry | ErrEmptyConfigDir | ErrNilCircuitBreaker
  | ErrNilRoutingTable | ErrNilServiceRegistry | ErrLoadFromConfig registry_error
  | ErrRegistry registry_error | ErrRoute string route_error | ErrServiceNotFound string

record service_proxy =
  sp_registry :: registry
  sp_routingTable :: routing_table
  sp_circuitBreaker :: bool

section \<open>Options and construction\<close>

text \<open>The proxy under construction; of the configuration only the list of services matters here.\<close>

record proxy_build =
  pb_config :: "service_config list option"
  pb_logger :: bool
  pb_registry :: "registry option"
  pb_circuitBreaker :: bool
  pb_configDir :: string
  pb_routingTable :: routing_table

type_synonym proxy_option = "proxy_build \<Rightarrow> proxy_error + proxy_build"

definition WithProxyConfig :: "service_config list option \<Rightarrow> proxy_option" where
  "WithProxyConfig cfg b = (if cfg = None then Inl ErrNilConfig else Inr (b\<lparr>pb_config := cfg\<rparr>))"

definition WithProxyLogger :: "bool \<Rightarrow> proxy_option" where
  "WithProxyLogger logger b = (if \<not> logger then Inl ErrNilLogger else Inr (b\<lparr>pb_logger := True\<rparr>))"

definition WithServiceRegistry :: "registry option \<Rightarrow> proxy_option" where
  "WithServiceRegistry reg b = (if reg = None then Inl ErrNilRegistry else Inr (b\<lparr>pb_registry := reg\<rparr>))"

definition WithConfigDir :: "string \<Rightarrow> proxy_option" where
  "WithConfigDir dir b = (if dir = [] then Inl ErrEmptyConfigDir else Inr (b\<lparr>pb_configDir := dir\<rparr>))"

definition WithCircuitBreaker :: "bool \<Rightarrow> proxy_option" where
  "WithCircuitBreaker cb b =
     (if \<not> cb then Inl ErrNilCircuitBreaker else Inr (b\<lparr>pb_circuitBreaker := True\<rparr>))"

definition WithRoutingTable :: "routing_table option \<Rightarrow> proxy_option" where
  "WithRoutingTable rt b =
     (case rt of None \<Rightarrow> Inl ErrNilRoutingTable | Some t \<Rightarrow> Inr (b\<lparr>pb_routingTable := t\<rparr>))"

fun apply_proxy_options :: "proxy_option list \<Rightarrow> proxy_build \<Rightarrow> proxy_error + proxy_build" where
  "apply_proxy_options [] b = Inr b"
| "apply_proxy_options (opt # opts) b =
     (case opt b of Inl err \<Rightarrow> Inl err | Inr b' \<Rightarrow> apply_proxy_options opts b')"

section \<open>Routes of a service\<close>

text \<open>The isolation of custom routes: a path outside the service's prefix is moved under it.\<close>

definition qualify_path :: "string \<Rightarrow> string \<Rightarrow> string" where
  "qualify_path name path =
     (if \<not> HasPrefix path (''/'' @ name @ ''/'') \<and> \<not> HasPrefix path (''/'' @ name)
      then ''/'' @ name @ path else path)"

definition custom_route :: "string \<Rightarrow> string \<Rightarrow> route_config \<Rightarrow> route_metadata" where
  "custom_route name serviceURL rc =
     \<lparr>rm_Path = qualify_path name (rc_Path rc), rm_Method = rc_Method rc, rm_ServiceID = name,
      rm_ServiceName = name, rm_ServiceURL = serviceURL, rm_Public = rc_Public rc,
      rm_RequiredScopes = rc_RequiredScopes rc, rm_Priority = rc_Priority rc + 10, rm_Tags = []\<rparr>"

definition default_route :: "service_config \<Rightarrow> route_metadata" where
  "default_route cfg =
     \<lparr>rm_Path = ''/'' @ sc_Name cfg @ ''/*'', rm_Method = ''*'', rm_ServiceID = sc_Name cfg,
      rm_ServiceName = sc_Name cfg, rm_ServiceURL = sc_URL cfg, rm_Public = \<not> sc_RequiresAuth cfg,
      rm_RequiredScopes = sc_AllowedRoles cfg, rm_Priority = 0, rm_Tags = []\<rparr>"

definition root_route :: "service_config \<Rightarrow> route_metadata" where
  "root_route cfg =
     \<lparr>rm_Path = ''/'' @ sc_Name cfg, rm_Method = ''*'', rm_ServiceID = sc_Name cfg,
      rm_ServiceName = sc_Name cfg, rm_ServiceURL = sc_URL cfg, rm_Public = \<not> sc_RequiresAuth cfg,
      rm_RequiredScopes = sc_AllowedRoles cfg, rm_Priority = 1, rm_Tags = []\<rparr>"

text \<open>A failure to add a route is logged and the loop goes on.\<close>

definition try_add :: "route_metadata \<Rightarrow> routing_table \<Rightarrow> routing_table" where
  "try_add route rt = (case AddRoute route rt of Inl _ \<Rightarrow> rt | Inr rt' \<Rightarrow> rt')"

definition registerServiceRoutes :: "service_config \<Rightarrow> routing_table \<Rightarrow> routing_table \<times> proxy_error option" where
  "registerServiceRoutes cfg rt0 =
     (let rt1 = fold (\<lambda>rc. try_add (custom_route (sc_Name cfg) (sc_URL cfg) rc)) (sc_Routes cfg) rt0
      in case AddRoute (default_route cfg) rt1 of
           Inl err \<Rightarrow> (rt1, Some (ErrRoute (sc_Name cfg) err))
         | Inr rt2 \<Rightarrow> (try_add (root_route cfg) rt2, None))"

text \<open>The loop of the constructor over the listed services; failures are logged.\<close>

definition register_all_routes :: "service_config list \<Rightarrow> routing_table \<Rightarrow> routing_table" where
  "register_all_routes svcs rt = fold (\<lambda>svc rt. fst (registerServiceRoutes svc rt)) svcs rt"

section \<open>Operations\<close>

definition RegisterService ::
  "(string \<Rightarrow> url option) \<Rightarrow> service_config \<Rightarrow> service_proxy \<Rightarrow> service_proxy \<times> proxy_error option" where
  "RegisterService up cfg sp =
     (case Register up cfg (sp_registry sp) of
        (reg, Some err) \<Rightarrow> (sp\<lparr>sp_registry := reg\<rparr>, Some (ErrRegistry err))
      | (reg, None) \<Rightarrow>
          let (rt, err) = registerServiceRoutes cfg (sp_routingTable sp)
          in (sp\<lparr>sp_registry := reg, sp_routingTable := rt\<rparr>, err))"

text \<open>\<open>order\<close> is the order of the loop over the methods of the routing table.\<close>

definition DeregisterService ::
  "string list \<Rightarrow> string \<Rightarrow> service_proxy \<Rightarrow> service_proxy \<times> proxy_error option" where
  "DeregisterService order name sp =
     (case Deregister name (sp_registry sp) of
        (reg, Some err) \<Rightarrow> (sp\<lparr>sp_registry := reg\<rparr>, Some (ErrRegistry err))
      | (reg, None) \<Rightarrow>
          (sp\<lparr>sp_registry := reg,
              sp_routingTable := RemoveServiceRoutes order name (sp_routingTable sp)\<rparr>, None))"

definition UpdateService ::
  "(string \<Rightarrow> url option) \<Rightarrow> string list \<Rightarrow> service_config \<Rightarrow> service_proxy
   \<Rightarrow> service_proxy \<times> proxy_error option" where
  "UpdateService up order cfg sp =
     (case Update up cfg (sp_registry sp) of
        (reg, Some err) \<Rightarrow> (sp\<lparr>sp_registry := reg\<rparr>, Some (ErrRegistry err))
      | (reg, None) \<Rightarrow>
          let (rt, err) = registerServiceRoutes cfg
                            (RemoveServiceRoutes order (sc_Name cfg) (sp_routingTable sp))
          in (sp\<lparr>sp_registry := reg, sp_routingTable := rt\<rparr>, err))"

definition RegisterServiceRoute ::
  "string \<Rightarrow> route_config \<Rightarrow> service_proxy \<Rightarrow> service_proxy \<times> proxy_error option" where
  "RegisterServiceRoute name rc sp =
     (case Get name (sp_registry sp) of
        None \<Rightarrow> (sp, Some (ErrServiceNotFound name))
      | Some entry \<Rightarrow>
          (case AddRoute (custom_route name (sc_URL (se_Config entry)) rc) (sp_routingTable sp) of
             Inl err \<Rightarrow> (sp, Some (ErrRoute name err))
           | Inr rt \<Rightarrow> (sp\<lparr>sp_routingTable := rt\<rparr>, None)))"

definition ListServices :: "string list \<Rightarrow> service_proxy \<Rightarrow> service_config list" where
  "ListServices order sp = List_services order (sp_registry sp)"

definition ListRoutes :: "string list \<Rightarrow> service_proxy \<Rightarrow> route_metadata list" where
  "ListRoutes order sp = GetRoutes order (sp_routingTable sp)"

definition ListPublicRoutes :: "string list \<Rightarrow> service_proxy \<Rightarrow> route_metadata list" where
  "ListPublicRoutes order sp = GetPublicRoutes order (sp_routingTable sp)"

definition ListProtectedRoutes :: "string list \<Rightarrow> service_proxy \<Rightarrow> route_metadata list" where
  "ListProtectedRoutes order sp = GetProtectedRoutes order (sp_routingTable sp)"

definition ListServiceRoutes :: "string list \<Rightarrow> string \<Rightarrow> service_proxy \<Rightarrow> proxy_error + route_metadata list" where
  "ListServiceRoutes order name sp =
     (case Get name (sp_registry sp) of
        None \<Rightarrow> Inl (ErrServiceNotFound name)
      | Some _ \<Rightarrow> Inr (GetServiceRoutes order name (sp_routingTable sp)))"

text \<open>
  The constructor. \<open>serviceRegistry\<close> is its first argument, which the source does not use;
  \<open>loaded\<close> is the answer of the repository, \<open>order\<close> the order in which the services are listed.
\<close>

definition NewServiceProxy ::
  "(string \<Rightarrow> url option) \<Rightarrow> registry_error + service_config list \<Rightarrow> string list \<Rightarrow> registry option
   \<Rightarrow> proxy_option list \<Rightarrow> proxy_error + service_proxy" where
  "NewServiceProxy up loaded order serviceRegistry opts =
     (case apply_proxy_options opts
             \<lparr>pb_config = None, pb_logger = False, pb_registry = None, pb_circuitBreaker = False,
              pb_configDir = ''./config/services'', pb_routingTable = NewRoutingTable\<rparr> of
        Inl err \<Rightarrow> Inl err
      | Inr b \<Rightarrow>
          (case pb_config b of
             None \<Rightarrow> Inl ErrNilConfig
           | Some cfg \<Rightarrow>
               if \<not> pb_logger b then Inl ErrNilLogger
               else
                 (case pb_registry b of
                    None \<Rightarrow> Inl ErrNilServiceRegistry
                  | Some reg0 \<Rightarrow>
                      let (reg1, e1) = LoadFromRepository up loaded reg0;
                          (reg2, e2) = (case e1 of
                                          None \<Rightarrow> (reg1, None)
                                        | Some _ \<Rightarrow> LoadFromConfig up cfg reg1)
                      in case e2 of
                           Some err \<Rightarrow> Inl (ErrLoadFromConfig err)
                         | None \<Rightarrow>
                             Inr \<lparr>sp_registry = reg2,
                                  sp_routingTable =
                                    register_all_routes (List_services order reg2) (pb_routingTable b),
                                  sp_circuitBreaker = pb_circuitBreaker b\<rparr>)))"

definition NewServiceProxyWithDefaults ::
  "(string \<Rightarrow> url option) \<Rightarrow> registry_error + service_config list \<Rightarrow> string list
   \<Rightarrow> service_config list option \<Rightarrow> string \<Rightarrow> registry option \<Rightarrow> bool \<Rightarrow> proxy_error + service_proxy" where
  "NewServiceProxyWithDefaults up loaded order cfg configDir serviceRegistry logger =
     (let dir = (if configDir = [] then ''./config/services'' else configDir) in
      if serviceRegistry = None then Inl ErrNilServiceRegistry
      else NewServiceProxy up loaded order serviceRegistry
             [WithProxyConfig cfg, WithProxyLogger logger, WithConfigDir dir])"

section \<open>Forwarding\<close>

fun isMethodAllowed :: "string \<Rightarrow> service_config \<Rightarrow> bool" where
  "isMethodAllowed mthd cfg =
     (if length (sc_AllowedMethods cfg) = 0 then True
      else list_ex (\<lambda>allowed. mthd = allowed) (sc_AllowedMethods cfg))"

text \<open>How the standard library's director joins the path of the target and of the request.\<close>

definition singleJoiningSlash :: "string \<Rightarrow> string \<Rightarrow> string" where
  "singleJoiningSlash a b =
     (if HasSuffix a ''/'' \<and> HasPrefix b ''/'' then a @ drop 1 b
      else if \<not> HasSuffix a ''/'' \<and> \<not> HasPrefix b ''/'' then a @ ''/'' @ b
      else a @ b)"

definition strip_service :: "string \<Rightarrow> string \<Rightarrow> string" where
  "strip_service name path =
     (let p = TrimPrefix path (''/'' @ name) in if p = [] then ''/'' else p)"

text \<open>
  The director of a request. Its test for path parameters looks them up under an untyped key that
  nothing stores, and both branches of the test do the same. \<open>torder\<close> is the order of the loop
  over the tenants of the user.
\<close>

definition director :: "uuid list \<Rightarrow> url \<Rightarrow> string \<Rightarrow> request \<Rightarrow> request" where
  "director torder target serviceName req0 =
     (let req1 = req0\<lparr>rq_Path := singleJoiningSlash (u_Path target) (rq_Path req0)\<rparr>;
          req2 = req1\<lparr>rq_Path := strip_service serviceName (rq_Path req1)\<rparr>;
          req3 = (case UserContextDataFromContext req2 of
                    None \<Rightarrow> req2
                  | Some userData \<Rightarrow>
                      let r1 = header_set ''X-User-Id'' (ucd_UserID userData) req2;
                          r2 = header_set ''X-User-Email'' (header_get r1 ''X-Email'') r1
                      in case GetTenantIDsAsStrings torder (ucd_Roles userData) of
                           None \<Rightarrow> r2
                         | Some roleStrings \<Rightarrow> header_set ''X-User-Roles'' (Join '','' roleStrings) r2);
          req4 = header_set ''X-Request-Id'' (header_get req3 ''X-Request-Id'') req3
      in header_set ''X-Forwarded-For'' (rq_RemoteAddr req4) req4)"

type_synonym 'w upstream = "reverse_proxy \<Rightarrow> request \<Rightarrow> 'w \<Rightarrow> write_call list option \<times> 'w"

definition serve_proxy :: "'w upstream \<Rightarrow> reverse_proxy \<Rightarrow> (request \<Rightarrow> request) \<Rightarrow> 'w handler" where
  "serve_proxy upstream proxy dir r w =
     (case upstream proxy (dir r) w of
        (Some calls, w') \<Rightarrow> (calls, w')
      | (None, w') \<Rightarrow> ([WriteHeader 502, Write ''Service unavailable''], w'))"

definition proxy_handler :: "'w upstream \<Rightarrow> uuid list \<Rightarrow> service_proxy \<Rightarrow> 'w handler" where
  "proxy_handler upstream torder sp r0 w =
     (let lookup = LookupRoute (sp_routingTable sp) (rq_Method r0) (rq_Path r0);
          r = (case lookup of
                 Some (route, params) \<Rightarrow>
                   if length params > 0
                   then r0\<lparr>rq_ctx := (rq_ctx r0)\<lparr>cx_path_params := Some params\<rparr>\<rparr> else r0
               | None \<Rightarrow> r0);
          serviceName = (case lookup of
                           Some (route, params) \<Rightarrow> rm_ServiceName route
                         | None \<Rightarrow> SplitN2 (CHR ''/'') (TrimPrefix (rq_Path r0) ''/'') ! 0)
      in case Get serviceName (sp_registry sp) of
           None \<Rightarrow> (http_error ''Service not found'' 404, w)
         | Some serviceEntry \<Rightarrow>
             if \<not> isMethodAllowed (rq_Method r) (se_Config serviceEntry)
             then (http_error ''Method not allowed'' 405, w)
             else
               let r' = r\<lparr>rq_ctx := (rq_ctx r)\<lparr>cx_service_name := Some serviceName\<rparr>\<rparr>;
                   proxy = se_Proxy serviceEntry
               in serve_proxy upstream proxy (director torder (px_Target proxy) serviceName) r' w)"

text \<open>The handler with the breaker around it when there is one; \<open>clk\<close> and \<open>late\<close> as in the middleware.\<close>

definition Handler ::
  "(nat \<Rightarrow> time) \<Rightarrow> (nat \<times> string) option \<Rightarrow> 'w upstream \<Rightarrow> uuid list \<Rightarrow> service_proxy
   \<Rightarrow> (breaker \<times> 'w) handler" where
  "Handler clk late upstream torder sp r bw =
     (if sp_circuitBreaker sp
      then breaker_handler Execute clk late (proxy_handler upstream torder sp) r bw
      else (let (calls, w') = proxy_handler upstream torder sp r (snd bw) in (calls, (fst bw, w'))))"

section \<open>Authentication per route\<close>

fun scope_ok :: "string list \<Rightarrow> user_role list \<Rightarrow> string \<Rightarrow> bool" where
  "scope_ok tenantIDs userRoles requiredScope =
     (if \<not> Contains requiredScope ''tenant:''
      then list_ex (\<lambda>role. role = requiredScope) userRoles
      else (let scopeWithoutPrefix = TrimPrefix requiredScope ''tenant:''
            in list_ex (\<lambda>tenantID. tenantID @ '':'' @ scopeWithoutPrefix = requiredScope) tenantIDs))"

definition role_values :: "role_map \<Rightarrow> user_role list" where
  "role_values rm = (case rm of None \<Rightarrow> [] | Some m \<Rightarrow> mvals m)"

definition tenant_strings :: "uuid list \<Rightarrow> role_map \<Rightarrow> string list" where
  "tenant_strings torder rm =
     (case GetTenantIDsAsStrings torder rm of None \<Rightarrow> [] | Some ts \<Rightarrow> ts)"

definition add_route_params :: "(string, string) gomap \<Rightarrow> request \<Rightarrow> request" where
  "add_route_params params r =
     (if length params > 0 then r\<lparr>rq_ctx := (rq_ctx r)\<lparr>cx_route_params := Some params\<rparr>\<rparr> else r)"

definition scope_check ::
  "uuid list \<Rightarrow> string list \<Rightarrow> (string, string) gomap \<Rightarrow> 'w handler \<Rightarrow> 'w handler" where
  "scope_check torder required params originalHandler r w =
     (case UserContextDataFromContext r of
        None \<Rightarrow> (http_error ''Unauthorized: Invalid or expired token'' 401, w)
      | Some userData \<Rightarrow>
          if \<not> list_ex (scope_ok (tenant_strings torder (ucd_Roles userData)) (role_values (ucd_Roles userData)))
                 required
          then (http_error ''Forbidden: Insufficient privileges'' 403, w)
          else originalHandler (add_route_params params r) w)"

definition AuthenticatedHandler ::
  "uuid list \<Rightarrow> service_proxy \<Rightarrow> ('w handler \<Rightarrow> 'w handler) \<Rightarrow> 'w handler \<Rightarrow> 'w handler" where
  "AuthenticatedHandler torder sp authMiddleware baseHandler r w =
     (case LookupRoute (sp_routingTable sp) (rq_Method r) (rq_Path r) of
        None \<Rightarrow> authMiddleware baseHandler r w
      | Some (route, params) \<Rightarrow>
          if rm_Public route then baseHandler (add_route_params params r) w
          else
            let authHandler = authMiddleware baseHandler;
                authHandler' = (if length (rm_RequiredScopes route) > 0
                                then scope_check torder (rm_RequiredScopes route) params authHandler
                                else authHandler)
            in authHandler' r w)"

section \<open>Health\<close>

text \<open>What became of a health request: it could not be built, it failed, or it got a status.\<close>

datatype probe = BadRequest | Failed | Status nat

definition health_results :: "(string \<Rightarrow> probe) \<Rightarrow> service_config list \<Rightarrow> (string, string) gomap" where
  "health_results get services =
     fold (\<lambda>svc results.
        mput (sc_Name svc)
          (if sc_HealthCheckPath svc = [] then ''unknown''
           else (case get (sc_URL svc @ sc_HealthCheckPath svc) of
                   BadRequest \<Rightarrow> ''error''
                 | Failed \<Rightarrow> ''unhealthy''
                 | Status code \<Rightarrow> if code \<noteq> 200 then ''unhealthy'' else ''ok'')) results) services []"

section \<open>Routes and registrations\<close>

definition service_routes :: "service_config \<Rightarrow> route_metadata set" where
  "service_routes cfg =
     {default_route cfg, root_route cfg} \<union> custom_route (sc_Name cfg) (sc_URL cfg) ` set (sc_Routes cfg)"

definition owned_by :: "string \<Rightarrow> route_metadata \<Rightarrow> bool" where
  "owned_by name r \<longleftrightarrow>
     rm_ServiceID r = name \<and> rm_ServiceName r = name \<and> HasPrefix (rm_Path r) (''/'' @ name)"

lemma qualify_path_prefix: "HasPrefix (qualify_path name path) (''/'' @ name)"
  by (auto simp: qualify_path_def HasPrefix_iff)

lemma custom_route_owned: "owned_by name (custom_route name u rc)"
  using qualify_path_prefix [of name "rc_Path rc"] by (simp add: owned_by_def custom_route_def)

lemma service_routes_owned: "r \<in> service_routes cfg \<Longrightarrow> owned_by (sc_Name cfg) r"
proof -
  have "HasPrefix (''/'' @ sc_Name cfg @ ''/*'') (''/'' @ sc_Name cfg)"
    "HasPrefix (''/'' @ sc_Name cfg) (''/'' @ sc_Name cfg)"
    using HasPrefix_append [of "''/'' @ sc_Name cfg" "''/*''"]
      HasPrefix_append [of "''/'' @ sc_Name cfg" "[]"] by simp_all
  then have "owned_by (sc_Name cfg) (default_route cfg)" "owned_by (sc_Name cfg) (root_route cfg)"
    by (simp_all add: owned_by_def default_route_def root_route_def)
  then show "r \<in> service_routes cfg \<Longrightarrow> owned_by (sc_Name cfg) r"
    using custom_route_owned by (auto simp: service_routes_def)
qed

lemma try_add_routes: "table_routes rt \<subseteq> table_routes (try_add r rt)"
  "table_routes (try_add r rt) \<subseteq> insert r (table_routes rt)"
  "table_inv rt \<Longrightarrow> table_inv (try_add r rt)"
  by (cases "AddRoute r rt"; auto simp: try_add_def gwt.add_routes gwt.add_inv)+

lemma fold_try_add:
  "table_routes rt \<subseteq> table_routes (fold (\<lambda>x. try_add (f x)) xs rt)
   \<and> table_routes (fold (\<lambda>x. try_add (f x)) xs rt) \<subseteq> table_routes rt \<union> f ` set xs
   \<and> (table_inv rt \<longrightarrow> table_inv (fold (\<lambda>x. try_add (f x)) xs rt))"
proof (induction xs arbitrary: rt)
  case Nil
  then show ?case by simp
next
  case (Cons x xs)
  show ?case using Cons.IH [of "try_add (f x) rt"] try_add_routes [where rt = rt and r = "f x"] by auto
qed

lemma default_ok: "sc_Name cfg \<noteq> [] \<Longrightarrow> \<exists>rt'. AddRoute (default_route cfg) rt = Inr rt'"
  by (rule gwt.add_ok) (auto simp: default_route_def)

lemma root_ok: "sc_Name cfg \<noteq> [] \<Longrightarrow> \<exists>rt'. AddRoute (root_route cfg) rt = Inr rt'"
  by (rule gwt.add_ok) (auto simp: root_route_def)

lemma registerServiceRoutes_spec:
  assumes "registerServiceRoutes cfg rt = (rt', err)"
  shows "table_routes rt \<subseteq> table_routes rt'"
    "table_routes rt' \<subseteq> table_routes rt \<union> service_routes cfg"
    "table_inv rt \<Longrightarrow> table_inv rt'"
    "sc_Name cfg \<noteq> [] \<Longrightarrow> default_route cfg \<in> table_routes rt' \<and> root_route cfg \<in> table_routes rt'"
proof -
  define rt1 where "rt1 = fold (\<lambda>rc. try_add (custom_route (sc_Name cfg) (sc_URL cfg) rc)) (sc_Routes cfg) rt"
  have 1: "table_routes rt \<subseteq> table_routes rt1"
    "table_routes rt1 \<subseteq> table_routes rt \<union> custom_route (sc_Name cfg) (sc_URL cfg) ` set (sc_Routes cfg)"
    "table_inv rt \<Longrightarrow> table_inv rt1"
    unfolding rt1_def
    using fold_try_add [of rt "custom_route (sc_Name cfg) (sc_URL cfg)" "sc_Routes cfg"] by auto
  have reg: "registerServiceRoutes cfg rt =
      (case AddRoute (default_route cfg) rt1 of
         Inl err \<Rightarrow> (rt1, Some (ErrRoute (sc_Name cfg) err))
       | Inr rt2 \<Rightarrow> (try_add (root_route cfg) rt2, None))"
    by (simp only: registerServiceRoutes_def rt1_def Let_def)
  have "table_routes rt \<subseteq> table_routes rt' \<and> table_routes rt' \<subseteq> table_routes rt \<union> service_routes cfg
      \<and> (table_inv rt \<longrightarrow> table_inv rt')
      \<and> (sc_Name cfg \<noteq> [] \<longrightarrow> default_route cfg \<in> table_routes rt' \<and> root_route cfg \<in> table_routes rt')"
  proof (cases "AddRoute (default_route cfg) rt1")
    case (Inl e)
    then have "sc_Name cfg = []" using default_ok [of cfg rt1] by auto
    with Inl 1 assms reg show ?thesis by (auto simp: service_routes_def)
  next
    case (Inr rt2)
    then have r: "rt' = try_add (root_route cfg) rt2" using assms reg by simp
    have 2: "table_routes rt2 = insert (default_route cfg) (table_routes rt1)"
      "table_inv rt1 \<Longrightarrow> table_inv rt2"
      using gwt.add_routes [OF Inr] gwt.add_inv [OF _ Inr] by auto
    have "sc_Name cfg \<noteq> [] \<Longrightarrow> root_route cfg \<in> table_routes rt'"
      using root_ok [of cfg rt2] gwt.add_routes by (auto simp: r try_add_def)
    then show ?thesis
      using 1 2 try_add_routes [where rt = rt2 and r = "root_route cfg"] unfolding r service_routes_def by blast
  qed
  then show "table_routes rt \<subseteq> table_routes rt'"
    "table_routes rt' \<subseteq> table_routes rt \<union> service_routes cfg"
    "table_inv rt \<Longrightarrow> table_inv rt'"
    "sc_Name cfg \<noteq> [] \<Longrightarrow> default_route cfg \<in> table_routes rt' \<and> root_route cfg \<in> table_routes rt'"
    by auto
qed

text \<open>
  The proxy's invariant: every route of the table belongs to a registered service and lies under
  its prefix, and every registered service has its default and its root route.
\<close>

definition proxy_inv :: "service_proxy \<Rightarrow> bool" where
  "proxy_inv sp \<longleftrightarrow>
     registry_inv (sp_registry sp) \<and> table_inv (sp_routingTable sp)
     \<and> (\<forall>r \<in> table_routes (sp_routingTable sp).
           registered (sp_registry sp) (rm_ServiceID r) \<noteq> None \<and> owned_by (rm_ServiceID r) r)
     \<and> (\<forall>name cfg. registered (sp_registry sp) name = Some cfg \<and> name \<noteq> [] \<longrightarrow>
           default_route cfg \<in> table_routes (sp_routingTable sp)
           \<and> root_route cfg \<in> table_routes (sp_routingTable sp))"

lemma proxy_inv_add_service:
  assumes inv: "registry_inv reg" "table_inv rt"
    and own: "\<forall>r \<in> table_routes rt. registered reg (rm_ServiceID r) \<noteq> None \<and> owned_by (rm_ServiceID r) r"
    and comp: "\<forall>name c. registered reg name = Some c \<and> name \<noteq> [] \<and> name \<noteq> sc_Name cfg \<longrightarrow>
       default_route c \<in> table_routes rt \<and> root_route c \<in> table_routes rt"
    and cfg: "registered reg (sc_Name cfg) = Some cfg"
    and step: "registerServiceRoutes cfg rt = (rt', err)"
  shows "proxy_inv \<lparr>sp_registry = reg, sp_routingTable = rt', sp_circuitBreaker = b\<rparr>"
proof -
  note sp = registerServiceRoutes_spec [OF step]
  have "\<forall>r \<in> table_routes rt'. registered reg (rm_ServiceID r) \<noteq> None \<and> owned_by (rm_ServiceID r) r"
  proof
    fix r assume "r \<in> table_routes rt'"
    with sp(2) consider "r \<in> table_routes rt" | "r \<in> service_routes cfg" by blast
    then show "registered reg (rm_ServiceID r) \<noteq> None \<and> owned_by (rm_ServiceID r) r"
    proof cases
      case 1
      with own show ?thesis by blast
    next
      case 2
      then have "owned_by (sc_Name cfg) r" by (rule service_routes_owned)
      with cfg show ?thesis by (auto simp: owned_by_def)
    qed
  qed
  moreover have "\<forall>name c. registered reg name = Some c \<and> name \<noteq> [] \<longrightarrow>
       default_route c \<in> table_routes rt' \<and> root_route c \<in> table_routes rt'"
    using comp cfg sp(1,4) by (metis option.inject subsetD)
  ultimately show ?thesis using inv sp(3) by (simp add: proxy_inv_def)
qed

lemma RegisterService_inv:
  assumes "proxy_inv sp"
  shows "proxy_inv (fst (RegisterService up cfg sp))"
proof (cases "snd (Register up cfg (sp_registry sp))")
  case None
  then obtain reg where reg: "Register up cfg (sp_registry sp) = (reg, None)"
    by (metis prod.collapse)
  obtain rt' err where rt: "registerServiceRoutes cfg (sp_routingTable sp) = (rt', err)" by fastforce
  have reg_map: "registered reg = (registered (sp_registry sp))(sc_Name cfg \<mapsto> cfg)"
    using msr.register_ok [of up cfg "sp_registry sp"] reg by simp
  have "registry_inv reg" using msr.register_inv [of "sp_registry sp" up cfg] assms reg by (simp add: proxy_inv_def)
  then have "proxy_inv \<lparr>sp_registry = reg, sp_routingTable = rt', sp_circuitBreaker = sp_circuitBreaker sp\<rparr>"
    using assms by (intro proxy_inv_add_service [OF _ _ _ _ _ rt]) (auto simp: proxy_inv_def reg_map)
  moreover have "fst (RegisterService up cfg sp) =
      \<lparr>sp_registry = reg, sp_routingTable = rt', sp_circuitBreaker = sp_circuitBreaker sp\<rparr>"
    by (simp add: RegisterService_def reg rt)
  ultimately show ?thesis by simp
next
  case (Some e)
  then have "Register up cfg (sp_registry sp) = (sp_registry sp, Some e)"
    using msr.register_err by (metis prod.collapse)
  with assms show ?thesis by (simp add: RegisterService_def)
qed

lemma removed_service_inv:
  fixes name :: string
  assumes "proxy_inv sp" "is_order order (rt_routes (sp_routingTable sp))"
  defines "rt \<equiv> RemoveServiceRoutes order name (sp_routingTable sp)"
  shows "table_inv rt" "table_routes rt = {r \<in> table_routes (sp_routingTable sp). rm_ServiceID r \<noteq> name}"
    "registered (sp_registry sp) other = Some c \<Longrightarrow> other \<noteq> [] \<Longrightarrow> other \<noteq> name \<Longrightarrow>
       default_route c \<in> table_routes rt \<and> root_route c \<in> table_routes rt"
proof -
  show t: "table_inv rt" unfolding rt_def using assms by (intro gwt.remove_inv) (auto simp: proxy_inv_def)
  show r: "table_routes rt = {r \<in> table_routes (sp_routingTable sp). rm_ServiceID r \<noteq> name}"
    unfolding rt_def using gwt.remove_routes [OF assms(2)] .
  assume o: "registered (sp_registry sp) other = Some c" "other \<noteq> []" "other \<noteq> name"
  have "sc_Name c = other"
    using o(1) assms(1) by (auto simp: proxy_inv_def registry_inv_def registered_def Get_def)
  then have "rm_ServiceID (default_route c) \<noteq> name" "rm_ServiceID (root_route c) \<noteq> name"
    using o by (simp_all add: default_route_def root_route_def)
  with o assms(1) show "default_route c \<in> table_routes rt \<and> root_route c \<in> table_routes rt"
    unfolding r proxy_inv_def by blast
qed

lemma DeregisterService_inv:
  assumes "proxy_inv sp" "is_order order (rt_routes (sp_routingTable sp))"
  shows "proxy_inv (fst (DeregisterService order name sp))"
proof (cases "snd (Deregister name (sp_registry sp))")
  case None
  then obtain reg where reg: "Deregister name (sp_registry sp) = (reg, None)"
    by (metis prod.collapse)
  let ?rt = "RemoveServiceRoutes order name (sp_routingTable sp)"
  have reg_map: "registered reg = (registered (sp_registry sp))(name := None)"
    using msr.deregister_ok [of name "sp_registry sp"] reg by simp
  have "registry_inv reg"
    using msr.deregister_inv [of "sp_registry sp" name] assms(1) reg by (simp add: proxy_inv_def)
  moreover have "\<forall>r \<in> table_routes ?rt. registered reg (rm_ServiceID r) \<noteq> None \<and> owned_by (rm_ServiceID r) r"
    using assms(1) removed_service_inv(2) [OF assms, of name] by (simp add: proxy_inv_def reg_map)
  moreover have "\<forall>other c. registered reg other = Some c \<and> other \<noteq> [] \<longrightarrow>
      default_route c \<in> table_routes ?rt \<and> root_route c \<in> table_routes ?rt"
    using removed_service_inv(3) [OF assms, of _ _ name] by (auto simp: reg_map)
  ultimately show ?thesis
    using removed_service_inv(1) [OF assms, of name]
    by (simp add: DeregisterService_def reg proxy_inv_def)
next
  case (Some e)
  then have "Deregister name (sp_registry sp) = (sp_registry sp, Some e)"
    using msr.deregister_err by (metis prod.collapse)
  with assms show ?thesis by (simp add: DeregisterService_def)
qed

lemma Update_inv: "registry_inv reg \<Longrightarrow> registry_inv (fst (Update up cfg reg))"
  using Deregister_inv [of reg "sc_Name cfg"] Register_inv
  by (auto simp: Update_def split: prod.splits option.splits)

lemma UpdateService_inv:
  assumes "proxy_inv sp" "is_order order (rt_routes (sp_routingTable sp))"
    and ok: "up (sc_URL cfg) \<noteq> None"
  shows "proxy_inv (fst (UpdateService up order cfg sp))"
proof (cases "snd (Update up cfg (sp_registry sp))")
  case None
  then obtain reg where reg: "Update up cfg (sp_registry sp) = (reg, None)" by (metis prod.collapse)
  let ?rt = "RemoveServiceRoutes order (sc_Name cfg) (sp_routingTable sp)"
  obtain rt' err where rt: "registerServiceRoutes cfg ?rt = (rt', err)" by fastforce
  have reg_map: "registered reg = (registered (sp_registry sp))(sc_Name cfg \<mapsto> cfg)"
    using Update_registered [of up cfg "sp_registry sp"] Update_error [of up cfg "sp_registry sp"] None reg
    by auto
  have "registry_inv reg"
    using Update_inv [of "sp_registry sp" up cfg] assms(1) reg by (simp add: proxy_inv_def)
  moreover have "\<forall>r \<in> table_routes ?rt. registered reg (rm_ServiceID r) \<noteq> None \<and> owned_by (rm_ServiceID r) r"
    using assms(1) removed_service_inv(2) [OF assms(1,2), of "sc_Name cfg"]
    by (simp add: proxy_inv_def reg_map)
  moreover have "\<forall>other c. registered reg other = Some c \<and> other \<noteq> [] \<and> other \<noteq> sc_Name cfg \<longrightarrow>
      default_route c \<in> table_routes ?rt \<and> root_route c \<in> table_routes ?rt"
    using removed_service_inv(3) [OF assms(1,2), of _ _ "sc_Name cfg"] by (auto simp: reg_map)
  ultimately have
    "proxy_inv \<lparr>sp_registry = reg, sp_routingTable = rt', sp_circuitBreaker = sp_circuitBreaker sp\<rparr>"
    using removed_service_inv(1) [OF assms(1,2), of "sc_Name cfg"]
    by (intro proxy_inv_add_service [OF _ _ _ _ _ rt]) (simp_all add: reg_map)
  moreover have "fst (UpdateService up order cfg sp) =
      \<lparr>sp_registry = reg, sp_routingTable = rt', sp_circuitBreaker = sp_circuitBreaker sp\<rparr>"
    by (simp add: UpdateService_def reg rt)
  ultimately show ?thesis by simp
next
  case (Some e)
  then have "registered (sp_registry sp) (sc_Name cfg) = None"
    using Update_error [of up cfg "sp_registry sp"] ok by auto
  then have "Deregister (sc_Name cfg) (sp_registry sp) = (sp_registry sp, Some (NotRegistered (sc_Name cfg)))"
    by (simp add: Deregister_def registered_def Get_def)
  then have "Update up cfg (sp_registry sp) = (sp_registry sp, Some (NotRegistered (sc_Name cfg)))"
    by (simp add: Update_def)
  with assms show ?thesis by (simp add: UpdateService_def)
qed

lemma RegisterServiceRoute_inv:
  assumes "proxy_inv sp"
  shows "proxy_inv (fst (RegisterServiceRoute name rc sp))"
proof (cases "Get name (sp_registry sp)")
  case None
  with assms show ?thesis by (simp add: RegisterServiceRoute_def)
next
  case (Some entry)
  let ?r = "custom_route name (sc_URL (se_Config entry)) rc"
  have reg: "registered (sp_registry sp) name \<noteq> None" using Some by (simp add: registered_def)
  show ?thesis
  proof (cases "AddRoute ?r (sp_routingTable sp)")
    case (Inl e)
    with Some assms show ?thesis by (simp add: RegisterServiceRoute_def)
  next
    case (Inr rt)
    have own: "owned_by name ?r" by (rule custom_route_owned)
    have "table_routes rt = insert ?r (table_routes (sp_routingTable sp))" "table_inv rt"
      using gwt.add_routes [OF Inr] gwt.add_inv [OF _ Inr] assms by (auto simp: proxy_inv_def)
    with Some Inr assms reg own show ?thesis
      by (auto simp: RegisterServiceRoute_def proxy_inv_def) (auto simp: owned_by_def)
  qed
qed

lemma register_all_routes_spec:
  shows "table_routes rt \<subseteq> table_routes (register_all_routes svcs rt)"
    "table_routes (register_all_routes svcs rt) \<subseteq> table_routes rt \<union> \<Union> (service_routes ` set svcs)"
    "table_inv rt \<Longrightarrow> table_inv (register_all_routes svcs rt)"
    "cfg \<in> set svcs \<Longrightarrow> sc_Name cfg \<noteq> [] \<Longrightarrow>
       default_route cfg \<in> table_routes (register_all_routes svcs rt)
       \<and> root_route cfg \<in> table_routes (register_all_routes svcs rt)"
proof -
  have "table_routes rt \<subseteq> table_routes (register_all_routes svcs rt)
    \<and> table_routes (register_all_routes svcs rt) \<subseteq> table_routes rt \<union> \<Union> (service_routes ` set svcs)
    \<and> (table_inv rt \<longrightarrow> table_inv (register_all_routes svcs rt))
    \<and> (cfg \<in> set svcs \<and> sc_Name cfg \<noteq> [] \<longrightarrow>
         default_route cfg \<in> table_routes (register_all_routes svcs rt)
         \<and> root_route cfg \<in> table_routes (register_all_routes svcs rt))"
  proof (induction svcs arbitrary: rt)
    case Nil
    then show ?case by (simp add: register_all_routes_def)
  next
    case (Cons svc svcs)
    obtain rt1 err where s: "registerServiceRoutes svc rt = (rt1, err)" by fastforce
    have e: "register_all_routes (svc # svcs) rt = register_all_routes svcs rt1"
      by (simp add: register_all_routes_def s)
    note sp = registerServiceRoutes_spec [OF s] and IH = Cons.IH [of rt1]
    have "cfg \<in> set (svc # svcs) \<and> sc_Name cfg \<noteq> [] \<Longrightarrow>
       default_route cfg \<in> table_routes (register_all_routes svcs rt1)
       \<and> root_route cfg \<in> table_routes (register_all_routes svcs rt1)"
      using IH sp(4) by auto
    then show ?case unfolding e using IH sp(1,2,3) by (auto simp: image_Un)
  qed
  then show "table_routes rt \<subseteq> table_routes (register_all_routes svcs rt)"
    "table_routes (register_all_routes svcs rt) \<subseteq> table_routes rt \<union> \<Union> (service_routes ` set svcs)"
    "table_inv rt \<Longrightarrow> table_inv (register_all_routes svcs rt)"
    "cfg \<in> set svcs \<Longrightarrow> sc_Name cfg \<noteq> [] \<Longrightarrow>
       default_route cfg \<in> table_routes (register_all_routes svcs rt)
       \<and> root_route cfg \<in> table_routes (register_all_routes svcs rt)"
    by auto
qed

lemma table_routes_new [simp]: "table_routes NewRoutingTable = {}"
  by (simp add: table_routes_def NewRoutingTable_def)

text \<open>The proxy that the constructor builds on an empty table.\<close>

definition built_proxy :: "string list \<Rightarrow> registry \<Rightarrow> bool \<Rightarrow> service_proxy" where
  "built_proxy order reg b =
     \<lparr>sp_registry = reg, sp_routingTable = register_all_routes (List_services order reg) NewRoutingTable,
      sp_circuitBreaker = b\<rparr>"

lemma built_proxy_inv:
  assumes "registry_inv reg" "is_order order (sr_services reg)"
  shows "proxy_inv (built_proxy order reg b)"
proof -
  let ?svcs = "List_services order reg"
  note sp = register_all_routes_spec [where rt = NewRoutingTable and svcs = ?svcs]
  have svcs: "set ?svcs = ran (registered reg)" by (rule List_services_map(2) [OF assms])
  have reg_self: "registered reg (sc_Name c) = Some c" if "c \<in> ran (registered reg)" for c
  proof -
    from that obtain n where n: "registered reg n = Some c" by (auto simp: ran_def)
    then have "sc_Name c = n" using assms(1) by (auto simp: registry_inv_def registered_def Get_def)
    with n show ?thesis by simp
  qed
  have "\<forall>r \<in> table_routes (register_all_routes ?svcs NewRoutingTable).
          registered reg (rm_ServiceID r) \<noteq> None \<and> owned_by (rm_ServiceID r) r"
  proof
    fix r assume "r \<in> table_routes (register_all_routes ?svcs NewRoutingTable)"
    with sp(2) svcs obtain c where c: "c \<in> ran (registered reg)" "r \<in> service_routes c" by auto
    from service_routes_owned [OF c(2)] reg_self [OF c(1)]
    show "registered reg (rm_ServiceID r) \<noteq> None \<and> owned_by (rm_ServiceID r) r"
      by (auto simp: owned_by_def)
  qed
  moreover have "\<forall>name c. registered reg name = Some c \<and> name \<noteq> [] \<longrightarrow>
      default_route c \<in> table_routes (register_all_routes ?svcs NewRoutingTable)
      \<and> root_route c \<in> table_routes (register_all_routes ?svcs NewRoutingTable)"
  proof (intro allI impI)
    fix name c assume n: "registered reg name = Some c \<and> name \<noteq> []"
    then have mem: "c \<in> set ?svcs" using svcs by (auto simp: ran_def)
    have "sc_Name c = name" using n assms(1) by (auto simp: registry_inv_def registered_def Get_def)
    with n mem show "default_route c \<in> table_routes (register_all_routes ?svcs NewRoutingTable)
      \<and> root_route c \<in> table_routes (register_all_routes ?svcs NewRoutingTable)"
      using sp(4) by blast
  qed
  ultimately show ?thesis
    using assms(1) sp(3) [OF table_inv_new] by (simp add: proxy_inv_def built_proxy_def)
qed

inductive reachable_proxy :: "(string \<Rightarrow> url option) \<Rightarrow> service_proxy \<Rightarrow> bool" for up where
  built: "registry_inv reg \<Longrightarrow> is_order order (sr_services reg) \<Longrightarrow> reachable_proxy up (built_proxy order reg b)"
| reg_service: "reachable_proxy up sp \<Longrightarrow> reachable_proxy up (fst (RegisterService up cfg sp))"
| dereg_service: "reachable_proxy up sp \<Longrightarrow> is_order order (rt_routes (sp_routingTable sp)) \<Longrightarrow>
    reachable_proxy up (fst (DeregisterService order name sp))"
| upd_service: "reachable_proxy up sp \<Longrightarrow> is_order order (rt_routes (sp_routingTable sp)) \<Longrightarrow>
    up (sc_URL cfg) \<noteq> None \<Longrightarrow> reachable_proxy up (fst (UpdateService up order cfg sp))"
| reg_route: "reachable_proxy up sp \<Longrightarrow> reachable_proxy up (fst (RegisterServiceRoute name rc sp))"

lemma reachable_proxy_inv: "reachable_proxy up sp \<Longrightarrow> proxy_inv sp"
  by (induction rule: reachable_proxy.induct)
    (auto intro: built_proxy_inv RegisterService_inv DeregisterService_inv UpdateService_inv
      RegisterServiceRoute_inv)

section \<open>Handler lemmas\<close>

lemma director_user:
  "cx_user (rq_ctx r) = Some u \<Longrightarrow> header_get (director torder target name r) ''X-User-Id'' = ucd_UserID u"
  by (simp add: director_def Let_def UserContextDataFromContext_def split: option.splits)

lemma director_anonymous:
  "cx_user (rq_ctx r) = None \<Longrightarrow>
   k \<noteq> ''X-Forwarded-For'' \<Longrightarrow> header_get (director torder target name r) k = header_get r k"
  by (simp add: director_def Let_def UserContextDataFromContext_def value_or_empty_def header_set_def mget_mput)

lemma director_path:
  "rq_Path (director torder target name r) =
     strip_service name (singleJoiningSlash (u_Path target) (rq_Path r))"
  by (simp add: director_def Let_def UserContextDataFromContext_def split: option.splits)

text \<open>The name of the service that a request goes to.\<close>

definition target_service :: "service_proxy \<Rightarrow> request \<Rightarrow> string" where
  "target_service sp r =
     (case LookupRoute (sp_routingTable sp) (rq_Method r) (rq_Path r) of
        Some (route, params) \<Rightarrow> rm_ServiceName route
      | None \<Rightarrow> SplitN2 (CHR ''/'') (TrimPrefix (rq_Path r) ''/'') ! 0)"

lemma proxy_handler_cases:
  obtains (refused) code msg where "proxy_handler upstream torder sp r w = (http_error msg code, w)"
      "Get (target_service sp r) (sp_registry sp) = None \<and> code = 404
       \<or> (\<exists>entry. Get (target_service sp r) (sp_registry sp) = Some entry
            \<and> \<not> isMethodAllowed (rq_Method r) (se_Config entry)) \<and> code = 405"
  | (forwarded) entry r' where "Get (target_service sp r) (sp_registry sp) = Some entry"
      "isMethodAllowed (rq_Method r) (se_Config entry)"
      "proxy_handler upstream torder sp r w =
         serve_proxy upstream (se_Proxy entry)
           (director torder (px_Target (se_Proxy entry)) (target_service sp r)) r' w"
      "rq_Path r' = rq_Path r" "rq_Header r' = rq_Header r" "cx_user (rq_ctx r') = cx_user (rq_ctx r)"
proof (cases "Get (target_service sp r) (sp_registry sp)")
  case None
  then show ?thesis
    by (intro refused [of "''Service not found''" 404])
      (simp_all add: proxy_handler_def target_service_def Let_def)
next
  case (Some entry)
  define r1 where "r1 = (case LookupRoute (sp_routingTable sp) (rq_Method r) (rq_Path r) of
      Some (route, params) \<Rightarrow>
        if length params > 0 then r\<lparr>rq_ctx := (rq_ctx r)\<lparr>cx_path_params := Some params\<rparr>\<rparr> else r
    | None \<Rightarrow> r)"
  have r1: "rq_Path r1 = rq_Path r" "rq_Header r1 = rq_Header r" "rq_Method r1 = rq_Method r"
    "cx_user (rq_ctx r1) = cx_user (rq_ctx r)"
    by (auto simp: r1_def split: option.splits prod.splits)
  have h: "proxy_handler upstream torder sp r w =
      (if \<not> isMethodAllowed (rq_Method r1) (se_Config entry) then (http_error ''Method not allowed'' 405, w)
       else serve_proxy upstream (se_Proxy entry)
              (director torder (px_Target (se_Proxy entry)) (target_service sp r))
              (r1\<lparr>rq_ctx := (rq_ctx r1)\<lparr>cx_service_name := Some (target_service sp r)\<rparr>\<rparr>) w)"
    using Some unfolding proxy_handler_def target_service_def r1_def Let_def by simp
  show ?thesis
  proof (cases "isMethodAllowed (rq_Method r) (se_Config entry)")
    case True
    show ?thesis
      by (rule forwarded [OF Some True,
            of "r1\<lparr>rq_ctx := (rq_ctx r1)\<lparr>cx_service_name := Some (target_service sp r)\<rparr>\<rparr>"])
        (use True in \<open>simp_all add: h r1 del: isMethodAllowed.simps\<close>)
  next
    case False
    show ?thesis
      by (rule refused [of "''Method not allowed''" 405])
        (use False Some in \<open>simp_all add: h r1 del: isMethodAllowed.simps\<close>)
  qed
qed

section \<open>Properties\<close>


text \<open>Updating a registered service to a URL that does not parse reports an error, removes the
  service from the registry and keeps all its routes in the table, so requests that match them are
  answered with 404.\<close>

lemma failed_update_orphans_routes:
  assumes "registered (sp_registry sp) (sc_Name cfg) \<noteq> None" "up (sc_URL cfg) = None"
  shows "\<exists>sp' err. UpdateService up order cfg sp = (sp', Some err)
    \<and> registered (sp_registry sp') (sc_Name cfg) = None
    \<and> sp_routingTable sp' = sp_routingTable sp"
proof -
  let ?u = "Update up cfg (sp_registry sp)"
  have "snd ?u \<noteq> None" using Update_error [of up cfg "sp_registry sp"] assms(2) by simp
  then obtain reg err where u: "?u = (reg, Some err)" by (cases ?u) auto
  have "registered reg (sc_Name cfg) = None"
    using Update_registered [of up cfg "sp_registry sp"] assms u by simp
  then show ?thesis by (simp add: UpdateService_def u)
qed


text \<open>For a request without user data, as on every public route, the director forwards the
  headers of the client as they came, the identity headers included: a client may set them itself.\<close>

lemma identity_headers_pass_through:
  assumes "cx_user (rq_ctx r) = None"
  shows "header_get (director torder target name r) ''X-User-Id'' = header_get r ''X-User-Id''
    \<and> header_get (director torder target name r) ''X-User-Roles'' = header_get r ''X-User-Roles''"
  using director_anonymous [OF assms] by simp

lemma Handler_reaches:
  assumes "Handler clk late upstream torder sp r (cb, w) = (calls, (cb', w'))" and "w' \<noteq> w"
  shows "w' = snd (proxy_handler upstream torder sp r w)"
proof (cases "sp_circuitBreaker sp")
  case False
  with assms(1) show ?thesis by (auto simp: Handler_def split: prod.splits)
next
  case True
  let ?next = "proxy_handler upstream torder sp"
  have h: "breaker_handler Execute clk late ?next r (cb, w) = (calls, (cb', w'))"
    using assms(1) True by (simp add: Handler_def)
  obtain err cb1 ws where ex: "Execute clk (serviceNameFromRequest r) (breaker_fn late ?next r) (cb, ([], w)) = (err, cb1, ws)"
    by (metis prod.collapse)
  show ?thesis
  proof (cases "rejection err")
    case True
    then obtain e where "err = Some e" by (auto simp: rejection_def)
    with memory_handler_rejected [of clk r late ?next cb w e] ex True h assms(2) show ?thesis by simp
  next
    case False
    from memory_handler_ran [OF ex False] h show ?thesis by (auto simp: Let_def split: prod.splits option.splits)
  qed
qed

lemma AuthenticatedHandler_outcome:
  "(\<exists>route params. LookupRoute (sp_routingTable sp) (rq_Method r) (rq_Path r) = Some (route, params)
      \<and> rm_Public route
      \<and> AuthenticatedHandler torder sp auth base r w = base (add_route_params params r) w)
   \<or> (\<exists>r'. AuthenticatedHandler torder sp auth base r w = auth base r' w
        \<and> rq_Header r' = rq_Header r \<and> rq_Path r' = rq_Path r \<and> rq_Method r' = rq_Method r)
   \<or> (snd (AuthenticatedHandler torder sp auth base r w) = w
      \<and> fst (reply_of (fst (AuthenticatedHandler torder sp auth base r w))) \<in> {401, 403})"
proof (cases "LookupRoute (sp_routingTable sp) (rq_Method r) (rq_Path r)")
  case None
  then show ?thesis by (auto simp: AuthenticatedHandler_def)
next
  case (Some rp)
  obtain route params where rp: "rp = (route, params)" by (cases rp)
  show ?thesis
  proof (cases "rm_Public route")
    case True
    then show ?thesis using Some rp by (simp add: AuthenticatedHandler_def)
  next
    case False
    have same: "rq_Header (add_route_params params r) = rq_Header r"
      "rq_Path (add_route_params params r) = rq_Path r" "rq_Method (add_route_params params r) = rq_Method r"
      by (simp_all add: add_route_params_def)
    show ?thesis
    proof (cases "rm_RequiredScopes route = []")
      case True
      then show ?thesis using Some rp False by (auto simp: AuthenticatedHandler_def)
    next
      case scopes: False
      then have a: "AuthenticatedHandler torder sp auth base r w
          = scope_check torder (rm_RequiredScopes route) params (auth base) r w"
        using Some rp False by (simp add: AuthenticatedHandler_def)
      show ?thesis
      proof (cases "UserContextDataFromContext r")
        case None
        then show ?thesis by (simp add: a scope_check_def)
      next
        case (Some u)
        then show ?thesis using same unfolding a scope_check_def by auto
      qed
    qed
  qed
qed

text \<open>C3: A request passes the per-route decision without the authentication middleware only if the
  route that the table gives for it is public. Otherwise it is handled by the middleware around
  the base handler, or it is refused with 401 or 403 and nothing behind is reached.\<close>

theorem authentication_not_bypassed:
  "(\<exists>route params. LookupRoute (sp_routingTable sp) (rq_Method r) (rq_Path r) = Some (route, params)
      \<and> rm_Public route
      \<and> AuthenticatedHandler torder sp auth base r w = base (add_route_params params r) w)
   \<or> (\<exists>r'. AuthenticatedHandler torder sp auth base r w = auth base r' w
        \<and> rq_Header r' = rq_Header r \<and> rq_Path r' = rq_Path r \<and> rq_Method r' = rq_Method r)
   \<or> (snd (AuthenticatedHandler torder sp auth base r w) = w
      \<and> fst (reply_of (fst (AuthenticatedHandler torder sp auth base r w))) \<in> {401, 403})"
  by (rule AuthenticatedHandler_outcome)

text \<open>On a protected route with required scopes the scopes are checked before the
  authentication middleware runs. A request that carries no user data yet is therefore refused
  with 401 whatever the middleware would have done with its token.\<close>

lemma scopes_checked_before_authentication:
  assumes "LookupRoute (sp_routingTable sp) (rq_Method r) (rq_Path r) = Some (route, params)"
    and "\<not> rm_Public route" "rm_RequiredScopes route \<noteq> []" "cx_user (rq_ctx r) = None"
  shows "AuthenticatedHandler torder sp auth base r w
           = (http_error ''Unauthorized: Invalid or expired token'' 401, w)"
  using assms by (simp add: AuthenticatedHandler_def scope_check_def UserContextDataFromContext_def)

lemma tenant_scope_never:
  "FormatTenantID t @ '':'' @ TrimPrefix s ''tenant:'' \<noteq> s"
proof
  assume eq: "FormatTenantID t @ '':'' @ TrimPrefix s ''tenant:'' = s"
  show False
  proof (cases "HasPrefix s ''tenant:''")
    case True
    then obtain x where "s = ''tenant:'' @ x" by (auto simp: HasPrefix_iff)
    with eq show False by (simp add: FormatTenantID_def)
  next
    case False
    then have "TrimPrefix s ''tenant:'' = s" by (simp add: TrimPrefix_def)
    with eq have "length (FormatTenantID t @ '':'' @ s) = length s" by simp
    then show False by simp
  qed
qed

text \<open>A required scope is met exactly when it does not mention a tenant and equals one of the
  user's role names: the comparison for tenant-specific scopes can never succeed, in any tenant.\<close>

lemma scope_ok_exact:
  "scope_ok (tenant_strings torder rm) (role_values rm) scope
     \<longleftrightarrow> \<not> Contains scope ''tenant:'' \<and> scope \<in> set (role_values rm)"
proof -
  have "\<not> list_ex (\<lambda>t. t @ '':'' @ TrimPrefix scope ''tenant:'' = scope) (tenant_strings torder rm)"
    using tenant_scope_never
    by (auto simp: tenant_strings_def GetTenantIDsAsStrings_def list_ex_iff split: option.splits)
  then show ?thesis by (auto simp: Let_def list_ex_iff)
qed

text \<open>The convenience constructor never builds a proxy: it does not hand its registry on to the
  constructor, which takes one only through its option.\<close>

lemma NewServiceProxyWithDefaults_fails:
  "\<not> is_ok (NewServiceProxyWithDefaults up loaded order cfg dir reg logger)"
  by (auto simp: NewServiceProxyWithDefaults_def NewServiceProxy_def WithProxyConfig_def
      WithProxyLogger_def WithConfigDir_def Let_def split: option.splits)

section \<open>Witnesses\<close>

definition sample_proxy :: service_proxy where
  "sample_proxy = built_proxy [''users''] sample_registry False"

lemma sample_registry_ok: "registry_inv sample_registry" "is_order [''users''] (sr_services sample_registry)"
  unfolding sample_registry_def by (intro Register_inv registry_inv_new) code_simp

lemma sample_proxy_reachable: "reachable_proxy sample_url_parse sample_proxy"
  unfolding sample_proxy_def by (intro built sample_registry_ok)

lemma sample_proxy_registered: "registered (sp_registry sample_proxy) ''users'' = Some (sample_service ''users'')"
  by code_simp


lemma failed_update_orphans_routes_witness:
  "\<exists>sp' err. UpdateService sample_url_parse [] ((sample_service ''users'')\<lparr>sc_URL := ''ftp''\<rparr>) sample_proxy
     = (sp', Some err) \<and> registered (sp_registry sp') ''users'' = None"
proof -
  let ?cfg = "(sample_service ''users'')\<lparr>sc_URL := ''ftp''\<rparr>"
  have "registered (sp_registry sample_proxy) (sc_Name ?cfg) \<noteq> None"
    using sample_proxy_registered by (simp add: sample_service_def)
  moreover have "sample_url_parse (sc_URL ?cfg) = None" by (simp add: sample_url_parse_def)
  ultimately have "\<exists>sp' err. UpdateService sample_url_parse [] ?cfg sample_proxy = (sp', Some err)
      \<and> registered (sp_registry sp') (sc_Name ?cfg) = None
      \<and> sp_routingTable sp' = sp_routingTable sample_proxy"
    by (rule failed_update_orphans_routes)
  then show ?thesis by (auto simp: sample_service_def)
qed

definition sample_upstream :: "nat upstream" where
  "sample_upstream px req n = (Some [Write (header_get req ''X-User-Id'')], n + 1)"


definition spoofed_request :: request where
  "spoofed_request = (sample_request ''GET'' ''/users/1'')\<lparr>rq_Header := [(''X-User-Id'', ''admin'')]\<rparr>"

lemma identity_headers_pass_through_witness:
  "header_get (director [] \<lparr>u_Scheme = ''http'', u_Host = ''users'', u_Path = []\<rparr> ''users'' spoofed_request)
     ''X-User-Id'' = ''admin''"
  using identity_headers_pass_through [of spoofed_request "[]"
      "\<lparr>u_Scheme = ''http'', u_Host = ''users'', u_Path = []\<rparr>" "''users''"]
  by (simp add: spoofed_request_def sample_request_def background_def value_or_empty_def)

definition scoped_table :: routing_table where
  "scoped_table =
     \<lparr>rt_routes = [(''*'', [\<lparr>re_Metadata = (sample_route ''users'' ''*'' ''/users/*'' False)\<lparr>rm_RequiredScopes := [''admin'']\<rparr>,
        re_Pattern = ParsePattern ''/users/*''\<rparr>])]\<rparr>"

lemma scoped_lookup:
  "LookupRoute scoped_table ''GET'' ''/users/1'' =
     Some ((sample_route ''users'' ''*'' ''/users/*'' False)\<lparr>rm_RequiredScopes := [''admin'']\<rparr>, [(''*'', ''1'')])"
  by code_simp

lemma scopes_checked_before_authentication_witness:
  "AuthenticatedHandler [] (sample_proxy\<lparr>sp_routingTable := scoped_table\<rparr>) (Authenticate sample_auth 50)
     echo_user (bearer_request ''good'') 0
   = (http_error ''Unauthorized: Invalid or expired token'' 401, 0)"
proof -
  let ?r = "bearer_request ''good''"
  have l: "LookupRoute (sp_routingTable (sample_proxy\<lparr>sp_routingTable := scoped_table\<rparr>)) (rq_Method ?r) (rq_Path ?r)
      = Some ((sample_route ''users'' ''*'' ''/users/*'' False)\<lparr>rm_RequiredScopes := [''admin'']\<rparr>, [(''*'', ''1'')])"
    using scoped_lookup by (simp add: bearer_request_def)
  show ?thesis
    by (rule scopes_checked_before_authentication [OF l])
      (simp_all add: sample_route_def bearer_request_def background_def)
qed

section \<open>Isolation of custom routes\<close>

definition user_service :: service_config where
  "user_service = (sample_service ''user'')\<lparr>sc_Routes :=
     [\<lparr>rc_Path = ''/users/:id'', rc_Method = ''GET'', rc_Public = True, rc_RequiredScopes = [], rc_Priority = 0\<rparr>]\<rparr>"

text \<open>The prefix test that isolates custom routes compares names without a separator. A service
  named user may register the path of another service named users unchanged and as public; requests
  for the other service are then routed to it, with no authentication.\<close>

lemma prefix_isolation_broken:
  "qualify_path ''user'' ''/users/:id'' = ''/users/:id''
   \<and> (\<exists>route params. LookupRoute (sp_routingTable (fst (RegisterService sample_url_parse user_service sample_proxy)))
         ''GET'' ''/users/1'' = Some (route, params)
        \<and> rm_ServiceID route = ''user'' \<and> rm_Public route)"
proof -
  have "qualify_path ''user'' ''/users/:id'' = ''/users/:id''" by code_simp
  moreover have "map_option (\<lambda>(route, params). (rm_ServiceID route, rm_Public route))
      (LookupRoute (sp_routingTable (fst (RegisterService sample_url_parse user_service sample_proxy)))
         ''GET'' ''/users/1'') = Some (''user'', True)"
    by code_simp
  ultimately show ?thesis by (auto simp: map_option_case split: option.splits)
qed

end
