(* ===== verification/RateLimitService.thy ===== *)
theory RateLimitService
  imports Complex_Main Auth
begin

text \<open>
  The rate-limit service of the gateway (\<open>prism/internal/features/ratelimit/service_rate_limit.go\<close>).

  The two maps of the service share pointers to the same configurations. A configuration is
  identified by its ID, so the store \<open>rl_store\<close> is at once the heap of configurations and the map
  by ID, and the map by key (\<open>rl_configs\<close>) holds IDs: an update through either map is seen through
  both, as in the source. The rate limiter behind the service is a parameter (\<open>ports.RateLimiter\<close>).
  Loads are rational numbers; the rounding of 64-bit floats is not modelled. The capacity-one
  channel that triggers the updater is a flag.
\<close>

section \<open>Data\<close>

abbreviation (input) "RateLimitTypeIP \<equiv> ''ip''"
abbreviation (input) "RateLimitTypeUser \<equiv> ''user''"
abbreviation (input) "RateLimitTypeAPIKey \<equiv> ''apikey''"
abbreviation (input) "RateLimitTypeTenant \<equiv> ''tenant''"
abbreviation (input) "RateLimitTypeRoute \<equiv> ''route''"
abbreviation (input) "RateLimitTypeGlobal \<equiv> ''global''"
abbreviation (input) "AlgorithmFixed \<equiv> ''fixed''"
abbreviation (input) "AlgorithmAdaptive \<equiv> ''adaptive''"

record rate_config =
  rc_ID :: uuid
  rc_Name :: string
  rc_Type :: string
  rc_Strategy :: string
  rc_Target :: string
  rc_RequestsPerMinute :: int
  rc_BurstSize :: int
  rc_TenantID :: "uuid option"
  rc_IsActive :: bool
  rc_CreatedAt :: time
  rc_UpdatedAt :: time
  rc_Min :: int
  rc_Max :: int
  rc_Load :: rat

record violation =
  vi_ID :: uuid
  vi_ConfigID :: uuid
  vi_Type :: string
  vi_Target :: string
  vi_IPAddress :: "string option"
  vi_UserID :: "uuid option"
  vi_TenantID :: "uuid option"
  vi_APIKeyID :: "uuid option"
  vi_Route :: string
  vi_RequestCount :: int
  vi_Threshold :: int
  vi_OccurredAt :: time

datatype event_value = EStr string | EInt int | EBool bool | ELoad rat | EList "string list"

record audit_req =
  ar_EventType :: string
  ar_ActorType :: string
  ar_ActorID :: string
  ar_TenantID :: string
  ar_ResourceType :: string
  ar_ResourceID :: string
  ar_EventData :: "(string \<times> event_value) list"

record rate_info =
  ri_Limit :: int
  ri_Remaining :: int
  ri_Reset :: time
  ri_RetryAt :: time

record 'l rate_service =
  rl_limiter :: 'l
  rl_audit :: "audit_req list"
  rl_configs :: "(string, uuid) gomap"
  rl_store :: "(uuid, rate_config) gomap"
  rl_violations :: "violation option list"
  rl_index :: nat
  rl_maxViolations :: nat
  rl_signal :: bool

datatype rate_error = NameRequired | TypeRequired | TargetRequired | RPMNotPositive | BurstNotPositive
  | MinNotLess | MaxNotGreater | MinNotPositive | MaxNotPositive | LimitNotFound | LoadOutOfRange

text \<open>What an operation takes from outside: a fresh id, the clock, and the parsers of ids and addresses.\<close>

record env =
  en_newID :: uuid
  en_now :: time
  en_uuid_parse :: "string \<Rightarrow> uuid option"
  en_parse_ip :: "string \<Rightarrow> string option"

definition NewRateLimitService :: "'l \<Rightarrow> 'l rate_service" where
  "NewRateLimitService limiter =
     \<lparr>rl_limiter = limiter, rl_audit = [], rl_configs = [], rl_store = [],
      rl_violations = replicate 1000 None, rl_index = 0, rl_maxViolations = 1000, rl_signal = False\<rparr>"

definition makeCacheKey :: "string \<Rightarrow> string \<Rightarrow> string" where
  "makeCacheKey limitType target = limitType @ '':'' @ target"

definition log_event :: "audit_req \<Rightarrow> 'l rate_service \<Rightarrow> 'l rate_service" where
  "log_event ev s = s\<lparr>rl_audit := rl_audit s @ [ev]\<rparr>"

definition tenant_text :: "uuid option \<Rightarrow> string" where
  "tenant_text t = (case t of None \<Rightarrow> [] | Some tid \<Rightarrow> FormatTenantID tid)"

section \<open>Creating\<close>

record create_params =
  cp_Name :: string
  cp_Type :: string
  cp_Strategy :: string
  cp_Target :: string
  cp_RequestsPerMinute :: int
  cp_BurstSize :: int
  cp_TenantID :: "uuid option"
  cp_Min :: int
  cp_Max :: int

definition adaptive_params :: "create_params \<Rightarrow> rate_error + create_params" where
  "adaptive_params p0 =
     (let p1 = (if cp_Min p0 \<le> 0 then p0\<lparr>cp_Min := cp_RequestsPerMinute p0 div 2\<rparr> else p0);
          p2 = (if cp_Max p1 \<le> 0 then p1\<lparr>cp_Max := cp_RequestsPerMinute p1 * 2\<rparr> else p1)
      in if cp_Min p2 \<ge> cp_RequestsPerMinute p2 then Inl MinNotLess
         else if cp_Max p2 \<le> cp_RequestsPerMinute p2 then Inl MaxNotGreater
         else Inr p2)"

definition validate_create :: "create_params \<Rightarrow> rate_error + create_params" where
  "validate_create p =
     (if cp_Name p = [] then Inl NameRequired
      else if cp_Type p = [] then Inl TypeRequired
      else if cp_Target p = [] \<and> cp_Type p \<noteq> RateLimitTypeGlobal then Inl TargetRequired
      else if cp_RequestsPerMinute p \<le> 0 then Inl RPMNotPositive
      else if cp_BurstSize p \<le> 0 then Inl BurstNotPositive
      else
        (let p' = (if cp_Strategy p = [] then p\<lparr>cp_Strategy := AlgorithmFixed\<rparr> else p)
         in if cp_Strategy p' = AlgorithmAdaptive then adaptive_params p' else Inr p'))"

definition create_event_data :: "create_params \<Rightarrow> (string \<times> event_value) list" where
  "create_event_data p =
     [(''name'', EStr (cp_Name p)), (''type'', EStr (cp_Type p)), (''strategy'', EStr (cp_Strategy p)),
      (''target'', EStr (cp_Target p)), (''requests_per_minute'', EInt (cp_RequestsPerMinute p)),
      (''burst_size'', EInt (cp_BurstSize p))]
     @ (if cp_Strategy p = AlgorithmAdaptive
        then [(''min_requests_per_minute'', EInt (cp_Min p)), (''max_requests_per_minute'', EInt (cp_Max p))]
        else [])
     @ (case cp_TenantID p of None \<Rightarrow> [] | Some t \<Rightarrow> [(''tenant_id'', EStr t)])"

definition CreateRateLimit ::
  "env \<Rightarrow> create_params \<Rightarrow> string \<Rightarrow> string \<Rightarrow> 'l rate_service \<Rightarrow> rate_error + (rate_config \<times> 'l rate_service)" where
  "CreateRateLimit en params actorID actorType s =
     (case validate_create params of
        Inl err \<Rightarrow> Inl err
      | Inr p \<Rightarrow>
          let config = \<lparr>rc_ID = en_newID en, rc_Name = cp_Name p, rc_Type = cp_Type p,
                        rc_Strategy = cp_Strategy p, rc_Target = cp_Target p,
                        rc_RequestsPerMinute = cp_RequestsPerMinute p, rc_BurstSize = cp_BurstSize p,
                        rc_TenantID = cp_TenantID p, rc_IsActive = True, rc_CreatedAt = en_now en,
                        rc_UpdatedAt = en_now en, rc_Min = cp_Min p, rc_Max = cp_Max p, rc_Load = 1 / 2\<rparr>;
              s1 = s\<lparr>rl_configs := mput (makeCacheKey (rc_Type config) (rc_Target config)) (rc_ID config) (rl_configs s),
                     rl_store := mput (rc_ID config) config (rl_store s)\<rparr>
          in Inr (config, log_event
               \<lparr>ar_EventType = ''ratelimit.created'', ar_ActorType = actorType, ar_ActorID = actorID,
                ar_TenantID = tenant_text (cp_TenantID p), ar_ResourceType = ''ratelimit'',
                ar_ResourceID = rc_ID config, ar_EventData = create_event_data p\<rparr> s1))"

definition GetRateLimit :: "uuid \<Rightarrow> 'l rate_service \<Rightarrow> rate_error + rate_config" where
  "GetRateLimit i s = (case mget (rl_store s) i of None \<Rightarrow> Inl LimitNotFound | Some c \<Rightarrow> Inr c)"

section \<open>Updating\<close>

record update_params =
  up_Name :: "string option"
  up_Strategy :: "string option"
  up_RequestsPerMinute :: "int option"
  up_BurstSize :: "int option"
  up_IsActive :: "bool option"
  up_Min :: "int option"
  up_Max :: "int option"

text \<open>
  The assignments of the update, in the order of the source. The configuration is changed in
  place, so every assignment made before an error stays.
\<close>

definition set_positive ::
  "int option \<Rightarrow> rate_error \<Rightarrow> (int \<Rightarrow> rate_config \<Rightarrow> rate_config)
   \<Rightarrow> rate_config \<times> rate_error option \<Rightarrow> rate_config \<times> rate_error option" where
  "set_positive v err f ce =
     (case ce of
        (c, Some e) \<Rightarrow> (c, Some e)
      | (c, None) \<Rightarrow>
          (case v of None \<Rightarrow> (c, None) | Some n \<Rightarrow> if n \<le> 0 then (c, Some err) else (f n c, None)))"

definition update_adaptive :: "update_params \<Rightarrow> rate_config \<Rightarrow> rate_config \<times> rate_error option" where
  "update_adaptive p c0 =
     (let ce = set_positive (up_Max p) MaxNotPositive (\<lambda>n c. c\<lparr>rc_Max := n\<rparr>)
                 (set_positive (up_Min p) MinNotPositive (\<lambda>n c. c\<lparr>rc_Min := n\<rparr>) (c0, None))
      in case ce of
           (c, Some e) \<Rightarrow> (c, Some e)
         | (c, None) \<Rightarrow>
             if rc_Min c \<ge> rc_RequestsPerMinute c then (c, Some MinNotLess)
             else if rc_Max c \<le> rc_RequestsPerMinute c then (c, Some MaxNotGreater)
             else (c, None))"

definition apply_update :: "update_params \<Rightarrow> rate_config \<Rightarrow> rate_config \<times> rate_error option" where
  "apply_update p c0 =
     (let c1 = (case up_Name p of None \<Rightarrow> c0 | Some n \<Rightarrow> c0\<lparr>rc_Name := n\<rparr>);
          c2 = (case up_Strategy p of None \<Rightarrow> c1 | Some st \<Rightarrow> c1\<lparr>rc_Strategy := st\<rparr>);
          ce = set_positive (up_BurstSize p) BurstNotPositive (\<lambda>n c. c\<lparr>rc_BurstSize := n\<rparr>)
                 (set_positive (up_RequestsPerMinute p) RPMNotPositive
                    (\<lambda>n c. c\<lparr>rc_RequestsPerMinute := n\<rparr>) (c2, None))
      in case ce of
           (c, Some e) \<Rightarrow> (c, Some e)
         | (c, None) \<Rightarrow>
             let c3 = (case up_IsActive p of None \<Rightarrow> c | Some a \<Rightarrow> c\<lparr>rc_IsActive := a\<rparr>)
             in if rc_Strategy c3 = AlgorithmAdaptive then update_adaptive p c3 else (c3, None))"

definition update_event_data :: "rate_config \<Rightarrow> (string \<times> event_value) list" where
  "update_event_data c =
     [(''name'', EStr (rc_Name c)), (''type'', EStr (rc_Type c)), (''strategy'', EStr (rc_Strategy c)),
      (''target'', EStr (rc_Target c)), (''requests_per_minute'', EInt (rc_RequestsPerMinute c)),
      (''burst_size'', EInt (rc_BurstSize c)), (''is_active'', EBool (rc_IsActive c))]
     @ (if rc_Strategy c = AlgorithmAdaptive
        then [(''min_requests_per_minute'', EInt (rc_Min c)), (''max_requests_per_minute'', EInt (rc_Max c)),
              (''current_load'', ELoad (rc_Load c))]
        else [])
     @ (case rc_TenantID c of None \<Rightarrow> [] | Some t \<Rightarrow> [(''tenant_id'', EStr t)])"

definition UpdateRateLimit ::
  "env \<Rightarrow> uuid \<Rightarrow> update_params \<Rightarrow> string \<Rightarrow> string \<Rightarrow> 'l rate_service
   \<Rightarrow> (rate_error + rate_config) \<times> 'l rate_service" where
  "UpdateRateLimit en i params actorID actorType s =
     (case mget (rl_store s) i of
        None \<Rightarrow> (Inl LimitNotFound, s)
      | Some config0 \<Rightarrow>
          (case apply_update params config0 of
             (c, Some err) \<Rightarrow> (Inl err, s\<lparr>rl_store := mput i c (rl_store s)\<rparr>)
           | (c, None) \<Rightarrow>
               let config = c\<lparr>rc_UpdatedAt := en_now en\<rparr>;
                   s1 = s\<lparr>rl_configs := mput (makeCacheKey (rc_Type config) (rc_Target config)) (rc_ID config) (rl_configs s),
                          rl_store := mput (rc_ID config) config (mput i config (rl_store s))\<rparr>;
                   s2 = (if rc_Strategy config = AlgorithmAdaptive then s1\<lparr>rl_signal := True\<rparr> else s1)
               in (Inr config, log_event
                    \<lparr>ar_EventType = ''ratelimit.updated'', ar_ActorType = actorType, ar_ActorID = actorID,
                     ar_TenantID = tenant_text (rc_TenantID config), ar_ResourceType = ''ratelimit'',
                     ar_ResourceID = rc_ID config, ar_EventData = update_event_data config\<rparr> s2)))"

section \<open>Deleting and listing\<close>

definition DeleteRateLimit ::
  "uuid \<Rightarrow> string \<Rightarrow> string \<Rightarrow> 'l rate_service \<Rightarrow> rate_error option \<times> 'l rate_service" where
  "DeleteRateLimit i actorID actorType s =
     (case mget (rl_store s) i of
        None \<Rightarrow> (Some LimitNotFound, s)
      | Some config \<Rightarrow>
          let s1 = s\<lparr>rl_configs := mdel (makeCacheKey (rc_Type config) (rc_Target config)) (rl_configs s),
                     rl_store := mdel i (rl_store s)\<rparr>
          in (None, log_event
               \<lparr>ar_EventType = ''ratelimit.deleted'', ar_ActorType = actorType, ar_ActorID = actorID,
                ar_TenantID = tenant_text (rc_TenantID config), ar_ResourceType = ''ratelimit'',
                ar_ResourceID = rc_ID config,
                ar_EventData = [(''name'', EStr (rc_Name config)), (''type'', EStr (rc_Type config)),
                   (''target'', EStr (rc_Target config))]
                   @ (case rc_TenantID config of None \<Rightarrow> [] | Some t \<Rightarrow> [(''tenant_id'', EStr t)])\<rparr> s1))"

text \<open>\<open>order\<close> is the order of the loop over the map by key.\<close>

definition list_configs :: "(rate_config \<Rightarrow> bool) \<Rightarrow> string list \<Rightarrow> 'l rate_service \<Rightarrow> rate_config list" where
  "list_configs P order s =
     filter P (map (\<lambda>k. the (mget (rl_store s) (the (mget (rl_configs s) k))))
       (filter (\<lambda>k. mget (rl_configs s) k \<noteq> None) order))"

definition ListRateLimits :: "string list \<Rightarrow> 'l rate_service \<Rightarrow> rate_config list" where
  "ListRateLimits order s = list_configs (\<lambda>_. True) order s"

definition ListRateLimitsByTenant :: "string list \<Rightarrow> uuid \<Rightarrow> 'l rate_service \<Rightarrow> rate_config list" where
  "ListRateLimitsByTenant order tenantID s = list_configs (\<lambda>c. rc_TenantID c = Some tenantID) order s"

definition ListRateLimitsByType :: "string list \<Rightarrow> string \<Rightarrow> 'l rate_service \<Rightarrow> rate_config list" where
  "ListRateLimitsByType order limitType s = list_configs (\<lambda>c. rc_Type c = limitType) order s"

section \<open>Violations\<close>

definition new_violation :: "env \<Rightarrow> rate_config \<Rightarrow> string \<Rightarrow> int \<Rightarrow> violation" where
  "new_violation en config target threshold =
     (let v = \<lparr>vi_ID = en_newID en, vi_ConfigID = rc_ID config, vi_Type = rc_Type config,
               vi_Target = target, vi_IPAddress = None, vi_UserID = None, vi_TenantID = None,
               vi_APIKeyID = None, vi_Route = [], vi_RequestCount = threshold + 1,
               vi_Threshold = threshold, vi_OccurredAt = en_now en\<rparr>
      in if rc_Type config = RateLimitTypeIP then v\<lparr>vi_IPAddress := en_parse_ip en target\<rparr>
         else if rc_Type config = RateLimitTypeUser then v\<lparr>vi_UserID := en_uuid_parse en target\<rparr>
         else if rc_Type config = RateLimitTypeTenant then v\<lparr>vi_TenantID := en_uuid_parse en target\<rparr>
         else if rc_Type config = RateLimitTypeAPIKey then v\<lparr>vi_APIKeyID := en_uuid_parse en target\<rparr>
         else if rc_Type config = RateLimitTypeRoute then v\<lparr>vi_Route := target\<rparr>
         else v)"

definition push_violation :: "violation \<Rightarrow> 'l rate_service \<Rightarrow> 'l rate_service" where
  "push_violation v s =
     s\<lparr>rl_violations := (rl_violations s)[rl_index s := Some v],
       rl_index := (rl_index s + 1) mod rl_maxViolations s\<rparr>"

definition clamp_load :: "rat \<Rightarrow> rat" where
  "clamp_load l = (if l < 0 then 0 else if l > 1 then 1 else l)"

definition updateAdaptiveLoad :: "uuid \<Rightarrow> rat \<Rightarrow> 'l rate_service \<Rightarrow> 'l rate_service" where
  "updateAdaptiveLoad configID delta s =
     (case mget (rl_store s) configID of
        None \<Rightarrow> s
      | Some config \<Rightarrow>
          if rc_Strategy config \<noteq> AlgorithmAdaptive then s
          else s\<lparr>rl_store := mput configID (config\<lparr>rc_Load := clamp_load (rc_Load config + delta)\<rparr>) (rl_store s),
                 rl_signal := True\<rparr>)"

definition recordViolation ::
  "env \<Rightarrow> rate_config \<Rightarrow> string \<Rightarrow> int \<Rightarrow> 'l rate_service \<Rightarrow> 'l rate_service" where
  "recordViolation en config target threshold s =
     (let s1 = push_violation (new_violation en config target threshold) s
      in if rc_Strategy config = AlgorithmAdaptive then updateAdaptiveLoad (rc_ID config) (1 / 10) s1 else s1)"

text \<open>The loop that reads the buffer backwards, with fuel; \<open>None\<close> would be a loop that has not ended.\<close>

fun recent_loop :: "nat \<Rightarrow> 'v option list \<Rightarrow> nat \<Rightarrow> nat \<Rightarrow> nat \<Rightarrow> 'v list \<Rightarrow> 'v list option" where
  "recent_loop 0 buf start limit idx result = None"
| "recent_loop (Suc fuel) buf start limit idx result =
     (if length result < limit then
        let result' = (case buf ! idx of Some v \<Rightarrow> result @ [v] | None \<Rightarrow> result);
            idx' = (idx + length buf - 1) mod length buf
        in if idx' = start then Some result'
           else recent_loop fuel buf start limit idx' result'
      else Some result)"

definition GetRecentViolations :: "int \<Rightarrow> 'l rate_service \<Rightarrow> violation list option" where
  "GetRecentViolations limit0 s =
     (let limit = (if limit0 \<le> 0 \<or> limit0 > int (rl_maxViolations s) then rl_maxViolations s else nat limit0);
          start = (rl_index s + rl_maxViolations s - 1) mod rl_maxViolations s
      in recent_loop (rl_maxViolations s + 1) (rl_violations s) start limit start [])"

section \<open>Checking\<close>

type_synonym 'l allow = "string \<Rightarrow> 'l \<Rightarrow> bool \<times> rate_info \<times> 'l"

definition no_info :: rate_info where
  "no_info = \<lparr>ri_Limit = 0, ri_Remaining = 0, ri_Reset = 0, ri_RetryAt = 0\<rparr>"

text \<open>\<open>None\<close> is the error for a limit that is not configured.\<close>

definition checkSpecificRateLimit ::
  "'l allow \<Rightarrow> env \<Rightarrow> string \<Rightarrow> string \<Rightarrow> 'l rate_service \<Rightarrow> (bool \<times> rate_info \<times> 'l rate_service) option" where
  "checkSpecificRateLimit Allow en limitType target s =
     (let cacheKey = makeCacheKey limitType target
      in case mget (rl_configs s) cacheKey of
           None \<Rightarrow> None
         | Some i \<Rightarrow>
             (case mget (rl_store s) i of
                None \<Rightarrow> None
              | Some config \<Rightarrow>
                  if \<not> rc_IsActive config then Some (True, no_info, s)
                  else
                    (let (allowed, info, l') = Allow cacheKey (rl_limiter s);
                         s1 = s\<lparr>rl_limiter := l'\<rparr>
                     in Some (allowed, info,
                          if \<not> allowed then recordViolation en config target (ri_Limit info) s1 else s1))))"

record check_params =
  ck_Type :: string
  ck_Target :: string
  ck_TenantID :: "uuid option"
  ck_UserID :: "uuid option"
  ck_IPAddress :: "string option"
  ck_Route :: string

definition CheckRateLimit ::
  "'l allow \<Rightarrow> env \<Rightarrow> check_params \<Rightarrow> 'l rate_service \<Rightarrow> bool \<times> rate_info \<times> 'l rate_service" where
  "CheckRateLimit Allow en p s =
     (let chk = (\<lambda>t x. checkSpecificRateLimit Allow en t x s);
          specific = (if ck_Type p \<noteq> [] \<and> ck_Target p \<noteq> [] then chk (ck_Type p) (ck_Target p) else None)
      in case specific of
           Some r \<Rightarrow> r
         | None \<Rightarrow>
      (case (case ck_TenantID p of Some t \<Rightarrow> chk RateLimitTypeTenant t | None \<Rightarrow> None) of
         Some r \<Rightarrow> r
       | None \<Rightarrow>
      (case (case ck_UserID p of Some u \<Rightarrow> chk RateLimitTypeUser u | None \<Rightarrow> None) of
         Some r \<Rightarrow> r
       | None \<Rightarrow>
      (case (case ck_IPAddress p of Some a \<Rightarrow> chk RateLimitTypeIP a | None \<Rightarrow> None) of
         Some r \<Rightarrow> r
       | None \<Rightarrow>
      (case (if ck_Route p \<noteq> [] then chk RateLimitTypeRoute (ck_Route p) else None) of
         Some r \<Rightarrow> r
       | None \<Rightarrow>
      (case chk RateLimitTypeGlobal [] of
         Some r \<Rightarrow> r
       | None \<Rightarrow> (True, no_info, s)))))))"

section \<open>Adaptive limits\<close>

definition UpdateSystemLoad :: "rat \<Rightarrow> 'l rate_service \<Rightarrow> rate_error option \<times> 'l rate_service" where
  "UpdateSystemLoad load s =
     (if load < 0 \<or> load > 1 then (Some LoadOutOfRange, s)
      else (None, s\<lparr>rl_store := mmap (\<lambda>c. if rc_Strategy c = AlgorithmAdaptive then c\<lparr>rc_Load := load\<rparr> else c) (rl_store s),
                    rl_signal := True\<rparr>))"

text \<open>Conversion of a number to an integer drops the fraction.\<close>

definition truncate_rat :: "rat \<Rightarrow> int" where
  "truncate_rat x = (if x \<ge> 0 then \<lfloor>x\<rfloor> else \<lceil>x\<rceil>)"

definition adaptive_rate :: "rate_config \<Rightarrow> int" where
  "adaptive_rate c =
     truncate_rat (rat_of_int (rc_Min c) + (1 - rc_Load c) * rat_of_int (rc_Max c - rc_Min c))"

definition adapt_config :: "time \<Rightarrow> rate_config \<Rightarrow> rate_config" where
  "adapt_config now c =
     (if rc_Strategy c \<noteq> AlgorithmAdaptive then c
      else (let newRate = adaptive_rate c in
            if newRate \<noteq> rc_RequestsPerMinute c
            then c\<lparr>rc_RequestsPerMinute := newRate, rc_UpdatedAt := now\<rparr> else c))"

definition updateAdaptiveRateLimits :: "time \<Rightarrow> 'l rate_service \<Rightarrow> 'l rate_service" where
  "updateAdaptiveRateLimits now s = s\<lparr>rl_store := mmap (adapt_config now) (rl_store s)\<rparr>"

text \<open>One turn of the background loop: a signal or the ticker.\<close>

definition updater_turn :: "time \<Rightarrow> bool \<Rightarrow> 'l rate_service \<Rightarrow> 'l rate_service" where
  "updater_turn now ticked s =
     (if rl_signal s then updateAdaptiveRateLimits now (s\<lparr>rl_signal := False\<rparr>)
      else if ticked then updateAdaptiveRateLimits now s else s)"

section \<open>The ring buffer\<close>

text \<open>
  What the buffer means: \<open>hist\<close> is the list of all violations ever recorded, newest first; the slot
  \<open>j\<close> places behind the last write holds the \<open>j\<close>-th of them, and slots never written hold nothing.
\<close>

definition behind :: "nat \<Rightarrow> nat \<Rightarrow> nat \<Rightarrow> nat" where
  "behind m i j = (i + m - 1 - j) mod m"

definition ring :: "nat \<Rightarrow> 'v option list \<Rightarrow> nat \<Rightarrow> 'v list \<Rightarrow> bool" where
  "ring m buf i hist \<longleftrightarrow>
     0 < m \<and> length buf = m \<and> i < m
     \<and> (\<forall>j < m. buf ! behind m i j = (if j < length hist then Some (hist ! j) else None))"

lemma ring_empty: "0 < m \<Longrightarrow> ring m (replicate m None) 0 []"
  by (simp add: ring_def behind_def)

lemma mod_eq_small: "x < m \<Longrightarrow> y < m \<Longrightarrow> (x::nat) mod m = y \<longleftrightarrow> x = y"
  by simp

lemma behind_step: "i < m \<Longrightarrow> Suc j < m \<Longrightarrow> behind m ((i + 1) mod m) (Suc j) = behind m i j"
  by (cases "i + 1 = m") (auto simp: behind_def mod_if)

lemma behind_now: "i < m \<Longrightarrow> behind m ((i + 1) mod m) 0 = i"
  by (cases "i + 1 = m") (auto simp: behind_def)

lemma behind_other: "i < m \<Longrightarrow> Suc j < m \<Longrightarrow> behind m i j \<noteq> i"
  by (cases "j < i") (auto simp: behind_def mod_if)

lemma ring_push:
  assumes "ring m buf i hist"
  shows "ring m (buf[i := Some v]) ((i + 1) mod m) (v # hist)"
proof -
  have m: "0 < m" "length buf = m" "i < m" using assms by (auto simp: ring_def)
  have "buf[i := Some v] ! behind m ((i + 1) mod m) j = (if j < length (v # hist) then Some ((v # hist) ! j) else None)"
    if "j < m" for j
  proof (cases j)
    case 0
    then show ?thesis using m by (simp add: behind_now del: One_nat_def)
  next
    case (Suc k)
    then have "behind m ((i + 1) mod m) j = behind m i k" "behind m i k \<noteq> i"
      using behind_step behind_other that m by auto
    with Suc that assms show ?thesis by (auto simp: ring_def)
  qed
  with m show ?thesis by (simp add: ring_def)
qed

lemma behind_pred:
  assumes "i < m" "j < m"
  shows "(behind m i j + m - 1) mod m = (if Suc j = m then behind m i 0 else behind m i (Suc j))"
proof (cases "Suc j = m")
  case True
  then have "behind m i j = i" using assms by (auto simp: behind_def)
  with True show ?thesis by (simp add: behind_def)
next
  case False
  define x where "x = i + m - 1 - j"
  have x: "1 \<le> x" "x < 2 * m" using False assms by (auto simp: x_def)
  have "(x mod m + m - 1) mod m = (x - 1) mod m"
  proof (cases "x < m")
    case True
    then have "x mod m + m - 1 = x - 1 + m" using x by simp
    then show ?thesis by simp
  next
    case False
    then have m: "x mod m = x - m" using x by (simp add: mod_if)
    then have "x mod m + m - 1 = x - 1" using False by simp
    then show ?thesis by simp
  qed
  moreover have "behind m i j = x mod m" "behind m i (Suc j) = (x - 1) mod m"
    by (simp_all add: behind_def x_def)
  ultimately show ?thesis using False by simp
qed

lemma take_of_take: "length (take j xs) \<le> n \<Longrightarrow> n \<le> j \<Longrightarrow> take j xs = take n xs"
  by (metis min_absorb1 take_all take_take)

lemma take_same_length: "length (take j xs) = n \<Longrightarrow> take j xs = take n xs"
  by (metis length_take min.commute min_def nle_le take_all)

lemma recent_loop_reads:
  assumes r: "ring m buf i hist" and "limit \<le> m"
    and "j < m" "length (take j hist) \<le> limit" "m \<le> fuel + j"
  shows "recent_loop (Suc fuel) buf (behind m i 0) limit (behind m i j) (take j hist) = Some (take limit hist)"
  using assms(3-)
proof (induction fuel arbitrary: j)
  case 0
  then show ?case by simp
next
  case (Suc fuel)
  let ?res = "take j hist"
  have m: "length buf = m" "i < m" using r by (auto simp: ring_def)
  show ?case
  proof (cases "length ?res < limit")
    case False
    with Suc.prems have "length ?res = limit" by simp
    with False take_same_length [OF this] show ?thesis by simp
  next
    case True
    let ?r = "case buf ! behind m i j of Some v \<Rightarrow> ?res @ [v] | None \<Rightarrow> ?res"
    have slot: "buf ! behind m i j = (if j < length hist then Some (hist ! j) else None)"
      using r Suc.prems(1) by (simp add: ring_def)
    have step: "?r = take (Suc j) hist"
      using slot by (simp add: take_Suc_conv_app_nth)
    have len: "length (take (Suc j) hist) \<le> limit" using True by simp
    have next_idx: "(behind m i j + length buf - 1) mod length buf
        = (if Suc j = m then behind m i 0 else behind m i (Suc j))"
      using behind_pred [OF m(2) Suc.prems(1)] m by simp
    have unfold: "recent_loop (Suc (Suc fuel)) buf (behind m i 0) limit (behind m i j) ?res =
       (let idx' = (behind m i j + length buf - 1) mod length buf
        in if idx' = behind m i 0 then Some (take (Suc j) hist)
           else recent_loop (Suc fuel) buf (behind m i 0) limit idx' (take (Suc j) hist))"
      using True step by (simp only: recent_loop.simps(2) [of "Suc fuel"] Let_def if_True)
    show ?thesis
    proof (cases "Suc j = m")
      case last: True
      have "take (Suc j) hist = take limit hist" using take_of_take [OF len] last assms(2) by simp
      then show ?thesis unfolding unfold next_idx by (simp add: last)
    next
      case more: False
      have ne: "behind m i (Suc j) \<noteq> behind m i 0"
        using more Suc.prems(1) m by (cases "i = 0"; cases "Suc j < i") (auto simp: behind_def mod_if)
      have "recent_loop (Suc fuel) buf (behind m i 0) limit (behind m i (Suc j)) (take (Suc j) hist)
          = Some (take limit hist)"
        using more Suc.prems len by (intro Suc.IH) auto
      then show ?thesis unfolding unfold next_idx using more ne by (simp only: if_False Let_def)
    qed
  qed
qed

section \<open>The service's invariant\<close>

abbreviation config_key :: "rate_config \<Rightarrow> string" where
  "config_key c \<equiv> makeCacheKey (rc_Type c) (rc_Target c)"

definition rate_inv :: "'l rate_service \<Rightarrow> bool" where
  "rate_inv s \<longleftrightarrow>
     wfmap (rl_configs s) \<and> wfmap (rl_store s)
     \<and> (\<forall>i c. mget (rl_store s) i = Some c \<longrightarrow> rc_ID c = i)
     \<and> (\<forall>k i. mget (rl_configs s) k = Some i \<longrightarrow> map_option config_key (mget (rl_store s) i) = Some k)"

definition same_key :: "rate_config \<Rightarrow> rate_config \<Rightarrow> bool" where
  "same_key c c' \<longleftrightarrow> rc_ID c' = rc_ID c \<and> rc_Type c' = rc_Type c \<and> rc_Target c' = rc_Target c"

lemma rate_inv_new: "rate_inv (NewRateLimitService l)"
  by (simp add: rate_inv_def NewRateLimitService_def)

lemma rate_inv_frame [simp]:
  "rate_inv (log_event ev s) = rate_inv s" "rate_inv (s\<lparr>rl_signal := b\<rparr>) = rate_inv s"
  "rate_inv (s\<lparr>rl_limiter := l\<rparr>) = rate_inv s" "rate_inv (push_violation v s) = rate_inv s"
  by (simp_all add: rate_inv_def log_event_def push_violation_def)

lemma rate_inv_key:
  assumes "rate_inv s" "mget (rl_configs s) k = Some i"
  obtains c where "mget (rl_store s) i = Some c" "config_key c = k"
proof -
  have "map_option config_key (mget (rl_store s) i) = Some k"
    using assms unfolding rate_inv_def by blast
  then show ?thesis using that by (cases "mget (rl_store s) i") auto
qed

lemma rate_inv_set:
  assumes "rate_inv s" "mget (rl_store s) i = Some c" "same_key c c'"
  shows "rate_inv (s\<lparr>rl_store := mput i c' (rl_store s)\<rparr>)"
proof -
  have "map_option config_key (mget (mput i c' (rl_store s)) j) = Some k"
    if "mget (rl_configs s) k = Some j" for k j
  proof -
    from rate_inv_key [OF assms(1) that] obtain c0 where "mget (rl_store s) j = Some c0" "config_key c0 = k" .
    with assms(2,3) show ?thesis by (cases "j = i") (simp_all add: mget_mput same_key_def)
  qed
  with assms show ?thesis unfolding rate_inv_def
    by (auto simp: mget_mput wfmap_mput same_key_def simp del: map_option_eq_Some)
qed

lemma rate_inv_put:
  assumes "rate_inv s" "rc_ID c = i" "\<And>c0. mget (rl_store s) i = Some c0 \<Longrightarrow> same_key c0 c"
  shows "rate_inv (s\<lparr>rl_configs := mput (config_key c) i (rl_configs s), rl_store := mput i c (rl_store s)\<rparr>)"
proof -
  have "map_option config_key (mget (mput i c (rl_store s)) j) = Some k"
    if k: "mget (mput (config_key c) i (rl_configs s)) k = Some j" for k j
  proof (cases "j = i")
    case True
    show ?thesis
    proof (cases "k = config_key c")
      case False
      with k True have "mget (rl_configs s) k = Some i" by (simp add: mget_mput)
      from rate_inv_key [OF assms(1) this] obtain c0 where
        "mget (rl_store s) i = Some c0" "config_key c0 = k" by blast
      with assms(3) True show ?thesis by (auto simp: mget_mput same_key_def)
    qed (simp add: True mget_mput)
  next
    case False
    with k have "mget (rl_configs s) k = Some j" by (auto simp: mget_mput split: if_splits)
    from rate_inv_key [OF assms(1) this] obtain c0 where "mget (rl_store s) j = Some c0" "config_key c0 = k" .
    with False show ?thesis by (simp add: mget_mput)
  qed
  with assms(1,2) show ?thesis unfolding rate_inv_def
    by (auto simp: mget_mput [of i c] wfmap_mput simp del: map_option_eq_Some)
qed

lemma rate_inv_mmap:
  assumes "rate_inv s" "\<And>c. same_key c (f c)"
  shows "rate_inv (s\<lparr>rl_store := mmap f (rl_store s)\<rparr>)"
  using assms unfolding rate_inv_def same_key_def
  by (auto simp: mget_mmap wfmap_mmap option.map_comp comp_def)

lemma set_positive_same:
  assumes "same_key c0 (fst ce)" "\<And>n c. same_key c (f n c)"
  shows "same_key c0 (fst (set_positive v err f ce))"
  using assms unfolding set_positive_def same_key_def
  by (auto split: prod.splits option.splits)

lemma update_adaptive_same: "same_key c0 c \<Longrightarrow> same_key c0 (fst (update_adaptive p c))"
proof -
  assume a: "same_key c0 c"
  have "same_key c0 (fst (set_positive (up_Max p) MaxNotPositive (\<lambda>n c. c\<lparr>rc_Max := n\<rparr>)
                 (set_positive (up_Min p) MinNotPositive (\<lambda>n c. c\<lparr>rc_Min := n\<rparr>) (c, None))))"
    by (intro set_positive_same) (use a in \<open>simp_all add: same_key_def\<close>)
  then show "same_key c0 (fst (update_adaptive p c))"
    by (auto simp: update_adaptive_def Let_def split: prod.splits option.splits)
qed

lemma apply_update_same: "same_key c (fst (apply_update p c))"
proof -
  define c2 where "c2 = (let c1 = (case up_Name p of None \<Rightarrow> c | Some n \<Rightarrow> c\<lparr>rc_Name := n\<rparr>)
    in case up_Strategy p of None \<Rightarrow> c1 | Some st \<Rightarrow> c1\<lparr>rc_Strategy := st\<rparr>)"
  define ce where "ce = set_positive (up_BurstSize p) BurstNotPositive (\<lambda>n c. c\<lparr>rc_BurstSize := n\<rparr>)
                 (set_positive (up_RequestsPerMinute p) RPMNotPositive
                    (\<lambda>n c. c\<lparr>rc_RequestsPerMinute := n\<rparr>) (c2, None))"
  have "same_key c c2" by (auto simp: c2_def same_key_def Let_def split: option.splits)
  then have 1: "same_key c (fst ce)"
    unfolding ce_def by (intro set_positive_same) (simp_all add: same_key_def)
  have a: "apply_update p c = (case ce of (c, Some e) \<Rightarrow> (c, Some e)
     | (c, None) \<Rightarrow>
             let c3 = (case up_IsActive p of None \<Rightarrow> c | Some a \<Rightarrow> c\<lparr>rc_IsActive := a\<rparr>)
             in if rc_Strategy c3 = AlgorithmAdaptive then update_adaptive p c3 else (c3, None))"
    by (simp only: apply_update_def ce_def c2_def Let_def)
  obtain cc e where ce: "ce = (cc, e)" by (cases ce)
  define c3 where "c3 = (case up_IsActive p of None \<Rightarrow> cc | Some a \<Rightarrow> cc\<lparr>rc_IsActive := a\<rparr>)"
  have "same_key c c3" using 1 ce by (auto simp: c3_def same_key_def split: option.splits)
  then show ?thesis using 1 ce update_adaptive_same [of c c3 p]
    by (cases e) (auto simp: a c3_def Let_def)
qed

lemma CreateRateLimit_inv:
  assumes "rate_inv s" "CreateRateLimit en p a t s = Inr (c, s')" "mget (rl_store s) (en_newID en) = None"
  shows "rate_inv s'"
proof -
  have "\<exists>ev. s' = log_event ev (s\<lparr>rl_configs := mput (config_key c) (en_newID en) (rl_configs s),
                       rl_store := mput (en_newID en) c (rl_store s)\<rparr>)"
    and id: "rc_ID c = en_newID en"
    using assms(2) by (auto simp: CreateRateLimit_def Let_def split: sum.splits)
  then obtain ev where s': "s' = log_event ev (s\<lparr>rl_configs := mput (config_key c) (en_newID en) (rl_configs s),
                       rl_store := mput (en_newID en) c (rl_store s)\<rparr>)" by blast
  have "rate_inv (s\<lparr>rl_configs := mput (config_key c) (en_newID en) (rl_configs s),
                       rl_store := mput (en_newID en) c (rl_store s)\<rparr>)"
    by (rule rate_inv_put) (use assms id in simp_all)
  with s' show ?thesis by simp
qed

lemma UpdateRateLimit_inv:
  assumes "rate_inv s"
  shows "rate_inv (snd (UpdateRateLimit en i p a t s))"
proof (cases "mget (rl_store s) i")
  case None
  with assms show ?thesis by (simp add: UpdateRateLimit_def)
next
  case (Some c0)
  obtain c e where u: "apply_update p c0 = (c, e)" by fastforce
  have sk: "same_key c0 c" using apply_update_same [of c0 p] u by simp
  have id: "rc_ID c0 = i" using assms Some by (auto simp: rate_inv_def)
  show ?thesis
  proof (cases e)
    case (Some err)
    with u \<open>mget (rl_store s) i = Some c0\<close> rate_inv_set [OF assms \<open>mget (rl_store s) i = Some c0\<close> sk]
    show ?thesis by (simp add: UpdateRateLimit_def)
  next
    case none: None
    define c' where "c' = c\<lparr>rc_UpdatedAt := en_now en\<rparr>"
    have sk': "same_key c0 c'" "rc_ID c' = i" using sk id by (simp_all add: c'_def same_key_def)
    define s1 where "s1 = s\<lparr>rl_configs := mput (config_key c') (rc_ID c') (rl_configs s),
                          rl_store := mput (rc_ID c') c' (mput i c' (rl_store s))\<rparr>"
    have "rate_inv s1"
      using rate_inv_put [OF assms sk'(2)] Some sk' by (simp add: s1_def)
    moreover have "\<exists>ev. snd (UpdateRateLimit en i p a t s)
        = log_event ev (if rc_Strategy c' = AlgorithmAdaptive then s1\<lparr>rl_signal := True\<rparr> else s1)"
      using Some u none by (auto simp: UpdateRateLimit_def Let_def c'_def s1_def)
    ultimately show ?thesis by (elim exE) simp
  qed
qed

lemma DeleteRateLimit_inv:
  assumes "rate_inv s"
  shows "rate_inv (snd (DeleteRateLimit i a t s))"
proof (cases "mget (rl_store s) i")
  case None
  with assms show ?thesis by (simp add: DeleteRateLimit_def)
next
  case (Some c)
  have "rate_inv (s\<lparr>rl_configs := mdel (config_key c) (rl_configs s), rl_store := mdel i (rl_store s)\<rparr>)"
  proof -
    have "map_option config_key (mget (mdel i (rl_store s)) j) = Some k"
      if "mget (mdel (config_key c) (rl_configs s)) k = Some j" for k j
    proof -
      from that have "mget (rl_configs s) k = Some j" "k \<noteq> config_key c"
        by (auto simp: mget_mdel split: if_splits)
      moreover from rate_inv_key [OF assms this(1)] obtain c0 where
        "mget (rl_store s) j = Some c0" "config_key c0 = k" .
      ultimately show ?thesis using Some by (cases "j = i") (simp_all add: mget_mdel)
    qed
    with assms show ?thesis unfolding rate_inv_def
      by (auto simp: mget_mdel [of i] wfmap_mdel simp del: map_option_eq_Some)
  qed
  with Some show ?thesis by (simp add: DeleteRateLimit_def Let_def)
qed

lemma updateAdaptiveLoad_inv: "rate_inv s \<Longrightarrow> rate_inv (updateAdaptiveLoad i d s)"
  using rate_inv_set [of s i]
  by (auto simp: updateAdaptiveLoad_def same_key_def split: option.splits)

lemma recordViolation_inv: "rate_inv s \<Longrightarrow> rate_inv (recordViolation en c target n s)"
  by (simp add: recordViolation_def updateAdaptiveLoad_inv Let_def)

section \<open>Which limit decides\<close>

text \<open>The limits that may apply to a request, in the order in which they are tried.\<close>

definition candidates :: "check_params \<Rightarrow> (string \<times> string) list" where
  "candidates p =
     (if ck_Type p \<noteq> [] \<and> ck_Target p \<noteq> [] then [(ck_Type p, ck_Target p)] else [])
     @ (case ck_TenantID p of Some t \<Rightarrow> [(RateLimitTypeTenant, t)] | None \<Rightarrow> [])
     @ (case ck_UserID p of Some u \<Rightarrow> [(RateLimitTypeUser, u)] | None \<Rightarrow> [])
     @ (case ck_IPAddress p of Some a \<Rightarrow> [(RateLimitTypeIP, a)] | None \<Rightarrow> [])
     @ (if ck_Route p \<noteq> [] then [(RateLimitTypeRoute, ck_Route p)] else [])
     @ [(RateLimitTypeGlobal, [])]"

definition configured :: "'l rate_service \<Rightarrow> string \<times> string \<Rightarrow> bool" where
  "configured s tx \<longleftrightarrow> mget (rl_configs s) (makeCacheKey (fst tx) (snd tx)) \<noteq> None"

fun first_some :: "('a \<Rightarrow> 'b option) \<Rightarrow> 'a list \<Rightarrow> 'b option" where
  "first_some f [] = None"
| "first_some f (x # xs) = (case f x of Some r \<Rightarrow> Some r | None \<Rightarrow> first_some f xs)"

lemma first_some_append:
  "first_some f (xs @ ys) = (case first_some f xs of Some r \<Rightarrow> Some r | None \<Rightarrow> first_some f ys)"
  by (induction xs) (auto split: option.splits)

lemma first_some_pieces:
  "first_some f [x] = f x"
  "first_some f (if b then [x] else []) = (if b then f x else None)"
  "first_some f (case opt of Some y \<Rightarrow> [g y] | None \<Rightarrow> []) = (case opt of Some y \<Rightarrow> f (g y) | None \<Rightarrow> None)"
  by (auto split: option.splits)

lemma first_some_chain:
  "(case (case a of Some r \<Rightarrow> Some r | None \<Rightarrow> b) of Some r \<Rightarrow> r | None \<Rightarrow> d)
     = (case a of Some r \<Rightarrow> r | None \<Rightarrow> (case b of Some r \<Rightarrow> r | None \<Rightarrow> d))"
  by (cases a) auto

lemma CheckRateLimit_first_some:
  "CheckRateLimit Allow en p s =
     (case first_some (\<lambda>(t, x). checkSpecificRateLimit Allow en t x s) (candidates p) of
        Some r \<Rightarrow> r | None \<Rightarrow> (True, no_info, s))"
  unfolding CheckRateLimit_def candidates_def Let_def first_some_append first_some_chain first_some_pieces
    prod.case ..

lemma checkSpecific_None:
  assumes "rate_inv s"
  shows "checkSpecificRateLimit Allow en t x s = None \<longleftrightarrow> \<not> configured s (t, x)"
proof (cases "mget (rl_configs s) (makeCacheKey t x)")
  case None
  then show ?thesis by (simp add: checkSpecificRateLimit_def configured_def Let_def)
next
  case (Some i)
  from rate_inv_key [OF assms Some] obtain c where "mget (rl_store s) i = Some c" .
  with Some show ?thesis
    by (auto simp: checkSpecificRateLimit_def configured_def Let_def case_prod_unfold)
qed

lemma first_some_find:
  "(\<And>x. f x = None \<longleftrightarrow> \<not> P x) \<Longrightarrow>
   first_some f xs = (case find P xs of Some x \<Rightarrow> f x | None \<Rightarrow> None)"
proof (induction xs)
  case (Cons x xs)
  show ?case
  proof (cases "P x")
    case True
    then have "f x \<noteq> None" using Cons.prems [of x] by blast
    with True show ?thesis by auto
  next
    case False
    then have "f x = None" using Cons.prems [of x] by blast
    moreover have "first_some f xs = (case find P xs of Some x \<Rightarrow> f x | None \<Rightarrow> None)"
      by (rule Cons.IH) (rule Cons.prems)
    ultimately show ?thesis using False by simp
  qed
qed simp

lemma CheckRateLimit_find:
  assumes "rate_inv s"
  shows "CheckRateLimit Allow en p s =
     (case find (configured s) (candidates p) of
        Some (t, x) \<Rightarrow> the (checkSpecificRateLimit Allow en t x s) | None \<Rightarrow> (True, no_info, s))"
proof -
  have "first_some (\<lambda>(t, x). checkSpecificRateLimit Allow en t x s) (candidates p) =
      (case find (configured s) (candidates p) of
         Some tx \<Rightarrow> (case tx of (t, x) \<Rightarrow> checkSpecificRateLimit Allow en t x s) | None \<Rightarrow> None)"
    by (rule first_some_find) (use checkSpecific_None [OF assms] in \<open>auto simp: case_prod_unfold\<close>)
  moreover have "find (configured s) (candidates p) = Some (t, x) \<Longrightarrow>
      checkSpecificRateLimit Allow en t x s \<noteq> None" for t x
    using checkSpecific_None [OF assms, of Allow en t x] by (auto simp: find_Some_iff)
  ultimately show ?thesis
    by (auto simp: CheckRateLimit_first_some split: option.splits)
qed

lemma checkSpecific_Some:
  assumes "mget (rl_configs s) (makeCacheKey t x) = Some i" "mget (rl_store s) i = Some c"
  shows "checkSpecificRateLimit Allow en t x s =
     Some (if \<not> rc_IsActive c then (True, no_info, s)
           else (let (al, info, l') = Allow (makeCacheKey t x) (rl_limiter s)
                 in (al, info, if al then s\<lparr>rl_limiter := l'\<rparr>
                               else recordViolation en c x (ri_Limit info) (s\<lparr>rl_limiter := l'\<rparr>))))"
  using assms by (simp add: checkSpecificRateLimit_def Let_def case_prod_unfold)

section \<open>Runs of the service\<close>

text \<open>The states the operations reach, each with the list of all violations so far, newest first.\<close>

inductive rate_run :: "'l allow \<Rightarrow> 'l rate_service \<Rightarrow> violation list \<Rightarrow> bool" for Allow where
  run_new: "rate_run Allow (NewRateLimitService l) []"
| run_create: "rate_run Allow s h \<Longrightarrow> mget (rl_store s) (en_newID en) = None \<Longrightarrow>
    CreateRateLimit en p a t s = Inr (c, s') \<Longrightarrow> rate_run Allow s' h"
| run_update: "rate_run Allow s h \<Longrightarrow> rate_run Allow (snd (UpdateRateLimit en i u a t s)) h"
| run_delete: "rate_run Allow s h \<Longrightarrow> rate_run Allow (snd (DeleteRateLimit i a t s)) h"
| run_load: "rate_run Allow s h \<Longrightarrow> rate_run Allow (snd (UpdateSystemLoad load s)) h"
| run_adapt: "rate_run Allow s h \<Longrightarrow> rate_run Allow (updater_turn now ticked s) h"
| run_allowed: "rate_run Allow s h \<Longrightarrow> CheckRateLimit Allow en p s = (True, info, s') \<Longrightarrow> rate_run Allow s' h"
| run_denied: "rate_run Allow s h \<Longrightarrow> CheckRateLimit Allow en p s = (False, info, s') \<Longrightarrow>
    find (configured s) (candidates p) = Some (t, x) \<Longrightarrow>
    mget (rl_configs s) (makeCacheKey t x) = Some i \<Longrightarrow> mget (rl_store s) i = Some c \<Longrightarrow>
    rate_run Allow s' (new_violation en c x (ri_Limit info) # h)"

definition service_ring :: "'l rate_service \<Rightarrow> violation list \<Rightarrow> bool" where
  "service_ring s h \<longleftrightarrow> rl_maxViolations s = 1000 \<and> ring 1000 (rl_violations s) (rl_index s) h"

lemma service_ring_new: "service_ring (NewRateLimitService l) []"
  unfolding service_ring_def NewRateLimitService_def using ring_empty [of 1000] by simp

lemma service_ring_frame:
  "rl_violations s' = rl_violations s \<Longrightarrow> rl_index s' = rl_index s \<Longrightarrow>
   rl_maxViolations s' = rl_maxViolations s \<Longrightarrow> service_ring s' h = service_ring s h"
  by (simp add: service_ring_def)

lemma updateAdaptiveLoad_frame [simp]:
  "rl_violations (updateAdaptiveLoad i d s) = rl_violations s"
  "rl_index (updateAdaptiveLoad i d s) = rl_index s"
  "rl_maxViolations (updateAdaptiveLoad i d s) = rl_maxViolations s"
  by (auto simp: updateAdaptiveLoad_def split: option.splits)

lemma recordViolation_ring:
  assumes "service_ring s h"
  shows "service_ring (recordViolation en c x n s) (new_violation en c x n # h)"
proof -
  let ?s1 = "push_violation (new_violation en c x n) s"
  have "service_ring ?s1 (new_violation en c x n # h)"
    using assms ring_push [of 1000 "rl_violations s" "rl_index s" h "new_violation en c x n"]
    by (simp add: service_ring_def push_violation_def)
  then show ?thesis
    by (auto simp: recordViolation_def Let_def service_ring_frame
        [of "updateAdaptiveLoad (rc_ID c) (1 / 10) ?s1" ?s1])
qed

lemma check_cases:
  assumes "rate_inv s" "CheckRateLimit Allow en p s = (al, info, s')"
  obtains (free) "find (configured s) (candidates p) = None" "al" "s' = s" "info = no_info"
  | (inactive) t x i c where "find (configured s) (candidates p) = Some (t, x)"
      "mget (rl_configs s) (makeCacheKey t x) = Some i" "mget (rl_store s) i = Some c"
      "\<not> rc_IsActive c" "al" "s' = s" "info = no_info"
  | (active) t x i c l' where "find (configured s) (candidates p) = Some (t, x)"
      "mget (rl_configs s) (makeCacheKey t x) = Some i" "mget (rl_store s) i = Some c"
      "rc_IsActive c" "Allow (makeCacheKey t x) (rl_limiter s) = (al, info, l')"
      "s' = (if al then s\<lparr>rl_limiter := l'\<rparr>
             else recordViolation en c x (ri_Limit info) (s\<lparr>rl_limiter := l'\<rparr>))"
proof (cases "find (configured s) (candidates p)")
  case None
  with assms CheckRateLimit_find [OF assms(1), of Allow en p] show ?thesis by (intro free) auto
next
  case (Some tx)
  obtain t x where tx: "tx = (t, x)" by (cases tx)
  have "configured s (t, x)" using Some tx by (auto simp: find_Some_iff)
  then obtain i where i: "mget (rl_configs s) (makeCacheKey t x) = Some i" by (auto simp: configured_def)
  from rate_inv_key [OF assms(1) i] obtain c where c: "mget (rl_store s) i = Some c" .
  have r: "(al, info, s') = (if \<not> rc_IsActive c then (True, no_info, s)
           else (let (al, info, l') = Allow (makeCacheKey t x) (rl_limiter s)
                 in (al, info, if al then s\<lparr>rl_limiter := l'\<rparr>
                               else recordViolation en c x (ri_Limit info) (s\<lparr>rl_limiter := l'\<rparr>))))"
    using assms(2) CheckRateLimit_find [OF assms(1), of Allow en p] Some tx checkSpecific_Some [OF i c]
    by simp
  show ?thesis
  proof (cases "rc_IsActive c")
    case True
    obtain a inf l' where a: "Allow (makeCacheKey t x) (rl_limiter s) = (a, inf, l')" by (metis prod.exhaust)
    show ?thesis using r True a Some tx i c by (intro active [of t x i c l']) auto
  next
    case False
    then show ?thesis using r Some tx i c by (intro inactive [of t x i c]) auto
  qed
qed

lemma updater_turn_inv: "rate_inv s \<Longrightarrow> rate_inv (updater_turn now b s)"
proof -
  assume inv: "rate_inv s"
  have "same_key c (adapt_config now c)" for c by (simp add: same_key_def adapt_config_def Let_def)
  then have "rate_inv s0 \<Longrightarrow> rate_inv (updateAdaptiveRateLimits now s0)" for s0 :: "'a rate_service"
    unfolding updateAdaptiveRateLimits_def by (intro rate_inv_mmap)
  with inv show ?thesis by (simp add: updater_turn_def)
qed

lemma UpdateSystemLoad_inv: "rate_inv s \<Longrightarrow> rate_inv (snd (UpdateSystemLoad load s))"
proof -
  assume inv: "rate_inv s"
  let ?f = "\<lambda>c. if rc_Strategy c = AlgorithmAdaptive then c\<lparr>rc_Load := load\<rparr> else c"
  have "rate_inv (s\<lparr>rl_store := mmap ?f (rl_store s)\<rparr>)"
    by (rule rate_inv_mmap [OF inv]) (simp add: same_key_def)
  then have "rate_inv (s\<lparr>rl_store := mmap ?f (rl_store s)\<rparr>\<lparr>rl_signal := True\<rparr>)" by simp
  with inv show ?thesis by (simp add: UpdateSystemLoad_def)
qed

lemma rate_run_inv: "rate_run Allow s h \<Longrightarrow> rate_inv s \<and> service_ring s h"
proof (induction rule: rate_run.induct)
  case (run_new l)
  then show ?case by (simp add: rate_inv_new service_ring_new)
next
  case (run_create s h en p a t c s')
  then have "rl_violations s' = rl_violations s" "rl_index s' = rl_index s" "rl_maxViolations s' = rl_maxViolations s"
    by (auto simp: CreateRateLimit_def Let_def log_event_def split: sum.splits)
  with run_create CreateRateLimit_inv service_ring_frame show ?case by metis
next
  case (run_update s h en i u a t)
  have "rl_violations (snd (UpdateRateLimit en i u a t s)) = rl_violations s"
    "rl_index (snd (UpdateRateLimit en i u a t s)) = rl_index s"
    "rl_maxViolations (snd (UpdateRateLimit en i u a t s)) = rl_maxViolations s"
    by (auto simp: UpdateRateLimit_def Let_def log_event_def split: option.splits prod.splits)
  with run_update UpdateRateLimit_inv service_ring_frame show ?case by metis
next
  case (run_delete s h i a t)
  have "rl_violations (snd (DeleteRateLimit i a t s)) = rl_violations s"
    "rl_index (snd (DeleteRateLimit i a t s)) = rl_index s"
    "rl_maxViolations (snd (DeleteRateLimit i a t s)) = rl_maxViolations s"
    by (auto simp: DeleteRateLimit_def Let_def log_event_def split: option.splits)
  with run_delete DeleteRateLimit_inv service_ring_frame show ?case by metis
next
  case (run_load s h load)
  have "rl_violations (snd (UpdateSystemLoad load s)) = rl_violations s"
    "rl_index (snd (UpdateSystemLoad load s)) = rl_index s"
    "rl_maxViolations (snd (UpdateSystemLoad load s)) = rl_maxViolations s"
    by (auto simp: UpdateSystemLoad_def)
  with run_load UpdateSystemLoad_inv service_ring_frame show ?case by metis
next
  case (run_adapt s h now ticked)
  have "rl_violations (updater_turn now ticked s) = rl_violations s"
    "rl_index (updater_turn now ticked s) = rl_index s"
    "rl_maxViolations (updater_turn now ticked s) = rl_maxViolations s"
    by (auto simp: updater_turn_def updateAdaptiveRateLimits_def)
  with run_adapt updater_turn_inv service_ring_frame show ?case by metis
next
  case (run_allowed s h en p info s')
  then have inv: "rate_inv s" and ring: "service_ring s h" by auto
  from inv run_allowed.hyps(2) show ?case
    by (cases rule: check_cases) (use inv ring in \<open>auto simp: service_ring_def\<close>)
next
  case (run_denied s h en p info s' t x i c)
  then have inv: "rate_inv s" and ring: "service_ring s h" by auto
  from inv run_denied.hyps(2) show ?case
  proof (cases rule: check_cases)
    case (active t' x' i' c' l')
    then have s': "s' = recordViolation en c x (ri_Limit info) (s\<lparr>rl_limiter := l'\<rparr>)"
      using run_denied.hyps by auto
    have "service_ring (s\<lparr>rl_limiter := l'\<rparr>) h" using ring by (simp add: service_ring_def)
    then show ?thesis unfolding s'
      by (intro conjI recordViolation_inv recordViolation_ring) (simp_all add: inv)
  qed auto
qed

section \<open>Properties\<close>

text \<open>In every state the operations reach, reading the recent violations ends, and gives the
  newest violations of the whole history, newest first: as many as asked for, or all that the
  buffer of one thousand holds when the number asked for is out of range.\<close>

lemma GetRecentViolations_newest:
  assumes "rate_run Allow s h"
  shows "GetRecentViolations n s = Some (take (if n \<le> 0 \<or> n > 1000 then 1000 else nat n) h)"
proof -
  have sr: "rl_maxViolations s = 1000" and r: "ring 1000 (rl_violations s) (rl_index s) h"
    using rate_run_inv [OF assms] by (auto simp: service_ring_def)
  define limit where "limit = (if n \<le> 0 \<or> n > 1000 then 1000 else nat n)"
  have lim: "limit \<le> 1000" by (auto simp: limit_def)
  have "GetRecentViolations n s = recent_loop (Suc 1000) (rl_violations s)
      (behind 1000 (rl_index s) 0) limit (behind 1000 (rl_index s) 0) (take 0 h)"
    using sr by (simp add: GetRecentViolations_def Let_def behind_def limit_def del: recent_loop.simps)
  also have "\<dots> = Some (take limit h)"
    by (rule recent_loop_reads [OF r lim]) simp_all
  finally show ?thesis by (simp add: limit_def)
qed

text \<open>The first configured limit among the candidates of a request (specific, tenant, user, IP,
  route, global, in this order) decides alone. An inactive one allows the request; an active one
  asks the rate limiter under its key, once, and a refusal is recorded as a violation of that
  limit. With no configured limit the request is allowed and nothing changes.\<close>

lemma CheckRateLimit_decides:
  assumes "rate_run Allow s h" "CheckRateLimit Allow en p s = (al, info, s')"
  shows "case find (configured s) (candidates p) of
      None \<Rightarrow> al \<and> s' = s
    | Some (t, x) \<Rightarrow>
        (\<exists>i c. mget (rl_configs s) (makeCacheKey t x) = Some i \<and> mget (rl_store s) i = Some c
           \<and> (if rc_IsActive c
              then (\<exists>l'. Allow (makeCacheKey t x) (rl_limiter s) = (al, info, l')
                     \<and> s' = (if al then s\<lparr>rl_limiter := l'\<rparr>
                             else recordViolation en c x (ri_Limit info) (s\<lparr>rl_limiter := l'\<rparr>)))
              else al \<and> s' = s))"
proof -
  have "rate_inv s" using rate_run_inv [OF assms(1)] by simp
  from this assms(2) show ?thesis by (cases rule: check_cases) auto
qed

text \<open>The configured rate and burst of a limit have no influence on any decision: changing them
  in all configurations in any way changes neither the answer nor the information of a check.\<close>

lemma configured_rates_not_enforced:
  fixes f g :: "rate_config \<Rightarrow> int"
  assumes "rate_inv s"
  defines "s2 \<equiv> s\<lparr>rl_store := mmap (\<lambda>c. c\<lparr>rc_RequestsPerMinute := f c, rc_BurstSize := g c\<rparr>) (rl_store s)\<rparr>"
  shows "fst (CheckRateLimit Allow en p s2) = fst (CheckRateLimit Allow en p s)
    \<and> fst (snd (CheckRateLimit Allow en p s2)) = fst (snd (CheckRateLimit Allow en p s))"
proof -
  let ?h = "\<lambda>c. c\<lparr>rc_RequestsPerMinute := f c, rc_BurstSize := g c\<rparr>"
  have inv2: "rate_inv s2"
    unfolding s2_def by (rule rate_inv_mmap [OF assms(1)]) (simp add: same_key_def)
  have conf: "configured s2 = configured s" by (rule ext) (simp add: configured_def s2_def)
  show ?thesis
  proof (cases "find (configured s) (candidates p)")
    case None
    then show ?thesis
      by (simp add: CheckRateLimit_find [OF assms(1)] CheckRateLimit_find [OF inv2] conf)
  next
    case (Some tx)
    obtain t x where tx: "tx = (t, x)" by (cases tx)
    have "configured s (t, x)" using Some tx by (auto simp: find_Some_iff)
    then obtain i where i: "mget (rl_configs s) (makeCacheKey t x) = Some i" by (auto simp: configured_def)
    from rate_inv_key [OF assms(1) i] obtain c where c: "mget (rl_store s) i = Some c" .
    have i2: "mget (rl_configs s2) (makeCacheKey t x) = Some i" using i by (simp add: s2_def)
    have c2: "mget (rl_store s2) i = Some (?h c)" using c by (simp add: s2_def mget_mmap)
    have lim: "rl_limiter s2 = rl_limiter s" by (simp add: s2_def)
    show ?thesis
      using Some tx
      by (simp add: CheckRateLimit_find [OF assms(1)] CheckRateLimit_find [OF inv2] conf lim
          checkSpecific_Some [OF i c] checkSpecific_Some [OF i2 c2] case_prod_unfold Let_def)
  qed
qed

lemma adaptive_rate_bounds:
  assumes "0 \<le> rc_Load c" "rc_Load c \<le> 1" "0 \<le> rc_Min c" "rc_Min c \<le> rc_Max c"
  shows "rc_Min c \<le> adaptive_rate c \<and> adaptive_rate c \<le> rc_Max c"
proof -
  let ?d = "rat_of_int (rc_Max c - rc_Min c)"
  let ?x = "rat_of_int (rc_Min c) + (1 - rc_Load c) * ?d"
  have d: "0 \<le> ?d" using assms(4) by simp
  have lo: "rat_of_int (rc_Min c) \<le> ?x" using assms(2) d by simp
  have "(1 - rc_Load c) * ?d \<le> 1 * ?d" using assms(1) d by (intro mult_right_mono) auto
  then have hi: "?x \<le> rat_of_int (rc_Max c)" by simp
  have "0 \<le> ?x" using lo assms(3) by (meson of_int_0_le_iff order_trans)
  then have r: "adaptive_rate c = \<lfloor>?x\<rfloor>" unfolding adaptive_rate_def truncate_rat_def by (simp only: if_True)
  have "rc_Min c \<le> \<lfloor>?x\<rfloor>" using lo by (simp only: le_floor_iff)
  moreover have "\<lfloor>?x\<rfloor> \<le> rc_Max c" using floor_mono [OF hi] by (simp only: floor_of_int)
  ultimately show ?thesis unfolding r by blast
qed

text \<open>An adaptive update leaves the rate of every adaptive limit whose load is between zero and
  one within the limit's minimum and maximum: the maximum at load zero, the minimum at load one.
  Limits of any other strategy are not changed.\<close>

lemma adaptive_update_bounds:
  assumes "mget (rl_store s) i = Some c" "0 \<le> rc_Load c" "rc_Load c \<le> 1" "0 \<le> rc_Min c" "rc_Min c \<le> rc_Max c"
  shows "\<exists>c'. mget (rl_store (updateAdaptiveRateLimits now s)) i = Some c'
    \<and> (if rc_Strategy c = AlgorithmAdaptive
       then rc_Min c \<le> rc_RequestsPerMinute c' \<and> rc_RequestsPerMinute c' \<le> rc_Max c
            \<and> (rc_Load c = 0 \<longrightarrow> rc_RequestsPerMinute c' = rc_Max c)
            \<and> (rc_Load c = 1 \<longrightarrow> rc_RequestsPerMinute c' = rc_Min c)
       else c' = c)"
proof -
  have "rc_Strategy c = AlgorithmAdaptive \<Longrightarrow> rc_RequestsPerMinute (adapt_config now c) = adaptive_rate c"
    by (simp add: adapt_config_def Let_def)
  moreover have "rc_Load c = 0 \<Longrightarrow> adaptive_rate c = rc_Max c" "rc_Load c = 1 \<Longrightarrow> adaptive_rate c = rc_Min c"
    using assms(4,5) by (simp_all add: adaptive_rate_def truncate_rat_def)
  ultimately show ?thesis
    using assms(1) adaptive_rate_bounds [OF assms(2-5)]
    by (auto simp: updateAdaptiveRateLimits_def mget_mmap adapt_config_def)
qed

section \<open>Witnesses\<close>

definition sample_env :: "uuid \<Rightarrow> env" where
  "sample_env i = \<lparr>en_newID = i, en_now = 5, en_uuid_parse = Some, en_parse_ip = Some\<rparr>"

definition sample_create :: create_params where
  "sample_create = \<lparr>cp_Name = ''per-ip'', cp_Type = ''ip'', cp_Strategy = [], cp_Target = ''10.0.0.1'',
     cp_RequestsPerMinute = 60, cp_BurstSize = 5, cp_TenantID = None, cp_Min = 0, cp_Max = 0\<rparr>"

definition sample_allow :: "nat allow" where
  "sample_allow k n = (n < 1, \<lparr>ri_Limit = 1, ri_Remaining = 0, ri_Reset = 0, ri_RetryAt = 0\<rparr>, n + 1)"

definition sample_check :: check_params where
  "sample_check = \<lparr>ck_Type = [], ck_Target = [], ck_TenantID = None, ck_UserID = None,
     ck_IPAddress = Some ''10.0.0.1'', ck_Route = []\<rparr>"

definition sample_limits :: "nat rate_service" where
  "sample_limits = snd (projr (CreateRateLimit (sample_env ''c1'') sample_create ''u1'' ''user'' (NewRateLimitService 1)))"

lemma sample_create_ok:
  "CreateRateLimit (sample_env ''c1'') sample_create ''u1'' ''user'' (NewRateLimitService (1 :: nat)) =
     Inr (fst (projr (CreateRateLimit (sample_env ''c1'') sample_create ''u1'' ''user'' (NewRateLimitService (1 :: nat)))),
          sample_limits)"
proof -
  have "\<exists>r. CreateRateLimit (sample_env ''c1'') sample_create ''u1'' ''user'' (NewRateLimitService (1 :: nat)) = Inr r"
    by (simp add: CreateRateLimit_def validate_create_def sample_create_def Let_def)
  then show ?thesis by (auto simp: sample_limits_def)
qed

lemma sample_limits_run: "rate_run sample_allow sample_limits []"
  using run_create [OF run_new _ sample_create_ok] by (simp add: NewRateLimitService_def)

lemma GetRecentViolations_newest_witness: "GetRecentViolations 3 sample_limits = Some []"
  using GetRecentViolations_newest [OF sample_limits_run, of 3] by simp

lemma CheckRateLimit_decides_witness:
  "\<exists>c. rc_Name c = ''per-ip'' \<and> snd (snd (CheckRateLimit sample_allow (sample_env ''v1'') sample_check sample_limits))
     = recordViolation (sample_env ''v1'') c ''10.0.0.1'' 1 (sample_limits\<lparr>rl_limiter := 2\<rparr>)"
proof -
  let ?r = "CheckRateLimit sample_allow (sample_env ''v1'') sample_check sample_limits"
  obtain al info s' where r: "?r = (al, info, s')" by (metis prod.exhaust)
  have f: "find (configured sample_limits) (candidates sample_check) = Some (''ip'', ''10.0.0.1'')"
    by (simp add: sample_limits_def candidates_def sample_check_def configured_def CreateRateLimit_def
        validate_create_def sample_create_def sample_env_def makeCacheKey_def log_event_def NewRateLimitService_def Let_def)
  have st: "mget (rl_store sample_limits) ''c1'' = Some c \<Longrightarrow> rc_Name c = ''per-ip'' \<and> rc_IsActive c" for c
    by (auto simp: sample_limits_def CreateRateLimit_def validate_create_def sample_create_def
        sample_env_def log_event_def NewRateLimitService_def Let_def)
  have k: "mget (rl_configs sample_limits) (makeCacheKey ''ip'' ''10.0.0.1'') = Some ''c1''" "rl_limiter sample_limits = 1"
    by (simp_all add: sample_limits_def CreateRateLimit_def validate_create_def sample_create_def
        sample_env_def makeCacheKey_def log_event_def NewRateLimitService_def Let_def)
  from CheckRateLimit_decides [OF sample_limits_run r] f k obtain c where
    c: "mget (rl_store sample_limits) ''c1'' = Some c"
    and d: "if rc_IsActive c
      then (\<exists>l'. sample_allow (makeCacheKey ''ip'' ''10.0.0.1'') (rl_limiter sample_limits) = (al, info, l')
               \<and> s' = (if al then sample_limits\<lparr>rl_limiter := l'\<rparr>
                       else recordViolation (sample_env ''v1'') c ''10.0.0.1'' (ri_Limit info)
                              (sample_limits\<lparr>rl_limiter := l'\<rparr>)))
      else al \<and> s' = sample_limits"
    by auto
  have "s' = recordViolation (sample_env ''v1'') c ''10.0.0.1'' 1 (sample_limits\<lparr>rl_limiter := 2\<rparr>)"
    using d st [OF c] k by (auto simp: sample_allow_def numeral_2_eq_2)
  with st [OF c] r show ?thesis by (intro exI [of _ c]) simp
qed

lemma configured_rates_not_enforced_witness:
  "fst (CheckRateLimit sample_allow (sample_env ''v1'') sample_check
     (sample_limits\<lparr>rl_store := mmap (\<lambda>c. c\<lparr>rc_RequestsPerMinute := 1000000, rc_BurstSize := 1000000\<rparr>) (rl_store sample_limits)\<rparr>))
   = fst (CheckRateLimit sample_allow (sample_env ''v1'') sample_check sample_limits)"
  using configured_rates_not_enforced
    [where f = "\<lambda>_. 1000000" and g = "\<lambda>_. 1000000" and s = sample_limits and Allow = sample_allow
      and en = "sample_env ''v1''" and p = sample_check]
    rate_run_inv [OF sample_limits_run] by blast

definition sample_adaptive :: rate_config where
  "sample_adaptive = \<lparr>rc_ID = ''a'', rc_Name = ''n'', rc_Type = ''ip'', rc_Strategy = ''adaptive'',
     rc_Target = ''t'', rc_RequestsPerMinute = 60, rc_BurstSize = 5, rc_TenantID = None, rc_IsActive = True,
     rc_CreatedAt = 0, rc_UpdatedAt = 0, rc_Min = 30, rc_Max = 120, rc_Load = 1\<rparr>"

lemma adaptive_update_bounds_witness:
  "\<exists>c'. mget (rl_store (updateAdaptiveRateLimits 9 (sample_limits\<lparr>rl_store := [(''a'', sample_adaptive)]\<rparr>))) ''a'' = Some c'
     \<and> rc_RequestsPerMinute c' = 30"
  using adaptive_update_bounds [of "sample_limits\<lparr>rl_store := [(''a'', sample_adaptive)]\<rparr>" "''a''" sample_adaptive 9]
  by (auto simp: sample_adaptive_def)

section \<open>Updates that fail\<close>

definition to_adaptive :: update_params where
  "to_adaptive = \<lparr>up_Name = None, up_Strategy = Some ''adaptive'', up_RequestsPerMinute = None,
     up_BurstSize = None, up_IsActive = None, up_Min = None, up_Max = None\<rparr>"

definition fixed_config :: rate_config where
  "fixed_config = sample_adaptive\<lparr>rc_Strategy := ''fixed'', rc_Min := 0, rc_Max := 0, rc_Load := 1 / 2\<rparr>"

text \<open>An update that is refused still changes the configuration. Turning a fixed limit, which has
  no minimum and maximum, into an adaptive one reports an error, yet the limit is adaptive from
  then on and the next adaptive update sets its rate to zero.\<close>

lemma refused_update_changes_limit:
  "\<exists>s'. UpdateRateLimit en ''a'' to_adaptive actor kind (s\<lparr>rl_store := [(''a'', fixed_config)]\<rparr>) = (Inl MaxNotGreater, s')
     \<and> mget (rl_store s') ''a'' = Some (fixed_config\<lparr>rc_Strategy := ''adaptive''\<rparr>)
     \<and> map_option rc_RequestsPerMinute (mget (rl_store (updateAdaptiveRateLimits now s')) ''a'') = Some 0"
  by (simp add: UpdateRateLimit_def apply_update_def update_adaptive_def set_positive_def to_adaptive_def
      fixed_config_def sample_adaptive_def updateAdaptiveRateLimits_def mget_mmap adapt_config_def
      adaptive_rate_def truncate_rat_def)

end
