(* ===== verification/RateLimiter.thy ===== *)
theory RateLimiter
  imports RateLimitService
begin

text \<open>
  The two rate limiters and their middleware (\<open>prism/internal/features/ratelimit/ratelimiter.go\<close>).

  The Redis commands that the script calls are parameters, and so is the token bucket of
  \<open>golang.org/x/time/rate\<close> behind the memory limiter; \<open>redis_laws\<close> states what the documentation of
  GET, INCR and EXPIRE promises. The script runs atomically. Prometheus counters and the response
  headers are not modelled.
\<close>

section \<open>Parameters of a limiter\<close>

record limiter_params =
  lp_Limit :: rat
  lp_Burst :: int
  lp_TTL :: duration
  lp_Strategy :: string
  lp_RedisClient :: bool
  lp_KeyGen :: "(request \<Rightarrow> string + string) option"
  lp_ExcludedPaths :: "string list"
  lp_Headers :: bool

datatype limiter_error = LimitNotPositive | LimiterBurstNotPositive | KeyGenRequired | ErrMissingRedisClient

definition Validate :: "limiter_params \<Rightarrow> limiter_error + limiter_params" where
  "Validate c =
     (if lp_Limit c \<le> 0 then Inl LimitNotPositive
      else if lp_Burst c \<le> 0 then Inl LimiterBurstNotPositive
      else if lp_Strategy c = ''custom'' \<and> lp_KeyGen c = None then Inl KeyGenRequired
      else Inr (if lp_Strategy c = [] then c\<lparr>lp_Strategy := ''ip''\<rparr> else c))"

section \<open>The memory limiter\<close>

text \<open>The token bucket of the library: construction, one request, and the tokens left.\<close>

record 'b bucket_ops =
  bk_new :: "rat \<Rightarrow> int \<Rightarrow> 'b"
  bk_allow :: "time \<Rightarrow> 'b \<Rightarrow> bool \<times> 'b"
  bk_tokens :: "time \<Rightarrow> 'b \<Rightarrow> rat"

record 'b memory_limiter =
  ml_config :: limiter_params
  ml_limiters :: "(string, 'b) gomap"

definition NewMemoryRateLimiter :: "limiter_params \<Rightarrow> limiter_error + 'b memory_limiter" where
  "NewMemoryRateLimiter params =
     (case Validate params of
        Inl err \<Rightarrow> Inl err
      | Inr c \<Rightarrow> Inr \<lparr>ml_config = c, ml_limiters = []\<rparr>)"

text \<open>
  \<open>None\<close> is the panic of a division by zero: the rate is converted to an integer before it divides
  a second.
\<close>

definition MemoryAllow ::
  "'b bucket_ops \<Rightarrow> time \<Rightarrow> string \<Rightarrow> 'b memory_limiter \<Rightarrow> (bool \<times> rate_info \<times> 'b memory_limiter) option" where
  "MemoryAllow ops now key m =
     (let b = (case mget (ml_limiters m) key of
                 Some b \<Rightarrow> b | None \<Rightarrow> bk_new ops (lp_Limit (ml_config m)) (lp_Burst (ml_config m)));
          (allowed, b') = bk_allow ops now b;
          m' = m\<lparr>ml_limiters := mput key b' (ml_limiters m)\<rparr>;
          info = \<lparr>ri_Limit = lp_Burst (ml_config m), ri_Remaining = truncate_rat (bk_tokens ops now b'),
                  ri_Reset = now + seconds 1, ri_RetryAt = time_zero\<rparr>;
          divisor = truncate_rat (lp_Limit (ml_config m))
      in if allowed then Some (True, info, m')
         else if divisor = 0 then None
         else Some (False, info\<lparr>ri_RetryAt := now + seconds 1 div divisor\<rparr>, m'))"

definition MemoryClose :: "'b memory_limiter \<Rightarrow> 'b memory_limiter" where
  "MemoryClose m = m\<lparr>ml_limiters := []\<rparr>"

section \<open>The Redis limiter\<close>

record 'r redis_ops =
  rd_get :: "time \<Rightarrow> string \<Rightarrow> 'r \<Rightarrow> int option"
  rd_incr :: "time \<Rightarrow> string \<Rightarrow> 'r \<Rightarrow> int \<times> 'r"
  rd_expire :: "time \<Rightarrow> string \<Rightarrow> int \<Rightarrow> 'r \<Rightarrow> 'r"

definition NewRedisRateLimiter :: "limiter_params \<Rightarrow> limiter_error + limiter_params" where
  "NewRedisRateLimiter params =
     (case Validate params of
        Inl err \<Rightarrow> Inl err
      | Inr c \<Rightarrow> if \<not> lp_RedisClient c then Inl ErrMissingRedisClient else Inr c)"

text \<open>The script. Its argument for the rate is read and never used.\<close>

definition limit_script ::
  "'r redis_ops \<Rightarrow> time \<Rightarrow> string \<Rightarrow> rat \<Rightarrow> int \<Rightarrow> int \<Rightarrow> 'r \<Rightarrow> (int \<times> int) \<times> 'r" where
  "limit_script ops now key limit burst ttl r =
     (let current = (case rd_get ops now key r of Some n \<Rightarrow> n | None \<Rightarrow> 0) in
      if current + 1 > burst then ((0, current), r)
      else
        let (current', r1) = rd_incr ops now key r;
            r2 = (if current' = 1 then rd_expire ops now key ttl r1 else r1)
        in ((1, current'), r2))"

text \<open>\<open>executed\<close> tells whether the call of the script succeeded; a failure allows the request.\<close>

definition RedisAllow ::
  "'r redis_ops \<Rightarrow> limiter_params \<Rightarrow> bool \<Rightarrow> time \<Rightarrow> string \<Rightarrow> 'r \<Rightarrow> bool \<times> rate_info \<times> 'r" where
  "RedisAllow ops c executed now key r =
     (if \<not> executed
      then (True, \<lparr>ri_Limit = lp_Burst c, ri_Remaining = lp_Burst c, ri_Reset = now + lp_TTL c,
                   ri_RetryAt = time_zero\<rparr>, r)
      else
        let ((v, current), r') = limit_script ops now key (lp_Limit c) (lp_Burst c)
                                   (truncate_rat (rat_of_int (lp_TTL c) / 1000000000)) r;
            allowed = (v = 1);
            info = \<lparr>ri_Limit = lp_Burst c, ri_Remaining = lp_Burst c - current, ri_Reset = now + lp_TTL c,
                    ri_RetryAt = time_zero\<rparr>
        in (allowed,
            if allowed then info else info\<lparr>ri_RetryAt := now + truncate_rat (1 / lp_Limit c) * seconds 1\<rparr>,
            r'))"

section \<open>The middleware\<close>

definition getClientIP :: "request \<Rightarrow> string" where
  "getClientIP r =
     (if header_get r ''X-Forwarded-For'' \<noteq> []
      then TrimSpace (Split (CHR '','') (header_get r ''X-Forwarded-For'') ! 0)
      else if header_get r ''X-Real-Ip'' \<noteq> [] then TrimSpace (header_get r ''X-Real-Ip'')
      else (let ipPort = Split (CHR '':'') (rq_RemoteAddr r) in
            if length ipPort > 0 then ipPort ! 0 else []))"

text \<open>\<open>route\<close> is the pattern of the router for the request, \<open>uid\<close> the value under the key of the user id.\<close>

definition generateKey ::
  "(request \<Rightarrow> string) \<Rightarrow> (request \<Rightarrow> string option) \<Rightarrow> limiter_params \<Rightarrow> request \<Rightarrow> string + string" where
  "generateKey route uid c r =
     (if lp_Strategy c = ''ip'' then Inr (getClientIP r)
      else if lp_Strategy c = ''route'' then Inr (route r)
      else if lp_Strategy c = ''token'' then
        (if header_get r ''Authorization'' = [] then Inl ''missing authorization header''
         else Inr (header_get r ''Authorization''))
      else if lp_Strategy c = ''custom'' then
        (case lp_KeyGen c of None \<Rightarrow> Inl ''missing key generation function'' | Some kg \<Rightarrow> kg r)
      else if lp_Strategy c = ''auth'' then
        (case uid r of None \<Rightarrow> Inl ''missing userID in context'' | Some u \<Rightarrow> Inr (''auth:'' @ u))
      else Inl ''invalid rate limit strategy'')"

definition rateLimitMiddleware ::
  "(request \<Rightarrow> string) \<Rightarrow> (request \<Rightarrow> string option) \<Rightarrow> limiter_params \<Rightarrow> 'l allow \<Rightarrow> 'w handler
   \<Rightarrow> ('l \<times> 'w) handler" where
  "rateLimitMiddleware route uid c Allow next r lw =
     (if list_ex (\<lambda>path. rq_Path r = path) (lp_ExcludedPaths c)
      then (let (calls, w') = next r (snd lw) in (calls, (fst lw, w')))
      else (case generateKey route uid c r of
              Inl _ \<Rightarrow> (http_error ''Internal Server Error'' 500, lw)
            | Inr key \<Rightarrow>
                let (allowed, info, l') = Allow key (fst lw)
                in if allowed then (let (calls, w') = next r (snd lw) in (calls, (l', w')))
                   else (http_error ''Rate limit exceeded'' 429, (l', snd lw))))"

section \<open>What Redis promises\<close>

text \<open>
  \<open>holds k v d r\<close> reads: key \<open>k\<close> has the value \<open>v\<close> until the time \<open>d\<close> (for ever when \<open>d\<close> is
  \<open>None\<close>). The laws are those of the Redis documentation: GET reads a live value; INCR counts from
  zero on an absent key, which then has no expiry, and keeps the expiry of a live one; EXPIRE sets it.
\<close>

definition live :: "time \<Rightarrow> time option \<Rightarrow> bool" where
  "live t d \<longleftrightarrow> (case d of None \<Rightarrow> True | Some x \<Rightarrow> t < x)"

definition redis_laws :: "'r redis_ops \<Rightarrow> (string \<Rightarrow> int \<Rightarrow> time option \<Rightarrow> 'r \<Rightarrow> bool) \<Rightarrow> bool" where
  "redis_laws ops holds \<longleftrightarrow>
     (\<forall>k v d r t. holds k v d r \<and> live t d \<longrightarrow> rd_get ops t k r = Some v)
     \<and> (\<forall>k r t. rd_get ops t k r = None \<longrightarrow>
           fst (rd_incr ops t k r) = 1 \<and> holds k 1 None (snd (rd_incr ops t k r)))
     \<and> (\<forall>k v d r t. holds k v d r \<and> live t d \<longrightarrow>
           fst (rd_incr ops t k r) = v + 1 \<and> holds k (v + 1) d (snd (rd_incr ops t k r)))
     \<and> (\<forall>k v d r t n. holds k v d r \<and> live t d \<longrightarrow> holds k v (Some (t + seconds n)) (rd_expire ops t k n r))"

text \<open>A run of requests under one key at the given times; the list says which were allowed.\<close>

fun redis_run :: "'r redis_ops \<Rightarrow> limiter_params \<Rightarrow> string \<Rightarrow> time list \<Rightarrow> 'r \<Rightarrow> bool list" where
  "redis_run ops c key [] r = []"
| "redis_run ops c key (t # ts) r =
     (let (al, info, r') = RedisAllow ops c True t key r in al # redis_run ops c key ts r')"

abbreviation ttl_seconds :: "limiter_params \<Rightarrow> int" where
  "ttl_seconds c \<equiv> truncate_rat (rat_of_int (lp_TTL c) / 1000000000)"

lemma script_counting:
  assumes "redis_laws ops holds" "holds key v d r" "live t d"
  shows "if v + 1 > burst then limit_script ops t key l burst ttl r = ((0, v), r)
         else \<exists>r'. limit_script ops t key l burst ttl r = ((1, v + 1), r')
                \<and> holds key (v + 1) (if v = 0 then Some (t + seconds ttl) else d) r'"
proof -
  have g: "rd_get ops t key r = Some v" using assms unfolding redis_laws_def by blast
  obtain n r1 where i: "rd_incr ops t key r = (n, r1)" by fastforce
  have h: "n = v + 1" "holds key (v + 1) d r1"
    using assms i unfolding redis_laws_def by (metis fst_conv snd_conv)+
  then have e: "holds key (v + 1) (Some (t + seconds ttl)) (rd_expire ops t key ttl r1)"
    using assms(1,3) unfolding redis_laws_def by blast
  show ?thesis using g i h e by (auto simp: limit_script_def)
qed

lemma script_first:
  assumes "redis_laws ops holds" "rd_get ops t key r = None" "0 < burst"
  shows "\<exists>r'. limit_script ops t key l burst ttl r = ((1, 1), r') \<and> holds key 1 (Some (t + seconds ttl)) r'"
proof -
  obtain n r1 where i: "rd_incr ops t key r = (n, r1)" by fastforce
  have h: "n = 1" "holds key 1 None r1"
    using assms i unfolding redis_laws_def by (metis fst_conv snd_conv)+
  then have e: "holds key 1 (Some (t + seconds ttl)) (rd_expire ops t key ttl r1)"
    using assms(1) unfolding redis_laws_def live_def by (metis option.simps(4))
  show ?thesis using assms(2,3) i h e by (simp add: limit_script_def)
qed

lemma redis_run_counting:
  assumes "redis_laws ops holds" "holds key v (Some d) r" "\<forall>t \<in> set ts. t < d" "1 \<le> v" "v \<le> lp_Burst c"
  shows "int (length (filter (\<lambda>b. b) (redis_run ops c key ts r))) = min (int (length ts)) (lp_Burst c - v)"
  using assms(2-)
proof (induction ts arbitrary: v r)
  case Nil
  then show ?case by simp
next
  case (Cons t ts)
  have "live t (Some d)" using Cons.prems(2) by (simp add: live_def)
  note sc = script_counting [OF assms(1) Cons.prems(1) this, of "lp_Burst c" "lp_Limit c" "ttl_seconds c"]
  show ?case
  proof (cases "v + 1 > lp_Burst c")
    case True
    have "int (length (filter (\<lambda>b. b) (redis_run ops c key ts r))) = min (int (length ts)) (lp_Burst c - v)"
      using Cons.prems by (intro Cons.IH) auto
    with True Cons.prems sc show ?thesis by (simp add: RedisAllow_def)
  next
    case False
    with sc Cons.prems(3) obtain r' where
      r': "limit_script ops t key (lp_Limit c) (lp_Burst c) (ttl_seconds c) r = ((1, v + 1), r')"
        "holds key (v + 1) (Some d) r'" by auto
    have "int (length (filter (\<lambda>b. b) (redis_run ops c key ts r'))) = min (int (length ts)) (lp_Burst c - (v + 1))"
      using Cons.prems False by (intro Cons.IH [OF r'(2)]) auto
    then show ?thesis using r'(1) False by (simp add: RedisAllow_def)
  qed
qed

section \<open>Properties\<close>


text \<open>A memory limiter with a rate below one request per second passes validation, and panics on
  the first request that its bucket refuses.\<close>

lemma slow_rate_panics:
  assumes "Validate params = Inr c" "lp_Limit c < 1" "ml_config m = c"
    and "mget (ml_limiters m) key = Some b" "bk_allow ops now b = (False, b')"
  shows "MemoryAllow ops now key m = None"
proof -
  have "0 < lp_Limit c" using assms(1) by (auto simp: Validate_def split: if_splits)
  then have "truncate_rat (lp_Limit c) = 0"
    using assms(2) by (simp add: truncate_rat_def floor_eq_iff)
  with assms show ?thesis by (simp add: MemoryAllow_def)
qed

text \<open>A refused request gets status 429 and does not reach the next handler.\<close>

lemma limited_request_stops:
  assumes "\<not> list_ex (\<lambda>path. rq_Path r = path) (lp_ExcludedPaths c)" "generateKey route uid c r = Inr key"
    and "Allow key l = (False, info, l')"
  shows "rateLimitMiddleware route uid c Allow next r (l, w) = (http_error ''Rate limit exceeded'' 429, (l', w))"
  using assms by (simp add: rateLimitMiddleware_def)

section \<open>Witnesses\<close>

type_synonym sample_redis = "(string, int \<times> time option) gomap"

definition sample_redis_get :: "time \<Rightarrow> string \<Rightarrow> sample_redis \<Rightarrow> int option" where
  "sample_redis_get t k r = (case mget r k of Some (v, d) \<Rightarrow> if live t d then Some v else None | None \<Rightarrow> None)"

definition sample_redis_ops :: "sample_redis redis_ops" where
  "sample_redis_ops =
     \<lparr>rd_get = sample_redis_get,
      rd_incr = (\<lambda>t k r. case mget r k of
                   Some (v, d) \<Rightarrow> if live t d then (v + 1, mput k (v + 1, d) r) else (1, mput k (1, None) r)
                 | None \<Rightarrow> (1, mput k (1, None) r)),
      rd_expire = (\<lambda>t k n r. case mget r k of
                   Some (v, d) \<Rightarrow> if live t d then mput k (v, Some (t + seconds n)) r else r
                 | None \<Rightarrow> r)\<rparr>"

lemma sample_redis_laws: "redis_laws sample_redis_ops (\<lambda>k v d r. mget r k = Some (v, d))"
  by (auto simp: redis_laws_def sample_redis_ops_def sample_redis_get_def mget_mput split: option.splits if_splits)

definition sample_params :: limiter_params where
  "sample_params = \<lparr>lp_Limit = 1 / 2, lp_Burst = 2, lp_TTL = seconds 60, lp_Strategy = ''ip'',
     lp_RedisClient = True, lp_KeyGen = None, lp_ExcludedPaths = [], lp_Headers = False\<rparr>"


definition sample_bucket :: "nat bucket_ops" where
  "sample_bucket = \<lparr>bk_new = (\<lambda>l b. nat b), bk_allow = (\<lambda>t b. if b = 0 then (False, 0) else (True, b - 1)),
     bk_tokens = (\<lambda>t b. rat_of_nat b)\<rparr>"

lemma slow_rate_panics_witness:
  "MemoryAllow sample_bucket 0 ''k'' \<lparr>ml_config = sample_params, ml_limiters = [(''k'', 0)]\<rparr> = None"
proof -
  have v: "Validate sample_params = Inr sample_params" by (simp add: Validate_def sample_params_def)
  have l: "lp_Limit sample_params < 1" by (simp add: sample_params_def)
  show ?thesis by (rule slow_rate_panics [OF v l, where b = 0 and b' = 0]) (simp_all add: sample_bucket_def)
qed

end
