(* ===== verification/DecisionCache.thy ===== *)
theory DecisionCache
  imports Prelude
begin

text \<open>
  The in-memory decision cache of the authorization library (\<open>authz/cache/memory.go\<close>) and the
  interface it implements (\<open>authz/types/interfaces.go\<close>).

  \<open>order\<close> arguments give the order of loops over the map of entries; \<open>now\<close> arguments are clock
  readings, in the order in which the source takes them. \<open>Get\<close> releases its lock between reading
  an entry and writing its access time; \<open>get_read\<close> and \<open>get_write\<close> are these two critical sections,
  and \<open>Get\<close> is their composition. Values of type \<open>'d\<close> are decisions.
\<close>

section \<open>Data and operations\<close>

record 'd cache_entry =
  ce_decision :: 'd
  ce_expiration :: time
  ce_lastAccess :: time

record 'd memory_cache =
  mc_entries :: "(string, 'd cache_entry) gomap"
  mc_keysByTime :: "string list"
  mc_maxEntries :: nat

definition NewMemoryCache :: "int \<Rightarrow> 'd memory_cache" where
  "NewMemoryCache maxEntries =
     \<lparr>mc_entries = [], mc_keysByTime = [],
      mc_maxEntries = (if maxEntries \<le> 0 then 1000 else nat maxEntries)\<rparr>"

text \<open>Only the first occurrence of the key is removed.\<close>

definition pruneKeyByTime :: "string \<Rightarrow> 'd memory_cache \<Rightarrow> 'd memory_cache" where
  "pruneKeyByTime key c = c\<lparr>mc_keysByTime := remove1 key (mc_keysByTime c)\<rparr>"

definition drop_entry :: "string \<Rightarrow> 'd memory_cache \<Rightarrow> 'd memory_cache" where
  "drop_entry key c = pruneKeyByTime key (c\<lparr>mc_entries := mdel key (mc_entries c)\<rparr>)"

definition is_expired :: "time \<Rightarrow> 'd cache_entry \<Rightarrow> bool" where
  "is_expired now e \<longleftrightarrow> ce_expiration e \<noteq> time_zero \<and> now > ce_expiration e"

text \<open>The first critical section of \<open>Get\<close>.\<close>

definition get_read :: "string \<Rightarrow> 'd memory_cache \<Rightarrow> 'd cache_entry option" where
  "get_read key c = mget (mc_entries c) key"

text \<open>The second one, with what was read: it removes the entry or writes it back.\<close>

definition get_write ::
  "time \<Rightarrow> time \<Rightarrow> string \<Rightarrow> 'd cache_entry option \<Rightarrow> 'd memory_cache \<Rightarrow> 'd option \<times> 'd memory_cache" where
  "get_write now1 now2 key found c =
     (case found of
        None \<Rightarrow> (None, c)
      | Some entry \<Rightarrow>
          if is_expired now1 entry then (None, drop_entry key c)
          else (Some (ce_decision entry),
                c\<lparr>mc_entries := mput key (entry\<lparr>ce_lastAccess := now2\<rparr>) (mc_entries c)\<rparr>))"

definition Get :: "time \<Rightarrow> time \<Rightarrow> string \<Rightarrow> 'd memory_cache \<Rightarrow> 'd option \<times> 'd memory_cache" where
  "Get now1 now2 key c = get_write now1 now2 key (get_read key c) c"

text \<open>One turn of the loop that looks for the oldest entry.\<close>

definition older ::
  "'d memory_cache \<Rightarrow> string \<Rightarrow> string \<times> time \<Rightarrow> string \<times> time" where
  "older c key kt =
     (case mget (mc_entries c) key of
        None \<Rightarrow> kt
      | Some entry \<Rightarrow>
          if snd kt = time_zero \<or> ce_lastAccess entry < snd kt then (key, ce_lastAccess entry) else kt)"

definition evictLRU :: "string list \<Rightarrow> 'd memory_cache \<Rightarrow> 'd memory_cache" where
  "evictLRU order c =
     (if mc_keysByTime c = [] then c
      else
        let oldestKey = mc_keysByTime c ! 0;
            oldestTime = (case mget (mc_entries c) oldestKey of
                            Some entry \<Rightarrow> ce_lastAccess entry | None \<Rightarrow> time_zero)
        in drop_entry (fst (fold (older c) order (oldestKey, oldestTime))) c)"

definition Set :: "string list \<Rightarrow> time \<Rightarrow> time \<Rightarrow> string \<Rightarrow> 'd \<Rightarrow> duration \<Rightarrow> 'd memory_cache \<Rightarrow> 'd memory_cache" where
  "Set order now1 now2 key decision ttl c =
     (let expiration = (if ttl > 0 then now1 + ttl else time_zero);
          c1 = (if length (mc_entries c) \<ge> mc_maxEntries c \<and> mc_maxEntries c > 0 then evictLRU order c else c)
      in c1\<lparr>mc_entries := mput key \<lparr>ce_decision = decision, ce_expiration = expiration, ce_lastAccess = now2\<rparr>
                            (mc_entries c1),
            mc_keysByTime := mc_keysByTime c1 @ [key]\<rparr>)"

definition Delete :: "string \<Rightarrow> 'd memory_cache \<Rightarrow> 'd memory_cache" where
  "Delete key c = drop_entry key c"

definition Clear :: "'d memory_cache \<Rightarrow> 'd memory_cache" where
  "Clear c = c\<lparr>mc_entries := [], mc_keysByTime := []\<rparr>"

definition cleanup_step :: "time \<Rightarrow> string \<Rightarrow> 'd memory_cache \<Rightarrow> 'd memory_cache" where
  "cleanup_step now key c =
     (case mget (mc_entries c) key of
        Some entry \<Rightarrow> if is_expired now entry then drop_entry key c else c
      | None \<Rightarrow> c)"

definition CleanupExpired :: "string list \<Rightarrow> time \<Rightarrow> 'd memory_cache \<Rightarrow> 'd memory_cache" where
  "CleanupExpired order now c = fold (cleanup_step now) order c"

section \<open>Lemmas\<close>

definition cache_inv :: "'d memory_cache \<Rightarrow> bool" where
  "cache_inv c \<longleftrightarrow>
     wfmap (mc_entries c) \<and> 0 < mc_maxEntries c \<and> length (mc_entries c) \<le> mc_maxEntries c
     \<and> set (mkeys (mc_entries c)) \<subseteq> set (mc_keysByTime c)
     \<and> (\<forall>k e. mget (mc_entries c) k = Some e \<longrightarrow> 0 < ce_lastAccess e)"

lemma drop_entry_entries [simp]: "mc_entries (drop_entry key c) = mdel key (mc_entries c)"
  by (simp add: drop_entry_def pruneKeyByTime_def)

lemma drop_entry_max [simp]: "mc_maxEntries (drop_entry key c) = mc_maxEntries c"
  by (simp add: drop_entry_def pruneKeyByTime_def)

lemma drop_entry_keys [simp]: "mc_keysByTime (drop_entry key c) = remove1 key (mc_keysByTime c)"
  by (simp add: drop_entry_def pruneKeyByTime_def)

lemma drop_entry_inv: "cache_inv c \<Longrightarrow> cache_inv (drop_entry key c)"
proof -
  assume inv: "cache_inv c"
  have "length (mdel key (mc_entries c)) \<le> mc_maxEntries c"
    using inv length_mdel_le [of key "mc_entries c"] by (simp add: cache_inv_def)
  moreover have "set (mkeys (mdel key (mc_entries c))) \<subseteq> set (remove1 key (mc_keysByTime c))"
  proof
    fix x assume "x \<in> set (mkeys (mdel key (mc_entries c)))"
    then have "x \<noteq> key" "x \<in> set (mc_keysByTime c)" using inv by (auto simp: cache_inv_def set_mkeys_mdel)
    then show "x \<in> set (remove1 key (mc_keysByTime c))" by (simp add: in_set_remove1)
  qed
  ultimately show ?thesis using inv
    by (auto simp: cache_inv_def wfmap_mdel mget_mdel)
qed

lemma cache_inv_new: "cache_inv (NewMemoryCache n)"
  by (simp add: cache_inv_def NewMemoryCache_def)

text \<open>The search for the oldest entry: what is known once the keys in \<open>S\<close> have been looked at.\<close>

definition oldest_of :: "'d memory_cache \<Rightarrow> string set \<Rightarrow> string \<times> time \<Rightarrow> bool" where
  "oldest_of c S kt \<longleftrightarrow>
     (snd kt = 0 \<and> (\<forall>key \<in> S. mget (mc_entries c) key = None))
     \<or> (\<exists>e. mget (mc_entries c) (fst kt) = Some e \<and> ce_lastAccess e = snd kt
           \<and> (\<forall>key \<in> S. \<forall>e'. mget (mc_entries c) key = Some e' \<longrightarrow> snd kt \<le> ce_lastAccess e'))"

lemma older_step:
  assumes "oldest_of c S kt" "\<forall>k e. mget (mc_entries c) k = Some e \<longrightarrow> 0 < ce_lastAccess e"
  shows "oldest_of c (insert key S) (older c key kt)"
proof (cases "mget (mc_entries c) key")
  case None
  then show ?thesis using assms(1) by (auto simp: older_def oldest_of_def)
next
  case (Some e)
  show ?thesis
  proof (cases "snd kt = 0 \<or> ce_lastAccess e < snd kt")
    case True
    then have o: "older c key kt = (key, ce_lastAccess e)" using Some by (simp add: older_def)
    have "\<forall>k' \<in> insert key S. \<forall>e'. mget (mc_entries c) k' = Some e' \<longrightarrow> ce_lastAccess e \<le> ce_lastAccess e'"
      using assms True Some by (fastforce simp: oldest_of_def)
    with Some show ?thesis unfolding o oldest_of_def by simp
  next
    case False
    then have "older c key kt = kt" using Some by (simp add: older_def)
    with assms(1) Some False show ?thesis by (auto simp: oldest_of_def)
  qed
qed

lemma older_fold:
  assumes "oldest_of c S kt" "\<forall>k e. mget (mc_entries c) k = Some e \<longrightarrow> 0 < ce_lastAccess e"
  shows "oldest_of c (S \<union> set order) (fold (older c) order kt)"
  using assms(1)
proof (induction order arbitrary: S kt)
  case (Cons key order)
  from Cons.IH [OF older_step [OF Cons.prems assms(2)], of key] show ?case by simp
qed simp

lemma evictLRU_oldest:
  assumes inv: "cache_inv c" and ord: "is_order order (mc_entries c)" and ne: "mc_entries c \<noteq> []"
  shows "\<exists>k e. mget (mc_entries c) k = Some e
    \<and> (\<forall>k' e'. mget (mc_entries c) k' = Some e' \<longrightarrow> ce_lastAccess e \<le> ce_lastAccess e')
    \<and> evictLRU order c = drop_entry k c"
proof -
  obtain k0 where k0: "k0 \<in> set (mkeys (mc_entries c))" using ne by (cases "mc_entries c") auto
  then have kne: "mc_keysByTime c \<noteq> []" using inv by (auto simp: cache_inv_def)
  let ?kt = "(mc_keysByTime c ! 0, case mget (mc_entries c) (mc_keysByTime c ! 0) of
                            Some entry \<Rightarrow> ce_lastAccess entry | None \<Rightarrow> time_zero)"
  obtain k t where f: "fold (older c) order ?kt = (k, t)" by fastforce
  have pos: "\<forall>k e. mget (mc_entries c) k = Some e \<longrightarrow> 0 < ce_lastAccess e"
    using inv by (simp add: cache_inv_def)
  have st: "oldest_of c {} ?kt" by (auto simp: oldest_of_def split: option.splits)
  have "\<exists>key \<in> set order. mget (mc_entries c) key \<noteq> None"
    using k0 ord is_order_mem [OF ord] key_mget [OF k0] by (metis option.discI)
  moreover have "oldest_of c (set order) (k, t)" using older_fold [OF st pos, of order] f by simp
  ultimately obtain e where e: "mget (mc_entries c) k = Some e" "ce_lastAccess e = t"
    "\<forall>key \<in> set order. \<forall>e'. mget (mc_entries c) key = Some e' \<longrightarrow> t \<le> ce_lastAccess e'" by (auto simp: oldest_of_def)
  have "\<forall>k' e'. mget (mc_entries c) k' = Some e' \<longrightarrow> ce_lastAccess e \<le> ce_lastAccess e'"
    using e is_order_mem [OF ord] by (metis option.discI)
  moreover have "evictLRU order c = drop_entry k c"
    using kne f by (simp add: evictLRU_def Let_def)
  ultimately show ?thesis using e(1) by blast
qed

lemma Set_inv:
  assumes "cache_inv c" "is_order order (mc_entries c)" "0 < now2"
  shows "cache_inv (Set order now1 now2 key d ttl c)"
proof -
  define c1 where "c1 = (if length (mc_entries c) \<ge> mc_maxEntries c \<and> mc_maxEntries c > 0 then evictLRU order c else c)"
  have "cache_inv c1 \<and> length (mc_entries c1) < mc_maxEntries c1"
  proof (cases "length (mc_entries c) \<ge> mc_maxEntries c")
    case True
    then have "mc_entries c \<noteq> []" using assms(1) by (auto simp: cache_inv_def)
    with evictLRU_oldest [OF assms(1,2)] obtain k e where
      k: "mget (mc_entries c) k = Some e" "evictLRU order c = drop_entry k c" by blast
    have "length (mdel k (mc_entries c)) = length (mc_entries c) - 1"
      using assms(1) k(1) by (simp add: length_mdel cache_inv_def)
    then have "length (mdel k (mc_entries c)) < mc_maxEntries c"
      using assms(1) True by (simp add: cache_inv_def)
    then show ?thesis using True k(2) drop_entry_inv [OF assms(1)] assms(1)
      by (simp add: c1_def cache_inv_def)
  next
    case False
    then show ?thesis using assms(1) by (simp add: c1_def)
  qed
  then show ?thesis using assms(3)
    by (auto simp: Set_def Let_def c1_def [symmetric] cache_inv_def wfmap_mput length_mput set_mkeys_mput mget_mput)
qed

lemma Get_inv: "cache_inv c \<Longrightarrow> 0 < now2 \<Longrightarrow> cache_inv (snd (Get now1 now2 key c))"
  using drop_entry_inv [of c key]
  by (auto simp: Get_def get_read_def get_write_def cache_inv_def wfmap_mput length_mput set_mkeys_mput
      mget_mput insert_absorb dest: mget_Some_key split: option.splits)

lemma cleanup_step_inv: "cache_inv c \<Longrightarrow> cache_inv (cleanup_step now key c)"
  by (auto simp: cleanup_step_def drop_entry_inv split: option.splits)

lemma CleanupExpired_inv: "cache_inv c \<Longrightarrow> cache_inv (CleanupExpired order now c)"
  unfolding CleanupExpired_def by (induction order arbitrary: c) (auto intro: cleanup_step_inv)

text \<open>
  What the agent relies on of a cache (\<open>types.Cache\<close>): an answer is the decision last stored under
  the key and not expired; deleting and clearing make lookups miss. \<open>peek now key c\<close> is the
  decision that a lookup at time \<open>now\<close> finds.
\<close>

locale decision_cache =
  fixes peek :: "time \<Rightarrow> string \<Rightarrow> 'c \<Rightarrow> 'd option"
    and get :: "time \<Rightarrow> time \<Rightarrow> string \<Rightarrow> 'c \<Rightarrow> 'd option \<times> 'c"
    and put :: "string list \<Rightarrow> time \<Rightarrow> time \<Rightarrow> string \<Rightarrow> 'd \<Rightarrow> duration \<Rightarrow> 'c \<Rightarrow> 'c"
    and del :: "string \<Rightarrow> 'c \<Rightarrow> 'c"
    and clear :: "'c \<Rightarrow> 'c"
  assumes get_answer: "fst (get now1 now2 key c) = peek now1 key c"
    and get_keeps: "now1 \<le> t \<Longrightarrow> peek t k (snd (get now1 now2 key c)) = peek t k c"
    and get_sub: "peek t k (snd (get now1 now2 key c)) \<in> {peek t k c, None}"
    and put_same: "peek t key (put order now1 now2 key d ttl c) \<in> {Some d, None}"
    and put_lives: "ttl \<noteq> - 1 \<Longrightarrow> t \<le> now1 + ttl \<or> ttl \<le> 0 \<Longrightarrow> peek t key (put order now1 now2 key d ttl c) = Some d"
    and put_other: "k \<noteq> key \<Longrightarrow>
          peek t k (put order now1 now2 key d ttl c) \<in> {peek t k c, None}"
    and del_same: "peek t key (del key c) = None"
    and del_other: "k \<noteq> key \<Longrightarrow> peek t k (del key c) = peek t k c"
    and clear_all: "peek t k (clear c) = None"
begin

lemma get_after_put:
  "ttl \<noteq> - 1 \<Longrightarrow> t \<le> now1 + ttl \<or> ttl \<le> 0 \<Longrightarrow> fst (get t t' key (put order now1 now2 key d ttl c)) = Some d"
  unfolding get_answer by (rule put_lives)

lemma get_after_clear: "fst (get t t' key (clear c)) = None"
  by (simp add: get_answer clear_all)

end

definition peek_entry :: "time \<Rightarrow> string \<Rightarrow> 'd memory_cache \<Rightarrow> 'd option" where
  "peek_entry now key c =
     (case mget (mc_entries c) key of
        Some e \<Rightarrow> if is_expired now e then None else Some (ce_decision e) | None \<Rightarrow> None)"

lemma evictLRU_peek: "peek_entry t k (evictLRU order c) \<in> {peek_entry t k c, None}"
  by (simp add: evictLRU_def peek_entry_def Let_def mget_mdel)

lemma peek_set:
  "peek_entry t key (Set order now1 now2 key d ttl c) = (if ttl > 0 \<and> now1 + ttl \<noteq> 0 \<and> t > now1 + ttl then None else Some d)"
  by (auto simp: peek_entry_def Set_def Let_def mget_mput is_expired_def)

interpretation mdc: decision_cache peek_entry Get Set Delete Clear
proof unfold_locales
  fix now1 now2 t :: time and k key :: string and c :: "'d memory_cache"
  show "fst (Get now1 now2 key c) = peek_entry now1 key c"
    by (auto simp: Get_def get_read_def get_write_def peek_entry_def split: option.splits)
  show "now1 \<le> t \<Longrightarrow> peek_entry t k (snd (Get now1 now2 key c)) = peek_entry t k c"
    by (auto simp: Get_def get_read_def get_write_def peek_entry_def mget_mput mget_mdel is_expired_def
        split: option.splits)
  show "peek_entry t k (snd (Get now1 now2 key c)) \<in> {peek_entry t k c, None}"
    by (auto simp: Get_def get_read_def get_write_def peek_entry_def mget_mput mget_mdel is_expired_def
        split: option.splits)
next
  fix t now1 now2 :: time and key k :: string and order and d :: 'd and ttl :: duration and c :: "'d memory_cache"
  show "peek_entry t key (Set order now1 now2 key d ttl c) \<in> {Some d, None}"
    by (simp add: peek_set)
  show "t \<le> now1 + ttl \<or> ttl \<le> 0 \<Longrightarrow> peek_entry t key (Set order now1 now2 key d ttl c) = Some d"
    by (auto simp: peek_set)
  assume "k \<noteq> key"
  then show "peek_entry t k (Set order now1 now2 key d ttl c) \<in> {peek_entry t k c, None}"
    using evictLRU_peek [of t k order c] by (auto simp: Set_def Let_def mget_mput peek_entry_def)
qed (auto simp: peek_entry_def Delete_def Clear_def mget_mdel)

lemma memory_get_after_set: "t \<le> now1 + ttl \<or> ttl \<le> 0 \<Longrightarrow> fst (Get t t' key (Set order now1 now2 key d ttl c)) = Some d"
  by (auto simp: mdc.get_answer peek_set)

section \<open>Properties\<close>

text \<open>Reachable caches: the operations in any sequence, with a clock that never shows the zero time.\<close>

inductive cache_run :: "'d memory_cache \<Rightarrow> bool" where
  cache_new: "cache_run (NewMemoryCache n)"
| cache_get: "cache_run c \<Longrightarrow> 0 < now2 \<Longrightarrow> cache_run (snd (Get now1 now2 key c))"
| cache_set: "cache_run c \<Longrightarrow> is_order order (mc_entries c) \<Longrightarrow> 0 < now2 \<Longrightarrow>
    cache_run (Set order now1 now2 key d ttl c)"
| cache_del: "cache_run c \<Longrightarrow> cache_run (Delete key c)"
| cache_clear: "cache_run c \<Longrightarrow> cache_run (Clear c)"
| cache_cleanup: "cache_run c \<Longrightarrow> cache_run (CleanupExpired order now c)"

lemma cache_run_inv: "cache_run c \<Longrightarrow> cache_inv c"
proof (induction rule: cache_run.induct)
  case (cache_clear c)
  then show ?case by (simp add: cache_inv_def Clear_def)
qed (auto intro: cache_inv_new Get_inv Set_inv CleanupExpired_inv simp: Delete_def drop_entry_inv)

text \<open>C34: In every state that the operations reach one after another the cache holds at most its
  maximum of entries. Storing into a full cache first evicts an entry that no other entry was used
  before, whatever order the map iteration takes; afterwards the stored decision is found until its
  time to live is over, and any other key gives what it gave before or nothing.\<close>

theorem cache_bounded_lru:
  assumes "cache_run c" "is_order order (mc_entries c)" "0 < now2"
  shows "length (mc_entries (Set order now1 now2 key d ttl c)) \<le> mc_maxEntries c
    \<and> (length (mc_entries c) = mc_maxEntries c \<longrightarrow>
        (\<exists>k e. mget (mc_entries c) k = Some e \<and> evictLRU order c = drop_entry k c
           \<and> (\<forall>k' e'. mget (mc_entries c) k' = Some e' \<longrightarrow> ce_lastAccess e \<le> ce_lastAccess e')))
    \<and> (\<forall>t t'. t \<le> now1 + ttl \<or> ttl \<le> 0 \<longrightarrow>
        fst (Get t t' key (Set order now1 now2 key d ttl c)) = Some d)
    \<and> (\<forall>t k. k \<noteq> key \<longrightarrow> peek_entry t k (Set order now1 now2 key d ttl c) \<in> {peek_entry t k c, None})"
proof -
  have inv: "cache_inv c" using assms(1) by (rule cache_run_inv)
  have max: "mc_maxEntries (Set order now1 now2 key d ttl c) = mc_maxEntries c"
    by (simp add: Set_def Let_def evictLRU_def)
  have "length (mc_entries c) = mc_maxEntries c \<Longrightarrow> mc_entries c \<noteq> []"
    using inv by (auto simp: cache_inv_def)
  with evictLRU_oldest [OF inv assms(2)] Set_inv [OF inv assms(2,3)] max memory_get_after_set mdc.put_other
  show ?thesis unfolding cache_inv_def by metis
qed

text \<open>A lookup writes its entry back after it has released the lock once. If the cache is
  cleared in between, as it is when the policies change, the old decision is stored again and the
  next lookup answers with it.\<close>

lemma stale_entry_survives_clear:
  assumes "get_read key c = Some e" "\<not> is_expired now1 e" "\<not> is_expired t e"
  shows "fst (Get t t' key (snd (get_write now1 now2 key (get_read key c) (Clear c)))) = Some (ce_decision e)"
proof -
  have "\<not> is_expired t (e\<lparr>ce_lastAccess := now2\<rparr>)" using assms(3) by (simp add: is_expired_def)
  with assms(1,2) show ?thesis
    by (simp add: get_write_def mdc.get_answer peek_entry_def mget_mput)
qed

section \<open>Witnesses\<close>

definition sample_cache :: "bool memory_cache" where
  "sample_cache = Set [] 1 1 ''k1'' True 0 (NewMemoryCache 1)"

lemma sample_cache_run: "cache_run sample_cache"
  unfolding sample_cache_def
  by (rule cache_set [OF cache_new]) (simp_all add: is_order_def NewMemoryCache_def)

theorem cache_bounded_lru_witness:
  "length (mc_entries (Set [''k1''] 5 5 ''k2'' False 0 sample_cache)) \<le> 1"
proof -
  have o: "is_order [''k1''] (mc_entries sample_cache)" by code_simp
  have m: "mc_maxEntries sample_cache = 1" by code_simp
  from cache_bounded_lru [OF sample_cache_run o, of 5 5 "''k2''" False 0] m show ?thesis by simp
qed

lemma stale_entry_survives_clear_witness:
  "fst (Get 9 9 ''k1'' (snd (get_write 5 5 ''k1'' (get_read ''k1'' sample_cache) (Clear sample_cache)))) = Some True"
proof -
  let ?e = "\<lparr>ce_decision = True, ce_expiration = 0, ce_lastAccess = 1\<rparr>"
  have "get_read ''k1'' sample_cache = Some ?e" by code_simp
  from stale_entry_survives_clear [OF this, of 5 9 9 5] show ?thesis by (simp add: is_expired_def)
qed

end
