(* ===== verification/PolicyAgent.thy ===== *)
theory PolicyAgent
  imports DecisionCache Http "HOL-Library.List_Lexorder" "HOL-Library.Char_ord"
begin

text \<open>
  The policy agent of the authorization library: \<open>authz/agent.go\<close>, \<open>authz/helper.go\<close> and the
  configuration in \<open>authz/cache/cache.go\<close>.

  Values of type \<open>interface{}\<close> are \<open>gvalue\<close>s; numbers carry the text that \<open>%v\<close> prints for them,
  \<open>GStrings\<close> is a \<open>[]string\<close> (not a \<open>[]interface{}\<close>, which matters for the cache key) and \<open>GOther\<close>
  any other Go value. The record \<open>outside\<close> holds what the agent calls outside the repository: the
  compiler and evaluator of OPA, the HTTP request to an OPA server, the JSON encoder and the hash.
  An external cache is given by its operations (\<open>cache_ops\<close>). Clock readings and the order of a
  loop over the entries of the cache are in the record \<open>reading\<close>. Compiled policies are evaluated
  by a function, so the same query on the same input gives the same result.
\<close>

section \<open>Values and cache keys\<close>

datatype gvalue = GNil | GBool bool | GNum string | GStr string | GList "gvalue list"
  | GMap "(string \<times> gvalue) list" | GStrings "string list" | GOther string

fun normalizeForHashing :: "(gvalue \<Rightarrow> string option) \<Rightarrow> gvalue \<Rightarrow> string option"
  and normalize_items :: "(gvalue \<Rightarrow> string option) \<Rightarrow> gvalue list \<Rightarrow> string list option"
  and normalize_entries :: "(gvalue \<Rightarrow> string option) \<Rightarrow> (string \<times> gvalue) list \<Rightarrow> (string \<times> string) list option" where
  "normalizeForHashing marshal GNil = Some ''null''"
| "normalizeForHashing marshal (GBool b) = Some (if b then ''true'' else ''false'')"
| "normalizeForHashing marshal (GNum n) = Some n"
| "normalizeForHashing marshal (GStr s) = Some s"
| "normalizeForHashing marshal (GList vs) =
     (case normalize_items marshal vs of
        None \<Rightarrow> None
      | Some items \<Rightarrow> Some (''['' @ Join '','' (sort items) @ '']''))"
| "normalizeForHashing marshal (GMap m) =
     (case normalize_entries marshal m of
        None \<Rightarrow> None
      | Some texts \<Rightarrow>
          Some (CHR 0x7B # Join '','' (map (\<lambda>k. k @ '':'' @ the (mget texts k)) (sort (mkeys texts))) @ [CHR 0x7D]))"
| "normalizeForHashing marshal (GStrings ss) = marshal (GStrings ss)"
| "normalizeForHashing marshal (GOther t) = marshal (GOther t)"
| "normalize_items marshal [] = Some []"
| "normalize_items marshal (v # vs) =
     (case normalizeForHashing marshal v of
        None \<Rightarrow> None
      | Some t \<Rightarrow> (case normalize_items marshal vs of None \<Rightarrow> None | Some ts \<Rightarrow> Some (t # ts)))"
| "normalize_entries marshal [] = Some []"
| "normalize_entries marshal ((k, v) # m) =
     (case normalizeForHashing marshal v of
        None \<Rightarrow> None
      | Some t \<Rightarrow> (case normalize_entries marshal m of None \<Rightarrow> None | Some ts \<Rightarrow> Some ((k, t) # ts)))"

definition splitPath :: "string \<Rightarrow> string list" where
  "splitPath path = Split (CHR ''.'') path"

fun getNestedValue :: "(string, gvalue) gomap \<Rightarrow> string list \<Rightarrow> gvalue" where
  "getNestedValue data [] = GNil"
| "getNestedValue data (p # ps) =
     (case mget data p of
        None \<Rightarrow> GNil
      | Some v \<Rightarrow>
          if ps = [] then v
          else (case v of GMap nested \<Rightarrow> getNestedValue nested ps | _ \<Rightarrow> GNil))"

text \<open>The map is assigned in place in the source; here the new map is returned.\<close>

fun setNestedValue :: "(string, gvalue) gomap \<Rightarrow> string list \<Rightarrow> gvalue \<Rightarrow> (string, gvalue) gomap" where
  "setNestedValue data [] v = data"
| "setNestedValue data (p # ps) v =
     (if ps = [] then mput p v data
      else
        let nested = (case mget data p of Some (GMap nm) \<Rightarrow> nm | _ \<Rightarrow> [])
        in mput p (GMap (setNestedValue nested ps v)) data)"

definition filter_field :: "(string, gvalue) gomap \<Rightarrow> string \<Rightarrow> (string, gvalue) gomap \<Rightarrow> (string, gvalue) gomap" where
  "filter_field input field filtered =
     (let parts = splitPath field; v = getNestedValue input parts
      in if v \<noteq> GNil then setNestedValue filtered parts v else filtered)"

definition filterInputFields :: "gvalue \<Rightarrow> string list \<Rightarrow> gvalue" where
  "filterInputFields input flds =
     (case input of GMap m \<Rightarrow> GMap (fold (filter_field m) flds []) | _ \<Rightarrow> input)"

section \<open>Configuration\<close>

record decision =
  de_Allowed :: bool
  de_Reason :: string
  de_Cached :: bool
  de_Timestamp :: time

definition zero_decision :: decision where
  "zero_decision = \<lparr>de_Allowed = False, de_Reason = [], de_Cached = False, de_Timestamp = time_zero\<rparr>"

datatype policy_source = PolicySourceLocal | PolicySourceExternal | PolicySourceOther

datatype cache_type = CacheTypeNone | CacheTypeMemory | CacheTypeExternal

record 'x cache_config =
  cc_Type :: cache_type
  cc_TTL :: duration
  cc_MaxEntries :: int
  cc_CacheKeyFields :: "string list"
  cc_ExternalCache :: "'x option"

definition zero_cache_config :: "'x cache_config" where
  "zero_cache_config = \<lparr>cc_Type = CacheTypeNone, cc_TTL = 0, cc_MaxEntries = 0, cc_CacheKeyFields = [],
                        cc_ExternalCache = None\<rparr>"

record webhook_config =
  wh_Endpoint :: string
  wh_Secret :: string
  wh_AllowedSources :: "string list"

type_synonym policies = "(string, string) gomap"

record 'x config =
  cf_Source :: policy_source
  cf_ExternalOPAURL :: string
  cf_LocalPolicies :: policies
  cf_WebhookConfig :: "webhook_config option"
  cf_DefaultQuery :: string
  cf_CacheConfig :: "'x cache_config option"
  cf_RoleProvider :: "(string \<Rightarrow> string list option) option"
  cf_ContextTransformers :: "(gvalue \<Rightarrow> gvalue option) list"

definition WithLocalPolicies :: "policies \<Rightarrow> 'x config \<Rightarrow> 'x config" where
  "WithLocalPolicies ps c = c\<lparr>cf_Source := PolicySourceLocal, cf_LocalPolicies := ps\<rparr>"

definition WithExternalOPA :: "string \<Rightarrow> 'x config \<Rightarrow> 'x config" where
  "WithExternalOPA url c = c\<lparr>cf_Source := PolicySourceExternal, cf_ExternalOPAURL := url\<rparr>"

definition WithDefaultQuery :: "string \<Rightarrow> 'x config \<Rightarrow> 'x config" where
  "WithDefaultQuery q c = c\<lparr>cf_DefaultQuery := q\<rparr>"

definition WithMemoryCache :: "duration \<Rightarrow> int \<Rightarrow> 'x config \<Rightarrow> 'x config" where
  "WithMemoryCache ttl maxEntries c =
     c\<lparr>cf_CacheConfig := Some (zero_cache_config\<lparr>cc_Type := CacheTypeMemory, cc_TTL := ttl, cc_MaxEntries := maxEntries\<rparr>)\<rparr>"

definition WithExternalCache :: "'x option \<Rightarrow> duration \<Rightarrow> 'x config \<Rightarrow> 'x config" where
  "WithExternalCache x ttl c =
     c\<lparr>cf_CacheConfig := Some (zero_cache_config\<lparr>cc_Type := CacheTypeExternal, cc_TTL := ttl, cc_ExternalCache := x\<rparr>)\<rparr>"

definition WithCacheKeyFields :: "string list \<Rightarrow> 'x config \<Rightarrow> 'x config" where
  "WithCacheKeyFields flds c =
     (let cc = (case cf_CacheConfig c of
                  Some cc \<Rightarrow> cc
                | None \<Rightarrow> zero_cache_config\<lparr>cc_Type := CacheTypeMemory, cc_TTL := minutes 5\<rparr>)
      in c\<lparr>cf_CacheConfig := Some (cc\<lparr>cc_CacheKeyFields := flds\<rparr>)\<rparr>)"

definition WithNoCache :: "'x config \<Rightarrow> 'x config" where
  "WithNoCache c = c\<lparr>cf_CacheConfig := Some zero_cache_config\<rparr>"

definition WithWebhook :: "string \<Rightarrow> string \<Rightarrow> string list \<Rightarrow> 'x config \<Rightarrow> 'x config" where
  "WithWebhook endpoint secret allowed c =
     c\<lparr>cf_WebhookConfig := Some \<lparr>wh_Endpoint = endpoint, wh_Secret = secret, wh_AllowedSources = allowed\<rparr>\<rparr>"

definition WithRoleProvider :: "(string \<Rightarrow> string list option) option \<Rightarrow> 'x config \<Rightarrow> 'x config" where
  "WithRoleProvider p c = c\<lparr>cf_RoleProvider := p\<rparr>"

definition WithContextTransformer :: "(gvalue \<Rightarrow> gvalue option) \<Rightarrow> 'x config \<Rightarrow> 'x config" where
  "WithContextTransformer t c = c\<lparr>cf_ContextTransformers := cf_ContextTransformers c @ [t]\<rparr>"

section \<open>The agent\<close>

datatype opa_reply = Unreachable | Reply nat "gvalue option"

record 'p outside =
  ou_prepare :: "string \<Rightarrow> policies \<Rightarrow> 'p option"
  ou_eval :: "'p \<Rightarrow> gvalue \<Rightarrow> gvalue list list option"
  ou_post :: "string \<Rightarrow> string \<Rightarrow> opa_reply"
  ou_marshal :: "gvalue \<Rightarrow> string option"
  ou_hash :: "string \<Rightarrow> string"

record 'x cache_ops =
  co_Get :: "time \<Rightarrow> time \<Rightarrow> string \<Rightarrow> 'x \<Rightarrow> decision option \<times> 'x"
  co_Set :: "string list \<Rightarrow> time \<Rightarrow> time \<Rightarrow> string \<Rightarrow> decision \<Rightarrow> duration \<Rightarrow> 'x \<Rightarrow> 'x"
  co_Delete :: "string \<Rightarrow> 'x \<Rightarrow> 'x"
  co_Clear :: "'x \<Rightarrow> 'x"

datatype 'x any_cache = MemCache "decision memory_cache" | ExtCache 'x

fun any_get :: "'x cache_ops \<Rightarrow> time \<Rightarrow> time \<Rightarrow> string \<Rightarrow> 'x any_cache \<Rightarrow> decision option \<times> 'x any_cache" where
  "any_get ops now1 now2 key (MemCache m) = apsnd MemCache (Get now1 now2 key m)"
| "any_get ops now1 now2 key (ExtCache x) = apsnd ExtCache (co_Get ops now1 now2 key x)"

fun any_set :: "'x cache_ops \<Rightarrow> string list \<Rightarrow> time \<Rightarrow> time \<Rightarrow> string \<Rightarrow> decision \<Rightarrow> duration \<Rightarrow> 'x any_cache \<Rightarrow> 'x any_cache" where
  "any_set ops order now1 now2 key d ttl (MemCache m) = MemCache (Set order now1 now2 key d ttl m)"
| "any_set ops order now1 now2 key d ttl (ExtCache x) = ExtCache (co_Set ops order now1 now2 key d ttl x)"

fun any_delete :: "'x cache_ops \<Rightarrow> string \<Rightarrow> 'x any_cache \<Rightarrow> 'x any_cache" where
  "any_delete ops key (MemCache m) = MemCache (Delete key m)"
| "any_delete ops key (ExtCache x) = ExtCache (co_Delete ops key x)"

fun any_clear :: "'x cache_ops \<Rightarrow> 'x any_cache \<Rightarrow> 'x any_cache" where
  "any_clear ops (MemCache m) = MemCache (Clear m)"
| "any_clear ops (ExtCache x) = ExtCache (co_Clear ops x)"

record 'p prepared_query =
  pq_query :: 'p
  pq_lastUsed :: time

record ('p, 'x) agent =
  ag_config :: "'x config"
  ag_queries :: "(string, 'p prepared_query) gomap"
  ag_cache :: "'x any_cache option"

datatype agent_error = ExternalURLRequired | LocalPoliciesRequired | ExternalCacheRequired | PrepareFailed
  | TransformFailed | UnknownSource | NotPrepared | EvalFailed | MarshalFailed | RequestFailed
  | BadStatus nat | DecodeFailed | NotLocal | IndexPanic

definition default_config :: "'x config" where
  "default_config =
     \<lparr>cf_Source = PolicySourceLocal, cf_ExternalOPAURL = [], cf_LocalPolicies = [], cf_WebhookConfig = None,
      cf_DefaultQuery = ''data.authz.allow'', cf_CacheConfig = Some zero_cache_config, cf_RoleProvider = None,
      cf_ContextTransformers = []\<rparr>"

definition prepareLocalPolicies ::
  "'p outside \<Rightarrow> time \<Rightarrow> ('p, 'x) agent \<Rightarrow> agent_error option \<times> ('p, 'x) agent" where
  "prepareLocalPolicies ou now a =
     (case ou_prepare ou (cf_DefaultQuery (ag_config a)) (cf_LocalPolicies (ag_config a)) of
        None \<Rightarrow> (Some PrepareFailed, a)
      | Some pq \<Rightarrow>
          (None, a\<lparr>ag_queries := mput (cf_DefaultQuery (ag_config a)) \<lparr>pq_query = pq, pq_lastUsed = now\<rparr> (ag_queries a)\<rparr>))"

definition init_cache :: "'x config \<Rightarrow> agent_error + 'x any_cache option" where
  "init_cache c =
     (case cf_CacheConfig c of
        None \<Rightarrow> Inr None
      | Some cc \<Rightarrow>
          (case cc_Type cc of
             CacheTypeMemory \<Rightarrow> Inr (Some (MemCache (NewMemoryCache (cc_MaxEntries cc))))
           | CacheTypeExternal \<Rightarrow>
               (case cc_ExternalCache cc of None \<Rightarrow> Inl ExternalCacheRequired | Some x \<Rightarrow> Inr (Some (ExtCache x)))
           | CacheTypeNone \<Rightarrow> Inr None))"

definition New :: "'p outside \<Rightarrow> time \<Rightarrow> ('x config \<Rightarrow> 'x config) list \<Rightarrow> agent_error + ('p, 'x) agent" where
  "New ou now opts =
     (let c = fold (\<lambda>opt c. opt c) opts default_config in
      if cf_Source c = PolicySourceExternal \<and> cf_ExternalOPAURL c = [] then Inl ExternalURLRequired
      else if cf_Source c = PolicySourceLocal \<and> length (cf_LocalPolicies c) = 0 then Inl LocalPoliciesRequired
      else
        (case init_cache c of
           Inl err \<Rightarrow> Inl err
         | Inr cache \<Rightarrow>
             let a = \<lparr>ag_config = c, ag_queries = [], ag_cache = cache\<rparr> in
             if cf_Source c = PolicySourceLocal
             then (case prepareLocalPolicies ou now a of (Some err, _) \<Rightarrow> Inl err | (None, a') \<Rightarrow> Inr a')
             else Inr a))"

definition hashInput :: "'p outside \<Rightarrow> string \<Rightarrow> gvalue \<Rightarrow> string option" where
  "hashInput ou queryPath input =
     (case normalizeForHashing (ou_marshal ou) input of
        None \<Rightarrow> None
      | Some normalized \<Rightarrow> Some (ou_hash ou (queryPath @ '':'' @ normalized)))"

definition generateCacheKey :: "'p outside \<Rightarrow> 'x config \<Rightarrow> string \<Rightarrow> gvalue \<Rightarrow> string option" where
  "generateCacheKey ou c queryPath input =
     hashInput ou queryPath
       (case cf_CacheConfig c of
          Some cc \<Rightarrow> if length (cc_CacheKeyFields cc) > 0 then filterInputFields input (cc_CacheKeyFields cc) else input
        | None \<Rightarrow> input)"

text \<open>How a result is read, in the same way for both sources.\<close>

definition read_result :: "gvalue \<Rightarrow> bool \<times> string" where
  "read_result v =
     (case v of
        GBool b \<Rightarrow> (b, [])
      | GMap obj \<Rightarrow>
          (case mget obj ''allowed'' of Some (GBool b) \<Rightarrow> b | _ \<Rightarrow> False,
           case mget obj ''reason'' of Some (GStr r) \<Rightarrow> r | _ \<Rightarrow> [])
      | _ \<Rightarrow> (False, []))"

definition new_decision :: "bool \<times> string \<Rightarrow> decision" where
  "new_decision ar = zero_decision\<lparr>de_Allowed := fst ar, de_Reason := snd ar\<rparr>"

definition local_result :: "gvalue list list \<Rightarrow> decision" where
  "local_result results =
     new_decision (if length results > 0 \<and> length (results ! 0) > 0 then read_result (results ! 0 ! 0) else (False, []))"

definition evaluateLocalPolicy ::
  "'p outside \<Rightarrow> time \<Rightarrow> string \<Rightarrow> gvalue \<Rightarrow> ('p, 'x) agent \<Rightarrow> (agent_error + decision) \<times> ('p, 'x) agent" where
  "evaluateLocalPolicy ou now queryPath input a =
     (case mget (ag_queries a) queryPath of
        None \<Rightarrow> (Inl NotPrepared, a)
      | Some pq \<Rightarrow>
          (case ou_eval ou (pq_query pq) input of
             None \<Rightarrow> (Inl EvalFailed, a)
           | Some results \<Rightarrow>
               (Inr (local_result results),
                a\<lparr>ag_queries := mput queryPath (pq\<lparr>pq_lastUsed := now\<rparr>) (ag_queries a)\<rparr>)))"

text \<open>The slices of the query path panic when they are out of range.\<close>

definition external_path :: "string \<Rightarrow> agent_error + string" where
  "external_path path =
     (if path = [] then Inl IndexPanic
      else if path ! 0 \<noteq> CHR ''d'' then Inr path
      else if length path < 4 then Inl IndexPanic
      else if take 4 path \<noteq> ''data'' then Inr path
      else if length path < 5 then Inl IndexPanic
      else Inr (drop 5 path))"

definition evaluateExternalPolicy :: "'p outside \<Rightarrow> string \<Rightarrow> gvalue \<Rightarrow> ('p, 'x) agent \<Rightarrow> agent_error + decision" where
  "evaluateExternalPolicy ou queryPath input a =
     (case external_path queryPath of
        Inl err \<Rightarrow> Inl err
      | Inr path \<Rightarrow>
          (case ou_marshal ou (GMap [(''input'', input)]) of
             None \<Rightarrow> Inl MarshalFailed
           | Some body \<Rightarrow>
               (case ou_post ou (cf_ExternalOPAURL (ag_config a) @ ''/v1/data/'' @ path) body of
                  Unreachable \<Rightarrow> Inl RequestFailed
                | Reply status result \<Rightarrow>
                    if status \<noteq> 200 then Inl (BadStatus status)
                    else (case result of None \<Rightarrow> Inl DecodeFailed | Some v \<Rightarrow> Inr (new_decision (read_result v))))))"

text \<open>The clock readings of one evaluation, in the order of the source, and a loop order.\<close>

record reading =
  re_get1 :: time
  re_get2 :: time
  re_used :: time
  re_stamp :: time
  re_set1 :: time
  re_set2 :: time
  re_order :: "string list"

fun transform_input :: "(gvalue \<Rightarrow> gvalue option) list \<Rightarrow> gvalue \<Rightarrow> gvalue option" where
  "transform_input [] v = Some v"
| "transform_input (t # ts) v = (case t v of None \<Rightarrow> None | Some v' \<Rightarrow> transform_input ts v')"

definition cache_enabled :: "('p, 'x) agent \<Rightarrow> bool" where
  "cache_enabled a \<longleftrightarrow> ag_cache a \<noteq> None \<and>
     (case cf_CacheConfig (ag_config a) of Some cc \<Rightarrow> cc_Type cc \<noteq> CacheTypeNone | None \<Rightarrow> False)"

definition cache_lookup ::
  "'p outside \<Rightarrow> 'x cache_ops \<Rightarrow> reading \<Rightarrow> string \<Rightarrow> gvalue \<Rightarrow> ('p, 'x) agent \<Rightarrow> decision option \<times> ('p, 'x) agent" where
  "cache_lookup ou ops rd queryPath input a =
     (case ag_cache a of
        Some cache \<Rightarrow>
          if cache_enabled a then
            (case generateCacheKey ou (ag_config a) queryPath input of
               None \<Rightarrow> (None, a)
             | Some key \<Rightarrow>
                 let (found, cache') = any_get ops (re_get1 rd) (re_get2 rd) key cache
                 in (found, a\<lparr>ag_cache := Some cache'\<rparr>))
          else (None, a)
      | None \<Rightarrow> (None, a))"

definition cache_store ::
  "'p outside \<Rightarrow> 'x cache_ops \<Rightarrow> reading \<Rightarrow> string \<Rightarrow> gvalue \<Rightarrow> decision \<Rightarrow> ('p, 'x) agent \<Rightarrow> ('p, 'x) agent" where
  "cache_store ou ops rd queryPath input d a =
     (case (ag_cache a, cf_CacheConfig (ag_config a)) of
        (Some cache, Some cc) \<Rightarrow>
          if cache_enabled a then
            (case generateCacheKey ou (ag_config a) queryPath input of
               None \<Rightarrow> a
             | Some key \<Rightarrow>
                 a\<lparr>ag_cache := Some (any_set ops (re_order rd) (re_set1 rd) (re_set2 rd) key d (cc_TTL cc) cache)\<rparr>)
          else a
      | _ \<Rightarrow> a)"

definition evaluate_source ::
  "'p outside \<Rightarrow> reading \<Rightarrow> string \<Rightarrow> gvalue \<Rightarrow> ('p, 'x) agent \<Rightarrow> (agent_error + decision) \<times> ('p, 'x) agent" where
  "evaluate_source ou rd queryPath input a =
     (case cf_Source (ag_config a) of
        PolicySourceLocal \<Rightarrow> evaluateLocalPolicy ou (re_used rd) queryPath input a
      | PolicySourceExternal \<Rightarrow> (evaluateExternalPolicy ou queryPath input a, a)
      | PolicySourceOther \<Rightarrow> (Inl UnknownSource, a))"

definition EvaluateQuery ::
  "'p outside \<Rightarrow> 'x cache_ops \<Rightarrow> reading \<Rightarrow> string \<Rightarrow> gvalue \<Rightarrow> ('p, 'x) agent
   \<Rightarrow> (agent_error + decision) \<times> ('p, 'x) agent" where
  "EvaluateQuery ou ops rd queryPath input a =
     (case transform_input (cf_ContextTransformers (ag_config a)) input of
        None \<Rightarrow> (Inl TransformFailed, a)
      | Some transformedInput \<Rightarrow>
          (case cache_lookup ou ops rd queryPath transformedInput a of
             (Some d, a1) \<Rightarrow> (Inr (d\<lparr>de_Cached := True\<rparr>), a1)
           | (None, a1) \<Rightarrow>
               (case evaluate_source ou rd queryPath transformedInput a1 of
                  (Inl err, a2) \<Rightarrow> (Inl err, a2)
                | (Inr d0, a2) \<Rightarrow>
                    let d = d0\<lparr>de_Timestamp := re_stamp rd\<rparr>
                    in (Inr d, cache_store ou ops rd queryPath transformedInput d a2))))"

definition Evaluate ::
  "'p outside \<Rightarrow> 'x cache_ops \<Rightarrow> reading \<Rightarrow> gvalue \<Rightarrow> ('p, 'x) agent \<Rightarrow> (agent_error + decision) \<times> ('p, 'x) agent" where
  "Evaluate ou ops rd input a = EvaluateQuery ou ops rd (cf_DefaultQuery (ag_config a)) input a"

definition UpdatePolicies ::
  "'p outside \<Rightarrow> 'x cache_ops \<Rightarrow> time \<Rightarrow> policies \<Rightarrow> ('p, 'x) agent \<Rightarrow> agent_error option \<times> ('p, 'x) agent" where
  "UpdatePolicies ou ops now ps a =
     (if cf_Source (ag_config a) \<noteq> PolicySourceLocal then (Some NotLocal, a)
      else
        let a1 = a\<lparr>ag_config := (ag_config a)\<lparr>cf_LocalPolicies := ps\<rparr>\<rparr>
        in case prepareLocalPolicies ou now a1 of
             (Some err, a2) \<Rightarrow> (Some err, a2)
           | (None, a2) \<Rightarrow>
               (None, if cache_enabled a2 then a2\<lparr>ag_cache := map_option (any_clear ops) (ag_cache a2)\<rparr> else a2))"

section \<open>Filtering keeps the listed fields\<close>

text \<open>
  Fields may be prefixes of each other. Assigning the value that the input has at one path never
  spoils what the filtered map already has of the input at another (\<open>set_keeps\<close>), and never makes
  something appear where the input has nothing (\<open>set_adds_nothing\<close>).
\<close>

lemma getNestedValue_mput_other: "p \<noteq> q \<Longrightarrow> getNestedValue (mput q v m) (p # ps) = getNestedValue m (p # ps)"
  by (simp add: mget_mput)

lemma mput_same: "mget m k = Some v \<Longrightarrow> mput k v m = m"
  by (induction m) (auto split: if_splits)

lemma set_present:
  "getNestedValue m ps = v \<Longrightarrow> v \<noteq> GNil \<Longrightarrow> setNestedValue m ps v = m"
proof (induction m ps arbitrary: v rule: getNestedValue.induct)
  case (1 m)
  then show ?case by simp
next
  case (2 m p ps)
  then show ?case by (auto simp: mput_same split: option.splits if_splits gvalue.splits)
qed

lemma get_set_same: "ps \<noteq> [] \<Longrightarrow> getNestedValue (setNestedValue m ps v) ps = v"
  by (induction m ps v rule: setNestedValue.induct) (auto simp: mget_mput Let_def)

lemma nested_in:
  assumes "getNestedValue m (q # ps) \<noteq> GNil" and "ps \<noteq> []"
  obtains nm where "mget m q = Some (GMap nm)" "getNestedValue nm ps = getNestedValue m (q # ps)"
  using assms by (auto split: option.splits gvalue.splits)

lemma set_keeps:
  "getNestedValue m qs = v \<Longrightarrow> v \<noteq> GNil \<Longrightarrow> getNestedValue f ps = getNestedValue m ps
   \<Longrightarrow> getNestedValue m ps \<noteq> GNil \<Longrightarrow> getNestedValue (setNestedValue f qs v) ps = getNestedValue m ps"
proof (induction qs arbitrary: f m ps)
  case Nil
  then show ?case by simp
next
  case (Cons q qs)
  from Cons.prems(4) obtain p ps' where ps: "ps = p # ps'" by (cases ps) auto
  show ?case
  proof (cases "p = q \<and> qs \<noteq> []")
    case False
    with Cons.prems show ?thesis
      by (auto simp: ps mget_mput Let_def split: option.splits if_splits)
  next
    case True
    with Cons.prems obtain nm where nm: "mget m q = Some (GMap nm)" "getNestedValue nm qs = v"
      by (metis nested_in)
    show ?thesis
    proof (cases "ps' = []")
      case True
      with \<open>p = q \<and> qs \<noteq> []\<close> Cons.prems nm have "mget f q = Some (GMap nm)"
        by (auto simp: ps split: option.splits)
      with True \<open>p = q \<and> qs \<noteq> []\<close> Cons.prems(2) nm show ?thesis
        by (simp add: ps Let_def mget_mput set_present)
    next
      case False
      from Cons.prems(3,4) False \<open>p = q \<and> qs \<noteq> []\<close> obtain nf where
        nf: "mget f q = Some (GMap nf)" "getNestedValue nf ps' = getNestedValue f ps"
        by (metis nested_in ps)
      have m: "getNestedValue m ps = getNestedValue nm ps'"
        using nm(1) False \<open>p = q \<and> qs \<noteq> []\<close> by (simp add: ps)
      have "getNestedValue (setNestedValue nf qs v) ps' = getNestedValue nm ps'"
        by (rule Cons.IH) (use nm(2) nf(2) m Cons.prems(2-4) in simp_all)
      with m nf(1) False \<open>p = q \<and> qs \<noteq> []\<close> show ?thesis by (simp add: ps Let_def mget_mput)
    qed
  qed
qed

definition adds_nothing :: "(string, gvalue) gomap \<Rightarrow> (string, gvalue) gomap \<Rightarrow> bool" where
  "adds_nothing f m \<longleftrightarrow> (\<forall>ps. getNestedValue m ps = GNil \<longrightarrow> getNestedValue f ps = GNil)"

lemma getNestedValue_empty [simp]: "getNestedValue [] ps = GNil"
  by (cases ps) auto

lemma adds_nothing_nested:
  assumes "adds_nothing f m" and "mget m q = Some (GMap nm)"
  shows "adds_nothing (case mget f q of Some (GMap nf) \<Rightarrow> nf | _ \<Rightarrow> []) nm"
proof -
  have "getNestedValue nf ps = GNil" if "mget f q = Some (GMap nf)" "getNestedValue nm ps = GNil" for nf ps
  proof (cases "ps = []")
    case False
    with that assms(2) have "getNestedValue m (q # ps) = GNil" by simp
    with assms(1) have "getNestedValue f (q # ps) = GNil" unfolding adds_nothing_def by blast
    with False that(1) show ?thesis by simp
  qed simp
  then show ?thesis by (auto simp: adds_nothing_def split: option.splits gvalue.splits)
qed

lemma set_adds_nothing:
  "adds_nothing f m \<Longrightarrow> getNestedValue m qs = v \<Longrightarrow> v \<noteq> GNil \<Longrightarrow> adds_nothing (setNestedValue f qs v) m"
proof (induction qs arbitrary: f m)
  case Nil
  then show ?case by simp
next
  case (Cons q qs)
  have "getNestedValue (setNestedValue f (q # qs) v) ps = GNil" if *: "getNestedValue m ps = GNil" for ps
  proof (cases "qs = [] \<or> ps = [] \<or> hd ps \<noteq> q")
    case True
    from * Cons.prems(1) have "getNestedValue f ps = GNil" by (simp add: adds_nothing_def)
    with * True Cons.prems show ?thesis
      by (cases ps) (auto simp: mget_mput Let_def split: option.splits if_splits)
  next
    case False
    then obtain ps' where ps: "ps = q # ps'" by (cases ps) auto
    from False Cons.prems obtain nm where nm: "mget m q = Some (GMap nm)" "getNestedValue nm qs = v"
      by (metis nested_in)
    from * nm ps have "ps' \<noteq> []" "getNestedValue nm ps' = GNil" by (auto split: if_splits)
    with Cons.IH [OF adds_nothing_nested [OF Cons.prems(1) nm(1)] nm(2) Cons.prems(3)] False show ?thesis
      by (simp add: ps Let_def mget_mput adds_nothing_def)
  qed
  then show ?case by (simp add: adds_nothing_def)
qed

lemma splitPath_ne [simp]: "splitPath s \<noteq> []"
  by (simp add: splitPath_def)

lemma filter_fold:
  assumes "adds_nothing f m"
  shows "adds_nothing (fold (filter_field m) flds f) m \<and>
    (\<forall>ps. getNestedValue m ps \<noteq> GNil \<and> (getNestedValue f ps = getNestedValue m ps \<or> ps \<in> splitPath ` set flds) \<longrightarrow>
       getNestedValue (fold (filter_field m) flds f) ps = getNestedValue m ps)"
  using assms
proof (induction flds arbitrary: f)
  case Nil
  then show ?case by auto
next
  case (Cons fld flds)
  let ?f = "filter_field m fld f"
  have "adds_nothing ?f m"
    using set_adds_nothing [OF Cons.prems] Cons.prems by (auto simp: filter_field_def Let_def)
  moreover have "getNestedValue ?f ps = getNestedValue m ps"
    if "getNestedValue m ps \<noteq> GNil" "getNestedValue f ps = getNestedValue m ps \<or> ps = splitPath fld" for ps
    using that set_keeps [of m "splitPath fld" _ f ps] get_set_same [of "splitPath fld" f]
    by (auto simp: filter_field_def Let_def)
  ultimately show ?case using Cons.IH [of ?f] by auto
qed

lemma filterInputFields_map: "filterInputFields (GMap m) flds = GMap (fold (filter_field m) flds [])"
  by (simp add: filterInputFields_def)

section \<open>The agent over any cache that keeps the contract\<close>

text \<open>
  \<open>verdict\<close> is what the policies that are prepared now say of a query and an input, with no cache in
  between. \<open>cache_sound\<close>: whatever a lookup can find was said by the policies that are prepared now,
  about some input with that cache key.
\<close>

definition verdict :: "'p outside \<Rightarrow> ('p, 'x) agent \<Rightarrow> string \<Rightarrow> gvalue \<Rightarrow> agent_error + decision" where
  "verdict ou a q input =
     (case cf_Source (ag_config a) of
        PolicySourceLocal \<Rightarrow>
          (case mget (ag_queries a) q of
             None \<Rightarrow> Inl NotPrepared
           | Some pq \<Rightarrow> (case ou_eval ou (pq_query pq) input of
                           None \<Rightarrow> Inl EvalFailed | Some results \<Rightarrow> Inr (local_result results)))
      | PolicySourceExternal \<Rightarrow> evaluateExternalPolicy ou q input a
      | PolicySourceOther \<Rightarrow> Inl UnknownSource)"

fun any_peek :: "(time \<Rightarrow> string \<Rightarrow> 'x \<Rightarrow> decision option) \<Rightarrow> time \<Rightarrow> string \<Rightarrow> 'x any_cache \<Rightarrow> decision option" where
  "any_peek xpeek t k (MemCache m) = peek_entry t k m"
| "any_peek xpeek t k (ExtCache x) = xpeek t k x"

definition cache_sound ::
  "'p outside \<Rightarrow> (time \<Rightarrow> string \<Rightarrow> 'x \<Rightarrow> decision option) \<Rightarrow> ('p, 'x) agent \<Rightarrow> bool" where
  "cache_sound ou xpeek a \<longleftrightarrow>
     (\<forall>cache t k d. ag_cache a = Some cache \<and> any_peek xpeek t k cache = Some d \<longrightarrow>
        (\<exists>q input d0. generateCacheKey ou (ag_config a) q input = Some k \<and> verdict ou a q input = Inr d0
           \<and> d = d0\<lparr>de_Timestamp := de_Timestamp d\<rparr>))"

lemma evaluate_source_verdict: "fst (evaluate_source ou rd q input a) = verdict ou a q input"
  by (simp add: evaluate_source_def verdict_def evaluateLocalPolicy_def split: policy_source.splits option.splits)

lemma evaluate_source_frame:
  "ag_config (snd (evaluate_source ou rd q input a)) = ag_config a"
  "ag_cache (snd (evaluate_source ou rd q input a)) = ag_cache a"
  by (simp_all add: evaluate_source_def evaluateLocalPolicy_def split: policy_source.splits option.splits)

lemma verdict_same:
  assumes "ag_config a' = ag_config a" and "\<And>q. map_option pq_query (mget (ag_queries a') q) = map_option pq_query (mget (ag_queries a) q)"
  shows "verdict ou a' q input = verdict ou a q input"
proof -
  have "evaluateExternalPolicy ou q input a' = evaluateExternalPolicy ou q input a"
    unfolding evaluateExternalPolicy_def by (simp only: assms(1))
  then show ?thesis
    using assms(2) [of q] assms(1)
    by (cases "cf_Source (ag_config a)"; cases "mget (ag_queries a') q"; cases "mget (ag_queries a) q") (simp_all add: verdict_def)
qed

lemma evaluate_source_keeps_verdict:
  "verdict ou (snd (evaluate_source ou rd q input a)) q' input' = verdict ou a q' input'"
  by (rule verdict_same)
    (auto simp: evaluate_source_def evaluateLocalPolicy_def mget_mput split: policy_source.splits option.splits)

lemma verdict_cache [simp]: "verdict ou (a\<lparr>ag_cache := c\<rparr>) q input = verdict ou a q input"
  by (rule verdict_same) simp_all

lemma cache_sound_sub:
  assumes "cache_sound ou xpeek a" and "ag_cache a = Some cache"
    and "\<And>t k. any_peek xpeek t k cache' \<in> {any_peek xpeek t k cache, None}"
  shows "cache_sound ou xpeek (a\<lparr>ag_cache := Some cache'\<rparr>)"
  using assms unfolding cache_sound_def by (simp, metis option.distinct(1))

lemma verdict_fresh: "verdict ou a q input = Inr d0 \<Longrightarrow> \<not> de_Cached d0"
  by (auto simp: verdict_def evaluateExternalPolicy_def local_result_def new_decision_def zero_decision_def
      split: policy_source.splits option.splits sum.splits opa_reply.splits if_splits)

locale external_cache = decision_cache xpeek "co_Get ops" "co_Set ops" "co_Delete ops" "co_Clear ops"
  for xpeek :: "time \<Rightarrow> string \<Rightarrow> 'x \<Rightarrow> decision option" and ops :: "'x cache_ops"

sublocale external_cache \<subseteq> any: decision_cache "any_peek xpeek" "any_get ops" "any_set ops" "any_delete ops" "any_clear ops"
proof unfold_locales
  fix now1 now2 t :: time and k key :: string and c :: "'x any_cache" and order and d :: decision and ttl
  show "fst (any_get ops now1 now2 key c) = any_peek xpeek now1 key c"
    by (cases c) (simp_all add: get_answer mdc.get_answer)
  show "now1 \<le> t \<Longrightarrow> any_peek xpeek t k (snd (any_get ops now1 now2 key c)) = any_peek xpeek t k c"
    by (cases c) (simp_all add: get_keeps mdc.get_keeps)
  show "any_peek xpeek t k (snd (any_get ops now1 now2 key c)) \<in> {any_peek xpeek t k c, None}"
    by (cases c) (simp_all only: any_get.simps any_peek.simps snd_apsnd get_sub mdc.get_sub)
  show "any_peek xpeek t key (any_set ops order now1 now2 key d ttl c) \<in> {Some d, None}"
    by (cases c) (simp_all only: any_set.simps any_peek.simps put_same mdc.put_same)
  show "any_peek xpeek t key (any_set ops order now1 now2 key d ttl c) = Some d" if "ttl \<noteq> - 1" "t \<le> now1 + ttl \<or> ttl \<le> 0"
    using put_lives [OF that] mdc.put_lives [OF that] by (cases c) (simp_all only: any_set.simps any_peek.simps)
  show "any_peek xpeek t k (any_set ops order now1 now2 key d ttl c) \<in> {any_peek xpeek t k c, None}" if "k \<noteq> key"
    using put_other [OF that] mdc.put_other [OF that] by (cases c) (simp_all only: any_set.simps any_peek.simps)
  show "any_peek xpeek t key (any_delete ops key c) = None"
    by (cases c) (simp_all add: del_same mdc.del_same)
  show "any_peek xpeek t k (any_delete ops key c) = any_peek xpeek t k c" if "k \<noteq> key"
    using that by (cases c) (simp_all add: del_other mdc.del_other)
  show "any_peek xpeek t k (any_clear ops c) = None"
    by (cases c) (simp_all add: clear_all mdc.clear_all)
qed

context external_cache
begin

lemma cleared: "any_peek xpeek t k (any_clear ops c) = None"
  by (rule any.clear_all)

lemma cache_lookup_None_or_peek:
  assumes "cache_lookup ou ops rd q input a = (found, a1)"
  shows "found = None \<and> a1 = a \<or>
    (\<exists>cache key. ag_cache a = Some cache \<and> generateCacheKey ou (ag_config a) q input = Some key
       \<and> found = any_peek xpeek (re_get1 rd) key cache
       \<and> a1 = a\<lparr>ag_cache := Some (snd (any_get ops (re_get1 rd) (re_get2 rd) key cache))\<rparr>)"
  using assms any.get_answer [of "re_get1 rd" "re_get2 rd"]
  by (auto simp: cache_lookup_def split: option.splits if_splits prod.splits) (metis fst_conv)+

lemma cache_lookup_sound:
  assumes "cache_sound ou xpeek a" and "cache_lookup ou ops rd q input a = (found, a1)"
  shows "cache_sound ou xpeek a1" and "ag_config a1 = ag_config a" and "verdict ou a1 = verdict ou a"
  using cache_lookup_None_or_peek [OF assms(2)] cache_sound_sub [OF assms(1) _ any.get_sub] assms(1)
  by (auto simp: fun_eq_iff)

lemma cache_store_sound:
  assumes sound: "cache_sound ou xpeek a" and "verdict ou a q input = Inr d0"
  shows "cache_sound ou xpeek (cache_store ou ops rd q input (d0\<lparr>de_Timestamp := t\<rparr>) a)"
proof -
  let ?d = "d0\<lparr>de_Timestamp := t\<rparr>"
  have "cache_sound ou xpeek (a\<lparr>ag_cache := Some (any_set ops (re_order rd) (re_set1 rd) (re_set2 rd) key ?d ttl cache)\<rparr>)"
    if *: "ag_cache a = Some cache" "generateCacheKey ou (ag_config a) q input = Some key" for cache key ttl
    unfolding cache_sound_def
  proof (intro allI impI; elim conjE)
    fix cache' t' k d
    let ?c = "any_set ops (re_order rd) (re_set1 rd) (re_set2 rd) key ?d ttl cache"
    assume "ag_cache (a\<lparr>ag_cache := Some ?c\<rparr>) = Some cache'" and found: "any_peek xpeek t' k cache' = Some d"
    then have c: "cache' = ?c" by simp
    show "\<exists>q input d0. generateCacheKey ou (ag_config (a\<lparr>ag_cache := Some ?c\<rparr>)) q input = Some k
        \<and> verdict ou (a\<lparr>ag_cache := Some ?c\<rparr>) q input = Inr d0 \<and> d = d0\<lparr>de_Timestamp := de_Timestamp d\<rparr>"
    proof (cases "k = key")
      case True
      with found c any.put_same [of t' key "re_order rd" "re_set1 rd" "re_set2 rd" ?d ttl cache] have "d = ?d" by simp
      with True assms(2) * show ?thesis by auto
    next
      case False
      with found c any.put_other [OF False, of t' "re_order rd" "re_set1 rd" "re_set2 rd" ?d ttl cache]
      have "any_peek xpeek t' k cache = Some d" by simp
      with sound * show ?thesis by (simp add: cache_sound_def)
    qed
  qed
  with sound show ?thesis by (simp add: cache_store_def split: option.splits)
qed

lemma cache_store_frame:
  "ag_config (cache_store ou ops rd q input d a) = ag_config a"
  "ag_queries (cache_store ou ops rd q input d a) = ag_queries a"
  by (simp_all add: cache_store_def split: option.splits)

lemma EvaluateQuery_sound:
  assumes sound: "cache_sound ou xpeek a"
  shows "cache_sound ou xpeek (snd (EvaluateQuery ou ops rd q input a))"
proof (cases "transform_input (cf_ContextTransformers (ag_config a)) input")
  case (Some ti)
  obtain found a1 where look: "cache_lookup ou ops rd q ti a = (found, a1)" by fastforce
  obtain res a2 where ev: "evaluate_source ou rd q ti a1 = (res, a2)" by fastforce
  note s1 = cache_lookup_sound [OF sound look]
  have "cache_sound ou xpeek a2"
    using s1(1) evaluate_source_frame [of ou rd q ti a1] evaluate_source_keeps_verdict [of ou rd q ti a1]
    unfolding cache_sound_def by (simp add: ev)
  moreover have "verdict ou a2 q ti = res"
    using evaluate_source_verdict [of ou rd q ti a1] evaluate_source_keeps_verdict [of ou rd q ti a1] by (simp add: ev)
  ultimately show ?thesis
    using s1(1) cache_store_sound by (auto simp: EvaluateQuery_def Some look ev Let_def split: option.splits sum.splits)
qed (simp add: EvaluateQuery_def sound)

lemma UpdatePolicies_sound:
  assumes "cache_sound ou xpeek a"
    and "ag_cache a \<noteq> None \<longrightarrow> cache_enabled a"
  shows "cache_sound ou xpeek (snd (UpdatePolicies ou ops now ps a))"
proof -
  let ?a1 = "a\<lparr>ag_config := (ag_config a)\<lparr>cf_LocalPolicies := ps\<rparr>\<rparr>"
  have en: "cache_enabled ?a1 = cache_enabled a" by (simp add: cache_enabled_def)
  show ?thesis
  proof (cases "cf_Source (ag_config a) = PolicySourceLocal \<and> ou_prepare ou (cf_DefaultQuery (ag_config a)) ps \<noteq> None")
    case True
    then show ?thesis
      using assms(2) any.clear_all
      by (auto simp: UpdatePolicies_def prepareLocalPolicies_def Let_def cache_sound_def cache_enabled_def)
  next
    case False
    have "generateCacheKey ou (ag_config ?a1) = generateCacheKey ou (ag_config a)"
      by (simp add: fun_eq_iff generateCacheKey_def)
    moreover have "verdict ou ?a1 = verdict ou a" if "cf_Source (ag_config a) = PolicySourceLocal"
      using that by (simp add: fun_eq_iff verdict_def)
    ultimately show ?thesis
      using False assms(1) by (auto simp: UpdatePolicies_def prepareLocalPolicies_def Let_def cache_sound_def)
  qed
qed

end

section \<open>Runs of the agent\<close>

text \<open>
  Agents reached from a construction by evaluations and policy updates in any order. An external
  cache handed to the constructor is empty.
\<close>

inductive agent_run ::
  "'p outside \<Rightarrow> 'x cache_ops \<Rightarrow> (time \<Rightarrow> string \<Rightarrow> 'x \<Rightarrow> decision option) \<Rightarrow> ('p, 'x) agent \<Rightarrow> bool"
  for ou ops xpeek where
  run_new: "New ou now opts = Inr a \<Longrightarrow> (\<And>x t k. ag_cache a = Some (ExtCache x) \<Longrightarrow> xpeek t k x = None)
    \<Longrightarrow> agent_run ou ops xpeek a"
| run_eval: "agent_run ou ops xpeek a \<Longrightarrow> agent_run ou ops xpeek (snd (EvaluateQuery ou ops rd q input a))"
| run_update: "agent_run ou ops xpeek a \<Longrightarrow> agent_run ou ops xpeek (snd (UpdatePolicies ou ops now ps a))"

definition cache_configured :: "('p, 'x) agent \<Rightarrow> bool" where
  "cache_configured a \<longleftrightarrow> (ag_cache a \<noteq> None \<longrightarrow> cache_enabled a)"

lemma cache_enabled_cong:
  "cf_CacheConfig (ag_config a') = cf_CacheConfig (ag_config a) \<Longrightarrow> (ag_cache a' = None) = (ag_cache a = None)
   \<Longrightarrow> cache_configured a' = cache_configured a"
  by (auto simp: cache_configured_def cache_enabled_def)

lemma New_configured: "New ou now opts = Inr a \<Longrightarrow> cache_configured a"
  by (auto simp: New_def init_cache_def prepareLocalPolicies_def Let_def cache_configured_def cache_enabled_def
      split: if_splits option.splits cache_type.splits sum.splits)

lemma cache_lookup_frame:
  "ag_config (snd (cache_lookup ou ops rd q input a)) = ag_config a"
  "ag_cache (snd (cache_lookup ou ops rd q input a)) = None \<longleftrightarrow> ag_cache a = None"
  by (auto simp: cache_lookup_def split: option.splits prod.splits)

lemma cache_store_frame2:
  "ag_config (cache_store ou ops rd q input d a) = ag_config a"
  "ag_cache (cache_store ou ops rd q input d a) = None \<longleftrightarrow> ag_cache a = None"
  by (auto simp: cache_store_def split: option.splits)

lemma EvaluateQuery_frame:
  "ag_config (snd (EvaluateQuery ou ops rd q input a)) = ag_config a \<and>
   (ag_cache (snd (EvaluateQuery ou ops rd q input a)) = None \<longleftrightarrow> ag_cache a = None)"
proof (cases "transform_input (cf_ContextTransformers (ag_config a)) input")
  case (Some ti)
  obtain found a1 where look: "cache_lookup ou ops rd q ti a = (found, a1)" by fastforce
  obtain res a2 where ev: "evaluate_source ou rd q ti a1 = (res, a2)" by fastforce
  show ?thesis
    using cache_lookup_frame [of ou ops rd q ti a] evaluate_source_frame [of ou rd q ti a1]
    by (auto simp: EvaluateQuery_def Some look ev Let_def cache_store_frame2 split: option.splits sum.splits)
qed (simp add: EvaluateQuery_def)

lemma UpdatePolicies_frame:
  "cf_CacheConfig (ag_config (snd (UpdatePolicies ou ops now ps a))) = cf_CacheConfig (ag_config a)"
  "ag_cache (snd (UpdatePolicies ou ops now ps a)) = None \<longleftrightarrow> ag_cache a = None"
  by (auto simp: UpdatePolicies_def prepareLocalPolicies_def Let_def split: option.splits)

lemma agent_run_configured: "agent_run ou ops xpeek a \<Longrightarrow> cache_configured a"
proof (induction rule: agent_run.induct)
  case (run_new now opts a)
  then show ?case by (simp add: New_configured)
next
  case (run_eval a rd q input)
  with EvaluateQuery_frame [of ou ops rd q input a] show ?case by (metis cache_enabled_cong)
next
  case (run_update a now ps)
  with UpdatePolicies_frame [of ou ops now ps a] show ?case by (metis cache_enabled_cong)
qed

lemma New_cache:
  "New ou now opts = Inr a \<Longrightarrow>
   ag_cache a = None \<or> (\<exists>n. ag_cache a = Some (MemCache (NewMemoryCache n))) \<or> (\<exists>x. ag_cache a = Some (ExtCache x))"
  by (auto simp: New_def init_cache_def prepareLocalPolicies_def Let_def
      split: if_splits option.splits cache_type.splits sum.splits)

lemma agent_run_sound:
  assumes "external_cache xpeek ops" and "agent_run ou ops xpeek a"
  shows "cache_sound ou xpeek a"
  using assms(2)
proof (induction rule: agent_run.induct)
  case (run_new now opts a)
  from New_cache [OF run_new(1)] run_new(2) show ?case
    by (auto simp: cache_sound_def peek_entry_def NewMemoryCache_def)
next
  case (run_eval a rd q input)
  then show ?case by (simp add: external_cache.EvaluateQuery_sound [OF assms(1)])
next
  case (run_update a now ps)
  then show ?case
    using agent_run_configured [of ou ops xpeek a]
    by (simp add: external_cache.UpdatePolicies_sound [OF assms(1)] cache_configured_def)
qed

text \<open>The memory cache also serves as an external cache.\<close>

definition memory_ops :: "decision memory_cache cache_ops" where
  "memory_ops = \<lparr>co_Get = Get, co_Set = Set, co_Delete = Delete, co_Clear = Clear\<rparr>"

interpretation mem_ext: external_cache peek_entry memory_ops
  by (simp add: external_cache_def memory_ops_def mdc.decision_cache_axioms)

lemma agent_decision_source:
  assumes "external_cache xpeek ops" and "agent_run ou ops xpeek a"
    and "fst (EvaluateQuery ou ops rd q input a) = Inr d"
  shows "\<exists>ti q' ti' d0. transform_input (cf_ContextTransformers (ag_config a)) input = Some ti
    \<and> verdict ou a q' ti' = Inr d0
    \<and> d = d0\<lparr>de_Cached := de_Cached d, de_Timestamp := de_Timestamp d\<rparr>
    \<and> (if de_Cached d then generateCacheKey ou (ag_config a) q ti = generateCacheKey ou (ag_config a) q' ti'
       else q' = q \<and> ti' = ti)"
proof -
  note sound = agent_run_sound [OF assms(1,2)]
  from assms(3) obtain ti where ti: "transform_input (cf_ContextTransformers (ag_config a)) input = Some ti"
    by (cases "transform_input (cf_ContextTransformers (ag_config a)) input") (auto simp: EvaluateQuery_def)
  obtain found a1 where look: "cache_lookup ou ops rd q ti a = (found, a1)" by fastforce
  show ?thesis
  proof (cases found)
    case None
    have "verdict ou a1 = verdict ou a"
      using external_cache.cache_lookup_sound [OF assms(1) sound look] by simp
    with assms(3) None ti look evaluate_source_verdict [of ou rd q ti a1]
    obtain d0 where d0: "verdict ou a q ti = Inr d0" "d = d0\<lparr>de_Timestamp := re_stamp rd\<rparr>"
      by (auto simp: EvaluateQuery_def Let_def split: prod.splits sum.splits)
    from verdict_fresh [OF d0(1)] d0(2) have "\<not> de_Cached d" by simp
    with d0 ti verdict_fresh [OF d0(1)] show ?thesis by (intro exI [of _ ti] exI [of _ q] exI [of _ d0]) simp
  next
    case (Some e)
    with external_cache.cache_lookup_None_or_peek [OF assms(1) look] obtain cache key where
      c: "ag_cache a = Some cache" "generateCacheKey ou (ag_config a) q ti = Some key"
         "any_peek xpeek (re_get1 rd) key cache = Some e" by auto
    with sound obtain q' ti' d0 t where
      k: "generateCacheKey ou (ag_config a) q' ti' = Some key" "verdict ou a q' ti' = Inr d0"
      and e: "e = d0\<lparr>de_Timestamp := t\<rparr>" unfolding cache_sound_def by blast
    from assms(3) Some ti look have "d = e\<lparr>de_Cached := True\<rparr>" by (simp add: EvaluateQuery_def)
    with e have "d = d0\<lparr>de_Cached := True, de_Timestamp := t\<rparr>" by simp
    with k c(2) ti show ?thesis
      by (intro exI [of _ ti] exI [of _ q'] exI [of _ ti'] exI [of _ d0]) simp
  qed
qed

section \<open>Properties\<close>


text \<open>An evaluation does not read the source text of the policies, only their compiled form.\<close>

definition with_policies :: "policies \<Rightarrow> ('p, 'x) agent \<Rightarrow> ('p, 'x) agent" where
  "with_policies ps a = a\<lparr>ag_config := (ag_config a)\<lparr>cf_LocalPolicies := ps\<rparr>\<rparr>"

lemma with_policies_frame [simp]:
  "cf_Source (ag_config (with_policies ps a)) = cf_Source (ag_config a)"
  "cf_ExternalOPAURL (ag_config (with_policies ps a)) = cf_ExternalOPAURL (ag_config a)"
  "ag_queries (with_policies ps a) = ag_queries a"
  by (simp_all add: with_policies_def)

lemma cache_lookup_policies:
  "cache_lookup ou ops rd q input (with_policies ps a) = apsnd (with_policies ps) (cache_lookup ou ops rd q input a)"
  by (simp add: cache_lookup_def with_policies_def cache_enabled_def generateCacheKey_def split: option.splits prod.splits)

lemma external_policies: "evaluateExternalPolicy ou q input (with_policies ps a) = evaluateExternalPolicy ou q input a"
  unfolding evaluateExternalPolicy_def by (simp only: with_policies_frame)

lemma evaluate_source_policies:
  "fst (evaluate_source ou rd q input (with_policies ps a)) = fst (evaluate_source ou rd q input a)"
  by (cases "cf_Source (ag_config a)"; cases "mget (ag_queries a) q")
    (simp_all add: evaluate_source_def external_policies evaluateLocalPolicy_def split: option.split)

lemma EvaluateQuery_fst:
  "fst (EvaluateQuery ou ops rd q input a) =
     (case transform_input (cf_ContextTransformers (ag_config a)) input of
        None \<Rightarrow> Inl TransformFailed
      | Some ti \<Rightarrow>
          (case fst (cache_lookup ou ops rd q ti a) of
             Some d \<Rightarrow> Inr (d\<lparr>de_Cached := True\<rparr>)
           | None \<Rightarrow> map_sum id (\<lambda>d. d\<lparr>de_Timestamp := re_stamp rd\<rparr>)
                       (fst (evaluate_source ou rd q ti (snd (cache_lookup ou ops rd q ti a))))))"
  by (simp add: EvaluateQuery_def Let_def split: option.splits prod.splits sum.splits)

lemma EvaluateQuery_policies:
  "fst (EvaluateQuery ou ops rd q input (with_policies ps a)) = fst (EvaluateQuery ou ops rd q input a)"
  by (simp only: EvaluateQuery_fst cache_lookup_policies fst_apsnd snd_apsnd evaluate_source_policies)
    (simp add: with_policies_def)

text \<open>A successful policy update takes effect at once: the policies compiled, and the next
  evaluation of the default query, on any input, is the result of the new policies and is not served
  from the cache. An update that fails (policies that do not compile, or an agent on an external
  server) leaves the answer of every evaluation as it was.\<close>

lemma policy_update_takes_effect:
  assumes laws: "external_cache xpeek ops" and upd: "UpdatePolicies ou ops now ps a = (err, a')"
    and run: "agent_run ou ops xpeek a"
  shows "case err of
      None \<Rightarrow> \<exists>p. ou_prepare ou (cf_DefaultQuery (ag_config a)) ps = Some p \<and>
        (\<forall>rd input. fst (Evaluate ou ops rd input a') =
          (case transform_input (cf_ContextTransformers (ag_config a)) input of
             None \<Rightarrow> Inl TransformFailed
           | Some ti \<Rightarrow> (case ou_eval ou p ti of
                 None \<Rightarrow> Inl EvalFailed
               | Some results \<Rightarrow> Inr ((local_result results)\<lparr>de_Timestamp := re_stamp rd\<rparr>))))
    | Some e \<Rightarrow> \<forall>rd q input. fst (EvaluateQuery ou ops rd q input a') = fst (EvaluateQuery ou ops rd q input a)"
proof (cases err)
  case (Some e)
  with upd have "a' = a \<or> a' = with_policies ps a"
    by (auto simp: UpdatePolicies_def prepareLocalPolicies_def with_policies_def Let_def split: if_splits option.splits)
  with Some show ?thesis by (auto simp: EvaluateQuery_policies)
next
  case None
  let ?q = "cf_DefaultQuery (ag_config a)"
  from upd None obtain p where p: "ou_prepare ou ?q ps = Some p" "cf_Source (ag_config a) = PolicySourceLocal"
    by (auto simp: UpdatePolicies_def prepareLocalPolicies_def Let_def split: if_splits option.splits)
  from upd None p have a': "ag_config a' = (ag_config a)\<lparr>cf_LocalPolicies := ps\<rparr>"
      "mget (ag_queries a') ?q = Some \<lparr>pq_query = p, pq_lastUsed = now\<rparr>"
      "ag_cache a' = None \<or> cache_enabled a' = False \<or> (\<exists>c. ag_cache a' = Some (any_clear ops c))"
    by (auto simp: UpdatePolicies_def prepareLocalPolicies_def Let_def mget_mput cache_enabled_def split: if_splits)
  have "agent_run ou ops xpeek a'" using run_update [OF run, of now ps] upd by simp
  note sound = agent_run_sound [OF laws this]
  have miss: "fst (cache_lookup ou ops rd ?q ti a') = None" for rd ti
  proof -
    obtain found a1 where look: "cache_lookup ou ops rd ?q ti a' = (found, a1)" by fastforce
    have "found = None"
      using external_cache.cache_lookup_None_or_peek [OF laws look] a'(3) look external_cache.cleared [OF laws]
      by (auto simp: cache_lookup_def split: option.splits)
    with look show ?thesis by simp
  qed
  have "verdict ou (snd (cache_lookup ou ops rd ?q ti a')) = verdict ou a'" for rd ti
    using external_cache.cache_lookup_sound(3) [OF laws sound] by (metis prod.collapse)
  then have "fst (Evaluate ou ops rd input a') =
      (case transform_input (cf_ContextTransformers (ag_config a)) input of
         None \<Rightarrow> Inl TransformFailed
       | Some ti \<Rightarrow> map_sum id (\<lambda>d. d\<lparr>de_Timestamp := re_stamp rd\<rparr>) (verdict ou a' ?q ti))" for rd input
    by (simp add: Evaluate_def EvaluateQuery_fst miss a'(1) evaluate_source_verdict split: option.split)
  moreover have "verdict ou a' ?q ti = (case ou_eval ou p ti of
      None \<Rightarrow> Inl EvalFailed | Some results \<Rightarrow> Inr (local_result results))" for ti
    by (simp add: verdict_def a'(1,2) p(2))
  ultimately show ?thesis
    using None p(1) by (auto split: option.split)
qed

text \<open>Restricting the cache key to listed fields keeps exactly those fields of the input: along
  the path of every listed field the restricted input has what the input has, including nothing where
  the input has nothing, even when one field is inside another.\<close>

lemma filter_keeps_fields:
  assumes "fld \<in> set flds"
  shows "\<exists>f. filterInputFields (GMap m) flds = GMap f \<and>
    getNestedValue f (splitPath fld) = getNestedValue m (splitPath fld)"
proof -
  have "adds_nothing [] m" by (simp add: adds_nothing_def)
  from filter_fold [OF this, of flds] assms show ?thesis
    unfolding adds_nothing_def filterInputFields_map by (metis gvalue.inject(5) imageI)
qed

section \<open>Witnesses\<close>

text \<open>A policy compiler for two policies, one that allows and one that denies everything.\<close>

definition sample_outside :: "bool outside" where
  "sample_outside =
     \<lparr>ou_prepare = (\<lambda>q ps. map_option (\<lambda>body. body = ''allow'') (mget ps ''authz'')),
      ou_eval = (\<lambda>p v. Some [[GBool p]]), ou_post = (\<lambda>url body. Unreachable),
      ou_marshal = (\<lambda>v. Some ''?''), ou_hash = (\<lambda>body. body)\<rparr>"

definition sample_reading :: reading where
  "sample_reading = \<lparr>re_get1 = 1, re_get2 = 2, re_used = 3, re_stamp = 4, re_set1 = 5, re_set2 = 6, re_order = []\<rparr>"

definition sample_agent :: "(bool, decision memory_cache) agent" where
  "sample_agent = projr (New sample_outside 1 [WithLocalPolicies [(''authz'', ''allow'')], WithMemoryCache (minutes 5) 100])"

lemma sample_agent_run: "agent_run sample_outside memory_ops peek_entry sample_agent"
proof (rule run_new)
  have "is_ok (New sample_outside 1 [WithLocalPolicies [(''authz'', ''allow'')], WithMemoryCache (minutes 5) 100]
      :: agent_error + (bool, decision memory_cache) agent)"
    by code_simp
  then show "New sample_outside 1 [WithLocalPolicies [(''authz'', ''allow'')], WithMemoryCache (minutes 5) 100]
      = Inr sample_agent"
    by (auto simp: sample_agent_def is_ok_iff)
  fix x t k
  have "ag_cache sample_agent = Some (MemCache (NewMemoryCache 100))" by code_simp
  moreover assume "ag_cache sample_agent = Some (ExtCache x)"
  ultimately show "peek_entry t k x = None" by simp
qed

definition sample_query :: string where
  "sample_query = ''data.authz.allow''"

definition sample_warm :: "(bool, decision memory_cache) agent" where
  "sample_warm = snd (EvaluateQuery sample_outside memory_ops sample_reading sample_query (GStr ''bob'') sample_agent)"


lemma policy_update_takes_effect_witness:
  "de_Allowed (projr (fst (Evaluate sample_outside memory_ops sample_reading (GStr ''bob'') sample_warm)))
   \<and> \<not> de_Allowed (projr (fst (Evaluate sample_outside memory_ops sample_reading (GStr ''bob'')
         (snd (UpdatePolicies sample_outside memory_ops 7 [(''authz'', ''deny'')] sample_warm)))))"
proof
  show "de_Allowed (projr (fst (Evaluate sample_outside memory_ops sample_reading (GStr ''bob'') sample_warm)))"
    by code_simp
  have run: "agent_run sample_outside memory_ops peek_entry sample_warm"
    unfolding sample_warm_def by (rule run_eval [OF sample_agent_run])
  let ?u = "UpdatePolicies sample_outside memory_ops 7 [(''authz'', ''deny'')] sample_warm"
  have "fst ?u = None" by code_simp
  then have u: "?u = (None, snd ?u)" by (metis prod.collapse)
  have cfg: "cf_ContextTransformers (ag_config sample_warm) = []" by code_simp
  from policy_update_takes_effect [OF mem_ext.external_cache_axioms u run] obtain p where
    "ou_prepare sample_outside (cf_DefaultQuery (ag_config sample_warm)) [(''authz'', ''deny'')] = Some p"
    and "fst (Evaluate sample_outside memory_ops sample_reading (GStr ''bob'') (snd ?u)) =
      (case ou_eval sample_outside p (GStr ''bob'') of
         None \<Rightarrow> Inl EvalFailed
       | Some results \<Rightarrow> Inr ((local_result results)\<lparr>de_Timestamp := re_stamp sample_reading\<rparr>))"
    by (auto simp: cfg)
  then show "\<not> de_Allowed (projr (fst (Evaluate sample_outside memory_ops sample_reading (GStr ''bob'') (snd ?u))))"
    by (auto simp: sample_outside_def local_result_def read_result_def new_decision_def)
qed

lemma filter_keeps_fields_witness:
  "\<exists>f. filterInputFields (GMap [(''user'', GMap [(''id'', GStr ''7''), (''ip'', GStr ''x'')])]) [''user.id''] = GMap f
     \<and> getNestedValue f (splitPath ''user.id'') = GStr ''7''"
proof -
  have "getNestedValue [(''user'', GMap [(''id'', GStr ''7''), (''ip'', GStr ''x'')])] (splitPath ''user.id'') = GStr ''7''"
    by code_simp
  then show ?thesis
    using filter_keeps_fields [of "''user.id''" "[''user.id'']" "[(''user'', GMap [(''id'', GStr ''7''), (''ip'', GStr ''x'')])]"]
    by simp
qed

end
