(* ===== verification/AuthzHttp.thy ===== *)
theory AuthzHttp
  imports PolicyAgent
begin

text \<open>
  The HTTP side of the authorization library: the webhook that pushes policies
  (\<open>authz/webhook.go\<close>), the two middlewares (\<open>authz/middleware.go\<close>) and the role transformer
  (\<open>authz/roles/roles.go\<close>).

  What the handlers use of packages \<open>net\<close>, \<open>encoding\<close> and \<open>crypto\<close> is given by the records
  \<open>net_ops\<close> and \<open>sign_ops\<close>. The body of a request is an argument, \<open>None\<close> when reading it fails.
\<close>

section \<open>The webhook\<close>

record 'ip net_ops =
  nt_SplitHostPort :: "string \<Rightarrow> string option"
  nt_ParseIP :: "string \<Rightarrow> 'ip option"
  nt_ParseCIDR :: "string \<Rightarrow> ('ip \<Rightarrow> bool) option"
  nt_Equal :: "'ip \<Rightarrow> 'ip \<Rightarrow> bool"

record policy_update =
  pu_Policies :: policies
  pu_Signature :: string

record sign_ops =
  sg_unmarshal :: "string \<Rightarrow> policy_update option"
  sg_marshal :: "policies \<Rightarrow> string option"
  sg_hex_decode :: "string \<Rightarrow> string option"
  sg_hmac :: "string \<Rightarrow> string \<Rightarrow> string"

definition RegisterWebhook :: "('p, 'x) agent \<Rightarrow> string option" where
  "RegisterWebhook a =
     (case cf_WebhookConfig (ag_config a) of
        None \<Rightarrow> None
      | Some wc \<Rightarrow> if cf_Source (ag_config a) \<noteq> PolicySourceLocal then None else Some (wh_Endpoint wc))"

definition getClientIP :: "'ip net_ops \<Rightarrow> request \<Rightarrow> string" where
  "getClientIP net r =
     (let forwardedFor = header_get r ''X-Forwarded-For'' in
      if forwardedFor \<noteq> [] then TrimSpace (Split (CHR '','') forwardedFor ! 0)
      else (case nt_SplitHostPort net (rq_RemoteAddr r) of None \<Rightarrow> rq_RemoteAddr r | Some ip \<Rightarrow> ip))"

definition source_matches :: "'ip net_ops \<Rightarrow> 'ip \<Rightarrow> string \<Rightarrow> bool" where
  "source_matches net clientIP source =
     (if Contains source ''/'' then
        (case nt_ParseCIDR net source of None \<Rightarrow> False | Some ipNet \<Rightarrow> ipNet clientIP)
      else (case nt_ParseIP net source of None \<Rightarrow> False | Some allowedIP \<Rightarrow> nt_Equal net allowedIP clientIP))"

definition isAllowedIP :: "'ip net_ops \<Rightarrow> string \<Rightarrow> string list \<Rightarrow> bool" where
  "isAllowedIP net ip allowedSources =
     (case nt_ParseIP net ip of
        None \<Rightarrow> False
      | Some clientIP \<Rightarrow> list_ex (source_matches net clientIP) allowedSources)"

definition verifySignature :: "sign_ops \<Rightarrow> string \<Rightarrow> string \<Rightarrow> string \<Rightarrow> bool" where
  "verifySignature sg payload signature secret =
     (case sg_hex_decode sg signature of
        None \<Rightarrow> False
      | Some bytes \<Rightarrow> bytes = sg_hmac sg secret payload)"

text \<open>The test of the signature: the status code of the refusal, or none.\<close>

definition check_signature :: "sign_ops \<Rightarrow> webhook_config \<Rightarrow> policy_update \<Rightarrow> (string \<times> nat) option" where
  "check_signature sg wc update =
     (if wh_Secret wc \<noteq> [] then
        (case sg_marshal sg (pu_Policies update) of
           None \<Rightarrow> Some (''Error validating signature'', 500)
         | Some policiesJSON \<Rightarrow>
             if \<not> verifySignature sg policiesJSON (pu_Signature update) (wh_Secret wc)
             then Some (''Invalid signature'', 401) else None)
      else None)"

text \<open>Without a webhook configuration the handler is never registered.\<close>

definition webhookHandler ::
  "'p outside \<Rightarrow> 'x cache_ops \<Rightarrow> 'ip net_ops \<Rightarrow> sign_ops \<Rightarrow> time \<Rightarrow> string option \<Rightarrow> ('p, 'x) agent handler" where
  "webhookHandler ou ops net sg now body r a =
     (if rq_Method r \<noteq> ''POST'' then (http_error ''Method not allowed'' 405, a)
      else (case cf_WebhookConfig (ag_config a) of
        None \<Rightarrow> ([], a)
      | Some wc \<Rightarrow>
          if length (wh_AllowedSources wc) > 0 \<and> \<not> isAllowedIP net (getClientIP net r) (wh_AllowedSources wc)
          then (http_error ''Unauthorized source'' 403, a)
          else (case body of
            None \<Rightarrow> (http_error ''Error reading request body'' 400, a)
          | Some bytes \<Rightarrow>
              (case sg_unmarshal sg bytes of
                 None \<Rightarrow> (http_error ''Error parsing request body'' 400, a)
               | Some update \<Rightarrow>
                   (case check_signature sg wc update of
                      Some (msg, code) \<Rightarrow> (http_error msg code, a)
                    | None \<Rightarrow>
                        (case UpdatePolicies ou ops now (pu_Policies update) a of
                           (Some err, a') \<Rightarrow> (http_error ''Error updating policies'' 500, a')
                         | (None, a') \<Rightarrow> ([WriteHeader 200], a')))))))"

section \<open>The middlewares\<close>

definition extractUserID :: "gvalue \<Rightarrow> string option" where
  "extractUserID input =
     (case input of
        GMap inputMap \<Rightarrow>
          (case (case mget inputMap ''user'' of
                   Some (GMap user) \<Rightarrow> (case mget user ''id'' of Some (GStr i) \<Rightarrow> Some i | _ \<Rightarrow> None)
                 | _ \<Rightarrow> None) of
             Some i \<Rightarrow> Some i
           | None \<Rightarrow> (case mget inputMap ''subject'' of Some (GStr s) \<Rightarrow> Some s | _ \<Rightarrow> None))
      | _ \<Rightarrow> None)"

definition enrichInputWithRoles :: "gvalue \<Rightarrow> string list \<Rightarrow> gvalue" where
  "enrichInputWithRoles input roles =
     (case input of
        GMap inputMap \<Rightarrow>
          (case mget inputMap ''user'' of
             Some (GMap user) \<Rightarrow> GMap (mput ''user'' (GMap (mput ''roles'' (GStrings roles) user)) inputMap)
           | _ \<Rightarrow> GMap (mput ''user'' (GMap [(''roles'', GStrings roles)]) inputMap))
      | _ \<Rightarrow> input)"

definition CreateRoleTransformer :: "(string \<Rightarrow> string list option) \<Rightarrow> gvalue \<Rightarrow> gvalue option" where
  "CreateRoleTransformer provider input =
     (case extractUserID input of
        None \<Rightarrow> Some input
      | Some userID \<Rightarrow>
          (case provider userID of None \<Rightarrow> Some input | Some roles \<Rightarrow> Some (enrichInputWithRoles input roles)))"

record middleware_options =
  mo_InputTransformer :: "request \<Rightarrow> (string, gvalue) gomap"
  mo_UnauthorizedHandler :: "request \<Rightarrow> write_call list"
  mo_CacheKeyFn :: "(request \<Rightarrow> string) option"

definition WithInputTransformer :: "(request \<Rightarrow> (string, gvalue) gomap) \<Rightarrow> middleware_options \<Rightarrow> middleware_options" where
  "WithInputTransformer fn opts = opts\<lparr>mo_InputTransformer := fn\<rparr>"

definition WithUnauthorizedHandler :: "(request \<Rightarrow> write_call list) \<Rightarrow> middleware_options \<Rightarrow> middleware_options" where
  "WithUnauthorizedHandler fn opts = opts\<lparr>mo_UnauthorizedHandler := fn\<rparr>"

definition WithCacheKey :: "(request \<Rightarrow> string) \<Rightarrow> middleware_options \<Rightarrow> middleware_options" where
  "WithCacheKey fn opts = opts\<lparr>mo_CacheKeyFn := Some fn\<rparr>"

definition defaultInputTransformer :: "request \<Rightarrow> (string, gvalue) gomap" where
  "defaultInputTransformer r =
     (let input = [(''method'', GStr (rq_Method r)), (''path'', GStr (rq_Path r)), (''headers'', GMap [])];
          roles = header_get r ''X-User-Roles''
      in if roles \<noteq> [] then mput ''user'' (GMap [(''roles'', GStrings [roles])]) input else input)"

definition defaultUnauthorizedHandler :: "request \<Rightarrow> write_call list" where
  "defaultUnauthorizedHandler r = http_error ''Forbidden'' 403"

definition default_options :: middleware_options where
  "default_options =
     \<lparr>mo_InputTransformer = defaultInputTransformer, mo_UnauthorizedHandler = defaultUnauthorizedHandler,
      mo_CacheKeyFn = None\<rparr>"

text \<open>The state behind the handlers is the agent and the state of the next handler.\<close>

definition RequireAuth ::
  "'p outside \<Rightarrow> 'x cache_ops \<Rightarrow> reading \<Rightarrow> (middleware_options \<Rightarrow> middleware_options) list \<Rightarrow> 'w handler
   \<Rightarrow> (('p, 'x) agent \<times> 'w) handler" where
  "RequireAuth ou ops rd options next r aw =
     (let opts = fold (\<lambda>opt o'. opt o') options default_options;
          input = GMap (mo_InputTransformer opts r)
      in case Evaluate ou ops rd input (fst aw) of
           (Inl err, a') \<Rightarrow> (http_error ''Unauthorized'' 401, (a', snd aw))
         | (Inr decision, a') \<Rightarrow>
             if \<not> de_Allowed decision then (mo_UnauthorizedHandler opts r, (a', snd aw))
             else (let (calls, w') = next r (snd aw) in (calls, (a', w'))))"

definition enriched_input :: "('p, 'x) agent \<Rightarrow> gvalue \<Rightarrow> gvalue" where
  "enriched_input a input =
     (case cf_RoleProvider (ag_config a) of
        None \<Rightarrow> input
      | Some GetRoles \<Rightarrow>
          (case extractUserID input of
             None \<Rightarrow> input
           | Some userID \<Rightarrow>
               (case GetRoles userID of None \<Rightarrow> input | Some roles \<Rightarrow> enrichInputWithRoles input roles)))"

definition Middleware ::
  "'p outside \<Rightarrow> 'x cache_ops \<Rightarrow> reading \<Rightarrow> (request \<Rightarrow> gvalue option) \<Rightarrow> 'w handler \<Rightarrow> (('p, 'x) agent \<times> 'w) handler" where
  "Middleware ou ops rd extractInput next r aw =
     (case extractInput r of
        None \<Rightarrow> (http_error ''Unauthorized'' 401, aw)
      | Some input0 \<Rightarrow>
          (case Evaluate ou ops rd (enriched_input (fst aw) input0) (fst aw) of
             (Inl err, a') \<Rightarrow> (http_error ''Unauthorized'' 401, (a', snd aw))
           | (Inr decision, a') \<Rightarrow>
               if \<not> de_Allowed decision then
                 (if de_Reason decision \<noteq> [] then http_error (de_Reason decision) 403 else http_error ''Forbidden'' 403,
                  (a', snd aw))
               else (let (calls, w') = next r (snd aw) in (calls, (a', w')))))"

section \<open>Reuse of a decision\<close>

context external_cache
begin

lemma stored_decision_found:
  assumes "cache_enabled a" and "cf_CacheConfig (ag_config a) = Some cc"
    and "generateCacheKey ou (ag_config a) q1 t1 = Some k" and "generateCacheKey ou (ag_config a) q2 t2 = Some k"
    and "cc_TTL cc \<noteq> - 1" "re_get1 rd2 \<le> re_set1 rd1 + cc_TTL cc \<or> cc_TTL cc \<le> 0"
  shows "fst (cache_lookup ou ops rd2 q2 t2 (cache_store ou ops rd1 q1 t1 d a)) = Some d"
proof -
  from assms(1) obtain cache where c: "ag_cache a = Some cache" by (auto simp: cache_enabled_def)
  let ?c = "any_set ops (re_order rd1) (re_set1 rd1) (re_set2 rd1) k d (cc_TTL cc) cache"
  have "cache_store ou ops rd1 q1 t1 d a = a\<lparr>ag_cache := Some ?c\<rparr>"
    using assms(1-3) c by (simp add: cache_store_def)
  moreover have "cache_enabled (a\<lparr>ag_cache := Some ?c\<rparr>)" using assms(1) by (simp add: cache_enabled_def)
  moreover have "fst (any_get ops (re_get1 rd2) (re_get2 rd2) k ?c) = Some d"
    using any.get_after_put [OF assms(5,6)] .
  ultimately show ?thesis using assms(4) by (simp add: cache_lookup_def case_prod_beta)
qed

lemma same_key_same_decision:
  assumes "cache_sound ou xpeek a" and en: "cache_enabled a" and cc: "cf_CacheConfig (ag_config a) = Some cc"
    and keys: "generateCacheKey ou (ag_config a) q1 i1 = Some k" "generateCacheKey ou (ag_config a) q2 i2 = Some k"
    and plain: "cf_ContextTransformers (ag_config a) = []"
    and d: "fst (EvaluateQuery ou ops rd1 q1 i1 a) = Inr d" "\<not> de_Cached d"
    and ttl: "cc_TTL cc \<noteq> - 1" "re_get1 rd2 \<le> re_set1 rd1 + cc_TTL cc \<or> cc_TTL cc \<le> 0"
  shows "fst (EvaluateQuery ou ops rd2 q2 i2 (snd (EvaluateQuery ou ops rd1 q1 i1 a))) = Inr (d\<lparr>de_Cached := True\<rparr>)"
proof -
  obtain found a1 where look: "cache_lookup ou ops rd1 q1 i1 a = (found, a1)" by fastforce
  obtain res a2 where ev: "evaluate_source ou rd1 q1 i1 a1 = (res, a2)" by fastforce
  have a2: "ag_config a2 = ag_config a" "ag_cache a2 = None \<longleftrightarrow> ag_cache a = None"
    using cache_lookup_frame [of ou ops rd1 q1 i1 a] evaluate_source_frame [of ou rd1 q1 i1 a1] look ev by simp_all
  from d look ev plain have a3: "snd (EvaluateQuery ou ops rd1 q1 i1 a) = cache_store ou ops rd1 q1 i1 d a2"
    by (auto simp: EvaluateQuery_def Let_def split: option.splits sum.splits)
  have "cache_enabled a2" using en a2 by (simp add: cache_enabled_def)
  then have "fst (cache_lookup ou ops rd2 q2 i2 (cache_store ou ops rd1 q1 i1 d a2)) = Some d"
    using stored_decision_found [of a2 cc] a2(1) cc keys ttl by simp
  then show ?thesis
    by (simp add: a3 EvaluateQuery_fst cache_store_frame a2(1) plain)
qed

end

lemma RequireAuth_allowed:
  "fst (Evaluate ou ops rd (GMap (defaultInputTransformer r)) a) = Inr d \<Longrightarrow> de_Allowed d
   \<Longrightarrow> fst (RequireAuth ou ops rd [] next r (a, w)) = fst (next r w)"
  by (cases "Evaluate ou ops rd (GMap (defaultInputTransformer r)) a")
    (simp add: RequireAuth_def Let_def default_options_def case_prod_beta)

text \<open>The text that is hashed for the default input, with and without the roles header.\<close>

lemma sort_keys4: "sort [''method'', ''path'', ''headers'', ''user''] = [''headers'', ''method'', ''path'', ''user'']"
  by code_simp

lemma sort_keys3: "sort [''method'', ''path'', ''headers''] = [''headers'', ''method'', ''path'']"
  by code_simp

lemma normalize_default_roles:
  assumes "header_get r ''X-User-Roles'' \<noteq> []" and "marshal (GStrings [header_get r ''X-User-Roles'']) = Some json"
  shows "normalizeForHashing marshal (GMap (defaultInputTransformer r)) =
    Some (CHR 0x7B # ''headers:'' @ [CHR 0x7B, CHR 0x7D] @ '',method:'' @ rq_Method r @ '',path:'' @ rq_Path r
      @ '',user:'' @ [CHR 0x7B] @ ''roles:'' @ json @ [CHR 0x7D, CHR 0x7D])"
  using assms by (simp add: defaultInputTransformer_def Let_def sort_keys4)

lemma normalize_default_plain:
  assumes "header_get r ''X-User-Roles'' = []"
  shows "normalizeForHashing marshal (GMap (defaultInputTransformer r)) =
    Some (CHR 0x7B # ''headers:'' @ [CHR 0x7B, CHR 0x7D] @ '',method:'' @ rq_Method r @ '',path:'' @ rq_Path r @ [CHR 0x7D])"
  using assms by (simp add: defaultInputTransformer_def Let_def sort_keys3)

section \<open>Properties\<close>


text \<open>The list of allowed sources does not restrict who can push policies: the address it is
  compared with is taken from a header the client sends. Whatever the address of the connection, a
  request that names an allowed address in X-Forwarded-For passes the test, and with no secret
  configured its policies are installed.\<close>

lemma source_check_spoofable:
  assumes cfg: "cf_WebhookConfig (ag_config a) = Some wc" "wh_Secret wc = []" "cf_Source (ag_config a) = PolicySourceLocal"
    and src: "s \<in> set (wh_AllowedSources wc)" "s \<noteq> []" "CHR '','' \<notin> set s" "\<not> Contains s ''/''"
      "TrimSpace s = s" "nt_ParseIP net s = Some ip" "nt_Equal net ip ip"
    and req: "rq_Method r = ''POST''" "sg_unmarshal sg bytes = Some update"
      "ou_prepare ou (cf_DefaultQuery (ag_config a)) (pu_Policies update) = Some p"
  shows "webhookHandler ou ops net sg now (Some bytes) (header_set ''X-Forwarded-For'' s r) a
    = ([WriteHeader 200], snd (UpdatePolicies ou ops now (pu_Policies update) a))"
proof -
  have "getClientIP net (header_set ''X-Forwarded-For'' s r) = s"
    using src(2,3,5) Split_no_sep [of "CHR '',''" s] by (auto simp: getClientIP_def Let_def)
  moreover have "source_matches net ip s" using src(4,6,7) by (simp add: source_matches_def)
  ultimately have "isAllowedIP net (getClientIP net (header_set ''X-Forwarded-For'' s r)) (wh_AllowedSources wc)"
    using src(1,6) by (auto simp: isAllowedIP_def list_ex_iff)
  moreover have "fst (UpdatePolicies ou ops now (pu_Policies update) a) = None"
    using cfg(3) req(3) by (simp add: UpdatePolicies_def prepareLocalPolicies_def Let_def)
  ultimately show ?thesis
    using cfg(1,2) req by (simp add: webhookHandler_def check_signature_def case_prod_beta split: option.splits)
qed

text \<open>Both middlewares call the next handler only when the policies compiled at that moment allow
  the input made from the request, or allow another input with the same cache key; in every other case
  (an error of the evaluation or a denial) the next handler is not called and its state stays.\<close>

lemma middleware_follows_policies:
  assumes laws: "external_cache xpeek ops" and run: "agent_run ou ops xpeek a"
    and "h = RequireAuth ou ops rd options next \<and> input = GMap (mo_InputTransformer (fold (\<lambda>opt o'. opt o') options default_options) r)
       \<or> h = Middleware ou ops rd extract next \<and> extract r = Some input0 \<and> input = enriched_input a input0"
    and res: "h r (a, w) = (calls, (a', w'))"
  shows "w' = w \<or> (calls, w') = next r w \<and>
    (\<exists>ti q' ti' d0. transform_input (cf_ContextTransformers (ag_config a)) input = Some ti
      \<and> verdict ou a q' ti' = Inr d0 \<and> de_Allowed d0
      \<and> (q' = cf_DefaultQuery (ag_config a) \<and> ti' = ti
         \<or> generateCacheKey ou (ag_config a) (cf_DefaultQuery (ag_config a)) ti = generateCacheKey ou (ag_config a) q' ti'))"
proof -
  have "w' = w \<or> (calls, w') = next r w \<and> (\<exists>d. fst (Evaluate ou ops rd input a) = Inr d \<and> de_Allowed d)"
    using assms(3) res
    by (auto simp: RequireAuth_def Middleware_def Let_def split: prod.splits sum.splits if_splits)
  then show ?thesis
  proof
    assume "(calls, w') = next r w \<and> (\<exists>d. fst (Evaluate ou ops rd input a) = Inr d \<and> de_Allowed d)"
    then obtain d where n: "(calls, w') = next r w" and
      d: "fst (EvaluateQuery ou ops rd (cf_DefaultQuery (ag_config a)) input a) = Inr d" "de_Allowed d"
      by (auto simp: Evaluate_def)
    obtain ti q' ti' d0 where t: "transform_input (cf_ContextTransformers (ag_config a)) input = Some ti"
      and v: "verdict ou a q' ti' = Inr d0" and dd: "d = d0\<lparr>de_Cached := de_Cached d, de_Timestamp := de_Timestamp d\<rparr>"
      and k: "if de_Cached d then generateCacheKey ou (ag_config a) (cf_DefaultQuery (ag_config a)) ti
            = generateCacheKey ou (ag_config a) q' ti' else q' = cf_DefaultQuery (ag_config a) \<and> ti' = ti"
      using agent_decision_source [OF laws run d(1)] by blast
    from arg_cong [OF dd, of de_Allowed] d(2) have "de_Allowed d0" by simp
    with n t v k show ?thesis by (metis (full_types))
  qed simp
qed

text \<open>Two different requests can share a cached decision. A request without the roles header whose
  path ends in the text that the roles of another request contribute to the cache key is answered with
  the decision made for that other request: the next handler is called for it although no policy has
  been evaluated on it.\<close>

lemma forged_path_reuses_decision:
  assumes laws: "external_cache xpeek ops" and run: "agent_run ou ops xpeek a"
    and cache: "cache_enabled a" "cf_CacheConfig (ag_config a) = Some cc" "cc_CacheKeyFields cc = []"
      "cf_ContextTransformers (ag_config a) = []"
    and r1: "header_get r1 ''X-User-Roles'' \<noteq> []" "ou_marshal ou (GStrings [header_get r1 ''X-User-Roles'']) = Some json"
    and r2: "header_get r2 ''X-User-Roles'' = []" "rq_Method r2 = rq_Method r1"
      "rq_Path r2 = rq_Path r1 @ '',user:'' @ [CHR 0x7B] @ ''roles:'' @ json @ [CHR 0x7D]"
    and d: "fst (Evaluate ou ops rd1 (GMap (defaultInputTransformer r1)) a) = Inr d" "\<not> de_Cached d" "de_Allowed d"
    and ttl: "cc_TTL cc \<noteq> - 1" "re_get1 rd2 \<le> re_set1 rd1 + cc_TTL cc \<or> cc_TTL cc \<le> 0"
  shows "fst (RequireAuth ou ops rd2 [] next r2 (fst (snd (RequireAuth ou ops rd1 [] next r1 (a, w1))), w2)) = fst (next r2 w2)"
proof -
  let ?q = "cf_DefaultQuery (ag_config a)"
  let ?i1 = "GMap (defaultInputTransformer r1)" and ?i2 = "GMap (defaultInputTransformer r2)"
  have "generateCacheKey ou (ag_config a) ?q ?i2 = generateCacheKey ou (ag_config a) ?q ?i1"
    "generateCacheKey ou (ag_config a) ?q ?i1 \<noteq> None"
    using normalize_default_roles [of r1 "ou_marshal ou" json] normalize_default_plain [of r2 "ou_marshal ou"] r1 r2
    by (simp_all add: generateCacheKey_def hashInput_def cache)
  then obtain k where k: "generateCacheKey ou (ag_config a) ?q ?i1 = Some k" "generateCacheKey ou (ag_config a) ?q ?i2 = Some k"
    by auto
  let ?a1 = "snd (EvaluateQuery ou ops rd1 ?q ?i1 a)"
  have "fst (EvaluateQuery ou ops rd2 ?q ?i2 ?a1) = Inr (d\<lparr>de_Cached := True\<rparr>)"
    using external_cache.same_key_same_decision [OF laws agent_run_sound [OF laws run] cache(1,2) k cache(4) _ d(2) ttl]
      d(1) by (simp add: Evaluate_def)
  moreover have "ag_config ?a1 = ag_config a" using EvaluateQuery_frame by metis
  moreover have "fst (snd (RequireAuth ou ops rd1 [] next r1 (a, w1))) = ?a1"
    by (simp add: RequireAuth_def Let_def default_options_def Evaluate_def split: prod.splits sum.splits)
  ultimately show ?thesis
    using d(3) by (simp add: RequireAuth_allowed Evaluate_def)
qed

section \<open>Witnesses\<close>

definition sample_net :: "string net_ops" where
  "sample_net = \<lparr>nt_SplitHostPort = Some, nt_ParseIP = Some, nt_ParseCIDR = (\<lambda>s. None), nt_Equal = (=)\<rparr>"

text \<open>Signatures: the code of a message is the secret in front of it.\<close>

definition sample_sign :: sign_ops where
  "sample_sign =
     \<lparr>sg_unmarshal = (\<lambda>b. Some \<lparr>pu_Policies = [(''authz'', b)], pu_Signature = ''k'' @ b\<rparr>),
      sg_marshal = (\<lambda>ps. mget ps ''authz''), sg_hex_decode = Some, sg_hmac = (\<lambda>secret m. secret @ m)\<rparr>"

definition hooked :: "string \<Rightarrow> (bool, decision memory_cache) agent" where
  "hooked secret = sample_agent\<lparr>ag_config := WithWebhook ''/hook'' secret [''10.0.0.1''] (ag_config sample_agent)\<rparr>"

definition sample_post :: request where
  "sample_post = \<lparr>rq_Method = ''POST'', rq_Path = ''/hook'', rq_Header = [], rq_Query = [], rq_RemoteAddr = ''10.0.0.1'',
                  rq_ctx = background\<rparr>"


lemma source_check_spoofable_witness:
  "fst (webhookHandler sample_outside memory_ops sample_net sample_sign 9 (Some ''deny'')
     (header_set ''X-Forwarded-For'' ''10.0.0.1'' (sample_post\<lparr>rq_RemoteAddr := ''66.6.6.6''\<rparr>)) (hooked [])) = [WriteHeader 200]"
proof -
  let ?wc = "\<lparr>wh_Endpoint = ''/hook'', wh_Secret = [], wh_AllowedSources = [''10.0.0.1'']\<rparr>"
  let ?u = "\<lparr>pu_Policies = [(''authz'', ''deny'')], pu_Signature = ''kdeny''\<rparr>"
  have "cf_WebhookConfig (ag_config (hooked [])) = Some ?wc" "cf_Source (ag_config (hooked [])) = PolicySourceLocal"
    "\<not> Contains ''10.0.0.1'' ''/''" "TrimSpace ''10.0.0.1'' = ''10.0.0.1''"
    "ou_prepare sample_outside (cf_DefaultQuery (ag_config (hooked []))) (pu_Policies ?u) = Some False"
    by code_simp+
  then show ?thesis
    by (subst source_check_spoofable [where wc = ?wc and update = ?u and ip = "''10.0.0.1''" and p = False])
      (auto simp: sample_net_def sample_sign_def sample_post_def)
qed

text \<open>A policy that allows the role \<open>admin\<close> only.\<close>

definition admin_outside :: "bool outside" where
  "admin_outside =
     \<lparr>ou_prepare = (\<lambda>q ps. Some True),
      ou_eval = (\<lambda>p v. Some [[GBool (case v of GMap m \<Rightarrow> getNestedValue m [''user'', ''roles''] = GStrings [''admin''] | _ \<Rightarrow> False)]]),
      ou_post = (\<lambda>url body. Unreachable),
      ou_marshal = (\<lambda>v. case v of GStrings [s] \<Rightarrow> Some s | _ \<Rightarrow> None), ou_hash = (\<lambda>body. body)\<rparr>"

definition admin_options :: "(decision memory_cache config \<Rightarrow> decision memory_cache config) list" where
  "admin_options = [WithLocalPolicies [(''authz'', ''admins'')], WithMemoryCache (minutes 5) 100]"

definition admin_agent :: "(bool, decision memory_cache) agent" where
  "admin_agent = projr (New admin_outside 1 admin_options)"

lemma admin_agent_run: "agent_run admin_outside memory_ops peek_entry admin_agent"
proof (rule run_new)
  have "is_ok (New admin_outside 1 admin_options)" by code_simp
  then show "New admin_outside 1 admin_options = Inr admin_agent"
    by (auto simp: admin_agent_def is_ok_iff)
  fix x t k
  have "ag_cache admin_agent = Some (MemCache (NewMemoryCache 100))" by code_simp
  moreover assume "ag_cache admin_agent = Some (ExtCache x)"
  ultimately show "peek_entry t k x = None" by simp
qed

definition admin_request :: request where
  "admin_request = \<lparr>rq_Method = ''GET'', rq_Path = ''/docs'', rq_Header = [(''X-User-Roles'', ''admin'')], rq_Query = [],
                    rq_RemoteAddr = [], rq_ctx = background\<rparr>"

definition forged_request :: request where
  "forged_request = \<lparr>rq_Method = ''GET'', rq_Path = ''/docs,user:'' @ [CHR 0x7B] @ ''roles:admin'' @ [CHR 0x7D], rq_Header = [],
                     rq_Query = [], rq_RemoteAddr = [], rq_ctx = background\<rparr>"

definition count_next :: "nat handler" where
  "count_next r n = ([Write ''secret''], n + 1)"

lemma middleware_follows_policies_witness:
  "snd (snd (RequireAuth admin_outside memory_ops sample_reading [] count_next admin_request (admin_agent, 0))) = 1
   \<and> (\<exists>ti q' ti' d0. transform_input (cf_ContextTransformers (ag_config admin_agent)) (GMap (defaultInputTransformer admin_request)) = Some ti
      \<and> verdict admin_outside admin_agent q' ti' = Inr d0 \<and> de_Allowed d0)"
proof
  let ?h = "RequireAuth admin_outside memory_ops sample_reading [] count_next"
  let ?i = "GMap (mo_InputTransformer (fold (\<lambda>opt o'. opt o') [] default_options) admin_request)"
  show one: "snd (snd (?h admin_request (admin_agent, 0))) = 1" by code_simp
  obtain calls a' w' where res: "?h admin_request (admin_agent, 0) = (calls, (a', w'))" by (metis prod.collapse)
  have "\<exists>ti q' ti' d0. transform_input (cf_ContextTransformers (ag_config admin_agent)) ?i = Some ti
      \<and> verdict admin_outside admin_agent q' ti' = Inr d0 \<and> de_Allowed d0"
    using middleware_follows_policies [of peek_entry memory_ops admin_outside admin_agent ?h sample_reading "[]" count_next ?i
        admin_request "\<lambda>r. None" GNil 0 calls a' w',
        OF mem_ext.external_cache_axioms admin_agent_run _ res] one res by auto
  then show "\<exists>ti q' ti' d0. transform_input (cf_ContextTransformers (ag_config admin_agent)) (GMap (defaultInputTransformer admin_request)) = Some ti
      \<and> verdict admin_outside admin_agent q' ti' = Inr d0 \<and> de_Allowed d0"
    by (simp add: default_options_def)
qed

lemma forged_path_reuses_decision_witness:
  "verdict admin_outside admin_agent (cf_DefaultQuery (ag_config admin_agent)) (GMap (defaultInputTransformer forged_request))
     = Inr zero_decision
   \<and> fst (RequireAuth admin_outside memory_ops sample_reading [] count_next forged_request
       (fst (snd (RequireAuth admin_outside memory_ops sample_reading [] count_next admin_request (admin_agent, 0))), 0))
     = [Write ''secret'']"
proof
  show "verdict admin_outside admin_agent (cf_DefaultQuery (ag_config admin_agent)) (GMap (defaultInputTransformer forged_request))
     = Inr zero_decision" by code_simp
  let ?cc = "zero_cache_config\<lparr>cc_Type := CacheTypeMemory, cc_TTL := minutes 5, cc_MaxEntries := 100\<rparr> :: decision memory_cache cache_config"
  let ?d = "\<lparr>de_Allowed = True, de_Reason = [], de_Cached = False, de_Timestamp = 4\<rparr>"
  have "cache_enabled admin_agent" "cf_CacheConfig (ag_config admin_agent) = Some ?cc"
    "cf_ContextTransformers (ag_config admin_agent) = []" "header_get admin_request ''X-User-Roles'' \<noteq> []"
    "ou_marshal admin_outside (GStrings [header_get admin_request ''X-User-Roles'']) = Some ''admin''"
    "header_get forged_request ''X-User-Roles'' = []"
    "fst (Evaluate admin_outside memory_ops sample_reading (GMap (defaultInputTransformer admin_request)) admin_agent) = Inr ?d"
    "re_get1 sample_reading \<le> re_set1 sample_reading + cc_TTL ?cc"
    by code_simp+
  then show "fst (RequireAuth admin_outside memory_ops sample_reading [] count_next forged_request
       (fst (snd (RequireAuth admin_outside memory_ops sample_reading [] count_next admin_request (admin_agent, 0))), 0))
     = [Write ''secret'']"
    by (subst forged_path_reuses_decision [OF mem_ext.external_cache_axioms admin_agent_run, where cc = ?cc and json = "''admin''" and d = ?d])
      (auto simp: count_next_def admin_request_def forged_request_def zero_cache_config_def minutes_def seconds_def)
qed

end
