(* ===== verification/AuthSync.thy ===== *)
theory AuthSync
  imports Auth
begin

text \<open>
  How keys, revocations and role snapshots reach the gateway: the key set fetched from Aegis
  (\<open>prism/internal/domain/jwks.go\<close>), the event buses and the streams of Aegis
  (\<open>aegis/internal/grpc/eventbus.go\<close>, \<open>sync_auth.go\<close>) and the client of the gateway
  that writes what it receives to Redis (\<open>prism/internal/features/gateway/adapters/aegis\<close>).

  A channel is the list of its buffered events. The gRPC stream delivers in order, so sending an event
  and handling it is one action of \<open>sync_do\<close>; publishing, connecting and losing the
  connection are the other actions, in any order. Redis is given by its operations (\<open>kv_ops\<close>), with the
  laws of SET with an expiry and GET in \<open>kv_laws\<close>. Expiry times on the wire are seconds.
\<close>

section \<open>The key set\<close>

record jwk_key =
  jk_Kty :: string
  jk_Crv :: string
  jk_Kid :: string
  jk_X :: string

record fetcher =
  fe_keys :: "(string, string) gomap"
  fe_ready :: bool
  fe_refreshInterval :: duration

definition NewJWKSFetcher :: "duration \<Rightarrow> fetcher" where
  "NewJWKSFetcher refreshInterval =
     \<lparr>fe_keys = [], fe_ready = False,
      fe_refreshInterval = (if refreshInterval \<le> 0 then minutes 5 else refreshInterval)\<rparr>"

text \<open>What the HTTP request gave: an error, a status, or a body that decodes to keys or not.\<close>

datatype jwks_reply = NoReply | JwksStatus nat | Unparsable | Keys "jwk_key list"

datatype fetch_error = FetchFailed | FetchStatus nat | ParseFailed | NoValidKeys

definition add_key :: "(string \<Rightarrow> string option) \<Rightarrow> jwk_key \<Rightarrow> (string, string) gomap \<Rightarrow> (string, string) gomap" where
  "add_key decode k keys =
     (if jk_Kty k \<noteq> ''OKP'' \<or> jk_Crv k \<noteq> ''Ed25519'' then keys
      else if jk_Kid k = [] \<or> jk_X k = [] then keys
      else (case decode (jk_X k) of
              None \<Rightarrow> keys
            | Some pubBytes \<Rightarrow> if length pubBytes \<noteq> 32 then keys else mput (jk_Kid k) pubBytes keys))"

definition fetch :: "(string \<Rightarrow> string option) \<Rightarrow> jwks_reply \<Rightarrow> fetcher \<Rightarrow> fetch_error option \<times> fetcher" where
  "fetch decode reply f =
     (case reply of
        NoReply \<Rightarrow> (Some FetchFailed, f)
      | JwksStatus code \<Rightarrow> (Some (FetchStatus code), f)
      | Unparsable \<Rightarrow> (Some ParseFailed, f)
      | Keys jwks \<Rightarrow>
          let keys = fold (add_key decode) jwks []
          in if length keys = 0 then (Some NoValidKeys, f) else (None, f\<lparr>fe_keys := keys\<rparr>))"

definition StartFetcher :: "(string \<Rightarrow> string option) \<Rightarrow> jwks_reply \<Rightarrow> fetcher \<Rightarrow> fetch_error option \<times> fetcher" where
  "StartFetcher decode reply f =
     (case fetch decode reply f of
        (Some err, f') \<Rightarrow> (Some err, f')
      | (None, f') \<Rightarrow> (None, f'\<lparr>fe_ready := True\<rparr>))"

text \<open>One tick of the refresh loop; its errors are dropped.\<close>

definition refresh_tick :: "(string \<Rightarrow> string option) \<Rightarrow> jwks_reply \<Rightarrow> fetcher \<Rightarrow> fetcher" where
  "refresh_tick decode reply f = snd (fetch decode reply f)"

definition IsReady :: "fetcher \<Rightarrow> bool" where
  "IsReady f = fe_ready f"

definition FindPublicKey :: "fetcher \<Rightarrow> string \<Rightarrow> string option" where
  "FindPublicKey f kid = mget (fe_keys f) kid"

section \<open>Event buses\<close>

definition formatVersion :: "nat \<Rightarrow> string" where
  "formatVersion v = nat_digits v"

record 'e event_bus =
  eb_subscribers :: "(string, 'e list) gomap"
  eb_version :: nat

definition NewEventBus :: "'e event_bus" where
  "NewEventBus = \<lparr>eb_subscribers = [], eb_version = 0\<rparr>"

definition Subscribe :: "string \<Rightarrow> 'e event_bus \<Rightarrow> 'e event_bus" where
  "Subscribe i b = b\<lparr>eb_subscribers := mput i [] (eb_subscribers b)\<rparr>"

definition Unsubscribe :: "string \<Rightarrow> 'e event_bus \<Rightarrow> 'e event_bus" where
  "Unsubscribe i b = b\<lparr>eb_subscribers := mdel i (eb_subscribers b)\<rparr>"

text \<open>The send does not block: a full channel loses the event.\<close>

definition Publish :: "nat \<Rightarrow> (string \<Rightarrow> 'e \<Rightarrow> 'e) \<Rightarrow> 'e \<Rightarrow> 'e event_bus \<Rightarrow> 'e event_bus" where
  "Publish capacity stamp event b =
     (let ver = eb_version b + 1;
          ev = stamp (formatVersion ver) event
      in b\<lparr>eb_version := ver,
           eb_subscribers := mmap (\<lambda>ch. if length ch < capacity then ch @ [ev] else ch) (eb_subscribers b)\<rparr>)"

definition NextVersion :: "'e event_bus \<Rightarrow> string" where
  "NextVersion b = formatVersion (eb_version b)"

section \<open>Streams of Aegis\<close>

record user_roles =
  ur_UserId :: string
  ur_TenantId :: string
  ur_Roles :: "string list"
  ur_Permissions :: "string list"

datatype auth_event_body = UserRoles user_roles | TokenRevoked string int | SyncComplete

record auth_event =
  ae_Version :: string
  ae_Event :: auth_event_body

definition stamp_auth :: "string \<Rightarrow> auth_event \<Rightarrow> auth_event" where
  "stamp_auth v e = e\<lparr>ae_Version := v\<rparr>"

abbreviation PublishAuth :: "auth_event \<Rightarrow> auth_event event_bus \<Rightarrow> auth_event event_bus" where
  "PublishAuth \<equiv> Publish 64 stamp_auth"

definition PublishUserRolesChanged :: "string \<Rightarrow> string \<Rightarrow> string list \<Rightarrow> auth_event event_bus \<Rightarrow> auth_event event_bus" where
  "PublishUserRolesChanged userID tenantID roles b =
     PublishAuth \<lparr>ae_Version = [],
       ae_Event = UserRoles \<lparr>ur_UserId = userID, ur_TenantId = tenantID, ur_Roles = roles, ur_Permissions = []\<rparr>\<rparr> b"

definition PublishTokenRevoked :: "string \<Rightarrow> int \<Rightarrow> auth_event event_bus \<Rightarrow> auth_event event_bus" where
  "PublishTokenRevoked jti expiresAt b = PublishAuth \<lparr>ae_Version = [], ae_Event = TokenRevoked jti expiresAt\<rparr> b"

text \<open>A user of the repository: the id and the roles per tenant, in the order of the loop over them.\<close>

type_synonym repo_user = "string \<times> (string \<times> string) list"

definition user_events :: "repo_user \<Rightarrow> auth_event_body list" where
  "user_events usr =
     map (\<lambda>(tenantID, role).
         UserRoles \<lparr>ur_UserId = fst usr, ur_TenantId = tenantID, ur_Roles = [role], ur_Permissions = []\<rparr>)
       (snd usr)"

text \<open>
  The query behind \<open>ListAll\<close>: \<open>users\<close> are all users, newest first; \<open>LIMIT pageSize OFFSET page * pageSize\<close>.
\<close>

definition user_ListAll :: "repo_user list \<Rightarrow> nat \<Rightarrow> nat \<Rightarrow> repo_user list option" where
  "user_ListAll users page pageSize = Some (take pageSize (drop (page * pageSize) users))"

text \<open>
  The snapshot phase, page by page: the events sent, and whether every page could be read. A page
  that is not full is the last one; \<open>None\<close> is a loop that does not end.
\<close>

partial_function (option) snapshot_pages ::
  "(nat \<Rightarrow> repo_user list option) \<Rightarrow> nat \<Rightarrow> (auth_event_body list \<times> bool) option" where
  "snapshot_pages ListAll page =
     (case ListAll page of
        None \<Rightarrow> Some ([], False)
      | Some users \<Rightarrow>
          let events = concat (map user_events users)
          in if length users < 100 then Some (events, True)
             else Option.bind (snapshot_pages ListAll (page + 1))
                    (\<lambda>rest. Some (events @ fst rest, snd rest)))"

declare snapshot_pages.simps [code]

definition sync_snapshot :: "(nat \<Rightarrow> repo_user list option) \<Rightarrow> (auth_event_body list \<times> bool) option" where
  "sync_snapshot ListAll =
     map_option (\<lambda>(events, complete). (if complete then events @ [SyncComplete] else events, complete))
       (snapshot_pages ListAll 1)"

section \<open>The client of the gateway\<close>

text \<open>Redis: reading may fail, an absent key is \<open>Inr None\<close>; a failed write is \<open>None\<close>.\<close>

record 'r kv_ops =
  kv_get :: "time \<Rightarrow> string \<Rightarrow> 'r \<Rightarrow> string + string option"
  kv_set :: "time \<Rightarrow> string \<Rightarrow> string \<Rightarrow> duration \<Rightarrow> 'r \<Rightarrow> 'r option"

record 'r sync_client =
  sy_redis :: 'r
  sy_ready :: bool
  sy_cacheTTL :: duration
  sy_maxBackoff :: duration

definition NewClient :: "duration \<Rightarrow> duration \<Rightarrow> 'r \<Rightarrow> 'r sync_client" where
  "NewClient cacheTTL maxBackoff redis =
     \<lparr>sy_redis = redis, sy_ready = False,
      sy_cacheTTL = (if cacheTTL = 0 then minutes 5 else cacheTTL),
      sy_maxBackoff = (if maxBackoff = 0 then seconds 60 else maxBackoff)\<rparr>"

text \<open>The loop of the backoff from its current delay.\<close>

fun backoff_loop :: "duration \<Rightarrow> nat \<Rightarrow> duration \<Rightarrow> duration" where
  "backoff_loop maxBackoff 0 d = d"
| "backoff_loop maxBackoff (Suc n) d =
     (let d' = d * 2 in if d' \<ge> maxBackoff then maxBackoff else backoff_loop maxBackoff n d')"

definition backoff :: "'r sync_client \<Rightarrow> nat \<Rightarrow> duration" where
  "backoff c attempt = backoff_loop (sy_maxBackoff c) attempt (seconds 1)"

definition syncVersionKey :: string where
  "syncVersionKey = ''aegis:sync:version''"

definition rolesKeyPrefix :: string where
  "rolesKeyPrefix = ''aegis:roles:''"

definition revokedKeyPrefix :: string where
  "revokedKeyPrefix = ''aegis:revoked:''"

record cached_roles =
  cr_Roles :: "string list"
  cr_Permissions :: "string list"
  cr_TenantID :: string

text \<open>Clock readings of the handling of one event: when the time to live is computed, and at the two writes.\<close>

record sync_clock =
  sc_until :: time
  sc_set :: time
  sc_version :: time

text \<open>A write whose error is only logged.\<close>

definition kv_try :: "'r kv_ops \<Rightarrow> time \<Rightarrow> string \<Rightarrow> string \<Rightarrow> duration \<Rightarrow> 'r \<Rightarrow> 'r" where
  "kv_try ops now key v ttl r = (case kv_set ops now key v ttl r of None \<Rightarrow> r | Some r' \<Rightarrow> r')"

definition handleUserRoles ::
  "'r kv_ops \<Rightarrow> (cached_roles \<Rightarrow> string option) \<Rightarrow> sync_clock \<Rightarrow> user_roles \<Rightarrow> 'r sync_client \<Rightarrow> 'r sync_client" where
  "handleUserRoles ops marshal clk snap c =
     (case marshal \<lparr>cr_Roles = ur_Roles snap, cr_Permissions = ur_Permissions snap, cr_TenantID = ur_TenantId snap\<rparr> of
        None \<Rightarrow> c
      | Some json \<Rightarrow>
          c\<lparr>sy_redis := kv_try ops (sc_set clk) (rolesKeyPrefix @ ur_UserId snap) json (sy_cacheTTL c) (sy_redis c)\<rparr>)"

definition handleTokenRevoked :: "'r kv_ops \<Rightarrow> sync_clock \<Rightarrow> string \<Rightarrow> int \<Rightarrow> 'r sync_client \<Rightarrow> 'r sync_client" where
  "handleTokenRevoked ops clk jti expiresAt c =
     (let ttl = seconds expiresAt - sc_until clk
      in if ttl \<le> 0 then c
         else c\<lparr>sy_redis := kv_try ops (sc_set clk) (revokedKeyPrefix @ jti) ''1'' ttl (sy_redis c)\<rparr>)"

text \<open>The body of the receiving loop of \<open>runAuthSync\<close>.\<close>

definition handle_event ::
  "'r kv_ops \<Rightarrow> (cached_roles \<Rightarrow> string option) \<Rightarrow> sync_clock \<times> auth_event \<Rightarrow> 'r sync_client \<Rightarrow> 'r sync_client" where
  "handle_event ops marshal ce c =
     (let clk = fst ce; event = snd ce;
          c1 = (case ae_Event event of
                  UserRoles snap \<Rightarrow> handleUserRoles ops marshal clk snap c
                | TokenRevoked jti expiresAt \<Rightarrow> handleTokenRevoked ops clk jti expiresAt c
                | SyncComplete \<Rightarrow> c\<lparr>sy_ready := True\<rparr>)
      in if ae_Version event \<noteq> []
         then c1\<lparr>sy_redis := kv_try ops (sc_version clk) syncVersionKey (ae_Version event) (sy_cacheTTL c1) (sy_redis c1)\<rparr>
         else c1)"

definition IsTokenRevoked :: "'r kv_ops \<Rightarrow> time \<Rightarrow> 'r sync_client \<Rightarrow> string \<Rightarrow> string + bool" where
  "IsTokenRevoked ops now c jti =
     (case kv_get ops now (revokedKeyPrefix @ jti) (sy_redis c) of
        Inl err \<Rightarrow> Inl err
      | Inr None \<Rightarrow> Inr False
      | Inr (Some v) \<Rightarrow> Inr True)"

definition GetCachedRoles ::
  "'r kv_ops \<Rightarrow> (string \<Rightarrow> cached_roles option) \<Rightarrow> time \<Rightarrow> 'r sync_client \<Rightarrow> string \<Rightarrow> string + cached_roles option" where
  "GetCachedRoles ops unmarshal now c userID =
     (case kv_get ops now (rolesKeyPrefix @ userID) (sy_redis c) of
        Inl err \<Rightarrow> Inl err
      | Inr None \<Rightarrow> Inr None
      | Inr (Some v) \<Rightarrow> (case unmarshal v of None \<Rightarrow> Inl ''unmarshaling cached roles'' | Some cr \<Rightarrow> Inr (Some cr)))"

section \<open>The stream between them\<close>

text \<open>
  \<open>st_stream\<close>: the subscription of the open stream, the rest of its snapshot, and whether the snapshot is
  complete. A snapshot event is built, with the version of the bus, at the moment it is sent.
\<close>

record 'r sync_state =
  st_bus :: "auth_event event_bus"
  st_stream :: "(string \<times> auth_event_body list \<times> bool) option"
  st_client :: "'r sync_client"

datatype sync_act = Revoke string int | ChangeRoles string string "string list"
  | Connect string "nat \<Rightarrow> repo_user list option" | Deliver sync_clock | Disconnect

text \<open>\<open>None\<close>: the action is not possible in that state.\<close>

fun sync_do :: "'r kv_ops \<Rightarrow> (cached_roles \<Rightarrow> string option) \<Rightarrow> sync_act \<Rightarrow> 'r sync_state \<Rightarrow> 'r sync_state option" where
  "sync_do ops marshal (Revoke jti expiresAt) s = Some (s\<lparr>st_bus := PublishTokenRevoked jti expiresAt (st_bus s)\<rparr>)"
| "sync_do ops marshal (ChangeRoles userID tenantID roles) s =
     Some (s\<lparr>st_bus := PublishUserRolesChanged userID tenantID roles (st_bus s)\<rparr>)"
| "sync_do ops marshal (Connect subID ListAll) s =
     (case (st_stream s, sync_snapshot ListAll) of
        (None, Some (events, complete)) \<Rightarrow>
          Some (s\<lparr>st_bus := Subscribe subID (st_bus s), st_stream := Some (subID, events, complete)\<rparr>)
      | _ \<Rightarrow> None)"
| "sync_do ops marshal (Deliver clk) s =
     (case st_stream s of
        None \<Rightarrow> None
      | Some (subID, e # events, complete) \<Rightarrow>
          Some (s\<lparr>st_stream := Some (subID, events, complete),
                  st_client := handle_event ops marshal
                    (clk, \<lparr>ae_Version = NextVersion (st_bus s), ae_Event = e\<rparr>) (st_client s)\<rparr>)
      | Some (subID, [], complete) \<Rightarrow>
          if \<not> complete then None
          else (case mget (eb_subscribers (st_bus s)) subID of
                  Some (ev # ch) \<Rightarrow>
                    Some (s\<lparr>st_bus := (st_bus s)\<lparr>eb_subscribers := mput subID ch (eb_subscribers (st_bus s))\<rparr>,
                            st_client := handle_event ops marshal (clk, ev) (st_client s)\<rparr>)
                | _ \<Rightarrow> None))"
| "sync_do ops marshal Disconnect s =
     (case st_stream s of
        None \<Rightarrow> None
      | Some (subID, events, complete) \<Rightarrow>
          Some (s\<lparr>st_bus := Unsubscribe subID (st_bus s), st_stream := None\<rparr>))"

fun sync_run :: "'r kv_ops \<Rightarrow> (cached_roles \<Rightarrow> string option) \<Rightarrow> sync_act list \<Rightarrow> 'r sync_state \<Rightarrow> 'r sync_state option" where
  "sync_run ops marshal [] s = Some s"
| "sync_run ops marshal (act # acts) s =
     (case sync_do ops marshal act s of None \<Rightarrow> None | Some s' \<Rightarrow> sync_run ops marshal acts s')"

section \<open>What Redis promises\<close>

definition millisecond :: duration where
  "millisecond = 1000000"

text \<open>
  A reachable Redis: a write succeeds and changes no other key, and a value written with a time to live
  can be read until then; the expiry is kept in milliseconds, so up to the last one.
\<close>

definition kv_laws :: "'r kv_ops \<Rightarrow> bool" where
  "kv_laws ops \<longleftrightarrow>
     (\<forall>now k v ttl r. \<exists>r'. kv_set ops now k v ttl r = Some r'
        \<and> (\<forall>t k'. k' \<noteq> k \<longrightarrow> kv_get ops t k' r' = kv_get ops t k' r)
        \<and> (0 < ttl \<longrightarrow> (\<forall>t. now \<le> t \<and> t + millisecond \<le> now + ttl \<longrightarrow> kv_get ops t k r' = Inr (Some v))))"

lemma kv_try_other: "kv_laws ops \<Longrightarrow> k' \<noteq> k \<Longrightarrow> kv_get ops t k' (kv_try ops now k v ttl r) = kv_get ops t k' r"
  unfolding kv_laws_def kv_try_def by (metis option.simps(5))

lemma kv_try_same:
  "kv_laws ops \<Longrightarrow> 0 < ttl \<Longrightarrow> now \<le> t \<Longrightarrow> t + millisecond \<le> now + ttl
   \<Longrightarrow> kv_get ops t k (kv_try ops now k v ttl r) = Inr (Some v)"
  unfolding kv_laws_def kv_try_def by (metis option.simps(5))

lemma redis_keys [simp]:
  "revokedKeyPrefix @ jti \<noteq> rolesKeyPrefix @ u" "revokedKeyPrefix @ jti \<noteq> syncVersionKey"
  "revokedKeyPrefix @ jti = revokedKeyPrefix @ jti' \<longleftrightarrow> jti = jti'"
  by (simp_all add: revokedKeyPrefix_def rolesKeyPrefix_def syncVersionKey_def)

section \<open>Revocations in Redis\<close>

definition marked :: "'r kv_ops \<Rightarrow> time \<Rightarrow> string \<Rightarrow> 'r sync_client \<Rightarrow> bool" where
  "marked ops now jti c \<longleftrightarrow> kv_get ops now (revokedKeyPrefix @ jti) (sy_redis c) = Inr (Some ''1'')"

lemma marked_revoked: "marked ops now jti c \<Longrightarrow> IsTokenRevoked ops now c jti = Inr True"
  by (simp add: marked_def IsTokenRevoked_def)

text \<open>What one event does to the key of one token.\<close>

lemma handle_event_key:
  assumes "kv_laws ops"
  shows "kv_get ops t (revokedKeyPrefix @ jti) (sy_redis (handle_event ops marshal (clk, ev) c)) =
    (case ae_Event ev of
       TokenRevoked jti' expiresAt \<Rightarrow>
         if jti' = jti \<and> 0 < seconds expiresAt - sc_until clk
         then kv_get ops t (revokedKeyPrefix @ jti)
                (kv_try ops (sc_set clk) (revokedKeyPrefix @ jti) ''1'' (seconds expiresAt - sc_until clk) (sy_redis c))
         else kv_get ops t (revokedKeyPrefix @ jti) (sy_redis c)
     | _ \<Rightarrow> kv_get ops t (revokedKeyPrefix @ jti) (sy_redis c))"
  using assms
  by (auto simp: handle_event_def handleUserRoles_def handleTokenRevoked_def Let_def kv_try_other
      split: auth_event_body.splits option.splits)

text \<open>The readings of an event that was handled before the time of the query.\<close>

definition clock_before :: "time \<Rightarrow> sync_clock \<Rightarrow> bool" where
  "clock_before now clk \<longleftrightarrow> sc_until clk \<le> sc_set clk \<and> sc_set clk \<le> now"

definition same_expiry :: "string \<Rightarrow> int \<Rightarrow> auth_event \<Rightarrow> bool" where
  "same_expiry jti expiresAt ev \<longleftrightarrow> (\<forall>e. ae_Event ev = TokenRevoked jti e \<longrightarrow> e = expiresAt)"

lemma revocation_marks:
  assumes "kv_laws ops" "now + millisecond \<le> seconds expiresAt" "clock_before now clk"
    and "ae_Event ev = TokenRevoked jti expiresAt"
  shows "marked ops now jti (handle_event ops marshal (clk, ev) c)"
  using assms kv_try_same [OF assms(1), of "seconds expiresAt - sc_until clk" "sc_set clk" now]
  by (simp add: marked_def handle_event_key clock_before_def millisecond_def)

lemma event_keeps_mark:
  assumes "kv_laws ops" "now + millisecond \<le> seconds expiresAt" "clock_before now clk" "same_expiry jti expiresAt ev"
    and "marked ops now jti c"
  shows "marked ops now jti (handle_event ops marshal (clk, ev) c)"
proof (cases "ae_Event ev = TokenRevoked jti expiresAt")
  case True
  with assms show ?thesis by (simp add: revocation_marks)
next
  case False
  with assms(4) have "\<forall>e. ae_Event ev \<noteq> TokenRevoked jti e" by (auto simp: same_expiry_def)
  with assms(1,5) show ?thesis by (auto simp: marked_def handle_event_key split: auth_event_body.splits)
qed

lemma event_leaves_unrevoked:
  assumes "kv_laws ops" "\<forall>e. ae_Event ev \<noteq> TokenRevoked jti e"
  shows "kv_get ops t (revokedKeyPrefix @ jti) (sy_redis (handle_event ops marshal (clk, ev) c))
       = kv_get ops t (revokedKeyPrefix @ jti) (sy_redis c)"
  using assms by (auto simp: handle_event_key split: auth_event_body.splits)

lemma events_mark:
  assumes "kv_laws ops" "now + millisecond \<le> seconds expiresAt"
    and "\<forall>(clk, ev) \<in> set ces. clock_before now clk \<and> same_expiry jti expiresAt ev"
    and "marked ops now jti c \<or> (\<exists>(clk, ev) \<in> set ces. ae_Event ev = TokenRevoked jti expiresAt)"
  shows "marked ops now jti (fold (handle_event ops marshal) ces c)"
  using assms(3,4)
proof (induction ces arbitrary: c)
  case Nil
  then show ?case by simp
next
  case (Cons ce ces)
  obtain clk ev where ce: "ce = (clk, ev)" by (cases ce)
  have "marked ops now jti (handle_event ops marshal ce c) \<or> (\<exists>(clk, ev) \<in> set ces. ae_Event ev = TokenRevoked jti expiresAt)"
    using Cons.prems revocation_marks [OF assms(1,2)] event_keeps_mark [OF assms(1,2)] ce by auto
  with Cons show ?case by simp
qed

section \<open>Channels\<close>

lemma Publish_channel:
  "mget (eb_subscribers (Publish cap stamp e b)) i =
     map_option (\<lambda>ch. if length ch < cap then ch @ [stamp (formatVersion (Suc (eb_version b))) e] else ch)
       (mget (eb_subscribers b) i)"
  by (simp add: Publish_def Let_def mget_mmap)

lemma snapshot_roles_only:
  assumes "snapshot_pages ListAll page = Some r"
  shows "\<forall>b \<in> set (fst r). b \<noteq> TokenRevoked jti e"
proof (rule snapshot_pages.raw_induct [OF _ assms], goal_cases)
  case (1 snapshot L p r)
  then show ?case
    by (fastforce simp: user_events_def Let_def split: option.splits if_splits bind_splits)
qed

lemma sync_snapshot_roles_only:
  "sync_snapshot ListAll = Some (events, complete) \<Longrightarrow> \<forall>b \<in> set events. \<forall>e. b \<noteq> TokenRevoked jti e"
  using snapshot_roles_only by (fastforce simp: sync_snapshot_def split: if_splits)

text \<open>No revocation of the token is on its way to the client.\<close>

definition not_underway :: "string \<Rightarrow> 'r sync_state \<Rightarrow> bool" where
  "not_underway jti s \<longleftrightarrow>
     (case st_stream s of
        None \<Rightarrow> True
      | Some (subID, events, complete) \<Rightarrow>
          (\<forall>b \<in> set events. \<forall>e. b \<noteq> TokenRevoked jti e)
          \<and> (\<forall>ch. mget (eb_subscribers (st_bus s)) subID = Some ch \<longrightarrow> (\<forall>ev \<in> set ch. \<forall>e. ae_Event ev \<noteq> TokenRevoked jti e)))"

lemma sync_do_not_underway:
  assumes "kv_laws ops" and "sync_do ops marshal act s = Some s'" and "not_underway jti s" and "\<forall>e. act \<noteq> Revoke jti e"
  shows "not_underway jti s' \<and>
    (\<forall>t. kv_get ops t (revokedKeyPrefix @ jti) (sy_redis (st_client s'))
       = kv_get ops t (revokedKeyPrefix @ jti) (sy_redis (st_client s)))"
proof (cases act)
  case (Revoke jti' e)
  with assms show ?thesis
    by (auto simp: not_underway_def PublishTokenRevoked_def Publish_channel stamp_auth_def split: option.splits if_splits)
next
  case (ChangeRoles u t rs)
  with assms show ?thesis
    by (auto simp: not_underway_def PublishUserRolesChanged_def Publish_channel stamp_auth_def split: option.splits if_splits)
next
  case (Connect i L)
  with assms show ?thesis
    by (auto simp: not_underway_def Subscribe_def mget_mput split: option.splits
      dest!: sync_snapshot_roles_only [of L _ _ jti])
next
  case (Deliver clk)
  with assms show ?thesis
    by (auto simp: not_underway_def event_leaves_unrevoked mget_mput split: option.splits list.splits if_splits) blast+
next
  case Disconnect
  with assms show ?thesis by (auto simp: not_underway_def split: option.splits)
qed

lemma sync_run_not_underway:
  "kv_laws ops \<Longrightarrow> sync_run ops marshal acts s = Some s' \<Longrightarrow> not_underway jti s \<Longrightarrow> \<forall>e. Revoke jti e \<notin> set acts \<Longrightarrow>
   kv_get ops t (revokedKeyPrefix @ jti) (sy_redis (st_client s'))
     = kv_get ops t (revokedKeyPrefix @ jti) (sy_redis (st_client s))"
proof (induction acts arbitrary: s)
  case Nil
  then show ?case by simp
next
  case (Cons act acts)
  then obtain s1 where "sync_do ops marshal act s = Some s1" "sync_run ops marshal acts s1 = Some s'"
    by (auto split: option.splits)
  moreover from this Cons.prems have "not_underway jti s1 \<and> (\<forall>t. kv_get ops t (revokedKeyPrefix @ jti) (sy_redis (st_client s1))
       = kv_get ops t (revokedKeyPrefix @ jti) (sy_redis (st_client s)))"
    by (intro sync_do_not_underway [of ops marshal act s s1 jti]) auto
  ultimately show ?case using Cons by simp
qed

lemma deliver_all:
  "st_stream s = Some (i, [], True) \<Longrightarrow> mget (eb_subscribers (st_bus s)) i = Some ch \<Longrightarrow> length clks = length ch \<Longrightarrow>
   \<exists>s'. sync_run ops marshal (map Deliver clks) s = Some s'
      \<and> st_client s' = fold (handle_event ops marshal) (zip clks ch) (st_client s)"
proof (induction clks arbitrary: s ch)
  case Nil
  then show ?case by simp
next
  case (Cons clk clks)
  then obtain ev ch' where ch: "ch = ev # ch'" by (cases ch) auto
  let ?s = "s\<lparr>st_bus := (st_bus s)\<lparr>eb_subscribers := mput i ch' (eb_subscribers (st_bus s))\<rparr>,
             st_client := handle_event ops marshal (clk, ev) (st_client s)\<rparr>"
  have "sync_do ops marshal (Deliver clk) s = Some ?s" using Cons.prems ch by simp
  with Cons.IH [of ?s ch'] Cons.prems ch show ?case by (simp add: mget_mput)
qed

section \<open>The snapshot of a paged repository\<close>

abbreviation user_pages :: "repo_user list \<Rightarrow> nat \<Rightarrow> repo_user list option" where
  "user_pages users \<equiv> \<lambda>page. user_ListAll users page 100"

lemma snapshot_user_pages:
  "snapshot_pages (user_pages users) p = Some (concat (map user_events (drop (100 * p) users)), True)"
proof (induction "length users - 100 * p" arbitrary: p rule: less_induct)
  case less
  show ?case
  proof (cases "length users < 100 * p + 100")
    case True
    then show ?thesis by (subst snapshot_pages.simps) (auto simp: user_ListAll_def Let_def mult.commute)
  next
    case False
    then have "snapshot_pages (user_pages users) (p + 1) = Some (concat (map user_events (drop (100 * (p + 1)) users)), True)"
      by (intro less) auto
    moreover have "concat (map user_events (drop (100 * p) users)) =
        concat (map user_events (take 100 (drop (100 * p) users))) @ concat (map user_events (drop (100 * (p + 1)) users))"
      by (metis (no_types, lifting) Suc_eq_plus1 add.commute append_take_drop_id concat_append drop_drop map_append mult_Suc_right)
    ultimately show ?thesis using False by (subst snapshot_pages.simps) (auto simp: user_ListAll_def Let_def mult.commute)
  qed
qed

section \<open>The backoff\<close>

lemma backoff_loop_bounds:
  "0 < d \<Longrightarrow> d \<le> m \<Longrightarrow> backoff_loop m n d \<le> m \<and> backoff_loop m n d = min m (d * 2 ^ n)"
proof (induction n arbitrary: d)
  case 0
  then show ?case by simp
next
  case (Suc n)
  show ?case
  proof (cases "d * 2 \<ge> m")
    case True
    have "d * 2 \<le> d * 2 ^ Suc n" using Suc.prems by simp
    with True show ?thesis by (simp add: min_def)
  next
    case False
    with Suc.IH [of "d * 2"] Suc.prems show ?thesis by (simp add: mult.assoc)
  qed
qed

text \<open>The delay before a reconnection doubles from one second up to the maximum.\<close>

lemma backoff_exact: "seconds 1 \<le> sy_maxBackoff c \<Longrightarrow> backoff c attempt = min (sy_maxBackoff c) (seconds (2 ^ attempt))"
  using backoff_loop_bounds [of "seconds 1" "sy_maxBackoff c" attempt] by (simp add: backoff_def seconds_def)

section \<open>Keys\<close>

text \<open>The key that an entry of the key set stands for, if it is usable.\<close>

definition usable :: "(string \<Rightarrow> string option) \<Rightarrow> jwk_key \<Rightarrow> string option" where
  "usable decode k =
     (if jk_Kty k = ''OKP'' \<and> jk_Crv k = ''Ed25519'' \<and> jk_Kid k \<noteq> [] \<and> jk_X k \<noteq> []
      then (case decode (jk_X k) of Some b \<Rightarrow> if length b = 32 then Some b else None | None \<Rightarrow> None) else None)"

lemma add_key_usable: "add_key decode k keys = (case usable decode k of None \<Rightarrow> keys | Some b \<Rightarrow> mput (jk_Kid k) b keys)"
  by (auto simp: add_key_def usable_def split: option.splits)

lemma add_keys_last:
  "mget (fold (add_key decode) jwks keys) kid =
     (case find (\<lambda>k. jk_Kid k = kid \<and> usable decode k \<noteq> None) (rev jwks) of
        Some k \<Rightarrow> usable decode k | None \<Rightarrow> mget keys kid)"
proof (induction jwks rule: rev_induct)
  case Nil
  then show ?case by simp
next
  case (snoc k jwks)
  then show ?case by (auto simp: add_key_usable mget_mput split: option.splits)
qed

section \<open>Properties\<close>


text \<open>C10: A revocation reaches a connected gateway: when its snapshot is done and its channel holds fewer
  than 64 events, publishing the revocation and delivering what the channel then holds is possible, and
  leaves the token reported as revoked.\<close>

theorem revocation_delivered:
  assumes laws: "kv_laws ops" and conn: "st_stream s = Some (i, [], True)"
    and ch: "mget (eb_subscribers (st_bus s)) i = Some ch" "length ch < 64" "\<forall>ev \<in> set ch. same_expiry jti expiresAt ev"
    and clks: "length clks = length ch + 1" "\<forall>clk \<in> set clks. clock_before now clk"
    and time: "now + millisecond \<le> seconds expiresAt"
  shows "\<exists>s'. sync_run ops marshal (Revoke jti expiresAt # map Deliver clks) s = Some s'
    \<and> IsTokenRevoked ops now (st_client s') jti = Inr True"
proof -
  define ev where "ev = \<lparr>ae_Version = formatVersion (Suc (eb_version (st_bus s))), ae_Event = TokenRevoked jti expiresAt\<rparr>"
  let ?s = "s\<lparr>st_bus := PublishTokenRevoked jti expiresAt (st_bus s)\<rparr>"
  have "mget (eb_subscribers (st_bus ?s)) i = Some (ch @ [ev])"
    using ch(1,2) by (simp add: PublishTokenRevoked_def Publish_channel stamp_auth_def ev_def)
  with deliver_all [of ?s i "ch @ [ev]" clks] conn clks(1) obtain s' where
    s': "sync_run ops marshal (map Deliver clks) ?s = Some s'"
        "st_client s' = fold (handle_event ops marshal) (zip clks (ch @ [ev])) (st_client s)" by auto
  have "(last clks, ev) \<in> set (zip clks (ch @ [ev]))"
    using clks(1) by (cases clks rule: rev_cases) auto
  moreover have "\<forall>(clk, e) \<in> set (zip clks (ch @ [ev])). clock_before now clk \<and> same_expiry jti expiresAt e"
  proof -
    have "\<forall>e \<in> set (ch @ [ev]). same_expiry jti expiresAt e" using ch(3) by (simp add: ev_def same_expiry_def)
    with clks(2) show ?thesis by (blast dest: set_zip_leftD set_zip_rightD)
  qed
  ultimately have "marked ops now jti (fold (handle_event ops marshal) (zip clks (ch @ [ev])) (st_client s))"
    using events_mark [OF laws time] by (fastforce simp: ev_def)
  with s' show ?thesis by (simp add: marked_revoked)
qed

text \<open>A revocation published while the gateway is not connected is lost for good: whatever happens
  afterwards, reconnections with their snapshots included, the gateway reports the token as not
  revoked unless it is revoked again.\<close>

lemma revocation_missed_while_disconnected:
  assumes "kv_laws ops" and "st_stream s = None"
    and "sync_run ops marshal (Revoke jti expiresAt # acts) s = Some s'" and "\<forall>e. Revoke jti e \<notin> set acts"
    and "IsTokenRevoked ops t (st_client s) jti = Inr False"
  shows "IsTokenRevoked ops t (st_client s') jti = Inr False"
proof -
  let ?s = "s\<lparr>st_bus := PublishTokenRevoked jti expiresAt (st_bus s)\<rparr>"
  have "not_underway jti ?s" using assms(2) by (simp add: not_underway_def)
  with sync_run_not_underway [OF assms(1), of marshal acts ?s s' jti t] assms(3,4,5)
  show ?thesis by (simp add: IsTokenRevoked_def)
qed

text \<open>C11: The snapshot ends, and sends one event for every role of every user except the first hundred of
  the list, the newest ones, followed by the mark that it is complete: the loop starts at page 1, and
  the repository counts pages from 0.\<close>

theorem snapshot_ends_without_first_page:
  "sync_snapshot (user_pages users) = Some (concat (map user_events (drop 100 users)) @ [SyncComplete], True)"
  using snapshot_user_pages [of users 1] by (simp add: sync_snapshot_def)

text \<open>Fetching the key set either fails and leaves the keys as they were, or installs exactly the
  usable Ed25519 keys of the response: under each key id the last usable key that has it.\<close>

lemma key_set_exact:
  "case fetch decode reply f of
     (Some err, f') \<Rightarrow> f' = f
   | (None, f') \<Rightarrow> \<exists>jwks. reply = Keys jwks \<and>
       FindPublicKey f' kid = Option.bind (find (\<lambda>k. jk_Kid k = kid \<and> usable decode k \<noteq> None) (rev jwks)) (usable decode)"
  by (auto simp: fetch_def FindPublicKey_def add_keys_last Let_def split: jwks_reply.splits option.splits)

section \<open>Witnesses\<close>

type_synonym sample_kv = "(string, string \<times> time) gomap"

text \<open>A store that keeps a deadline, in whole milliseconds, with every value.\<close>

definition sample_kv_ops :: "sample_kv kv_ops" where
  "sample_kv_ops =
     \<lparr>kv_get = (\<lambda>t k r. Inr (case mget r k of Some (v, d) \<Rightarrow> if t < d then Some v else None | None \<Rightarrow> None)),
      kv_set = (\<lambda>now k v ttl r. Some (mput k (v, now + ttl div millisecond * millisecond) r))\<rparr>"

lemma sample_kv_laws: "kv_laws sample_kv_ops"
proof -
  have "t < now + ttl div 1000000 * 1000000" if "t + 1000000 \<le> now + ttl" for t now ttl :: int
    using that mult_div_mod_eq [of 1000000 ttl] pos_mod_bound [of 1000000 ttl] by linarith
  then show ?thesis
    by (auto simp: kv_laws_def sample_kv_ops_def mget_mput millisecond_def)
qed

definition sample_marshal :: "cached_roles \<Rightarrow> string option" where
  "sample_marshal cr = Some (cr_TenantID cr)"

definition sample_client :: "sample_kv sync_client" where
  "sample_client = NewClient 0 0 []"

definition sample_sync_clock :: sync_clock where
  "sample_sync_clock = \<lparr>sc_until = seconds 1, sc_set = seconds 2, sc_version = seconds 2\<rparr>"

definition sample_revocation :: auth_event where
  "sample_revocation = \<lparr>ae_Version = ''1'', ae_Event = TokenRevoked ''jti'' 100\<rparr>"

definition revoked_client :: "sample_kv sync_client" where
  "revoked_client = fold (handle_event sample_kv_ops sample_marshal) [(sample_sync_clock, sample_revocation)] sample_client"

definition late_parse :: "nat jwt_parser" where
  "late_parse kf s = map_sum id (\<lambda>tk. tk\<lparr>tk_Claims := (tk_Claims tk)\<lparr>cl_ExpiresAt := Some (seconds 100)\<rparr>\<rparr>) (sample_parse kf s)"

definition revoking_auth :: "nat auth_middleware" where
  "revoking_auth = sample_auth\<lparr>am_parse := late_parse, am_revocation := Some (IsTokenRevoked sample_kv_ops (seconds 50) revoked_client)\<rparr>"


definition sample_sync :: "sample_kv sync_state" where
  "sample_sync = \<lparr>st_bus = Subscribe ''g1'' NewEventBus, st_stream = Some (''g1'', [], True), st_client = sample_client\<rparr>"

theorem revocation_delivered_witness:
  "\<exists>s'. sync_run sample_kv_ops sample_marshal [Revoke ''jti'' 100, Deliver sample_sync_clock] sample_sync = Some s'
    \<and> IsTokenRevoked sample_kv_ops (seconds 50) (st_client s') ''jti'' = Inr True"
  using revocation_delivered [OF sample_kv_laws, of sample_sync "''g1''" "[]" "''jti''" 100 "[sample_sync_clock]" "seconds 50" sample_marshal]
  by (simp add: sample_sync_def Subscribe_def mget_mput clock_before_def sample_sync_clock_def seconds_def millisecond_def)

lemma revocation_missed_while_disconnected_witness:
  "\<exists>s'. sync_run sample_kv_ops sample_marshal
      [Revoke ''jti'' 100, Connect ''g2'' (user_pages []), Deliver sample_sync_clock] (sample_sync\<lparr>st_stream := None\<rparr>) = Some s'
    \<and> sy_ready (st_client s') \<and> IsTokenRevoked sample_kv_ops (seconds 50) (st_client s') ''jti'' = Inr False"
proof -
  let ?acts = "[Connect ''g2'' (user_pages []), Deliver sample_sync_clock]"
  let ?s = "sample_sync\<lparr>st_stream := None\<rparr>"
  have snap: "sync_snapshot (user_pages []) = Some ([SyncComplete], True)"
    using snapshot_user_pages [of "[]" 1] by (simp add: sync_snapshot_def)
  obtain s' where s': "sync_run sample_kv_ops sample_marshal (Revoke ''jti'' 100 # ?acts) ?s = Some s'" "sy_ready (st_client s')"
    by (simp add: sample_sync_def snap handle_event_def Let_def)
  have "IsTokenRevoked sample_kv_ops (seconds 50) (st_client ?s) ''jti'' = Inr False" by code_simp
  with revocation_missed_while_disconnected [OF sample_kv_laws _ s'(1)] s' show ?thesis by auto
qed

end
