(* ===== verification/Validation.thy ===== *)
theory Validation
  imports GoStrings
begin

text \<open>
  The collecting validator (\<open>prism/internal/common/validator/v.go\<close>) and the checks of
  \<open>validator/is/is.go\<close> that the services use. A validator is the list of the errors found so far;
  a check is a function that gives the message of its error, if any.
\<close>

record validation_error =
  ve_Field :: string
  ve_Message :: string

type_synonym validation_errors = "validation_error list"

definition ValidationError_Error :: "validation_error \<Rightarrow> string" where
  "ValidationError_Error e = ve_Field e @ '': '' @ ve_Message e"

definition ValidationErrors_Error :: "validation_errors \<Rightarrow> string" where
  "ValidationErrors_Error ve = (if length ve = 0 then [] else Join ''; '' (map ValidationError_Error ve))"

definition New_validator :: validation_errors where
  "New_validator = []"

text \<open>\<open>None\<close> is the nil error.\<close>

definition Errors :: "validation_errors \<Rightarrow> validation_errors option" where
  "Errors v = (if length v = 0 then None else Some v)"

definition AddError :: "string \<Rightarrow> string \<Rightarrow> validation_errors \<Rightarrow> validation_errors" where
  "AddError field message v = v @ [\<lparr>ve_Field = field, ve_Message = message\<rparr>]"

definition run_check :: "string \<Rightarrow> 'a \<Rightarrow> ('a \<Rightarrow> string option) \<Rightarrow> validation_errors \<Rightarrow> validation_errors" where
  "run_check field val check v = (case check val of None \<Rightarrow> v | Some msg \<Rightarrow> AddError field msg v)"

definition CheckString :: "string \<Rightarrow> string \<Rightarrow> (string \<Rightarrow> string option) list \<Rightarrow> validation_errors \<Rightarrow> validation_errors" where
  "CheckString field val checks v = fold (run_check field val) checks v"

definition CheckInt :: "string \<Rightarrow> int \<Rightarrow> (int \<Rightarrow> string option) list \<Rightarrow> validation_errors \<Rightarrow> validation_errors" where
  "CheckInt field val checks v = fold (run_check field val) checks v"

definition CheckOptionalString ::
  "string \<Rightarrow> string option \<Rightarrow> (string \<Rightarrow> string option) list \<Rightarrow> validation_errors \<Rightarrow> validation_errors" where
  "CheckOptionalString field val checks v = (case val of None \<Rightarrow> v | Some s \<Rightarrow> CheckString field s checks v)"

definition CheckOptionalInt ::
  "string \<Rightarrow> int option \<Rightarrow> (int \<Rightarrow> string option) list \<Rightarrow> validation_errors \<Rightarrow> validation_errors" where
  "CheckOptionalInt field val checks v = (case val of None \<Rightarrow> v | Some n \<Rightarrow> CheckInt field n checks v)"

section \<open>Checks\<close>

definition is_String :: "string \<Rightarrow> string option" where
  "is_String s = (if s = [] then Some ''string is empty'' else None)"

definition is_NonNegativeInt :: "int \<Rightarrow> string option" where
  "is_NonNegativeInt n = (if n < 0 then Some ''integer is negative'' else None)"

definition is_Min :: "int \<Rightarrow> int \<Rightarrow> string option" where
  "is_Min m n = (if n < m then Some (''must be at least '' @ int_digits m) else None)"

definition is_Max :: "int \<Rightarrow> int \<Rightarrow> string option" where
  "is_Max m n = (if n > m then Some (''must be at most '' @ int_digits m) else None)"

definition is_Length :: "nat \<Rightarrow> nat \<Rightarrow> string \<Rightarrow> string option" where
  "is_Length lo hi s =
     (if length s < lo \<or> length s > hi
      then Some (''length must be between '' @ nat_digits lo @ '' and '' @ nat_digits hi) else None)"

text \<open>\<open>is.Pattern\<close>: the language of the pattern, with the text of the pattern for the message.\<close>

definition is_Pattern :: "string \<Rightarrow> (string \<Rightarrow> bool) \<Rightarrow> string \<Rightarrow> string option" where
  "is_Pattern pattern matches s = (if \<not> matches s then Some (''does not match pattern '' @ pattern) else None)"

definition char_between :: "char \<Rightarrow> char \<Rightarrow> char \<Rightarrow> bool" where
  "char_between lo hi c \<longleftrightarrow> (of_char lo :: nat) \<le> of_char c \<and> (of_char c :: nat) \<le> of_char hi"

definition is_Alpha :: "string \<Rightarrow> string option" where
  "is_Alpha s =
     (if \<forall>c \<in> set s. char_between CHR ''a'' CHR ''z'' c \<or> char_between CHR ''A'' CHR ''Z'' c
      then None else Some ''string is not alphabetic'')"

definition is_AlphaNumeric :: "string \<Rightarrow> string option" where
  "is_AlphaNumeric s =
     (if \<forall>c \<in> set s. char_between CHR ''a'' CHR ''z'' c \<or> char_between CHR ''A'' CHR ''Z'' c \<or> char_between CHR ''0'' CHR ''9'' c
      then None else Some ''string is not alphanumeric'')"

section \<open>When validation passes\<close>

named_theorems validation \<open>what it takes to add no error\<close>

lemma AddError_not_Nil [simp]: "AddError f m v \<noteq> []"
  by (simp add: AddError_def)

lemma run_checks_Nil: "fold (run_check f x) checks v = [] \<longleftrightarrow> v = [] \<and> (\<forall>c \<in> set checks. c x = None)"
  by (induction checks arbitrary: v) (auto simp: run_check_def split: option.splits)

lemma CheckString_Nil [validation]: "CheckString f s checks v = [] \<longleftrightarrow> v = [] \<and> (\<forall>c \<in> set checks. c s = None)"
  by (simp add: CheckString_def run_checks_Nil)

lemma CheckInt_Nil [validation]: "CheckInt f n checks v = [] \<longleftrightarrow> v = [] \<and> (\<forall>c \<in> set checks. c n = None)"
  by (simp add: CheckInt_def run_checks_Nil)

lemma Errors_None [validation]: "Errors v = None \<longleftrightarrow> v = []"
  by (simp add: Errors_def)

lemma New_validator_Nil [validation]: "New_validator = []"
  by (simp add: New_validator_def)

lemma is_String_None [validation]: "is_String s = None \<longleftrightarrow> s \<noteq> []"
  by (simp add: is_String_def)

lemma is_NonNegativeInt_None [validation]: "is_NonNegativeInt n = None \<longleftrightarrow> 0 \<le> n"
  by (simp add: is_NonNegativeInt_def linorder_not_less)

lemma is_Max_None [validation]: "is_Max m n = None \<longleftrightarrow> n \<le> m"
  by (simp add: is_Max_def linorder_not_less)

lemma is_Min_None [validation]: "is_Min m n = None \<longleftrightarrow> m \<le> n"
  by (simp add: is_Min_def linorder_not_less)

lemma is_Length_None [validation]: "is_Length lo hi s = None \<longleftrightarrow> lo \<le> length s \<and> length s \<le> hi"
  by (auto simp: is_Length_def)

lemma is_Pattern_None [validation]: "is_Pattern p matches s = None \<longleftrightarrow> matches s"
  by (simp add: is_Pattern_def)

end
