(* ===== verification/PrefixedIds.thy ===== *)
theory PrefixedIds
  imports GoStrings
begin

text \<open>
  Prefixed identifiers (\<open>prism/internal/common/id/id.go\<close>, \<open>prism/internal/domain/prefixid\<close>). The
  package for UUIDs is an argument: their text form, its parser and the nil UUID; \<open>uuid_laws\<close> says that
  the parser reads back what the text form writes.
\<close>

record 'u uuid_ops =
  uu_String :: "'u \<Rightarrow> string"
  uu_Parse :: "string \<Rightarrow> 'u option"
  uu_Nil :: 'u

definition uuid_laws :: "'u uuid_ops \<Rightarrow> bool" where
  "uuid_laws ops \<longleftrightarrow> (\<forall>u. uu_Parse ops (uu_String ops u) = Some u)"

record 'u prefixed_id =
  pi_raw :: 'u
  pi_value :: string
  pi_prefix :: string

datatype id_error = ErrInvalidPrefix | ErrInvalidUUID | ErrInvalidFormat

definition normalize_prefix :: "string \<Rightarrow> string" where
  "normalize_prefix prefix = (if \<not> HasSuffix prefix ''_'' then prefix @ ''_'' else prefix)"

definition FromUUID :: "'u uuid_ops \<Rightarrow> string \<Rightarrow> 'u \<Rightarrow> 'u prefixed_id" where
  "FromUUID ops prefix val =
     (let normalizedPrefix = normalize_prefix prefix
      in \<lparr>pi_raw = val, pi_value = normalizedPrefix @ uu_String ops val, pi_prefix = TrimSuffix normalizedPrefix ''_''\<rparr>)"

definition ParseID :: "'u uuid_ops \<Rightarrow> string \<Rightarrow> id_error + 'u prefixed_id" where
  "ParseID ops val =
     (case SplitN2 CHR ''_'' val of
        [prefix, idPart] \<Rightarrow>
          (case uu_Parse ops idPart of
             None \<Rightarrow> Inl ErrInvalidUUID
           | Some raw \<Rightarrow> Inr \<lparr>pi_raw = raw, pi_value = val, pi_prefix = prefix\<rparr>)
      | _ \<Rightarrow> Inl ErrInvalidFormat)"

definition ParsePrefixedID :: "'u uuid_ops \<Rightarrow> string \<Rightarrow> string \<Rightarrow> id_error + 'u prefixed_id" where
  "ParsePrefixedID ops val expected =
     (let expectedPrefix = normalize_prefix expected
      in if \<not> HasPrefix val expectedPrefix then Inl ErrInvalidPrefix
         else (case uu_Parse ops (TrimPrefix val expectedPrefix) of
                 None \<Rightarrow> Inl ErrInvalidUUID
               | Some raw \<Rightarrow> Inr \<lparr>pi_raw = raw, pi_value = val, pi_prefix = TrimSuffix expectedPrefix ''_''\<rparr>))"

text \<open>The accessors, and reading an identifier from a decoded JSON string (\<open>None\<close>: not a string).\<close>

definition ID_UUID :: "'u uuid_ops \<Rightarrow> 'u prefixed_id \<Rightarrow> 'u option" where
  "ID_UUID ops i = uu_Parse ops (TrimPrefix (pi_value i) (pi_prefix i @ ''_''))"

definition UnmarshalJSON :: "'u uuid_ops \<Rightarrow> string option \<Rightarrow> 'u prefixed_id \<Rightarrow> bool \<times> 'u prefixed_id" where
  "UnmarshalJSON ops data i =
     (case data of
        None \<Rightarrow> (False, i)
      | Some s \<Rightarrow> (case ParseID ops s of
                     Inl err \<Rightarrow> (False, i)
                   | Inr p \<Rightarrow> (True, i\<lparr>pi_raw := pi_raw p, pi_value := pi_value p, pi_prefix := pi_prefix p\<rparr>)))"

section \<open>Typed identifiers\<close>

datatype id_kind = ApiKeyKind | UserKind | TenantKind | AuditLogKind | ResourceKind

fun kind_prefix :: "id_kind \<Rightarrow> string" where
  "kind_prefix ApiKeyKind = ''apk''"
| "kind_prefix UserKind = ''usr''"
| "kind_prefix TenantKind = ''tnt''"
| "kind_prefix AuditLogKind = ''aud''"
| "kind_prefix ResourceKind = ''res''"

definition ApiKeyIDFromUUID :: "'u uuid_ops \<Rightarrow> 'u \<Rightarrow> 'u prefixed_id" where
  "ApiKeyIDFromUUID ops u = FromUUID ops (kind_prefix ApiKeyKind) u"

definition ParseApiKeyID :: "'u uuid_ops \<Rightarrow> string \<Rightarrow> id_error + 'u prefixed_id" where
  "ParseApiKeyID ops val = ParsePrefixedID ops val (kind_prefix ApiKeyKind)"

definition UserIDFromUUID :: "'u uuid_ops \<Rightarrow> 'u \<Rightarrow> 'u prefixed_id" where
  "UserIDFromUUID ops u = FromUUID ops (kind_prefix UserKind) u"

definition ParseUserID :: "'u uuid_ops \<Rightarrow> string \<Rightarrow> id_error + 'u prefixed_id" where
  "ParseUserID ops val = ParsePrefixedID ops val (kind_prefix UserKind)"

definition TenantIDFromUUID :: "'u uuid_ops \<Rightarrow> 'u \<Rightarrow> 'u prefixed_id" where
  "TenantIDFromUUID ops u = FromUUID ops (kind_prefix TenantKind) u"

definition ParseTenantID :: "'u uuid_ops \<Rightarrow> string \<Rightarrow> id_error + 'u prefixed_id" where
  "ParseTenantID ops val = ParsePrefixedID ops val (kind_prefix TenantKind)"

definition AuditLogIDFromUUID :: "'u uuid_ops \<Rightarrow> 'u \<Rightarrow> 'u prefixed_id" where
  "AuditLogIDFromUUID ops u = FromUUID ops (kind_prefix AuditLogKind) u"

text \<open>\<open>uid\<close> is the random UUID.\<close>

definition NewAuditLogID :: "'u uuid_ops \<Rightarrow> 'u \<Rightarrow> 'u prefixed_id" where
  "NewAuditLogID ops uid = AuditLogIDFromUUID ops uid"

definition ParseAuditLogID :: "'u uuid_ops \<Rightarrow> string \<Rightarrow> id_error + 'u prefixed_id" where
  "ParseAuditLogID ops val = ParsePrefixedID ops val (kind_prefix AuditLogKind)"

definition ResourceIDFromUUID :: "'u uuid_ops \<Rightarrow> 'u \<Rightarrow> 'u prefixed_id" where
  "ResourceIDFromUUID ops u = FromUUID ops (kind_prefix ResourceKind) u"

definition ParseResourceID :: "'u uuid_ops \<Rightarrow> string \<Rightarrow> id_error + 'u prefixed_id" where
  "ParseResourceID ops val = ParsePrefixedID ops val (kind_prefix ResourceKind)"

fun id_from_uuid :: "id_kind \<Rightarrow> 'u uuid_ops \<Rightarrow> 'u \<Rightarrow> 'u prefixed_id" where
  "id_from_uuid ApiKeyKind = ApiKeyIDFromUUID"
| "id_from_uuid UserKind = UserIDFromUUID"
| "id_from_uuid TenantKind = TenantIDFromUUID"
| "id_from_uuid AuditLogKind = AuditLogIDFromUUID"
| "id_from_uuid ResourceKind = ResourceIDFromUUID"

fun parse_id :: "id_kind \<Rightarrow> 'u uuid_ops \<Rightarrow> string \<Rightarrow> id_error + 'u prefixed_id" where
  "parse_id ApiKeyKind = ParseApiKeyID"
| "parse_id UserKind = ParseUserID"
| "parse_id TenantKind = ParseTenantID"
| "parse_id AuditLogKind = ParseAuditLogID"
| "parse_id ResourceKind = ParseResourceID"

section \<open>Lemmas\<close>

lemmas typed_id_defs = ApiKeyIDFromUUID_def ParseApiKeyID_def UserIDFromUUID_def ParseUserID_def
  TenantIDFromUUID_def ParseTenantID_def AuditLogIDFromUUID_def ParseAuditLogID_def
  ResourceIDFromUUID_def ParseResourceID_def

lemma id_from_uuid_eq: "id_from_uuid k ops u = FromUUID ops (kind_prefix k) u"
  by (cases k) (simp_all add: typed_id_defs)

lemma parse_id_eq: "parse_id k ops val = ParsePrefixedID ops val (kind_prefix k)"
  by (cases k) (simp_all add: typed_id_defs)

lemma normalize_kind: "normalize_prefix (kind_prefix k) = kind_prefix k @ ''_''"
  by (cases k) (simp_all add: normalize_prefix_def HasSuffix_def)

lemma kind_prefixes_distinct: "HasPrefix (kind_prefix k @ ''_'' @ s) (kind_prefix k' @ ''_'') \<longleftrightarrow> k = k'"
  by (cases k; cases k') simp_all

lemma FromUUID_parts:
  "pi_raw (FromUUID ops p u) = u" "pi_value (FromUUID ops p u) = normalize_prefix p @ uu_String ops u"
  "pi_prefix (FromUUID ops p u) = TrimSuffix (normalize_prefix p) ''_''"
  by (simp_all add: FromUUID_def Let_def)

text \<open>An identifier that was parsed with an expected prefix starts with it, and carries the UUID of the rest.\<close>

lemma ParsePrefixedID_ok:
  "ParsePrefixedID ops val p = Inr i \<Longrightarrow>
   \<exists>rest. val = normalize_prefix p @ rest \<and> uu_Parse ops rest = Some (pi_raw i) \<and> pi_value i = val"
  by (auto simp: ParsePrefixedID_def Let_def HasPrefix_iff split: if_splits option.splits)

section \<open>Properties\<close>

text \<open>Typed identifiers round trip and do not mix: the text of an identifier made for a UUID is
  parsed back, by the parser of its own kind, to the same identifier with the same UUID, is refused
  with an invalid prefix by the parser of every other kind, and the generic parser, which takes what
  precedes the first underscore as the prefix, agrees.\<close>

lemma typed_id_roundtrip:
  assumes "uuid_laws ops"
  shows "parse_id k' ops (pi_value (id_from_uuid k ops u)) =
      (if k' = k then Inr (id_from_uuid k ops u) else Inl ErrInvalidPrefix)
    \<and> ParseID ops (pi_value (id_from_uuid k ops u)) = Inr (id_from_uuid k ops u)
    \<and> pi_raw (id_from_uuid k ops u) = u \<and> ID_UUID ops (id_from_uuid k ops u) = Some u"
proof -
  have p: "uu_Parse ops (uu_String ops u) = Some u" using assms by (simp add: uuid_laws_def)
  have "CHR ''_'' \<notin> set (kind_prefix k)" by (cases k) simp_all
  then have sp: "SplitN2 CHR ''_'' (kind_prefix k @ CHR ''_'' # uu_String ops u) = [kind_prefix k, uu_String ops u]"
    by (rule SplitN2_append_sep)
  have "parse_id k' ops (pi_value (id_from_uuid k ops u)) =
      (if k' = k then Inr (id_from_uuid k ops u) else Inl ErrInvalidPrefix)"
    using kind_prefixes_distinct [of k "uu_String ops u" k'] p TrimPrefix_append [of "kind_prefix k @ ''_''" "uu_String ops u"]
    by (auto simp: parse_id_eq id_from_uuid_eq ParsePrefixedID_def FromUUID_parts normalize_kind FromUUID_def Let_def)
  moreover have "ParseID ops (pi_value (id_from_uuid k ops u)) = Inr (id_from_uuid k ops u)"
    using sp p by (simp add: ParseID_def id_from_uuid_eq FromUUID_parts normalize_kind FromUUID_def Let_def)
  moreover have "ID_UUID ops (id_from_uuid k ops u) = Some u"
    using p TrimPrefix_append [of "kind_prefix k @ ''_''" "uu_String ops u"]
    by (simp add: ID_UUID_def id_from_uuid_eq FromUUID_parts normalize_kind)
  ultimately show ?thesis by (simp add: id_from_uuid_eq FromUUID_parts)
qed

section \<open>Witnesses\<close>

text \<open>UUIDs as texts.\<close>

definition text_uuids :: "string uuid_ops" where
  "text_uuids = \<lparr>uu_String = id, uu_Parse = Some, uu_Nil = ''00000000-0000-0000-0000-000000000000''\<rparr>"

lemma text_uuids_laws: "uuid_laws text_uuids"
  by (simp add: uuid_laws_def text_uuids_def)

lemma typed_id_roundtrip_witness:
  "parse_id UserKind text_uuids ''tnt_550e8400'' = Inl ErrInvalidPrefix
   \<and> pi_raw (id_from_uuid TenantKind text_uuids ''550e8400'') = ''550e8400''
   \<and> pi_value (id_from_uuid TenantKind text_uuids ''550e8400'') = ''tnt_550e8400''"
proof -
  have v: "pi_value (id_from_uuid TenantKind text_uuids ''550e8400'') = ''tnt_550e8400''" by code_simp
  with typed_id_roundtrip [OF text_uuids_laws, of UserKind TenantKind "''550e8400''"] show ?thesis by simp
qed

end
