(* ===== verification/ApiKeys.thy ===== *)
theory ApiKeys
  imports Validation PrefixedIds
begin

text \<open>
  API keys of the gateway: the domain object (\<open>prism/internal/domain/api_key.go\<close>), the service
  (\<open>prism/internal/features/apikey/service_api_key.go\<close>), its requests and handlers (\<open>dto/converter.go\<close>,
  \<open>handler.go\<close>) and the repository (\<open>adapters/postgres/api_key_repository.go\<close>).

  Arguments: the 32 random bytes and the random UUID of a new key, the clock readings, the hash
  (SHA-256 in hexadecimal), and the parsers of addresses. The service reaches the repository through the
  port \<open>key_repo\<close>; the contract of the port is the locale \<open>api_key_repository\<close>, in
  which the facts about histories of calls are proved; theory \<open>ApiKeyStore\<close> interprets it.
\<close>

section \<open>Base64\<close>

text \<open>\<open>base64.URLEncoding\<close>, with padding.\<close>

definition b64_char :: "nat \<Rightarrow> char" where
  "b64_char n =
     (if n < 26 then char_of (65 + n) else if n < 52 then char_of (71 + n) else if n < 62 then char_of (n - 4)
      else if n = 62 then CHR ''-'' else CHR ''_'')"

fun base64url :: "string \<Rightarrow> string" where
  "base64url [] = []"
| "base64url [a] =
     (let n = of_char a * 16 in [b64_char (n div 64), b64_char (n mod 64), CHR ''='', CHR ''=''])"
| "base64url [a, b] =
     (let n = (of_char a * 256 + of_char b) * 4
      in [b64_char (n div 4096), b64_char (n div 64 mod 64), b64_char (n mod 64), CHR ''=''])"
| "base64url (a # b # c # s) =
     (let n = of_char a * 65536 + of_char b * 256 + of_char c
      in b64_char (n div 262144) # b64_char (n div 4096 mod 64) # b64_char (n div 64 mod 64) # b64_char (n mod 64)
         # base64url s)"

section \<open>The domain object\<close>

record ('u, 'ip) api_key =
  ak_ID :: 'u
  ak_Name :: string
  ak_KeyPrefix :: string
  ak_KeyHash :: string
  ak_RawAPIKey :: string
  ak_TenantID :: 'u
  ak_UserID :: 'u
  ak_Scopes :: "string list"
  ak_ExpiresAt :: time
  ak_LastUsedAt :: time
  ak_CreatedIPAddress :: "'ip option"
  ak_LastUsedIPAddress :: "'ip option"
  ak_IsActive :: bool
  ak_CreatedAt :: time
  ak_UpdatedAt :: time

record 'u create_response =
  cr_ID :: string
  cr_Name :: string
  cr_KeyPrefix :: string
  cr_RawAPIKey :: string
  cr_Scopes :: "string list"
  cr_ExpiresAt :: time
  cr_CreatedAt :: time

record 'ip key_env =
  ke_hash :: "string \<Rightarrow> string"
  ke_ParseIP :: "string \<Rightarrow> 'ip option"
  ke_SplitHostPort :: "string \<Rightarrow> string option"

datatype repo_error = KeyNotFound | DbError

datatype key_error =
    InvalidParams validation_errors | RandFailed | RepoFailed repo_error | InvalidID id_error
  | MissingKeyPrefix | IncorrectFormat | KeyTooShort | InvalidOrExpired | InvalidKey
  | KeyInactive | KeyExpired | NoListTarget

definition APIKeyPrefix :: string where
  "APIKeyPrefix = ''ak_''"

definition APIKeyPrefixDisplayLength :: nat where
  "APIKeyPrefixDisplayLength = 8"

definition DefaultAPIKeyExpirationDays :: int where
  "DefaultAPIKeyExpirationDays = 90"

text \<open>\<open>t.AddDate(0, 0, n)\<close>, in a zone without changes of the offset such as UTC.\<close>

definition add_days :: "time \<Rightarrow> int \<Rightarrow> time" where
  "add_days t n = t + n * hours 24"

definition hashAPIKey :: "'ip key_env \<Rightarrow> string \<Rightarrow> string" where
  "hashAPIKey env key = ke_hash env key"

definition APIKey_Verify :: "'ip key_env \<Rightarrow> string \<Rightarrow> string \<Rightarrow> bool" where
  "APIKey_Verify env rawKey storedHash = (hashAPIKey env rawKey = storedHash)"

text \<open>\<open>keyBytes\<close>: what \<open>rand.Read\<close> gave, 32 bytes, or \<open>None\<close> for its error.\<close>

definition generateAPIKey :: "'ip key_env \<Rightarrow> string option \<Rightarrow> key_error + string \<times> string \<times> string" where
  "generateAPIKey env rnd =
     (case rnd of
        None \<Rightarrow> Inl RandFailed
      | Some keyBytes \<Rightarrow>
          let keyStr = base64url keyBytes;
              rawKey = APIKeyPrefix @ keyStr;
              keyPrefix = APIKeyPrefix @ take APIKeyPrefixDisplayLength keyStr;
              keyHash = hashAPIKey env rawKey
          in Inr (rawKey, keyPrefix, keyHash))"

record 'u create_params =
  cp_Name :: string
  cp_TenantID :: 'u
  cp_UserID :: 'u
  cp_Scopes :: "string list"
  cp_IPAddress :: string
  cp_ExpiresInDays :: int

text \<open>\<open>Validate\<close> also rewrites the address of the parameters, to the host when it is host and port.\<close>

definition create_params_Validate ::
  "'ip key_env \<Rightarrow> 'u create_params \<Rightarrow> validation_errors option \<times> 'u create_params" where
  "create_params_Validate env p =
     (let v = CheckString ''ip_address'' (cp_IPAddress p) [is_String]
                (CheckString ''name'' (cp_Name p) [is_String] New_validator);
          p' = (if cp_IPAddress p \<noteq> []
                then (case ke_SplitHostPort env (cp_IPAddress p) of Some h \<Rightarrow> p\<lparr>cp_IPAddress := h\<rparr> | None \<Rightarrow> p)
                else p)
      in (Errors v, p'))"

definition APIKey_New ::
  "'u uuid_ops \<Rightarrow> 'ip key_env \<Rightarrow> string option \<Rightarrow> time \<Rightarrow> 'u create_params \<Rightarrow> key_error + ('u, 'ip) api_key" where
  "APIKey_New uu env rnd now params =
     (case create_params_Validate env params of
        (Some err, _) \<Rightarrow> Inl (InvalidParams err)
      | (None, params) \<Rightarrow>
          (case generateAPIKey env rnd of
             Inl err \<Rightarrow> Inl err
           | Inr (rawKey, keyPrefix, keyHash) \<Rightarrow>
               let expiresAt = (if cp_ExpiresInDays params > 0 then add_days now (cp_ExpiresInDays params)
                                else add_days now DefaultAPIKeyExpirationDays)
               in Inr \<lparr>ak_ID = uu_Nil uu, ak_Name = cp_Name params, ak_KeyPrefix = keyPrefix, ak_KeyHash = keyHash,
                       ak_RawAPIKey = rawKey, ak_TenantID = cp_TenantID params, ak_UserID = cp_UserID params,
                       ak_Scopes = cp_Scopes params, ak_ExpiresAt = expiresAt, ak_LastUsedAt = time_zero,
                       ak_CreatedIPAddress = ke_ParseIP env (cp_IPAddress params), ak_LastUsedIPAddress = None,
                       ak_IsActive = True, ak_CreatedAt = time_zero, ak_UpdatedAt = time_zero\<rparr>))"

record 'u update_params =
  up_ID :: 'u
  up_Name :: "string option"
  up_Scopes :: "string list option"
  up_IsActive :: "bool option"
  up_ExpiresInDays :: "int option"
  up_updateScopes :: bool

text \<open>The pattern \<open>^[a-z0-9_\-]+:[a-z0-9_\-*]+$\<close>: its classes do not contain the colon.\<close>

definition scope_char :: "char \<Rightarrow> bool" where
  "scope_char c \<longleftrightarrow> char_between CHR ''a'' CHR ''z'' c \<or> char_between CHR ''0'' CHR ''9'' c \<or> c = CHR ''_'' \<or> c = CHR ''-''"

definition scope_pattern :: "string \<Rightarrow> bool" where
  "scope_pattern s \<longleftrightarrow>
     (case Split CHR '':'' s of
        [r, a] \<Rightarrow> r \<noteq> [] \<and> a \<noteq> [] \<and> list_all scope_char r \<and> list_all (\<lambda>c. scope_char c \<or> c = CHR ''*'') a
      | _ \<Rightarrow> False)"

definition scope_pattern_text :: string where
  "scope_pattern_text = ''^[a-z0-9_'' @ [CHR 0x5C] @ ''-]+:[a-z0-9_'' @ [CHR 0x5C] @ ''-*]+$''"

text \<open>The loop over the scopes; \<open>seen\<close> is the map of unique scopes.\<close>

fun check_scopes :: "string list \<Rightarrow> string list \<Rightarrow> validation_errors \<Rightarrow> validation_errors" where
  "check_scopes seen [] v = v"
| "check_scopes seen (scope # scopes) v =
     (let v1 = CheckString ''scope'' scope [is_String, is_Pattern scope_pattern_text scope_pattern] v;
          v2 = (if scope \<in> set seen then AddError ''scopes'' (''contains duplicate scope: '' @ scope) v1 else v1)
      in check_scopes (scope # seen) scopes v2)"

definition update_params_Validate ::
  "'u uuid_ops \<Rightarrow> 'u update_params \<Rightarrow> validation_errors option \<times> 'u update_params" where
  "update_params_Validate uu p =
     (let v0 = New_validator;
          v1 = (if up_ID p = uu_Nil uu then AddError ''id'' ''must be provided'' v0 else v0);
          v2 = (case up_Name p of None \<Rightarrow> v1 | Some n \<Rightarrow> CheckString ''name'' n [is_String, is_Length 1 255] v1);
          v3 = (case up_Scopes p of
                  None \<Rightarrow> v2
                | Some ss \<Rightarrow> check_scopes [] ss
                    (if length ss = 0 then AddError ''scopes'' ''cannot be empty if provided'' v2 else v2));
          p' = (case up_Scopes p of None \<Rightarrow> p | Some ss \<Rightarrow> p\<lparr>up_updateScopes := True\<rparr>);
          v4 = (case up_ExpiresInDays p of
                  None \<Rightarrow> v3 | Some n \<Rightarrow> CheckInt ''expires_in_days'' n [is_NonNegativeInt, is_Max 3650] v3)
      in (Errors v4, p'))"

definition APIKey_UpdateMetadata ::
  "'u uuid_ops \<Rightarrow> time \<Rightarrow> 'u update_params \<Rightarrow> ('u, 'ip) api_key \<Rightarrow> key_error + ('u, 'ip) api_key" where
  "APIKey_UpdateMetadata uu now params a =
     (case update_params_Validate uu params of
        (Some err, _) \<Rightarrow> Inl (InvalidParams err)
      | (None, params) \<Rightarrow>
          let a1 = (case up_Name params of None \<Rightarrow> a | Some n \<Rightarrow> a\<lparr>ak_Name := n\<rparr>);
              a2 = (case up_Scopes params of
                      Some ss \<Rightarrow> if up_updateScopes params then a1\<lparr>ak_Scopes := ss\<rparr> else a1 | None \<Rightarrow> a1);
              a3 = (case up_IsActive params of None \<Rightarrow> a2 | Some b \<Rightarrow> a2\<lparr>ak_IsActive := b\<rparr>);
              a4 = (case up_ExpiresInDays params of None \<Rightarrow> a3 | Some n \<Rightarrow> a3\<lparr>ak_ExpiresAt := add_days now n\<rparr>)
          in Inr a4)"

record 'u list_params =
  lp_TenantID :: "'u option"
  lp_UserID :: "'u option"
  lp_Page :: int
  lp_PageSize :: int

definition list_params_Validate :: "'u list_params \<Rightarrow> validation_errors option" where
  "list_params_Validate p =
     (let v0 = New_validator;
          v1 = (if lp_TenantID p \<noteq> None \<and> lp_UserID p \<noteq> None
                then AddError ''tenant_id'' ''cannot provide both tenant_id and user_id'' v0 else v0);
          v2 = (if lp_TenantID p = None \<and> lp_UserID p = None
                then AddError ''tenant_id'' ''must provide either tenant_id or user_id'' v1 else v1);
          v3 = (if lp_Page p < 1 then AddError ''page'' ''must be greater than 0'' v2 else v2);
          v4 = (if lp_PageSize p < 1 then AddError ''page_size'' ''must be greater than 0'' v3 else v3)
      in Errors v4)"

record validate_params =
  vp_RawAPIKey :: string
  vp_IPAddress :: string

definition validate_params_Validate ::
  "'ip key_env \<Rightarrow> validate_params \<Rightarrow> validation_errors option \<times> validate_params" where
  "validate_params_Validate env p =
     (let v1 = (if vp_RawAPIKey p = [] then AddError ''raw_api_key'' ''must be provided'' New_validator else New_validator)
      in if vp_IPAddress p \<noteq> []
         then let host = (case ke_SplitHostPort env (vp_IPAddress p) of Some h \<Rightarrow> h | None \<Rightarrow> vp_IPAddress p);
                  v2 = (if ke_ParseIP env host = None then AddError ''ip_address'' ''must be a valid IP address'' v1 else v1)
              in (Errors v2, p\<lparr>vp_IPAddress := host\<rparr>)
         else (Errors v1, p))"

text \<open>\<open>APIKey.Validate\<close>; the zero time as expiry means that the key does not expire.\<close>

definition APIKey_Validate :: "'ip key_env \<Rightarrow> string \<Rightarrow> time \<Rightarrow> ('u, 'ip) api_key \<Rightarrow> key_error option" where
  "APIKey_Validate env rawKey currentTime a =
     (if \<not> ak_IsActive a then Some KeyInactive
      else if ak_ExpiresAt a \<noteq> time_zero \<and> ak_ExpiresAt a < currentTime then Some KeyExpired
      else if \<not> APIKey_Verify env rawKey (ak_KeyHash a) then Some InvalidKey
      else None)"

definition ExtractKeyPrefixForLookup :: "string \<Rightarrow> key_error + string" where
  "ExtractKeyPrefixForLookup rawKey =
     (if \<not> HasPrefix rawKey APIKeyPrefix then Inl MissingKeyPrefix
      else (case SplitN2 CHR ''_'' rawKey of
              [_, keyValue] \<Rightarrow>
                if length keyValue \<le> APIKeyPrefixDisplayLength then Inl KeyTooShort
                else Inr (APIKeyPrefix @ take APIKeyPrefixDisplayLength keyValue)
            | _ \<Rightarrow> Inl IncorrectFormat))"

section \<open>The port to the repository\<close>

text \<open>
  Operations that change the stored keys give the new store. \<open>Create\<close> takes the UUID it uses for a key
  that has none, and the clock; \<open>GetActiveByPrefix\<close>, \<open>Update\<close> and \<open>UpdateLastUsed\<close> take the clock.
\<close>

record ('u, 'ip, 'r) key_repo =
  kr_Create :: "'u \<Rightarrow> time \<Rightarrow> ('u, 'ip) api_key \<Rightarrow> 'r \<Rightarrow> (repo_error + ('u, 'ip) api_key) \<times> 'r"
  kr_GetByID :: "'u \<Rightarrow> 'r \<Rightarrow> repo_error + ('u, 'ip) api_key"
  kr_GetActiveByPrefix :: "time \<Rightarrow> string \<Rightarrow> 'r \<Rightarrow> repo_error + ('u, 'ip) api_key"
  kr_Update :: "time \<Rightarrow> 'u \<Rightarrow> ('u, 'ip) api_key \<Rightarrow> 'r \<Rightarrow> (repo_error + ('u, 'ip) api_key) \<times> 'r"
  kr_Delete :: "'u \<Rightarrow> 'r \<Rightarrow> repo_error option \<times> 'r"
  kr_ListByTenant :: "'u \<Rightarrow> int \<Rightarrow> int \<Rightarrow> 'r \<Rightarrow> repo_error + ('u, 'ip) api_key list"
  kr_ListByUser :: "'u \<Rightarrow> int \<Rightarrow> int \<Rightarrow> 'r \<Rightarrow> repo_error + ('u, 'ip) api_key list"
  kr_UpdateLastUsed :: "time \<Rightarrow> 'u \<Rightarrow> string \<Rightarrow> 'r \<Rightarrow> repo_error option \<times> 'r"

section \<open>The service\<close>

definition googleToCommonUUID :: "'u uuid_ops \<Rightarrow> 'u \<Rightarrow> 'u option" where
  "googleToCommonUUID uu i = uu_Parse uu (uu_String uu i)"

text \<open>
  The repository sets the ID and the times of the key it is given, so the response shows them; the
  time of its creation is the clock reading \<open>now2\<close> of the repository. \<open>rnd\<close> and \<open>newID\<close> are random.
\<close>

definition Create ::
  "'u uuid_ops \<Rightarrow> 'ip key_env \<Rightarrow> ('u, 'ip, 'r) key_repo \<Rightarrow> string option \<Rightarrow> 'u \<Rightarrow> time \<Rightarrow> time
     \<Rightarrow> 'u create_params \<Rightarrow> 'r \<Rightarrow> (key_error + 'u create_response) \<times> 'r" where
  "Create uu env repo rnd newID now1 now2 params r =
     (case APIKey_New uu env rnd now1 params of
        Inl err \<Rightarrow> (Inl err, r)
      | Inr apiKey \<Rightarrow>
          (case kr_Create repo newID now2 apiKey r of
             (Inl err, r') \<Rightarrow> (Inl (RepoFailed err), r')
           | (Inr createdKey, r') \<Rightarrow>
               (case googleToCommonUUID uu (ak_ID createdKey) of
                  None \<Rightarrow> (Inl (InvalidID ErrInvalidUUID), r')
                | Some commonID \<Rightarrow>
                    (Inr \<lparr>cr_ID = pi_value (ApiKeyIDFromUUID uu commonID), cr_Name = ak_Name apiKey,
                          cr_KeyPrefix = ak_KeyPrefix apiKey, cr_RawAPIKey = ak_RawAPIKey apiKey,
                          cr_Scopes = ak_Scopes apiKey, cr_ExpiresAt = ak_ExpiresAt apiKey, cr_CreatedAt = now2\<rparr>, r'))))"

text \<open>A failure to record the use of the key is only logged.\<close>

definition Validate ::
  "'ip key_env \<Rightarrow> ('u, 'ip, 'r) key_repo \<Rightarrow> time \<Rightarrow> time \<Rightarrow> string \<Rightarrow> string \<Rightarrow> 'r
     \<Rightarrow> (key_error + ('u, 'ip) api_key) \<times> 'r" where
  "Validate env repo now1 now2 rawKey ipAddress r =
     (case ExtractKeyPrefixForLookup rawKey of
        Inl err \<Rightarrow> (Inl err, r)
      | Inr keyPrefix \<Rightarrow>
          (case kr_GetActiveByPrefix repo now1 keyPrefix r of
             Inl err \<Rightarrow> (Inl InvalidOrExpired, r)
           | Inr apiKey \<Rightarrow>
               if \<not> APIKey_Verify env rawKey (ak_KeyHash apiKey) then (Inl InvalidKey, r)
               else if ipAddress \<noteq> [] then (Inr apiKey, snd (kr_UpdateLastUsed repo now2 (ak_ID apiKey) ipAddress r))
               else (Inr apiKey, r)))"

definition raw_id :: "'u uuid_ops \<Rightarrow> string \<Rightarrow> key_error + 'u" where
  "raw_id uu i =
     (case ParseApiKeyID uu i of
        Inl err \<Rightarrow> Inl (InvalidID err)
      | Inr apiKeyID \<Rightarrow>
          (case uu_Parse uu (uu_String uu (pi_raw apiKeyID)) of
             None \<Rightarrow> Inl (InvalidID ErrInvalidUUID) | Some u \<Rightarrow> Inr u))"

definition Get :: "'u uuid_ops \<Rightarrow> ('u, 'ip, 'r) key_repo \<Rightarrow> string \<Rightarrow> 'r \<Rightarrow> key_error + ('u, 'ip) api_key" where
  "Get uu repo i r =
     (case raw_id uu i of
        Inl err \<Rightarrow> Inl err
      | Inr googleID \<Rightarrow> (case kr_GetByID repo googleID r of Inl err \<Rightarrow> Inl (RepoFailed err) | Inr k \<Rightarrow> Inr k))"

definition List_keys ::
  "('u, 'ip, 'r) key_repo \<Rightarrow> 'u list_params \<Rightarrow> 'r \<Rightarrow> key_error + ('u, 'ip) api_key list" where
  "List_keys repo params r =
     (case list_params_Validate params of
        Some err \<Rightarrow> Inl (InvalidParams err)
      | None \<Rightarrow>
          (case (lp_TenantID params, lp_UserID params) of
             (Some t, _) \<Rightarrow>
               (case kr_ListByTenant repo t (lp_Page params) (lp_PageSize params) r of Inl err \<Rightarrow> Inl (RepoFailed err) | Inr ks \<Rightarrow> Inr ks)
           | (None, Some u) \<Rightarrow>
               (case kr_ListByUser repo u (lp_Page params) (lp_PageSize params) r of Inl err \<Rightarrow> Inl (RepoFailed err) | Inr ks \<Rightarrow> Inr ks)
           | (None, None) \<Rightarrow> Inl NoListTarget))"

definition UpdateMetadata ::
  "'u uuid_ops \<Rightarrow> ('u, 'ip, 'r) key_repo \<Rightarrow> time \<Rightarrow> time \<Rightarrow> 'u update_params \<Rightarrow> 'r
     \<Rightarrow> (key_error + ('u, 'ip) api_key) \<times> 'r" where
  "UpdateMetadata uu repo now1 now2 params r =
     (case update_params_Validate uu params of
        (Some err, _) \<Rightarrow> (Inl (InvalidParams err), r)
      | (None, params) \<Rightarrow>
          (case kr_GetByID repo (up_ID params) r of
             Inl err \<Rightarrow> (Inl (RepoFailed err), r)
           | Inr apiKey \<Rightarrow>
               (case APIKey_UpdateMetadata uu now1 params apiKey of
                  Inl err \<Rightarrow> (Inl err, r)
                | Inr apiKey' \<Rightarrow>
                    (case kr_Update repo now2 (up_ID params) apiKey' r of
                       (Inl err, r') \<Rightarrow> (Inl (RepoFailed err), r')
                     | (Inr updatedKey, r') \<Rightarrow> (Inr updatedKey, r')))))"

definition Revoke :: "'u uuid_ops \<Rightarrow> ('u, 'ip, 'r) key_repo \<Rightarrow> string \<Rightarrow> 'r \<Rightarrow> key_error option \<times> 'r" where
  "Revoke uu repo i r =
     (case raw_id uu i of
        Inl err \<Rightarrow> (Some err, r)
      | Inr googleID \<Rightarrow>
          (case kr_GetByID repo googleID r of
             Inl err \<Rightarrow> (Some (RepoFailed err), r)
           | Inr apiKey \<Rightarrow>
               (case kr_Delete repo googleID r of
                  (Some err, r') \<Rightarrow> (Some (RepoFailed err), r')
                | (None, r') \<Rightarrow> (None, r'))))"

definition scope_matches :: "string \<Rightarrow> string \<Rightarrow> bool" where
  "scope_matches requiredScope scope \<longleftrightarrow>
     scope = requiredScope \<or>
     HasSuffix scope '':*'' \<and> HasPrefix requiredScope (TrimSuffix scope '':*'' @ '':'')"

definition HasScope :: "('u, 'ip) api_key \<Rightarrow> string \<Rightarrow> bool" where
  "HasScope apiKey requiredScope = list_ex (scope_matches requiredScope) (ak_Scopes apiKey)"

section \<open>Requests and handlers\<close>

record 'u create_request =
  rq_Name :: string
  rq_TenantID :: "'u option"
  rq_UserID :: "'u option"
  rq_Scopes :: "string list"
  rq_ExpiresInDays :: "int option"

definition derefIntOrDefault :: "int option \<Rightarrow> int \<Rightarrow> int" where
  "derefIntOrDefault p d = (case p of None \<Rightarrow> d | Some n \<Rightarrow> n)"

text \<open>A body is what \<open>BindRequest\<close> decodes it to; \<open>remote\<close> is the address of the client. \<open>None\<close>: an error.\<close>

definition CreateApiKeyRequestToParams ::
  "'u uuid_ops \<Rightarrow> 'ip key_env \<Rightarrow> string \<Rightarrow> 'u create_request option \<Rightarrow> 'u create_params option" where
  "CreateApiKeyRequestToParams uu env remote body =
     (case body of
        None \<Rightarrow> None
      | Some req \<Rightarrow>
          let params = \<lparr>cp_Name = rq_Name req,
                cp_TenantID = (case rq_TenantID req of None \<Rightarrow> uu_Nil uu | Some t \<Rightarrow> t),
                cp_UserID = (case rq_UserID req of None \<Rightarrow> uu_Nil uu | Some u \<Rightarrow> u),
                cp_Scopes = rq_Scopes req, cp_IPAddress = remote,
                cp_ExpiresInDays = derefIntOrDefault (rq_ExpiresInDays req) 30\<rparr>
          in (case create_params_Validate env params of
                (Some err, _) \<Rightarrow> None
              | (None, params) \<Rightarrow> Some params))"

definition ValidateApiKeyRequestToParams ::
  "'ip key_env \<Rightarrow> string \<Rightarrow> string option \<Rightarrow> validate_params option" where
  "ValidateApiKeyRequestToParams env remote body =
     (case body of
        None \<Rightarrow> None
      | Some apiKey \<Rightarrow>
          (case validate_params_Validate env \<lparr>vp_RawAPIKey = apiKey, vp_IPAddress = remote\<rparr> of
             (Some err, _) \<Rightarrow> None
           | (None, params) \<Rightarrow> Some params))"

definition UpdateApiKeyMetadataRequestToParams ::
  "'u uuid_ops \<Rightarrow> string \<Rightarrow> 'u update_params option \<Rightarrow> 'u update_params option" where
  "UpdateApiKeyMetadataRequestToParams uu apikeyID body =
     (case (body, raw_id uu apikeyID) of
        (Some req, Inr rawID) \<Rightarrow>
          (case update_params_Validate uu (req\<lparr>up_ID := rawID, up_updateScopes := False\<rparr>) of
             (Some err, _) \<Rightarrow> None
           | (None, params) \<Rightarrow> Some params)
      | _ \<Rightarrow> None)"

text \<open>\<open>q\<close> is the query of the URL: the first value of a parameter, or the empty string.\<close>

definition query_id :: "'u uuid_ops \<Rightarrow> id_kind \<Rightarrow> string \<Rightarrow> 'u option option" where
  "query_id uu kind s =
     (if s = [] then Some None
      else (case parse_id kind uu s of
              Inl err \<Rightarrow> None
            | Inr i \<Rightarrow> (case uu_Parse uu (uu_String uu (pi_raw i)) of None \<Rightarrow> None | Some u \<Rightarrow> Some (Some u))))"

definition query_int :: "int \<Rightarrow> string \<Rightarrow> int" where
  "query_int d s = (if s = [] then d else (case Atoi s of Some v \<Rightarrow> v | None \<Rightarrow> d))"

definition ListApiKeysParamsFromRequest :: "'u uuid_ops \<Rightarrow> (string \<Rightarrow> string) \<Rightarrow> 'u list_params option" where
  "ListApiKeysParamsFromRequest uu q =
     (case query_id uu TenantKind (q ''tenant_id'') of
        None \<Rightarrow> None
      | Some tenantUUID \<Rightarrow>
          (case query_id uu UserKind (q ''user_id'') of
             None \<Rightarrow> None
           | Some userUUID \<Rightarrow>
               Some \<lparr>lp_TenantID = tenantUUID, lp_UserID = userUUID,
                     lp_Page = query_int 1 (q ''page''), lp_PageSize = query_int 20 (q ''pageSize'')\<rparr>))"

text \<open>The status of an error and the body of a success.\<close>

datatype api_error = InvalidJSONError | MissingIDError | InternalError key_error

fun api_status :: "api_error \<Rightarrow> nat" where
  "api_status InvalidJSONError = 400"
| "api_status MissingIDError = 400"
| "api_status (InternalError e) = 500"

fun api_result :: "key_error + 'a \<Rightarrow> api_error + 'a" where
  "api_result (Inl e) = Inl (InternalError e)"
| "api_result (Inr a) = Inr a"

definition listApiKeys ::
  "'u uuid_ops \<Rightarrow> ('u, 'ip, 'r) key_repo \<Rightarrow> (string \<Rightarrow> string) \<Rightarrow> 'r \<Rightarrow> api_error + nat \<times> ('u, 'ip) api_key list" where
  "listApiKeys uu repo q r =
     (case ListApiKeysParamsFromRequest uu q of
        None \<Rightarrow> Inl InvalidJSONError
      | Some params \<Rightarrow> map_sum id (Pair 200) (api_result (List_keys repo params r)))"

definition createApiKey ::
  "'u uuid_ops \<Rightarrow> 'ip key_env \<Rightarrow> ('u, 'ip, 'r) key_repo \<Rightarrow> string option \<Rightarrow> 'u \<Rightarrow> time \<Rightarrow> time
     \<Rightarrow> string \<Rightarrow> 'u create_request option \<Rightarrow> 'r \<Rightarrow> (api_error + nat \<times> 'u create_response) \<times> 'r" where
  "createApiKey uu env repo rnd newID now1 now2 remote body r =
     (case CreateApiKeyRequestToParams uu env remote body of
        None \<Rightarrow> (Inl InvalidJSONError, r)
      | Some params \<Rightarrow>
          (case Create uu env repo rnd newID now1 now2 params r of
             (res, r') \<Rightarrow> (map_sum id (Pair 201) (api_result res), r')))"

definition validateApiKey ::
  "'ip key_env \<Rightarrow> ('u, 'ip, 'r) key_repo \<Rightarrow> time \<Rightarrow> time \<Rightarrow> string \<Rightarrow> string option \<Rightarrow> 'r
     \<Rightarrow> (api_error + nat \<times> ('u, 'ip) api_key) \<times> 'r" where
  "validateApiKey env repo now1 now2 remote body r =
     (case ValidateApiKeyRequestToParams env remote body of
        None \<Rightarrow> (Inl InvalidJSONError, r)
      | Some params \<Rightarrow>
          (case Validate env repo now1 now2 (vp_RawAPIKey params) (vp_IPAddress params) r of
             (res, r') \<Rightarrow> (map_sum id (Pair 200) (api_result res), r')))"

definition revokeApiKey ::
  "'u uuid_ops \<Rightarrow> ('u, 'ip, 'r) key_repo \<Rightarrow> string \<Rightarrow> 'r \<Rightarrow> (api_error + nat) \<times> 'r" where
  "revokeApiKey uu repo apikeyID r =
     (if apikeyID = [] then (Inl MissingIDError, r)
      else (case Revoke uu repo apikeyID r of
              (Some err, r') \<Rightarrow> (Inl (InternalError err), r')
            | (None, r') \<Rightarrow> (Inr 204, r')))"

definition getApiKey ::
  "'u uuid_ops \<Rightarrow> ('u, 'ip, 'r) key_repo \<Rightarrow> string \<Rightarrow> 'r \<Rightarrow> api_error + nat \<times> ('u, 'ip) api_key" where
  "getApiKey uu repo apikeyID r =
     (if apikeyID = [] then Inl MissingIDError
      else map_sum id (Pair 200) (api_result (Get uu repo apikeyID r)))"

definition updateApiKeyMetadata ::
  "'u uuid_ops \<Rightarrow> ('u, 'ip, 'r) key_repo \<Rightarrow> time \<Rightarrow> time \<Rightarrow> string \<Rightarrow> 'u update_params option \<Rightarrow> 'r
     \<Rightarrow> (api_error + nat \<times> ('u, 'ip) api_key) \<times> 'r" where
  "updateApiKeyMetadata uu repo now1 now2 apikeyID body r =
     (if apikeyID = [] then (Inl MissingIDError, r)
      else (case UpdateApiKeyMetadataRequestToParams uu apikeyID body of
              None \<Rightarrow> (Inl InvalidJSONError, r)
            | Some params \<Rightarrow>
                (case UpdateMetadata uu repo now1 now2 params r of
                   (res, r') \<Rightarrow> (map_sum id (Pair 200) (api_result res), r'))))"

section \<open>Histories\<close>

datatype 'u key_act =
    ActCreate "string option" 'u time time "'u create_params"
  | ActValidate time time string string
  | ActUpdate time time "'u update_params"
  | ActRevoke string

fun do_key_act ::
  "'u uuid_ops \<Rightarrow> 'ip key_env \<Rightarrow> ('u, 'ip, 'r) key_repo \<Rightarrow> 'u key_act \<Rightarrow> 'r \<Rightarrow> 'r" where
  "do_key_act uu env repo (ActCreate rnd newID now1 now2 params) r = snd (Create uu env repo rnd newID now1 now2 params r)"
| "do_key_act uu env repo (ActValidate now1 now2 rawKey ip) r = snd (Validate env repo now1 now2 rawKey ip r)"
| "do_key_act uu env repo (ActUpdate now1 now2 params) r = snd (UpdateMetadata uu repo now1 now2 params r)"
| "do_key_act uu env repo (ActRevoke i) r = snd (Revoke uu repo i r)"

text \<open>An action that is aimed at the key with the given ID, and one that draws a key with the given hash.\<close>

fun aims_at :: "'u uuid_ops \<Rightarrow> 'u \<Rightarrow> 'u key_act \<Rightarrow> bool" where
  "aims_at uu u (ActUpdate now1 now2 params) \<longleftrightarrow> up_ID params = u"
| "aims_at uu u (ActRevoke i) \<longleftrightarrow> raw_id uu i = Inr u"
| "aims_at uu u _ \<longleftrightarrow> False"

fun draws :: "'ip key_env \<Rightarrow> string \<Rightarrow> 'u key_act \<Rightarrow> bool" where
  "draws env h (ActCreate (Some keyBytes) newID now1 now2 params) \<longleftrightarrow> hashAPIKey env (APIKeyPrefix @ base64url keyBytes) = h"
| "draws env h _ \<longleftrightarrow> False"

section \<open>Lemmas on keys\<close>

lemma length_base64url: "length (base64url s) = 4 * ((length s + 2) div 3)"
proof (induction s rule: base64url.induct)
  case (4 a b c s)
  then show ?case by (simp add: Let_def) presburger
qed (simp_all add: Let_def)

lemma extract_generated:
  "8 < length keyStr \<Longrightarrow>
   ExtractKeyPrefixForLookup (APIKeyPrefix @ keyStr) = Inr (APIKeyPrefix @ take APIKeyPrefixDisplayLength keyStr)"
  using SplitN2_append_sep [of "CHR ''_''" "''ak''" keyStr]
  by (simp add: ExtractKeyPrefixForLookup_def APIKeyPrefix_def APIKeyPrefixDisplayLength_def)

lemma generateAPIKey_ok:
  "generateAPIKey env (Some keyBytes) = Inr (rawKey, keyPrefix, keyHash) \<Longrightarrow> length keyBytes = 32 \<Longrightarrow>
   ExtractKeyPrefixForLookup rawKey = Inr keyPrefix \<and> APIKey_Verify env rawKey keyHash"
  by (auto simp: generateAPIKey_def Let_def extract_generated length_base64url APIKey_Verify_def)

lemma APIKey_New_ok:
  "APIKey_New uu env rnd now params = Inr k \<Longrightarrow>
   \<exists>keyBytes. rnd = Some keyBytes \<and> generateAPIKey env (Some keyBytes) = Inr (ak_RawAPIKey k, ak_KeyPrefix k, ak_KeyHash k)
     \<and> ak_Name k = cp_Name params \<and> ak_Scopes k = cp_Scopes params \<and> ak_TenantID k = cp_TenantID params
     \<and> ak_UserID k = cp_UserID params \<and> ak_IsActive k \<and> ak_ID k = uu_Nil uu
     \<and> ak_KeyHash k = hashAPIKey env (APIKeyPrefix @ base64url keyBytes)"
  by (cases rnd)
    (auto simp: APIKey_New_def create_params_Validate_def generateAPIKey_def Let_def split: prod.splits option.splits if_splits)

lemma update_keeps_identity:
  "APIKey_UpdateMetadata uu now params k = Inr k' \<Longrightarrow>
   ak_ID k' = ak_ID k \<and> ak_KeyPrefix k' = ak_KeyPrefix k \<and> ak_KeyHash k' = ak_KeyHash k"
  by (auto simp: APIKey_UpdateMetadata_def Let_def split: prod.splits option.splits if_splits)

lemma update_Validate_ID: "update_params_Validate uu p = (e, p') \<Longrightarrow> up_ID p' = up_ID p"
  by (auto simp: update_params_Validate_def Let_def split: option.splits)

lemma raw_id_own: "uuid_laws uu \<Longrightarrow> raw_id uu (pi_value (ApiKeyIDFromUUID uu u)) = Inr u"
proof -
  assume l: "uuid_laws uu"
  have "ParseApiKeyID uu (pi_value (ApiKeyIDFromUUID uu u)) = Inr (ApiKeyIDFromUUID uu u)"
    using l TrimPrefix_append [of "''apk_''" "uu_String uu u"] HasPrefix_append [of "''apk_''" "uu_String uu u"]
    by (simp add: ParseApiKeyID_def ParsePrefixedID_def ApiKeyIDFromUUID_def FromUUID_parts
        normalize_kind [of ApiKeyKind, simplified] uuid_laws_def FromUUID_def Let_def)
  with l show ?thesis by (simp add: raw_id_def ApiKeyIDFromUUID_def FromUUID_parts uuid_laws_def)
qed

section \<open>The contract of the repository\<close>

text \<open>
  \<open>view\<close>: the stored keys by ID. A repository that does not answer (\<open>up\<close>) fails; keys are found by ID
  and, when they are active and not expired, by prefix, which is unique; \<open>Update\<close> writes the name,
  the scopes, the expiry and the flag, and a recorded use changes none of the fields of a check.
\<close>

definition same_check :: "('u, 'ip) api_key \<Rightarrow> ('u, 'ip) api_key \<Rightarrow> bool" where
  "same_check k k' \<longleftrightarrow> ak_ID k' = ak_ID k \<and> ak_Name k' = ak_Name k \<and> ak_KeyPrefix k' = ak_KeyPrefix k
     \<and> ak_KeyHash k' = ak_KeyHash k \<and> ak_TenantID k' = ak_TenantID k \<and> ak_UserID k' = ak_UserID k
     \<and> ak_Scopes k' = ak_Scopes k \<and> ak_ExpiresAt k' = ak_ExpiresAt k \<and> ak_IsActive k' = ak_IsActive k"

lemma same_check_refl [simp]: "same_check k k"
  by (simp add: same_check_def)

lemma same_check_trans: "same_check a b \<Longrightarrow> same_check b c \<Longrightarrow> same_check a c"
  by (simp add: same_check_def)

locale api_key_repository =
  fixes uu :: "'u uuid_ops" and env :: "'ip key_env" and repo :: "('u, 'ip, 'r) key_repo"
    and inv :: "'r \<Rightarrow> bool" and up :: "'r \<Rightarrow> bool" and view :: "'r \<Rightarrow> 'u \<Rightarrow> ('u, 'ip) api_key option"
  assumes view_id: "inv r \<Longrightarrow> view r u = Some k \<Longrightarrow> ak_ID k = u"
    and prefix_unique: "inv r \<Longrightarrow> view r u = Some k \<Longrightarrow> view r u' = Some k' \<Longrightarrow> ak_KeyPrefix k = ak_KeyPrefix k' \<Longrightarrow> u = u'"
    and get_by_id: "inv r \<Longrightarrow> kr_GetByID repo u r = Inr k \<longleftrightarrow> up r \<and> view r u = Some k"
    and get_active: "inv r \<Longrightarrow> kr_GetActiveByPrefix repo now p r = Inr k \<longleftrightarrow>
          up r \<and> view r (ak_ID k) = Some k \<and> ak_KeyPrefix k = p \<and> ak_IsActive k \<and> now < ak_ExpiresAt k"
    and create_ok: "inv r \<Longrightarrow> ak_ID k = uu_Nil uu \<Longrightarrow> kr_Create repo newID now k r = (Inr k', r') \<Longrightarrow>
          inv r' \<and> up r \<and> up r' \<and> view r newID = None \<and> ak_ID k' = newID \<and> view r' = (view r)(newID \<mapsto> k')
          \<and> same_check (k\<lparr>ak_ID := newID\<rparr>) k'"
    and create_err: "kr_Create repo newID now k r = (Inl e, r') \<Longrightarrow> r' = r"
    and update_ok: "inv r \<Longrightarrow> kr_Update repo now u k r = (Inr k', r') \<Longrightarrow>
          inv r' \<and> up r' = up r \<and> (\<exists>k0. view r u = Some k0 \<and> view r' = (view r)(u \<mapsto> k')
            \<and> ak_KeyPrefix k' = ak_KeyPrefix k0 \<and> ak_KeyHash k' = ak_KeyHash k0)"
    and update_err: "kr_Update repo now u k r = (Inl e, r') \<Longrightarrow> r' = r"
    and delete_ok: "inv r \<Longrightarrow> kr_Delete repo u r = (None, r') \<Longrightarrow> inv r' \<and> up r' = up r \<and> view r' = (view r)(u := None)"
    and delete_err: "kr_Delete repo u r = (Some e, r') \<Longrightarrow> r' = r"
    and last_used: "inv r \<Longrightarrow> kr_UpdateLastUsed repo now u ip r = (res, r') \<Longrightarrow>
          inv r' \<and> up r' = up r \<and> (\<forall>i. rel_option same_check (view r i) (view r' i))"
begin

abbreviation act where "act \<equiv> do_key_act uu env repo"

text \<open>What \<open>Validate\<close> accepts.\<close>

lemma Validate_iff:
  assumes "inv r"
  shows "fst (Validate env repo now1 now2 rawKey ip r) = Inr k \<longleftrightarrow>
     up r \<and> view r (ak_ID k) = Some k \<and> ExtractKeyPrefixForLookup rawKey = Inr (ak_KeyPrefix k)
     \<and> APIKey_Verify env rawKey (ak_KeyHash k) \<and> ak_IsActive k \<and> now1 < ak_ExpiresAt k"
proof (cases "ExtractKeyPrefixForLookup rawKey")
  case (Inl e)
  then show ?thesis by (simp add: Validate_def)
next
  case (Inr p)
  have "fst (Validate env repo now1 now2 rawKey ip r) = Inr k \<longleftrightarrow>
      kr_GetActiveByPrefix repo now1 p r = Inr k \<and> APIKey_Verify env rawKey (ak_KeyHash k)"
    by (cases "kr_GetActiveByPrefix repo now1 p r") (auto simp: Validate_def Inr)
  also have "\<dots> \<longleftrightarrow> up r \<and> view r (ak_ID k) = Some k \<and> p = ak_KeyPrefix k
      \<and> APIKey_Verify env rawKey (ak_KeyHash k) \<and> ak_IsActive k \<and> now1 < ak_ExpiresAt k"
    using get_active [OF assms, of now1 p k] by blast
  finally show ?thesis by (simp add: Inr)
qed

lemma Validate_state:
  assumes "inv r" "Validate env repo now1 now2 rawKey ip r = (res, r')"
  shows "inv r' \<and> up r' = up r \<and> (\<forall>i. rel_option same_check (view r i) (view r' i))"
proof -
  have "r' = r \<or> (\<exists>u. r' = snd (kr_UpdateLastUsed repo now2 u ip r))"
    using assms(2) by (auto simp: Validate_def split: sum.splits if_splits)
  then show ?thesis
  proof
    assume "\<exists>u. r' = snd (kr_UpdateLastUsed repo now2 u ip r)"
    then obtain u where "r' = snd (kr_UpdateLastUsed repo now2 u ip r)" ..
    with last_used [OF assms(1)] show ?thesis by (metis prod.collapse)
  qed (use assms(1) in \<open>auto intro: option.rel_refl\<close>)
qed

lemma Create_state:
  assumes "inv r" "Create uu env repo rnd newID now1 now2 params r = (res, r')"
  shows "r' = r \<or> inv r' \<and> up r \<and> up r' \<and> view r newID = None
    \<and> (\<exists>keyBytes k k'. rnd = Some keyBytes \<and> APIKey_New uu env rnd now1 params = Inr k \<and> view r' = (view r)(newID \<mapsto> k')
         \<and> same_check (k\<lparr>ak_ID := newID\<rparr>) k' \<and> ak_KeyHash k' = hashAPIKey env (APIKeyPrefix @ base64url keyBytes))"
proof (cases "APIKey_New uu env rnd now1 params")
  case (Inl e)
  with assms(2) show ?thesis by (simp add: Create_def)
next
  case (Inr k)
  obtain rc rr where cr: "kr_Create repo newID now2 k r = (rc, rr)" by fastforce
  with assms(2) Inr have r': "r' = rr" by (auto simp: Create_def split: sum.splits option.splits)
  show ?thesis
  proof (cases rc)
    case (Inl e)
    with cr r' create_err show ?thesis by blast
  next
    case (Inr k')
    from APIKey_New_ok [OF \<open>APIKey_New uu env rnd now1 params = Inr k\<close>] obtain keyBytes where
      kb: "rnd = Some keyBytes" "ak_ID k = uu_Nil uu" "ak_KeyHash k = hashAPIKey env (APIKeyPrefix @ base64url keyBytes)" by auto
    from create_ok [OF assms(1) kb(2)] cr Inr r' kb \<open>APIKey_New uu env rnd now1 params = Inr k\<close> show ?thesis
      by (auto simp: same_check_def)
  qed
qed

lemma Update_state:
  assumes "inv r" "UpdateMetadata uu repo now1 now2 params r = (res, r')"
  shows "r' = r \<or> inv r' \<and> up r' = up r \<and> (\<exists>k0 k'. view r (up_ID params) = Some k0 \<and> view r' = (view r)(up_ID params \<mapsto> k')
    \<and> ak_KeyPrefix k' = ak_KeyPrefix k0 \<and> ak_KeyHash k' = ak_KeyHash k0)"
proof -
  have "r' = r \<or> (\<exists>k res'. kr_Update repo now2 (up_ID params) k r = (res', r'))"
    using assms(2) by (auto simp: UpdateMetadata_def dest: update_Validate_ID split: prod.splits option.splits sum.splits)
  with update_ok [OF assms(1)] update_err show ?thesis by (metis sum.exhaust)
qed

lemma Revoke_state:
  assumes "inv r" "Revoke uu repo i r = (res, r')"
  shows "r' = r \<and> res \<noteq> None \<or> (\<exists>u. raw_id uu i = Inr u \<and> inv r' \<and> up r' = up r \<and> view r' = (view r)(u := None))"
  using assms delete_ok [OF assms(1)] delete_err
  by (auto simp: Revoke_def split: sum.splits prod.splits option.splits)

lemma act_inv: "inv r \<Longrightarrow> inv (act a r) \<and> up (act a r) = up r"
  using Create_state Validate_state Update_state Revoke_state
  by (cases a) (auto, (metis prod.collapse)+)

lemma acts_inv: "inv r \<Longrightarrow> inv (fold act acts r) \<and> up (fold act acts r) = up r"
  by (induction acts arbitrary: r) (auto simp: act_inv)

text \<open>An action that is not aimed at a key keeps what is checked of it.\<close>

lemma act_keeps:
  assumes "inv r" "\<not> aims_at uu u a" "view r u = Some k"
  shows "\<exists>k'. view (act a r) u = Some k' \<and> same_check k k'"
proof (cases a)
  case (ActCreate rnd newID now1 now2 params)
  obtain res r' where c: "Create uu env repo rnd newID now1 now2 params r = (res, r')" by fastforce
  with Create_state [OF assms(1) c] assms(3) ActCreate show ?thesis by (auto simp: fun_upd_def)
next
  case (ActValidate now1 now2 rawKey ip)
  obtain res r' where c: "Validate env repo now1 now2 rawKey ip r = (res, r')" by fastforce
  with Validate_state [OF assms(1) c] assms(3) have "rel_option same_check (Some k) (view r' u)" by metis
  with c ActValidate show ?thesis by (auto simp: option_rel_Some1)
next
  case (ActUpdate now1 now2 params)
  obtain res r' where c: "UpdateMetadata uu repo now1 now2 params r = (res, r')" by fastforce
  with Update_state [OF assms(1) c] assms(2,3) ActUpdate show ?thesis by auto
next
  case (ActRevoke i)
  obtain res r' where c: "Revoke uu repo i r = (res, r')" by fastforce
  with Revoke_state [OF assms(1) c] assms(2,3) ActRevoke show ?thesis by auto
qed

lemma acts_keep:
  "inv r \<Longrightarrow> \<forall>a \<in> set acts. \<not> aims_at uu u a \<Longrightarrow> view r u = Some k \<Longrightarrow> \<exists>k'. view (fold act acts r) u = Some k' \<and> same_check k k'"
proof (induction acts arbitrary: r k)
  case Nil
  then show ?case by auto
next
  case (Cons a acts)
  then obtain k1 where "view (act a r) u = Some k1" "same_check k k1" using act_keeps [of r u a k] by auto
  with Cons.IH [of "act a r" k1] Cons.prems act_inv show ?case by (auto intro: same_check_trans)
qed

text \<open>No stored key answers to a prefix and a hash, and only drawing that hash changes it.\<close>

definition absent :: "string \<Rightarrow> string \<Rightarrow> 'r \<Rightarrow> bool" where
  "absent p h r \<longleftrightarrow> (\<forall>u k. view r u = Some k \<longrightarrow> \<not> (ak_KeyPrefix k = p \<and> ak_KeyHash k = h))"

lemma act_absent:
  assumes "inv r" "absent p h r" "\<not> draws env h a"
  shows "absent p h (act a r)"
proof (cases a)
  case (ActCreate rnd newID now1 now2 params)
  obtain res r' where c: "Create uu env repo rnd newID now1 now2 params r = (res, r')" by fastforce
  with Create_state [OF assms(1) c] assms(2,3) ActCreate show ?thesis by (fastforce simp: absent_def split: if_splits)
next
  case (ActValidate now1 now2 rawKey ip)
  obtain res r' where c: "Validate env repo now1 now2 rawKey ip r = (res, r')" by fastforce
  have "\<exists>k0. view r u = Some k0 \<and> same_check k0 k" if "view r' u = Some k" for u k
    using Validate_state [OF assms(1) c] that by (metis option_rel_Some2)
  with assms(2) c ActValidate show ?thesis by (fastforce simp: absent_def same_check_def)
next
  case (ActUpdate now1 now2 params)
  obtain res r' where c: "UpdateMetadata uu repo now1 now2 params r = (res, r')" by fastforce
  with Update_state [OF assms(1) c] assms(2) ActUpdate show ?thesis by (fastforce simp: absent_def)
next
  case (ActRevoke i)
  obtain res r' where c: "Revoke uu repo i r = (res, r')" by fastforce
  with Revoke_state [OF assms(1) c] assms(2) ActRevoke show ?thesis by (fastforce simp: absent_def split: if_splits)
qed

lemma acts_absent:
  "inv r \<Longrightarrow> absent p h r \<Longrightarrow> \<forall>a \<in> set acts. \<not> draws env h a \<Longrightarrow> absent p h (fold act acts r)"
  by (induction acts arbitrary: r) (auto simp: act_absent act_inv)

text \<open>The key that \<open>Create\<close> hands out is the key it stores.\<close>

lemma Create_stores:
  assumes "inv r" "length keyBytes = 32" "uuid_laws uu"
    and "Create uu env repo (Some keyBytes) newID now1 now2 params r = (Inr resp, r1)"
  obtains k where "inv r1" "up r1" "view r1 newID = Some k" "cr_ID resp = pi_value (ApiKeyIDFromUUID uu newID)"
    "ExtractKeyPrefixForLookup (cr_RawAPIKey resp) = Inr (ak_KeyPrefix k)" "ak_KeyHash k = hashAPIKey env (cr_RawAPIKey resp)"
    "ak_Name k = cp_Name params" "ak_Scopes k = cp_Scopes params" "ak_TenantID k = cp_TenantID params"
    "ak_UserID k = cp_UserID params" "ak_IsActive k" "ak_ExpiresAt k = cr_ExpiresAt resp"
proof -
  from assms(4) obtain k0 k' where k: "APIKey_New uu env (Some keyBytes) now1 params = Inr k0"
      "kr_Create repo newID now2 k0 r = (Inr k', r1)"
      "cr_RawAPIKey resp = ak_RawAPIKey k0" "cr_ExpiresAt resp = ak_ExpiresAt k0"
      "\<exists>c. uu_Parse uu (uu_String uu (ak_ID k')) = Some c \<and> cr_ID resp = pi_value (ApiKeyIDFromUUID uu c)"
    by (auto simp: Create_def googleToCommonUUID_def split: sum.splits prod.splits option.splits)
  note n = APIKey_New_ok [OF k(1)]
  then have g: "generateAPIKey env (Some keyBytes) = Inr (ak_RawAPIKey k0, ak_KeyPrefix k0, ak_KeyHash k0)" by auto
  from create_ok [OF assms(1) _ k(2)] n have s: "inv r1" "up r1" "ak_ID k' = newID" "view r1 newID = Some k'"
      "same_check (k0\<lparr>ak_ID := newID\<rparr>) k'" by auto
  from k(5) s(3) assms(3) have "cr_ID resp = pi_value (ApiKeyIDFromUUID uu newID)" by (auto simp: uuid_laws_def)
  with that [of k'] s n g generateAPIKey_ok [OF g assms(2)] k(3,4) show ?thesis
    by (auto simp: same_check_def APIKey_Verify_def)
qed

lemma issued_accepted:
  assumes "inv r" "length keyBytes = 32" "uuid_laws uu"
    and create: "Create uu env repo (Some keyBytes) newID now1 now2 params r = (Inr resp, r1)"
    and others: "\<forall>a \<in> set acts. \<not> aims_at uu newID a" and now: "now3 < cr_ExpiresAt resp"
  shows "\<exists>k. fst (Validate env repo now3 now4 (cr_RawAPIKey resp) ip (fold act acts r1)) = Inr k \<and> ak_ID k = newID
    \<and> ak_Name k = cp_Name params \<and> ak_Scopes k = cp_Scopes params \<and> ak_TenantID k = cp_TenantID params
    \<and> ak_UserID k = cp_UserID params"
proof -
  from Create_stores [OF assms(1-4)] obtain k where k: "inv r1" "up r1" "view r1 newID = Some k"
    "ExtractKeyPrefixForLookup (cr_RawAPIKey resp) = Inr (ak_KeyPrefix k)" "ak_KeyHash k = hashAPIKey env (cr_RawAPIKey resp)"
    "ak_Name k = cp_Name params" "ak_Scopes k = cp_Scopes params" "ak_TenantID k = cp_TenantID params"
    "ak_UserID k = cp_UserID params" "ak_IsActive k" "ak_ExpiresAt k = cr_ExpiresAt resp" by metis
  from acts_keep [OF k(1) others k(3)] obtain k' where k': "view (fold act acts r1) newID = Some k'" "same_check k k'" by auto
  moreover from view_id [OF _ k'(1)] acts_inv [OF k(1)] have "ak_ID k' = newID" by blast
  ultimately show ?thesis
    using Validate_iff [of "fold act acts r1" now3 now4 "cr_RawAPIKey resp" ip k'] acts_inv [OF k(1), of acts] k now
    by (auto simp: same_check_def APIKey_Verify_def)
qed

lemma revoked_refused:
  assumes "inv r" "length keyBytes = 32" "uuid_laws uu"
    and create: "Create uu env repo (Some keyBytes) newID now1 now2 params r = (Inr resp, r1)"
    and others: "\<forall>a \<in> set acts. \<not> aims_at uu newID a"
    and revoke: "Revoke uu repo (cr_ID resp) (fold act acts r1) = (None, r2)"
    and fresh: "\<forall>a \<in> set later. \<not> draws env (hashAPIKey env (cr_RawAPIKey resp)) a"
  shows "\<not> is_ok (fst (Validate env repo now3 now4 (cr_RawAPIKey resp) ip (fold act later r2)))"
proof
  let ?h = "hashAPIKey env (cr_RawAPIKey resp)"
  from Create_stores [OF assms(1-4)] obtain k where k: "inv r1" "view r1 newID = Some k"
    "cr_ID resp = pi_value (ApiKeyIDFromUUID uu newID)" "ExtractKeyPrefixForLookup (cr_RawAPIKey resp) = Inr (ak_KeyPrefix k)" by metis
  from acts_keep [OF k(1) others k(2)] obtain k1 where k1: "view (fold act acts r1) newID = Some k1" "ak_KeyPrefix k1 = ak_KeyPrefix k"
    by (auto simp: same_check_def)
  have i1: "inv (fold act acts r1)" using acts_inv [OF k(1)] by blast
  from Revoke_state [OF i1 revoke] k(3) raw_id_own [OF assms(3)]
  have r2: "inv r2" "view r2 = (view (fold act acts r1))(newID := None)" by auto
  then have "absent (ak_KeyPrefix k) ?h r2"
    using prefix_unique [OF i1 k1(1)] k1(2) by (auto simp: absent_def)
  then have ab: "absent (ak_KeyPrefix k) ?h (fold act later r2)" using acts_absent [OF r2(1) _ fresh] by blast
  assume "is_ok (fst (Validate env repo now3 now4 (cr_RawAPIKey resp) ip (fold act later r2)))"
  then obtain k' where "fst (Validate env repo now3 now4 (cr_RawAPIKey resp) ip (fold act later r2)) = Inr k'"
    by (auto simp: is_ok_iff)
  with Validate_iff acts_inv [OF r2(1)] k(4) ab show False by (auto simp: absent_def APIKey_Verify_def)
qed

end

end
