(* ===== verification/ApiKeyStore.thy ===== *)
theory ApiKeyStore
  imports ApiKeys
begin

text \<open>
  The Postgres repository of API keys (\<open>adapters/postgres/api_key_repository.go\<close>): its queries on a table
  with the constraints of the schema. It satisfies the contract of the service's port, so that the
  facts about histories of calls hold of the service on this repository.
\<close>

section \<open>The Postgres repository\<close>

text \<open>A row of the table; the columns of times that may be NULL are options.\<close>

record ('u, 'ip) key_row =
  row_id :: 'u
  row_name :: string
  row_key_prefix :: string
  row_key_hash :: string
  row_tenant_id :: 'u
  row_user_id :: 'u
  row_scopes :: "string list"
  row_expires_at :: "time option"
  row_last_used_at :: "time option"
  row_created_ip :: "'ip option"
  row_last_used_ip :: "'ip option"
  row_is_active :: bool
  row_created_at :: time
  row_updated_at :: time

text \<open>
  The database: the rows in the order of insertion, the tenants that \<open>tenant_id\<close> may refer to, and
  whether it answers. The schema makes \<open>id\<close> and \<open>key_prefix\<close> unique and limits the name to 255
  characters; its trigger, which sets \<open>updated_at\<close> once more, is left out.
\<close>

record ('u, 'ip) key_db =
  db_rows :: "('u, 'ip) key_row list"
  db_tenants :: "'u list"
  db_up :: bool

text \<open>\<open>scanSingleAPIKey\<close>: NULL times are read as the zero time.\<close>

definition scan_key :: "('u, 'ip) key_row \<Rightarrow> ('u, 'ip) api_key" where
  "scan_key row =
     \<lparr>ak_ID = row_id row, ak_Name = row_name row, ak_KeyPrefix = row_key_prefix row, ak_KeyHash = row_key_hash row,
      ak_RawAPIKey = [], ak_TenantID = row_tenant_id row, ak_UserID = row_user_id row, ak_Scopes = row_scopes row,
      ak_ExpiresAt = (case row_expires_at row of Some t \<Rightarrow> t | None \<Rightarrow> time_zero),
      ak_LastUsedAt = (case row_last_used_at row of Some t \<Rightarrow> t | None \<Rightarrow> time_zero),
      ak_CreatedIPAddress = row_created_ip row, ak_LastUsedIPAddress = row_last_used_ip row,
      ak_IsActive = row_is_active row, ak_CreatedAt = row_created_at row, ak_UpdatedAt = row_updated_at row\<rparr>"

definition key_row_of :: "('u, 'ip) api_key \<Rightarrow> ('u, 'ip) key_row" where
  "key_row_of k =
     \<lparr>row_id = ak_ID k, row_name = ak_Name k, row_key_prefix = ak_KeyPrefix k, row_key_hash = ak_KeyHash k,
      row_tenant_id = ak_TenantID k, row_user_id = ak_UserID k, row_scopes = ak_Scopes k,
      row_expires_at = Some (ak_ExpiresAt k), row_last_used_at = None, row_created_ip = ak_CreatedIPAddress k,
      row_last_used_ip = None, row_is_active = ak_IsActive k, row_created_at = ak_CreatedAt k,
      row_updated_at = ak_UpdatedAt k\<rparr>"

definition insert_ok :: "('u, 'ip) key_row \<Rightarrow> ('u, 'ip) key_db \<Rightarrow> bool" where
  "insert_ok row db \<longleftrightarrow> db_up db \<and> length (row_name row) \<le> 255 \<and> row_tenant_id row \<in> set (db_tenants db) \<and>
     (\<forall>row' \<in> set (db_rows db). row_id row' \<noteq> row_id row \<and> row_key_prefix row' \<noteq> row_key_prefix row)"

definition pg_Create ::
  "'u uuid_ops \<Rightarrow> 'u \<Rightarrow> time \<Rightarrow> ('u, 'ip) api_key \<Rightarrow> ('u, 'ip) key_db \<Rightarrow> (repo_error + ('u, 'ip) api_key) \<times> ('u, 'ip) key_db" where
  "pg_Create uu newID now k db =
     (let k1 = (if ak_ID k = uu_Nil uu then k\<lparr>ak_ID := newID\<rparr> else k);
          k2 = k1\<lparr>ak_CreatedAt := now, ak_UpdatedAt := now, ak_RawAPIKey := []\<rparr>;
          row = key_row_of k2
      in if insert_ok row db then (Inr (scan_key row), db\<lparr>db_rows := db_rows db @ [row]\<rparr>) else (Inl DbError, db))"

text \<open>A query that gives one row.\<close>

definition select_one :: "(('u, 'ip) key_row \<Rightarrow> bool) \<Rightarrow> ('u, 'ip) key_db \<Rightarrow> repo_error + ('u, 'ip) api_key" where
  "select_one P db =
     (if \<not> db_up db then Inl DbError
      else (case find P (db_rows db) of None \<Rightarrow> Inl KeyNotFound | Some row \<Rightarrow> Inr (scan_key row)))"

definition pg_GetByID :: "'u \<Rightarrow> ('u, 'ip) key_db \<Rightarrow> repo_error + ('u, 'ip) api_key" where
  "pg_GetByID i = select_one (\<lambda>row. row_id row = i)"

definition pg_GetByPrefix :: "string \<Rightarrow> ('u, 'ip) key_db \<Rightarrow> repo_error + ('u, 'ip) api_key" where
  "pg_GetByPrefix p = select_one (\<lambda>row. row_key_prefix row = p)"

definition active_at :: "time \<Rightarrow> ('u, 'ip) key_row \<Rightarrow> bool" where
  "active_at now row \<longleftrightarrow> row_is_active row \<and> (case row_expires_at row of None \<Rightarrow> True | Some t \<Rightarrow> t > now)"

definition pg_GetActiveByPrefix :: "time \<Rightarrow> string \<Rightarrow> ('u, 'ip) key_db \<Rightarrow> repo_error + ('u, 'ip) api_key" where
  "pg_GetActiveByPrefix now p = select_one (\<lambda>row. row_key_prefix row = p \<and> active_at now row)"

definition update_rows ::
  "'u \<Rightarrow> (('u, 'ip) key_row \<Rightarrow> ('u, 'ip) key_row) \<Rightarrow> ('u, 'ip) key_db \<Rightarrow> ('u, 'ip) key_db" where
  "update_rows i f db = db\<lparr>db_rows := map (\<lambda>row. if row_id row = i then f row else row) (db_rows db)\<rparr>"

definition set_metadata :: "time \<Rightarrow> ('u, 'ip) api_key \<Rightarrow> ('u, 'ip) key_row \<Rightarrow> ('u, 'ip) key_row" where
  "set_metadata now k row =
     row\<lparr>row_name := ak_Name k, row_scopes := ak_Scopes k, row_expires_at := Some (ak_ExpiresAt k),
         row_is_active := ak_IsActive k, row_updated_at := now\<rparr>"

definition pg_Update ::
  "time \<Rightarrow> 'u \<Rightarrow> ('u, 'ip) api_key \<Rightarrow> ('u, 'ip) key_db \<Rightarrow> (repo_error + ('u, 'ip) api_key) \<times> ('u, 'ip) key_db" where
  "pg_Update now i k db =
     (if \<not> db_up db \<or> length (ak_Name k) > 255 then (Inl DbError, db)
      else let db' = update_rows i (set_metadata now k) db
           in (case find (\<lambda>row. row_id row = i) (db_rows db') of
                 None \<Rightarrow> (Inl KeyNotFound, db)
               | Some row \<Rightarrow> (Inr (scan_key row), db')))"

definition pg_Delete :: "'u \<Rightarrow> ('u, 'ip) key_db \<Rightarrow> repo_error option \<times> ('u, 'ip) key_db" where
  "pg_Delete i db =
     (if \<not> db_up db then (Some DbError, db)
      else if \<forall>row \<in> set (db_rows db). row_id row \<noteq> i then (Some KeyNotFound, db)
      else (None, db\<lparr>db_rows := filter (\<lambda>row. row_id row \<noteq> i) (db_rows db)\<rparr>))"

text \<open>\<open>ORDER BY created_at DESC LIMIT pageSize OFFSET (page - 1) * pageSize\<close>.\<close>

definition select_page ::
  "(('u, 'ip) key_row \<Rightarrow> bool) \<Rightarrow> int \<Rightarrow> int \<Rightarrow> ('u, 'ip) key_db \<Rightarrow> repo_error + ('u, 'ip) api_key list" where
  "select_page P page pageSize db =
     (if \<not> db_up db then Inl DbError
      else Inr (map scan_key (take (nat pageSize) (drop (nat ((page - 1) * pageSize))
             (sort_key (\<lambda>row. - row_created_at row) (filter P (db_rows db)))))))"

definition pg_ListByTenant :: "'u \<Rightarrow> int \<Rightarrow> int \<Rightarrow> ('u, 'ip) key_db \<Rightarrow> repo_error + ('u, 'ip) api_key list" where
  "pg_ListByTenant t = select_page (\<lambda>row. row_tenant_id row = t)"

definition pg_ListByUser :: "'u \<Rightarrow> int \<Rightarrow> int \<Rightarrow> ('u, 'ip) key_db \<Rightarrow> repo_error + ('u, 'ip) api_key list" where
  "pg_ListByUser u = select_page (\<lambda>row. row_user_id row = u)"

definition pg_UpdateLastUsed ::
  "'ip key_env \<Rightarrow> time \<Rightarrow> 'u \<Rightarrow> string \<Rightarrow> ('u, 'ip) key_db \<Rightarrow> repo_error option \<times> ('u, 'ip) key_db" where
  "pg_UpdateLastUsed env now i ipAddress db =
     (if \<not> db_up db then (Some DbError, db)
      else if \<forall>row \<in> set (db_rows db). row_id row \<noteq> i then (Some KeyNotFound, db)
      else (None, update_rows i (\<lambda>row. row\<lparr>row_last_used_at := Some now, row_last_used_ip := ke_ParseIP env ipAddress,
                                          row_updated_at := now\<rparr>) db))"

definition pg_repo :: "'u uuid_ops \<Rightarrow> 'ip key_env \<Rightarrow> ('u, 'ip, ('u, 'ip) key_db) key_repo" where
  "pg_repo uu env =
     \<lparr>kr_Create = pg_Create uu, kr_GetByID = pg_GetByID, kr_GetActiveByPrefix = pg_GetActiveByPrefix,
      kr_Update = pg_Update, kr_Delete = pg_Delete, kr_ListByTenant = pg_ListByTenant, kr_ListByUser = pg_ListByUser,
      kr_UpdateLastUsed = pg_UpdateLastUsed env\<rparr>"

section \<open>The table satisfies the contract\<close>

definition key_inv :: "('u, 'ip) key_db \<Rightarrow> bool" where
  "key_inv db \<longleftrightarrow> distinct (map row_id (db_rows db)) \<and> distinct (map row_key_prefix (db_rows db)) \<and>
     (\<forall>row \<in> set (db_rows db). row_expires_at row \<noteq> None)"

definition key_view :: "('u, 'ip) key_db \<Rightarrow> 'u \<Rightarrow> ('u, 'ip) api_key option" where
  "key_view db u = map_option scan_key (find (\<lambda>row. row_id row = u) (db_rows db))"

lemma find_row:
  "key_inv db \<Longrightarrow> find (\<lambda>row. row_id row = u) (db_rows db) = Some row \<longleftrightarrow> row \<in> set (db_rows db) \<and> row_id row = u"
  by (rule find_unique [of row_id]) (auto simp: key_inv_def)

lemma scan_key_sel [simp]:
  "ak_ID (scan_key row) = row_id row" "ak_KeyPrefix (scan_key row) = row_key_prefix row" "ak_KeyHash (scan_key row) = row_key_hash row"
  "ak_IsActive (scan_key row) = row_is_active row" "ak_Name (scan_key row) = row_name row" "ak_Scopes (scan_key row) = row_scopes row"
  "ak_TenantID (scan_key row) = row_tenant_id row" "ak_UserID (scan_key row) = row_user_id row"
  "ak_ExpiresAt (scan_key row) = (case row_expires_at row of Some t \<Rightarrow> t | None \<Rightarrow> 0)"
  by (simp_all add: scan_key_def)

lemma key_view_iff: "key_inv db \<Longrightarrow> key_view db u = Some k \<longleftrightarrow> (\<exists>row \<in> set (db_rows db). row_id row = u \<and> k = scan_key row)"
  by (auto simp: key_view_def find_row)

lemma key_view_unique: "key_inv db \<Longrightarrow> row \<in> set (db_rows db) \<Longrightarrow> key_view db (row_id row) = Some (scan_key row)"
  by (auto simp: key_view_iff)

lemma rows_unique:
  "key_inv db \<Longrightarrow> row \<in> set (db_rows db) \<Longrightarrow> row' \<in> set (db_rows db) \<Longrightarrow>
   row_id row = row_id row' \<or> row_key_prefix row = row_key_prefix row' \<Longrightarrow> row = row'"
  by (auto simp: key_inv_def dest: inj_onD [OF distinct_map [THEN iffD1, THEN conjunct2]])

lemma select_one_ok: "select_one P db = Inr k \<longleftrightarrow> db_up db \<and> (\<exists>row. find P (db_rows db) = Some row \<and> k = scan_key row)"
  by (auto simp: select_one_def split: option.splits)

lemma pg_get_active:
  assumes "key_inv db"
  shows "pg_GetActiveByPrefix now p db = Inr k \<longleftrightarrow> db_up db \<and> key_view db (ak_ID k) = Some k \<and> ak_KeyPrefix k = p
    \<and> ak_IsActive k \<and> now < ak_ExpiresAt k"
proof -
  have e: "row \<in> set (db_rows db) \<Longrightarrow> \<exists>t. row_expires_at row = Some t" for row using assms by (auto simp: key_inv_def)
  have "find (\<lambda>row. row_key_prefix row = p \<and> active_at now row) (db_rows db) = Some row \<longleftrightarrow>
      row \<in> set (db_rows db) \<and> row_key_prefix row = p \<and> active_at now row" for row
    by (rule find_unique [of row_key_prefix]) (use assms in \<open>auto simp: key_inv_def\<close>)
  then have "pg_GetActiveByPrefix now p db = Inr k \<longleftrightarrow>
      db_up db \<and> (\<exists>row \<in> set (db_rows db). row_key_prefix row = p \<and> active_at now row \<and> k = scan_key row)"
    by (auto simp: pg_GetActiveByPrefix_def select_one_ok)
  also have "\<dots> \<longleftrightarrow> db_up db \<and> key_view db (ak_ID k) = Some k \<and> ak_KeyPrefix k = p \<and> ak_IsActive k \<and> now < ak_ExpiresAt k"
    using e by (fastforce simp: key_view_iff [OF assms] active_at_def)
  finally show ?thesis .
qed

lemma pg_create:
  assumes "key_inv db" "ak_ID k = uu_Nil uu" "pg_Create uu newID now k db = (Inr k', db')"
  shows "key_inv db' \<and> db_up db \<and> db_up db' \<and> key_view db newID = None \<and> ak_ID k' = newID
    \<and> key_view db' = (key_view db)(newID \<mapsto> k') \<and> same_check (k\<lparr>ak_ID := newID\<rparr>) k'"
proof -
  let ?row = "key_row_of (k\<lparr>ak_ID := newID, ak_CreatedAt := now, ak_UpdatedAt := now, ak_RawAPIKey := []\<rparr>)"
  from assms have c: "insert_ok ?row db" "k' = scan_key ?row" "db' = db\<lparr>db_rows := db_rows db @ [?row]\<rparr>"
    by (auto simp: pg_Create_def Let_def split: if_splits)
  have i: "row_id ?row = newID" by (simp add: key_row_of_def)
  from c(1) have "\<forall>row \<in> set (db_rows db). row_id row \<noteq> newID \<and> row_key_prefix row \<noteq> row_key_prefix ?row" "db_up db"
    by (auto simp: insert_ok_def i)
  moreover from this have "find (\<lambda>row. row_id row = newID) (db_rows db) = None" by (auto simp: find_None_iff)
  ultimately show ?thesis using assms(1) c(2,3)
    by (auto simp: key_inv_def key_view_def find_append key_row_of_def same_check_def fun_eq_iff split: option.splits)
qed

lemma find_update_rows:
  "(\<And>row. row_id (f row) = row_id row) \<Longrightarrow>
   find (\<lambda>row. row_id row = v) (db_rows (update_rows u f db)) =
     map_option (\<lambda>row. if v = u then f row else row) (find (\<lambda>row. row_id row = v) (db_rows db))"
  using find_map_key [of row_id f v u "db_rows db"] by (simp add: update_rows_def)

lemma update_rows_inv:
  assumes "key_inv db" "\<And>row. row_id (f row) = row_id row" "\<And>row. row_key_prefix (f row) = row_key_prefix row"
    "\<And>row. row_expires_at row \<noteq> None \<Longrightarrow> row_expires_at (f row) \<noteq> None"
  shows "key_inv (update_rows u f db)"
proof -
  have "map row_id (db_rows (update_rows u f db)) = map row_id (db_rows db)"
    "map row_key_prefix (db_rows (update_rows u f db)) = map row_key_prefix (db_rows db)"
    using assms(2,3) by (simp_all add: update_rows_def)
  moreover have "\<forall>row \<in> set (db_rows (update_rows u f db)). row_expires_at row \<noteq> None"
    using assms(1,4) by (auto simp: update_rows_def key_inv_def)
  ultimately show ?thesis using assms(1) unfolding key_inv_def by simp
qed

lemma set_metadata_sel [simp]:
  "row_id (set_metadata now k row) = row_id row" "row_key_prefix (set_metadata now k row) = row_key_prefix row"
  "row_key_hash (set_metadata now k row) = row_key_hash row" "row_expires_at (set_metadata now k row) \<noteq> None"
  by (simp_all add: set_metadata_def)

lemma pg_update:
  assumes "key_inv db" "pg_Update now u k db = (Inr k', db')"
  shows "key_inv db' \<and> db_up db' = db_up db \<and> (\<exists>k0. key_view db u = Some k0 \<and> key_view db' = (key_view db)(u \<mapsto> k')
    \<and> ak_KeyPrefix k' = ak_KeyPrefix k0 \<and> ak_KeyHash k' = ak_KeyHash k0)"
proof -
  have db': "db' = update_rows u (set_metadata now k) db"
    using assms(2) by (auto simp: pg_Update_def Let_def split: if_splits option.splits)
  from assms(2) obtain row where row: "find (\<lambda>row. row_id row = u) (db_rows db) = Some row" "k' = scan_key (set_metadata now k row)"
    by (auto simp: pg_Update_def Let_def find_update_rows split: if_splits option.splits)
  have "key_view db' = (key_view db)(u \<mapsto> k')"
    using row by (auto simp: db' find_update_rows fun_eq_iff key_view_def option.map_ident)
  with row update_rows_inv [OF assms(1), of "set_metadata now k" u] show ?thesis
    by (auto simp: db' key_view_def update_rows_def)
qed

lemma pg_delete:
  "key_inv db \<Longrightarrow> pg_Delete u db = (None, db') \<Longrightarrow> key_inv db' \<and> db_up db' = db_up db \<and> key_view db' = (key_view db)(u := None)"
proof -
  assume a: "key_inv db" "pg_Delete u db = (None, db')"
  then have db': "db' = db\<lparr>db_rows := filter (\<lambda>row. row_id row \<noteq> u) (db_rows db)\<rparr>"
    by (auto simp: pg_Delete_def split: if_splits)
  have "find (\<lambda>row. row_id row = v) (filter (\<lambda>row. row_id row \<noteq> u) rows) =
      (if v = u then None else find (\<lambda>row. row_id row = v) rows)" for v and rows :: "('a, 'b) key_row list"
    by (induction rows) auto
  with a(1) show ?thesis by (auto simp: db' key_inv_def key_view_def fun_eq_iff distinct_map_filter)
qed

lemma pg_last_used:
  assumes "key_inv db" "pg_UpdateLastUsed env now u ip db = (res, db')"
  shows "key_inv db' \<and> db_up db' = db_up db \<and> (\<forall>i. rel_option same_check (key_view db i) (key_view db' i))"
proof (cases "db' = db")
  case True
  with assms show ?thesis by (auto intro: option.rel_refl)
next
  case False
  let ?f = "\<lambda>row. row\<lparr>row_last_used_at := Some now, row_last_used_ip := ke_ParseIP env ip, row_updated_at := now\<rparr>"
  from False assms(2) have db': "db' = update_rows u ?f db" by (auto simp: pg_UpdateLastUsed_def split: if_splits)
  have "rel_option same_check (key_view db v) (key_view db' v)" for v
    by (cases "find (\<lambda>row. row_id row = v) (db_rows db)") (simp_all add: db' find_update_rows key_view_def same_check_def)
  with update_rows_inv [OF assms(1), of ?f u] show ?thesis by (simp add: db' update_rows_def)
qed

interpretation pg: api_key_repository uu env "pg_repo uu env" key_inv db_up key_view
  for uu :: "'u uuid_ops" and env :: "'ip key_env"
proof (unfold_locales, goal_cases)
  case (1 r u k)
  then show ?case by (auto simp: key_view_iff)
next
  case (2 r u k u' k')
  then show ?case using rows_unique [OF 2(1)] by (auto simp: key_view_iff) metis
next
  case (3 r u k)
  then show ?case by (auto simp: pg_repo_def pg_GetByID_def select_one_ok key_view_def)
next
  case (4 r now p k)
  then show ?case by (simp add: pg_repo_def pg_get_active)
next
  case (5 r k newID now k' r')
  then show ?case using pg_create [of r k uu newID now k' r'] by (simp add: pg_repo_def)
next
  case (6 newID now k r e r')
  then show ?case by (auto simp: pg_repo_def pg_Create_def Let_def split: if_splits)
next
  case (7 r now u k k' r')
  then show ?case using pg_update [of r now u k k' r'] by (simp add: pg_repo_def)
next
  case (8 now u k r e r')
  then show ?case by (auto simp: pg_repo_def pg_Update_def Let_def split: if_splits option.splits)
next
  case (9 r u r')
  then show ?case using pg_delete [of r u r'] by (simp add: pg_repo_def)
next
  case (10 u r e r')
  then show ?case by (auto simp: pg_repo_def pg_Delete_def split: if_splits)
next
  case (11 r now u ip res r')
  then show ?case using pg_last_used [of r env now u ip res r'] by (simp add: pg_repo_def)
qed

section \<open>Properties\<close>

text \<open>C28: A key that was handed out works: for a key created on any table with unique prefixes and IDs,
  after any further creations, validations, updates and revocations of other keys, validating the raw
  key before its expiry succeeds and gives the key with the ID, name, scopes, tenant and user of its
  creation.\<close>

theorem issued_key_accepted:
  assumes "key_inv db" "uuid_laws uu" "length keyBytes = 32"
    and "Create uu env (pg_repo uu env) (Some keyBytes) newID now1 now2 params db = (Inr resp, db1)"
    and "\<forall>a \<in> set acts. \<not> aims_at uu newID a" and "now3 < cr_ExpiresAt resp"
  shows "\<exists>k. fst (Validate env (pg_repo uu env) now3 now4 (cr_RawAPIKey resp) ip
              (fold (do_key_act uu env (pg_repo uu env)) acts db1)) = Inr k
    \<and> ak_ID k = newID \<and> ak_Name k = cp_Name params \<and> ak_Scopes k = cp_Scopes params
    \<and> ak_TenantID k = cp_TenantID params \<and> ak_UserID k = cp_UserID params"
  using pg.issued_accepted [OF assms(1,3,2,4,5,6)] .

text \<open>A revoked key stays revoked: once its revocation by the ID of its creation has succeeded, the raw
  key is refused at every time and after any further history, as long as no later creation draws a key
  with the same hash.\<close>

lemma revoked_key_refused:
  assumes "key_inv db" "uuid_laws uu" "length keyBytes = 32"
    and "Create uu env (pg_repo uu env) (Some keyBytes) newID now1 now2 params db = (Inr resp, db1)"
    and "\<forall>a \<in> set acts. \<not> aims_at uu newID a"
    and "Revoke uu (pg_repo uu env) (cr_ID resp) (fold (do_key_act uu env (pg_repo uu env)) acts db1) = (None, db2)"
    and "\<forall>a \<in> set later. \<not> draws env (hashAPIKey env (cr_RawAPIKey resp)) a"
  shows "\<not> is_ok (fst (Validate env (pg_repo uu env) now3 now4 (cr_RawAPIKey resp) ip
                  (fold (do_key_act uu env (pg_repo uu env)) later db2)))"
  using pg.revoked_refused [OF assms(1,3,2,4,5,6,7)] .


text \<open>What a scope grants: itself, and with a final \<open>:*\<close> every scope that starts with the rest and a colon.\<close>

lemma HasScope_exact:
  "HasScope k s \<longleftrightarrow> s \<in> set (ak_Scopes k) \<or> (\<exists>p r. p @ '':*'' \<in> set (ak_Scopes k) \<and> s = p @ '':'' @ r)"
proof -
  have "scope_matches s scope \<longleftrightarrow> scope = s \<or> (\<exists>p r. scope = p @ '':*'' \<and> s = p @ '':'' @ r)" for scope
    by (auto simp: scope_matches_def HasSuffix_iff HasPrefix_iff)
  then show ?thesis by (auto simp: HasScope_def list_ex_iff)
qed

text \<open>A key made without a tenant refers to the nil UUID, which the schema refuses unless it is a tenant.\<close>

lemma tenantless_key_refused:
  assumes "cp_TenantID params = uu_Nil uu" "uu_Nil uu \<notin> set (db_tenants db)"
  shows "\<not> is_ok (fst (Create uu env (pg_repo uu env) rnd newID now1 now2 params db))"
proof (cases "APIKey_New uu env rnd now1 params :: key_error + ('a, 'b) api_key")
  case (Inl e)
  then show ?thesis by (simp add: Create_def)
next
  case (Inr k)
  from APIKey_New_ok [OF Inr] have "ak_TenantID k = uu_Nil uu" using assms(1) by auto
  with assms(2) Inr show ?thesis
    by (auto simp: Create_def pg_repo_def pg_Create_def Let_def insert_ok_def key_row_of_def)
qed

text \<open>
  Renaming a key whose expiry is NULL writes the zero time as its expiry, so a key that did not expire
  is refused from then on.
\<close>

lemma null_expiry_lost:
  assumes "db_up db" "db_rows db = [row]" "row_expires_at row = None" "row_id row \<noteq> uu_Nil uu"
    and "0 < length n" "length n \<le> 255" "0 \<le> now"
  defines "p \<equiv> \<lparr>up_ID = row_id row, up_Name = Some n, up_Scopes = None, up_IsActive = None, up_ExpiresInDays = None, up_updateScopes = False\<rparr>"
  shows "is_ok (fst (UpdateMetadata uu (pg_repo uu env) now1 now2 p db))
    \<and> \<not> is_ok (fst (Validate env (pg_repo uu env) now now' rawKey ip (snd (UpdateMetadata uu (pg_repo uu env) now1 now2 p db))))"
proof -
  have v: "update_params_Validate uu p = (None, p)"
    using assms(4-6) by (auto simp: p_def update_params_Validate_def Let_def validation Suc_le_eq)
  have u: "UpdateMetadata uu (pg_repo uu env) now1 now2 p db =
      (Inr (scan_key (set_metadata now2 ((scan_key row)\<lparr>ak_Name := n\<rparr>) row)),
       update_rows (row_id row) (set_metadata now2 ((scan_key row)\<lparr>ak_Name := n\<rparr>)) db)"
    using assms(1,2,6)
    by (simp add: UpdateMetadata_def v pg_repo_def pg_GetByID_def select_one_def APIKey_UpdateMetadata_def Let_def p_def [symmetric])
      (simp add: p_def pg_Update_def update_rows_def)
  have "\<not> active_at now (set_metadata now2 ((scan_key row)\<lparr>ak_Name := n\<rparr>) row)"
    using assms(3,7) by (simp add: active_at_def set_metadata_def)
  then have "\<not> is_ok (pg_GetActiveByPrefix now q (update_rows (row_id row) (set_metadata now2 ((scan_key row)\<lparr>ak_Name := n\<rparr>)) db))" for q
    using assms(1,2) by (simp add: pg_GetActiveByPrefix_def select_one_def update_rows_def)
  with u show ?thesis
    by (auto simp: Validate_def pg_repo_def is_ok_iff split: sum.splits)
qed

section \<open>Witnesses\<close>

definition sample_env :: "string key_env" where
  "sample_env = \<lparr>ke_hash = (\<lambda>s. CHR ''h'' # s), ke_ParseIP = Some, ke_SplitHostPort = Some\<rparr>"

definition sample_db :: "(string, string) key_db" where
  "sample_db = \<lparr>db_rows = [], db_tenants = [''t1''], db_up = True\<rparr>"

definition sample_params :: "string create_params" where
  "sample_params = \<lparr>cp_Name = ''ci'', cp_TenantID = ''t1'', cp_UserID = ''u1'', cp_Scopes = [''users:*''],
     cp_IPAddress = ''10.0.0.1'', cp_ExpiresInDays = 1\<rparr>"

definition sample_bytes :: string where
  "sample_bytes = ''kkkkkkkkkkkkkkkkkkkkkkkkkkkkkkkk''"

definition sample_created :: "(key_error + string create_response) \<times> (string, string) key_db" where
  "sample_created = Create text_uuids sample_env (pg_repo text_uuids sample_env) (Some sample_bytes) ''id1'' 5 6 sample_params sample_db"

definition sample_response :: "string create_response" where
  "sample_response = projr (fst sample_created)"

lemma sample_inv: "key_inv sample_db"
  by (simp add: key_inv_def sample_db_def)

lemma char_codes:
  "char_of (97 :: nat) = CHR ''a''" "char_of (50 :: nat) = CHR ''2''" "char_of (116 :: nat) = CHR ''t''"
  "char_of (114 :: nat) = CHR ''r''" "char_of (115 :: nat) = CHR ''s''" "char_of (101 :: nat) = CHR ''e''"
  by code_simp+

lemma sample_b64: "base64url sample_bytes = ''a2tra2tra2tra2tra2tra2tra2tra2tra2tra2tra2s=''"
  by (simp add: sample_bytes_def b64_char_def char_codes)

lemmas sample_simps = Create_def APIKey_New_def create_params_Validate_def generateAPIKey_def hashAPIKey_def Let_def
  CheckString_def run_check_def is_String_def New_validator_def Errors_def googleToCommonUUID_def
  pg_repo_def pg_Create_def insert_ok_def key_row_of_def sample_env_def sample_db_def sample_params_def text_uuids_def

lemma sample_create:
  "Create text_uuids sample_env (pg_repo text_uuids sample_env) (Some sample_bytes) ''id1'' 5 6 sample_params sample_db
     = (Inr sample_response, snd sample_created)"
  by (simp add: sample_response_def sample_created_def sample_simps)

lemma sample_response_parts:
  "cr_RawAPIKey sample_response = ''ak_a2tra2tra2tra2tra2tra2tra2tra2tra2tra2tra2s=''" "cr_ExpiresAt sample_response = add_days 5 1"
  "cr_ID sample_response = pi_value (ApiKeyIDFromUUID text_uuids ''id1'')"
  by (simp_all add: sample_response_def sample_created_def sample_simps sample_b64 APIKeyPrefix_def)

lemma sample_rows: "\<exists>row. snd sample_created = \<lparr>db_rows = [row], db_tenants = [''t1''], db_up = True\<rparr> \<and> row_id row = ''id1''"
  by (simp add: sample_created_def sample_simps)

definition other_act :: "string key_act" where
  "other_act = ActCreate (Some ''zzzzzzzzzzzzzzzzzzzzzzzzzzzzzzzz'') ''id2'' 7 8 sample_params"

theorem issued_key_accepted_witness:
  "\<exists>k. fst (Validate sample_env (pg_repo text_uuids sample_env) 9 10 (cr_RawAPIKey sample_response) ''10.0.0.2''
        (fold (do_key_act text_uuids sample_env (pg_repo text_uuids sample_env)) [other_act] (snd sample_created))) = Inr k
    \<and> ak_Scopes k = [''users:*'']"
proof -
  have "9 < cr_ExpiresAt sample_response"
    by (simp add: sample_response_parts add_days_def hours_def minutes_def seconds_def)
  with issued_key_accepted [OF sample_inv text_uuids_laws _ sample_create, of "[other_act]" 9 10 "''10.0.0.2''"]
  show ?thesis by (auto simp: other_act_def sample_bytes_def sample_params_def)
qed

definition sample_revoked :: "(string, string) key_db" where
  "sample_revoked = snd (Revoke text_uuids (pg_repo text_uuids sample_env) (cr_ID sample_response) (snd sample_created))"

lemma revoked_key_refused_witness:
  "\<not> is_ok (fst (Validate sample_env (pg_repo text_uuids sample_env) 9 10 (cr_RawAPIKey sample_response) []
        (fold (do_key_act text_uuids sample_env (pg_repo text_uuids sample_env)) [other_act] sample_revoked)))"
proof -
  have "Revoke text_uuids (pg_repo text_uuids sample_env) (cr_ID sample_response) (snd sample_created) = (None, sample_revoked)"
    using sample_rows
    by (auto simp: sample_revoked_def sample_response_parts(3) Revoke_def raw_id_own [OF text_uuids_laws] pg_repo_def
        pg_GetByID_def select_one_def pg_Delete_def)
  moreover have "\<not> draws sample_env (hashAPIKey sample_env (cr_RawAPIKey sample_response)) other_act"
    by (simp add: other_act_def sample_response_parts sample_env_def hashAPIKey_def APIKeyPrefix_def b64_char_def char_codes)
  ultimately show ?thesis
    using revoked_key_refused [OF sample_inv text_uuids_laws _ sample_create, of "[]" sample_revoked "[other_act]" 9 10 "[]"]
    by (simp add: sample_bytes_def)
qed


end
