(* ===== verification/Permissions.thy ===== *)
theory Permissions
  imports PrefixedIds StableSort "HOL-Library.List_Lexorder" "HOL-Library.Char_ord"
begin

text \<open>
  Permissions of Aegis: the service with its cache of answers
  (\<open>aegis/internal/service/service_permission.go\<close>, \<open>aegis/internal/domain/rbac.go\<close>) and the repositories
  (\<open>aegis/internal/adapters/postgres/permission_repository.go\<close>, \<open>role_permission_repository.go\<close>).

  The service reaches both repositories through the port \<open>perm_repo\<close>; the locale \<open>permission_store\<close> is
  what the cache relies on, that an operation which fails changes nothing, and it is interpreted on the
  tables of the Postgres repositories. Random UUIDs and clock readings are arguments.
\<close>

section \<open>Data\<close>

record 'u permission =
  pm_ID :: 'u
  pm_Name :: string
  pm_Description :: string
  pm_Action :: string
  pm_Resource :: string
  pm_IsSystemPermission :: bool
  pm_CreatedAt :: time
  pm_UpdatedAt :: time

abbreviation (input) ActionCreate :: string where "ActionCreate \<equiv> ''create''"
abbreviation (input) ActionRead :: string where "ActionRead \<equiv> ''read''"
abbreviation (input) ActionUpdate :: string where "ActionUpdate \<equiv> ''update''"
abbreviation (input) ActionDelete :: string where "ActionDelete \<equiv> ''delete''"
abbreviation (input) ActionList :: string where "ActionList \<equiv> ''list''"
abbreviation (input) ActionManage :: string where "ActionManage \<equiv> ''manage''"
abbreviation (input) ResourceUser :: string where "ResourceUser \<equiv> ''user''"
abbreviation (input) ResourceRole :: string where "ResourceRole \<equiv> ''role''"
abbreviation (input) ResourcePermission :: string where "ResourcePermission \<equiv> ''permission''"
abbreviation (input) ResourceTenant :: string where "ResourceTenant \<equiv> ''tenant''"
abbreviation (input) ResourceAPIKey :: string where "ResourceAPIKey \<equiv> ''apikey''"
abbreviation (input) ResourceSession :: string where "ResourceSession \<equiv> ''session''"
abbreviation (input) ResourceAuditLog :: string where "ResourceAuditLog \<equiv> ''auditlog''"
abbreviation (input) ResourceAPIRoute :: string where "ResourceAPIRoute \<equiv> ''apiroute''"

datatype db_error = NotFound | StatementFailed

record ('u, 'r) perm_repo =
  rp_Create :: "'u \<Rightarrow> time \<Rightarrow> 'u permission \<Rightarrow> 'r \<Rightarrow> (db_error + 'u permission) \<times> 'r"
  rp_GetByID :: "'u \<Rightarrow> 'r \<Rightarrow> db_error + 'u permission"
  rp_GetByName :: "string \<Rightarrow> 'r \<Rightarrow> db_error + 'u permission"
  rp_GetByActionAndResource :: "string \<Rightarrow> string \<Rightarrow> 'r \<Rightarrow> db_error + 'u permission"
  rp_Update :: "time \<Rightarrow> 'u \<Rightarrow> 'u permission \<Rightarrow> 'r \<Rightarrow> (db_error + 'u permission) \<times> 'r"
  rp_Delete :: "'u \<Rightarrow> 'r \<Rightarrow> db_error option \<times> 'r"
  rp_ListAll :: "int \<Rightarrow> int \<Rightarrow> 'r \<Rightarrow> db_error + 'u permission list"
  rp_ListByAction :: "string \<Rightarrow> 'r \<Rightarrow> db_error + 'u permission list"
  rp_ListByResource :: "string \<Rightarrow> 'r \<Rightarrow> db_error + 'u permission list"
  rp_ListSystemPermissions :: "'r \<Rightarrow> db_error + 'u permission list"
  rp_AddPermissionToRole :: "'u \<Rightarrow> 'u \<Rightarrow> 'r \<Rightarrow> db_error option \<times> 'r"
  rp_RemovePermissionFromRole :: "'u \<Rightarrow> 'u \<Rightarrow> 'r \<Rightarrow> db_error option \<times> 'r"
  rp_GetRolePermissions :: "'u \<Rightarrow> 'r \<Rightarrow> db_error + 'u permission list"

text \<open>The service: the repositories and the cache.\<close>

record 'r perm_service =
  ps_repo :: 'r
  ps_cache :: "(string, bool) gomap"

datatype perm_error =
    NameRequired | ActionRequired | ResourceRequired | NameExists | ActionResourceExists
  | SystemPermission | RepoError db_error | DefaultFailed string perm_error

definition NewPermissionService :: "'r \<Rightarrow> 'r perm_service" where
  "NewPermissionService r = \<lparr>ps_repo = r, ps_cache = []\<rparr>"

definition clearCache :: "'r perm_service \<Rightarrow> 'r perm_service" where
  "clearCache s = s\<lparr>ps_cache := []\<rparr>"

section \<open>Managing permissions\<close>

text \<open>An error of the two checks for an existing permission counts as absence. \<open>isSystem\<close> is not used.\<close>

definition CreatePermission ::
  "'u uuid_ops \<Rightarrow> ('u, 'r) perm_repo \<Rightarrow> 'u \<Rightarrow> time \<Rightarrow> string \<Rightarrow> string \<Rightarrow> string \<Rightarrow> string \<Rightarrow> bool \<Rightarrow> 'r perm_service
     \<Rightarrow> (perm_error + 'u permission) \<times> 'r perm_service" where
  "CreatePermission uu repo newID now name description action resource isSystem s =
     (if name = [] then (Inl NameRequired, s)
      else if action = [] then (Inl ActionRequired, s)
      else if resource = [] then (Inl ResourceRequired, s)
      else if is_ok (rp_GetByName repo name (ps_repo s)) then (Inl NameExists, s)
      else if is_ok (rp_GetByActionAndResource repo action resource (ps_repo s)) then (Inl ActionResourceExists, s)
      else (case rp_Create repo newID now
                   \<lparr>pm_ID = uu_Nil uu, pm_Name = name, pm_Description = description, pm_Action = action,
                    pm_Resource = resource, pm_IsSystemPermission = False, pm_CreatedAt = now, pm_UpdatedAt = now\<rparr> (ps_repo s) of
              (Inl err, r') \<Rightarrow> (Inl (RepoError err), s\<lparr>ps_repo := r'\<rparr>)
            | (Inr createdPerm, r') \<Rightarrow> (Inr createdPerm, clearCache (s\<lparr>ps_repo := r'\<rparr>))))"

definition GetPermission :: "('u, 'r) perm_repo \<Rightarrow> 'u \<Rightarrow> 'r perm_service \<Rightarrow> db_error + 'u permission" where
  "GetPermission repo i s = rp_GetByID repo i (ps_repo s)"

definition GetPermissionByName :: "('u, 'r) perm_repo \<Rightarrow> string \<Rightarrow> 'r perm_service \<Rightarrow> db_error + 'u permission" where
  "GetPermissionByName repo name s = rp_GetByName repo name (ps_repo s)"

definition UpdatePermission ::
  "('u, 'r) perm_repo \<Rightarrow> time \<Rightarrow> time \<Rightarrow> 'u \<Rightarrow> string \<Rightarrow> 'r perm_service \<Rightarrow> (perm_error + 'u permission) \<times> 'r perm_service" where
  "UpdatePermission repo now1 now2 i description s =
     (case rp_GetByID repo i (ps_repo s) of
        Inl err \<Rightarrow> (Inl (RepoError err), s)
      | Inr permission \<Rightarrow>
          (case rp_Update repo now2 i (permission\<lparr>pm_Description := description, pm_UpdatedAt := now1\<rparr>) (ps_repo s) of
             (Inl err, r') \<Rightarrow> (Inl (RepoError err), s\<lparr>ps_repo := r'\<rparr>)
           | (Inr updatedPerm, r') \<Rightarrow> (Inr updatedPerm, clearCache (s\<lparr>ps_repo := r'\<rparr>))))"

definition DeletePermission :: "('u, 'r) perm_repo \<Rightarrow> 'u \<Rightarrow> 'r perm_service \<Rightarrow> perm_error option \<times> 'r perm_service" where
  "DeletePermission repo i s =
     (case rp_GetByID repo i (ps_repo s) of
        Inl err \<Rightarrow> (Some (RepoError err), s)
      | Inr permission \<Rightarrow>
          if HasPrefix (pm_Name permission) ''system:'' then (Some SystemPermission, s)
          else (case rp_Delete repo i (ps_repo s) of
                  (Some err, r') \<Rightarrow> (Some (RepoError err), s\<lparr>ps_repo := r'\<rparr>)
                | (None, r') \<Rightarrow> (None, clearCache (s\<lparr>ps_repo := r'\<rparr>))))"

definition ListAllPermissions :: "('u, 'r) perm_repo \<Rightarrow> int \<Rightarrow> int \<Rightarrow> 'r perm_service \<Rightarrow> db_error + 'u permission list" where
  "ListAllPermissions repo page pageSize s = rp_ListAll repo page pageSize (ps_repo s)"

definition ListPermissionsByAction :: "('u, 'r) perm_repo \<Rightarrow> string \<Rightarrow> 'r perm_service \<Rightarrow> db_error + 'u permission list" where
  "ListPermissionsByAction repo action s = rp_ListByAction repo action (ps_repo s)"

definition ListPermissionsByResource :: "('u, 'r) perm_repo \<Rightarrow> string \<Rightarrow> 'r perm_service \<Rightarrow> db_error + 'u permission list" where
  "ListPermissionsByResource repo resource s = rp_ListByResource repo resource (ps_repo s)"

definition ListSystemPermissions :: "('u, 'r) perm_repo \<Rightarrow> 'r perm_service \<Rightarrow> db_error + 'u permission list" where
  "ListSystemPermissions repo s = rp_ListSystemPermissions repo (ps_repo s)"

definition AddPermissionToRole ::
  "('u, 'r) perm_repo \<Rightarrow> 'u \<Rightarrow> 'u \<Rightarrow> 'r perm_service \<Rightarrow> perm_error option \<times> 'r perm_service" where
  "AddPermissionToRole repo roleID permissionID s =
     (case rp_AddPermissionToRole repo roleID permissionID (ps_repo s) of
        (Some err, r') \<Rightarrow> (Some (RepoError err), s\<lparr>ps_repo := r'\<rparr>)
      | (None, r') \<Rightarrow> (None, clearCache (s\<lparr>ps_repo := r'\<rparr>)))"

definition RemovePermissionFromRole ::
  "('u, 'r) perm_repo \<Rightarrow> 'u \<Rightarrow> 'u \<Rightarrow> 'r perm_service \<Rightarrow> perm_error option \<times> 'r perm_service" where
  "RemovePermissionFromRole repo roleID permissionID s =
     (case rp_RemovePermissionFromRole repo roleID permissionID (ps_repo s) of
        (Some err, r') \<Rightarrow> (Some (RepoError err), s\<lparr>ps_repo := r'\<rparr>)
      | (None, r') \<Rightarrow> (None, clearCache (s\<lparr>ps_repo := r'\<rparr>)))"

definition GetRolePermissions :: "('u, 'r) perm_repo \<Rightarrow> 'u \<Rightarrow> 'r perm_service \<Rightarrow> db_error + 'u permission list" where
  "GetRolePermissions repo roleID s = rp_GetRolePermissions repo roleID (ps_repo s)"

section \<open>Checking permissions\<close>

definition makeCacheKey :: "string list \<Rightarrow> string \<Rightarrow> string \<Rightarrow> string" where
  "makeCacheKey roles action resource = Join '','' roles @ '':'' @ action @ '':'' @ resource"

text \<open>The six tests of the inner loop, in their order.\<close>

definition perm_matches :: "string \<Rightarrow> string \<Rightarrow> 'u permission \<Rightarrow> bool" where
  "perm_matches action resource perm \<longleftrightarrow>
     (if pm_Action perm = action \<and> pm_Resource perm = resource then True
      else if pm_Action perm = ''*'' \<and> pm_Resource perm = resource then True
      else if pm_Action perm = action \<and> pm_Resource perm = ''*'' then True
      else if pm_Action perm = ''*'' \<and> pm_Resource perm = ''*'' then True
      else if pm_Action perm = ActionManage \<and> pm_Resource perm = resource then True
      else HasPrefix resource (pm_Resource perm @ '':'') \<and>
           (pm_Action perm = action \<or> pm_Action perm = ''*'' \<or> pm_Action perm = ActionManage))"

text \<open>The loop over the roles: whether a permission was found, or the error of a query.\<close>

fun check_role_ids :: "('u, 'r) perm_repo \<Rightarrow> string \<Rightarrow> string \<Rightarrow> 'u list \<Rightarrow> 'r perm_service \<Rightarrow> db_error + bool" where
  "check_role_ids repo action resource [] s = Inr False"
| "check_role_ids repo action resource (roleID # roleIDs) s =
     (case GetRolePermissions repo roleID s of
        Inl err \<Rightarrow> Inl err
      | Inr permissions \<Rightarrow>
          if list_ex (perm_matches action resource) permissions then Inr True
          else check_role_ids repo action resource roleIDs s)"

definition HasPermission ::
  "'u uuid_ops \<Rightarrow> ('u, 'r) perm_repo \<Rightarrow> string list \<Rightarrow> string \<Rightarrow> string \<Rightarrow> 'r perm_service
     \<Rightarrow> (db_error + bool) \<times> 'r perm_service" where
  "HasPermission uu repo roles action resource s =
     (let cacheKey = makeCacheKey roles action resource
      in case mget (ps_cache s) cacheKey of
           Some result \<Rightarrow> (Inr result, s)
         | None \<Rightarrow>
             if length roles = 0 then (Inr False, s)
             else (case check_role_ids repo action resource (List.map_filter (uu_Parse uu) roles) s of
                     Inl err \<Rightarrow> (Inl err, s)
                   | Inr b \<Rightarrow> (Inr b, s\<lparr>ps_cache := mput cacheKey b (ps_cache s)\<rparr>)))"

definition ClearCache :: "'r perm_service \<Rightarrow> 'r perm_service" where
  "ClearCache s = clearCache s"

section \<open>The default permissions\<close>

definition defaultPermissions :: "(string \<times> string \<times> string \<times> string) list" where
  "defaultPermissions =
     [(''system:user:create'', ''Create users'', ActionCreate, ResourceUser),
      (''system:user:read'', ''Read user details'', ActionRead, ResourceUser),
      (''system:user:update'', ''Update user details'', ActionUpdate, ResourceUser),
      (''system:user:delete'', ''Delete users'', ActionDelete, ResourceUser),
      (''system:user:list'', ''List users'', ActionList, ResourceUser),
      (''system:role:create'', ''Create roles'', ActionCreate, ResourceRole),
      (''system:role:read'', ''Read role details'', ActionRead, ResourceRole),
      (''system:role:update'', ''Update role details'', ActionUpdate, ResourceRole),
      (''system:role:delete'', ''Delete roles'', ActionDelete, ResourceRole),
      (''system:role:list'', ''List roles'', ActionList, ResourceRole),
      (''system:permission:create'', ''Create permissions'', ActionCreate, ResourcePermission),
      (''system:permission:read'', ''Read permission details'', ActionRead, ResourcePermission),
      (''system:permission:update'', ''Update permission details'', ActionUpdate, ResourcePermission),
      (''system:permission:delete'', ''Delete permissions'', ActionDelete, ResourcePermission),
      (''system:permission:list'', ''List permissions'', ActionList, ResourcePermission),
      (''system:apikey:create'', ''Create API keys'', ActionCreate, ResourceAPIKey),
      (''system:apikey:read'', ''Read API key details'', ActionRead, ResourceAPIKey),
      (''system:apikey:update'', ''Update API key details'', ActionUpdate, ResourceAPIKey),
      (''system:apikey:delete'', ''Delete API keys'', ActionDelete, ResourceAPIKey),
      (''system:apikey:list'', ''List API keys'', ActionList, ResourceAPIKey),
      (''system:session:read'', ''Read session details'', ActionRead, ResourceSession),
      (''system:session:delete'', ''Delete sessions'', ActionDelete, ResourceSession),
      (''system:session:list'', ''List sessions'', ActionList, ResourceSession),
      (''system:auditlog:read'', ''Read audit log entries'', ActionRead, ResourceAuditLog),
      (''system:auditlog:list'', ''List audit log entries'', ActionList, ResourceAuditLog),
      (''system:apiroute:create'', ''Create API routes'', ActionCreate, ResourceAPIRoute),
      (''system:apiroute:read'', ''Read API route details'', ActionRead, ResourceAPIRoute),
      (''system:apiroute:update'', ''Update API route details'', ActionUpdate, ResourceAPIRoute),
      (''system:apiroute:delete'', ''Delete API routes'', ActionDelete, ResourceAPIRoute),
      (''system:apiroute:list'', ''List API routes'', ActionList, ResourceAPIRoute),
      (''system:admin:all'', ''Full administrative access'', ''*'', ''*'')]"

text \<open>\<open>newID\<close> gives the random UUID drawn for each of them.\<close>

fun create_defaults ::
  "'u uuid_ops \<Rightarrow> ('u, 'r) perm_repo \<Rightarrow> (string \<Rightarrow> 'u) \<Rightarrow> time \<Rightarrow> (string \<times> string \<times> string \<times> string) list
     \<Rightarrow> 'r perm_service \<Rightarrow> perm_error option \<times> 'r perm_service" where
  "create_defaults uu repo newID now [] s = (None, s)"
| "create_defaults uu repo newID now ((name, description, action, resource) # ps) s =
     (if is_ok (rp_GetByName repo name (ps_repo s)) then create_defaults uu repo newID now ps s
      else (case CreatePermission uu repo (newID name) now name description action resource False s of
              (Inl err, s') \<Rightarrow> (Some (DefaultFailed name err), s')
            | (Inr p, s') \<Rightarrow> create_defaults uu repo newID now ps s'))"

definition CreateDefaultPermissions ::
  "'u uuid_ops \<Rightarrow> ('u, 'r) perm_repo \<Rightarrow> (string \<Rightarrow> 'u) \<Rightarrow> time \<Rightarrow> 'r perm_service \<Rightarrow> perm_error option \<times> 'r perm_service" where
  "CreateDefaultPermissions uu repo newID now s = create_defaults uu repo newID now defaultPermissions s"

section \<open>The Postgres repositories\<close>

text \<open>
  The tables \<open>permissions\<close> (with unique IDs, names and pairs of action and resource, and limited lengths),
  \<open>role_permissions\<close> as pairs of a role and a permission, and the IDs of \<open>roles\<close>; \<open>rb_up\<close>: the database answers.
\<close>

record 'u rbac_db =
  rb_permissions :: "'u permission list"
  rb_role_permissions :: "('u \<times> 'u) list"
  rb_roles :: "'u list"
  rb_up :: bool

definition row_fits :: "'u permission \<Rightarrow> bool" where
  "row_fits p \<longleftrightarrow> length (pm_Name p) \<le> 255 \<and> length (pm_Action p) \<le> 50 \<and> length (pm_Resource p) \<le> 50"

definition clashes :: "'u permission \<Rightarrow> 'u permission \<Rightarrow> bool" where
  "clashes p q \<longleftrightarrow> pm_Name p = pm_Name q \<or> pm_Action p = pm_Action q \<and> pm_Resource p = pm_Resource q"

definition pg_Create :: "'u uuid_ops \<Rightarrow> 'u \<Rightarrow> time \<Rightarrow> 'u permission \<Rightarrow> 'u rbac_db \<Rightarrow> (db_error + 'u permission) \<times> 'u rbac_db" where
  "pg_Create uu newID now p db =
     (let p1 = (if pm_ID p = uu_Nil uu then p\<lparr>pm_ID := newID\<rparr> else p);
          p2 = p1\<lparr>pm_CreatedAt := now, pm_UpdatedAt := now\<rparr>
      in if rb_up db \<and> row_fits p2 \<and> (\<forall>q \<in> set (rb_permissions db). pm_ID q \<noteq> pm_ID p2 \<and> \<not> clashes p2 q)
         then (Inr p2, db\<lparr>rb_permissions := rb_permissions db @ [p2]\<rparr>) else (Inl StatementFailed, db))"

definition pg_find :: "('u permission \<Rightarrow> bool) \<Rightarrow> 'u rbac_db \<Rightarrow> db_error + 'u permission" where
  "pg_find P db =
     (if \<not> rb_up db then Inl StatementFailed
      else (case find P (rb_permissions db) of None \<Rightarrow> Inl NotFound | Some p \<Rightarrow> Inr p))"

definition pg_GetByID :: "'u \<Rightarrow> 'u rbac_db \<Rightarrow> db_error + 'u permission" where
  "pg_GetByID i = pg_find (\<lambda>p. pm_ID p = i)"

definition pg_GetByName :: "string \<Rightarrow> 'u rbac_db \<Rightarrow> db_error + 'u permission" where
  "pg_GetByName name = pg_find (\<lambda>p. pm_Name p = name)"

definition pg_GetByActionAndResource :: "string \<Rightarrow> string \<Rightarrow> 'u rbac_db \<Rightarrow> db_error + 'u permission" where
  "pg_GetByActionAndResource action resource = pg_find (\<lambda>p. pm_Action p = action \<and> pm_Resource p = resource)"

text \<open>Updating a permission that does not exist changes no row and is no error.\<close>

definition pg_Update :: "time \<Rightarrow> 'u \<Rightarrow> 'u permission \<Rightarrow> 'u rbac_db \<Rightarrow> (db_error + 'u permission) \<times> 'u rbac_db" where
  "pg_Update now i p db =
     (let p1 = p\<lparr>pm_UpdatedAt := now\<rparr>;
          found = (\<exists>q \<in> set (rb_permissions db). pm_ID q = i)
      in if \<not> rb_up db \<or> found \<and> (\<not> row_fits p1 \<or> (\<exists>q \<in> set (rb_permissions db). pm_ID q \<noteq> i \<and> clashes p1 q))
         then (Inl StatementFailed, db)
         else (Inr p1, db\<lparr>rb_permissions := map (\<lambda>q. if pm_ID q = i
                 then q\<lparr>pm_Name := pm_Name p1, pm_Description := pm_Description p1, pm_Action := pm_Action p1,
                        pm_Resource := pm_Resource p1, pm_IsSystemPermission := pm_IsSystemPermission p1, pm_UpdatedAt := now\<rparr>
                 else q) (rb_permissions db)\<rparr>))"

text \<open>Deleting a permission deletes its rows of \<open>role_permissions\<close> with it.\<close>

definition pg_Delete :: "'u \<Rightarrow> 'u rbac_db \<Rightarrow> db_error option \<times> 'u rbac_db" where
  "pg_Delete i db =
     (if \<not> rb_up db then (Some StatementFailed, db)
      else if \<forall>p \<in> set (rb_permissions db). pm_ID p \<noteq> i then (Some NotFound, db)
      else (None, db\<lparr>rb_permissions := filter (\<lambda>p. pm_ID p \<noteq> i) (rb_permissions db),
                     rb_role_permissions := filter (\<lambda>rp. snd rp \<noteq> i) (rb_role_permissions db)\<rparr>))"

definition by_name :: "'u permission list \<Rightarrow> 'u permission list" where
  "by_name ps = sort_key pm_Name ps"

definition pg_list :: "('u permission \<Rightarrow> bool) \<Rightarrow> 'u rbac_db \<Rightarrow> db_error + 'u permission list" where
  "pg_list P db = (if \<not> rb_up db then Inl StatementFailed else Inr (by_name (filter P (rb_permissions db))))"

text \<open>Pages are counted from 0.\<close>

definition pg_ListAll :: "int \<Rightarrow> int \<Rightarrow> 'u rbac_db \<Rightarrow> db_error + 'u permission list" where
  "pg_ListAll page pageSize db =
     (if \<not> rb_up db \<or> pageSize < 0 \<or> page * pageSize < 0 then Inl StatementFailed
      else Inr (take (nat pageSize) (drop (nat (page * pageSize)) (by_name (rb_permissions db)))))"

definition pg_ListByAction :: "string \<Rightarrow> 'u rbac_db \<Rightarrow> db_error + 'u permission list" where
  "pg_ListByAction action = pg_list (\<lambda>p. pm_Action p = action)"

definition pg_ListByResource :: "string \<Rightarrow> 'u rbac_db \<Rightarrow> db_error + 'u permission list" where
  "pg_ListByResource resource = pg_list (\<lambda>p. pm_Resource p = resource)"

definition pg_ListSystemPermissions :: "'u rbac_db \<Rightarrow> db_error + 'u permission list" where
  "pg_ListSystemPermissions = pg_list pm_IsSystemPermission"

definition pg_AddPermissionToRole :: "'u \<Rightarrow> 'u \<Rightarrow> 'u rbac_db \<Rightarrow> db_error option \<times> 'u rbac_db" where
  "pg_AddPermissionToRole roleID permissionID db =
     (if \<not> rb_up db \<or> roleID \<notin> set (rb_roles db) \<or> permissionID \<notin> pm_ID ` set (rb_permissions db)
      then (Some StatementFailed, db)
      else if (roleID, permissionID) \<in> set (rb_role_permissions db) then (None, db)
      else (None, db\<lparr>rb_role_permissions := rb_role_permissions db @ [(roleID, permissionID)]\<rparr>))"

definition pg_RemovePermissionFromRole :: "'u \<Rightarrow> 'u \<Rightarrow> 'u rbac_db \<Rightarrow> db_error option \<times> 'u rbac_db" where
  "pg_RemovePermissionFromRole roleID permissionID db =
     (if \<not> rb_up db then (Some StatementFailed, db)
      else if (roleID, permissionID) \<notin> set (rb_role_permissions db) then (Some NotFound, db)
      else (None, db\<lparr>rb_role_permissions := filter (\<lambda>rp. rp \<noteq> (roleID, permissionID)) (rb_role_permissions db)\<rparr>))"

definition pg_GetRolePermissions :: "'u \<Rightarrow> 'u rbac_db \<Rightarrow> db_error + 'u permission list" where
  "pg_GetRolePermissions roleID db = pg_list (\<lambda>p. (roleID, pm_ID p) \<in> set (rb_role_permissions db)) db"

definition pg_repo :: "'u uuid_ops \<Rightarrow> ('u, 'u rbac_db) perm_repo" where
  "pg_repo uu =
     \<lparr>rp_Create = pg_Create uu, rp_GetByID = pg_GetByID, rp_GetByName = pg_GetByName,
      rp_GetByActionAndResource = pg_GetByActionAndResource, rp_Update = pg_Update, rp_Delete = pg_Delete,
      rp_ListAll = pg_ListAll, rp_ListByAction = pg_ListByAction, rp_ListByResource = pg_ListByResource,
      rp_ListSystemPermissions = pg_ListSystemPermissions, rp_AddPermissionToRole = pg_AddPermissionToRole,
      rp_RemovePermissionFromRole = pg_RemovePermissionFromRole, rp_GetRolePermissions = pg_GetRolePermissions\<rparr>"

section \<open>Histories\<close>

datatype 'u perm_act =
    DoCreate 'u time string string string string bool
  | DoUpdate time time 'u string
  | DoDelete 'u
  | DoAdd 'u 'u
  | DoRemove 'u 'u
  | DoQuery "string list" string string
  | DoClear
  | DoDefaults "string \<Rightarrow> 'u" time

fun perm_do :: "'u uuid_ops \<Rightarrow> ('u, 'r) perm_repo \<Rightarrow> 'u perm_act \<Rightarrow> 'r perm_service \<Rightarrow> 'r perm_service" where
  "perm_do uu repo (DoCreate newID now name description action resource isSystem) s =
     snd (CreatePermission uu repo newID now name description action resource isSystem s)"
| "perm_do uu repo (DoUpdate now1 now2 i description) s = snd (UpdatePermission repo now1 now2 i description s)"
| "perm_do uu repo (DoDelete i) s = snd (DeletePermission repo i s)"
| "perm_do uu repo (DoAdd roleID permissionID) s = snd (AddPermissionToRole repo roleID permissionID s)"
| "perm_do uu repo (DoRemove roleID permissionID) s = snd (RemovePermissionFromRole repo roleID permissionID s)"
| "perm_do uu repo (DoQuery roles action resource) s = snd (HasPermission uu repo roles action resource s)"
| "perm_do uu repo DoClear s = ClearCache s"
| "perm_do uu repo (DoDefaults newID now) s = snd (CreateDefaultPermissions uu repo newID now s)"

text \<open>A question whose cache key can be read back: no comma or colon in the roles, no colon in the action.\<close>

definition separable :: "string list \<Rightarrow> string \<Rightarrow> bool" where
  "separable roles action \<longleftrightarrow> roles \<noteq> [] \<and> (\<forall>r \<in> set roles. CHR '','' \<notin> set r \<and> CHR '':'' \<notin> set r) \<and> CHR '':'' \<notin> set action"

fun separable_act :: "'u perm_act \<Rightarrow> bool" where
  "separable_act (DoQuery roles action resource) \<longleftrightarrow> separable roles action"
| "separable_act _ \<longleftrightarrow> True"

lemma set_Join: "set (Join sep ws) \<subseteq> set sep \<union> (\<Union>w \<in> set ws. set w)"
  by (induction sep ws rule: Join.induct) auto

lemma makeCacheKey_inj:
  assumes "separable roles a" "separable roles' a'" "makeCacheKey roles a r = makeCacheKey roles' a' r'"
  shows "roles = roles' \<and> a = a' \<and> r = r'"
proof -
  have j: "CHR '':'' \<notin> set (Join '','' rs)" if "separable rs x" for rs x
    using set_Join [of "'',''" rs] that by (auto simp: separable_def)
  have "SplitN2 CHR '':'' (makeCacheKey rs x y) = [Join '','' rs, x @ '':'' @ y]" if "separable rs x" for rs x y
    using SplitN2_append_sep [OF j [OF that], of "x @ '':'' @ y"] by (simp add: makeCacheKey_def)
  with assms have e: "Join '','' roles = Join '','' roles'" "a @ '':'' @ r = a' @ '':'' @ r'" by (metis list.inject)+
  have "SplitN2 CHR '':'' (a @ '':'' @ r) = [a, r]" "SplitN2 CHR '':'' (a' @ '':'' @ r') = [a', r']"
    using assms(1,2) SplitN2_append_sep [of "CHR '':''"] by (auto simp: separable_def)
  with e(2) have "a = a'" "r = r'" by (metis list.inject)+
  moreover have "Split CHR '','' (Join '','' roles) = roles" "Split CHR '','' (Join '','' roles') = roles'"
    using assms(1,2) Split_Join [of roles "CHR '',''"] Split_Join [of roles' "CHR '',''"] by (auto simp: separable_def)
  ultimately show ?thesis using e(1) by metis
qed

section \<open>What the cache relies on\<close>

locale permission_store =
  fixes uu :: "'u uuid_ops" and repo :: "('u, 'r) perm_repo"
  assumes create_err: "rp_Create repo newID now p r = (Inl e, r') \<Longrightarrow> r' = r"
    and update_err: "rp_Update repo now i p r = (Inl e, r') \<Longrightarrow> r' = r"
    and delete_err: "rp_Delete repo i r = (Some e, r') \<Longrightarrow> r' = r"
    and add_err: "rp_AddPermissionToRole repo roleID i r = (Some e, r') \<Longrightarrow> r' = r"
    and remove_err: "rp_RemovePermissionFromRole repo roleID i r = (Some e, r') \<Longrightarrow> r' = r"
begin

definition answer :: "'r \<Rightarrow> string list \<Rightarrow> string \<Rightarrow> string \<Rightarrow> db_error + bool" where
  "answer r roles action resource =
     check_role_ids repo action resource (List.map_filter (uu_Parse uu) roles) (NewPermissionService r)"

lemma check_role_ids_repo:
  "ps_repo s = ps_repo s' \<Longrightarrow> check_role_ids repo action resource ids s = check_role_ids repo action resource ids s'"
  by (induction ids) (simp_all add: GetRolePermissions_def split: sum.splits)

lemma check_is_answer:
  "check_role_ids repo action resource (List.map_filter (uu_Parse uu) roles) s = answer (ps_repo s) roles action resource"
  unfolding answer_def by (rule check_role_ids_repo) (simp add: NewPermissionService_def)

definition coherent :: "'r perm_service \<Rightarrow> bool" where
  "coherent s \<longleftrightarrow> (\<forall>k b. mget (ps_cache s) k = Some b \<longrightarrow>
     (\<exists>roles action resource. separable roles action \<and> k = makeCacheKey roles action resource
        \<and> answer (ps_repo s) roles action resource = Inr b))"

lemma coherent_new: "coherent (NewPermissionService r)"
  by (simp add: coherent_def NewPermissionService_def)

lemma coherent_clear: "coherent (clearCache s)"
  by (simp add: coherent_def clearCache_def)

lemma HasPermission_answer:
  assumes "coherent s" "separable roles action"
  shows "fst (HasPermission uu repo roles action resource s) = answer (ps_repo s) roles action resource
    \<and> coherent (snd (HasPermission uu repo roles action resource s))
    \<and> ps_repo (snd (HasPermission uu repo roles action resource s)) = ps_repo s"
proof (cases "mget (ps_cache s) (makeCacheKey roles action resource)")
  case (Some b)
  with assms(1) obtain roles' action' resource' where q: "separable roles' action'"
      "makeCacheKey roles action resource = makeCacheKey roles' action' resource'"
      "answer (ps_repo s) roles' action' resource' = Inr b" unfolding coherent_def by blast
  from makeCacheKey_inj [OF assms(2) q(1,2)] q(3) have "answer (ps_repo s) roles action resource = Inr b" by simp
  with Some assms(1) show ?thesis by (simp add: HasPermission_def)
next
  case None
  have ne: "length roles \<noteq> 0" using assms(2) by (simp add: separable_def)
  show ?thesis
  proof (cases "answer (ps_repo s) roles action resource")
    case (Inl e)
    with None ne assms(1) show ?thesis by (simp add: HasPermission_def check_is_answer)
  next
    case (Inr b)
    let ?s = "s\<lparr>ps_cache := mput (makeCacheKey roles action resource) b (ps_cache s)\<rparr>"
    have "coherent ?s" using assms Inr unfolding coherent_def by (auto simp: mget_mput)
    moreover have "HasPermission uu repo roles action resource s = (Inr b, ?s)"
      using None ne Inr by (simp add: HasPermission_def check_is_answer)
    ultimately show ?thesis using Inr by simp
  qed
qed

lemma CreatePermission_coherent: "coherent s \<Longrightarrow> coherent (snd (CreatePermission uu repo newID now n d a r i s))"
  by (auto simp: CreatePermission_def coherent_clear dest: create_err split: prod.split sum.split)

lemma create_defaults_coherent: "coherent s \<Longrightarrow> coherent (snd (create_defaults uu repo newID now ps s))"
proof (induction ps arbitrary: s)
  case (Cons p ps)
  obtain n d a r where p: "p = (n, d, a, r)" by (cases p) auto
  obtain res s' where c: "CreatePermission uu repo (newID n) now n d a r False s = (res, s')" by fastforce
  with CreatePermission_coherent [OF Cons.prems] have "coherent s'" by (metis snd_conv)
  with Cons p c show ?case by (cases res) simp_all
qed simp

lemma perm_do_coherent: "coherent s \<Longrightarrow> separable_act act \<Longrightarrow> coherent (perm_do uu repo act s)"
proof (cases act)
  case (DoUpdate now1 now2 i d)
  assume "coherent s"
  with DoUpdate show ?thesis
    by (auto simp: UpdatePermission_def coherent_clear dest: update_err split: prod.split sum.split)
next
  case (DoDelete i)
  assume "coherent s"
  with DoDelete show ?thesis
    by (auto simp: DeletePermission_def coherent_clear dest: delete_err split: prod.split sum.split option.split)
next
  case (DoAdd roleID i)
  assume "coherent s"
  with DoAdd show ?thesis
    by (auto simp: AddPermissionToRole_def coherent_clear dest: add_err split: prod.split option.split)
next
  case (DoRemove roleID i)
  assume "coherent s"
  with DoRemove show ?thesis
    by (auto simp: RemovePermissionFromRole_def coherent_clear dest: remove_err split: prod.split option.split)
qed (simp_all add: HasPermission_answer CreatePermission_coherent create_defaults_coherent CreateDefaultPermissions_def
    ClearCache_def coherent_clear)

lemma history_coherent: "coherent s \<Longrightarrow> \<forall>act \<in> set acts. separable_act act \<Longrightarrow> coherent (fold (perm_do uu repo) acts s)"
  by (induction acts arbitrary: s) (auto simp: perm_do_coherent)

lemma history_answer:
  "\<forall>act \<in> set acts. separable_act act \<Longrightarrow> separable roles action \<Longrightarrow>
   s = fold (perm_do uu repo) acts (NewPermissionService r) \<Longrightarrow>
   fst (HasPermission uu repo roles action resource s) = answer (ps_repo s) roles action resource"
  using HasPermission_answer history_coherent [OF coherent_new] by blast

end

interpretation pg: permission_store uu "pg_repo uu" for uu :: "'u uuid_ops"
  by unfold_locales
    (auto simp: pg_repo_def pg_Create_def pg_Update_def pg_Delete_def pg_AddPermissionToRole_def
      pg_RemovePermissionFromRole_def Let_def split: if_splits)

section \<open>The answers of the tables\<close>

text \<open>Which actions on which resources a permission grants.\<close>

definition grants :: "'u permission \<Rightarrow> string \<Rightarrow> string \<Rightarrow> bool" where
  "grants p action resource \<longleftrightarrow>
     pm_Action p \<in> {action, ''*'', ActionManage} \<and> (resource = pm_Resource p \<or> HasPrefix resource (pm_Resource p @ '':'')) \<or>
     pm_Action p \<in> {action, ''*''} \<and> pm_Resource p = ''*''"

text \<open>Some role is the ID of a role that has a permission which grants the action on the resource.\<close>

definition allowed :: "'u uuid_ops \<Rightarrow> 'u rbac_db \<Rightarrow> string list \<Rightarrow> string \<Rightarrow> string \<Rightarrow> bool" where
  "allowed uu db roles action resource \<longleftrightarrow>
     (\<exists>role \<in> set roles. \<exists>u. uu_Parse uu role = Some u \<and>
        (\<exists>p \<in> set (rb_permissions db). (u, pm_ID p) \<in> set (rb_role_permissions db) \<and> grants p action resource))"

lemma perm_matches_grants: "perm_matches action resource p = grants p action resource"
  by (auto simp: perm_matches_def grants_def)

lemma check_role_ids_tables:
  "rb_up (ps_repo s) \<Longrightarrow> check_role_ids (pg_repo uu) action resource ids s =
     Inr (\<exists>u \<in> set ids. \<exists>p \<in> set (rb_permissions (ps_repo s)). (u, pm_ID p) \<in> set (rb_role_permissions (ps_repo s))
           \<and> grants p action resource)"
  by (induction ids)
    (auto simp: GetRolePermissions_def pg_repo_def pg_GetRolePermissions_def pg_list_def by_name_def list_ex_iff perm_matches_grants)

lemma answer_tables: "rb_up db \<Longrightarrow> pg.answer uu db roles action resource = Inr (allowed uu db roles action resource)"
  by (auto simp: pg.answer_def check_role_ids_tables NewPermissionService_def allowed_def set_map_filter)

text \<open>The operations do not change whether the database answers.\<close>

lemma CreatePermission_up: "rb_up (ps_repo (snd (CreatePermission uu (pg_repo uu) newID now n d a r i s))) = rb_up (ps_repo s)"
  by (auto simp: CreatePermission_def pg_repo_def pg_Create_def Let_def clearCache_def)

lemma create_defaults_up: "rb_up (ps_repo (snd (create_defaults uu (pg_repo uu) newID now ps s))) = rb_up (ps_repo s)"
proof (induction ps arbitrary: s)
  case (Cons x ps)
  obtain n d a r where x: "x = (n, d, a, r)" by (cases x) auto
  obtain res s' where c: "CreatePermission uu (pg_repo uu) (newID n) now n d a r False s = (res, s')" by fastforce
  with CreatePermission_up [of uu "newID n" now n d a r False s] have "rb_up (ps_repo s') = rb_up (ps_repo s)" by simp
  with Cons x c show ?case by (cases res) auto
qed simp

lemma perm_do_up: "rb_up (ps_repo (perm_do uu (pg_repo uu) act s)) = rb_up (ps_repo s)"
proof (cases act)
  case (DoUpdate now1 now2 i d)
  then show ?thesis
    by (auto simp: UpdatePermission_def pg_repo_def pg_Update_def Let_def clearCache_def split: sum.split)
next
  case (DoDelete i)
  then show ?thesis by (auto simp: DeletePermission_def pg_repo_def pg_Delete_def clearCache_def split: sum.split)
next
  case (DoAdd roleID i)
  then show ?thesis by (auto simp: AddPermissionToRole_def pg_repo_def pg_AddPermissionToRole_def clearCache_def)
next
  case (DoRemove roleID i)
  then show ?thesis by (auto simp: RemovePermissionFromRole_def pg_repo_def pg_RemovePermissionFromRole_def clearCache_def)
next
  case (DoQuery roles a r)
  then show ?thesis by (auto simp: HasPermission_def Let_def split: option.split sum.split)
qed (simp_all add: CreatePermission_up create_defaults_up CreateDefaultPermissions_def ClearCache_def clearCache_def)

lemma history_up: "rb_up (ps_repo (fold (perm_do uu (pg_repo uu)) acts s)) = rb_up (ps_repo s)"
  by (induction acts arbitrary: s) (simp_all add: perm_do_up)

section \<open>Rows that stay\<close>

text \<open>A permission is still there: the same ID, name, action and resource.\<close>

definition still_there :: "'u permission \<Rightarrow> 'u rbac_db \<Rightarrow> bool" where
  "still_there p db \<longleftrightarrow> (\<exists>q \<in> set (rb_permissions db). pm_ID q = pm_ID p \<and> pm_Name q = pm_Name p
     \<and> pm_Action q = pm_Action p \<and> pm_Resource q = pm_Resource p)"

definition ids_unique :: "'u rbac_db \<Rightarrow> bool" where
  "ids_unique db \<longleftrightarrow> distinct (map pm_ID (rb_permissions db))"

text \<open>What no operation of the service breaks, for a given system permission.\<close>

definition keeps :: "'u permission \<Rightarrow> 'u rbac_db \<Rightarrow> bool" where
  "keeps p db \<longleftrightarrow> ids_unique db \<and> still_there p db"

lemma keeps_create:
  "keeps p (ps_repo s) \<Longrightarrow> keeps p (ps_repo (snd (CreatePermission uu (pg_repo uu) newID now n d a r i s)))"
  by (auto simp: CreatePermission_def pg_repo_def pg_Create_def Let_def keeps_def ids_unique_def still_there_def clearCache_def
      split: prod.split sum.split)

lemma keeps_defaults:
  "keeps p (ps_repo s) \<Longrightarrow> keeps p (ps_repo (snd (create_defaults uu (pg_repo uu) newID now ps s)))"
proof (induction ps arbitrary: s)
  case (Cons x ps)
  obtain n d a r where x: "x = (n, d, a, r)" by (cases x) auto
  obtain res s' where c: "CreatePermission uu (pg_repo uu) (newID n) now n d a r False s = (res, s')" by fastforce
  with keeps_create [OF Cons.prems, of uu "newID n" now n d a r False] have "keeps p (ps_repo s')" by simp
  with Cons x c show ?case by (cases res) auto
qed simp

lemma find_by_id:
  "ids_unique db \<Longrightarrow> find (\<lambda>p. pm_ID p = i) (rb_permissions db) = Some q \<longleftrightarrow> q \<in> set (rb_permissions db) \<and> pm_ID q = i"
  by (rule find_unique [of pm_ID]) (auto simp: ids_unique_def)

lemma keeps_delete:
  assumes "keeps p (ps_repo s)" "HasPrefix (pm_Name p) ''system:''"
  shows "keeps p (ps_repo (snd (DeletePermission (pg_repo uu) i s)))"
proof (cases "DeletePermission (pg_repo uu) i s")
  case (Pair e s')
  show ?thesis
  proof (cases e)
    case (Some x)
    with Pair assms(1) show ?thesis
      by (auto simp: DeletePermission_def pg_repo_def pg_Delete_def split: sum.splits if_splits prod.splits)
  next
    case None
    with Pair obtain q where q: "find (\<lambda>p. pm_ID p = i) (rb_permissions (ps_repo s)) = Some q" "\<not> HasPrefix (pm_Name q) ''system:''"
      by (auto simp: DeletePermission_def pg_repo_def pg_GetByID_def pg_find_def split: sum.splits if_splits option.splits)
    from assms(1) have u: "ids_unique (ps_repo s)" by (simp add: keeps_def)
    from assms(1) obtain q' where q': "q' \<in> set (rb_permissions (ps_repo s))" "pm_ID q' = pm_ID p" "pm_Name q' = pm_Name p"
        "pm_Action q' = pm_Action p" "pm_Resource q' = pm_Resource p" by (auto simp: keeps_def still_there_def)
    have "pm_ID p \<noteq> i"
    proof
      assume "pm_ID p = i"
      with q(1) q'(1,2) find_by_id [OF u, of i q'] have "q = q'" by simp
      with q(2) q'(3) assms(2) show False by simp
    qed
    with Pair None q'(1,2) have "q' \<in> set (rb_permissions (ps_repo s'))" "ids_unique (ps_repo s')"
      using u by (auto simp: DeletePermission_def pg_repo_def pg_Delete_def clearCache_def ids_unique_def distinct_map_filter
          split: sum.splits if_splits prod.splits)
    with q'(2-5) Pair show ?thesis by (auto simp: keeps_def still_there_def)
  qed
qed

lemma keeps_update:
  assumes "keeps p (ps_repo s)"
  shows "keeps p (ps_repo (snd (UpdatePermission (pg_repo uu) now1 now2 i d s)))"
proof (cases "UpdatePermission (pg_repo uu) now1 now2 i d s")
  case (Pair e s')
  show ?thesis
  proof (cases e)
    case (Inl x)
    with Pair assms show ?thesis
      by (auto simp: UpdatePermission_def pg_repo_def pg_Update_def Let_def split: sum.splits if_splits prod.splits)
  next
    case (Inr x)
    with Pair obtain q where q: "find (\<lambda>p. pm_ID p = i) (rb_permissions (ps_repo s)) = Some q"
        "rb_permissions (ps_repo s') = map (\<lambda>q'. if pm_ID q' = i
           then q'\<lparr>pm_Name := pm_Name q, pm_Description := d, pm_Action := pm_Action q, pm_Resource := pm_Resource q,
                   pm_IsSystemPermission := pm_IsSystemPermission q, pm_UpdatedAt := now2\<rparr> else q') (rb_permissions (ps_repo s))"
      by (auto simp: UpdatePermission_def pg_repo_def pg_GetByID_def pg_find_def pg_Update_def Let_def clearCache_def
          split: sum.splits if_splits option.splits prod.splits)
    have u: "ids_unique (ps_repo s)" using assms by (simp add: keeps_def)
    have "map pm_ID (rb_permissions (ps_repo s')) = map pm_ID (rb_permissions (ps_repo s))" unfolding q(2) by simp
    with u have "ids_unique (ps_repo s')" by (simp add: ids_unique_def)
    moreover have "still_there p (ps_repo s')"
    proof -
      from assms obtain q' where q': "q' \<in> set (rb_permissions (ps_repo s))" "pm_ID q' = pm_ID p" "pm_Name q' = pm_Name p"
        "pm_Action q' = pm_Action p" "pm_Resource q' = pm_Resource p" by (auto simp: keeps_def still_there_def)
      with q(1) find_by_id [OF u, of i q'] have "pm_ID p = i \<Longrightarrow> q = q'" by simp
      with q' imageI [OF q'(1)] show ?thesis unfolding still_there_def q(2) set_map
        by (cases "pm_ID p = i") (rule bexI, erule_tac [2] imageI, simp)+
    qed
    ultimately show ?thesis using Pair by (simp add: keeps_def)
  qed
qed

lemma keeps_do:
  "keeps p (ps_repo s) \<Longrightarrow> HasPrefix (pm_Name p) ''system:'' \<Longrightarrow>
   keeps p (ps_repo (perm_do uu (pg_repo uu) act s))"
proof (cases act)
  case (DoAdd roleID i)
  assume "keeps p (ps_repo s)"
  with DoAdd show ?thesis
    by (auto simp: AddPermissionToRole_def pg_repo_def pg_AddPermissionToRole_def clearCache_def keeps_def still_there_def ids_unique_def)
next
  case (DoRemove roleID i)
  assume "keeps p (ps_repo s)"
  with DoRemove show ?thesis
    by (auto simp: RemovePermissionFromRole_def pg_repo_def pg_RemovePermissionFromRole_def clearCache_def keeps_def still_there_def ids_unique_def)
next
  case (DoQuery roles a r)
  assume "keeps p (ps_repo s)"
  with DoQuery show ?thesis by (auto simp: HasPermission_def Let_def split: option.splits sum.splits)
qed (simp_all add: keeps_create keeps_defaults keeps_delete keeps_update CreateDefaultPermissions_def ClearCache_def clearCache_def)

lemma history_keeps:
  "keeps p (ps_repo s) \<Longrightarrow> HasPrefix (pm_Name p) ''system:'' \<Longrightarrow> keeps p (ps_repo (fold (perm_do uu (pg_repo uu)) acts s))"
  by (induction acts arbitrary: s) (auto simp: keeps_do)

section \<open>The default permissions are created\<close>

definition default_pairs_free :: "'u rbac_db \<Rightarrow> bool" where
  "default_pairs_free db \<longleftrightarrow> (\<forall>p \<in> set (rb_permissions db). \<forall>(n, d, a, r) \<in> set defaultPermissions.
     pm_Action p = a \<and> pm_Resource p = r \<longrightarrow> pm_Name p = n)"

definition has_name :: "string \<Rightarrow> 'u rbac_db \<Rightarrow> bool" where
  "has_name n db \<longleftrightarrow> (\<exists>p \<in> set (rb_permissions db). pm_Name p = n)"

lemma GetByName_ok: "rb_up db \<Longrightarrow> is_ok (rp_GetByName (pg_repo uu) n db) \<longleftrightarrow> has_name n db"
  by (auto simp: pg_repo_def pg_GetByName_def pg_find_def has_name_def find_None_iff dest: find_Some_split split: option.splits)

lemma GetByActionAndResource_ok:
  "rb_up db \<Longrightarrow> is_ok (rp_GetByActionAndResource (pg_repo uu) a r db) \<longleftrightarrow>
   (\<exists>p \<in> set (rb_permissions db). pm_Action p = a \<and> pm_Resource p = r)"
  by (auto simp: pg_repo_def pg_GetByActionAndResource_def pg_find_def find_None_iff dest: find_Some_split split: option.splits)

lemma defaults_fit:
  "\<forall>(n, d, a, r) \<in> set defaultPermissions. n \<noteq> [] \<and> a \<noteq> [] \<and> r \<noteq> [] \<and> length n \<le> 255 \<and> length a \<le> 50 \<and> length r \<le> 50"
  by (simp add: defaultPermissions_def)

lemma defaults_distinct: "distinct (map (\<lambda>(n, d, a, r). (a, r)) defaultPermissions)"
  by (simp add: defaultPermissions_def)

lemma default_pair_name:
  "(n, d, a, r) \<in> set defaultPermissions \<Longrightarrow> (n', d', a, r) \<in> set defaultPermissions \<Longrightarrow> n = n'"
  using inj_onD [OF distinct_map [THEN iffD1, THEN conjunct2, OF defaults_distinct], of "(n, d, a, r)" "(n', d', a, r)"] by simp

lemma default_names: "(n, d, a, r) \<in> set defaultPermissions \<Longrightarrow> (n, d', a', r') \<in> set defaultPermissions \<Longrightarrow> a = a' \<and> r = r'"
proof -
  have "distinct (map fst defaultPermissions)" by (simp add: defaultPermissions_def)
  then show "(n, d, a, r) \<in> set defaultPermissions \<Longrightarrow> (n, d', a', r') \<in> set defaultPermissions \<Longrightarrow> a = a' \<and> r = r'"
    using inj_onD [OF distinct_map [THEN iffD1, THEN conjunct2], of fst defaultPermissions "(n, d, a, r)" "(n, d', a', r')"] by simp
qed

text \<open>One step of the loop, for a default that is missing.\<close>

lemma create_default:
  assumes "rb_up (ps_repo s)" "default_pairs_free (ps_repo s)" "(n, d, a, r) \<in> set defaultPermissions"
    "\<not> has_name n (ps_repo s)" "\<forall>p \<in> set (rb_permissions (ps_repo s)). pm_ID p \<noteq> newID"
  shows "\<exists>p s'. CreatePermission uu (pg_repo uu) newID now n d a r False s = (Inr p, s')
    \<and> rb_permissions (ps_repo s') = rb_permissions (ps_repo s) @ [p] \<and> rb_up (ps_repo s')
    \<and> pm_ID p = newID \<and> pm_Name p = n \<and> pm_Action p = a \<and> pm_Resource p = r"
proof -
  have fit: "n \<noteq> []" "a \<noteq> []" "r \<noteq> []" "length n \<le> 255" "length a \<le> 50" "length r \<le> 50" using defaults_fit assms(3) by auto
  have free: "\<forall>p \<in> set (rb_permissions (ps_repo s)). pm_Name p \<noteq> n \<and> \<not> (pm_Action p = a \<and> pm_Resource p = r)"
    using assms(2-4) by (fastforce simp: default_pairs_free_def has_name_def)
  then have "\<not> is_ok (rp_GetByName (pg_repo uu) n (ps_repo s))" "\<not> is_ok (rp_GetByActionAndResource (pg_repo uu) a r (ps_repo s))"
    using assms(1) by (auto simp: GetByName_ok GetByActionAndResource_ok has_name_def)
  with fit free assms(1,5) show ?thesis
    by (auto simp: CreatePermission_def) (auto simp: pg_repo_def pg_Create_def Let_def row_fits_def clashes_def clearCache_def)
qed

lemma create_defaults_ok:
  assumes "inj newID"
  shows "rb_up (ps_repo s) \<Longrightarrow> default_pairs_free (ps_repo s) \<Longrightarrow> set ps \<subseteq> set defaultPermissions \<Longrightarrow>
    (\<forall>(n, d, a, r) \<in> set ps. \<forall>p \<in> set (rb_permissions (ps_repo s)). pm_ID p = newID n \<longrightarrow> pm_Name p = n) \<Longrightarrow>
    \<exists>s'. create_defaults uu (pg_repo uu) newID now ps s = (None, s') \<and> rb_up (ps_repo s')
      \<and> set (rb_permissions (ps_repo s)) \<subseteq> set (rb_permissions (ps_repo s'))
      \<and> (\<forall>(n, d, a, r) \<in> set ps. \<exists>p \<in> set (rb_permissions (ps_repo s')). pm_Name p = n
           \<and> (p \<in> set (rb_permissions (ps_repo s)) \<or> pm_Action p = a \<and> pm_Resource p = r))"
proof (induction ps arbitrary: s)
  case Nil
  then show ?case by simp
next
  case (Cons x ps)
  obtain n d a r where x: "x = (n, d, a, r)" by (cases x) auto
  show ?case
  proof (cases "has_name n (ps_repo s)")
    case True
    with Cons.IH [OF Cons.prems(1,2)] Cons.prems x show ?thesis
      by (auto simp: GetByName_ok has_name_def) blast
  next
    case False
    have mem: "(n, d, a, r) \<in> set defaultPermissions" using Cons.prems(3) x by simp
    from Cons.prems(4) False have new: "\<forall>p \<in> set (rb_permissions (ps_repo s)). pm_ID p \<noteq> newID n" by (auto simp: x has_name_def)
    from create_default [OF Cons.prems(1,2) mem False new, of uu now] obtain p s1 where
      c: "CreatePermission uu (pg_repo uu) (newID n) now n d a r False s = (Inr p, s1)" and
      s1: "rb_permissions (ps_repo s1) = rb_permissions (ps_repo s) @ [p]" "rb_up (ps_repo s1)" and
      p: "pm_ID p = newID n" "pm_Name p = n" "pm_Action p = a" "pm_Resource p = r" by blast
    have "default_pairs_free (ps_repo s1)" using Cons.prems(2) s1(1) p default_pair_name [OF mem]
      by (fastforce simp: default_pairs_free_def)
    moreover have "\<forall>(n', d', a', r') \<in> set ps. \<forall>q \<in> set (rb_permissions (ps_repo s1)). pm_ID q = newID n' \<longrightarrow> pm_Name q = n'"
      using Cons.prems(4) s1(1) p assms by (auto simp: inj_eq)
    moreover have "set ps \<subseteq> set defaultPermissions" using Cons.prems(3) by simp
    ultimately obtain s' where s': "create_defaults uu (pg_repo uu) newID now ps s1 = (None, s')" "rb_up (ps_repo s')"
        "set (rb_permissions (ps_repo s1)) \<subseteq> set (rb_permissions (ps_repo s'))"
      and rest: "\<forall>(n, d, a, r) \<in> set ps. \<exists>p \<in> set (rb_permissions (ps_repo s')). pm_Name p = n
           \<and> (p \<in> set (rb_permissions (ps_repo s1)) \<or> pm_Action p = a \<and> pm_Resource p = r)"
      using Cons.IH [OF s1(2)] by blast
    have "\<exists>q \<in> set (rb_permissions (ps_repo s')). pm_Name q = n'
        \<and> (q \<in> set (rb_permissions (ps_repo s)) \<or> pm_Action q = a' \<and> pm_Resource q = r')"
      if "(n', d', a', r') \<in> set (x # ps)" for n' d' a' r'
    proof (cases "n' = n")
      case True
      with that Cons.prems(3) mem default_names have "a' = a" "r' = r" by blast+
      with True p s1(1) s'(3) show ?thesis by (intro bexI [of _ p]) auto
    next
      case False
      with that x rest s1(1) p(2) show ?thesis by fastforce
    qed
    with s' c s1(1) x Cons.prems(1) False show ?thesis by (simp add: GetByName_ok) blast
  qed
qed

lemma create_defaults_present:
  "rb_up (ps_repo s) \<Longrightarrow> \<forall>(n, d, a, r) \<in> set ps. has_name n (ps_repo s) \<Longrightarrow>
   create_defaults uu (pg_repo uu) newID now ps s = (None, s)"
  by (induction ps) (auto simp: GetByName_ok)

section \<open>Properties\<close>

text \<open>C30: The permission cache is transparent: after any history of creations, updates, deletions, grants,
  revocations and earlier questions, the service answers a question exactly as the tables say at that
  moment, namely whether one of the roles has a permission that grants the action on the resource; all
  questions must have roles without comma and colon and an action without colon.\<close>

theorem permissions_answer_exact:
  assumes "rb_up db" "\<forall>act \<in> set acts. separable_act act" "separable roles action"
    and "s = fold (perm_do uu (pg_repo uu)) acts (NewPermissionService db)"
  shows "fst (HasPermission uu (pg_repo uu) roles action resource s) = Inr (allowed uu (ps_repo s) roles action resource)"
proof -
  have "rb_up (ps_repo s)" using assms(1,4) by (simp add: history_up NewPermissionService_def)
  with pg.history_answer [OF assms(2-4)] show ?thesis by (simp add: answer_tables)
qed

text \<open>Questions with the same key share their answer, whatever the tables say about the second one.\<close>

lemma colliding_questions_share_answer:
  assumes "roles \<noteq> []" "is_ok (fst (HasPermission uu repo roles a (b @ '':'' @ c) s))"
  shows "fst (HasPermission uu repo roles (a @ '':'' @ b) c (snd (HasPermission uu repo roles a (b @ '':'' @ c) s)))
    = fst (HasPermission uu repo roles a (b @ '':'' @ c) s)"
proof -
  have "makeCacheKey roles (a @ '':'' @ b) c = makeCacheKey roles a (b @ '':'' @ c)" by (simp add: makeCacheKey_def)
  with assms show ?thesis by (auto simp: HasPermission_def Let_def mget_mput split: option.splits sum.splits)
qed

text \<open>A permission whose name starts with \<open>system:\<close> cannot be removed through the service: after any history
  a permission with its ID, name, action and resource is still stored.\<close>

lemma system_permissions_kept:
  assumes "ids_unique db" "p \<in> set (rb_permissions db)" "HasPrefix (pm_Name p) ''system:''"
  shows "\<exists>q \<in> set (rb_permissions (ps_repo (fold (perm_do uu (pg_repo uu)) acts (NewPermissionService db)))).
    pm_ID q = pm_ID p \<and> pm_Name q = pm_Name p \<and> pm_Action q = pm_Action p \<and> pm_Resource q = pm_Resource p"
proof -
  have "keeps p (ps_repo (NewPermissionService db))" using assms(1,2) by (auto simp: keeps_def still_there_def NewPermissionService_def)
  from history_keeps [OF this assms(3), of uu acts] show ?thesis by (simp add: keeps_def still_there_def)
qed

text \<open>Creating the default permissions succeeds on every table in which no default action and resource
  has another name, keeps all permissions that were there, stores every default permission whose name
  was missing with its action and resource, and doing it again changes nothing.\<close>

lemma default_permissions_created:
  assumes "rb_up db" "default_pairs_free db" "inj newID" "\<forall>n. \<forall>p \<in> set (rb_permissions db). pm_ID p \<noteq> newID n"
  shows "\<exists>s. CreateDefaultPermissions uu (pg_repo uu) newID now (NewPermissionService db) = (None, s)
    \<and> set (rb_permissions db) \<subseteq> set (rb_permissions (ps_repo s))
    \<and> (\<forall>(n, d, a, r) \<in> set defaultPermissions. \<exists>p \<in> set (rb_permissions (ps_repo s)). pm_Name p = n
         \<and> (p \<in> set (rb_permissions db) \<or> pm_Action p = a \<and> pm_Resource p = r))
    \<and> CreateDefaultPermissions uu (pg_repo uu) newID' now' s = (None, s)"
proof -
  from create_defaults_ok [OF assms(3), of "NewPermissionService db" defaultPermissions uu now] assms(1,2,4) obtain s where
    s: "create_defaults uu (pg_repo uu) newID now defaultPermissions (NewPermissionService db) = (None, s)" "rb_up (ps_repo s)"
      "set (rb_permissions db) \<subseteq> set (rb_permissions (ps_repo s))"
      "\<forall>(n, d, a, r) \<in> set defaultPermissions. \<exists>p \<in> set (rb_permissions (ps_repo s)). pm_Name p = n
         \<and> (p \<in> set (rb_permissions db) \<or> pm_Action p = a \<and> pm_Resource p = r)"
    by (auto simp: NewPermissionService_def)
  from s(4) have "\<forall>(n, d, a, r) \<in> set defaultPermissions. has_name n (ps_repo s)" by (fastforce simp: has_name_def)
  from create_defaults_present [OF s(2) this] s(1,3,4) show ?thesis by (auto simp: CreateDefaultPermissions_def)
qed

text \<open>A permission to manage every resource grants nothing but the action \<open>manage\<close> on names of resources.\<close>

lemma manage_all_is_not_all:
  "pm_Action p = ActionManage \<Longrightarrow> pm_Resource p = ''*'' \<Longrightarrow> \<not> HasPrefix resource ''*'' \<Longrightarrow>
   grants p action resource \<longleftrightarrow> action = ActionManage"
  by (auto simp: grants_def HasPrefix_iff)

text \<open>No permission made by the service is marked as a system permission, the default ones included.\<close>

lemma created_not_system:
  "fst (CreatePermission uu (pg_repo uu) newID now n d a r isSystem s) = Inr p \<Longrightarrow> \<not> pm_IsSystemPermission p"
  by (auto simp: CreatePermission_def pg_repo_def pg_Create_def Let_def split: if_splits)

section \<open>Witnesses\<close>

definition sample_permission :: "string permission" where
  "sample_permission = \<lparr>pm_ID = ''p1'', pm_Name = ''system:user:read'', pm_Description = [], pm_Action = ''read'',
     pm_Resource = ''user'', pm_IsSystemPermission = False, pm_CreatedAt = 1, pm_UpdatedAt = 1\<rparr>"

definition sample_rbac :: "string rbac_db" where
  "sample_rbac = \<lparr>rb_permissions = [sample_permission], rb_role_permissions = [], rb_roles = [''r1''], rb_up = True\<rparr>"

definition sample_acts :: "string perm_act list" where
  "sample_acts = [DoQuery [''r1''] ''read'' ''user:profile'', DoAdd ''r1'' ''p1'', DoDelete ''p1'']"

theorem permissions_answer_exact_witness:
  "fst (HasPermission text_uuids (pg_repo text_uuids) [''r1''] ''read'' ''user:profile''
        (fold (perm_do text_uuids (pg_repo text_uuids)) sample_acts (NewPermissionService sample_rbac))) = Inr True"
proof -
  let ?s = "fold (perm_do text_uuids (pg_repo text_uuids)) sample_acts (NewPermissionService sample_rbac)"
  have "rb_permissions (ps_repo ?s) = [sample_permission]" "rb_role_permissions (ps_repo ?s) = [(''r1'', ''p1'')]"
    by code_simp+
  then have "allowed text_uuids (ps_repo ?s) [''r1''] ''read'' ''user:profile''"
    by (simp add: allowed_def text_uuids_def grants_def sample_permission_def)
  with permissions_answer_exact [of sample_rbac sample_acts "[''r1'']" "''read''" ?s text_uuids "''user:profile''"] show ?thesis
    by (simp add: sample_rbac_def sample_acts_def separable_def)
qed

lemma system_permissions_kept_witness:
  "\<exists>q \<in> set (rb_permissions (ps_repo (fold (perm_do text_uuids (pg_repo text_uuids)) sample_acts (NewPermissionService sample_rbac)))).
     pm_ID q = ''p1'' \<and> pm_Name q = ''system:user:read''"
  using system_permissions_kept [of sample_rbac sample_permission text_uuids sample_acts]
  by (auto simp: ids_unique_def sample_rbac_def sample_permission_def)

lemma default_permissions_created_witness:
  "\<exists>s. CreateDefaultPermissions text_uuids (pg_repo text_uuids) ((#) CHR ''x'') 5 (NewPermissionService sample_rbac) = (None, s)
    \<and> sample_permission \<in> set (rb_permissions (ps_repo s)) \<and> has_name ''system:admin:all'' (ps_repo s)"
proof -
  have "default_pairs_free sample_rbac" by code_simp
  moreover have "rb_up sample_rbac" "inj ((#) CHR ''x'')" "\<forall>n. \<forall>p \<in> set (rb_permissions sample_rbac). pm_ID p \<noteq> CHR ''x'' # n"
    by (simp_all add: sample_rbac_def sample_permission_def)
  ultimately obtain s where
    s: "CreateDefaultPermissions text_uuids (pg_repo text_uuids) ((#) CHR ''x'') 5 (NewPermissionService sample_rbac) = (None, s)"
       "set (rb_permissions sample_rbac) \<subseteq> set (rb_permissions (ps_repo s))"
       "\<forall>(n, d, a, r) \<in> set defaultPermissions. \<exists>p \<in> set (rb_permissions (ps_repo s)). pm_Name p = n
         \<and> (p \<in> set (rb_permissions sample_rbac) \<or> pm_Action p = a \<and> pm_Resource p = r)"
    using default_permissions_created [of sample_rbac "(#) CHR ''x''" text_uuids 5] by blast
  have "(''system:admin:all'', ''Full administrative access'', ''*'', ''*'') \<in> set defaultPermissions"
    by (simp add: defaultPermissions_def)
  with s(3) have "has_name ''system:admin:all'' (ps_repo s)" unfolding has_name_def by blast
  with s(1,2) show ?thesis by (auto simp: sample_rbac_def)
qed

end
