(* ===== verification/Base64.thy ===== *)
theory Base64
  imports GoStrings
begin

text \<open>
  The unpadded encodings of package \<open>encoding/base64\<close>, as the sources of Aegis use them:
  \<open>RawURLEncoding\<close> for keys and \<open>RawStdEncoding\<close> for password hashes, which differ in the last two
  symbols. Decoding skips line breaks and, as Go does outside its strict mode, ignores the bits that
  the last symbol has left over. What was encoded is read back (\<open>raw_decode_encode\<close>).
\<close>

datatype alphabet = UrlAlphabet | StdAlphabet

fun symbols :: "alphabet \<Rightarrow> string" where
  "symbols UrlAlphabet = ''ABCDEFGHIJKLMNOPQRSTUVWXYZabcdefghijklmnopqrstuvwxyz0123456789-_''"
| "symbols StdAlphabet = ''ABCDEFGHIJKLMNOPQRSTUVWXYZabcdefghijklmnopqrstuvwxyz0123456789+/''"

definition symbol :: "alphabet \<Rightarrow> nat \<Rightarrow> char" where
  "symbol al n = symbols al ! n"

text \<open>The value of a symbol, and \<open>None\<close> for a byte that is none.\<close>

definition sextet :: "alphabet \<Rightarrow> char \<Rightarrow> nat option" where
  "sextet al c = map_of (zip (symbols al) [0..<64]) c"

fun raw_encode :: "alphabet \<Rightarrow> string \<Rightarrow> string" where
  "raw_encode al [] = []"
| "raw_encode al [a] = [symbol al (of_char a div 4), symbol al (of_char a mod 4 * 16)]"
| "raw_encode al [a, b] =
     [symbol al (of_char a div 4), symbol al (of_char a mod 4 * 16 + of_char b div 16), symbol al (of_char b mod 16 * 4)]"
| "raw_encode al (a # b # c # s) =
     symbol al (of_char a div 4) # symbol al (of_char a mod 4 * 16 + of_char b div 16)
     # symbol al (of_char b mod 16 * 4 + of_char c div 64) # symbol al (of_char c mod 64) # raw_encode al s"

fun decode_sextets :: "nat list \<Rightarrow> string option" where
  "decode_sextets [] = Some []"
| "decode_sextets [x] = None"
| "decode_sextets [x, y] = Some [char_of (x * 4 + y div 16)]"
| "decode_sextets [x, y, z] = Some [char_of (x * 4 + y div 16), char_of (y mod 16 * 16 + z div 4)]"
| "decode_sextets (x # y # z # u # ns) =
     map_option (\<lambda>s. char_of (x * 4 + y div 16) # char_of (y mod 16 * 16 + z div 4) # char_of (z mod 4 * 64 + u) # s)
       (decode_sextets ns)"

definition is_break :: "char \<Rightarrow> bool" where
  "is_break c \<longleftrightarrow> of_char c \<in> {10, 13 :: nat}"

definition raw_decode :: "alphabet \<Rightarrow> string \<Rightarrow> string option" where
  "raw_decode al s =
     (let ns = map (sextet al) (filter (\<lambda>c. \<not> is_break c) s)
      in if None \<in> set ns then None else decode_sextets (map the ns))"

section \<open>The symbols\<close>

lemma length_symbols: "length (symbols al) = 64"
  by (cases al) simp_all

lemma distinct_symbols: "distinct (symbols al)"
  by (cases al) simp_all

lemma sextet_symbol: "n < 64 \<Longrightarrow> sextet al (symbol al n) = Some n"
  using map_of_zip_nth [OF _ distinct_symbols, of al "[0..<64]" n] length_symbols [of al]
  by (simp add: sextet_def symbol_def)

lemma symbols_plain: "\<forall>c \<in> set (symbols al). \<not> is_break c \<and> c \<noteq> CHR ''$''"
  by (cases al) (simp_all add: is_break_def)

lemma symbol_no_break: "n < 64 \<Longrightarrow> \<not> is_break (symbol al n) \<and> symbol al n \<noteq> CHR ''$''"
  using symbols_plain [of al] nth_mem [of n "symbols al"] by (simp add: symbol_def length_symbols)

section \<open>Round trip\<close>

text \<open>The groups of six bits of a byte string.\<close>

fun sextets :: "string \<Rightarrow> nat list" where
  "sextets [] = []"
| "sextets [a] = [of_char a div 4, of_char a mod 4 * 16]"
| "sextets [a, b] = [of_char a div 4, of_char a mod 4 * 16 + of_char b div 16, of_char b mod 16 * 4]"
| "sextets (a # b # c # s) =
     (of_char a div 4) # (of_char a mod 4 * 16 + of_char b div 16)
     # (of_char b mod 16 * 4 + of_char c div 64) # (of_char c mod 64) # sextets s"

lemma raw_encode_sextets: "raw_encode al s = map (symbol al) (sextets s)"
  by (induction al s rule: raw_encode.induct) simp_all

lemma byte_bound: "(of_char c :: nat) < 256"
  by (metis of_char_mod_256 mod_less_divisor zero_less_numeral)

lemma byte_div [simp]: "(of_char c :: nat) div 16 < 16" "(of_char c :: nat) div 64 < 4"
  using byte_bound [of c] by (simp_all add: less_mult_imp_div_less)

lemma byte_sextets:
  "(of_char a :: nat) div 4 < 64" "(of_char a :: nat) mod 4 * 16 + of_char b div 16 < 64"
  "(of_char b :: nat) mod 16 * 4 + of_char c div 64 < 64"
proof -
  show "(of_char a :: nat) div 4 < 64" using byte_bound [of a] by (simp add: less_mult_imp_div_less)
  have "(of_char b :: nat) div 16 < 16" "(of_char a :: nat) mod 4 < 4" by simp_all
  then show "(of_char a :: nat) mod 4 * 16 + of_char b div 16 < 64" by linarith
  have "(of_char c :: nat) div 64 < 4" "(of_char b :: nat) mod 16 < 16" by simp_all
  then show "(of_char b :: nat) mod 16 * 4 + of_char c div 64 < 64" by linarith
qed

lemma sextets_bound: "n \<in> set (sextets s) \<Longrightarrow> n < 64"
  by (induction s rule: sextets.induct)
     (auto intro: byte_sextets simp: less_mult_imp_div_less byte_bound)

text \<open>The bits of one byte, split over two groups and joined again.\<close>

lemma join_first: "n div 4 * 4 + (n mod 4 * 16 + m div 16) div 16 = n" if "m < 256" for n m :: nat
  using that by (simp add: less_mult_imp_div_less)

lemma join_second: "(n * 16 + m div 16) mod 16 * 16 + (m mod 16 * 4 + k div 64) div 4 = m"
  if "m < 256" "k < 256" for n m k :: nat
proof -
  have "m div 16 < 16" "k div 64 < 4" using that by auto
  then have "(n * 16 + m div 16) mod 16 = m div 16" "(m mod 16 * 4 + k div 64) div 4 = m mod 16" by auto
  then show ?thesis by simp
qed

lemma join_third: "(n * 4 + m div 64) mod 4 * 64 + m mod 64 = m" if "m < 256" for n m :: nat
proof -
  have "m div 64 < 4" using that by auto
  then show ?thesis by simp
qed

lemma decode_sextets_sextets: "decode_sextets (sextets s) = Some s"
proof (induction s rule: sextets.induct)
  case (2 a)
  show ?case using join_first [of 0 "of_char a :: nat"] by simp
next
  case (3 a b)
  show ?case using byte_bound [of b] by simp
next
  case (4 a b c s)
  then show ?case using join_first [OF byte_bound, of "of_char a" b]
      join_second [OF byte_bound byte_bound, of "of_char a mod 4" b c] join_third [OF byte_bound, of "of_char b mod 16" c]
    by simp
qed simp

lemma raw_decode_encode: "raw_decode al (raw_encode al s) = Some s"
proof -
  have 1: "filter (\<lambda>c. \<not> is_break c) (raw_encode al s) = raw_encode al s"
    by (auto simp: raw_encode_sextets filter_id_conv symbol_no_break sextets_bound)
  have "map (sextet al) (raw_encode al s) = map Some (sextets s)"
    by (simp add: raw_encode_sextets sextets_bound sextet_symbol)
  then show ?thesis
    unfolding raw_decode_def 1 Let_def by (simp add: decode_sextets_sextets image_iff comp_def)
qed

lemma raw_encode_no_dollar: "CHR ''$'' \<notin> set (raw_encode al s)"
  using symbol_no_break sextets_bound by (force simp: raw_encode_sextets)

lemma raw_encode_Nil: "raw_encode al s = [] \<longleftrightarrow> s = []"
  by (cases "(al, s)" rule: raw_encode.cases) simp_all

end
