(* ===== verification/Passwords.thy ===== *)
theory Passwords
  imports Base64
begin

text \<open>
  Hashing and checking of passwords in Aegis (\<open>aegis/internal/common/passwordhasher/hasher.go\<close>). The
  function \<open>argon2.IDKey\<close> and the version of the algorithm are arguments (\<open>argon2\<close>); \<open>argon2_laws\<close> says
  that a key has the length asked for. The text of a hash is written and read as the source does it,
  with the parts of \<open>fmt.Sscanf\<close> that its formats use.
\<close>

section \<open>Reading numbers\<close>

text \<open>Blanks before a number are skipped, a line break is an error; what follows the number is left.\<close>

definition is_blank :: "char \<Rightarrow> bool" where
  "is_blank c \<longleftrightarrow> is_space c \<and> c \<noteq> CHR 0x0A"

definition scan_digits :: "string \<Rightarrow> (nat \<times> string) option" where
  "scan_digits s =
     (let ds = takeWhile is_digit s
      in if ds = [] then None else Some (nat (digits_value ds), dropWhile is_digit s))"

definition scan_uint :: "nat \<Rightarrow> string \<Rightarrow> (nat \<times> string) option" where
  "scan_uint bits s =
     (case scan_digits (dropWhile is_blank s) of
        Some (n, rest) \<Rightarrow> if n < 2 ^ bits then Some (n, rest) else None
      | None \<Rightarrow> None)"

definition scan_int :: "string \<Rightarrow> (int \<times> string) option" where
  "scan_int s =
     (let s' = dropWhile is_blank s;
          neg = HasPrefix s' ''-''
      in case scan_digits (if neg \<or> HasPrefix s' ''+'' then tl s' else s') of
           Some (n, rest) \<Rightarrow>
             let i = (if neg then - int n else int n)
             in if - (2 ^ 63) \<le> i \<and> i < 2 ^ 63 then Some (i, rest) else None
         | None \<Rightarrow> None)"

definition scan_text :: "string \<Rightarrow> string \<Rightarrow> string option" where
  "scan_text t s = (if HasPrefix s t then Some (drop (length t) s) else None)"

section \<open>Hashing\<close>

definition argon2Time :: nat where
  "argon2Time = 3"

definition argon2Memory :: nat where
  "argon2Memory = 64 * 1024"

definition argon2Threads :: nat where
  "argon2Threads = 4"

definition argon2KeyLen :: nat where
  "argon2KeyLen = 32"

text \<open>The package \<open>argon2\<close>: password, salt, iterations, memory, threads and length of the key.\<close>

record argon2 =
  ar_IDKey :: "string \<Rightarrow> string \<Rightarrow> nat \<Rightarrow> nat \<Rightarrow> nat \<Rightarrow> nat \<Rightarrow> string"
  ar_Version :: nat

datatype hash_error = SaltError | InvalidHashFormat | UnsupportedAlgorithm string | InvalidVersionFormat
  | IncompatibleVersion int | InvalidParameters | InvalidSaltEncoding | InvalidHashEncoding

text \<open>\<open>salt\<close>: the sixteen random bytes, or the error of the random source.\<close>

definition Hash :: "argon2 \<Rightarrow> string option \<Rightarrow> string \<Rightarrow> hash_error + string" where
  "Hash ar salt password =
     (case salt of
        None \<Rightarrow> Inl SaltError
      | Some salt \<Rightarrow>
          let hash = ar_IDKey ar password salt argon2Time argon2Memory argon2Threads argon2KeyLen
          in Inr (''$argon2id$v='' @ nat_digits (ar_Version ar) @ ''$m='' @ nat_digits argon2Memory
                  @ '',t='' @ nat_digits argon2Time @ '',p='' @ nat_digits argon2Threads
                  @ ''$'' @ raw_encode StdAlphabet salt @ ''$'' @ raw_encode StdAlphabet hash))"

record argon2_params =
  ap_Memory :: nat
  ap_Time :: nat
  ap_Threads :: nat

definition scan_version :: "string \<Rightarrow> int option" where
  "scan_version s = Option.bind (scan_text ''v='' s) (\<lambda>s. map_option fst (scan_int s))"

definition scan_params :: "string \<Rightarrow> argon2_params option" where
  "scan_params s =
     Option.bind (scan_text ''m='' s) (\<lambda>s. Option.bind (scan_uint 32 s) (\<lambda>(m, s).
     Option.bind (scan_text '',t='' s) (\<lambda>s. Option.bind (scan_uint 32 s) (\<lambda>(t, s).
     Option.bind (scan_text '',p='' s) (\<lambda>s. Option.bind (scan_uint 8 s) (\<lambda>(p, s).
       Some \<lparr>ap_Memory = m, ap_Time = t, ap_Threads = p\<rparr>))))))"

definition decodeHash :: "argon2 \<Rightarrow> string \<Rightarrow> hash_error + argon2_params \<times> string \<times> string" where
  "decodeHash ar encodedHash =
     (let parts = Split CHR ''$'' encodedHash in
      if length parts \<noteq> 6 then Inl InvalidHashFormat
      else if parts ! 1 \<noteq> ''argon2id'' then Inl (UnsupportedAlgorithm (parts ! 1))
      else (case scan_version (parts ! 2) of
              None \<Rightarrow> Inl InvalidVersionFormat
            | Some version \<Rightarrow>
                if version \<noteq> int (ar_Version ar) then Inl (IncompatibleVersion version)
                else (case scan_params (parts ! 3) of
                        None \<Rightarrow> Inl InvalidParameters
                      | Some params \<Rightarrow>
                          (case raw_decode StdAlphabet (parts ! 4) of
                             None \<Rightarrow> Inl InvalidSaltEncoding
                           | Some salt \<Rightarrow>
                               (case raw_decode StdAlphabet (parts ! 5) of
                                  None \<Rightarrow> Inl InvalidHashEncoding
                                | Some hash \<Rightarrow> Inr (params, salt, hash))))))"

definition Verify :: "argon2 \<Rightarrow> string \<Rightarrow> string \<Rightarrow> hash_error + bool" where
  "Verify ar password encodedHash =
     (case decodeHash ar encodedHash of
        Inl err \<Rightarrow> Inl err
      | Inr (params, salt, hash) \<Rightarrow>
          let derivedHash = ar_IDKey ar password salt (ap_Time params) (ap_Memory params) (ap_Threads params)
                (length hash mod 2 ^ 32)
          in Inr (hash = derivedHash))"

definition ValidateHash :: "argon2 \<Rightarrow> string \<Rightarrow> hash_error option" where
  "ValidateHash ar encodedHash = (case decodeHash ar encodedHash of Inl err \<Rightarrow> Some err | Inr _ \<Rightarrow> None)"

section \<open>Digits\<close>

declare nat_digits.simps [simp del]

lemma digits_value_snoc: "digits_value (ds @ [c]) = digits_value ds * 10 + (of_char c - 48)"
  by (simp add: digits_value_def)

lemma of_char_digit: "n < 10 \<Longrightarrow> (of_char (char_of (48 + n) :: char) :: int) = 48 + int n"
proof -
  assume "n < 10"
  then have "(of_char (char_of (48 + n) :: char) :: nat) = 48 + n" by simp
  then show ?thesis using of_nat_of_char [of "char_of (48 + n)", where 'a = int] by simp
qed

lemma digits_value_nat_digits: "digits_value (nat_digits n) = int n"
proof (induction n rule: nat_digits.induct)
  case (1 n)
  show ?case
  proof (cases "n < 10")
    case True
    then show ?thesis by (simp add: nat_digits.simps [of n] digits_value_def of_char_digit)
  next
    case False
    with 1 show ?thesis using of_char_digit [of "n mod 10"]
      by (subst nat_digits.simps) (simp add: digits_value_snoc zdiv_int zmod_int)
  qed
qed

lemma is_digit_char: "n < (10 :: nat) \<Longrightarrow> is_digit (char_of (48 + n))"
  by (simp add: is_digit_def)

lemma nat_digits_digits: "c \<in> set (nat_digits n) \<Longrightarrow> is_digit c"
proof (induction n rule: nat_digits.induct)
  case (1 n)
  then show ?case
    by (subst (asm) nat_digits.simps) (auto simp: is_digit_char split: if_splits)
qed

lemma nat_digits_ne [simp]: "nat_digits n \<noteq> []"
  by (subst nat_digits.simps) simp

lemma is_digit_not_blank: "is_digit c \<Longrightarrow> \<not> is_blank c"
  by (auto simp: is_digit_def is_blank_def is_space_def)

text \<open>A number that was written is read back up to what follows it.\<close>

lemma takeWhile_app: "list_all P xs \<Longrightarrow> ys = [] \<or> \<not> P (hd ys) \<Longrightarrow> takeWhile P (xs @ ys) = xs \<and> dropWhile P (xs @ ys) = ys"
  by (induction xs) (cases ys, auto)

lemma scan_digits_nat: "rest = [] \<or> \<not> is_digit (hd rest) \<Longrightarrow> scan_digits (nat_digits n @ rest) = Some (n, rest)"
  using takeWhile_app [of is_digit "nat_digits n" rest]
  by (simp add: scan_digits_def Let_def list_all_iff nat_digits_digits digits_value_nat_digits)

lemma no_blanks: "dropWhile is_blank (nat_digits n @ rest) = nat_digits n @ rest"
  by (metis append_is_Nil_conv dropWhile_hd hd_append2 hd_in_set is_digit_not_blank nat_digits_digits nat_digits_ne)

lemma scan_uint_nat:
  "n < 2 ^ bits \<Longrightarrow> rest = [] \<or> \<not> is_digit (hd rest) \<Longrightarrow> scan_uint bits (nat_digits n @ rest) = Some (n, rest)"
  by (simp add: scan_uint_def no_blanks scan_digits_nat)

lemma no_sign: "\<not> HasPrefix (nat_digits n @ rest) ''-''" "\<not> HasPrefix (nat_digits n @ rest) ''+''"
  using nat_digits_digits [of "hd (nat_digits n)" n] hd_in_set [OF nat_digits_ne, of n]
  by (cases "nat_digits n"; auto simp: is_digit_def)+

lemma scan_int_nat: "n < 2 ^ 63 \<Longrightarrow> scan_int (nat_digits n) = Some (int n, [])"
  using no_blanks [of n "[]"] no_sign [of n "[]"] scan_digits_nat [of "[]" n]
  by (simp add: scan_int_def Let_def)

section \<open>Checking what was hashed\<close>

definition argon2_laws :: "argon2 \<Rightarrow> bool" where
  "argon2_laws ar \<longleftrightarrow> ar_Version ar < 2 ^ 63 \<and> (\<forall>pw salt t m p n. length (ar_IDKey ar pw salt t m p n) = n)"

lemma digits_no_dollar: "CHR ''$'' \<notin> set (nat_digits n)"
  using nat_digits_digits [of "CHR ''$''" n] by (auto simp: is_digit_def)

definition param_text :: string where
  "param_text = ''m='' @ nat_digits argon2Memory @ '',t='' @ nat_digits argon2Time @ '',p='' @ nat_digits argon2Threads"

lemma scan_param_text:
  "scan_params param_text = Some \<lparr>ap_Memory = argon2Memory, ap_Time = argon2Time, ap_Threads = argon2Threads\<rparr>"
  using scan_uint_nat [of argon2Threads 8 "[]"]
  by (simp add: scan_params_def param_text_def scan_text_def scan_uint_nat is_digit_def argon2Memory_def argon2Time_def
      argon2Threads_def)

lemma param_text_plain: "CHR ''$'' \<notin> set param_text"
  by (simp add: param_text_def digits_no_dollar)

lemma Split_hash:
  assumes "Hash ar (Some salt) pw = Inr h"
  shows "Split CHR ''$'' h = [[], ''argon2id'', ''v='' @ nat_digits (ar_Version ar), param_text,
    raw_encode StdAlphabet salt,
    raw_encode StdAlphabet (ar_IDKey ar pw salt argon2Time argon2Memory argon2Threads argon2KeyLen)]"
proof -
  let ?d = "CHR ''$''"
  let ?hash = "ar_IDKey ar pw salt argon2Time argon2Memory argon2Threads argon2KeyLen"
  have h: "h = [] @ ?d # ''argon2id'' @ ?d # (''v='' @ nat_digits (ar_Version ar)) @ ?d # param_text
      @ ?d # raw_encode StdAlphabet salt @ ?d # raw_encode StdAlphabet ?hash"
    using assms by (simp add: Hash_def Let_def param_text_def)
  have v: "?d \<notin> set (''v='' @ nat_digits (ar_Version ar))" "?d \<notin> set ''argon2id''" "?d \<notin> set []"
    by (simp_all add: digits_no_dollar)
  show ?thesis
    unfolding h by (simp only: Split_append_sep v param_text_plain raw_encode_no_dollar Split_no_sep
        not_False_eq_True)
qed

lemma decodeHash_Hash:
  assumes "argon2_laws ar" "Hash ar (Some salt) pw = Inr h"
  shows "decodeHash ar h = Inr (\<lparr>ap_Memory = argon2Memory, ap_Time = argon2Time, ap_Threads = argon2Threads\<rparr>, salt,
    ar_IDKey ar pw salt argon2Time argon2Memory argon2Threads argon2KeyLen)"
  using assms
  by (simp add: decodeHash_def Split_hash Let_def scan_version_def scan_text_def scan_int_nat argon2_laws_def
      scan_param_text raw_decode_encode)

lemma Verify_Hash:
  assumes "argon2_laws ar" "Hash ar (Some salt) pw = Inr h"
  shows "Verify ar pw' h = Inr (ar_IDKey ar pw salt argon2Time argon2Memory argon2Threads argon2KeyLen
    = ar_IDKey ar pw' salt argon2Time argon2Memory argon2Threads argon2KeyLen)"
  using assms decodeHash_Hash [OF assms] by (simp add: Verify_def argon2_laws_def argon2KeyLen_def)

end
