(* ===== verification/Users.thy ===== *)
theory Users
  imports Auth Passwords Validation
begin

text \<open>
  Users of Aegis: \<open>aegis/internal/domain/user.go\<close>, the service over them
  (\<open>internal/service/service_user.go\<close>) and the repository interface it calls
  (\<open>internal/ports/repo_user.go\<close>), whose laws are the locale \<open>user_repository\<close>. The repository in
  Postgres is theory \<open>UserStore\<close>.

  The text form of a UUID stands for it. The parser of the uuid package, the classes of the runes of a
  string (package \<open>unicode\<close>), the parsers of URLs and of RFC 3339 times and the password hash are
  arguments (\<open>user_env\<close>). Fresh identifiers, salts and the clock are arguments of the operations that
  draw them. The raw data of an OAuth provider, which nothing reads, is left out.
\<close>

section \<open>Checks on the fields\<close>

datatype rune_class = RuneUpper | RuneLower | RuneDigit | RuneSpecial | RuneOther

record user_env =
  ue_argon :: argon2
  ue_parse :: "string \<Rightarrow> uuid option"
  ue_classes :: "string \<Rightarrow> rune_class list"
  ue_url_ok :: "string \<Rightarrow> bool"
  ue_rfc3339_ok :: "string \<Rightarrow> bool"

text \<open>The language of the pattern \<open>^[a-z0-9._%+\-]+@[a-z0-9.\-]+\.[a-z]{2,}$\<close>.\<close>

definition email_local_char :: "char \<Rightarrow> bool" where
  "email_local_char c \<longleftrightarrow> char_between CHR ''a'' CHR ''z'' c \<or> is_digit c \<or> c \<in> set ''._%+-''"

definition email_domain_char :: "char \<Rightarrow> bool" where
  "email_domain_char c \<longleftrightarrow> char_between CHR ''a'' CHR ''z'' c \<or> is_digit c \<or> c \<in> set ''.-''"

definition email_pattern :: "string \<Rightarrow> bool" where
  "email_pattern s =
     (case SplitN2 CHR ''@'' s of
        [local, domain] \<Rightarrow>
          let labels = Split CHR ''.'' domain;
              top = last labels
          in local \<noteq> [] \<and> list_all email_local_char local
             \<and> list_all email_domain_char domain
             \<and> Join ''.'' (butlast labels) \<noteq> []
             \<and> 2 \<le> length top \<and> list_all (char_between CHR ''a'' CHR ''z'') top
      | _ \<Rightarrow> False)"

definition is_Email :: "string \<Rightarrow> string option" where
  "is_Email s = (if \<not> email_pattern s then Some ''email is invalid'' else None)"

definition is_URL :: "user_env \<Rightarrow> string \<Rightarrow> string option" where
  "is_URL env s = (if \<not> ue_url_ok env s then Some ''URL is invalid'' else None)"

definition is_RFC3339Time :: "user_env \<Rightarrow> string \<Rightarrow> string option" where
  "is_RFC3339Time env s = (if \<not> ue_rfc3339_ok env s then Some ''cannot parse time'' else None)"

definition ValidPassword :: "user_env \<Rightarrow> string \<Rightarrow> string option" where
  "ValidPassword env s =
     (if length s < 8 then Some ''must be at least 8 characters''
      else let classes = ue_classes env s
      in if RuneUpper \<notin> set classes then Some ''must contain at least one uppercase letter''
         else if RuneLower \<notin> set classes then Some ''must contain at least one lowercase letter''
         else if RuneDigit \<notin> set classes then Some ''must contain at least one digit''
         else if RuneSpecial \<notin> set classes then Some ''must contain at least one special character''
         else None)"

definition ValidateAndFormatPhoneNumber :: "string \<Rightarrow> string option" where
  "ValidateAndFormatPhoneNumber rawNumber =
     (let cleanNumber = filter (\<lambda>c. is_digit c \<or> c = CHR ''+'') rawNumber;
          cleanNumber = (if \<not> HasPrefix cleanNumber ''+'' then
                           (if HasPrefix cleanNumber ''1'' then ''+'' @ cleanNumber else ''+1'' @ cleanNumber)
                         else cleanNumber);
          digits = drop 1 cleanNumber
      in if digits = [] \<or> \<not> list_all is_digit digits then None
         else if length digits < 7 \<or> length digits > 15 then None
         else Some cleanNumber)"

definition ValidPhoneNumber :: "string \<Rightarrow> string option" where
  "ValidPhoneNumber s =
     (case ValidateAndFormatPhoneNumber s of None \<Rightarrow> Some ''invalid phone number format'' | Some _ \<Rightarrow> None)"

section \<open>Users\<close>

definition UserStatusActive :: string where
  "UserStatusActive = ''active''"

definition UserStatusInactive :: string where
  "UserStatusInactive = ''inactive''"

definition UserStatusLocked :: string where
  "UserStatusLocked = ''locked''"

definition UserStatusDeleted :: string where
  "UserStatusDeleted = ''deleted''"

lemmas status_defs = UserStatusActive_def UserStatusInactive_def UserStatusLocked_def UserStatusDeleted_def

definition AuthProviderPassword :: string where
  "AuthProviderPassword = ''password''"

record user =
  us_ID :: uuid
  us_Email :: string
  us_FirstName :: string
  us_LastName :: string
  us_Phone :: string
  us_AvatarURL :: string
  us_Status :: string
  us_LastLoginDate :: time
  us_CreatedAt :: time
  us_UpdatedAt :: time
  us_Roles :: role_map
  us_Provider :: string
  us_ProviderUserID :: "string option"
  us_PasswordHash :: string

datatype user_error =
    UserValidation validation_errors | ErrUserAlreadyExists | ErrUserNotFound | HashFailed hash_error
  | UserDb | UserNoRows | InvalidRoleName string | RoleNotFound | ErrInvalidUserPrefix | InvalidUserUUID
  | InvalidEmail | ErrNoChangesProvided | ErrNilUpdateParams | PasswordRequired | PasswordNotAllowed

definition StatusFromString :: "string \<Rightarrow> string option" where
  "StatusFromString status =
     (let l = ToLower status
      in if l = UserStatusActive then Some UserStatusActive
         else if l = UserStatusInactive then Some UserStatusInactive
         else if l = UserStatusLocked then Some UserStatusLocked
         else if l = UserStatusDeleted then Some UserStatusDeleted
         else None)"

definition IsValidStatus :: "string \<Rightarrow> string option" where
  "IsValidStatus s = (case StatusFromString s of None \<Rightarrow> Some ''invalid user status'' | Some _ \<Rightarrow> None)"

record user_create_params =
  uc_Email :: string
  uc_FirstName :: string
  uc_LastName :: string
  uc_Phone :: string
  uc_AvatarURL :: string
  uc_Password :: "string option"
  uc_Provider :: string
  uc_ProviderUserID :: "string option"

definition user_create_Validate :: "user_env \<Rightarrow> user_create_params \<Rightarrow> validation_errors option" where
  "user_create_Validate env u =
     Errors
       (CheckOptionalString ''password'' (uc_Password u) [ValidPassword env]
       (CheckString ''phone'' (uc_Phone u) [ValidPhoneNumber]
       (CheckString ''last_name'' (uc_LastName u) [is_Length 1 50]
       (CheckString ''first_name'' (uc_FirstName u) [is_Length 1 50]
       (CheckString ''email'' (uc_Email u) [is_Email] New_validator)))))"

definition has_password :: "string option \<Rightarrow> bool" where
  "has_password password \<longleftrightarrow> password \<noteq> None \<and> password \<noteq> Some []"

definition NewCreateUserParams ::
  "user_env \<Rightarrow> string \<Rightarrow> string \<Rightarrow> string \<Rightarrow> string \<Rightarrow> string option \<Rightarrow> string \<Rightarrow> string option \<Rightarrow> user_error + user_create_params" where
  "NewCreateUserParams env email firstName lastName phone password provider providerUserID =
     (if provider = AuthProviderPassword \<and> \<not> has_password password then Inl PasswordRequired
      else if provider \<noteq> AuthProviderPassword \<and> has_password password then Inl PasswordNotAllowed
      else let params = \<lparr>uc_Email = email, uc_FirstName = firstName, uc_LastName = lastName, uc_Phone = phone,
                 uc_AvatarURL = [], uc_Password = password, uc_Provider = provider, uc_ProviderUserID = providerUserID\<rparr>
           in case user_create_Validate env params of
                Some errs \<Rightarrow> Inl (UserValidation errs)
              | None \<Rightarrow> Inr params)"

text \<open>The password of the new user is hashed with the salt drawn for it.\<close>

definition new_password_hash :: "user_env \<Rightarrow> string option \<Rightarrow> user_create_params \<Rightarrow> hash_error + string" where
  "new_password_hash env salt params =
     (case uc_Password params of
        Some password \<Rightarrow>
          if password \<noteq> [] \<and> uc_Provider params = AuthProviderPassword then Hash (ue_argon env) salt password else Inr []
      | None \<Rightarrow> Inr [])"

definition NewUser :: "user_env \<Rightarrow> string option \<Rightarrow> uuid \<Rightarrow> user_create_params \<Rightarrow> user_error + user" where
  "NewUser env salt newID params =
     (case user_create_Validate env params of
        Some errs \<Rightarrow> Inl (UserValidation errs)
      | None \<Rightarrow>
          (case new_password_hash env salt params of
             Inl err \<Rightarrow> Inl (HashFailed err)
           | Inr passwordHash \<Rightarrow>
               Inr \<lparr>us_ID = newID, us_Email = uc_Email params, us_FirstName = uc_FirstName params,
                 us_LastName = uc_LastName params, us_Phone = uc_Phone params, us_AvatarURL = uc_AvatarURL params,
                 us_Status = UserStatusActive, us_LastLoginDate = time_zero, us_CreatedAt = time_zero,
                 us_UpdatedAt = time_zero, us_Roles = None, us_Provider = uc_Provider params,
                 us_ProviderUserID = uc_ProviderUserID params, us_PasswordHash = passwordHash\<rparr>))"

definition FormatID :: "user \<Rightarrow> string" where
  "FormatID u = ''usr_'' @ us_ID u"

definition SetLastLoginDate :: "time \<Rightarrow> time \<Rightarrow> user \<Rightarrow> user" where
  "SetLastLoginDate now1 now2 u = u\<lparr>us_LastLoginDate := now1, us_UpdatedAt := now2\<rparr>"

definition SetPassword :: "user_env \<Rightarrow> string option \<Rightarrow> time \<Rightarrow> string \<Rightarrow> user \<Rightarrow> user_error + user" where
  "SetPassword env salt now password u =
     (case Errors (CheckString ''password'' password [ValidPassword env] New_validator) of
        Some errs \<Rightarrow> Inl (UserValidation errs)
      | None \<Rightarrow>
          (case Hash (ue_argon env) salt password of
             Inl err \<Rightarrow> Inl (HashFailed err)
           | Inr hashedPassword \<Rightarrow> Inr (u\<lparr>us_PasswordHash := hashedPassword, us_UpdatedAt := now\<rparr>)))"

definition ValidatePasswordHash :: "user_env \<Rightarrow> string \<Rightarrow> user \<Rightarrow> hash_error + bool" where
  "ValidatePasswordHash env password u = Verify (ue_argon env) password (us_PasswordHash u)"

record user_update_params =
  uu_Email :: "string option"
  uu_FirstName :: "string option"
  uu_LastName :: "string option"
  uu_Phone :: "string option"
  uu_Status :: "string option"
  uu_AvatarURL :: "string option"
  uu_Provider :: "string option"
  uu_ProviderUserID :: "string option"
  uu_LastLoginDate :: "string option"

definition user_update_Validate :: "user_env \<Rightarrow> user_update_params \<Rightarrow> validation_errors option" where
  "user_update_Validate env u =
     Errors
       (CheckOptionalString ''last_login_date'' (uu_LastLoginDate u) [is_RFC3339Time env]
       (CheckOptionalString ''provider_user_id'' (uu_ProviderUserID u) []
       (CheckOptionalString ''provider'' (uu_Provider u) []
       (CheckOptionalString ''avatar_url'' (uu_AvatarURL u) [is_URL env]
       (CheckOptionalString ''status'' (uu_Status u) [IsValidStatus]
       (CheckOptionalString ''phone'' (uu_Phone u) [ValidPhoneNumber]
       (CheckOptionalString ''last_name'' (uu_LastName u) [is_Length 1 255]
       (CheckOptionalString ''first_name'' (uu_FirstName u) [is_Length 1 255]
       (CheckOptionalString ''email'' (uu_Email u) [is_Email] New_validator)))))))))"

text \<open>Whether any field was assigned, and the user after the assignments.\<close>

definition applyUpdates :: "user_update_params \<Rightarrow> user \<Rightarrow> bool \<times> user" where
  "applyUpdates params u =
     (let updated = uu_Email params \<noteq> None \<or> uu_FirstName params \<noteq> None \<or> uu_LastName params \<noteq> None \<or> uu_Phone params \<noteq> None;
          u1 = (case uu_Email params of None \<Rightarrow> u | Some v \<Rightarrow> u\<lparr>us_Email := v\<rparr>);
          u2 = (case uu_FirstName params of None \<Rightarrow> u1 | Some v \<Rightarrow> u1\<lparr>us_FirstName := v\<rparr>);
          u3 = (case uu_LastName params of None \<Rightarrow> u2 | Some v \<Rightarrow> u2\<lparr>us_LastName := v\<rparr>);
          u4 = (case uu_Phone params of None \<Rightarrow> u3 | Some v \<Rightarrow> u3\<lparr>us_Phone := v\<rparr>)
      in case uu_Status params of
           None \<Rightarrow> (updated, u4)
         | Some s \<Rightarrow>
             (case StatusFromString s of
                None \<Rightarrow> (False, u4)
              | Some status \<Rightarrow> (True, u4\<lparr>us_Status := status\<rparr>)))"

definition User_Update :: "user_env \<Rightarrow> time \<Rightarrow> user_update_params option \<Rightarrow> user \<Rightarrow> user_error + user" where
  "User_Update env now params u =
     (case params of
        None \<Rightarrow> Inl ErrNilUpdateParams
      | Some params \<Rightarrow>
          (case user_update_Validate env params of
             Some errs \<Rightarrow> Inl (UserValidation errs)
           | None \<Rightarrow>
               (case applyUpdates params u of
                  (False, _) \<Rightarrow> Inl ErrNoChangesProvided
                | (True, u') \<Rightarrow> Inr (u'\<lparr>us_UpdatedAt := now\<rparr>))))"

section \<open>The service\<close>

text \<open>The repository: a returned \<open>None\<close> is the nil pointer.\<close>

record 'r user_repo =
  ur_Create :: "user \<Rightarrow> 'r \<Rightarrow> (user_error + user) \<times> 'r"
  ur_GetByID :: "uuid \<Rightarrow> 'r \<Rightarrow> user_error + user option"
  ur_GetByEmail :: "string \<Rightarrow> 'r \<Rightarrow> user_error + user option"
  ur_GetUserByProviderUserID :: "string \<Rightarrow> string \<Rightarrow> 'r \<Rightarrow> user_error + user option"
  ur_Update :: "uuid \<Rightarrow> user \<Rightarrow> 'r \<Rightarrow> (user_error + user) \<times> 'r"
  ur_Delete :: "uuid \<Rightarrow> 'r \<Rightarrow> user_error option \<times> 'r"
  ur_ListAll :: "int \<Rightarrow> int \<Rightarrow> 'r \<Rightarrow> user_error + user list"
  ur_SetLastLoginDate :: "time \<Rightarrow> uuid \<Rightarrow> 'r \<Rightarrow> user_error option \<times> 'r"

definition HasUserPrefix :: "string \<Rightarrow> bool" where
  "HasUserPrefix i \<longleftrightarrow> HasPrefix i ''usr_''"

definition TrimUserPrefix :: "user_env \<Rightarrow> string \<Rightarrow> user_error + uuid" where
  "TrimUserPrefix env i =
     (if \<not> HasUserPrefix i then Inl ErrInvalidUserPrefix
      else (case ue_parse env (TrimPrefix i ''usr_'') of None \<Rightarrow> Inl InvalidUserUUID | Some uid \<Rightarrow> Inr uid))"

definition IsValidEmail :: "string \<Rightarrow> bool" where
  "IsValidEmail email \<longleftrightarrow> Contains email ''@''"

definition Create :: "user_env \<Rightarrow> 'r user_repo \<Rightarrow> string option \<Rightarrow> uuid \<Rightarrow> user_create_params \<Rightarrow> 'r \<Rightarrow> (user_error + user) \<times> 'r" where
  "Create env repo salt newID params r =
     (case user_create_Validate env params of
        Some errs \<Rightarrow> (Inl (UserValidation errs), r)
      | None \<Rightarrow>
          (case ur_GetByEmail repo (uc_Email params) r of
             Inl err \<Rightarrow> (Inl err, r)
           | Inr (Some existingUser) \<Rightarrow> (Inl ErrUserAlreadyExists, r)
           | Inr None \<Rightarrow>
               (case NewUser env salt newID params of
                  Inl err \<Rightarrow> (Inl err, r)
                | Inr newUser \<Rightarrow> ur_Create repo newUser r)))"

definition GetByID :: "user_env \<Rightarrow> 'r user_repo \<Rightarrow> string \<Rightarrow> 'r \<Rightarrow> user_error + user option" where
  "GetByID env repo i r =
     (case TrimUserPrefix env i of Inl err \<Rightarrow> Inl err | Inr uid \<Rightarrow> ur_GetByID repo uid r)"

definition GetByEmail :: "'r user_repo \<Rightarrow> string \<Rightarrow> 'r \<Rightarrow> user_error + user option" where
  "GetByEmail repo email r = (if \<not> IsValidEmail email then Inl InvalidEmail else ur_GetByEmail repo email r)"

definition Update :: "user_env \<Rightarrow> 'r user_repo \<Rightarrow> time \<Rightarrow> string \<Rightarrow> user_update_params \<Rightarrow> 'r \<Rightarrow> (user_error + user) \<times> 'r" where
  "Update env repo now i params r =
     (case TrimUserPrefix env i of
        Inl err \<Rightarrow> (Inl err, r)
      | Inr uid \<Rightarrow>
          (case user_update_Validate env params of
             Some errs \<Rightarrow> (Inl (UserValidation errs), r)
           | None \<Rightarrow>
               (case ur_GetByID repo uid r of
                  Inl err \<Rightarrow> (Inl err, r)
                | Inr None \<Rightarrow> (Inl ErrUserNotFound, r)
                | Inr (Some existingUser) \<Rightarrow>
                    (case User_Update env now (Some params) existingUser of
                       Inl err \<Rightarrow> (Inl err, r)
                     | Inr existingUser' \<Rightarrow> ur_Update repo uid existingUser' r))))"

definition Delete :: "user_env \<Rightarrow> 'r user_repo \<Rightarrow> string \<Rightarrow> 'r \<Rightarrow> user_error option \<times> 'r" where
  "Delete env repo i r =
     (case TrimUserPrefix env i of Inl err \<Rightarrow> (Some err, r) | Inr uid \<Rightarrow> ur_Delete repo uid r)"

definition ListAll :: "'r user_repo \<Rightarrow> int \<Rightarrow> int \<Rightarrow> 'r \<Rightarrow> user_error + user list" where
  "ListAll repo page pageSize r = ur_ListAll repo page pageSize r"

definition service_SetLastLoginDate :: "user_env \<Rightarrow> 'r user_repo \<Rightarrow> time \<Rightarrow> string \<Rightarrow> 'r \<Rightarrow> user_error option \<times> 'r" where
  "service_SetLastLoginDate env repo now i r =
     (case TrimUserPrefix env i of Inl err \<Rightarrow> (Some err, r) | Inr uid \<Rightarrow> ur_SetLastLoginDate repo now uid r)"

definition GetUserByProviderUserID :: "'r user_repo \<Rightarrow> string \<Rightarrow> string \<Rightarrow> 'r \<Rightarrow> user_error + user option" where
  "GetUserByProviderUserID repo provider providerUserID r = ur_GetUserByProviderUserID repo provider providerUserID r"

section \<open>Validation\<close>

lemma CheckOptionalString_Nil [validation]:
  "CheckOptionalString f s checks v = [] \<longleftrightarrow> v = [] \<and> (\<forall>x. s = Some x \<longrightarrow> (\<forall>c \<in> set checks. c x = None))"
  by (auto simp: CheckOptionalString_def CheckString_Nil split: option.splits)

lemma user_create_Validate_None:
  "user_create_Validate env u = None \<longleftrightarrow>
     is_Email (uc_Email u) = None \<and> 1 \<le> length (uc_FirstName u) \<and> length (uc_FirstName u) \<le> 50
     \<and> 1 \<le> length (uc_LastName u) \<and> length (uc_LastName u) \<le> 50
     \<and> ValidPhoneNumber (uc_Phone u) = None \<and> (\<forall>pw. uc_Password u = Some pw \<longrightarrow> ValidPassword env pw = None)"
  unfolding user_create_Validate_def Errors_None
  by (simp add: CheckString_Nil CheckOptionalString_Nil is_Length_None New_validator_Nil)

lemma Contains_append: "Contains (s @ c # t) [c]"
  by (induction s) simp_all

lemma email_has_at: "is_Email s = None \<Longrightarrow> IsValidEmail s"
proof -
  assume "is_Email s = None"
  then have e: "email_pattern s" by (simp add: is_Email_def split: if_splits)
  show ?thesis
  proof (cases rule: SplitN2_cases [of "CHR ''@''" s])
    case 1
    with e show ?thesis by (simp add: email_pattern_def)
  next
    case (2 w r)
    then show ?thesis by (simp add: IsValidEmail_def Contains_append)
  qed
qed

lemma empty_phone: "ValidPhoneNumber [] \<noteq> None"
  by (simp add: ValidPhoneNumber_def ValidateAndFormatPhoneNumber_def is_digit_def)

lemma StatusFromString_valid:
  "StatusFromString s = Some st \<Longrightarrow> st \<in> {''active'', ''inactive'', ''locked'', ''deleted''}"
  by (auto simp: StatusFromString_def status_defs Let_def split: if_splits)

lemma TrimUserPrefix_FormatID: "ue_parse env (us_ID u) = Some (us_ID u) \<Longrightarrow> TrimUserPrefix env (FormatID u) = Inr (us_ID u)"
  using TrimPrefix_append [of "''usr_''" "us_ID u"] HasPrefix_append [of "''usr_''" "us_ID u"]
  by (simp add: TrimUserPrefix_def HasUserPrefix_def FormatID_def del: TrimPrefix_append HasPrefix_append)

section \<open>The repository contract\<close>

text \<open>
  \<open>view\<close> is the user stored under an ID, as it is read back; \<open>emails\<close> are the addresses taken; \<open>up\<close> says
  that the database answers. A failing operation leaves the state as it was.
\<close>

definition as_stored :: "user \<Rightarrow> user" where
  "as_stored u = u\<lparr>us_Roles := Some [], us_ProviderUserID := None\<rparr>"

locale user_repository =
  fixes repo :: "'r user_repo"
    and inv :: "'r \<Rightarrow> bool"
    and up :: "'r \<Rightarrow> bool"
    and emails :: "'r \<Rightarrow> string set"
    and view :: "'r \<Rightarrow> uuid \<Rightarrow> user option"
  assumes create_ok: "inv r \<Longrightarrow> ur_Create repo u r = (Inr u', r') \<Longrightarrow>
      inv r' \<and> up r' = up r \<and> u' = u \<and> emails r' = insert (us_Email u) (emails r)
      \<and> view r' = (view r)(us_ID u \<mapsto> as_stored u)"
    and create_err: "ur_Create repo u r = (Inl err, r') \<Longrightarrow> r' = r"
    and by_id: "inv r \<Longrightarrow> up r \<Longrightarrow> view r i = Some u \<Longrightarrow> ur_GetByID repo i r = Inr (Some u)"
    and by_id_view: "inv r \<Longrightarrow> ur_GetByID repo i r = Inr res \<Longrightarrow> res = view r i \<and> res \<noteq> None"
    and by_email: "inv r \<Longrightarrow> up r \<Longrightarrow> view r i = Some u \<Longrightarrow> ur_GetByEmail repo (us_Email u) r = Inr (Some u)"
    and by_email_view: "inv r \<Longrightarrow> ur_GetByEmail repo e r = Inr (Some u) \<Longrightarrow> view r (us_ID u) = Some u \<and> us_Email u = e"
    and by_email_none: "inv r \<Longrightarrow> ur_GetByEmail repo e r = Inr None \<longleftrightarrow> up r \<and> e \<notin> emails r"
    and delete_ok: "inv r \<Longrightarrow> ur_Delete repo i r = (None, r') \<Longrightarrow> inv r' \<and> up r' = up r \<and> view r' = (view r)(i := None)"
    and delete_err: "ur_Delete repo i r = (Some err, r') \<Longrightarrow> r' = r"
    and view_id: "view r i = Some u \<Longrightarrow> us_ID u = i"
begin

lemma Create_ok:
  assumes "inv r" "Create env repo salt newID params r = (Inr u, r')"
  shows "inv r' \<and> up r' \<and> up r \<and> NewUser env salt newID params = Inr u \<and> uc_Email params \<notin> emails r
    \<and> emails r' = insert (us_Email u) (emails r) \<and> view r' = (view r)(us_ID u \<mapsto> as_stored u)"
proof -
  from assms(2) obtain newUser where n: "ur_GetByEmail repo (uc_Email params) r = Inr None"
      "NewUser env salt newID params = Inr newUser" "ur_Create repo newUser r = (Inr u, r')"
    by (auto simp: Create_def split: option.splits sum.splits)
  with create_ok [OF assms(1) n(3)] by_email_none [OF assms(1)] show ?thesis by simp
qed

lemma Create_err: "Create env repo salt newID params r = (Inl err, r') \<Longrightarrow> r' = r"
  using create_err by (auto simp: Create_def split: option.splits sum.splits)

lemma Create_taken:
  assumes "inv r" "up r" "view r i = Some u" "us_Email u = uc_Email params" "user_create_Validate env params = None"
  shows "Create env repo salt newID params r = (Inl ErrUserAlreadyExists, r)"
  using by_email [OF assms(1-3)] assms(4,5) by (simp add: Create_def)

text \<open>A user that was created is found by ID and by address, and the password given is accepted.\<close>

lemma Create_found:
  assumes "inv r" "Create env repo salt newID params r = (Inr u, r')" "ue_parse env newID = Some newID"
  shows "GetByID env repo (FormatID u) r' = Inr (Some (as_stored u)) \<and> GetByEmail repo (uc_Email params) r' = Inr (Some (as_stored u))"
proof -
  note c = Create_ok [OF assms(1,2)]
  then have u: "us_ID u = newID" "us_Email u = uc_Email params" "IsValidEmail (uc_Email params)"
    by (auto simp: NewUser_def user_create_Validate_None email_has_at split: option.splits sum.splits)
  have v: "view r' newID = Some (as_stored u)" using c u by simp
  have "us_Email (as_stored u) = uc_Email params" using u by (simp add: as_stored_def)
  then have "ur_GetByEmail repo (uc_Email params) r' = Inr (Some (as_stored u))"
    using by_email [OF _ _ v] c by simp
  moreover have "ur_GetByID repo newID r' = Inr (Some (as_stored u))" using by_id [OF _ _ v] c by simp
  ultimately show ?thesis
    using u assms(3) TrimUserPrefix_FormatID [of env u] by (simp add: GetByID_def GetByEmail_def)
qed

end

text \<open>The password of a new user is the one that its hash accepts.\<close>

lemma NewUser_password:
  assumes "NewUser env salt newID params = Inr u" "argon2_laws (ue_argon env)"
    and "uc_Password params = Some pw" "pw \<noteq> []" "uc_Provider params = AuthProviderPassword"
  shows "ValidatePasswordHash env pw u = Inr True"
proof (cases salt)
  case None
  with assms show ?thesis by (auto simp: NewUser_def new_password_hash_def Hash_def split: option.splits)
next
  case (Some s)
  with assms obtain h where h: "Hash (ue_argon env) (Some s) pw = Inr h" "us_PasswordHash u = h"
    by (auto simp: NewUser_def new_password_hash_def split: option.splits sum.splits)
  with Verify_Hash [OF assms(2) h(1), of pw] show ?thesis by (simp add: ValidatePasswordHash_def)
qed

end
