(* ===== verification/UserStore.thy ===== *)
theory UserStore
  imports Users
begin

text \<open>
  The Postgres repository of users (\<open>aegis/internal/adapters/postgres/user_repository.go\<close>): its queries
  on the tables \<open>users\<close>, \<open>roles\<close>, \<open>user_roles\<close> and \<open>user_tenant_memberships\<close> with the constraints of the
  schema. It keeps the contract \<open>user_repository\<close>, with the interpretation \<open>pg_users\<close>. Its \<open>Update\<close> reads
  the single role of a tenant as if it were a list of roles, and so fails for every user that has a role
  (\<open>update_fails_with_roles\<close>).
\<close>

section \<open>Tables\<close>

record user_row =
  uw_id :: uuid
  uw_email :: string
  uw_first_name :: string
  uw_last_name :: string
  uw_phone :: string
  uw_status :: string
  uw_last_login_date :: time
  uw_avatar_url :: string
  uw_auth_provider :: string
  uw_provider_user_id :: "string option"
  uw_password_hash :: string
  uw_created_at :: time
  uw_updated_at :: time

text \<open>
  \<open>ud_roles\<close>: the rows of \<open>roles\<close> as IDs and names; \<open>ud_user_roles\<close>: user, role and tenant;
  \<open>ud_members\<close>: user and tenant. The triggers that set \<open>updated_at\<close> are left out.
\<close>

record user_db =
  ud_users :: "user_row list"
  ud_roles :: "(uuid \<times> string) list"
  ud_user_roles :: "(uuid \<times> uuid \<times> uuid) list"
  ud_members :: "(uuid \<times> uuid) list"
  ud_tenants :: "uuid list"
  ud_up :: bool

text \<open>Limits and checks of the columns; a length is counted in characters.\<close>

definition column_ok :: "user_env \<Rightarrow> nat \<Rightarrow> string \<Rightarrow> bool" where
  "column_ok env n s \<longleftrightarrow> length (ue_classes env s) \<le> n"

definition row_ok :: "user_env \<Rightarrow> user_row \<Rightarrow> bool" where
  "row_ok env row \<longleftrightarrow>
     column_ok env 255 (uw_email row) \<and> column_ok env 50 (uw_first_name row) \<and> column_ok env 50 (uw_last_name row)
     \<and> column_ok env 50 (uw_phone row)
     \<and> uw_status row \<in> {''active'', ''inactive'', ''locked'', ''deleted''}
     \<and> uw_auth_provider row \<in> {''password'', ''google'', ''github'', ''microsoft'', ''apple'', ''facebook'',
          ''twitter'', ''saml'', ''oidc''}"

section \<open>Queries\<close>

definition insert_row :: "user \<Rightarrow> user_row" where
  "insert_row u =
     \<lparr>uw_id = us_ID u, uw_email = us_Email u, uw_first_name = us_FirstName u, uw_last_name = us_LastName u,
      uw_phone = us_Phone u, uw_status = us_Status u, uw_last_login_date = us_LastLoginDate u,
      uw_avatar_url = us_AvatarURL u, uw_auth_provider = us_Provider u, uw_provider_user_id = None,
      uw_password_hash = us_PasswordHash u, uw_created_at = us_CreatedAt u, uw_updated_at = us_UpdatedAt u\<rparr>"

definition pg_Create :: "user_env \<Rightarrow> user \<Rightarrow> user_db \<Rightarrow> (user_error + user) \<times> user_db" where
  "pg_Create env u db =
     (let row = insert_row u
      in if ud_up db \<and> row_ok env row \<and> (\<forall>row' \<in> set (ud_users db). uw_id row' \<noteq> uw_id row \<and> uw_email row' \<noteq> uw_email row)
         then (Inr u, db\<lparr>ud_users := ud_users db @ [row]\<rparr>)
         else (Inl UserDb, db))"

text \<open>The joined rows of a user: tenant and name of the role, in the order of the table.\<close>

fun role_join :: "uuid \<Rightarrow> (uuid \<times> string) list \<Rightarrow> (uuid \<times> uuid \<times> uuid) list \<Rightarrow> (uuid \<times> string) list" where
  "role_join i roles [] = []"
| "role_join i roles ((user_id, role_id, tenant_id) # urs) =
     (if user_id = i then map (\<lambda>role. (tenant_id, snd role)) (filter (\<lambda>role. fst role = role_id) roles) else [])
     @ role_join i roles urs"

definition role_rows :: "uuid \<Rightarrow> user_db \<Rightarrow> (uuid \<times> string) list" where
  "role_rows i db = role_join i (ud_roles db) (ud_user_roles db)"

fun read_roles :: "(uuid \<times> string) list \<Rightarrow> (uuid, user_role) gomap \<Rightarrow> user_error + (uuid, user_role) gomap" where
  "read_roles [] roleMap = Inr roleMap"
| "read_roles ((tenantID, roleName) # rows) roleMap =
     (case RoleFromString roleName of
        Inl _ \<Rightarrow> Inl (InvalidRoleName roleName)
      | Inr roleObj \<Rightarrow> read_roles rows (mput tenantID roleObj roleMap))"

definition pg_GetRoles :: "uuid \<Rightarrow> user_db \<Rightarrow> user_error + (uuid, user_role) gomap" where
  "pg_GetRoles i db = (if \<not> ud_up db then Inl UserDb else read_roles (role_rows i db) [])"

definition scan_user :: "user_row \<Rightarrow> (uuid, user_role) gomap \<Rightarrow> user" where
  "scan_user row roleMap =
     \<lparr>us_ID = uw_id row, us_Email = uw_email row, us_FirstName = uw_first_name row, us_LastName = uw_last_name row,
      us_Phone = uw_phone row, us_AvatarURL = uw_avatar_url row, us_Status = uw_status row,
      us_LastLoginDate = uw_last_login_date row, us_CreatedAt = uw_created_at row, us_UpdatedAt = uw_updated_at row,
      us_Roles = Some roleMap, us_Provider = uw_auth_provider row, us_ProviderUserID = None,
      us_PasswordHash = uw_password_hash row\<rparr>"

text \<open>A row that was read, completed with the roles of its user.\<close>

definition with_roles :: "user_row \<Rightarrow> user_db \<Rightarrow> user_error + user" where
  "with_roles row db =
     (case pg_GetRoles (uw_id row) db of Inl err \<Rightarrow> Inl err | Inr roleMap \<Rightarrow> Inr (scan_user row roleMap))"

definition pg_GetByID :: "uuid \<Rightarrow> user_db \<Rightarrow> user_error + user option" where
  "pg_GetByID i db =
     (if \<not> ud_up db then Inl UserDb
      else (case find (\<lambda>row. uw_id row = i) (ud_users db) of
              None \<Rightarrow> Inl UserNoRows
            | Some row \<Rightarrow> (case with_roles row db of Inl err \<Rightarrow> Inl err | Inr u \<Rightarrow> Inr (Some u))))"

definition pg_GetByEmail :: "string \<Rightarrow> user_db \<Rightarrow> user_error + user option" where
  "pg_GetByEmail email db =
     (if \<not> ud_up db then Inl UserDb
      else (case find (\<lambda>row. uw_email row = email) (ud_users db) of
              None \<Rightarrow> Inr None
            | Some row \<Rightarrow> (case with_roles row db of Inl err \<Rightarrow> Inl err | Inr u \<Rightarrow> Inr (Some u))))"

definition pg_GetUserByProviderUserID :: "string \<Rightarrow> string \<Rightarrow> user_db \<Rightarrow> user_error + user option" where
  "pg_GetUserByProviderUserID provider providerUserID db =
     (if \<not> ud_up db then Inl UserDb
      else (case find (\<lambda>row. uw_auth_provider row = provider \<and> uw_provider_user_id row = Some providerUserID) (ud_users db) of
              None \<Rightarrow> Inl UserNoRows
            | Some row \<Rightarrow> (case with_roles row db of Inl err \<Rightarrow> Inl err | Inr u \<Rightarrow> Inr (Some u))))"

fun all_with_roles :: "user_row list \<Rightarrow> user_db \<Rightarrow> user_error + user list" where
  "all_with_roles [] db = Inr []"
| "all_with_roles (row # rows) db =
     (case with_roles row db of
        Inl err \<Rightarrow> Inl err
      | Inr u \<Rightarrow> (case all_with_roles rows db of Inl err \<Rightarrow> Inl err | Inr us \<Rightarrow> Inr (u # us)))"

text \<open>\<open>ORDER BY created_at DESC LIMIT pageSize OFFSET page * pageSize\<close>; negative values are refused.\<close>

definition select_users :: "int \<Rightarrow> int \<Rightarrow> user_row list \<Rightarrow> user_db \<Rightarrow> user_error + user list" where
  "select_users page pageSize rows db =
     (if \<not> ud_up db \<or> pageSize < 0 \<or> page * pageSize < 0 then Inl UserDb
      else all_with_roles (take (nat pageSize) (drop (nat (page * pageSize)) (sort_key (\<lambda>row. - uw_created_at row) rows))) db)"

definition pg_ListAll :: "int \<Rightarrow> int \<Rightarrow> user_db \<Rightarrow> user_error + user list" where
  "pg_ListAll page pageSize db = select_users page pageSize (ud_users db) db"

definition pg_GetByOrganizationID :: "uuid \<Rightarrow> int \<Rightarrow> int \<Rightarrow> user_db \<Rightarrow> user_error + user list" where
  "pg_GetByOrganizationID organizationID page pageSize db =
     select_users page pageSize
       (concat (map (\<lambda>row. map (\<lambda>_. row) (filter (\<lambda>(uid, tid). uid = uw_id row \<and> tid = organizationID) (ud_members db)))
         (ud_users db))) db"

definition pg_Delete :: "uuid \<Rightarrow> user_db \<Rightarrow> user_error option \<times> user_db" where
  "pg_Delete i db =
     (if \<not> ud_up db then (Some UserDb, db)
      else if \<forall>row \<in> set (ud_users db). uw_id row \<noteq> i then (Some ErrUserNotFound, db)
      else (None, db\<lparr>ud_users := filter (\<lambda>row. uw_id row \<noteq> i) (ud_users db),
                     ud_user_roles := filter (\<lambda>(uid, rid, tid). uid \<noteq> i) (ud_user_roles db),
                     ud_members := filter (\<lambda>(uid, tid). uid \<noteq> i) (ud_members db)\<rparr>))"

definition pg_SetLastLoginDate :: "time \<Rightarrow> uuid \<Rightarrow> user_db \<Rightarrow> user_error option \<times> user_db" where
  "pg_SetLastLoginDate now i db =
     (if \<not> ud_up db then (Some UserDb, db)
      else (None, db\<lparr>ud_users := map (\<lambda>row. if uw_id row = i then row\<lparr>uw_last_login_date := now\<rparr> else row) (ud_users db)\<rparr>))"

definition role_named :: "string \<Rightarrow> user_db \<Rightarrow> uuid option" where
  "role_named name db = map_option fst (find (\<lambda>(rid, n). n = name) (ud_roles db))"

definition user_role_ok :: "uuid \<Rightarrow> uuid \<Rightarrow> user_db \<Rightarrow> bool" where
  "user_role_ok i tenantID db \<longleftrightarrow> (\<exists>row \<in> set (ud_users db). uw_id row = i) \<and> tenantID \<in> set (ud_tenants db)"

definition pg_AddRoleToTenant :: "uuid \<Rightarrow> uuid \<Rightarrow> string \<Rightarrow> user_db \<Rightarrow> user_error option \<times> user_db" where
  "pg_AddRoleToTenant i tenantID role db =
     (if \<not> ud_up db then (Some UserDb, db)
      else (case role_named role db of
              None \<Rightarrow> (Some RoleNotFound, db)
            | Some roleID \<Rightarrow>
                if \<not> user_role_ok i tenantID db then (Some UserDb, db)
                else if (i, roleID, tenantID) \<in> set (ud_user_roles db) then (None, db)
                else (None, db\<lparr>ud_user_roles := ud_user_roles db @ [(i, roleID, tenantID)]\<rparr>)))"

definition pg_RemoveRoleFromTenant :: "uuid \<Rightarrow> uuid \<Rightarrow> string \<Rightarrow> user_db \<Rightarrow> user_error option \<times> user_db" where
  "pg_RemoveRoleFromTenant i tenantID role db =
     (if \<not> ud_up db then (Some UserDb, db)
      else (case role_named role db of
              None \<Rightarrow> (Some RoleNotFound, db)
            | Some roleID \<Rightarrow>
                (None, db\<lparr>ud_user_roles := filter (\<lambda>ur. ur \<noteq> (i, roleID, tenantID)) (ud_user_roles db)\<rparr>)))"

section \<open>The update transaction\<close>

definition set_row :: "user \<Rightarrow> user_row \<Rightarrow> user_row" where
  "set_row u row =
     row\<lparr>uw_email := us_Email u, uw_first_name := us_FirstName u, uw_last_name := us_LastName u, uw_phone := us_Phone u,
         uw_status := us_Status u, uw_last_login_date := us_LastLoginDate u, uw_avatar_url := us_AvatarURL u,
         uw_auth_provider := us_Provider u, uw_password_hash := us_PasswordHash u, uw_updated_at := us_UpdatedAt u\<rparr>"

definition update_ok :: "user_env \<Rightarrow> uuid \<Rightarrow> user \<Rightarrow> user_db \<Rightarrow> bool" where
  "update_ok env i u db \<longleftrightarrow>
     (\<forall>row \<in> set (ud_users db). if uw_id row = i then row_ok env (set_row u row) else True)
     \<and> ((\<exists>row \<in> set (ud_users db). uw_id row = i) \<longrightarrow>
          (\<forall>row \<in> set (ud_users db). uw_id row \<noteq> i \<longrightarrow> uw_email row \<noteq> us_Email u))"

text \<open>
  \<open>for _, role := range rolesSlice\<close> over the role of one tenant, which is a string: the loop runs over its
  characters. \<open>pass\<close> is how the driver passes a character as the text of a query, if it does.
\<close>

fun insert_roles :: "(char \<Rightarrow> string option) \<Rightarrow> uuid \<Rightarrow> uuid \<Rightarrow> string \<Rightarrow> user_db \<Rightarrow> user_error + user_db" where
  "insert_roles pass i tenantID [] db = Inr db"
| "insert_roles pass i tenantID (role # rolesSlice) db =
     (case pass role of
        None \<Rightarrow> Inl UserDb
      | Some name \<Rightarrow>
          (case role_named name db of
             None \<Rightarrow> Inl RoleNotFound
           | Some roleID \<Rightarrow>
               if \<not> user_role_ok i tenantID db \<or> (i, roleID, tenantID) \<in> set (ud_user_roles db) then Inl UserDb
               else insert_roles pass i tenantID rolesSlice
                      (db\<lparr>ud_user_roles := ud_user_roles db @ [(i, roleID, tenantID)]\<rparr>)))"

text \<open>The loop over the role map, in the given order of its tenants.\<close>

fun reinsert :: "(char \<Rightarrow> string option) \<Rightarrow> uuid \<Rightarrow> role_map \<Rightarrow> uuid list \<Rightarrow> user_db \<Rightarrow> user_error + user_db" where
  "reinsert pass i roles [] db = Inr db"
| "reinsert pass i roles (tenantID # order) db =
     (case role_get roles tenantID of
        None \<Rightarrow> reinsert pass i roles order db
      | Some rolesSlice \<Rightarrow>
          (case insert_roles pass i tenantID rolesSlice db of
             Inl err \<Rightarrow> Inl err
           | Inr db' \<Rightarrow> reinsert pass i roles order db'))"

text \<open>
  \<open>commit\<close>: whether the commit of the deferred function succeeds; its error does not reach the caller,
  since the results of the function are not named.
\<close>

definition pg_Update ::
  "user_env \<Rightarrow> (char \<Rightarrow> string option) \<Rightarrow> uuid list \<Rightarrow> bool \<Rightarrow> uuid \<Rightarrow> user \<Rightarrow> user_db \<Rightarrow> (user_error + user) \<times> user_db" where
  "pg_Update env pass order commit i u db =
     (if \<not> ud_up db \<or> \<not> update_ok env i u db then (Inl UserDb, db)
      else let db1 = db\<lparr>ud_users := map (\<lambda>row. if uw_id row = i then set_row u row else row) (ud_users db)\<rparr>;
               db2 = db1\<lparr>ud_user_roles := filter (\<lambda>(uid, rid, tid). uid \<noteq> i) (ud_user_roles db1)\<rparr>
           in case reinsert pass i (us_Roles u) order db2 of
                Inl err \<Rightarrow> (Inl err, db)
              | Inr db3 \<Rightarrow> (Inr u, if commit then db3 else db))"

definition pg_user_repo :: "user_env \<Rightarrow> (char \<Rightarrow> string option) \<Rightarrow> uuid list \<Rightarrow> bool \<Rightarrow> user_db user_repo" where
  "pg_user_repo env pass order commit =
     \<lparr>ur_Create = pg_Create env, ur_GetByID = pg_GetByID, ur_GetByEmail = pg_GetByEmail,
      ur_GetUserByProviderUserID = pg_GetUserByProviderUserID, ur_Update = pg_Update env pass order commit,
      ur_Delete = pg_Delete, ur_ListAll = pg_ListAll, ur_SetLastLoginDate = pg_SetLastLoginDate\<rparr>"

section \<open>The tables keep the contract\<close>

definition user_inv :: "user_db \<Rightarrow> bool" where
  "user_inv db \<longleftrightarrow> distinct (map uw_id (ud_users db)) \<and> distinct (map uw_email (ud_users db))
     \<and> (\<forall>(uid, rid, tid) \<in> set (ud_user_roles db). uid \<in> uw_id ` set (ud_users db))"

definition user_emails :: "user_db \<Rightarrow> string set" where
  "user_emails db = uw_email ` set (ud_users db)"

definition resolve :: "user_db \<Rightarrow> user_row \<Rightarrow> user option" where
  "resolve db row = (case read_roles (role_rows (uw_id row) db) [] of Inl err \<Rightarrow> None | Inr m \<Rightarrow> Some (scan_user row m))"

definition user_view :: "user_db \<Rightarrow> uuid \<Rightarrow> user option" where
  "user_view db i = Option.bind (find (\<lambda>row. uw_id row = i) (ud_users db)) (resolve db)"

lemma with_roles_resolve: "ud_up db \<Longrightarrow> with_roles row db = Inr u \<longleftrightarrow> resolve db row = Some u"
  by (simp add: with_roles_def pg_GetRoles_def resolve_def split: sum.splits)

lemma resolve_SomeD: "resolve db row = Some u \<Longrightarrow> \<exists>m. read_roles (role_rows (uw_id row) db) [] = Inr m \<and> u = scan_user row m"
  by (simp add: resolve_def split: sum.splits)

lemma resolve_sel: "resolve db row = Some u \<Longrightarrow> us_ID u = uw_id row \<and> us_Email u = uw_email row"
  by (auto simp: resolve_def scan_user_def split: sum.splits)

lemma user_view_ID: "user_view db i = Some u \<Longrightarrow> us_ID u = i"
  by (auto simp: user_view_def bind_eq_Some_conv dest!: find_SomeD resolve_sel)

lemma user_by_id:
  "user_inv db \<Longrightarrow> find (\<lambda>row. uw_id row = i) (ud_users db) = Some row \<longleftrightarrow> row \<in> set (ud_users db) \<and> uw_id row = i"
  by (rule find_unique [of uw_id]) (auto simp: user_inv_def)

lemma user_by_email:
  "user_inv db \<Longrightarrow> find (\<lambda>row. uw_email row = e) (ud_users db) = Some row \<longleftrightarrow> row \<in> set (ud_users db) \<and> uw_email row = e"
  by (rule find_unique [of uw_email]) (auto simp: user_inv_def)

lemma GetByID_view: "ud_up db \<Longrightarrow> pg_GetByID i db = Inr res \<longleftrightarrow> res = user_view db i \<and> res \<noteq> None"
proof (cases "find (\<lambda>row. uw_id row = i) (ud_users db)")
  case None
  then show ?thesis by (auto simp: pg_GetByID_def user_view_def)
next
  case (Some row)
  assume up: "ud_up db"
  show ?thesis
  proof (cases "with_roles row db")
    case (Inl err)
    then have "resolve db row = None" using with_roles_resolve [OF up, of row] by (metis not_None_eq sum.distinct(1))
    with Inl Some up show ?thesis by (auto simp: pg_GetByID_def user_view_def)
  next
    case (Inr u)
    then have "resolve db row = Some u" by (simp add: with_roles_resolve up)
    with Inr Some up show ?thesis by (auto simp: pg_GetByID_def user_view_def)
  qed
qed

lemma GetByEmail_found:
  "ud_up db \<Longrightarrow> pg_GetByEmail e db = Inr (Some u) \<longleftrightarrow>
     (\<exists>row. find (\<lambda>row. uw_email row = e) (ud_users db) = Some row \<and> resolve db row = Some u)"
  by (auto simp: pg_GetByEmail_def with_roles_resolve [symmetric] split: option.splits sum.splits)

lemma GetByEmail_view:
  assumes "user_inv db" "ud_up db"
  shows "pg_GetByEmail e db = Inr (Some u) \<longleftrightarrow> user_view db (us_ID u) = Some u \<and> us_Email u = e"
  unfolding GetByEmail_found [OF assms(2)] user_view_def bind_eq_Some_conv user_by_email [OF assms(1)] user_by_id [OF assms(1)]
  using resolve_sel by metis

lemma role_rows_unknown:
  assumes "user_inv db" "i \<notin> uw_id ` set (ud_users db)"
  shows "role_rows i db = []"
proof -
  have "i \<notin> fst ` set urs \<Longrightarrow> role_join i roles urs = []" for roles urs
    by (induction i roles urs rule: role_join.induct) auto
  moreover have "i \<notin> fst ` set (ud_user_roles db)" using assms by (force simp: user_inv_def)
  ultimately show ?thesis by (simp add: role_rows_def)
qed

lemma role_join_other: "j \<noteq> i \<Longrightarrow> role_join j roles (filter (\<lambda>(uid, rid, tid). uid \<noteq> i) urs) = role_join j roles urs"
  by (induction j roles urs rule: role_join.induct) auto

lemma create_view:
  assumes "user_inv db" "pg_Create env u db = (Inr u', db')"
  shows "user_inv db' \<and> ud_up db' = ud_up db \<and> u' = u \<and> user_emails db' = insert (us_Email u) (user_emails db)
    \<and> user_view db' = (user_view db)(us_ID u \<mapsto> as_stored u)"
proof -
  from assms(2) have c: "u' = u" "db' = db\<lparr>ud_users := ud_users db @ [insert_row u]\<rparr>"
      "\<forall>row' \<in> set (ud_users db). uw_id row' \<noteq> us_ID u \<and> uw_email row' \<noteq> us_Email u"
    by (auto simp: pg_Create_def Let_def insert_row_def split: if_splits)
  have new: "find (\<lambda>row. uw_id row = us_ID u) (ud_users db) = None" using c(3) by (auto simp: find_None_iff)
  have none: "role_rows (us_ID u) db = []" by (rule role_rows_unknown [OF assms(1)]) (use c(3) in auto)
  have res: "resolve db' = resolve db" by (rule ext) (simp add: resolve_def role_rows_def c(2))
  have "resolve db (insert_row u) = Some (as_stored u)"
    using none by (simp add: resolve_def insert_row_def scan_user_def as_stored_def)
  then have "user_view db' i = ((user_view db)(us_ID u \<mapsto> as_stored u)) i" for i
    by (simp add: user_view_def res) (auto simp: c(2) find_append new insert_row_def split: option.splits)
  moreover have "user_inv db'" using assms(1) c(3) by (fastforce simp: user_inv_def c(2) insert_row_def)
  ultimately show ?thesis using c(1) by (auto simp: c(2) user_emails_def insert_row_def)
qed

lemma delete_view:
  assumes "user_inv db" "pg_Delete i db = (None, db')"
  shows "user_inv db' \<and> ud_up db' = ud_up db \<and> user_view db' = (user_view db)(i := None)"
proof -
  from assms(2) have d: "db' = db\<lparr>ud_users := filter (\<lambda>row. uw_id row \<noteq> i) (ud_users db),
      ud_user_roles := filter (\<lambda>(uid, rid, tid). uid \<noteq> i) (ud_user_roles db),
      ud_members := filter (\<lambda>(uid, tid). uid \<noteq> i) (ud_members db)\<rparr>"
    by (auto simp: pg_Delete_def split: if_splits)
  have rows: "find (\<lambda>row. uw_id row = j) (filter (\<lambda>row. uw_id row \<noteq> i) xs)
      = (if j = i then None else find (\<lambda>row. uw_id row = j) xs)" for j xs
    by (induction xs) auto
  have res: "uw_id row \<noteq> i \<Longrightarrow> resolve db' row = resolve db row" for row
    by (simp add: resolve_def role_rows_def d role_join_other)
  have "user_view db' j = ((user_view db)(i := None)) j" for j
  proof (cases "j = i \<or> find (\<lambda>row. uw_id row = j) (ud_users db) = None")
    case True
    then show ?thesis by (auto simp: user_view_def d rows)
  next
    case False
    then obtain row where "find (\<lambda>row. uw_id row = j) (ud_users db) = Some row" "j \<noteq> i" by auto
    with res [of row] show ?thesis by (auto simp: user_view_def d rows dest: find_SomeD)
  qed
  moreover have "user_inv db'"
    using assms(1) by (auto simp: user_inv_def d distinct_map_filter)
  ultimately show ?thesis by (auto simp: d)
qed

interpretation pg_users: user_repository "pg_user_repo env pass order commit" user_inv ud_up user_emails user_view
  for env pass order commit
proof
  fix db db' :: user_db and i e and u u' :: user and err res
  show "ur_Create (pg_user_repo env pass order commit) u db = (Inr u', db') \<Longrightarrow> user_inv db \<Longrightarrow>
      user_inv db' \<and> ud_up db' = ud_up db \<and> u' = u \<and> user_emails db' = insert (us_Email u) (user_emails db)
      \<and> user_view db' = (user_view db)(us_ID u \<mapsto> as_stored u)"
    using create_view by (simp add: pg_user_repo_def)
  show "ur_Create (pg_user_repo env pass order commit) u db = (Inl err, db') \<Longrightarrow> db' = db"
    by (auto simp: pg_user_repo_def pg_Create_def Let_def split: if_splits)
  show "user_inv db \<Longrightarrow> ud_up db \<Longrightarrow> user_view db i = Some u \<Longrightarrow> ur_GetByID (pg_user_repo env pass order commit) i db = Inr (Some u)"
    by (simp add: pg_user_repo_def GetByID_view)
  show "user_inv db \<Longrightarrow> ur_GetByID (pg_user_repo env pass order commit) i db = Inr res \<Longrightarrow> res = user_view db i \<and> res \<noteq> None"
    using GetByID_view [of db i res] by (cases "ud_up db") (auto simp: pg_user_repo_def pg_GetByID_def)
  show "ur_GetByEmail (pg_user_repo env pass order commit) (us_Email u) db = Inr (Some u)"
    if "user_inv db" "ud_up db" "user_view db i = Some u"
  proof -
    have "us_ID u = i" by (rule user_view_ID [OF that(3)])
    with that show ?thesis by (simp add: pg_user_repo_def GetByEmail_view)
  qed
  show "user_inv db \<Longrightarrow> ur_GetByEmail (pg_user_repo env pass order commit) e db = Inr (Some u) \<Longrightarrow>
      user_view db (us_ID u) = Some u \<and> us_Email u = e"
    using GetByEmail_view [of db e u] by (cases "ud_up db") (auto simp: pg_user_repo_def pg_GetByEmail_def)
  show "ur_GetByEmail (pg_user_repo env pass order commit) e db = Inr None \<longleftrightarrow> ud_up db \<and> e \<notin> user_emails db"
    by (auto simp: pg_user_repo_def pg_GetByEmail_def user_emails_def find_None_iff dest: find_SomeD split: option.splits sum.splits)
  show "user_inv db \<Longrightarrow> ur_Delete (pg_user_repo env pass order commit) i db = (None, db') \<Longrightarrow>
      user_inv db' \<and> ud_up db' = ud_up db \<and> user_view db' = (user_view db)(i := None)"
    using delete_view by (simp add: pg_user_repo_def)
  show "ur_Delete (pg_user_repo env pass order commit) i db = (Some err, db') \<Longrightarrow> db' = db"
    by (auto simp: pg_user_repo_def pg_Delete_def split: if_splits)
  show "user_view db i = Some u \<Longrightarrow> us_ID u = i" by (rule user_view_ID)
qed

section \<open>Well-typed rows\<close>

text \<open>Every state of the tables that the operations of the repository lead to.\<close>

definition tables_ok :: "user_env \<Rightarrow> user_db \<Rightarrow> bool" where
  "tables_ok env db \<longleftrightarrow> user_inv db \<and> (\<forall>row \<in> set (ud_users db). row_ok env row) \<and> distinct (ud_user_roles db)
     \<and> (\<forall>(uid, rid, tid) \<in> set (ud_user_roles db). rid \<in> fst ` set (ud_roles db) \<and> tid \<in> set (ud_tenants db))"

inductive user_reach :: "user_env \<Rightarrow> user_db \<Rightarrow> user_db \<Rightarrow> bool" for env db0 where
  start: "user_reach env db0 db0"
| create: "user_reach env db0 db \<Longrightarrow> user_reach env db0 (snd (pg_Create env u db))"
| update: "user_reach env db0 db \<Longrightarrow> user_reach env db0 (snd (pg_Update env pass order commit i u db))"
| delete: "user_reach env db0 db \<Longrightarrow> user_reach env db0 (snd (pg_Delete i db))"
| login: "user_reach env db0 db \<Longrightarrow> user_reach env db0 (snd (pg_SetLastLoginDate now i db))"
| add_role: "user_reach env db0 db \<Longrightarrow> user_reach env db0 (snd (pg_AddRoleToTenant i tenantID role db))"
| remove_role: "user_reach env db0 db \<Longrightarrow> user_reach env db0 (snd (pg_RemoveRoleFromTenant i tenantID role db))"
| outage: "user_reach env db0 db \<Longrightarrow> user_reach env db0 (db\<lparr>ud_up := b\<rparr>)"

lemma tables_ok_up [simp]: "tables_ok env (db\<lparr>ud_up := b\<rparr>) = tables_ok env db"
  by (simp add: tables_ok_def user_inv_def)

lemma tables_ok_create: "tables_ok env db \<Longrightarrow> tables_ok env (snd (pg_Create env u db))"
  by (fastforce simp: tables_ok_def user_inv_def pg_Create_def Let_def insert_row_def)

lemma tables_ok_delete: "tables_ok env db \<Longrightarrow> tables_ok env (snd (pg_Delete i db))"
  by (auto simp: tables_ok_def user_inv_def pg_Delete_def distinct_map_filter)

text \<open>A change of rows that keeps their IDs.\<close>

lemma tables_ok_map:
  assumes "tables_ok env db" "\<And>row. uw_id (f row) = uw_id row" "distinct (map uw_email (map f (ud_users db)))"
    and "\<And>row. row \<in> set (ud_users db) \<Longrightarrow> row_ok env (f row)" "set urs \<subseteq> set (ud_user_roles db)" "distinct urs"
  shows "tables_ok env (db\<lparr>ud_users := map f (ud_users db), ud_user_roles := urs\<rparr>)"
proof -
  let ?rows = "map f (ud_users db)"
  have ids: "map uw_id ?rows = map uw_id (ud_users db)" using assms(2) by simp
  then have set: "uw_id ` set ?rows = uw_id ` set (ud_users db)" by (metis list.set_map)
  from assms(1) have old: "distinct (map uw_id (ud_users db))"
      "\<forall>(uid, rid, tid) \<in> set (ud_user_roles db). uid \<in> uw_id ` set (ud_users db)"
      "\<forall>(uid, rid, tid) \<in> set (ud_user_roles db). rid \<in> fst ` set (ud_roles db) \<and> tid \<in> set (ud_tenants db)"
    by (auto simp: tables_ok_def user_inv_def)
  have "user_inv (db\<lparr>ud_users := ?rows, ud_user_roles := urs\<rparr>)"
    using old(1,2) assms(3,5) unfolding user_inv_def ids [symmetric] set [symmetric] by (simp, blast)
  moreover have "\<forall>row \<in> set ?rows. row_ok env row" using assms(4) by simp
  ultimately show ?thesis using old(3) assms(5,6) unfolding tables_ok_def by (simp, blast)
qed

lemma tables_ok_login: "tables_ok env db \<Longrightarrow> tables_ok env (snd (pg_SetLastLoginDate now i db))"
proof -
  let ?f = "\<lambda>row. if uw_id row = i then row\<lparr>uw_last_login_date := now\<rparr> else row"
  assume ok: "tables_ok env db"
  have e: "map uw_email (map ?f (ud_users db)) = map uw_email (ud_users db)" by simp
  have r: "row_ok env (?f row) = row_ok env row" for row by (simp add: row_ok_def)
  have "tables_ok env (db\<lparr>ud_users := map ?f (ud_users db), ud_user_roles := ud_user_roles db\<rparr>)"
    by (rule tables_ok_map [OF ok]) (use ok in \<open>simp_all only: e r tables_ok_def user_inv_def subset_refl, simp_all\<close>)
  then show ?thesis using ok by (simp add: pg_SetLastLoginDate_def)
qed

lemma role_named_mem: "role_named name db = Some rid \<Longrightarrow> rid \<in> fst ` set (ud_roles db)"
  by (force simp: role_named_def dest: find_SomeD)

text \<open>A new row of \<open>user_roles\<close> that satisfies the constraints.\<close>

lemma tables_ok_user_role:
  assumes "tables_ok env db" "user_role_ok i tenantID db" "rid \<in> fst ` set (ud_roles db)" "(i, rid, tenantID) \<notin> set (ud_user_roles db)"
  shows "tables_ok env (db\<lparr>ud_user_roles := ud_user_roles db @ [(i, rid, tenantID)]\<rparr>)"
  using assms by (auto simp: tables_ok_def user_inv_def user_role_ok_def)

lemma tables_ok_add_role: "tables_ok env db \<Longrightarrow> tables_ok env (snd (pg_AddRoleToTenant i tenantID role db))"
  by (auto simp: pg_AddRoleToTenant_def tables_ok_user_role role_named_mem split: option.splits)

lemma tables_ok_remove_role: "tables_ok env db \<Longrightarrow> tables_ok env (snd (pg_RemoveRoleFromTenant i tenantID role db))"
  by (auto simp: pg_RemoveRoleFromTenant_def tables_ok_def user_inv_def split: option.splits)

lemma insert_roles_ok: "insert_roles pass i tenantID rs db = Inr db' \<Longrightarrow> tables_ok env db \<Longrightarrow> tables_ok env db'"
  by (induction pass i tenantID rs db rule: insert_roles.induct)
     (auto simp: tables_ok_user_role role_named_mem split: option.splits if_splits)

lemma reinsert_ok: "reinsert pass i roles order db = Inr db' \<Longrightarrow> tables_ok env db \<Longrightarrow> tables_ok env db'"
  by (induction pass i roles order db rule: reinsert.induct)
     (auto dest: insert_roles_ok split: option.splits sum.splits)

lemma distinct_emails_update:
  assumes "distinct (map uw_id rows)" "distinct (map uw_email rows)" "\<forall>row \<in> set rows. uw_id row \<noteq> i \<longrightarrow> uw_email row \<noteq> us_Email u"
  shows "distinct (map uw_email (map (\<lambda>row. if uw_id row = i then set_row u row else row) rows))"
  using assms
proof (induction rows)
  case (Cons row rows)
  show ?case
  proof (cases "uw_id row = i")
    case True
    then have "\<forall>r \<in> set rows. uw_id r \<noteq> i" using Cons.prems(1) by (metis distinct.simps(2) image_eqI list.set_map list.simps(9))
    with Cons True show ?thesis by (auto simp: set_row_def)
  next
    case False
    with Cons show ?thesis by (auto simp: set_row_def split: if_splits)
  qed
qed simp

lemma tables_ok_set_row:
  assumes "tables_ok env db" "update_ok env i u db"
  shows "tables_ok env (db\<lparr>ud_users := map (\<lambda>row. if uw_id row = i then set_row u row else row) (ud_users db),
    ud_user_roles := filter (\<lambda>(uid, rid, tid). uid \<noteq> i) (ud_user_roles db)\<rparr>)"
proof -
  let ?f = "\<lambda>row. if uw_id row = i then set_row u row else row"
  have d: "distinct (map uw_id (ud_users db))" "distinct (map uw_email (ud_users db))"
    using assms(1) by (simp_all add: tables_ok_def user_inv_def)
  have "distinct (map uw_email (map ?f (ud_users db)))"
  proof (cases "\<exists>row \<in> set (ud_users db). uw_id row = i")
    case True
    with assms(2) show ?thesis by (intro distinct_emails_update d) (simp add: update_ok_def)
  next
    case False
    then have "map ?f (ud_users db) = ud_users db" by (simp add: map_idI)
    with d show ?thesis by simp
  qed
  then show ?thesis
    using assms by (intro tables_ok_map) (auto simp: tables_ok_def update_ok_def set_row_def)
qed

lemma tables_ok_update: "tables_ok env db \<Longrightarrow> tables_ok env (snd (pg_Update env pass order commit i u db))"
  using tables_ok_set_row [of env db i u]
  by (auto simp: pg_Update_def Let_def dest: reinsert_ok split: sum.splits)

lemma reach_tables_ok: "user_reach env db0 db \<Longrightarrow> tables_ok env db0 \<Longrightarrow> tables_ok env db"
  by (induction rule: user_reach.induct)
     (simp_all add: tables_ok_create tables_ok_update tables_ok_delete tables_ok_login tables_ok_add_role tables_ok_remove_role)

lemma read_roles_typed:
  "read_roles rows m = Inr m' \<Longrightarrow> (\<forall>r \<in> set (mvals m). r \<in> {''viewer'', ''editor'', ''admin''}) \<Longrightarrow>
   \<forall>r \<in> set (mvals m'). r \<in> {''viewer'', ''editor'', ''admin''}"
proof (induction rows m rule: read_roles.induct)
  case (2 tenantID roleName rows m)
  then obtain r where r: "RoleFromString roleName = Inr r" "read_roles rows (mput tenantID r m) = Inr m'"
    by (auto split: sum.splits)
  have "set (mvals (mput tenantID r m)) \<subseteq> insert r (set (mvals m))"
    by (induction tenantID r m rule: mput.induct) (auto simp: mvals_def)
  moreover have "r \<in> {''viewer'', ''editor'', ''admin''}" using r(1) RoleFromString_Inr by blast
  ultimately show ?case using "2.IH" [OF r] "2.prems"(2) by blast
qed simp

section \<open>Sample\<close>

definition sample_class :: "char \<Rightarrow> rune_class" where
  "sample_class c =
     (if char_between CHR ''A'' CHR ''Z'' c then RuneUpper else if char_between CHR ''a'' CHR ''z'' c then RuneLower
      else if is_digit c then RuneDigit else if c \<in> set ''!#.'' then RuneSpecial else RuneOther)"

definition sample_env :: user_env where
  "sample_env =
     \<lparr>ue_argon = \<lparr>ar_IDKey = (\<lambda>pw salt t m p n. take n (pw @ salt @ replicate n CHR ''0'')), ar_Version = 19\<rparr>,
      ue_parse = (\<lambda>s. if s = [] then None else Some s), ue_classes = map sample_class,
      ue_url_ok = (\<lambda>_. True), ue_rfc3339_ok = (\<lambda>_. True)\<rparr>"

definition sample_params :: user_create_params where
  "sample_params =
     \<lparr>uc_Email = ''ann@a.io'', uc_FirstName = ''Ann'', uc_LastName = ''Lee'', uc_Phone = ''5551234567'', uc_AvatarURL = [],
      uc_Password = Some ''Secret1!'', uc_Provider = ''password'', uc_ProviderUserID = None\<rparr>"

definition empty_db :: user_db where
  "empty_db = \<lparr>ud_users = [], ud_roles = [(''r1'', ''viewer'')], ud_user_roles = [], ud_members = [], ud_tenants = [''t1''], ud_up = True\<rparr>"

abbreviation sample_repo :: "user_db user_repo" where
  "sample_repo \<equiv> pg_user_repo sample_env (\<lambda>c. Some [c]) [''t1''] True"

abbreviation sample_create :: "(user_error + user) \<times> user_db" where
  "sample_create \<equiv> Users.Create sample_env sample_repo (Some ''0123456789abcdef'') ''u1'' sample_params empty_db"

lemma sample_valid: "user_create_Validate sample_env sample_params = None"
  by code_simp

lemma sample_argon: "argon2_laws (ue_argon sample_env)"
  by (auto simp: argon2_laws_def sample_env_def min_def)

text \<open>The user that the sample creates, with the hash of the password.\<close>

definition sample_user :: "string \<Rightarrow> user" where
  "sample_user h =
     \<lparr>us_ID = ''u1'', us_Email = ''ann@a.io'', us_FirstName = ''Ann'', us_LastName = ''Lee'', us_Phone = ''5551234567'',
      us_AvatarURL = [], us_Status = ''active'', us_LastLoginDate = 0, us_CreatedAt = 0, us_UpdatedAt = 0, us_Roles = None,
      us_Provider = ''password'', us_ProviderUserID = None, us_PasswordHash = h\<rparr>"

lemma sample_created: "\<exists>h. sample_create = (Inr (sample_user h), empty_db\<lparr>ud_users := [insert_row (sample_user h)]\<rparr>)"
proof -
  obtain h where h: "Hash (ue_argon sample_env) (Some ''0123456789abcdef'') ''Secret1!'' = Inr h" by (simp add: Hash_def Let_def)
  then have n: "NewUser sample_env (Some ''0123456789abcdef'') ''u1'' sample_params = Inr (sample_user h)"
    by (simp add: NewUser_def sample_valid new_password_hash_def)
       (simp add: sample_params_def sample_user_def AuthProviderPassword_def UserStatusActive_def)
  have "row_ok sample_env (insert_row (sample_user h))"
    by (simp add: row_ok_def insert_row_def sample_user_def column_ok_def sample_env_def)
  then have "pg_Create sample_env (sample_user h) empty_db = (Inr (sample_user h), empty_db\<lparr>ud_users := [insert_row (sample_user h)]\<rparr>)"
    by (simp add: pg_Create_def empty_db_def)
  moreover have "pg_GetByEmail (uc_Email sample_params) empty_db = Inr None" by (simp add: pg_GetByEmail_def empty_db_def)
  ultimately show ?thesis by (auto simp: Users.Create_def sample_valid n pg_user_repo_def)
qed

text \<open>The same user with a role.\<close>

definition role_db :: user_db where
  "role_db = empty_db\<lparr>ud_users := [insert_row (sample_user ''h'')], ud_user_roles := [(''u1'', ''r1'', ''t1'')]\<rparr>"

lemma role_db_view: "user_view role_db ''u1'' = Some ((sample_user ''h'')\<lparr>us_Roles := Some [(''t1'', ''viewer'')]\<rparr>)"
  by code_simp

section \<open>Properties\<close>

lemma update_keeps_roles: "User_Update env now (Some params) u = Inr u' \<Longrightarrow> us_Roles u' = us_Roles u"
  by (auto simp: User_Update_def applyUpdates_def Let_def split: option.splits prod.splits if_splits)

lemma insert_roles_fails:
  assumes "\<forall>c name. pass c = Some name \<longrightarrow> role_named name db = None" "rs \<noteq> []"
  shows "\<exists>err. insert_roles pass i tenantID rs db = Inl err"
  using assms by (cases rs) (auto split: option.splits)

lemma reinsert_fails:
  assumes "\<forall>c name. pass c = Some name \<longrightarrow> role_named name db = None"
    and "is_order order m" "m \<noteq> []" "\<forall>r \<in> set (mvals m). r \<noteq> []"
  shows "\<exists>err. reinsert pass i (Some m) order db = Inl err"
proof -
  obtain t ts where o: "order = t # ts" using assms(2,3) by (cases order) (auto simp: is_order_def mkeys_def)
  then obtain r where r: "mget m t = Some r" using is_order_mem [OF assms(2)] by auto
  then have "r \<noteq> []" using assms(4) mget_in_set by (force simp: mvals_def)
  then obtain err where "insert_roles pass i t r db = Inl err" using insert_roles_fails [OF assms(1)] by blast
  then show ?thesis using o r by (simp add: role_get_def)
qed

text \<open>A user who has a role in some tenant can never be updated: whatever the parameters, the service
  answers with an error and the tables stay as they are, because the repository looks up every
  character of the name of a role as if it were a role. (No role of the table has a name that the
  database driver would pass for a single character.)\<close>

lemma update_fails_with_roles:
  assumes view: "user_view db uid = Some u" and roles: "us_Roles u = Some m" "m \<noteq> []" "is_order order m"
    and pass: "\<forall>c name. pass c = Some name \<longrightarrow> role_named name db = None"
    and i: "TrimUserPrefix env i = Inr uid"
  shows "\<exists>err. Users.Update env (pg_user_repo env pass order commit) now i params db = (Inl err, db)"
proof -
  from view obtain row where "resolve db row = Some u" by (auto simp: user_view_def bind_eq_Some_conv)
  with resolve_SomeD have "read_roles (role_rows (uw_id row) db) [] = Inr m"
    using roles(1) by (fastforce simp: scan_user_def)
  from read_roles_typed [OF this] have typed: "\<forall>r \<in> set (mvals m). r \<noteq> []" by (force simp: mvals_def)
  have "\<exists>err. pg_Update env pass order commit uid u' db = (Inl err, db)" if "us_Roles u' = Some m" for u'
  proof -
    let ?db = "db\<lparr>ud_users := map (\<lambda>row. if uw_id row = uid then set_row u' row else row) (ud_users db),
      ud_user_roles := filter (\<lambda>(uid', rid, tid). uid' \<noteq> uid) (ud_user_roles db)\<rparr>"
    have "\<forall>c name. pass c = Some name \<longrightarrow> role_named name ?db = None" using pass by (simp add: role_named_def)
    then obtain err where "reinsert pass uid (Some m) order ?db = Inl err" using reinsert_fails roles typed by blast
    then show ?thesis using that by (simp add: pg_Update_def Let_def)
  qed
  then have upd: "\<exists>err. ur_Update (pg_user_repo env pass order commit) uid u' db = (Inl err, db)"
    if "User_Update env now (Some params) u = Inr u'" for u'
    using update_keeps_roles [OF that] roles(1) by (simp add: pg_user_repo_def)
  have "pg_GetByID uid db = Inr (Some u) \<or> (\<exists>err. pg_GetByID uid db = Inl err)"
    using view GetByID_view [of db uid "Some u"] by (cases "ud_up db") (simp_all add: pg_GetByID_def)
  then show ?thesis using i upd
    by (cases "user_update_Validate env params"; cases "User_Update env now (Some params) u")
       (auto simp: Users.Update_def pg_user_repo_def)
qed

lemma update_fails_with_roles_witness:
  "\<exists>err. Users.Update sample_env sample_repo 7 ''usr_u1''
      \<lparr>uu_Email = None, uu_FirstName = Some ''Eve'', uu_LastName = None, uu_Phone = None, uu_Status = None, uu_AvatarURL = None,
       uu_Provider = None, uu_ProviderUserID = None, uu_LastLoginDate = None\<rparr> role_db = (Inl err, role_db)"
proof (rule update_fails_with_roles [OF role_db_view])
  show "is_order [''t1''] [(''t1'', ''viewer'')]" by (simp add: is_order_def)
  show "\<forall>c name. Some [c] = Some name \<longrightarrow> role_named name role_db = None"
    by (simp add: role_named_def role_db_def empty_db_def)
  show "TrimUserPrefix sample_env ''usr_u1'' = Inr ''u1''" by code_simp
qed simp_all



text \<open>C27: A user whom the service has created can be read back, by ID and by address, and the password given at
  the creation is the one that the stored hash accepts.\<close>

theorem created_user_found:
  assumes "user_inv db" "Users.Create env (pg_user_repo env pass order commit) salt newID params db = (Inr u, db')"
    and "ue_parse env newID = Some newID" "argon2_laws (ue_argon env)"
    and "uc_Password params = Some pw" "pw \<noteq> []" "uc_Provider params = AuthProviderPassword"
  shows "\<exists>v. Users.GetByID env (pg_user_repo env pass order commit) (FormatID u) db' = Inr (Some v)
    \<and> Users.GetByEmail (pg_user_repo env pass order commit) (uc_Email params) db' = Inr (Some v)
    \<and> us_ID v = newID \<and> ValidatePasswordHash env pw v = Inr True"
proof -
  from pg_users.Create_ok [OF assms(1,2)] have n: "NewUser env salt newID params = Inr u" by simp
  then have "us_ID u = newID" by (auto simp: NewUser_def split: option.splits sum.splits)
  moreover have "ValidatePasswordHash env pw (as_stored u) = Inr True"
    using NewUser_password [OF n assms(4-7)] by (simp add: ValidatePasswordHash_def as_stored_def)
  ultimately show ?thesis
    using pg_users.Create_found [OF assms(1,2,3)] by (intro exI [of _ "as_stored u"]) (simp add: as_stored_def)
qed

theorem created_user_found_witness:
  "\<exists>u db' v. sample_create = (Inr u, db')
    \<and> Users.GetByEmail sample_repo ''ann@a.io'' db' = Inr (Some v) \<and> ValidatePasswordHash sample_env ''Secret1!'' v = Inr True"
proof -
  obtain h where c: "sample_create = (Inr (sample_user h), empty_db\<lparr>ud_users := [insert_row (sample_user h)]\<rparr>)"
    using sample_created by blast
  have "user_inv empty_db" by (simp add: user_inv_def empty_db_def)
  from created_user_found [OF this c _ sample_argon, of "''Secret1!''"] c show ?thesis
    by (auto simp: sample_params_def AuthProviderPassword_def sample_env_def)
qed

end
