(* ===== verification/Tokens.thy ===== *)
theory Tokens
  imports AuthSync Base64
begin

text \<open>
  Signing keys and tokens of Aegis (\<open>aegis/internal/domain/jwks.go\<close>, \<open>domain/jwt.go\<close>): the key manager with
  its rotation and its published key set, the generation of token pairs and their validation.

  The JWT library, the generation of Ed25519 keys and SHA-256 are arguments. \<open>jwt_laws\<close> states what the
  library documents: dates are cut to seconds; a token that was signed is accepted when the key
  function gives the public key of its signing key and the time lies between \<open>nbf\<close> and \<open>exp\<close>; and what is
  returned for its text is that token. Claims are written and read by the same names in Aegis and in
  the gateway, so the gateway sees the claims of its own record, a part of those of Aegis.
\<close>

section \<open>Keys\<close>

record 'priv signing_key =
  sk_KID :: string
  sk_PrivateKey :: 'priv
  sk_PublicKey :: string

record 'priv key_manager =
  km_activeKey :: "'priv signing_key"
  km_keys :: "(string, 'priv signing_key) gomap"

text \<open>\<open>pair\<close>: the public and private key that the generator gave, \<open>None\<close> if it failed.\<close>

definition generateSigningKey :: "(string \<Rightarrow> string) \<Rightarrow> (string \<times> 'priv) option \<Rightarrow> 'priv signing_key option" where
  "generateSigningKey sha256 pair =
     (case pair of
        None \<Rightarrow> None
      | Some (pub, priv) \<Rightarrow>
          Some \<lparr>sk_KID = raw_encode UrlAlphabet (take 16 (sha256 pub)), sk_PrivateKey = priv, sk_PublicKey = pub\<rparr>)"

definition NewKeyManager :: "(string \<Rightarrow> string) \<Rightarrow> (string \<times> 'priv) option \<Rightarrow> 'priv key_manager option" where
  "NewKeyManager sha256 pair =
     (case generateSigningKey sha256 pair of
        None \<Rightarrow> None
      | Some key \<Rightarrow> Some \<lparr>km_activeKey = key, km_keys = [(sk_KID key, key)]\<rparr>)"

definition ActiveKey :: "'priv key_manager \<Rightarrow> 'priv signing_key" where
  "ActiveKey km = km_activeKey km"

definition km_FindPublicKey :: "'priv key_manager \<Rightarrow> string \<Rightarrow> string option" where
  "km_FindPublicKey km kid = (case mget (km_keys km) kid of None \<Rightarrow> None | Some key \<Rightarrow> Some (sk_PublicKey key))"

text \<open>Whether the rotation succeeded, and the new manager.\<close>

definition RotateKey :: "(string \<Rightarrow> string) \<Rightarrow> (string \<times> 'priv) option \<Rightarrow> 'priv key_manager \<Rightarrow> bool \<times> 'priv key_manager" where
  "RotateKey sha256 pair km =
     (case generateSigningKey sha256 pair of
        None \<Rightarrow> (False, km)
      | Some key \<Rightarrow> (True, km\<lparr>km_keys := mput (sk_KID key) key (km_keys km), km_activeKey := key\<rparr>))"

record served_key = jwk_key +
  jk_Use :: string
  jk_Alg :: string

definition serve_key :: "'priv signing_key \<Rightarrow> served_key" where
  "serve_key sk =
     \<lparr>jk_Kty = ''OKP'', jk_Crv = ''Ed25519'', jk_Kid = sk_KID sk, jk_X = raw_encode UrlAlphabet (sk_PublicKey sk),
      jk_Use = ''sig'', jk_Alg = ''EdDSA''\<rparr>"

text \<open>The status of an error, or the keys in the order of the loop over the map.\<close>

definition JWKSHandler :: "string list \<Rightarrow> string \<Rightarrow> 'priv key_manager \<Rightarrow> nat + served_key list" where
  "JWKSHandler order meth km =
     (if meth \<noteq> ''GET'' then Inl 405
      else Inr (List.map_filter (\<lambda>kid. map_option serve_key (mget (km_keys km) kid)) order))"

text \<open>What the gateway receives when it fetches the key set.\<close>

definition jwks_response :: "string list \<Rightarrow> 'priv key_manager \<Rightarrow> jwks_reply" where
  "jwks_response order km =
     (case JWKSHandler order ''GET'' km of Inl code \<Rightarrow> JwksStatus code | Inr keys \<Rightarrow> Keys (map jwk_key.truncate keys))"

section \<open>Tokens\<close>

definition TypeAccessToken :: string where
  "TypeAccessToken = ''access_token''"

definition TypeRefreshToken :: string where
  "TypeRefreshToken = ''refresh_token''"

record aegis_claims = custom_claims +
  cl_Issuer :: string
  cl_Audience :: "string list option"
  cl_IssuedAt :: "time option"
  cl_NotBefore :: "time option"
  cl_OAuthRefreshToken :: string
  cl_OAuthProvider :: string

record aegis_token =
  at_Alg :: string
  at_kid :: "string option"
  at_Claims :: aegis_claims
  at_Valid :: bool

record oauth_token =
  ot_AccessToken :: string
  ot_RefreshToken :: string
  ot_Expiry :: time
  ot_Provider :: string

text \<open>The user context of Aegis has the ID and the expiry of the token too.\<close>

record aegis_context = user_context_data +
  ucd_JTI :: string
  ucd_ExpiresAt :: int

definition unix :: "time \<Rightarrow> int" where
  "unix t = t div seconds 1"

definition aegis_GetUserContextData :: "aegis_claims \<Rightarrow> aegis_context" where
  "aegis_GetUserContextData c =
     \<lparr>ucd_UserID = cl_Subject c, ucd_Roles = cl_Roles c, ucd_AuthProvider = cl_AuthProvider c,
      ucd_SessionID = cl_SessionID c, ucd_JTI = cl_ID c,
      ucd_ExpiresAt = (case cl_ExpiresAt c of None \<Rightarrow> 0 | Some e \<Rightarrow> unix e)\<rparr>"

text \<open>\<open>jw_parse\<close> takes the time at which the library checks the dates of the token.\<close>

record 'priv jwt_ops =
  jw_date :: "time \<Rightarrow> time"
  jw_sign :: "'priv \<Rightarrow> aegis_token \<Rightarrow> string option"
  jw_parse :: "time \<Rightarrow> (aegis_token \<Rightarrow> token_error + string) \<Rightarrow> string \<Rightarrow> token_error + aegis_token"

record 'priv token_manager =
  tm_keys :: "'priv key_manager"
  tm_issuer :: string
  tm_accessExpiration :: duration
  tm_refreshExpiration :: duration

definition NewTokenManager :: "'priv key_manager \<Rightarrow> string \<Rightarrow> duration \<Rightarrow> duration \<Rightarrow> 'priv token_manager" where
  "NewTokenManager keyManager issuer accessExpiration refreshExpiration =
     \<lparr>tm_keys = keyManager, tm_issuer = issuer, tm_accessExpiration = accessExpiration,
      tm_refreshExpiration = refreshExpiration\<rparr>"

record token_pair =
  tp_AccessToken :: string
  tp_RefreshToken :: string

text \<open>The readings of the clock in the order in which a pair is made.\<close>

record pair_clock =
  pc_now :: time
  pc_exp :: time
  pc_iat :: time
  pc_nbf :: time

definition new_token :: "'priv key_manager \<Rightarrow> aegis_claims \<Rightarrow> aegis_token" where
  "new_token km claims = \<lparr>at_Alg = ''EdDSA'', at_kid = Some (sk_KID (ActiveKey km)), at_Claims = claims, at_Valid = False\<rparr>"

definition sign_claims :: "'priv jwt_ops \<Rightarrow> 'priv key_manager \<Rightarrow> aegis_claims \<Rightarrow> string option" where
  "sign_claims J km claims = jw_sign J (sk_PrivateKey (ActiveKey km)) (new_token km claims)"

definition refresh_claims ::
  "'priv jwt_ops \<Rightarrow> pair_clock \<Rightarrow> 'priv token_manager \<Rightarrow> string \<Rightarrow> string \<Rightarrow> string \<Rightarrow> string \<Rightarrow> oauth_token option \<Rightarrow> aegis_claims" where
  "refresh_claims J clk m userID sessionID jti authProvider oauthToken =
     \<lparr>cl_ID = jti, cl_Subject = userID, cl_ExpiresAt = Some (jw_date J (pc_exp clk + tm_refreshExpiration m)),
      cl_TokenType = TypeRefreshToken, cl_Roles = None, cl_SessionID = sessionID, cl_AuthProvider = authProvider,
      cl_Issuer = tm_issuer m, cl_Audience = None, cl_IssuedAt = Some (jw_date J (pc_iat clk)),
      cl_NotBefore = Some (jw_date J (pc_nbf clk)),
      cl_OAuthRefreshToken = (case oauthToken of None \<Rightarrow> [] | Some ot \<Rightarrow> ot_RefreshToken ot),
      cl_OAuthProvider = (case oauthToken of None \<Rightarrow> [] | Some ot \<Rightarrow> ot_Provider ot)\<rparr>"

definition makeRefreshToken ::
  "'priv jwt_ops \<Rightarrow> pair_clock \<Rightarrow> 'priv token_manager \<Rightarrow> string \<Rightarrow> string \<Rightarrow> string \<Rightarrow> string \<Rightarrow> oauth_token option \<Rightarrow> string option" where
  "makeRefreshToken J clk m userID sessionID jti authProvider oauthToken =
     sign_claims J (tm_keys m) (refresh_claims J clk m userID sessionID jti authProvider oauthToken)"

definition access_claims ::
  "'priv jwt_ops \<Rightarrow> uuid list \<Rightarrow> pair_clock \<Rightarrow> string \<Rightarrow> 'priv token_manager \<Rightarrow> string \<Rightarrow> string \<Rightarrow> string \<Rightarrow> role_map
    \<Rightarrow> oauth_token option \<Rightarrow> aegis_claims" where
  "access_claims J order clk newID m userID sessionID authProvider roles oauthToken =
     \<lparr>cl_ID = newID, cl_Subject = userID, cl_ExpiresAt = Some (jw_date J (pc_now clk + tm_accessExpiration m)),
      cl_TokenType = TypeAccessToken, cl_Roles = roles, cl_SessionID = sessionID, cl_AuthProvider = authProvider,
      cl_Issuer = tm_issuer m, cl_Audience = GetTenantIDsAsStrings order roles, cl_IssuedAt = Some (jw_date J (pc_now clk)),
      cl_NotBefore = Some (jw_date J (pc_now clk)),
      cl_OAuthRefreshToken = (case oauthToken of None \<Rightarrow> [] | Some ot \<Rightarrow> ot_RefreshToken ot),
      cl_OAuthProvider = (case oauthToken of None \<Rightarrow> [] | Some ot \<Rightarrow> ot_Provider ot)\<rparr>"

definition GenerateTokenPair ::
  "'priv jwt_ops \<Rightarrow> uuid list \<Rightarrow> pair_clock \<Rightarrow> string \<Rightarrow> 'priv token_manager \<Rightarrow> string \<Rightarrow> string \<Rightarrow> string \<Rightarrow> role_map
    \<Rightarrow> oauth_token option \<Rightarrow> token_pair option" where
  "GenerateTokenPair J order clk newID m userID sessionID authProvider roles oauthToken =
     (let claims = access_claims J order clk newID m userID sessionID authProvider roles oauthToken
      in case sign_claims J (tm_keys m) claims of
           None \<Rightarrow> None
         | Some accessToken \<Rightarrow>
             (case makeRefreshToken J clk m userID sessionID (cl_ID claims) authProvider oauthToken of
                None \<Rightarrow> None
              | Some refreshToken \<Rightarrow> Some \<lparr>tp_AccessToken = accessToken, tp_RefreshToken = refreshToken\<rparr>))"

definition aegis_keyfunc :: "'priv key_manager \<Rightarrow> aegis_token \<Rightarrow> token_error + string" where
  "aegis_keyfunc km token =
     (if at_Alg token \<noteq> ''EdDSA'' then Inl UnexpectedSigningMethod
      else (case at_kid token of
              None \<Rightarrow> Inl (ParseError ''missing kid in token header'')
            | Some kid \<Rightarrow>
                if kid = [] then Inl (ParseError ''missing kid in token header'')
                else (case km_FindPublicKey km kid of None \<Rightarrow> Inl UnknownKeyID | Some pubKey \<Rightarrow> Inr pubKey)))"

definition aegis_ValidateToken :: "'priv jwt_ops \<Rightarrow> time \<Rightarrow> time \<Rightarrow> 'priv token_manager \<Rightarrow> string \<Rightarrow> token_error + aegis_claims" where
  "aegis_ValidateToken J now1 now2 m tokenString =
     (case jw_parse J now1 (aegis_keyfunc (tm_keys m)) tokenString of
        Inl err \<Rightarrow> Inl err
      | Inr token \<Rightarrow>
          if at_Valid token then
            (case cl_ExpiresAt (at_Claims token) of
               None \<Rightarrow> Inl NilExpiry
             | Some e \<Rightarrow> if e < now2 then Inl ErrTokenExpired else Inr (at_Claims token))
          else Inl InvalidToken)"

text \<open>\<open>clk\<close> gives the readings for the refresh token, \<open>t1\<close>, \<open>t2\<close>, \<open>t3\<close> those for the other one.\<close>

definition RefreshToken ::
  "'priv jwt_ops \<Rightarrow> time \<Rightarrow> time \<Rightarrow> time \<times> time \<times> time \<Rightarrow> pair_clock \<Rightarrow> 'priv token_manager \<Rightarrow> string \<Rightarrow> oauth_token option
    \<Rightarrow> token_error + token_pair option" where
  "RefreshToken J now1 now2 ts clk m tokenString oauthToken =
     (case aegis_ValidateToken J now1 now2 m tokenString of
        Inl err \<Rightarrow> Inl err
      | Inr claims \<Rightarrow>
          if cl_TokenType claims \<noteq> TypeRefreshToken then Inl InvalidToken
          else (case ts of (t1, t2, t3) \<Rightarrow>
            let claims' = claims\<lparr>cl_ExpiresAt := Some (jw_date J (t1 + tm_refreshExpiration m)),
                                 cl_IssuedAt := Some (jw_date J t2), cl_NotBefore := Some (jw_date J t3)\<rparr>
            in case sign_claims J (tm_keys m) claims' of
                 None \<Rightarrow> Inr None
               | Some accessToken \<Rightarrow>
                   (case makeRefreshToken J clk m (cl_Subject claims') (cl_SessionID claims') (cl_ID claims')
                           (cl_AuthProvider claims') oauthToken of
                      None \<Rightarrow> Inr None
                    | Some refreshToken \<Rightarrow> Inr (Some \<lparr>tp_AccessToken = accessToken, tp_RefreshToken = refreshToken\<rparr>))))"

definition ParseRefreshToken :: "'priv jwt_ops \<Rightarrow> time \<Rightarrow> 'priv token_manager \<Rightarrow> string \<Rightarrow> token_error + aegis_claims" where
  "ParseRefreshToken J now m refreshToken =
     (case jw_parse J now (aegis_keyfunc (tm_keys m)) refreshToken of
        Inl err \<Rightarrow> Inl err
      | Inr token \<Rightarrow> if at_Valid token then Inr (at_Claims token) else Inl InvalidToken)"

section \<open>What the library promises\<close>

definition in_time :: "time \<Rightarrow> aegis_claims \<Rightarrow> bool" where
  "in_time now c \<longleftrightarrow> (case cl_ExpiresAt c of None \<Rightarrow> True | Some e \<Rightarrow> now < e)
     \<and> (case cl_NotBefore c of None \<Rightarrow> True | Some b \<Rightarrow> b \<le> now)"

text \<open>The token as the gateway reads it.\<close>

definition gateway_token :: "aegis_token \<Rightarrow> jwt_token" where
  "gateway_token t =
     \<lparr>tk_Alg = at_Alg t, tk_kid = at_kid t, tk_Claims = custom_claims.truncate (at_Claims t), tk_Valid = at_Valid t\<rparr>"

definition jwt_laws :: "'priv jwt_ops \<Rightarrow> (time \<Rightarrow> string jwt_parser) \<Rightarrow> ('priv \<Rightarrow> string) \<Rightarrow> bool" where
  "jwt_laws J gparse public \<longleftrightarrow>
     (\<forall>t. jw_date J t \<le> t \<and> t < jw_date J t + seconds 1)
     \<and> (\<forall>priv t s. jw_sign J priv t = Some s \<longrightarrow> s \<noteq> []
          \<and> (\<forall>now kf. kf t = Inr (public priv) \<and> in_time now (at_Claims t) \<longrightarrow> jw_parse J now kf s = Inr (t\<lparr>at_Valid := True\<rparr>))
          \<and> (\<forall>now kf t'. jw_parse J now kf s = Inr t' \<longrightarrow> t' = t\<lparr>at_Valid := True\<rparr> \<and> in_time now (at_Claims t))
          \<and> (\<forall>now kf. kf (gateway_token t) = Inr (public priv) \<and> in_time now (at_Claims t)
                \<longrightarrow> gparse now kf s = Inr ((gateway_token t)\<lparr>tk_Valid := True\<rparr>)))"

lemma jwt_date: "jwt_laws J gparse public \<Longrightarrow> jw_date J t \<le> t \<and> t < jw_date J t + seconds 1"
  by (simp add: jwt_laws_def)

lemma jwt_accepts:
  "jwt_laws J gparse public \<Longrightarrow> jw_sign J priv t = Some s \<Longrightarrow> kf t = Inr (public priv) \<Longrightarrow> in_time now (at_Claims t)
   \<Longrightarrow> jw_parse J now kf s = Inr (t\<lparr>at_Valid := True\<rparr>)"
  unfolding jwt_laws_def by blast

lemma jwt_returns:
  "jwt_laws J gparse public \<Longrightarrow> jw_sign J priv t = Some s \<Longrightarrow> jw_parse J now kf s = Inr t'
   \<Longrightarrow> t' = t\<lparr>at_Valid := True\<rparr> \<and> in_time now (at_Claims t)"
  unfolding jwt_laws_def by blast

lemma jwt_gateway:
  "jwt_laws J gparse public \<Longrightarrow> jw_sign J priv t = Some s \<Longrightarrow> kf (gateway_token t) = Inr (public priv)
   \<Longrightarrow> in_time now (at_Claims t) \<Longrightarrow> gparse now kf s = Inr ((gateway_token t)\<lparr>tk_Valid := True\<rparr>)"
  unfolding jwt_laws_def by blast

lemma jwt_text: "jwt_laws J gparse public \<Longrightarrow> jw_sign J priv t = Some s \<Longrightarrow> s \<noteq> []"
  unfolding jwt_laws_def by blast

section \<open>The key manager\<close>

text \<open>Every key is filed under its ID, which the hash of its public key gives; the active key is among them.\<close>

definition key_ok :: "(string \<Rightarrow> string) \<Rightarrow> ('priv \<Rightarrow> string) \<Rightarrow> string \<Rightarrow> 'priv signing_key \<Rightarrow> bool" where
  "key_ok sha256 public kid sk \<longleftrightarrow> sk_KID sk = kid \<and> kid = raw_encode UrlAlphabet (take 16 (sha256 (sk_PublicKey sk)))
     \<and> kid \<noteq> [] \<and> sk_PublicKey sk = public (sk_PrivateKey sk) \<and> length (sk_PublicKey sk) = 32"

definition km_ok :: "(string \<Rightarrow> string) \<Rightarrow> ('priv \<Rightarrow> string) \<Rightarrow> 'priv key_manager \<Rightarrow> bool" where
  "km_ok sha256 public km \<longleftrightarrow> wfmap (km_keys km) \<and> mget (km_keys km) (sk_KID (km_activeKey km)) = Some (km_activeKey km)
     \<and> (\<forall>kid sk. mget (km_keys km) kid = Some sk \<longrightarrow> key_ok sha256 public kid sk)"

lemma km_key: "km_ok sha256 public km \<Longrightarrow> mget (km_keys km) kid = Some sk \<Longrightarrow> key_ok sha256 public kid sk"
  by (simp add: km_ok_def)

text \<open>What the generator of keys gives: the public key of the private one, 32 bytes; a hash has 32 bytes too.\<close>

definition pair_ok :: "(string \<Rightarrow> string) \<Rightarrow> ('priv \<Rightarrow> string) \<Rightarrow> string \<times> 'priv \<Rightarrow> bool" where
  "pair_ok sha256 public p \<longleftrightarrow> fst p = public (snd p) \<and> length (fst p) = 32 \<and> length (sha256 (fst p)) = 32"

lemma generate_ok:
  "pair_ok sha256 public p \<Longrightarrow> generateSigningKey sha256 (Some p) = Some sk \<Longrightarrow> key_ok sha256 public (sk_KID sk) sk"
  by (cases p) (auto simp: generateSigningKey_def key_ok_def pair_ok_def raw_encode_Nil)

lemma NewKeyManager_ok:
  "pair_ok sha256 public p \<Longrightarrow> NewKeyManager sha256 (Some p) = Some km \<Longrightarrow> km_ok sha256 public km"
  using generate_ok [of sha256 public p] by (cases p) (auto simp: NewKeyManager_def km_ok_def split: option.splits if_splits)

lemma RotateKey_ok:
  assumes "km_ok sha256 public km" "\<forall>p. pair = Some p \<longrightarrow> pair_ok sha256 public p"
  shows "km_ok sha256 public (snd (RotateKey sha256 pair km))"
proof (cases "generateSigningKey sha256 pair")
  case None
  with assms(1) show ?thesis by (simp add: RotateKey_def)
next
  case (Some key)
  then obtain p where "pair = Some p" by (cases pair) (auto simp: generateSigningKey_def)
  with assms(2) Some have "key_ok sha256 public (sk_KID key) key" using generate_ok by blast
  with assms(1) Some show ?thesis by (simp add: RotateKey_def km_ok_def mget_mput wfmap_mput)
qed

text \<open>Two keys with the same ID have hashes that begin with the same sixteen bytes.\<close>

definition collides :: "(string \<Rightarrow> string) \<Rightarrow> string \<Rightarrow> string \<Rightarrow> bool" where
  "collides sha256 pub pub' \<longleftrightarrow> pub' \<noteq> pub \<and> take 16 (sha256 pub') = take 16 (sha256 pub)"

lemma raw_encode_inj: "raw_encode al s = raw_encode al t \<Longrightarrow> s = t"
  by (metis option.inject raw_decode_encode)

lemma RotateKey_keeps:
  assumes "km_ok sha256 public km" "km_FindPublicKey km kid = Some pub" "\<forall>p. pair = Some p \<longrightarrow> \<not> collides sha256 pub (fst p)"
  shows "km_FindPublicKey (snd (RotateKey sha256 pair km)) kid = Some pub"
proof -
  from assms(2) obtain sk where sk: "mget (km_keys km) kid = Some sk" "sk_PublicKey sk = pub"
    by (auto simp: km_FindPublicKey_def split: option.splits)
  with km_key [OF assms(1) sk(1)] have kid: "kid = raw_encode UrlAlphabet (take 16 (sha256 pub))" by (simp add: key_ok_def)
  show ?thesis
  proof (cases "generateSigningKey sha256 pair")
    case None
    with assms(2) show ?thesis by (simp add: RotateKey_def)
  next
    case (Some key)
    then obtain p where p: "pair = Some p" "sk_KID key = raw_encode UrlAlphabet (take 16 (sha256 (fst p)))" "sk_PublicKey key = fst p"
      by (cases pair) (auto simp: generateSigningKey_def)
    have "sk_KID key = kid \<Longrightarrow> fst p = pub" using assms(3) p(1,2) kid raw_encode_inj by (auto simp: collides_def)
    with Some assms(2) p(3) show ?thesis by (auto simp: RotateKey_def km_FindPublicKey_def mget_mput)
  qed
qed

text \<open>A sequence of rotations; \<open>None\<close> is one that failed.\<close>

definition rotations :: "(string \<Rightarrow> string) \<Rightarrow> (string \<times> 'priv) option list \<Rightarrow> 'priv key_manager \<Rightarrow> 'priv key_manager" where
  "rotations sha256 pairs km = fold (\<lambda>pair km. snd (RotateKey sha256 pair km)) pairs km"

definition good_pairs :: "(string \<Rightarrow> string) \<Rightarrow> ('priv \<Rightarrow> string) \<Rightarrow> string \<Rightarrow> (string \<times> 'priv) option list \<Rightarrow> bool" where
  "good_pairs sha256 public pub pairs \<longleftrightarrow>
     (\<forall>p. Some p \<in> set pairs \<longrightarrow> pair_ok sha256 public p \<and> \<not> collides sha256 pub (fst p))"

lemma rotations_keep:
  assumes "km_ok sha256 public km" "km_FindPublicKey km kid = Some pub" "good_pairs sha256 public pub pairs"
  shows "km_ok sha256 public (rotations sha256 pairs km) \<and> km_FindPublicKey (rotations sha256 pairs km) kid = Some pub"
  using assms
proof (induction pairs arbitrary: km)
  case (Cons pair pairs)
  have "\<forall>p. pair = Some p \<longrightarrow> pair_ok sha256 public p \<and> \<not> collides sha256 pub (fst p)" "good_pairs sha256 public pub pairs"
    using Cons.prems(3) by (auto simp: good_pairs_def)
  with Cons.IH [of "snd (RotateKey sha256 pair km)"] RotateKey_ok [OF Cons.prems(1), of pair] RotateKey_keeps [OF Cons.prems(1,2), of pair]
  show ?case by (simp add: rotations_def)
qed (simp add: rotations_def)

lemma active_found: "km_ok sha256 public km \<Longrightarrow> km_FindPublicKey km (sk_KID (ActiveKey km)) = Some (public (sk_PrivateKey (ActiveKey km)))"
  proof -
  assume ok: "km_ok sha256 public km"
  then have a: "mget (km_keys km) (sk_KID (km_activeKey km)) = Some (km_activeKey km)" by (simp add: km_ok_def)
  with km_key [OF ok a] show ?thesis by (simp add: km_FindPublicKey_def ActiveKey_def key_ok_def)
qed

lemma found_key_ID: "km_ok sha256 public km \<Longrightarrow> km_FindPublicKey km kid = Some pub \<Longrightarrow> kid \<noteq> []"
  by (auto simp: km_FindPublicKey_def key_ok_def dest: km_key split: option.splits)

text \<open>The published key set, as the gateway installs it.\<close>

lemma add_served_key:
  assumes "km_ok sha256 public km" "mget (km_keys km) kid = Some sk"
  shows "add_key (raw_decode UrlAlphabet) (jwk_key.truncate (serve_key sk)) keys = mput kid (sk_PublicKey sk) keys"
proof -
  have sk: "sk_KID sk = kid" "kid \<noteq> []" "length (sk_PublicKey sk) = 32" using km_key [OF assms] unfolding key_ok_def by blast+
  then have "raw_encode UrlAlphabet (sk_PublicKey sk) \<noteq> []" by (auto simp: raw_encode_Nil)
  with sk show ?thesis by (simp add: add_key_def serve_key_def jwk_key.defs raw_decode_encode)
qed

lemma served_keys:
  assumes "km_ok sha256 public km" "\<forall>kid \<in> set order. mget (km_keys km) kid \<noteq> None"
  shows "mget (fold (add_key (raw_decode UrlAlphabet))
      (map jwk_key.truncate (List.map_filter (\<lambda>kid. map_option serve_key (mget (km_keys km) kid)) order)) keys) kid
    = (if kid \<in> set order then km_FindPublicKey km kid else mget keys kid)"
  using assms(2)
proof (induction order arbitrary: keys)
  case (Cons k order)
  then obtain sk where sk: "mget (km_keys km) k = Some sk" by auto
  have IH: "mget (fold (add_key (raw_decode UrlAlphabet))
      (map jwk_key.truncate (List.map_filter (\<lambda>kid. map_option serve_key (mget (km_keys km) kid)) order)) (mput k (sk_PublicKey sk) keys)) kid
    = (if kid \<in> set order then km_FindPublicKey km kid else mget (mput k (sk_PublicKey sk) keys) kid)"
    using Cons.IH Cons.prems by simp
  show ?case using sk
    by (simp add: List.map_filter_simps add_served_key [OF assms(1) sk] IH)
       (simp add: mget_mput km_FindPublicKey_def)
qed (simp add: List.map_filter_simps)

lemma fetch_published:
  assumes "km_ok sha256 public km" "is_order order (km_keys km)"
  obtains f' where "fetch (raw_decode UrlAlphabet) (jwks_response order km) f = (None, f')"
    "\<And>kid. FindPublicKey f' kid = km_FindPublicKey km kid"
proof -
  let ?jwks = "map jwk_key.truncate (List.map_filter (\<lambda>kid. map_option serve_key (mget (km_keys km) kid)) order)"
  let ?keys = "fold (add_key (raw_decode UrlAlphabet)) ?jwks []"
  have "\<forall>kid \<in> set order. mget (km_keys km) kid \<noteq> None" using is_order_mem [OF assms(2)] by auto
  from served_keys [OF assms(1) this, of "[]"] have keys: "mget ?keys kid = km_FindPublicKey km kid" for kid
    using is_order_mem [OF assms(2), of kid] by (auto simp: km_FindPublicKey_def)
  have "?keys \<noteq> []" using keys [of "sk_KID (ActiveKey km)"] active_found [OF assms(1)] by auto
  then have "fetch (raw_decode UrlAlphabet) (jwks_response order km) f = (None, f\<lparr>fe_keys := ?keys\<rparr>)"
    by (simp add: fetch_def jwks_response_def JWKSHandler_def Let_def)
  then show ?thesis using that keys by (simp add: FindPublicKey_def)
qed

section \<open>Validation of what was signed\<close>

lemma aegis_keyfunc_known:
  "km_ok sha256 public km \<Longrightarrow> km_FindPublicKey km kid = Some pub \<Longrightarrow> at_Alg t = ''EdDSA'' \<Longrightarrow> at_kid t = Some kid
   \<Longrightarrow> aegis_keyfunc km t = Inr pub"
  by (simp add: aegis_keyfunc_def found_key_ID)

text \<open>A token signed with the active key of \<open>km\<close>, validated where that key is known.\<close>

lemma signed_token_valid:
  assumes "jwt_laws J gparse public" "km_ok sha256 public (tm_keys m)" "sign_claims J km claims = Some s"
    and "km_FindPublicKey (tm_keys m) (sk_KID (ActiveKey km)) = Some (public (sk_PrivateKey (ActiveKey km)))"
    and "in_time now1 claims" "cl_ExpiresAt claims = Some e" "now2 \<le> e"
  shows "aegis_ValidateToken J now1 now2 m s = Inr claims"
proof -
  let ?t = "new_token km claims"
  have "aegis_keyfunc (tm_keys m) ?t = Inr (public (sk_PrivateKey (ActiveKey km)))"
    using aegis_keyfunc_known [OF assms(2,4)] by (simp add: new_token_def)
  then have "jw_parse J now1 (aegis_keyfunc (tm_keys m)) s = Inr (?t\<lparr>at_Valid := True\<rparr>)"
    using jwt_accepts [OF assms(1) assms(3) [unfolded sign_claims_def], where kf = "aegis_keyfunc (tm_keys m)"] assms(5)
    by (simp add: new_token_def)
  then show ?thesis using assms(6,7) by (simp add: aegis_ValidateToken_def new_token_def)
qed

text \<open>What validation returns for the text of a token that was signed is that token.\<close>

lemma signed_token_returns:
  assumes "jwt_laws J gparse public" "sign_claims J km claims = Some s" "aegis_ValidateToken J now1 now2 m s = Inr claims'"
  shows "claims' = claims \<and> in_time now1 claims"
proof -
  from assms(3) obtain t where "jw_parse J now1 (aegis_keyfunc (tm_keys m)) s = Inr t" "at_Claims t = claims'"
    by (auto simp: aegis_ValidateToken_def split: sum.splits if_splits option.splits)
  with jwt_returns [OF assms(1) assms(2) [unfolded sign_claims_def] this(1)] show ?thesis by (simp add: new_token_def)
qed

text \<open>The same token at the gateway, with any key provider that knows the key.\<close>

lemma signed_token_gateway:
  assumes "jwt_laws J gparse public" "sign_claims J km claims = Some s"
    and "fk (sk_KID (ActiveKey km)) = Some (public (sk_PrivateKey (ActiveKey km)))"
    and "in_time now1 claims" "cl_ExpiresAt claims = Some e" "now2 \<le> e"
  shows "Auth.ValidateToken (gparse now1) fk now2 s = Inr (custom_claims.truncate claims)"
proof -
  let ?t = "new_token km claims"
  have "keyfunc fk (gateway_token ?t) = Inr (public (sk_PrivateKey (ActiveKey km)))"
    using assms(3) by (simp add: keyfunc_def gateway_token_def new_token_def)
  then have "gparse now1 (keyfunc fk) s = Inr ((gateway_token ?t)\<lparr>tk_Valid := True\<rparr>)"
    using jwt_gateway [OF assms(1) assms(2) [unfolded sign_claims_def], where kf = "keyfunc fk"] assms(4)
    by (simp add: new_token_def)
  moreover have "cl_ExpiresAt (custom_claims.truncate claims) = Some e" using assms(5) by (simp add: custom_claims.defs)
  ultimately show ?thesis using assms(6) by (simp add: Auth.ValidateToken_def gateway_token_def new_token_def)
qed

lemma GenerateTokenPair_Some:
  "GenerateTokenPair J order clk newID m userID sessionID authProvider roles oauthToken = Some pair \<Longrightarrow>
   sign_claims J (tm_keys m) (access_claims J order clk newID m userID sessionID authProvider roles oauthToken) = Some (tp_AccessToken pair)
   \<and> sign_claims J (tm_keys m) (refresh_claims J clk m userID sessionID newID authProvider oauthToken) = Some (tp_RefreshToken pair)"
  by (auto simp: GenerateTokenPair_def makeRefreshToken_def access_claims_def Let_def split: option.splits)

lemma access_in_time:
  assumes "jwt_laws J gparse public" "pc_now clk \<le> now" "now \<le> pc_now clk + tm_accessExpiration m - seconds 1"
  shows "in_time now (access_claims J order clk newID m userID sessionID authProvider roles oauthToken)
    \<and> now \<le> jw_date J (pc_now clk + tm_accessExpiration m)"
  using jwt_date [OF assms(1), of "pc_now clk"] jwt_date [OF assms(1), of "pc_now clk + tm_accessExpiration m"] assms(2,3)
  by (simp add: in_time_def access_claims_def)

lemma refresh_in_time:
  assumes "jwt_laws J gparse public" "pc_nbf clk \<le> now" "now \<le> pc_exp clk + tm_refreshExpiration m - seconds 1"
  shows "in_time now (refresh_claims J clk m userID sessionID jti authProvider oauthToken)
    \<and> now \<le> jw_date J (pc_exp clk + tm_refreshExpiration m)"
  using jwt_date [OF assms(1), of "pc_nbf clk"] jwt_date [OF assms(1), of "pc_exp clk + tm_refreshExpiration m"] assms(2,3)
  by (simp add: in_time_def refresh_claims_def)

end
