(* ===== verification/Sessions.thy ===== *)
theory Sessions
  imports Tokens
begin

text \<open>
  Sessions of Aegis: \<open>aegis/internal/domain/session.go\<close>, the port \<open>internal/ports/sessionManager.go\<close> and
  its two implementations, in Redis (\<open>adapters/session/redisSessionManager.go\<close>) and in memory
  (\<open>memorySessionManager.go\<close>), which is a stub.

  Redis is given by its commands (\<open>session_redis\<close>); \<open>session_redis_laws\<close> states what they do to the content,
  a map from keys to values. A value is the JSON text of a session, which the standard library writes
  and reads back, or something that is none. The manager in Redis keeps the contract \<open>session_manager\<close>
  of the client (interpretation \<open>redis\<close>); the one in memory does not.
\<close>

section \<open>Sessions\<close>

record session_meta =
  sm_IP :: string
  sm_UserAgent :: string
  sm_DeviceFingerprint :: string
  sm_Location :: string

definition SessionMetaDataParamsFromHTTP :: "request \<Rightarrow> session_meta" where
  "SessionMetaDataParamsFromHTTP r =
     \<lparr>sm_IP = rq_RemoteAddr r, sm_UserAgent = header_get r ''User-Agent'',
      sm_DeviceFingerprint = header_get r ''X-Device-Fingerprint'', sm_Location = header_get r ''X-Location''\<rparr>"

record session_data =
  sd_UserID :: string
  sd_SessionID :: string
  sd_IP :: string
  sd_UserAgent :: string
  sd_DeviceFingerprint :: string
  sd_Location :: string
  sd_CreatedAt :: time
  sd_LastLogin :: time
  sd_Roles :: role_map
  sd_AuthMethod :: string
  sd_Provider :: string
  sd_OAuthToken :: "oauth_token option"
  sd_Revoked :: bool

definition AuthMethodPassword :: string where
  "AuthMethodPassword = ''password''"

definition AuthMethodOAuth :: string where
  "AuthMethodOAuth = ''oauth''"

definition MakeSessionKey :: "string \<Rightarrow> string \<Rightarrow> string" where
  "MakeSessionKey userID sessionID = ''session:'' @ userID @ '':'' @ sessionID"

definition UserAndSessionIDFromSessionKey :: "string \<Rightarrow> (string \<times> string) option" where
  "UserAndSessionIDFromSessionKey sessionKey =
     (let parts = Split CHR '':'' sessionKey
      in if length parts \<noteq> 3 then None else Some (parts ! 1, parts ! 2))"

definition UserIDFromSessionKey :: "string \<Rightarrow> string option" where
  "UserIDFromSessionKey sessionKey =
     (let parts = Split CHR '':'' sessionKey in if length parts \<noteq> 3 then None else Some (parts ! 1))"

definition SessionIDFromSessionKey :: "string \<Rightarrow> string option" where
  "SessionIDFromSessionKey sessionKey =
     (let parts = Split CHR '':'' sessionKey in if length parts \<noteq> 3 then None else Some (parts ! 2))"

record session_create =
  sn_UserID :: string
  sn_Roles :: role_map
  sn_SessionParams :: session_meta
  sn_AuthMethod :: string
  sn_Provider :: string
  sn_OAuthToken :: "oauth_token option"

record session_update =
  sx_UserID :: string
  sx_Roles :: role_map
  sx_SessionParams :: "session_meta option"
  sx_AuthMethod :: string
  sx_Provider :: string
  sx_OAuthToken :: "oauth_token option"

datatype session_error = ErrSessionCreationFailed | ErrSessionNotFound | RedisNil | RedisError | BadSession

section \<open>The manager in Redis\<close>

datatype stored = Stored session_data | EmptyBytes | OtherBytes

datatype get_reply = GetErr | GetNil | GetBytes stored

text \<open>
  \<open>sr_set\<close>: \<open>SET\<close> with an expiry, zero for none; \<open>sr_scan\<close>: a step of \<open>SCAN\<close> from a cursor; \<open>sr_queued_ttl\<close>: what
  a \<open>TTL\<close> queued in a pipeline reports before the pipeline is executed; \<open>sr_exec_del\<close>: the execution of a
  pipeline with the given deletions.
\<close>

record 'r session_redis =
  sr_set :: "string \<Rightarrow> session_data \<Rightarrow> duration \<Rightarrow> 'r \<Rightarrow> bool \<times> 'r"
  sr_get :: "string \<Rightarrow> 'r \<Rightarrow> get_reply"
  sr_del :: "string \<Rightarrow> 'r \<Rightarrow> bool \<times> 'r"
  sr_scan :: "nat \<Rightarrow> string \<Rightarrow> int \<Rightarrow> 'r \<Rightarrow> (string list \<times> nat) option"
  sr_queued_ttl :: "string \<Rightarrow> 'r \<Rightarrow> duration option"
  sr_exec_del :: "string list \<Rightarrow> 'r \<Rightarrow> bool \<times> 'r"

text \<open>The field \<open>refreshTokenExpiration\<close> of the manager is never set, so that sessions do not expire.\<close>

definition refreshTokenExpiration :: duration where
  "refreshTokenExpiration = 0"

definition new_session :: "string \<Rightarrow> time \<Rightarrow> time \<Rightarrow> session_create \<Rightarrow> session_data" where
  "new_session sessionKey now1 now2 params =
     (let meta = sn_SessionParams params
      in \<lparr>sd_UserID = [], sd_SessionID = sessionKey, sd_IP = sm_IP meta, sd_UserAgent = sm_UserAgent meta,
          sd_DeviceFingerprint = sm_DeviceFingerprint meta, sd_Location = sm_Location meta, sd_CreatedAt = now1,
          sd_LastLogin = now2, sd_Roles = sn_Roles params, sd_AuthMethod = sn_AuthMethod params,
          sd_Provider = sn_Provider params, sd_OAuthToken = sn_OAuthToken params, sd_Revoked = False\<rparr>)"

definition CreateSession ::
  "'r session_redis \<Rightarrow> string \<Rightarrow> time \<Rightarrow> time \<Rightarrow> string \<Rightarrow> session_create \<Rightarrow> 'r \<Rightarrow> (session_error + string) \<times> 'r" where
  "CreateSession ops newID now1 now2 userID params r =
     (let sessionID = newID;
          sessionKey = MakeSessionKey userID sessionID;
          sessionData = new_session sessionKey now1 now2 params
      in case sr_set ops sessionKey sessionData refreshTokenExpiration r of
           (ok, r') \<Rightarrow> if \<not> ok then (Inl ErrSessionCreationFailed, r') else (Inr sessionID, r'))"

definition GetSession :: "'r session_redis \<Rightarrow> string \<Rightarrow> string \<Rightarrow> 'r \<Rightarrow> session_error + session_data option" where
  "GetSession ops sessionID userID r =
     (case sr_get ops (MakeSessionKey userID sessionID) r of
        GetErr \<Rightarrow> Inl RedisError
      | GetNil \<Rightarrow> Inl RedisNil
      | GetBytes EmptyBytes \<Rightarrow> Inl ErrSessionNotFound
      | GetBytes OtherBytes \<Rightarrow> Inl BadSession
      | GetBytes (Stored sessionData) \<Rightarrow>
          Inr (Some \<lparr>sd_UserID = [], sd_SessionID = sessionID, sd_IP = sd_IP sessionData,
            sd_UserAgent = sd_UserAgent sessionData, sd_DeviceFingerprint = sd_DeviceFingerprint sessionData,
            sd_Location = sd_Location sessionData, sd_CreatedAt = sd_CreatedAt sessionData,
            sd_LastLogin = sd_LastLogin sessionData, sd_Roles = sd_Roles sessionData, sd_AuthMethod = [],
            sd_Provider = [], sd_OAuthToken = None, sd_Revoked = False\<rparr>))"

definition getSessionData :: "'r session_redis \<Rightarrow> string \<Rightarrow> 'r \<Rightarrow> session_error + session_data" where
  "getSessionData ops sessionKey r =
     (case sr_get ops sessionKey r of
        GetErr \<Rightarrow> Inl RedisError
      | GetNil \<Rightarrow> Inl RedisNil
      | GetBytes (Stored sessionData) \<Rightarrow> Inr sessionData
      | GetBytes _ \<Rightarrow> Inl BadSession)"

definition apply_session_update :: "time \<Rightarrow> session_update \<Rightarrow> session_data \<Rightarrow> session_data" where
  "apply_session_update now params d =
     (let d1 = (case sx_SessionParams params of
                  None \<Rightarrow> d
                | Some meta \<Rightarrow> d\<lparr>sd_IP := sm_IP meta, sd_UserAgent := sm_UserAgent meta,
                    sd_DeviceFingerprint := sm_DeviceFingerprint meta, sd_Location := sm_Location meta\<rparr>);
          d2 = (if sx_Roles params \<noteq> None then d1\<lparr>sd_Roles := sx_Roles params\<rparr> else d1);
          d3 = (if sx_AuthMethod params \<noteq> [] then d2\<lparr>sd_AuthMethod := sx_AuthMethod params\<rparr> else d2);
          d4 = (if sx_Provider params \<noteq> [] then d3\<lparr>sd_Provider := sx_Provider params\<rparr> else d3);
          d5 = (if sx_OAuthToken params \<noteq> None then d4\<lparr>sd_OAuthToken := sx_OAuthToken params\<rparr> else d4)
      in d5\<lparr>sd_LastLogin := now\<rparr>)"

definition UpdateSession ::
  "'r session_redis \<Rightarrow> time \<Rightarrow> string \<Rightarrow> string \<Rightarrow> session_update \<Rightarrow> 'r \<Rightarrow> session_error option \<times> 'r" where
  "UpdateSession ops now userID sessionID params r =
     (let sessionKey = MakeSessionKey userID sessionID
      in case getSessionData ops sessionKey r of
           Inl err \<Rightarrow> (Some err, r)
         | Inr sessionData \<Rightarrow>
             (case sr_set ops sessionKey (apply_session_update now params sessionData) refreshTokenExpiration r of
                (ok, r') \<Rightarrow> if \<not> ok then (Some RedisError, r') else (None, r')))"

text \<open>The keys are read one by one; \<open>None\<close> stands for the nil maps with which the slice begins.\<close>

fun read_sessions :: "'r session_redis \<Rightarrow> string list \<Rightarrow> 'r \<Rightarrow> session_error + (string \<times> session_data) list" where
  "read_sessions ops [] r = Inr []"
| "read_sessions ops (key # keys) r =
     (case getSessionData ops key r of
        Inl err \<Rightarrow> Inl err
      | Inr d \<Rightarrow>
          (case read_sessions ops keys r of
             Inl err \<Rightarrow> Inl err
           | Inr ds \<Rightarrow>
               Inr ((key, \<lparr>sd_UserID = [], sd_SessionID = key, sd_IP = sd_IP d, sd_UserAgent = sd_UserAgent d,
                 sd_DeviceFingerprint = sd_DeviceFingerprint d, sd_Location = sd_Location d, sd_CreatedAt = time_zero,
                 sd_LastLogin = time_zero, sd_Roles = None, sd_AuthMethod = [], sd_Provider = [], sd_OAuthToken = None,
                 sd_Revoked = False\<rparr>) # ds)))"

definition user_pattern :: "string \<Rightarrow> string" where
  "user_pattern userID = ''session:'' @ userID @ '':*''"

definition ListSessionsByUser ::
  "'r session_redis \<Rightarrow> string \<Rightarrow> nat \<Rightarrow> int \<Rightarrow> 'r \<Rightarrow> session_error + (string \<times> session_data) option list \<times> nat" where
  "ListSessionsByUser ops userID cursor n r =
     (case sr_scan ops cursor (user_pattern userID) n r of
        None \<Rightarrow> Inl RedisError
      | Some (keys, nextCursor) \<Rightarrow>
          (case read_sessions ops keys r of
             Inl err \<Rightarrow> Inl err
           | Inr ds \<Rightarrow> Inr (replicate (length keys) None @ map Some ds, nextCursor)))"

definition InvalidateUserSession :: "'r session_redis \<Rightarrow> string \<Rightarrow> string \<Rightarrow> 'r \<Rightarrow> session_error option \<times> 'r" where
  "InvalidateUserSession ops userID sessionID r =
     (case sr_del ops (MakeSessionKey userID sessionID) r of
        (ok, r') \<Rightarrow> if \<not> ok then (Some RedisError, r') else (None, r'))"

text \<open>The keys of a batch whose time to live is reported as not positive; an error skips the key.\<close>

definition expired_keys :: "'r session_redis \<Rightarrow> string list \<Rightarrow> 'r \<Rightarrow> string list" where
  "expired_keys ops keys r = filter (\<lambda>key. case sr_queued_ttl ops key r of None \<Rightarrow> False | Some ttl \<Rightarrow> ttl \<le> 0) keys"

text \<open>The loop over the batches of a scan; \<open>None\<close> is a loop that does not end.\<close>

partial_function (option) cleanup_loop :: "'r session_redis \<Rightarrow> nat \<Rightarrow> 'r \<Rightarrow> (session_error option \<times> 'r) option" where
  "cleanup_loop ops cursor r =
     (case sr_scan ops cursor ''session:*'' 1000 r of
        None \<Rightarrow> Some (Some RedisError, r)
      | Some (keys, nextCursor) \<Rightarrow>
          (case (if keys \<noteq> [] then sr_exec_del ops (expired_keys ops keys r) r else (True, r)) of
             (ok, r') \<Rightarrow>
               if \<not> ok then Some (Some RedisError, r')
               else if nextCursor = 0 then Some (None, r') else cleanup_loop ops nextCursor r'))"

declare cleanup_loop.simps [code]

definition CleanupExpiredSessions :: "'r session_redis \<Rightarrow> 'r \<Rightarrow> (session_error option \<times> 'r) option" where
  "CleanupExpiredSessions ops r = cleanup_loop ops 0 r"

definition RevokeAllSessions :: "'r session_redis \<Rightarrow> string \<Rightarrow> 'r \<Rightarrow> session_error option \<times> 'r" where
  "RevokeAllSessions ops userID r =
     (case sr_del ops (user_pattern userID) r of (ok, r') \<Rightarrow> if \<not> ok then (Some RedisError, r') else (None, r'))"

section \<open>The port and its implementations\<close>

record 'r session_ops =
  so_CreateSession :: "string \<Rightarrow> time \<Rightarrow> time \<Rightarrow> string \<Rightarrow> session_create \<Rightarrow> 'r \<Rightarrow> (session_error + string) \<times> 'r"
  so_GetSession :: "string \<Rightarrow> string \<Rightarrow> 'r \<Rightarrow> session_error + session_data option"
  so_UpdateSession :: "time \<Rightarrow> string \<Rightarrow> string \<Rightarrow> session_update \<Rightarrow> 'r \<Rightarrow> session_error option \<times> 'r"
  so_InvalidateUserSession :: "string \<Rightarrow> string \<Rightarrow> 'r \<Rightarrow> session_error option \<times> 'r"
  so_RevokeAllSessions :: "string \<Rightarrow> 'r \<Rightarrow> session_error option \<times> 'r"

definition redis_manager :: "'r session_redis \<Rightarrow> 'r session_ops" where
  "redis_manager ops =
     \<lparr>so_CreateSession = CreateSession ops, so_GetSession = GetSession ops, so_UpdateSession = UpdateSession ops,
      so_InvalidateUserSession = InvalidateUserSession ops, so_RevokeAllSessions = RevokeAllSessions ops\<rparr>"

text \<open>The manager in memory: every method returns the zero values.\<close>

definition memory_manager :: "'r session_ops" where
  "memory_manager =
     \<lparr>so_CreateSession = (\<lambda>newID now1 now2 userID params r. (Inr [], r)),
      so_GetSession = (\<lambda>sessionID userID r. Inr None),
      so_UpdateSession = (\<lambda>now userID sessionID params r. (None, r)),
      so_InvalidateUserSession = (\<lambda>userID sessionID r. (None, r)),
      so_RevokeAllSessions = (\<lambda>userID r. (None, r))\<rparr>"

section \<open>What the client relies on\<close>

text \<open>An ID without a colon, as the IDs of sessions are.\<close>

definition plain :: "string \<Rightarrow> bool" where
  "plain i \<longleftrightarrow> CHR '':'' \<notin> set i"

text \<open>\<open>alive r u s\<close>: user \<open>u\<close> has the session \<open>s\<close>; \<open>up\<close>: the store answers.\<close>

locale session_manager =
  fixes so :: "'r session_ops"
    and inv :: "'r \<Rightarrow> bool"
    and up :: "'r \<Rightarrow> bool"
    and alive :: "'r \<Rightarrow> string \<Rightarrow> string \<Rightarrow> bool"
  assumes create_any: "inv r \<Longrightarrow> so_CreateSession so newID now1 now2 uid params r = (res, r') \<Longrightarrow>
      inv r' \<and> (\<forall>u s. plain s \<longrightarrow> plain newID \<longrightarrow> s \<noteq> newID \<longrightarrow> alive r' u s = alive r u s)"
    and create_ok: "inv r \<Longrightarrow> so_CreateSession so newID now1 now2 uid params r = (Inr sid, r') \<Longrightarrow> sid = newID \<and> alive r' uid newID"
    and get_alive: "inv r \<Longrightarrow> up r \<Longrightarrow> alive r uid sid \<Longrightarrow> \<exists>d. so_GetSession so sid uid r = Inr (Some d)"
    and get_some: "inv r \<Longrightarrow> so_GetSession so sid uid r = Inr found \<Longrightarrow> alive r uid sid \<and> (\<exists>d. found = Some d \<and> \<not> sd_Revoked d)"
    and update_any: "inv r \<Longrightarrow> so_UpdateSession so now uid sid changes r = (err, r') \<Longrightarrow> inv r' \<and> alive r' = alive r"
    and invalidate_any: "inv r \<Longrightarrow> so_InvalidateUserSession so uid sid r = (err, r') \<Longrightarrow>
      inv r' \<and> (\<forall>u s. alive r' u s \<longrightarrow> alive r u s) \<and> (err = None \<longrightarrow> \<not> alive r' uid sid)"
    and revoke_any: "inv r \<Longrightarrow> so_RevokeAllSessions so uid r = (err, r') \<Longrightarrow> inv r' \<and> (\<forall>u s. alive r' u s \<longrightarrow> alive r u s)"
begin

lemma get_dead: "inv r \<Longrightarrow> \<not> alive r uid sid \<Longrightarrow> \<exists>err. so_GetSession so sid uid r = Inl err"
  using get_some by (metis sum.exhaust)

end

text \<open>
  What Redis does: a successful \<open>SET\<close> without expiry or \<open>DEL\<close> changes the one key it names, a failed one may
  have taken effect or not; a \<open>GET\<close> that answers tells the content; a command queued in a pipeline has no
  result before the execution, so that its value is zero.
\<close>

definition session_redis_laws :: "'r session_redis \<Rightarrow> ('r \<Rightarrow> string \<Rightarrow> stored option) \<Rightarrow> bool" where
  "session_redis_laws ops content \<longleftrightarrow>
     (\<forall>k d r. content (snd (sr_set ops k d 0 r)) = (content r)(k \<mapsto> Stored d)
        \<or> \<not> fst (sr_set ops k d 0 r) \<and> content (snd (sr_set ops k d 0 r)) = content r)
     \<and> (\<forall>k r. content (snd (sr_del ops k r)) = (content r)(k := None)
        \<or> \<not> fst (sr_del ops k r) \<and> content (snd (sr_del ops k r)) = content r)
     \<and> (\<forall>k r. sr_get ops k r = GetErr
        \<or> sr_get ops k r = (case content r k of None \<Rightarrow> GetNil | Some v \<Rightarrow> GetBytes v))
     \<and> (\<forall>k r. sr_queued_ttl ops k r = Some 0)
     \<and> (\<forall>ks r. fst (sr_exec_del ops ks r) \<longrightarrow>
          content (snd (sr_exec_del ops ks r)) = (\<lambda>k. if k \<in> set ks then None else content r k))"

lemma redis_set:
  "session_redis_laws ops content \<Longrightarrow> sr_set ops k d 0 r = (ok, r') \<Longrightarrow>
   content r' = (content r)(k \<mapsto> Stored d) \<or> \<not> ok \<and> content r' = content r"
  unfolding session_redis_laws_def by (metis fst_conv snd_conv)

lemma redis_del:
  "session_redis_laws ops content \<Longrightarrow> sr_del ops k r = (ok, r') \<Longrightarrow>
   content r' = (content r)(k := None) \<or> \<not> ok \<and> content r' = content r"
  unfolding session_redis_laws_def by (metis fst_conv snd_conv)

lemma redis_get:
  "session_redis_laws ops content \<Longrightarrow> sr_get ops k r = GetErr \<or> sr_get ops k r = (case content r k of None \<Rightarrow> GetNil | Some v \<Rightarrow> GetBytes v)"
  unfolding session_redis_laws_def by blast

section \<open>The Redis manager keeps the contract\<close>

lemma session_key_inj:
  assumes "plain s" "plain s'" "MakeSessionKey u s = MakeSessionKey u' s'"
  shows "u = u' \<and> s = s'"
proof -
  have "SplitN2 CHR '':'' (rev s @ CHR '':'' # rev u) = [rev s, rev u]" "SplitN2 CHR '':'' (rev s' @ CHR '':'' # rev u') = [rev s', rev u']"
    using assms(1,2) by (simp_all add: plain_def SplitN2_append_sep)
  moreover have "rev (u @ CHR '':'' # s) = rev (u' @ CHR '':'' # s')" using assms(3) by (simp add: MakeSessionKey_def)
  then have "rev s @ CHR '':'' # rev u = rev s' @ CHR '':'' # rev u'" by simp
  ultimately show ?thesis by (metis list.inject rev_rev_ident)
qed

definition session_alive :: "('r \<Rightarrow> string \<Rightarrow> stored option) \<Rightarrow> 'r \<Rightarrow> string \<Rightarrow> string \<Rightarrow> bool" where
  "session_alive content r uid sid \<longleftrightarrow> (\<exists>d. content r (MakeSessionKey uid sid) = Some (Stored d))"

lemma getSessionData_alive:
  assumes "session_redis_laws ops content" "getSessionData ops k r = Inr d"
  shows "content r k = Some (Stored d)"
  using redis_get [OF assms(1), of k r] assms(2)
  by (auto simp: getSessionData_def split: get_reply.splits stored.splits option.splits)

lemma alive_set:
  assumes "content r' = (content r)(MakeSessionKey uid sid \<mapsto> Stored d)" "plain s" "plain sid" "s \<noteq> sid"
  shows "session_alive content r' u s = session_alive content r u s"
  using assms session_key_inj [OF assms(2,3), of u uid] by (auto simp: session_alive_def)

lemma alive_del:
  assumes "content r' = (content r)(k := None) \<or> content r' = content r" "session_alive content r' u s"
  shows "session_alive content r u s"
  using assms by (auto simp: session_alive_def split: if_splits)

lemma update_alive:
  assumes "session_redis_laws ops content" "UpdateSession ops now uid sid params r = (res, r')"
  shows "session_alive content r' = session_alive content r"
proof (cases "getSessionData ops (MakeSessionKey uid sid) r")
  case (Inl err)
  with assms(2) show ?thesis by (simp add: UpdateSession_def)
next
  case (Inr d)
  let ?k = "MakeSessionKey uid sid"
  let ?d = "apply_session_update now params d"
  obtain ok where set: "sr_set ops ?k ?d 0 r = (ok, r')"
    using assms(2) Inr by (auto simp: UpdateSession_def refreshTokenExpiration_def split: prod.splits if_splits)
  have old: "content r ?k = Some (Stored d)" by (rule getSessionData_alive [OF assms(1) Inr])
  from redis_set [OF assms(1) set] show ?thesis
  proof
    assume "content r' = (content r)(?k \<mapsto> Stored ?d)"
    with old show ?thesis by (intro ext) (simp add: session_alive_def)
  qed (simp add: session_alive_def fun_eq_iff)
qed

lemma create_alive:
  assumes "session_redis_laws ops content" "CreateSession ops newID now1 now2 uid params r = (res, r')"
  shows "(plain s \<and> plain newID \<and> s \<noteq> newID \<longrightarrow> session_alive content r' u s = session_alive content r u s)
    \<and> (\<forall>sid. res = Inr sid \<longrightarrow> sid = newID \<and> session_alive content r' uid newID)"
proof -
  let ?k = "MakeSessionKey uid newID"
  let ?d = "new_session ?k now1 now2 params"
  obtain ok where set: "sr_set ops ?k ?d 0 r = (ok, r')" "res = (if ok then Inr newID else Inl ErrSessionCreationFailed)"
    using assms(2) by (auto simp: CreateSession_def refreshTokenExpiration_def Let_def split: prod.splits if_splits)
  from redis_set [OF assms(1) set(1)] show ?thesis
  proof
    assume k: "content r' = (content r)(?k \<mapsto> Stored ?d)"
    then have "session_alive content r' uid newID" by (simp add: session_alive_def)
    with set(2) alive_set [where content = content, OF k] show ?thesis by auto
  next
    assume "\<not> ok \<and> content r' = content r"
    with set(2) show ?thesis by (simp add: session_alive_def)
  qed
qed

interpretation redis: session_manager "redis_manager ops" "\<lambda>r. session_redis_laws ops content"
    "\<lambda>r. \<forall>k. sr_get ops k r \<noteq> GetErr" "session_alive content"
  for ops :: "'r session_redis" and content
proof
  fix r r' :: 'r and newID uid sid u s and now now1 now2 :: time and params changes res err found
  assume laws: "session_redis_laws ops content"
  show "so_CreateSession (redis_manager ops) newID now1 now2 uid params r = (res, r') \<Longrightarrow>
      session_redis_laws ops content
      \<and> (\<forall>u s. plain s \<longrightarrow> plain newID \<longrightarrow> s \<noteq> newID \<longrightarrow> session_alive content r' u s = session_alive content r u s)"
    using create_alive [OF laws] laws by (simp add: redis_manager_def)
  show "so_CreateSession (redis_manager ops) newID now1 now2 uid params r = (Inr sid, r') \<Longrightarrow>
      sid = newID \<and> session_alive content r' uid newID"
    using create_alive [OF laws, of newID now1 now2 uid params r "Inr sid" r'] by (simp add: redis_manager_def)
  show "\<forall>k. sr_get ops k r \<noteq> GetErr \<Longrightarrow> session_alive content r uid sid \<Longrightarrow>
      \<exists>d. so_GetSession (redis_manager ops) sid uid r = Inr (Some d)"
    using redis_get [OF laws, of "MakeSessionKey uid sid" r]
    by (auto simp: redis_manager_def GetSession_def session_alive_def)
  show "so_GetSession (redis_manager ops) sid uid r = Inr found \<Longrightarrow>
      session_alive content r uid sid \<and> (\<exists>d. found = Some d \<and> \<not> sd_Revoked d)"
    using redis_get [OF laws, of "MakeSessionKey uid sid" r]
    by (auto simp: redis_manager_def GetSession_def session_alive_def split: get_reply.splits stored.splits option.splits)
  show "so_UpdateSession (redis_manager ops) now uid sid changes r = (err, r') \<Longrightarrow>
      session_redis_laws ops content \<and> session_alive content r' = session_alive content r"
    using update_alive [OF laws] laws by (simp add: redis_manager_def)
  show "session_redis_laws ops content \<and> (\<forall>u s. session_alive content r' u s \<longrightarrow> session_alive content r u s)
      \<and> (err = None \<longrightarrow> \<not> session_alive content r' uid sid)"
    if "so_InvalidateUserSession (redis_manager ops) uid sid r = (err, r')"
  proof -
    have "sr_del ops (MakeSessionKey uid sid) r = (err = None, r')"
      using that by (auto simp: redis_manager_def InvalidateUserSession_def split: prod.splits if_splits)
    note del = redis_del [OF laws this]
    moreover have "err = None \<longrightarrow> \<not> session_alive content r' uid sid" using del by (auto simp: session_alive_def)
    ultimately show ?thesis using alive_del [where content = content and r = r and r' = r'] laws by blast
  qed
  show "session_redis_laws ops content \<and> (\<forall>u s. session_alive content r' u s \<longrightarrow> session_alive content r u s)"
    if revoked: "so_RevokeAllSessions (redis_manager ops) uid r = (err, r')"
  proof -
    obtain ok where "sr_del ops (user_pattern uid) r = (ok, r')"
      using revoked by (auto simp: redis_manager_def RevokeAllSessions_def split: prod.splits if_splits)
    with redis_del [OF laws this] alive_del [where content = content and r = r and r' = r'] laws show ?thesis by blast
  qed
qed

section \<open>Properties\<close>

lemma session_key_roundtrip:
  "plain u \<Longrightarrow> plain s \<Longrightarrow> UserAndSessionIDFromSessionKey (MakeSessionKey u s) = Some (u, s)"
proof -
  assume a: "plain u" "plain s"
  have k: "MakeSessionKey u s = ''session'' @ CHR '':'' # u @ CHR '':'' # s" by (simp add: MakeSessionKey_def)
  have "Split CHR '':'' (MakeSessionKey u s) = [''session'', u, s]"
    unfolding k using a by (subst Split_append_sep) (simp_all add: Split_append_sep plain_def Split_no_sep)
  then show ?thesis by (simp add: UserAndSessionIDFromSessionKey_def)
qed

text \<open>The session that a GET gives back has lost what tells how it was opened.\<close>

lemma GetSession_forgets:
  "GetSession ops sid uid r = Inr (Some d) \<Longrightarrow> sd_AuthMethod d = [] \<and> sd_Provider d = [] \<and> sd_OAuthToken d = None \<and> \<not> sd_Revoked d"
  by (auto simp: GetSession_def split: get_reply.splits stored.splits)

text \<open>The list of the sessions of a user begins with as many nil maps as there are sessions.\<close>

lemma ListSessions_nil_maps:
  assumes "ListSessionsByUser ops userID cursor n r = Inr (sessions, next)"
  shows "\<exists>k ds. sessions = replicate k None @ map Some ds \<and> length ds = k"
proof -
  have "read_sessions ops keys r = Inr ds \<Longrightarrow> length ds = length keys" for keys ds
    by (induction keys arbitrary: ds) (auto split: sum.splits)
  with assms show ?thesis by (fastforce simp: ListSessionsByUser_def split: option.splits sum.splits)
qed

text \<open>A clean-up that completes in one batch has removed every session it saw, since none has an expiry yet.\<close>

lemma cleanup_removes_live:
  assumes "session_redis_laws ops content" "sr_scan ops 0 ''session:*'' 1000 r = Some (keys, 0)"
    and "MakeSessionKey uid sid \<in> set keys" "CleanupExpiredSessions ops r = Some (None, r')"
  shows "\<not> session_alive content r' uid sid"
proof -
  have ttl: "sr_queued_ttl ops k r = Some 0" for k using assms(1) unfolding session_redis_laws_def by blast
  have "expired_keys ops keys r = keys" by (simp add: expired_keys_def ttl)
  then have "sr_exec_del ops keys r = (True, r')" using assms(2,3,4)
    by (auto simp: CleanupExpiredSessions_def cleanup_loop.simps [of ops 0 r] split: prod.splits if_splits)
  moreover have "fst (sr_exec_del ops keys r) \<longrightarrow>
      content (snd (sr_exec_del ops keys r)) = (\<lambda>k. if k \<in> set keys then None else content r k)"
    using assms(1) unfolding session_redis_laws_def by blast
  ultimately show ?thesis using assms(3) by (simp add: session_alive_def)
qed

text \<open>Revoking all sessions of a user revokes none of them: the manager deletes the key that is spelled
  like the pattern, and every session of every user, but for one whose ID would be a star, is alive
  afterwards as it was before.\<close>

lemma revoke_all_revokes_none:
  assumes "session_redis_laws ops content" "RevokeAllSessions ops uid r = (res, r')" "plain s" "s \<noteq> ''*''"
  shows "session_alive content r' u s = session_alive content r u s"
proof -
  have k: "user_pattern uid = MakeSessionKey uid ''*''" by (simp add: user_pattern_def MakeSessionKey_def)
  have ne: "MakeSessionKey u s \<noteq> MakeSessionKey uid ''*''"
    using session_key_inj [OF assms(3), of "''*''" u uid] assms(4) by (auto simp: plain_def)
  obtain ok where "sr_del ops (MakeSessionKey uid ''*'') r = (ok, r')"
    using assms(2) by (auto simp: RevokeAllSessions_def k split: prod.splits if_splits)
  from redis_del [OF assms(1) this] ne show ?thesis by (auto simp: session_alive_def)
qed

section \<open>Sample\<close>

text \<open>A Redis that always answers, as a map from keys to values.\<close>

definition sample_session_redis :: "(string, stored) gomap session_redis" where
  "sample_session_redis =
     \<lparr>sr_set = (\<lambda>k d ttl r. (True, mput k (Stored d) r)),
      sr_get = (\<lambda>k r. case mget r k of None \<Rightarrow> GetNil | Some v \<Rightarrow> GetBytes v),
      sr_del = (\<lambda>k r. (True, mdel k r)), sr_scan = (\<lambda>cursor pattern n r. Some (mkeys r, 0)),
      sr_queued_ttl = (\<lambda>k r. Some 0), sr_exec_del = (\<lambda>ks r. (True, del_all ks r))\<rparr>"

lemma sample_session_laws: "session_redis_laws sample_session_redis mget"
  by (auto simp: session_redis_laws_def sample_session_redis_def mget_mput mget_mdel mget_del_all fun_eq_iff split: option.splits)

definition sample_meta :: session_meta where
  "sample_meta = \<lparr>sm_IP = ''10.0.0.1'', sm_UserAgent = [], sm_DeviceFingerprint = [], sm_Location = []\<rparr>"

definition sample_session_params :: session_create where
  "sample_session_params =
     \<lparr>sn_UserID = ''usr_u1'', sn_Roles = None, sn_SessionParams = sample_meta, sn_AuthMethod = AuthMethodPassword,
      sn_Provider = ''password'', sn_OAuthToken = None\<rparr>"

definition one_session :: "(string, stored) gomap" where
  "one_session = snd (CreateSession sample_session_redis ''s1'' 5 5 ''usr_u1'' sample_session_params [])"

lemma revoke_all_revokes_none_witness:
  "session_alive mget one_session ''usr_u1'' ''s1''
   \<and> session_alive mget (snd (RevokeAllSessions sample_session_redis ''usr_u1'' one_session)) ''usr_u1'' ''s1''"
proof -
  have a: "session_alive mget one_session ''usr_u1'' ''s1''"
    by (simp add: one_session_def CreateSession_def sample_session_redis_def session_alive_def Let_def)
  have "session_alive mget (snd (RevokeAllSessions sample_session_redis ''usr_u1'' one_session)) ''usr_u1'' ''s1''
      = session_alive mget one_session ''usr_u1'' ''s1''"
    by (rule revoke_all_revokes_none [OF sample_session_laws, of "''usr_u1''" _ "fst (RevokeAllSessions sample_session_redis ''usr_u1'' one_session)"])
       (simp_all add: plain_def)
  with a show ?thesis by simp
qed

end
