(* ===== verification/OAuth.thy ===== *)
theory OAuth
  imports Tokens
begin

text \<open>
  OAuth of Aegis (\<open>aegis/internal/adapters/oauth\<close>): the configured providers, the manager that sends a
  user to a provider and exchanges the code it comes back with, the store of the verifiers in between
  (contract \<open>verifier_storage\<close>, in memory and in Redis), and the request for the user's data.

  The package \<open>oauth2\<close> is an argument (\<open>oauth2_lib\<close>), as are the replies of the providers and the decoder of
  JSON. A verifier is good for one exchange (\<open>oauth_state_single_use\<close>). No request for the data of a
  user succeeds (\<open>GetUserInfo_none\<close>): the reply of Google is read twice, the second time at its end, and
  the other two providers are not finished.
\<close>

section \<open>Providers\<close>

record provider_config =
  po_Name :: string
  po_ClientID :: string
  po_ClientSecret :: string
  po_RedirectURL :: string
  po_Scopes :: "string list"

record oauth_config =
  oc_ClientID :: string
  oc_ClientSecret :: string
  oc_RedirectURL :: string
  oc_Scopes :: "string list"
  oc_Endpoint :: string

datatype oauth_error = ProviderNameRequired | IncompleteConfiguration string | ScopesRequired string
  | UnsupportedProvider string | ErrProviderRequired | ErrProviderNotFound | ErrCodeRequired | StateRequired
  | StateNotGenerated | VerifierNotStored | VerifierNotFound | ExchangeFailed | TokenSourceFailed | InvalidOAuthToken
  | UserInfoFailed | UserInfoStatus nat | UserInfoNotRead | UserInfoNotDecoded

text \<open>The endpoints of the package are named by the provider.\<close>

fun NewProviders :: "provider_config list \<Rightarrow> (string, oauth_config) gomap \<Rightarrow> oauth_error + (string, oauth_config) gomap" where
  "NewProviders [] providers = Inr providers"
| "NewProviders (cfg # configs) providers =
     (if po_Name cfg = [] then Inl ProviderNameRequired
      else if po_ClientID cfg = [] \<or> po_ClientSecret cfg = [] \<or> po_RedirectURL cfg = [] then Inl (IncompleteConfiguration (po_Name cfg))
      else if length (po_Scopes cfg) = 0 then Inl (ScopesRequired (po_Name cfg))
      else if po_Name cfg = ''google'' \<or> po_Name cfg = ''facebook'' then
        NewProviders configs
          (mput (po_Name cfg)
             \<lparr>oc_ClientID = po_ClientID cfg, oc_ClientSecret = po_ClientSecret cfg, oc_RedirectURL = po_RedirectURL cfg,
              oc_Scopes = po_Scopes cfg, oc_Endpoint = po_Name cfg\<rparr> providers)
      else Inl (UnsupportedProvider (po_Name cfg)))"

definition providers_Get :: "(string, oauth_config) gomap \<Rightarrow> string \<Rightarrow> oauth_config option" where
  "providers_Get p name = mget p name"

section \<open>The manager\<close>

text \<open>The store of verifiers: whether a write succeeded, and the value of a read that did.\<close>

record 'v verifier_ops =
  vs_Set :: "string \<Rightarrow> string \<Rightarrow> 'v \<Rightarrow> bool \<times> 'v"
  vs_Get :: "string \<Rightarrow> 'v \<Rightarrow> string option"
  vs_Del :: "string \<Rightarrow> 'v \<Rightarrow> bool \<times> 'v"

text \<open>The package \<open>oauth2\<close>, with the tokens that the providers answer.\<close>

record oauth2_lib =
  ol_AuthCodeURL :: "oauth_config \<Rightarrow> string \<Rightarrow> string \<Rightarrow> string"
  ol_Exchange :: "oauth_config \<Rightarrow> string \<Rightarrow> string \<Rightarrow> oauth_token option"
  ol_Token :: "oauth_config \<Rightarrow> string \<Rightarrow> oauth_token option"
  ol_Valid :: "oauth_token \<Rightarrow> bool"

text \<open>\<open>rnd\<close>: the encoded random state, \<open>None\<close> if the random source failed; \<open>verifier\<close>: the verifier drawn.\<close>

definition GenerateAuthURL ::
  "oauth2_lib \<Rightarrow> 'v verifier_ops \<Rightarrow> (string, oauth_config) gomap \<Rightarrow> string option \<Rightarrow> string \<Rightarrow> string \<Rightarrow> 'v
    \<Rightarrow> (oauth_error + string \<times> string) \<times> 'v" where
  "GenerateAuthURL lib vs providers rnd verifier providerName v =
     (if providerName = [] then (Inl ErrProviderRequired, v)
      else (case providers_Get providers providerName of
              None \<Rightarrow> (Inl ErrProviderNotFound, v)
            | Some config \<Rightarrow>
                (case rnd of
                   None \<Rightarrow> (Inl StateNotGenerated, v)
                 | Some state \<Rightarrow>
                     let authURL = ol_AuthCodeURL lib config state verifier
                     in case vs_Set vs state verifier v of
                          (ok, v') \<Rightarrow> if \<not> ok then (Inl VerifierNotStored, v') else (Inr (authURL, state), v'))))"

text \<open>The deferred deletion of the verifier; its error is only printed.\<close>

definition ExchangeCode ::
  "oauth2_lib \<Rightarrow> 'v verifier_ops \<Rightarrow> (string, oauth_config) gomap \<Rightarrow> string \<Rightarrow> string \<Rightarrow> string \<Rightarrow> 'v
    \<Rightarrow> (oauth_error + oauth_token) \<times> 'v" where
  "ExchangeCode lib vs providers providerName code state v =
     (if providerName = [] then (Inl ErrProviderRequired, v)
      else (case providers_Get providers providerName of
              None \<Rightarrow> (Inl ErrProviderNotFound, v)
            | Some config \<Rightarrow>
                if code = [] then (Inl ErrCodeRequired, v)
                else if state = [] then (Inl StateRequired, v)
                else (case vs_Get vs state v of
                        None \<Rightarrow> (Inl VerifierNotFound, v)
                      | Some verifier \<Rightarrow>
                          (case ol_Exchange lib config code verifier of
                             None \<Rightarrow> (Inl ExchangeFailed, snd (vs_Del vs state v))
                           | Some token \<Rightarrow> (Inr token, snd (vs_Del vs state v))))))"

definition oauth_RefreshToken ::
  "oauth2_lib \<Rightarrow> (string, oauth_config) gomap \<Rightarrow> string \<Rightarrow> string \<Rightarrow> oauth_error + oauth_token" where
  "oauth_RefreshToken lib providers providerName refreshToken =
     (if providerName = [] then Inl ErrProviderRequired
      else (case providers_Get providers providerName of
              None \<Rightarrow> Inl ErrProviderNotFound
            | Some config \<Rightarrow> (case ol_Token lib config refreshToken of None \<Rightarrow> Inl TokenSourceFailed | Some t \<Rightarrow> Inr t)))"

section \<open>The data of a user\<close>

record user_info =
  ui_Email :: string
  ui_FirstName :: string
  ui_LastName :: string
  ui_UserID :: string
  ui_AvatarURL :: string

text \<open>The reply of a provider: a failed request, or a status and a body that can be read or not.\<close>

datatype info_reply = NoInfo | InfoReply nat "string option"

text \<open>
  The reply of Google: the body is read to its end, and then the decoder reads on. \<open>decode\<close> gives the fields
  of the user from a text, \<open>raw\<close> whether the text is a JSON object.
\<close>

definition getGoogleUserInfo :: "(string \<Rightarrow> user_info option) \<Rightarrow> (string \<Rightarrow> bool) \<Rightarrow> info_reply \<Rightarrow> oauth_error + user_info option" where
  "getGoogleUserInfo decode raw reply =
     (case reply of
        NoInfo \<Rightarrow> Inl UserInfoFailed
      | InfoReply code body \<Rightarrow>
          if code \<noteq> 200 then Inl (UserInfoStatus code)
          else (case body of
                  None \<Rightarrow> Inl UserInfoNotRead
                | Some respBytes \<Rightarrow>
                    let unread = drop (length respBytes) respBytes
                    in case decode unread of
                         None \<Rightarrow> Inl UserInfoNotDecoded
                       | Some user \<Rightarrow> if \<not> raw respBytes then Inl UserInfoNotDecoded else Inr (Some user)))"

text \<open>Twitter and Facebook: the data are not read, and the result is the nil pointer.\<close>

definition getOtherUserInfo :: "info_reply \<Rightarrow> oauth_error + user_info option" where
  "getOtherUserInfo reply =
     (case reply of
        NoInfo \<Rightarrow> Inl UserInfoFailed
      | InfoReply code body \<Rightarrow> if code \<noteq> 200 then Inl (UserInfoStatus code) else Inr None)"

definition GetUserInfo ::
  "oauth2_lib \<Rightarrow> (string \<Rightarrow> user_info option) \<Rightarrow> (string \<Rightarrow> bool) \<Rightarrow> info_reply \<Rightarrow> string \<Rightarrow> oauth_token
    \<Rightarrow> oauth_error + user_info option" where
  "GetUserInfo lib decode raw reply provider token =
     (if \<not> ol_Valid lib token then Inl InvalidOAuthToken
      else if provider = ''google'' then getGoogleUserInfo decode raw reply
      else if provider = ''twitter'' then getOtherUserInfo reply
      else if provider = ''facebook'' then getOtherUserInfo reply
      else Inl (UnsupportedProvider provider))"

lemma GetUserInfo_none: "decode [] = None \<Longrightarrow> GetUserInfo lib decode raw reply provider token \<noteq> Inr (Some info)"
  by (auto simp: GetUserInfo_def getGoogleUserInfo_def getOtherUserInfo_def split: info_reply.splits option.splits)

section \<open>Stores of verifiers\<close>

text \<open>In memory.\<close>

definition memory_verifiers :: "(string, string) gomap verifier_ops" where
  "memory_verifiers =
     \<lparr>vs_Set = (\<lambda>state verifier v. (True, mput state verifier v)), vs_Get = (\<lambda>state v. mget v state),
      vs_Del = (\<lambda>state v. (True, mdel state v))\<rparr>"

text \<open>In Redis, with its \<open>SET\<close> without expiry, \<open>GET\<close> and \<open>DEL\<close>.\<close>

definition redis_verifiers ::
  "(string \<Rightarrow> string \<Rightarrow> 'v \<Rightarrow> bool \<times> 'v) \<Rightarrow> (string \<Rightarrow> 'v \<Rightarrow> string option) \<Rightarrow> (string \<Rightarrow> 'v \<Rightarrow> bool \<times> 'v) \<Rightarrow> 'v verifier_ops" where
  "redis_verifiers set_cmd get_cmd del_cmd = \<lparr>vs_Set = set_cmd, vs_Get = get_cmd, vs_Del = del_cmd\<rparr>"

locale verifier_storage =
  fixes vs :: "'v verifier_ops"
    and holds :: "'v \<Rightarrow> string \<Rightarrow> string option"
    and reliable :: "'v \<Rightarrow> bool"
  assumes set_ok: "reliable v \<Longrightarrow> vs_Set vs state verifier v = (ok, v') \<Longrightarrow> ok \<and> reliable v' \<and> holds v' = (holds v)(state \<mapsto> verifier)"
    and get_ok: "reliable v \<Longrightarrow> vs_Get vs state v = holds v state"
    and del_ok: "reliable v \<Longrightarrow> vs_Del vs state v = (ok, v') \<Longrightarrow> ok \<and> reliable v' \<and> holds v' = (holds v)(state := None)"
begin

lemma ExchangeCode_holds:
  assumes "reliable v" "ExchangeCode lib vs providers p code state v = (res, v')"
  shows "reliable v' \<and> (case res of Inr t \<Rightarrow> holds v state \<noteq> None \<and> holds v' = (holds v)(state := None)
    | Inl err \<Rightarrow> holds v' = holds v \<or> holds v' = (holds v)(state := None))"
proof -
  obtain ok v2 where del: "vs_Del vs state v = (ok, v2)" by fastforce
  from del_ok [OF assms(1) del] have "reliable v2" "holds v2 = (holds v)(state := None)" by auto
  then show ?thesis using assms del get_ok [OF assms(1), of state]
    by (auto simp: ExchangeCode_def split: if_splits option.splits)
qed

text \<open>Without a verifier there is no exchange, and an exchange uses the verifier up.\<close>

lemma ExchangeCode_unknown:
  "reliable v \<Longrightarrow> holds v state = None \<Longrightarrow> \<exists>err. ExchangeCode lib vs providers p code state v = (Inl err, v)"
  using get_ok [of v state] by (auto simp: ExchangeCode_def split: option.splits)

lemma GenerateAuthURL_holds:
  assumes "reliable v" "GenerateAuthURL lib vs providers rnd verifier p v = (res, v')"
  shows "reliable v' \<and> (holds v' = holds v \<or> (\<exists>state. rnd = Some state \<and> holds v' = (holds v)(state \<mapsto> verifier)))"
proof (cases rnd)
  case None
  with assms show ?thesis by (auto simp: GenerateAuthURL_def split: if_splits option.splits)
next
  case (Some state)
  obtain ok v2 where set: "vs_Set vs state verifier v = (ok, v2)" by fastforce
  from set_ok [OF assms(1) set] have "reliable v2" "holds v2 = (holds v)(state \<mapsto> verifier)" by auto
  with assms Some set show ?thesis by (auto simp: GenerateAuthURL_def split: if_splits option.splits)
qed

end

interpretation verifiers: verifier_storage memory_verifiers mget "\<lambda>v. True"
  by unfold_locales (auto simp: memory_verifiers_def mget_mput_fun mget_mdel fun_eq_iff)

text \<open>A Redis that answers every command satisfies the contract too.\<close>

definition redis_reliable ::
  "(string \<Rightarrow> string \<Rightarrow> 'v \<Rightarrow> bool \<times> 'v) \<Rightarrow> (string \<Rightarrow> 'v \<Rightarrow> string option) \<Rightarrow> (string \<Rightarrow> 'v \<Rightarrow> bool \<times> 'v) \<Rightarrow> bool" where
  "redis_reliable set_cmd get_cmd del_cmd \<longleftrightarrow>
     (\<forall>k x v. fst (set_cmd k x v) \<and> (\<forall>k'. get_cmd k' (snd (set_cmd k x v)) = (if k' = k then Some x else get_cmd k' v)))
     \<and> (\<forall>k v. fst (del_cmd k v) \<and> (\<forall>k'. get_cmd k' (snd (del_cmd k v)) = (if k' = k then None else get_cmd k' v)))"

interpretation redis_verifiers: verifier_storage "redis_verifiers set_cmd get_cmd del_cmd" "\<lambda>v k. get_cmd k v"
    "\<lambda>v. redis_reliable set_cmd get_cmd del_cmd"
  for set_cmd get_cmd del_cmd
proof
  fix v v' state verifier ok
  assume rel: "redis_reliable set_cmd get_cmd del_cmd"
  show "vs_Set (redis_verifiers set_cmd get_cmd del_cmd) state verifier v = (ok, v') \<Longrightarrow>
      ok \<and> redis_reliable set_cmd get_cmd del_cmd \<and> (\<lambda>k. get_cmd k v') = (\<lambda>k. get_cmd k v)(state \<mapsto> verifier)"
    using rel unfolding redis_verifiers_def redis_reliable_def fun_eq_iff by simp (metis fst_conv snd_conv)
  show "vs_Get (redis_verifiers set_cmd get_cmd del_cmd) state v = get_cmd state v" by (simp add: redis_verifiers_def)
  show "vs_Del (redis_verifiers set_cmd get_cmd del_cmd) state v = (ok, v') \<Longrightarrow>
      ok \<and> redis_reliable set_cmd get_cmd del_cmd \<and> (\<lambda>k. get_cmd k v') = (\<lambda>k. get_cmd k v)(state := None)"
    using rel unfolding redis_verifiers_def redis_reliable_def fun_eq_iff by simp (metis fst_conv snd_conv)
qed

section \<open>Histories\<close>

datatype oauth_act = ActLogin "string option" string string | ActCallback string string string

fun oauth_do :: "oauth2_lib \<Rightarrow> (string, oauth_config) gomap \<Rightarrow> oauth_act \<Rightarrow> (string, string) gomap \<Rightarrow> (string, string) gomap" where
  "oauth_do lib providers (ActLogin rnd verifier p) v = snd (GenerateAuthURL lib memory_verifiers providers rnd verifier p v)"
| "oauth_do lib providers (ActCallback p code state) v = snd (ExchangeCode lib memory_verifiers providers p code state v)"

lemma oauth_do_unknown:
  "mget v state = None \<Longrightarrow> (\<forall>verifier p. act \<noteq> ActLogin (Some state) verifier p) \<Longrightarrow> mget (oauth_do lib providers act v) state = None"
proof (induction act)
  case (ActLogin rnd verifier p)
  then show ?case
    using verifiers.GenerateAuthURL_holds [OF TrueI prod.collapse [symmetric], of lib providers rnd verifier p v]
    by (auto split: if_splits)
next
  case (ActCallback p code s)
  then show ?case
    using verifiers.ExchangeCode_holds [OF TrueI prod.collapse [symmetric], of lib providers p code s v]
    by (auto simp: fun_eq_iff split: sum.splits)
qed

lemma oauth_dos_unknown:
  "mget v state = None \<Longrightarrow> (\<forall>verifier p. ActLogin (Some state) verifier p \<notin> set acts) \<Longrightarrow>
   mget (fold (oauth_do lib providers) acts v) state = None"
proof (induction acts arbitrary: v)
  case (Cons act acts)
  then have "mget (oauth_do lib providers act v) state = None" by (intro oauth_do_unknown) auto
  with Cons show ?case by simp
qed simp

text \<open>A state that Aegis sent out is good for one exchange with the provider: once a callback with it has
  succeeded, no callback with it succeeds again, whatever else happens, until the same state is drawn
  for another login.\<close>

lemma oauth_state_single_use:
  assumes "ExchangeCode lib memory_verifiers providers p code state v = (Inr token, v')"
    and "\<forall>verifier q. ActLogin (Some state) verifier q \<notin> set acts"
  shows "\<exists>err. ExchangeCode lib memory_verifiers providers p' code' state (fold (oauth_do lib providers) acts v')
    = (Inl err, fold (oauth_do lib providers) acts v')"
proof -
  have "mget v' = (mget v)(state := None)" using verifiers.ExchangeCode_holds [OF TrueI assms(1)] by simp
  then have "mget v' state = None" by simp
  from verifiers.ExchangeCode_unknown [OF TrueI oauth_dos_unknown [OF this assms(2)]] show ?thesis by blast
qed

definition sample_lib :: oauth2_lib where
  "sample_lib =
     \<lparr>ol_AuthCodeURL = (\<lambda>config state verifier. ''https://login/?state='' @ state),
      ol_Exchange = (\<lambda>config code verifier. if code = ''code'' then Some \<lparr>ot_AccessToken = ''a'', ot_RefreshToken = ''r'', ot_Expiry = 9, ot_Provider = []\<rparr> else None),
      ol_Token = (\<lambda>config refresh. None), ol_Valid = (\<lambda>t. True)\<rparr>"

definition sample_providers :: "(string, oauth_config) gomap" where
  "sample_providers = [(''google'', \<lparr>oc_ClientID = ''id'', oc_ClientSecret = ''x'', oc_RedirectURL = ''/cb'', oc_Scopes = [''email''],
     oc_Endpoint = ''google''\<rparr>)]"

lemma oauth_state_single_use_witness:
  "is_ok (fst (ExchangeCode sample_lib memory_verifiers sample_providers ''google'' ''code'' ''s1'' [(''s1'', ''v1'')]))
   \<and> (\<exists>err. ExchangeCode sample_lib memory_verifiers sample_providers ''google'' ''code'' ''s1''
        (fold (oauth_do sample_lib sample_providers) [ActLogin (Some ''s2'') ''v2'' ''google''] [])
      = (Inl err, fold (oauth_do sample_lib sample_providers) [ActLogin (Some ''s2'') ''v2'' ''google''] []))"
proof -
  let ?t = "\<lparr>ot_AccessToken = ''a'', ot_RefreshToken = ''r'', ot_Expiry = 9, ot_Provider = []\<rparr>"
  have ok: "ExchangeCode sample_lib memory_verifiers sample_providers ''google'' ''code'' ''s1'' [(''s1'', ''v1'')] = (Inr ?t, [])"
    by code_simp
  show ?thesis
    using oauth_state_single_use [OF ok, of "[ActLogin (Some ''s2'') ''v2'' ''google'']" "''google''" "''code''"] ok
    by (simp del: fold_simps)
qed

end
