(* ===== verification/AegisAuth.thy ===== *)
theory AegisAuth
  imports UserStore Sessions OAuth
begin

text \<open>
  The authentication manager of Aegis (\<open>aegis/internal/service/auth_manager.go\<close>, \<open>logout.go\<close>), with its
  middleware and handlers (\<open>internal/adapters/http/middleware.go\<close>, \<open>auth_handlers.go\<close>, \<open>helpers.go\<close>): registration,
  login, validation and refresh of tokens, logout and OAuth, over any session manager (contract
  \<open>session_manager\<close>), any repository of users (contract \<open>user_repository\<close>) and the token manager.

  \<open>aegis_env\<close> holds the interfaces the manager calls, \<open>aegis\<close> its state: the token manager, the contents of the
  stores and the event bus that stands behind \<open>tokenRevoker\<close>. What a call draws (identifiers, salt, readings
  of the clock, the order of a loop over a map) is a record \<open>auth_draw\<close>. A dereferenced nil pointer is the
  error \<open>Panic\<close>.
\<close>

section \<open>State\<close>

record ('priv, 'r, 'u, 'v) aegis_env =
  en_user :: user_env
  en_repo :: "'u user_repo"
  en_so :: "'r session_ops"
  en_jwt :: "'priv jwt_ops"
  en_vs :: "'v verifier_ops"
  en_lib :: oauth2_lib
  en_providers :: "(string, oauth_config) gomap"
  en_sql_no_rows :: bool
  en_decode :: "string \<Rightarrow> user_info option"
  en_raw :: "string \<Rightarrow> bool"
  en_revoke_status :: "string \<Rightarrow> oauth_token \<Rightarrow> nat option"

text \<open>
  \<open>en_sql_no_rows\<close>: whether the driver's error for no rows is \<open>sql.ErrNoRows\<close>; \<open>en_decode\<close>, \<open>en_raw\<close>: the decoders of
  theory \<open>OAuth\<close>; \<open>en_revoke_status\<close>: the status that a provider answers to the revocation of a token.
\<close>

record ('priv, 'r, 'u, 'v) aegis =
  ag_tokens :: "'priv token_manager"
  ag_sessions :: 'r
  ag_users :: 'u
  ag_verifiers :: 'v
  ag_bus :: "auth_event event_bus option"

record auth_draw =
  dr_salt :: "string option"
  dr_userID :: uuid
  dr_sessionID :: string
  dr_jti :: string
  dr_order :: "uuid list"
  dr_created :: time
  dr_login :: time
  dr_pair :: pair_clock
  dr_parse :: time
  dr_check :: time

datatype auth_error = AuthUser user_error | AuthHash hash_error | AuthSession session_error | AuthToken token_error
  | AuthOAuth oauth_error | ErrInvalidCredentials | ErrInvalidToken | ErrInvalidSession | ErrTokenRevoked | SigningFailed
  | ErrInvalidUserID | ErrInvalidSessionID | ProviderLogoutFailed | Panic

definition SetTokenRevoker :: "auth_event event_bus \<Rightarrow> ('priv, 'r, 'u, 'v) aegis \<Rightarrow> ('priv, 'r, 'u, 'v) aegis" where
  "SetTokenRevoker revoker st = st\<lparr>ag_bus := Some revoker\<rparr>"

section \<open>Construction\<close>

text \<open>The part of \<open>NewAuthManager\<close> that depends on the configuration alone. Durations are 64-bit integers.\<close>

datatype config_error = NilDependency | InvalidSessionManager string | ExpirationNotPositive | BadProviders oauth_error

record auth_config =
  ac_SessionManager :: string
  ac_AccessTokenExpiration :: duration
  ac_RefreshTokenExpiration :: duration
  ac_TokenRotationInterval :: duration
  ac_JWTIssuer :: string
  ac_Providers :: "provider_config list"

record 'priv auth_settings =
  as_tokenManager :: "'priv token_manager"
  as_providers :: "(string, oauth_config) gomap"
  as_tokenExpiration :: duration
  as_refreshTokenExpiration :: duration
  as_tokenRotationInterval :: duration

definition NewAuthManager :: "'priv key_manager \<Rightarrow> auth_config \<Rightarrow> config_error + 'priv auth_settings" where
  "NewAuthManager keyManager cfg =
     (if ac_SessionManager cfg \<noteq> ''redis'' \<and> ac_SessionManager cfg \<noteq> ''memory'' then Inl (InvalidSessionManager (ac_SessionManager cfg))
      else if ac_AccessTokenExpiration cfg < 1 then Inl ExpirationNotPositive
      else (case NewProviders (ac_Providers cfg) [] of
              Inl err \<Rightarrow> Inl (BadProviders err)
            | Inr oauthProviders \<Rightarrow>
                Inr \<lparr>as_tokenManager = NewTokenManager keyManager (ac_JWTIssuer cfg) (ac_AccessTokenExpiration cfg) (ac_RefreshTokenExpiration cfg),
                  as_providers = oauthProviders,
                  as_tokenExpiration = wrap64 (ac_AccessTokenExpiration cfg * hours 1),
                  as_refreshTokenExpiration = wrap64 (ac_RefreshTokenExpiration cfg * hours 1),
                  as_tokenRotationInterval = wrap64 (ac_TokenRotationInterval cfg * hours 1)\<rparr>))"

section \<open>Users\<close>

definition GetUserByID :: "('priv, 'r, 'u, 'v) aegis_env \<Rightarrow> string \<Rightarrow> ('priv, 'r, 'u, 'v) aegis \<Rightarrow> auth_error + user option" where
  "GetUserByID env userID st =
     (case Users.GetByID (en_user env) (en_repo env) userID (ag_users st) of
        Inl err \<Rightarrow> if err = UserNoRows \<and> en_sql_no_rows env then Inl (AuthUser ErrUserNotFound) else Inl (AuthUser err)
      | Inr usr \<Rightarrow> Inr usr)"

definition GetUserByEmail :: "('priv, 'r, 'u, 'v) aegis_env \<Rightarrow> string \<Rightarrow> ('priv, 'r, 'u, 'v) aegis \<Rightarrow> auth_error + user option" where
  "GetUserByEmail env email st =
     (let normalizedEmail = ToLower (TrimSpace email)
      in case Users.GetByEmail (en_repo env) normalizedEmail (ag_users st) of
           Inl err \<Rightarrow> if err = UserNoRows \<and> en_sql_no_rows env then Inl (AuthUser ErrUserNotFound) else Inl (AuthUser err)
         | Inr usr \<Rightarrow> Inr usr)"

section \<open>Login\<close>

definition make_pair ::
  "('priv, 'r, 'u, 'v) aegis_env \<Rightarrow> auth_draw \<Rightarrow> ('priv, 'r, 'u, 'v) aegis \<Rightarrow> string \<Rightarrow> string \<Rightarrow> string \<Rightarrow> role_map \<Rightarrow> oauth_token option
    \<Rightarrow> token_pair option" where
  "make_pair env dr st = GenerateTokenPair (en_jwt env) (dr_order dr) (dr_pair dr) (dr_jti dr) (ag_tokens st)"

definition start_session ::
  "('priv, 'r, 'u, 'v) aegis_env \<Rightarrow> auth_draw \<Rightarrow> string \<Rightarrow> session_create \<Rightarrow> ('priv, 'r, 'u, 'v) aegis
    \<Rightarrow> (session_error + string) \<times> ('priv, 'r, 'u, 'v) aegis" where
  "start_session env dr userID params st =
     (case so_CreateSession (en_so env) (dr_sessionID dr) (dr_created dr) (dr_login dr) userID params (ag_sessions st) of
        (res, r') \<Rightarrow> (res, st\<lparr>ag_sessions := r'\<rparr>))"

definition RegisterUser ::
  "('priv, 'r, 'u, 'v) aegis_env \<Rightarrow> auth_draw \<Rightarrow> user_create_params \<Rightarrow> session_meta \<Rightarrow> ('priv, 'r, 'u, 'v) aegis
    \<Rightarrow> (auth_error + token_pair \<times> string) \<times> ('priv, 'r, 'u, 'v) aegis" where
  "RegisterUser env dr params meta st =
     (case Users.Create (en_user env) (en_repo env) (dr_salt dr) (dr_userID dr) params (ag_users st) of
        (Inl err, u') \<Rightarrow> (Inl (AuthUser err), st\<lparr>ag_users := u'\<rparr>)
      | (Inr user, u') \<Rightarrow>
          let st1 = st\<lparr>ag_users := u'\<rparr>;
              sessionParams = \<lparr>sn_UserID = FormatID user, sn_Roles = Some [], sn_SessionParams = meta,
                sn_AuthMethod = AuthMethodPassword, sn_Provider = uc_Provider params, sn_OAuthToken = None\<rparr>
          in case start_session env dr (FormatID user) sessionParams st1 of
               (Inl err, st2) \<Rightarrow>
                 (Inl (AuthSession err),
                  st2\<lparr>ag_users := snd (Users.Delete (en_user env) (en_repo env) (FormatID user) (ag_users st2))\<rparr>)
             | (Inr sessionID, st2) \<Rightarrow>
                 (case make_pair env dr st2 (FormatID user) sessionID (uc_Provider params) (Some []) None of
                    None \<Rightarrow> (Inl SigningFailed, st2)
                  | Some tokenPair \<Rightarrow> (Inr (tokenPair, sessionID), st2)))"

text \<open>The address that no user has gives the nil user, whose password hash is then read.\<close>

definition AuthenticateWithPassword ::
  "('priv, 'r, 'u, 'v) aegis_env \<Rightarrow> auth_draw \<Rightarrow> string \<Rightarrow> string \<Rightarrow> session_meta \<Rightarrow> ('priv, 'r, 'u, 'v) aegis
    \<Rightarrow> (auth_error + token_pair \<times> string) \<times> ('priv, 'r, 'u, 'v) aegis" where
  "AuthenticateWithPassword env dr email password meta st =
     (case GetUserByEmail env email st of
        Inl err \<Rightarrow> (Inl err, st)
      | Inr None \<Rightarrow> (Inl Panic, st)
      | Inr (Some user) \<Rightarrow>
          (case ValidatePasswordHash (en_user env) password user of
             Inl err \<Rightarrow> (Inl (AuthHash err), st)
           | Inr valid \<Rightarrow>
               if \<not> valid then (Inl ErrInvalidCredentials, st)
               else
                 let roles = us_Roles user;
                     sessionParams = \<lparr>sn_UserID = FormatID user, sn_Roles = roles, sn_SessionParams = meta,
                       sn_AuthMethod = AuthMethodPassword, sn_Provider = AuthProviderPassword, sn_OAuthToken = None\<rparr>
                 in case start_session env dr (FormatID user) sessionParams st of
                      (Inl err, st1) \<Rightarrow> (Inl (AuthSession err), st1)
                    | (Inr sessionID, st1) \<Rightarrow>
                        (case make_pair env dr st1 (FormatID user) sessionID AuthProviderPassword roles None of
                           None \<Rightarrow> (Inl SigningFailed, st1)
                         | Some tokenPair \<Rightarrow> (Inr (tokenPair, sessionID), st1))))"

section \<open>Validation\<close>

definition ValidateAccessToken ::
  "('priv, 'r, 'u, 'v) aegis_env \<Rightarrow> auth_draw \<Rightarrow> string \<Rightarrow> ('priv, 'r, 'u, 'v) aegis \<Rightarrow> auth_error + aegis_context" where
  "ValidateAccessToken env dr tokenString st =
     (case aegis_ValidateToken (en_jwt env) (dr_parse dr) (dr_check dr) (ag_tokens st) tokenString of
        Inl NilExpiry \<Rightarrow> Inl Panic
      | Inl ErrTokenExpired \<Rightarrow> Inl (AuthToken ErrTokenExpired)
      | Inl _ \<Rightarrow> Inl ErrInvalidToken
      | Inr claims \<Rightarrow>
          (case so_GetSession (en_so env) (cl_SessionID claims) (cl_Subject claims) (ag_sessions st) of
             Inl ErrSessionNotFound \<Rightarrow> Inl ErrInvalidSession
           | Inl err \<Rightarrow> Inl (AuthSession err)
           | Inr None \<Rightarrow> Inl Panic
           | Inr (Some session) \<Rightarrow>
               if sd_Revoked session then Inl ErrTokenRevoked else Inr (aegis_GetUserContextData claims)))"

section \<open>Logout\<close>

text \<open>The request of revocation to a provider: an error, or a status that must be the one given.\<close>

definition revoke_at :: "('priv, 'r, 'u, 'v) aegis_env \<Rightarrow> string \<Rightarrow> nat \<Rightarrow> oauth_token option \<Rightarrow> bool" where
  "revoke_at env provider code oauthToken =
     (case oauthToken of None \<Rightarrow> True | Some t \<Rightarrow> en_revoke_status env provider t = Some code)"

definition githubLogout :: "('priv, 'r, 'u, 'v) aegis_env \<Rightarrow> oauth_token option \<Rightarrow> bool" where
  "githubLogout env oauthToken =
     (if oauthToken = None then True
      else (case providers_Get (en_providers env) ''github'' of
              None \<Rightarrow> True
            | Some config \<Rightarrow>
                if oc_ClientID config = [] \<or> oc_ClientSecret config = [] then True
                else revoke_at env ''github'' 204 oauthToken))"

definition providerLogout :: "('priv, 'r, 'u, 'v) aegis_env \<Rightarrow> string \<Rightarrow> oauth_token option \<Rightarrow> bool" where
  "providerLogout env provider oauthToken =
     (if provider = ''facebook'' then revoke_at env ''facebook'' 200 oauthToken
      else if provider = ''google'' then revoke_at env ''google'' 200 oauthToken
      else if provider = ''github'' then githubLogout env oauthToken
      else if provider = ''twitter'' then revoke_at env ''twitter'' 200 oauthToken
      else True)"

text \<open>\<open>ctx\<close>: the user context that the middleware put on the request.\<close>

definition publish_revocation :: "aegis_context option \<Rightarrow> ('priv, 'r, 'u, 'v) aegis \<Rightarrow> ('priv, 'r, 'u, 'v) aegis" where
  "publish_revocation ctx st =
     (case (ag_bus st, ctx) of
        (Some bus, Some usrCtx) \<Rightarrow>
          if ucd_JTI usrCtx \<noteq> [] then st\<lparr>ag_bus := Some (PublishTokenRevoked (ucd_JTI usrCtx) (ucd_ExpiresAt usrCtx) bus)\<rparr> else st
      | _ \<Rightarrow> st)"

definition Logout ::
  "('priv, 'r, 'u, 'v) aegis_env \<Rightarrow> aegis_context option \<Rightarrow> string \<Rightarrow> string \<Rightarrow> ('priv, 'r, 'u, 'v) aegis
    \<Rightarrow> auth_error option \<times> ('priv, 'r, 'u, 'v) aegis" where
  "Logout env ctx userID sessionID st =
     (if \<not> HasUserPrefix userID then (Some ErrInvalidUserID, st)
      else if sessionID = [] then (Some ErrInvalidSessionID, st)
      else (case so_GetSession (en_so env) sessionID userID (ag_sessions st) of
              Inl err \<Rightarrow> (Some (AuthSession err), st)
            | Inr session \<Rightarrow>
                (case so_InvalidateUserSession (en_so env) userID sessionID (ag_sessions st) of
                   (Some err, r') \<Rightarrow> (Some (AuthSession err), st\<lparr>ag_sessions := r'\<rparr>)
                 | (None, r') \<Rightarrow>
                     let st1 = publish_revocation ctx (st\<lparr>ag_sessions := r'\<rparr>)
                     in (case session of
                           None \<Rightarrow> (Some Panic, st1)
                         | Some s \<Rightarrow>
                             if \<not> providerLogout env (sd_Provider s) (sd_OAuthToken s) then (Some ProviderLogoutFailed, st1)
                             else (None, st1)))))"

definition am_RevokeAllSessions ::
  "('priv, 'r, 'u, 'v) aegis_env \<Rightarrow> string \<Rightarrow> ('priv, 'r, 'u, 'v) aegis \<Rightarrow> auth_error option \<times> ('priv, 'r, 'u, 'v) aegis" where
  "am_RevokeAllSessions env userID st =
     (case so_RevokeAllSessions (en_so env) userID (ag_sessions st) of
        (Some err, r') \<Rightarrow> (Some (AuthSession err), st\<lparr>ag_sessions := r'\<rparr>)
      | (None, r') \<Rightarrow> (None, st\<lparr>ag_sessions := r'\<rparr>))"

section \<open>Refresh\<close>

definition refreshOAuthToken ::
  "('priv, 'r, 'u, 'v) aegis_env \<Rightarrow> string \<Rightarrow> oauth_token option \<Rightarrow> auth_error + oauth_token" where
  "refreshOAuthToken env provider token =
     (case token of
        None \<Rightarrow> Inl Panic
      | Some t \<Rightarrow>
          (case oauth_RefreshToken (en_lib env) (en_providers env) provider (ot_RefreshToken t) of
             Inl err \<Rightarrow> Inl (AuthOAuth err)
           | Inr t' \<Rightarrow> Inr \<lparr>ot_AccessToken = ot_AccessToken t', ot_RefreshToken = ot_RefreshToken t', ot_Expiry = ot_Expiry t', ot_Provider = []\<rparr>))"

text \<open>The OAuth part of a refresh: the new token, or the error and the state it leaves.\<close>

definition refresh_oauth_session ::
  "('priv, 'r, 'u, 'v) aegis_env \<Rightarrow> auth_draw \<Rightarrow> aegis_context option \<Rightarrow> aegis_claims \<Rightarrow> session_data \<Rightarrow> session_meta
    \<Rightarrow> ('priv, 'r, 'u, 'v) aegis \<Rightarrow> (auth_error + oauth_token option) \<times> ('priv, 'r, 'u, 'v) aegis" where
  "refresh_oauth_session env dr ctx claims session meta st =
     (if sd_AuthMethod session \<noteq> AuthMethodOAuth then (Inr None, st)
      else (case refreshOAuthToken env (sd_Provider session) (sd_OAuthToken session) of
              Inl Panic \<Rightarrow> (Inl Panic, st)
            | Inl err \<Rightarrow> (Inl err, snd (Logout env ctx (cl_Subject claims) (cl_SessionID claims) st))
            | Inr newOAuthToken \<Rightarrow>
                let changes = \<lparr>sx_UserID = cl_Subject claims, sx_Roles = None, sx_SessionParams = Some meta,
                      sx_AuthMethod = sd_AuthMethod session, sx_Provider = sd_Provider session, sx_OAuthToken = Some newOAuthToken\<rparr>
                in case so_UpdateSession (en_so env) (dr_login dr) (cl_Subject claims) (cl_SessionID claims) changes (ag_sessions st) of
                     (Some err, r') \<Rightarrow> (Inl (AuthSession err), st\<lparr>ag_sessions := r'\<rparr>)
                   | (None, r') \<Rightarrow> (Inr (Some newOAuthToken), st\<lparr>ag_sessions := r'\<rparr>)))"

definition RefreshTokens ::
  "('priv, 'r, 'u, 'v) aegis_env \<Rightarrow> auth_draw \<Rightarrow> aegis_context option \<Rightarrow> string \<Rightarrow> session_meta \<Rightarrow> ('priv, 'r, 'u, 'v) aegis
    \<Rightarrow> (auth_error + token_pair \<times> string) \<times> ('priv, 'r, 'u, 'v) aegis" where
  "RefreshTokens env dr ctx refreshToken meta st =
     (case aegis_ValidateToken (en_jwt env) (dr_parse dr) (dr_check dr) (ag_tokens st) refreshToken of
        Inl NilExpiry \<Rightarrow> (Inl Panic, st)
      | Inl err \<Rightarrow> (Inl (AuthToken err), st)
      | Inr claims \<Rightarrow>
          if cl_TokenType claims \<noteq> TypeRefreshToken then (Inl ErrInvalidToken, st)
          else (case GetUserByID env (cl_Subject claims) st of
                  Inl err \<Rightarrow> (Inl err, st)
                | Inr usr \<Rightarrow>
                    (case so_GetSession (en_so env) (cl_SessionID claims) (cl_Subject claims) (ag_sessions st) of
                       Inl err \<Rightarrow> (Inl (AuthSession err), st)
                     | Inr None \<Rightarrow> (Inl Panic, st)
                     | Inr (Some session) \<Rightarrow>
                         (case refresh_oauth_session env dr ctx claims session meta st of
                            (Inl err, st1) \<Rightarrow> (Inl err, st1)
                          | (Inr newOAuthToken, st1) \<Rightarrow>
                              (case usr of
                                 None \<Rightarrow> (Inl Panic, st1)
                               | Some user \<Rightarrow>
                                   (case make_pair env dr st1 (FormatID user) (cl_SessionID claims) (sd_Provider session)
                                           (us_Roles user) newOAuthToken of
                                      None \<Rightarrow> (Inl SigningFailed, st1)
                                    | Some tokenPair \<Rightarrow> (Inr (tokenPair, cl_SessionID claims), st1)))))))"

section \<open>Login over a provider\<close>

definition OAuthGetLoginURL ::
  "('priv, 'r, 'u, 'v) aegis_env \<Rightarrow> string option \<Rightarrow> string \<Rightarrow> string \<Rightarrow> ('priv, 'r, 'u, 'v) aegis
    \<Rightarrow> (oauth_error + string \<times> string) \<times> ('priv, 'r, 'u, 'v) aegis" where
  "OAuthGetLoginURL env rnd verifier provider st =
     (case GenerateAuthURL (en_lib env) (en_vs env) (en_providers env) rnd verifier provider (ag_verifiers st) of
        (res, v') \<Rightarrow> (res, st\<lparr>ag_verifiers := v'\<rparr>))"

text \<open>\<open>reply\<close>: what the provider answers to the request for the data of the user.\<close>

definition getOrCreateUserFromOAuth ::
  "('priv, 'r, 'u, 'v) aegis_env \<Rightarrow> auth_draw \<Rightarrow> info_reply \<Rightarrow> string \<Rightarrow> oauth_token \<Rightarrow> ('priv, 'r, 'u, 'v) aegis
    \<Rightarrow> (auth_error + user option) \<times> ('priv, 'r, 'u, 'v) aegis" where
  "getOrCreateUserFromOAuth env dr reply provider token st =
     (case GetUserInfo (en_lib env) (en_decode env) (en_raw env) reply provider token of
        Inl err \<Rightarrow> (Inl (AuthOAuth err), st)
      | Inr None \<Rightarrow> (Inl Panic, st)
      | Inr (Some userInfo) \<Rightarrow>
          (case Users.GetUserByProviderUserID (en_repo env) provider (ui_UserID userInfo) (ag_users st) of
             Inr user \<Rightarrow> (Inr user, st)
           | Inl err \<Rightarrow>
               if \<not> (err = UserNoRows \<and> en_sql_no_rows env) then (Inl (AuthUser err), st)
               else
                 let createParams = \<lparr>uc_Email = ui_Email userInfo, uc_FirstName = ui_FirstName userInfo,
                       uc_LastName = ui_LastName userInfo, uc_Phone = [], uc_AvatarURL = ui_AvatarURL userInfo,
                       uc_Password = None, uc_Provider = provider, uc_ProviderUserID = Some (ui_UserID userInfo)\<rparr>
                 in case Users.Create (en_user env) (en_repo env) (dr_salt dr) (dr_userID dr) createParams (ag_users st) of
                      (Inl err, u') \<Rightarrow> (Inl (AuthUser err), st\<lparr>ag_users := u'\<rparr>)
                    | (Inr user, u') \<Rightarrow> (Inr (Some user), st\<lparr>ag_users := u'\<rparr>)))"

definition OAuthCallback ::
  "('priv, 'r, 'u, 'v) aegis_env \<Rightarrow> auth_draw \<Rightarrow> info_reply \<Rightarrow> string \<Rightarrow> string \<Rightarrow> string \<Rightarrow> session_meta \<Rightarrow> ('priv, 'r, 'u, 'v) aegis
    \<Rightarrow> (auth_error + token_pair \<times> string) \<times> ('priv, 'r, 'u, 'v) aegis" where
  "OAuthCallback env dr reply provider code state meta st =
     (case ExchangeCode (en_lib env) (en_vs env) (en_providers env) provider code state (ag_verifiers st) of
        (Inl err, v') \<Rightarrow> (Inl (AuthOAuth err), st\<lparr>ag_verifiers := v'\<rparr>)
      | (Inr oauthToken, v') \<Rightarrow>
          (case getOrCreateUserFromOAuth env dr reply provider oauthToken (st\<lparr>ag_verifiers := v'\<rparr>) of
             (Inl err, st1) \<Rightarrow> (Inl err, st1)
           | (Inr None, st1) \<Rightarrow> (Inl Panic, st1)
           | (Inr (Some user), st1) \<Rightarrow>
               let token = \<lparr>ot_AccessToken = ot_AccessToken oauthToken, ot_RefreshToken = ot_RefreshToken oauthToken,
                     ot_Expiry = ot_Expiry oauthToken, ot_Provider = []\<rparr>;
                   sessionParams = \<lparr>sn_UserID = FormatID user, sn_Roles = us_Roles user, sn_SessionParams = meta,
                     sn_AuthMethod = AuthMethodOAuth, sn_Provider = provider, sn_OAuthToken = Some token\<rparr>
               in case start_session env dr (FormatID user) sessionParams st1 of
                    (Inl err, st2) \<Rightarrow> (Inl (AuthSession err), st2)
                  | (Inr sessionID, st2) \<Rightarrow>
                      (case make_pair env dr st2 (FormatID user) sessionID provider (us_Roles user) (Some token) of
                         None \<Rightarrow> (Inl SigningFailed, st2)
                       | Some tokenPair \<Rightarrow> (Inr (tokenPair, sessionID), st2))))"

section \<open>Middleware and handlers\<close>

text \<open>A handler of Aegis gets the user context of the request and gives the calls on its writer.\<close>

type_synonym ('priv, 'r, 'u, 'v) aegis_handler =
  "aegis_context option \<Rightarrow> request \<Rightarrow> ('priv, 'r, 'u, 'v) aegis \<Rightarrow> write_call list \<times> ('priv, 'r, 'u, 'v) aegis"

definition aegis_Authenticate ::
  "('priv, 'r, 'u, 'v) aegis_env \<Rightarrow> auth_draw \<Rightarrow> ('priv, 'r, 'u, 'v) aegis_handler \<Rightarrow> ('priv, 'r, 'u, 'v) aegis_handler" where
  "aegis_Authenticate env dr next ctx r st =
     (case ValidateAccessToken env dr (ExtractTokenFromHeader r) st of
        Inl Panic \<Rightarrow> ([], st)
      | Inl _ \<Rightarrow> (http_error ''Unauthorized: invalid token'' 401, st)
      | Inr userContextData \<Rightarrow> next (Some userContextData) r st)"

text \<open>\<open>urlParam\<close>: the URL parameter \<open>tenantID\<close> of the router.\<close>

definition aegis_ExtractTenantID :: "(string \<Rightarrow> uuid option) \<Rightarrow> string \<Rightarrow> request \<Rightarrow> uuid option" where
  "aegis_ExtractTenantID parse urlParam r =
     (let tenantIDStr = (if urlParam = [] then header_get r ''X-Tenant-Id'' else urlParam)
      in if tenantIDStr = [] then None else parse tenantIDStr)"

definition aegis_Authorize ::
  "(string \<Rightarrow> uuid option) \<Rightarrow> string \<Rightarrow> string list \<Rightarrow> ('priv, 'r, 'u, 'v) aegis_handler \<Rightarrow> ('priv, 'r, 'u, 'v) aegis_handler" where
  "aegis_Authorize parse urlParam requiredRoles next ctx r st =
     (case (case ctx of None \<Rightarrow> None | Some c \<Rightarrow> ucd_Roles c) of
        None \<Rightarrow> (http_error ''Unauthorized: missing user roles'' 401, st)
      | Some m \<Rightarrow>
          (case aegis_ExtractTenantID parse urlParam r of
             None \<Rightarrow> (http_error ''Unauthorized: missing tenant id'' 401, st)
           | Some tenantID \<Rightarrow>
               (case check_roles (Some m) tenantID requiredRoles of
                  Some calls \<Rightarrow> (calls, st)
                | None \<Rightarrow> next ctx r st)))"

datatype aegis_api_error = Unauthorized | InvalidJSONError | InternalError auth_error | InternalOAuthError oauth_error
  | UserAlreadyExists | HandlerPanic

fun aegis_status :: "aegis_api_error \<Rightarrow> nat option" where
  "aegis_status Unauthorized = Some 401"
| "aegis_status InvalidJSONError = Some 400"
| "aegis_status (InternalError _) = Some 500"
| "aegis_status (InternalOAuthError _) = Some 500"
| "aegis_status UserAlreadyExists = Some 409"
| "aegis_status HandlerPanic = None"

record auth_reply =
  rp_Status :: nat
  rp_Header :: "(string, string) gomap"
  rp_Pair :: "token_pair option"

definition setAuthHeaders :: "token_pair \<Rightarrow> string \<Rightarrow> (string, string) gomap" where
  "setAuthHeaders tokenPair sessionID =
     [(''Authorization'', ''Bearer '' @ tp_AccessToken tokenPair), (''X-Refresh-Token'', tp_RefreshToken tokenPair),
      (''X-Session-Id'', sessionID)]"

text \<open>The body of a request is given decoded, \<open>None\<close> if it is not the JSON expected.\<close>

definition loginUserWithPassword ::
  "('priv, 'r, 'u, 'v) aegis_env \<Rightarrow> auth_draw \<Rightarrow> (string \<times> string) option \<Rightarrow> request \<Rightarrow> ('priv, 'r, 'u, 'v) aegis
    \<Rightarrow> (aegis_api_error + auth_reply) \<times> ('priv, 'r, 'u, 'v) aegis" where
  "loginUserWithPassword env dr body r st =
     (case body of
        None \<Rightarrow> (Inl InvalidJSONError, st)
      | Some (email, password) \<Rightarrow>
          (case AuthenticateWithPassword env dr email password (SessionMetaDataParamsFromHTTP r) st of
             (Inl Panic, st') \<Rightarrow> (Inl HandlerPanic, st')
           | (Inl _, st') \<Rightarrow> (Inl Unauthorized, st')
           | (Inr (tokenPair, sessionID), st') \<Rightarrow>
               (Inr \<lparr>rp_Status = 200, rp_Header = setAuthHeaders tokenPair sessionID, rp_Pair = None\<rparr>, st')))"

definition logoutUser ::
  "('priv, 'r, 'u, 'v) aegis_env \<Rightarrow> aegis_context option \<Rightarrow> request \<Rightarrow> ('priv, 'r, 'u, 'v) aegis
    \<Rightarrow> (aegis_api_error + auth_reply) \<times> ('priv, 'r, 'u, 'v) aegis" where
  "logoutUser env ctx r st =
     (case ctx of
        None \<Rightarrow> (Inl Unauthorized, st)
      | Some usrCtxData \<Rightarrow>
          (case Logout env ctx (ucd_UserID usrCtxData) (ucd_SessionID usrCtxData) st of
             (Some Panic, st') \<Rightarrow> (Inl HandlerPanic, st')
           | (Some err, st') \<Rightarrow> (Inl (InternalError err), st')
           | (None, st') \<Rightarrow> (Inr \<lparr>rp_Status = 302, rp_Header = [(''Location'', ''/'')], rp_Pair = None\<rparr>, st')))"

definition refreshToken ::
  "('priv, 'r, 'u, 'v) aegis_env \<Rightarrow> auth_draw \<Rightarrow> aegis_context option \<Rightarrow> request \<Rightarrow> ('priv, 'r, 'u, 'v) aegis
    \<Rightarrow> (aegis_api_error + auth_reply) \<times> ('priv, 'r, 'u, 'v) aegis" where
  "refreshToken env dr ctx r st =
     (case RefreshTokens env dr ctx (ExtractTokenFromHeader r) (SessionMetaDataParamsFromHTTP r) st of
        (Inl Panic, st') \<Rightarrow> (Inl HandlerPanic, st')
      | (Inl _, st') \<Rightarrow> (Inl Unauthorized, st')
      | (Inr (tokenPair, sessionID), st') \<Rightarrow> (Inr \<lparr>rp_Status = 200, rp_Header = [], rp_Pair = Some tokenPair\<rparr>, st'))"

record registration =
  re_Email :: string
  re_FirstName :: string
  re_LastName :: string
  re_Password :: string
  re_Phone :: string

definition ReqistrationRequestToUserParams :: "user_env \<Rightarrow> registration option \<Rightarrow> user_create_params option" where
  "ReqistrationRequestToUserParams env body =
     (case body of
        None \<Rightarrow> None
      | Some req \<Rightarrow>
          if re_Password req = [] then None
          else (case NewCreateUserParams env (re_Email req) (re_FirstName req) (re_LastName req) (re_Phone req)
                       (Some (re_Password req)) AuthProviderPassword None of
                  Inl _ \<Rightarrow> None
                | Inr params \<Rightarrow> Some params))"

definition registerUser ::
  "('priv, 'r, 'u, 'v) aegis_env \<Rightarrow> auth_draw \<Rightarrow> registration option \<Rightarrow> request \<Rightarrow> ('priv, 'r, 'u, 'v) aegis
    \<Rightarrow> (aegis_api_error + auth_reply) \<times> ('priv, 'r, 'u, 'v) aegis" where
  "registerUser env dr body r st =
     (case ReqistrationRequestToUserParams (en_user env) body of
        None \<Rightarrow> (Inl InvalidJSONError, st)
      | Some params \<Rightarrow>
          (case RegisterUser env dr params (SessionMetaDataParamsFromHTTP r) st of
             (Inl err, st') \<Rightarrow>
               if err = AuthUser ErrUserAlreadyExists then (Inl UserAlreadyExists, st') else (Inl (InternalError err), st')
           | (Inr (tokenPair, sessionID), st') \<Rightarrow>
               (Inr \<lparr>rp_Status = 201, rp_Header = setAuthHeaders tokenPair sessionID, rp_Pair = None\<rparr>, st')))"

definition initiateSocialLogin ::
  "('priv, 'r, 'u, 'v) aegis_env \<Rightarrow> string option \<Rightarrow> string \<Rightarrow> string \<Rightarrow> ('priv, 'r, 'u, 'v) aegis
    \<Rightarrow> (aegis_api_error + string \<times> string) \<times> ('priv, 'r, 'u, 'v) aegis" where
  "initiateSocialLogin env rnd verifier provider st =
     (case OAuthGetLoginURL env rnd verifier provider st of
        (Inl err, st') \<Rightarrow> (Inl (InternalOAuthError err), st')
      | (Inr urlState, st') \<Rightarrow> (Inr urlState, st'))"

definition ProviderCallback ::
  "('priv, 'r, 'u, 'v) aegis_env \<Rightarrow> auth_draw \<Rightarrow> info_reply \<Rightarrow> request \<Rightarrow> string \<Rightarrow> string \<Rightarrow> string \<Rightarrow> ('priv, 'r, 'u, 'v) aegis
    \<Rightarrow> (aegis_api_error + auth_reply) \<times> ('priv, 'r, 'u, 'v) aegis" where
  "ProviderCallback env dr reply r provider code state st =
     (case OAuthCallback env dr reply provider code state (SessionMetaDataParamsFromHTTP r) st of
        (Inl Panic, st') \<Rightarrow> (Inl HandlerPanic, st')
      | (Inl err, st') \<Rightarrow> (Inl (InternalError err), st')
      | (Inr (tokenPair, sessionID), st') \<Rightarrow>
          (Inr \<lparr>rp_Status = 200, rp_Header = setAuthHeaders tokenPair sessionID, rp_Pair = None\<rparr>, st'))"

section \<open>What can happen to the manager\<close>

datatype 'priv auth_act = ActRegister auth_draw user_create_params session_meta | ActLogin auth_draw string string session_meta
  | ActLoginURL "string option" string string | ActCallback auth_draw info_reply string string string session_meta
  | ActRefresh auth_draw "aegis_context option" string session_meta | ActLogout "aegis_context option" string string
  | ActRevokeAll string | ActRotate "(string \<times> 'priv) option"

definition rotate_keys ::
  "(string \<Rightarrow> string) \<Rightarrow> (string \<times> 'priv) option list \<Rightarrow> ('priv, 'r, 'u, 'v) aegis \<Rightarrow> ('priv, 'r, 'u, 'v) aegis" where
  "rotate_keys sha256 pairs st = st\<lparr>ag_tokens := (ag_tokens st)\<lparr>tm_keys := rotations sha256 pairs (tm_keys (ag_tokens st))\<rparr>\<rparr>"

fun aegis_do ::
  "('priv, 'r, 'u, 'v) aegis_env \<Rightarrow> (string \<Rightarrow> string) \<Rightarrow> 'priv auth_act \<Rightarrow> ('priv, 'r, 'u, 'v) aegis \<Rightarrow> ('priv, 'r, 'u, 'v) aegis" where
  "aegis_do env sha256 (ActRegister dr params meta) st = snd (RegisterUser env dr params meta st)"
| "aegis_do env sha256 (ActLogin dr email password meta) st = snd (AuthenticateWithPassword env dr email password meta st)"
| "aegis_do env sha256 (ActLoginURL rnd verifier provider) st = snd (OAuthGetLoginURL env rnd verifier provider st)"
| "aegis_do env sha256 (ActCallback dr reply provider code state meta) st =
     snd (OAuthCallback env dr reply provider code state meta st)"
| "aegis_do env sha256 (ActRefresh dr ctx tok meta) st = snd (RefreshTokens env dr ctx tok meta st)"
| "aegis_do env sha256 (ActLogout ctx uid sid) st = snd (Logout env ctx uid sid st)"
| "aegis_do env sha256 (ActRevokeAll uid) st = snd (am_RevokeAllSessions env uid st)"
| "aegis_do env sha256 (ActRotate pair) st = rotate_keys sha256 [pair] st"

text \<open>The act does not draw the given session ID again.\<close>

fun draws_other :: "string \<Rightarrow> 'priv auth_act \<Rightarrow> bool" where
  "draws_other sid (ActRegister dr _ _) = (plain (dr_sessionID dr) \<and> dr_sessionID dr \<noteq> sid)"
| "draws_other sid (ActLogin dr _ _ _) = (plain (dr_sessionID dr) \<and> dr_sessionID dr \<noteq> sid)"
| "draws_other sid (ActCallback dr _ _ _ _ _) = (plain (dr_sessionID dr) \<and> dr_sessionID dr \<noteq> sid)"
| "draws_other sid _ = True"

text \<open>Neither as an access token nor as a refresh token is the text any good, whatever the clock says.\<close>

definition refused_token :: "('priv, 'r, 'u, 'v) aegis_env \<Rightarrow> ('priv, 'r, 'u, 'v) aegis \<Rightarrow> string \<Rightarrow> bool" where
  "refused_token env st tok \<longleftrightarrow>
     (\<forall>dr ctx meta. (\<exists>err. ValidateAccessToken env dr tok st = Inl err) \<and> (\<exists>err. RefreshTokens env dr ctx tok meta st = (Inl err, st)))"

section \<open>The manager over its interfaces\<close>

locale aegis_auth = users: user_repository repo uinv uup emails uview + sessions: session_manager so sinv sup alive
  for repo :: "'u user_repo" and uinv uup emails uview
    and so :: "'r session_ops" and sinv sup alive +
  fixes env :: "('priv, 'r, 'u, 'v) aegis_env"
    and gparse :: "time \<Rightarrow> string jwt_parser"
    and public :: "'priv \<Rightarrow> string"
  assumes interfaces: "en_repo env = repo" "en_so env = so"
begin

lemma start_session_ok:
  assumes "sinv (ag_sessions st)" "start_session env dr uid params st = (Inr sid, st')"
  shows "\<exists>r'. st' = st\<lparr>ag_sessions := r'\<rparr> \<and> sinv r' \<and> sid = dr_sessionID dr \<and> alive r' uid sid"
proof -
  obtain res r' where c: "so_CreateSession so (dr_sessionID dr) (dr_created dr) (dr_login dr) uid params (ag_sessions st) = (res, r')"
    by fastforce
  with assms(2) have "res = Inr sid" "st' = st\<lparr>ag_sessions := r'\<rparr>" by (auto simp: start_session_def interfaces)
  with sessions.create_any [OF assms(1) c] sessions.create_ok [OF assms(1)] c show ?thesis by blast
qed

text \<open>A login that succeeds: the user is the stored one with the address, the password fits its hash, and the
  tokens are made for it and for a session that is open then.\<close>

lemma login_ok:
  assumes "uinv (ag_users st)" "sinv (ag_sessions st)" "AuthenticateWithPassword env dr email pw meta st = (Inr (pair, sid), st')"
  shows "\<exists>u r'. uview (ag_users st) (us_ID u) = Some u \<and> us_Email u = ToLower (TrimSpace email)
    \<and> ValidatePasswordHash (en_user env) pw u = Inr True \<and> st' = st\<lparr>ag_sessions := r'\<rparr> \<and> sinv r' \<and> sid = dr_sessionID dr
    \<and> alive r' (FormatID u) sid
    \<and> GenerateTokenPair (en_jwt env) (dr_order dr) (dr_pair dr) (dr_jti dr) (ag_tokens st) (FormatID u) sid AuthProviderPassword (us_Roles u) None
      = Some pair"
proof -
  from assms(3) obtain u where u: "GetUserByEmail env email st = Inr (Some u)" "ValidatePasswordHash (en_user env) pw u = Inr True"
    by (auto simp: AuthenticateWithPassword_def split: sum.splits option.splits if_splits)
  then have v: "uview (ag_users st) (us_ID u) = Some u" "us_Email u = ToLower (TrimSpace email)"
    using users.by_email_view [OF assms(1)]
    by (auto simp: GetUserByEmail_def Users.GetByEmail_def interfaces Let_def split: sum.splits if_splits)
  let ?params = "\<lparr>sn_UserID = FormatID u, sn_Roles = us_Roles u, sn_SessionParams = meta,
    sn_AuthMethod = AuthMethodPassword, sn_Provider = AuthProviderPassword, sn_OAuthToken = None\<rparr>"
  from assms(3) u obtain st1 where s: "start_session env dr (FormatID u) ?params st = (Inr sid, st1)" "st' = st1"
      "make_pair env dr st1 (FormatID u) sid AuthProviderPassword (us_Roles u) None = Some pair"
    by (auto simp: AuthenticateWithPassword_def Let_def split: prod.splits sum.splits option.splits)
  from start_session_ok [OF assms(2) s(1)] obtain r' where r': "st1 = st\<lparr>ag_sessions := r'\<rparr>" "sinv r'" "sid = dr_sessionID dr"
      "alive r' (FormatID u) sid" by blast
  with s(2,3) u(2) v show ?thesis by (intro exI [of _ u] exI [of _ r']) (simp add: make_pair_def)
qed

text \<open>Without the password nothing happens.\<close>

lemma login_refused:
  assumes "GetUserByEmail env email st = Inr (Some u)" "ValidatePasswordHash (en_user env) pw u \<noteq> Inr True"
  shows "\<exists>err. AuthenticateWithPassword env dr email pw meta st = (Inl err, st)"
  using assms by (auto simp: AuthenticateWithPassword_def split: sum.splits)

lemma validate_ok:
  assumes "sinv (ag_sessions st)" "sup (ag_sessions st)" "alive (ag_sessions st) (cl_Subject claims) (cl_SessionID claims)"
    and "aegis_ValidateToken (en_jwt env) (dr_parse dr) (dr_check dr) (ag_tokens st) tok = Inr claims"
  shows "ValidateAccessToken env dr tok st = Inr (aegis_GetUserContextData claims)"
proof -
  from sessions.get_alive [OF assms(1-3)] obtain d where d: "so_GetSession so (cl_SessionID claims) (cl_Subject claims) (ag_sessions st) = Inr (Some d)" ..
  then have "\<not> sd_Revoked d" using sessions.get_some [OF assms(1) d] by simp
  with d assms(4) show ?thesis by (simp add: ValidateAccessToken_def interfaces)
qed

text \<open>A token that Aegis signed is refused when its session is closed, whatever the keys and the clock.\<close>

lemma validate_closed:
  assumes laws: "jwt_laws (en_jwt env) gparse public" and signed: "sign_claims (en_jwt env) km claims = Some tok"
    and closed: "sinv (ag_sessions st)" "\<not> alive (ag_sessions st) (cl_Subject claims) (cl_SessionID claims)"
  shows "\<exists>err. ValidateAccessToken env dr tok st = Inl err"
proof (cases "aegis_ValidateToken (en_jwt env) (dr_parse dr) (dr_check dr) (ag_tokens st) tok")
  case (Inl err)
  then show ?thesis by (cases err) (auto simp: ValidateAccessToken_def)
next
  case (Inr claims')
  then have "claims' = claims" using signed_token_returns [OF laws signed] by blast
  moreover obtain err where "so_GetSession so (cl_SessionID claims) (cl_Subject claims) (ag_sessions st) = Inl err"
    using sessions.get_dead [OF closed] by blast
  ultimately show ?thesis using Inr by (cases err) (simp_all add: ValidateAccessToken_def interfaces)
qed

lemma refresh_closed:
  assumes laws: "jwt_laws (en_jwt env) gparse public" and signed: "sign_claims (en_jwt env) km claims = Some tok"
    and closed: "sinv (ag_sessions st)" "\<not> alive (ag_sessions st) (cl_Subject claims) (cl_SessionID claims)"
  shows "\<exists>err. RefreshTokens env dr ctx tok meta st = (Inl err, st)"
proof (cases "aegis_ValidateToken (en_jwt env) (dr_parse dr) (dr_check dr) (ag_tokens st) tok")
  case (Inl err)
  then show ?thesis by (cases err) (auto simp: RefreshTokens_def)
next
  case (Inr claims')
  then have "claims' = claims" using signed_token_returns [OF laws signed] by blast
  moreover obtain err where "so_GetSession so (cl_SessionID claims) (cl_Subject claims) (ag_sessions st) = Inl err"
    using sessions.get_dead [OF closed] by blast
  ultimately show ?thesis using Inr by (auto simp: RefreshTokens_def interfaces split: sum.splits)
qed

lemma publish_sessions [simp]: "ag_sessions (publish_revocation ctx st) = ag_sessions st"
  by (simp add: publish_revocation_def split: option.splits)

lemma logout_any:
  assumes "sinv (ag_sessions st)"
  shows "sinv (ag_sessions (snd (Logout env ctx u s st)))
    \<and> (alive (ag_sessions (snd (Logout env ctx u s st))) uid sid \<longrightarrow> alive (ag_sessions st) uid sid)"
proof -
  obtain err r' where inv: "so_InvalidateUserSession so u s (ag_sessions st) = (err, r')" by fastforce
  then have "ag_sessions (snd (Logout env ctx u s st)) \<in> {ag_sessions st, r'}"
    by (auto simp: Logout_def interfaces Let_def split: sum.splits option.splits)
  with sessions.invalidate_any [OF assms inv] assms show ?thesis by auto
qed

text \<open>A closed session is not opened again by anything that happens later.\<close>

lemma start_session_closed:
  assumes "sinv (ag_sessions st)" "\<not> alive (ag_sessions st) uid sid" "plain sid" "plain (dr_sessionID dr)" "dr_sessionID dr \<noteq> sid"
    and "start_session env dr u params st = (res, st')"
  shows "sinv (ag_sessions st') \<and> \<not> alive (ag_sessions st') uid sid"
proof -
  obtain r' where "so_CreateSession so (dr_sessionID dr) (dr_created dr) (dr_login dr) u params (ag_sessions st) = (res, r')"
      "st' = st\<lparr>ag_sessions := r'\<rparr>"
    using assms(6) by (auto simp: start_session_def interfaces split: prod.splits)
  with sessions.create_any [OF assms(1)] assms(2-5) show ?thesis by auto
qed

lemma refresh_oauth_closed:
  assumes "sinv (ag_sessions st)" "\<not> alive (ag_sessions st) uid sid" "refresh_oauth_session env dr ctx claims session meta st = (res, st')"
  shows "sinv (ag_sessions st') \<and> \<not> alive (ag_sessions st') uid sid"
proof (cases "\<exists>changes err r'. so_UpdateSession so (dr_login dr) (cl_Subject claims) (cl_SessionID claims) changes (ag_sessions st) = (err, r')
    \<and> st' = st\<lparr>ag_sessions := r'\<rparr>")
  case True
  with sessions.update_any [OF assms(1)] assms(2) show ?thesis by fastforce
next
  case False
  with assms(3) have "st' = st \<or> st' = snd (Logout env ctx (cl_Subject claims) (cl_SessionID claims) st)"
    by (auto simp: refresh_oauth_session_def interfaces Let_def split: if_splits sum.splits auth_error.splits prod.splits option.splits)
  with logout_any [OF assms(1)] assms(1,2) show ?thesis by blast
qed

lemma refresh_keeps_closed:
  assumes "sinv (ag_sessions st)" "\<not> alive (ag_sessions st) uid sid" "RefreshTokens env dr ctx tok meta st = (out, st')"
  shows "sinv (ag_sessions st') \<and> \<not> alive (ag_sessions st') uid sid"
proof -
  from assms(3) have "st' = st \<or> (\<exists>claims session res. refresh_oauth_session env dr ctx claims session meta st = (res, st'))"
    by (auto simp: RefreshTokens_def split: sum.splits token_error.splits if_splits option.splits prod.splits)
  with refresh_oauth_closed [OF assms(1,2)] assms(1,2) show ?thesis by blast
qed

lemma login_keeps_closed:
  assumes "sinv (ag_sessions st)" "\<not> alive (ag_sessions st) uid sid" "plain sid" "plain (dr_sessionID dr)" "dr_sessionID dr \<noteq> sid"
    and "AuthenticateWithPassword env dr email pw meta st = (out, st')"
  shows "sinv (ag_sessions st') \<and> \<not> alive (ag_sessions st') uid sid"
proof -
  from assms(6) have "st' = st \<or> (\<exists>u params res. start_session env dr u params st = (res, st'))"
    by (auto simp: AuthenticateWithPassword_def Let_def split: sum.splits if_splits option.splits prod.splits)
  with start_session_closed [OF assms(1-5)] assms(1,2) show ?thesis by blast
qed

lemma register_keeps_closed:
  assumes "sinv (ag_sessions st)" "\<not> alive (ag_sessions st) uid sid" "plain sid" "plain (dr_sessionID dr)" "dr_sessionID dr \<noteq> sid"
    and "RegisterUser env dr params meta st = (out, st')"
  shows "sinv (ag_sessions st') \<and> \<not> alive (ag_sessions st') uid sid"
proof -
  from assms(6) have "ag_sessions st' = ag_sessions st
      \<or> (\<exists>u' u ps res st2. start_session env dr u ps (st\<lparr>ag_users := u'\<rparr>) = (res, st2) \<and> ag_sessions st' = ag_sessions st2)"
    by (auto simp: RegisterUser_def Let_def split: sum.splits option.splits prod.splits) metis+
  with start_session_closed [of "st\<lparr>ag_users := u'\<rparr>" for u'] assms(1-5) show ?thesis by fastforce
qed

lemma callback_keeps_closed:
  assumes "sinv (ag_sessions st)" "\<not> alive (ag_sessions st) uid sid" "plain sid" "plain (dr_sessionID dr)" "dr_sessionID dr \<noteq> sid"
    and "OAuthCallback env dr reply provider code state meta st = (out, st')"
  shows "sinv (ag_sessions st') \<and> \<not> alive (ag_sessions st') uid sid"
proof -
  have get: "getOrCreateUserFromOAuth env dr reply provider token st1 = (res, st2) \<Longrightarrow> ag_sessions st2 = ag_sessions st1" for token st1 res st2
    by (auto simp: getOrCreateUserFromOAuth_def Let_def split: sum.splits option.splits prod.splits if_splits)
  from assms(6) have "ag_sessions st' = ag_sessions st
      \<or> (\<exists>u ps res st1. start_session env dr u ps st1 = (res, st') \<and> ag_sessions st1 = ag_sessions st)"
    by (auto simp: OAuthCallback_def Let_def split: sum.splits option.splits prod.splits dest!: get)
  with start_session_closed assms(1-5) show ?thesis by metis
qed

lemma logout_closes:
  assumes "sinv (ag_sessions st)" "Logout env ctx uid sid st = (None, st')"
  shows "sinv (ag_sessions st') \<and> \<not> alive (ag_sessions st') uid sid"
proof -
  from assms(2) obtain s r' where "so_GetSession so sid uid (ag_sessions st) = Inr (Some s)"
      "so_InvalidateUserSession so uid sid (ag_sessions st) = (None, r')" "st' = publish_revocation ctx (st\<lparr>ag_sessions := r'\<rparr>)"
    by (auto simp: Logout_def interfaces Let_def split: if_splits sum.splits prod.splits option.splits)
  with sessions.invalidate_any [OF assms(1)] show ?thesis by simp
qed

lemma act_keeps_closed:
  assumes "sinv (ag_sessions st)" "\<not> alive (ag_sessions st) uid sid" "plain sid" "draws_other sid act"
  shows "sinv (ag_sessions (aegis_do env sha256 act st)) \<and> \<not> alive (ag_sessions (aegis_do env sha256 act st)) uid sid"
proof (cases act)
  case (ActRegister dr params meta)
  with assms register_keeps_closed [OF assms(1-3) _ _ prod.collapse [symmetric]] show ?thesis by simp
next
  case (ActLogin dr email pw meta)
  with assms login_keeps_closed [OF assms(1-3) _ _ prod.collapse [symmetric]] show ?thesis by simp
next
  case (ActLoginURL rnd verifier provider)
  with assms show ?thesis by (simp add: OAuthGetLoginURL_def split: prod.splits)
next
  case (ActCallback dr reply provider code state meta)
  with assms callback_keeps_closed [OF assms(1-3) _ _ prod.collapse [symmetric]] show ?thesis by simp
next
  case (ActRefresh dr ctx tok meta)
  with refresh_keeps_closed [OF assms(1,2) prod.collapse [symmetric]] show ?thesis by simp
next
  case (ActLogout ctx u s)
  with logout_any [OF assms(1)] assms(2) show ?thesis by auto
next
  case (ActRevokeAll u)
  obtain err r' where r: "so_RevokeAllSessions so u (ag_sessions st) = (err, r')" by fastforce
  with sessions.revoke_any [OF assms(1) r] assms(2) ActRevokeAll show ?thesis
    by (auto simp: am_RevokeAllSessions_def interfaces split: option.splits)
next
  case (ActRotate pair)
  with assms show ?thesis by (simp add: rotate_keys_def)
qed

lemma acts_keep_closed:
  assumes "sinv (ag_sessions st)" "\<not> alive (ag_sessions st) uid sid" "plain sid" "\<forall>act \<in> set acts. draws_other sid act"
  shows "sinv (ag_sessions (fold (aegis_do env sha256) acts st)) \<and> \<not> alive (ag_sessions (fold (aegis_do env sha256) acts st)) uid sid"
  using assms
proof (induction acts arbitrary: st)
  case (Cons act acts)
  with act_keeps_closed [of st uid sid act] show ?case by simp
qed simp

lemma logged_out_refused:
  assumes "sinv (ag_sessions st)" "jwt_laws (en_jwt env) gparse public" "Logout env ctx uid sid st = (None, st')"
    and "plain sid" "\<forall>act \<in> set acts. draws_other sid act"
    and "sign_claims (en_jwt env) km claims = Some tok" "cl_Subject claims = uid" "cl_SessionID claims = sid"
  shows "refused_token env (fold (aegis_do env sha256) acts st') tok"
proof -
  let ?st = "fold (aegis_do env sha256) acts st'"
  from logout_closes [OF assms(1,3)] acts_keep_closed [OF _ _ assms(4,5)]
  have "sinv (ag_sessions ?st)" "\<not> alive (ag_sessions ?st) (cl_Subject claims) (cl_SessionID claims)" using assms(7,8) by auto
  with validate_closed [OF assms(2,6)] refresh_closed [OF assms(2,6)] show ?thesis unfolding refused_token_def by blast
qed

lemma login_token_ok:
  assumes inv: "uinv (ag_users st)" "sinv (ag_sessions st)" "km_ok sha256 public (tm_keys (ag_tokens st))"
    and laws: "jwt_laws (en_jwt env) gparse public"
    and login: "AuthenticateWithPassword env dr email pw meta st = (Inr (pair, sid), st')"
    and rot: "good_pairs sha256 public (public (sk_PrivateKey (ActiveKey (tm_keys (ag_tokens st))))) pairs"
    and time: "pc_now (dr_pair dr) \<le> dr_parse dr'" "dr_parse dr' \<le> dr_check dr'"
      "dr_check dr' \<le> pc_now (dr_pair dr) + tm_accessExpiration (ag_tokens st) - seconds 1"
    and up: "sup (ag_sessions st')"
  shows "\<exists>u c. uview (ag_users st) (us_ID u) = Some u \<and> us_Email u = ToLower (TrimSpace email)
    \<and> ValidatePasswordHash (en_user env) pw u = Inr True
    \<and> ValidateAccessToken env dr' (tp_AccessToken pair) (rotate_keys sha256 pairs st') = Inr c
    \<and> ucd_UserID c = FormatID u \<and> ucd_Roles c = us_Roles u \<and> ucd_SessionID c = sid \<and> ucd_JTI c = dr_jti dr"
proof -
  from login_ok [OF inv(1,2) login] obtain u r' where u: "uview (ag_users st) (us_ID u) = Some u" "us_Email u = ToLower (TrimSpace email)"
      "ValidatePasswordHash (en_user env) pw u = Inr True" "st' = st\<lparr>ag_sessions := r'\<rparr>" "sinv r'" "alive r' (FormatID u) sid"
      "GenerateTokenPair (en_jwt env) (dr_order dr) (dr_pair dr) (dr_jti dr) (ag_tokens st) (FormatID u) sid AuthProviderPassword (us_Roles u) None
        = Some pair" by blast
  let ?km = "tm_keys (ag_tokens st)"
  let ?c = "access_claims (en_jwt env) (dr_order dr) (dr_pair dr) (dr_jti dr) (ag_tokens st) (FormatID u) sid AuthProviderPassword (us_Roles u) None"
  let ?st = "rotate_keys sha256 pairs st'"
  have sign: "sign_claims (en_jwt env) ?km ?c = Some (tp_AccessToken pair)" using GenerateTokenPair_Some [OF u(7)] by blast
  have keys: "km_ok sha256 public (tm_keys (ag_tokens ?st))"
      "km_FindPublicKey (tm_keys (ag_tokens ?st)) (sk_KID (ActiveKey ?km)) = Some (public (sk_PrivateKey (ActiveKey ?km)))"
    using rotations_keep [OF inv(3) active_found [OF inv(3)] rot] u(4) by (simp_all add: rotate_keys_def)
  have "in_time (dr_parse dr') ?c" "dr_check dr' \<le> jw_date (en_jwt env) (pc_now (dr_pair dr) + tm_accessExpiration (ag_tokens st))"
    using access_in_time [OF laws] time by auto
  with signed_token_valid [OF laws keys(1) sign keys(2)]
  have "aegis_ValidateToken (en_jwt env) (dr_parse dr') (dr_check dr') (ag_tokens ?st) (tp_AccessToken pair) = Inr ?c"
    by (simp add: access_claims_def)
  moreover have "sinv (ag_sessions ?st)" "sup (ag_sessions ?st)" "alive (ag_sessions ?st) (cl_Subject ?c) (cl_SessionID ?c)"
    using u(4-6) up by (simp_all add: rotate_keys_def access_claims_def)
  ultimately have "ValidateAccessToken env dr' (tp_AccessToken pair) ?st = Inr (aegis_GetUserContextData ?c)" by (intro validate_ok)
  with u(1-3) show ?thesis
    by (intro exI [of _ u] exI [of _ "aegis_GetUserContextData ?c"]) (simp add: aegis_GetUserContextData_def access_claims_def)
qed

end

section \<open>The manager over PostgreSQL and Redis\<close>

definition production ::
  "('priv, 'r, user_db, 'v) aegis_env \<Rightarrow> (char \<Rightarrow> string option) \<Rightarrow> uuid list \<Rightarrow> bool \<Rightarrow> 'r session_redis \<Rightarrow> ('priv, 'r, user_db, 'v) aegis_env" where
  "production E pass order commit ops = E\<lparr>en_repo := pg_user_repo (en_user E) pass order commit, en_so := redis_manager ops\<rparr>"

lemma production_simps [simp]:
  "en_user (production E pass order commit ops) = en_user E" "en_jwt (production E pass order commit ops) = en_jwt E"
  "en_repo (production E pass order commit ops) = pg_user_repo (en_user E) pass order commit"
  "en_so (production E pass order commit ops) = redis_manager ops" "en_decode (production E pass order commit ops) = en_decode E"
  by (simp_all add: production_def)

interpretation aegis: aegis_auth "pg_user_repo (en_user E) pass order commit" user_inv ud_up user_emails user_view
    "redis_manager ops" "\<lambda>r. session_redis_laws ops content" "\<lambda>r. \<forall>k. sr_get ops k r \<noteq> GetErr" "session_alive content"
    "production E pass order commit ops" gparse public
  for E :: "('priv, 'r, user_db, 'v) aegis_env" and pass order commit ops content gparse public
  by unfold_locales simp_all

end
