(* ===== verification/Identity.thy ===== *)
theory Identity
  imports AegisAuth
begin

text \<open>
  Aegis and the gateway together: what becomes of the tokens that a login gives, at Aegis (over PostgreSQL and
  Redis) and at the gateway that fetches the published keys; what a logout ends; and the logins that fail.
  The JWT library is an argument with the laws \<open>jwt_laws\<close>, Redis one with \<open>session_redis_laws\<close>; both are
  shown to be satisfiable by the samples of the witnesses.
\<close>

section \<open>The gateway with the keys that Aegis publishes\<close>

definition published_gateway ::
  "string list \<Rightarrow> 'priv key_manager \<Rightarrow> fetcher \<Rightarrow> string jwt_parser \<Rightarrow> revocation_checker option \<Rightarrow> string auth_middleware" where
  "published_gateway korder km f parse checker =
     \<lparr>am_parse = parse, am_keys = FindPublicKey (refresh_tick (raw_decode UrlAlphabet) (jwks_response korder km) f), am_revocation = checker\<rparr>"

definition not_revoked :: "revocation_checker option \<Rightarrow> string \<Rightarrow> bool" where
  "not_revoked checker jti \<longleftrightarrow> (\<forall>c. checker = Some c \<longrightarrow> c jti \<noteq> Inr True)"

lemma published_keys:
  assumes "km_ok sha256 public km" "is_order korder (km_keys km)"
  shows "am_keys (published_gateway korder km f parse checker) kid = km_FindPublicKey km kid"
  using fetch_published [OF assms, of f] by (metis auth_middleware.select_convs(2) published_gateway_def refresh_tick_def snd_conv)

lemma GetUserContextData_truncate:
  "GetUserContextData (custom_claims.truncate c)
   = \<lparr>ucd_UserID = cl_Subject c, ucd_Roles = cl_Roles c, ucd_AuthProvider = cl_AuthProvider c, ucd_SessionID = cl_SessionID c\<rparr>"
  by (simp add: GetUserContextData_def custom_claims.defs)

text \<open>A token of Aegis at the gateway, after any rotations: the next handler gets its user.\<close>

lemma gateway_accepts:
  assumes laws: "jwt_laws J gparse public" and ok: "km_ok sha256 public km" and rot: "good_pairs sha256 public (public (sk_PrivateKey (ActiveKey km))) pairs"
    and sign: "sign_claims J km claims = Some tok" and ord: "is_order korder (km_keys (rotations sha256 pairs km))"
    and time: "in_time now1 claims" "cl_ExpiresAt claims = Some e" "now2 \<le> e"
    and req: "ExtractTokenFromHeader r = tok" and checker: "not_revoked checker (cl_ID claims)"
  shows "Authenticate (published_gateway korder (rotations sha256 pairs km) f (gparse now1) checker) now2 next r w
    = next (ContextWithUserContextData \<lparr>ucd_UserID = cl_Subject claims, ucd_Roles = cl_Roles claims,
        ucd_AuthProvider = cl_AuthProvider claims, ucd_SessionID = cl_SessionID claims\<rparr> r) w"
proof -
  let ?km = "rotations sha256 pairs km"
  let ?gw = "published_gateway korder ?km f (gparse now1) checker"
  have km: "km_ok sha256 public ?km" "km_FindPublicKey ?km (sk_KID (ActiveKey km)) = Some (public (sk_PrivateKey (ActiveKey km)))"
    using rotations_keep [OF ok active_found [OF ok] rot] by blast+
  have "am_keys ?gw (sk_KID (ActiveKey km)) = Some (public (sk_PrivateKey (ActiveKey km)))"
    using published_keys [OF km(1) ord] km(2) by metis
  from signed_token_gateway [OF laws sign, of "am_keys ?gw", OF this time]
  have v: "Auth.ValidateToken (am_parse ?gw) (am_keys ?gw) now2 tok = Inr (custom_claims.truncate claims)" by (simp add: published_gateway_def)
  have "tok \<noteq> []" using jwt_text [OF laws sign [unfolded sign_claims_def]] .
  moreover have "am_revocation ?gw = checker" "cl_ID (custom_claims.truncate claims) = cl_ID claims"
    by (simp_all add: published_gateway_def custom_claims.defs)
  ultimately show ?thesis using v req checker
    by (simp add: Authenticate_def Let_def GetUserContextData_truncate not_revoked_def split: option.splits)
qed

section \<open>Properties\<close>

text \<open>The access token of a login that succeeded is accepted by Aegis, also after any rotations of the
  signing keys, until a second before its lifetime is over: the login was of the stored user with that
  address and the password fits the stored hash, and the context that validation gives is that user with
  the stored roles and the new session.\<close>

lemma login_token_accepted:
  assumes "user_inv (ag_users st)" "session_redis_laws ops content" "km_ok sha256 public (tm_keys (ag_tokens st))"
    and "jwt_laws (en_jwt E) gparse public"
    and "AuthenticateWithPassword (production E pass order commit ops) dr email pw meta st = (Inr (pair, sid), st')"
    and "good_pairs sha256 public (public (sk_PrivateKey (ActiveKey (tm_keys (ag_tokens st))))) pairs"
    and "pc_now (dr_pair dr) \<le> dr_parse dr'" "dr_parse dr' \<le> dr_check dr'"
      "dr_check dr' \<le> pc_now (dr_pair dr) + tm_accessExpiration (ag_tokens st) - seconds 1"
    and "\<forall>k. sr_get ops k (ag_sessions st') \<noteq> GetErr"
  shows "\<exists>u c. user_view (ag_users st) (us_ID u) = Some u \<and> us_Email u = ToLower (TrimSpace email)
    \<and> ValidatePasswordHash (en_user E) pw u = Inr True
    \<and> ValidateAccessToken (production E pass order commit ops) dr' (tp_AccessToken pair) (rotate_keys sha256 pairs st') = Inr c
    \<and> ucd_UserID c = FormatID u \<and> ucd_Roles c = us_Roles u \<and> ucd_SessionID c = sid \<and> ucd_JTI c = dr_jti dr"
proof -
  have l: "user_inv (ag_users st)" "session_redis_laws ops content" "jwt_laws (en_jwt (production E pass order commit ops)) gparse public"
    using assms(1,2,4) by simp_all
  from aegis.login_token_ok [OF l(1,2) assms(3) l(3) assms(5,6,7,8,9,10)] show ?thesis by simp
qed

text \<open>C4: After a logout that succeeded, no token that Aegis ever signed for that user and session is accepted by
  Aegis, neither for access nor for a refresh, whatever happens later: registrations, logins, logins over
  providers, refreshes, logouts, revocations and rotations of the keys, as long as the ID of the session is not
  drawn again.\<close>

theorem logout_ends_session:
  assumes "session_redis_laws ops content" "jwt_laws (en_jwt E) gparse public"
    and "Logout (production E pass order commit ops) ctx uid sid st = (None, st')"
    and "plain sid" "\<forall>act \<in> set acts. draws_other sid act"
    and "sign_claims (en_jwt E) km claims = Some tok" "cl_Subject claims = uid" "cl_SessionID claims = sid"
  shows "refused_token (production E pass order commit ops) (fold (aegis_do (production E pass order commit ops) sha256) acts st') tok"
proof -
  have l: "session_redis_laws ops content" "jwt_laws (en_jwt (production E pass order commit ops)) gparse public"
      "sign_claims (en_jwt (production E pass order commit ops)) km claims = Some tok"
    using assms(1,2,6) by simp_all
  from aegis.logged_out_refused [OF l(1,2) assms(3,4,5) l(3) assms(7,8)] show ?thesis .
qed

text \<open>C2: The access token of a login that succeeded opens the gateway that has fetched the keys that Aegis publishes,
  also after any rotations of the keys: the next handler is called with the stored user, its roles and the
  session as the user context, until a second before the lifetime is over and unless the gateway's
  revocation check names the token.\<close>

theorem login_opens_gateway:
  assumes inv: "user_inv (ag_users st)" "session_redis_laws ops content" "km_ok sha256 public (tm_keys (ag_tokens st))"
    and laws: "jwt_laws (en_jwt E) gparse public"
    and login: "AuthenticateWithPassword (production E pass order commit ops) dr email pw meta st = (Inr (pair, sid), st')"
    and rot: "good_pairs sha256 public (public (sk_PrivateKey (ActiveKey (tm_keys (ag_tokens st))))) pairs"
    and ord: "is_order korder (km_keys (rotations sha256 pairs (tm_keys (ag_tokens st))))"
    and time: "pc_now (dr_pair dr) \<le> now1" "now1 \<le> now2" "now2 \<le> pc_now (dr_pair dr) + tm_accessExpiration (ag_tokens st) - seconds 1"
    and req: "ExtractTokenFromHeader r = tp_AccessToken pair" "not_revoked checker (dr_jti dr)"
  shows "\<exists>u. user_view (ag_users st) (us_ID u) = Some u \<and> us_Email u = ToLower (TrimSpace email)
    \<and> ValidatePasswordHash (en_user E) pw u = Inr True
    \<and> Authenticate (published_gateway korder (rotations sha256 pairs (tm_keys (ag_tokens st))) f (gparse now1) checker) now2 next r w
      = next (ContextWithUserContextData \<lparr>ucd_UserID = FormatID u, ucd_Roles = us_Roles u,
          ucd_AuthProvider = AuthProviderPassword, ucd_SessionID = sid\<rparr> r) w"
proof -
  have l: "user_inv (ag_users st)" "session_redis_laws ops content" using inv(1,2) .
  from aegis.login_ok [OF l login] obtain u where u: "user_view (ag_users st) (us_ID u) = Some u" "us_Email u = ToLower (TrimSpace email)"
      "ValidatePasswordHash (en_user E) pw u = Inr True"
      "GenerateTokenPair (en_jwt E) (dr_order dr) (dr_pair dr) (dr_jti dr) (ag_tokens st) (FormatID u) sid AuthProviderPassword (us_Roles u) None
        = Some pair" by auto
  let ?c = "access_claims (en_jwt E) (dr_order dr) (dr_pair dr) (dr_jti dr) (ag_tokens st) (FormatID u) sid AuthProviderPassword (us_Roles u) None"
  have sign: "sign_claims (en_jwt E) (tm_keys (ag_tokens st)) ?c = Some (tp_AccessToken pair)" using GenerateTokenPair_Some [OF u(4)] by blast
  have t: "in_time now1 ?c" "cl_ExpiresAt ?c = Some (jw_date (en_jwt E) (pc_now (dr_pair dr) + tm_accessExpiration (ag_tokens st)))"
      "now2 \<le> jw_date (en_jwt E) (pc_now (dr_pair dr) + tm_accessExpiration (ag_tokens st))"
    using access_in_time [OF laws, of "dr_pair dr" _ "ag_tokens st"] time by simp_all (simp add: access_claims_def)
  have "not_revoked checker (cl_ID ?c)" using req(2) by (simp add: access_claims_def)
  from gateway_accepts [OF laws inv(3) rot sign ord t req(1) this] u(1-3) show ?thesis
    by (intro exI [of _ u]) (simp add: access_claims_def)
qed

text \<open>The refresh token of a login is taken for an access token by the gateway: its type is not looked at, and
  with the refresh token in place of the access token the next handler is called with the user and the
  session, only without roles, for the lifetime of the refresh token. A revocation mark that ends with the
  access token, as the one a logout leaves, no longer names it then.\<close>

lemma refresh_token_passes_gateway:
  assumes inv: "user_inv (ag_users st)" "session_redis_laws ops content" "km_ok sha256 public (tm_keys (ag_tokens st))"
    and laws: "jwt_laws (en_jwt E) gparse public"
    and login: "AuthenticateWithPassword (production E pass order commit ops) dr email pw meta st = (Inr (pair, sid), st')"
    and ord: "is_order korder (km_keys (tm_keys (ag_tokens st)))"
    and time: "pc_nbf (dr_pair dr) \<le> now1" "now1 \<le> now2" "now2 \<le> pc_exp (dr_pair dr) + tm_refreshExpiration (ag_tokens st) - seconds 1"
    and req: "ExtractTokenFromHeader r = tp_RefreshToken pair" "not_revoked checker (dr_jti dr)"
  shows "\<exists>u. user_view (ag_users st) (us_ID u) = Some u
    \<and> Authenticate (published_gateway korder (tm_keys (ag_tokens st)) f (gparse now1) checker) now2 next r w
      = next (ContextWithUserContextData \<lparr>ucd_UserID = FormatID u, ucd_Roles = None,
          ucd_AuthProvider = AuthProviderPassword, ucd_SessionID = sid\<rparr> r) w"
proof -
  have l: "user_inv (ag_users st)" "session_redis_laws ops content" using inv(1,2) .
  from aegis.login_ok [OF l login] obtain u where u: "user_view (ag_users st) (us_ID u) = Some u"
      "GenerateTokenPair (en_jwt E) (dr_order dr) (dr_pair dr) (dr_jti dr) (ag_tokens st) (FormatID u) sid AuthProviderPassword (us_Roles u) None
        = Some pair" by auto
  let ?c = "refresh_claims (en_jwt E) (dr_pair dr) (ag_tokens st) (FormatID u) sid (dr_jti dr) AuthProviderPassword None"
  let ?e = "jw_date (en_jwt E) (pc_exp (dr_pair dr) + tm_refreshExpiration (ag_tokens st))"
  have sign: "sign_claims (en_jwt E) (tm_keys (ag_tokens st)) ?c = Some (tp_RefreshToken pair)" using GenerateTokenPair_Some [OF u(2)] by blast
  have t: "in_time now1 ?c" "cl_ExpiresAt ?c = Some ?e" "now2 \<le> ?e"
    using refresh_in_time [OF laws, of "dr_pair dr" _ "ag_tokens st"] time by simp_all (simp add: refresh_claims_def)
  have "not_revoked checker (cl_ID ?c)" using req(2) by (simp add: refresh_claims_def)
  from gateway_accepts [where pairs = "[]", OF laws inv(3) _ sign _ t req(1) this, of korder f "next" w] ord u(1) show ?thesis
    by (intro exI [of _ u]) (simp add: refresh_claims_def rotations_def good_pairs_def)
qed

text \<open>A login with an address that no user has does not fail as with a wrong password: the store gives no user
  and no error, and the manager dereferences the nil user.\<close>

lemma unknown_address_panics:
  assumes "user_inv (ag_users st)" "ud_up (ag_users st)" "ToLower (TrimSpace email) \<notin> user_emails (ag_users st)"
    and "IsValidEmail (ToLower (TrimSpace email))"
  shows "AuthenticateWithPassword (production E pass order commit ops) dr email pw meta st = (Inl Panic, st)"
proof -
  let ?env = "production E pass order commit ops"
  have "ur_GetByEmail (en_repo ?env) (ToLower (TrimSpace email)) (ag_users st) = Inr None"
    using pg_users.by_email_none [OF assms(1)] assms(2,3) by simp
  then have "GetUserByEmail ?env email st = Inr None"
    using assms(4) by (simp add: GetUserByEmail_def Users.GetByEmail_def Let_def del: production_simps)
  then show ?thesis by (simp add: AuthenticateWithPassword_def)
qed

text \<open>No login over a provider ever succeeds, whichever provider and whatever it answers, if the decoder of
  JSON fails at the end of its input: the reply of Google has been read to its end when it is decoded, and
  for the others no data of the user are made.\<close>

lemma oauth_login_never_succeeds:
  assumes "en_decode env [] = None"
  shows "\<exists>err st'. OAuthCallback env dr reply provider code state meta st = (Inl err, st')"
proof -
  have "\<exists>err st'. getOrCreateUserFromOAuth env dr reply provider token st1 = (Inl err, st')" for token st1
    using GetUserInfo_none [of "en_decode env" "en_lib env" "en_raw env" reply provider token] assms
    by (auto simp: getOrCreateUserFromOAuth_def split: sum.splits option.splits)
  then have get: "getOrCreateUserFromOAuth env dr reply provider token st1 \<noteq> (Inr x, st')" for token st1 x st'
    by (metis Inl_Inr_False prod.inject)
  obtain out st' where out: "OAuthCallback env dr reply provider code state meta st = (out, st')" by fastforce
  then have "\<exists>err. out = Inl err" using get by (auto simp: OAuthCallback_def split: sum.splits prod.splits)
  with out show ?thesis by blast
qed

section \<open>Samples\<close>

text \<open>A JWT library that signs the tokens of a table with the texts of the table.\<close>

definition table_jwt :: "('priv \<Rightarrow> string) \<Rightarrow> (string, 'priv \<times> aegis_token) gomap \<Rightarrow> 'priv jwt_ops" where
  "table_jwt public tbl =
     \<lparr>jw_date = (\<lambda>t. t div seconds 1 * seconds 1),
      jw_sign = (\<lambda>priv t. map_option fst (find (\<lambda>(s, entry). entry = (priv, t)) tbl)),
      jw_parse = (\<lambda>now kf s. case mget tbl s of
          None \<Rightarrow> Inl (ParseError ''malformed'')
        | Some (priv, t) \<Rightarrow>
            if kf t = Inr (public priv) \<and> in_time now (at_Claims t) then Inr (t\<lparr>at_Valid := True\<rparr>) else Inl InvalidToken)\<rparr>"

definition table_gparse :: "('priv \<Rightarrow> string) \<Rightarrow> (string, 'priv \<times> aegis_token) gomap \<Rightarrow> time \<Rightarrow> string jwt_parser" where
  "table_gparse public tbl now kf s =
     (case mget tbl s of
        None \<Rightarrow> Inl (ParseError ''malformed'')
      | Some (priv, t) \<Rightarrow>
          if kf (gateway_token t) = Inr (public priv) \<and> in_time now (at_Claims t) then Inr ((gateway_token t)\<lparr>tk_Valid := True\<rparr>)
          else Inl InvalidToken)"

lemma table_laws:
  assumes "wfmap tbl" "mget tbl [] = None"
  shows "jwt_laws (table_jwt public tbl) (table_gparse public tbl) public"
proof -
  have m: "mget tbl s = Some (priv, t)" if "jw_sign (table_jwt public tbl) priv t = Some s" for priv t s
    using that in_set_mget [OF assms(1)] by (auto simp: table_jwt_def dest!: find_SomeD)
  have d: "t div seconds 1 * seconds 1 \<le> t \<and> t < t div seconds 1 * seconds 1 + seconds 1" for t
    unfolding seconds_def by presburger
  show ?thesis unfolding jwt_laws_def
  proof (intro conjI allI impI)
    fix priv t s now kf kf' t'
    assume s: "jw_sign (table_jwt public tbl) priv t = Some s"
    note m = m [OF s]
    show "s \<noteq> []" using m assms(2) by auto
    show "kf t = Inr (public priv) \<and> in_time now (at_Claims t) \<Longrightarrow> jw_parse (table_jwt public tbl) now kf s = Inr (t\<lparr>at_Valid := True\<rparr>)"
      using m by (simp add: table_jwt_def)
    show "jw_parse (table_jwt public tbl) now kf s = Inr t' \<Longrightarrow> t' = t\<lparr>at_Valid := True\<rparr>"
        "jw_parse (table_jwt public tbl) now kf s = Inr t' \<Longrightarrow> in_time now (at_Claims t)"
      using m by (auto simp: table_jwt_def split: if_splits)
    show "kf' (gateway_token t) = Inr (public priv) \<and> in_time now (at_Claims t) \<Longrightarrow>
        table_gparse public tbl now kf' s = Inr ((gateway_token t)\<lparr>tk_Valid := True\<rparr>)"
      using m by (simp add: table_gparse_def)
  qed (simp_all add: table_jwt_def d)
qed

definition sample_pub :: string where
  "sample_pub = replicate 32 CHR ''a''"

definition sample_km :: "string key_manager" where
  "sample_km = the (NewKeyManager id (Some (sample_pub, sample_pub)))"

definition sample_tm :: "string token_manager" where
  "sample_tm = NewTokenManager sample_km ''aegis'' (seconds 900) (seconds 86400)"

definition sample_draw :: auth_draw where
  "sample_draw =
     \<lparr>dr_salt = None, dr_userID = [], dr_sessionID = ''s1'', dr_jti = ''j1'', dr_order = [], dr_created = 0, dr_login = 0,
      dr_pair = \<lparr>pc_now = 0, pc_exp = 0, pc_iat = 0, pc_nbf = 0\<rparr>, dr_parse = seconds 5, dr_check = seconds 5\<rparr>"

definition sample_access :: aegis_claims where
  "sample_access = access_claims (table_jwt id []) [] (dr_pair sample_draw) ''j1'' sample_tm ''usr_u1'' ''s1'' AuthProviderPassword (Some []) None"

definition sample_refresh :: aegis_claims where
  "sample_refresh = refresh_claims (table_jwt id []) (dr_pair sample_draw) sample_tm ''usr_u1'' ''s1'' ''j1'' AuthProviderPassword None"

definition sample_tokens :: "(string, string \<times> aegis_token) gomap" where
  "sample_tokens = [(''acc'', sample_pub, new_token sample_km sample_access), (''ref'', sample_pub, new_token sample_km sample_refresh)]"

abbreviation sample_jwt :: "string jwt_ops" where
  "sample_jwt \<equiv> table_jwt id sample_tokens"

abbreviation sample_gparse :: "time \<Rightarrow> string jwt_parser" where
  "sample_gparse \<equiv> table_gparse id sample_tokens"

definition sample_aegis_env :: "(string, (string, stored) gomap, user_db, (string, string) gomap) aegis_env" where
  "sample_aegis_env =
     \<lparr>en_user = sample_env, en_repo = sample_repo, en_so = redis_manager sample_session_redis, en_jwt = sample_jwt,
      en_vs = memory_verifiers, en_lib = sample_lib, en_providers = sample_providers, en_sql_no_rows = False,
      en_decode = (\<lambda>text. None), en_raw = (\<lambda>text. True), en_revoke_status = (\<lambda>provider token. None)\<rparr>"

abbreviation sample_aegis :: "(string, (string, stored) gomap, user_db, (string, string) gomap) aegis_env" where
  "sample_aegis \<equiv> production sample_aegis_env (\<lambda>c. Some [c]) [''t1''] True sample_session_redis"

definition sample_state :: "user_db \<Rightarrow> (string, stored) gomap \<Rightarrow> (string, (string, stored) gomap, user_db, (string, string) gomap) aegis" where
  "sample_state db r = \<lparr>ag_tokens = sample_tm, ag_sessions = r, ag_users = db, ag_verifiers = [(''x1'', ''v1'')], ag_bus = None\<rparr>"

lemma sample_env_simps [simp]: "en_user sample_aegis_env = sample_env" "en_jwt sample_aegis_env = sample_jwt"
  by (simp_all add: sample_aegis_env_def)

lemma sample_laws: "jwt_laws sample_jwt sample_gparse id"
  by (rule table_laws) (simp_all add: sample_tokens_def)

lemma sample_km_ok: "km_ok id id sample_km"
proof -
  have p: "pair_ok id id (sample_pub, sample_pub)" by (simp add: pair_ok_def sample_pub_def)
  have "NewKeyManager id (Some (sample_pub, sample_pub)) = Some sample_km" by (simp add: sample_km_def NewKeyManager_def generateSigningKey_def)
  from NewKeyManager_ok [OF p this] show ?thesis .
qed

lemma sample_key: "sk_PrivateKey (ActiveKey sample_km) = sample_pub"
  by (simp add: sample_km_def NewKeyManager_def generateSigningKey_def ActiveKey_def)

lemma sample_signs:
  "sign_claims sample_jwt sample_km sample_access = Some ''acc''" "sign_claims sample_jwt sample_km sample_refresh = Some ''ref''"
proof -
  have "sample_access \<noteq> sample_refresh"
    by (simp add: sample_access_def sample_refresh_def access_claims_def refresh_claims_def TypeAccessToken_def TypeRefreshToken_def)
  then show "sign_claims sample_jwt sample_km sample_access = Some ''acc''" "sign_claims sample_jwt sample_km sample_refresh = Some ''ref''"
    by (simp_all add: sign_claims_def sample_key) (simp_all add: table_jwt_def sample_tokens_def new_token_def)
qed

text \<open>The sample user logs in.\<close>

lemma sample_pair:
  "GenerateTokenPair sample_jwt [] (dr_pair sample_draw) ''j1'' sample_tm ''usr_u1'' ''s1'' AuthProviderPassword (Some []) None
   = Some \<lparr>tp_AccessToken = ''acc'', tp_RefreshToken = ''ref''\<rparr>"
proof -
  have "access_claims sample_jwt [] (dr_pair sample_draw) ''j1'' sample_tm ''usr_u1'' ''s1'' AuthProviderPassword (Some []) None = sample_access"
      "refresh_claims sample_jwt (dr_pair sample_draw) sample_tm ''usr_u1'' ''s1'' ''j1'' AuthProviderPassword None = sample_refresh"
    by (simp_all add: sample_access_def sample_refresh_def access_claims_def refresh_claims_def table_jwt_def)
  moreover have "cl_ID sample_access = ''j1''" "tm_keys sample_tm = sample_km"
    by (simp_all add: sample_access_def access_claims_def sample_tm_def NewTokenManager_def)
  ultimately show ?thesis by (simp add: GenerateTokenPair_def makeRefreshToken_def sample_signs Let_def)
qed

lemma sample_login:
  "\<exists>db r'. user_inv db \<and> AuthenticateWithPassword sample_aegis sample_draw ''ann@a.io'' ''Secret1!'' sample_meta (sample_state db [])
    = (Inr (\<lparr>tp_AccessToken = ''acc'', tp_RefreshToken = ''ref''\<rparr>, ''s1''), sample_state db r')"
proof -
  obtain h db where c: "sample_create = (Inr (sample_user h), db)" using sample_created by blast
  have inv: "user_inv empty_db" by (simp add: user_inv_def empty_db_def)
  let ?u = "as_stored (sample_user h)"
  note created = pg_users.Create_ok [OF inv c]
  have found: "Users.GetByEmail sample_repo ''ann@a.io'' db = Inr (Some ?u)"
    using pg_users.Create_found [OF inv c] by (simp add: sample_params_def sample_env_def)
  have "NewUser sample_env (Some ''0123456789abcdef'') ''u1'' sample_params = Inr (sample_user h)" using created by blast
  from NewUser_password [OF this sample_argon, of "''Secret1!''"]
  have pw: "ValidatePasswordHash sample_env ''Secret1!'' ?u = Inr True"
    by (simp add: ValidatePasswordHash_def as_stored_def sample_params_def AuthProviderPassword_def)
  have e: "ToLower (TrimSpace ''ann@a.io'') = ''ann@a.io''" by code_simp
  have u: "FormatID ?u = ''usr_u1''" "us_Roles ?u = Some []" by (simp_all add: FormatID_def as_stored_def sample_user_def)
  have get: "GetUserByEmail sample_aegis ''ann@a.io'' (sample_state db []) = Inr (Some ?u)"
    using found by (simp add: GetUserByEmail_def e sample_state_def)
  let ?ps = "\<lparr>sn_UserID = ''usr_u1'', sn_Roles = Some [], sn_SessionParams = sample_meta,
    sn_AuthMethod = AuthMethodPassword, sn_Provider = AuthProviderPassword, sn_OAuthToken = None\<rparr>"
  obtain r' where st: "start_session sample_aegis sample_draw ''usr_u1'' ?ps (sample_state db []) = (Inr ''s1'', sample_state db r')"
    by (simp add: start_session_def redis_manager_def CreateSession_def sample_session_redis_def refreshTokenExpiration_def Let_def
        sample_state_def) (simp add: sample_draw_def)
  have "make_pair sample_aegis sample_draw (sample_state db r') ''usr_u1'' ''s1'' AuthProviderPassword (Some []) None
      = Some \<lparr>tp_AccessToken = ''acc'', tp_RefreshToken = ''ref''\<rparr>"
    using sample_pair by (simp add: make_pair_def sample_state_def sample_draw_def)
  with get pw u st created show ?thesis
    by (intro exI [of _ db] exI [of _ r']) (simp add: AuthenticateWithPassword_def)
qed

definition second_pub :: string where
  "second_pub = replicate 32 CHR ''b''"

lemma sample_rotation: "good_pairs id id sample_pub [Some (second_pub, second_pub), None]"
  by (simp add: good_pairs_def pair_ok_def collides_def second_pub_def sample_pub_def)

lemma sample_sessions_up: "sr_get sample_session_redis k r \<noteq> GetErr"
  by (simp add: sample_session_redis_def split: option.splits)

lemma sample_state_simps [simp]:
  "ag_tokens (sample_state db r) = sample_tm" "ag_sessions (sample_state db r) = r" "ag_users (sample_state db r) = db"
  "tm_keys sample_tm = sample_km" "tm_accessExpiration sample_tm = seconds 900" "tm_refreshExpiration sample_tm = seconds 86400"
  "pc_now (dr_pair sample_draw) = 0" "pc_exp (dr_pair sample_draw) = 0" "pc_nbf (dr_pair sample_draw) = 0"
  "dr_parse sample_draw = seconds 5" "dr_check sample_draw = seconds 5" "dr_jti sample_draw = ''j1''"
  by (simp_all add: sample_state_def sample_tm_def NewTokenManager_def sample_draw_def)

lemma login_token_accepted_witness:
  "\<exists>db r' u c. AuthenticateWithPassword sample_aegis sample_draw ''ann@a.io'' ''Secret1!'' sample_meta (sample_state db [])
      = (Inr (\<lparr>tp_AccessToken = ''acc'', tp_RefreshToken = ''ref''\<rparr>, ''s1''), sample_state db r')
    \<and> user_view db (us_ID u) = Some u
    \<and> ValidateAccessToken sample_aegis sample_draw ''acc'' (rotate_keys id [Some (second_pub, second_pub), None] (sample_state db r')) = Inr c
    \<and> ucd_UserID c = FormatID u \<and> ucd_SessionID c = ''s1''"
proof -
  obtain db r' where l: "user_inv db" "AuthenticateWithPassword sample_aegis sample_draw ''ann@a.io'' ''Secret1!'' sample_meta (sample_state db [])
      = (Inr (\<lparr>tp_AccessToken = ''acc'', tp_RefreshToken = ''ref''\<rparr>, ''s1''), sample_state db r')" using sample_login by blast
  from login_token_accepted [OF _ sample_session_laws _ _ l(2), of id id sample_gparse "[Some (second_pub, second_pub), None]" sample_draw]
  have "\<exists>u c. user_view db (us_ID u) = Some u
      \<and> ValidateAccessToken sample_aegis sample_draw ''acc'' (rotate_keys id [Some (second_pub, second_pub), None] (sample_state db r')) = Inr c
      \<and> ucd_UserID c = FormatID u \<and> ucd_SessionID c = ''s1''"
    using l(1) sample_km_ok sample_laws sample_rotation sample_sessions_up by (auto simp: sample_key seconds_def)
  with l(2) show ?thesis by blast
qed

definition no_keys :: fetcher where
  "no_keys = \<lparr>fe_keys = [], fe_ready = False, fe_refreshInterval = seconds 300\<rparr>"

lemma sample_bearer_token:
  "ExtractTokenFromHeader (bearer_request ''acc'') = ''acc''" "ExtractTokenFromHeader (bearer_request ''ref'') = ''ref''"
  by code_simp+

lemma sample_order: "is_order (mkeys (km_keys sample_km)) (km_keys sample_km)"
  using sample_km_ok by (simp add: km_ok_def is_order_mkeys)

theorem login_opens_gateway_witness:
  "\<exists>u. us_Email u = ''ann@a.io''
    \<and> Authenticate (published_gateway (mkeys (km_keys sample_km)) sample_km no_keys (sample_gparse (seconds 5)) None)
        (seconds 6) echo_user (bearer_request ''acc'') 0
      = echo_user (ContextWithUserContextData \<lparr>ucd_UserID = FormatID u, ucd_Roles = us_Roles u,
          ucd_AuthProvider = AuthProviderPassword, ucd_SessionID = ''s1''\<rparr> (bearer_request ''acc'')) 0"
proof -
  obtain db r' where l: "user_inv db" "AuthenticateWithPassword sample_aegis sample_draw ''ann@a.io'' ''Secret1!'' sample_meta (sample_state db [])
      = (Inr (\<lparr>tp_AccessToken = ''acc'', tp_RefreshToken = ''ref''\<rparr>, ''s1''), sample_state db r')" using sample_login by blast
  have e: "ToLower (TrimSpace ''ann@a.io'') = ''ann@a.io''" by code_simp
  have ord: "is_order (mkeys (km_keys sample_km)) (km_keys (rotations id [] sample_km))" using sample_order by (simp add: rotations_def)
  from login_opens_gateway [OF _ sample_session_laws _ _ l(2), of id id sample_gparse "[]" "mkeys (km_keys sample_km)" "seconds 5" "seconds 6"
      "bearer_request ''acc''" None "no_keys" echo_user 0]
  show ?thesis using l(1) sample_km_ok sample_laws ord
    by (auto simp: sample_bearer_token not_revoked_def good_pairs_def seconds_def e rotations_def)
qed

lemma refresh_token_passes_gateway_witness:
  "\<exists>u. Authenticate (published_gateway (mkeys (km_keys sample_km)) sample_km no_keys (sample_gparse (seconds 5000)) None)
        (seconds 5000) echo_user (bearer_request ''ref'') 0
      = echo_user (ContextWithUserContextData \<lparr>ucd_UserID = FormatID u, ucd_Roles = None,
          ucd_AuthProvider = AuthProviderPassword, ucd_SessionID = ''s1''\<rparr> (bearer_request ''ref'')) 0"
proof -
  obtain db r' where l: "user_inv db" "AuthenticateWithPassword sample_aegis sample_draw ''ann@a.io'' ''Secret1!'' sample_meta (sample_state db [])
      = (Inr (\<lparr>tp_AccessToken = ''acc'', tp_RefreshToken = ''ref''\<rparr>, ''s1''), sample_state db r')" using sample_login by blast
  from refresh_token_passes_gateway [OF _ sample_session_laws _ _ l(2), of id id sample_gparse "mkeys (km_keys sample_km)" "seconds 5000" "seconds 5000"
      "bearer_request ''ref''" None "no_keys" echo_user 0]
  show ?thesis using l(1) sample_km_ok sample_laws sample_order by (auto simp: sample_bearer_token not_revoked_def seconds_def)
qed

theorem logout_ends_session_witness:
  "\<exists>st'. Logout sample_aegis None ''usr_u1'' ''s1'' (sample_state empty_db one_session) = (None, st')
    \<and> refused_token sample_aegis (fold (aegis_do sample_aegis id) [ActRevokeAll ''usr_u1'', ActRotate None] st') ''ref''"
proof -
  have "\<exists>r'. Logout sample_aegis None ''usr_u1'' ''s1'' (sample_state empty_db one_session) = (None, sample_state empty_db r')"
    by (simp add: Logout_def redis_manager_def GetSession_def InvalidateUserSession_def one_session_def CreateSession_def sample_session_redis_def
        Let_def publish_revocation_def providerLogout_def sample_state_def HasUserPrefix_def)
  then obtain r' where l: "Logout sample_aegis None ''usr_u1'' ''s1'' (sample_state empty_db one_session) = (None, sample_state empty_db r')" ..
  have "cl_Subject sample_refresh = ''usr_u1''" "cl_SessionID sample_refresh = ''s1''" by (simp_all add: sample_refresh_def refresh_claims_def)
  from logout_ends_session [OF sample_session_laws _ l, of sample_gparse id "[ActRevokeAll ''usr_u1'', ActRotate None]" sample_km sample_refresh
      "''ref''" id] this l show ?thesis
    using sample_laws sample_signs(2) by (auto simp: plain_def)
qed

lemma unknown_address_panics_witness:
  "AuthenticateWithPassword sample_aegis sample_draw ''bob@a.io'' ''Secret1!'' sample_meta (sample_state empty_db []) = (Inl Panic, sample_state empty_db [])"
proof (rule unknown_address_panics)
  have e: "ToLower (TrimSpace ''bob@a.io'') = ''bob@a.io''" by code_simp
  show "user_inv (ag_users (sample_state empty_db []))" "ud_up (ag_users (sample_state empty_db []))"
    by (simp_all add: user_inv_def empty_db_def)
  show "ToLower (TrimSpace ''bob@a.io'') \<notin> user_emails (ag_users (sample_state empty_db []))" by (simp add: user_emails_def empty_db_def)
  show "IsValidEmail (ToLower (TrimSpace ''bob@a.io''))" by code_simp
qed

lemma oauth_login_never_succeeds_witness:
  "\<exists>err st'. OAuthCallback sample_aegis sample_draw (InfoReply 200 (Some ''{}'')) ''google'' ''code'' ''x1'' sample_meta (sample_state empty_db [])
     = (Inl err, st')"
  by (rule oauth_login_never_succeeds) (simp add: sample_aegis_env_def)

end
