(* ===== verification/AuditLog.thy ===== *)
theory AuditLog
  imports PrefixedIds RateLimitService "HOL-Library.Multiset"
begin

text \<open>
  The audit log of the gateway: its entries and requests (\<open>prism/internal/domain/audit_log.go\<close>), the service
  (\<open>features/audit/service_audit.go\<close>), its handlers (\<open>handler.go\<close>, \<open>dto\<close>) and its table
  (\<open>adapters/postgres/audit_log_repository.go\<close>).

  \<open>audit_env\<close> holds what lies outside: UUIDs, the JSON of event data, the text forms of times and addresses,
  the calendar, and what the driver makes of a prefixed identifier that is given for a UUID column
  (\<open>ae_bind\<close>, the type has no method for the driver). The table is a list of rows with the
  constraints of the schema. A page size for which there is no memory, where \<open>make\<close> panics, is not represented.
\<close>

type_synonym event_data = "(string \<times> event_value) list"

record ('u, 'ip) audit_env =
  ae_uu :: "'u uuid_ops"
  ae_bind :: "'u prefixed_id \<Rightarrow> 'u option"
  ae_marshal :: "event_data option \<Rightarrow> string option"
  ae_decode :: "string \<Rightarrow> event_data option option"
  ae_parse_time :: "string \<Rightarrow> time option"
  ae_format_time :: "time \<Rightarrow> string"
  ae_month_ago :: "time \<Rightarrow> time"
  ae_ip :: "'ip \<Rightarrow> string"
  ae_no_rows :: bool

text \<open>\<open>ae_no_rows\<close>: whether the driver's error for no rows is \<open>sql.ErrNoRows\<close>.\<close>

datatype audit_error = BadID id_error | BadDate string | MarshalFailed | AuditDbError | ScanFailed | AuditNotFound
  | ErrInvalidRequest | StartAfterEnd | BadGroup string

section \<open>Entries and requests\<close>

record ('u, 'ip) audit_log =
  al_ID :: "'u prefixed_id"
  al_EventType :: string
  al_ActorType :: string
  al_ActorID :: string
  al_TenantID :: "'u prefixed_id option"
  al_ResourceType :: string
  al_ResourceID :: "'u prefixed_id option"
  al_IPAddress :: "'ip option"
  al_UserAgent :: string
  al_EventData :: "event_data option"
  al_CreatedAt :: time

text \<open>A request of another component, with the two fields it leaves empty.\<close>

record 'ip audit_log_req = audit_req +
  aq_IPAddress :: "'ip option"
  aq_UserAgent :: string

record ('u, 'ip) audit_params =
  ap_EventType :: string
  ap_ActorType :: string
  ap_ActorID :: string
  ap_TenantID :: "'u prefixed_id"
  ap_ResourceType :: string
  ap_ResourceID :: "'u prefixed_id"
  ap_IPAddress :: "'ip option"
  ap_UserAgent :: string
  ap_EventData :: event_data

definition AuditLogReq_Parse :: "'u uuid_ops \<Rightarrow> 'ip audit_log_req \<Rightarrow> id_error + ('u, 'ip) audit_params" where
  "AuditLogReq_Parse uu r =
     (case ParseTenantID uu (ar_TenantID r) of
        Inl err \<Rightarrow> Inl err
      | Inr tenantID \<Rightarrow>
          (case ParseResourceID uu (ar_ResourceID r) of
             Inl err \<Rightarrow> Inl err
           | Inr resourceID \<Rightarrow>
               Inr \<lparr>ap_EventType = ar_EventType r, ap_ActorType = ar_ActorType r, ap_ActorID = ar_ActorID r,
                    ap_TenantID = tenantID, ap_ResourceType = ar_ResourceType r, ap_ResourceID = resourceID,
                    ap_IPAddress = aq_IPAddress r, ap_UserAgent = aq_UserAgent r, ap_EventData = ar_EventData r\<rparr>))"

definition NewAuditLog ::
  "'u uuid_ops \<Rightarrow> 'u \<Rightarrow> time \<Rightarrow> 'ip audit_log_req \<Rightarrow> id_error + ('u, 'ip) audit_log" where
  "NewAuditLog uu newID now req =
     (case AuditLogReq_Parse uu req of
        Inl err \<Rightarrow> Inl err
      | Inr params \<Rightarrow>
          Inr \<lparr>al_ID = NewAuditLogID uu newID, al_EventType = ap_EventType params, al_ActorType = ap_ActorType params,
               al_ActorID = ap_ActorID params, al_TenantID = Some (ap_TenantID params),
               al_ResourceType = ap_ResourceType params, al_ResourceID = Some (ap_ResourceID params),
               al_IPAddress = ap_IPAddress params, al_UserAgent = ap_UserAgent params,
               al_EventData = Some (ap_EventData params), al_CreatedAt = now\<rparr>)"

record list_req =
  lq_TenantID :: "string option"
  lq_UserID :: "string option"
  lq_EventType :: "string option"
  lq_ResourceType :: "string option"
  lq_ResourceID :: "string option"
  lq_StartDate :: "string option"
  lq_EndDate :: "string option"
  lq_Page :: "int option"
  lq_PageSize :: "int option"

record 'u list_logs_params =
  lp_TenantID :: "'u prefixed_id option"
  lp_UserID :: "'u prefixed_id option"
  lp_EventType :: string
  lp_ResourceType :: string
  lp_ResourceID :: "'u prefixed_id option"
  lp_StartDate :: time
  lp_EndDate :: time
  lp_Page :: int
  lp_PageSize :: int

text \<open>An identifier or a date that may be missing.\<close>

definition parse_opt_id :: "('a \<Rightarrow> id_error + 'b) \<Rightarrow> 'a option \<Rightarrow> audit_error + 'b option" where
  "parse_opt_id f x =
     (case x of None \<Rightarrow> Inr None | Some s \<Rightarrow> (case f s of Inl err \<Rightarrow> Inl (BadID err) | Inr i \<Rightarrow> Inr (Some i)))"

definition parse_opt_date :: "(string \<Rightarrow> time option) \<Rightarrow> string \<Rightarrow> string option \<Rightarrow> audit_error + time" where
  "parse_opt_date f name x =
     (case x of None \<Rightarrow> Inr time_zero | Some s \<Rightarrow> (case f s of None \<Rightarrow> Inl (BadDate name) | Some t \<Rightarrow> Inr t))"

definition text_or_empty :: "string option \<Rightarrow> string" where
  "text_or_empty x = (case x of None \<Rightarrow> [] | Some s \<Rightarrow> s)"

definition ListReq_Parse :: "('u, 'ip) audit_env \<Rightarrow> list_req \<Rightarrow> audit_error + 'u list_logs_params" where
  "ListReq_Parse env r =
     (case parse_opt_id (ParseTenantID (ae_uu env)) (lq_TenantID r) of Inl err \<Rightarrow> Inl err | Inr tenantID \<Rightarrow>
      (case parse_opt_id (ParseUserID (ae_uu env)) (lq_UserID r) of Inl err \<Rightarrow> Inl err | Inr userID \<Rightarrow>
       (case parse_opt_id (ParseResourceID (ae_uu env)) (lq_ResourceID r) of Inl err \<Rightarrow> Inl err | Inr resourceID \<Rightarrow>
        (case parse_opt_date (ae_parse_time env) ''start_date'' (lq_StartDate r) of Inl err \<Rightarrow> Inl err | Inr startDate \<Rightarrow>
         (case parse_opt_date (ae_parse_time env) ''end_date'' (lq_EndDate r) of Inl err \<Rightarrow> Inl err | Inr endDate \<Rightarrow>
            Inr \<lparr>lp_TenantID = tenantID, lp_UserID = userID, lp_EventType = text_or_empty (lq_EventType r),
                 lp_ResourceType = text_or_empty (lq_ResourceType r), lp_ResourceID = resourceID,
                 lp_StartDate = startDate, lp_EndDate = endDate,
                 lp_Page = (case lq_Page r of None \<Rightarrow> 0 | Some p \<Rightarrow> p),
                 lp_PageSize = (case lq_PageSize r of None \<Rightarrow> 20 | Some n \<Rightarrow> n)\<rparr>)))))"

record export_req =
  eq_TenantID :: "string option"
  eq_UserID :: "string option"
  eq_EventType :: "string option"
  eq_ResourceType :: "string option"
  eq_ResourceID :: "string option"
  eq_StartDate :: "string option"
  eq_EndDate :: "string option"

record 'u export_params =
  ep_TenantID :: "'u prefixed_id option"
  ep_UserID :: "'u prefixed_id option"
  ep_EventType :: string
  ep_ResourceType :: string
  ep_ResourceID :: "'u prefixed_id option"
  ep_StartDate :: time
  ep_EndDate :: time

definition ExportReq_Parse :: "('u, 'ip) audit_env \<Rightarrow> export_req \<Rightarrow> audit_error + 'u export_params" where
  "ExportReq_Parse env r =
     (case parse_opt_id (ParseTenantID (ae_uu env)) (eq_TenantID r) of Inl err \<Rightarrow> Inl err | Inr tenantID \<Rightarrow>
      (case parse_opt_id (ParseUserID (ae_uu env)) (eq_UserID r) of Inl err \<Rightarrow> Inl err | Inr userID \<Rightarrow>
       (case parse_opt_id (ParseResourceID (ae_uu env)) (eq_ResourceID r) of Inl err \<Rightarrow> Inl err | Inr resourceID \<Rightarrow>
        (case parse_opt_date (ae_parse_time env) ''start_date'' (eq_StartDate r) of Inl err \<Rightarrow> Inl err | Inr startDate \<Rightarrow>
         (case parse_opt_date (ae_parse_time env) ''end_date'' (eq_EndDate r) of Inl err \<Rightarrow> Inl err | Inr endDate \<Rightarrow>
            Inr \<lparr>ep_TenantID = tenantID, ep_UserID = userID, ep_EventType = text_or_empty (eq_EventType r),
                 ep_ResourceType = text_or_empty (eq_ResourceType r), ep_ResourceID = resourceID,
                 ep_StartDate = startDate, ep_EndDate = endDate\<rparr>)))))"

section \<open>The table\<close>

record ('u, 'ip) audit_row =
  lr_id :: 'u
  lr_event_type :: string
  lr_actor_type :: string
  lr_actor_id :: "'u option"
  lr_tenant_id :: "'u option"
  lr_resource_type :: "string option"
  lr_resource_id :: "'u option"
  lr_ip_address :: "'ip option"
  lr_user_agent :: "string option"
  lr_event_data :: "string option"
  lr_created_at :: time

record ('u, 'ip) audit_db =
  ad_rows :: "('u, 'ip) audit_row list"
  ad_tenants :: "'u list"
  ad_up :: bool

text \<open>What the driver makes of an optional identifier: NULL, a value, or an error.\<close>

definition bind_opt :: "('u, 'ip) audit_env \<Rightarrow> 'u prefixed_id option \<Rightarrow> 'u option option" where
  "bind_opt env x = (case x of None \<Rightarrow> Some None | Some i \<Rightarrow> map_option Some (ae_bind env i))"

definition audit_row_of :: "('u, 'ip) audit_env \<Rightarrow> ('u, 'ip) audit_log \<Rightarrow> string \<Rightarrow> ('u, 'ip) audit_row option" where
  "audit_row_of env auditLog eventDataJSON =
     (case (ae_bind env (al_ID auditLog), uu_Parse (ae_uu env) (al_ActorID auditLog), bind_opt env (al_TenantID auditLog), bind_opt env (al_ResourceID auditLog)) of
        (Some i, Some actor, Some tenant, Some resource) \<Rightarrow>
          Some \<lparr>lr_id = i, lr_event_type = al_EventType auditLog, lr_actor_type = al_ActorType auditLog, lr_actor_id = Some actor,
                lr_tenant_id = tenant, lr_resource_type = Some (al_ResourceType auditLog), lr_resource_id = resource,
                lr_ip_address = al_IPAddress auditLog, lr_user_agent = Some (al_UserAgent auditLog),
                lr_event_data = Some eventDataJSON, lr_created_at = al_CreatedAt auditLog\<rparr>
      | _ \<Rightarrow> None)"

definition audit_row_ok :: "('u, 'ip) audit_row \<Rightarrow> ('u, 'ip) audit_db \<Rightarrow> bool" where
  "audit_row_ok row db \<longleftrightarrow> ad_up db \<and> length (lr_event_type row) \<le> 50 \<and> length (lr_actor_type row) \<le> 20
     \<and> (case lr_resource_type row of None \<Rightarrow> True | Some t \<Rightarrow> length t \<le> 50)
     \<and> (case lr_tenant_id row of None \<Rightarrow> True | Some t \<Rightarrow> t \<in> set (ad_tenants db))
     \<and> lr_id row \<notin> lr_id ` set (ad_rows db)"

definition pg_CreateLog ::
  "('u, 'ip) audit_env \<Rightarrow> ('u, 'ip) audit_log \<Rightarrow> ('u, 'ip) audit_db \<Rightarrow> (audit_error + ('u, 'ip) audit_log) \<times> ('u, 'ip) audit_db" where
  "pg_CreateLog env auditLog db =
     (case ae_marshal env (al_EventData auditLog) of
        None \<Rightarrow> (Inl MarshalFailed, db)
      | Some eventDataJSON \<Rightarrow>
          (case audit_row_of env auditLog eventDataJSON of
             None \<Rightarrow> (Inl AuditDbError, db)
           | Some row \<Rightarrow>
               if audit_row_ok row db then (Inr auditLog, db\<lparr>ad_rows := ad_rows db @ [row]\<rparr>) else (Inl AuditDbError, db)))"

text \<open>Reading a row; NULL cannot be read into a Go string.\<close>

definition scan_log :: "('u, 'ip) audit_env \<Rightarrow> ('u, 'ip) audit_row \<Rightarrow> audit_error + ('u, 'ip) audit_log" where
  "scan_log env row =
     (case (lr_resource_type row, lr_user_agent row) of
        (Some resourceType, Some userAgent) \<Rightarrow>
          let auditLog = \<lparr>al_ID = AuditLogIDFromUUID (ae_uu env) (lr_id row), al_EventType = lr_event_type row,
                al_ActorType = lr_actor_type row,
                al_ActorID = (case lr_actor_id row of None \<Rightarrow> [] | Some a \<Rightarrow> uu_String (ae_uu env) a),
                al_TenantID = map_option (TenantIDFromUUID (ae_uu env)) (lr_tenant_id row), al_ResourceType = resourceType,
                al_ResourceID = map_option (ResourceIDFromUUID (ae_uu env)) (lr_resource_id row),
                al_IPAddress = lr_ip_address row, al_UserAgent = userAgent, al_EventData = None,
                al_CreatedAt = lr_created_at row\<rparr>
          in (case lr_event_data row of
                None \<Rightarrow> Inr auditLog
              | Some eventDataJSON \<Rightarrow>
                  if eventDataJSON = [] then Inr auditLog
                  else (case ae_decode env eventDataJSON of
                          None \<Rightarrow> Inl ScanFailed
                        | Some eventData \<Rightarrow> Inr (auditLog\<lparr>al_EventData := eventData\<rparr>)))
      | _ \<Rightarrow> Inl ScanFailed)"

definition pg_GetLogByID :: "('u, 'ip) audit_env \<Rightarrow> 'u \<Rightarrow> ('u, 'ip) audit_db \<Rightarrow> audit_error + ('u, 'ip) audit_log" where
  "pg_GetLogByID env i db =
     (if \<not> ad_up db then Inl AuditDbError
      else (case find (\<lambda>row. lr_id row = i) (ad_rows db) of
              None \<Rightarrow> if ae_no_rows env then Inl AuditNotFound else Inl AuditDbError
            | Some row \<Rightarrow> scan_log env row))"

fun read_logs :: "('u, 'ip) audit_env \<Rightarrow> ('u, 'ip) audit_row list \<Rightarrow> audit_error + ('u, 'ip) audit_log list" where
  "read_logs env [] = Inr []"
| "read_logs env (row # rows) =
     (case scan_log env row of
        Inl err \<Rightarrow> Inl err
      | Inr auditLog \<Rightarrow> (case read_logs env rows of Inl err \<Rightarrow> Inl err | Inr logs \<Rightarrow> Inr (auditLog # logs)))"

text \<open>\<open>ORDER BY created_at DESC\<close>; rows of the same instant are taken in the order of insertion.\<close>

definition newest_first :: "('u, 'ip) audit_row list \<Rightarrow> ('u, 'ip) audit_row list" where
  "newest_first rows = sort_key (\<lambda>row. - lr_created_at row) rows"

definition queryAuditLogs ::
  "('u, 'ip) audit_env \<Rightarrow> (('u, 'ip) audit_row \<Rightarrow> bool) \<Rightarrow> int \<Rightarrow> int \<Rightarrow> ('u, 'ip) audit_db \<Rightarrow> audit_error + ('u, 'ip) audit_log list" where
  "queryAuditLogs env P limit offset db =
     (if \<not> ad_up db \<or> limit < 0 \<or> offset < 0 then Inl AuditDbError
      else read_logs env (take (nat limit) (drop (nat offset) (newest_first (filter P (ad_rows db))))))"

definition by_tenant :: "'u \<Rightarrow> ('u, 'ip) audit_row \<Rightarrow> bool" where
  "by_tenant t row \<longleftrightarrow> lr_tenant_id row = Some t"

definition by_user :: "'u \<Rightarrow> ('u, 'ip) audit_row \<Rightarrow> bool" where
  "by_user u row \<longleftrightarrow> lr_actor_type row = ''user'' \<and> lr_actor_id row = Some u"

definition by_event :: "string \<Rightarrow> ('u, 'ip) audit_row \<Rightarrow> bool" where
  "by_event e row \<longleftrightarrow> lr_event_type row = e"

definition by_resource :: "string \<Rightarrow> 'u \<Rightarrow> ('u, 'ip) audit_row \<Rightarrow> bool" where
  "by_resource t r row \<longleftrightarrow> lr_resource_type row = Some t \<and> lr_resource_id row = Some r"

definition by_dates :: "time \<Rightarrow> time \<Rightarrow> ('u, 'ip) audit_row \<Rightarrow> bool" where
  "by_dates start stop row \<longleftrightarrow> start \<le> lr_created_at row \<and> lr_created_at row \<le> stop"

text \<open>The conditions that \<open>ListByFilters\<close>, \<open>CountByFilters\<close> and \<open>ExportToCSV\<close> build into their queries.\<close>

definition by_filters ::
  "'u uuid_ops \<Rightarrow> 'u \<Rightarrow> 'u \<Rightarrow> string \<Rightarrow> string \<Rightarrow> 'u \<Rightarrow> time \<Rightarrow> time \<Rightarrow> ('u, 'ip) audit_row \<Rightarrow> bool" where
  "by_filters uu tenantID userID eventType resourceType resourceID startDate endDate row \<longleftrightarrow>
     (tenantID \<noteq> uu_Nil uu \<longrightarrow> by_tenant tenantID row)
     \<and> (userID \<noteq> uu_Nil uu \<longrightarrow> by_user userID row)
     \<and> (eventType \<noteq> [] \<longrightarrow> by_event eventType row)
     \<and> (resourceType \<noteq> [] \<longrightarrow> lr_resource_type row = Some resourceType)
     \<and> (resourceID \<noteq> uu_Nil uu \<longrightarrow> lr_resource_id row = Some resourceID)
     \<and> (startDate \<noteq> time_zero \<longrightarrow> startDate \<le> lr_created_at row)
     \<and> (endDate \<noteq> time_zero \<longrightarrow> lr_created_at row \<le> endDate)"

text \<open>Page \<open>page\<close>, from zero, of the rows that satisfy \<open>P\<close>; the offset is computed in 64 bits.\<close>

definition select_logs ::
  "('u, 'ip) audit_env \<Rightarrow> (('u, 'ip) audit_row \<Rightarrow> bool) \<Rightarrow> int \<Rightarrow> int \<Rightarrow> ('u, 'ip) audit_db \<Rightarrow> audit_error + ('u, 'ip) audit_log list" where
  "select_logs env P page pageSize db = queryAuditLogs env P pageSize (wrap64 (page * pageSize)) db"

definition pg_LogsByTenant ::
  "('u, 'ip) audit_env \<Rightarrow> 'u \<Rightarrow> int \<Rightarrow> int \<Rightarrow> ('u, 'ip) audit_db \<Rightarrow> audit_error + ('u, 'ip) audit_log list" where
  "pg_LogsByTenant env tenantID = select_logs env (by_tenant tenantID)"

definition pg_LogsByUser ::
  "('u, 'ip) audit_env \<Rightarrow> 'u \<Rightarrow> int \<Rightarrow> int \<Rightarrow> ('u, 'ip) audit_db \<Rightarrow> audit_error + ('u, 'ip) audit_log list" where
  "pg_LogsByUser env userID = select_logs env (by_user userID)"

definition pg_LogsByEventType ::
  "('u, 'ip) audit_env \<Rightarrow> string \<Rightarrow> int \<Rightarrow> int \<Rightarrow> ('u, 'ip) audit_db \<Rightarrow> audit_error + ('u, 'ip) audit_log list" where
  "pg_LogsByEventType env eventType = select_logs env (by_event eventType)"

definition pg_LogsByResource ::
  "('u, 'ip) audit_env \<Rightarrow> string \<Rightarrow> 'u \<Rightarrow> int \<Rightarrow> int \<Rightarrow> ('u, 'ip) audit_db \<Rightarrow> audit_error + ('u, 'ip) audit_log list" where
  "pg_LogsByResource env resourceType resourceID = select_logs env (by_resource resourceType resourceID)"

definition pg_LogsByDateRange ::
  "('u, 'ip) audit_env \<Rightarrow> time \<Rightarrow> time \<Rightarrow> int \<Rightarrow> int \<Rightarrow> ('u, 'ip) audit_db \<Rightarrow> audit_error + ('u, 'ip) audit_log list" where
  "pg_LogsByDateRange env startDate endDate = select_logs env (by_dates startDate endDate)"

definition pg_LogsByFilters ::
  "('u, 'ip) audit_env \<Rightarrow> 'u \<Rightarrow> 'u \<Rightarrow> string \<Rightarrow> string \<Rightarrow> 'u \<Rightarrow> time \<Rightarrow> time \<Rightarrow> int \<Rightarrow> int \<Rightarrow> ('u, 'ip) audit_db
    \<Rightarrow> audit_error + ('u, 'ip) audit_log list" where
  "pg_LogsByFilters env tenantID userID eventType resourceType resourceID startDate endDate =
     select_logs env (by_filters (ae_uu env) tenantID userID eventType resourceType resourceID startDate endDate)"

definition count_logs :: "(('u, 'ip) audit_row \<Rightarrow> bool) \<Rightarrow> ('u, 'ip) audit_db \<Rightarrow> audit_error + int" where
  "count_logs P db = (if \<not> ad_up db then Inl AuditDbError else Inr (int (length (filter P (ad_rows db)))))"

definition pg_CountByTenant :: "'u \<Rightarrow> ('u, 'ip) audit_db \<Rightarrow> audit_error + int" where
  "pg_CountByTenant tenantID = count_logs (by_tenant tenantID)"

definition pg_CountByUser :: "'u \<Rightarrow> ('u, 'ip) audit_db \<Rightarrow> audit_error + int" where
  "pg_CountByUser userID = count_logs (by_user userID)"

definition pg_CountByEventType :: "string \<Rightarrow> ('u, 'ip) audit_db \<Rightarrow> audit_error + int" where
  "pg_CountByEventType eventType = count_logs (by_event eventType)"

definition pg_CountByResource :: "string \<Rightarrow> 'u \<Rightarrow> ('u, 'ip) audit_db \<Rightarrow> audit_error + int" where
  "pg_CountByResource resourceType resourceID = count_logs (by_resource resourceType resourceID)"

definition pg_CountByFilters ::
  "'u uuid_ops \<Rightarrow> 'u \<Rightarrow> 'u \<Rightarrow> string \<Rightarrow> string \<Rightarrow> 'u \<Rightarrow> time \<Rightarrow> time \<Rightarrow> ('u, 'ip) audit_db \<Rightarrow> audit_error + int" where
  "pg_CountByFilters uu tenantID userID eventType resourceType resourceID startDate endDate =
     count_logs (by_filters uu tenantID userID eventType resourceType resourceID startDate endDate)"

text \<open>\<open>GROUP BY key ORDER BY count DESC\<close>: groups of the same size in the order of their first rows.\<close>

definition queryAggregation ::
  "(('u, 'ip) audit_row \<Rightarrow> string option) \<Rightarrow> time \<Rightarrow> time \<Rightarrow> ('u, 'ip) audit_db \<Rightarrow> audit_error + (string \<times> int) list" where
  "queryAggregation key startDate endDate db =
     (if \<not> ad_up db then Inl AuditDbError
      else let keys = List.map_filter key (filter (by_dates startDate endDate) (ad_rows db))
           in Inr (sort_key (\<lambda>(k, n). - n) (map (\<lambda>k. (k, int (count_list keys k))) (remdups keys))))"

definition pg_AggregateByEventType :: "time \<Rightarrow> time \<Rightarrow> ('u, 'ip) audit_db \<Rightarrow> audit_error + (string \<times> int) list" where
  "pg_AggregateByEventType = queryAggregation (\<lambda>row. Some (lr_event_type row))"

definition pg_AggregateByActorType :: "time \<Rightarrow> time \<Rightarrow> ('u, 'ip) audit_db \<Rightarrow> audit_error + (string \<times> int) list" where
  "pg_AggregateByActorType = queryAggregation (\<lambda>row. Some (lr_actor_type row))"

definition pg_AggregateByTenant :: "'u uuid_ops \<Rightarrow> time \<Rightarrow> time \<Rightarrow> ('u, 'ip) audit_db \<Rightarrow> audit_error + (string \<times> int) list" where
  "pg_AggregateByTenant uu = queryAggregation (\<lambda>row. map_option (uu_String uu) (lr_tenant_id row))"

section \<open>Export\<close>

text \<open>The writer of \<open>encoding/csv\<close> with its defaults.\<close>

definition csv_special :: "char \<Rightarrow> bool" where
  "csv_special c \<longleftrightarrow> c = CHR 0x0A \<or> c = CHR 0x0D \<or> c = CHR 0x22 \<or> c = CHR '',''"

definition fieldNeedsQuotes :: "string \<Rightarrow> bool" where
  "fieldNeedsQuotes field \<longleftrightarrow> field \<noteq> [] \<and> (field = [CHR 0x5C, CHR ''.''] \<or> list_ex csv_special field \<or> is_space (hd field))"

definition csv_quote :: "string \<Rightarrow> string" where
  "csv_quote field = CHR 0x22 # concat (map (\<lambda>c. if c = CHR 0x22 then [CHR 0x22, CHR 0x22] else [c]) field) @ [CHR 0x22]"

definition csv_field :: "string \<Rightarrow> string" where
  "csv_field field = (if fieldNeedsQuotes field then csv_quote field else field)"

definition csv_write :: "string list \<Rightarrow> string" where
  "csv_write record = Join '','' (map csv_field record) @ [CHR 0x0A]"

definition csv_header :: "string list" where
  "csv_header = [''ID'', ''Event Type'', ''Actor Type'', ''Actor ID'', ''Tenant ID'', ''Resource Type'', ''Resource ID'',
     ''IP Address'', ''User Agent'', ''Event Data'', ''Created At'']"

definition csv_row :: "('u, 'ip) audit_env \<Rightarrow> ('u, 'ip) audit_log \<Rightarrow> string list" where
  "csv_row env auditLog =
     [pi_value (al_ID auditLog), al_EventType auditLog, al_ActorType auditLog, al_ActorID auditLog,
      (case al_TenantID auditLog of None \<Rightarrow> [] | Some i \<Rightarrow> pi_value i), al_ResourceType auditLog,
      (case al_ResourceID auditLog of None \<Rightarrow> [] | Some i \<Rightarrow> pi_value i),
      (case al_IPAddress auditLog of None \<Rightarrow> [] | Some ip \<Rightarrow> ae_ip env ip), al_UserAgent auditLog,
      (case ae_marshal env (al_EventData auditLog) of None \<Rightarrow> ''{}'' | Some eventDataJSON \<Rightarrow> eventDataJSON),
      ae_format_time env (al_CreatedAt auditLog)]"

definition pg_ExportToCSV ::
  "('u, 'ip) audit_env \<Rightarrow> 'u \<Rightarrow> 'u \<Rightarrow> string \<Rightarrow> string \<Rightarrow> 'u \<Rightarrow> time \<Rightarrow> time \<Rightarrow> ('u, 'ip) audit_db \<Rightarrow> audit_error + string" where
  "pg_ExportToCSV env tenantID userID eventType resourceType resourceID startDate endDate db =
     (case queryAuditLogs env (by_filters (ae_uu env) tenantID userID eventType resourceType resourceID startDate endDate) 10000 0 db of
        Inl err \<Rightarrow> Inl err
      | Inr logs \<Rightarrow> Inr (csv_write csv_header @ concat (map (\<lambda>auditLog. csv_write (csv_row env auditLog)) logs)))"

section \<open>The service\<close>

definition LogEvent ::
  "('u, 'ip) audit_env \<Rightarrow> 'u \<Rightarrow> time \<Rightarrow> 'ip audit_log_req \<Rightarrow> ('u, 'ip) audit_db \<Rightarrow> audit_error option \<times> ('u, 'ip) audit_db" where
  "LogEvent env newID now req db =
     (case NewAuditLog (ae_uu env) newID now req of
        Inl err \<Rightarrow> (Some (BadID err), db)
      | Inr auditLog \<Rightarrow>
          (case pg_CreateLog env auditLog db of
             (Inl err, db') \<Rightarrow> (Some err, db')
           | (Inr _, db') \<Rightarrow> (None, db')))"

definition GetAuditLog :: "('u, 'ip) audit_env \<Rightarrow> string \<Rightarrow> ('u, 'ip) audit_db \<Rightarrow> audit_error + ('u, 'ip) audit_log" where
  "GetAuditLog env i db =
     (case ParseAuditLogID (ae_uu env) i of Inl err \<Rightarrow> Inl (BadID err) | Inr pid \<Rightarrow> pg_GetLogByID env (pi_raw pid) db)"

definition ParsePageSize :: "int option \<Rightarrow> int" where
  "ParsePageSize pageSize = (case pageSize of None \<Rightarrow> 10 | Some n \<Rightarrow> if n < 1 then 10 else n)"

definition ParsePage :: "int option \<Rightarrow> int" where
  "ParsePage page = (case page of None \<Rightarrow> 1 | Some p \<Rightarrow> if p < 1 then 1 else p)"

definition ParsePagination :: "int option \<Rightarrow> int option \<Rightarrow> int \<times> int" where
  "ParsePagination page pageSize = (ParsePage page, ParsePageSize pageSize)"

definition list_and_count :: "audit_error + ('u, 'ip) audit_log list \<Rightarrow> audit_error + int \<Rightarrow> audit_error + ('u, 'ip) audit_log list \<times> int" where
  "list_and_count logs totalCount =
     (case logs of
        Inl err \<Rightarrow> Inl err
      | Inr ls \<Rightarrow> (case totalCount of Inl err \<Rightarrow> Inl err | Inr n \<Rightarrow> Inr (ls, n)))"

text \<open>The branches below the most specific one: dates, tenant, user, event type, resource.\<close>

definition choose_query_part ::
  "('u, 'ip) audit_env \<Rightarrow> 'u list_logs_params \<Rightarrow> int \<Rightarrow> int \<Rightarrow> ('u, 'ip) audit_db \<Rightarrow> audit_error + ('u, 'ip) audit_log list \<times> int" where
  "choose_query_part env params repoPage pageSize db =
     (if lp_StartDate params \<noteq> time_zero \<or> lp_EndDate params \<noteq> time_zero then
        (case pg_LogsByDateRange env (lp_StartDate params) (lp_EndDate params) repoPage pageSize db of
           Inl err \<Rightarrow> Inl err
         | Inr logs \<Rightarrow> Inr (logs, int (length logs)))
      else (case (lp_TenantID params, lp_UserID params, lp_ResourceID params) of
              (Some t, _, _) \<Rightarrow> list_and_count (pg_LogsByTenant env (pi_raw t) repoPage pageSize db) (pg_CountByTenant (pi_raw t) db)
            | (None, Some u, _) \<Rightarrow> list_and_count (pg_LogsByUser env (pi_raw u) repoPage pageSize db) (pg_CountByUser (pi_raw u) db)
            | (None, None, resource) \<Rightarrow>
                if lp_EventType params \<noteq> [] then
                  list_and_count (pg_LogsByEventType env (lp_EventType params) repoPage pageSize db)
                    (pg_CountByEventType (lp_EventType params) db)
                else (case resource of
                        Some r \<Rightarrow>
                          if lp_ResourceType params \<noteq> [] then
                            list_and_count (pg_LogsByResource env (lp_ResourceType params) (pi_raw r) repoPage pageSize db)
                              (pg_CountByResource (lp_ResourceType params) (pi_raw r) db)
                          else Inl ErrInvalidRequest
                      | None \<Rightarrow> Inl ErrInvalidRequest)))"

text \<open>The choice of the query by the filters that are given, with the number of all entries.\<close>

definition choose_query ::
  "('u, 'ip) audit_env \<Rightarrow> 'u list_logs_params \<Rightarrow> int \<Rightarrow> int \<Rightarrow> ('u, 'ip) audit_db \<Rightarrow> audit_error + ('u, 'ip) audit_log list \<times> int" where
  "choose_query env params repoPage pageSize db =
     (case (lp_TenantID params, lp_UserID params, lp_ResourceID params) of
        (Some t, Some u, Some r) \<Rightarrow>
          if lp_ResourceType params \<noteq> [] then
            list_and_count
              (pg_LogsByFilters env (pi_raw t) (pi_raw u) (lp_EventType params) (lp_ResourceType params) (pi_raw r)
                 (lp_StartDate params) (lp_EndDate params) repoPage pageSize db)
              (pg_CountByFilters (ae_uu env) (pi_raw t) (pi_raw u) (lp_EventType params) (lp_ResourceType params) (pi_raw r)
                 (lp_StartDate params) (lp_EndDate params) db)
          else choose_query_part env params repoPage pageSize db
      | _ \<Rightarrow> choose_query_part env params repoPage pageSize db)"

record ('u, 'ip) list_response =
  rs_Data :: "('u, 'ip) audit_log list"
  rs_Page :: int
  rs_PageSize :: int
  rs_TotalItems :: int
  rs_TotalPages :: int

text \<open>Integer division of Go, which rounds to zero.\<close>

definition go_div :: "int \<Rightarrow> int \<Rightarrow> int" where
  "go_div a b = (if a < 0 then - (- a div b) else a div b)"

definition ListAuditLogs :: "('u, 'ip) audit_env \<Rightarrow> list_req \<Rightarrow> ('u, 'ip) audit_db \<Rightarrow> audit_error + ('u, 'ip) list_response" where
  "ListAuditLogs env req db =
     (case ListReq_Parse env req of
        Inl err \<Rightarrow> Inl err
      | Inr params \<Rightarrow>
          (case ParsePagination (Some (lp_Page params)) (Some (lp_PageSize params)) of (page, pageSize) \<Rightarrow>
             case choose_query env params (page - 1) pageSize db of
               Inl err \<Rightarrow> Inl err
             | Inr (logs, totalCount) \<Rightarrow>
                 let totalPages = go_div (wrap64 (totalCount + pageSize - 1)) pageSize
                 in Inr \<lparr>rs_Data = logs, rs_Page = page, rs_PageSize = pageSize, rs_TotalItems = totalCount,
                         rs_TotalPages = (if totalPages < 1 then 1 else totalPages)\<rparr>))"

record aggregate_response =
  ag_Data :: "(string \<times> int) list"
  ag_GroupBy :: string
  ag_StartDate :: time
  ag_EndDate :: time
  ag_TotalCount :: int

text \<open>\<open>now1\<close>, \<open>now2\<close>: the readings of the clock for the defaults.\<close>

definition AggregateAuditLogs ::
  "('u, 'ip) audit_env \<Rightarrow> time \<Rightarrow> time \<Rightarrow> string \<Rightarrow> time \<Rightarrow> time \<Rightarrow> ('u, 'ip) audit_db \<Rightarrow> audit_error + aggregate_response" where
  "AggregateAuditLogs env now1 now2 groupBy startDate endDate db =
     (let start1 = (if startDate = time_zero then ae_month_ago env now1 else startDate);
          end1 = (if endDate = time_zero then now2 else endDate)
      in if start1 > end1 then Inl StartAfterEnd
         else (case ae_parse_time env (ae_format_time env start1) of
                 None \<Rightarrow> Inl (BadDate ''start_date'')
               | Some start2 \<Rightarrow>
                   (case ae_parse_time env (ae_format_time env end1) of
                      None \<Rightarrow> Inl (BadDate ''end_date'')
                    | Some end2 \<Rightarrow>
                        (case (if groupBy = ''event_type'' then pg_AggregateByEventType start2 end2 db
                               else if groupBy = ''actor_type'' then pg_AggregateByActorType start2 end2 db
                               else if groupBy = ''tenant'' then pg_AggregateByTenant (ae_uu env) start2 end2 db
                               else Inl (BadGroup groupBy)) of
                           Inl err \<Rightarrow> Inl err
                         | Inr aggregates \<Rightarrow>
                             Inr \<lparr>ag_Data = aggregates, ag_GroupBy = groupBy, ag_StartDate = start2, ag_EndDate = end2,
                                  ag_TotalCount = (\<Sum>(k, n)\<leftarrow>aggregates. n)\<rparr>))))"

definition raw_or_nil :: "'u uuid_ops \<Rightarrow> 'u prefixed_id option \<Rightarrow> 'u" where
  "raw_or_nil uu i = (case i of None \<Rightarrow> uu_Nil uu | Some pid \<Rightarrow> pi_raw pid)"

definition ExportAuditLogs :: "('u, 'ip) audit_env \<Rightarrow> export_req \<Rightarrow> ('u, 'ip) audit_db \<Rightarrow> audit_error + string" where
  "ExportAuditLogs env req db =
     (case ExportReq_Parse env req of
        Inl err \<Rightarrow> Inl err
      | Inr params \<Rightarrow>
          pg_ExportToCSV env (raw_or_nil (ae_uu env) (ep_TenantID params)) (raw_or_nil (ae_uu env) (ep_UserID params))
            (ep_EventType params) (ep_ResourceType params) (raw_or_nil (ae_uu env) (ep_ResourceID params))
            (ep_StartDate params) (ep_EndDate params) db)"

section \<open>Handlers\<close>

text \<open>\<open>q\<close>: the query parameters of the request, empty if missing.\<close>

definition optionalString :: "string \<Rightarrow> string option" where
  "optionalString s = (if s = [] then None else Some s)"

definition optionalInt :: "string \<Rightarrow> int option" where
  "optionalInt s = (if s = [] then None else Atoi s)"

definition ListAuditLogsParamsFromRequest :: "(string \<Rightarrow> string) \<Rightarrow> list_req" where
  "ListAuditLogsParamsFromRequest q =
     \<lparr>lq_TenantID = optionalString (q ''tenant_id''), lq_UserID = optionalString (q ''user_id''),
      lq_EventType = optionalString (q ''event_type''), lq_ResourceType = optionalString (q ''resource_type''),
      lq_ResourceID = optionalString (q ''resource_id''), lq_StartDate = optionalString (q ''start_date''),
      lq_EndDate = optionalString (q ''end_date''), lq_Page = optionalInt (q ''page''), lq_PageSize = optionalInt (q ''pageSize'')\<rparr>"

definition AggregateParamsFromRequest :: "(string \<Rightarrow> time option) \<Rightarrow> (string \<Rightarrow> string) \<Rightarrow> time option \<times> time option" where
  "AggregateParamsFromRequest parse q =
     ((if q ''start_date'' \<noteq> [] then parse (q ''start_date'') else None),
      (if q ''end_date'' \<noteq> [] then parse (q ''end_date'') else None))"

definition ExportAuditLogsParamsFromRequest :: "(string \<Rightarrow> string) \<Rightarrow> export_req" where
  "ExportAuditLogsParamsFromRequest q =
     \<lparr>eq_TenantID = optionalString (q ''tenant_id''), eq_UserID = None, eq_EventType = None, eq_ResourceType = None,
      eq_ResourceID = None, eq_StartDate = None, eq_EndDate = None\<rparr>"

text \<open>The status of an error of a handler. No error of the parser of identifiers is \<open>prefixid.ErrInvalidID\<close>.\<close>

definition listAuditLogs :: "('u, 'ip) audit_env \<Rightarrow> (string \<Rightarrow> string) \<Rightarrow> ('u, 'ip) audit_db \<Rightarrow> nat + ('u, 'ip) list_response" where
  "listAuditLogs env q db =
     (case ListAuditLogs env (ListAuditLogsParamsFromRequest q) db of
        Inl ErrInvalidRequest \<Rightarrow> Inl 400
      | Inl _ \<Rightarrow> Inl 500
      | Inr logs \<Rightarrow> Inr logs)"

definition getAuditLog :: "('u, 'ip) audit_env \<Rightarrow> string \<Rightarrow> ('u, 'ip) audit_db \<Rightarrow> nat + ('u, 'ip) audit_log" where
  "getAuditLog env auditID db =
     (case GetAuditLog env auditID db of
        Inl AuditNotFound \<Rightarrow> Inl 404
      | Inl _ \<Rightarrow> Inl 500
      | Inr auditLog \<Rightarrow> Inr auditLog)"

definition aggregateAuditLogs ::
  "('u, 'ip) audit_env \<Rightarrow> time \<Rightarrow> time \<Rightarrow> string \<Rightarrow> (string \<Rightarrow> string) \<Rightarrow> ('u, 'ip) audit_db \<Rightarrow> nat + aggregate_response" where
  "aggregateAuditLogs env now1 now2 groupBy q db =
     (case AggregateParamsFromRequest (ae_parse_time env) q of (startDatePtr, endDatePtr) \<Rightarrow>
        case AggregateAuditLogs env now1 now2 groupBy (case startDatePtr of None \<Rightarrow> time_zero | Some t \<Rightarrow> t)
               (case endDatePtr of None \<Rightarrow> time_zero | Some t \<Rightarrow> t) db of
          Inl _ \<Rightarrow> Inl 500
        | Inr aggregation \<Rightarrow> Inr aggregation)"

definition exportAuditLogs :: "('u, 'ip) audit_env \<Rightarrow> (string \<Rightarrow> string) \<Rightarrow> ('u, 'ip) audit_db \<Rightarrow> nat + string" where
  "exportAuditLogs env q db =
     (case ExportAuditLogs env (ExportAuditLogsParamsFromRequest q) db of
        Inl ErrInvalidRequest \<Rightarrow> Inl 400
      | Inl _ \<Rightarrow> Inl 500
      | Inr csvData \<Rightarrow> Inr csvData)"

section \<open>Reading a CSV file\<close>

text \<open>An independent reader of comma-separated values: quoted and plain fields, a doubled quote is a quote.\<close>

datatype csv_mode = FieldStart | InPlain | InQuotes | QuoteSeen

fun csv_read :: "csv_mode \<Rightarrow> string \<Rightarrow> string list \<Rightarrow> string \<Rightarrow> string list list" where
  "csv_read m cur fs [] = (if m = FieldStart \<and> fs = [] then [] else [fs @ [cur]])"
| "csv_read m cur fs (c # cs) =
     (if m = InQuotes then if c = CHR 0x22 then csv_read QuoteSeen cur fs cs else csv_read InQuotes (cur @ [c]) fs cs
      else if m = QuoteSeen \<and> c = CHR 0x22 then csv_read InQuotes (cur @ [c]) fs cs
      else if m = FieldStart \<and> c = CHR 0x22 then csv_read InQuotes [] fs cs
      else if c = CHR '','' then csv_read FieldStart [] (fs @ [cur]) cs
      else if c = CHR 0x0A then (fs @ [cur]) # csv_read FieldStart [] [] cs
      else csv_read InPlain (cur @ [c]) fs cs)"

definition csv_records :: "string \<Rightarrow> string list list" where
  "csv_records text = csv_read FieldStart [] [] text"

text \<open>What follows a field: a comma, or the end of the record.\<close>

definition after_field :: "char \<Rightarrow> string list \<Rightarrow> string \<Rightarrow> string list list" where
  "after_field d fs cs = (if d = CHR '','' then csv_read FieldStart [] fs cs else fs # csv_read FieldStart [] [] cs)"

lemma csv_read_plain:
  "\<not> list_ex csv_special f \<Longrightarrow> d = CHR '','' \<or> d = CHR 0x0A \<Longrightarrow>
   csv_read InPlain cur fs (f @ d # cs) = after_field d (fs @ [cur @ f]) cs"
  by (induction f arbitrary: cur) (auto simp: csv_special_def after_field_def)

lemma csv_read_quoted:
  "d = CHR '','' \<or> d = CHR 0x0A \<Longrightarrow>
   csv_read InQuotes cur fs (concat (map (\<lambda>c. if c = CHR 0x22 then [CHR 0x22, CHR 0x22] else [c]) f) @ CHR 0x22 # d # cs)
   = after_field d (fs @ [cur @ f]) cs"
  by (induction f arbitrary: cur) (auto simp: after_field_def)

lemma csv_read_field:
  assumes "d = CHR '','' \<or> d = CHR 0x0A"
  shows "csv_read FieldStart [] fs (csv_field f @ d # cs) = after_field d (fs @ [f]) cs"
proof (cases "fieldNeedsQuotes f")
  case True
  then show ?thesis using csv_read_quoted [OF assms, of "[]" fs f cs] by (simp add: csv_field_def csv_quote_def)
next
  case False
  then have plain: "\<not> list_ex csv_special f" by (cases f) (auto simp: fieldNeedsQuotes_def)
  show ?thesis
  proof (cases f)
    case Nil
    then show ?thesis using assms False by (auto simp: csv_field_def after_field_def)
  next
    case (Cons c f')
    then have "csv_read FieldStart [] fs (f @ d # cs) = csv_read InPlain [c] fs (f' @ d # cs)" using plain by (simp add: csv_special_def)
    with csv_read_plain [of f' d "[c]" fs cs] plain Cons assms False show ?thesis by (simp add: csv_field_def)
  qed
qed

lemma csv_read_record:
  "r \<noteq> [] \<Longrightarrow> csv_read FieldStart [] fs (Join '','' (map csv_field r) @ CHR 0x0A # cs) = (fs @ r) # csv_read FieldStart [] [] cs"
proof (induction r arbitrary: fs)
  case (Cons f r)
  show ?case
  proof (cases r)
    case Nil
    then show ?thesis using csv_read_field [of "CHR 0x0A" fs f cs] by (simp add: after_field_def)
  next
    case (Cons g r')
    then have "Join '','' (map csv_field (f # r)) @ CHR 0x0A # cs
        = csv_field f @ CHR '','' # Join '','' (map csv_field r) @ CHR 0x0A # cs" by simp
    with csv_read_field [of "CHR '',''" fs f] Cons.IH [of "fs @ [f]"] Cons show ?thesis by (simp add: after_field_def)
  qed
qed simp

lemma csv_write_read: "r \<noteq> [] \<Longrightarrow> csv_records (csv_write r @ cs) = r # csv_records cs"
  using csv_read_record [of r "[]" cs] by (simp add: csv_records_def csv_write_def)

lemma csv_rows_read: "csv_records (concat (map (\<lambda>l. csv_write (csv_row env l)) logs)) = map (csv_row env) logs"
proof (induction logs)
  case (Cons l logs)
  then show ?case using csv_write_read [of "csv_row env l"] by (simp add: csv_row_def)
qed (simp add: csv_records_def)

section \<open>Pages\<close>

lemma pages_append: "concat (map (\<lambda>i. take n (drop (i * n) xs)) [0..<k]) = take (k * n) xs"
proof (induction k)
  case (Suc k)
  have "take (Suc k * n) xs = take (k * n) xs @ take n (drop (k * n) xs)"
    using take_add [of "k * n" n xs] by (simp add: add.commute)
  with Suc show ?case by simp
qed simp

definition readable :: "('u, 'ip) audit_env \<Rightarrow> ('u, 'ip) audit_row \<Rightarrow> bool" where
  "readable env row \<longleftrightarrow> is_ok (scan_log env row)"

definition scanned :: "('u, 'ip) audit_env \<Rightarrow> ('u, 'ip) audit_row \<Rightarrow> ('u, 'ip) audit_log" where
  "scanned env row = projr (scan_log env row)"

lemma read_logs_readable: "\<forall>row \<in> set rows. readable env row \<Longrightarrow> read_logs env rows = Inr (map (scanned env) rows)"
  by (induction rows) (auto simp: readable_def scanned_def is_ok_iff)

text \<open>The rows that a request is about, for the requests whose answers tell the number of all entries.\<close>

definition scope_part :: "'u list_logs_params \<Rightarrow> (('u, 'ip) audit_row \<Rightarrow> bool) option" where
  "scope_part params =
     (if lp_StartDate params \<noteq> time_zero \<or> lp_EndDate params \<noteq> time_zero then None
      else (case (lp_TenantID params, lp_UserID params, lp_ResourceID params) of
              (Some t, _, _) \<Rightarrow> Some (by_tenant (pi_raw t))
            | (None, Some u, _) \<Rightarrow> Some (by_user (pi_raw u))
            | (None, None, resource) \<Rightarrow>
                if lp_EventType params \<noteq> [] then Some (by_event (lp_EventType params))
                else (case resource of
                        Some r \<Rightarrow> if lp_ResourceType params \<noteq> [] then Some (by_resource (lp_ResourceType params) (pi_raw r)) else None
                      | None \<Rightarrow> None)))"

definition audit_scope :: "'u uuid_ops \<Rightarrow> 'u list_logs_params \<Rightarrow> (('u, 'ip) audit_row \<Rightarrow> bool) option" where
  "audit_scope uu params =
     (case (lp_TenantID params, lp_UserID params, lp_ResourceID params) of
        (Some t, Some u, Some r) \<Rightarrow>
          if lp_ResourceType params \<noteq> [] then
            Some (by_filters uu (pi_raw t) (pi_raw u) (lp_EventType params) (lp_ResourceType params) (pi_raw r)
              (lp_StartDate params) (lp_EndDate params))
          else scope_part params
      | _ \<Rightarrow> scope_part params)"

lemmas audit_queries = pg_LogsByFilters_def pg_CountByFilters_def pg_LogsByTenant_def pg_CountByTenant_def pg_LogsByUser_def
  pg_CountByUser_def pg_LogsByEventType_def pg_CountByEventType_def pg_LogsByResource_def pg_CountByResource_def

lemma scope_part_query:
  "scope_part params = Some P \<Longrightarrow>
   choose_query_part env params p n db = list_and_count (select_logs env P p n db) (count_logs P db)"
  by (auto simp: scope_part_def choose_query_part_def audit_queries split: if_splits option.splits)

lemma scope_query:
  assumes "audit_scope (ae_uu env) params = Some P"
  shows "choose_query env params p n db = list_and_count (select_logs env P p n db) (count_logs P db)"
  using assms scope_part_query [of params P env p n db]
  by (auto simp: audit_scope_def choose_query_def audit_queries split: option.splits if_splits)

definition page_data :: "('u, 'ip) audit_env \<Rightarrow> list_req \<Rightarrow> ('u, 'ip) audit_db \<Rightarrow> int \<Rightarrow> ('u, 'ip) audit_log list" where
  "page_data env req db p =
     (case ListAuditLogs env (req\<lparr>lq_Page := Some p\<rparr>) db of Inl _ \<Rightarrow> [] | Inr resp \<Rightarrow> rs_Data resp)"

lemma parse_page: "ListReq_Parse env req = Inr params \<Longrightarrow> ListReq_Parse env (req\<lparr>lq_Page := Some p\<rparr>) = Inr (params\<lparr>lp_Page := p\<rparr>)"
  by (auto simp: ListReq_Parse_def split: sum.splits)

lemma scope_page: "audit_scope uu (params\<lparr>lp_Page := p\<rparr>) = audit_scope uu params"
  by (simp add: audit_scope_def scope_part_def split: option.splits)

lemma page_size_pos: "1 \<le> ParsePageSize n"
  by (simp add: ParsePageSize_def split: option.splits)

lemma select_logs_page:
  assumes "ad_up db" "\<forall>row \<in> set (ad_rows db). readable env row" "0 \<le> p" "0 \<le> n" "p * n < 2 ^ 63"
  shows "select_logs env P p n db
    = Inr (map (scanned env) (take (nat n) (drop (nat (p * n)) (newest_first (filter P (ad_rows db))))))"
proof -
  have pn: "0 \<le> p * n" using assms(3,4) by simp
  then have w: "wrap64 (p * n) = p * n" using assms(5) by (intro wrap64_id) simp_all
  let ?rows = "take (nat n) (drop (nat (p * n)) (newest_first (filter P (ad_rows db))))"
  have "set ?rows \<subseteq> set (ad_rows db)"
    using set_take_subset [of "nat n"] set_drop_subset [of "nat (p * n)" "newest_first (filter P (ad_rows db))"]
    by (fastforce simp: newest_first_def)
  then have "read_logs env ?rows = Inr (map (scanned env) ?rows)" using assms(2) by (intro read_logs_readable) blast
  with assms(1,4) w pn show ?thesis by (simp add: select_logs_def queryAuditLogs_def not_less)
qed

lemma page_data_eq:
  assumes "ListReq_Parse env req = Inr params" "audit_scope (ae_uu env) params = Some P" "ad_up db"
    and "\<forall>row \<in> set (ad_rows db). readable env row" "n = ParsePageSize (Some (lp_PageSize params))" "1 \<le> p" "(p - 1) * n < 2 ^ 63"
  shows "page_data env req db p = map (scanned env) (take (nat n) (drop (nat ((p - 1) * n)) (newest_first (filter P (ad_rows db)))))"
  using select_logs_page [OF assms(3,4), of "p - 1" n P] page_size_pos [of "Some (lp_PageSize params)"] assms
    scope_query [of env "params\<lparr>lp_Page := p\<rparr>" P]
  by (simp add: page_data_def ListAuditLogs_def parse_page scope_page ParsePagination_def ParsePage_def list_and_count_def count_logs_def Let_def)

lemma upto_pages: "[1..int k] = map (\<lambda>i. int i + 1) [0..<k]"
  by (induction k) (simp_all add: upto_rec2)

lemma pages_enough:
  fixes total n :: int
  assumes "1 \<le> n" "0 \<le> total" "total + n < 2 ^ 63" "k = go_div (wrap64 (total + n - 1)) n" "k' = (if k < 1 then 1 else k)"
  shows "total \<le> k' * n \<and> (\<forall>p \<le> k'. 1 \<le> p \<longrightarrow> (p - 1) * n < 2 ^ 63)"
proof -
  have k: "k = (total + n - 1) div n" using assms wrap64_id [of "total + n - 1"] by (simp add: go_div_def)
  have lo: "total \<le> k * n" using assms(1) k by (smt (verit) div_mult_mod_eq pos_mod_bound mult.commute)
  have up: "k * n \<le> total + n - 1" using assms(1) k by (smt (verit) div_mult_mod_eq pos_mod_sign)
  have "(p - 1) * n \<le> (k' - 1) * n" if "p \<le> k'" for p using that assms(1) by (simp add: mult_right_mono)
  moreover have "(k' - 1) * n < 2 ^ 63" using up assms(1,3,5) by (auto simp: left_diff_distrib)
  moreover have "total \<le> k' * n" using lo assms(1,5) by (smt (verit) mult_nonneg_nonneg mult_right_mono)
  ultimately show ?thesis by (meson le_less_trans)
qed

section \<open>Properties\<close>

text \<open>Paging through a listing of the audit log gives every entry once: the pages from the first to the last
  that the response names, appended, are all entries of the tenant, user, event type, resource or
  combination of these that was asked for, the newest first (entries of the same instant may come in
  another order with each query, so that the instants are taken to differ, and the numbers must stay
  below the bounds of 64 bits).\<close>

lemma audit_pages_complete:
  assumes list: "ListAuditLogs env req db = Inr resp" and params: "ListReq_Parse env req = Inr params"
    and scope: "audit_scope (ae_uu env) params = Some P"
    and rows: "\<forall>row \<in> set (ad_rows db). readable env row" "distinct (map lr_created_at (ad_rows db))"
    and small: "int (length (ad_rows db)) + rs_PageSize resp < 2 ^ 63"
  shows "concat (map (page_data env req db) [1..rs_TotalPages resp]) = map (scanned env) (newest_first (filter P (ad_rows db)))"
proof -
  let ?n = "ParsePageSize (Some (lp_PageSize params))"
  let ?L = "newest_first (filter P (ad_rows db))"
  have up: "ad_up db" and resp: "rs_PageSize resp = ?n"
      "rs_TotalPages resp = (let k = go_div (wrap64 (int (length (filter P (ad_rows db))) + ?n - 1)) ?n in if k < 1 then 1 else k)"
    using list params scope_query [OF scope]
    by (auto simp: ListAuditLogs_def ParsePagination_def list_and_count_def count_logs_def Let_def split: sum.splits if_splits)
  define k where "k = nat (rs_TotalPages resp)"
  have k: "rs_TotalPages resp = int k" by (simp add: k_def resp(2) Let_def)
  have "int (length (filter P (ad_rows db))) + ?n < 2 ^ 63" using small resp(1) length_filter_le [of P "ad_rows db"] by linarith
  from pages_enough [OF page_size_pos _ this refl refl] resp(2)
  have enough: "int (length ?L) \<le> int k * ?n" "\<forall>p \<le> int k. 1 \<le> p \<longrightarrow> (p - 1) * ?n < 2 ^ 63"
    by (simp_all add: k [symmetric] Let_def newest_first_def)
  have "page_data env req db (int i + 1) = map (scanned env) (take (nat ?n) (drop (i * nat ?n) ?L))" if "i < k" for i
    using page_data_eq [OF params scope up rows(1) refl, of "int i + 1"] enough(2) [rule_format, of "int i + 1"] that page_size_pos [of "Some (lp_PageSize params)"]
    by (simp add: nat_mult_distrib)
  then have "map (page_data env req db) [1..int k] = map (\<lambda>i. map (scanned env) (take (nat ?n) (drop (i * nat ?n) ?L))) [0..<k]"
    by (simp add: upto_pages)
  then have "concat (map (page_data env req db) [1..int k]) = map (scanned env) (take (k * nat ?n) ?L)"
    using pages_append [of "nat ?n" "map (scanned env) ?L" k] by (simp add: take_map drop_map)
  moreover have "int (length ?L) \<le> int (k * nat ?n)" using enough(1) page_size_pos [of "Some (lp_PageSize params)"] by simp
  then have "length ?L \<le> k * nat ?n" by (simp only: of_nat_le_iff)
  ultimately show ?thesis by (simp add: k)
qed

text \<open>A listing of the audit log with a date asks for the entries of all tenants: whatever tenant is
  given with the date, the answer is the same as without one, unless a user and a resource are given
  as well.\<close>

lemma date_filter_drops_tenant:
  assumes "ListReq_Parse env req = Inr params" "lp_StartDate params \<noteq> time_zero \<or> lp_EndDate params \<noteq> time_zero"
    and "lq_UserID req = None \<or> lq_ResourceID req = None \<or> lq_ResourceType req = None"
  shows "ListAuditLogs env req db = ListAuditLogs env (req\<lparr>lq_TenantID := None\<rparr>) db"
proof -
  have p: "ListReq_Parse env (req\<lparr>lq_TenantID := None\<rparr>) = Inr (params\<lparr>lp_TenantID := None\<rparr>)"
    using assms(1) by (auto simp: ListReq_Parse_def parse_opt_id_def [of "ParseTenantID (ae_uu env)" None] split: sum.splits)
  have "lp_UserID params = None \<or> lp_ResourceID params = None \<or> lp_ResourceType params = []"
    using assms(1,3) by (auto simp: ListReq_Parse_def parse_opt_id_def text_or_empty_def split: sum.splits option.splits)
  then have "choose_query env params = choose_query_part env params"
      "choose_query env (params\<lparr>lp_TenantID := None\<rparr>) = choose_query_part env (params\<lparr>lp_TenantID := None\<rparr>)"
    by (auto simp: choose_query_def fun_eq_iff split: option.splits)
  then show ?thesis using assms(1,2) p by (auto simp: ListAuditLogs_def choose_query_part_def ParsePagination_def)
qed

text \<open>An export of the audit log can be read back, whatever characters its entries contain: an independent reader of
  comma-separated values gets the header and then one record for each of the newest ten thousand
  entries that the filters select.\<close>

lemma export_reads_back:
  assumes "ExportAuditLogs env req db = Inr text"
  shows "\<exists>params logs. ExportReq_Parse env req = Inr params
    \<and> read_logs env (take 10000 (newest_first (filter (by_filters (ae_uu env) (raw_or_nil (ae_uu env) (ep_TenantID params))
         (raw_or_nil (ae_uu env) (ep_UserID params)) (ep_EventType params) (ep_ResourceType params)
         (raw_or_nil (ae_uu env) (ep_ResourceID params)) (ep_StartDate params) (ep_EndDate params)) (ad_rows db)))) = Inr logs
    \<and> csv_records text = csv_header # map (csv_row env) logs"
proof -
  from assms obtain params logs where p: "ExportReq_Parse env req = Inr params"
      "queryAuditLogs env (by_filters (ae_uu env) (raw_or_nil (ae_uu env) (ep_TenantID params))
         (raw_or_nil (ae_uu env) (ep_UserID params)) (ep_EventType params) (ep_ResourceType params)
         (raw_or_nil (ae_uu env) (ep_ResourceID params)) (ep_StartDate params) (ep_EndDate params)) 10000 0 db = Inr logs"
      "text = csv_write csv_header @ concat (map (\<lambda>l. csv_write (csv_row env l)) logs)"
    by (auto simp: ExportAuditLogs_def pg_ExportToCSV_def split: sum.splits)
  then have "csv_records text = csv_header # map (csv_row env) logs"
    using csv_write_read [of csv_header] csv_rows_read [of env logs] by (simp add: csv_header_def)
  with p(1,2) show ?thesis by (auto simp: queryAuditLogs_def split: if_splits)
qed

section \<open>Sample\<close>

definition sample_audit_env :: "(string, string) audit_env" where
  "sample_audit_env =
     \<lparr>ae_uu = text_uuids, ae_bind = (\<lambda>i. Some (pi_raw i)), ae_marshal = (\<lambda>d. Some ''{}''), ae_decode = (\<lambda>text. Some None),
      ae_parse_time = (\<lambda>text. if text = [] then None else Some (int (length text))), ae_format_time = (\<lambda>t. nat_digits (nat t)),
      ae_month_ago = (\<lambda>t. t - 1), ae_ip = id, ae_no_rows = True\<rparr>"

definition sample_row :: "string \<Rightarrow> string \<Rightarrow> time \<Rightarrow> (string, string) audit_row" where
  "sample_row i t created =
     \<lparr>lr_id = i, lr_event_type = ''user.login'', lr_actor_type = ''user'', lr_actor_id = Some ''u1'', lr_tenant_id = Some t,
      lr_resource_type = Some ''user'', lr_resource_id = None, lr_ip_address = None, lr_user_agent = Some ''say \"hi\", bot'',
      lr_event_data = None, lr_created_at = created\<rparr>"

definition sample_audit_db :: "(string, string) audit_db" where
  "sample_audit_db =
     \<lparr>ad_rows = [sample_row ''a'' ''t1'' 1, sample_row ''b'' ''t2'' 2, sample_row ''c'' ''t1'' 3], ad_tenants = [''t1'', ''t2''], ad_up = True\<rparr>"

definition tenant_req :: list_req where
  "tenant_req =
     \<lparr>lq_TenantID = Some ''tnt_t1'', lq_UserID = None, lq_EventType = None, lq_ResourceType = None, lq_ResourceID = None,
      lq_StartDate = None, lq_EndDate = None, lq_Page = None, lq_PageSize = Some 1\<rparr>"

lemma sample_readable: "\<forall>row \<in> set (ad_rows sample_audit_db). readable sample_audit_env row"
  by (simp add: sample_audit_db_def sample_row_def readable_def scan_log_def)

lemma audit_pages_complete_witness:
  "concat (map (page_data sample_audit_env tenant_req sample_audit_db) [1..2])
   = map (scanned sample_audit_env) [sample_row ''c'' ''t1'' 3, sample_row ''a'' ''t1'' 1]"
proof -
  have "map_sum (\<lambda>_. ()) (\<lambda>r. (rs_TotalPages r, rs_PageSize r)) (ListAuditLogs sample_audit_env tenant_req sample_audit_db) = Inr (2, 1)"
    by code_simp
  then obtain resp where r: "ListAuditLogs sample_audit_env tenant_req sample_audit_db = Inr resp" "rs_TotalPages resp = 2" "rs_PageSize resp = 1"
    by (cases "ListAuditLogs sample_audit_env tenant_req sample_audit_db") auto
  let ?t = "\<lparr>pi_raw = ''t1'', pi_value = ''tnt_t1'', pi_prefix = ''tnt''\<rparr>"
  have p: "ListReq_Parse sample_audit_env tenant_req
      = Inr \<lparr>lp_TenantID = Some ?t, lp_UserID = None, lp_EventType = [], lp_ResourceType = [], lp_ResourceID = None,
             lp_StartDate = 0, lp_EndDate = 0, lp_Page = 0, lp_PageSize = 1\<rparr>" by code_simp
  have "newest_first (filter (by_tenant ''t1'') (ad_rows sample_audit_db)) = [sample_row ''c'' ''t1'' 3, sample_row ''a'' ''t1'' 1]"
    by code_simp
  moreover have "distinct (map lr_created_at (ad_rows sample_audit_db))" "length (ad_rows sample_audit_db) = 3" by code_simp+
  ultimately show ?thesis
    using audit_pages_complete [OF r(1) p, of "by_tenant ''t1''"] sample_readable r(2,3) by (simp add: audit_scope_def scope_part_def)
qed

lemma date_filter_drops_tenant_witness:
  "ListAuditLogs sample_audit_env (tenant_req\<lparr>lq_StartDate := Some ''1'', lq_EndDate := Some ''999''\<rparr>) sample_audit_db
   = ListAuditLogs sample_audit_env (tenant_req\<lparr>lq_StartDate := Some ''1'', lq_EndDate := Some ''999'', lq_TenantID := None\<rparr>) sample_audit_db"
proof -
  let ?t = "\<lparr>pi_raw = ''t1'', pi_value = ''tnt_t1'', pi_prefix = ''tnt''\<rparr>"
  have p: "ListReq_Parse sample_audit_env (tenant_req\<lparr>lq_StartDate := Some ''1'', lq_EndDate := Some ''999''\<rparr>)
      = Inr \<lparr>lp_TenantID = Some ?t, lp_UserID = None, lp_EventType = [], lp_ResourceType = [], lp_ResourceID = None,
             lp_StartDate = 1, lp_EndDate = 3, lp_Page = 0, lp_PageSize = 1\<rparr>" by code_simp
  from date_filter_drops_tenant [OF p] show ?thesis by (simp add: tenant_req_def)
qed

lemma export_reads_back_witness:
  "\<exists>text logs. ExportAuditLogs sample_audit_env (ExportAuditLogsParamsFromRequest (\<lambda>k. [])) sample_audit_db = Inr text
     \<and> csv_records text = csv_header # map (csv_row sample_audit_env) logs"
proof -
  have "is_ok (ExportAuditLogs sample_audit_env (ExportAuditLogsParamsFromRequest (\<lambda>k. [])) sample_audit_db)" by code_simp
  then obtain csv where t: "ExportAuditLogs sample_audit_env (ExportAuditLogsParamsFromRequest (\<lambda>k. [])) sample_audit_db = Inr csv"
    by (auto simp: is_ok_iff)
  from export_reads_back [OF this] t show ?thesis by blast
qed

end
