(* ===== verification/Backend.thy ===== *)
theory Backend
  imports AuditLog
begin

text \<open>
  The manager of backend services and API routes of the gateway
  (\<open>prism/internal/features/gateway/service_backend.go\<close>) over the table of routes
  (\<open>adapters/postgres/api_route_repository.go\<close>, \<open>domain/api_route.go\<close>) and the audit log (theory \<open>AuditLog\<close>).

  The state is the cache of services, the table and the audit log, to which the manager reports its
  changes and whose errors it ignores. The answer of a service to a health check, the parsers of URLs and of
  JSON, and what the driver reads for a NULL in place of a UUID are arguments. The columns of the table that may be
  NULL but that the repository always writes are plain values.
\<close>

section \<open>Routes\<close>

record 'u api_route =
  br_ID :: 'u
  br_PathPattern :: string
  br_HTTPMethod :: string
  br_BackendService :: string
  br_BackendPath :: string
  br_RequiresAuthentication :: bool
  br_RequiredScopes :: "string list"
  br_RateLimitPerMinute :: int
  br_CacheTTLSeconds :: int
  br_IsActive :: bool
  br_TenantID :: 'u
  br_CreatedAt :: time
  br_UpdatedAt :: time

text \<open>A row: the route, whose tenant counts only if the column is not NULL.\<close>

record 'u route_row =
  rr_route :: "'u api_route"
  rr_tenant :: "'u option"

record 'u route_db =
  rd_rows :: "'u route_row list"
  rd_tenants :: "'u list"
  rd_up :: bool

datatype route_error = RouteDbError | RouteNoRows | RouteScanFailed | RouteNotFound

record ('u, 'ip) backend_env =
  be_audit :: "('u, 'ip) audit_env"
  be_null :: "'u option"
  be_url :: "string \<Rightarrow> (string \<times> string) option"
  be_health :: "string \<Rightarrow> (string, string option) gomap option"

text \<open>
  \<open>be_null\<close>: what NULL is read as, if it can be read; \<open>be_url\<close>: scheme and host of a URL; \<open>be_health\<close>: the JSON
  object of a body, with the values that are strings.
\<close>

abbreviation be_uu :: "('u, 'ip) backend_env \<Rightarrow> 'u uuid_ops" where
  "be_uu env \<equiv> ae_uu (be_audit env)"

definition int4 :: "int \<Rightarrow> bool" where
  "int4 i \<longleftrightarrow> - (2 ^ 31) \<le> i \<and> i < 2 ^ 31"

definition route_fits :: "'u api_route \<Rightarrow> 'u route_db \<Rightarrow> bool" where
  "route_fits route db \<longleftrightarrow> rd_up db \<and> length (br_PathPattern route) \<le> 255 \<and> length (br_HTTPMethod route) \<le> 20
     \<and> length (br_BackendService route) \<le> 255 \<and> length (br_BackendPath route) \<le> 255
     \<and> int4 (br_RateLimitPerMinute route) \<and> int4 (br_CacheTTLSeconds route) \<and> br_TenantID route \<in> set (rd_tenants db)"

text \<open>The constraint on path, method and tenant; NULL differs from every value.\<close>

definition same_key :: "'u api_route \<Rightarrow> 'u route_row \<Rightarrow> bool" where
  "same_key route row \<longleftrightarrow> br_PathPattern (rr_route row) = br_PathPattern route \<and> br_HTTPMethod (rr_route row) = br_HTTPMethod route
     \<and> rr_tenant row = Some (br_TenantID route)"

definition pg_CreateRoute ::
  "'u uuid_ops \<Rightarrow> 'u \<Rightarrow> time \<Rightarrow> 'u api_route \<Rightarrow> 'u route_db \<Rightarrow> (route_error + 'u api_route) \<times> 'u route_db" where
  "pg_CreateRoute uu newID now route db =
     (let route1 = (if br_ID route = uu_Nil uu then route\<lparr>br_ID := newID\<rparr> else route);
          route2 = route1\<lparr>br_CreatedAt := now, br_UpdatedAt := now\<rparr>
      in if route_fits route2 db \<and> (\<forall>row \<in> set (rd_rows db). br_ID (rr_route row) \<noteq> br_ID route2 \<and> \<not> same_key route2 row)
         then (Inr route2, db\<lparr>rd_rows := rd_rows db @ [\<lparr>rr_route = route2, rr_tenant = Some (br_TenantID route2)\<rparr>]\<rparr>)
         else (Inl RouteDbError, db))"

definition scan_route :: "'u option \<Rightarrow> 'u route_row \<Rightarrow> route_error + 'u api_route" where
  "scan_route null row =
     (case (case rr_tenant row of Some t \<Rightarrow> Some t | None \<Rightarrow> null) of
        None \<Rightarrow> Inl RouteScanFailed
      | Some t \<Rightarrow> Inr ((rr_route row)\<lparr>br_TenantID := t\<rparr>))"

definition first_route :: "'u option \<Rightarrow> 'u route_db \<Rightarrow> 'u route_row list \<Rightarrow> route_error + 'u api_route" where
  "first_route null db rows =
     (if \<not> rd_up db then Inl RouteDbError else (case rows of [] \<Rightarrow> Inl RouteNoRows | row # _ \<Rightarrow> scan_route null row))"

definition pg_RouteByID :: "'u option \<Rightarrow> 'u \<Rightarrow> 'u route_db \<Rightarrow> route_error + 'u api_route" where
  "pg_RouteByID null i db = first_route null db (filter (\<lambda>row. br_ID (rr_route row) = i) (rd_rows db))"

text \<open>With a tenant, its own routes come before those of no tenant.\<close>

definition pg_RouteByPathAndMethod ::
  "'u option \<Rightarrow> string \<Rightarrow> string \<Rightarrow> 'u option \<Rightarrow> 'u route_db \<Rightarrow> route_error + 'u api_route" where
  "pg_RouteByPathAndMethod null pathPattern httpMethod tenantID db =
     (let rows = filter (\<lambda>row. br_PathPattern (rr_route row) = pathPattern \<and> br_HTTPMethod (rr_route row) = httpMethod) (rd_rows db)
      in case tenantID of
           Some t \<Rightarrow> first_route null db (filter (\<lambda>row. rr_tenant row = Some t) rows @ filter (\<lambda>row. rr_tenant row = None) rows)
         | None \<Rightarrow> first_route null db (filter (\<lambda>row. rr_tenant row = None) rows))"

definition pg_UpdateRoute ::
  "time \<Rightarrow> 'u \<Rightarrow> 'u api_route \<Rightarrow> 'u route_db \<Rightarrow> (route_error + 'u api_route) \<times> 'u route_db" where
  "pg_UpdateRoute now i route db =
     (let route1 = route\<lparr>br_UpdatedAt := now\<rparr>;
          hit = (\<lambda>row. br_ID (rr_route row) = i)
      in if \<not> rd_up db then (Inl RouteDbError, db)
         else if \<forall>row \<in> set (rd_rows db). \<not> hit row then (Inr route1, db)
         else if \<not> route_fits route1 db \<or> (\<exists>row \<in> set (rd_rows db). \<not> hit row \<and> same_key route1 row) then (Inl RouteDbError, db)
         else (Inr route1,
               db\<lparr>rd_rows := map (\<lambda>row. if hit row
                    then \<lparr>rr_route = route1\<lparr>br_ID := br_ID (rr_route row), br_CreatedAt := br_CreatedAt (rr_route row)\<rparr>,
                          rr_tenant = Some (br_TenantID route1)\<rparr>
                    else row) (rd_rows db)\<rparr>))"

definition pg_DeleteRoute :: "'u \<Rightarrow> 'u route_db \<Rightarrow> route_error option \<times> 'u route_db" where
  "pg_DeleteRoute i db =
     (if \<not> rd_up db then (Some RouteDbError, db)
      else if \<forall>row \<in> set (rd_rows db). br_ID (rr_route row) \<noteq> i then (Some RouteNotFound, db)
      else (None, db\<lparr>rd_rows := filter (\<lambda>row. br_ID (rr_route row) \<noteq> i) (rd_rows db)\<rparr>))"

fun read_routes :: "'u option \<Rightarrow> 'u route_row list \<Rightarrow> route_error + 'u api_route list" where
  "read_routes null [] = Inr []"
| "read_routes null (row # rows) =
     (case scan_route null row of
        Inl err \<Rightarrow> Inl err
      | Inr route \<Rightarrow> (case read_routes null rows of Inl err \<Rightarrow> Inl err | Inr routes \<Rightarrow> Inr (route # routes)))"

definition queryAPIRoutes ::
  "'u option \<Rightarrow> ('u route_row \<Rightarrow> bool) \<Rightarrow> int \<Rightarrow> int \<Rightarrow> 'u route_db \<Rightarrow> route_error + 'u api_route list" where
  "queryAPIRoutes null P limit offset db =
     (if \<not> rd_up db \<or> limit < 0 \<or> offset < 0 then Inl RouteDbError
      else read_routes null (take (nat limit) (drop (nat offset)
             (sort_key (\<lambda>row. - br_CreatedAt (rr_route row)) (filter P (rd_rows db))))))"

definition pg_RoutesByTenant :: "'u option \<Rightarrow> 'u \<Rightarrow> int \<Rightarrow> int \<Rightarrow> 'u route_db \<Rightarrow> route_error + 'u api_route list" where
  "pg_RoutesByTenant null tenantID page pageSize =
     queryAPIRoutes null (\<lambda>row. rr_tenant row = Some tenantID \<or> rr_tenant row = None) pageSize (wrap64 (page * pageSize))"

definition pg_RoutesByBackendService :: "'u option \<Rightarrow> string \<Rightarrow> int \<Rightarrow> int \<Rightarrow> 'u route_db \<Rightarrow> route_error + 'u api_route list" where
  "pg_RoutesByBackendService null backendService page pageSize =
     queryAPIRoutes null (\<lambda>row. br_BackendService (rr_route row) = backendService) pageSize (wrap64 (page * pageSize))"

section \<open>Services\<close>

datatype service_status = ServiceStatusUp | ServiceStatusDown | ServiceStatusDegraded | ServiceStatusUnknown

fun status_text :: "service_status \<Rightarrow> string" where
  "status_text ServiceStatusUp = ''up''"
| "status_text ServiceStatusDown = ''down''"
| "status_text ServiceStatusDegraded = ''degraded''"
| "status_text ServiceStatusUnknown = ''unknown''"

record service_info =
  si_Name :: string
  si_URL :: string
  si_Status :: service_status
  si_LastChecked :: time
  si_ResponseTime :: duration
  si_HealthCheckPath :: string
  si_Version :: string
  si_Description :: string
  si_Tags :: "string list"

record ('u, 'ip) backend =
  bk_routes :: "'u route_db"
  bk_services :: "(string, service_info) gomap"
  bk_log :: "('u, 'ip) audit_db"

datatype backend_error = PathRequired | MethodRequired | ServiceRequired | BadPath | BadMethod | RouteExists
  | ServiceUnknown string | RouteRepoError route_error | NameRequired | URLRequired | BadURL | ServiceExists | HealthCheckFailed

text \<open>What a call draws: identifiers and readings of the clock.\<close>

record 'u backend_draw =
  bd_routeID :: 'u
  bd_newID :: 'u
  bd_logID :: 'u
  bd_now :: time
  bd_stored :: time
  bd_logged :: time

section \<open>Checks\<close>

fun has_bracket_param :: "string \<Rightarrow> bool" where
  "has_bracket_param [] = False"
| "has_bracket_param (c # cs) =
     ((c = CHR ''{'' \<and> (let w = takeWhile (\<lambda>x. x \<noteq> CHR ''{'' \<and> x \<noteq> CHR ''}'') cs in w \<noteq> [] \<and> HasPrefix (drop (length w) cs) ''}''))
      \<or> has_bracket_param cs)"

fun has_colon_param :: "string \<Rightarrow> bool" where
  "has_colon_param (c # d # e # cs) = ((c = CHR ''/'' \<and> d = CHR '':'' \<and> e \<noteq> CHR ''/'') \<or> has_colon_param (d # e # cs))"
| "has_colon_param _ = False"

definition validatePathPattern :: "string \<Rightarrow> backend_error option" where
  "validatePathPattern pathPattern =
     (if \<not> HasPrefix pathPattern ''/'' then Some BadPath
      else if list_ex (\<lambda>c. Contains pathPattern [c]) ''?# '' then Some BadPath
      else if has_bracket_param pathPattern \<and> has_colon_param pathPattern then Some BadPath
      else None)"

definition validMethods :: "string list" where
  "validMethods = [''GET'', ''POST'', ''PUT'', ''DELETE'', ''PATCH'', ''HEAD'', ''OPTIONS'']"

definition validateHTTPMethod :: "string \<Rightarrow> backend_error option" where
  "validateHTTPMethod httpMethod = (if list_ex (\<lambda>m. ToUpper httpMethod = m) validMethods then None else Some BadMethod)"

definition getOrDiscoverService :: "string \<Rightarrow> ('u, 'ip) backend \<Rightarrow> backend_error + service_info" where
  "getOrDiscoverService serviceName st =
     (case mget (bk_services st) serviceName of None \<Rightarrow> Inl (ServiceUnknown serviceName) | Some info \<Rightarrow> Inr info)"

definition ValidateBackendServiceURL :: "('u, 'ip) backend_env \<Rightarrow> string \<Rightarrow> backend_error option" where
  "ValidateBackendServiceURL env serviceURL =
     (case be_url env serviceURL of
        None \<Rightarrow> Some BadURL
      | Some (scheme, host) \<Rightarrow>
          if scheme \<noteq> ''http'' \<and> scheme \<noteq> ''https'' then Some BadURL else if host = [] then Some BadURL else None)"

text \<open>What comes back from a health check: nothing, or a status, the time it took and the body, if it could be read.\<close>

datatype health_reply = HealthUnreachable | HealthReply int duration "string option"

text \<open>The first of the names whose value is a string.\<close>

fun version_field :: "(string, string option) gomap \<Rightarrow> string list \<Rightarrow> string" where
  "version_field healthData [] = []"
| "version_field healthData (name # names) =
     (case mget healthData name of Some (Some v) \<Rightarrow> v | _ \<Rightarrow> version_field healthData names)"

definition health_version :: "('u, 'ip) backend_env \<Rightarrow> string option \<Rightarrow> string" where
  "health_version env body =
     (case body of
        None \<Rightarrow> []
      | Some text \<Rightarrow>
          if text = [] then []
          else (case be_health env text of
                  None \<Rightarrow> []
                | Some healthData \<Rightarrow> version_field healthData [''version'', ''Version'', ''VERSION'']))"

definition success_status :: "int \<Rightarrow> bool" where
  "success_status code \<longleftrightarrow> \<not> (code < 200 \<or> code \<ge> 300)"

text \<open>Status, response time, version, and whether there was no error.\<close>

definition checkServiceHealth ::
  "('u, 'ip) backend_env \<Rightarrow> (string \<Rightarrow> health_reply) \<Rightarrow> string \<Rightarrow> string \<Rightarrow> service_status \<times> duration \<times> string \<times> bool" where
  "checkServiceHealth env net serviceURL healthCheckPath =
     (let healthURL = serviceURL @ healthCheckPath
      in if be_url env healthURL = None then (ServiceStatusUnknown, 0, [], False)
         else (case net healthURL of
                 HealthUnreachable \<Rightarrow> (ServiceStatusDown, 0, [], False)
               | HealthReply code responseTime body \<Rightarrow>
                   if \<not> success_status code then (ServiceStatusDegraded, responseTime, [], False)
                   else (ServiceStatusUp, responseTime, health_version env body, True)))"

text \<open>\<open>net\<close>: what comes back within the timeout of the caller.\<close>

definition CheckBackendServiceHealth ::
  "('u, 'ip) backend_env \<Rightarrow> (string \<Rightarrow> health_reply) \<Rightarrow> string \<Rightarrow> string \<Rightarrow> backend_error option" where
  "CheckBackendServiceHealth env net serviceURL healthCheckPath =
     (let healthURL = serviceURL @ (if healthCheckPath = [] then ''/health'' else healthCheckPath)
      in if be_url env healthURL = None then Some HealthCheckFailed
         else (case net healthURL of
                 HealthUnreachable \<Rightarrow> Some HealthCheckFailed
               | HealthReply code _ _ \<Rightarrow> if \<not> success_status code then Some HealthCheckFailed else None))"

section \<open>Routes of the manager\<close>

record 'u register_route_params =
  rp_PathPattern :: string
  rp_HTTPMethod :: string
  rp_BackendService :: string
  rp_BackendPath :: string
  rp_RequiresAuthentication :: bool
  rp_RequiredScopes :: "string list"
  rp_RateLimitPerMinute :: int
  rp_CacheTTLSeconds :: int
  rp_TenantID :: "'u option"

record 'u actor =
  ac_ID :: 'u
  ac_Type :: string

text \<open>An event reported to the audit log; the error is not looked at.\<close>

definition route_event ::
  "('u, 'ip) backend_env \<Rightarrow> 'u backend_draw \<Rightarrow> 'u actor \<Rightarrow> string \<Rightarrow> 'u option \<Rightarrow> string \<Rightarrow> string \<Rightarrow> event_data
   \<Rightarrow> ('u, 'ip) backend \<Rightarrow> ('u, 'ip) backend" where
  "route_event env draw actor eventType tenantID resourceType resourceID eventData st =
     (let tenantIDStr = (case tenantID of None \<Rightarrow> [] | Some t \<Rightarrow> FormatTenantID (uu_String (be_uu env) t))
      in st\<lparr>bk_log := snd (LogEvent (be_audit env) (bd_logID draw) (bd_logged draw)
             \<lparr>ar_EventType = eventType, ar_ActorType = ac_Type actor, ar_ActorID = uu_String (be_uu env) (ac_ID actor),
              ar_TenantID = tenantIDStr, ar_ResourceType = resourceType, ar_ResourceID = resourceID,
              ar_EventData = eventData, aq_IPAddress = None, aq_UserAgent = []\<rparr> (bk_log st))\<rparr>)"

definition register_event_data ::
  "('u, 'ip) backend_env \<Rightarrow> 'u register_route_params \<Rightarrow> service_info \<Rightarrow> event_data" where
  "register_event_data env params serviceInfo =
     [(''path_pattern'', EStr (rp_PathPattern params)), (''http_method'', EStr (rp_HTTPMethod params)),
      (''backend_service'', EStr (rp_BackendService params)),
      (''backend_service_status'', EStr (status_text (si_Status serviceInfo))),
      (''requires_authentication'', EBool (rp_RequiresAuthentication params))]
     @ (if rp_RequiredScopes params \<noteq> [] then [(''required_scopes'', EList (rp_RequiredScopes params))] else [])
     @ (case rp_TenantID params of None \<Rightarrow> [] | Some t \<Rightarrow> [(''tenant_id'', EStr (uu_String (be_uu env) t))])"

definition route_of :: "('u, 'ip) backend_env \<Rightarrow> 'u backend_draw \<Rightarrow> 'u register_route_params \<Rightarrow> 'u api_route" where
  "route_of env draw params =
     \<lparr>br_ID = bd_routeID draw, br_PathPattern = rp_PathPattern params, br_HTTPMethod = ToUpper (rp_HTTPMethod params),
      br_BackendService = rp_BackendService params, br_BackendPath = rp_BackendPath params,
      br_RequiresAuthentication = rp_RequiresAuthentication params, br_RequiredScopes = rp_RequiredScopes params,
      br_RateLimitPerMinute = rp_RateLimitPerMinute params, br_CacheTTLSeconds = rp_CacheTTLSeconds params,
      br_IsActive = True,
      br_TenantID = (case rp_TenantID params of None \<Rightarrow> uu_Nil (be_uu env) | Some t \<Rightarrow> t),
      br_CreatedAt = bd_now draw, br_UpdatedAt = bd_now draw\<rparr>"

definition RegisterRoute ::
  "('u, 'ip) backend_env \<Rightarrow> 'u backend_draw \<Rightarrow> 'u register_route_params \<Rightarrow> 'u actor \<Rightarrow> ('u, 'ip) backend
   \<Rightarrow> (backend_error + 'u api_route) \<times> ('u, 'ip) backend" where
  "RegisterRoute env draw params actor st =
     (if rp_PathPattern params = [] then (Inl PathRequired, st)
      else if rp_HTTPMethod params = [] then (Inl MethodRequired, st)
      else if rp_BackendService params = [] then (Inl ServiceRequired, st)
      else case validatePathPattern (rp_PathPattern params) of Some err \<Rightarrow> (Inl err, st) | None \<Rightarrow>
      (case validateHTTPMethod (rp_HTTPMethod params) of Some err \<Rightarrow> (Inl err, st) | None \<Rightarrow>
      (case pg_RouteByPathAndMethod (be_null env) (rp_PathPattern params) (rp_HTTPMethod params) (rp_TenantID params) (bk_routes st) of
         Inr _ \<Rightarrow> (Inl RouteExists, st)
       | Inl _ \<Rightarrow>
      (case getOrDiscoverService (rp_BackendService params) st of Inl err \<Rightarrow> (Inl err, st) | Inr serviceInfo \<Rightarrow>
      (case pg_CreateRoute (be_uu env) (bd_newID draw) (bd_stored draw) (route_of env draw params) (bk_routes st) of
         (Inl err, db) \<Rightarrow> (Inl (RouteRepoError err), st\<lparr>bk_routes := db\<rparr>)
       | (Inr createdRoute, db) \<Rightarrow>
           (Inr createdRoute,
            route_event env draw actor ''apiroute.created'' (rp_TenantID params) ''apiroute''
              (uu_String (be_uu env) (br_ID createdRoute)) (register_event_data env params serviceInfo) (st\<lparr>bk_routes := db\<rparr>)))))))"

definition GetRoute :: "('u, 'ip) backend_env \<Rightarrow> 'u \<Rightarrow> ('u, 'ip) backend \<Rightarrow> route_error + 'u api_route" where
  "GetRoute env i st = pg_RouteByID (be_null env) i (bk_routes st)"

definition FindRoute ::
  "('u, 'ip) backend_env \<Rightarrow> string \<Rightarrow> string \<Rightarrow> 'u option \<Rightarrow> ('u, 'ip) backend \<Rightarrow> route_error + 'u api_route" where
  "FindRoute env pathPattern httpMethod tenantID st = pg_RouteByPathAndMethod (be_null env) pathPattern httpMethod tenantID (bk_routes st)"

record update_route_params =
  up_BackendService :: "string option"
  up_BackendPath :: "string option"
  up_RequiresAuthentication :: "bool option"
  up_RequiredScopes :: "string list option"
  up_RateLimitPerMinute :: "int option"
  up_CacheTTLSeconds :: "int option"
  up_IsActive :: "bool option"

definition or_old :: "'a \<Rightarrow> 'a option \<Rightarrow> 'a" where
  "or_old old given = (case given of None \<Rightarrow> old | Some x \<Rightarrow> x)"

definition update_service :: "'u api_route \<Rightarrow> update_route_params \<Rightarrow> ('u, 'ip) backend \<Rightarrow> backend_error + 'u api_route" where
  "update_service route params st =
     (case up_BackendService params of
        None \<Rightarrow> Inr route
      | Some s \<Rightarrow>
          if s = br_BackendService route then Inr route
          else (case getOrDiscoverService s st of Inl err \<Rightarrow> Inl err | Inr _ \<Rightarrow> Inr (route\<lparr>br_BackendService := s\<rparr>)))"

definition update_fields :: "time \<Rightarrow> update_route_params \<Rightarrow> 'u api_route \<Rightarrow> 'u api_route" where
  "update_fields now params route =
     route\<lparr>br_BackendPath := or_old (br_BackendPath route) (up_BackendPath params),
           br_RequiresAuthentication := or_old (br_RequiresAuthentication route) (up_RequiresAuthentication params),
           br_RequiredScopes := or_old (br_RequiredScopes route) (up_RequiredScopes params),
           br_RateLimitPerMinute := or_old (br_RateLimitPerMinute route) (up_RateLimitPerMinute params),
           br_CacheTTLSeconds := or_old (br_CacheTTLSeconds route) (up_CacheTTLSeconds params),
           br_IsActive := or_old (br_IsActive route) (up_IsActive params),
           br_UpdatedAt := now\<rparr>"

text \<open>The tenant an event of a stored route names.\<close>

definition route_tenant :: "('u, 'ip) backend_env \<Rightarrow> 'u api_route \<Rightarrow> 'u option" where
  "route_tenant env route = (if br_TenantID route \<noteq> uu_Nil (be_uu env) then Some (br_TenantID route) else None)"

definition UpdateRoute ::
  "('u, 'ip) backend_env \<Rightarrow> 'u backend_draw \<Rightarrow> 'u \<Rightarrow> update_route_params \<Rightarrow> 'u actor \<Rightarrow> ('u, 'ip) backend
   \<Rightarrow> (backend_error + 'u api_route) \<times> ('u, 'ip) backend" where
  "UpdateRoute env draw i params actor st =
     (case pg_RouteByID (be_null env) i (bk_routes st) of
        Inl err \<Rightarrow> (Inl (RouteRepoError err), st)
      | Inr route0 \<Rightarrow>
          (case update_service route0 params st of
             Inl err \<Rightarrow> (Inl err, st)
           | Inr route1 \<Rightarrow>
               (case pg_UpdateRoute (bd_stored draw) i (update_fields (bd_now draw) params route1) (bk_routes st) of
                  (Inl err, db) \<Rightarrow> (Inl (RouteRepoError err), st\<lparr>bk_routes := db\<rparr>)
                | (Inr route, db) \<Rightarrow>
                    (Inr route,
                     route_event env draw actor ''apiroute.updated'' (route_tenant env route) ''apiroute''
                       (uu_String (be_uu env) (br_ID route))
                       [(''path_pattern'', EStr (br_PathPattern route)), (''http_method'', EStr (br_HTTPMethod route)),
                        (''backend_service'', EStr (br_BackendService route)), (''is_active'', EBool (br_IsActive route))]
                       (st\<lparr>bk_routes := db\<rparr>)))))"

definition DeleteRoute ::
  "('u, 'ip) backend_env \<Rightarrow> 'u backend_draw \<Rightarrow> 'u \<Rightarrow> 'u actor \<Rightarrow> ('u, 'ip) backend \<Rightarrow> backend_error option \<times> ('u, 'ip) backend" where
  "DeleteRoute env draw i actor st =
     (case pg_RouteByID (be_null env) i (bk_routes st) of
        Inl err \<Rightarrow> (Some (RouteRepoError err), st)
      | Inr route \<Rightarrow>
          (case pg_DeleteRoute i (bk_routes st) of
             (Some err, db) \<Rightarrow> (Some (RouteRepoError err), st\<lparr>bk_routes := db\<rparr>)
           | (None, db) \<Rightarrow>
               (None,
                route_event env draw actor ''apiroute.deleted'' (route_tenant env route) ''apiroute''
                  (uu_String (be_uu env) (br_ID route))
                  [(''path_pattern'', EStr (br_PathPattern route)), (''http_method'', EStr (br_HTTPMethod route)),
                   (''backend_service'', EStr (br_BackendService route))] (st\<lparr>bk_routes := db\<rparr>))))"

definition ListRoutesByTenant :: "('u, 'ip) backend_env \<Rightarrow> 'u \<Rightarrow> int \<Rightarrow> int \<Rightarrow> ('u, 'ip) backend \<Rightarrow> route_error + 'u api_route list" where
  "ListRoutesByTenant env tenantID page pageSize st = pg_RoutesByTenant (be_null env) tenantID page pageSize (bk_routes st)"

definition ListRoutesByBackendService ::
  "('u, 'ip) backend_env \<Rightarrow> string \<Rightarrow> int \<Rightarrow> int \<Rightarrow> ('u, 'ip) backend \<Rightarrow> route_error + 'u api_route list" where
  "ListRoutesByBackendService env backendService page pageSize st =
     pg_RoutesByBackendService (be_null env) backendService page pageSize (bk_routes st)"

section \<open>Services of the manager\<close>

record register_service_params =
  sp_Name :: string
  sp_URL :: string
  sp_HealthCheckPath :: string
  sp_Description :: string
  sp_Tags :: "string list"

definition RegisterBackendService ::
  "('u, 'ip) backend_env \<Rightarrow> (string \<Rightarrow> health_reply) \<Rightarrow> 'u backend_draw \<Rightarrow> register_service_params \<Rightarrow> 'u actor \<Rightarrow> ('u, 'ip) backend
   \<Rightarrow> (backend_error + service_info) \<times> ('u, 'ip) backend" where
  "RegisterBackendService env net draw params actor st =
     (if sp_Name params = [] then (Inl NameRequired, st)
      else if sp_URL params = [] then (Inl URLRequired, st)
      else case ValidateBackendServiceURL env (sp_URL params) of Some err \<Rightarrow> (Inl err, st) | None \<Rightarrow>
      (let healthCheckPath = (if sp_HealthCheckPath params = [] then ''/health'' else sp_HealthCheckPath params)
       in if mget (bk_services st) (sp_Name params) \<noteq> None then (Inl ServiceExists, st)
          else case checkServiceHealth env net (sp_URL params) healthCheckPath of
                 (status0, responseTime, version, ok) \<Rightarrow>
                   (let status = (if ok then status0 else ServiceStatusUnknown);
                        serviceInfo = \<lparr>si_Name = sp_Name params, si_URL = sp_URL params, si_Status = status, si_LastChecked = bd_now draw,
                          si_ResponseTime = responseTime, si_HealthCheckPath = healthCheckPath, si_Version = version,
                          si_Description = sp_Description params, si_Tags = sp_Tags params\<rparr>
                    in (Inr serviceInfo,
                        route_event env draw actor ''backend_service.registered'' None ''backend_service'' []
                          ([(''name'', EStr (sp_Name params)), (''url'', EStr (sp_URL params)),
                            (''health_check_path'', EStr healthCheckPath), (''status'', EStr (status_text status))]
                           @ (if version \<noteq> [] then [(''version'', EStr version)] else []))
                          (st\<lparr>bk_services := mput (sp_Name params) serviceInfo (bk_services st)\<rparr>)))))"

text \<open>The answer, and whether a check was started in the background.\<close>

definition GetBackendService :: "time \<Rightarrow> string \<Rightarrow> ('u, 'ip) backend \<Rightarrow> backend_error + service_info \<times> bool" where
  "GetBackendService now name st =
     (case mget (bk_services st) name of
        None \<Rightarrow> Inl (ServiceUnknown name)
      | Some serviceInfo \<Rightarrow> Inr (serviceInfo, now - si_LastChecked serviceInfo > minutes 5))"

definition store_health :: "service_status \<Rightarrow> time \<Rightarrow> duration \<Rightarrow> string \<Rightarrow> service_info \<Rightarrow> service_info" where
  "store_health status now responseTime version info =
     (let info1 = info\<lparr>si_Status := status, si_LastChecked := now, si_ResponseTime := responseTime\<rparr>
      in if version \<noteq> [] then info1\<lparr>si_Version := version\<rparr> else info1)"

text \<open>The check in the background. The address it reads never changes once the service is registered.\<close>

definition background_refresh ::
  "('u, 'ip) backend_env \<Rightarrow> (string \<Rightarrow> health_reply) \<Rightarrow> time \<Rightarrow> string \<Rightarrow> ('u, 'ip) backend \<Rightarrow> ('u, 'ip) backend" where
  "background_refresh env net now name st =
     (case mget (bk_services st) name of
        None \<Rightarrow> st
      | Some info \<Rightarrow>
          (case checkServiceHealth env net (si_URL info) (si_HealthCheckPath info) of
             (status, responseTime, version, ok) \<Rightarrow>
               if \<not> ok then st
               else st\<lparr>bk_services := mput name (store_health status now responseTime version info) (bk_services st)\<rparr>))"

text \<open>\<open>order\<close>: the order in which the map is walked.\<close>

definition ListBackendServices :: "string list \<Rightarrow> ('u, 'ip) backend \<Rightarrow> service_info list" where
  "ListBackendServices order st = List.map_filter (mget (bk_services st)) order"

definition RefreshBackendServiceHealth ::
  "('u, 'ip) backend_env \<Rightarrow> (string \<Rightarrow> health_reply) \<Rightarrow> time \<Rightarrow> string \<Rightarrow> ('u, 'ip) backend
   \<Rightarrow> (backend_error + service_info) \<times> ('u, 'ip) backend" where
  "RefreshBackendServiceHealth env net now name st =
     (case mget (bk_services st) name of
        None \<Rightarrow> (Inl (ServiceUnknown name), st)
      | Some info \<Rightarrow>
          (case checkServiceHealth env net (si_URL info) (si_HealthCheckPath info) of
             (status0, responseTime, version, ok) \<Rightarrow>
               (let info' = store_health (if ok then status0 else ServiceStatusDown) now responseTime version info
                in (Inr info', st\<lparr>bk_services := mput name info' (bk_services st)\<rparr>))))"

section \<open>Nothing is audited\<close>

text \<open>
  The audit log wants identifiers with the prefixes \<open>tnt_\<close> and \<open>res_\<close>; the gateway writes tenants with
  \<open>ten_\<close> and resources with none.
\<close>

lemma ten_not_tenant: "\<not> HasPrefix (FormatTenantID t) (normalize_prefix (kind_prefix TenantKind))"
  unfolding normalize_kind by (simp add: FormatTenantID_def HasPrefix_def)

lemma bad_tenant_not_logged:
  assumes "ar_TenantID req = [] \<or> (\<exists>t. ar_TenantID req = FormatTenantID t)"
  shows "LogEvent env newID now req db = (Some (BadID ErrInvalidPrefix), db)"
proof -
  have "\<not> HasPrefix (ar_TenantID req) (normalize_prefix (kind_prefix TenantKind))"
    using assms ten_not_tenant unfolding normalize_kind by (auto simp: HasPrefix_def)
  then show ?thesis
    by (simp add: LogEvent_def NewAuditLog_def AuditLogReq_Parse_def ParseTenantID_def ParsePrefixedID_def)
qed

lemma route_event_lost [simp]: "route_event env draw actor eventType tenantID resourceType resourceID eventData st = st"
proof -
  let ?t = "case tenantID of None \<Rightarrow> [] | Some t \<Rightarrow> FormatTenantID (uu_String (be_uu env) t)"
  have "?t = [] \<or> (\<exists>t. ?t = FormatTenantID t)" by (cases tenantID) auto
  then show ?thesis by (simp add: route_event_def bad_tenant_not_logged)
qed

section \<open>Runs\<close>

text \<open>One call that changes the state, or one check in the background that ends.\<close>

datatype 'u backend_act =
    DoRegisterRoute "'u backend_draw" "'u register_route_params" "'u actor"
  | DoUpdateRoute "'u backend_draw" 'u update_route_params "'u actor"
  | DoDeleteRoute "'u backend_draw" 'u "'u actor"
  | DoRegisterService "string \<Rightarrow> health_reply" "'u backend_draw" register_service_params "'u actor"
  | DoBackground "string \<Rightarrow> health_reply" time string
  | DoRefresh "string \<Rightarrow> health_reply" time string

fun backend_do :: "('u, 'ip) backend_env \<Rightarrow> 'u backend_act \<Rightarrow> ('u, 'ip) backend \<Rightarrow> ('u, 'ip) backend" where
  "backend_do env (DoRegisterRoute draw params actor) st = snd (RegisterRoute env draw params actor st)"
| "backend_do env (DoUpdateRoute draw i params actor) st = snd (UpdateRoute env draw i params actor st)"
| "backend_do env (DoDeleteRoute draw i actor) st = snd (DeleteRoute env draw i actor st)"
| "backend_do env (DoRegisterService net draw params actor) st = snd (RegisterBackendService env net draw params actor st)"
| "backend_do env (DoBackground net now name) st = background_refresh env net now name st"
| "backend_do env (DoRefresh net now name) st = snd (RefreshBackendServiceHealth env net now name st)"

definition backend_run :: "('u, 'ip) backend_env \<Rightarrow> 'u backend_act list \<Rightarrow> ('u, 'ip) backend \<Rightarrow> ('u, 'ip) backend" where
  "backend_run env acts st = fold (backend_do env) acts st"

lemmas manager_ops = RegisterRoute_def UpdateRoute_def DeleteRoute_def RegisterBackendService_def background_refresh_def
  RefreshBackendServiceHealth_def

lemma backend_do_log: "bk_log (backend_do env act st) = bk_log st"
  by (cases act) (auto simp: manager_ops Let_def split: option.splits sum.splits prod.splits)

section \<open>The table of routes\<close>

text \<open>A row the manager keeps: a good path and method, a known service, a tenant that exists.\<close>

definition row_good :: "(string, service_info) gomap \<Rightarrow> 'u list \<Rightarrow> 'u route_row \<Rightarrow> bool" where
  "row_good services tenants row \<longleftrightarrow>
     validatePathPattern (br_PathPattern (rr_route row)) = None \<and> br_HTTPMethod (rr_route row) \<in> set validMethods
     \<and> mget services (br_BackendService (rr_route row)) \<noteq> None
     \<and> rr_tenant row = Some (br_TenantID (rr_route row)) \<and> br_TenantID (rr_route row) \<in> set tenants"

definition row_key :: "'u route_row \<Rightarrow> string \<times> string \<times> 'u option" where
  "row_key row = (br_PathPattern (rr_route row), br_HTTPMethod (rr_route row), rr_tenant row)"

definition routes_good :: "('u, 'ip) backend \<Rightarrow> bool" where
  "routes_good st \<longleftrightarrow>
     list_all (row_good (bk_services st) (rd_tenants (bk_routes st))) (rd_rows (bk_routes st))
     \<and> distinct (map (br_ID \<circ> rr_route) (rd_rows (bk_routes st))) \<and> distinct (map row_key (rd_rows (bk_routes st)))"

lemma row_good_services:
  assumes "row_good services tenants row" "\<And>k. mget services k \<noteq> None \<Longrightarrow> mget services' k \<noteq> None"
  shows "row_good services' tenants row"
  using assms unfolding row_good_def by blast

lemma routes_good_services:
  assumes "routes_good st" "\<And>k. mget (bk_services st) k \<noteq> None \<Longrightarrow> mget services k \<noteq> None"
  shows "routes_good (st\<lparr>bk_services := services\<rparr>)"
  using assms row_good_services unfolding routes_good_def list_all_iff by simp blast

lemma validateHTTPMethod_upper: "validateHTTPMethod m = None \<longleftrightarrow> ToUpper m \<in> set validMethods"
  by (auto simp: validateHTTPMethod_def list_ex_iff)

lemma same_key_row_key: "same_key route row \<longleftrightarrow> row_key row = (br_PathPattern route, br_HTTPMethod route, Some (br_TenantID route))"
  by (auto simp: same_key_def row_key_def)

lemma pg_CreateRoute_routes:
  assumes "pg_CreateRoute uu newID now route db = (Inr created, db')"
  obtains i where "created = route\<lparr>br_ID := i, br_CreatedAt := now, br_UpdatedAt := now\<rparr>" "route_fits created db"
    "db' = db\<lparr>rd_rows := rd_rows db @ [\<lparr>rr_route = created, rr_tenant = Some (br_TenantID created)\<rparr>]\<rparr>"
    "\<forall>row \<in> set (rd_rows db). br_ID (rr_route row) \<noteq> br_ID created \<and> \<not> same_key created row"
proof -
  let ?i = "if br_ID route = uu_Nil uu then newID else br_ID route"
  have eq: "(if br_ID route = uu_Nil uu then route\<lparr>br_ID := newID\<rparr> else route) = route\<lparr>br_ID := ?i\<rparr>" by simp
  from assms have "created = route\<lparr>br_ID := ?i, br_CreatedAt := now, br_UpdatedAt := now\<rparr> \<and> route_fits created db
    \<and> db' = db\<lparr>rd_rows := rd_rows db @ [\<lparr>rr_route = created, rr_tenant = Some (br_TenantID created)\<rparr>]\<rparr>
    \<and> (\<forall>row \<in> set (rd_rows db). br_ID (rr_route row) \<noteq> br_ID created \<and> \<not> same_key created row)"
    unfolding pg_CreateRoute_def Let_def eq by (auto split: if_splits)
  then show thesis using that by blast
qed

lemma pg_CreateRoute_error: "pg_CreateRoute uu newID now route db = (Inl err, db') \<Longrightarrow> db' = db"
  by (auto simp: pg_CreateRoute_def Let_def split: if_splits)

text \<open>What a successful registration has checked and stored.\<close>

lemma RegisterRoute_ok:
  assumes "RegisterRoute env draw params actor st = (Inr route, st')"
  obtains db where "st' = st\<lparr>bk_routes := db\<rparr>"
    "validatePathPattern (rp_PathPattern params) = None" "ToUpper (rp_HTTPMethod params) \<in> set validMethods"
    "mget (bk_services st) (rp_BackendService params) \<noteq> None"
    "pg_CreateRoute (be_uu env) (bd_newID draw) (bd_stored draw) (route_of env draw params) (bk_routes st) = (Inr route, db)"
proof -
  have "\<exists>db. st' = st\<lparr>bk_routes := db\<rparr>
    \<and> validatePathPattern (rp_PathPattern params) = None \<and> validateHTTPMethod (rp_HTTPMethod params) = None
    \<and> mget (bk_services st) (rp_BackendService params) \<noteq> None
    \<and> pg_CreateRoute (be_uu env) (bd_newID draw) (bd_stored draw) (route_of env draw params) (bk_routes st) = (Inr route, db)"
    using assms unfolding RegisterRoute_def getOrDiscoverService_def
    by (simp split: if_splits option.splits sum.splits prod.splits)
  then show thesis using that by (auto simp: validateHTTPMethod_upper)
qed

lemma RegisterRoute_error: "RegisterRoute env draw params actor st = (Inl err, st') \<Longrightarrow> st' = st"
  unfolding RegisterRoute_def by (auto dest!: pg_CreateRoute_error split: if_splits option.splits sum.splits prod.splits)

lemma routes_good_register:
  assumes "routes_good st" "RegisterRoute env draw params actor st = (r, st')"
  shows "routes_good st'"
proof (cases r)
  case (Inl err)
  with assms show ?thesis using RegisterRoute_error by blast
next
  case (Inr route)
  from assms(2) Inr obtain db where *: "st' = st\<lparr>bk_routes := db\<rparr>"
    "validatePathPattern (rp_PathPattern params) = None" "ToUpper (rp_HTTPMethod params) \<in> set validMethods"
    "mget (bk_services st) (rp_BackendService params) \<noteq> None"
    "pg_CreateRoute (be_uu env) (bd_newID draw) (bd_stored draw) (route_of env draw params) (bk_routes st) = (Inr route, db)"
    by (auto elim: RegisterRoute_ok)
  from *(5) obtain i where "route = (route_of env draw params)\<lparr>br_ID := i, br_CreatedAt := bd_stored draw, br_UpdatedAt := bd_stored draw\<rparr>"
    "route_fits route (bk_routes st)"
    "db = (bk_routes st)\<lparr>rd_rows := rd_rows (bk_routes st) @ [\<lparr>rr_route = route, rr_tenant = Some (br_TenantID route)\<rparr>]\<rparr>"
    "\<forall>row \<in> set (rd_rows (bk_routes st)). br_ID (rr_route row) \<noteq> br_ID route \<and> \<not> same_key route row"
    by (rule pg_CreateRoute_routes)
  with * assms(1) show ?thesis
    by (auto simp: routes_good_def row_good_def route_of_def route_fits_def same_key_row_key row_key_def image_iff)
qed

lemma first_route_row:
  assumes "first_route null db rows = Inr route"
  obtains row where "row \<in> set rows" "scan_route null row = Inr route"
  using assms by (cases rows) (auto simp: first_route_def split: if_splits)

lemma scan_good: "row_good services tenants row \<Longrightarrow> scan_route null row = Inr (rr_route row)"
  by (simp add: row_good_def scan_route_def)

lemma pg_RouteByID_good:
  assumes "routes_good st" "pg_RouteByID null i (bk_routes st) = Inr route"
  obtains row where "row \<in> set (rd_rows (bk_routes st))" "br_ID (rr_route row) = i" "rr_route row = route"
proof -
  from assms(2) obtain row where row: "row \<in> set (rd_rows (bk_routes st))" "br_ID (rr_route row) = i" "scan_route null row = Inr route"
    unfolding pg_RouteByID_def by (auto elim!: first_route_row)
  with assms(1) show thesis using that scan_good unfolding routes_good_def list_all_iff by fastforce
qed

text \<open>A row whose identity, path, method and tenant stay.\<close>

lemma update_service_ok:
  assumes "update_service route params st = Inr route'" "mget (bk_services st) (br_BackendService route) \<noteq> None"
  obtains s where "route' = route\<lparr>br_BackendService := s\<rparr>" "mget (bk_services st) s \<noteq> None"
proof (cases "route' = route")
  case True
  then show thesis using that [of "br_BackendService route"] assms(2) by simp
next
  case False
  then show thesis
    using assms(1) that unfolding update_service_def getOrDiscoverService_def by (auto split: option.splits if_splits)
qed

definition rewrite_row :: "'u \<Rightarrow> 'u api_route \<Rightarrow> 'u route_row \<Rightarrow> 'u route_row" where
  "rewrite_row i route row =
     (if br_ID (rr_route row) = i
      then \<lparr>rr_route = route\<lparr>br_ID := br_ID (rr_route row), br_CreatedAt := br_CreatedAt (rr_route row)\<rparr>,
            rr_tenant = Some (br_TenantID route)\<rparr>
      else row)"

lemma pg_UpdateRoute_rows:
  assumes "pg_UpdateRoute now i route db = (r, db')"
  shows "db' = db \<or> db' = db\<lparr>rd_rows := map (rewrite_row i (route\<lparr>br_UpdatedAt := now\<rparr>)) (rd_rows db)\<rparr>"
  using assms unfolding pg_UpdateRoute_def Let_def rewrite_row_def [abs_def] by (auto split: if_splits)

lemma routes_good_map:
  assumes "routes_good st" "\<And>row. row \<in> set (rd_rows (bk_routes st)) \<Longrightarrow> row_good (bk_services st) (rd_tenants (bk_routes st)) (f row)
    \<and> br_ID (rr_route (f row)) = br_ID (rr_route row) \<and> row_key (f row) = row_key row"
  shows "routes_good (st\<lparr>bk_routes := (bk_routes st)\<lparr>rd_rows := map f (rd_rows (bk_routes st))\<rparr>\<rparr>)"
proof -
  have "map (br_ID \<circ> rr_route) (map f (rd_rows (bk_routes st))) = map (br_ID \<circ> rr_route) (rd_rows (bk_routes st))"
    "map row_key (map f (rd_rows (bk_routes st))) = map row_key (rd_rows (bk_routes st))" using assms(2) by auto
  then show ?thesis using assms unfolding routes_good_def by (simp add: list_all_iff del: map_map)
qed

lemma rewrite_row_good:
  assumes good: "routes_good st" and row: "row \<in> set (rd_rows (bk_routes st))"
    and old: "pg_RouteByID null i (bk_routes st) = Inr route" and new: "update_service route params st = Inr route'"
  shows "row_good (bk_services st) (rd_tenants (bk_routes st)) (rewrite_row i ((update_fields now params route')\<lparr>br_UpdatedAt := now'\<rparr>) row)
    \<and> br_ID (rr_route (rewrite_row i ((update_fields now params route')\<lparr>br_UpdatedAt := now'\<rparr>) row)) = br_ID (rr_route row)
    \<and> row_key (rewrite_row i ((update_fields now params route')\<lparr>br_UpdatedAt := now'\<rparr>) row) = row_key row"
proof (cases "br_ID (rr_route row) = i")
  case True
  from pg_RouteByID_good [OF good old] obtain row0 where row0: "row0 \<in> set (rd_rows (bk_routes st))" "br_ID (rr_route row0) = i" "rr_route row0 = route"
    by blast
  with True row good have "row0 = row" unfolding routes_good_def distinct_map inj_on_def by auto
  with row0 row good have g: "row_good (bk_services st) (rd_tenants (bk_routes st)) row" and "rr_route row = route"
    by (auto simp: routes_good_def list_all_iff)
  moreover then obtain s where "route' = route\<lparr>br_BackendService := s\<rparr>" "mget (bk_services st) s \<noteq> None"
    using new by (auto simp: row_good_def elim: update_service_ok)
  ultimately show ?thesis
    using True by (simp add: rewrite_row_def row_good_def row_key_def update_fields_def)
qed (use good row in \<open>simp add: rewrite_row_def routes_good_def list_all_iff\<close>)

lemma routes_good_update:
  assumes "routes_good st" "UpdateRoute env draw i params actor st = (r, st')"
  shows "routes_good st'"
proof -
  have "st' = st \<or> (\<exists>route route' db r. pg_RouteByID (be_null env) i (bk_routes st) = Inr route \<and> update_service route params st = Inr route'
      \<and> pg_UpdateRoute (bd_stored draw) i (update_fields (bd_now draw) params route') (bk_routes st) = (r, db) \<and> st' = st\<lparr>bk_routes := db\<rparr>)"
    using assms(2) unfolding UpdateRoute_def by (auto split: sum.splits prod.splits)
  then show ?thesis
    using assms(1) routes_good_map [OF assms(1) rewrite_row_good [OF assms(1)]] by (auto dest!: pg_UpdateRoute_rows)
qed

lemma routes_good_delete:
  assumes "routes_good st" "DeleteRoute env draw i actor st = (r, st')"
  shows "routes_good st'"
proof -
  have "st' = st \<or> st' = st\<lparr>bk_routes := (bk_routes st)\<lparr>rd_rows := filter (\<lambda>row. br_ID (rr_route row) \<noteq> i) (rd_rows (bk_routes st))\<rparr>\<rparr>"
    using assms(2) unfolding DeleteRoute_def pg_DeleteRoute_def by (auto split: sum.splits prod.splits if_splits)
  with assms(1) show ?thesis by (auto simp: routes_good_def list_all_iff distinct_map_filter)
qed

text \<open>What is written to the cache of services.\<close>

lemma services_mput: "mget m k \<noteq> None \<Longrightarrow> mget (mput name info m) k \<noteq> None"
  by (simp add: map_simps)

lemma register_service_state:
  "snd (RegisterBackendService env net draw params actor st) = st
   \<or> (\<exists>info. snd (RegisterBackendService env net draw params actor st) = st\<lparr>bk_services := mput (sp_Name params) info (bk_services st)\<rparr>)"
  unfolding RegisterBackendService_def Let_def by (auto split: option.splits prod.splits)

lemma background_state:
  "background_refresh env net now name st = st
   \<or> (\<exists>info. background_refresh env net now name st = st\<lparr>bk_services := mput name info (bk_services st)\<rparr>)"
  unfolding background_refresh_def by (auto split: option.splits prod.splits)

lemma refresh_state:
  "snd (RefreshBackendServiceHealth env net now name st) = st
   \<or> (\<exists>info. snd (RefreshBackendServiceHealth env net now name st) = st\<lparr>bk_services := mput name info (bk_services st)\<rparr>)"
  unfolding RefreshBackendServiceHealth_def Let_def by (auto split: option.splits prod.splits)

lemma backend_do_cases:
  "(\<exists>draw params actor. act = DoRegisterRoute draw params actor) \<or> (\<exists>draw i params actor. act = DoUpdateRoute draw i params actor)
   \<or> (\<exists>draw i actor. act = DoDeleteRoute draw i actor) \<or> backend_do env act st = st
   \<or> (\<exists>name info. backend_do env act st = st\<lparr>bk_services := mput name info (bk_services st)\<rparr>)"
proof (cases act)
  case (DoRegisterService net draw params actor)
  then show ?thesis using register_service_state [of env net draw params actor st] by auto
next
  case (DoBackground net now name)
  then show ?thesis using background_state [of env net now name st] by auto
next
  case (DoRefresh net now name)
  then show ?thesis using refresh_state [of env net now name st] by auto
qed auto

lemma routes_good_do:
  assumes "routes_good st"
  shows "routes_good (backend_do env act st)"
  using backend_do_cases [of act env st]
proof (elim disjE exE)
  fix name info
  assume "backend_do env act st = st\<lparr>bk_services := mput name info (bk_services st)\<rparr>"
  then show ?thesis using routes_good_services [OF assms services_mput] by simp
qed (use assms in \<open>auto intro: routes_good_register routes_good_update routes_good_delete prod.collapse [symmetric]\<close>)

lemma routes_good_run: "routes_good st \<Longrightarrow> routes_good (backend_run env acts st)"
  unfolding backend_run_def by (induction acts arbitrary: st) (auto intro: routes_good_do)

lemma routes_good_empty: "rd_rows (bk_routes st) = [] \<Longrightarrow> routes_good st"
  by (simp add: routes_good_def)

section \<open>Properties\<close>

text \<open>a route that was registered for a tenant is found by its path and its method in upper case, active and as
  it was returned; what every other path, method and tenant finds is as before.\<close>

lemma registered_route_found:
  assumes "RegisterRoute env draw params actor st = (Inr route, st')" "rp_TenantID params = Some t"
  shows "FindRoute env (rp_PathPattern params) (ToUpper (rp_HTTPMethod params)) (Some t) st' = Inr route
    \<and> br_TenantID route = t \<and> br_IsActive route \<and> br_BackendService route = rp_BackendService params
    \<and> (\<forall>p m t'. (p, m, t') \<noteq> (rp_PathPattern params, ToUpper (rp_HTTPMethod params), Some t) \<longrightarrow>
         FindRoute env p m t' st' = FindRoute env p m t' st)"
proof -
  from assms(1) obtain db where st': "st' = st\<lparr>bk_routes := db\<rparr>" and
    c: "pg_CreateRoute (be_uu env) (bd_newID draw) (bd_stored draw) (route_of env draw params) (bk_routes st) = (Inr route, db)"
    by (rule RegisterRoute_ok)
  from c obtain i where route: "route = (route_of env draw params)\<lparr>br_ID := i, br_CreatedAt := bd_stored draw, br_UpdatedAt := bd_stored draw\<rparr>"
    and fits: "route_fits route (bk_routes st)"
    and db: "db = (bk_routes st)\<lparr>rd_rows := rd_rows (bk_routes st) @ [\<lparr>rr_route = route, rr_tenant = Some (br_TenantID route)\<rparr>]\<rparr>"
    and new: "\<forall>row \<in> set (rd_rows (bk_routes st)). br_ID (rr_route row) \<noteq> br_ID route \<and> \<not> same_key route row"
    by (rule pg_CreateRoute_routes)
  have key: "br_PathPattern route = rp_PathPattern params" "br_HTTPMethod route = ToUpper (rp_HTTPMethod params)" "br_TenantID route = t"
    using route assms(2) by (auto simp: route_of_def)
  have none: "filter (\<lambda>row. br_PathPattern (rr_route row) = rp_PathPattern params \<and> br_HTTPMethod (rr_route row) = ToUpper (rp_HTTPMethod params)
      \<and> rr_tenant row = Some t) (rd_rows (bk_routes st)) = []"
    using new key by (auto simp: filter_empty_conv same_key_def)
  have "FindRoute env (rp_PathPattern params) (ToUpper (rp_HTTPMethod params)) (Some t) st' = Inr route"
    using none fits key
    by (simp add: FindRoute_def pg_RouteByPathAndMethod_def st' db first_route_def scan_route_def route_fits_def conj_ac)
  moreover have "FindRoute env p m t' st' = FindRoute env p m t' st"
    if "(p, m, t') \<noteq> (rp_PathPattern params, ToUpper (rp_HTTPMethod params), Some t)" for p m t'
    using that key by (auto simp: FindRoute_def pg_RouteByPathAndMethod_def st' db first_route_def Let_def split: option.split)
  ultimately show ?thesis using key by (simp add: route route_of_def)
qed

text \<open>from an empty table on, whatever is registered, changed, deleted and checked, a route that is found belongs to
  the tenant that was asked for, has the path and the method asked for, the method one of the seven, and names a
  registered service; a lookup with no tenant finds nothing.\<close>

lemma tenant_routes_isolated:
  assumes "rd_rows (bk_routes st) = []" "FindRoute env p m tenant (backend_run env acts st) = Inr route"
  shows "tenant = Some (br_TenantID route) \<and> br_PathPattern route = p \<and> HasPrefix p ''/'' \<and> br_HTTPMethod route = m \<and> m \<in> set validMethods
    \<and> mget (bk_services (backend_run env acts st)) (br_BackendService route) \<noteq> None"
proof -
  let ?st = "backend_run env acts st"
  have good: "routes_good ?st" using assms(1) routes_good_empty routes_good_run by blast
  obtain row where row: "row \<in> set (rd_rows (bk_routes ?st))" "br_PathPattern (rr_route row) = p" "br_HTTPMethod (rr_route row) = m"
    "rr_tenant row = tenant \<or> rr_tenant row = None" "scan_route (be_null env) row = Inr route"
    using assms(2) unfolding FindRoute_def pg_RouteByPathAndMethod_def Let_def
    by (auto elim!: first_route_row split: option.splits)
  from row(1) good have g: "row_good (bk_services ?st) (rd_tenants (bk_routes ?st)) row" by (simp add: routes_good_def list_all_iff)
  with row(5) have "rr_route row = route" using scan_good by fastforce
  with row g show ?thesis by (auto simp: row_good_def validatePathPattern_def split: if_splits)
qed

text \<open>none of the events that the manager reports reaches the audit log: its tenants carry the prefix \<open>ten_\<close> and the
  log accepts only \<open>tnt_\<close>.\<close>

lemma backend_events_never_audited: "bk_log (backend_run env acts st) = bk_log st"
  unfolding backend_run_def by (induction acts arbitrary: st) (auto simp: backend_do_log)

text \<open>A route for all tenants cannot be registered, since the nil UUID is no tenant, and a method in lower case is not found.\<close>

lemma global_route_never_created:
  assumes "rp_TenantID params = None" "uu_Nil (be_uu env) \<notin> set (rd_tenants (bk_routes st))"
  shows "\<exists>err. RegisterRoute env draw params actor st = (Inl err, st)"
proof (cases "RegisterRoute env draw params actor st")
  case (Pair r st')
  show ?thesis
  proof (cases r)
    case (Inl err)
    with Pair show ?thesis using RegisterRoute_error by blast
  next
    case (Inr route)
    with Pair obtain db where "pg_CreateRoute (be_uu env) (bd_newID draw) (bd_stored draw) (route_of env draw params) (bk_routes st) = (Inr route, db)"
      by (auto elim: RegisterRoute_ok)
    then have "br_TenantID (route_of env draw params) \<in> set (rd_tenants (bk_routes st))"
      by (auto elim!: pg_CreateRoute_routes simp: route_fits_def)
    with assms show ?thesis by (simp add: route_of_def)
  qed
qed

lemma lower_case_not_found:
  assumes "rd_rows (bk_routes st) = []" "m \<notin> set validMethods"
  shows "\<exists>err. FindRoute env p m tenant (backend_run env acts st) = Inl err"
proof (cases "FindRoute env p m tenant (backend_run env acts st)")
  case (Inr route)
  have good: "routes_good (backend_run env acts st)" using assms(1) routes_good_empty routes_good_run by blast
  from Inr obtain row where "row \<in> set (rd_rows (bk_routes (backend_run env acts st)))" "br_HTTPMethod (rr_route row) = m"
    unfolding FindRoute_def pg_RouteByPathAndMethod_def Let_def by (auto elim!: first_route_row split: option.splits)
  with good assms(2) show ?thesis by (auto simp: routes_good_def list_all_iff row_good_def)
qed simp

section \<open>Witnesses\<close>

definition sample_backend_env :: "(string, string) backend_env" where
  "sample_backend_env = \<lparr>be_audit = sample_audit_env, be_null = None, be_url = (\<lambda>u. Some (''http'', u)), be_health = (\<lambda>b. None)\<rparr>"

definition sample_backend :: "(string, string) backend" where
  "sample_backend =
     \<lparr>bk_routes = \<lparr>rd_rows = [], rd_tenants = [''t1'', ''t2''], rd_up = True\<rparr>, bk_services = [], bk_log = sample_audit_db\<rparr>"

definition sample_draw :: "string \<Rightarrow> string backend_draw" where
  "sample_draw i = \<lparr>bd_routeID = i, bd_newID = ''n'', bd_logID = ''l'', bd_now = 1, bd_stored = 2, bd_logged = 3\<rparr>"

definition sample_actor :: "string actor" where
  "sample_actor = \<lparr>ac_ID = ''u1'', ac_Type = ''user''\<rparr>"

definition sample_service :: "string backend_act" where
  "sample_service = DoRegisterService (\<lambda>u. HealthUnreachable) (sample_draw ''s'')
     \<lparr>sp_Name = ''orders'', sp_URL = ''http://orders'', sp_HealthCheckPath = [], sp_Description = [], sp_Tags = []\<rparr> sample_actor"

definition sample_route_params :: "string register_route_params" where
  "sample_route_params =
     \<lparr>rp_PathPattern = ''/orders/{id}'', rp_HTTPMethod = ''get'', rp_BackendService = ''orders'', rp_BackendPath = ''/o'',
      rp_RequiresAuthentication = True, rp_RequiredScopes = [], rp_RateLimitPerMinute = 60, rp_CacheTTLSeconds = 0,
      rp_TenantID = Some ''t1''\<rparr>"

lemma registered_route_found_witness:
  "\<exists>route st. RegisterRoute sample_backend_env (sample_draw ''r'') sample_route_params sample_actor
     (backend_run sample_backend_env [sample_service] sample_backend) = (Inr route, st)
   \<and> FindRoute sample_backend_env ''/orders/{id}'' ''GET'' (Some ''t1'') st = Inr route"
proof -
  have "is_ok (fst (RegisterRoute sample_backend_env (sample_draw ''r'') sample_route_params sample_actor
     (backend_run sample_backend_env [sample_service] sample_backend)))" by code_simp
  then obtain route st where r: "RegisterRoute sample_backend_env (sample_draw ''r'') sample_route_params sample_actor
     (backend_run sample_backend_env [sample_service] sample_backend) = (Inr route, st)"
    by (metis is_ok_iff prod.collapse)
  moreover have "ToUpper (rp_HTTPMethod sample_route_params) = ''GET''" "rp_PathPattern sample_route_params = ''/orders/{id}''"
    "rp_TenantID sample_route_params = Some ''t1''" by code_simp+
  ultimately show ?thesis using registered_route_found [OF r, of "''t1''"] by auto
qed

lemma tenant_routes_isolated_witness:
  "\<exists>route. FindRoute sample_backend_env ''/orders/{id}'' ''GET'' (Some ''t1'')
     (backend_run sample_backend_env [sample_service, DoRegisterRoute (sample_draw ''r'') sample_route_params sample_actor] sample_backend) = Inr route
   \<and> br_TenantID route = ''t1''"
proof -
  let ?acts = "[sample_service, DoRegisterRoute (sample_draw ''r'') sample_route_params sample_actor]"
  have "is_ok (FindRoute sample_backend_env ''/orders/{id}'' ''GET'' (Some ''t1'') (backend_run sample_backend_env ?acts sample_backend))" by code_simp
  then obtain route where r: "FindRoute sample_backend_env ''/orders/{id}'' ''GET'' (Some ''t1'') (backend_run sample_backend_env ?acts sample_backend) = Inr route"
    by (auto simp: is_ok_iff)
  have "rd_rows (bk_routes sample_backend) = []" by code_simp
  from tenant_routes_isolated [OF this r] r show ?thesis by auto
qed

end
