(* ===== verification/Discovery.thy ===== *)
theory Discovery
  imports GoStrings
begin

text \<open>
  Service discovery: the port (\<open>prism/internal/ports/discovery.go\<close>), the choice of a provider and its
  configuration (\<open>prism/internal/features/discovery/adapters/provider/discovery.go\<close>) and the in-memory
  provider (\<open>local.go\<close>).

  The two maps of the provider hold pointers to the same objects, so instances live in a store
  (\<open>ld_store\<close>) and the maps hold addresses. \<open>order\<close> arguments give the order of loops over maps, \<open>now\<close>
  arguments are clock readings. Channels are numbers; the goroutines that send updates run at some
  later time, so an operation records the sends it starts (\<open>ld_sends\<close>), in the order it starts them.
\<close>

section \<open>Instances and configuration\<close>

record service_instance =
  si_ID :: string
  si_ServiceName :: string
  si_Version :: string
  si_Address :: string
  si_Port :: int
  si_Status :: string
  si_Tags :: "string list"
  si_Metadata :: "(string, string) gomap"
  si_RegisteredAt :: time
  si_LastHeartbeat :: time

record service_info =
  sv_Name :: string
  sv_Version :: string
  sv_Count :: nat

record tls_config =
  tl_Enabled :: bool
  tl_CACertPath :: string
  tl_CertPath :: string
  tl_KeyPath :: string

record consul_config =
  cc_Address :: string
  cc_Token :: string
  cc_TLS :: tls_config

record kubernetes_config =
  kc_InCluster :: bool
  kc_ConfigPath :: string
  kc_Namespace :: string

record etcd_config =
  ec_Endpoints :: "string list"
  ec_Username :: string
  ec_Password :: string
  ec_TLS :: tls_config

record discovery_config =
  dc_Provider :: string
  dc_Consul :: "consul_config option"
  dc_Kubernetes :: "kubernetes_config option"
  dc_Etcd :: "etcd_config option"
  dc_LocalPurgeInterval :: "duration option"
  dc_HeartbeatInterval :: duration
  dc_HeartbeatTimeout :: duration
  dc_DeregisterTimeout :: duration

datatype provider = Consul | Kubernetes | Etcd | Local

datatype provider_error = ConsulConfigRequired | KubernetesConfigRequired | EtcdConfigRequired | UnsupportedProvider string

definition discovery_defaults :: "discovery_config \<Rightarrow> discovery_config" where
  "discovery_defaults config =
     (let c1 = (if dc_HeartbeatInterval config = 0 then config\<lparr>dc_HeartbeatInterval := seconds 15\<rparr> else config);
          c2 = (if dc_HeartbeatTimeout c1 = 0 then c1\<lparr>dc_HeartbeatTimeout := seconds 60\<rparr> else c1)
      in if dc_DeregisterTimeout c2 = 0 then c2\<lparr>dc_DeregisterTimeout := seconds 120\<rparr> else c2)"

text \<open>The provider that is created, with the configuration it is given.\<close>

definition NewServiceDiscovery :: "discovery_config \<Rightarrow> provider_error + provider \<times> discovery_config" where
  "NewServiceDiscovery config0 =
     (let config = discovery_defaults config0
      in if dc_Provider config = ''consul''
         then (if dc_Consul config = None then Inl ConsulConfigRequired else Inr (Consul, config))
         else if dc_Provider config = ''kubernetes''
         then (if dc_Kubernetes config = None then Inl KubernetesConfigRequired else Inr (Kubernetes, config))
         else if dc_Provider config = ''etcd''
         then (if dc_Etcd config = None then Inl EtcdConfigRequired else Inr (Etcd, config))
         else if dc_Provider config = ''local'' \<or> dc_Provider config = [] then Inr (Local, config)
         else Inl (UnsupportedProvider (dc_Provider config)))"

text \<open>The environment is a map; \<open>ParseDuration\<close> is the parser of package \<open>time\<close>.\<close>

definition getEnv :: "(string, string) gomap \<Rightarrow> string \<Rightarrow> string \<Rightarrow> string" where
  "getEnv env key defaultValue = (case mget env key of Some v \<Rightarrow> v | None \<Rightarrow> defaultValue)"

definition ParseBool :: "string \<Rightarrow> bool option" where
  "ParseBool s =
     (if s \<in> {''1'', ''t'', ''T'', ''TRUE'', ''true'', ''True''} then Some True
      else if s \<in> {''0'', ''f'', ''F'', ''FALSE'', ''false'', ''False''} then Some False else None)"

definition getEnvBool :: "(string, string) gomap \<Rightarrow> string \<Rightarrow> bool \<Rightarrow> bool" where
  "getEnvBool env key defaultValue =
     (case mget env key of
        Some v \<Rightarrow> (case ParseBool v of None \<Rightarrow> defaultValue | Some b \<Rightarrow> b)
      | None \<Rightarrow> defaultValue)"

definition getEnvDuration ::
  "(string \<Rightarrow> duration option) \<Rightarrow> (string, string) gomap \<Rightarrow> string \<Rightarrow> duration \<Rightarrow> duration" where
  "getEnvDuration ParseDuration env key defaultValue =
     (case mget env key of
        Some v \<Rightarrow> (case ParseDuration v of None \<Rightarrow> defaultValue | Some d \<Rightarrow> d)
      | None \<Rightarrow> defaultValue)"

definition LoadDiscoveryConfig :: "(string \<Rightarrow> duration option) \<Rightarrow> (string, string) gomap \<Rightarrow> discovery_config" where
  "LoadDiscoveryConfig ParseDuration env =
     \<lparr>dc_Provider = getEnv env ''SERVICE_DISCOVERY_PROVIDER'' ''local'',
      dc_Consul = Some \<lparr>cc_Address = getEnv env ''CONSUL_ADDRESS'' ''localhost:8500'',
        cc_Token = getEnv env ''CONSUL_TOKEN'' [],
        cc_TLS = \<lparr>tl_Enabled = getEnvBool env ''CONSUL_TLS_ENABLED'' False, tl_CACertPath = getEnv env ''CONSUL_TLS_CA_CERT'' [],
                  tl_CertPath = getEnv env ''CONSUL_TLS_CERT'' [], tl_KeyPath = getEnv env ''CONSUL_TLS_KEY'' []\<rparr>\<rparr>,
      dc_Kubernetes = Some \<lparr>kc_InCluster = getEnvBool env ''K8S_IN_CLUSTER'' False,
        kc_ConfigPath = getEnv env ''K8S_CONFIG_PATH'' [], kc_Namespace = getEnv env ''K8S_NAMESPACE'' ''default''\<rparr>,
      dc_Etcd = Some \<lparr>ec_Endpoints = Split CHR '','' (getEnv env ''ETCD_ENDPOINTS'' ''localhost:2379''),
        ec_Username = getEnv env ''ETCD_USERNAME'' [], ec_Password = getEnv env ''ETCD_PASSWORD'' [],
        ec_TLS = \<lparr>tl_Enabled = getEnvBool env ''ETCD_TLS_ENABLED'' False, tl_CACertPath = getEnv env ''ETCD_TLS_CA_CERT'' [],
                  tl_CertPath = getEnv env ''ETCD_TLS_CERT'' [], tl_KeyPath = getEnv env ''ETCD_TLS_KEY'' []\<rparr>\<rparr>,
      dc_LocalPurgeInterval = Some (getEnvDuration ParseDuration env ''LOCAL_PURGE_INTERVAL'' (seconds 30)),
      dc_HeartbeatInterval = getEnvDuration ParseDuration env ''HEARTBEAT_INTERVAL'' (seconds 15),
      dc_HeartbeatTimeout = getEnvDuration ParseDuration env ''HEARTBEAT_TIMEOUT'' (seconds 60),
      dc_DeregisterTimeout = getEnvDuration ParseDuration env ''DEREGISTER_TIMEOUT'' (seconds 120)\<rparr>"

section \<open>The local provider\<close>

record local_discovery =
  ld_store :: "nat \<Rightarrow> service_instance"
  ld_fresh :: nat
  ld_instances :: "(string, nat) gomap"
  ld_serviceMap :: "(string, (string, nat) gomap) gomap"
  ld_watchChannels :: "(string, nat list) gomap"
  ld_nextChannel :: nat
  ld_closed :: "nat list"
  ld_config :: discovery_config
  ld_purging :: bool
  ld_sends :: "(nat \<times> service_instance) list"

datatype discovery_error = InstanceNotFound string | ServiceNotFound string

definition empty_instance :: service_instance where
  "empty_instance = \<lparr>si_ID = [], si_ServiceName = [], si_Version = [], si_Address = [], si_Port = 0, si_Status = [],
     si_Tags = [], si_Metadata = [], si_RegisteredAt = time_zero, si_LastHeartbeat = time_zero\<rparr>"

definition NewLocalDiscovery :: "discovery_config \<Rightarrow> local_discovery" where
  "NewLocalDiscovery config =
     \<lparr>ld_store = (\<lambda>p. empty_instance), ld_fresh = 0, ld_instances = [], ld_serviceMap = [], ld_watchChannels = [],
      ld_nextChannel = 0, ld_closed = [], ld_config = config, ld_purging = True, ld_sends = []\<rparr>"

definition purge_interval :: "discovery_config \<Rightarrow> duration" where
  "purge_interval config =
     (case dc_LocalPurgeInterval config of Some i \<Rightarrow> if i > 0 then i else seconds 30 | None \<Rightarrow> seconds 30)"

definition inst :: "local_discovery \<Rightarrow> nat \<Rightarrow> service_instance" where
  "inst d p = ld_store d p"

definition set_inst :: "nat \<Rightarrow> service_instance \<Rightarrow> local_discovery \<Rightarrow> local_discovery" where
  "set_inst p i d = d\<lparr>ld_store := (ld_store d)(p := i)\<rparr>"

text \<open>The inner map of a service; a missing entry reads as the empty map.\<close>

definition service_instances :: "local_discovery \<Rightarrow> string \<Rightarrow> (string, nat) gomap" where
  "service_instances d s = (case mget (ld_serviceMap d) s of Some m \<Rightarrow> m | None \<Rightarrow> [])"

text \<open>The channels of the service and those under the empty name get the instance.\<close>

definition notifyWatchers :: "service_instance \<Rightarrow> local_discovery \<Rightarrow> local_discovery" where
  "notifyWatchers i d =
     (let channels = (case mget (ld_watchChannels d) (si_ServiceName i) of Some cs \<Rightarrow> cs | None \<Rightarrow> []) @
                     (case mget (ld_watchChannels d) [] of Some cs \<Rightarrow> cs | None \<Rightarrow> [])
      in d\<lparr>ld_sends := ld_sends d @ map (\<lambda>ch. (ch, i)) channels\<rparr>)"

text \<open>The copy that is stored gets a fresh address; \<open>now1\<close> and \<open>now2\<close> are the two readings of the clock.\<close>

definition registered_copy :: "time \<Rightarrow> time \<Rightarrow> service_instance \<Rightarrow> service_instance" where
  "registered_copy now1 now2 i =
     (let i1 = (if si_RegisteredAt i = time_zero then i\<lparr>si_RegisteredAt := now1\<rparr> else i);
          i2 = i1\<lparr>si_LastHeartbeat := now2\<rparr>
      in if si_Status i2 = [] then i2\<lparr>si_Status := ''ACTIVE''\<rparr> else i2)"

definition RegisterInstance :: "time \<Rightarrow> time \<Rightarrow> service_instance \<Rightarrow> local_discovery \<Rightarrow> local_discovery" where
  "RegisterInstance now1 now2 i0 d =
     (let i = registered_copy now1 now2 i0;
          p = ld_fresh d;
          d1 = set_inst p i (d\<lparr>ld_fresh := p + 1\<rparr>);
          d2 = d1\<lparr>ld_instances := mput (si_ID i) p (ld_instances d1)\<rparr>;
          d3 = d2\<lparr>ld_serviceMap := mput (si_ServiceName i) (mput (si_ID i) p (service_instances d2 (si_ServiceName i))) (ld_serviceMap d2)\<rparr>
      in notifyWatchers i d3)"

text \<open>Deleting an entry of an inner map, and the inner map with its last entry.\<close>

definition drop_from_service :: "string \<Rightarrow> string \<Rightarrow> local_discovery \<Rightarrow> local_discovery" where
  "drop_from_service s i d =
     (let m = mdel i (service_instances d s)
      in if length m = 0 then d\<lparr>ld_serviceMap := mdel s (ld_serviceMap d)\<rparr>
         else d\<lparr>ld_serviceMap := mput s m (ld_serviceMap d)\<rparr>)"

definition DeregisterInstance :: "string \<Rightarrow> local_discovery \<Rightarrow> discovery_error option \<times> local_discovery" where
  "DeregisterInstance instanceID d =
     (case mget (ld_instances d) instanceID of
        None \<Rightarrow> (Some (InstanceNotFound instanceID), d)
      | Some p \<Rightarrow>
          let copy = (inst d p)\<lparr>si_Status := ''DEREGISTERED''\<rparr>;
              d1 = d\<lparr>ld_instances := mdel instanceID (ld_instances d)\<rparr>;
              d2 = drop_from_service (si_ServiceName (inst d p)) instanceID d1
          in (None, notifyWatchers copy d2))"

definition UpdateInstanceStatus :: "string \<Rightarrow> string \<Rightarrow> local_discovery \<Rightarrow> discovery_error option \<times> local_discovery" where
  "UpdateInstanceStatus instanceID status d =
     (case mget (ld_instances d) instanceID of
        None \<Rightarrow> (Some (InstanceNotFound instanceID), d)
      | Some p \<Rightarrow>
          let i = (inst d p)\<lparr>si_Status := status\<rparr>
          in (None, notifyWatchers i (set_inst p i d)))"

definition active :: "service_instance \<Rightarrow> bool" where
  "active i \<longleftrightarrow> si_Status i = ''ACTIVE''"

text \<open>The addresses of the active instances, in the order of the loop over the map of their IDs.\<close>

definition active_pointers :: "string list \<Rightarrow> (string, nat) gomap \<Rightarrow> local_discovery \<Rightarrow> nat list" where
  "active_pointers order m d = filter (\<lambda>p. active (inst d p)) (List.map_filter (mget m) order)"

definition ListInstances :: "string list \<Rightarrow> string list \<Rightarrow> local_discovery \<Rightarrow> discovery_error + nat list" where
  "ListInstances order serviceName d =
     (if length serviceName = 0 \<or> serviceName ! 0 = [] then Inr (active_pointers order (ld_instances d) d)
      else (case mget (ld_serviceMap d) (serviceName ! 0) of
              None \<Rightarrow> Inl (ServiceNotFound (serviceName ! 0))
            | Some m \<Rightarrow> Inr (active_pointers order m d)))"

definition GetInstance :: "string \<Rightarrow> local_discovery \<Rightarrow> discovery_error + nat" where
  "GetInstance instanceID d =
     (case mget (ld_instances d) instanceID of None \<Rightarrow> Inl (InstanceNotFound instanceID) | Some p \<Rightarrow> Inr p)"

text \<open>\<open>order\<close>: the loop over the services; \<open>iorder\<close> and \<open>vorder\<close>: over the instances and the versions of a service.\<close>

definition count_version :: "local_discovery \<Rightarrow> nat \<Rightarrow> (string, nat) gomap \<Rightarrow> (string, nat) gomap" where
  "count_version d p versions =
     (if active (inst d p)
      then mput (si_Version (inst d p)) (Suc (case mget versions (si_Version (inst d p)) of Some n \<Rightarrow> n | None \<Rightarrow> 0)) versions
      else versions)"

definition service_versions :: "(string \<Rightarrow> string list) \<Rightarrow> local_discovery \<Rightarrow> string \<Rightarrow> (string, nat) gomap" where
  "service_versions iorder d s =
     fold (count_version d) (List.map_filter (mget (service_instances d s)) (iorder s)) []"

definition ListServices ::
  "string list \<Rightarrow> (string \<Rightarrow> string list) \<Rightarrow> (string \<Rightarrow> string list) \<Rightarrow> local_discovery \<Rightarrow> service_info list" where
  "ListServices order iorder vorder d =
     concat (map (\<lambda>s. List.map_filter (\<lambda>v. map_option (\<lambda>n. \<lparr>sv_Name = s, sv_Version = v, sv_Count = n\<rparr>)
                     (mget (service_versions iorder d s) v)) (vorder s)) order)"

text \<open>The initial state is sent by one goroutine for each active instance.\<close>

definition watch_one :: "nat \<Rightarrow> (string \<Rightarrow> string list) \<Rightarrow> string \<Rightarrow> local_discovery \<Rightarrow> local_discovery" where
  "watch_one ch iorder s d =
     (let cs = (case mget (ld_watchChannels d) s of Some cs \<Rightarrow> cs | None \<Rightarrow> [])
      in d\<lparr>ld_watchChannels := mput s (cs @ [ch]) (ld_watchChannels d),
           ld_sends := ld_sends d @ map (\<lambda>p. (ch, inst d p)) (active_pointers (iorder s) (service_instances d s) d)\<rparr>)"

definition WatchServices ::
  "string list \<Rightarrow> (string \<Rightarrow> string list) \<Rightarrow> string list \<Rightarrow> local_discovery \<Rightarrow> nat \<times> local_discovery" where
  "WatchServices order iorder serviceName d =
     (let ch = ld_nextChannel d;
          watchServices = (if length serviceName = 0 \<or> serviceName ! 0 = [] then order else serviceName)
      in (ch, fold (watch_one ch iorder) watchServices (d\<lparr>ld_nextChannel := ch + 1\<rparr>)))"

definition Heartbeat :: "time \<Rightarrow> string \<Rightarrow> local_discovery \<Rightarrow> discovery_error option \<times> local_discovery" where
  "Heartbeat now instanceID d =
     (case mget (ld_instances d) instanceID of
        None \<Rightarrow> (Some (InstanceNotFound instanceID), d)
      | Some p \<Rightarrow>
          let i = (inst d p)\<lparr>si_LastHeartbeat := now\<rparr>
          in if si_Status i = ''INACTIVE''
             then let i' = i\<lparr>si_Status := ''ACTIVE''\<rparr> in (None, notifyWatchers i' (set_inst p i' d))
             else (None, set_inst p i d))"

text \<open>Only the first occurrence of the channel in each list is removed.\<close>

definition remove_from_list :: "nat \<Rightarrow> string \<Rightarrow> local_discovery \<Rightarrow> local_discovery" where
  "remove_from_list ch s d =
     (case mget (ld_watchChannels d) s of
        None \<Rightarrow> d
      | Some cs \<Rightarrow>
          if ch \<notin> set cs then d
          else if length (remove1 ch cs) = 0 then d\<lparr>ld_watchChannels := mdel s (ld_watchChannels d)\<rparr>
          else d\<lparr>ld_watchChannels := mput s (remove1 ch cs) (ld_watchChannels d)\<rparr>)"

definition removeWatchChannel :: "string list \<Rightarrow> nat \<Rightarrow> local_discovery \<Rightarrow> local_discovery" where
  "removeWatchChannel order ch d =
     (let found = list_ex (\<lambda>s. case mget (ld_watchChannels d) s of Some cs \<Rightarrow> ch \<in> set cs | None \<Rightarrow> False) order;
          d1 = fold (remove_from_list ch) order d
      in if found then d1\<lparr>ld_closed := List.insert ch (ld_closed d1)\<rparr> else d1)"

definition Close :: "string list \<Rightarrow> local_discovery \<Rightarrow> local_discovery" where
  "Close order d =
     (let channelsToClose = concat (map (\<lambda>s. case mget (ld_watchChannels d) s of Some cs \<Rightarrow> cs | None \<Rightarrow> []) order)
      in d\<lparr>ld_purging := False, ld_watchChannels := [], ld_closed := fold List.insert channelsToClose (ld_closed d)\<rparr>)"

text \<open>
  The purge: one turn of its loop gives the instances to announce as inactive, those to announce as
  deregistered, and the IDs to remove.
\<close>

type_synonym purge = "local_discovery \<times> service_instance list \<times> service_instance list \<times> string list"

definition expire_step :: "time \<Rightarrow> string \<Rightarrow> purge \<Rightarrow> purge" where
  "expire_step now i st =
     (case st of (d, inactive, dereg, ids) \<Rightarrow>
        (case mget (ld_instances d) i of
           None \<Rightarrow> st
         | Some p \<Rightarrow>
             if si_Status (inst d p) = ''DEREGISTERED'' then st
             else let since = now - si_LastHeartbeat (inst d p)
                  in if since > dc_HeartbeatTimeout (ld_config d) \<and> si_Status (inst d p) = ''ACTIVE''
                     then let x = (inst d p)\<lparr>si_Status := ''INACTIVE''\<rparr>
                          in (set_inst p x d, inactive @ [x], dereg, ids)
                     else if since > dc_DeregisterTimeout (ld_config d) \<and> si_Status (inst d p) = ''INACTIVE''
                     then let x = (inst d p)\<lparr>si_Status := ''DEREGISTERED''\<rparr>
                          in (set_inst p x d, inactive, dereg @ [x], ids @ [i])
                     else st))"

definition remove_expired :: "string \<Rightarrow> local_discovery \<Rightarrow> local_discovery" where
  "remove_expired i d =
     (case mget (ld_instances d) i of
        None \<Rightarrow> d
      | Some p \<Rightarrow>
          let d1 = d\<lparr>ld_instances := mdel i (ld_instances d)\<rparr>
          in (case mget (ld_serviceMap d1) (si_ServiceName (inst d p)) of
                None \<Rightarrow> d1
              | Some m \<Rightarrow> drop_from_service (si_ServiceName (inst d p)) i d1))"

definition checkExpiredInstances :: "string list \<Rightarrow> time \<Rightarrow> local_discovery \<Rightarrow> local_discovery" where
  "checkExpiredInstances order now d =
     (case fold (expire_step now) order (d, [], [], []) of
        (d1, inactive, dereg, ids) \<Rightarrow>
          fold notifyWatchers dereg (fold notifyWatchers inactive (fold remove_expired ids d1)))"

text \<open>One tick of the purge loop.\<close>

definition purge_tick :: "string list \<Rightarrow> time \<Rightarrow> local_discovery \<Rightarrow> local_discovery" where
  "purge_tick order now d = (if ld_purging d then checkExpiredInstances order now d else d)"

section \<open>What the operations leave alone\<close>

lemma notify_sel [simp]:
  "ld_store (notifyWatchers i d) = ld_store d" "ld_fresh (notifyWatchers i d) = ld_fresh d"
  "ld_instances (notifyWatchers i d) = ld_instances d" "ld_serviceMap (notifyWatchers i d) = ld_serviceMap d"
  "ld_config (notifyWatchers i d) = ld_config d" "ld_purging (notifyWatchers i d) = ld_purging d"
  "inst (notifyWatchers i d) = inst d" "service_instances (notifyWatchers i d) = service_instances d"
  by (simp_all add: notifyWatchers_def Let_def inst_def service_instances_def fun_eq_iff)

text \<open>The part of the state that instances depend on.\<close>

definition core :: "local_discovery \<Rightarrow> (nat \<Rightarrow> service_instance) \<times> nat \<times> (string, nat) gomap
    \<times> (string, (string, nat) gomap) gomap \<times> discovery_config \<times> bool" where
  "core d = (ld_store d, ld_fresh d, ld_instances d, ld_serviceMap d, ld_config d, ld_purging d)"

lemma core_notify [simp]: "core (notifyWatchers i d) = core d"
  by (simp add: core_def)

lemma core_fold_notify [simp]: "core (fold notifyWatchers is d) = core d"
  by (induction "is" arbitrary: d) simp_all

lemma core_watch: "core (snd (WatchServices order iorder names d)) = core d"
proof -
  have "core (fold (watch_one ch iorder) ss d) = core d" for ch ss and d :: local_discovery
    by (induction ss arbitrary: d) (simp_all add: watch_one_def Let_def core_def)
  then show ?thesis by (simp add: WatchServices_def Let_def) (simp add: core_def)
qed

lemma core_unwatch: "core (removeWatchChannel order ch d) = core d"
proof -
  have "core (remove_from_list ch s d) = core d" for s and d :: local_discovery
    by (simp add: remove_from_list_def core_def split: option.split)
  then have "core (fold (remove_from_list ch) ss d) = core d" for ss and d :: local_discovery
    by (induction ss arbitrary: d) simp_all
  then show ?thesis by (simp add: removeWatchChannel_def Let_def) (simp add: core_def)
qed

section \<open>Well-formed states and the instances they hold\<close>

definition view :: "local_discovery \<Rightarrow> string \<Rightarrow> service_instance option" where
  "view d i = map_option (inst d) (mget (ld_instances d) i)"

text \<open>
  The map of a service holds exactly the registered instances of that service, no map of a service is
  empty, and an instance is stored under its own ID.
\<close>

definition wf :: "local_discovery \<Rightarrow> bool" where
  "wf d \<longleftrightarrow> wfmap (ld_instances d) \<and> (\<forall>s m. mget (ld_serviceMap d) s = Some m \<longrightarrow> m \<noteq> [] \<and> wfmap m)
     \<and> (\<forall>i p. mget (ld_instances d) i = Some p \<longrightarrow> p < ld_fresh d \<and> si_ID (inst d p) = i)
     \<and> (\<forall>s i p. mget (service_instances d s) i = Some p \<longleftrightarrow>
          mget (ld_instances d) i = Some p \<and> si_ServiceName (inst d p) = s)"

lemma wf_core: "core d = core d' \<Longrightarrow> wf d = wf d'"
  by (simp add: core_def wf_def inst_def service_instances_def)

lemma view_core: "core d = core d' \<Longrightarrow> view d = view d'"
  by (rule ext) (simp add: core_def view_def inst_def [abs_def])

lemma wf_new: "wf (NewLocalDiscovery c)"
  by (simp add: wf_def NewLocalDiscovery_def service_instances_def)

lemma view_new: "view (NewLocalDiscovery c) = Map.empty"
  by (simp add: view_def NewLocalDiscovery_def fun_eq_iff)

lemma wf_pointers: "wf d \<Longrightarrow> mget (ld_instances d) i = Some p \<Longrightarrow> mget (ld_instances d) j = Some p \<Longrightarrow> i = j"
  by (metis wf_def)

text \<open>Overwriting an object that stays under its ID and service.\<close>

lemma wf_set_inst:
  assumes "wf d" "mget (ld_instances d) i = Some p" "si_ID x = i" "si_ServiceName x = si_ServiceName (inst d p)"
  shows "wf (set_inst p x d) \<and> view (set_inst p x d) = (view d)(i \<mapsto> x)"
proof -
  have e: "inst (set_inst p x d) q = (if q = p then x else inst d q)" for q by (simp add: inst_def set_inst_def)
  have f: "ld_instances (set_inst p x d) = ld_instances d" "ld_serviceMap (set_inst p x d) = ld_serviceMap d"
    "ld_fresh (set_inst p x d) = ld_fresh d" "service_instances (set_inst p x d) = service_instances d"
    by (simp_all add: set_inst_def service_instances_def fun_eq_iff)
  have u: "mget (ld_instances d) j = Some p \<longleftrightarrow> j = i" for j using wf_pointers [OF assms(1)] assms(2) by blast
  have "si_ServiceName (inst (set_inst p x d) q) = si_ServiceName (inst d q)" for q by (simp add: e assms(4))
  moreover have "mget (ld_instances d) j = Some q \<Longrightarrow> si_ID (inst (set_inst p x d) q) = j" for j q
    using assms(1,3) u by (auto simp: e wf_def)
  ultimately have "wf (set_inst p x d)" using assms(1) unfolding wf_def f by simp
  moreover have "view (set_inst p x d) = (view d)(i \<mapsto> x)"
  proof
    fix j
    show "view (set_inst p x d) j = ((view d)(i \<mapsto> x)) j"
      using u [of j] assms(2) by (cases "mget (ld_instances d) j") (auto simp: view_def f e)
  qed
  ultimately show ?thesis ..
qed

text \<open>Deleting an instance from both maps.\<close>

lemma service_drop:
  "service_instances (drop_from_service s i d) s' = (if s' = s then mdel i (service_instances d s) else service_instances d s')"
  by (auto simp: drop_from_service_def Let_def service_instances_def mget_mput mget_mdel)

lemma drop_sel [simp]:
  "ld_instances (drop_from_service s i d) = ld_instances d" "inst (drop_from_service s i d) = inst d"
  "ld_fresh (drop_from_service s i d) = ld_fresh d" "ld_config (drop_from_service s i d) = ld_config d"
  "ld_purging (drop_from_service s i d) = ld_purging d" "ld_store (drop_from_service s i d) = ld_store d"
  by (simp_all add: drop_from_service_def Let_def inst_def fun_eq_iff)

lemma wf_drop:
  assumes "wf d" "mget (ld_instances d) i = Some p"
  defines "d' \<equiv> drop_from_service (si_ServiceName (inst d p)) i (d\<lparr>ld_instances := mdel i (ld_instances d)\<rparr>)"
  shows "wf d' \<and> view d' = (view d)(i := None)"
proof -
  let ?s = "si_ServiceName (inst d p)"
  have i: "inst d' = inst d" "ld_fresh d' = ld_fresh d" "ld_instances d' = mdel i (ld_instances d)"
    by (simp_all add: d'_def inst_def fun_eq_iff)
  have si: "service_instances d' s = (if s = ?s then mdel i (service_instances d s) else service_instances d s)" for s
    by (simp add: d'_def service_drop) (simp add: service_instances_def)
  have sm: "mget (ld_serviceMap d') s = Some m \<Longrightarrow> m \<noteq> [] \<and> wfmap m" for s m
    using assms(1) by (auto simp: d'_def drop_from_service_def Let_def service_instances_def wf_def mget_mput mget_mdel
        intro!: wfmap_mdel split: if_splits option.splits)
  have "mget (service_instances d' s) j = Some q \<longleftrightarrow> mget (ld_instances d') j = Some q \<and> si_ServiceName (inst d' q) = s" for s j q
    using assms(1,2) by (auto simp: si i mget_mdel wf_def)
  moreover have "mget (ld_instances d') j = Some q \<Longrightarrow> q < ld_fresh d' \<and> si_ID (inst d' q) = j" for j q
    using assms(1) by (auto simp: i mget_mdel wf_def split: if_splits)
  ultimately have "wf d'" using assms(1) sm unfolding wf_def i by (simp add: wfmap_mdel)
  moreover have "view d' = (view d)(i := None)" by (auto simp: view_def i mget_mdel fun_eq_iff)
  ultimately show ?thesis ..
qed

lemma registered_copy_sel [simp]:
  "si_ID (registered_copy now1 now2 i) = si_ID i" "si_ServiceName (registered_copy now1 now2 i) = si_ServiceName i"
  "si_LastHeartbeat (registered_copy now1 now2 i) = now2"
  by (simp_all add: registered_copy_def Let_def)

lemma register_sel:
  fixes d i now1 now2
  defines "d' \<equiv> RegisterInstance now1 now2 i d"
  shows "inst d' q = (if q = ld_fresh d then registered_copy now1 now2 i else inst d q)" "ld_fresh d' = Suc (ld_fresh d)"
    "ld_instances d' = mput (si_ID i) (ld_fresh d) (ld_instances d)"
    "service_instances d' s = (if s = si_ServiceName i then mput (si_ID i) (ld_fresh d) (service_instances d s) else service_instances d s)"
    "ld_config d' = ld_config d" "ld_purging d' = ld_purging d"
    "mget (ld_serviceMap d') s = (if s = si_ServiceName i then Some (mput (si_ID i) (ld_fresh d) (service_instances d s)) else mget (ld_serviceMap d) s)"
  unfolding d'_def RegisterInstance_def Let_def
  by (simp_all add: inst_def set_inst_def service_instances_def mget_mput)

lemma mput_not_Nil [simp]: "mput k v m \<noteq> []"
  by (induction k v m rule: mput.induct) simp_all

lemma wf_register:
  fixes now1 now2 :: time
  assumes "wf d" "\<And>x. view d (si_ID i) = Some x \<Longrightarrow> si_ServiceName x = si_ServiceName i"
  defines "d' \<equiv> RegisterInstance now1 now2 i d"
  shows "wf d' \<and> view d' = (view d)(si_ID i \<mapsto> registered_copy now1 now2 i)"
proof -
  note sel = register_sel [of now1 now2 i d, folded d'_def]
  have fr: "mget (ld_instances d) j = Some q \<Longrightarrow> q < ld_fresh d \<and> si_ID (inst d q) = j" for j q using assms(1) by (simp add: wf_def)
  have old: "mget (ld_instances d) (si_ID i) = Some q \<Longrightarrow> si_ServiceName (inst d q) = si_ServiceName i" for q
    using assms(2) by (simp add: view_def)
  have si: "mget (service_instances d s) j = Some q \<longleftrightarrow> mget (ld_instances d) j = Some q \<and> si_ServiceName (inst d q) = s" for s j q
    using assms(1) by (simp add: wf_def)
  have "m \<noteq> [] \<and> wfmap m" if "mget (ld_serviceMap d') s = Some m" for s m
  proof -
    have "wfmap (service_instances d s)" using assms(1) by (auto simp: wf_def service_instances_def split: option.splits)
    with that assms(1) show ?thesis by (auto simp: sel wf_def wfmap_mput split: if_splits)
  qed
  moreover have "mget (ld_instances d') j = Some q \<Longrightarrow> q < ld_fresh d' \<and> si_ID (inst d' q) = j" for j q
    using fr by (fastforce simp: sel mget_mput split: if_splits)
  moreover have "mget (service_instances d' s) j = Some q \<longleftrightarrow> mget (ld_instances d') j = Some q \<and> si_ServiceName (inst d' q) = s" for s j q
    using si fr old by (fastforce simp: sel mget_mput split: if_splits)
  moreover have "wfmap (ld_instances d')" using assms(1) by (simp add: sel wf_def wfmap_mput)
  ultimately have "wf d'" unfolding wf_def by blast
  moreover have "view d' = (view d)(si_ID i \<mapsto> registered_copy now1 now2 i)"
  proof
    fix j
    show "view d' j = ((view d)(si_ID i \<mapsto> registered_copy now1 now2 i)) j"
      using fr by (cases "mget (ld_instances d) j") (auto simp: view_def sel mget_mput)
  qed
  ultimately show ?thesis ..
qed

section \<open>The purge\<close>

definition leaves :: "discovery_config \<Rightarrow> time \<Rightarrow> service_instance \<Rightarrow> bool" where
  "leaves c now x \<longleftrightarrow> si_Status x = ''INACTIVE'' \<and> now - si_LastHeartbeat x > dc_DeregisterTimeout c"

definition marked :: "discovery_config \<Rightarrow> time \<Rightarrow> service_instance \<Rightarrow> service_instance" where
  "marked c now x =
     (if si_Status x = ''ACTIVE'' \<and> now - si_LastHeartbeat x > dc_HeartbeatTimeout c then x\<lparr>si_Status := ''INACTIVE''\<rparr>
      else if leaves c now x then x\<lparr>si_Status := ''DEREGISTERED''\<rparr> else x)"

text \<open>What becomes of an instance in one purge; \<open>None\<close>: it is removed.\<close>

definition purged :: "discovery_config \<Rightarrow> time \<Rightarrow> service_instance \<Rightarrow> service_instance option" where
  "purged c now x = (if leaves c now x then None else Some (marked c now x))"

lemma expire_step_view:
  assumes "wf d" "expire_step now i (d, a, b, ids) = (d', a', b', ids')"
  shows "wf d' \<and> ld_instances d' = ld_instances d \<and> ld_config d' = ld_config d \<and> ld_purging d' = ld_purging d
    \<and> view d' = (view d)(i := map_option (marked (ld_config d) now) (view d i))
    \<and> set ids' = set ids \<union> {j. j = i \<and> (\<exists>x. view d i = Some x \<and> leaves (ld_config d) now x)}"
proof (cases "mget (ld_instances d) i")
  case None
  with assms show ?thesis by (auto simp: expire_step_def view_def fun_eq_iff)
next
  case (Some p)
  let ?x = "inst d p"
  have v: "view d i = Some ?x" and id: "si_ID ?x = i" using Some assms(1) by (auto simp: view_def wf_def)
  note set = wf_set_inst [OF assms(1) Some]
  have keep: "ld_instances (set_inst p x d) = ld_instances d" "ld_config (set_inst p x d) = ld_config d"
    "ld_purging (set_inst p x d) = ld_purging d" for x by (simp_all add: set_inst_def)
  let ?silent = "si_Status ?x = ''ACTIVE'' \<and> now - si_LastHeartbeat ?x > dc_HeartbeatTimeout (ld_config d)"
  consider ?silent | "leaves (ld_config d) now ?x" | "\<not> ?silent" "\<not> leaves (ld_config d) now ?x" by blast
  then show ?thesis
  proof cases
    case 1
    then have "marked (ld_config d) now ?x = ?x\<lparr>si_Status := ''INACTIVE''\<rparr>" "\<not> leaves (ld_config d) now ?x"
      by (simp_all add: marked_def leaves_def)
    moreover have "(d', a', b', ids') = (set_inst p (?x\<lparr>si_Status := ''INACTIVE''\<rparr>) d, a @ [?x\<lparr>si_Status := ''INACTIVE''\<rparr>], b, ids)"
      using 1 assms(2) Some by (simp add: expire_step_def Let_def)
    ultimately show ?thesis using v id set [of "?x\<lparr>si_Status := ''INACTIVE''\<rparr>"] by (simp add: keep)
  next
    case 2
    then have "marked (ld_config d) now ?x = ?x\<lparr>si_Status := ''DEREGISTERED''\<rparr>" by (simp add: marked_def leaves_def)
    moreover have "(d', a', b', ids') = (set_inst p (?x\<lparr>si_Status := ''DEREGISTERED''\<rparr>) d, a, b @ [?x\<lparr>si_Status := ''DEREGISTERED''\<rparr>], ids @ [i])"
      using 2 assms(2) Some by (simp add: expire_step_def leaves_def Let_def)
    ultimately show ?thesis using 2 v id set [of "?x\<lparr>si_Status := ''DEREGISTERED''\<rparr>"] by (auto simp: keep)
  next
    case 3
    then have "marked (ld_config d) now ?x = ?x" by (simp add: marked_def)
    moreover have "expire_step now i (d, a, b, ids) = (d, a, b, ids)"
      using 3 Some by (auto simp: expire_step_def leaves_def Let_def)
    ultimately show ?thesis using assms v 3(2) by (auto simp: fun_eq_iff)
  qed
qed

lemma expire_fold_view:
  "wf d \<Longrightarrow> distinct xs \<Longrightarrow> fold (expire_step now) xs (d, a, b, ids) = (d', a', b', ids') \<Longrightarrow>
   wf d' \<and> ld_instances d' = ld_instances d \<and> ld_config d' = ld_config d \<and> ld_purging d' = ld_purging d
   \<and> (\<forall>j. view d' j = (if j \<in> set xs then map_option (marked (ld_config d) now) (view d j) else view d j))
   \<and> set ids' = set ids \<union> {j \<in> set xs. \<exists>x. view d j = Some x \<and> leaves (ld_config d) now x}"
proof (induction xs arbitrary: d a b ids)
  case Nil
  then show ?case by simp
next
  case (Cons i xs)
  obtain d1 a1 b1 ids1 where e: "expire_step now i (d, a, b, ids) = (d1, a1, b1, ids1)" by (metis surj_pair)
  note s = expire_step_view [OF Cons.prems(1) e]
  from Cons.prems e have "fold (expire_step now) xs (d1, a1, b1, ids1) = (d', a', b', ids')" "distinct xs" "i \<notin> set xs" by auto
  with Cons.IH [of d1 a1 b1 ids1] s show ?case by auto
qed

lemma remove_expired_view:
  assumes "wf d"
  shows "wf (remove_expired i d) \<and> view (remove_expired i d) = (view d)(i := None)
    \<and> ld_config (remove_expired i d) = ld_config d \<and> ld_purging (remove_expired i d) = ld_purging d"
proof (cases "mget (ld_instances d) i")
  case None
  with assms show ?thesis by (auto simp: remove_expired_def view_def fun_eq_iff)
next
  case (Some p)
  have "mget (service_instances d (si_ServiceName (inst d p))) i = Some p" using assms Some by (simp add: wf_def)
  then obtain m where "mget (ld_serviceMap d) (si_ServiceName (inst d p)) = Some m" by (auto simp: service_instances_def split: option.splits)
  with wf_drop [OF assms Some] Some show ?thesis by (simp add: remove_expired_def Let_def)
qed

lemma remove_fold_view:
  "wf d \<Longrightarrow> wf (fold remove_expired ids d) \<and> (\<forall>j. view (fold remove_expired ids d) j = (if j \<in> set ids then None else view d j))
    \<and> ld_config (fold remove_expired ids d) = ld_config d \<and> ld_purging (fold remove_expired ids d) = ld_purging d"
proof (induction ids arbitrary: d)
  case (Cons i ids)
  with Cons.IH [of "remove_expired i d"] remove_expired_view [OF Cons.prems, of i] show ?case by auto
qed simp

lemma purge_view:
  assumes "wf d" "is_order order (ld_instances d)"
  shows "wf (checkExpiredInstances order now d) \<and> view (checkExpiredInstances order now d) = (\<lambda>i. Option.bind (view d i) (purged (ld_config d) now))
    \<and> ld_config (checkExpiredInstances order now d) = ld_config d \<and> ld_purging (checkExpiredInstances order now d) = ld_purging d"
proof -
  obtain d1 a b ids where f: "fold (expire_step now) order (d, [], [], []) = (d1, a, b, ids)" by (metis surj_pair)
  have o: "distinct order" "\<And>j. j \<in> set order \<longleftrightarrow> view d j \<noteq> None"
    using assms(2) is_order_mem [OF assms(2)] by (auto simp: is_order_def view_def)
  note e = expire_fold_view [OF assms(1) o(1) f]
  note r = remove_fold_view [of d1 ids]
  let ?d = "fold remove_expired ids d1"
  have c: "core (checkExpiredInstances order now d) = core ?d" by (simp add: checkExpiredInstances_def f)
  have "view ?d j = Option.bind (view d j) (purged (ld_config d) now)" for j
    using e r o(2) [of j] by (cases "view d j") (auto simp: purged_def)
  with wf_core [OF c] view_core [OF c] e r c show ?thesis by (auto simp: core_def)
qed

section \<open>Steps\<close>

datatype disc_act =
    ARegister time time service_instance
  | ADeregister string
  | AUpdate string string
  | AHeartbeat time string
  | AWatch "string list"
  | AUnwatch nat
  | ATick time
  | AClose

text \<open>The steps of the provider, for every order of its loops over maps.\<close>

inductive ld_step :: "disc_act \<Rightarrow> local_discovery \<Rightarrow> local_discovery \<Rightarrow> bool" where
  step_register: "ld_step (ARegister now1 now2 i) d (RegisterInstance now1 now2 i d)"
| step_deregister: "ld_step (ADeregister i) d (snd (DeregisterInstance i d))"
| step_update: "ld_step (AUpdate i status) d (snd (UpdateInstanceStatus i status d))"
| step_heartbeat: "ld_step (AHeartbeat now i) d (snd (Heartbeat now i d))"
| step_watch: "is_order order (ld_serviceMap d) \<Longrightarrow> ld_step (AWatch names) d (snd (WatchServices order iorder names d))"
| step_unwatch: "is_order order (ld_watchChannels d) \<Longrightarrow> ld_step (AUnwatch ch) d (removeWatchChannel order ch d)"
| step_tick: "is_order order (ld_instances d) \<Longrightarrow> ld_step (ATick now) d (purge_tick order now d)"
| step_close: "is_order order (ld_watchChannels d) \<Longrightarrow> ld_step AClose d (Close order d)"

inductive_cases ld_stepE: "ld_step act d d'"

inductive runs :: "('a \<Rightarrow> 's \<Rightarrow> 's \<Rightarrow> bool) \<Rightarrow> 'a list \<Rightarrow> 's \<Rightarrow> 's \<Rightarrow> bool" for step where
  run_nil: "runs step [] d d"
| run_cons: "step act d d1 \<Longrightarrow> runs step acts d1 d2 \<Longrightarrow> runs step (act # acts) d d2"

inductive_simps runs_Nil [simp]: "runs step [] d d'"
inductive_simps runs_Cons: "runs step (act # acts) d d'"

section \<open>The specification: a map of instances by ID\<close>

definition beat :: "time \<Rightarrow> service_instance \<Rightarrow> service_instance" where
  "beat now x = x\<lparr>si_LastHeartbeat := now, si_Status := (if si_Status x = ''INACTIVE'' then ''ACTIVE'' else si_Status x)\<rparr>"

text \<open>The state: whether the purge runs, and the instances.\<close>

fun spec_step :: "discovery_config \<Rightarrow> disc_act \<Rightarrow> bool \<times> (string \<Rightarrow> service_instance option) \<Rightarrow> bool \<times> (string \<Rightarrow> service_instance option)" where
  "spec_step c (ARegister now1 now2 i) (run, m) = (run, m(si_ID i \<mapsto> registered_copy now1 now2 i))"
| "spec_step c (ADeregister i) (run, m) = (run, m(i := None))"
| "spec_step c (AUpdate i status) (run, m) = (run, m(i := map_option (\<lambda>x. x\<lparr>si_Status := status\<rparr>) (m i)))"
| "spec_step c (AHeartbeat now i) (run, m) = (run, m(i := map_option (beat now) (m i)))"
| "spec_step c (ATick now) (run, m) = (run, if run then (\<lambda>i. Option.bind (m i) (purged c now)) else m)"
| "spec_step c AClose (run, m) = (False, m)"
| "spec_step c (AWatch names) (run, m) = (run, m)"
| "spec_step c (AUnwatch ch) (run, m) = (run, m)"

text \<open>An ID that is registered again stays with its service.\<close>

fun same_service :: "disc_act \<Rightarrow> (string \<Rightarrow> service_instance option) \<Rightarrow> bool" where
  "same_service (ARegister now1 now2 i) m \<longleftrightarrow> (case m (si_ID i) of Some x \<Rightarrow> si_ServiceName x = si_ServiceName i | None \<Rightarrow> True)"
| "same_service _ m \<longleftrightarrow> True"

fun same_services :: "discovery_config \<Rightarrow> disc_act list \<Rightarrow> bool \<times> (string \<Rightarrow> service_instance option) \<Rightarrow> bool" where
  "same_services c [] st \<longleftrightarrow> True"
| "same_services c (act # acts) st \<longleftrightarrow> same_service act (snd st) \<and> same_services c acts (spec_step c act st)"

definition abs_state :: "local_discovery \<Rightarrow> bool \<times> (string \<Rightarrow> service_instance option)" where
  "abs_state d = (ld_purging d, view d)"

lemma set_inst_conf [simp]: "ld_config (set_inst p x d) = ld_config d" "ld_purging (set_inst p x d) = ld_purging d"
  by (simp_all add: set_inst_def)

lemma deregister_refines:
  assumes "wf d"
  shows "wf (snd (DeregisterInstance i d)) \<and> view (snd (DeregisterInstance i d)) = (view d)(i := None)
    \<and> ld_config (snd (DeregisterInstance i d)) = ld_config d \<and> ld_purging (snd (DeregisterInstance i d)) = ld_purging d"
proof (cases "mget (ld_instances d) i")
  case None
  with assms show ?thesis by (auto simp: DeregisterInstance_def view_def fun_eq_iff)
next
  case (Some p)
  let ?d = "drop_from_service (si_ServiceName (inst d p)) i (d\<lparr>ld_instances := mdel i (ld_instances d)\<rparr>)"
  have c: "core (snd (DeregisterInstance i d)) = core ?d" using Some by (simp add: DeregisterInstance_def Let_def)
  with wf_core [OF c] view_core [OF c] wf_drop [OF assms Some] show ?thesis by (simp add: core_def)
qed

lemma set_inst_refines:
  assumes "wf d" "mget (ld_instances d) i = Some p" "core d' = core (set_inst p (f (inst d p)) d)"
    and "si_ID (f (inst d p)) = si_ID (inst d p)" "si_ServiceName (f (inst d p)) = si_ServiceName (inst d p)"
  shows "wf d' \<and> view d' = (view d)(i := map_option f (view d i)) \<and> ld_config d' = ld_config d \<and> ld_purging d' = ld_purging d"
proof -
  have "si_ID (inst d p) = i" using assms(1,2) by (simp add: wf_def)
  with wf_set_inst [OF assms(1,2), of "f (inst d p)"] wf_core [OF assms(3)] view_core [OF assms(3)] assms(2-5) show ?thesis
    by (auto simp: core_def view_def)
qed

lemma update_refines:
  assumes "wf d"
  shows "wf (snd (UpdateInstanceStatus i st d)) \<and> view (snd (UpdateInstanceStatus i st d)) = (view d)(i := map_option (\<lambda>x. x\<lparr>si_Status := st\<rparr>) (view d i))
    \<and> ld_config (snd (UpdateInstanceStatus i st d)) = ld_config d \<and> ld_purging (snd (UpdateInstanceStatus i st d)) = ld_purging d"
proof (cases "mget (ld_instances d) i")
  case None
  with assms show ?thesis by (auto simp: UpdateInstanceStatus_def view_def fun_eq_iff)
next
  case (Some p)
  then show ?thesis by (intro set_inst_refines [OF assms Some]) (simp_all add: UpdateInstanceStatus_def Let_def)
qed

lemma heartbeat_refines:
  assumes "wf d"
  shows "wf (snd (Heartbeat now i d)) \<and> view (snd (Heartbeat now i d)) = (view d)(i := map_option (beat now) (view d i))
    \<and> ld_config (snd (Heartbeat now i d)) = ld_config d \<and> ld_purging (snd (Heartbeat now i d)) = ld_purging d"
proof (cases "mget (ld_instances d) i")
  case None
  with assms show ?thesis by (auto simp: Heartbeat_def view_def fun_eq_iff)
next
  case (Some p)
  then show ?thesis by (intro set_inst_refines [OF assms Some]) (simp_all add: Heartbeat_def Let_def beat_def)
qed

lemma core_refines: "core d' = core d \<Longrightarrow> wf d \<Longrightarrow> wf d' \<and> abs_state d' = abs_state d \<and> ld_config d' = ld_config d"
  using wf_core [of d' d] view_core [of d' d] by (simp add: abs_state_def core_def)

lemma step_refines:
  assumes "ld_step act d d'" "wf d" "same_service act (view d)"
  shows "wf d' \<and> abs_state d' = spec_step (ld_config d) act (abs_state d) \<and> ld_config d' = ld_config d"
  using assms(1)
proof cases
  case (step_register now1 now2 i)
  with assms(3) wf_register [OF assms(2), of i now1 now2] register_sel(5,6) show ?thesis
    by (auto simp: abs_state_def split: option.splits)
next
  case (step_deregister i)
  with deregister_refines [OF assms(2)] show ?thesis by (simp add: abs_state_def)
next
  case (step_update i status)
  with update_refines [OF assms(2)] show ?thesis by (simp add: abs_state_def)
next
  case (step_heartbeat now i)
  with heartbeat_refines [OF assms(2)] show ?thesis by (simp add: abs_state_def)
next
  case (step_watch order names iorder)
  with core_refines [OF core_watch assms(2)] show ?thesis by (simp add: abs_state_def)
next
  case (step_unwatch order ch)
  with core_refines [OF core_unwatch assms(2)] show ?thesis by (simp add: abs_state_def)
next
  case (step_tick order now)
  with purge_view [OF assms(2)] assms(2) show ?thesis by (auto simp: abs_state_def purge_tick_def)
next
  case (step_close order)
  have "wf (Close order d) = wf d" "view (Close order d) = view d"
    by (simp_all add: wf_def view_def [abs_def] inst_def [abs_def] service_instances_def [abs_def] Close_def Let_def)
  with step_close assms(2) show ?thesis by (simp add: abs_state_def Close_def Let_def)
qed

section \<open>What a provider promises\<close>

text \<open>An action that concerns the instance with the given ID, or stops the purge.\<close>

fun concerns :: "string \<Rightarrow> disc_act \<Rightarrow> bool" where
  "concerns i (ARegister now1 now2 x) \<longleftrightarrow> si_ID x = i"
| "concerns i (ADeregister j) \<longleftrightarrow> j = i"
| "concerns i (AUpdate j status) \<longleftrightarrow> j = i"
| "concerns i (AHeartbeat now j) \<longleftrightarrow> j = i"
| "concerns i AClose \<longleftrightarrow> True"
| "concerns i _ \<longleftrightarrow> False"

text \<open>An instance that nothing concerns is gone, or as it was but for its status.\<close>

definition fading :: "string \<Rightarrow> service_instance \<Rightarrow> string list \<Rightarrow> bool \<times> (string \<Rightarrow> service_instance option) \<Rightarrow> bool" where
  "fading i x sts st \<longleftrightarrow> fst st \<and> (snd st i = None \<or> (\<exists>status \<in> set sts. snd st i = Some (x\<lparr>si_Status := status\<rparr>)))"

lemma purged_status:
  "status \<in> set sts \<Longrightarrow> sts = [''ACTIVE'', ''INACTIVE''] \<or> sts = [''INACTIVE''] \<Longrightarrow>
   purged c now (x\<lparr>si_Status := status\<rparr>) = None \<or> (\<exists>st \<in> set sts. purged c now (x\<lparr>si_Status := status\<rparr>) = Some (x\<lparr>si_Status := st\<rparr>))"
  by (auto simp: purged_def leaves_def marked_def)

lemma fading_step:
  assumes "fading i x sts st" "\<not> concerns i act" "sts = [''ACTIVE'', ''INACTIVE''] \<or> sts = [''INACTIVE'']"
  shows "fading i x sts (spec_step c act st)"
proof (cases act)
  case (ATick now)
  obtain m where st: "st = (True, m)" using assms(1) by (cases st) (auto simp: fading_def)
  show ?thesis
  proof (cases "m i")
    case None
    with ATick st show ?thesis by (simp add: fading_def)
  next
    case (Some y)
    with assms(1) st obtain status where y: "status \<in> set sts" "y = x\<lparr>si_Status := status\<rparr>" by (auto simp: fading_def)
    with purged_status [OF y(1) assms(3), of c now x] ATick st Some show ?thesis by (auto simp: fading_def)
  qed
qed (use assms in \<open>cases st; auto simp: fading_def\<close>)+

lemma fading_run:
  "fading i x sts st \<Longrightarrow> \<forall>act \<in> set acts. \<not> concerns i act \<Longrightarrow> sts = [''ACTIVE'', ''INACTIVE''] \<or> sts = [''INACTIVE''] \<Longrightarrow>
   fading i x sts (fold (spec_step c) acts st)"
  by (induction acts arbitrary: st) (auto simp: fading_step)

lemma tick_silences:
  "fading i x [''ACTIVE'', ''INACTIVE''] st \<Longrightarrow> now - si_LastHeartbeat x > dc_HeartbeatTimeout c \<Longrightarrow>
   fading i x [''INACTIVE''] (spec_step c (ATick now) st)"
  by (cases st) (auto simp: fading_def purged_def leaves_def marked_def split: if_splits)

lemma tick_removes:
  "fading i x [''INACTIVE''] st \<Longrightarrow> now - si_LastHeartbeat x > dc_DeregisterTimeout c \<Longrightarrow> snd (spec_step c (ATick now) st) i = None"
  by (cases st) (auto simp: fading_def purged_def leaves_def)

locale service_discoverer =
  fixes step :: "disc_act \<Rightarrow> 'd \<Rightarrow> 'd \<Rightarrow> bool" and inv :: "'d \<Rightarrow> bool"
    and abs :: "'d \<Rightarrow> bool \<times> (string \<Rightarrow> service_instance option)" and conf :: "'d \<Rightarrow> discovery_config"
  assumes refines: "step act d d' \<Longrightarrow> inv d \<Longrightarrow> same_service act (snd (abs d)) \<Longrightarrow>
    inv d' \<and> abs d' = spec_step (conf d) act (abs d) \<and> conf d' = conf d"
begin

lemma run_refines:
  "runs step acts d d' \<Longrightarrow> inv d \<Longrightarrow> same_services (conf d) acts (abs d) \<Longrightarrow>
   inv d' \<and> abs d' = fold (spec_step (conf d)) acts (abs d) \<and> conf d' = conf d"
proof (induction rule: runs.induct)
  case (run_cons act d d1 acts d2)
  then have "same_service act (snd (abs d))" by simp
  from refines [OF run_cons.hyps(1) run_cons.prems(1) this] run_cons.IH run_cons.prems(2) show ?case by simp
qed simp

text \<open>An instance that sends no heartbeat is removed by two purges.\<close>

lemma silent_removed:
  assumes "runs step (as @ ATick t1 # bs @ [ATick t2]) d d'" "inv d"
    and "same_services (conf d) (as @ ATick t1 # bs @ [ATick t2]) (abs d)"
    and "fst (abs d)" "snd (abs d) i = Some x" "si_Status x = ''ACTIVE'' \<or> si_Status x = ''INACTIVE''"
    and "\<forall>act \<in> set as \<union> set bs. \<not> concerns i act"
    and "t1 - si_LastHeartbeat x > dc_HeartbeatTimeout (conf d)" "t2 - si_LastHeartbeat x > dc_DeregisterTimeout (conf d)"
  shows "inv d' \<and> snd (abs d') i = None"
proof -
  let ?c = "conf d"
  have "x = x\<lparr>si_Status := si_Status x\<rparr>" by simp
  with assms(4-6) have "fading i x [''ACTIVE'', ''INACTIVE''] (abs d)" by (auto simp: fading_def)
  then have "fading i x [''ACTIVE'', ''INACTIVE''] (fold (spec_step ?c) as (abs d))" using assms(7) by (intro fading_run) auto
  then have "fading i x [''INACTIVE''] (spec_step ?c (ATick t1) (fold (spec_step ?c) as (abs d)))"
    using assms(8) by (rule tick_silences)
  then have "fading i x [''INACTIVE''] (fold (spec_step ?c) bs (spec_step ?c (ATick t1) (fold (spec_step ?c) as (abs d))))"
    using assms(7) by (intro fading_run) auto
  from tick_removes [OF this assms(9)] run_refines [OF assms(1-3)] show ?thesis by simp
qed

end

interpretation local: service_discoverer ld_step wf abs_state ld_config
  by unfold_locales (auto dest!: step_refines simp: abs_state_def)

section \<open>Listing\<close>

lemma set_active_pointers:
  "is_order order m \<Longrightarrow> set (active_pointers order m d) = {p. (\<exists>i. mget m i = Some p) \<and> active (inst d p)}"
  using is_order_mem [of order m] by (fastforce simp: active_pointers_def set_map_filter)

lemma ListInstances_exact:
  assumes "wf d" "s \<noteq> []" "is_order order (service_instances d s)"
  shows "case ListInstances order [s] d of
      Inl e \<Rightarrow> e = ServiceNotFound s \<and> (\<forall>x \<in> ran (view d). si_ServiceName x \<noteq> s)
    | Inr ps \<Rightarrow> inst d ` set ps = {x \<in> ran (view d). si_ServiceName x = s \<and> active x}"
proof (cases "mget (ld_serviceMap d) s")
  case None
  then have e: "service_instances d s = []" by (simp add: service_instances_def)
  have "si_ServiceName x \<noteq> s" if "x \<in> ran (view d)" for x
  proof
    assume "si_ServiceName x = s"
    with that obtain i p where "mget (ld_instances d) i = Some p" "x = inst d p" by (auto simp: ran_def view_def)
    with \<open>si_ServiceName x = s\<close> assms(1) have "mget (service_instances d s) i = Some p" by (simp add: wf_def)
    with e show False by simp
  qed
  with None assms(2) show ?thesis by (simp add: ListInstances_def)
next
  case (Some m)
  then have m: "service_instances d s = m" by (simp add: service_instances_def)
  have "mget m i = Some p \<longleftrightarrow> mget (ld_instances d) i = Some p \<and> si_ServiceName (inst d p) = s" for i p
    using assms(1) m by (auto simp: wf_def)
  with Some assms(2,3) m show ?thesis
    by (auto simp: ListInstances_def set_active_pointers ran_def view_def image_iff)
qed

section \<open>Ghosts\<close>

text \<open>
  An instance that is in the map of a service but not registered any more, while no instance of that
  service is registered under its ID.
\<close>

definition ghost :: "string \<Rightarrow> string \<Rightarrow> nat \<Rightarrow> local_discovery \<Rightarrow> bool" where
  "ghost s i p d \<longleftrightarrow> mget (service_instances d s) i = Some p \<and> active (inst d p) \<and> p < ld_fresh d
     \<and> (\<forall>j. mget (ld_instances d) j \<noteq> Some p) \<and> (\<forall>q. mget (ld_instances d) i = Some q \<longrightarrow> si_ServiceName (inst d q) \<noteq> s)
     \<and> (\<forall>j q. mget (ld_instances d) j = Some q \<longrightarrow> si_ID (inst d q) = j \<and> q < ld_fresh d)"

lemma ghost_core: "core d = core d' \<Longrightarrow> ghost s i p d = ghost s i p d'"
  by (simp add: core_def ghost_def inst_def service_instances_def)

lemma ghost_drop:
  assumes "ghost s i p d" "mget (ld_instances d) j = Some q"
  shows "ghost s i p (drop_from_service (si_ServiceName (inst d q)) j (d\<lparr>ld_instances := mdel j (ld_instances d)\<rparr>))"
proof -
  have "service_instances (d\<lparr>ld_instances := m\<rparr>) s' = service_instances d s'" "inst (d\<lparr>ld_instances := m\<rparr>) = inst d" for m s'
    by (simp_all add: service_instances_def inst_def fun_eq_iff)
  moreover have "j = i \<Longrightarrow> si_ServiceName (inst d q) \<noteq> s" using assms by (auto simp: ghost_def)
  ultimately show ?thesis using assms(1) by (auto simp: ghost_def service_drop mget_mdel)
qed

lemma ghost_set_inst:
  assumes "ghost s i p d" "mget (ld_instances d) j = Some q" "si_ID x = si_ID (inst d q)" "si_ServiceName x = si_ServiceName (inst d q)"
  shows "ghost s i p (set_inst q x d)"
proof -
  have "q \<noteq> p" using assms(1,2) by (auto simp: ghost_def)
  moreover have "inst (set_inst q x d) r = (if r = q then x else inst d r)" for r by (simp add: set_inst_def inst_def)
  moreover have "service_instances (set_inst q x d) = service_instances d" "ld_instances (set_inst q x d) = ld_instances d"
    "ld_fresh (set_inst q x d) = ld_fresh d"
    by (simp_all add: set_inst_def service_instances_def fun_eq_iff)
  moreover have "mget (ld_instances d) k = Some q \<Longrightarrow> si_ID x = k" for k using assms(1,3) by (auto simp: ghost_def)
  ultimately show ?thesis using assms(1,4) unfolding ghost_def by simp
qed

lemma ghost_expire_step: "ghost s i p d \<Longrightarrow> expire_step now j (d, a, b, ids) = (d', a', b', ids') \<Longrightarrow> ghost s i p d'"
  using ghost_set_inst [of s i p d j]
  by (auto simp: expire_step_def Let_def split: option.splits if_splits)

lemma ghost_expire_fold:
  "ghost s i p d \<Longrightarrow> fold (expire_step now) xs (d, a, b, ids) = (d', a', b', ids') \<Longrightarrow> ghost s i p d'"
proof (induction xs arbitrary: d a b ids)
  case (Cons j xs)
  obtain d1 a1 b1 ids1 where e: "expire_step now j (d, a, b, ids) = (d1, a1, b1, ids1)" by (metis surj_pair)
  with Cons ghost_expire_step [OF Cons.prems(1) e] show ?case by simp
qed simp

lemma ghost_remove: "ghost s i p d \<Longrightarrow> ghost s i p (remove_expired j d)"
proof (cases "mget (ld_instances d) j")
  case (Some q)
  assume g: "ghost s i p d"
  have "ghost s i p (d\<lparr>ld_instances := mdel j (ld_instances d)\<rparr>)"
    using g by (auto simp: ghost_def mget_mdel inst_def service_instances_def)
  with ghost_drop [OF g Some] Some show ?thesis by (simp add: remove_expired_def Let_def split: option.split)
qed (simp add: remove_expired_def)

lemma ghost_remove_fold: "ghost s i p d \<Longrightarrow> ghost s i p (fold remove_expired ids d)"
  by (induction ids arbitrary: d) (auto simp: ghost_remove)

lemma ghost_purge: "ghost s i p d \<Longrightarrow> ghost s i p (checkExpiredInstances order now d)"
proof -
  assume g: "ghost s i p d"
  obtain d1 a b ids where f: "fold (expire_step now) order (d, [], [], []) = (d1, a, b, ids)" by (metis surj_pair)
  have "core (checkExpiredInstances order now d) = core (fold remove_expired ids d1)" by (simp add: checkExpiredInstances_def f)
  with ghost_core ghost_remove_fold [OF ghost_expire_fold [OF g f]] show ?thesis by blast
qed

text \<open>No step but a registration under that ID and service lays a ghost.\<close>

lemma ghost_step:
  assumes "ld_step act d d'" "ghost s i p d" "\<And>now1 now2 x. act = ARegister now1 now2 x \<Longrightarrow> \<not> (si_ID x = i \<and> si_ServiceName x = s)"
  shows "ghost s i p d'"
  using assms(1)
proof cases
  case (step_register now1 now2 x)
  have "\<not> (si_ID x = i \<and> si_ServiceName x = s)" using assms(3) step_register by blast
  with assms(2) step_register(2) show ?thesis
    by (auto simp: ghost_def register_sel mget_mput less_Suc_eq)
next
  case (step_deregister j)
  show ?thesis
  proof (cases "mget (ld_instances d) j")
    case (Some q)
    let ?d = "drop_from_service (si_ServiceName (inst d q)) j (d\<lparr>ld_instances := mdel j (ld_instances d)\<rparr>)"
    have "core d' = core ?d" using Some step_deregister by (simp add: DeregisterInstance_def Let_def)
    with ghost_core ghost_drop [OF assms(2) Some] show ?thesis by blast
  qed (use step_deregister assms(2) in \<open>simp add: DeregisterInstance_def\<close>)
next
  case (step_update j status)
  show ?thesis
  proof (cases "mget (ld_instances d) j")
    case (Some q)
    have "core d' = core (set_inst q ((inst d q)\<lparr>si_Status := status\<rparr>) d)"
      using Some step_update by (simp add: UpdateInstanceStatus_def Let_def)
    moreover have "ghost s i p (set_inst q ((inst d q)\<lparr>si_Status := status\<rparr>) d)" by (rule ghost_set_inst [OF assms(2) Some]) simp_all
    ultimately show ?thesis using ghost_core by blast
  qed (use step_update assms(2) in \<open>simp add: UpdateInstanceStatus_def\<close>)
next
  case (step_heartbeat now j)
  show ?thesis
  proof (cases "mget (ld_instances d) j")
    case (Some q)
    have "core d' = core (set_inst q (beat now (inst d q)) d)"
      using Some step_heartbeat by (simp add: Heartbeat_def Let_def beat_def)
    moreover have "si_ID (beat now (inst d q)) = si_ID (inst d q)" "si_ServiceName (beat now (inst d q)) = si_ServiceName (inst d q)"
      by (simp_all add: beat_def)
    ultimately show ?thesis using ghost_core ghost_set_inst [OF assms(2) Some] by blast
  qed (use step_heartbeat assms(2) in \<open>simp add: Heartbeat_def\<close>)
next
  case (step_watch order names iorder)
  with assms(2) ghost_core [OF core_watch] show ?thesis by simp
next
  case (step_unwatch order ch)
  with assms(2) ghost_core [OF core_unwatch] show ?thesis by simp
next
  case (step_tick order now)
  with assms(2) ghost_purge show ?thesis by (simp add: purge_tick_def)
next
  case (step_close order)
  with assms(2) show ?thesis by (simp add: ghost_def Close_def Let_def inst_def service_instances_def)
qed

lemma ghost_born:
  assumes "wf d" "mget (ld_instances d) (si_ID x) = Some p" "active (inst d p)" "si_ServiceName x \<noteq> si_ServiceName (inst d p)"
  shows "ghost (si_ServiceName (inst d p)) (si_ID x) p (RegisterInstance now1 now2 x d)"
proof -
  have fr: "q < ld_fresh d" "si_ID (inst d q) = j" if "mget (ld_instances d) j = Some q" for j q
    using assms(1) that by (simp_all add: wf_def)
  have p: "p < ld_fresh d" "mget (service_instances d (si_ServiceName (inst d p))) (si_ID x) = Some p"
    using fr(1) [OF assms(2)] assms(1,2) by (simp_all add: wf_def)
  have "mget (ld_instances d) j \<noteq> Some p" if "j \<noteq> si_ID x" for j using wf_pointers [OF assms(1,2)] that by blast
  moreover have "si_ID (inst d q) = j \<and> q < Suc (ld_fresh d) \<and> q \<noteq> ld_fresh d" if "mget (ld_instances d) j = Some q" for j q
    using fr [OF that] by auto
  ultimately show ?thesis using p assms(3,4) unfolding ghost_def register_sel mget_mput by auto
qed

lemma ghost_run:
  "runs ld_step acts d d' \<Longrightarrow> ghost s i p d \<Longrightarrow>
   \<forall>now1 now2 x. ARegister now1 now2 x \<in> set acts \<longrightarrow> \<not> (si_ID x = i \<and> si_ServiceName x = s) \<Longrightarrow> ghost s i p d'"
proof (induction rule: runs.induct)
  case (run_cons act d d1 acts d2)
  from ghost_step [OF run_cons.hyps(1) run_cons.prems(1)] run_cons.prems(2) have "ghost s i p d1" by auto
  with run_cons show ?case by auto
qed simp

section \<open>Properties\<close>

text \<open>C24: The local provider is a map of instances by ID: in every reachable state, for every order of its loops,
  the registered instances are those that the specification gives for the history, the map of each
  service is consistent with them, and listing a service gives exactly its active instances; provided
  that an ID is not registered for another service while it is in use.\<close>

theorem discovery_refines_map:
  assumes "runs ld_step acts (NewLocalDiscovery c) d" "same_services c acts (True, Map.empty)"
    and "s \<noteq> []" "is_order order (service_instances d s)"
  shows "wf d \<and> view d = snd (fold (spec_step c) acts (True, Map.empty))
    \<and> (case ListInstances order [s] d of
         Inl e \<Rightarrow> e = ServiceNotFound s \<and> (\<forall>x \<in> ran (view d). si_ServiceName x \<noteq> s)
       | Inr ps \<Rightarrow> inst d ` set ps = {x \<in> ran (view d). si_ServiceName x = s \<and> active x})"
proof -
  have n: "abs_state (NewLocalDiscovery c) = (True, Map.empty)" "ld_config (NewLocalDiscovery c) = c"
    by (simp_all add: abs_state_def view_new) (simp_all add: NewLocalDiscovery_def)
  with local.run_refines [OF assms(1) wf_new] assms(2)
  have "wf d" "abs_state d = fold (spec_step c) acts (True, Map.empty)" by simp_all
  with ListInstances_exact [OF _ assms(3,4)] show ?thesis by (metis abs_state_def snd_conv)
qed

text \<open>An instance that sends no heartbeat disappears: whatever happens to other instances, after a purge
  later than the heartbeat timeout and another purge later than the deregistration timeout it is not
  registered any more and in the map of no service.\<close>

lemma silent_instance_removed:
  assumes "runs ld_step (as @ ATick t1 # bs @ [ATick t2]) d d'" "wf d"
    and "same_services (ld_config d) (as @ ATick t1 # bs @ [ATick t2]) (abs_state d)"
    and "ld_purging d" "view d i = Some x" "si_Status x = ''ACTIVE'' \<or> si_Status x = ''INACTIVE''"
    and "\<forall>act \<in> set as \<union> set bs. \<not> concerns i act"
    and "t1 - si_LastHeartbeat x > dc_HeartbeatTimeout (ld_config d)"
    and "t2 - si_LastHeartbeat x > dc_DeregisterTimeout (ld_config d)"
  shows "is_ok (GetInstance i d') = False \<and> (\<forall>s. mget (service_instances d' s) i = None)"
proof -
  have d': "wf d'" "view d' i = None"
    using local.silent_removed [OF assms(1-3)] assms(4-9) by (auto simp: abs_state_def)
  then have "mget (ld_instances d') i = None" by (simp add: view_def)
  with d'(1) have "mget (service_instances d' s) i = None" for s
    by (cases "mget (service_instances d' s) i") (auto simp: wf_def)
  with \<open>mget (ld_instances d') i = None\<close> show ?thesis by (simp add: GetInstance_def)
qed

text \<open>Registering the ID of an active instance for another service leaves a ghost behind: from then on the
  first service lists the old instance as active whatever happens, deregistration of the ID and purges
  included, until the ID is registered for the first service again.\<close>

lemma ghost_instance_stays:
  assumes "wf d" "view d (si_ID x) = Some y" "active y" "si_ServiceName x \<noteq> si_ServiceName y"
    and "runs ld_step (ARegister now1 now2 x # acts) d d'" "si_ServiceName y \<noteq> []"
    and "\<forall>now1 now2 z. ARegister now1 now2 z \<in> set acts \<longrightarrow> \<not> (si_ID z = si_ID x \<and> si_ServiceName z = si_ServiceName y)"
    and "is_order order (service_instances d' (si_ServiceName y))"
  shows "\<exists>ps p. ListInstances order [si_ServiceName y] d' = Inr ps \<and> p \<in> set ps
    \<and> (\<forall>j. mget (ld_instances d') j \<noteq> Some p)"
proof -
  let ?s = "si_ServiceName y" and ?i = "si_ID x"
  from assms(2) obtain p where p: "mget (ld_instances d) ?i = Some p" "y = inst d p" by (auto simp: view_def)
  from assms(5) obtain d1 where d1: "ld_step (ARegister now1 now2 x) d d1" "runs ld_step acts d1 d'" by (auto simp: runs_Cons)
  then have "d1 = RegisterInstance now1 now2 x d" by (auto elim: ld_stepE)
  then have "ghost ?s ?i p d1" using ghost_born [OF assms(1) p(1)] p(2) assms(3,4) by simp
  from ghost_run [OF d1(2) this assms(7)] have g: "ghost ?s ?i p d'" .
  then obtain m where "mget (ld_serviceMap d') ?s = Some m" "mget m ?i = Some p"
    by (auto simp: ghost_def service_instances_def split: option.splits)
  with g assms(6,8) show ?thesis
    by (auto simp: ListInstances_def set_active_pointers ghost_def service_instances_def)
qed

text \<open>Watching all services does not see a service that is registered later.\<close>

lemma watch_all_misses_new_service:
  assumes "d' = snd (WatchServices [] iorder [] d)" "ld_watchChannels d = []"
  shows "ld_sends (RegisterInstance now1 now2 x d') = ld_sends d"
  using assms by (simp add: WatchServices_def Let_def RegisterInstance_def notifyWatchers_def set_inst_def)

text \<open>An instance whose status was set to something else than active or inactive is never removed.\<close>

lemma other_status_stays:
  "si_Status x \<noteq> ''ACTIVE'' \<Longrightarrow> si_Status x \<noteq> ''INACTIVE'' \<Longrightarrow> purged c now x = Some x"
  by (simp add: purged_def leaves_def marked_def)

section \<open>Witnesses\<close>

definition sample_config :: discovery_config where
  "sample_config = discovery_defaults \<lparr>dc_Provider = [], dc_Consul = None, dc_Kubernetes = None, dc_Etcd = None,
     dc_LocalPurgeInterval = None, dc_HeartbeatInterval = 0, dc_HeartbeatTimeout = 0, dc_DeregisterTimeout = 0\<rparr>"

definition sample_instance :: "string \<Rightarrow> string \<Rightarrow> service_instance" where
  "sample_instance i s = empty_instance\<lparr>si_ID := i, si_ServiceName := s\<rparr>"

definition sample_disc :: local_discovery where
  "sample_disc = RegisterInstance 1 1 (sample_instance ''i1'' ''users'') (NewLocalDiscovery sample_config)"

lemma sample_disc_run: "runs ld_step [ARegister 1 1 (sample_instance ''i1'' ''users'')] (NewLocalDiscovery sample_config) sample_disc"
  by (auto simp: runs_Cons sample_disc_def intro: step_register)

lemma sample_disc_maps:
  "ld_instances sample_disc = [(''i1'', 0)]" "service_instances sample_disc ''users'' = [(''i1'', 0)]"
  by code_simp+

lemma sample_disc_wf: "wf sample_disc" "abs_state sample_disc = (True, [''i1'' \<mapsto> registered_copy 1 1 (sample_instance ''i1'' ''users'')])"
  "ld_config sample_disc = sample_config"
proof -
  have n: "abs_state (NewLocalDiscovery sample_config) = (True, Map.empty)" "ld_config (NewLocalDiscovery sample_config) = sample_config"
    by (simp_all add: abs_state_def view_new) (simp_all add: NewLocalDiscovery_def)
  from local.run_refines [OF sample_disc_run wf_new] n
  show "wf sample_disc" "abs_state sample_disc = (True, [''i1'' \<mapsto> registered_copy 1 1 (sample_instance ''i1'' ''users'')])"
    "ld_config sample_disc = sample_config"
    by (simp_all add: sample_instance_def)
qed

theorem discovery_refines_map_witness:
  "view sample_disc = [''i1'' \<mapsto> registered_copy 1 1 (sample_instance ''i1'' ''users'')]
   \<and> (\<exists>ps. ListInstances [''i1''] [''users''] sample_disc = Inr ps \<and> inst sample_disc ` set ps =
        {x \<in> ran (view sample_disc). si_ServiceName x = ''users'' \<and> active x})"
proof -
  have "is_order [''i1''] (service_instances sample_disc ''users'')" by (simp add: sample_disc_maps is_order_def)
  from discovery_refines_map [OF sample_disc_run _ _ this]
  have "view sample_disc = [''i1'' \<mapsto> registered_copy 1 1 (sample_instance ''i1'' ''users'')]"
    "case ListInstances [''i1''] [''users''] sample_disc of
         Inl e \<Rightarrow> e = ServiceNotFound ''users'' \<and> (\<forall>x \<in> ran (view sample_disc). si_ServiceName x \<noteq> ''users'')
       | Inr ps \<Rightarrow> inst sample_disc ` set ps = {x \<in> ran (view sample_disc). si_ServiceName x = ''users'' \<and> active x}"
    by (simp_all add: sample_instance_def)
  moreover have "is_ok (ListInstances [''i1''] [''users''] sample_disc)" by code_simp
  ultimately show ?thesis by (auto simp: is_ok_iff)
qed

definition sample_purged :: local_discovery where
  "sample_purged = purge_tick [''i1''] (seconds 200) (purge_tick [''i1''] (seconds 100) sample_disc)"

lemma silent_instance_removed_witness:
  "is_ok (GetInstance ''i1'' sample_disc) \<and> \<not> is_ok (GetInstance ''i1'' sample_purged)"
proof -
  let ?d1 = "purge_tick [''i1''] (seconds 100) sample_disc"
  have "ld_instances ?d1 = [(''i1'', 0)]" by code_simp
  then have "runs ld_step ([] @ ATick (seconds 100) # [] @ [ATick (seconds 200)]) sample_disc sample_purged"
    unfolding sample_purged_def
    by (auto simp: runs_Cons is_order_def sample_disc_maps intro!: exI [of _ ?d1] step_tick)
  note r = silent_instance_removed [OF this sample_disc_wf(1), of "''i1''"]
  have "ld_purging sample_disc" "view sample_disc ''i1'' = Some (registered_copy 1 1 (sample_instance ''i1'' ''users''))"
    using sample_disc_wf(2) by (auto simp: abs_state_def)
  with r have "is_ok (GetInstance ''i1'' sample_purged) = False"
    by (simp add: sample_disc_wf registered_copy_def sample_instance_def empty_instance_def sample_config_def discovery_defaults_def
        seconds_def Let_def)
  moreover have "is_ok (GetInstance ''i1'' sample_disc)" by code_simp
  ultimately show ?thesis by simp
qed

definition moved_disc :: local_discovery where
  "moved_disc = snd (DeregisterInstance ''i1'' (RegisterInstance 2 2 (sample_instance ''i1'' ''orders'') sample_disc))"

lemma ghost_instance_stays_witness:
  "\<exists>ps p. ListInstances [''i1''] [''users''] moved_disc = Inr ps \<and> p \<in> set ps \<and> (\<forall>j. mget (ld_instances moved_disc) j \<noteq> Some p)"
proof -
  have "service_instances moved_disc ''users'' = [(''i1'', 0)]" by code_simp
  moreover have "runs ld_step [ARegister 2 2 (sample_instance ''i1'' ''orders''), ADeregister ''i1''] sample_disc moved_disc"
    by (auto simp: runs_Cons moved_disc_def intro!: exI step_register step_deregister)
  moreover have "view sample_disc ''i1'' = Some (registered_copy 1 1 (sample_instance ''i1'' ''users''))"
    using sample_disc_wf(2) by (simp add: abs_state_def)
  moreover have "active (registered_copy 1 1 (sample_instance ''i1'' ''users''))" by code_simp
  ultimately show ?thesis
    using ghost_instance_stays [OF sample_disc_wf(1), of "sample_instance ''i1'' ''orders''"
        "registered_copy 1 1 (sample_instance ''i1'' ''users'')" 2 2 "[ADeregister ''i1'']" moved_disc "[''i1'']"]
    by (simp add: sample_instance_def is_order_def)
qed

end
