(* ===== verification/ServiceApi.thy ===== *)
theory ServiceApi
  imports Proxy Discovery
begin

text \<open>
  The handlers that manage the services and routes of the gateway at run time
  (\<open>prism/internal/features/gateway/service_api.go\<close>), and the part of the application that follows service discovery
  (\<open>startServiceWatcher\<close>, \<open>registerServiceInstance\<close>, \<open>deregisterServiceInstance\<close> in
  \<open>prism/internal/app/app.go\<close>), both over the service proxy of theory \<open>Proxy\<close>.

  A handler takes the name from the path and the decoded body (\<open>None\<close>: not JSON of the type) and gives an
  error or a status with what is written as JSON.
\<close>

section \<open>The handlers\<close>

datatype service_api_error = BadServiceJSON | NameMismatch | ProxyRefused proxy_error | ServiceNotFound

fun service_api_status :: "service_api_error \<Rightarrow> nat" where
  "service_api_status BadServiceJSON = 400"
| "service_api_status NameMismatch = 400"
| "service_api_status (ProxyRefused err) = 500"
| "service_api_status ServiceNotFound = 404"

definition listServices :: "string list \<Rightarrow> service_proxy \<Rightarrow> nat \<times> service_config list" where
  "listServices order sp = (200, Proxy.ListServices order sp)"

definition createService ::
  "(string \<Rightarrow> url option) \<Rightarrow> service_config option \<Rightarrow> service_proxy
   \<Rightarrow> (service_api_error + nat \<times> service_config) \<times> service_proxy" where
  "createService up body sp =
     (case body of
        None \<Rightarrow> (Inl BadServiceJSON, sp)
      | Some svcConfig \<Rightarrow>
          (case RegisterService up svcConfig sp of
             (sp', Some err) \<Rightarrow> (Inl (ProxyRefused err), sp')
           | (sp', None) \<Rightarrow> (Inr (201, svcConfig), sp')))"

definition getService :: "string list \<Rightarrow> string \<Rightarrow> service_proxy \<Rightarrow> service_api_error + nat \<times> service_config" where
  "getService order name sp =
     (case find (\<lambda>svc. sc_Name svc = name) (Proxy.ListServices order sp) of None \<Rightarrow> Inl ServiceNotFound | Some svc \<Rightarrow> Inr (200, svc))"

definition updateService ::
  "(string \<Rightarrow> url option) \<Rightarrow> string list \<Rightarrow> string \<Rightarrow> service_config option \<Rightarrow> service_proxy
   \<Rightarrow> (service_api_error + nat \<times> service_config) \<times> service_proxy" where
  "updateService up order name body sp =
     (case body of
        None \<Rightarrow> (Inl BadServiceJSON, sp)
      | Some svcConfig \<Rightarrow>
          if sc_Name svcConfig \<noteq> name then (Inl NameMismatch, sp)
          else (case UpdateService up order svcConfig sp of
                  (sp', Some err) \<Rightarrow> (Inl (ProxyRefused err), sp')
                | (sp', None) \<Rightarrow> (Inr (200, svcConfig), sp')))"

definition deleteService ::
  "string list \<Rightarrow> string \<Rightarrow> service_proxy \<Rightarrow> (service_api_error + nat \<times> (string \<times> string) list) \<times> service_proxy" where
  "deleteService order name sp =
     (case DeregisterService order name sp of
        (sp', Some err) \<Rightarrow> (Inl (ProxyRefused err), sp')
      | (sp', None) \<Rightarrow> (Inr (200, [(''status'', ''deleted'')]), sp'))"

definition listRoutes :: "string list \<Rightarrow> string \<Rightarrow> service_proxy \<Rightarrow> nat \<times> route_metadata list" where
  "listRoutes order filterType sp =
     (200, if filterType = ''public'' then ListPublicRoutes order sp
           else if filterType = ''protected'' then ListProtectedRoutes order sp
           else ListRoutes order sp)"

definition listServiceRoutes ::
  "string list \<Rightarrow> string \<Rightarrow> service_proxy \<Rightarrow> service_api_error + nat \<times> route_metadata list" where
  "listServiceRoutes order serviceName sp =
     (case ListServiceRoutes order serviceName sp of Inl _ \<Rightarrow> Inl ServiceNotFound | Inr routes \<Rightarrow> Inr (200, routes))"

definition addServiceRoute ::
  "string \<Rightarrow> route_config option \<Rightarrow> service_proxy \<Rightarrow> (service_api_error + nat \<times> route_config) \<times> service_proxy" where
  "addServiceRoute serviceName body sp =
     (case body of
        None \<Rightarrow> (Inl BadServiceJSON, sp)
      | Some routeConfig \<Rightarrow>
          (case RegisterServiceRoute serviceName routeConfig sp of
             (sp', Some err) \<Rightarrow> (Inl (ProxyRefused err), sp')
           | (sp', None) \<Rightarrow> (Inr (201, routeConfig), sp')))"

section \<open>Following service discovery\<close>

text \<open>\<open>itoa\<close> writes the port, \<open>pd\<close> parses durations; a key that is missing reads as the empty string.\<close>

definition instance_config ::
  "(int \<Rightarrow> string) \<Rightarrow> (string \<Rightarrow> duration option) \<Rightarrow> service_instance \<Rightarrow> service_config" where
  "instance_config itoa pd si =
     (let md = value_or_empty (si_Metadata si)
      in \<lparr>sc_Name = si_ServiceName si, sc_URL = si_Address si @ '':'' @ itoa (si_Port si),
          sc_HealthCheckPath = md ''health_check_path'', sc_RequiresAuth = (md ''requires_auth'' = ''true''),
          sc_Timeout = (if md ''timeout'' \<noteq> [] then (case pd (md ''timeout'') of Some d \<Rightarrow> d | None \<Rightarrow> 0) else 0),
          sc_RetryCount = (if md ''retry_count'' \<noteq> [] then (case Atoi (md ''retry_count'') of Some n \<Rightarrow> n | None \<Rightarrow> 0) else 0),
          sc_AllowedRoles = [],
          sc_AllowedMethods = (if md ''allowed_methods'' \<noteq> [] then Split CHR '','' (md ''allowed_methods'') else []),
          sc_Routes = []\<rparr>)"

text \<open>Both do nothing without a proxy; their errors are only logged.\<close>

definition registerServiceInstance ::
  "(string \<Rightarrow> url option) \<Rightarrow> (int \<Rightarrow> string) \<Rightarrow> (string \<Rightarrow> duration option) \<Rightarrow> service_instance
   \<Rightarrow> service_proxy option \<Rightarrow> service_proxy option" where
  "registerServiceInstance up itoa pd si proxy =
     map_option (\<lambda>sp. fst (RegisterService up (instance_config itoa pd si) sp)) proxy"

definition deregisterServiceInstance ::
  "string list \<Rightarrow> service_instance \<Rightarrow> service_proxy option \<Rightarrow> service_proxy option" where
  "deregisterServiceInstance order si proxy = map_option (\<lambda>sp. fst (DeregisterService order (si_ServiceName si) sp)) proxy"

text \<open>The start: the instances that discovery lists, if it could (\<open>listed\<close>).\<close>

definition register_listed ::
  "(string \<Rightarrow> url option) \<Rightarrow> (int \<Rightarrow> string) \<Rightarrow> (string \<Rightarrow> duration option) \<Rightarrow> service_instance list option
   \<Rightarrow> service_proxy option \<Rightarrow> service_proxy option" where
  "register_listed up itoa pd listed proxy =
     (case listed of None \<Rightarrow> proxy | Some instances \<Rightarrow> fold (registerServiceInstance up itoa pd) instances proxy)"

text \<open>One instance that comes from the channel of the watcher.\<close>

definition watch_instance ::
  "(string \<Rightarrow> url option) \<Rightarrow> (int \<Rightarrow> string) \<Rightarrow> (string \<Rightarrow> duration option) \<Rightarrow> string list \<Rightarrow> service_instance
   \<Rightarrow> service_proxy option \<Rightarrow> service_proxy option" where
  "watch_instance up itoa pd order si proxy =
     (if si_Status si = ''active'' then registerServiceInstance up itoa pd si proxy
      else deregisterServiceInstance order si proxy)"

section \<open>The services that the API shows\<close>

lemma ListServices_find:
  assumes "proxy_inv sp" "is_order order (sr_services (sp_registry sp))"
  shows "find (\<lambda>svc. sc_Name svc = name) (Proxy.ListServices order sp) = registered (sp_registry sp) name"
proof -
  let ?reg = "sp_registry sp"
  have inv: "registry_inv ?reg" using assms(1) by (simp add: proxy_inv_def)
  have named: "sc_Name (se_Config e) = k" if "mget (sr_services ?reg) k = Some e" for k e
    using inv that by (auto simp: registry_inv_def)
  have "find (\<lambda>svc. sc_Name svc = name) (List_services ks ?reg)
      = (if name \<in> set ks then registered ?reg name else None)" for ks
  proof (induction ks)
    case (Cons k ks)
    show ?case
    proof (cases "mget (sr_services ?reg) k")
      case (Some e)
      with Cons named [OF Some] show ?thesis by (auto simp: List_services_Cons registered_def Get_def)
    qed (use Cons in \<open>auto simp: List_services_Cons registered_def Get_def\<close>)
  qed (simp add: List_services_def)
  moreover have "registered ?reg name = None" if "name \<notin> set order"
    using that is_order_mem [OF assms(2), of name] by (auto simp: registered_def Get_def)
  ultimately show ?thesis by (simp add: Proxy.ListServices_def)
qed

lemma getService_exact:
  assumes "proxy_inv sp" "is_order order (sr_services (sp_registry sp))"
  shows "getService order name sp
    = (case registered (sp_registry sp) name of None \<Rightarrow> Inl ServiceNotFound | Some svc \<Rightarrow> Inr (200, svc))"
  by (simp add: getService_def ListServices_find [OF assms])

lemma createService_ok:
  assumes "createService up (Some cfg) sp = (Inr r, sp')"
  shows "r = (201, cfg) \<and> registered (sp_registry sp') = (registered (sp_registry sp))(sc_Name cfg \<mapsto> cfg)"
proof -
  from assms have "RegisterService up cfg sp = (sp', None)" "r = (201, cfg)"
    by (auto simp: createService_def split: prod.splits option.splits)
  moreover from this(1) have "snd (Register up cfg (sp_registry sp)) = None"
    "sp_registry sp' = fst (Register up cfg (sp_registry sp))"
    by (auto simp: RegisterService_def Let_def split: prod.splits option.splits)
  ultimately show ?thesis using Register_ok by simp
qed

lemma deleteService_ok:
  assumes "registered (sp_registry sp) name \<noteq> None"
  shows "deleteService order name sp = (Inr (200, [(''status'', ''deleted'')]), snd (deleteService order name sp))
    \<and> snd (deleteService order name sp) = fst (DeregisterService order name sp)
    \<and> registered (sp_registry (snd (deleteService order name sp))) = (registered (sp_registry sp))(name := None)"
proof -
  have ok: "snd (Deregister name (sp_registry sp)) = None" using assms by (simp add: Deregister_ok_iff)
  then have "DeregisterService order name sp
    = (sp\<lparr>sp_registry := fst (Deregister name (sp_registry sp)), sp_routingTable := RemoveServiceRoutes order name (sp_routingTable sp)\<rparr>, None)"
    by (cases "Deregister name (sp_registry sp)") (simp add: DeregisterService_def)
  then show ?thesis using Deregister_ok [OF ok] by (simp add: deleteService_def)
qed

section \<open>Properties\<close>

text \<open>In every state of the proxy, a service that was created with 201 is shown with 200 as it was sent, has its
  default route if it has a name, and can be deleted with 200; then it is shown no more (404) and no route of the table
  belongs to it.\<close>

lemma created_service_shown_until_deleted:
  assumes "reachable_proxy up sp" "createService up (Some cfg) sp = (Inr r, sp')"
    and "is_order order (sr_services (sp_registry sp'))" "is_order methods (rt_routes (sp_routingTable sp'))"
    and "is_order order' (sr_services (sp_registry (snd (deleteService methods (sc_Name cfg) sp'))))"
  shows "r = (201, cfg) \<and> getService order (sc_Name cfg) sp' = Inr (200, cfg)
    \<and> (sc_Name cfg \<noteq> [] \<longrightarrow> default_route cfg \<in> table_routes (sp_routingTable sp'))
    \<and> fst (deleteService methods (sc_Name cfg) sp') = Inr (200, [(''status'', ''deleted'')])
    \<and> getService order' (sc_Name cfg) (snd (deleteService methods (sc_Name cfg) sp')) = Inl ServiceNotFound
    \<and> (\<forall>route \<in> table_routes (sp_routingTable (snd (deleteService methods (sc_Name cfg) sp'))). rm_ServiceID route \<noteq> sc_Name cfg)"
proof -
  have sp': "sp' = fst (RegisterService up cfg sp)"
    using assms(2) by (auto simp: createService_def split: prod.splits option.splits)
  have inv': "proxy_inv sp'" using reachable_proxy_inv [OF assms(1)] RegisterService_inv sp' by simp
  have reg: "r = (201, cfg)" "registered (sp_registry sp') (sc_Name cfg) = Some cfg" using createService_ok [OF assms(2)] by auto
  let ?sp = "snd (deleteService methods (sc_Name cfg) sp')"
  have del: "fst (deleteService methods (sc_Name cfg) sp') = Inr (200, [(''status'', ''deleted'')])"
    "?sp = fst (DeregisterService methods (sc_Name cfg) sp')" "registered (sp_registry ?sp) (sc_Name cfg) = None"
    using deleteService_ok [of sp' "sc_Name cfg" methods] reg(2) by (auto simp: prod_eq_iff)
  have inv'': "proxy_inv ?sp" unfolding del(2) by (rule DeregisterService_inv [OF inv' assms(4)])
  show ?thesis
    using reg del inv' inv'' getService_exact [OF inv' assms(3)] getService_exact [OF inv'' assms(5)]
    by (auto simp: proxy_inv_def)
qed

text \<open>An instance whose status is not \<open>active\<close> leaves its service not registered, whatever other instances there are.\<close>

lemma inactive_instance_removes_service:
  assumes "si_Status si \<noteq> ''active''"
  shows "\<exists>sp'. watch_instance up itoa pd order si (Some sp) = Some sp' \<and> registered (sp_registry sp') (si_ServiceName si) = None"
proof (cases "registered (sp_registry sp) (si_ServiceName si)")
  case None
  then have "Deregister (si_ServiceName si) (sp_registry sp) = (sp_registry sp, Some (NotRegistered (si_ServiceName si)))"
    by (simp add: Deregister_def registered_def Get_def)
  with assms None show ?thesis by (simp add: watch_instance_def deregisterServiceInstance_def DeregisterService_def)
next
  case (Some cfg)
  with assms deleteService_ok [of sp "si_ServiceName si" order] show ?thesis
    by (auto simp: watch_instance_def deregisterServiceInstance_def)
qed

text \<open>The application compares the status with \<open>active\<close> and discovery writes \<open>ACTIVE\<close>: whenever an instance is registered
  with discovery as active, what its watchers are sent removes the service from the proxy.\<close>

lemma active_instance_removes_service:
  assumes "si_Status i = [] \<or> si_Status i = ''ACTIVE''"
    and "(ch, si) \<in> set (drop (length (ld_sends d)) (ld_sends (RegisterInstance now1 now2 i d)))"
  shows "active si \<and> (\<exists>sp'. watch_instance up itoa pd order si (Some sp) = Some sp' \<and> registered (sp_registry sp') (si_ServiceName i) = None)"
proof -
  have "si = registered_copy now1 now2 i"
    using assms(2) by (auto simp: RegisterInstance_def notifyWatchers_def Let_def set_inst_def)
  then have si: "si_Status si = ''ACTIVE''" "si_ServiceName si = si_ServiceName i" using assms(1) by (auto simp: registered_copy_def Let_def)
  then show ?thesis using inactive_instance_removes_service [of si up itoa pd order sp] by (simp add: active_def)
qed

text \<open>A second instance of a service, or a new address of it, is not registered.\<close>

lemma second_instance_ignored:
  assumes "si_Status si = ''active''" "registered (sp_registry sp) (si_ServiceName si) \<noteq> None"
  shows "watch_instance up itoa pd order si (Some sp) = Some sp"
proof -
  have "Register up (instance_config itoa pd si) (sp_registry sp) = (sp_registry sp, Some (AlreadyRegistered (si_ServiceName si)))"
    using assms(2) by (simp add: Register_def registered_def Get_def instance_config_def Let_def)
  then show ?thesis using assms(1) by (simp add: watch_instance_def registerServiceInstance_def RegisterService_def)
qed

section \<open>Witnesses\<close>

definition sample_created :: service_proxy where
  "sample_created = snd (createService sample_url_parse (Some (sample_service ''orders'')) sample_proxy)"

lemma created_service_shown_until_deleted_witness:
  "getService [''users'', ''orders''] ''orders'' sample_created = Inr (200, sample_service ''orders'')
   \<and> getService [''users''] ''orders'' (snd (deleteService [''*''] ''orders'' sample_created)) = Inl ServiceNotFound"
proof -
  let ?cfg = "sample_service ''orders''"
  have "createService sample_url_parse (Some ?cfg) sample_proxy = (Inr (201, ?cfg), sample_created)"
    unfolding sample_created_def by code_simp
  moreover have "is_order [''users'', ''orders''] (sr_services (sp_registry sample_created))"
    "is_order [''*''] (rt_routes (sp_routingTable sample_created))"
    "is_order [''users''] (sr_services (sp_registry (snd (deleteService [''*''] (sc_Name ?cfg) sample_created))))" by code_simp+
  moreover have "sc_Name ?cfg = ''orders''" by (simp add: sample_service_def)
  ultimately show ?thesis
    using created_service_shown_until_deleted [OF sample_proxy_reachable, of ?cfg "(201, ?cfg)" sample_created
      "[''users'', ''orders'']" "[''*'']" "[''users'']"] by simp
qed

definition sample_watched :: local_discovery where
  "sample_watched = snd (WatchServices [] (\<lambda>s. []) [''users''] (NewLocalDiscovery sample_config))"

lemma active_instance_removes_service_witness:
  "\<exists>sp. watch_instance sample_url_parse int_digits (\<lambda>t. None) [''*''] (registered_copy 1 1 (sample_instance ''i1'' ''users'')) (Some sample_proxy) = Some sp
     \<and> registered (sp_registry sp) ''users'' = None"
proof -
  have "si_Status (sample_instance ''i1'' ''users'') = [] \<or> si_Status (sample_instance ''i1'' ''users'') = ''ACTIVE''" by code_simp
  moreover have "(0, registered_copy 1 1 (sample_instance ''i1'' ''users''))
     \<in> set (drop (length (ld_sends sample_watched)) (ld_sends (RegisterInstance 1 1 (sample_instance ''i1'' ''users'') sample_watched)))" by code_simp
  moreover have "si_ServiceName (sample_instance ''i1'' ''users'') = ''users''" by code_simp
  ultimately show ?thesis
    using active_instance_removes_service [of "sample_instance ''i1'' ''users''" 0] by auto
qed

end
