(* ===== verification/Gateway.thy ===== *)
theory Gateway
  imports ServiceApi PolicyAgent
begin

text \<open>
  The application of the gateway: its options (\<open>prism/internal/app/options.go\<close>), its construction and start
  (\<open>app.go\<close>, \<open>server.go\<close>, \<open>routes.go\<close>, \<open>cmd/main.go\<close>), and the middleware that
  it builds from authentication and the policy agent (\<open>CreateAuthMiddleware\<close>).

  Of a part that the application only hands on, such as the Redis client, the state has whether it is
  there. What the start does with the router is the list of its calls, in order: \<open>Use\<close> adds a
  middleware, the others add endpoints. \<open>scoped\<close> gives every endpoint with the middlewares that were given to its
  router, and to those around it, before. \<open>app_outside\<close> says which of the constructors of other packages
  succeed.
\<close>

section \<open>The application\<close>

record app_config =
  ac_Services :: "service_config list"
  ac_BreakerEnabled :: bool
  ac_PolicyFilePath :: string
  ac_JWKSURL :: string
  ac_SyncEnabled :: bool
  ac_CORSOrigins :: string
  ac_UseRedisRateLimiter :: bool

record server =
  sv_rateLimiter :: bool

record app =
  ap_cfg :: "app_config option"
  ap_logger :: bool
  ap_tokenValidator :: bool
  ap_jwksFetcher :: bool
  ap_authzService :: bool
  ap_rateLimiter :: bool
  ap_srv :: "server option"
  ap_redisClient :: bool
  ap_circuitBreaker :: bool
  ap_serviceProxy :: "service_proxy option"
  ap_serviceDiscovery :: bool
  ap_auditService :: bool
  ap_auditRepo :: bool
  ap_apiKeyService :: bool
  ap_apiKeyRepo :: bool
  ap_tenantRepo :: bool
  ap_permissionRepo :: bool
  ap_rolePermissionRepo :: bool
  ap_aegisClient :: bool

datatype app_error = NilConfig | ConfigRequired | NilLogger | LoggerRequired | NilTokenValidator | NilAuthZService
  | NilRateLimiter | NilRedisClient | NilServer | NilCircuitBreaker | NilServiceProxy | NilServiceDiscovery
  | NilAuditService | NilAuditRepository | NilAPIKeyService | NilAPIKeyRepository | NilTenantRepository
  | NilPermissionRepository | NilRolePermissionRepository | OutsideFailed

record app_outside =
  ao_redis :: bool
  ao_breaker :: bool
  ao_discovery :: bool
  ao_policy :: bool

type_synonym app_option = "app \<Rightarrow> app_error + app"

definition empty_app :: app where
  "empty_app =
     \<lparr>ap_cfg = None, ap_logger = False, ap_tokenValidator = False, ap_jwksFetcher = False, ap_authzService = False,
      ap_rateLimiter = False, ap_srv = None, ap_redisClient = False, ap_circuitBreaker = False, ap_serviceProxy = None,
      ap_serviceDiscovery = False, ap_auditService = False, ap_auditRepo = False, ap_apiKeyService = False,
      ap_apiKeyRepo = False, ap_tenantRepo = False, ap_permissionRepo = False, ap_rolePermissionRepo = False,
      ap_aegisClient = False\<rparr>"

section \<open>Options\<close>

text \<open>The options that set a part; \<open>given\<close>: the argument is not nil.\<close>

definition WithConfig :: "app_config option \<Rightarrow> app_option" where
  "WithConfig cfg a = (if cfg = None then Inl NilConfig else Inr (a\<lparr>ap_cfg := cfg\<rparr>))"

definition WithLogger :: "bool \<Rightarrow> app_option" where
  "WithLogger given a = (if \<not> given then Inl NilLogger else Inr (a\<lparr>ap_logger := True\<rparr>))"

definition WithDefaultLogger :: app_option where
  "WithDefaultLogger a = (if ap_cfg a = None then Inl ConfigRequired else Inr (a\<lparr>ap_logger := True\<rparr>))"

definition WithTokenValidator :: "bool \<Rightarrow> app_option" where
  "WithTokenValidator given a = (if \<not> given then Inl NilTokenValidator else Inr (a\<lparr>ap_tokenValidator := True\<rparr>))"

definition WithRateLimiter :: "bool \<Rightarrow> app_option" where
  "WithRateLimiter given a = (if \<not> given then Inl NilRateLimiter else Inr (a\<lparr>ap_rateLimiter := True\<rparr>))"

definition WithRedisClient :: "bool \<Rightarrow> app_option" where
  "WithRedisClient given a = (if \<not> given then Inl NilRedisClient else Inr (a\<lparr>ap_redisClient := True\<rparr>))"

definition WithDefaultRedisClient :: "app_outside \<Rightarrow> app_option" where
  "WithDefaultRedisClient out a =
     (if ap_cfg a = None then Inl ConfigRequired
      else if \<not> ao_redis out then Inl OutsideFailed
      else Inr (a\<lparr>ap_redisClient := True\<rparr>))"

definition WithServer :: "server option \<Rightarrow> app_option" where
  "WithServer srv a = (if srv = None then Inl NilServer else Inr (a\<lparr>ap_srv := srv\<rparr>))"

text \<open>\<open>NewServer\<close> with no options: there is no rate limiter and no error.\<close>

definition NewServer :: server where
  "NewServer = \<lparr>sv_rateLimiter = False\<rparr>"

definition WithDefaultServer :: app_option where
  "WithDefaultServer a =
     (if ap_cfg a = None then Inl ConfigRequired
      else if \<not> ap_logger a then Inl LoggerRequired
      else Inr (a\<lparr>ap_srv := Some NewServer\<rparr>))"

definition WithAppCircuitBreaker :: "bool \<Rightarrow> app_option" where
  "WithAppCircuitBreaker given a = (if \<not> given then Inl NilCircuitBreaker else Inr (a\<lparr>ap_circuitBreaker := True\<rparr>))"

definition WithServiceProxy :: "service_proxy option \<Rightarrow> app_option" where
  "WithServiceProxy proxy a = (if proxy = None then Inl NilServiceProxy else Inr (a\<lparr>ap_serviceProxy := proxy\<rparr>))"

definition WithDefaultCircuitBreaker :: "app_outside \<Rightarrow> app_option" where
  "WithDefaultCircuitBreaker out a =
     (case ap_cfg a of
        None \<Rightarrow> Inl ConfigRequired
      | Some cfg \<Rightarrow>
          if \<not> ap_logger a then Inl LoggerRequired
          else if \<not> ac_BreakerEnabled cfg then Inr a
          else if \<not> ao_breaker out then Inl OutsideFailed
          else Inr (a\<lparr>ap_circuitBreaker := True\<rparr>))"

definition WithServiceDiscovery :: "bool \<Rightarrow> app_option" where
  "WithServiceDiscovery given a = (if \<not> given then Inl NilServiceDiscovery else Inr (a\<lparr>ap_serviceDiscovery := True\<rparr>))"

definition WithDefaultServiceDiscovery :: "app_outside \<Rightarrow> app_option" where
  "WithDefaultServiceDiscovery out a =
     (if ap_cfg a = None then Inl ConfigRequired
      else if \<not> ap_logger a then Inl LoggerRequired
      else if \<not> ao_discovery out then Inl OutsideFailed
      else Inr (a\<lparr>ap_serviceDiscovery := True\<rparr>))"

definition WithAuditService :: "bool \<Rightarrow> app_option" where
  "WithAuditService given a = (if \<not> given then Inl NilAuditService else Inr (a\<lparr>ap_auditService := True\<rparr>))"

definition WithAuditRepository :: "bool \<Rightarrow> app_option" where
  "WithAuditRepository given a = (if \<not> given then Inl NilAuditRepository else Inr (a\<lparr>ap_auditRepo := True\<rparr>))"

definition WithAPIKeyService :: "bool \<Rightarrow> app_option" where
  "WithAPIKeyService given a = (if \<not> given then Inl NilAPIKeyService else Inr (a\<lparr>ap_apiKeyService := True\<rparr>))"

definition WithAPIKeyRepository :: "bool \<Rightarrow> app_option" where
  "WithAPIKeyRepository given a = (if \<not> given then Inl NilAPIKeyRepository else Inr (a\<lparr>ap_apiKeyRepo := True\<rparr>))"

definition WithTenantRepository :: "bool \<Rightarrow> app_option" where
  "WithTenantRepository given a = (if \<not> given then Inl NilTenantRepository else Inr (a\<lparr>ap_tenantRepo := True\<rparr>))"

definition WithPermissionRepository :: "bool \<Rightarrow> app_option" where
  "WithPermissionRepository given a = (if \<not> given then Inl NilPermissionRepository else Inr (a\<lparr>ap_permissionRepo := True\<rparr>))"

definition WithRolePermissionRepository :: "bool \<Rightarrow> app_option" where
  "WithRolePermissionRepository given a =
     (if \<not> given then Inl NilRolePermissionRepository else Inr (a\<lparr>ap_rolePermissionRepo := True\<rparr>))"

definition WithAuthZService :: "bool \<Rightarrow> app_option" where
  "WithAuthZService given a = (if \<not> given then Inl NilAuthZService else Inr (a\<lparr>ap_authzService := True\<rparr>))"

text \<open>\<open>ao_policy\<close>: the policy file can be read and the adapter be built from it.\<close>

definition WithDefaultAuthZService :: "app_outside \<Rightarrow> app_option" where
  "WithDefaultAuthZService out a =
     (case ap_cfg a of
        None \<Rightarrow> Inl ConfigRequired
      | Some cfg \<Rightarrow>
          if \<not> ap_logger a then Inl LoggerRequired
          else if ac_PolicyFilePath cfg = [] then Inr a
          else if \<not> ao_policy out then Inl OutsideFailed
          else Inr (a\<lparr>ap_authzService := True\<rparr>))"

definition WithDefaultJWKSFetcher :: app_option where
  "WithDefaultJWKSFetcher a =
     (case ap_cfg a of
        None \<Rightarrow> Inl ConfigRequired
      | Some cfg \<Rightarrow> if ac_JWKSURL cfg = [] then Inr a else Inr (a\<lparr>ap_jwksFetcher := True\<rparr>))"

definition WithAegisClient :: "bool \<Rightarrow> app_option" where
  "WithAegisClient client a = Inr (a\<lparr>ap_aegisClient := client\<rparr>)"

definition WithDefaultAegisClient :: app_option where
  "WithDefaultAegisClient a =
     (case ap_cfg a of
        None \<Rightarrow> Inl ConfigRequired
      | Some cfg \<Rightarrow>
          if \<not> ac_SyncEnabled cfg then Inr a
          else if \<not> ap_logger a then Inl LoggerRequired
          else Inr (a\<lparr>ap_aegisClient := True\<rparr>))"

definition WithDefaultAuditService :: app_option where
  "WithDefaultAuditService a =
     (if \<not> ap_auditRepo a then Inl NilAuditRepository
      else if \<not> ap_logger a then Inl LoggerRequired
      else Inr (a\<lparr>ap_auditService := True\<rparr>))"

definition WithDefaultAPIKeyService :: app_option where
  "WithDefaultAPIKeyService a =
     (if \<not> ap_apiKeyRepo a then Inl NilAPIKeyRepository
      else if \<not> ap_logger a then Inl LoggerRequired
      else Inr (a\<lparr>ap_apiKeyService := True\<rparr>))"

text \<open>An option that fails leaves the application as it was.\<close>

definition try_option :: "app_option \<Rightarrow> app \<Rightarrow> app" where
  "try_option opt a = (case opt a of Inl _ \<Rightarrow> a | Inr a' \<Rightarrow> a')"

definition WithAllDefaultServices :: "app_outside \<Rightarrow> app_option" where
  "WithAllDefaultServices out a =
     Inr (fold try_option
       [WithDefaultAuditService, WithDefaultAPIKeyService, WithDefaultAuthZService out, WithDefaultServiceDiscovery out,
        WithDefaultServer, WithDefaultCircuitBreaker out, WithDefaultJWKSFetcher, WithDefaultAegisClient] a)"

text \<open>The options it collects for the proxy are not used: nothing is built.\<close>

definition WithDefaultServiceProxy :: app_option where
  "WithDefaultServiceProxy a =
     (if ap_serviceProxy a = None
      then if ap_cfg a = None then Inl NilConfig else if \<not> ap_logger a then Inl NilLogger else Inr a
      else Inr a)"

section \<open>Construction\<close>

fun apply_options :: "app_option list \<Rightarrow> app \<Rightarrow> app_error + app" where
  "apply_options [] a = Inr a"
| "apply_options (opt # opts) a = (case opt a of Inl err \<Rightarrow> Inl err | Inr a' \<Rightarrow> apply_options opts a')"

definition NewApp :: "app_outside \<Rightarrow> app_option list \<Rightarrow> app_error + app" where
  "NewApp out opts =
     (case apply_options opts empty_app of
        Inl err \<Rightarrow> Inl err
      | Inr a \<Rightarrow>
          (case ap_cfg a of
             None \<Rightarrow> Inl ConfigRequired
           | Some cfg \<Rightarrow>
               let a1 = a\<lparr>ap_logger := True\<rparr>
               in if \<not> ap_redisClient a1 \<and> \<not> ao_redis out then Inl OutsideFailed
                  else let a2 = a1\<lparr>ap_redisClient := True\<rparr>;
                           a3 = (if ap_srv a2 = None then a2\<lparr>ap_srv := Some NewServer\<rparr> else a2)
                       in Inr (if ap_serviceProxy a3 = None \<and> ac_Services cfg \<noteq> [] then try_option WithDefaultServiceProxy a3 else a3)))"

text \<open>The options of the binary, and its application.\<close>

definition main_options :: "app_outside \<Rightarrow> app_config \<Rightarrow> app_option list" where
  "main_options out cfg =
     [WithConfig (Some cfg), WithLogger True, WithAuditRepository True, WithAPIKeyRepository True, WithTenantRepository True,
      WithRedisClient True, WithAllDefaultServices out]
     @ (if ac_UseRedisRateLimiter cfg then [WithRateLimiter True] else [])"

section \<open>Start\<close>

datatype middleware = Cors | RequestID | RealIP | Recoverer | HTTPLogger | RateLimit | AuthN

datatype management = ListServicesAPI | CreateServiceAPI | GetServiceAPI | UpdateServiceAPI | DeleteServiceAPI
  | ListRoutesAPI | ListServiceRoutesAPI | AddServiceRouteAPI

datatype feature = ListAuditAPI | AggregateAuditAPI | ExportAuditAPI | GetAuditAPI
  | ListKeysAPI | CreateKeyAPI | ValidateKeyAPI | GetKeyAPI | RevokeKeyAPI | UpdateKeyAPI

datatype endpoint = Management management | Feature feature | ProxyHandler | ServicesHealth | Swagger
  | HealthCheck | Ready | PublicHealth | Metrics

datatype reg =
    Use middleware
  | Handle "string option" string endpoint
  | Route string "reg list"
  | Group "reg list"
  | Mount string endpoint

definition RegisterManagementRoutes :: "reg list" where
  "RegisterManagementRoutes =
     [Route ''/api/services''
        [Handle (Some ''GET'') ''/'' (Management ListServicesAPI), Handle (Some ''POST'') ''/'' (Management CreateServiceAPI),
         Handle (Some ''GET'') ''/{name}'' (Management GetServiceAPI), Handle (Some ''PUT'') ''/{name}'' (Management UpdateServiceAPI),
         Handle (Some ''DELETE'') ''/{name}'' (Management DeleteServiceAPI)],
      Route ''/api/routes''
        [Handle (Some ''GET'') ''/'' (Management ListRoutesAPI), Handle (Some ''GET'') ''/{service}'' (Management ListServiceRoutesAPI),
         Handle (Some ''POST'') ''/{service}'' (Management AddServiceRouteAPI)]]"

definition RegisterAuditRoutes :: "reg list" where
  "RegisterAuditRoutes =
     [Route ''/audit''
        [Handle (Some ''GET'') ''/'' (Feature ListAuditAPI), Handle (Some ''GET'') ''/aggregate/{groupBy}'' (Feature AggregateAuditAPI),
         Handle (Some ''GET'') ''/export'' (Feature ExportAuditAPI), Handle (Some ''GET'') ''/{auditID}'' (Feature GetAuditAPI)]]"

definition RegisterApiKeyRoutes :: "reg list" where
  "RegisterApiKeyRoutes =
     [Route ''/apikey''
        [Handle (Some ''GET'') ''/'' (Feature ListKeysAPI), Handle (Some ''POST'') ''/'' (Feature CreateKeyAPI),
         Handle (Some ''POST'') ''/validate'' (Feature ValidateKeyAPI), Handle (Some ''GET'') ''/{apikeyID}'' (Feature GetKeyAPI),
         Handle (Some ''DELETE'') ''/{apikeyID}'' (Feature RevokeKeyAPI), Handle (Some ''PUT'') ''/{apikeyID}/metadata'' (Feature UpdateKeyAPI)]]"

definition setupHealthChecks :: "reg list" where
  "setupHealthChecks = [Handle (Some ''GET'') ''/health'' HealthCheck, Handle (Some ''GET'') ''/ready'' Ready]"

definition server_Start :: "server \<Rightarrow> (string \<times> endpoint) list \<Rightarrow> (string \<times> endpoint) list \<Rightarrow> reg list" where
  "server_Start srv publicHandlers protectedHandlers =
     (if sv_rateLimiter srv then [Use RateLimit] else []) @ setupHealthChecks
     @ map (\<lambda>(path, h). Mount path h) publicHandlers @ map (\<lambda>(path, h). Mount path h) protectedHandlers
     @ [Handle None ''/metrics'' Metrics]"

text \<open>The parts that the start adds to the application itself, the proxy once more included.\<close>

definition start_parts :: "app \<Rightarrow> app" where
  "start_parts a =
     (let a1 = (if \<not> ap_tokenValidator a \<and> ap_jwksFetcher a then a\<lparr>ap_tokenValidator := True\<rparr> else a)
      in if ap_serviceProxy a1 = None \<and> (case ap_cfg a1 of Some cfg \<Rightarrow> ac_Services cfg \<noteq> [] | None \<Rightarrow> False)
         then try_option WithDefaultServiceProxy a1 else a1)"

definition feature_regs :: "app \<Rightarrow> reg list" where
  "feature_regs a =
     (let routes = (if ap_auditService a then RegisterAuditRoutes else []) @ (if ap_apiKeyService a then RegisterApiKeyRoutes else [])
      in if ap_tokenValidator a then [Group (Use AuthN # routes)] else routes)"

definition Start :: "app \<Rightarrow> reg list" where
  "Start a0 =
     (let a = start_parts a0
      in (if (case ap_cfg a of Some cfg \<Rightarrow> ac_CORSOrigins cfg \<noteq> [] | None \<Rightarrow> False) then [Use Cors] else [])
         @ [Use RequestID, Use RealIP, Use Recoverer, Use HTTPLogger]
         @ (if ap_serviceProxy a \<noteq> None
            then RegisterManagementRoutes @ [Handle None ''/*'' ProxyHandler, Handle None ''/api/services-health'' ServicesHealth]
            else [])
         @ feature_regs a
         @ [Handle (Some ''GET'') ''/swagger/*'' Swagger]
         @ (case ap_srv a of Some srv \<Rightarrow> server_Start srv [(''/health'', PublicHealth)] [] | None \<Rightarrow> []))"

text \<open>The checkers behind \<open>/ready\<close>, and its answer; \<open>keys\<close>, \<open>synced\<close>: what the fetcher and the client report.\<close>

definition readinessCheckers :: "app \<Rightarrow> bool \<Rightarrow> bool \<Rightarrow> bool list" where
  "readinessCheckers a keys synced = (if ap_jwksFetcher a then [keys] else []) @ (if ap_aegisClient a then [synced] else [])"

definition ready_handler :: "bool list \<Rightarrow> write_call list" where
  "ready_handler checkers =
     (if list_ex (\<lambda>ready. \<not> ready) checkers then [WriteHeader 503, Write ''{\"status\":\"not ready\"}'']
      else [WriteHeader 200, Write ''{\"status\":\"ready\"}''])"

text \<open>Adding a route from the application, with its default priority.\<close>

definition app_RegisterServiceRoute ::
  "string \<Rightarrow> string \<Rightarrow> string \<Rightarrow> bool \<Rightarrow> string list \<Rightarrow> app \<Rightarrow> (app_error + proxy_error option) \<times> app" where
  "app_RegisterServiceRoute serviceName path mthd isPublic requiredScopes a =
     (case ap_serviceProxy a of
        None \<Rightarrow> (Inl NilServiceProxy, a)
      | Some sp \<Rightarrow>
          (case RegisterServiceRoute serviceName
                  \<lparr>rc_Path = path, rc_Method = mthd, rc_Public = isPublic, rc_RequiredScopes = requiredScopes, rc_Priority = 10\<rparr> sp of
             (sp', err) \<Rightarrow> (Inr err, a\<lparr>ap_serviceProxy := Some sp'\<rparr>)))"

definition RegisterPublicRoute :: "string \<Rightarrow> string \<Rightarrow> string \<Rightarrow> app \<Rightarrow> (app_error + proxy_error option) \<times> app" where
  "RegisterPublicRoute serviceName path mthd = app_RegisterServiceRoute serviceName path mthd True []"

definition RegisterProtectedRoute ::
  "string \<Rightarrow> string \<Rightarrow> string \<Rightarrow> string list \<Rightarrow> app \<Rightarrow> (app_error + proxy_error option) \<times> app" where
  "RegisterProtectedRoute serviceName path mthd requiredScopes = app_RegisterServiceRoute serviceName path mthd False requiredScopes"

section \<open>Authentication and policy\<close>

text \<open>\<open>torder\<close>: the order of the loop over the tenants of the user.\<close>

definition extractAuthZInput :: "uuid list \<Rightarrow> request \<Rightarrow> string list \<Rightarrow> gvalue option" where
  "extractAuthZInput torder r requiredPermissions =
     (case UserContextDataFromContext r of
        None \<Rightarrow> None
      | Some userData \<Rightarrow>
          (let pathParts = Split CHR ''/'' (rq_Path r);
               resourceType = (if length pathParts > 2 then pathParts ! 2 else ''unknown'');
               resourceID = (if length pathParts > 3 then pathParts ! 3 else [])
           in Some (GMap
                [(''user'', GMap [(''id'', GStr (ucd_UserID userData)),
                                  (''roles'', GStrings (case GetTenantIDsAsStrings torder (ucd_Roles userData) of None \<Rightarrow> [] | Some ts \<Rightarrow> ts))]),
                 (''request'', GMap [(''path'', GStr (rq_Path r)), (''method'', GStr (rq_Method r))]),
                 (''resource'', GMap [(''type'', GStr resourceType), (''id'', GStr resourceID)]),
                 (''permissions'', GStrings requiredPermissions)])))"

text \<open>
  The middleware has no revocation checker. The state of its handler is the agent and what \<open>next\<close> works on;
  \<open>hasAuthz\<close>: there is an authorization service.
\<close>

definition authorize_user ::
  "'p outside \<Rightarrow> 'x cache_ops \<Rightarrow> reading \<Rightarrow> uuid list \<Rightarrow> bool \<Rightarrow> string list \<Rightarrow> 'w handler \<Rightarrow> (('p, 'x) agent \<times> 'w) handler" where
  "authorize_user ou ops rd torder hasAuthz requiredPermissions next r aw =
     (let served = (\<lambda>ag. case next r (snd aw) of (calls, w') \<Rightarrow> (calls, (ag, w')))
      in if length requiredPermissions > 0 \<and> hasAuthz
         then (case extractAuthZInput torder r requiredPermissions of
                 None \<Rightarrow> (http_error ''Unauthorized'' 401, aw)
               | Some input \<Rightarrow>
                   (case Evaluate ou ops rd input (fst aw) of
                      (Inl err, ag) \<Rightarrow> (http_error ''Forbidden'' 403, (ag, snd aw))
                    | (Inr d, ag) \<Rightarrow>
                        if de_Allowed d then served ag
                        else (case served ag of (calls, aw') \<Rightarrow> (http_error (''Forbidden: '' @ de_Reason d) 403 @ calls, aw'))))
         else served (fst aw))"

definition CreateAuthMiddleware ::
  "'p outside \<Rightarrow> 'x cache_ops \<Rightarrow> reading \<Rightarrow> uuid list \<Rightarrow> 'key auth_middleware \<Rightarrow> time \<Rightarrow> bool \<Rightarrow> string list \<Rightarrow> 'w handler
   \<Rightarrow> (('p, 'x) agent \<times> 'w) handler" where
  "CreateAuthMiddleware ou ops rd torder amw now hasAuthz requiredPermissions next =
     Authenticate (amw\<lparr>am_revocation := None\<rparr>) now (authorize_user ou ops rd torder hasAuthz requiredPermissions next)"

section \<open>Which middlewares an endpoint has\<close>

fun scoped :: "middleware list \<Rightarrow> reg list \<Rightarrow> (endpoint \<times> middleware list) list" where
  "scoped ms [] = []"
| "scoped ms (Use m # rs) = scoped (ms @ [m]) rs"
| "scoped ms (Handle mthd p e # rs) = (e, ms) # scoped ms rs"
| "scoped ms (Route p qs # rs) = scoped ms qs @ scoped ms rs"
| "scoped ms (Group qs # rs) = scoped ms qs @ scoped ms rs"
| "scoped ms (Mount p e # rs) = (e, ms) # scoped ms rs"

fun is_Use :: "reg \<Rightarrow> bool" where
  "is_Use (Use m) = True"
| "is_Use _ = False"

lemma scoped_append:
  "scoped ms (rs @ qs) = scoped ms rs @ scoped (ms @ map (\<lambda>r. case r of Use m \<Rightarrow> m) (filter is_Use rs)) qs"
  by (induction ms rs rule: scoped.induct) auto

lemmas reg_defs = RegisterManagementRoutes_def RegisterAuditRoutes_def RegisterApiKeyRoutes_def setupHealthChecks_def server_Start_def

lemma start_parts_validator: "ap_tokenValidator (start_parts a) \<longleftrightarrow> ap_tokenValidator a \<or> ap_jwksFetcher a"
  by (auto simp: start_parts_def try_option_def WithDefaultServiceProxy_def Let_def split: sum.splits if_splits)

lemma start_parts_proxy: "ap_serviceProxy (start_parts a) = ap_serviceProxy a"
  by (auto simp: start_parts_def try_option_def WithDefaultServiceProxy_def Let_def split: sum.splits if_splits)

lemma start_parts_srv: "ap_srv (start_parts a) = ap_srv a"
  by (auto simp: start_parts_def try_option_def WithDefaultServiceProxy_def Let_def split: sum.splits if_splits)

lemma Start_scoped:
  "\<exists>ms. AuthN \<notin> set ms \<and> RateLimit \<notin> set ms \<and>
     scoped [] (Start a) =
       (if ap_serviceProxy a \<noteq> None
        then scoped ms (RegisterManagementRoutes @ [Handle None ''/*'' ProxyHandler, Handle None ''/api/services-health'' ServicesHealth]) else [])
       @ scoped ms (feature_regs (start_parts a)) @ [(Swagger, ms)]
       @ (case ap_srv a of Some srv \<Rightarrow> scoped ms (server_Start srv [(''/health'', PublicHealth)] []) | None \<Rightarrow> [])"
proof -
  let ?a = "start_parts a"
  let ?us = "(if (case ap_cfg ?a of Some cfg \<Rightarrow> ac_CORSOrigins cfg \<noteq> [] | None \<Rightarrow> False) then [Cors] else []) @ [RequestID, RealIP, Recoverer, HTTPLogger]"
  have "filter is_Use (feature_regs ?a) = []"
    by (simp add: feature_regs_def Let_def RegisterAuditRoutes_def RegisterApiKeyRoutes_def)
  then have "scoped [] (Start a) =
       (if ap_serviceProxy a \<noteq> None
        then scoped ?us (RegisterManagementRoutes @ [Handle None ''/*'' ProxyHandler, Handle None ''/api/services-health'' ServicesHealth]) else [])
       @ scoped ?us (feature_regs ?a) @ [(Swagger, ?us)]
       @ (case ap_srv a of Some srv \<Rightarrow> scoped ?us (server_Start srv [(''/health'', PublicHealth)] []) | None \<Rightarrow> [])"
    by (auto simp: Start_def scoped_append start_parts_proxy start_parts_srv RegisterManagementRoutes_def Let_def split: option.split)
  moreover have "AuthN \<notin> set ?us \<and> RateLimit \<notin> set ?us" by auto
  ultimately show ?thesis by blast
qed

section \<open>What the options build\<close>

text \<open>The proxy, the configuration and the Redis client stay, and a new server has no rate limiter.\<close>

definition keeps :: "app \<Rightarrow> app \<Rightarrow> bool" where
  "keeps a a' \<longleftrightarrow> ap_serviceProxy a' = ap_serviceProxy a \<and> ap_cfg a' = ap_cfg a \<and> ap_redisClient a' = ap_redisClient a
     \<and> (ap_srv a' = ap_srv a \<or> ap_srv a' = Some NewServer)"

lemma keeps_trans: "keeps a b \<Longrightarrow> keeps b c \<Longrightarrow> keeps a c"
  by (auto simp: keeps_def)

definition proxy_free :: "app_option \<Rightarrow> bool" where
  "proxy_free opt \<longleftrightarrow> (\<forall>a a'. opt a = Inr a' \<longrightarrow> keeps a a')"

lemmas option_defs = WithConfig_def WithLogger_def WithAuditRepository_def WithAPIKeyRepository_def WithTenantRepository_def
  WithRedisClient_def WithRateLimiter_def WithDefaultAuditService_def WithDefaultAPIKeyService_def WithDefaultAuthZService_def
  WithDefaultServiceDiscovery_def WithDefaultServer_def WithDefaultCircuitBreaker_def WithDefaultJWKSFetcher_def
  WithDefaultAegisClient_def

lemma default_options_proxy_free:
  "list_all proxy_free [WithDefaultAuditService, WithDefaultAPIKeyService, WithDefaultAuthZService out, WithDefaultServiceDiscovery out,
     WithDefaultServer, WithDefaultCircuitBreaker out, WithDefaultJWKSFetcher, WithDefaultAegisClient]"
  by (auto simp: proxy_free_def keeps_def option_defs split: option.splits if_splits)

lemma try_options_proxy_free:
  assumes "list_all proxy_free opts"
  shows "keeps a (fold try_option opts a)"
  using assms
proof (induction opts arbitrary: a)
  case (Cons opt opts)
  have "keeps a (try_option opt a)" using Cons.prems by (auto simp: try_option_def proxy_free_def keeps_def split: sum.split)
  with Cons show ?case using keeps_trans by simp
qed (simp add: keeps_def)

lemma main_app:
  "\<exists>a. NewApp out (main_options out cfg) = Inr a \<and> ap_serviceProxy a = None \<and> ap_srv a = Some NewServer"
proof -
  let ?a0 = "empty_app\<lparr>ap_cfg := Some cfg, ap_logger := True, ap_auditRepo := True, ap_apiKeyRepo := True, ap_tenantRepo := True, ap_redisClient := True\<rparr>"
  let ?a1 = "fold try_option [WithDefaultAuditService, WithDefaultAPIKeyService, WithDefaultAuthZService out, WithDefaultServiceDiscovery out,
     WithDefaultServer, WithDefaultCircuitBreaker out, WithDefaultJWKSFetcher, WithDefaultAegisClient] ?a0"
  have a1: "ap_serviceProxy ?a1 = None" "ap_srv ?a1 = None \<or> ap_srv ?a1 = Some NewServer"
    and keep: "ap_cfg ?a1 = Some cfg" "ap_redisClient ?a1"
    using try_options_proxy_free [OF default_options_proxy_free, of ?a0 out] by (auto simp: keeps_def empty_app_def simp del: fold.simps)
  have "apply_options (main_options out cfg) empty_app
    = Inr (if ac_UseRedisRateLimiter cfg then ?a1\<lparr>ap_rateLimiter := True\<rparr> else ?a1)"
    by (simp add: main_options_def option_defs(1-7) WithAllDefaultServices_def del: fold.simps)
  with a1 keep show ?thesis
    by (auto simp: NewApp_def Let_def try_option_def WithDefaultServiceProxy_def simp del: fold.simps)
qed

section \<open>Properties\<close>


text \<open>C14: In every application, exactly the endpoints of the audit log and the API keys are registered behind
  authentication, and these if and only if there is a token validator or a key fetcher; the endpoints that manage
  services and routes never are.\<close>

theorem authenticated_endpoints_exact:
  "list_all (\<lambda>(e, ms). AuthN \<in> set ms \<longleftrightarrow> e \<in> range Feature \<and> (ap_tokenValidator a \<or> ap_jwksFetcher a)) (scoped [] (Start a))"
proof -
  obtain ms where ms: "AuthN \<notin> set ms" and s: "scoped [] (Start a) =
       (if ap_serviceProxy a \<noteq> None
        then scoped ms (RegisterManagementRoutes @ [Handle None ''/*'' ProxyHandler, Handle None ''/api/services-health'' ServicesHealth]) else [])
       @ scoped ms (feature_regs (start_parts a)) @ [(Swagger, ms)]
       @ (case ap_srv a of Some srv \<Rightarrow> scoped ms (server_Start srv [(''/health'', PublicHealth)] []) | None \<Rightarrow> [])"
    using Start_scoped [of a] by blast
  have "list_all (\<lambda>(e, ms). AuthN \<in> set ms \<longleftrightarrow> e \<in> range Feature \<and> (ap_tokenValidator a \<or> ap_jwksFetcher a))
      (scoped ms (feature_regs (start_parts a)))"
    using ms start_parts_validator [of a] by (simp add: feature_regs_def Let_def reg_defs)
  with ms show ?thesis
    by (auto simp: s reg_defs split: option.split)
qed

text \<open>C23: A request with a valid token is served by the handler behind \<open>CreateAuthMiddleware\<close> whatever the policy
  decides: if the decision is to refuse, the client gets 403 with the reason, and the handler runs with all its
  effects, after which its output is appended.\<close>

theorem denied_request_served:
  assumes "ExtractTokenFromHeader r \<noteq> []"
    and "ValidateToken (am_parse amw) (am_keys amw) now (ExtractTokenFromHeader r) = Inr claims"
    and "extractAuthZInput torder (ContextWithUserContextData (GetUserContextData claims) r) perms = Some input"
    and "Evaluate ou ops rd input ag = (Inr d, ag')" and "\<not> de_Allowed d" and "perms \<noteq> []"
    and "next (ContextWithUserContextData (GetUserContextData claims) r) w = (calls, w')"
  shows "CreateAuthMiddleware ou ops rd torder amw now True perms next r (ag, w)
      = (http_error (''Forbidden: '' @ de_Reason d) 403 @ calls, (ag', w'))"
  using assms by (simp add: CreateAuthMiddleware_def Authenticate_def authorize_user_def Let_def)

text \<open>With a rate limiter the server calls \<open>Use\<close> on a router that has endpoints, which the router answers with a panic.\<close>

lemma rate_limiter_used_late:
  assumes "ap_srv a = Some srv" "sv_rateLimiter srv"
  shows "\<exists>before behind. Start a = before @ Use RateLimit # behind \<and> Handle (Some ''GET'') ''/swagger/*'' Swagger \<in> set before"
proof -
  define front where "front = (if (case ap_cfg (start_parts a) of Some cfg \<Rightarrow> ac_CORSOrigins cfg \<noteq> [] | None \<Rightarrow> False) then [Use Cors] else [])
         @ [Use RequestID, Use RealIP, Use Recoverer, Use HTTPLogger]
         @ (if ap_serviceProxy (start_parts a) \<noteq> None
            then RegisterManagementRoutes @ [Handle None ''/*'' ProxyHandler, Handle None ''/api/services-health'' ServicesHealth]
            else [])
         @ feature_regs (start_parts a) @ [Handle (Some ''GET'') ''/swagger/*'' Swagger]"
  have "Start a = front @ Use RateLimit # tl (server_Start srv [(''/health'', PublicHealth)] [])"
    using assms by (simp add: Start_def front_def Let_def start_parts_srv server_Start_def)
  moreover have "Handle (Some ''GET'') ''/swagger/*'' Swagger \<in> set front" by (simp add: front_def)
  ultimately show ?thesis by blast
qed

section \<open>Witnesses\<close>

definition denying_agent :: "(bool, decision memory_cache) agent" where
  "denying_agent = snd (UpdatePolicies sample_outside memory_ops 7 [(''authz'', ''deny'')] sample_agent)"

definition count_request :: "nat handler" where
  "count_request r n = ([Write ''served''], n + 1)"

theorem denied_request_served_witness:
  "\<exists>ag reason. CreateAuthMiddleware sample_outside memory_ops sample_reading [''t1''] sample_auth 50 True [''users:write''] count_request
     (bearer_request ''good'') (denying_agent, 0) = (http_error (''Forbidden: '' @ reason) 403 @ [Write ''served''], (ag, 1))"
proof -
  let ?r = "bearer_request ''good''" and ?c = "sample_claims"
  let ?r' = "ContextWithUserContextData (GetUserContextData ?c) ?r"
  let ?in = "extractAuthZInput [''t1''] ?r' [''users:write'']"
  have t: "ExtractTokenFromHeader ?r \<noteq> []" "ValidateToken (am_parse sample_auth) (am_keys sample_auth) 50 (ExtractTokenFromHeader ?r) = Inr ?c"
    "?in \<noteq> None" by code_simp+
  obtain input where i: "?in = Some input" using t(3) by blast
  have e: "(case Evaluate sample_outside memory_ops sample_reading (the ?in) denying_agent of (Inr d, ag) \<Rightarrow> \<not> de_Allowed d | _ \<Rightarrow> False)"
    by code_simp
  then obtain d ag where "Evaluate sample_outside memory_ops sample_reading input denying_agent = (Inr d, ag)" "\<not> de_Allowed d"
    unfolding i by (auto split: prod.splits sum.splits)
  then show ?thesis
    using denied_request_served [OF t(1,2) i, of sample_outside memory_ops sample_reading denying_agent d ag count_request 0 "[Write ''served'']" 1]
    by (auto simp: count_request_def)
qed

end
