(* ===== verification/Schemas.thy ===== *)
theory Schemas
  imports Discovery
begin

text \<open>
  The schema manager of the gateway (\<open>prism/internal/features/schema/service_schema_registry.go\<close>): it keeps the
  \<open>.proto\<close> files that the schema registry has, and serves every method that they describe as a path.

  The state is the directory of the files, the parsed descriptors, the paths and one client per service. The
  registry, \<open>protoc\<close>, the dynamic messages and the connections are arguments (\<open>schema_env\<close>), as are the orders
  of the loops over maps. Events of the registry carry a schema. A path of the file system is in the form that \<open>filepath.Clean\<close> gives it; the directory is
  neither \<open>.\<close> nor \<open>/\<close>.
\<close>

section \<open>Paths of files\<close>

fun clean_seg :: "bool \<Rightarrow> string \<Rightarrow> string list \<Rightarrow> string list" where
  "clean_seg rooted seg stack =
     (if seg = [] \<or> seg = ''.'' then stack
      else if seg = ''..''
      then (case stack of
              [] \<Rightarrow> if rooted then [] else [''..'']
            | s # ss \<Rightarrow> if s = ''..'' then ''..'' # stack else ss)
      else seg # stack)"

definition Clean :: "string \<Rightarrow> string" where
  "Clean path =
     (let rooted = HasPrefix path ''/'';
          segs = rev (fold (clean_seg rooted) (Split CHR ''/'' path) []);
          text = (if rooted then ''/'' else []) @ Join ''/'' segs
      in if text = [] then ''.'' else text)"

definition path_Join :: "string list \<Rightarrow> string" where
  "path_Join elems =
     (let es = filter (\<lambda>e. e \<noteq> []) elems in if es = [] then [] else Clean (Join ''/'' es))"

section \<open>State\<close>

record method_desc =
  md_Name :: string
  md_FullName :: string
  md_Input :: string
  md_Output :: string

record service_desc =
  sd_FullName :: string
  sd_Methods :: "method_desc list"

record file_desc =
  fd_Path :: string
  fd_Services :: "service_desc list"

record 'c dynamic_client =
  dy_ServiceDesc :: service_desc
  dy_Conn :: "'c option"
  dy_Methods :: "(string, method_desc) gomap"
  dy_MessageTypes :: "(string, string) gomap"
  dy_IsReflectionEnabled :: bool

record endpoint_info =
  ei_Method :: string
  ei_Path :: string
  ei_ServiceName :: string
  ei_MethodName :: string
  ei_PathParams :: "string list"

record 'c schema_manager =
  sm_protoDir :: string
  sm_disk :: "(string, string) gomap"
  sm_fileDescriptors :: "(string, file_desc) gomap"
  sm_dynamicClients :: "(string, 'c dynamic_client) gomap"
  sm_endpoints :: "(string, endpoint_info) gomap"
  sm_closed :: "'c list"

record schema =
  sh_Id :: string
  sh_ServiceName :: string
  sh_Name :: string
  sh_Content :: string

record schema_bundle =
  bu_ServiceName :: string
  bu_SchemaIds :: "string list"

text \<open>
  \<open>se_bundles\<close>, \<open>se_schemas\<close>: the answers of the registry; \<open>se_writable\<close>, \<open>se_removable\<close>, \<open>se_walk\<close>: the file system;
  \<open>se_protoc\<close>: the descriptors of the files, if they can be compiled and linked; \<open>se_dial\<close>, \<open>se_reflects\<close>: a connection
  and whether its server takes a request for reflection; \<open>se_new\<close>, \<open>se_params\<close>, \<open>se_body\<close>: messages of a type, empty and from
  JSON; \<open>se_invoke\<close>: a call and the JSON of its result.
\<close>

record ('c, 'm) schema_env =
  se_bundles :: "string \<Rightarrow> schema_bundle list option"
  se_schemas :: "string \<Rightarrow> schema list option"
  se_writable :: "string \<Rightarrow> bool"
  se_removable :: "string \<Rightarrow> bool"
  se_walk :: bool
  se_protoc :: "(string \<times> string) list \<Rightarrow> file_desc list option"
  se_dial :: "string \<Rightarrow> 'c option"
  se_reflects :: "'c \<Rightarrow> bool"
  se_new :: "string \<Rightarrow> 'm"
  se_params :: "string \<Rightarrow> (string, string) gomap \<Rightarrow> 'm option"
  se_body :: "string \<Rightarrow> string \<Rightarrow> 'm option"
  se_invoke :: "'c \<Rightarrow> string \<Rightarrow> 'm \<Rightarrow> string option"

datatype schema_error = EndpointNotFound | SchemaServiceMissing string | SchemaMethodMissing string | BadParams | BadBody
  | InvokeFailed | ListServicesFailed | WalkFailed | ProtocFailed | ListInstancesFailed | DialFailed | NoDefinition string
  | NotConnected | NoReflection | BodyUnreadable

definition NewSchemaManager :: "string \<Rightarrow> 'c schema_manager" where
  "NewSchemaManager protoDir =
     \<lparr>sm_protoDir = protoDir, sm_disk = [], sm_fileDescriptors = [], sm_dynamicClients = [], sm_endpoints = [], sm_closed = []\<rparr>"

section \<open>Requests\<close>

definition extractServiceName :: "string \<Rightarrow> string" where
  "extractServiceName fqn = (let parts = Split CHR ''.'' fqn in if length parts > 0 then last parts else fqn)"

fun match_parts :: "string list \<Rightarrow> string list \<Rightarrow> (string, string) gomap \<Rightarrow> (string, string) gomap option" where
  "match_parts [] pathParts params = Some params"
| "match_parts (part # parts) pathParts params =
     (if HasPrefix part ''{'' \<and> HasSuffix part ''}''
      then match_parts parts (tl pathParts) (mput (take (length part - 2) (drop 1 part)) (hd pathParts) params)
      else if part \<noteq> hd pathParts then None
      else match_parts parts (tl pathParts) params)"

definition matchPathPattern :: "string \<Rightarrow> string \<Rightarrow> (string, string) gomap option" where
  "matchPathPattern pattern path =
     (let patternParts = Split CHR ''/'' (Trim CHR ''/'' pattern);
          pathParts = Split CHR ''/'' (Trim CHR ''/'' path)
      in if length patternParts \<noteq> length pathParts then None else match_parts patternParts pathParts [])"

definition normalize_request_path :: "string \<Rightarrow> string" where
  "normalize_request_path path =
     (let p = (if \<not> HasPrefix path ''/'' then CHR ''/'' # path else path)
      in if length p > 1 \<and> HasSuffix p ''/'' then take (length p - 1) p else p)"

text \<open>The loop over the paths, in the order \<open>keys\<close>.\<close>

fun match_endpoints ::
  "string \<Rightarrow> string \<Rightarrow> (string, endpoint_info) gomap \<Rightarrow> string list \<Rightarrow> (endpoint_info \<times> (string, string) gomap) option" where
  "match_endpoints mthd path endpoints [] = None"
| "match_endpoints mthd path endpoints (epKey # keys) =
     (case mget endpoints epKey of
        None \<Rightarrow> match_endpoints mthd path endpoints keys
      | Some endpoint \<Rightarrow>
          if HasPrefix epKey (mthd @ '' '')
          then (case matchPathPattern (TrimPrefix epKey (mthd @ '' '')) path of
                  Some params \<Rightarrow> Some (endpoint, params)
                | None \<Rightarrow> match_endpoints mthd path endpoints keys)
          else match_endpoints mthd path endpoints keys)"

definition findEndpoint ::
  "string list \<Rightarrow> string \<Rightarrow> string \<Rightarrow> 'c schema_manager \<Rightarrow> schema_error + endpoint_info \<times> (string, string) gomap" where
  "findEndpoint order mthd path0 sm =
     (let path = normalize_request_path path0
      in case mget (sm_endpoints sm) (mthd @ '' '' @ path) of
           Some endpoint \<Rightarrow> Inr (endpoint, [])
         | None \<Rightarrow>
             (case match_endpoints mthd path (sm_endpoints sm) order of
                Some r \<Rightarrow> Inr r
              | None \<Rightarrow> Inl EndpointNotFound))"

text \<open>The first client, in the order of the loop, whose service has that name.\<close>

definition client_named :: "string list \<Rightarrow> string \<Rightarrow> 'c schema_manager \<Rightarrow> (string \<times> 'c dynamic_client) option" where
  "client_named order name sm =
     (case find (\<lambda>fqn. mget (sm_dynamicClients sm) fqn \<noteq> None \<and> extractServiceName fqn = name) order of
        None \<Rightarrow> None
      | Some fqn \<Rightarrow> map_option (Pair fqn) (mget (sm_dynamicClients sm) fqn))"

text \<open>The message of a request; a body resets what the parameters have set.\<close>

definition request_message ::
  "('c, 'm) schema_env \<Rightarrow> string \<Rightarrow> (string, string) gomap \<Rightarrow> string \<Rightarrow> schema_error + 'm" where
  "request_message env inputType params body =
     (case (if length params > 0 then se_params env inputType params else Some (se_new env inputType)) of
        None \<Rightarrow> Inl BadParams
      | Some msg \<Rightarrow>
          if length body > 0 then (case se_body env inputType body of None \<Rightarrow> Inl BadBody | Some msg' \<Rightarrow> Inr msg')
          else Inr msg)"

text \<open>The outcome, \<open>None\<close> for a panic, and the call that was made, if any. A client with no connection makes it panic.\<close>

definition processRequest ::
  "('c, 'm) schema_env \<Rightarrow> string list \<Rightarrow> endpoint_info \<Rightarrow> (string, string) gomap \<Rightarrow> string \<Rightarrow> 'c schema_manager
   \<Rightarrow> (schema_error + string) option \<times> ('c \<times> string \<times> 'm) option" where
  "processRequest env order endpoint params body sm =
     (case client_named order (ei_ServiceName endpoint) sm of
        None \<Rightarrow> (Some (Inl (SchemaServiceMissing (ei_ServiceName endpoint))), None)
      | Some (fqn, client) \<Rightarrow>
          (case mget (dy_Methods client) (ei_MethodName endpoint) of
             None \<Rightarrow> (Some (Inl (SchemaMethodMissing (ei_MethodName endpoint))), None)
           | Some m \<Rightarrow>
               (case request_message env (md_Input m) params body of
                  Inl err \<Rightarrow> (Some (Inl err), None)
                | Inr msg \<Rightarrow>
                    (case dy_Conn client of
                       None \<Rightarrow> (None, None)
                     | Some conn \<Rightarrow>
                         (case se_invoke env conn (md_FullName m) msg of
                            None \<Rightarrow> (Some (Inl InvokeFailed), Some (conn, md_FullName m, msg))
                          | Some responseData \<Rightarrow> (Some (Inr responseData), Some (conn, md_FullName m, msg)))))))"

text \<open>The handler under \<open>/api/v1\<close>; \<open>body\<close>: \<open>None\<close> if it cannot be read. A panic leaves no reply of the handler.\<close>

definition api_handler ::
  "('c, 'm) schema_env \<Rightarrow> string list \<Rightarrow> string list \<Rightarrow> string \<Rightarrow> string \<Rightarrow> string option \<Rightarrow> 'c schema_manager
   \<Rightarrow> (nat \<times> (schema_error + string)) option \<times> ('c \<times> string \<times> 'm) option" where
  "api_handler env order corder mthd path body sm =
     (case findEndpoint order mthd path sm of
        Inl err \<Rightarrow> (Some (404, Inl err), None)
      | Inr (endpoint, params) \<Rightarrow>
          (case body of
             None \<Rightarrow> (Some (400, Inl BodyUnreadable), None)
           | Some b \<Rightarrow>
               (case processRequest env corder endpoint params b sm of
                  (None, c) \<Rightarrow> (None, c)
                | (Some (Inl err), c) \<Rightarrow> (Some (500, Inl err), c)
                | (Some (Inr responseData), c) \<Rightarrow> (Some (200, Inr responseData), c))))"

section \<open>Synchronisation\<close>

definition schema_path :: "'c schema_manager \<Rightarrow> schema \<Rightarrow> string" where
  "schema_path sm s = path_Join [sm_protoDir sm, sh_ServiceName s, sh_Name s]"

text \<open>Whether the schema was written.\<close>

definition save_schema :: "('c, 'm) schema_env \<Rightarrow> schema \<Rightarrow> 'c schema_manager \<Rightarrow> bool \<times> 'c schema_manager" where
  "save_schema env s sm =
     (let protoPath = schema_path sm s
      in if se_writable env protoPath then (True, sm\<lparr>sm_disk := mput protoPath (sh_Content s) (sm_disk sm)\<rparr>) else (False, sm))"

text \<open>The loop over the schemas for one identifier; it ends with the first that is written.\<close>

fun save_by_id :: "('c, 'm) schema_env \<Rightarrow> string \<Rightarrow> schema list \<Rightarrow> 'c schema_manager \<Rightarrow> 'c schema_manager" where
  "save_by_id env schemaID [] sm = sm"
| "save_by_id env schemaID (s # schemas) sm =
     (if sh_Id s = schemaID
      then (case save_schema env s sm of
              (True, sm') \<Rightarrow> sm'
            | (False, sm') \<Rightarrow> save_by_id env schemaID schemas sm')
      else save_by_id env schemaID schemas sm)"

definition fetch_bundle :: "('c, 'm) schema_env \<Rightarrow> string \<Rightarrow> 'c schema_manager \<Rightarrow> 'c schema_manager" where
  "fetch_bundle env name sm =
     (case se_bundles env name of
        None \<Rightarrow> sm
      | Some [] \<Rightarrow> sm
      | Some (bnd # _) \<Rightarrow>
          fold (\<lambda>schemaID sm.
            case se_schemas env (bu_ServiceName bnd) of None \<Rightarrow> sm | Some schemas \<Rightarrow> save_by_id env schemaID schemas sm)
            (bu_SchemaIds bnd) sm)"

text \<open>The files under the directory, by their path in it, in the order in which they are walked.\<close>

definition rel_path :: "string \<Rightarrow> string \<Rightarrow> string option" where
  "rel_path dir path = (if HasPrefix path (Clean dir @ ''/'') then Some (drop (length (Clean dir) + 1) path) else None)"

definition protoFiles :: "'c schema_manager \<Rightarrow> (string \<times> string) list" where
  "protoFiles sm =
     List.map_filter (\<lambda>(path, content).
       if HasSuffix path ''.proto'' then map_option (\<lambda>rel. (rel, content)) (rel_path (sm_protoDir sm) path) else None) (sm_disk sm)"

text \<open>The descriptors are cleared first, also when it fails.\<close>

definition parseProtoFiles :: "('c, 'm) schema_env \<Rightarrow> 'c schema_manager \<Rightarrow> schema_error option \<times> 'c schema_manager" where
  "parseProtoFiles env sm0 =
     (let sm = sm0\<lparr>sm_fileDescriptors := []\<rparr>
      in if \<not> se_walk env then (Some WalkFailed, sm)
         else if length (protoFiles sm) = 0 then (None, sm)
         else (case se_protoc env (protoFiles sm) of
                 None \<Rightarrow> (Some ProtocFailed, sm)
               | Some fds \<Rightarrow> (None, sm\<lparr>sm_fileDescriptors := fold (\<lambda>fd. mput (fd_Path fd) fd) fds []\<rparr>)))"

definition endpoint_path :: "string \<Rightarrow> string \<Rightarrow> string" where
  "endpoint_path serviceName methodName = ''/api/v1/'' @ ToLower serviceName @ ''/'' @ ToLower methodName"

definition path_params :: "string \<Rightarrow> string list" where
  "path_params path =
     map (\<lambda>part. take (length part - 2) (drop 1 part))
       (filter (\<lambda>part. HasPrefix part ''{'' \<and> HasSuffix part ''}'') (Split CHR ''/'' path))"

definition endpoint_of :: "service_desc \<Rightarrow> method_desc \<Rightarrow> endpoint_info" where
  "endpoint_of service m =
     (let serviceName = extractServiceName (sd_FullName service); path = endpoint_path serviceName (md_Name m)
      in \<lparr>ei_Method = ''GET'', ei_Path = path, ei_ServiceName = serviceName, ei_MethodName = md_Name m, ei_PathParams = path_params path\<rparr>)"

text \<open>The endpoints in the order in which they are stored; \<open>order\<close>: that of the loop over the files.\<close>

definition described :: "string list \<Rightarrow> (string, file_desc) gomap \<Rightarrow> (service_desc \<times> method_desc) list" where
  "described order fds =
     concat (map (\<lambda>path. case mget fds path of
        None \<Rightarrow> []
      | Some fd \<Rightarrow> concat (map (\<lambda>service. map (Pair service) (sd_Methods service)) (fd_Services fd))) order)"

definition extractEndpoints :: "string list \<Rightarrow> 'c schema_manager \<Rightarrow> 'c schema_manager" where
  "extractEndpoints order sm =
     sm\<lparr>sm_endpoints := fold (\<lambda>(service, m). mput (''GET '' @ ei_Path (endpoint_of service m)) (endpoint_of service m))
          (described order (sm_fileDescriptors sm)) []\<rparr>"

definition client_of :: "service_desc \<Rightarrow> 'c dynamic_client" where
  "client_of service =
     \<lparr>dy_ServiceDesc = service, dy_Conn = None,
      dy_Methods = fold (\<lambda>m. mput (md_Name m) m) (sd_Methods service) [],
      dy_MessageTypes = fold (\<lambda>m. mput (md_Output m) (md_Output m) \<circ> mput (md_Input m) (md_Input m)) (sd_Methods service) [],
      dy_IsReflectionEnabled = False\<rparr>"

definition services_of :: "string list \<Rightarrow> (string, file_desc) gomap \<Rightarrow> service_desc list" where
  "services_of order fds = concat (map (\<lambda>path. case mget fds path of None \<Rightarrow> [] | Some fd \<Rightarrow> fd_Services fd) order)"

definition connectToServiceInstance ::
  "('c, 'm) schema_env \<Rightarrow> (int \<Rightarrow> string) \<Rightarrow> string list \<Rightarrow> service_instance \<Rightarrow> 'c schema_manager
   \<Rightarrow> schema_error option \<times> 'c schema_manager" where
  "connectToServiceInstance env itoa order i sm =
     (case client_named order (si_ServiceName i) sm of
        None \<Rightarrow> (Some (NoDefinition (si_ServiceName i)), sm)
      | Some (fqn, client) \<Rightarrow>
          (case se_dial env (si_Address i @ '':'' @ itoa (si_Port i)) of
             None \<Rightarrow> (Some DialFailed, sm)
           | Some conn \<Rightarrow>
               (None, sm\<lparr>sm_dynamicClients := mput fqn (client\<lparr>dy_Conn := Some conn, dy_IsReflectionEnabled := se_reflects env conn\<rparr>)
                          (sm_dynamicClients sm)\<rparr>)))"

text \<open>\<open>order\<close> is that of the files, \<open>corder\<close> that of the clients for each instance; \<open>listed\<close>: the instances of discovery.\<close>

definition createDynamicClients ::
  "('c, 'm) schema_env \<Rightarrow> (int \<Rightarrow> string) \<Rightarrow> string list \<Rightarrow> (service_instance \<Rightarrow> string list) \<Rightarrow> service_instance list option
   \<Rightarrow> 'c schema_manager \<Rightarrow> schema_error option \<times> 'c schema_manager" where
  "createDynamicClients env itoa order corder listed sm =
     (let sm1 = sm\<lparr>sm_closed := sm_closed sm @ List.map_filter dy_Conn (mvals (sm_dynamicClients sm)),
                   sm_dynamicClients := fold (\<lambda>service. mput (sd_FullName service) (client_of service))
                     (services_of order (sm_fileDescriptors sm)) []\<rparr>
      in case listed of
           None \<Rightarrow> (Some ListInstancesFailed, sm1)
         | Some instances \<Rightarrow> (None, fold (\<lambda>i sm. snd (connectToServiceInstance env itoa (corder i) i sm)) instances sm1))"

text \<open>Parsing, paths and clients, each only if the one before succeeds.\<close>

definition refresh ::
  "('c, 'm) schema_env \<Rightarrow> (int \<Rightarrow> string) \<Rightarrow> string list \<Rightarrow> string list \<Rightarrow> (service_instance \<Rightarrow> string list) \<Rightarrow> service_instance list option
   \<Rightarrow> 'c schema_manager \<Rightarrow> schema_error option \<times> 'c schema_manager" where
  "refresh env itoa order order' corder listed sm =
     (case parseProtoFiles env sm of
        (Some err, sm1) \<Rightarrow> (Some err, sm1)
      | (None, sm1) \<Rightarrow> createDynamicClients env itoa order' corder listed (extractEndpoints order sm1))"

text \<open>\<open>services\<close>: the names that discovery lists.\<close>

definition SyncSchemas ::
  "('c, 'm) schema_env \<Rightarrow> (int \<Rightarrow> string) \<Rightarrow> string list \<Rightarrow> string list \<Rightarrow> (service_instance \<Rightarrow> string list) \<Rightarrow> service_instance list option
   \<Rightarrow> string list option \<Rightarrow> 'c schema_manager \<Rightarrow> schema_error option \<times> 'c schema_manager" where
  "SyncSchemas env itoa order order' corder listed services sm =
     (case services of
        None \<Rightarrow> (Some ListServicesFailed, sm)
      | Some names \<Rightarrow> refresh env itoa order order' corder listed (fold (fetch_bundle env) names sm))"

section \<open>Events\<close>

datatype schema_event = SchemaCREATED schema | SchemaUPDATED schema | SchemaDELETED schema

definition watchSchemas ::
  "('c, 'm) schema_env \<Rightarrow> (int \<Rightarrow> string) \<Rightarrow> string list \<Rightarrow> string list \<Rightarrow> (service_instance \<Rightarrow> string list) \<Rightarrow> service_instance list option
   \<Rightarrow> schema_event \<Rightarrow> 'c schema_manager \<Rightarrow> 'c schema_manager" where
  "watchSchemas env itoa order order' corder listed event sm =
     (let written = (\<lambda>s. case save_schema env s sm of
                       (False, sm1) \<Rightarrow> sm1
                     | (True, sm1) \<Rightarrow> snd (refresh env itoa order order' corder listed sm1))
      in case event of
           SchemaCREATED s \<Rightarrow> written s
         | SchemaUPDATED s \<Rightarrow> written s
         | SchemaDELETED s \<Rightarrow>
             (let protoPath = schema_path sm s;
                  sm1 = (if se_removable env protoPath then sm\<lparr>sm_disk := mdel protoPath (sm_disk sm)\<rparr> else sm)
              in snd (refresh env itoa order order' corder listed sm1)))"

definition drop_connections :: "string \<Rightarrow> 'c schema_manager \<Rightarrow> 'c schema_manager" where
  "drop_connections name sm =
     sm\<lparr>sm_closed := sm_closed sm @ List.map_filter (\<lambda>(fqn, c). if extractServiceName fqn = name then dy_Conn c else None) (sm_dynamicClients sm),
        sm_dynamicClients := map (\<lambda>(fqn, c). (fqn, if extractServiceName fqn = name then c\<lparr>dy_Conn := None\<rparr> else c)) (sm_dynamicClients sm)\<rparr>"

definition watchServices ::
  "('c, 'm) schema_env \<Rightarrow> (int \<Rightarrow> string) \<Rightarrow> string list \<Rightarrow> (service_instance \<Rightarrow> string list) \<Rightarrow> service_instance list option
   \<Rightarrow> service_instance \<Rightarrow> 'c schema_manager \<Rightarrow> 'c schema_manager" where
  "watchServices env itoa order corder listed i sm =
     (if si_Status i = ''REGISTERED'' \<or> si_Status i = ''ACTIVE'' then snd (connectToServiceInstance env itoa (corder i) i sm)
      else if si_Status i = ''DEREGISTERED'' \<or> si_Status i = ''INACTIVE''
      then snd (createDynamicClients env itoa order corder listed (drop_connections (si_ServiceName i) sm))
      else sm)"

section \<open>What the manager reports\<close>

definition connected :: "'c schema_manager \<Rightarrow> string list" where
  "connected sm = List.map_filter (\<lambda>(fqn, c). map_option (\<lambda>_. fqn) (dy_Conn c)) (sm_dynamicClients sm)"

text \<open>The counts of files, services, connected services and endpoints.\<close>

definition GetHealth :: "'c schema_manager \<Rightarrow> nat \<times> nat \<times> nat \<times> nat" where
  "GetHealth sm = (length (sm_fileDescriptors sm), length (sm_dynamicClients sm), length (connected sm), length (sm_endpoints sm))"

definition listed_services :: "'c schema_manager \<Rightarrow> (string \<times> string) list" where
  "listed_services sm = map (\<lambda>fqn. (extractServiceName fqn, ''v1'')) (connected sm)"

definition listed_endpoints :: "'c schema_manager \<Rightarrow> endpoint_info list \<times> nat" where
  "listed_endpoints sm = (mvals (sm_endpoints sm), length (sm_endpoints sm))"

text \<open>Service and name of a schema from its path.\<close>

definition listed_schemas :: "'c schema_manager \<Rightarrow> (string \<times> string \<times> string) list" where
  "listed_schemas sm =
     map (\<lambda>(rel, content).
       let parts = Split CHR ''/'' rel
       in if length parts > 1 then (parts ! 0, last parts, content) else ([], parts ! 0, content)) (protoFiles sm)"

text \<open>\<open>answers\<close>: whether the server answers the list of services. The descriptors it then sends are only logged.\<close>

definition introspectService ::
  "string list \<Rightarrow> ('c \<Rightarrow> bool) \<Rightarrow> string \<Rightarrow> 'c schema_manager \<Rightarrow> schema_error option" where
  "introspectService order answers serviceName sm =
     (case client_named order serviceName sm of
        None \<Rightarrow> Some NotConnected
      | Some (fqn, client) \<Rightarrow>
          (case dy_Conn client of
             None \<Rightarrow> Some NotConnected
           | Some conn \<Rightarrow>
               if \<not> dy_IsReflectionEnabled client then Some NoReflection
               else if \<not> answers conn then Some InvokeFailed else None))"

definition UpdateServiceFromReflection ::
  "string list \<Rightarrow> ('c \<Rightarrow> bool) \<Rightarrow> string \<Rightarrow> 'c schema_manager \<Rightarrow> schema_error option" where
  "UpdateServiceFromReflection order answers serviceName sm = introspectService order answers serviceName sm"

definition Stop :: "'c schema_manager \<Rightarrow> 'c schema_manager" where
  "Stop sm = sm\<lparr>sm_closed := sm_closed sm @ List.map_filter dy_Conn (mvals (sm_dynamicClients sm))\<rparr>"

section \<open>Matching\<close>

lemma match_parts_plain:
  "length parts = length pathParts \<Longrightarrow> list_all (\<lambda>part. \<not> HasPrefix part ''{'') parts
   \<Longrightarrow> match_parts parts pathParts params = (if parts = pathParts then Some params else None)"
proof (induction parts pathParts arbitrary: params rule: list_induct2')
  case (4 part parts q qs)
  then show ?case by (cases "part = q") simp_all
qed simp_all

lemma Split_inj: "Split c s = Split c t \<Longrightarrow> s = t"
  by (metis Join_Split)

lemma set_Trim: "x \<in> set (Trim c s) \<Longrightarrow> x \<in> set s"
  unfolding Trim_def using set_dropWhileD by (metis set_rev)

lemma Split_set: "w \<in> set (Split c s) \<Longrightarrow> set w \<subseteq> set s"
proof (induction s arbitrary: w)
  case (Cons a s)
  obtain v vs where sp: "Split c s = v # vs" by (cases "Split c s") auto
  have "set v \<subseteq> set s" "\<forall>u \<in> set vs. set u \<subseteq> set s" using Cons.IH sp by auto
  then show ?case using Cons.prems sp by (auto split: if_splits)
qed simp

lemma matchPathPattern_plain:
  assumes "CHR ''{'' \<notin> set pattern"
  shows "matchPathPattern pattern path = (if Trim CHR ''/'' pattern = Trim CHR ''/'' path then Some [] else None)"
proof -
  let ?p = "Split CHR ''/'' (Trim CHR ''/'' pattern)" and ?q = "Split CHR ''/'' (Trim CHR ''/'' path)"
  have plain: "list_all (\<lambda>part. \<not> HasPrefix part ''{'') ?p"
    unfolding list_all_iff
  proof
    fix part
    assume "part \<in> set ?p"
    then have "CHR ''{'' \<notin> set part" using Split_set set_Trim assms by blast
    then show "\<not> HasPrefix part ''{''" by (cases part) auto
  qed
  show ?thesis
  proof (cases "Trim CHR ''/'' pattern = Trim CHR ''/'' path")
    case True
    then show ?thesis using match_parts_plain [OF refl plain] by (simp add: matchPathPattern_def)
  next
    case False
    then have "?p \<noteq> ?q" using Split_inj by blast
    then show ?thesis using False match_parts_plain [OF _ plain, of ?q] by (simp add: matchPathPattern_def Let_def)
  qed
qed

lemma Trim_last [simp]: "Trim c (s @ [c]) = Trim c s"
proof (cases "set s \<subseteq> {c}")
  case True
  then show ?thesis using Trim_all [of s c] Trim_all [of "s @ [c]" c] by simp
next
  case False
  then have "dropWhile (\<lambda>x. x = c) (s @ [c]) = dropWhile (\<lambda>x. x = c) s @ [c]" by (auto simp: dropWhile_append)
  then show ?thesis by (simp add: Trim_def)
qed

lemma Trim_cut: "HasSuffix p ''/'' \<Longrightarrow> Trim CHR ''/'' (take (length p - 1) p) = Trim CHR ''/'' p"
  by (auto simp: HasSuffix_iff)

lemma Trim_normalize [simp]: "Trim CHR ''/'' (normalize_request_path path) = Trim CHR ''/'' path"
proof -
  define p where "p = (if \<not> HasPrefix path ''/'' then CHR ''/'' # path else path)"
  have "Trim CHR ''/'' (normalize_request_path path) = Trim CHR ''/'' p"
    using Trim_cut [of p] by (simp add: normalize_request_path_def p_def [symmetric] Let_def)
  then show ?thesis by (simp add: p_def)
qed

section \<open>Invariants\<close>

text \<open>Names as the compiler of the files has them: identifiers, with dots in the names of services.\<close>

definition plain_name :: "string \<Rightarrow> bool" where
  "plain_name s \<longleftrightarrow> s \<noteq> [] \<and> (\<forall>c \<in> set s. c \<notin> set ''/{} '')"

definition plain_method :: "service_desc \<Rightarrow> method_desc \<Rightarrow> bool" where
  "plain_method service m \<longleftrightarrow> plain_name (extractServiceName (sd_FullName service)) \<and> plain_name (md_Name m)"

definition plain_file :: "file_desc \<Rightarrow> bool" where
  "plain_file fd \<longleftrightarrow> (\<forall>service \<in> set (fd_Services fd). \<forall>m \<in> set (sd_Methods service). plain_method service m)"

definition protoc_names :: "('c, 'm) schema_env \<Rightarrow> bool" where
  "protoc_names env \<longleftrightarrow> (\<forall>files fds. se_protoc env files = Some fds \<longrightarrow> list_all plain_file fds)"

definition files_ok :: "'c schema_manager \<Rightarrow> bool" where
  "files_ok sm \<longleftrightarrow> (\<forall>path fd. mget (sm_fileDescriptors sm) path = Some fd \<longrightarrow> plain_file fd)"

definition endpoints_ok :: "'c schema_manager \<Rightarrow> bool" where
  "endpoints_ok sm \<longleftrightarrow> (\<forall>key e. mget (sm_endpoints sm) key = Some e \<longrightarrow>
     plain_name (ei_ServiceName e) \<and> plain_name (ei_MethodName e)
     \<and> key = ''GET '' @ endpoint_path (ei_ServiceName e) (ei_MethodName e))"

definition client_ok :: "string \<Rightarrow> 'c dynamic_client \<Rightarrow> bool" where
  "client_ok fqn c \<longleftrightarrow> sd_FullName (dy_ServiceDesc c) = fqn
     \<and> (\<forall>name m. mget (dy_Methods c) name = Some m \<longrightarrow> m \<in> set (sd_Methods (dy_ServiceDesc c)) \<and> md_Name m = name)"

definition clients_ok :: "'c schema_manager \<Rightarrow> bool" where
  "clients_ok sm \<longleftrightarrow> (\<forall>fqn c. mget (sm_dynamicClients sm) fqn = Some c \<longrightarrow> client_ok fqn c)"

definition schemas_ok :: "'c schema_manager \<Rightarrow> bool" where
  "schemas_ok sm \<longleftrightarrow> files_ok sm \<and> endpoints_ok sm \<and> clients_ok sm"

lemma schemas_ok_new: "schemas_ok (NewSchemaManager dir)"
  by (simp add: schemas_ok_def NewSchemaManager_def files_ok_def endpoints_ok_def clients_ok_def)

lemma schemas_ok_disk [simp]: "schemas_ok (sm\<lparr>sm_disk := d\<rparr>) = schemas_ok sm"
  by (simp add: schemas_ok_def files_ok_def endpoints_ok_def clients_ok_def)

lemma save_schema_ok: "schemas_ok (snd (save_schema env s sm)) = schemas_ok sm"
  by (simp add: save_schema_def Let_def)

lemma save_by_id_ok: "schemas_ok (save_by_id env i schemas sm) = schemas_ok sm"
proof (induction schemas arbitrary: sm)
  case (Cons s schemas)
  obtain b sm' where sv: "save_schema env s sm = (b, sm')" by fastforce
  with save_schema_ok [of env s sm] have "schemas_ok sm' = schemas_ok sm" by simp
  with Cons sv show ?case by (cases b) simp_all
qed simp

lemma fetch_bundle_ok: "schemas_ok sm \<Longrightarrow> schemas_ok (fetch_bundle env name sm)"
proof -
  have "schemas_ok sm \<Longrightarrow> schemas_ok (fold (\<lambda>schemaID sm.
      case se_schemas env n of None \<Rightarrow> sm | Some schemas \<Rightarrow> save_by_id env schemaID schemas sm) ids sm)" for n ids
    by (induction ids arbitrary: sm) (auto simp: save_by_id_ok split: option.splits)
  then show "schemas_ok sm \<Longrightarrow> schemas_ok (fetch_bundle env name sm)"
    unfolding fetch_bundle_def by (auto split: option.split list.split)
qed

lemma parse_ok:
  assumes "protoc_names env" "schemas_ok sm"
  shows "schemas_ok (snd (parseProtoFiles env sm))"
proof -
  have "plain_file fd" if "se_protoc env files = Some fds" "mget (fold (\<lambda>fd. mput (fd_Path fd) fd) fds []) path = Some fd" for files fds path fd
    using mget_fold_mput [OF that(2)] assms(1) that(1) by (auto simp: protoc_names_def list_all_iff)
  with assms(2) show ?thesis
    unfolding parseProtoFiles_def Let_def
    by (auto simp: schemas_ok_def files_ok_def endpoints_ok_def clients_ok_def split: option.splits)
qed

lemma described_iff:
  "(service, m) \<in> set (described order fds) \<longleftrightarrow>
     (\<exists>path \<in> set order. \<exists>fd. mget fds path = Some fd \<and> service \<in> set (fd_Services fd) \<and> m \<in> set (sd_Methods service))"
  by (simp add: described_def) (fastforce simp: eq_commute)

lemma extract_ok:
  assumes "schemas_ok sm"
  shows "schemas_ok (extractEndpoints order sm)"
proof -
  have "plain_name (ei_ServiceName e) \<and> plain_name (ei_MethodName e) \<and> key = ''GET '' @ endpoint_path (ei_ServiceName e) (ei_MethodName e)"
    if e: "mget (sm_endpoints (extractEndpoints order sm)) key = Some e" for key e
  proof -
    from e obtain service m where sm: "(service, m) \<in> set (described order (sm_fileDescriptors sm))"
      and k: "key = ''GET '' @ ei_Path (endpoint_of service m)" "e = endpoint_of service m"
      by (auto simp: extractEndpoints_def case_prod_unfold dest!: mget_fold_mput)
    from sm assms have "plain_method service m" by (auto simp: described_iff schemas_ok_def files_ok_def plain_file_def)
    with k show ?thesis by (simp add: plain_method_def endpoint_of_def Let_def)
  qed
  with assms show ?thesis
    by (simp add: schemas_ok_def files_ok_def endpoints_ok_def clients_ok_def) (simp add: extractEndpoints_def)
qed

lemma client_of_ok: "client_ok (sd_FullName service) (client_of service)"
  unfolding client_ok_def client_of_def by (auto dest!: mget_fold_mput)

lemma clients_of_ok: "mget (fold (\<lambda>service. mput (sd_FullName service) (client_of service)) services []) fqn = Some c \<Longrightarrow> client_ok fqn c"
  by (auto dest!: mget_fold_mput simp: client_of_ok)

lemma client_named_Some:
  assumes "client_named order name sm = Some (fqn, c)"
  shows "mget (sm_dynamicClients sm) fqn = Some c" "extractServiceName fqn = name"
  using assms unfolding client_named_def by (auto split: option.splits simp: find_Some_iff)

lemma client_ok_conn [simp]: "client_ok fqn (c\<lparr>dy_Conn := conn\<rparr>) = client_ok fqn c"
  "client_ok fqn (c\<lparr>dy_IsReflectionEnabled := r\<rparr>) = client_ok fqn c"
  by (simp_all add: client_ok_def)

lemma connect_ok:
  assumes "schemas_ok sm"
  shows "schemas_ok (snd (connectToServiceInstance env itoa order i sm))"
proof -
  have "client_ok fqn c" if "client_named order (si_ServiceName i) sm = Some (fqn, c)" for fqn c
    using client_named_Some(1) [OF that] assms by (simp add: schemas_ok_def clients_ok_def)
  then show ?thesis
    using assms unfolding connectToServiceInstance_def
    by (auto simp: schemas_ok_def files_ok_def endpoints_ok_def clients_ok_def mget_mput split: option.splits)
qed

lemma connect_all_ok:
  "schemas_ok sm \<Longrightarrow> schemas_ok (fold (\<lambda>i sm. snd (connectToServiceInstance env itoa (corder i) i sm)) instances sm)"
  by (induction instances arbitrary: sm) (simp_all add: connect_ok)

lemma create_ok:
  assumes "schemas_ok sm"
  shows "schemas_ok (snd (createDynamicClients env itoa order corder listed sm))"
proof -
  have "schemas_ok (sm\<lparr>sm_closed := xs, sm_dynamicClients := fold (\<lambda>service. mput (sd_FullName service) (client_of service)) services []\<rparr>)" for xs services
    using assms clients_of_ok by (auto simp: schemas_ok_def files_ok_def endpoints_ok_def clients_ok_def)
  then show ?thesis
    unfolding createDynamicClients_def Let_def by (auto intro: connect_all_ok split: option.split)
qed

lemma refresh_ok: "protoc_names env \<Longrightarrow> schemas_ok sm \<Longrightarrow> schemas_ok (snd (refresh env itoa order order' corder listed sm))"
  using parse_ok [of env sm] unfolding refresh_def by (auto intro!: create_ok extract_ok split: prod.splits option.splits)

lemma mget_map_values: "mget (map (\<lambda>(k, v). (k, f k v)) m) k = map_option (f k) (mget m k)"
  by (induction m) auto

lemma drop_connections_ok: "schemas_ok sm \<Longrightarrow> schemas_ok (drop_connections name sm)"
  by (auto simp: drop_connections_def schemas_ok_def files_ok_def endpoints_ok_def clients_ok_def mget_map_values)

section \<open>Runs\<close>

text \<open>The states that a synchronisation, the events of both watchers, and connecting lead to.\<close>

inductive schema_reach :: "('c, 'm) schema_env \<Rightarrow> (int \<Rightarrow> string) \<Rightarrow> 'c schema_manager \<Rightarrow> bool" for env itoa where
  reach_new: "schema_reach env itoa (NewSchemaManager dir)"
| reach_sync: "schema_reach env itoa sm \<Longrightarrow> schema_reach env itoa (snd (SyncSchemas env itoa order order' corder listed services sm))"
| reach_schema: "schema_reach env itoa sm \<Longrightarrow> schema_reach env itoa (watchSchemas env itoa order order' corder listed event sm)"
| reach_service: "schema_reach env itoa sm \<Longrightarrow> schema_reach env itoa (watchServices env itoa order corder listed i sm)"
| reach_stop: "schema_reach env itoa sm \<Longrightarrow> schema_reach env itoa (Stop sm)"

lemma sync_ok:
  assumes "protoc_names env" "schemas_ok sm"
  shows "schemas_ok (snd (SyncSchemas env itoa order order' corder listed services sm))"
proof -
  have "schemas_ok sm \<Longrightarrow> schemas_ok (fold (fetch_bundle env) names sm)" for names
    by (induction names arbitrary: sm) (auto intro: fetch_bundle_ok)
  with assms show ?thesis unfolding SyncSchemas_def by (auto intro: refresh_ok split: option.split)
qed

lemma watch_schema_ok:
  assumes "protoc_names env" "schemas_ok sm"
  shows "schemas_ok (watchSchemas env itoa order order' corder listed event sm)"
proof -
  have "schemas_ok (case save_schema env s sm of (False, sm1) \<Rightarrow> sm1 | (True, sm1) \<Rightarrow> snd (refresh env itoa order order' corder listed sm1))" for s
    using save_schema_ok [of env s sm] assms by (auto intro: refresh_ok split: prod.split bool.split)
  moreover have "schemas_ok (snd (refresh env itoa order order' corder listed (if b then sm\<lparr>sm_disk := d\<rparr> else sm)))" for b d
    using assms by (intro refresh_ok) auto
  ultimately show ?thesis unfolding watchSchemas_def Let_def by (simp split: schema_event.split)
qed

lemma reach_ok: "schema_reach env itoa sm \<Longrightarrow> protoc_names env \<Longrightarrow> schemas_ok sm"
proof (induction rule: schema_reach.induct)
  case (reach_service sm order corder listed i)
  then show ?case unfolding watchServices_def by (auto intro: connect_ok create_ok drop_connections_ok)
next
  case (reach_stop sm)
  then show ?case by (simp add: Stop_def schemas_ok_def files_ok_def endpoints_ok_def clients_ok_def)
qed (auto intro: schemas_ok_new sync_ok watch_schema_ok)

section \<open>Finding a path\<close>

lemma lower_char_other:
  assumes "lower_char c = d" "of_char d < (97 :: nat) \<or> of_char d > (122 :: nat)"
  shows "c = d"
proof (cases "65 \<le> (of_char c :: nat) \<and> of_char c \<le> (90 :: nat)")
  case True
  then have "of_char (lower_char c) = (of_char c + 32 :: nat)" by (simp add: lower_char_def Let_def of_char_of)
  with True assms show ?thesis by auto
next
  case False
  then have "lower_char c = c" by (simp only: lower_char_def Let_def if_False)
  with assms show ?thesis by simp
qed

lemma ToLower_plain:
  assumes "plain_name s" "d \<in> set ''/{} ''"
  shows "d \<notin> set (ToLower s)"
proof
  assume "d \<in> set (ToLower s)"
  then obtain c where c: "c \<in> set s" "lower_char c = d" by (auto simp: ToLower_def)
  have "of_char d < (97 :: nat) \<or> of_char d > (122 :: nat)" using assms(2) by auto
  with c have "d \<in> set s" using lower_char_other [of c d] by simp
  with assms show False unfolding plain_name_def by blast
qed

lemma endpoint_path_plain:
  assumes "plain_name s" "plain_name m"
  shows "CHR ''{'' \<notin> set (endpoint_path s m)"
  using ToLower_plain [OF assms(1), of "CHR ''{''"] ToLower_plain [OF assms(2), of "CHR ''{''"] by (simp add: endpoint_path_def)

lemma method_of_key:
  assumes "CHR '' '' \<notin> set mthd" "mthd @ '' '' @ p = ''GET '' @ q"
  shows "mthd = ''GET'' \<and> p = q"
proof -
  have "takeWhile (\<lambda>c. c \<noteq> CHR '' '') (mthd @ '' '' @ p) = mthd" using assms(1) by (subst takeWhile_append2) auto
  then have "mthd = ''GET''" unfolding assms(2) by simp
  with assms(2) show ?thesis by simp
qed

lemma match_endpoints_Some:
  assumes "match_endpoints mthd path endpoints keys = Some (e, params)"
  obtains key where "mget endpoints key = Some e" "HasPrefix key (mthd @ '' '')"
    "matchPathPattern (TrimPrefix key (mthd @ '' '')) path = Some params"
  using assms by (induction mthd path endpoints keys rule: match_endpoints.induct) (auto split: option.splits if_splits)

lemma findEndpoint_sound:
  assumes "endpoints_ok sm" "CHR '' '' \<notin> set mthd" "findEndpoint order mthd path sm = Inr (e, params)"
  shows "mthd = ''GET'' \<and> params = [] \<and> Trim CHR ''/'' path = Trim CHR ''/'' (endpoint_path (ei_ServiceName e) (ei_MethodName e))"
proof -
  let ?path = "normalize_request_path path" and ?ep = "endpoint_path (ei_ServiceName e) (ei_MethodName e)"
  show ?thesis
  proof (cases "mget (sm_endpoints sm) (mthd @ '' '' @ ?path)")
    case (Some e')
    with assms(3) have e: "e' = e" "params = []" by (simp_all add: findEndpoint_def Let_def)
    with Some assms(1) have "mthd @ '' '' @ ?path = ''GET '' @ ?ep" unfolding endpoints_ok_def by blast
    from method_of_key [OF assms(2) this] e(2) show ?thesis using Trim_normalize [of path] by simp
  next
    case None
    with assms(3) have "match_endpoints mthd ?path (sm_endpoints sm) order = Some (e, params)"
      by (auto simp: findEndpoint_def Let_def split: option.splits)
    then obtain key where key: "mget (sm_endpoints sm) key = Some e" "HasPrefix key (mthd @ '' '')"
      "matchPathPattern (TrimPrefix key (mthd @ '' '')) ?path = Some params" by (rule match_endpoints_Some)
    from key(1) assms(1) have k: "key = ''GET '' @ ?ep" and pl: "CHR ''{'' \<notin> set ?ep"
      using endpoint_path_plain unfolding endpoints_ok_def by blast+
    from key(2) obtain q where "key = mthd @ '' '' @ q" by (auto simp: HasPrefix_iff)
    with k have "mthd = ''GET''" using method_of_key [OF assms(2), of q ?ep] by simp
    moreover from this have "TrimPrefix key (mthd @ '' '') = ?ep" using k TrimPrefix_append [of "''GET ''" ?ep] by simp
    ultimately show ?thesis using key(3) by (simp add: matchPathPattern_plain [OF pl] split: if_splits)
  qed
qed

lemma processRequest_call:
  assumes "clients_ok sm" "processRequest env order e params body sm = (r, Some (conn, full, msg))"
  obtains service :: service_desc and m where "m \<in> set (sd_Methods service)" "md_FullName m = full" "md_Name m = ei_MethodName e"
    "extractServiceName (sd_FullName service) = ei_ServiceName e"
proof -
  from assms(2) obtain fqn c m where c: "client_named order (ei_ServiceName e) sm = Some (fqn, c)"
    and m: "mget (dy_Methods c) (ei_MethodName e) = Some m" "md_FullName m = full"
    unfolding processRequest_def by (auto split: option.splits sum.splits)
  from client_named_Some [OF c] assms(1) have "client_ok fqn c" "extractServiceName fqn = ei_ServiceName e" by (auto simp: clients_ok_def)
  with m have "m \<in> set (sd_Methods (dy_ServiceDesc c))" "md_Name m = ei_MethodName e"
    "extractServiceName (sd_FullName (dy_ServiceDesc c)) = ei_ServiceName e" by (auto simp: client_ok_def)
  with m(2) show thesis using that by blast
qed

section \<open>Properties\<close>


lemma refresh_endpoints:
  assumes "refresh env itoa order order' corder listed sm = (None, sm')"
  shows "sm_endpoints sm' = fold (\<lambda>(service, m). mput (''GET '' @ ei_Path (endpoint_of service m)) (endpoint_of service m))
      (described order (sm_fileDescriptors sm')) []
    \<and> parseProtoFiles env sm = (None, snd (parseProtoFiles env sm))
    \<and> sm_fileDescriptors sm' = sm_fileDescriptors (snd (parseProtoFiles env sm))"
proof -
  have conn: "sm_endpoints (snd (connectToServiceInstance env itoa ks i s)) = sm_endpoints s
      \<and> sm_fileDescriptors (snd (connectToServiceInstance env itoa ks i s)) = sm_fileDescriptors s" for ks i s
    unfolding connectToServiceInstance_def by (auto split: option.splits)
  have conns: "sm_endpoints (fold (\<lambda>i sm. snd (connectToServiceInstance env itoa (corder i) i sm)) is s) = sm_endpoints s
      \<and> sm_fileDescriptors (fold (\<lambda>i sm. snd (connectToServiceInstance env itoa (corder i) i sm)) is s) = sm_fileDescriptors s" for "is" s
    by (induction "is" arbitrary: s) (simp_all add: conn)
  obtain sm1 where p: "parseProtoFiles env sm = (None, sm1)"
    and c: "createDynamicClients env itoa order' corder listed (extractEndpoints order sm1) = (None, sm')"
    using assms unfolding refresh_def by (auto split: prod.splits option.splits)
  from c have "sm_endpoints sm' = sm_endpoints (extractEndpoints order sm1) \<and> sm_fileDescriptors sm' = sm_fileDescriptors sm1"
    unfolding createDynamicClients_def Let_def by (auto simp: conns extractEndpoints_def split: option.splits)
  with p show ?thesis by (simp add: extractEndpoints_def)
qed

lemma normalize_endpoint:
  assumes "plain_name m"
  shows "normalize_request_path (endpoint_path s m) = endpoint_path s m"
proof -
  have "CHR ''/'' \<notin> set (ToLower m)" "ToLower m \<noteq> []" using ToLower_plain [OF assms] assms by (auto simp: plain_name_def ToLower_def)
  then have "last (ToLower m) \<noteq> CHR ''/''" "ToLower m \<noteq> []" using last_in_set by metis+
  then have "last (endpoint_path s m) \<noteq> CHR ''/''" by (simp add: endpoint_path_def)
  then have "\<not> HasSuffix (endpoint_path s m) ''/''" by (auto simp: HasSuffix_iff)
  then show ?thesis by (simp add: normalize_request_path_def endpoint_path_def)
qed

text \<open>After a synchronisation that reports no error, every method of every service in the descriptors has its path: a GET
  of it finds an endpoint of that path. No other paths are served.\<close>

lemma sync_serves_every_method:
  assumes "SyncSchemas env itoa order order' corder listed services sm = (None, sm')" "protoc_names env" "schema_reach env itoa sm"
    and "is_order order (sm_fileDescriptors sm')"
  shows "set (mkeys (sm_endpoints sm')) = {''GET '' @ endpoint_path (extractServiceName (sd_FullName service)) (md_Name m) | path fd service m.
      mget (sm_fileDescriptors sm') path = Some fd \<and> service \<in> set (fd_Services fd) \<and> m \<in> set (sd_Methods service)}
    \<and> (\<forall>path fd service m keys. mget (sm_fileDescriptors sm') path = Some fd \<and> service \<in> set (fd_Services fd) \<and> m \<in> set (sd_Methods service) \<longrightarrow>
      (\<exists>e. findEndpoint keys ''GET'' (endpoint_path (extractServiceName (sd_FullName service)) (md_Name m)) sm' = Inr (e, [])
        \<and> endpoint_path (ei_ServiceName e) (ei_MethodName e) = endpoint_path (extractServiceName (sd_FullName service)) (md_Name m)))"
proof -
  let ?ds = "described order (sm_fileDescriptors sm')"
  let ?key = "\<lambda>(service, m). ''GET '' @ endpoint_path (extractServiceName (sd_FullName service)) (md_Name m)"
  obtain sm0 where "refresh env itoa order order' corder listed sm0 = (None, sm')"
    using assms(1) unfolding SyncSchemas_def by (auto split: option.splits)
  then have eps: "sm_endpoints sm' = fold (\<lambda>x. mput (?key x) ((\<lambda>(service, m). endpoint_of service m) x)) ?ds []"
    using refresh_endpoints [of env itoa order order' corder listed sm0 sm'] by (simp add: case_prod_unfold endpoint_of_def Let_def)
  have ds: "(service, m) \<in> set ?ds \<longleftrightarrow> (\<exists>path fd. mget (sm_fileDescriptors sm') path = Some fd \<and> service \<in> set (fd_Services fd) \<and> m \<in> set (sd_Methods service))"
    for service m using is_order_mem [OF assms(4)] by (auto simp: described_iff)
  have ok: "schemas_ok sm'" using reach_ok [OF assms(3,2)] sync_ok [OF assms(2)] assms(1) by (metis snd_conv)
  have keys: "set (mkeys (sm_endpoints sm')) = ?key ` set ?ds" unfolding eps by (simp add: set_mkeys_fold)
  have "\<exists>e. findEndpoint ks ''GET'' (endpoint_path (extractServiceName (sd_FullName service)) (md_Name m)) sm' = Inr (e, [])
        \<and> endpoint_path (ei_ServiceName e) (ei_MethodName e) = endpoint_path (extractServiceName (sd_FullName service)) (md_Name m)"
    if d: "(service, m) \<in> set ?ds" for service m ks
  proof -
    let ?p = "endpoint_path (extractServiceName (sd_FullName service)) (md_Name m)"
    from d keys have "''GET '' @ ?p \<in> set (mkeys (sm_endpoints sm'))" by force
    then obtain e where e: "mget (sm_endpoints sm') (''GET '' @ ?p) = Some e" using key_mget by metis
    from d ds ok have "plain_name (md_Name m)" by (auto simp: schemas_ok_def files_ok_def plain_file_def plain_method_def)
    then have "findEndpoint ks ''GET'' ?p sm' = Inr (e, [])" using e by (simp add: findEndpoint_def normalize_endpoint)
    moreover from e ok have "''GET '' @ ?p = ''GET '' @ endpoint_path (ei_ServiceName e) (ei_MethodName e)"
      unfolding schemas_ok_def endpoints_ok_def by blast
    ultimately show ?thesis by simp
  qed
  then have found: "\<forall>path fd service m keys. mget (sm_fileDescriptors sm') path = Some fd \<and> service \<in> set (fd_Services fd) \<and> m \<in> set (sd_Methods service) \<longrightarrow>
      (\<exists>e. findEndpoint keys ''GET'' (endpoint_path (extractServiceName (sd_FullName service)) (md_Name m)) sm' = Inr (e, [])
        \<and> endpoint_path (ei_ServiceName e) (ei_MethodName e) = endpoint_path (extractServiceName (sd_FullName service)) (md_Name m))"
    using ds by blast
  have "x \<in> ?key ` set ?ds \<longleftrightarrow> (\<exists>service m. (service, m) \<in> set ?ds \<and> x = ?key (service, m))" for x by force
  then have "?key ` set ?ds = {''GET '' @ endpoint_path (extractServiceName (sd_FullName service)) (md_Name m) | path fd service m.
      mget (sm_fileDescriptors sm') path = Some fd \<and> service \<in> set (fd_Services fd) \<and> m \<in> set (sd_Methods service)}"
    unfolding set_eq_iff ds mem_Collect_eq prod.case by blast
  with keys found show ?thesis by simp
qed

text \<open>A request for a service that is described and has no connection panics.\<close>

lemma unconnected_client_panics:
  assumes "client_named order (ei_ServiceName e) sm = Some (fqn, c)" "dy_Conn c = None"
    and "mget (dy_Methods c) (ei_MethodName e) = Some m" "request_message env (md_Input m) params body = Inr msg"
  shows "processRequest env order e params body sm = (None, None)"
  using assms by (simp add: processRequest_def)

text \<open>
  When the files cannot be compiled, the paths and the clients stay and the descriptors are gone, so that the next
  instance that goes away takes all clients with it.
\<close>

lemma failed_parse_keeps_endpoints:
  assumes "parseProtoFiles env sm = (Some err, sm1)"
  shows "refresh env itoa order order' corder listed sm = (Some err, sm1)
    \<and> sm_endpoints sm1 = sm_endpoints sm \<and> sm_dynamicClients sm1 = sm_dynamicClients sm \<and> sm_fileDescriptors sm1 = []"
  using assms by (auto simp: refresh_def parseProtoFiles_def Let_def split: if_splits option.splits)

lemma no_descriptors_no_clients:
  assumes "sm_fileDescriptors sm = []" "si_Status i = ''INACTIVE''" "listed = None \<or> listed = Some []"
  shows "sm_dynamicClients (watchServices env itoa order corder listed i sm) = []
    \<and> sm_endpoints (watchServices env itoa order corder listed i sm) = sm_endpoints sm"
proof -
  have "services_of order [] = []" by (simp add: services_of_def)
  with assms show ?thesis by (auto simp: watchServices_def createDynamicClients_def drop_connections_def Let_def)
qed

text \<open>The name of a schema may lead out of the directory.\<close>

lemma schema_name_escapes:
  "schema_path (NewSchemaManager ''/srv/protos'') \<lparr>sh_Id = ''1'', sh_ServiceName = ''users'', sh_Name = ''../../../etc/cron.d/x'', sh_Content = []\<rparr>
   = ''/etc/cron.d/x''"
  by code_simp

section \<open>Witnesses\<close>

definition sample_file :: file_desc where
  "sample_file = \<lparr>fd_Path = ''u/u.proto'', fd_Services = [\<lparr>sd_FullName = ''a.U'', sd_Methods =
     [\<lparr>md_Name = ''G'', md_FullName = ''a.U.G'', md_Input = ''a.R'', md_Output = ''a.S''\<rparr>]\<rparr>]\<rparr>"

definition sample_schema_env :: "(string, string) schema_env" where
  "sample_schema_env =
     \<lparr>se_bundles = (\<lambda>n. Some [\<lparr>bu_ServiceName = n, bu_SchemaIds = [''1'']\<rparr>]),
      se_schemas = (\<lambda>n. Some [\<lparr>sh_Id = ''1'', sh_ServiceName = n, sh_Name = ''u.proto'', sh_Content = []\<rparr>]),
      se_writable = (\<lambda>p. True), se_removable = (\<lambda>p. True), se_walk = True, se_protoc = (\<lambda>files. Some [sample_file]),
      se_dial = Some, se_reflects = (\<lambda>c. False), se_new = (\<lambda>t. t), se_params = (\<lambda>t ps. Some t), se_body = (\<lambda>t b. Some b),
      se_invoke = (\<lambda>c full msg. Some full)\<rparr>"

definition sample_schemas :: "string schema_manager" where
  "sample_schemas = snd (SyncSchemas sample_schema_env int_digits [''u/u.proto''] [''u/u.proto''] (\<lambda>i. [''a.U''])
     (Some [sample_instance ''i1'' ''U'']) (Some [''u'']) (NewSchemaManager ''d''))"

lemma sample_schemas_reach: "schema_reach sample_schema_env int_digits sample_schemas"
  unfolding sample_schemas_def by (intro reach_sync reach_new)

lemma sample_protoc_names: "protoc_names sample_schema_env"
  unfolding protoc_names_def by (auto simp: sample_schema_env_def) code_simp


lemma sync_serves_every_method_witness:
  "set (mkeys (sm_endpoints sample_schemas)) = {''GET /api/v1/u/g''}"
proof -
  have s: "SyncSchemas sample_schema_env int_digits [''u/u.proto''] [''u/u.proto''] (\<lambda>i. [''a.U''])
     (Some [sample_instance ''i1'' ''U'']) (Some [''u'']) (NewSchemaManager ''d'') = (None, sample_schemas)"
    (is "?s = _")
  proof -
    have "fst ?s = None" by code_simp
    then show ?thesis unfolding sample_schemas_def by (metis prod.collapse)
  qed
  have o: "is_order [''u/u.proto''] (sm_fileDescriptors sample_schemas)" by code_simp
  have f: "sm_fileDescriptors sample_schemas = [(''u/u.proto'', sample_file)]" by code_simp
  have p: "endpoint_path (extractServiceName ''a.U'') ''G'' = ''/api/v1/u/g''" by code_simp
  show ?thesis
    using sync_serves_every_method [OF s sample_protoc_names reach_new o] by (auto simp: f sample_file_def p split: if_splits)
qed

end
