(* ===== verification/ProtoCompat.thy ===== *)
theory ProtoCompat
  imports Schemas "HOL-Library.List_Lexorder" "HOL-Library.Char_ord"
begin

text \<open>
  The protocol buffer service (\<open>prism/internal/features/discovery/service_proto.go\<close>): parsing a file in a temporary
  directory, the check that a new version of a file is compatible with the old one, and the runs of \<open>protoc\<close> that
  generate code and an OpenAPI description.

  Descriptors are the part of \<open>protoreflect\<close> that the service reads: a message has fields and nested messages, a kind
  is its name. \<open>protocompile\<close>, \<open>protoc\<close> and the failures of the file system are arguments (\<open>proto_env\<close>), as are the
  orders of the loops over maps; the files on disk are the state.
\<close>

section \<open>Descriptors\<close>

record field_desc =
  fl_Number :: int
  fl_Name :: string
  fl_Kind :: string

datatype message_desc =
  Message (ms_FullName: string) (ms_Fields: "field_desc list") (ms_Messages: "message_desc list")

record proto_file =
  pf_Package :: string
  pf_Messages :: "message_desc list"
  pf_Services :: "service_desc list"

definition ByNumber :: "int \<Rightarrow> field_desc list \<Rightarrow> field_desc option" where
  "ByNumber n fs = find (\<lambda>f. fl_Number f = n) fs"

definition findMethodByName :: "method_desc list \<Rightarrow> string \<Rightarrow> method_desc option" where
  "findMethodByName ms name = find (\<lambda>m. md_Name m = name) ms"

fun addNestedMessages :: "message_desc \<Rightarrow> (string, message_desc) gomap \<Rightarrow> (string, message_desc) gomap" where
  "addNestedMessages (Message n fs nestedMsgs) result =
     fold (\<lambda>nested result. addNestedMessages nested (mput (ms_FullName nested) nested result)) nestedMsgs result"

definition getMessageMap :: "proto_file \<Rightarrow> (string, message_desc) gomap" where
  "getMessageMap fd =
     fold (\<lambda>msg result. addNestedMessages msg (mput (ms_FullName msg) msg result)) (pf_Messages fd) []"

definition getServiceMap :: "proto_file \<Rightarrow> (string, service_desc) gomap" where
  "getServiceMap fd = fold (\<lambda>svc. mput (sd_FullName svc) svc) (pf_Services fd) []"

section \<open>The compatibility check\<close>

datatype issue =
    PackageChanged string string
  | MessageRemoved string
  | FieldRemoved field_desc string
  | FieldRetyped field_desc string string string
  | ServiceRemoved string
  | MethodRemoved string string
  | InputChanged string string string string
  | OutputChanged string string string string

definition quoted :: "string \<Rightarrow> string" where
  "quoted s = CHR 0x27 # s @ [CHR 0x27]"

fun issue_text :: "issue \<Rightarrow> string" where
  "issue_text (PackageChanged a b) = ''Package changed from '' @ quoted a @ '' to '' @ quoted b"
| "issue_text (MessageRemoved name) = ''Message '' @ quoted name @ '' was removed''"
| "issue_text (FieldRemoved f name) =
     ''Field '' @ int_digits (fl_Number f) @ '' ('' @ fl_Name f @ '') was removed from message '' @ quoted name"
| "issue_text (FieldRetyped f name a b) =
     ''Field '' @ int_digits (fl_Number f) @ '' ('' @ fl_Name f @ '') in message '' @ quoted name @ '' changed type from '' @ a @ '' to '' @ b"
| "issue_text (ServiceRemoved name) = ''Service '' @ quoted name @ '' was removed''"
| "issue_text (MethodRemoved m name) = ''Method '' @ quoted m @ '' was removed from service '' @ quoted name"
| "issue_text (InputChanged m name a b) =
     ''Method '' @ quoted m @ '' in service '' @ quoted name @ '' changed input type from '' @ a @ '' to '' @ b"
| "issue_text (OutputChanged m name a b) =
     ''Method '' @ quoted m @ '' in service '' @ quoted name @ '' changed output type from '' @ a @ '' to '' @ b"

definition field_issues :: "string \<Rightarrow> message_desc \<Rightarrow> field_desc \<Rightarrow> issue list" where
  "field_issues name newMsg oldField =
     (case ByNumber (fl_Number oldField) (ms_Fields newMsg) of
        None \<Rightarrow> [FieldRemoved oldField name]
      | Some newField \<Rightarrow>
          if fl_Kind oldField \<noteq> fl_Kind newField then [FieldRetyped oldField name (fl_Kind oldField) (fl_Kind newField)] else [])"

definition message_issues :: "(string, message_desc) gomap \<Rightarrow> string \<Rightarrow> message_desc \<Rightarrow> issue list" where
  "message_issues newMessages name oldMsg =
     (case mget newMessages name of
        None \<Rightarrow> [MessageRemoved name]
      | Some newMsg \<Rightarrow> concat (map (field_issues name newMsg) (ms_Fields oldMsg)))"

definition method_issues :: "string \<Rightarrow> service_desc \<Rightarrow> method_desc \<Rightarrow> issue list" where
  "method_issues name newSvc oldMethod =
     (case findMethodByName (sd_Methods newSvc) (md_Name oldMethod) of
        None \<Rightarrow> [MethodRemoved (md_Name oldMethod) name]
      | Some newMethod \<Rightarrow>
          (if md_Input oldMethod \<noteq> md_Input newMethod
           then [InputChanged (md_Name oldMethod) name (md_Input oldMethod) (md_Input newMethod)] else []) @
          (if md_Output oldMethod \<noteq> md_Output newMethod
           then [OutputChanged (md_Name oldMethod) name (md_Output oldMethod) (md_Output newMethod)] else []))"

definition service_issues :: "(string, service_desc) gomap \<Rightarrow> string \<Rightarrow> service_desc \<Rightarrow> issue list" where
  "service_issues newServices name oldSvc =
     (case mget newServices name of
        None \<Rightarrow> [ServiceRemoved name]
      | Some newSvc \<Rightarrow> concat (map (method_issues name newSvc) (sd_Methods oldSvc)))"

text \<open>\<open>mo\<close>, \<open>so\<close>: the orders of the loops over the old messages and services.\<close>

definition checkBackwardCompatibility :: "string list \<Rightarrow> string list \<Rightarrow> proto_file \<Rightarrow> proto_file \<Rightarrow> issue list" where
  "checkBackwardCompatibility mo so oldFD newFD =
     (if pf_Package oldFD \<noteq> pf_Package newFD then [PackageChanged (pf_Package oldFD) (pf_Package newFD)] else []) @
     concat (map (\<lambda>name. case mget (getMessageMap oldFD) name of
        None \<Rightarrow> []
      | Some oldMsg \<Rightarrow> message_issues (getMessageMap newFD) name oldMsg) mo) @
     concat (map (\<lambda>name. case mget (getServiceMap oldFD) name of
        None \<Rightarrow> []
      | Some oldSvc \<Rightarrow> service_issues (getServiceMap newFD) name oldSvc) so)"

section \<open>The service\<close>

text \<open>
  \<open>pe_temp\<close>: the new directory that \<open>os.MkdirTemp\<close> makes for a directory and a prefix; \<open>pe_mkdir\<close>, \<open>pe_write\<close>,
  \<open>pe_walk\<close>: whether a directory can be made, a file written, the output read; \<open>pe_compile\<close>: the descriptors of a file, from
  the import paths, its name and the disk; \<open>pe_protoc\<close>: a run of \<open>protoc\<close> in a directory, with the disk after it and the
  text of its failure.
\<close>

type_synonym disk = "(string, string) gomap"

record proto_env =
  pe_temp :: "string \<Rightarrow> string \<Rightarrow> string option"
  pe_mkdir :: "string \<Rightarrow> bool"
  pe_write :: "string \<Rightarrow> bool"
  pe_walk :: "string \<Rightarrow> bool"
  pe_compile :: "string list \<Rightarrow> string \<Rightarrow> disk \<Rightarrow> proto_file list option"
  pe_protoc :: "string \<Rightarrow> string list \<Rightarrow> disk \<Rightarrow> string option \<times> disk"

record proto_service =
  ps_workDir :: string
  ps_includeArgs :: "string list"

record compile_result =
  cr_Language :: string
  cr_OutputFiles :: disk
  cr_GeneratedDeps :: "string list"
  cr_Errors :: "string list"

datatype proto_error = TempDirFailed | DirFailed string | WriteFailed string | ParseFailed | NoDescriptors
  | UnsupportedLanguage string | ProtocRunFailed string | CollectFailed | NoSpec | LanguageFailed string proto_error

definition NewProtoService :: "string \<Rightarrow> (proto_service \<Rightarrow> proto_service) list \<Rightarrow> proto_service" where
  "NewProtoService tempDir opts = fold (\<lambda>opt. opt) opts \<lparr>ps_workDir = tempDir, ps_includeArgs = []\<rparr>"

definition WithWorkDir :: "string \<Rightarrow> proto_service \<Rightarrow> proto_service" where
  "WithWorkDir dir ps = ps\<lparr>ps_workDir := dir\<rparr>"

definition WithIncludePaths :: "string list \<Rightarrow> proto_service \<Rightarrow> proto_service" where
  "WithIncludePaths paths ps = ps\<lparr>ps_includeArgs := ps_includeArgs ps @ map ((@) ''-I'') paths\<rparr>"

definition getImportPaths :: "proto_service \<Rightarrow> string list" where
  "getImportPaths ps = map (drop 2) (filter (\<lambda>arg. HasPrefix arg ''-I'') (ps_includeArgs ps))"

text \<open>\<open>filepath.Dir\<close>, \<open>os.RemoveAll\<close>, and a body that runs in a temporary directory which is removed when it returns.\<close>

definition path_Dir :: "string \<Rightarrow> string" where
  "path_Dir path = Clean (rev (dropWhile (\<lambda>c. c \<noteq> CHR ''/'') (rev path)))"

definition RemoveAll :: "string \<Rightarrow> disk \<Rightarrow> disk" where
  "RemoveAll dir d = filter (\<lambda>(path, _). path \<noteq> dir \<and> \<not> HasPrefix path (dir @ ''/'')) d"

definition in_temp ::
  "proto_env \<Rightarrow> proto_service \<Rightarrow> string \<Rightarrow> (string \<Rightarrow> disk \<Rightarrow> (proto_error + 'a) \<times> disk) \<Rightarrow> disk \<Rightarrow> (proto_error + 'a) \<times> disk"
where
  "in_temp env ps pattern body d =
     (case pe_temp env (ps_workDir ps) pattern of
        None \<Rightarrow> (Inl TempDirFailed, d)
      | Some tempDir \<Rightarrow> (case body tempDir d of (r, d') \<Rightarrow> (r, RemoveAll tempDir d')))"

definition write_file :: "proto_env \<Rightarrow> string \<Rightarrow> string \<Rightarrow> string \<Rightarrow> disk \<Rightarrow> (proto_error + unit) \<times> disk" where
  "write_file env dir name content d =
     (let path = path_Join [dir, name]
      in if \<not> pe_mkdir env (path_Dir path) then (Inl (DirFailed name), d)
         else if \<not> pe_write env path then (Inl (WriteFailed name), d)
         else (Inr (), mput path content d))"

definition Parse :: "proto_env \<Rightarrow> proto_service \<Rightarrow> string \<Rightarrow> string \<Rightarrow> disk \<Rightarrow> (proto_error + proto_file) \<times> disk" where
  "Parse env ps name content =
     in_temp env ps ''proto-parse-'' (\<lambda>tempDir d.
       case write_file env tempDir name content d of
         (Inl e, d') \<Rightarrow> (Inl e, d')
       | (Inr _, d') \<Rightarrow>
           (case pe_compile env (tempDir # getImportPaths ps) name d' of
              None \<Rightarrow> (Inl ParseFailed, d')
            | Some [] \<Rightarrow> (Inl NoDescriptors, d')
            | Some (fd # _) \<Rightarrow> (Inr fd, d')))"

text \<open>\<open>mo\<close>, \<open>so\<close>: the orders of the loops over a map of messages and of services.\<close>

definition ValidateCompatibility ::
  "proto_env \<Rightarrow> proto_service \<Rightarrow> ((string, message_desc) gomap \<Rightarrow> string list) \<Rightarrow> ((string, service_desc) gomap \<Rightarrow> string list) \<Rightarrow>
   string \<Rightarrow> string \<Rightarrow> string \<Rightarrow> disk \<Rightarrow> (proto_error + bool \<times> string list) \<times> disk"
where
  "ValidateCompatibility env ps mo so name oldContent newContent d =
     (case Parse env ps name oldContent d of
        (Inl e, d1) \<Rightarrow> (Inl e, d1)
      | (Inr oldFD, d1) \<Rightarrow>
          (case Parse env ps name newContent d1 of
             (Inl e, d2) \<Rightarrow> (Inl e, d2)
           | (Inr newFD, d2) \<Rightarrow>
               (let issues = map issue_text
                      (checkBackwardCompatibility (mo (getMessageMap oldFD)) (so (getServiceMap oldFD)) oldFD newFD)
                in (Inr (length issues = 0, issues), d2))))"

section \<open>Generated files\<close>

definition option_set :: "(string, string) gomap \<Rightarrow> string \<Rightarrow> bool" where
  "option_set options key = (case mget options key of None \<Rightarrow> False | Some v \<Rightarrow> v \<noteq> [])"

definition language_args :: "string \<Rightarrow> string \<Rightarrow> (string, string) gomap \<Rightarrow> string list option" where
  "language_args outDir language options =
     (let opt = (\<lambda>key. the (mget options key))
      in if language = ''go''
         then Some
           ((if option_set options ''go_module_prefix''
             then [''--go_out=module='' @ opt ''go_module_prefix'' @ '',paths=source_relative:'' @ outDir,
                   ''--go-grpc_out=module='' @ opt ''go_module_prefix'' @ '',paths=source_relative:'' @ outDir]
             else [''--go_out=paths=source_relative:'' @ outDir, ''--go-grpc_out=paths=source_relative:'' @ outDir]) @
            (if mget options ''gateway'' \<noteq> None
             then [''--grpc-gateway_out=paths=source_relative:'' @ outDir, ''--openapiv2_out='' @ outDir] else []))
         else if language = ''python'' then Some [''--python_out='' @ outDir, ''--grpc_python_out='' @ outDir]
         else if language = ''java''
         then Some
           [if option_set options ''java_package'' then ''--java_out='' @ opt ''java_package'' @ '':'' @ outDir
            else ''--java_out='' @ outDir,
            ''--grpc-java_out='' @ outDir]
         else if language = ''typescript''
         then Some
           [if option_set options ''ts_options'' then ''--ts_out='' @ opt ''ts_options'' @ '':'' @ outDir else ''--ts_out='' @ outDir]
         else None)"

text \<open>The files under a directory, by their path in it.\<close>

definition files_under :: "string \<Rightarrow> disk \<Rightarrow> (string \<times> string) list" where
  "files_under dir d = List.map_filter (\<lambda>(path, content). map_option (\<lambda>rel. (rel, content)) (rel_path dir path)) d"

definition compileForLanguage ::
  "proto_env \<Rightarrow> proto_service \<Rightarrow> string \<Rightarrow> string \<Rightarrow> string list \<Rightarrow> string \<Rightarrow> (string, string) gomap \<Rightarrow> disk \<Rightarrow>
   (proto_error + compile_result) \<times> disk"
where
  "compileForLanguage env ps baseDir outDir files language options d =
     (case language_args outDir language options of
        None \<Rightarrow> (Inl (UnsupportedLanguage language), d)
      | Some largs \<Rightarrow>
          (case pe_protoc env baseDir ((''-I'' @ baseDir) # ps_includeArgs ps @ largs @ files) d of
             (Some stderr, d') \<Rightarrow> (Inl (ProtocRunFailed stderr), d')
           | (None, d') \<Rightarrow>
               if \<not> pe_walk env outDir then (Inl CollectFailed, d')
               else (Inr \<lparr>cr_Language = language,
                          cr_OutputFiles = fold (\<lambda>(rel, content). mput rel content) (files_under outDir d') [],
                          cr_GeneratedDeps = [], cr_Errors = []\<rparr>, d')))"

fun write_files :: "proto_env \<Rightarrow> string \<Rightarrow> (string, string) gomap \<Rightarrow> string list \<Rightarrow> disk \<Rightarrow> (proto_error + string list) \<times> disk" where
  "write_files env dir files [] d = (Inr [], d)"
| "write_files env dir files (name # names) d =
     (case mget files name of
        None \<Rightarrow> write_files env dir files names d
      | Some content \<Rightarrow>
          (case write_file env dir name content d of
             (Inl e, d') \<Rightarrow> (Inl e, d')
           | (Inr _, d') \<Rightarrow>
               (case write_files env dir files names d' of
                  (Inl e, d'') \<Rightarrow> (Inl e, d'')
                | (Inr rest, d'') \<Rightarrow> (Inr (name # rest), d''))))"

fun compile_all ::
  "proto_env \<Rightarrow> proto_service \<Rightarrow> string \<Rightarrow> string \<Rightarrow> string list \<Rightarrow> (string, string) gomap \<Rightarrow> string list \<Rightarrow>
   (string, compile_result) gomap \<Rightarrow> disk \<Rightarrow> (proto_error + (string, compile_result) gomap) \<times> disk"
where
  "compile_all env ps tempDir outDir files options [] results d = (Inr results, d)"
| "compile_all env ps tempDir outDir files options (lang # langs) results d =
     (let langOutDir = path_Join [outDir, lang]
      in if \<not> pe_mkdir env langOutDir then (Inl (DirFailed lang), d)
         else (case compileForLanguage env ps tempDir langOutDir files lang options d of
                 (Inl e, d') \<Rightarrow> (Inl (LanguageFailed lang e), d')
               | (Inr result, d') \<Rightarrow> compile_all env ps tempDir outDir files options langs (mput lang result results) d'))"

text \<open>\<open>order\<close>: that of the loop over the files.\<close>

definition Compile ::
  "proto_env \<Rightarrow> proto_service \<Rightarrow> string list \<Rightarrow> (string, string) gomap \<Rightarrow> string list \<Rightarrow> (string, string) gomap \<Rightarrow> disk \<Rightarrow>
   (proto_error + (string, compile_result) gomap) \<times> disk"
where
  "Compile env ps order files languages options =
     in_temp env ps ''proto-compile-'' (\<lambda>tempDir d.
       let outDir = path_Join [tempDir, ''out'']
       in if \<not> pe_mkdir env outDir then (Inl (DirFailed outDir), d)
          else (case write_files env tempDir files order d of
                  (Inl e, d') \<Rightarrow> (Inl e, d')
                | (Inr protos, d') \<Rightarrow> compile_all env ps tempDir outDir protos options languages [] d'))"

text \<open>
  The walk visits the entries of a directory by name and goes into a directory where it stands. \<open>SkipDir\<close> for a file leaves
  the directory of the file, and the walk goes on with what follows that directory.
\<close>

function last_spec :: "(string list \<times> string) list \<Rightarrow> string option \<Rightarrow> string option" where
  "last_spec [] spec = spec"
| "last_spec ((segs, content) # rest) spec =
     (if HasSuffix (last segs) ''.swagger.json''
      then last_spec (filter (\<lambda>(segs', _). take (length segs - 1) segs' \<noteq> butlast segs) rest) (Some content)
      else last_spec rest spec)"
  by pat_completeness auto
termination
  by (relation "measure (length \<circ> fst)") (auto simp: less_Suc_eq_le)

definition GenerateOpenAPI ::
  "proto_env \<Rightarrow> proto_service \<Rightarrow> string list \<Rightarrow> (string, string) gomap \<Rightarrow> disk \<Rightarrow> (proto_error + string) \<times> disk"
where
  "GenerateOpenAPI env ps order files =
     in_temp env ps ''proto-openapi-'' (\<lambda>tempDir d.
       let outDir = path_Join [tempDir, ''out'']
       in if \<not> pe_mkdir env outDir then (Inl (DirFailed outDir), d)
          else (case write_files env tempDir files order d of
                  (Inl e, d') \<Rightarrow> (Inl e, d')
                | (Inr protos, d') \<Rightarrow>
                    (case pe_protoc env tempDir ((''-I'' @ tempDir) # ps_includeArgs ps @ (''--openapiv2_out='' @ outDir) # protos) d' of
                       (Some stderr, d'') \<Rightarrow> (Inl (ProtocRunFailed stderr), d'')
                     | (None, d'') \<Rightarrow>
                         if \<not> pe_walk env outDir then (Inl CollectFailed, d'')
                         else (case last_spec (sort_key fst (map (\<lambda>(rel, content). (Split CHR ''/'' rel, content)) (files_under outDir d''))) None of
                                 None \<Rightarrow> (Inl NoSpec, d'')
                               | Some spec \<Rightarrow> (Inr spec, d'')))))"

section \<open>What compatible means\<close>

text \<open>Every message of a file, at any depth.\<close>

fun messages_of :: "message_desc \<Rightarrow> message_desc list" where
  "messages_of (Message n fs ms) = Message n fs ms # concat (map messages_of ms)"

definition all_messages :: "proto_file \<Rightarrow> message_desc list" where
  "all_messages fd = concat (map messages_of (pf_Messages fd))"

text \<open>What the compiler guarantees of a file: full names, the numbers of the fields of a message and the methods of a
  service are unique.\<close>

definition well_named :: "proto_file \<Rightarrow> bool" where
  "well_named fd \<longleftrightarrow>
     distinct (map ms_FullName (all_messages fd)) \<and>
     (\<forall>m \<in> set (all_messages fd). distinct (map fl_Number (ms_Fields m))) \<and>
     distinct (map sd_FullName (pf_Services fd)) \<and>
     (\<forall>s \<in> set (pf_Services fd). distinct (map md_Name (sd_Methods s)))"

definition message_kept :: "message_desc \<Rightarrow> message_desc \<Rightarrow> bool" where
  "message_kept m m' \<longleftrightarrow>
     ms_FullName m' = ms_FullName m \<and>
     (\<forall>f \<in> set (ms_Fields m). \<exists>f' \<in> set (ms_Fields m'). fl_Number f' = fl_Number f \<and> fl_Kind f' = fl_Kind f)"

definition service_kept :: "service_desc \<Rightarrow> service_desc \<Rightarrow> bool" where
  "service_kept s s' \<longleftrightarrow>
     sd_FullName s' = sd_FullName s \<and>
     (\<forall>m \<in> set (sd_Methods s). \<exists>m' \<in> set (sd_Methods s').
        md_Name m' = md_Name m \<and> md_Input m' = md_Input m \<and> md_Output m' = md_Output m)"

definition all_kept :: "proto_file \<Rightarrow> proto_file \<Rightarrow> bool" where
  "all_kept oldFD newFD \<longleftrightarrow>
     pf_Package newFD = pf_Package oldFD \<and>
     (\<forall>m \<in> set (all_messages oldFD). \<exists>m' \<in> set (all_messages newFD). message_kept m m') \<and>
     (\<forall>s \<in> set (pf_Services oldFD). \<exists>s' \<in> set (pf_Services newFD). service_kept s s')"

lemma addNested_fold:
  "addNestedMessages msg (mput (ms_FullName msg) msg r) = fold (\<lambda>m. mput (ms_FullName m) m) (messages_of msg) r"
proof (induction msg arbitrary: r)
  case (Message n fs ms)
  have "set ms' \<subseteq> set ms \<Longrightarrow>
      fold (\<lambda>m r. addNestedMessages m (mput (ms_FullName m) m r)) ms' r' =
      fold (\<lambda>m. mput (ms_FullName m) m) (concat (map messages_of ms')) r'" for ms' r'
    by (induction ms' arbitrary: r') (auto simp: Message.IH)
  from this [of ms] show ?case by simp
qed

lemma getMessageMap_fold: "getMessageMap fd = fold (\<lambda>m. mput (ms_FullName m) m) (all_messages fd) []"
proof -
  have "fold (\<lambda>m r. addNestedMessages m (mput (ms_FullName m) m r)) ms r =
      fold (\<lambda>m. mput (ms_FullName m) m) (concat (map messages_of ms)) r" for ms r
    by (induction ms arbitrary: r) (simp_all add: addNested_fold)
  then show ?thesis by (simp add: getMessageMap_def all_messages_def)
qed

text \<open>A map that is filled from a list without duplicate keys holds exactly the list.\<close>

lemma mget_fold_keys:
  assumes "distinct (map k xs)"
  shows "mget (fold (\<lambda>x. mput (k x) x) xs []) key = Some y \<longleftrightarrow> y \<in> set xs \<and> k y = key"
proof
  assume "mget (fold (\<lambda>x. mput (k x) x) xs []) key = Some y"
  from mget_fold_mput [where v = "\<lambda>x. x", OF this] show "y \<in> set xs \<and> k y = key" by auto
next
  assume y: "y \<in> set xs \<and> k y = key"
  then have "key \<in> set (mkeys (fold (\<lambda>x. mput (k x) x) xs []))" by (auto simp: set_mkeys_fold [where v = "\<lambda>x. x"])
  then obtain z where z: "mget (fold (\<lambda>x. mput (k x) x) xs []) key = Some z" using key_mget by fast
  from mget_fold_mput [where v = "\<lambda>x. x", OF z] have "z \<in> set xs" "k z = key" by auto
  with y assms have "z = y" by (auto simp: distinct_map inj_on_def)
  with z show "mget (fold (\<lambda>x. mput (k x) x) xs []) key = Some y" by simp
qed

lemma find_key_Some:
  "distinct (map k xs) \<Longrightarrow> find (\<lambda>x. k x = n) xs = Some y \<longleftrightarrow> y \<in> set xs \<and> k y = n"
  by (induction xs) (auto simp: rev_image_eqI)

lemma ex_key_iff: "distinct (map k xs) \<Longrightarrow> y \<in> set xs \<Longrightarrow> k y = n \<Longrightarrow> (\<exists>x \<in> set xs. k x = n \<and> P x) \<longleftrightarrow> P y"
  using distinct_key_eq [of k xs] by blast

lemma find_key_None: "find (\<lambda>x. k x = n) xs = None \<longleftrightarrow> (\<forall>x \<in> set xs. k x \<noteq> n)"
  by (auto simp: find_None_iff)

lemma wfmap_fold_mput: "wfmap m \<Longrightarrow> wfmap (fold (\<lambda>x. mput (k x) (v x)) xs m)"
  by (induction xs arbitrary: m) (auto intro: wf_intros)

lemma concat_map_Nil: "concat (map f xs) = [] \<longleftrightarrow> (\<forall>x \<in> set xs. f x = [])"
  by auto

lemma field_issues_Nil:
  assumes "distinct (map fl_Number (ms_Fields m'))"
  shows "field_issues name m' f = [] \<longleftrightarrow> (\<exists>f' \<in> set (ms_Fields m'). fl_Number f' = fl_Number f \<and> fl_Kind f' = fl_Kind f)"
proof (cases "ByNumber (fl_Number f) (ms_Fields m')")
  case None
  then have "\<forall>f' \<in> set (ms_Fields m'). fl_Number f' \<noteq> fl_Number f" by (simp add: ByNumber_def find_key_None)
  with None show ?thesis by (auto simp: field_issues_def)
next
  case (Some f')
  then have f': "f' \<in> set (ms_Fields m')" "fl_Number f' = fl_Number f"
    using assms by (auto simp: ByNumber_def find_key_Some)
  then show ?thesis using Some by (auto simp: field_issues_def ex_key_iff [OF assms f'])
qed

lemma message_issues_Nil:
  assumes "well_named fd"
  shows "message_issues (getMessageMap fd) (ms_FullName m) m = [] \<longleftrightarrow> (\<exists>m' \<in> set (all_messages fd). message_kept m m')"
proof (cases "mget (getMessageMap fd) (ms_FullName m)")
  case None
  then have "\<forall>m' \<in> set (all_messages fd). ms_FullName m' \<noteq> ms_FullName m"
    by (auto simp: getMessageMap_fold mget_None_iff image_iff set_mkeys_fold [where v = "\<lambda>x. x"])
  with None show ?thesis by (auto simp: message_issues_def message_kept_def)
next
  case (Some m')
  with assms have m': "m' \<in> set (all_messages fd)" "ms_FullName m' = ms_FullName m"
    by (auto simp: getMessageMap_fold well_named_def mget_fold_keys)
  then have "message_issues (getMessageMap fd) (ms_FullName m) m = [] \<longleftrightarrow> message_kept m m'"
    using Some assms by (simp add: message_issues_def message_kept_def well_named_def field_issues_Nil)
  then show ?thesis
    unfolding message_kept_def using assms by (simp add: ex_key_iff [where k = ms_FullName and xs = "all_messages fd", OF _ m'] m' well_named_def)
qed

lemma method_issues_Nil:
  assumes "distinct (map md_Name (sd_Methods s'))"
  shows "method_issues name s' m = [] \<longleftrightarrow>
    (\<exists>m' \<in> set (sd_Methods s'). md_Name m' = md_Name m \<and> md_Input m' = md_Input m \<and> md_Output m' = md_Output m)"
proof (cases "findMethodByName (sd_Methods s') (md_Name m)")
  case None
  then have "\<forall>m' \<in> set (sd_Methods s'). md_Name m' \<noteq> md_Name m" by (simp add: findMethodByName_def find_key_None)
  with None show ?thesis by (auto simp: method_issues_def)
next
  case (Some m')
  then have m': "m' \<in> set (sd_Methods s')" "md_Name m' = md_Name m"
    using assms by (auto simp: findMethodByName_def find_key_Some)
  then show ?thesis using Some by (auto simp: method_issues_def ex_key_iff [OF assms m'])
qed

lemma service_issues_Nil:
  assumes "well_named fd"
  shows "service_issues (getServiceMap fd) (sd_FullName s) s = [] \<longleftrightarrow> (\<exists>s' \<in> set (pf_Services fd). service_kept s s')"
proof (cases "mget (getServiceMap fd) (sd_FullName s)")
  case None
  then have "\<forall>s' \<in> set (pf_Services fd). sd_FullName s' \<noteq> sd_FullName s"
    by (auto simp: getServiceMap_def mget_None_iff image_iff set_mkeys_fold [where v = "\<lambda>x. x"])
  with None show ?thesis by (auto simp: service_issues_def service_kept_def)
next
  case (Some s')
  with assms have s': "s' \<in> set (pf_Services fd)" "sd_FullName s' = sd_FullName s"
    by (auto simp: getServiceMap_def well_named_def mget_fold_keys)
  then have "service_issues (getServiceMap fd) (sd_FullName s) s = [] \<longleftrightarrow> service_kept s s'"
    using Some assms by (simp add: service_issues_def service_kept_def well_named_def method_issues_Nil)
  then show ?thesis
    unfolding service_kept_def using assms by (simp add: ex_key_iff [where k = sd_FullName and xs = "pf_Services fd", OF _ s'] s' well_named_def)
qed

text \<open>A loop over a map whose entries are the elements of a list.\<close>

lemma order_loop_Nil:
  assumes "is_order ks m" and "\<And>k x. mget m k = Some x \<longleftrightarrow> x \<in> set xs \<and> key x = k"
  shows "concat (map (\<lambda>k. case mget m k of None \<Rightarrow> [] | Some x \<Rightarrow> g k x) ks) = [] \<longleftrightarrow> (\<forall>x \<in> set xs. g (key x) x = [])"
proof -
  have "k \<in> set ks \<longleftrightarrow> (\<exists>x. mget m k = Some x)" for k using is_order_mem [OF assms(1)] by auto
  then show ?thesis by (auto simp: assms(2) split: option.splits)
qed

lemma compatibility_exact:
  assumes "well_named oldFD" "well_named newFD" "is_order mo (getMessageMap oldFD)" "is_order so (getServiceMap oldFD)"
  shows "checkBackwardCompatibility mo so oldFD newFD = [] \<longleftrightarrow> all_kept oldFD newFD"
proof -
  have m: "mget (getMessageMap oldFD) k = Some x \<longleftrightarrow> x \<in> set (all_messages oldFD) \<and> ms_FullName x = k" for k x
    using assms(1) by (simp add: getMessageMap_fold well_named_def mget_fold_keys)
  have s: "mget (getServiceMap oldFD) k = Some x \<longleftrightarrow> x \<in> set (pf_Services oldFD) \<and> sd_FullName x = k" for k x
    using assms(1) by (simp add: getServiceMap_def well_named_def mget_fold_keys)
  show ?thesis
    unfolding checkBackwardCompatibility_def append_is_Nil_conv
      order_loop_Nil [OF assms(3) m] order_loop_Nil [OF assms(4) s]
    by (auto simp: message_issues_Nil [OF assms(2)] service_issues_Nil [OF assms(2)] all_kept_def)
qed

lemma issue_text_Nil: "map issue_text is = [] \<longleftrightarrow> is = []"
  by simp

text \<open>Compatibility chains: what every step keeps, the whole chain keeps.\<close>

lemma all_kept_refl: "all_kept fd fd"
  by (auto simp: all_kept_def message_kept_def service_kept_def)

lemma message_kept_trans: "message_kept a b \<Longrightarrow> message_kept b c \<Longrightarrow> message_kept a c"
  unfolding message_kept_def by metis

lemma service_kept_trans: "service_kept a b \<Longrightarrow> service_kept b c \<Longrightarrow> service_kept a c"
  unfolding service_kept_def by metis

lemma all_kept_trans: "all_kept a b \<Longrightarrow> all_kept b c \<Longrightarrow> all_kept a c"
  unfolding all_kept_def by (metis message_kept_trans service_kept_trans)

text \<open>C37: \<open>ValidateCompatibility\<close> of two versions of a file that both parse answers compatible, with no issues, exactly
  when the package is the same, every old message at any depth is still there with every field number at its kind, and every
  old service with every method at its input and output types, in whatever order the maps are visited.\<close>

theorem compatibility_reported_exactly:
  assumes "Parse env ps name oldContent d = (Inr oldFD, d1)" "Parse env ps name newContent d1 = (Inr newFD, d2)"
    and "well_named oldFD" "well_named newFD"
    and "is_order (mo (getMessageMap oldFD)) (getMessageMap oldFD)" "is_order (so (getServiceMap oldFD)) (getServiceMap oldFD)"
  shows "\<exists>issues. ValidateCompatibility env ps mo so name oldContent newContent d = (Inr (all_kept oldFD newFD, issues), d2) \<and>
    (issues = [] \<longleftrightarrow> all_kept oldFD newFD)"
  using assms(1,2) compatibility_exact [OF assms(3-6)] by (simp add: ValidateCompatibility_def Let_def)

section \<open>Files left behind\<close>

text \<open>A name that \<open>filepath.Join\<close> keeps in the directory.\<close>

definition stays_in :: "string \<Rightarrow> string \<Rightarrow> bool" where
  "stays_in dir name \<longleftrightarrow> HasPrefix (path_Join [dir, name]) (dir @ ''/'')"

definition unused :: "string \<Rightarrow> disk \<Rightarrow> bool" where
  "unused dir d \<longleftrightarrow> RemoveAll dir d = d"

lemma RemoveAll_mput: "HasPrefix path (dir @ ''/'') \<Longrightarrow> RemoveAll dir (mput path c d) = RemoveAll dir d"
  by (induction path c d rule: mput.induct) (auto simp: RemoveAll_def)

lemma write_file_removed: "stays_in dir name \<Longrightarrow> RemoveAll dir (snd (write_file env dir name content d)) = RemoveAll dir d"
  by (simp add: write_file_def Let_def stays_in_def RemoveAll_mput)

lemma write_files_removed:
  "(\<And>name. name \<in> set (mkeys files) \<Longrightarrow> stays_in dir name) \<Longrightarrow>
   RemoveAll dir (snd (write_files env dir files order d)) = RemoveAll dir d"
proof (induction env dir files order d rule: write_files.induct)
  case (2 env dir files name names d)
  show ?case
  proof (cases "mget files name")
    case None
    then show ?thesis using "2.IH"(1) "2.prems" by simp
  next
    case (Some content)
    obtain r d' where w: "write_file env dir name content d = (r, d')" by fastforce
    have d': "RemoveAll dir d' = RemoveAll dir d"
      using write_file_removed [of dir name env content d] w "2.prems" mget_Some_key [OF Some] by simp
    show ?thesis
    proof (cases r)
      case (Inr u)
      have "RemoveAll dir (snd (write_files env dir files names d')) = RemoveAll dir d'"
        using "2.IH"(2) [OF Some w [symmetric] Inr] "2.prems" by blast
      then show ?thesis using Some w Inr d' by (auto split: prod.splits sum.splits)
    qed (simp add: Some w d')
  qed
qed simp

lemma Parse_leaves_disk:
  assumes "\<And>dir. pe_temp env (ps_workDir ps) ''proto-parse-'' = Some dir \<Longrightarrow> unused dir d \<and> stays_in dir name"
  shows "snd (Parse env ps name content d) = d"
proof (cases "pe_temp env (ps_workDir ps) ''proto-parse-''")
  case (Some dir)
  have "RemoveAll dir (snd (write_file env dir name content d)) = d"
    using assms [OF Some] write_file_removed by (simp add: unused_def)
  then show ?thesis using Some by (auto simp: Parse_def in_temp_def split: prod.splits sum.splits option.splits list.splits)
qed (simp add: Parse_def in_temp_def)

text \<open>A name with \<open>..\<close> leaves its file in the working directory, where the next parse finds it.\<close>

lemma parsed_name_escapes:
  assumes "pe_temp env ''/tmp'' ''proto-parse-'' = Some ''/tmp/proto-parse-1''" "ps_workDir ps = ''/tmp''"
    "pe_mkdir env ''/tmp''" "pe_write env ''/tmp/a.proto''"
  shows "snd (Parse env ps ''../a.proto'' content []) = [(''/tmp/a.proto'', content)]"
  using assms
  by (auto simp: Parse_def in_temp_def write_file_def path_Join_def path_Dir_def Clean_def  RemoveAll_def Let_def
      split: option.splits list.splits)

text \<open>What the check does not see: the label and the type of a field beyond its kind, and the values of enumerations. A field
  that refers to another message keeps its kind.\<close>

lemma other_message_type_accepted:
  "checkBackwardCompatibility [''p.M''] []
     \<lparr>pf_Package = ''p'', pf_Messages = [Message ''p.M'' [\<lparr>fl_Number = 1, fl_Name = ''owner'', fl_Kind = ''message''\<rparr>] []], pf_Services = []\<rparr>
     \<lparr>pf_Package = ''p'', pf_Messages = [Message ''p.M'' [\<lparr>fl_Number = 1, fl_Name = ''price'', fl_Kind = ''message''\<rparr>] []], pf_Services = []\<rparr> = []"
  by (simp add: checkBackwardCompatibility_def getMessageMap_def getServiceMap_def message_issues_def field_issues_def ByNumber_def)

text \<open>One language that is not known, or that \<open>protoc\<close> has no plugin for, discards the results of all others.\<close>

lemma unsupported_language_fails_all:
  assumes "lang \<notin> {''go'', ''python'', ''java'', ''typescript''}" "lang \<in> set languages"
  shows "\<exists>e d'. compile_all env ps tempDir outDir files options languages results d = (Inl e, d')"
  using assms
proof (induction languages arbitrary: results d)
  case (Cons l ls)
  show ?case
  proof (cases "l = lang")
    case True
    with Cons.prems(1) show ?thesis by (simp add: Let_def compileForLanguage_def language_args_def)
  next
    case False
    with Cons show ?thesis by (auto simp: Let_def split: prod.splits sum.splits)
  qed
qed simp

text \<open>With descriptions in two directories the walk does not end with the first: the later one is returned.\<close>

lemma later_spec_returned:
  "last_spec [([''a'', ''x.swagger.json''], ''first''), ([''b'', ''y.swagger.json''], ''second'')] None = Some ''second''"
  by (simp add: HasSuffix_def)

definition sample_compile :: "string list \<Rightarrow> string \<Rightarrow> disk \<Rightarrow> proto_file list option" where
  "sample_compile paths name d =
     (if mget d ''/tmp/proto-parse-1/user.proto'' = Some ''new''
      then Some [\<lparr>pf_Package = ''u'', pf_Messages = [Message ''u.User'' [\<lparr>fl_Number = 1, fl_Name = ''id'', fl_Kind = ''string''\<rparr>] []],
                  pf_Services = []\<rparr>]
      else Some [\<lparr>pf_Package = ''u'', pf_Messages = [], pf_Services = []\<rparr>])"

definition sample_proto_env :: proto_env where
  "sample_proto_env =
     \<lparr>pe_temp = (\<lambda>dir pre. Some (dir @ ''/'' @ pre @ ''1'')), pe_mkdir = (\<lambda>_. True), pe_write = (\<lambda>_. True), pe_walk = (\<lambda>_. True),
      pe_compile = sample_compile, pe_protoc = (\<lambda>_ _ d. (None, d))\<rparr>"

definition sample_proto_service :: proto_service where
  "sample_proto_service = NewProtoService ''/tmp'' []"

lemma sample_parse:
  "Parse sample_proto_env sample_proto_service ''user.proto'' ''old'' [] =
     (Inr \<lparr>pf_Package = ''u'', pf_Messages = [], pf_Services = []\<rparr>, [])"
  "Parse sample_proto_env sample_proto_service ''user.proto'' ''new'' [] =
     (Inr \<lparr>pf_Package = ''u'', pf_Messages = [Message ''u.User'' [\<lparr>fl_Number = 1, fl_Name = ''id'', fl_Kind = ''string''\<rparr>] []],
           pf_Services = []\<rparr>, [])"
  by code_simp+

theorem compatibility_reported_exactly_witness:
  "\<exists>issues. ValidateCompatibility sample_proto_env sample_proto_service mkeys mkeys ''user.proto'' ''new'' ''old'' [] = (Inr (False, issues), []) \<and>
    issues \<noteq> []"
proof -
  have w: "well_named \<lparr>pf_Package = ''u'', pf_Messages = [], pf_Services = []\<rparr>"
      "well_named \<lparr>pf_Package = ''u'', pf_Messages = [Message ''u.User'' [\<lparr>fl_Number = 1, fl_Name = ''id'', fl_Kind = ''string''\<rparr>] []], pf_Services = []\<rparr>"
    by (simp_all add: well_named_def all_messages_def)
  show ?thesis
    using compatibility_reported_exactly [OF sample_parse(2) sample_parse(1) w(2) w(1), of mkeys mkeys]
    by (auto simp: is_order_def getMessageMap_fold getServiceMap_def all_kept_def all_messages_def)
qed

end
