(* ===== verification/Tenants.thy ===== *)
theory Tenants
  imports Backend ApiKeys "HOL-Library.List_Lexorder" "HOL-Library.Char_ord"
begin

text \<open>
  Tenants and their domains (\<open>prism/internal/domain/tenant.go\<close>, \<open>features/tenant/service_tenant_domain.go\<close>,
  \<open>features/tenant/adapters/tenant_repository.go\<close>).

  The state is the table of tenants, with its constraints, and the table of memberships, which the database of the gateway
  does not have (\<open>td_members\<close> is \<open>None\<close>) and that of Aegis does; there an owner is a user (\<open>td_users\<close>). The
  columns that may be NULL but that the repository always writes are plain values. The answers of the DNS are arguments, as are
  identifiers, random bytes and the clocks: \<open>now\<close> is that of the service, \<open>stored\<close> that of the database, whose trigger sets the
  time of an update. Names are ordered by their bytes.
\<close>

section \<open>Tenants\<close>

abbreviation (input) TenantStatusActive :: string where "TenantStatusActive \<equiv> ''active''"
abbreviation (input) TenantStatusInactive :: string where "TenantStatusInactive \<equiv> ''inactive''"
abbreviation (input) TenantStatusSuspended :: string where "TenantStatusSuspended \<equiv> ''suspended''"
abbreviation (input) TenantStatusDeleted :: string where "TenantStatusDeleted \<equiv> ''deleted''"

definition tenant_statuses :: "string list" where
  "tenant_statuses = [TenantStatusActive, TenantStatusInactive, TenantStatusSuspended, TenantStatusDeleted]"

record 'u tenant =
  tn_ID :: 'u
  tn_Name :: string
  tn_Domain :: string
  tn_Status :: string
  tn_PlanType :: string
  tn_MaxUsers :: int
  tn_OwnerID :: 'u
  tn_CreatedAt :: time
  tn_UpdatedAt :: time

record 'u tenant_create_params =
  tc_Name :: string
  tc_Domain :: string
  tc_PlanType :: string
  tc_MaxUsers :: int
  tc_OwnerID :: 'u

definition create_params_Validate :: "'u tenant_create_params \<Rightarrow> validation_errors option" where
  "create_params_Validate p =
     (let v = CheckString ''name'' (tc_Name p) [is_Length 1 255] New_validator
      in Errors (if tc_Domain p \<noteq> [] then CheckString ''domain'' (tc_Domain p) [is_Length 1 255] v else v))"

definition NewTenant :: "'u uuid_ops \<Rightarrow> 'u tenant_create_params \<Rightarrow> validation_errors + 'u tenant" where
  "NewTenant uu params =
     (case create_params_Validate params of
        Some err \<Rightarrow> Inl err
      | None \<Rightarrow>
          Inr \<lparr>tn_ID = uu_Nil uu, tn_Name = tc_Name params, tn_Domain = tc_Domain params, tn_Status = TenantStatusActive,
               tn_PlanType = tc_PlanType params, tn_MaxUsers = tc_MaxUsers params, tn_OwnerID = tc_OwnerID params,
               tn_CreatedAt = time_zero, tn_UpdatedAt = time_zero\<rparr>)"

definition tenant_FormatID :: "'u uuid_ops \<Rightarrow> 'u tenant \<Rightarrow> string" where
  "tenant_FormatID uu t = ''ten_'' @ uu_String uu (tn_ID t)"

record 'u tenant_update_params =
  tu_Name :: "string option"
  tu_Domain :: "string option"
  tu_Status :: "string option"
  tu_PlanType :: "string option"
  tu_MaxUsers :: "int option"
  tu_OwnerID :: "'u option"

definition update_params_Validate :: "'u tenant_update_params \<Rightarrow> validation_errors option" where
  "update_params_Validate p =
     (let v1 = (case tu_Name p of None \<Rightarrow> New_validator | Some n \<Rightarrow> CheckString ''name'' n [is_Length 1 255] New_validator);
          v2 = (case tu_Domain p of None \<Rightarrow> v1 | Some d \<Rightarrow> CheckString ''domain'' d [is_Length 1 255] v1);
          v3 = (case tu_Status p of
                  None \<Rightarrow> v2
                | Some s \<Rightarrow>
                    if list_ex (\<lambda>st. s = st) tenant_statuses then v2
                    else AddError ''status'' ''must be one of: active, inactive, suspended, deleted'' v2)
      in Errors v3)"

definition applyUpdates :: "'u tenant_update_params \<Rightarrow> 'u tenant \<Rightarrow> bool \<times> 'u tenant" where
  "applyUpdates p t =
     (tu_Name p \<noteq> None \<or> tu_Domain p \<noteq> None \<or> tu_Status p \<noteq> None \<or> tu_PlanType p \<noteq> None \<or> tu_MaxUsers p \<noteq> None \<or> tu_OwnerID p \<noteq> None,
      t\<lparr>tn_Name := or_old (tn_Name t) (tu_Name p), tn_Domain := or_old (tn_Domain t) (tu_Domain p),
        tn_Status := or_old (tn_Status t) (tu_Status p), tn_PlanType := or_old (tn_PlanType t) (tu_PlanType p),
        tn_MaxUsers := or_old (tn_MaxUsers t) (tu_MaxUsers p), tn_OwnerID := or_old (tn_OwnerID t) (tu_OwnerID p)\<rparr>)"

datatype tenant_update_error = ErrNilUpdateParams | ErrNoChangesProvided | BadTenantParams validation_errors

definition tenant_Update :: "time \<Rightarrow> 'u tenant_update_params option \<Rightarrow> 'u tenant \<Rightarrow> tenant_update_error option \<times> 'u tenant" where
  "tenant_Update now params t =
     (case params of
        None \<Rightarrow> (Some ErrNilUpdateParams, t)
      | Some p \<Rightarrow>
          (case update_params_Validate p of
             Some err \<Rightarrow> (Some (BadTenantParams err), t)
           | None \<Rightarrow>
               (case applyUpdates p t of
                  (False, t') \<Rightarrow> (Some ErrNoChangesProvided, t')
                | (True, t') \<Rightarrow> (None, t'\<lparr>tn_UpdatedAt := now\<rparr>))))"

section \<open>The repository\<close>

record 'u tenant_member =
  tm_user :: 'u
  tm_tenant :: 'u
  tm_status :: string
  tm_admin :: bool
  tm_default :: bool
  tm_joined :: time

record 'u tenant_db =
  td_rows :: "'u tenant list"
  td_users :: "'u list option"
  td_members :: "'u tenant_member list option"
  td_up :: bool

datatype tenant_db_error = TenantDbError | TenantNoRows | TenantNotFound | UserNotInTenant

text \<open>The columns of a row and the user that owns it.\<close>

definition tenant_fits :: "'u tenant \<Rightarrow> 'u tenant_db \<Rightarrow> bool" where
  "tenant_fits t db \<longleftrightarrow> length (tn_Name t) \<le> 255 \<and> length (tn_Domain t) \<le> 255 \<and> tn_Status t \<in> set tenant_statuses \<and>
     length (tn_PlanType t) \<le> 50 \<and> int4 (tn_MaxUsers t) \<and>
     (case td_users db of None \<Rightarrow> True | Some us \<Rightarrow> tn_OwnerID t \<in> set us)"

text \<open>Names and domains are unique.\<close>

definition tenant_clash :: "'u tenant \<Rightarrow> 'u tenant \<Rightarrow> bool" where
  "tenant_clash t row \<longleftrightarrow> tn_Name row = tn_Name t \<or> tn_Domain row = tn_Domain t"

definition pg_TenantCreate ::
  "'u uuid_ops \<Rightarrow> 'u \<Rightarrow> time \<Rightarrow> 'u tenant \<Rightarrow> 'u tenant_db \<Rightarrow> (tenant_db_error + 'u tenant) \<times> 'u tenant_db" where
  "pg_TenantCreate uu newID now t db =
     (let t1 = (if tn_ID t = uu_Nil uu then t\<lparr>tn_ID := newID\<rparr> else t);
          t2 = t1\<lparr>tn_CreatedAt := now, tn_UpdatedAt := now\<rparr>
      in if td_up db \<and> tenant_fits t2 db \<and> (\<forall>row \<in> set (td_rows db). tn_ID row \<noteq> tn_ID t2 \<and> \<not> tenant_clash t2 row)
         then (Inr t2, db\<lparr>td_rows := td_rows db @ [t2]\<rparr>)
         else (Inl TenantDbError, db))"

definition one_tenant :: "('u tenant \<Rightarrow> bool) \<Rightarrow> 'u tenant_db \<Rightarrow> tenant_db_error + 'u tenant" where
  "one_tenant P db =
     (if \<not> td_up db then Inl TenantDbError else case find P (td_rows db) of None \<Rightarrow> Inl TenantNoRows | Some t \<Rightarrow> Inr t)"

definition pg_TenantByID :: "'u \<Rightarrow> 'u tenant_db \<Rightarrow> tenant_db_error + 'u tenant" where
  "pg_TenantByID i db = one_tenant (\<lambda>t. tn_ID t = i) db"

definition pg_TenantByDomain :: "string \<Rightarrow> 'u tenant_db \<Rightarrow> tenant_db_error + 'u tenant" where
  "pg_TenantByDomain d db = one_tenant (\<lambda>t. tn_Domain t = d) db"

text \<open>An update of no row is no error.\<close>

definition pg_TenantUpdate ::
  "time \<Rightarrow> time \<Rightarrow> 'u \<Rightarrow> 'u tenant \<Rightarrow> 'u tenant_db \<Rightarrow> (tenant_db_error + 'u tenant) \<times> 'u tenant_db" where
  "pg_TenantUpdate now stored i t db =
     (let t1 = t\<lparr>tn_UpdatedAt := now\<rparr>
      in if \<not> td_up db then (Inl TenantDbError, db)
         else if \<forall>row \<in> set (td_rows db). tn_ID row \<noteq> i then (Inr t1, db)
         else if \<not> tenant_fits t1 db \<or> (\<exists>row \<in> set (td_rows db). tn_ID row \<noteq> i \<and> tenant_clash t1 row) then (Inl TenantDbError, db)
         else (Inr t1,
               db\<lparr>td_rows := map (\<lambda>row. if tn_ID row = i
                    then t1\<lparr>tn_ID := i, tn_CreatedAt := tn_CreatedAt row, tn_UpdatedAt := stored\<rparr> else row) (td_rows db)\<rparr>))"

definition pg_TenantDelete :: "'u \<Rightarrow> 'u tenant_db \<Rightarrow> tenant_db_error option \<times> 'u tenant_db" where
  "pg_TenantDelete i db =
     (if \<not> td_up db then (Some TenantDbError, db)
      else if \<forall>row \<in> set (td_rows db). tn_ID row \<noteq> i then (Some TenantNotFound, db)
      else (None, db\<lparr>td_rows := filter (\<lambda>row. tn_ID row \<noteq> i) (td_rows db),
                     td_members := map_option (filter (\<lambda>m. tm_tenant m \<noteq> i)) (td_members db)\<rparr>))"

definition pg_ListAllTenants :: "int \<Rightarrow> int \<Rightarrow> 'u tenant_db \<Rightarrow> tenant_db_error + 'u tenant list" where
  "pg_ListAllTenants page pageSize db =
     (let offset = wrap64 (page * pageSize)
      in if \<not> td_up db \<or> pageSize < 0 \<or> offset < 0 then Inl TenantDbError
         else Inr (take (nat pageSize) (drop (nat offset) (sort_key (\<lambda>t. - tn_CreatedAt t) (td_rows db)))))"

definition is_member :: "'u \<Rightarrow> 'u \<Rightarrow> 'u tenant_member \<Rightarrow> bool" where
  "is_member userID tenantID m \<longleftrightarrow> tm_user m = userID \<and> tm_tenant m = tenantID"

text \<open>A member that is already there becomes active, with the given rights.\<close>

definition pg_AddUserToTenant ::
  "time \<Rightarrow> 'u \<Rightarrow> 'u \<Rightarrow> bool \<Rightarrow> 'u tenant_db \<Rightarrow> tenant_db_error option \<times> 'u tenant_db" where
  "pg_AddUserToTenant stored tenantID userID isAdmin db =
     (case td_members db of
        None \<Rightarrow> (Some TenantDbError, db)
      | Some ms \<Rightarrow>
          if \<not> td_up db then (Some TenantDbError, db)
          else if list_ex (is_member userID tenantID) ms
          then (None, db\<lparr>td_members := Some (map (\<lambda>m. if is_member userID tenantID m
                  then m\<lparr>tm_status := ''active'', tm_admin := isAdmin\<rparr> else m) ms)\<rparr>)
          else if (\<forall>row \<in> set (td_rows db). tn_ID row \<noteq> tenantID) \<or> (case td_users db of None \<Rightarrow> False | Some us \<Rightarrow> userID \<notin> set us)
          then (Some TenantDbError, db)
          else (None, db\<lparr>td_members := Some (ms @ [\<lparr>tm_user = userID, tm_tenant = tenantID, tm_status = ''active'',
                  tm_admin = isAdmin, tm_default = False, tm_joined = stored\<rparr>])\<rparr>))"

definition pg_RemoveUserFromTenant :: "'u \<Rightarrow> 'u \<Rightarrow> 'u tenant_db \<Rightarrow> tenant_db_error option \<times> 'u tenant_db" where
  "pg_RemoveUserFromTenant tenantID userID db =
     (case td_members db of
        None \<Rightarrow> (Some TenantDbError, db)
      | Some ms \<Rightarrow>
          if \<not> td_up db then (Some TenantDbError, db)
          else if \<not> list_ex (is_member userID tenantID) ms then (Some UserNotInTenant, db)
          else (None, db\<lparr>td_members := Some (filter (\<lambda>m. \<not> is_member userID tenantID m) ms)\<rparr>))"

text \<open>The default tenant first, then by name.\<close>

definition pg_GetUserTenants :: "'u \<Rightarrow> 'u tenant_db \<Rightarrow> tenant_db_error + 'u tenant list" where
  "pg_GetUserTenants userID db =
     (case td_members db of
        None \<Rightarrow> Inl TenantDbError
      | Some ms \<Rightarrow>
          if \<not> td_up db then Inl TenantDbError
          else Inr (map snd (sort_key (\<lambda>(m, t). \<not> tm_default m) (sort_key (\<lambda>(m, t). tn_Name t)
                 (concat (map (\<lambda>t. map (\<lambda>m. (m, t)) (filter (is_member userID (tn_ID t)) ms)) (td_rows db)))))))"

definition pg_SetDefaultTenant :: "'u \<Rightarrow> 'u \<Rightarrow> 'u tenant_db \<Rightarrow> tenant_db_error option \<times> 'u tenant_db" where
  "pg_SetDefaultTenant userID tenantID db =
     (case td_members db of
        None \<Rightarrow> (Some TenantDbError, db)
      | Some ms \<Rightarrow>
          if \<not> td_up db then (Some TenantDbError, db)
          else (None, db\<lparr>td_members := Some (map (\<lambda>m. if tm_user m = userID then m\<lparr>tm_default := tm_tenant m = tenantID\<rparr> else m) ms)\<rparr>))"

section \<open>Domains\<close>

definition domain_char :: "char \<Rightarrow> bool" where
  "domain_char c \<longleftrightarrow> (let n = (of_char c :: nat) in (97 \<le> n \<and> n \<le> 122) \<or> (48 \<le> n \<and> n \<le> 57) \<or> c = CHR ''.'' \<or> c = CHR ''-'')"

definition isValidDomain :: "string \<Rightarrow> bool" where
  "isValidDomain d \<longleftrightarrow>
     \<not> length d > 255 \<and> Contains d ''.'' \<and> \<not> Contains d '' '' \<and> list_all domain_char d \<and>
     \<not> HasPrefix d ''-'' \<and> \<not> HasSuffix d ''-'' \<and> \<not> HasPrefix d ''.'' \<and> \<not> HasSuffix d ''.'' \<and>
     list_all (\<lambda>l. \<not> (length l = 0 \<or> length l > 63)) (Split CHR ''.'' d)"

definition bare_domain :: "string \<Rightarrow> string" where
  "bare_domain d =
     (let d1 = TrimPrefix (TrimPrefix d ''http://'') ''https://'';
          d2 = takeWhile (\<lambda>c. c \<noteq> CHR ''/'') d1
      in ToLower (takeWhile (\<lambda>c. c \<noteq> CHR '':'') d2))"

datatype tenant_error = DomainRequired | BadDomain string | TenantMissing tenant_db_error | DomainInUse string
  | TenantUpdateFailed tenant_db_error | DomainNotRegistered string | UnsupportedMethod string | LookupFailed | CodeNotFound
  | NotVerified | NoDomain | TenantLookupFailed tenant_db_error

definition normalizeDomain :: "string \<Rightarrow> tenant_error + string" where
  "normalizeDomain d = (let d' = bare_domain d in if \<not> isValidDomain d' then Inl (BadDomain d') else Inr d')"

abbreviation (input) DomainPending :: string where "DomainPending \<equiv> ''pending''"
abbreviation (input) DomainVerified :: string where "DomainVerified \<equiv> ''verified''"
abbreviation (input) VerificationMethodDNS :: string where "VerificationMethodDNS \<equiv> ''dns''"
abbreviation (input) VerificationMethodHTTP :: string where "VerificationMethodHTTP \<equiv> ''http''"

record 'u tenant_domain =
  dm_ID :: 'u
  dm_TenantID :: 'u
  dm_Domain :: string
  dm_VerificationCode :: string
  dm_VerificationToken :: string
  dm_Status :: string
  dm_VerifiedAt :: "time option"
  dm_CreatedAt :: time
  dm_UpdatedAt :: time

record 'u domain_params =
  dp_TenantID :: 'u
  dp_Domain :: string
  dp_VerificationMethod :: string

record ('u, 'ip) tenants =
  ts_db :: "'u tenant_db"
  ts_log :: "('u, 'ip) audit_db"

text \<open>What a call draws: identifiers, random bytes (\<open>None\<close>: the source failed) and the clocks.\<close>

record 'u tenant_draw =
  tw_id :: 'u
  tw_code :: "string option"
  tw_token :: "string option"
  tw_spare :: 'u
  tw_logID :: 'u
  tw_now :: time
  tw_stored :: time

definition rawurl :: "string \<Rightarrow> string" where
  "rawurl bytes = takeWhile (\<lambda>c. c \<noteq> CHR ''='') (base64url bytes)"

definition generateVerificationCode :: "'u uuid_ops \<Rightarrow> string option \<Rightarrow> 'u \<Rightarrow> string" where
  "generateVerificationCode uu bytes spare =
     ''gauth-verify-'' @ (case bytes of None \<Rightarrow> take 16 (uu_String uu spare) | Some bs \<Rightarrow> rawurl bs)"

definition generateVerificationToken :: "'u uuid_ops \<Rightarrow> string option \<Rightarrow> 'u \<Rightarrow> string" where
  "generateVerificationToken uu bytes spare = (case bytes of None \<Rightarrow> uu_String uu spare | Some bs \<Rightarrow> rawurl bs)"

text \<open>An event reported to the audit log; the error is not looked at.\<close>

definition domain_event ::
  "('u, 'ip) audit_env \<Rightarrow> 'u tenant_draw \<Rightarrow> 'u actor \<Rightarrow> string \<Rightarrow> 'u \<Rightarrow> event_data \<Rightarrow> ('u, 'ip) tenants \<Rightarrow> ('u, 'ip) tenants" where
  "domain_event env draw actor eventType tenantID eventData st =
     (let i = FormatTenantID (uu_String (ae_uu env) tenantID)
      in st\<lparr>ts_log := snd (LogEvent env (tw_logID draw) (tw_now draw)
             \<lparr>ar_EventType = eventType, ar_ActorType = ac_Type actor, ar_ActorID = uu_String (ae_uu env) (ac_ID actor),
              ar_TenantID = i, ar_ResourceType = ''tenant'', ar_ResourceID = i,
              ar_EventData = eventData, aq_IPAddress = None, aq_UserAgent = []\<rparr> (ts_log st))\<rparr>)"

definition default_method :: "string \<Rightarrow> string" where
  "default_method m = (if m = [] then VerificationMethodDNS else m)"

definition AddDomain ::
  "('u, 'ip) audit_env \<Rightarrow> 'u tenant_draw \<Rightarrow> 'u domain_params \<Rightarrow> 'u actor \<Rightarrow> ('u, 'ip) tenants \<Rightarrow>
   (tenant_error + 'u tenant_domain) \<times> ('u, 'ip) tenants" where
  "AddDomain env draw params actor st =
     (if dp_Domain params = [] then (Inl DomainRequired, st)
      else case normalizeDomain (dp_Domain params) of
        Inl err \<Rightarrow> (Inl err, st)
      | Inr d \<Rightarrow>
          (case pg_TenantByID (dp_TenantID params) (ts_db st) of
             Inl err \<Rightarrow> (Inl (TenantMissing err), st)
           | Inr t \<Rightarrow>
               if (case pg_TenantByDomain d (ts_db st) of Inl _ \<Rightarrow> False | Inr other \<Rightarrow> tn_ID other \<noteq> dp_TenantID params)
               then (Inl (DomainInUse d), st)
               else (case pg_TenantUpdate (tw_now draw) (tw_stored draw) (tn_ID t) (t\<lparr>tn_Domain := d\<rparr>) (ts_db st) of
                       (Inl err, db) \<Rightarrow> (Inl (TenantUpdateFailed err), st\<lparr>ts_db := db\<rparr>)
                     | (Inr _, db) \<Rightarrow>
                         (Inr \<lparr>dm_ID = tw_id draw, dm_TenantID = dp_TenantID params, dm_Domain = d,
                               dm_VerificationCode = generateVerificationCode (ae_uu env) (tw_code draw) (tw_spare draw),
                               dm_VerificationToken = generateVerificationToken (ae_uu env) (tw_token draw) (tw_spare draw),
                               dm_Status = DomainPending, dm_VerifiedAt = None, dm_CreatedAt = tw_now draw, dm_UpdatedAt = tw_now draw\<rparr>,
                          domain_event env draw actor ''tenant.domain.added'' (dp_TenantID params)
                            [(''domain'', EStr d), (''verification_method'', EStr (default_method (dp_VerificationMethod params)))]
                            (st\<lparr>ts_db := db\<rparr>)))))"

text \<open>The answers of the DNS; \<open>None\<close>: the lookup failed.\<close>

record dns =
  dn_TXT :: "string \<Rightarrow> string list option"
  dn_CNAME :: "string \<Rightarrow> string option"
  dn_MX :: "string \<Rightarrow> string list option"

definition verifyDNS :: "dns \<Rightarrow> string \<Rightarrow> string \<Rightarrow> tenant_error + bool" where
  "verifyDNS net d code =
     (let found = (case dn_TXT net d of
                     Some ts \<Rightarrow> Some ts
                   | None \<Rightarrow> if \<not> HasPrefix d ''www.'' then dn_TXT net (''www.'' @ d) else None)
      in case found of
           None \<Rightarrow> Inl LookupFailed
         | Some txtRecords \<Rightarrow>
             if list_ex (\<lambda>t. t = code) txtRecords then Inr True
             else if (case dn_CNAME net d of None \<Rightarrow> False | Some cname \<Rightarrow> Contains cname ''gauth.example.com'') then Inr True
             else if (case dn_MX net d of None \<Rightarrow> False | Some hosts \<Rightarrow> list_ex (\<lambda>h. Contains h ''gauth.example.com'') hosts) then Inr True
             else Inl CodeNotFound)"

definition verifyHTTP :: "string \<Rightarrow> string \<Rightarrow> tenant_error + bool" where
  "verifyHTTP d token = Inr True"

definition verify_domain :: "dns \<Rightarrow> string \<Rightarrow> string \<Rightarrow> string \<Rightarrow> string \<Rightarrow> tenant_error + bool" where
  "verify_domain net meth d code token =
     (if meth = VerificationMethodDNS then verifyDNS net d code
      else if meth = VerificationMethodHTTP then verifyHTTP d token
      else Inl (UnsupportedMethod meth))"

definition VerifyDomain ::
  "('u, 'ip) audit_env \<Rightarrow> dns \<Rightarrow> 'u tenant_draw \<Rightarrow> 'u domain_params \<Rightarrow> 'u actor \<Rightarrow> ('u, 'ip) tenants \<Rightarrow>
   tenant_error option \<times> ('u, 'ip) tenants" where
  "VerifyDomain env net draw params actor st =
     (case normalizeDomain (dp_Domain params) of
        Inl err \<Rightarrow> (Some err, st)
      | Inr d \<Rightarrow>
          (case pg_TenantByID (dp_TenantID params) (ts_db st) of
             Inl err \<Rightarrow> (Some (TenantMissing err), st)
           | Inr t \<Rightarrow>
               if tn_Domain t \<noteq> d then (Some (DomainNotRegistered d), st)
               else (case verify_domain net (default_method (dp_VerificationMethod params)) d ''verify-12345678'' [] of
                       Inl err \<Rightarrow> (Some err, st)
                     | Inr False \<Rightarrow> (Some NotVerified, st)
                     | Inr True \<Rightarrow>
                         (None, domain_event env draw actor ''tenant.domain.verified'' (dp_TenantID params)
                            [(''domain'', EStr d), (''status'', EStr DomainVerified),
                             (''verification_method'', EStr (default_method (dp_VerificationMethod params))),
                             (''verified_at'', EStr (ae_format_time env (tw_now draw)))] st))))"

definition RemoveDomain ::
  "('u, 'ip) audit_env \<Rightarrow> 'u tenant_draw \<Rightarrow> 'u \<Rightarrow> 'u actor \<Rightarrow> ('u, 'ip) tenants \<Rightarrow> tenant_error option \<times> ('u, 'ip) tenants" where
  "RemoveDomain env draw tenantID actor st =
     (case pg_TenantByID tenantID (ts_db st) of
        Inl err \<Rightarrow> (Some (TenantMissing err), st)
      | Inr t \<Rightarrow>
          if tn_Domain t = [] then (Some NoDomain, st)
          else (case pg_TenantUpdate (tw_now draw) (tw_stored draw) (tn_ID t) (t\<lparr>tn_Domain := []\<rparr>) (ts_db st) of
                  (Inl err, db) \<Rightarrow> (Some (TenantUpdateFailed err), st\<lparr>ts_db := db\<rparr>)
                | (Inr _, db) \<Rightarrow>
                    (None, domain_event env draw actor ''tenant.domain.removed'' tenantID [(''domain'', EStr (tn_Domain t))] (st\<lparr>ts_db := db\<rparr>))))"

definition GetDomainInfo :: "'u uuid_ops \<Rightarrow> 'u \<Rightarrow> ('u, 'ip) tenants \<Rightarrow> tenant_error + 'u tenant_domain" where
  "GetDomainInfo uu tenantID st =
     (case pg_TenantByID tenantID (ts_db st) of
        Inl err \<Rightarrow> Inl (TenantMissing err)
      | Inr t \<Rightarrow>
          if tn_Domain t = [] then Inl NoDomain
          else Inr \<lparr>dm_ID = uu_Nil uu, dm_TenantID = tenantID, dm_Domain = tn_Domain t, dm_VerificationCode = [],
                    dm_VerificationToken = [], dm_Status = [], dm_VerifiedAt = None, dm_CreatedAt = time_zero, dm_UpdatedAt = time_zero\<rparr>)"

definition GetTenantByDomain :: "string \<Rightarrow> ('u, 'ip) tenants \<Rightarrow> tenant_error + 'u tenant" where
  "GetTenantByDomain d st =
     (case normalizeDomain d of
        Inl err \<Rightarrow> Inl err
      | Inr d' \<Rightarrow> (case pg_TenantByDomain d' (ts_db st) of Inl err \<Rightarrow> Inl (TenantLookupFailed err) | Inr t \<Rightarrow> Inr t))"

section \<open>Domains are normal forms\<close>

lemma domain_char_plain: "domain_char c \<Longrightarrow> c \<noteq> CHR ''/'' \<and> c \<noteq> CHR '':'' \<and> lower_char c = c"
  by (auto simp: domain_char_def lower_char_def Let_def)

lemma no_prefix: "c \<in> set p \<Longrightarrow> c \<notin> set d \<Longrightarrow> \<not> HasPrefix d p"
  by (auto simp: HasPrefix_def dest: in_set_takeD) (metis in_set_takeD)

lemma bare_domain_plain:
  assumes "list_all domain_char d"
  shows "bare_domain d = d"
proof -
  have c: "c \<noteq> CHR ''/'' \<and> c \<noteq> CHR '':'' \<and> lower_char c = c" if "c \<in> set d" for c
    using that assms domain_char_plain by (auto simp: list_all_iff)
  have "TrimPrefix d ''http://'' = d" "TrimPrefix d ''https://'' = d"
    using no_prefix [of "CHR ''/''" "''http://''" d] no_prefix [of "CHR ''/''" "''https://''" d] c by (auto simp: TrimPrefix_def)
  moreover have "takeWhile (\<lambda>c. c \<noteq> CHR ''/'') d = d" "takeWhile (\<lambda>c. c \<noteq> CHR '':'') d = d" "map lower_char d = d"
    using c by (auto simp: takeWhile_eq_all_conv map_idI)
  ultimately show ?thesis by (simp only: bare_domain_def Let_def ToLower_def)
qed

lemma normalize_valid: "normalizeDomain s = Inr d \<longleftrightarrow> d = bare_domain s \<and> isValidDomain d"
  by (auto simp: normalizeDomain_def Let_def)

lemma normalize_idem: "normalizeDomain s = Inr d \<Longrightarrow> normalizeDomain d = Inr d"
  by (auto simp: normalize_valid isValidDomain_def bare_domain_plain)

section \<open>The tables\<close>

definition members_ok :: "'u tenant_member list \<Rightarrow> bool" where
  "members_ok ms \<longleftrightarrow> distinct (map (\<lambda>m. (tm_user m, tm_tenant m)) ms) \<and> distinct (map tm_user (filter tm_default ms))"

lemma members_ok_filter:
  assumes "members_ok ms"
  shows "members_ok (filter P ms)"
proof -
  have "filter tm_default (filter P ms) = filter P (filter tm_default ms)" by (induction ms) auto
  with assms show ?thesis by (simp only: members_ok_def distinct_map_filter)
qed

lemma members_ok_map:
  assumes "\<And>m. tm_user (f m) = tm_user m \<and> tm_tenant (f m) = tm_tenant m \<and> tm_default (f m) = tm_default m"
  shows "members_ok (map f ms) = members_ok ms"
  by (simp add: members_ok_def filter_map comp_def assms)

lemma members_ok_Cons:
  "members_ok (m # ms) \<longleftrightarrow> (tm_user m, tm_tenant m) \<notin> (\<lambda>m. (tm_user m, tm_tenant m)) ` set ms \<and>
     (tm_default m \<longrightarrow> tm_user m \<notin> tm_user ` set (filter tm_default ms)) \<and> members_ok ms"
  by (auto simp: members_ok_def)

lemma members_ok_default:
  assumes "members_ok ms"
  shows "members_ok (map (\<lambda>m. if tm_user m = u then m\<lparr>tm_default := tm_tenant m = t\<rparr> else m) ms)"
  using assms
proof (induction ms)
  case (Cons m ms)
  let ?f = "\<lambda>m. if tm_user m = u then m\<lparr>tm_default := tm_tenant m = t\<rparr> else m"
  have IH: "members_ok (map ?f ms)" using Cons by (simp only: members_ok_Cons)
  have new: "(tm_user m, tm_tenant m) \<notin> (\<lambda>m. (tm_user m, tm_tenant m)) ` set ms" using Cons.prems by (simp only: members_ok_Cons not_False_eq_True)
  have k: "tm_user (?f x) = tm_user x" "tm_tenant (?f x) = tm_tenant x" for x by simp_all
  have default: "tm_default (?f m) \<longrightarrow> tm_user m \<notin> tm_user ` set (filter tm_default (map ?f ms))"
  proof (intro impI notI)
    assume that: "tm_default (?f m)" and "tm_user m \<in> tm_user ` set (filter tm_default (map ?f ms))"
    then obtain m' where "m' \<in> set ms" "tm_user (?f m') = tm_user m" "tm_default (?f m')" by (auto simp only: set_filter set_map)
    with k have m': "m' \<in> set ms" "tm_user m' = tm_user m" "tm_default (?f m')" by metis+
    show False
    proof (cases "tm_user m = u")
      case True
      with m' that have "tm_tenant m' = tm_tenant m" by simp
      with m' new show False by (metis (no_types, lifting) rev_image_eqI)
    next
      case False
      with m' that have "tm_default m" "tm_default m'" by simp_all
      moreover have "tm_user m \<notin> tm_user ` {x \<in> set ms. tm_default x}"
        using Cons.prems calculation(1) by (simp add: members_ok_def)
      ultimately show False using m'(1,2) by (metis (mono_tags, lifting) mem_Collect_eq rev_image_eqI)
    qed
  qed
  have img: "(\<lambda>m. (tm_user m, tm_tenant m)) ` set (map ?f ms) = (\<lambda>m. (tm_user m, tm_tenant m)) ` set ms"
    by (simp only: set_map image_image k)
  show ?case unfolding list.map members_ok_Cons k img using IH new default by blast
qed (simp add: members_ok_def)

definition tenants_ok :: "'u tenant_db \<Rightarrow> bool" where
  "tenants_ok db \<longleftrightarrow>
     distinct (map tn_ID (td_rows db)) \<and> distinct (map tn_Name (td_rows db)) \<and> distinct (map tn_Domain (td_rows db)) \<and>
     (case td_members db of None \<Rightarrow> True | Some ms \<Rightarrow> members_ok ms)"

lemma tenants_ok_rows:
  "tenants_ok (db\<lparr>td_rows := rows\<rparr>) \<longleftrightarrow>
     distinct (map tn_ID rows) \<and> distinct (map tn_Name rows) \<and> distinct (map tn_Domain rows) \<and>
     (case td_members db of None \<Rightarrow> True | Some ms \<Rightarrow> members_ok ms)"
  by (simp add: tenants_ok_def)

lemma tenant_create_ok: "tenants_ok db \<Longrightarrow> tenants_ok (snd (pg_TenantCreate uu newID now t db))"
  unfolding pg_TenantCreate_def Let_def tenants_ok_def tenant_clash_def by (auto split: if_splits option.splits)

lemma distinct_replace:
  assumes "distinct (map f rows)" "distinct (map g rows)" "\<forall>row \<in> set rows. f row \<noteq> i \<longrightarrow> g row \<noteq> v"
    and "\<forall>row \<in> set rows. f row = i \<longrightarrow> g (h row) = v"
  shows "distinct (map g (map (\<lambda>row. if f row = i then h row else row) rows))"
  using assms by (induction rows) (auto simp: image_iff split: if_splits)

lemma update_rows:
  assumes "tenants_ok db" "\<forall>row \<in> set (td_rows db). tn_ID row \<noteq> i \<longrightarrow> \<not> tenant_clash t row"
  shows "tenants_ok (db\<lparr>td_rows := map (\<lambda>row. if tn_ID row = i
    then t\<lparr>tn_ID := i, tn_CreatedAt := tn_CreatedAt row, tn_UpdatedAt := stored\<rparr> else row) (td_rows db)\<rparr>)"
proof -
  let ?rows = "map (\<lambda>row. if tn_ID row = i
      then t\<lparr>tn_ID := i, tn_CreatedAt := tn_CreatedAt row, tn_UpdatedAt := stored\<rparr> else row) (td_rows db)"
  have d: "distinct (map tn_ID (td_rows db))" "distinct (map tn_Name (td_rows db))" "distinct (map tn_Domain (td_rows db))"
    using assms(1) by (simp_all add: tenants_ok_def)
  have "map tn_ID ?rows = map tn_ID (td_rows db)" by simp
  then have "distinct (map tn_ID ?rows)" using d(1) by metis
  moreover have "distinct (map tn_Name ?rows)"
    by (rule distinct_replace [OF d(1,2), where v = "tn_Name t"]) (use assms(2) in \<open>auto simp: tenant_clash_def\<close>)
  moreover have "distinct (map tn_Domain ?rows)"
    by (rule distinct_replace [OF d(1,3), where v = "tn_Domain t"]) (use assms(2) in \<open>auto simp: tenant_clash_def\<close>)
  ultimately show ?thesis unfolding tenants_ok_rows using assms(1) by (simp only: tenants_ok_def)
qed

lemma tenant_update_ok:
  assumes "tenants_ok db"
  shows "tenants_ok (snd (pg_TenantUpdate now stored i t db))"
  using assms update_rows [OF assms, of i "t\<lparr>tn_UpdatedAt := now\<rparr>" stored]
  by (auto simp only: pg_TenantUpdate_def Let_def snd_conv split: if_splits)

lemma delete_ok: "tenants_ok db \<Longrightarrow> tenants_ok (snd (pg_TenantDelete i db))"
  by (auto simp: pg_TenantDelete_def tenants_ok_def members_ok_filter distinct_map_filter split: option.splits)

lemma add_user_ok:
  assumes "tenants_ok db"
  shows "tenants_ok (snd (pg_AddUserToTenant stored tenantID userID isAdmin db))"
proof (cases "td_members db")
  case (Some ms)
  then have ms: "members_ok ms" using assms by (simp add: tenants_ok_def)
  have "members_ok (map (\<lambda>m. if is_member userID tenantID m then m\<lparr>tm_status := ''active'', tm_admin := isAdmin\<rparr> else m) ms)"
    using ms by (simp add: members_ok_map)
  moreover have "members_ok (ms @ [\<lparr>tm_user = userID, tm_tenant = tenantID, tm_status = ''active'',
      tm_admin = isAdmin, tm_default = False, tm_joined = stored\<rparr>])" if "\<not> list_ex (is_member userID tenantID) ms"
    using ms that by (auto simp: members_ok_def list_ex_iff is_member_def)
  ultimately show ?thesis using assms Some by (simp add: pg_AddUserToTenant_def tenants_ok_def)
qed (simp add: pg_AddUserToTenant_def assms)

lemma remove_user_ok: "tenants_ok db \<Longrightarrow> tenants_ok (snd (pg_RemoveUserFromTenant tenantID userID db))"
  by (auto simp: pg_RemoveUserFromTenant_def tenants_ok_def members_ok_filter split: option.splits)

lemma set_default_ok: "tenants_ok db \<Longrightarrow> tenants_ok (snd (pg_SetDefaultTenant userID tenantID db))"
  by (cases "td_members db") (simp_all add: pg_SetDefaultTenant_def tenants_ok_def members_ok_default)

section \<open>Runs of the service\<close>

lemma domain_event_db [simp]: "ts_db (domain_event env draw actor e i d st) = ts_db st"
  by (simp add: domain_event_def Let_def)

text \<open>The prefix of the service is not the one that the audit log accepts.\<close>

lemma domain_event_none [simp]: "domain_event env draw actor e i d st = st"
  by (simp add: domain_event_def Let_def LogEvent_def NewAuditLog_def AuditLogReq_Parse_def FormatTenantID_def ParseTenantID_def
      ParsePrefixedID_def normalize_prefix_def HasPrefix_def HasSuffix_def)

datatype 'u tenant_act =
    TCreate 'u time "'u tenant"
  | TUpdate time time 'u "'u tenant"
  | TDelete 'u
  | TAddUser time 'u 'u bool
  | TRemoveUser 'u 'u
  | TSetDefault 'u 'u
  | TAddDomain "'u tenant_draw" "'u domain_params" "'u actor"
  | TVerifyDomain dns "'u tenant_draw" "'u domain_params" "'u actor"
  | TRemoveDomain "'u tenant_draw" 'u "'u actor"

definition on_db :: "('u tenant_db \<Rightarrow> 'r \<times> 'u tenant_db) \<Rightarrow> ('u, 'ip) tenants \<Rightarrow> ('u, 'ip) tenants" where
  "on_db f st = st\<lparr>ts_db := snd (f (ts_db st))\<rparr>"

fun tenant_do :: "('u, 'ip) audit_env \<Rightarrow> 'u tenant_act \<Rightarrow> ('u, 'ip) tenants \<Rightarrow> ('u, 'ip) tenants" where
  "tenant_do env (TCreate newID now t) st = on_db (pg_TenantCreate (ae_uu env) newID now t) st"
| "tenant_do env (TUpdate now stored i t) st = on_db (pg_TenantUpdate now stored i t) st"
| "tenant_do env (TDelete i) st = on_db (pg_TenantDelete i) st"
| "tenant_do env (TAddUser stored t u a) st = on_db (pg_AddUserToTenant stored t u a) st"
| "tenant_do env (TRemoveUser t u) st = on_db (pg_RemoveUserFromTenant t u) st"
| "tenant_do env (TSetDefault u t) st = on_db (pg_SetDefaultTenant u t) st"
| "tenant_do env (TAddDomain draw params actor) st = snd (AddDomain env draw params actor st)"
| "tenant_do env (TVerifyDomain net draw params actor) st = snd (VerifyDomain env net draw params actor st)"
| "tenant_do env (TRemoveDomain draw i actor) st = snd (RemoveDomain env draw i actor st)"

definition tenant_run :: "('u, 'ip) audit_env \<Rightarrow> 'u tenant_act list \<Rightarrow> ('u, 'ip) tenants \<Rightarrow> ('u, 'ip) tenants" where
  "tenant_run env acts st = fold (tenant_do env) acts st"

lemma tenant_update_ok': "tenants_ok db \<Longrightarrow> pg_TenantUpdate now stored i t db = (r, db') \<Longrightarrow> tenants_ok db'"
  using tenant_update_ok [of db now stored i t] by simp

lemma AddDomain_ok: "tenants_ok (ts_db st) \<Longrightarrow> tenants_ok (ts_db (snd (AddDomain env draw params actor st)))"
  by (auto simp: AddDomain_def Let_def dest: tenant_update_ok' split: sum.splits prod.splits)

lemma RemoveDomain_ok: "tenants_ok (ts_db st) \<Longrightarrow> tenants_ok (ts_db (snd (RemoveDomain env draw i actor st)))"
  by (auto simp: RemoveDomain_def dest: tenant_update_ok' split: sum.splits prod.splits)

lemma VerifyDomain_state: "snd (VerifyDomain env net draw params actor st) = st"
  by (simp add: VerifyDomain_def split: sum.splits bool.splits)

lemma tenant_do_ok: "tenants_ok (ts_db st) \<Longrightarrow> tenants_ok (ts_db (tenant_do env act st))"
  by (cases act)
    (simp_all add: on_db_def tenant_create_ok tenant_update_ok delete_ok add_user_ok remove_user_ok set_default_ok AddDomain_ok RemoveDomain_ok
      VerifyDomain_state)

lemma tenant_run_ok: "tenants_ok (ts_db st) \<Longrightarrow> tenants_ok (ts_db (tenant_run env acts st))"
  unfolding tenant_run_def by (induction acts arbitrary: st) (simp_all add: tenant_do_ok)

lemma tenant_do_log: "ts_log (tenant_do env act st) = ts_log st"
  by (cases act) (simp_all add: on_db_def AddDomain_def RemoveDomain_def VerifyDomain_state Let_def split: sum.splits prod.splits)

lemma tenant_events_never_audited: "ts_log (tenant_run env acts st) = ts_log st"
  unfolding tenant_run_def by (induction acts arbitrary: st) (simp_all add: tenant_do_log)

text \<open>What a successful \<open>AddDomain\<close> leaves in the table.\<close>

lemma AddDomain_row:
  assumes "tenants_ok (ts_db st)" "AddDomain env draw params actor st = (Inr info, st')"
  shows "dm_Domain info = bare_domain (dp_Domain params) \<and> isValidDomain (dm_Domain info) \<and> td_up (ts_db st') \<and> tenants_ok (ts_db st') \<and>
    dm_VerificationCode info = generateVerificationCode (ae_uu env) (tw_code draw) (tw_spare draw) \<and>
    (\<exists>t \<in> set (td_rows (ts_db st')). tn_ID t = dp_TenantID params \<and> tn_Domain t = dm_Domain info)"
proof -
  obtain d where n: "normalizeDomain (dp_Domain params) = Inr d"
    using assms(2) by (cases "normalizeDomain (dp_Domain params)") (simp_all add: AddDomain_def split: if_splits)
  obtain t where t: "pg_TenantByID (dp_TenantID params) (ts_db st) = Inr t"
    using assms(2) n by (cases "pg_TenantByID (dp_TenantID params) (ts_db st)") (simp_all add: AddDomain_def split: if_splits)
  obtain r db where u: "pg_TenantUpdate (tw_now draw) (tw_stored draw) (tn_ID t) (t\<lparr>tn_Domain := d\<rparr>) (ts_db st) = (r, db)" by fastforce
  have r: "\<exists>x. r = Inr x" and st': "st' = st\<lparr>ts_db := db\<rparr>" and i: "dm_Domain info = d"
    "dm_VerificationCode info = generateVerificationCode (ae_uu env) (tw_code draw) (tw_spare draw)"
    using assms(2) n t u by (auto simp: AddDomain_def split: if_splits sum.splits)
  from t have t': "t \<in> set (td_rows (ts_db st))" "tn_ID t = dp_TenantID params" "td_up (ts_db st)"
    by (auto simp: pg_TenantByID_def one_tenant_def dest: find_SomeD split: if_splits option.splits)
  let ?f = "\<lambda>row. if tn_ID row = tn_ID t then t\<lparr>tn_Domain := d, tn_UpdatedAt := tw_now draw, tn_ID := tn_ID t,
      tn_CreatedAt := tn_CreatedAt row, tn_UpdatedAt := tw_stored draw\<rparr> else row"
  have rows: "td_rows db = map ?f (td_rows (ts_db st))" "td_up db"
    using u t' r by (auto simp: pg_TenantUpdate_def Let_def split: if_splits)
  have "?f t \<in> set (td_rows db)" unfolding rows(1) set_map using t'(1) by (rule imageI)
  then have "\<exists>x \<in> set (td_rows db). tn_ID x = dp_TenantID params \<and> tn_Domain x = d" "td_up db"
    using t' rows(2) by (auto intro: bexI [of _ "?f t"])
  then show ?thesis using n st' i tenant_update_ok' [OF assms(1) u] by (auto simp: normalize_valid)
qed

lemma tenant_found:
  assumes "tenants_ok db" "td_up db" "t \<in> set (td_rows db)"
  shows "pg_TenantByID (tn_ID t) db = Inr t \<and> pg_TenantByDomain (tn_Domain t) db = Inr t"
proof -
  have "find (\<lambda>x. tn_ID x = tn_ID t) (td_rows db) = Some t" "find (\<lambda>x. tn_Domain x = tn_Domain t) (td_rows db) = Some t"
    using assms(1,3) find_unique [of tn_ID "td_rows db"] find_unique [of tn_Domain "td_rows db"] by (simp_all add: tenants_ok_def)
  then show ?thesis using assms(2) by (simp add: pg_TenantByID_def pg_TenantByDomain_def one_tenant_def)
qed

text \<open>after whatever was created, changed and deleted, a domain that a tenant has added leads to that tenant and to no other, in
  every spelling with the same host: with a scheme, a port, a path, or in other letters.\<close>

lemma added_domain_resolves:
  assumes "td_rows (ts_db st0) = []" "td_members (ts_db st0) \<in> {None, Some []}" "st = tenant_run env acts st0"
    and "AddDomain env draw params actor st = (Inr info, st')" and "bare_domain spelling = bare_domain (dp_Domain params)"
  shows "\<exists>t. GetTenantByDomain spelling st' = Inr t \<and> tn_ID t = dp_TenantID params \<and> tn_Domain t = dm_Domain info \<and>
    (\<forall>t' \<in> set (td_rows (ts_db st')). tn_Domain t' = dm_Domain info \<longrightarrow> t' = t)"
proof -
  have "tenants_ok (ts_db st0)" using assms(1,2) by (auto simp: tenants_ok_def members_ok_def)
  then have ok: "tenants_ok (ts_db st)" by (simp add: assms(3) tenant_run_ok)
  from AddDomain_row [OF this assms(4)] obtain t where d: "dm_Domain info = bare_domain spelling" "isValidDomain (dm_Domain info)"
    and db: "td_up (ts_db st')" "tenants_ok (ts_db st')"
    and t: "t \<in> set (td_rows (ts_db st'))" "tn_ID t = dp_TenantID params" "tn_Domain t = dm_Domain info"
    using assms(5) by auto
  have "normalizeDomain spelling = Inr (dm_Domain info)" using d by (simp add: normalize_valid)
  then have "GetTenantByDomain spelling st' = Inr t" using tenant_found [OF db(2,1) t(1)] t(3) by (simp add: GetTenantByDomain_def)
  moreover have "t' = t" if "t' \<in> set (td_rows (ts_db st'))" "tn_Domain t' = dm_Domain info" for t'
    using that t db(2) distinct_key_eq [of tn_Domain "td_rows (ts_db st')" t' t] by (simp add: tenants_ok_def)
  ultimately show ?thesis using t(2,3) by blast
qed


text \<open>A tenant without a domain is stored with the empty domain, which is unique like any other: there can be only one, and a domain cannot
  be removed while there is another.\<close>

lemma second_bare_tenant_refused:
  assumes "row \<in> set (td_rows db)" "tn_Domain row = []" "tn_Domain t = []"
  shows "pg_TenantCreate uu newID now t db = (Inl TenantDbError, db)"
  using assms by (auto simp: pg_TenantCreate_def Let_def tenant_clash_def)

lemma domain_not_removed:
  assumes "row \<in> set (td_rows (ts_db st))" "tn_Domain row = []" "pg_TenantByID i (ts_db st) = Inr t" "tn_Domain t \<noteq> []" "tn_ID row \<noteq> i"
  shows "RemoveDomain env draw i actor st = (Some (TenantUpdateFailed TenantDbError), st)"
proof -
  have t: "t \<in> set (td_rows (ts_db st))" "tn_ID t = i" "td_up (ts_db st)"
    using assms(3) by (auto simp: pg_TenantByID_def one_tenant_def dest: find_SomeD split: if_splits option.splits)
  then have "pg_TenantUpdate now stored i (t\<lparr>tn_Domain := []\<rparr>) (ts_db st) = (Inl TenantDbError, ts_db st)" for now stored
    using assms(1,2,5) by (auto simp: pg_TenantUpdate_def Let_def tenant_clash_def)
  then show ?thesis using assms(3,4) t by (simp add: RemoveDomain_def)
qed

text \<open>The database of the gateway has no table of memberships.\<close>

lemma gateway_memberships_fail:
  assumes "td_members db = None"
  shows "pg_AddUserToTenant stored t u a db = (Some TenantDbError, db)" "pg_RemoveUserFromTenant t u db = (Some TenantDbError, db)"
    "pg_GetUserTenants u db = Inl TenantDbError" "pg_SetDefaultTenant u t db = (Some TenantDbError, db)"
  using assms by (simp_all add: pg_AddUserToTenant_def pg_RemoveUserFromTenant_def pg_GetUserTenants_def pg_SetDefaultTenant_def)

text \<open>A default tenant that the user does not belong to leaves the user without one.\<close>

lemma default_lost:
  assumes "td_members db = Some ms" "td_up db" "\<not> list_ex (is_member u t) ms"
    and "td_members (snd (pg_SetDefaultTenant u t db)) = Some ms'" "m \<in> set ms'" "tm_user m = u"
  shows "fst (pg_SetDefaultTenant u t db) = None \<and> \<not> tm_default m"
proof -
  from assms(1,2,4,5) obtain m0 where m0: "m0 \<in> set ms" "m = (if tm_user m0 = u then m0\<lparr>tm_default := tm_tenant m0 = t\<rparr> else m0)"
    by (auto simp: pg_SetDefaultTenant_def simp del: if_image_distrib)
  then have "tm_user m0 = u" using assms(6) by (simp split: if_splits)
  moreover from this m0(1) assms(3) have "tm_tenant m0 \<noteq> t" by (auto simp: list_ex_iff is_member_def)
  ultimately show ?thesis using m0(2) assms(1,2) by (simp add: pg_SetDefaultTenant_def)
qed

section \<open>A concrete tenant\<close>

definition sample_tenants :: "(string, string) tenants" where
  "sample_tenants = \<lparr>ts_db = \<lparr>td_rows = [], td_users = None, td_members = None, td_up = True\<rparr>, ts_log = sample_audit_db\<rparr>"

definition sample_tenant_acts :: "string tenant_act list" where
  "sample_tenant_acts =
     [TCreate ''t5'' 0 \<lparr>tn_ID = uu_Nil text_uuids, tn_Name = ''Acme'', tn_Domain = [], tn_Status = ''active'', tn_PlanType = ''free'', tn_MaxUsers = 3,
        tn_OwnerID = ''u9'', tn_CreatedAt = 0, tn_UpdatedAt = 0\<rparr>]"

definition sample_tenant_draw :: "string tenant_draw" where
  "sample_tenant_draw = \<lparr>tw_id = ''d6'', tw_code = None, tw_token = None, tw_spare = ''s8'', tw_logID = ''a10'', tw_now = 1, tw_stored = 1\<rparr>"

definition sample_domain_params :: "string domain_params" where
  "sample_domain_params = \<lparr>dp_TenantID = ''t5'', dp_Domain = ''https://Shop.Acme.io/start'', dp_VerificationMethod = []\<rparr>"

definition sample_info :: "string tenant_domain" where
  "sample_info = \<lparr>dm_ID = ''d6'', dm_TenantID = ''t5'', dm_Domain = ''shop.acme.io'',
     dm_VerificationCode = ''gauth-verify-s8'', dm_VerificationToken = ''s8'', dm_Status = ''pending'', dm_VerifiedAt = None,
     dm_CreatedAt = 1, dm_UpdatedAt = 1\<rparr>"

lemma sample_normal: "bare_domain (dp_Domain sample_domain_params) = ''shop.acme.io''" "isValidDomain ''shop.acme.io''"
  by code_simp+

lemma sample_added:
  "fst (AddDomain sample_audit_env sample_tenant_draw sample_domain_params \<lparr>ac_ID = ''u9'', ac_Type = ''user''\<rparr>
     (tenant_run sample_audit_env sample_tenant_acts sample_tenants)) = Inr sample_info"
proof -
  have "normalizeDomain (dp_Domain sample_domain_params) = Inr ''shop.acme.io''" by (simp add: normalize_valid sample_normal)
  moreover have "dp_TenantID sample_domain_params = ''t5''" "dp_Domain sample_domain_params \<noteq> []" by (simp_all add: sample_domain_params_def)
  ultimately show ?thesis
    by (simp add: AddDomain_def tenant_run_def sample_tenant_acts_def sample_tenants_def on_db_def pg_TenantCreate_def pg_TenantByID_def
        pg_TenantByDomain_def one_tenant_def pg_TenantUpdate_def tenant_fits_def tenant_statuses_def int4_def sample_tenant_draw_def
        generateVerificationCode_def generateVerificationToken_def sample_audit_env_def text_uuids_def sample_info_def Let_def)
qed

lemma added_domain_resolves_witness:
  "\<exists>st' t. AddDomain sample_audit_env sample_tenant_draw sample_domain_params \<lparr>ac_ID = ''u9'', ac_Type = ''user''\<rparr>
       (tenant_run sample_audit_env sample_tenant_acts sample_tenants) = (Inr sample_info, st') \<and>
     GetTenantByDomain ''SHOP.acme.io:8443'' st' = Inr t \<and> tn_ID t = ''t5''"
proof -
  obtain st' where a: "AddDomain sample_audit_env sample_tenant_draw sample_domain_params \<lparr>ac_ID = ''u9'', ac_Type = ''user''\<rparr>
      (tenant_run sample_audit_env sample_tenant_acts sample_tenants) = (Inr sample_info, st')"
    using sample_added by (metis prod.collapse)
  have "bare_domain ''SHOP.acme.io:8443'' = bare_domain (dp_Domain sample_domain_params)" by code_simp
  from added_domain_resolves [OF _ _ refl a this] a show ?thesis by (auto simp: sample_tenants_def sample_domain_params_def)
qed

definition sample_dns :: dns where
  "sample_dns = \<lparr>dn_TXT = (\<lambda>d. Some [''gauth-verify-s8'']), dn_CNAME = (\<lambda>d. None), dn_MX = (\<lambda>d. None)\<rparr>"


end
