(* ===== verification/Redis.thy ===== *)
theory Redis
  imports Prelude
begin

text \<open>
  Redis as the sources use it: a store of texts and integers, with the time after which a key is gone. A command fails, without an
  effect, when the server does not answer (\<open>rs_up\<close>, by the number of the command) or when its context is over and the client does
  not send it.
\<close>

section \<open>Redis\<close>

datatype redis_val = RText string | RInt int

type_synonym redis_data = "(string, redis_val \<times> time option) gomap"

record redis =
  rs_data :: redis_data
  rs_up :: "nat \<Rightarrow> bool"
  rs_tick :: nat

text \<open>One command, or the commands of one pipeline: \<open>None\<close> is an error.\<close>

definition redis_cmd :: "bool \<Rightarrow> (redis_data \<Rightarrow> 'a option \<times> redis_data) \<Rightarrow> redis \<Rightarrow> 'a option \<times> redis" where
  "redis_cmd alive f rs =
     (let rs' = rs\<lparr>rs_tick := Suc (rs_tick rs)\<rparr>
      in if alive \<and> rs_up rs (rs_tick rs) then (case f (rs_data rs) of (r, d) \<Rightarrow> (r, rs'\<lparr>rs_data := d\<rparr>)) else (None, rs'))"

definition redis_lookup :: "time \<Rightarrow> string \<Rightarrow> redis_data \<Rightarrow> (redis_val \<times> time option) option" where
  "redis_lookup now k d =
     (case mget d k of
        None \<Rightarrow> None
      | Some (v, None) \<Rightarrow> Some (v, None)
      | Some (v, Some e) \<Rightarrow> if now \<le> e then Some (v, Some e) else None)"

definition GET :: "time \<Rightarrow> string \<Rightarrow> redis_data \<Rightarrow> redis_val option option \<times> redis_data" where
  "GET now k d = (Some (map_option fst (redis_lookup now k d)), d)"

definition SET :: "string \<Rightarrow> redis_val \<Rightarrow> redis_data \<Rightarrow> unit option \<times> redis_data" where
  "SET k v d = (Some (), mput k (v, None) d)"

text \<open>\<open>Set\<close> of the client with a time to live: a positive one is kept, \<open>KeepTTL\<close> (-1) keeps that of the key, any other is none.\<close>

definition SET_ttl :: "time \<Rightarrow> string \<Rightarrow> redis_val \<Rightarrow> duration \<Rightarrow> redis_data \<Rightarrow> unit option \<times> redis_data" where
  "SET_ttl now k v ttl d =
     (let e = (if ttl > 0 then Some (now + ttl)
               else if ttl = - 1 then (case redis_lookup now k d of None \<Rightarrow> None | Some (_, e) \<Rightarrow> e)
               else None)
      in (Some (), mput k (v, e) d))"

definition SETNX :: "time \<Rightarrow> string \<Rightarrow> redis_val \<Rightarrow> duration \<Rightarrow> redis_data \<Rightarrow> bool option \<times> redis_data" where
  "SETNX now k v ttl d =
     (if redis_lookup now k d = None then (Some True, mput k (v, Some (now + ttl)) d) else (Some False, d))"

definition DEL :: "string \<Rightarrow> redis_data \<Rightarrow> unit option \<times> redis_data" where
  "DEL k d = (Some (), mdel k d)"

definition EXPIRE :: "time \<Rightarrow> string \<Rightarrow> duration \<Rightarrow> redis_data \<Rightarrow> unit option \<times> redis_data" where
  "EXPIRE now k ttl d =
     (case redis_lookup now k d of None \<Rightarrow> (Some (), d) | Some (v, _) \<Rightarrow> (Some (), mput k (v, Some (now + ttl)) d))"

definition INCRBY :: "time \<Rightarrow> string \<Rightarrow> int \<Rightarrow> redis_data \<Rightarrow> int option \<times> redis_data" where
  "INCRBY now k i d =
     (case redis_lookup now k d of
        None \<Rightarrow> (Some i, mput k (RInt i, None) d)
      | Some (RInt n, e) \<Rightarrow> (Some (n + i), mput k (RInt (n + i), e) d)
      | Some (RText _, e) \<Rightarrow> (None, d))"

section \<open>What a command does\<close>

named_theorems redis_defs

lemmas redis_ops [redis_defs] = GET_def SET_def SETNX_def DEL_def EXPIRE_def INCRBY_def redis_lookup_def

lemma frame_ops:
  "k \<noteq> k' \<Longrightarrow> mget (snd (GET now k d)) k' = mget d k'"
  "k \<noteq> k' \<Longrightarrow> mget (snd (SET k v d)) k' = mget d k'"
  "k \<noteq> k' \<Longrightarrow> mget (snd (SETNX now k v ttl d)) k' = mget d k'"
  "k \<noteq> k' \<Longrightarrow> mget (snd (DEL k d)) k' = mget d k'"
  "k \<noteq> k' \<Longrightarrow> mget (snd (INCRBY now k i d)) k' = mget d k'"
  by (auto simp: GET_def SET_def SETNX_def DEL_def INCRBY_def mget_mput mget_mdel split: option.splits redis_val.splits)

text \<open>Redis answers every command.\<close>

definition answers :: "redis \<Rightarrow> bool" where
  "answers rs \<longleftrightarrow> (\<forall>n. rs_up rs n)"

lemma cmd_answers: "answers rs \<Longrightarrow> redis_cmd True f rs = (fst (f (rs_data rs)), rs\<lparr>rs_tick := Suc (rs_tick rs), rs_data := snd (f (rs_data rs))\<rparr>)"
  by (simp add: redis_cmd_def answers_def Let_def split: prod.splits)

lemma answers_upd [simp]: "answers (rs\<lparr>rs_tick := t, rs_data := d\<rparr>) = answers rs" "answers (rs\<lparr>rs_tick := t\<rparr>) = answers rs"
  by (simp_all add: answers_def)

end
