(* ===== verification/RedisBreaker.thy ===== *)
theory RedisBreaker
  imports CircuitBreaker Redis
begin

text \<open>
  The circuit breaker that shares its state in Redis (\<open>gateway/adapters/circuitbreaker/redis.go\<close>).

  Redis is the store of theory \<open>Redis\<close>; a command also fails when the context of the call is over and the client does not send
  it. A process that uses the breaker is a local cache over the shared store. A call has two parts: \<open>admit\<close>, which ends
  where the protected function starts, and \<open>settle\<close>, which records how it ended; each reads the clock once. Whether the client
  sends a command on a context that is over is the argument \<open>late\<close>. The counters stay below 64 bits.
\<close>

section \<open>The breaker\<close>

abbreviation (input) closed_text :: string where "closed_text \<equiv> ''closed''"
abbreviation (input) open_text :: string where "open_text \<equiv> ''open''"
abbreviation (input) half_open_text :: string where "half_open_text \<equiv> ''half-open''"

definition cbStatePrefix :: string where "cbStatePrefix = ''cb:state:''"
definition cbMetricsPrefix :: string where "cbMetricsPrefix = ''cb:metrics:''"
definition cbConcurrentPrefix :: string where "cbConcurrentPrefix = ''cb:concurrent:''"
definition cbLockPrefix :: string where "cbLockPrefix = ''cb:lock:''"

definition metric_key :: "string \<Rightarrow> string \<Rightarrow> string" where
  "metric_key name suffix = cbMetricsPrefix @ name @ suffix"

record redis_breaker =
  rb_config :: breaker_config
  rb_cache :: "(string, string \<times> time) gomap"
  rb_cacheTTL :: duration

definition NewRedisCircuitBreaker :: "breaker_config \<Rightarrow> redis_config \<Rightarrow> redis \<Rightarrow> redis_breaker option \<times> redis" where
  "NewRedisCircuitBreaker cfg rcfg rs =
     (case redis_cmd True (\<lambda>d. (Some (), d)) rs of
        (None, rs') \<Rightarrow> (None, rs')
      | (Some _, rs') \<Rightarrow>
          (Some \<lparr>rb_config = breaker_defaults cfg, rb_cache = [],
                 rb_cacheTTL = (if rd_CacheTTL rcfg \<le> 0 then seconds 1 else rd_CacheTTL rcfg)\<rparr>, rs'))"

definition remember :: "time \<Rightarrow> string \<Rightarrow> string \<Rightarrow> redis_breaker \<Rightarrow> redis_breaker" where
  "remember now name state cb = cb\<lparr>rb_cache := mput name (state, now) (rb_cache cb)\<rparr>"

text \<open>\<open>None\<close>: an error; the state that the source returns beside it is not used.\<close>

definition redis_getState ::
  "bool \<Rightarrow> time \<Rightarrow> string \<Rightarrow> redis \<times> redis_breaker \<Rightarrow> string option \<times> redis \<times> redis_breaker" where
  "redis_getState alive now name w =
     (case w of (rs, cb) \<Rightarrow>
        let fresh = (case mget (rb_cache cb) name of
                       None \<Rightarrow> None
                     | Some (state, cachedAt) \<Rightarrow> if now - cachedAt < rb_cacheTTL cb then Some state else None)
        in case fresh of
             Some state \<Rightarrow> (Some state, rs, cb)
           | None \<Rightarrow>
               (case redis_cmd alive (GET now (cbStatePrefix @ name)) rs of
                  (None, rs1) \<Rightarrow> (None, rs1, cb)
                | (Some None, rs1) \<Rightarrow>
                    (case redis_cmd alive (SET (cbStatePrefix @ name) (RText closed_text)) rs1 of
                       (None, rs2) \<Rightarrow> (None, rs2, cb)
                     | (Some _, rs2) \<Rightarrow> (Some closed_text, rs2, remember now name closed_text cb))
                | (Some (Some (RText state)), rs1) \<Rightarrow> (Some state, rs1, remember now name state cb)
                | (Some (Some (RInt n)), rs1) \<Rightarrow> (Some (int_digits n), rs1, remember now name (int_digits n) cb)))"

definition getLastStateChange :: "bool \<Rightarrow> time \<Rightarrow> string \<Rightarrow> redis \<Rightarrow> time option \<times> redis" where
  "getLastStateChange alive now name rs =
     (case redis_cmd alive (GET now (metric_key name '':lastchange'')) rs of
        (None, rs1) \<Rightarrow> (None, rs1)
      | (Some None, rs1) \<Rightarrow>
          (case redis_cmd alive (SET (metric_key name '':lastchange'') (RInt now)) rs1 of
             (None, rs2) \<Rightarrow> (None, rs2)
           | (Some _, rs2) \<Rightarrow> (Some now, rs2))
      | (Some (Some (RInt t)), rs1) \<Rightarrow> (Some t, rs1)
      | (Some (Some (RText _)), rs1) \<Rightarrow> (None, rs1))"

text \<open>Whether the state was set; the lock is released in any case, if Redis answers.\<close>

definition trySetState ::
  "bool \<Rightarrow> time \<Rightarrow> string \<Rightarrow> string \<Rightarrow> redis \<times> redis_breaker \<Rightarrow> bool \<times> redis \<times> redis_breaker" where
  "trySetState alive now name state w =
     (case w of (rs, cb) \<Rightarrow>
        let unlock = (\<lambda>rs. snd (redis_cmd alive (DEL (cbLockPrefix @ name)) rs))
        in case redis_cmd alive (SETNX now (cbLockPrefix @ name) (RText ''1'') (seconds 5)) rs of
             (None, rs1) \<Rightarrow> (False, rs1, cb)
           | (Some False, rs1) \<Rightarrow> (False, rs1, cb)
           | (Some True, rs1) \<Rightarrow>
               (case redis_cmd alive (SET (cbStatePrefix @ name) (RText state)) rs1 of
                  (None, rs2) \<Rightarrow> (False, unlock rs2, cb)
                | (Some _, rs2) \<Rightarrow>
                    (case redis_cmd alive (SET (metric_key name '':lastchange'') (RInt now)) rs2 of
                       (None, rs3) \<Rightarrow> (False, unlock rs3, cb)
                     | (Some _, rs3) \<Rightarrow> (True, unlock rs3, remember now name state cb))))"

definition tryAcquireExecution :: "bool \<Rightarrow> time \<Rightarrow> string \<Rightarrow> breaker_config \<Rightarrow> redis \<Rightarrow> bool \<times> redis" where
  "tryAcquireExecution alive now name cfg rs =
     (let key = cbConcurrentPrefix @ name
      in case redis_cmd alive (INCRBY now key 1) rs of
           (None, rs1) \<Rightarrow> (False, rs1)
         | (Some n, rs1) \<Rightarrow>
             let rs2 = (if n = 1 then snd (redis_cmd alive (EXPIRE now key (seconds 30)) rs1) else rs1)
             in if n > bc_MaxConcurrentRequests cfg then (False, snd (redis_cmd alive (INCRBY now key (- 1)) rs2))
                else (True, rs2))"

definition releaseExecution :: "bool \<Rightarrow> time \<Rightarrow> string \<Rightarrow> redis \<Rightarrow> redis" where
  "releaseExecution alive now name rs = snd (redis_cmd alive (INCRBY now (cbConcurrentPrefix @ name) (- 1)) rs)"

definition incrementRejected :: "bool \<Rightarrow> time \<Rightarrow> string \<Rightarrow> redis \<Rightarrow> redis" where
  "incrementRejected alive now name rs = snd (redis_cmd alive (INCRBY now (metric_key name '':rejected'') 1) rs)"

definition incrementTimeout :: "bool \<Rightarrow> time \<Rightarrow> string \<Rightarrow> redis \<Rightarrow> redis" where
  "incrementTimeout alive now name rs = snd (redis_cmd alive (INCRBY now (metric_key name '':timeout'') 1) rs)"

definition redis_recordFailure ::
  "bool \<Rightarrow> time \<Rightarrow> string \<Rightarrow> string \<Rightarrow> redis \<times> redis_breaker \<Rightarrow> redis \<times> redis_breaker" where
  "redis_recordFailure alive now name currentState w =
     (case w of (rs, cb) \<Rightarrow>
        (case redis_cmd alive (INCRBY now (metric_key name '':failures'') 1) rs of
           (None, rs1) \<Rightarrow> (rs1, cb)
         | (Some failures, rs1) \<Rightarrow>
             if (currentState = closed_text \<and> failures \<ge> bc_Threshold (rb_config cb)) \<or> currentState = half_open_text
             then snd (trySetState alive now name open_text (rs1, cb))
             else (rs1, cb)))"

definition zero_metrics :: "string \<Rightarrow> string list \<Rightarrow> redis_data \<Rightarrow> unit option \<times> redis_data" where
  "zero_metrics name suffixes d = (Some (), fold (\<lambda>s. mput (metric_key name s) (RInt 0, None)) suffixes d)"

definition redis_recordSuccess ::
  "bool \<Rightarrow> time \<Rightarrow> string \<Rightarrow> string \<Rightarrow> redis \<times> redis_breaker \<Rightarrow> redis \<times> redis_breaker" where
  "redis_recordSuccess alive now name currentState w =
     (case w of (rs, cb) \<Rightarrow>
        (case redis_cmd alive (INCRBY now (metric_key name '':successes'') 1) rs of
           (None, rs1) \<Rightarrow> (rs1, cb)
         | (Some successes, rs1) \<Rightarrow>
             if currentState = half_open_text \<and> successes \<ge> bc_HalfOpenSuccessThreshold (rb_config cb)
             then (case trySetState alive now name closed_text (rs1, cb) of
                     (False, w1) \<Rightarrow> w1
                   | (True, rs2, cb2) \<Rightarrow> (snd (redis_cmd alive (zero_metrics name ['':failures'', '':successes'']) rs2), cb2))
             else (rs1, cb)))"

section \<open>Calls\<close>

definition acquire_slot ::
  "bool \<Rightarrow> time \<Rightarrow> string \<Rightarrow> string \<Rightarrow> redis \<times> redis_breaker \<Rightarrow> ('e cb_error + string) \<times> redis \<times> redis_breaker" where
  "acquire_slot alive now name state w =
     (case w of (rs, cb) \<Rightarrow>
        (case tryAcquireExecution alive now name (rb_config cb) rs of
           (False, rs') \<Rightarrow> (Inl ErrTooManyConcurrentRequests, incrementRejected alive now name rs', cb)
         | (True, rs') \<Rightarrow> (Inr state, rs', cb)))"

text \<open>The part before the function: the state in which it runs, or why it does not run.\<close>

definition admit ::
  "bool \<Rightarrow> time \<Rightarrow> string \<Rightarrow> redis \<times> redis_breaker \<Rightarrow> ('e cb_error + string) \<times> redis \<times> redis_breaker" where
  "admit alive now name w0 =
     (case redis_getState alive now name w0 of (found, rs, cb) \<Rightarrow>
        let state = (case found of None \<Rightarrow> closed_text | Some s \<Rightarrow> s)
        in if state = open_text
           then (case getLastStateChange alive now name rs of (changed, rs1) \<Rightarrow>
                   let lastChange = (case changed of None \<Rightarrow> now | Some t \<Rightarrow> t)
                   in if now - lastChange > bc_Timeout (rb_config cb)
                      then (case trySetState alive now name half_open_text (rs1, cb) of
                              (False, w1) \<Rightarrow> (Inl ErrCircuitOpen, w1)
                            | (True, w1) \<Rightarrow> acquire_slot alive now name half_open_text w1)
                      else (Inl ErrCircuitOpen, incrementRejected alive now name rs1, cb))
           else acquire_slot alive now name state (rs, cb))"

text \<open>
  The part after it: \<open>alive\<close> says whether the context of the caller still holds, \<open>over\<close> whether that of the call does. In the branch of
  \<open>ctx.Done\<close> the context of the call is over.
\<close>

definition settle ::
  "bool \<Rightarrow> bool \<Rightarrow> bool \<Rightarrow> time \<Rightarrow> string \<Rightarrow> string \<Rightarrow> 'e outcome \<Rightarrow> redis \<times> redis_breaker \<Rightarrow>
   'e cb_error option \<times> redis \<times> redis_breaker" where
  "settle late alive over now name state oc w =
     (let release = (\<lambda>(rs, cb). (releaseExecution (alive \<or> late) now name rs, cb))
      in case oc of
           FnReturned (Some e) \<Rightarrow> (Some (FnError e), release (redis_recordFailure (\<not> over \<or> late) now name state w))
         | FnReturned None \<Rightarrow> (None, release (redis_recordSuccess (\<not> over \<or> late) now name state w))
         | CtxDone e \<Rightarrow>
             (case w of (rs, cb) \<Rightarrow>
                (Some (CtxError e), release (redis_recordFailure late now name state (incrementTimeout late now name rs, cb)))))"

record call_times =
  ct_alive :: bool
  ct_start :: time
  ct_over :: bool
  ct_end :: time
  ct_alive_end :: bool

definition redis_Execute ::
  "bool \<Rightarrow> call_times \<Rightarrow> string \<Rightarrow> ('s \<Rightarrow> 'e outcome \<times> 's) \<Rightarrow> (redis \<times> redis_breaker) \<times> 's \<Rightarrow>
   'e cb_error option \<times> (redis \<times> redis_breaker) \<times> 's" where
  "redis_Execute late ct name fn ws =
     (case ws of (w, s) \<Rightarrow>
        (case admit (ct_alive ct \<or> late) (ct_start ct) name w of
           (Inl err, w1) \<Rightarrow> (Some err, w1, s)
         | (Inr state, w1) \<Rightarrow>
             (case fn s of (oc, s') \<Rightarrow>
                (case settle late (ct_alive_end ct) (ct_over ct) (ct_end ct) name state oc w1 of (err, w2) \<Rightarrow> (err, w2, s')))))"

definition redis_ExecuteWithFallback ::
  "bool \<Rightarrow> call_times \<Rightarrow> string \<Rightarrow> ('s \<Rightarrow> 'e outcome \<times> 's) \<Rightarrow> ('e cb_error \<Rightarrow> 's \<Rightarrow> 'e cb_error option \<times> 's) option \<Rightarrow>
   (redis \<times> redis_breaker) \<times> 's \<Rightarrow> 'e cb_error option \<times> (redis \<times> redis_breaker) \<times> 's" where
  "redis_ExecuteWithFallback late ct name fn fallback ws =
     (case redis_Execute late ct name fn ws of
        (Some err, w, s) \<Rightarrow>
          (case fallback of None \<Rightarrow> (Some err, w, s) | Some fb \<Rightarrow> (case fb err s of (r, s') \<Rightarrow> (r, w, s')))
      | (None, w, s) \<Rightarrow> (None, w, s))"

definition redis_GetState :: "time \<Rightarrow> string \<Rightarrow> redis \<times> redis_breaker \<Rightarrow> string \<times> redis \<times> redis_breaker" where
  "redis_GetState now name w =
     (case redis_getState True now name w of (None, w') \<Rightarrow> (closed_text, w') | (Some state, w') \<Rightarrow> (state, w'))"

record redis_metrics =
  rm_Name :: string
  rm_State :: string
  rm_Failures :: int
  rm_Successes :: int
  rm_Rejected :: int
  rm_Timeout :: int
  rm_LastStateChange :: time

definition metric_value :: "time \<Rightarrow> string \<Rightarrow> redis_data \<Rightarrow> int" where
  "metric_value now k d = (case redis_lookup now k d of Some (RInt n, _) \<Rightarrow> n | _ \<Rightarrow> 0)"

definition redis_GetMetrics :: "time \<Rightarrow> string \<Rightarrow> redis \<times> redis_breaker \<Rightarrow> redis_metrics \<times> redis \<times> redis_breaker" where
  "redis_GetMetrics now name w =
     (case redis_GetState now name w of (state, rs, cb) \<Rightarrow>
        (case getLastStateChange True now name rs of (changed, rs1) \<Rightarrow>
           let (values, rs2) = redis_cmd True (\<lambda>d. (Some (\<lambda>s. metric_value now (metric_key name s) d), d)) rs1;
               val = (case values of None \<Rightarrow> (\<lambda>_. 0) | Some f \<Rightarrow> f)
           in (\<lparr>rm_Name = name, rm_State = state, rm_Failures = val '':failures'', rm_Successes = val '':successes'',
                rm_Rejected = val '':rejected'', rm_Timeout = val '':timeout'',
                rm_LastStateChange = (case changed of None \<Rightarrow> now | Some t \<Rightarrow> t)\<rparr>, rs2, cb)))"

text \<open>Whether it succeeded.\<close>

definition redis_Reset :: "time \<Rightarrow> string \<Rightarrow> redis \<times> redis_breaker \<Rightarrow> bool \<times> redis \<times> redis_breaker" where
  "redis_Reset now name w =
     (case trySetState True now name closed_text w of
        (False, w1) \<Rightarrow> (False, w1)
      | (True, rs, cb) \<Rightarrow>
          (case redis_cmd True (zero_metrics name ['':failures'', '':successes'', '':rejected'', '':timeout'']) rs of
             (r, rs1) \<Rightarrow> (r \<noteq> None, rs1, cb)))"

section \<open>What a command can change\<close>

lemma key_neq [simp]:
  "cbConcurrentPrefix @ n \<noteq> cbStatePrefix @ m" "cbConcurrentPrefix @ n \<noteq> cbLockPrefix @ m" "cbConcurrentPrefix @ n \<noteq> metric_key m s"
  "cbStatePrefix @ n \<noteq> cbConcurrentPrefix @ m" "cbStatePrefix @ n \<noteq> cbLockPrefix @ m" "cbStatePrefix @ n \<noteq> metric_key m s"
  "metric_key n s \<noteq> cbConcurrentPrefix @ m" "metric_key n s \<noteq> cbStatePrefix @ m" "metric_key n s \<noteq> cbLockPrefix @ m"
  "cbLockPrefix @ n \<noteq> cbConcurrentPrefix @ m" "cbLockPrefix @ n \<noteq> cbStatePrefix @ m" "cbLockPrefix @ n \<noteq> metric_key m s"
  by (simp_all add: cbConcurrentPrefix_def cbStatePrefix_def cbLockPrefix_def cbMetricsPrefix_def metric_key_def)

lemma prefix_neq [simp]: "cbStatePrefix \<noteq> cbConcurrentPrefix" "cbConcurrentPrefix \<noteq> cbStatePrefix"
  by (simp_all add: cbConcurrentPrefix_def cbStatePrefix_def)

text \<open>The counters of running calls, and which commands are answered.\<close>

definition same_slots :: "redis \<Rightarrow> redis \<Rightarrow> bool" where
  "same_slots rs rs' \<longleftrightarrow> rs_up rs' = rs_up rs \<and>
     (\<forall>n. mget (rs_data rs') (cbConcurrentPrefix @ n) = mget (rs_data rs) (cbConcurrentPrefix @ n))"

lemma same_slots_refl [simp]: "same_slots rs rs"
  by (simp add: same_slots_def)

lemma same_slots_trans: "same_slots a b \<Longrightarrow> same_slots b c \<Longrightarrow> same_slots a c"
  by (simp add: same_slots_def)

lemma same_slots_cmd:
  assumes "redis_cmd alive f rs = (r, rs')" "\<And>d n. mget (snd (f d)) (cbConcurrentPrefix @ n) = mget d (cbConcurrentPrefix @ n)"
  shows "same_slots rs rs'"
  using assms(1) assms(2) [of "rs_data rs"] by (auto simp: same_slots_def redis_cmd_def Let_def split: if_splits prod.splits)

lemma frame_zero: "(\<And>s. metric_key name s \<noteq> k) \<Longrightarrow> mget (snd (zero_metrics name ss d)) k = mget d k"
  unfolding zero_metrics_def snd_conv by (induction ss arbitrary: d) (auto simp: mget_mput)

lemma same_slots_getState:
  "redis_getState alive now name (rs, cb) = (r, rs', cb') \<Longrightarrow> same_slots rs rs' \<and> rb_config cb' = rb_config cb"
  by (auto simp: redis_getState_def remember_def Let_def frame_ops dest!: same_slots_cmd
      intro: same_slots_trans split: option.splits prod.splits redis_val.splits if_splits)

lemma same_slots_trySetState:
  "trySetState alive now name st (rs, cb) = (r, rs', cb') \<Longrightarrow> same_slots rs rs' \<and> rb_config cb' = rb_config cb"
proof -
  have del: "same_slots rs (snd (redis_cmd alive (DEL (cbLockPrefix @ name)) rs))" for rs
    using same_slots_cmd [of alive "DEL (cbLockPrefix @ name)" rs] by (auto simp: frame_ops prod_eq_iff)
  assume "trySetState alive now name st (rs, cb) = (r, rs', cb')"
  then show ?thesis
    by (auto simp: trySetState_def remember_def Let_def frame_ops dest!: same_slots_cmd
        split: option.splits prod.splits bool.splits) (meson same_slots_trans del)+
qed

lemma same_slots_lastChange: "getLastStateChange alive now name rs = (r, rs') \<Longrightarrow> same_slots rs rs'"
  by (auto simp: getLastStateChange_def frame_ops dest!: same_slots_cmd
      intro: same_slots_trans split: option.splits prod.splits redis_val.splits)

lemma same_slots_counters: "same_slots rs (incrementRejected alive now name rs)" "same_slots rs (incrementTimeout alive now name rs)"
  using same_slots_cmd [of alive "INCRBY now (metric_key name '':rejected'') 1" rs] same_slots_cmd [of alive "INCRBY now (metric_key name '':timeout'') 1" rs]
  by (auto simp: incrementRejected_def incrementTimeout_def frame_ops prod_eq_iff)

lemma same_slots_recordFailure:
  assumes "redis_recordFailure alive now name st (rs, cb) = (rs', cb')"
  shows "same_slots rs rs' \<and> rb_config cb' = rb_config cb"
proof -
  obtain r rs1 where c: "redis_cmd alive (INCRBY now (metric_key name '':failures'') 1) rs = (r, rs1)" by fastforce
  then have s1: "same_slots rs rs1" by (rule same_slots_cmd) (simp add: frame_ops)
  obtain b rs2 cb2 where t: "trySetState alive now name open_text (rs1, cb) = (b, rs2, cb2)" by (metis prod_cases3)
  from same_slots_trySetState [OF this] s1 have "same_slots rs rs2 \<and> rb_config cb2 = rb_config cb" by (meson same_slots_trans)
  with assms c s1 t show ?thesis by (auto simp: redis_recordFailure_def split: option.splits if_splits)
qed

lemma same_slots_recordSuccess:
  "redis_recordSuccess alive now name st (rs, cb) = (rs', cb') \<Longrightarrow> same_slots rs rs' \<and> rb_config cb' = rb_config cb"
proof -
  have z: "same_slots rs (snd (redis_cmd alive (zero_metrics name ss) rs))" for rs ss
    using same_slots_cmd [of alive "zero_metrics name ss" rs] by (auto simp: frame_zero prod_eq_iff)
  assume "redis_recordSuccess alive now name st (rs, cb) = (rs', cb')"
  then show ?thesis
    by (auto simp: redis_recordSuccess_def frame_ops dest!: same_slots_cmd same_slots_trySetState
        intro: same_slots_trans z split: option.splits prod.splits if_splits bool.splits)
qed

text \<open>Taking and releasing a slot, when Redis answers.\<close>

text \<open>The counter of a name, until \<open>horizon\<close>.\<close>

definition counter_is :: "time \<Rightarrow> redis \<Rightarrow> string \<Rightarrow> int \<Rightarrow> bool" where
  "counter_is horizon rs name k \<longleftrightarrow>
     (case mget (rs_data rs) (cbConcurrentPrefix @ name) of
        None \<Rightarrow> k = 0
      | Some (RInt i, Some e) \<Rightarrow> i = k \<and> horizon \<le> e
      | _ \<Rightarrow> False)"

lemma counter_same: "same_slots rs rs' \<Longrightarrow> counter_is h rs' = counter_is h rs"
  by (intro ext) (simp add: same_slots_def counter_is_def)

lemma answers_same: "same_slots rs rs' \<Longrightarrow> answers rs' = answers rs"
  by (simp add: same_slots_def answers_def)

lemma acquire_counter:
  assumes "answers rs" "counter_is h rs name k" "now < h" "h \<le> now + seconds 30" "tryAcquireExecution True now name cfg rs = (b, rs')"
  shows "answers rs' \<and> (b \<longleftrightarrow> k + 1 \<le> bc_MaxConcurrentRequests cfg) \<and>
    (\<forall>m j. counter_is h rs' m j \<longleftrightarrow> (if m = name then j = (if b then k + 1 else k) else counter_is h rs m j))"
proof (cases "mget (rs_data rs) (cbConcurrentPrefix @ name)")
  case None
  then have "k = 0" using assms(2) by (simp add: counter_is_def)
  then show ?thesis
    using None assms
    by (auto simp: tryAcquireExecution_def cmd_answers redis_defs mget_mput counter_is_def Let_def split: if_splits)
next
  case (Some p)
  then obtain e where e: "p = (RInt k, Some e)" "h \<le> e"
    using assms(2) by (auto simp: counter_is_def split: prod.splits redis_val.splits option.splits)
  then show ?thesis
    using Some assms
    by (auto simp: tryAcquireExecution_def cmd_answers redis_defs mget_mput counter_is_def Let_def split: if_splits)
qed

lemma release_counter:
  assumes "answers rs" "counter_is h rs name k" "now < h" "0 < k" "releaseExecution True now name rs = rs'"
  shows "answers rs' \<and> (\<forall>m j. counter_is h rs' m j \<longleftrightarrow> (if m = name then j = k - 1 else counter_is h rs m j))"
proof -
  obtain e where e: "mget (rs_data rs) (cbConcurrentPrefix @ name) = Some (RInt k, Some e)" "h \<le> e"
    using assms(2,4) by (auto simp: counter_is_def split: prod.splits redis_val.splits option.splits)
  then show ?thesis
    using assms by (auto simp: releaseExecution_def cmd_answers redis_defs mget_mput counter_is_def Let_def split: if_splits)
qed

section \<open>Several processes\<close>

text \<open>Processes that share the store, and the calls that run: process, name and the state they were admitted in.\<close>

record redis_sys =
  ry_redis :: redis
  ry_procs :: "redis_breaker list"
  ry_running :: "(nat \<times> string \<times> string) list"

datatype 'e redis_act =
    RAdmit nat time string
  | RSettle nat bool time "'e outcome"

definition drop_nth :: "nat \<Rightarrow> 'a list \<Rightarrow> 'a list" where
  "drop_nth k xs = take k xs @ drop (Suc k) xs"

fun act_time :: "'e redis_act \<Rightarrow> time" where
  "act_time (RAdmit p now name) = now"
| "act_time (RSettle k over now oc) = now"

text \<open>\<open>RSettle k\<close> ends the \<open>k\<close>-th of the running calls; the contexts of the callers hold.\<close>

fun redis_step :: "bool \<Rightarrow> 'e redis_act \<Rightarrow> redis_sys \<Rightarrow> redis_sys" where
  "redis_step late (RAdmit p now name) y =
     (if p < length (ry_procs y)
      then (case admit True now name (ry_redis y, ry_procs y ! p) :: ('e cb_error + string) \<times> redis \<times> redis_breaker of
              (Inl _, rs, cb) \<Rightarrow> y\<lparr>ry_redis := rs, ry_procs := (ry_procs y)[p := cb]\<rparr>
            | (Inr state, rs, cb) \<Rightarrow>
                y\<lparr>ry_redis := rs, ry_procs := (ry_procs y)[p := cb], ry_running := ry_running y @ [(p, name, state)]\<rparr>)
      else y)"
| "redis_step late (RSettle k over now oc) y =
     (if k < length (ry_running y)
      then (case ry_running y ! k of (p, name, state) \<Rightarrow>
              (case settle late True over now name state oc (ry_redis y, ry_procs y ! p) of (_, rs, cb) \<Rightarrow>
                 y\<lparr>ry_redis := rs, ry_procs := (ry_procs y)[p := cb], ry_running := drop_nth k (ry_running y)\<rparr>))
      else y)"

definition redis_run :: "bool \<Rightarrow> 'e redis_act list \<Rightarrow> redis_sys \<Rightarrow> redis_sys" where
  "redis_run late acts y = fold (redis_step late) acts y"

definition running_of :: "string \<Rightarrow> redis_sys \<Rightarrow> nat" where
  "running_of name y = length (filter (\<lambda>(p, n, s). n = name) (ry_running y))"

definition sys_ok :: "time \<Rightarrow> int \<Rightarrow> redis_sys \<Rightarrow> bool" where
  "sys_ok h M y \<longleftrightarrow> answers (ry_redis y) \<and> (\<forall>cb \<in> set (ry_procs y). bc_MaxConcurrentRequests (rb_config cb) = M) \<and>
     (\<forall>(p, n, s) \<in> set (ry_running y). p < length (ry_procs y)) \<and>
     (\<forall>name. counter_is h (ry_redis y) name (int (running_of name y)) \<and> int (running_of name y) \<le> max 0 M)"

text \<open>What an admission does to the counters: it takes a slot exactly when the call is admitted.\<close>

definition slot_step :: "time \<Rightarrow> string \<Rightarrow> int \<Rightarrow> bool \<Rightarrow> redis \<Rightarrow> redis \<Rightarrow> bool" where
  "slot_step h name k taken rs rs' \<longleftrightarrow> answers rs' \<and>
     (\<forall>m j. counter_is h rs' m j \<longleftrightarrow> (if m = name then j = (if taken then k + 1 else k) else counter_is h rs m j))"

lemma slot_step_none: "answers rs \<Longrightarrow> counter_is h rs name k \<Longrightarrow> same_slots rs rs' \<Longrightarrow> slot_step h name k False rs rs'"
  by (auto simp: slot_step_def counter_same answers_same) (auto simp: counter_is_def split: option.splits prod.splits redis_val.splits)

lemma slot_step_same: "same_slots rs rs1 \<Longrightarrow> slot_step h name k t rs1 rs' \<Longrightarrow> slot_step h name k t rs rs'"
  by (simp add: slot_step_def counter_same)

lemma slot_step_then: "slot_step h name k t rs rs1 \<Longrightarrow> same_slots rs1 rs' \<Longrightarrow> slot_step h name k t rs rs'"
  by (simp add: slot_step_def counter_same answers_same)

lemma acquire_slot_step:
  assumes "acquire_slot True now name st (rs, cb) = (r, rs', cb')" "answers rs" "counter_is h rs name k" "now < h" "h \<le> now + seconds 30"
  shows "slot_step h name k (\<not> isl r) rs rs' \<and> cb' = cb \<and> (isl r \<or> k + 1 \<le> bc_MaxConcurrentRequests (rb_config cb))"
proof -
  obtain b rs1 where a: "tryAcquireExecution True now name (rb_config cb) rs = (b, rs1)" by fastforce
  from acquire_counter [OF assms(2-5) this] have s: "slot_step h name k b rs rs1" "b \<longleftrightarrow> k + 1 \<le> bc_MaxConcurrentRequests (rb_config cb)"
    by (auto simp: slot_step_def)
  have "isl r = (\<not> b)" "cb' = cb" "rs' = (if b then rs1 else incrementRejected True now name rs1)"
    using assms(1) a by (auto simp: acquire_slot_def split: bool.splits)
  then show ?thesis using s slot_step_then [OF s(1) same_slots_counters(1)] by auto
qed

lemma admit_slots:
  assumes "admit True now name (rs, cb) = (r, rs', cb')" "answers rs" "counter_is h rs name k" "now < h" "h \<le> now + seconds 30"
  shows "slot_step h name k (\<not> isl r) rs rs' \<and> rb_config cb' = rb_config cb \<and> (isl r \<or> k + 1 \<le> bc_MaxConcurrentRequests (rb_config cb))"
proof -
  have acquired: ?thesis
    if "acquire_slot True now name st (rs1, cb1) = (r, rs', cb')" "same_slots rs rs1" "rb_config cb1 = rb_config cb" for st rs1 cb1
    using acquire_slot_step [OF that(1), of h k] that(2,3) assms(2-5)
    by (auto simp: counter_same answers_same intro: slot_step_same)
  have rejected: ?thesis if "isl r" "same_slots rs rs'" "rb_config cb' = rb_config cb"
    using slot_step_none [OF assms(2,3) that(2)] that by simp
  obtain found rs1 cb1 where g: "redis_getState True now name (rs, cb) = (found, rs1, cb1)" by (metis prod_cases3)
  then have s1: "same_slots rs rs1" "rb_config cb1 = rb_config cb" using same_slots_getState by blast+
  obtain changed rs2 where l: "getLastStateChange True now name rs1 = (changed, rs2)" by fastforce
  then have s2: "same_slots rs rs2" using s1 same_slots_lastChange same_slots_trans by blast
  obtain b rs3 cb3 where t: "trySetState True now name half_open_text (rs2, cb1) = (b, rs3, cb3)" by (metis prod_cases3)
  from same_slots_trySetState [OF this] have s3: "same_slots rs rs3" "rb_config cb3 = rb_config cb" using s1(2) same_slots_trans [OF s2] by simp_all
  have s4: "same_slots rs (incrementRejected True now name rs2)" using s2 same_slots_counters same_slots_trans by blast
  show ?thesis
  proof (cases "(case found of None \<Rightarrow> closed_text | Some s \<Rightarrow> s) = open_text")
    case False
    then show ?thesis using acquired [OF _ s1] assms(1) g by (simp add: admit_def Let_def)
  next
    case is_open: True
    show ?thesis
    proof (cases "now - (case changed of None \<Rightarrow> now | Some t \<Rightarrow> t) > bc_Timeout (rb_config cb1)")
      case False
      then have "isl r" "rs' = incrementRejected True now name rs2" "cb' = cb1" using is_open assms(1) g l by (auto simp: admit_def Let_def)
      then show ?thesis using rejected s4 s1 by blast
    next
      case True
      show ?thesis
      proof (cases b)
        case False
        then have "isl r" "rs' = rs3" "cb' = cb3" using is_open True assms(1) g l t by (auto simp: admit_def Let_def)
        then show ?thesis using rejected s3 by blast
      next
        case b: True
        then show ?thesis using acquired [OF _ s3] is_open True assms(1) g l t by (simp add: admit_def Let_def)
      qed
    qed
  qed
qed

lemma settle_slots:
  assumes "settle late True over now name st oc (rs, cb) = (r, rs', cb')" "answers rs" "counter_is h rs name k" "now < h" "0 < k"
  shows "answers rs' \<and> rb_config cb' = rb_config cb \<and>
    (\<forall>m j. counter_is h rs' m j \<longleftrightarrow> (if m = name then j = k - 1 else counter_is h rs m j))"
proof -
  obtain rs1 where s1: "same_slots rs rs1" "rb_config cb' = rb_config cb" and r: "rs' = releaseExecution True now name rs1"
  proof (cases oc)
    case (FnReturned e)
    show ?thesis
    proof (cases e)
      case None
      obtain rs1 cb1 where "redis_recordSuccess (\<not> over \<or> late) now name st (rs, cb) = (rs1, cb1)" by fastforce
      then show ?thesis using that same_slots_recordSuccess assms(1) FnReturned None by (fastforce simp: settle_def)
    next
      case (Some x)
      obtain rs1 cb1 where "redis_recordFailure (\<not> over \<or> late) now name st (rs, cb) = (rs1, cb1)" by fastforce
      then show ?thesis using that same_slots_recordFailure assms(1) FnReturned Some by (fastforce simp: settle_def)
    qed
  next
    case (CtxDone e)
    obtain rs1 cb1 where "redis_recordFailure late now name st (incrementTimeout late now name rs, cb) = (rs1, cb1)" by fastforce
    moreover from same_slots_recordFailure [OF this] have "same_slots rs rs1" "rb_config cb1 = rb_config cb"
      using same_slots_counters(2) same_slots_trans by blast+
    ultimately show ?thesis using that assms(1) CtxDone by (fastforce simp: settle_def)
  qed
  have "answers rs1" "counter_is h rs1 name k" using s1 assms by (simp_all add: counter_same answers_same)
  from release_counter [OF this assms(4,5) r [symmetric]] s1 show ?thesis by (simp add: counter_same)
qed

lemma filter_drop_nth:
  assumes "k < length xs"
  shows "length (filter P (drop_nth k xs)) = length (filter P xs) - (if P (xs ! k) then 1 else 0)"
proof -
  have "filter P xs = filter P (take k xs @ [xs ! k] @ drop (Suc k) xs)"
    using id_take_nth_drop [OF assms] by simp
  then show ?thesis unfolding filter_append by (simp add: drop_nth_def)
qed

lemma running_drop:
  assumes "k < length (ry_running y)" "ry_running y ! k = (p, name, st)"
  shows "running_of m (y\<lparr>ry_redis := rs, ry_procs := ps, ry_running := drop_nth k (ry_running y)\<rparr>) =
    running_of m y - (if m = name then 1 else 0)" and "0 < running_of name y"
proof -
  show "running_of m (y\<lparr>ry_redis := rs, ry_procs := ps, ry_running := drop_nth k (ry_running y)\<rparr>) =
      running_of m y - (if m = name then 1 else 0)"
    using filter_drop_nth [OF assms(1), of "\<lambda>(p, n, s). n = m"] assms(2) by (auto simp: running_of_def)
  have "(p, name, st) \<in> set (filter (\<lambda>(p, n, s). n = name) (ry_running y))" using nth_mem [OF assms(1)] assms(2) by simp
  then show "0 < running_of name y" unfolding running_of_def by (rule length_pos_if_in_set)
qed

lemma step_ok:
  fixes act :: "'e redis_act"
  assumes "sys_ok h M y" "act_time act < h" "h \<le> act_time act + seconds 30"
  shows "sys_ok h M (redis_step late act y)"
proof (cases act)
  case (RAdmit p now name)
  show ?thesis
  proof (cases "p < length (ry_procs y)")
    case p: True
    obtain r :: "'e cb_error + string" and rs cb where a: "admit True now name (ry_redis y, ry_procs y ! p) = (r, rs, cb)" by (metis prod_cases3)
    have c: "answers (ry_redis y)" "counter_is h (ry_redis y) name (int (running_of name y))" and M: "bc_MaxConcurrentRequests (rb_config (ry_procs y ! p)) = M"
      using assms(1) p by (auto simp: sys_ok_def)
    from admit_slots [OF a c] assms(2,3) RAdmit
    have s: "slot_step h name (int (running_of name y)) (\<not> isl r) (ry_redis y) rs" "rb_config cb = rb_config (ry_procs y ! p)"
      "isl r \<or> int (running_of name y) + 1 \<le> M" using M by auto
    have "running_of m (redis_step late act y) = running_of m y + (if m = name \<and> \<not> isl r then 1 else 0)" for m
      using a p RAdmit by (cases r) (auto simp: running_of_def)
    moreover have "ry_redis (redis_step late act y) = rs" "ry_procs (redis_step late act y) = (ry_procs y)[p := cb]"
      "set (ry_running (redis_step late act y)) \<subseteq> set (ry_running y) \<union> {(q, n, st). q = p}"
      using a p RAdmit by (cases r; auto)+
    ultimately show ?thesis using assms(1) s M p
      by (auto simp: sys_ok_def slot_step_def dest!: set_update_subset_insert [THEN subsetD])
  qed (simp add: RAdmit assms(1))
next
  case (RSettle k over now oc)
  show ?thesis
  proof (cases "k < length (ry_running y)")
    case k: True
    obtain p name st where n: "ry_running y ! k = (p, name, st)" by (metis prod_cases3)
    obtain r rs cb where a: "settle late True over now name st oc (ry_redis y, ry_procs y ! p) = (r, rs, cb)" by (metis prod_cases3)
    have p: "p < length (ry_procs y)" using assms(1) nth_mem [OF k] n by (auto simp: sys_ok_def)
    have c: "answers (ry_redis y)" "counter_is h (ry_redis y) name (int (running_of name y))"
      using assms(1) by (auto simp: sys_ok_def)
    have pos: "0 < running_of name y" using running_drop(2) [OF k n] .
    from settle_slots [OF a c] assms(2) RSettle pos
    have s: "answers rs" "rb_config cb = rb_config (ry_procs y ! p)"
      "\<forall>m j. counter_is h rs m j \<longleftrightarrow> (if m = name then j = int (running_of name y) - 1 else counter_is h (ry_redis y) m j)" by auto
    have y': "redis_step late act y = y\<lparr>ry_redis := rs, ry_procs := (ry_procs y)[p := cb], ry_running := drop_nth k (ry_running y)\<rparr>"
      using a k n RSettle by simp
    have sub: "set (drop_nth k (ry_running y)) \<subseteq> set (ry_running y)" by (auto simp: drop_nth_def dest: in_set_takeD in_set_dropD)
    have "int (running_of m y - (if m = name then 1 else 0)) = (if m = name then int (running_of name y) - 1 else int (running_of m y))" for m
      using pos by auto
    moreover have "int (running_of name y) \<le> max 0 M" using assms(1) unfolding sys_ok_def by blast
    then have "int (running_of name y) - 1 \<le> max 0 M" by linarith
    ultimately show ?thesis using assms(1) s p sub unfolding y' sys_ok_def running_drop(1) [OF k n]
      by (auto dest!: set_update_subset_insert [THEN subsetD] split: if_splits)
  qed (simp add: RSettle assms(1))
qed

lemma run_ok:
  "sys_ok h M y \<Longrightarrow> (\<And>act. act \<in> set acts \<Longrightarrow> act_time act < h \<and> h \<le> act_time act + seconds 30) \<Longrightarrow> sys_ok h M (redis_run late acts y)"
  unfolding redis_run_def by (induction acts arbitrary: y) (auto intro!: step_ok)


text \<open>Afterwards the counter is gone while calls still run: with one call allowed, two run.\<close>

definition sample_redis_config :: breaker_config where
  "sample_redis_config =
     \<lparr>bc_Enabled = True, bc_Provider = ''redis'', bc_Threshold = 3, bc_Timeout = seconds 60, bc_HalfOpenSuccessThreshold = 2,
      bc_MaxConcurrentRequests = 1, bc_RequestTimeout = seconds 2, bc_Redis = None\<rparr>"

definition sample_sys :: redis_sys where
  "sample_sys =
     \<lparr>ry_redis = \<lparr>rs_data = [], rs_up = (\<lambda>_. True), rs_tick = 0\<rparr>,
      ry_procs = [\<lparr>rb_config = sample_redis_config, rb_cache = [], rb_cacheTTL = seconds 1\<rparr>], ry_running = []\<rparr>"

lemma slots_lost_after_expiry:
  "running_of ''s'' (redis_run False [RAdmit 0 0 ''s'' :: unit redis_act, RAdmit 0 (seconds 31) ''s''] sample_sys) = 2"
  by code_simp


section \<open>Calls that time out\<close>

definition never_failed :: "string \<Rightarrow> redis \<times> redis_breaker \<Rightarrow> bool" where
  "never_failed name w \<longleftrightarrow> (case w of (rs, cb) \<Rightarrow>
     answers rs \<and> 1 \<le> bc_MaxConcurrentRequests (rb_config cb) \<and>
     mget (rs_data rs) (cbStatePrefix @ name) \<in> {None, Some (RText closed_text, None)} \<and>
     mget (rs_data rs) (metric_key name '':failures'') = None \<and>
     (\<forall>st t. mget (rb_cache cb) name = Some (st, t) \<longrightarrow> st = closed_text) \<and>
     (case mget (rs_data rs) (cbConcurrentPrefix @ name) of None \<Rightarrow> True | Some (RInt n, _) \<Rightarrow> n \<le> 0 | Some (RText _, _) \<Rightarrow> False))"

lemma never_failed_state:
  assumes "never_failed name (rs, cb)"
  obtains rs' cb' where "redis_getState True now name (rs, cb) = (Some closed_text, rs', cb')" "never_failed name (rs', cb')"
proof (cases "\<exists>t. mget (rb_cache cb) name = Some (closed_text, t) \<and> now - t < rb_cacheTTL cb")
  case True
  then show ?thesis using that assms by (auto simp: redis_getState_def)
next
  case False
  have f: "(case mget (rb_cache cb) name of None \<Rightarrow> None | Some (state, cachedAt) \<Rightarrow> if now - cachedAt < rb_cacheTTL cb then Some state else None) = None"
    using assms False by (auto simp: never_failed_def split: option.splits)
  have up: "answers rs" and st: "mget (rs_data rs) (cbStatePrefix @ name) = None \<or> mget (rs_data rs) (cbStatePrefix @ name) = Some (RText closed_text, None)"
    using assms by (auto simp: never_failed_def)
  from st show ?thesis
  proof
    assume "mget (rs_data rs) (cbStatePrefix @ name) = None"
    then have "redis_getState True now name (rs, cb) =
        (Some closed_text, rs\<lparr>rs_tick := Suc (Suc (rs_tick rs)), rs_data := mput (cbStatePrefix @ name) (RText closed_text, None) (rs_data rs)\<rparr>,
         remember now name closed_text cb)"
      using up f by (simp add: redis_getState_def cmd_answers GET_def SET_def redis_lookup_def)
    then show ?thesis by (rule that) (use assms in \<open>simp add: never_failed_def remember_def mget_mput\<close>)
  next
    assume "mget (rs_data rs) (cbStatePrefix @ name) = Some (RText closed_text, None)"
    then have "redis_getState True now name (rs, cb) =
        (Some closed_text, rs\<lparr>rs_tick := Suc (rs_tick rs), rs_data := rs_data rs\<rparr>, remember now name closed_text cb)"
      using up f by (simp add: redis_getState_def cmd_answers GET_def redis_lookup_def)
    then show ?thesis by (rule that) (use assms in \<open>simp add: never_failed_def remember_def mget_mput\<close>)
  qed
qed

text \<open>The counter after one more or one less, whatever it was before.\<close>

lemma INCRBY_slot:
  assumes "case mget d k of None \<Rightarrow> True | Some (RInt n, _) \<Rightarrow> n \<le> b | Some (RText _, _) \<Rightarrow> False" "0 \<le> b"
  obtains n e where "INCRBY now k i d = (Some n, mput k (RInt n, e) d)" "n \<le> b + i"
proof (cases "redis_lookup now k d")
  case None
  then show ?thesis using that assms(2) by (simp add: INCRBY_def)
next
  case (Some p)
  then obtain n e where "p = (RInt n, e)" "n \<le> b"
    using assms(1) by (auto simp: redis_lookup_def split: option.splits redis_val.splits prod.splits if_splits)
  then show ?thesis using that Some by (simp add: INCRBY_def)
qed

lemma EXPIRE_slot: "\<exists>e'. EXPIRE now k ttl (mput k (v, e) d) = (Some (), mput k (v, e') d)"
  by (auto simp: EXPIRE_def redis_lookup_def mget_mput split: option.splits)

definition slot_only :: "string \<Rightarrow> int \<Rightarrow> redis \<Rightarrow> redis \<Rightarrow> bool" where
  "slot_only name b rs rs' \<longleftrightarrow> rs_up rs' = rs_up rs \<and> (\<exists>n e. n \<le> b \<and> rs_data rs' = mput (cbConcurrentPrefix @ name) (RInt n, e) (rs_data rs))"

lemma never_failed_acquire:
  assumes "never_failed name (rs, cb)"
  obtains rs' where "tryAcquireExecution True now name (rb_config cb) rs = (True, rs')" "slot_only name 1 rs rs'"
proof -
  have up: "answers rs" and M: "1 \<le> bc_MaxConcurrentRequests (rb_config cb)" using assms by (auto simp: never_failed_def)
  obtain n e where i: "INCRBY now (cbConcurrentPrefix @ name) 1 (rs_data rs) = (Some n, mput (cbConcurrentPrefix @ name) (RInt n, e) (rs_data rs))" "n \<le> 1"
    using assms INCRBY_slot [where d = "rs_data rs" and k = "cbConcurrentPrefix @ name" and b = 0 and now = now and i = 1]
    by (auto simp: never_failed_def)
  obtain e' where x: "EXPIRE now (cbConcurrentPrefix @ name) (seconds 30) (mput (cbConcurrentPrefix @ name) (RInt n, e) (rs_data rs)) =
      (Some (), mput (cbConcurrentPrefix @ name) (RInt n, e') (rs_data rs))" using EXPIRE_slot by blast
  have "\<exists>rs'. tryAcquireExecution True now name (rb_config cb) rs = (True, rs') \<and> slot_only name 1 rs rs'"
    using up M i x by (cases "n = 1") (fastforce simp: tryAcquireExecution_def cmd_answers slot_only_def Let_def)+
  then show ?thesis using that by blast
qed

lemma dead_cmd: "redis_cmd False f rs = (None, rs\<lparr>rs_tick := Suc (rs_tick rs)\<rparr>)"
  by (simp add: redis_cmd_def Let_def)

lemma timeout_step:
  assumes "never_failed name (rs, cb)" "ct_alive ct" "ct_alive_end ct" "fn s = (CtxDone e, s')"
  obtains rs' cb' where "redis_Execute False ct name fn ((rs, cb), s) = (Some (CtxError e), (rs', cb'), s')" "never_failed name (rs', cb')"
proof -
  obtain rs1 cb1 where g: "redis_getState True (ct_start ct) name (rs, cb) = (Some closed_text, rs1, cb1)" "never_failed name (rs1, cb1)"
    using never_failed_state [OF assms(1)] by blast
  obtain rs2 where a: "tryAcquireExecution True (ct_start ct) name (rb_config cb1) rs1 = (True, rs2)" "slot_only name 1 rs1 rs2"
    using never_failed_acquire [OF g(2)] by blast
  let ?rs3 = "rs2\<lparr>rs_tick := Suc (Suc (rs_tick rs2))\<rparr>"
  have ex: "redis_Execute False ct name fn ((rs, cb), s) = (Some (CtxError e), (releaseExecution True (ct_end ct) name ?rs3, cb1), s')"
    using assms(2-4) g(1) a(1)
    by (simp add: redis_Execute_def admit_def acquire_slot_def settle_def redis_recordFailure_def incrementTimeout_def dead_cmd)
  have up: "answers ?rs3" and c: "case mget (rs_data ?rs3) (cbConcurrentPrefix @ name) of None \<Rightarrow> True | Some (RInt n, _) \<Rightarrow> n \<le> 1 | Some (RText _, _) \<Rightarrow> False"
    using a(2) g(2) by (auto simp: slot_only_def never_failed_def answers_def mget_mput)
  obtain n x where i: "INCRBY (ct_end ct) (cbConcurrentPrefix @ name) (- 1) (rs_data ?rs3) = (Some n, mput (cbConcurrentPrefix @ name) (RInt n, x) (rs_data ?rs3))" "n \<le> 0"
    using INCRBY_slot [OF c, where now = "ct_end ct" and i = "- 1"] by auto
  have "never_failed name (releaseExecution True (ct_end ct) name ?rs3, cb1)"
    using g(2) a(2) i up by (auto simp: releaseExecution_def cmd_answers never_failed_def slot_only_def mget_mput answers_def)
  with ex show ?thesis by (rule that)
qed



section \<open>Counters that are not reset\<close>

definition plain_call :: "time \<Rightarrow> call_times" where
  "plain_call t = \<lparr>ct_alive = True, ct_start = t, ct_over = False, ct_end = t, ct_alive_end = True\<rparr>"

definition sample_calls :: "(time \<times> nat option) list \<Rightarrow> redis \<times> redis_breaker" where
  "sample_calls cs = fst (fold (\<lambda>(t, oc) ws. snd (redis_Execute False (plain_call t) ''s'' (\<lambda>s. (FnReturned oc, s)) ws)) cs
     ((ry_redis sample_sys, ry_procs sample_sys ! 0), ()))"

text \<open>Three failures among successes open a circuit with threshold three, however far apart.\<close>

lemma failures_add_up:
  "fst (redis_GetState (seconds 900) ''s'' (sample_calls [(0, Some 1), (1, None), (2, None), (3, Some 1), (4, None), (5, None), (6, Some 1)])) = open_text"
  by code_simp

text \<open>Successes from before count towards closing: one success in the half-open state closes a circuit that asks for two.\<close>

lemma old_successes_close:
  "fst (redis_GetState (seconds 900) ''s''
     (sample_calls [(0, None), (1, None), (2, Some 1), (3, Some 1), (4, Some 1), (seconds 100, None)])) = closed_text"
  by code_simp

text \<open>A call whose caller went away keeps its slot.\<close>

lemma cancelled_call_keeps_slot:
  "(case redis_Execute False \<lparr>ct_alive = True, ct_start = 0, ct_over = True, ct_end = 1, ct_alive_end = False\<rparr> ''s''
      (\<lambda>s. (CtxDone ''canceled'' :: unit outcome, s)) ((ry_redis sample_sys, ry_procs sample_sys ! 0), ()) of
     (_, w, s) \<Rightarrow> fst (redis_Execute False (plain_call (seconds 20)) ''s'' (\<lambda>s. (FnReturned None :: unit outcome, s)) (w, s))) =
   Some ErrTooManyConcurrentRequests"
  by code_simp

text \<open>When Redis does not answer no call runs, although the state is then taken to be closed.\<close>

lemma redis_down_rejects:
  assumes "\<forall>n. \<not> rs_up rs n" "rb_cache cb = []"
  shows "fst (redis_Execute late ct name fn ((rs, cb), s)) = Some ErrTooManyConcurrentRequests"
  using assms by (simp add: redis_Execute_def admit_def redis_getState_def acquire_slot_def tryAcquireExecution_def redis_cmd_def Let_def)

end
