(* ===== verification/RedisStores.thy ===== *)
theory RedisStores
  imports AuthzHttp Redis
begin

text \<open>
  The decision cache and the role provider over Redis (\<open>authz/cache/redis.go\<close>, \<open>authz/roles/redis.go\<close>) and the adapter of the
  gateway that gives them to the policy agent (\<open>prism/internal/features/auth/adapters/authz/authz.go\<close>).

  \<open>up\<close> says whether Redis answers an operation; the JSON encoder and the keys that \<open>SCAN\<close> yields for a pattern are arguments. A
  list of roles is read when the policy agent asks for it.
\<close>

section \<open>The decision cache\<close>

definition cached_text :: "time \<Rightarrow> string \<Rightarrow> redis_data \<Rightarrow> string option" where
  "cached_text now k d =
     (case redis_lookup now k d of None \<Rightarrow> None | Some (RText s, _) \<Rightarrow> Some s | Some (RInt n, _) \<Rightarrow> Some (int_digits n))"

definition redis_Get :: "bool \<Rightarrow> (string \<Rightarrow> 'd option) \<Rightarrow> string \<Rightarrow> time \<Rightarrow> string \<Rightarrow> redis_data \<Rightarrow> 'd option" where
  "redis_Get up decode keyPrefix now key d =
     (if \<not> up then None
      else case cached_text now (keyPrefix @ key) d of None \<Rightarrow> None | Some s \<Rightarrow> decode s)"

definition redis_Set ::
  "bool \<Rightarrow> ('d \<Rightarrow> string option) \<Rightarrow> string \<Rightarrow> time \<Rightarrow> string \<Rightarrow> 'd \<Rightarrow> duration \<Rightarrow> redis_data \<Rightarrow> redis_data" where
  "redis_Set up encode keyPrefix now key decision ttl d =
     (case encode decision of
        None \<Rightarrow> d
      | Some decisionJSON \<Rightarrow> if up then snd (SET_ttl now (keyPrefix @ key) (RText decisionJSON) ttl d) else d)"

definition redis_Delete :: "bool \<Rightarrow> string \<Rightarrow> string \<Rightarrow> redis_data \<Rightarrow> redis_data" where
  "redis_Delete up keyPrefix key d = (if up then snd (DEL (keyPrefix @ key) d) else d)"

text \<open>The loop over the keys of the scan deletes them in batches of a thousand.\<close>

fun clear_loop :: "string list \<Rightarrow> string list \<Rightarrow> redis_data \<Rightarrow> redis_data" where
  "clear_loop [] keysToDelete d = (if length keysToDelete > 0 then del_all keysToDelete d else d)"
| "clear_loop (k # ks) keysToDelete d =
     (let batch = keysToDelete @ [k]
      in if length batch \<ge> 1000 then clear_loop ks [] (del_all batch d) else clear_loop ks batch d)"

definition redis_Clear :: "bool \<Rightarrow> (string \<Rightarrow> redis_data \<Rightarrow> string list) \<Rightarrow> string \<Rightarrow> redis_data \<Rightarrow> redis_data" where
  "redis_Clear up scan keyPrefix d = (if up then clear_loop (scan (keyPrefix @ ''*'') d) [] d else d)"

definition redis_cache_ops ::
  "bool \<Rightarrow> (decision \<Rightarrow> string option) \<Rightarrow> (string \<Rightarrow> decision option) \<Rightarrow> (string \<Rightarrow> redis_data \<Rightarrow> string list) \<Rightarrow> string \<Rightarrow>
   redis_data cache_ops" where
  "redis_cache_ops up encode decode scan keyPrefix =
     \<lparr>co_Get = (\<lambda>now1 now2 key d. (redis_Get up decode keyPrefix now1 key d, d)),
      co_Set = (\<lambda>order now1 now2 key decision ttl d. redis_Set up encode keyPrefix now1 key decision ttl d),
      co_Delete = redis_Delete up keyPrefix,
      co_Clear = redis_Clear up scan keyPrefix\<rparr>"

section \<open>The role provider\<close>

record role_provider =
  rp_keyPrefix :: string
  rp_defaultTTL :: duration
  rp_defaultRoles :: "string list"

definition NewRedisRoleProvider :: "(role_provider \<Rightarrow> role_provider) list \<Rightarrow> role_provider" where
  "NewRedisRoleProvider options =
     fold (\<lambda>opt. opt) options \<lparr>rp_keyPrefix = ''roles:'', rp_defaultTTL = hours 24, rp_defaultRoles = []\<rparr>"

definition roles_WithKeyPrefix :: "string \<Rightarrow> role_provider \<Rightarrow> role_provider" where
  "roles_WithKeyPrefix prefix p = p\<lparr>rp_keyPrefix := prefix\<rparr>"

definition WithDefaultTTL :: "duration \<Rightarrow> role_provider \<Rightarrow> role_provider" where
  "WithDefaultTTL ttl p = p\<lparr>rp_defaultTTL := ttl\<rparr>"

definition WithDefaultRoles :: "string list \<Rightarrow> role_provider \<Rightarrow> role_provider" where
  "WithDefaultRoles roles p = p\<lparr>rp_defaultRoles := roles\<rparr>"

text \<open>\<open>None\<close> is an error.\<close>

definition GetRoles ::
  "bool \<Rightarrow> (string \<Rightarrow> string list option) \<Rightarrow> role_provider \<Rightarrow> time \<Rightarrow> redis_data \<Rightarrow> string \<Rightarrow> string list option" where
  "GetRoles up decode p now d userID =
     (if \<not> up then None
      else case cached_text now (rp_keyPrefix p @ userID) d of None \<Rightarrow> Some (rp_defaultRoles p) | Some s \<Rightarrow> decode s)"

definition SetRoles ::
  "bool \<Rightarrow> (string list \<Rightarrow> string option) \<Rightarrow> role_provider \<Rightarrow> time \<Rightarrow> string \<Rightarrow> string list \<Rightarrow> redis_data \<Rightarrow> bool \<times> redis_data" where
  "SetRoles up encode p now userID roles d =
     (case encode roles of
        None \<Rightarrow> (False, d)
      | Some s \<Rightarrow> if up then (True, snd (SET_ttl now (rp_keyPrefix p @ userID) (RText s) (rp_defaultTTL p) d)) else (False, d))"

definition DeleteRoles :: "bool \<Rightarrow> role_provider \<Rightarrow> string \<Rightarrow> redis_data \<Rightarrow> bool \<times> redis_data" where
  "DeleteRoles up p userID d = (if up then (True, snd (DEL (rp_keyPrefix p @ userID) d)) else (False, d))"

section \<open>The adapter\<close>

record authz_config =
  az_RedisAddr :: string
  az_CacheTTL :: duration
  az_MaxCacheSize :: int
  az_Policies :: "policies option"
  az_WebhookPath :: string
  az_WebhookSecret :: string

definition defaultPolicies :: policies where
  "defaultPolicies =
     [(''authz.rego'', Join [CHR 10]
        [[], ''package authz'', [], ''default allow = false'', [], ''# Allow access based on roles'', ''allow if {'',
         ''    # Admin can do anything'', ''    input.user.roles[_] == \"admin\"'', [CHR 0x7D], [], ''allow if {'',
         ''    # Users can read their own data'', ''    input.user.roles[_] == \"user\"'', ''    input.action == \"read\"'',
         ''    input.resource.owner == input.user.id'', [CHR 0x7D], [], ''allow if {'', ''    # Users can read public resources'',
         ''    input.user.roles[_] == \"user\"'', ''    input.action == \"read\"'', ''    input.resource.public == true'', [CHR 0x7D], []])]"

definition gateway_role_provider :: role_provider where
  "gateway_role_provider =
     NewRedisRoleProvider [roles_WithKeyPrefix ''authz:roles:'', WithDefaultTTL (hours 24), WithDefaultRoles [''user'']]"

definition gateway_cache_prefix :: string where
  "gateway_cache_prefix = ''authz:policy:cache:''"

definition adapter_options ::
  "authz_config \<Rightarrow> redis_data \<Rightarrow> (string \<Rightarrow> string list option) \<Rightarrow> (redis_data config \<Rightarrow> redis_data config) list" where
  "adapter_options config redis provider =
     [WithLocalPolicies (case az_Policies config of None \<Rightarrow> defaultPolicies | Some ps \<Rightarrow> ps)] @
     (if az_RedisAddr config \<noteq> []
      then [WithExternalCache (Some redis) (az_CacheTTL config), WithRoleProvider (Some provider),
            WithContextTransformer (CreateRoleTransformer provider)]
      else [WithMemoryCache (az_CacheTTL config) (az_MaxCacheSize config)]) @
     (if az_WebhookPath config \<noteq> [] then [WithWebhook (az_WebhookPath config) (az_WebhookSecret config) []] else [])"

text \<open>\<open>redis\<close> is what Redis holds, \<open>provider\<close> the role provider over it.\<close>

definition New_adapter ::
  "'p outside \<Rightarrow> time \<Rightarrow> authz_config \<Rightarrow> redis_data \<Rightarrow> (string \<Rightarrow> string list option) \<Rightarrow> agent_error + ('p, redis_data) agent" where
  "New_adapter ou now config redis provider = New ou now (adapter_options config redis provider)"

section \<open>The contract of the cache\<close>

text \<open>What the service relies on: the JSON of a decision reads back, and a scan yields every key with the prefix and only those.\<close>

definition codec_ok :: "('d \<Rightarrow> string option) \<Rightarrow> (string \<Rightarrow> 'd option) \<Rightarrow> bool" where
  "codec_ok encode decode \<longleftrightarrow> (\<forall>d. \<exists>s. encode d = Some s \<and> decode s = Some d)"

definition scan_ok :: "(string \<Rightarrow> redis_data \<Rightarrow> string list) \<Rightarrow> string \<Rightarrow> bool" where
  "scan_ok scan keyPrefix \<longleftrightarrow> (\<forall>d k. k \<in> set (scan (keyPrefix @ ''*'') d) \<longleftrightarrow> k \<in> set (mkeys d) \<and> HasPrefix k keyPrefix)"

lemma mget_clear_loop: "mget (clear_loop ks acc d) k = (if k \<in> set ks \<union> set acc then None else mget d k)"
  by (induction ks acc d rule: clear_loop.induct) (auto simp: mget_del_all Let_def)

lemma lookup_clear: "scan_ok scan p \<Longrightarrow> redis_lookup t (p @ k) (redis_Clear True scan p d) = None"
  by (auto simp: redis_Clear_def redis_lookup_def mget_clear_loop scan_ok_def dest: mget_Some_key split: option.splits)

lemma lookup_set_same:
  "redis_lookup t k (snd (SET_ttl now k v ttl d)) = None \<or> (\<exists>e. redis_lookup t k (snd (SET_ttl now k v ttl d)) = Some (v, e))"
  by (auto simp: SET_ttl_def redis_lookup_def mget_mput Let_def split: option.splits)

lemma lookup_set_live:
  "ttl \<noteq> - 1 \<Longrightarrow> t \<le> now + ttl \<or> ttl \<le> 0 \<Longrightarrow> \<exists>e. redis_lookup t k (snd (SET_ttl now k v ttl d)) = Some (v, e)"
  by (auto simp: SET_ttl_def redis_lookup_def mget_mput Let_def)

lemma lookup_set_other: "k' \<noteq> k \<Longrightarrow> redis_lookup t k' (snd (SET_ttl now k v ttl d)) = redis_lookup t k' d"
  by (simp add: SET_ttl_def redis_lookup_def mget_mput Let_def)

lemma lookup_del: "redis_lookup t k' (snd (DEL k d)) = (if k' = k then None else redis_lookup t k' d)"
  by (simp add: DEL_def redis_lookup_def mget_mdel)

text \<open>C19: while Redis answers, the decision cache over Redis keeps the contract that the policy agent relies on: a stored decision is
  found for its time to live and not after something else took its place, other keys are left alone, and \<open>Clear\<close> leaves no
  decision, however many there are.\<close>

theorem redis_cache_keeps_contract:
  assumes "codec_ok encode decode" "scan_ok scan keyPrefix"
  shows "external_cache (redis_Get True decode keyPrefix) (redis_cache_ops True encode decode scan keyPrefix)"
  unfolding external_cache_def
proof (unfold_locales, goal_cases)
  case (4 t key order now1 now2 d ttl c)
  obtain s where s: "encode d = Some s" "decode s = Some d" using assms(1) by (auto simp: codec_ok_def)
  then show ?case
    using lookup_set_same [of t "keyPrefix @ key" now1 "RText s" ttl c]
    by (auto simp: redis_cache_ops_def redis_Set_def redis_Get_def cached_text_def)
next
  case (5 ttl t now1 key order now2 d c)
  obtain s where s: "encode d = Some s" "decode s = Some d" using assms(1) by (auto simp: codec_ok_def)
  then show ?case
    using lookup_set_live [OF 5(1,2), of "keyPrefix @ key" "RText s" c]
    by (auto simp: redis_cache_ops_def redis_Set_def redis_Get_def cached_text_def)
next
  case (6 k key t order now1 now2 d ttl c)
  then show ?case
    by (auto simp: redis_cache_ops_def redis_Set_def redis_Get_def cached_text_def lookup_set_other split: option.splits)
qed (auto simp: redis_cache_ops_def redis_Get_def cached_text_def redis_Delete_def lookup_del lookup_clear [OF assms(2)])

section \<open>Decisions of other policies\<close>

lemma adapter_agent:
  assumes "New_adapter ou now config redis provider = Inr a" "az_RedisAddr config \<noteq> []"
  shows "ag_cache a = Some (ExtCache redis) \<and> cache_enabled a \<and> cf_ContextTransformers (ag_config a) = [CreateRoleTransformer provider]"
  using assms
  by (auto simp: New_adapter_def New_def adapter_options_def WithLocalPolicies_def WithExternalCache_def WithRoleProvider_def WithContextTransformer_def
      WithWebhook_def init_cache_def zero_cache_config_def default_config_def prepareLocalPolicies_def cache_enabled_def Let_def
      split: if_splits option.splits)

text \<open>C20: the cache in Redis outlives the policies: a gateway that starts with a Redis that holds a decision for a request answers with that
  decision, whatever its own policies say.\<close>

theorem started_gateway_serves_old_decision:
  assumes "New_adapter ou now config redis provider = Inr a" "az_RedisAddr config \<noteq> []"
    and "CreateRoleTransformer provider input = Some ti" "generateCacheKey ou (ag_config a) q ti = Some key"
    and "redis_Get True decode keyPrefix (re_get1 rd) key redis = Some d"
  shows "fst (EvaluateQuery ou (redis_cache_ops True encode decode scan keyPrefix) rd q input a) = Inr (d\<lparr>de_Cached := True\<rparr>)"
proof -
  note a = adapter_agent [OF assms(1,2)]
  then have "cache_lookup ou (redis_cache_ops True encode decode scan keyPrefix) rd q ti a = (Some d, a\<lparr>ag_cache := Some (ExtCache redis)\<rparr>)"
    using assms(4,5) by (simp add: cache_lookup_def redis_cache_ops_def)
  then show ?thesis using a assms(3) by (simp add: EvaluateQuery_def)
qed

text \<open>A policy update while Redis does not answer leaves every decision of the old policies in the cache, and succeeds.\<close>

lemma outage_keeps_decisions:
  assumes "UpdatePolicies ou (redis_cache_ops False encode decode scan keyPrefix) now ps a = (None, a')" "ag_cache a = Some (ExtCache d)"
  shows "ag_cache a' = Some (ExtCache d)"
  using assms
  by (auto simp: UpdatePolicies_def prepareLocalPolicies_def redis_cache_ops_def redis_Clear_def Let_def split: if_splits option.splits)

section \<open>Roles\<close>

lemma roles_read_back:
  assumes "codec_ok encode decode" "rp_defaultTTL p \<noteq> - 1" "t \<le> now + rp_defaultTTL p \<or> rp_defaultTTL p \<le> 0"
  shows "fst (SetRoles True encode p now userID roles d)"
    "GetRoles True decode p t (snd (SetRoles True encode p now userID roles d)) userID = Some roles"
    "u \<noteq> userID \<Longrightarrow> GetRoles True decode p t (snd (SetRoles True encode p now userID roles d)) u = GetRoles True decode p t d u"
proof -
  obtain s where s: "encode roles = Some s" "decode s = Some roles" using assms(1) by (auto simp: codec_ok_def)
  then show "fst (SetRoles True encode p now userID roles d)" by (simp add: SetRoles_def)
  obtain e where "redis_lookup t (rp_keyPrefix p @ userID) (snd (SET_ttl now (rp_keyPrefix p @ userID) (RText s) (rp_defaultTTL p) d)) = Some (RText s, e)"
    using lookup_set_live [OF assms(2,3)] by blast
  with s show "GetRoles True decode p t (snd (SetRoles True encode p now userID roles d)) userID = Some roles"
    by (simp add: GetRoles_def SetRoles_def cached_text_def)
  show "GetRoles True decode p t (snd (SetRoles True encode p now userID roles d)) u = GetRoles True decode p t d u" if "u \<noteq> userID"
    using that s by (simp add: GetRoles_def SetRoles_def cached_text_def lookup_set_other)
qed

text \<open>Roles that were set are gone after a day and the user then has the default role, as has a user whose roles were deleted.\<close>

lemma roles_fall_back:
  assumes "codec_ok encode decode" "now + hours 24 < t"
  shows "GetRoles True decode gateway_role_provider t (snd (SetRoles True encode gateway_role_provider now userID roles d)) userID = Some [''user'']"
    "GetRoles True decode gateway_role_provider t (snd (DeleteRoles True gateway_role_provider userID d)) userID = Some [''user'']"
proof -
  obtain s where "encode roles = Some s" using assms(1) by (auto simp: codec_ok_def)
  then show "GetRoles True decode gateway_role_provider t (snd (SetRoles True encode gateway_role_provider now userID roles d)) userID = Some [''user'']"
    using assms(2)
    by (simp add: GetRoles_def SetRoles_def cached_text_def gateway_role_provider_def NewRedisRoleProvider_def roles_WithKeyPrefix_def
        WithDefaultTTL_def WithDefaultRoles_def SET_ttl_def redis_lookup_def mget_mput hours_def minutes_def seconds_def)
  show "GetRoles True decode gateway_role_provider t (snd (DeleteRoles True gateway_role_provider userID d)) userID = Some [''user'']"
    by (simp add: GetRoles_def DeleteRoles_def cached_text_def lookup_del gateway_role_provider_def NewRedisRoleProvider_def
        roles_WithKeyPrefix_def WithDefaultTTL_def WithDefaultRoles_def)
qed

section \<open>A concrete cache\<close>

definition sample_encode :: "decision \<Rightarrow> string option" where
  "sample_encode d =
     Some ([if de_Allowed d then CHR ''y'' else CHR ''n'', if de_Cached d then CHR ''y'' else CHR ''n'', if de_Timestamp d < 0 then CHR ''-'' else CHR ''+''] @
       replicate (nat \<bar>de_Timestamp d\<bar>) CHR ''x'' @ CHR ''|'' # de_Reason d)"

definition sample_decode :: "string \<Rightarrow> decision option" where
  "sample_decode s =
     (case s of
        a # c # sg # rest \<Rightarrow>
          (let n = length (takeWhile (\<lambda>x. x = CHR ''x'') rest)
           in Some \<lparr>de_Allowed = (a = CHR ''y''), de_Reason = drop (Suc n) rest, de_Cached = (c = CHR ''y''),
                    de_Timestamp = (if sg = CHR ''-'' then - int n else int n)\<rparr>)
      | _ \<Rightarrow> None)"

definition sample_scan :: "string \<Rightarrow> redis_data \<Rightarrow> string list" where
  "sample_scan pattern d = filter (\<lambda>k. HasPrefix k (butlast pattern)) (mkeys d)"

lemma sample_codec: "codec_ok sample_encode sample_decode"
proof -
  have t: "takeWhile (\<lambda>x. x = CHR ''x'') (replicate n CHR ''x'' @ CHR ''|'' # r) = replicate n CHR ''x''" for n r by (induction n) auto
  show ?thesis by (auto simp: codec_ok_def sample_encode_def sample_decode_def t Let_def)
qed

theorem redis_cache_keeps_contract_witness:
  "external_cache (redis_Get True sample_decode gateway_cache_prefix)
     (redis_cache_ops True sample_encode sample_decode sample_scan gateway_cache_prefix)"
  by (rule redis_cache_keeps_contract [OF sample_codec]) (simp add: scan_ok_def sample_scan_def)

definition sample_authz_config :: authz_config where
  "sample_authz_config =
     \<lparr>az_RedisAddr = ''redis:6379'', az_CacheTTL = minutes 5, az_MaxCacheSize = 0, az_Policies = Some [(''authz'', ''deny'')],
      az_WebhookPath = [], az_WebhookSecret = []\<rparr>"

definition sample_old_decision :: decision where
  "sample_old_decision = \<lparr>de_Allowed = True, de_Reason = [], de_Cached = False, de_Timestamp = 0\<rparr>"

definition sample_redis_data :: redis_data where
  "sample_redis_data = [(gateway_cache_prefix @ ''data.authz.allow:bob'', RText (the (sample_encode sample_old_decision)), None)]"

theorem started_gateway_serves_old_decision_witness:
  "\<exists>a. New_adapter sample_outside 1 sample_authz_config sample_redis_data (\<lambda>u. Some []) = Inr a \<and>
     fst (Evaluate sample_outside (redis_cache_ops True sample_encode sample_decode sample_scan gateway_cache_prefix) sample_reading (GStr ''bob'') a) =
       Inr (sample_old_decision\<lparr>de_Cached := True\<rparr>) \<and>
     verdict sample_outside a ''data.authz.allow'' (GStr ''bob'') = Inr (new_decision (False, []))"
proof -
  let ?new = "New_adapter sample_outside 1 sample_authz_config sample_redis_data (\<lambda>u. Some [])"
  obtain a where a: "?new = Inr a"
    by (simp add: New_adapter_def New_def adapter_options_def sample_authz_config_def WithLocalPolicies_def WithExternalCache_def WithRoleProvider_def
        WithContextTransformer_def init_cache_def zero_cache_config_def default_config_def prepareLocalPolicies_def sample_outside_def)
  then have c: "ag_config a = ag_config (projr ?new)" "ag_queries a = ag_queries (projr ?new)" by simp_all
  have "cf_DefaultQuery (ag_config (projr ?new)) = ''data.authz.allow''"
    "generateCacheKey sample_outside (ag_config (projr ?new)) ''data.authz.allow'' (GStr ''bob'') = Some ''data.authz.allow:bob''"
    "CreateRoleTransformer (\<lambda>u. Some []) (GStr ''bob'') = Some (GStr ''bob'')"
    "redis_Get True sample_decode gateway_cache_prefix (re_get1 sample_reading) ''data.authz.allow:bob'' sample_redis_data = Some sample_old_decision"
    "verdict sample_outside (projr ?new) ''data.authz.allow'' (GStr ''bob'') = Inr (new_decision (False, []))"
    by code_simp+
  with started_gateway_serves_old_decision [OF a, of "GStr ''bob''" "GStr ''bob''" "''data.authz.allow''" "''data.authz.allow:bob''" sample_decode
      gateway_cache_prefix sample_reading sample_old_decision sample_encode sample_scan] a c
  show ?thesis by (simp add: sample_authz_config_def Evaluate_def)
qed

end
