(* ===== verification/Combined.thy ===== *)
theory Combined
  imports AuthzHttp Auth
begin

text \<open>
  The combined middleware of the gateway (\<open>prism/middleware/combined.go\<close>), which first authenticates a request and then asks the
  policy agent, and the functions that make the input of the agent from a request (\<open>prism/middleware/extractors.go\<close>,
  \<open>prism/internal/features/auth/adapters/authz/extractors.go\<close>).

  The authentication is that of theory \<open>Auth\<close>, the middleware of the agent that of \<open>AuthzHttp\<close>. The router (\<open>chi\<close>) is an
  argument: the value of a parameter, and the names and values of all. An extractor that fails yields \<open>None\<close>. The assignments to
  nested maps are updates of the input. Roles are ASCII.
\<close>

section \<open>Extractors\<close>

record router =
  ro_param :: "request \<Rightarrow> string \<Rightarrow> string"
  ro_params :: "request \<Rightarrow> (string list \<times> string list) option"

type_synonym extractor = "request \<Rightarrow> gvalue option"

definition mapMethodToAction :: "string \<Rightarrow> string" where
  "mapMethodToAction meth =
     (if meth = ''GET'' then ''read''
      else if meth = ''POST'' then ''create''
      else if meth = ''PUT'' \<or> meth = ''PATCH'' then ''update''
      else if meth = ''DELETE'' then ''delete''
      else ''read'')"

text \<open>The nil UUID and False when there is none.\<close>

definition nil_uuid :: uuid where
  "nil_uuid = ''00000000-0000-0000-0000-000000000000''"

definition request_tenant :: "(string \<Rightarrow> uuid option) \<Rightarrow> router \<Rightarrow> request \<Rightarrow> uuid \<times> bool" where
  "request_tenant uuid_parse ro r =
     (let p = ro_param ro r ''tenantID'';
          tenantIDStr = (if p = [] then header_get r ''X-Tenant-Id'' else p)
      in if tenantIDStr = [] then (nil_uuid, False)
         else case uuid_parse tenantIDStr of None \<Rightarrow> (nil_uuid, False) | Some t \<Rightarrow> (t, True))"

definition StandardInputExtractor :: "(string \<Rightarrow> uuid option) \<Rightarrow> router \<Rightarrow> extractor" where
  "StandardInputExtractor uuid_parse ro r =
     (let userID = header_get r ''X-User-Id''
      in if userID = [] then None
         else
           let q = query_get r ''type''; resourceType = (if q = [] then ''default'' else q)
           in Some (GMap
                [(''user'', GMap [(''id'', GStr userID)]),
                 (''resource'', GMap [(''type'', GStr resourceType), (''id'', GStr (query_get r ''id'')), (''path'', GStr (rq_Path r)),
                    (''tenant_id'', GStr (fst (request_tenant uuid_parse ro r)))]),
                 (''action'', GStr (mapMethodToAction (rq_Method r)))]))"

definition with_map :: "((string, gvalue) gomap \<Rightarrow> (string, gvalue) gomap) \<Rightarrow> gvalue \<Rightarrow> gvalue" where
  "with_map f v = (case v of GMap m \<Rightarrow> GMap (f m) | _ \<Rightarrow> v)"

definition nested_map :: "(string, gvalue) gomap \<Rightarrow> string \<Rightarrow> (string, gvalue) gomap" where
  "nested_map m k = (case mget m k of Some (GMap n) \<Rightarrow> n | _ \<Rightarrow> [])"

definition api_version :: "request \<Rightarrow> string" where
  "api_version r = (if header_get r ''X-Api-Version'' = [] then ''v1'' else header_get r ''X-Api-Version'')"

definition APIInputExtractor :: "(string \<Rightarrow> uuid option) \<Rightarrow> router \<Rightarrow> extractor" where
  "APIInputExtractor uuid_parse ro r =
     map_option (with_map (mput ''api'' (GMap [(''version'', GStr (api_version r))]))) (StandardInputExtractor uuid_parse ro r)"

text \<open>\<open>attrs\<close>: the additional attributes, in the order of the loop.\<close>

definition ResourceInputExtractor ::
  "(string \<Rightarrow> uuid option) \<Rightarrow> router \<Rightarrow> string \<Rightarrow> (string \<times> gvalue) list \<Rightarrow> extractor" where
  "ResourceInputExtractor uuid_parse ro resourceType attrs r =
     map_option (with_map (\<lambda>m. mput ''resource''
        (GMap (fold (\<lambda>(k, v). mput k v) attrs (mput ''type'' (GStr resourceType) (nested_map m ''resource'')))) m))
       (StandardInputExtractor uuid_parse ro r)"

text \<open>The parameters are a map of texts; in the input of the agent they are a map of values.\<close>

definition path_params :: "router \<Rightarrow> request \<Rightarrow> (string, string) gomap" where
  "path_params ro r =
     (case ro_params ro r of
        None \<Rightarrow> []
      | Some (keys, vals) \<Rightarrow> fold (\<lambda>i. if i < length vals then mput (keys ! i) (vals ! i) else id) [0..<length keys] [])"

definition params_value :: "(string, string) gomap \<Rightarrow> gvalue" where
  "params_value params = GMap (map (\<lambda>(k, v). (k, GStr v)) params)"

definition PathParamExtractor :: "(string \<Rightarrow> uuid option) \<Rightarrow> router \<Rightarrow> extractor" where
  "PathParamExtractor uuid_parse ro r =
     map_option (with_map (\<lambda>m. let params = path_params ro r in if length params > 0 then mput ''params'' (params_value params) m else m))
       (StandardInputExtractor uuid_parse ro r)"

definition OwnershipExtractor :: "(string \<Rightarrow> uuid option) \<Rightarrow> router \<Rightarrow> string \<Rightarrow> extractor" where
  "OwnershipExtractor uuid_parse ro ownerIDParam r =
     map_option (with_map (\<lambda>m.
        if length (path_params ro r) = 0 then m
        else case mget (path_params ro r) ownerIDParam of
               None \<Rightarrow> mput ''resource'' (GMap (nested_map m ''resource'')) m
             | Some ownerID \<Rightarrow> mput ''resource'' (GMap (mput ''owner'' (GStr ownerID) (nested_map m ''resource''))) m))
       (PathParamExtractor uuid_parse ro r)"

text \<open>The extractors of the adapter, which do not look at the tenant.\<close>

definition adapter_StandardInputExtractor :: extractor where
  "adapter_StandardInputExtractor r =
     (let userID = header_get r ''X-User-Id''
      in if userID = [] then None
         else
           let act = (if rq_Method r = ''POST'' then ''create''
                      else if rq_Method r = ''PUT'' \<or> rq_Method r = ''PATCH'' then ''update''
                      else if rq_Method r = ''DELETE'' then ''delete'' else ''read'');
               q = query_get r ''type''; resourceType = (if q = [] then ''default'' else q)
           in Some (GMap
                [(''user'', GMap [(''id'', GStr userID)]),
                 (''resource'', GMap [(''type'', GStr resourceType), (''id'', GStr (query_get r ''id'')), (''path'', GStr (rq_Path r))]),
                 (''action'', GStr act)]))"

definition adapter_APIInputExtractor :: extractor where
  "adapter_APIInputExtractor r =
     map_option (with_map (mput ''api'' (GMap [(''version'', GStr (api_version r))]))) (adapter_StandardInputExtractor r)"

section \<open>The middleware\<close>

text \<open>
  The inner loop ranges over a role, which is a string, so it appends the letters of the role; \<open>order\<close> is the order of the
  loop over the tenants.
\<close>

definition role_letters :: "uuid list \<Rightarrow> role_map \<Rightarrow> string list" where
  "role_letters order rm =
     (case rm of
        None \<Rightarrow> []
      | Some m \<Rightarrow> concat (map (\<lambda>t. case mget m t of None \<Rightarrow> [] | Some role \<Rightarrow> map (\<lambda>c. [c]) role) order))"

definition UserContextExtractor :: "uuid list \<Rightarrow> extractor" where
  "UserContextExtractor order r =
     (case UserContextDataFromContext r of
        None \<Rightarrow> None
      | Some u \<Rightarrow>
          Some (GMap
            [(''user'', GMap [(''id'', GStr (ucd_UserID u)), (''roles'', GStrings (role_letters order (ucd_Roles u)))]),
             (''resource'', GMap [(''path'', GStr (rq_Path r))]),
             (''action'', GStr (mapMethodToAction (rq_Method r)))]))"

definition add_absent :: "string \<Rightarrow> gvalue \<Rightarrow> (string, gvalue) gomap \<Rightarrow> (string, gvalue) gomap" where
  "add_absent k v m = (if mget m k = None then mput k v m else m)"

definition enhancedExtractor :: "uuid list \<Rightarrow> extractor \<Rightarrow> extractor" where
  "enhancedExtractor order extractInput r =
     (case extractInput r of
        None \<Rightarrow> None
      | Some (GMap inputMap) \<Rightarrow>
          (case UserContextDataFromContext r of
             None \<Rightarrow> None
           | Some u \<Rightarrow>
               let userMap = add_absent ''roles'' (GStrings (role_letters order (ucd_Roles u)))
                     (add_absent ''id'' (GStr (ucd_UserID u)) (nested_map inputMap ''user''))
               in Some (GMap (mput ''user'' (GMap userMap) inputMap)))
      | Some _ \<Rightarrow> None)"

definition Protect ::
  "'key auth_middleware \<Rightarrow> time \<Rightarrow> 'p outside \<Rightarrow> 'x cache_ops \<Rightarrow> reading \<Rightarrow> extractor \<Rightarrow> 'w handler \<Rightarrow> (('p, 'x) agent \<times> 'w) handler" where
  "Protect amw now ou ops rd extractInput next = Authenticate amw now (Middleware ou ops rd extractInput next)"

definition ProtectWithRoles ::
  "'key auth_middleware \<Rightarrow> time \<Rightarrow> (string \<Rightarrow> uuid option) \<Rightarrow> string list \<Rightarrow> 'w handler \<Rightarrow> 'w handler" where
  "ProtectWithRoles amw now uuid_parse requiredRoles next = Authenticate amw now (Authorize uuid_parse requiredRoles next)"

definition ProtectWithPolicy ::
  "'key auth_middleware \<Rightarrow> time \<Rightarrow> 'p outside \<Rightarrow> 'x cache_ops \<Rightarrow> reading \<Rightarrow> uuid list \<Rightarrow> extractor \<Rightarrow> 'w handler \<Rightarrow>
   (('p, 'x) agent \<times> 'w) handler" where
  "ProtectWithPolicy amw now ou ops rd order extractInput next =
     Authenticate amw now (Middleware ou ops rd (enhancedExtractor order extractInput) next)"

text \<open>\<open>next\<close> acts on the state behind the agent.\<close>

definition ConditionalProtect ::
  "'key auth_middleware \<Rightarrow> time \<Rightarrow> 'p outside \<Rightarrow> 'x cache_ops \<Rightarrow> reading \<Rightarrow> extractor \<Rightarrow> string list \<Rightarrow> 'w handler \<Rightarrow>
   (('p, 'x) agent \<times> 'w) handler" where
  "ConditionalProtect amw now ou ops rd extractInput excludedPaths next r aw =
     (if list_ex (\<lambda>path. HasSuffix (rq_Path r) path) excludedPaths
      then (case next r (snd aw) of (calls, w') \<Rightarrow> (calls, (fst aw, w')))
      else Protect amw now ou ops rd extractInput next r aw)"

section \<open>What the policies are asked\<close>

lemma context_keeps_request [simp]:
  "UserContextDataFromContext (ContextWithUserContextData u r) = Some u" "rq_Header (ContextWithUserContextData u r) = rq_Header r"
  "rq_Path (ContextWithUserContextData u r) = rq_Path r" "rq_Method (ContextWithUserContextData u r) = rq_Method r"
  "rq_Query (ContextWithUserContextData u r) = rq_Query r"
  by (simp_all add: UserContextDataFromContext_def ContextWithUserContextData_def)

lemma role_letters_single: "l \<in> set (role_letters order rm) \<Longrightarrow> length l = 1"
  by (auto simp: role_letters_def split: option.splits)

lemma Middleware_outcome:
  "(\<exists>input d. extractInput r = Some input \<and> fst (Evaluate ou ops rd (enriched_input (fst aw) input) (fst aw)) = Inr d \<and> de_Allowed d
      \<and> fst (Middleware ou ops rd extractInput nxt r aw) = fst (nxt r (snd aw))
      \<and> snd (snd (Middleware ou ops rd extractInput nxt r aw)) = snd (nxt r (snd aw)))
   \<or> snd (snd (Middleware ou ops rd extractInput nxt r aw)) = snd aw
      \<and> fst (reply_of (fst (Middleware ou ops rd extractInput nxt r aw))) \<in> {401, 403}"
  by (auto simp: Middleware_def split: option.splits prod.splits sum.splits)


text \<open>C18: the user that the policies judge is the one that the client names in the header \<open>X-User-Id\<close>, not the user of the token: with the
  standard extractor, also where the middleware adds the data of the authenticated user, the identity of the input is that header, and of
  the roles of the token only their single letters arrive.\<close>

theorem policy_judges_claimed_user:
  assumes "UserContextDataFromContext r = Some u" "header_get r ''X-User-Id'' = claimed" "claimed \<noteq> []"
  shows "\<exists>m usr letters. enhancedExtractor order (StandardInputExtractor uuid_parse ro) r = Some (GMap m) \<and> mget m ''user'' = Some (GMap usr)
    \<and> extractUserID (GMap m) = Some claimed
    \<and> mget usr ''roles'' = Some (GStrings letters) \<and> (\<forall>l \<in> set letters. length l = 1)"
proof -
  obtain inp where inp: "StandardInputExtractor uuid_parse ro r = Some (GMap inp)" "mget inp ''user'' = Some (GMap [(''id'', GStr claimed)])"
    using assms by (simp add: StandardInputExtractor_def Let_def)
  let ?letters = "role_letters order (ucd_Roles u)"
  let ?usr = "[(''id'', GStr claimed), (''roles'', GStrings ?letters)]"
  have "enhancedExtractor order (StandardInputExtractor uuid_parse ro) r = Some (GMap (mput ''user'' (GMap ?usr) inp))"
    using inp assms(1) by (simp add: enhancedExtractor_def nested_map_def add_absent_def Let_def)
  then show ?thesis using role_letters_single [of _ order "ucd_Roles u"]
    by (auto simp: mget_mput extractUserID_def)
qed

text \<open>The roles of the token never arrive: the input made from the authenticated user names letters only, so no policy finds \<open>admin\<close> there.\<close>

lemma user_context_roles_are_letters:
  assumes "UserContextExtractor order r = Some (GMap m)" "mget m ''user'' = Some (GMap usr)" "mget usr ''roles'' = Some (GStrings rs)"
  shows "\<forall>l \<in> set rs. length l = 1"
  using assms role_letters_single by (auto simp: UserContextExtractor_def split: option.splits)

text \<open>A path is excluded by its end: a request whose path ends in an excluded path is served without a token and without a policy.\<close>

lemma excluded_suffix_unprotected:
  assumes "path \<in> set excluded" "rq_Path r = front @ path"
  shows "fst (ConditionalProtect amw now ou ops rd extractInput excluded nxt r (a, w)) = fst (nxt r w)
    \<and> snd (snd (ConditionalProtect amw now ou ops rd extractInput excluded nxt r (a, w))) = snd (nxt r w)"
proof -
  have "list_ex (\<lambda>p. HasSuffix (rq_Path r) p) excluded" using assms by (auto simp: list_ex_iff HasSuffix_def intro!: bexI [of _ path])
  then show ?thesis by (simp add: ConditionalProtect_def split: prod.splits)
qed

section \<open>Witnesses\<close>

text \<open>A policy that allows the user \<open>root\<close> only; the token is that of \<open>user_1\<close>.\<close>

definition root_outside :: "bool outside" where
  "root_outside = sample_outside\<lparr>ou_prepare := (\<lambda>q ps. Some True),
     ou_eval := (\<lambda>p v. Some [[GBool (extractUserID v = Some ''root'')]])\<rparr>"

definition root_agent :: "(bool, decision memory_cache) agent" where
  "root_agent = projr (New root_outside 1 [WithLocalPolicies [(''authz'', ''root only'')]])"

definition plain_router :: router where
  "plain_router = \<lparr>ro_param = (\<lambda>r k. []), ro_params = (\<lambda>r. None)\<rparr>"

definition posing_request :: request where
  "posing_request = header_set ''X-User-Id'' ''root'' (bearer_request ''good'')"


theorem policy_judges_claimed_user_witness:
  "\<exists>m. enhancedExtractor [''t1''] (StandardInputExtractor (\<lambda>s. None) plain_router)
        (ContextWithUserContextData (GetUserContextData sample_claims) posing_request) = Some (GMap m)
      \<and> extractUserID (GMap m) = Some ''root'' \<and> ucd_UserID (GetUserContextData sample_claims) = ''user_1''"
proof -
  let ?r = "ContextWithUserContextData (GetUserContextData sample_claims) posing_request"
  have "header_get ?r ''X-User-Id'' = ''root''" "ucd_UserID (GetUserContextData sample_claims) = ''user_1''" by code_simp+
  with policy_judges_claimed_user [of ?r "GetUserContextData sample_claims" "''root''" "[''t1'']" "\<lambda>s. None" plain_router]
  show ?thesis by auto
qed

end
