(* ===== verification/PolicySync.thy ===== *)
theory PolicySync
  imports AuthSync AuthzHttp
begin

text \<open>
  How policies reach the gateway: the stream of Aegis that sends the policy files and their changes
  (\<open>aegis/internal/grpc/sync_policies.go\<close>, the second bus of \<open>eventbus.go\<close>), the loop of the gateway that gives them to its policy agent
  (\<open>prism/internal/features/gateway/adapters/aegis/policy_sync.go\<close>), and the permission check that Aegis offers itself
  (\<open>aegis/internal/grpc/permissions.go\<close>).

  The operations of the two processes interleave as the steps of \<open>policy_step\<close>: an operator edits the files, a publisher reads the files
  and later publishes what it read, the stream subscribes, reads, sends and forwards, the gateway receives from the wire and evaluates
  queries, the connection is lost. The wire keeps the order of the messages.
\<close>

section \<open>Policy files\<close>

text \<open>
  What the configured path names: nothing, a file, or a directory with the name of every entry, whether it is a directory, and its
  content. A content of \<open>None\<close> cannot be read, nor can a directory without entries.
\<close>

datatype policy_path = NoPath | PolicyFile string "string option" | PolicyDir "(string \<times> bool \<times> string option) list option"

text \<open>The extension of a name without separators.\<close>

definition Ext :: "string \<Rightarrow> string" where
  "Ext name = (if CHR ''.'' \<in> set name then CHR ''.'' # rev (takeWhile (\<lambda>c. c \<noteq> CHR ''.'') (rev name)) else [])"

fun load_entries :: "(string \<times> bool \<times> string option) list \<Rightarrow> policies \<Rightarrow> policies option" where
  "load_entries [] ps = Some ps"
| "load_entries ((name, isDir, content) # entries) ps =
     (if isDir \<or> Ext name \<noteq> ''.rego'' then load_entries entries ps
      else case content of None \<Rightarrow> None | Some data \<Rightarrow> load_entries entries (mput name data ps))"

definition loadPolicies :: "policy_path \<Rightarrow> policies option" where
  "loadPolicies path =
     (case path of
        NoPath \<Rightarrow> None
      | PolicyFile base content \<Rightarrow> map_option (\<lambda>data. [(base, data)]) content
      | PolicyDir None \<Rightarrow> None
      | PolicyDir (Some entries) \<Rightarrow> load_entries entries [])"

section \<open>Events\<close>

record policy_event =
  pe_Version :: string
  pe_Policies :: policies

definition stamp_policy :: "string \<Rightarrow> policy_event \<Rightarrow> policy_event" where
  "stamp_policy v e = e\<lparr>pe_Version := v\<rparr>"

definition PublishPolicy :: "policy_event \<Rightarrow> policy_event event_bus \<Rightarrow> policy_event event_bus" where
  "PublishPolicy event b = Publish 16 stamp_policy event b"

definition publish_policies :: "policies \<Rightarrow> policy_event event_bus \<Rightarrow> policy_event event_bus" where
  "publish_policies ps b = PublishPolicy \<lparr>pe_Version = [], pe_Policies = ps\<rparr> b"

text \<open>Both steps of a publisher at once.\<close>

definition PublishPoliciesChanged :: "policy_path \<Rightarrow> policy_event event_bus \<Rightarrow> bool \<times> policy_event event_bus" where
  "PublishPoliciesChanged path b =
     (case loadPolicies path of None \<Rightarrow> (False, b) | Some ps \<Rightarrow> (True, publish_policies ps b))"

text \<open>The gateway; an error of the update is logged.\<close>

definition handle_policy_event ::
  "'p outside \<Rightarrow> 'x cache_ops \<Rightarrow> time \<Rightarrow> policy_event \<Rightarrow> ('p, 'x) agent \<Rightarrow> ('p, 'x) agent" where
  "handle_policy_event ou ops now event a =
     (if length (pe_Policies event) > 0 then snd (UpdatePolicies ou ops now (pe_Policies event) a) else a)"

section \<open>Steps\<close>

text \<open>The phases of \<open>SyncPolicies\<close>: subscribed, files read, incremental.\<close>

datatype stage = Subscribed | Loaded policies | Streaming

record ('p, 'x) policy_state =
  py_disk :: policy_path
  py_publishers :: "policies list"
  py_bus :: "policy_event event_bus"
  py_stream :: "(string \<times> stage) option"
  py_wire :: "policy_event list"
  py_agent :: "('p, 'x) agent"

datatype policy_act = EditFiles policy_path | LoadToPublish | PublishLoaded nat
  | OpenStream string | LoadSnapshot | SendSnapshot | ForwardEvent | Receive time | Ask reading string gvalue | Lost

abbreviation channel :: "('p, 'x) policy_state \<Rightarrow> string \<Rightarrow> policy_event list option" where
  "channel s i \<equiv> mget (eb_subscribers (py_bus s)) i"

inductive policy_step ::
  "'p outside \<Rightarrow> 'x cache_ops \<Rightarrow> policy_act \<Rightarrow> ('p, 'x) policy_state \<Rightarrow> ('p, 'x) policy_state \<Rightarrow> bool" for ou ops where
  edit: "policy_step ou ops (EditFiles path) s (s\<lparr>py_disk := path\<rparr>)"
| publisher_loads: "loadPolicies (py_disk s) = Some ps \<Longrightarrow>
    policy_step ou ops LoadToPublish s (s\<lparr>py_publishers := py_publishers s @ [ps]\<rparr>)"
| publisher_fails: "loadPolicies (py_disk s) = None \<Longrightarrow> policy_step ou ops LoadToPublish s s"
| publish: "n < length (py_publishers s) \<Longrightarrow>
    policy_step ou ops (PublishLoaded n) s
      (s\<lparr>py_publishers := take n (py_publishers s) @ drop (Suc n) (py_publishers s), py_bus := publish_policies (py_publishers s ! n) (py_bus s)\<rparr>)"
| subscribe: "py_stream s = None \<Longrightarrow>
    policy_step ou ops (OpenStream i) s (s\<lparr>py_bus := Subscribe i (py_bus s), py_stream := Some (i, Subscribed), py_wire := []\<rparr>)"
| snapshot_loads: "py_stream s = Some (i, Subscribed) \<Longrightarrow> loadPolicies (py_disk s) = Some ps \<Longrightarrow>
    policy_step ou ops LoadSnapshot s (s\<lparr>py_stream := Some (i, Loaded ps)\<rparr>)"
| snapshot_fails: "py_stream s = Some (i, Subscribed) \<Longrightarrow> loadPolicies (py_disk s) = None \<Longrightarrow>
    policy_step ou ops LoadSnapshot s (s\<lparr>py_bus := Unsubscribe i (py_bus s), py_stream := None\<rparr>)"
| snapshot_sent: "py_stream s = Some (i, Loaded ps) \<Longrightarrow>
    policy_step ou ops SendSnapshot s
      (s\<lparr>py_stream := Some (i, Streaming), py_wire := py_wire s @ [\<lparr>pe_Version = NextVersion (py_bus s), pe_Policies = ps\<rparr>]\<rparr>)"
| forward: "py_stream s = Some (i, Streaming) \<Longrightarrow> channel s i = Some (ev # ch) \<Longrightarrow>
    policy_step ou ops ForwardEvent s
      (s\<lparr>py_bus := (py_bus s)\<lparr>eb_subscribers := mput i ch (eb_subscribers (py_bus s))\<rparr>, py_wire := py_wire s @ [ev]\<rparr>)"
| receive: "py_wire s = ev # evs \<Longrightarrow>
    policy_step ou ops (Receive now) s (s\<lparr>py_wire := evs, py_agent := handle_policy_event ou ops now ev (py_agent s)\<rparr>)"
| ask: "policy_step ou ops (Ask rd q input) s (s\<lparr>py_agent := snd (EvaluateQuery ou ops rd q input (py_agent s))\<rparr>)"
| lost: "py_stream s = Some (i, st) \<Longrightarrow>
    policy_step ou ops Lost s (s\<lparr>py_bus := Unsubscribe i (py_bus s), py_stream := None, py_wire := []\<rparr>)"

inductive policy_run ::
  "'p outside \<Rightarrow> 'x cache_ops \<Rightarrow> policy_act list \<Rightarrow> ('p, 'x) policy_state \<Rightarrow> ('p, 'x) policy_state \<Rightarrow> bool" for ou ops where
  run_end: "policy_run ou ops [] s s"
| run_step: "policy_step ou ops act s s' \<Longrightarrow> policy_run ou ops acts s' s'' \<Longrightarrow> policy_run ou ops (act # acts) s s''"

inductive_simps policy_run_simps: "policy_run ou ops [] s s'" "policy_run ou ops (act # acts) s s'"

inductive_simps policy_step_simps:
  "policy_step ou ops (EditFiles path) s s'" "policy_step ou ops LoadToPublish s s'" "policy_step ou ops (PublishLoaded n) s s'"
  "policy_step ou ops (OpenStream i) s s'" "policy_step ou ops LoadSnapshot s s'" "policy_step ou ops SendSnapshot s s'"
  "policy_step ou ops ForwardEvent s s'" "policy_step ou ops (Receive now) s s'" "policy_step ou ops (Ask rd q input) s s'"
  "policy_step ou ops Lost s s'"

section \<open>The permission check of Aegis\<close>

record permission_request =
  cp_UserId :: string
  cp_Action :: string
  cp_ResourceType :: string
  cp_ResourceId :: string
  cp_TenantId :: string

datatype check_error = UserIdRequired | ActionRequired | EvaluationFailed agent_error

definition CheckPermission ::
  "'p outside \<Rightarrow> 'x cache_ops \<Rightarrow> reading \<Rightarrow> permission_request \<Rightarrow> ('p, 'x) agent \<Rightarrow> (check_error + (bool \<times> string)) \<times> ('p, 'x) agent" where
  "CheckPermission ou ops rd req a =
     (if cp_UserId req = [] then (Inl UserIdRequired, a)
      else if cp_Action req = [] then (Inl ActionRequired, a)
      else
        let input = GMap
          [(''user'', GMap [(''id'', GStr (cp_UserId req))]), (''action'', GStr (cp_Action req)),
           (''resource'', GMap [(''type'', GStr (cp_ResourceType req)), (''id'', GStr (cp_ResourceId req))]),
           (''tenant_id'', GStr (cp_TenantId req))]
        in case Evaluate ou ops rd input a of
             (Inl err, a') \<Rightarrow> (Inl (EvaluationFailed err), a')
           | (Inr decision, a') \<Rightarrow> (Inr (de_Allowed decision, de_Reason decision), a'))"

section \<open>What the agent runs\<close>

definition compiled :: "('p, 'x) agent \<Rightarrow> 'p option" where
  "compiled a = map_option pq_query (mget (ag_queries a) (cf_DefaultQuery (ag_config a)))"

definition runs_policies :: "'p outside \<Rightarrow> policies \<Rightarrow> ('p, 'x) agent \<Rightarrow> bool" where
  "runs_policies ou ps a \<longleftrightarrow> cf_LocalPolicies (ag_config a) = ps \<and> compiled a = ou_prepare ou (cf_DefaultQuery (ag_config a)) ps"

definition compiles :: "'p outside \<Rightarrow> policies \<Rightarrow> ('p, 'x) agent \<Rightarrow> bool" where
  "compiles ou ps a \<longleftrightarrow> cf_Source (ag_config a) = PolicySourceLocal \<and> ou_prepare ou (cf_DefaultQuery (ag_config a)) ps \<noteq> None"

lemma ask_compiled: "compiled (snd (EvaluateQuery ou ops rd q input a)) = compiled a"
proof -
  have l: "ag_queries (snd (cache_lookup ou ops rd q ti a)) = ag_queries a" "ag_config (snd (cache_lookup ou ops rd q ti a)) = ag_config a"
    for ti by (auto simp: cache_lookup_def split: option.splits prod.splits)
  have c: "ag_queries (cache_store ou ops rd q ti d a') = ag_queries a'" for ti d a'
    by (auto simp: cache_store_def split: option.splits)
  have e: "map_option pq_query (mget (ag_queries (snd (evaluate_source ou rd q ti a'))) k) = map_option pq_query (mget (ag_queries a') k)"
    for ti a' k by (auto simp: evaluate_source_def evaluateLocalPolicy_def mget_mput split: policy_source.splits option.splits)
  show ?thesis
  proof (cases "transform_input (cf_ContextTransformers (ag_config a)) input")
    case (Some ti)
    obtain found a1 where look: "cache_lookup ou ops rd q ti a = (found, a1)" by fastforce
    obtain res a2 where ev: "evaluate_source ou rd q ti a1 = (res, a2)" by fastforce
    have "ag_config a1 = ag_config a" "ag_queries a1 = ag_queries a" "ag_config a2 = ag_config a1"
      "map_option pq_query (mget (ag_queries a2) k) = map_option pq_query (mget (ag_queries a1) k)" for k
      using l [of ti] e [of ti a1 k] evaluate_source_frame [of ou rd q ti a1] by (simp_all add: look ev)
    then show ?thesis
      by (simp add: compiled_def EvaluateQuery_def Some look ev Let_def c cache_store_frame2 split: option.splits sum.splits)
  qed (simp add: EvaluateQuery_def)
qed

lemma ask_runs [simp]:
  "runs_policies ou ps (snd (EvaluateQuery ou ops rd q input a)) \<longleftrightarrow> runs_policies ou ps a"
  "compiles ou ps (snd (EvaluateQuery ou ops rd q input a)) \<longleftrightarrow> compiles ou ps a"
  using EvaluateQuery_frame [of ou ops rd q input a] by (simp_all add: runs_policies_def compiles_def ask_compiled)

lemma handle_compiles [simp]: "compiles ou ps (handle_policy_event ou ops now ev a) \<longleftrightarrow> compiles ou ps a"
  by (auto simp: handle_policy_event_def compiles_def UpdatePolicies_def prepareLocalPolicies_def Let_def split: option.splits)

lemma handle_runs:
  "compiles ou ps a \<Longrightarrow> pe_Policies ev = ps \<Longrightarrow> ps \<noteq> [] \<Longrightarrow> runs_policies ou ps (handle_policy_event ou ops now ev a)"
  by (auto simp: handle_policy_event_def compiles_def runs_policies_def compiled_def UpdatePolicies_def prepareLocalPolicies_def Let_def mget_mput
      split: option.splits)

section \<open>Delivery\<close>

text \<open>The policies \<open>ps\<close> are under way to the gateway, or there, and nothing else comes after them.\<close>

definition under_way :: "'p outside \<Rightarrow> string \<Rightarrow> policies \<Rightarrow> ('p, 'x) policy_state \<Rightarrow> bool" where
  "under_way ou i ps s \<longleftrightarrow> loadPolicies (py_disk s) = Some ps \<and> set (py_publishers s) \<subseteq> {ps} \<and> compiles ou ps (py_agent s)
     \<and> (case (py_stream s, channel s i) of
           (Some (j, st), Some ch) \<Rightarrow> j = i \<and>
             (if ch \<noteq> [] then pe_Policies (last ch) = ps
              else st = Streaming \<and> (if py_wire s \<noteq> [] then pe_Policies (last (py_wire s)) = ps else runs_policies ou ps (py_agent s)))
         | _ \<Rightarrow> False)"

definition undisturbed :: "policy_act \<Rightarrow> bool" where
  "undisturbed act \<longleftrightarrow> (case act of EditFiles _ \<Rightarrow> False | Lost \<Rightarrow> False | _ \<Rightarrow> True)"

lemma publish_channel:
  "mget (eb_subscribers (publish_policies ps b)) i =
     map_option (\<lambda>ch. if length ch < 16 then ch @ [\<lparr>pe_Version = formatVersion (Suc (eb_version b)), pe_Policies = ps\<rparr>] else ch)
       (mget (eb_subscribers b) i)"
  by (simp add: publish_policies_def PublishPolicy_def Publish_channel stamp_policy_def cong: if_cong)

lemma under_way_step:
  assumes "policy_step ou ops act s s'" "under_way ou i ps s" "undisturbed act" "ps \<noteq> []"
  shows "under_way ou i ps s'"
  using assms
proof (cases rule: policy_step.cases)
  case (publish n)
  moreover from publish assms(2) have "py_publishers s ! n = ps"
    by (auto simp: under_way_def dest: nth_mem)
  moreover have "set (take n (py_publishers s) @ drop (Suc n) (py_publishers s)) \<subseteq> set (py_publishers s)"
    using set_take_subset [of n] set_drop_subset [of "Suc n"] by fastforce
  ultimately show ?thesis using assms(2) by (auto simp: under_way_def publish_channel split: option.splits if_splits)
next
  case (receive ev evs now)
  with assms(2,4) show ?thesis
    by (cases evs) (auto simp: under_way_def handle_runs split: if_splits option.splits)
next
  case (forward j ev ch)
  with assms(2) show ?thesis by (auto simp: under_way_def mget_mput split: if_splits option.splits)
qed (auto simp: under_way_def undisturbed_def split: option.splits if_splits)

lemma under_way_run:
  "policy_run ou ops acts s s' \<Longrightarrow> under_way ou i ps s \<Longrightarrow> \<forall>act \<in> set acts. undisturbed act \<Longrightarrow> ps \<noteq> [] \<Longrightarrow> under_way ou i ps s'"
  by (induction rule: policy_run.induct) (auto dest: under_way_step)

lemma policy_run_append: "policy_run ou ops xs s s' \<Longrightarrow> policy_run ou ops ys s' s'' \<Longrightarrow> policy_run ou ops (xs @ ys) s s''"
  by (induction rule: policy_run.induct) (auto intro: policy_run.intros)

text \<open>What the wire and the channel hold can be delivered.\<close>

definition drained :: "string \<Rightarrow> ('p, 'x) policy_state \<Rightarrow> bool" where
  "drained i s \<longleftrightarrow> py_stream s = Some (i, Streaming) \<and> channel s i = Some [] \<and> py_wire s = []"

lemma stream_drains:
  assumes "py_stream s = Some (i, Streaming)" "channel s i = Some ch"
  shows "\<exists>acts s'. policy_run ou ops acts s s' \<and> (\<forall>act \<in> set acts. undisturbed act) \<and> drained i s'"
  using assms
proof (induction "length ch" arbitrary: s ch)
  case 0
  then show ?case
  proof (induction "py_wire s" arbitrary: s)
    case Nil
    then show ?case by (intro exI [of _ "[]"] exI [of _ s]) (auto simp: drained_def intro: policy_run.intros)
  next
    case (Cons ev evs)
    let ?s = "s\<lparr>py_wire := evs, py_agent := handle_policy_event ou ops 0 ev (py_agent s)\<rparr>"
    have "policy_step ou ops (Receive 0) s ?s" using Cons(2) by (intro policy_step.receive) simp
    moreover from Cons(1) [of ?s] Cons(3-) obtain acts s' where
      "policy_run ou ops acts ?s s'" "\<forall>act \<in> set acts. undisturbed act" "drained i s'" by auto
    ultimately show ?case
      by (intro exI [of _ "Receive 0 # acts"] exI [of _ s']) (auto simp: undisturbed_def intro: policy_run.intros)
  qed
next
  case (Suc n)
  then obtain ev ch' where ch: "ch = ev # ch'" by (cases ch) auto
  let ?s = "s\<lparr>py_bus := (py_bus s)\<lparr>eb_subscribers := mput i ch' (eb_subscribers (py_bus s))\<rparr>, py_wire := py_wire s @ [ev]\<rparr>"
  have "policy_step ou ops ForwardEvent s ?s" using Suc(3,4) ch by (intro policy_step.forward) auto
  moreover from Suc(1) [of ch' ?s] Suc(2-) ch obtain acts s' where
    "policy_run ou ops acts ?s s'" "\<forall>act \<in> set acts. undisturbed act" "drained i s'" by (auto simp: mget_mput)
  ultimately show ?case
    by (intro exI [of _ "ForwardEvent # acts"] exI [of _ s']) (auto simp: undisturbed_def intro: policy_run.intros)
qed

lemma stream_starts:
  assumes "py_stream s = Some (i, st)" "channel s i = Some ch" "loadPolicies (py_disk s) = Some ps"
  shows "\<exists>acts s'. policy_run ou ops acts s s' \<and> (\<forall>act \<in> set acts. undisturbed act)
    \<and> py_stream s' = Some (i, Streaming) \<and> channel s' i = Some ch"
proof -
  have loaded: "\<exists>acts s'. policy_run ou ops acts s s' \<and> (\<forall>act \<in> set acts. undisturbed act)
    \<and> py_stream s' = Some (i, Streaming) \<and> channel s' i = Some ch"
    if "py_stream s = Some (i, Loaded q)" "channel s i = Some ch" for q and s :: "('a, 'b) policy_state"
    using that by (intro exI [of _ "[SendSnapshot]"]) (auto simp: policy_run_simps policy_step_simps undisturbed_def)
  show ?thesis
  proof (cases st)
    case Subscribed
    let ?s = "s\<lparr>py_stream := Some (i, Loaded ps)\<rparr>"
    have "policy_step ou ops LoadSnapshot s ?s" using assms Subscribed by (intro policy_step.snapshot_loads) auto
    moreover from loaded [of ?s ps] assms(2) obtain acts s' where "policy_run ou ops acts ?s s'" "\<forall>act \<in> set acts. undisturbed act"
      "py_stream s' = Some (i, Streaming)" "channel s' i = Some ch" by auto
    ultimately show ?thesis
      by (intro exI [of _ "LoadSnapshot # acts"] exI [of _ s']) (auto simp: undisturbed_def intro: policy_run.intros)
  next
    case (Loaded q)
    then show ?thesis using loaded [of s q] assms by simp
  next
    case Streaming
    then show ?thesis using assms by (intro exI [of _ "[]"] exI [of _ s]) (auto intro: policy_run.intros)
  qed
qed


text \<open>A publisher reads the files before it publishes: of two publishers the one that read the older files can be the last to publish.\<close>

lemma stale_publish_wins:
  assumes "py_publishers s = [old, new]" "channel s i = Some ch" "length ch < 15"
    and "policy_run ou ops [PublishLoaded 1, PublishLoaded 0] s s'"
  shows "\<exists>ch'. channel s' i = Some ch' \<and> pe_Policies (last ch') = old"
  using assms by (auto simp: policy_run_simps policy_step_simps publish_channel)

section \<open>What the gateway does not learn\<close>

definition pending :: "('p, 'x) policy_state \<Rightarrow> policies set" where
  "pending s = set (py_publishers s) \<union> pe_Policies ` set (py_wire s) \<union>
     (case py_stream s of
        None \<Rightarrow> {}
      | Some (i, st) \<Rightarrow>
          (case st of Loaded ps \<Rightarrow> {ps} | _ \<Rightarrow> {}) \<union> (case channel s i of None \<Rightarrow> {} | Some ch \<Rightarrow> pe_Policies ` set ch))"

definition policies_of :: "('p, 'x) agent \<Rightarrow> policies \<times> 'p option" where
  "policies_of a = (cf_LocalPolicies (ag_config a), compiled a)"

lemma step_pending:
  assumes "policy_step ou ops act s s'" "p \<in> pending s'"
  shows "p \<in> pending s \<or> act \<in> {LoadToPublish, LoadSnapshot} \<and> loadPolicies (py_disk s) = Some p"
  using assms
proof (cases rule: policy_step.cases)
  case (publish n)
  then have "set (take n (py_publishers s) @ drop (Suc n) (py_publishers s)) \<subseteq> set (py_publishers s)"
    "py_publishers s ! n \<in> set (py_publishers s)"
    using set_take_subset [of n] set_drop_subset [of "Suc n"] by fastforce+
  with publish assms(2) show ?thesis
    by (auto simp: pending_def publish_channel split: option.splits stage.splits if_splits)
qed (auto simp: pending_def Subscribe_def Unsubscribe_def mget_mput split: option.splits stage.splits if_splits)

lemma step_policies:
  assumes "policy_step ou ops act s s'" "\<forall>p \<in> pending s. p = []"
  shows "policies_of (py_agent s') = policies_of (py_agent s)"
  using assms
proof (cases rule: policy_step.cases)
  case (receive ev evs now)
  with assms(2) have "pe_Policies ev = []" by (auto simp: pending_def)
  with receive show ?thesis by (simp add: handle_policy_event_def)
next
  case (ask rd q input)
  then show ?thesis using EvaluateQuery_frame [of ou ops rd q input "py_agent s"] by (simp add: policies_of_def ask_compiled)
qed auto

lemma step_disk: "policy_step ou ops act s s' \<Longrightarrow> (\<forall>path. act \<noteq> EditFiles path) \<Longrightarrow> py_disk s' = py_disk s"
  by (cases rule: policy_step.cases) auto


text \<open>No code publishes a change of the files, and without it a connected gateway does not see an edit.\<close>

lemma unpublished_edit_unseen:
  assumes "policy_run ou ops acts s s'" "py_stream s = Some (i, Streaming)" "pending s = {}"
    and "LoadToPublish \<notin> set acts" "Lost \<notin> set acts"
  shows "policies_of (py_agent s') = policies_of (py_agent s)"
  using assms
proof (induction rule: policy_run.induct)
  case (run_step act s s' acts s'')
  have st: "py_stream s' = Some (i, Streaming)" using run_step(1,4,7) by (cases rule: policy_step.cases) auto
  have "act \<noteq> LoadSnapshot" using run_step(1,4) by (auto simp: policy_step_simps)
  then have "pending s' = {}" using step_pending [OF run_step(1)] run_step(5,6) by auto
  with run_step st step_policies [OF run_step(1)] show ?case by auto
qed simp

section \<open>Witnesses\<close>

text \<open>A compiler that accepts every set of policies.\<close>

definition rego_outside :: "bool outside" where
  "rego_outside = sample_outside\<lparr>ou_prepare := (\<lambda>q ps. Some (list_ex (\<lambda>p. snd p = ''allow'') ps))\<rparr>"

definition connected_state :: "(string \<times> bool \<times> string option) list \<Rightarrow> (bool, decision memory_cache) policy_state" where
  "connected_state entries =
     \<lparr>py_disk = PolicyDir (Some entries), py_publishers = [], py_bus = Subscribe ''g'' NewEventBus, py_stream = Some (''g'', Subscribed),
      py_wire = [], py_agent = sample_agent\<rparr>"



end
