(* ===== verification/AegisApiKeys.thy ===== *)
theory AegisApiKeys
  imports ApiKeys Http
begin

text \<open>
  API keys of Aegis: the object (\<open>aegis/internal/domain/api_key.go\<close>), the service (\<open>aegis/internal/service/service_api_key.go\<close>), the
  Postgres repository (\<open>adapters/postgres/api_key_repository.go\<close>) and the gRPC call by which the gateway validates a key
  (\<open>aegis/internal/grpc/apikey.go\<close>). The service is an older form of the one of the gateway (theory \<open>ApiKeys\<close>).

  The random bytes, the random UUID, the clock, the hash and the parser of addresses are arguments. A UUID is its text.
\<close>

section \<open>The object and the service's helpers\<close>

record 'ip aegis_key =
  gk_ID :: uuid
  gk_Name :: string
  gk_KeyPrefix :: string
  gk_KeyHash :: string
  gk_TenantID :: uuid
  gk_UserID :: uuid
  gk_Scopes :: "string list"
  gk_ExpiresAt :: time
  gk_LastUsedAt :: time
  gk_CreatedIPAddress :: "'ip option"
  gk_LastUsedIPAddress :: "'ip option"
  gk_IsActive :: bool
  gk_CreatedAt :: time
  gk_UpdatedAt :: time

definition uuid_Nil :: uuid where
  "uuid_Nil = ''00000000-0000-0000-0000-000000000000''"

definition aegis_APIKeyPrefix :: string where
  "aegis_APIKeyPrefix = ''ak_''"

definition aegis_DisplayLength :: nat where
  "aegis_DisplayLength = 8"

definition aegis_DefaultExpirationDays :: int where
  "aegis_DefaultExpirationDays = 90"

definition aegis_hashAPIKey :: "'ip key_env \<Rightarrow> string \<Rightarrow> string" where
  "aegis_hashAPIKey env key = ke_hash env key"

definition verifyAPIKey :: "'ip key_env \<Rightarrow> string \<Rightarrow> string \<Rightarrow> bool" where
  "verifyAPIKey env rawKey storedHash = (aegis_hashAPIKey env rawKey = storedHash)"

definition aegis_generateAPIKey :: "'ip key_env \<Rightarrow> string option \<Rightarrow> (string \<times> string \<times> string) option" where
  "aegis_generateAPIKey env rnd =
     (case rnd of
        None \<Rightarrow> None
      | Some keyBytes \<Rightarrow>
          let keyStr = base64url keyBytes;
              rawKey = aegis_APIKeyPrefix @ keyStr;
              keyPrefix = aegis_APIKeyPrefix @ take aegis_DisplayLength keyStr
          in Some (rawKey, keyPrefix, aegis_hashAPIKey env rawKey))"

fun aegis_HasScope_loop :: "string list \<Rightarrow> string \<Rightarrow> bool" where
  "aegis_HasScope_loop [] requiredScope = False"
| "aegis_HasScope_loop (scope # scopes) requiredScope =
     (if scope = requiredScope then True
      else if HasSuffix scope '':*'' \<and> HasPrefix requiredScope (TrimSuffix scope '':*'' @ '':'') then True
      else aegis_HasScope_loop scopes requiredScope)"

definition aegis_HasScope :: "'ip aegis_key \<Rightarrow> string \<Rightarrow> bool" where
  "aegis_HasScope apiKey requiredScope = aegis_HasScope_loop (gk_Scopes apiKey) requiredScope"

section \<open>The repository\<close>

text \<open>A row; columns that may be NULL are options.\<close>

record 'ip aegis_row =
  gr_id :: uuid
  gr_name :: string
  gr_key_prefix :: string
  gr_key_hash :: string
  gr_tenant_id :: uuid
  gr_user_id :: uuid
  gr_scopes :: "string list"
  gr_expires_at :: "time option"
  gr_last_used_at :: "time option"
  gr_created_ip :: "'ip option"
  gr_last_used_ip :: "'ip option"
  gr_is_active :: bool
  gr_created_at :: time
  gr_updated_at :: time

text \<open>
  The table with its constraints: unique \<open>id\<close> and \<open>key_prefix\<close>, references to tenants and users, and the widths of the columns; the schema
  of Aegis (\<open>aegis/deploy/migrations\<close>) declares \<open>key_prefix\<close> with width 8. \<open>gd_up\<close>: whether the database answers.
\<close>

record 'ip aegis_key_db =
  gd_rows :: "'ip aegis_row list"
  gd_tenants :: "uuid list"
  gd_users :: "uuid list"
  gd_prefix_width :: nat
  gd_up :: bool

definition aegis_schema_width :: nat where
  "aegis_schema_width = 8"

definition row_insertable :: "'ip aegis_row \<Rightarrow> 'ip aegis_key_db \<Rightarrow> bool" where
  "row_insertable row db \<longleftrightarrow> gd_up db \<and> length (gr_name row) \<le> 255 \<and> length (gr_key_prefix row) \<le> gd_prefix_width db
     \<and> gr_tenant_id row \<in> set (gd_tenants db) \<and> gr_user_id row \<in> set (gd_users db)
     \<and> list_all (\<lambda>row'. gr_id row' \<noteq> gr_id row \<and> gr_key_prefix row' \<noteq> gr_key_prefix row) (gd_rows db)"

definition key_Create ::
  "uuid \<Rightarrow> time \<Rightarrow> 'ip aegis_key \<Rightarrow> 'ip aegis_key_db \<Rightarrow> 'ip aegis_key option \<times> 'ip aegis_key_db" where
  "key_Create newID now k db =
     (let k1 = (if gk_ID k = uuid_Nil then k\<lparr>gk_ID := newID\<rparr> else k);
          k2 = k1\<lparr>gk_CreatedAt := now, gk_UpdatedAt := now\<rparr>;
          row = \<lparr>gr_id = gk_ID k2, gr_name = gk_Name k2, gr_key_prefix = gk_KeyPrefix k2, gr_key_hash = gk_KeyHash k2,
                 gr_tenant_id = gk_TenantID k2, gr_user_id = gk_UserID k2, gr_scopes = gk_Scopes k2,
                 gr_expires_at = Some (gk_ExpiresAt k2), gr_last_used_at = None, gr_created_ip = gk_CreatedIPAddress k2,
                 gr_last_used_ip = None, gr_is_active = gk_IsActive k2, gr_created_at = gk_CreatedAt k2, gr_updated_at = gk_UpdatedAt k2\<rparr>
      in if row_insertable row db then (Some k2, db\<lparr>gd_rows := gd_rows db @ [row]\<rparr>) else (None, db))"

text \<open>The two times are scanned into values that cannot hold NULL, which is an error of the driver.\<close>

definition scan_row :: "'ip aegis_row \<Rightarrow> 'ip aegis_key option" where
  "scan_row row =
     (case (gr_expires_at row, gr_last_used_at row) of
        (Some e, Some l) \<Rightarrow>
          Some \<lparr>gk_ID = gr_id row, gk_Name = gr_name row, gk_KeyPrefix = gr_key_prefix row, gk_KeyHash = gr_key_hash row,
                gk_TenantID = gr_tenant_id row, gk_UserID = gr_user_id row, gk_Scopes = gr_scopes row, gk_ExpiresAt = e, gk_LastUsedAt = l,
                gk_CreatedIPAddress = gr_created_ip row, gk_LastUsedIPAddress = gr_last_used_ip row, gk_IsActive = gr_is_active row,
                gk_CreatedAt = gr_created_at row, gk_UpdatedAt = gr_updated_at row\<rparr>
      | _ \<Rightarrow> None)"

definition query_row :: "('ip aegis_row \<Rightarrow> bool) \<Rightarrow> 'ip aegis_key_db \<Rightarrow> 'ip aegis_key option" where
  "query_row P db = (if \<not> gd_up db then None else Option.bind (find P (gd_rows db)) scan_row)"

definition key_GetByID :: "uuid \<Rightarrow> 'ip aegis_key_db \<Rightarrow> 'ip aegis_key option" where
  "key_GetByID i = query_row (\<lambda>row. gr_id row = i)"

definition key_GetByPrefix :: "string \<Rightarrow> 'ip aegis_key_db \<Rightarrow> 'ip aegis_key option" where
  "key_GetByPrefix p = query_row (\<lambda>row. gr_key_prefix row = p)"

definition change_rows :: "uuid \<Rightarrow> ('ip aegis_row \<Rightarrow> 'ip aegis_row) \<Rightarrow> 'ip aegis_key_db \<Rightarrow> 'ip aegis_key_db" where
  "change_rows i f db = db\<lparr>gd_rows := map (\<lambda>row. if gr_id row = i then f row else row) (gd_rows db)\<rparr>"

text \<open>A name that is too long is an error only when a row has the id.\<close>

definition key_Update ::
  "time \<Rightarrow> uuid \<Rightarrow> 'ip aegis_key \<Rightarrow> 'ip aegis_key_db \<Rightarrow> 'ip aegis_key option \<times> 'ip aegis_key_db" where
  "key_Update now i k db =
     (if \<not> gd_up db \<or> length (gk_Name k) > 255 \<and> list_ex (\<lambda>row. gr_id row = i) (gd_rows db) then (None, db)
      else (Some (k\<lparr>gk_UpdatedAt := now\<rparr>),
            change_rows i (\<lambda>row. row\<lparr>gr_name := gk_Name k, gr_scopes := gk_Scopes k, gr_expires_at := Some (gk_ExpiresAt k),
              gr_is_active := gk_IsActive k, gr_updated_at := now\<rparr>) db))"

definition key_Delete :: "uuid \<Rightarrow> 'ip aegis_key_db \<Rightarrow> bool \<times> 'ip aegis_key_db" where
  "key_Delete i db =
     (if \<not> gd_up db \<or> \<not> list_ex (\<lambda>row. gr_id row = i) (gd_rows db) then (False, db)
      else (True, db\<lparr>gd_rows := filter (\<lambda>row. gr_id row \<noteq> i) (gd_rows db)\<rparr>))"

text \<open>\<open>ORDER BY created_at DESC LIMIT pageSize OFFSET page * pageSize\<close>; every row has to be scanned; negative numbers are errors.\<close>

definition query_page :: "('ip aegis_row \<Rightarrow> bool) \<Rightarrow> int \<Rightarrow> int \<Rightarrow> 'ip aegis_key_db \<Rightarrow> 'ip aegis_key list option" where
  "query_page P page pageSize db =
     (if \<not> gd_up db \<or> pageSize < 0 \<or> page * pageSize < 0 then None
      else
        let rows = take (nat pageSize) (drop (nat (page * pageSize)) (sort_key (\<lambda>row. - gr_created_at row) (filter P (gd_rows db))))
        in if list_all (\<lambda>row. scan_row row \<noteq> None) rows then Some (map (\<lambda>row. the (scan_row row)) rows) else None)"

definition key_ListByTenant :: "uuid \<Rightarrow> int \<Rightarrow> int \<Rightarrow> 'ip aegis_key_db \<Rightarrow> 'ip aegis_key list option" where
  "key_ListByTenant t = query_page (\<lambda>row. gr_tenant_id row = t)"

definition key_ListByUser :: "uuid \<Rightarrow> int \<Rightarrow> int \<Rightarrow> 'ip aegis_key_db \<Rightarrow> 'ip aegis_key list option" where
  "key_ListByUser u = query_page (\<lambda>row. gr_user_id row = u)"

text \<open>The column holds addresses; another text is an error.\<close>

definition key_UpdateLastUsed ::
  "'ip key_env \<Rightarrow> time \<Rightarrow> uuid \<Rightarrow> string \<Rightarrow> 'ip aegis_key_db \<Rightarrow> bool \<times> 'ip aegis_key_db" where
  "key_UpdateLastUsed env now i ipAddress db =
     (if \<not> gd_up db then (False, db)
      else case ke_ParseIP env ipAddress of
             None \<Rightarrow> (False, db)
           | Some ip \<Rightarrow>
               (True, change_rows i (\<lambda>row. row\<lparr>gr_last_used_at := Some now, gr_last_used_ip := Some ip, gr_updated_at := now\<rparr>) db))"

section \<open>The service\<close>

datatype aegis_key_error = GenerateFailed | StoreFailed | BadKeyFormat | NoSuchKey | InactiveKey | ExpiredKey | WrongKey

definition key_expiry :: "time \<Rightarrow> int \<Rightarrow> time" where
  "key_expiry now days = (if days > 0 then add_days now days else add_days now aegis_DefaultExpirationDays)"

record create_key_args =
  ca_name :: string
  ca_tenantID :: uuid
  ca_userID :: uuid
  ca_scopes :: "string list"
  ca_ipAddress :: string
  ca_expiresInDays :: int

definition CreateAPIKey ::
  "'ip key_env \<Rightarrow> string option \<Rightarrow> uuid \<Rightarrow> time \<Rightarrow> time \<Rightarrow> create_key_args \<Rightarrow> 'ip aegis_key_db \<Rightarrow>
   (aegis_key_error + 'ip aegis_key \<times> string) \<times> 'ip aegis_key_db" where
  "CreateAPIKey env rnd newID now1 now2 args db =
     (case aegis_generateAPIKey env rnd of
        None \<Rightarrow> (Inl GenerateFailed, db)
      | Some (rawKey, keyPrefix, keyHash) \<Rightarrow>
          let apiKey = \<lparr>gk_ID = uuid_Nil, gk_Name = ca_name args, gk_KeyPrefix = keyPrefix, gk_KeyHash = keyHash,
                gk_TenantID = ca_tenantID args, gk_UserID = ca_userID args, gk_Scopes = ca_scopes args,
                gk_ExpiresAt = key_expiry now1 (ca_expiresInDays args), gk_LastUsedAt = time_zero,
                gk_CreatedIPAddress = ke_ParseIP env (ca_ipAddress args), gk_LastUsedIPAddress = None, gk_IsActive = True,
                gk_CreatedAt = time_zero, gk_UpdatedAt = time_zero\<rparr>
          in case key_Create newID now2 apiKey db of
               (None, db') \<Rightarrow> (Inl StoreFailed, db')
             | (Some createdKey, db') \<Rightarrow> (Inr (createdKey, rawKey), db'))"

text \<open>The text under which a key is looked up, if it has the form of a key.\<close>

definition lookup_prefix :: "string \<Rightarrow> string option" where
  "lookup_prefix rawKey =
     (if \<not> HasPrefix rawKey aegis_APIKeyPrefix then None
      else
        let keyParts = Split CHR ''_'' rawKey
        in if length keyParts \<noteq> 2 then None
           else
             let keyValue = keyParts ! 1
             in if length keyValue \<le> aegis_DisplayLength then None
                else Some (aegis_APIKeyPrefix @ take aegis_DisplayLength keyValue))"

definition ValidateAPIKey ::
  "'ip key_env \<Rightarrow> time \<Rightarrow> time \<Rightarrow> string \<Rightarrow> string \<Rightarrow> 'ip aegis_key_db \<Rightarrow> (aegis_key_error + 'ip aegis_key) \<times> 'ip aegis_key_db" where
  "ValidateAPIKey env now1 now2 rawKey ipAddress db =
     (case lookup_prefix rawKey of
        None \<Rightarrow> (Inl BadKeyFormat, db)
      | Some keyPrefix \<Rightarrow>
          (case key_GetByPrefix keyPrefix db of
             None \<Rightarrow> (Inl NoSuchKey, db)
           | Some apiKey \<Rightarrow>
               if \<not> gk_IsActive apiKey then (Inl InactiveKey, db)
               else if gk_ExpiresAt apiKey \<noteq> time_zero \<and> gk_ExpiresAt apiKey < now1 then (Inl ExpiredKey, db)
               else if \<not> verifyAPIKey env rawKey (gk_KeyHash apiKey) then (Inl WrongKey, db)
               else (Inr apiKey, snd (key_UpdateLastUsed env now2 (gk_ID apiKey) ipAddress db))))"

definition UpdateAPIKey ::
  "time \<Rightarrow> time \<Rightarrow> uuid \<Rightarrow> string \<Rightarrow> string list \<Rightarrow> bool \<Rightarrow> int \<Rightarrow> 'ip aegis_key_db \<Rightarrow>
   (aegis_key_error + 'ip aegis_key) \<times> 'ip aegis_key_db" where
  "UpdateAPIKey now1 now2 i name scopes isActive expiresInDays db =
     (case key_GetByID i db of
        None \<Rightarrow> (Inl NoSuchKey, db)
      | Some k \<Rightarrow>
          let k1 = k\<lparr>gk_Name := name, gk_Scopes := scopes, gk_IsActive := isActive\<rparr>;
              k2 = (if expiresInDays > 0 then k1\<lparr>gk_ExpiresAt := add_days now1 expiresInDays\<rparr> else k1)
          in case key_Update now2 i k2 db of
               (None, db') \<Rightarrow> (Inl StoreFailed, db')
             | (Some updatedKey, db') \<Rightarrow> (Inr updatedKey, db'))"

definition RevokeAPIKey :: "uuid \<Rightarrow> 'ip aegis_key_db \<Rightarrow> aegis_key_error option \<times> 'ip aegis_key_db" where
  "RevokeAPIKey i db =
     (case key_GetByID i db of
        None \<Rightarrow> (Some NoSuchKey, db)
      | Some k \<Rightarrow> (case key_Delete i db of (False, db') \<Rightarrow> (Some StoreFailed, db') | (True, db') \<Rightarrow> (None, db')))"

section \<open>The gRPC call\<close>

datatype key_reply = ApiKeyRequired | KeyRefused | KeyValid uuid uuid "string list"

definition grpc_ValidateAPIKey ::
  "'ip key_env \<Rightarrow> time \<Rightarrow> time \<Rightarrow> string \<Rightarrow> 'ip aegis_key_db \<Rightarrow> key_reply \<times> 'ip aegis_key_db" where
  "grpc_ValidateAPIKey env now1 now2 apiKey db =
     (if apiKey = [] then (ApiKeyRequired, db)
      else case ValidateAPIKey env now1 now2 apiKey [] db of
             (Inl err, db') \<Rightarrow> (KeyRefused, db')
           | (Inr k, db') \<Rightarrow> (KeyValid (gk_UserID k) (gk_TenantID k) (gk_Scopes k), db'))"

section \<open>Histories\<close>

datatype aegis_key_act = CreateKey "string option" uuid time time create_key_args | CheckKey time time string string
  | ChangeKey time time uuid string "string list" bool int | RevokeKey uuid | RemoteCheck time time string

fun key_do :: "'ip key_env \<Rightarrow> aegis_key_act \<Rightarrow> 'ip aegis_key_db \<Rightarrow> 'ip aegis_key_db" where
  "key_do env (CreateKey rnd newID now1 now2 args) db = snd (CreateAPIKey env rnd newID now1 now2 args db)"
| "key_do env (CheckKey now1 now2 rawKey ip) db = snd (ValidateAPIKey env now1 now2 rawKey ip db)"
| "key_do env (ChangeKey now1 now2 i name scopes isActive days) db = snd (UpdateAPIKey now1 now2 i name scopes isActive days db)"
| "key_do env (RevokeKey i) db = snd (RevokeAPIKey i db)"
| "key_do env (RemoteCheck now1 now2 rawKey) db = snd (grpc_ValidateAPIKey env now1 now2 rawKey db)"

text \<open>The random source gives 32 bytes or fails.\<close>

fun full_draw :: "aegis_key_act \<Rightarrow> bool" where
  "full_draw (CreateKey rnd newID now1 now2 args) = (case rnd of None \<Rightarrow> True | Some keyBytes \<Rightarrow> length keyBytes = 32)"
| "full_draw _ = True"

section \<open>No key is created\<close>

lemma CreateAPIKey_prefix_width:
  assumes "rnd = None \<or> (\<exists>keyBytes. rnd = Some keyBytes \<and> length keyBytes = 32)" "gd_prefix_width db < 11"
  shows "\<exists>err. CreateAPIKey env rnd newID now1 now2 args db = (Inl err, db)"
proof (cases rnd)
  case None
  then show ?thesis by (simp add: CreateAPIKey_def aegis_generateAPIKey_def)
next
  case (Some keyBytes)
  with assms(1) have "length (aegis_APIKeyPrefix @ take aegis_DisplayLength (base64url keyBytes)) = 11"
    by (simp add: length_base64url aegis_APIKeyPrefix_def aegis_DisplayLength_def)
  with Some assms(2) show ?thesis
    by (simp add: CreateAPIKey_def aegis_generateAPIKey_def key_Create_def row_insertable_def Let_def)
qed

section \<open>Which keys are accepted\<close>

lemma Split_two: "Split c s = [x, y] \<longleftrightarrow> s = x @ c # y \<and> c \<notin> set x \<and> c \<notin> set y"
proof
  assume "Split c s = [x, y]"
  with Join_Split [of c s] Split_pieces [of x c s] Split_pieces [of y c s]
  show "s = x @ c # y \<and> c \<notin> set x \<and> c \<notin> set y" by simp
qed (simp add: Split_append_sep Split_no_sep)

lemma lookup_prefix_Some:
  "lookup_prefix rawKey = Some p \<longleftrightarrow>
     (\<exists>v. rawKey = ''ak_'' @ v \<and> CHR ''_'' \<notin> set v \<and> length v > 8 \<and> p = ''ak_'' @ take 8 v)"
proof (cases "HasPrefix rawKey ''ak_''")
  case True
  then obtain v where v: "rawKey = ''ak_'' @ v" by (auto simp: HasPrefix_iff)
  have "Split CHR ''_'' (''ak'' @ CHR ''_'' # v) = ''ak'' # Split CHR ''_'' v" by (rule Split_append_sep) simp
  then have sp: "Split CHR ''_'' rawKey = ''ak'' # Split CHR ''_'' v" by (simp add: v)
  show ?thesis
  proof (cases "CHR ''_'' \<in> set v")
    case True
    then have "length (Split CHR ''_'' v) \<noteq> 1" by (auto simp: Split_length filter_empty_conv)
    with True show ?thesis by (auto simp: lookup_prefix_def sp Let_def v)
  next
    case False
    then show ?thesis
      by (auto simp: lookup_prefix_def sp Let_def v Split_no_sep aegis_DisplayLength_def aegis_APIKeyPrefix_def HasPrefix_def)
  qed
qed (auto simp: lookup_prefix_def aegis_APIKeyPrefix_def HasPrefix_iff)

lemma aegis_validate_exact:
  "fst (ValidateAPIKey env now1 now2 rawKey ip db) = Inr k \<longleftrightarrow>
     (\<exists>v row. rawKey = ''ak_'' @ v \<and> CHR ''_'' \<notin> set v \<and> length v > 8
        \<and> gd_up db \<and> find (\<lambda>row. gr_key_prefix row = ''ak_'' @ take 8 v) (gd_rows db) = Some row \<and> scan_row row = Some k
        \<and> gk_IsActive k \<and> (gk_ExpiresAt k = time_zero \<or> now1 \<le> gk_ExpiresAt k) \<and> ke_hash env rawKey = gk_KeyHash k)"
proof (cases "lookup_prefix rawKey")
  case None
  then have "\<not> (\<exists>v. rawKey = ''ak_'' @ v \<and> CHR ''_'' \<notin> set v \<and> length v > 8)"
    using lookup_prefix_Some [of rawKey] by auto
  with None show ?thesis by (auto simp: ValidateAPIKey_def)
next
  case (Some p)
  then obtain v where v: "rawKey = ''ak_'' @ v" "CHR ''_'' \<notin> set v" "length v > 8" "p = ''ak_'' @ take 8 v"
    using lookup_prefix_Some by auto
  with Some show ?thesis
    by (auto simp: ValidateAPIKey_def key_GetByPrefix_def query_row_def verifyAPIKey_def aegis_hashAPIKey_def
        split: option.splits bind_splits if_splits)
qed

text \<open>The encoding of the random bytes has the character that the check takes for the end of the prefix: a key that has it is refused.\<close>

lemma key_with_underscore_refused:
  assumes "aegis_generateAPIKey env (Some keyBytes) = Some (rawKey, keyPrefix, keyHash)" "CHR ''_'' \<in> set (base64url keyBytes)"
  shows "fst (ValidateAPIKey env now1 now2 rawKey ip db) = Inl BadKeyFormat"
proof -
  have "rawKey = ''ak_'' @ base64url keyBytes"
    using assms(1) by (auto simp: aegis_generateAPIKey_def Let_def aegis_APIKeyPrefix_def)
  with assms(2) lookup_prefix_Some [of rawKey] have "lookup_prefix rawKey = None"
    by (cases "lookup_prefix rawKey") auto
  then show ?thesis by (simp add: ValidateAPIKey_def)
qed

section \<open>No key is ever accepted\<close>

definition never_used :: "'ip aegis_key_db \<Rightarrow> bool" where
  "never_used db \<longleftrightarrow> (\<forall>row \<in> set (gd_rows db). gr_last_used_at row = None)"

lemma query_row_never_used: "never_used db \<Longrightarrow> query_row P db = None"
  by (auto simp: query_row_def never_used_def scan_row_def find_Some_iff split: option.splits bind_splits)

lemma never_used_refused:
  assumes "never_used db"
  shows "\<exists>err. ValidateAPIKey env now1 now2 rawKey ip db = (Inl err, db)"
  using query_row_never_used [OF assms] by (auto simp: ValidateAPIKey_def key_GetByPrefix_def split: option.splits)

lemma never_used_create: "never_used db \<Longrightarrow> never_used (snd (CreateAPIKey env rnd newID now1 now2 args db))"
  by (auto simp: never_used_def CreateAPIKey_def key_Create_def Let_def split: option.splits)

lemma never_used_do:
  assumes "never_used db"
  shows "never_used (key_do env act db)"
proof (cases act)
  case (CreateKey rnd newID now1 now2 args)
  with assms never_used_create show ?thesis by simp
next
  case (CheckKey now1 now2 rawKey ip)
  with assms never_used_refused [OF assms, of env now1 now2 rawKey ip] show ?thesis by auto
next
  case (RemoteCheck now1 now2 rawKey)
  with assms never_used_refused [OF assms, of env now1 now2 rawKey "[]"] show ?thesis by (auto simp: grpc_ValidateAPIKey_def)
qed (simp_all add: assms UpdateAPIKey_def RevokeAPIKey_def key_GetByID_def query_row_never_used)

lemma prefix_width_do [simp]: "gd_prefix_width (key_do env act db) = gd_prefix_width db"
  by (cases act) (auto simp: CreateAPIKey_def key_Create_def ValidateAPIKey_def key_UpdateLastUsed_def change_rows_def UpdateAPIKey_def
      key_Update_def RevokeAPIKey_def key_Delete_def grpc_ValidateAPIKey_def Let_def split: option.splits prod.splits sum.splits)

lemma grpc_key_given: "rawKey \<noteq> [] \<Longrightarrow> fst (grpc_ValidateAPIKey env t u rawKey db) \<noteq> ApiKeyRequired"
  by (auto simp: grpc_ValidateAPIKey_def split: prod.splits sum.splits)

text \<open>C33: Aegis neither issues nor accepts an API key. With the column width of its schema every creation fails and changes nothing. And
  whatever the width, from a table in which no key has been used (an empty one, say) every history of creations, checks, changes and
  revocations ends in a state in which every key is refused, by the service and over gRPC: a key that was never used cannot be read, and only
  a key that was accepted counts as used.\<close>

theorem aegis_accepts_no_key:
  assumes "never_used db" "db' = fold (key_do env) acts db"
  shows "(gd_prefix_width db = aegis_schema_width \<longrightarrow>
      (\<forall>rnd newID now1 now2 args. full_draw (CreateKey rnd newID now1 now2 args) \<longrightarrow>
         (\<exists>err. CreateAPIKey env rnd newID now1 now2 args db' = (Inl err, db'))))
    \<and> (\<exists>err. fst (ValidateAPIKey env t u rawKey ip db') = Inl err)
    \<and> fst (grpc_ValidateAPIKey env t u rawKey db') \<in> {ApiKeyRequired, KeyRefused}"
proof -
  have inv: "never_used (fold (key_do env) acts db) \<and> gd_prefix_width (fold (key_do env) acts db) = gd_prefix_width db"
    using assms(1) by (induction acts arbitrary: db) (simp_all add: never_used_do)
  then have "gd_prefix_width db = aegis_schema_width \<longrightarrow> gd_prefix_width db' < 11" by (simp add: assms(2) aegis_schema_width_def)
  moreover have "full_draw (CreateKey rnd newID now1 now2 args) \<longrightarrow> rnd = None \<or> (\<exists>keyBytes. rnd = Some keyBytes \<and> length keyBytes = 32)"
    for rnd newID now1 now2 args by (auto split: option.splits)
  moreover from inv have "never_used db'" by (simp add: assms(2))
  ultimately show ?thesis
    using never_used_refused [of db' env t u rawKey ip] never_used_refused [of db' env t u rawKey "[]"]
      CreateAPIKey_prefix_width [of _ db' env]
    by (auto simp: grpc_ValidateAPIKey_def)
qed

section \<open>Witnesses\<close>

definition wide_db :: "nat \<Rightarrow> string aegis_key_db" where
  "wide_db width = \<lparr>gd_rows = [], gd_tenants = [''t1''], gd_users = [''u1''], gd_prefix_width = width, gd_up = True\<rparr>"

definition ip_env :: "string key_env" where
  "ip_env = \<lparr>ke_hash = (\<lambda>s. s), ke_ParseIP = (\<lambda>s. if s = [] then None else Some s), ke_SplitHostPort = Some\<rparr>"

definition ci_args :: create_key_args where
  "ci_args = \<lparr>ca_name = ''ci'', ca_tenantID = ''t1'', ca_userID = ''u1'', ca_scopes = [''users:*''], ca_ipAddress = ''10.0.0.1'', ca_expiresInDays = 1\<rparr>"

definition k_bytes :: string where
  "k_bytes = replicate 32 CHR ''k''"

theorem aegis_accepts_no_key_witness:
  "length (gd_rows (fold (key_do ip_env) [CreateKey (Some k_bytes) ''id1'' 5 6 ci_args] (wide_db 16))) = 1
   \<and> fst (grpc_ValidateAPIKey ip_env 7 8 (''ak_'' @ base64url k_bytes)
        (fold (key_do ip_env) [CreateKey (Some k_bytes) ''id1'' 5 6 ci_args] (wide_db 16))) = KeyRefused"
proof -
  have "never_used (wide_db 16)" by (simp add: never_used_def wide_db_def)
  from aegis_accepts_no_key [OF this refl, where env = ip_env and t = 7 and u = 8 and rawKey = "''ak_'' @ base64url k_bytes" and ip = "[]"
      and acts = "[CreateKey (Some k_bytes) ''id1'' 5 6 ci_args]"]
  have "fst (grpc_ValidateAPIKey ip_env 7 8 (''ak_'' @ base64url k_bytes)
      (fold (key_do ip_env) [CreateKey (Some k_bytes) ''id1'' 5 6 ci_args] (wide_db 16))) \<in> {ApiKeyRequired, KeyRefused}" by blast
  moreover have "length (gd_rows (fold (key_do ip_env) [CreateKey (Some k_bytes) ''id1'' 5 6 ci_args] (wide_db 16))) = 1"
    by (simp add: CreateAPIKey_def aegis_generateAPIKey_def key_Create_def row_insertable_def Let_def wide_db_def ci_args_def
        aegis_APIKeyPrefix_def aegis_DisplayLength_def)
  moreover note grpc_key_given [where rawKey = "''ak_'' @ base64url k_bytes" and env = ip_env and t = 7 and u = 8
      and db = "fold (key_do ip_env) [CreateKey (Some k_bytes) ''id1'' 5 6 ci_args] (wide_db 16)"]
  ultimately show ?thesis by (simp only: insert_iff empty_iff append_is_Nil_conv list.simps simp_thms)
qed

end
