(* ===== verification/EtcdDiscovery.thy ===== *)
theory EtcdDiscovery
  imports Schemas
begin

text \<open>
  Service discovery over etcd (\<open>prism/internal/features/discovery/adapters/provider/etcd.go\<close>, \<open>serialization.go\<close>). Several processes share
  one etcd: every operation acts on the state of its process and on that of etcd.

  The client of etcd is an argument (\<open>etcd_ops\<close>), as is the encoding of an instance as JSON; what they promise is stated in
  \<open>etcd_laws\<close> and \<open>json_laws\<close>. An operation of etcd that fails answers \<open>False\<close> or \<open>None\<close>. Channels are numbers; sends are recorded in the
  order in which their goroutines start (\<open>ed_sends\<close>). The instance that a caller hands over is stored itself, so a change of the cached
  instance is one of the cache.
\<close>

section \<open>Serialization\<close>

record codec =
  cd_marshal :: "service_instance \<Rightarrow> string option"
  cd_unmarshal :: "string \<Rightarrow> service_instance option"

definition SerializeInstance :: "codec \<Rightarrow> service_instance \<Rightarrow> string option" where
  "SerializeInstance cd i = cd_marshal cd i"

definition DeserializeInstance :: "codec \<Rightarrow> string \<Rightarrow> service_instance option" where
  "DeserializeInstance cd data = cd_unmarshal cd data"

text \<open>A nil map and an empty one are both the empty map here.\<close>

definition DeserializeInstanceWithDefaults :: "codec \<Rightarrow> string \<Rightarrow> service_instance option" where
  "DeserializeInstanceWithDefaults cd data =
     map_option (\<lambda>i. let i1 = (if si_Status i = [] then i\<lparr>si_Status := ''UNKNOWN''\<rparr> else i)
                     in if si_Version i1 = [] then i1\<lparr>si_Version := ''0.0.0''\<rparr> else i1)
       (DeserializeInstance cd data)"

section \<open>State\<close>

record 's etcd_ops =
  et_Put :: "string \<Rightarrow> string \<Rightarrow> nat \<Rightarrow> 's \<Rightarrow> bool \<times> 's"
  et_Delete :: "string \<Rightarrow> 's \<Rightarrow> bool \<times> 's"
  et_Get :: "string \<Rightarrow> 's \<Rightarrow> (string \<times> string) list option"
  et_GetPrefix :: "string \<Rightarrow> 's \<Rightarrow> (string \<times> string) list option"
  et_Grant :: "int \<Rightarrow> 's \<Rightarrow> nat option \<times> 's"

text \<open>\<open>ed_watchCancels\<close>: the services whose watch runs.\<close>

record etcd_discovery =
  ed_config :: discovery_config
  ed_leaseID :: nat
  ed_watchChannels :: "(string, nat list) gomap"
  ed_instanceCache :: "(string, service_instance) gomap"
  ed_watchCancels :: "string list"
  ed_nextChannel :: nat
  ed_closed :: "nat list"
  ed_sends :: "(nat \<times> service_instance) list"

datatype etcd_error = LeaseFailed | MarshalFailed | EtcdFailed | EtcdNotFound string

definition etcdKeyPrefix :: string where
  "etcdKeyPrefix = ''/services''"

definition instance_key :: "string \<Rightarrow> string \<Rightarrow> string" where
  "instance_key serviceName instanceID = path_Join [etcdKeyPrefix, serviceName, instanceID]"

section \<open>Operations\<close>

text \<open>The duration in whole seconds.\<close>

definition lease_seconds :: "discovery_config \<Rightarrow> int" where
  "lease_seconds config = (let d = dc_DeregisterTimeout config in sgn d * (\<bar>d\<bar> div seconds 1))"

definition NewEtcdDiscovery :: "'s etcd_ops \<Rightarrow> discovery_config \<Rightarrow> 's \<Rightarrow> (etcd_error + etcd_discovery) \<times> 's" where
  "NewEtcdDiscovery ops config s =
     (case et_Grant ops (lease_seconds config) s of
        (None, s') \<Rightarrow> (Inl LeaseFailed, s')
      | (Some leaseID, s') \<Rightarrow>
          (Inr \<lparr>ed_config = config, ed_leaseID = leaseID, ed_watchChannels = [], ed_instanceCache = [], ed_watchCancels = [],
                ed_nextChannel = 0, ed_closed = [], ed_sends = []\<rparr>, s'))"

text \<open>The monitor of the lease when its channel is closed.\<close>

definition renew_lease :: "'s etcd_ops \<Rightarrow> etcd_discovery \<Rightarrow> 's \<Rightarrow> etcd_discovery \<times> 's" where
  "renew_lease ops d s =
     (case et_Grant ops (lease_seconds (ed_config d)) s of
        (None, s') \<Rightarrow> (d, s')
      | (Some leaseID, s') \<Rightarrow> (d\<lparr>ed_leaseID := leaseID\<rparr>, s'))"

definition put_instance ::
  "'s etcd_ops \<Rightarrow> codec \<Rightarrow> string \<Rightarrow> service_instance \<Rightarrow> etcd_discovery \<Rightarrow> 's \<Rightarrow> etcd_error option \<times> 's" where
  "put_instance ops cd instanceID i d s =
     (case cd_marshal cd i of
        None \<Rightarrow> (Some MarshalFailed, s)
      | Some data \<Rightarrow>
          (case et_Put ops (instance_key (si_ServiceName i) instanceID) data (ed_leaseID d) s of
             (False, s') \<Rightarrow> (Some EtcdFailed, s')
           | (True, s') \<Rightarrow> (None, s')))"

definition etcd_RegisterInstance ::
  "'s etcd_ops \<Rightarrow> codec \<Rightarrow> time \<Rightarrow> time \<Rightarrow> service_instance \<Rightarrow> etcd_discovery \<Rightarrow> 's \<Rightarrow> etcd_error option \<times> etcd_discovery \<times> 's" where
  "etcd_RegisterInstance ops cd now1 now2 i0 d s =
     (let i1 = (if si_RegisteredAt i0 = time_zero then i0\<lparr>si_RegisteredAt := now1\<rparr> else i0);
          i2 = i1\<lparr>si_LastHeartbeat := now2\<rparr>;
          i = (if si_Status i2 = [] then i2\<lparr>si_Status := ''ACTIVE''\<rparr> else i2)
      in case put_instance ops cd (si_ID i) i d s of
           (Some err, s') \<Rightarrow> (Some err, d, s')
         | (None, s') \<Rightarrow> (None, d\<lparr>ed_instanceCache := mput (si_ID i) i (ed_instanceCache d)\<rparr>, s'))"

text \<open>The active instances of an answer; each is cached.\<close>

definition read_instances :: "codec \<Rightarrow> (string \<times> string) list \<Rightarrow> service_instance list" where
  "read_instances cd kvs = filter (\<lambda>i. si_Status i = ''ACTIVE'') (List.map_filter (\<lambda>kv. cd_unmarshal cd (snd kv)) kvs)"

definition cache_all :: "service_instance list \<Rightarrow> etcd_discovery \<Rightarrow> etcd_discovery" where
  "cache_all is d = d\<lparr>ed_instanceCache := fold (\<lambda>i. mput (si_ID i) i) is (ed_instanceCache d)\<rparr>"

definition etcd_ListInstances ::
  "'s etcd_ops \<Rightarrow> codec \<Rightarrow> string list \<Rightarrow> etcd_discovery \<Rightarrow> 's \<Rightarrow> (etcd_error + service_instance list) \<times> etcd_discovery" where
  "etcd_ListInstances ops cd serviceName d s =
     (let key = (if length serviceName = 0 \<or> serviceName ! 0 = [] then etcdKeyPrefix else path_Join [etcdKeyPrefix, serviceName ! 0])
      in case et_GetPrefix ops key s of
           None \<Rightarrow> (Inl EtcdFailed, d)
         | Some kvs \<Rightarrow> let is = read_instances cd kvs in (Inr is, cache_all is d))"

text \<open>The cached instance, or one of all that etcd has.\<close>

definition etcd_GetInstance ::
  "'s etcd_ops \<Rightarrow> codec \<Rightarrow> string \<Rightarrow> etcd_discovery \<Rightarrow> 's \<Rightarrow> (etcd_error + service_instance) \<times> etcd_discovery" where
  "etcd_GetInstance ops cd instanceID d s =
     (case mget (ed_instanceCache d) instanceID of
        Some i \<Rightarrow> (Inr i, d)
      | None \<Rightarrow>
          (case etcd_ListInstances ops cd [] d s of
             (Inl err, d') \<Rightarrow> (Inl err, d')
           | (Inr is, d') \<Rightarrow>
               (case find (\<lambda>i. si_ID i = instanceID) is of None \<Rightarrow> (Inl (EtcdNotFound instanceID), d') | Some i \<Rightarrow> (Inr i, d'))))"

definition etcd_DeregisterInstance ::
  "'s etcd_ops \<Rightarrow> codec \<Rightarrow> string \<Rightarrow> etcd_discovery \<Rightarrow> 's \<Rightarrow> etcd_error option \<times> etcd_discovery \<times> 's" where
  "etcd_DeregisterInstance ops cd instanceID d s =
     (case etcd_GetInstance ops cd instanceID d s of
        (Inl err, d') \<Rightarrow> (Some err, d', s)
      | (Inr i, d') \<Rightarrow>
          (case et_Delete ops (instance_key (si_ServiceName i) instanceID) s of
             (False, s') \<Rightarrow> (Some EtcdFailed, d', s')
           | (True, s') \<Rightarrow> (None, d'\<lparr>ed_instanceCache := mdel instanceID (ed_instanceCache d')\<rparr>, s')))"

text \<open>The change of the cached instance stays when etcd fails.\<close>

definition change_cached ::
  "'s etcd_ops \<Rightarrow> codec \<Rightarrow> string \<Rightarrow> (service_instance \<Rightarrow> service_instance) \<Rightarrow> etcd_discovery \<Rightarrow> 's \<Rightarrow>
   etcd_error option \<times> etcd_discovery \<times> 's" where
  "change_cached ops cd instanceID f d s =
     (case mget (ed_instanceCache d) instanceID of
        None \<Rightarrow> (Some (EtcdNotFound instanceID), d, s)
      | Some i \<Rightarrow>
          let d' = d\<lparr>ed_instanceCache := mput instanceID (f i) (ed_instanceCache d)\<rparr>
          in case put_instance ops cd instanceID (f i) d' s of (err, s') \<Rightarrow> (err, d', s'))"

definition etcd_UpdateInstanceStatus ::
  "'s etcd_ops \<Rightarrow> codec \<Rightarrow> time \<Rightarrow> string \<Rightarrow> string \<Rightarrow> etcd_discovery \<Rightarrow> 's \<Rightarrow> etcd_error option \<times> etcd_discovery \<times> 's" where
  "etcd_UpdateInstanceStatus ops cd now instanceID status =
     change_cached ops cd instanceID (\<lambda>i. i\<lparr>si_Status := status, si_LastHeartbeat := now\<rparr>)"

definition etcd_Heartbeat ::
  "'s etcd_ops \<Rightarrow> codec \<Rightarrow> time \<Rightarrow> string \<Rightarrow> etcd_discovery \<Rightarrow> 's \<Rightarrow> etcd_error option \<times> etcd_discovery \<times> 's" where
  "etcd_Heartbeat ops cd now instanceID =
     change_cached ops cd instanceID (\<lambda>i. let i' = i\<lparr>si_LastHeartbeat := now\<rparr>
       in if si_Status i' = ''INACTIVE'' then i'\<lparr>si_Status := ''ACTIVE''\<rparr> else i')"

text \<open>The two parts of a key behind the prefix.\<close>

definition parse_key :: "string \<Rightarrow> (string \<times> string) option" where
  "parse_key key =
     (let parts = Split CHR ''/'' (TrimPrefix key (etcdKeyPrefix @ ''/''))
      in if length parts < 2 then None else Some (parts ! 0, parts ! 1))"

definition count_key ::
  "'s etcd_ops \<Rightarrow> codec \<Rightarrow> 's \<Rightarrow> string \<Rightarrow> (string, (string, nat) gomap) gomap \<Rightarrow> (string, (string, nat) gomap) gomap" where
  "count_key ops cd s key m =
     (if key = etcdKeyPrefix then m
      else case parse_key key of
             None \<Rightarrow> m
           | Some (serviceName, instanceID) \<Rightarrow>
               (case et_Get ops (instance_key serviceName instanceID) s of
                  Some ((_, data) # _) \<Rightarrow>
                    (case cd_unmarshal cd data of
                       None \<Rightarrow> m
                     | Some i \<Rightarrow>
                         if si_Status i \<noteq> ''ACTIVE'' then m
                         else
                           let versions = (case mget m serviceName of None \<Rightarrow> [] | Some vs \<Rightarrow> vs);
                               n = (case mget versions (si_Version i) of None \<Rightarrow> 0 | Some n \<Rightarrow> n)
                           in mput serviceName (mput (si_Version i) (Suc n) versions) m)
                | _ \<Rightarrow> m))"

text \<open>\<open>order\<close> and \<open>vorder\<close> are the orders of the loops over the services and over their versions.\<close>

definition etcd_ListServices ::
  "'s etcd_ops \<Rightarrow> codec \<Rightarrow> string list \<Rightarrow> (string \<Rightarrow> string list) \<Rightarrow> 's \<Rightarrow> etcd_error + service_info list" where
  "etcd_ListServices ops cd order vorder s =
     (case et_GetPrefix ops etcdKeyPrefix s of
        None \<Rightarrow> Inl EtcdFailed
      | Some kvs \<Rightarrow>
          let m = fold (count_key ops cd s) (map fst kvs) []
          in Inr (concat (map (\<lambda>name. case mget m name of
                 None \<Rightarrow> []
               | Some versions \<Rightarrow> List.map_filter (\<lambda>v. map_option (\<lambda>n. \<lparr>sv_Name = name, sv_Version = v, sv_Count = n\<rparr>) (mget versions v)) (vorder name))
               order)))"

section \<open>Watching\<close>

definition channels_of :: "etcd_discovery \<Rightarrow> string \<Rightarrow> nat list" where
  "channels_of d name = (case mget (ed_watchChannels d) name of None \<Rightarrow> [] | Some chs \<Rightarrow> chs)"

definition service_filter :: "string list \<Rightarrow> string" where
  "service_filter serviceName = (if length serviceName > 0 \<and> serviceName ! 0 \<noteq> [] then serviceName ! 0 else [])"

definition etcd_WatchServices :: "string list \<Rightarrow> etcd_discovery \<Rightarrow> nat \<times> etcd_discovery" where
  "etcd_WatchServices serviceName d =
     (let ch = ed_nextChannel d; name = service_filter serviceName
      in (ch, d\<lparr>ed_nextChannel := ch + 1, ed_watchChannels := mput name (channels_of d name @ [ch]) (ed_watchChannels d),
                ed_watchCancels := (if name \<in> set (ed_watchCancels d) then ed_watchCancels d else ed_watchCancels d @ [name])\<rparr>))"

text \<open>The goroutine that sends the first state.\<close>

definition send_initial :: "'s etcd_ops \<Rightarrow> codec \<Rightarrow> string list \<Rightarrow> nat \<Rightarrow> etcd_discovery \<Rightarrow> 's \<Rightarrow> etcd_discovery" where
  "send_initial ops cd serviceName ch d s =
     (case etcd_ListInstances ops cd serviceName d s of
        (Inl err, d') \<Rightarrow> d'
      | (Inr is, d') \<Rightarrow> d'\<lparr>ed_sends := ed_sends d' @ map (Pair ch) is\<rparr>)"

definition etcd_notifyWatchers :: "service_instance \<Rightarrow> string \<Rightarrow> etcd_discovery \<Rightarrow> etcd_discovery" where
  "etcd_notifyWatchers i name d =
     (if name \<noteq> [] \<and> name \<noteq> si_ServiceName i then d
      else d\<lparr>ed_sends := ed_sends d @ map (\<lambda>ch. (ch, i)) (channels_of d (si_ServiceName i) @ channels_of d [])\<rparr>)"

datatype etcd_event = PutEvent string | DeleteEvent string

text \<open>The watch of \<open>name\<close> handles one event.\<close>

definition watch_event :: "codec \<Rightarrow> string \<Rightarrow> etcd_event \<Rightarrow> etcd_discovery \<Rightarrow> etcd_discovery" where
  "watch_event cd name ev d =
     (case ev of
        PutEvent data \<Rightarrow>
          (case cd_unmarshal cd data of
             None \<Rightarrow> d
           | Some i \<Rightarrow> etcd_notifyWatchers i name (d\<lparr>ed_instanceCache := mput (si_ID i) i (ed_instanceCache d)\<rparr>))
      | DeleteEvent key \<Rightarrow>
          (case parse_key key of
             None \<Rightarrow> d
           | Some (serviceName, instanceID) \<Rightarrow>
               (case mget (ed_instanceCache d) instanceID of
                  None \<Rightarrow> d
                | Some i \<Rightarrow>
                    etcd_notifyWatchers (i\<lparr>si_Status := ''DEREGISTERED''\<rparr>) name
                      (d\<lparr>ed_instanceCache := mdel instanceID (ed_instanceCache d)\<rparr>))))"

text \<open>Closing a channel twice is a panic: \<open>None\<close>.\<close>

definition close_channel :: "nat \<Rightarrow> etcd_discovery \<Rightarrow> etcd_discovery option" where
  "close_channel ch d = (if ch \<in> set (ed_closed d) then None else Some (d\<lparr>ed_closed := ch # ed_closed d\<rparr>))"

fun close_channels :: "nat list \<Rightarrow> etcd_discovery \<Rightarrow> etcd_discovery option" where
  "close_channels [] d = Some d"
| "close_channels (ch # chs) d = Option.bind (close_channel ch d) (close_channels chs)"

definition etcd_removeWatchChannel :: "nat \<Rightarrow> string \<Rightarrow> etcd_discovery \<Rightarrow> etcd_discovery option" where
  "etcd_removeWatchChannel ch name d =
     (case mget (ed_watchChannels d) name of
        None \<Rightarrow> close_channel ch d
      | Some chs \<Rightarrow>
          close_channel ch
            (if ch \<notin> set chs then d
             else if length (remove1 ch chs) = 0
             then d\<lparr>ed_watchChannels := mdel name (ed_watchChannels d), ed_watchCancels := removeAll name (ed_watchCancels d)\<rparr>
             else d\<lparr>ed_watchChannels := mput name (remove1 ch chs) (ed_watchChannels d)\<rparr>))"

definition etcd_Close :: "string list \<Rightarrow> etcd_discovery \<Rightarrow> etcd_discovery option" where
  "etcd_Close order d =
     map_option (\<lambda>d'. d'\<lparr>ed_watchChannels := [], ed_watchCancels := []\<rparr>) (close_channels (concat (map (channels_of d) order)) d)"

section \<open>What etcd and the encoder promise\<close>

text \<open>\<open>kv\<close> is what etcd stores under a key.\<close>

definition etcd_laws :: "'s etcd_ops \<Rightarrow> ('s \<Rightarrow> string \<Rightarrow> string option) \<Rightarrow> bool" where
  "etcd_laws ops kv \<longleftrightarrow>
     (\<forall>k v l s. fst (et_Put ops k v l s) \<longrightarrow> kv (snd (et_Put ops k v l s)) = (kv s)(k \<mapsto> v)) \<and>
     (\<forall>k s. fst (et_Delete ops k s) \<longrightarrow> kv (snd (et_Delete ops k s)) = (kv s)(k := None)) \<and>
     (\<forall>p s kvs. et_GetPrefix ops p s = Some kvs \<longrightarrow> set kvs = {(k, v). kv s k = Some v \<and> HasPrefix k p})"

definition json_laws :: "codec \<Rightarrow> bool" where
  "json_laws cd \<longleftrightarrow> (\<forall>i data. cd_marshal cd i = Some data \<longrightarrow> cd_unmarshal cd data = Some i)"

text \<open>Every stored instance is under the key of its service and its ID.\<close>

definition keys_ok :: "codec \<Rightarrow> (string \<Rightarrow> string option) \<Rightarrow> bool" where
  "keys_ok cd m \<longleftrightarrow> (\<forall>k data i. m k = Some data \<and> cd_unmarshal cd data = Some i \<longrightarrow> k = instance_key (si_ServiceName i) (si_ID i))"

section \<open>Keys\<close>

definition plain_seg :: "string \<Rightarrow> bool" where
  "plain_seg s \<longleftrightarrow> s \<noteq> [] \<and> s \<noteq> ''.'' \<and> s \<noteq> ''..'' \<and> CHR ''/'' \<notin> set s"

lemma service_key_plain: "plain_seg n \<Longrightarrow> path_Join [etcdKeyPrefix, n] = ''/services/'' @ n"
proof -
  assume n: "plain_seg n"
  have "Split CHR ''/'' (''services'' @ CHR ''/'' # n) = [''services'', n]"
    using n by (subst Split_append_sep) (auto simp: plain_seg_def Split_no_sep)
  with n show ?thesis
    by (simp add: path_Join_def Clean_def HasPrefix_def etcdKeyPrefix_def plain_seg_def Let_def)
qed

lemma instance_key_plain: "plain_seg n \<Longrightarrow> plain_seg i \<Longrightarrow> instance_key n i = ''/services/'' @ n @ CHR ''/'' # i"
proof -
  assume n: "plain_seg n" "plain_seg i"
  have "Split CHR ''/'' (''services'' @ CHR ''/'' # n @ CHR ''/'' # i) = [''services'', n, i]"
    using n by (subst Split_append_sep) (auto simp: plain_seg_def Split_append_sep Split_no_sep)
  with n show ?thesis
    by (simp add: instance_key_def path_Join_def Clean_def HasPrefix_def etcdKeyPrefix_def plain_seg_def Let_def)
qed

lemma HasPrefix_seg: "CHR ''/'' \<notin> set p \<Longrightarrow> HasPrefix (n @ CHR ''/'' # i) p \<longleftrightarrow> HasPrefix n p"
proof (induction p arbitrary: n)
  case (Cons c p)
  then show ?case by (cases n) (auto simp: HasPrefix_def)
qed (simp add: HasPrefix_def)

lemma key_under_service:
  "plain_seg n \<Longrightarrow> plain_seg i \<Longrightarrow> plain_seg p \<Longrightarrow> HasPrefix (instance_key n i) (path_Join [etcdKeyPrefix, p]) \<longleftrightarrow> HasPrefix n p"
  using HasPrefix_seg [of p n i] by (simp add: instance_key_plain service_key_plain HasPrefix_def plain_seg_def)

section \<open>Listing\<close>

lemma put_instance_stored:
  assumes "etcd_laws ops kv" "json_laws cd" "put_instance ops cd (si_ID i) i d s = (None, s')"
  shows "\<exists>data. kv s' = (kv s)(instance_key (si_ServiceName i) (si_ID i) \<mapsto> data) \<and> cd_unmarshal cd data = Some i"
proof -
  from assms(3) obtain data where m: "cd_marshal cd i = Some data"
    and p: "et_Put ops (instance_key (si_ServiceName i) (si_ID i)) data (ed_leaseID d) s = (True, s')"
    by (auto simp: put_instance_def split: option.splits prod.splits bool.splits)
  from assms(1) have "fst (et_Put ops k v l s) \<Longrightarrow> kv (snd (et_Put ops k v l s)) = (kv s)(k \<mapsto> v)" for k v l
    by (simp add: etcd_laws_def)
  from this [of "instance_key (si_ServiceName i) (si_ID i)" data "ed_leaseID d"] p m assms(2) show ?thesis by (auto simp: json_laws_def)
qed

lemma register_copy:
  "etcd_RegisterInstance ops cd now1 now2 i d s =
     (let x = registered_copy now1 now2 i
      in case put_instance ops cd (si_ID x) x d s of
           (Some err, s') \<Rightarrow> (Some err, d, s')
         | (None, s') \<Rightarrow> (None, d\<lparr>ed_instanceCache := mput (si_ID x) x (ed_instanceCache d)\<rparr>, s'))"
  by (simp only: etcd_RegisterInstance_def registered_copy_def Let_def)

lemma keys_ok_stored:
  "keys_ok cd m \<Longrightarrow> cd_unmarshal cd data = Some i \<Longrightarrow> keys_ok cd (m(instance_key (si_ServiceName i) (si_ID i) \<mapsto> data))"
  by (auto simp: keys_ok_def)

lemma ListInstances_set:
  assumes "etcd_laws ops kv" "etcd_ListInstances ops cd [svc] e s = (Inr xs, e')" "svc \<noteq> []"
  shows "x \<in> set xs \<longleftrightarrow> si_Status x = ''ACTIVE''
    \<and> (\<exists>k data. kv s k = Some data \<and> HasPrefix k (path_Join [etcdKeyPrefix, svc]) \<and> cd_unmarshal cd data = Some x)"
proof -
  from assms(2,3) obtain kvs where g: "et_GetPrefix ops (path_Join [etcdKeyPrefix, svc]) s = Some kvs" "xs = read_instances cd kvs"
    by (auto simp: etcd_ListInstances_def Let_def split: option.splits)
  from assms(1) g(1) have "set kvs = {(k, v). kv s k = Some v \<and> HasPrefix k (path_Join [etcdKeyPrefix, svc])}"
    by (simp add: etcd_laws_def)
  then show ?thesis by (auto simp: g(2) read_instances_def set_map_filter)
qed

lemma stored_listed:
  assumes laws: "etcd_laws ops kv" and plain: "plain_seg (si_ServiceName i)" "plain_seg (si_ID i)" "plain_seg svc"
    and stored: "kv s (instance_key (si_ServiceName i) (si_ID i)) = Some data" "cd_unmarshal cd data = Some i" "keys_ok cd (kv s)"
    and listed: "etcd_ListInstances ops cd [svc] e s = (Inr xs, e')"
  shows "i \<in> set xs \<longleftrightarrow> si_Status i = ''ACTIVE'' \<and> HasPrefix (si_ServiceName i) svc"
proof -
  have "svc \<noteq> []" using plain(3) by (simp add: plain_seg_def)
  from ListInstances_set [OF laws listed this, of i]
  have "i \<in> set xs \<longleftrightarrow> si_Status i = ''ACTIVE'' \<and> (\<exists>k data. kv s k = Some data \<and> HasPrefix k (path_Join [etcdKeyPrefix, svc]) \<and> cd_unmarshal cd data = Some i)" .
  also have "(\<exists>k data. kv s k = Some data \<and> HasPrefix k (path_Join [etcdKeyPrefix, svc]) \<and> cd_unmarshal cd data = Some i)
      \<longleftrightarrow> HasPrefix (instance_key (si_ServiceName i) (si_ID i)) (path_Join [etcdKeyPrefix, svc])"
    using stored unfolding keys_ok_def by metis
  finally show ?thesis using key_under_service [OF plain] by simp
qed

text \<open>C25: an instance that one process registers in etcd is found by every other process, under its service and also under every other name
  that its service begins with: asking for \<open>users\<close> gives the instances of \<open>users-admin\<close> as well. An instance whose status is not active is
  found by no such question. (Names and IDs are single segments of a path, and etcd and the encoder keep their promises.)\<close>

theorem etcd_registered_instance_listed:
  assumes laws: "etcd_laws ops kv" "json_laws cd" and plain: "plain_seg (si_ServiceName i)" "plain_seg (si_ID i)" "plain_seg svc"
    and reg: "etcd_RegisterInstance ops cd now1 now2 i d s = (None, d', s')" "keys_ok cd (kv s)"
    and listed: "etcd_ListInstances ops cd [svc] e s' = (Inr xs, e')"
  shows "\<exists>x. mget (ed_instanceCache d') (si_ID i) = Some x \<and> si_ID x = si_ID i \<and> si_ServiceName x = si_ServiceName i
    \<and> si_Address x = si_Address i \<and> si_Port x = si_Port i
    \<and> (x \<in> set xs \<longleftrightarrow> si_Status i \<in> {[], ''ACTIVE''} \<and> HasPrefix (si_ServiceName i) svc)"
proof -
  define x where "x = registered_copy now1 now2 i"
  have x: "si_ID x = si_ID i" "si_ServiceName x = si_ServiceName i" "si_Address x = si_Address i" "si_Port x = si_Port i"
    "si_Status x = ''ACTIVE'' \<longleftrightarrow> si_Status i \<in> {[], ''ACTIVE''}" by (auto simp: x_def registered_copy_def Let_def)
  from reg(1) have p: "put_instance ops cd (si_ID x) x d s = (None, s')" "d' = d\<lparr>ed_instanceCache := mput (si_ID x) x (ed_instanceCache d)\<rparr>"
    by (auto simp: register_copy x_def Let_def split: prod.splits option.splits)
  from put_instance_stored [OF laws p(1)] obtain data where
    k: "kv s' = (kv s)(instance_key (si_ServiceName x) (si_ID x) \<mapsto> data)" "cd_unmarshal cd data = Some x" by blast
  with keys_ok_stored [OF reg(2) k(2)] have "keys_ok cd (kv s')" by simp
  from stored_listed [OF laws(1) _ _ plain(3) _ k(2) this listed] plain k(1)
  have "x \<in> set xs \<longleftrightarrow> si_Status x = ''ACTIVE'' \<and> HasPrefix (si_ServiceName x) svc" by (simp add: x)
  with p(2) x show ?thesis by (intro exI [of _ x]) (simp add: mget_mput)
qed

text \<open>A heartbeat stores the instance again, so it is found again after its lease was lost.\<close>

lemma heartbeat_restores:
  assumes laws: "etcd_laws ops kv" "json_laws cd" and plain: "plain_seg (si_ServiceName i)" "plain_seg (si_ID i)"
    and beat: "mget (ed_instanceCache d) (si_ID i) = Some i" "etcd_Heartbeat ops cd now (si_ID i) d s = (None, d', s')"
    and "keys_ok cd (kv s)" "si_Status i \<in> {''ACTIVE'', ''INACTIVE''}"
    and listed: "etcd_ListInstances ops cd [si_ServiceName i] e s' = (Inr xs, e')"
  shows "\<exists>x \<in> set xs. si_ID x = si_ID i \<and> si_LastHeartbeat x = now"
proof -
  let ?x = "i\<lparr>si_LastHeartbeat := now, si_Status := ''ACTIVE''\<rparr>"
  have f: "(if si_Status i = ''INACTIVE'' then i\<lparr>si_LastHeartbeat := now, si_Status := ''ACTIVE''\<rparr> else i\<lparr>si_LastHeartbeat := now\<rparr>) = ?x"
    using assms(8) by (cases i) auto
  have p: "put_instance ops cd (si_ID i) ?x (d\<lparr>ed_instanceCache := mput (si_ID i) ?x (ed_instanceCache d)\<rparr>) s = (None, s')"
    using beat by (simp add: etcd_Heartbeat_def change_cached_def f Let_def split: prod.splits)
  have "si_ID ?x = si_ID i" by simp
  with p obtain data where
    k: "kv s' = (kv s)(instance_key (si_ServiceName i) (si_ID i) \<mapsto> data)" "cd_unmarshal cd data = Some ?x"
    using put_instance_stored [OF laws, of ?x] by fastforce
  with keys_ok_stored [OF assms(7) k(2)] have "keys_ok cd (kv s')" by simp
  from stored_listed [OF laws(1), where i = ?x and s = s' and data = data, OF _ _ plain(1) _ k(2) this listed] plain k(1)
  have "?x \<in> set xs" by (simp add: HasPrefix_def)
  then show ?thesis by (intro bexI [of _ ?x]) simp_all
qed

text \<open>The cache is asked first: an instance that another process has removed is still served.\<close>

lemma removed_instance_still_served:
  assumes "mget (ed_instanceCache e) i = Some x" "etcd_DeregisterInstance ops cd i d s = (None, d', s')"
  shows "fst (etcd_GetInstance ops cd i e s') = Inr x \<and> mget (ed_instanceCache d') i = None"
  using assms by (auto simp: etcd_GetInstance_def etcd_DeregisterInstance_def mget_mdel split: option.splits prod.splits sum.splits bool.splits)

text \<open>With a watch of the service and one of all services both handle the event, and every channel gets the instance twice.\<close>

lemma channels_of_frame [simp]:
  "channels_of (d\<lparr>ed_instanceCache := c\<rparr>) = channels_of d" "channels_of (d\<lparr>ed_sends := x\<rparr>) = channels_of d"
  by (simp_all add: channels_of_def fun_eq_iff)

lemma update_sent_twice:
  assumes "cd_unmarshal cd data = Some i" "si_ServiceName i = name" "name \<noteq> []" "ch \<in> set (channels_of d name)"
  shows "\<exists>sends. ed_sends (watch_event cd [] (PutEvent data) (watch_event cd name (PutEvent data) d)) = ed_sends d @ sends @ sends
    \<and> (ch, i) \<in> set sends"
  using assms
  by (intro exI [of _ "map (\<lambda>ch. (ch, i)) (channels_of d name @ channels_of d [])"]) (auto simp: watch_event_def etcd_notifyWatchers_def)

section \<open>Closing\<close>

lemma close_channels_closed: "close_channels chs d = Some d' \<Longrightarrow> set (ed_closed d') = set (ed_closed d) \<union> set chs"
  by (induction chs arbitrary: d) (auto simp: close_channel_def split: bind_splits if_splits)

text \<open>a watch that outlives the provider stops the process: \<open>Close\<close> closes every channel, and when the context of a watch is cancelled
  afterwards its channel is closed a second time, which is a panic.\<close>

lemma etcd_cancel_after_close_panics:
  assumes "ch \<in> set (channels_of d name)" "name \<in> set order" "etcd_Close order d = Some d'"
  shows "etcd_removeWatchChannel ch name d' = None"
proof -
  from assms(3) obtain d1 where d1: "close_channels (concat (map (channels_of d) order)) d = Some d1"
    "d' = d1\<lparr>ed_watchChannels := [], ed_watchCancels := []\<rparr>" by (auto simp: etcd_Close_def)
  from close_channels_closed [OF d1(1)] assms(1,2) have "ch \<in> set (ed_closed d')" by (auto simp: d1(2))
  with d1(2) show ?thesis by (simp add: etcd_removeWatchChannel_def close_channel_def)
qed

section \<open>Witnesses\<close>

text \<open>An etcd that always answers, and an encoding of the fields that the witness uses.\<close>

definition kv_etcd :: "(string, string) gomap etcd_ops" where
  "kv_etcd = \<lparr>et_Put = (\<lambda>k v l s. (True, mput k v s)), et_Delete = (\<lambda>k s. (True, mdel k s)),
     et_Get = (\<lambda>k s. Some (case mget s k of None \<Rightarrow> [] | Some v \<Rightarrow> [(k, v)])),
     et_GetPrefix = (\<lambda>p s. Some (List.map_filter (\<lambda>k. if HasPrefix k p then map_option (Pair k) (mget s k) else None) (mkeys s))),
     et_Grant = (\<lambda>ttl s. (Some 1, s))\<rparr>"

definition admin_instance :: service_instance where
  "admin_instance = empty_instance\<lparr>si_ID := ''i1'', si_ServiceName := ''users-admin'', si_RegisteredAt := 3\<rparr>"

definition one_codec :: codec where
  "one_codec = \<lparr>cd_marshal = (\<lambda>i. if i = admin_instance\<lparr>si_LastHeartbeat := 4, si_Status := ''ACTIVE''\<rparr> then Some ''json'' else None),
     cd_unmarshal = (\<lambda>data. if data = ''json'' then Some (admin_instance\<lparr>si_LastHeartbeat := 4, si_Status := ''ACTIVE''\<rparr>) else None)\<rparr>"

lemma kv_etcd_laws: "etcd_laws kv_etcd mget"
  by (auto simp: etcd_laws_def kv_etcd_def mget_mput mget_mdel fun_eq_iff set_map_filter dest: mget_Some_key split: if_splits)

definition idle_etcd :: etcd_discovery where
  "idle_etcd = \<lparr>ed_config = sample_config, ed_leaseID = 1, ed_watchChannels = [], ed_instanceCache = [], ed_watchCancels = [],
     ed_nextChannel = 0, ed_closed = [], ed_sends = []\<rparr>"

theorem etcd_registered_instance_listed_witness:
  "\<exists>d' s' xs e' x. etcd_RegisterInstance kv_etcd one_codec 3 4 admin_instance idle_etcd [] = (None, d', s')
    \<and> etcd_ListInstances kv_etcd one_codec [''users''] idle_etcd s' = (Inr xs, e') \<and> x \<in> set xs \<and> si_ServiceName x = ''users-admin''"
proof -
  let ?r = "etcd_RegisterInstance kv_etcd one_codec 3 4 admin_instance idle_etcd []"
  let ?l = "etcd_ListInstances kv_etcd one_codec [''users''] idle_etcd (snd (snd ?r))"
  have r: "fst ?r = None" by (simp add: etcd_RegisterInstance_def put_instance_def one_codec_def kv_etcd_def admin_instance_def empty_instance_def Let_def)
  obtain xs e' where l: "?l = (Inr xs, e')" by (simp add: etcd_ListInstances_def kv_etcd_def Let_def)
  have p: "plain_seg (si_ServiceName admin_instance)" "plain_seg (si_ID admin_instance)" "plain_seg ''users''"
    by (auto simp: plain_seg_def admin_instance_def)
  have a: "json_laws one_codec" by (auto simp: json_laws_def one_codec_def split: if_splits)
  have k: "keys_ok one_codec (mget [])" by (simp add: keys_ok_def)
  have "?r = (None, fst (snd ?r), snd (snd ?r))" using r by (metis prod.collapse)
  from etcd_registered_instance_listed [OF kv_etcd_laws a p this k l] r l show ?thesis
    by (auto simp: admin_instance_def empty_instance_def HasPrefix_def) (metis prod.collapse)+
qed

lemma etcd_cancel_after_close_panics_witness:
  "\<exists>d'. etcd_Close [''users''] (snd (etcd_WatchServices [''users''] idle_etcd)) = Some d' \<and> etcd_removeWatchChannel 0 ''users'' d' = None"
proof -
  let ?d = "snd (etcd_WatchServices [''users''] idle_etcd)"
  have d: "channels_of ?d ''users'' = [0]" "ed_closed ?d = []" by code_simp+
  then obtain d' where "etcd_Close [''users''] ?d = Some d'" by (simp add: etcd_Close_def close_channel_def)
  with etcd_cancel_after_close_panics [of 0 ?d "''users''" "[''users'']", OF _ _ this] d show ?thesis by auto
qed

end
