(* ===== verification/ConsulDiscovery.thy ===== *)
theory ConsulDiscovery
  imports Discovery
begin

text \<open>
  Service discovery over Consul (\<open>prism/internal/features/discovery/adapters/provider/consul.go\<close>). The provider keeps no instances; every
  operation asks the Consul agent.

  The client of Consul is an argument (\<open>consul_ops\<close>); what it promises is stated in \<open>consul_laws\<close>. A failed call gives \<open>None\<close>, or the text
  of its error where the code reads it. \<open>order\<close> arguments are the orders of loops over maps, \<open>parse_time\<close> reads a time. Channels are
  numbers; sends are recorded in the order in which they start.
\<close>

section \<open>Consul\<close>

record agent_service =
  as_ID :: string
  as_Service :: string
  as_Address :: string
  as_Port :: int
  as_Tags :: "string list"
  as_Meta :: "(string, string) gomap"

record registration =
  rg_Service :: agent_service
  rg_TTL :: duration
  rg_DeregisterAfter :: duration

record service_check =
  sk_ServiceID :: string
  sk_Status :: string

record service_entry =
  sn_Service :: agent_service
  sn_Checks :: "string list"

record 's consul_ops =
  cs_ServiceRegister :: "registration \<Rightarrow> 's \<Rightarrow> bool \<times> 's"
  cs_PassTTL :: "string \<Rightarrow> 's \<Rightarrow> string option \<times> 's"
  cs_FailTTL :: "string \<Rightarrow> 's \<Rightarrow> string option \<times> 's"
  cs_ServiceDeregister :: "string \<Rightarrow> 's \<Rightarrow> bool \<times> 's"
  cs_Services :: "'s \<Rightarrow> (string, agent_service) gomap option"
  cs_Service :: "string \<Rightarrow> 's \<Rightarrow> agent_service option option"
  cs_Checks :: "'s \<Rightarrow> service_check list option"
  cs_CatalogServices :: "'s \<Rightarrow> string list option"
  cs_HealthService :: "string \<Rightarrow> 's \<Rightarrow> service_entry list option"

section \<open>Operations\<close>

record consul_discovery =
  cn_config :: discovery_config
  cn_watchChannels :: "(string, nat list) gomap"
  cn_watchCancels :: "string list"
  cn_nextChannel :: nat
  cn_sends :: "(nat \<times> service_instance) list"

datatype consul_error = ConsulFailed | UnsupportedStatus string | ConsulNotFound string | CheckFailed string

definition NewConsulDiscovery :: "discovery_config \<Rightarrow> consul_discovery" where
  "NewConsulDiscovery config =
     \<lparr>cn_config = config, cn_watchChannels = [], cn_watchCancels = [], cn_nextChannel = 0, cn_sends = []\<rparr>"

definition check_id :: "string \<Rightarrow> string" where
  "check_id instanceID = ''service:'' @ instanceID"

definition registration_of :: "discovery_config \<Rightarrow> service_instance \<Rightarrow> registration" where
  "registration_of config i =
     (let plain = \<lparr>as_ID = si_ID i, as_Service = si_ServiceName i, as_Address = si_Address i, as_Port = si_Port i, as_Tags = si_Tags i,
                   as_Meta = si_Metadata i\<rparr>;
          versioned = (if si_Version i \<noteq> []
                       then plain\<lparr>as_Tags := as_Tags plain @ [''version='' @ si_Version i],
                                  as_Meta := mput ''version'' (si_Version i) (as_Meta plain)\<rparr>
                       else plain)
      in \<lparr>rg_Service = versioned, rg_TTL = dc_HeartbeatInterval config, rg_DeregisterAfter = dc_DeregisterTimeout config\<rparr>)"

definition consul_RegisterInstance ::
  "'s consul_ops \<Rightarrow> service_instance \<Rightarrow> consul_discovery \<Rightarrow> 's \<Rightarrow> consul_error option \<times> 's" where
  "consul_RegisterInstance ops i d s =
     (case cs_ServiceRegister ops (registration_of (cn_config d) i) s of
        (False, s') \<Rightarrow> (Some ConsulFailed, s')
      | (True, s') \<Rightarrow>
          if si_Status i = [] \<or> si_Status i = ''ACTIVE''
          then (case cs_PassTTL ops (check_id (si_ID i)) s' of
                  (Some err, s'') \<Rightarrow> (Some (CheckFailed err), s'')
                | (None, s'') \<Rightarrow> (None, s''))
          else (None, s'))"

definition consul_DeregisterInstance :: "'s consul_ops \<Rightarrow> string \<Rightarrow> 's \<Rightarrow> consul_error option \<times> 's" where
  "consul_DeregisterInstance ops instanceID s =
     (case cs_ServiceDeregister ops instanceID s of (False, s') \<Rightarrow> (Some ConsulFailed, s') | (True, s') \<Rightarrow> (None, s'))"

definition consul_UpdateInstanceStatus :: "'s consul_ops \<Rightarrow> string \<Rightarrow> string \<Rightarrow> 's \<Rightarrow> consul_error option \<times> 's" where
  "consul_UpdateInstanceStatus ops instanceID status s =
     (if status = ''ACTIVE''
      then (case cs_PassTTL ops (check_id instanceID) s of (err, s') \<Rightarrow> (map_option CheckFailed err, s'))
      else if status = ''INACTIVE'' \<or> status = ''DEREGISTERED''
      then (case cs_FailTTL ops (check_id instanceID) s of (err, s') \<Rightarrow> (map_option CheckFailed err, s'))
      else (Some (UnsupportedStatus status), s))"

definition read_tag :: "string \<Rightarrow> string \<times> string list \<Rightarrow> string \<times> string list" where
  "read_tag tag vt =
     (if HasPrefix tag ''version=''
      then (if fst vt = [] then (TrimPrefix tag ''version='', snd vt) else vt)
      else (fst vt, snd vt @ [tag]))"

definition consulServiceToInstance :: "(string \<Rightarrow> time option) \<Rightarrow> agent_service \<Rightarrow> service_instance" where
  "consulServiceToInstance parse_time service =
     (let version = (case mget (as_Meta service) ''version'' of None \<Rightarrow> [] | Some v \<Rightarrow> v);
          (version', tags) = fold read_tag (as_Tags service) (version, []);
          regTime = (case mget (as_Meta service) ''registered_at'' of None \<Rightarrow> time_zero
                     | Some str \<Rightarrow> (case parse_time str of None \<Rightarrow> time_zero | Some t \<Rightarrow> t))
      in \<lparr>si_ID = as_ID service, si_ServiceName = as_Service service, si_Version = version', si_Address = as_Address service,
          si_Port = as_Port service, si_Status = [], si_Tags = tags, si_Metadata = as_Meta service, si_RegisteredAt = regTime,
          si_LastHeartbeat = time_zero\<rparr>)"

text \<open>The first check of the service decides.\<close>

definition isServiceHealthy :: "'s consul_ops \<Rightarrow> string \<Rightarrow> 's \<Rightarrow> bool option" where
  "isServiceHealthy ops serviceID s =
     map_option (\<lambda>checks. case find (\<lambda>c. sk_ServiceID c = serviceID) checks of None \<Rightarrow> False | Some c \<Rightarrow> sk_Status c = ''passing'')
       (cs_Checks ops s)"

definition with_health :: "bool \<Rightarrow> service_instance \<Rightarrow> service_instance" where
  "with_health healthy i = i\<lparr>si_Status := (if healthy then ''ACTIVE'' else ''INACTIVE'')\<rparr>"

fun list_services ::
  "'s consul_ops \<Rightarrow> (string \<Rightarrow> time option) \<Rightarrow> 's \<Rightarrow> (agent_service \<Rightarrow> bool) \<Rightarrow> agent_service list \<Rightarrow> consul_error + service_instance list" where
  "list_services ops parse_time s wanted [] = Inr []"
| "list_services ops parse_time s wanted (service # services) =
     (if \<not> wanted service then list_services ops parse_time s wanted services
      else case isServiceHealthy ops (as_ID service) s of
             None \<Rightarrow> Inl ConsulFailed
           | Some healthy \<Rightarrow>
               (case list_services ops parse_time s wanted services of
                  Inl err \<Rightarrow> Inl err
                | Inr rest \<Rightarrow> Inr (with_health healthy (consulServiceToInstance parse_time service) # rest)))"

definition consul_ListInstances ::
  "'s consul_ops \<Rightarrow> (string \<Rightarrow> time option) \<Rightarrow> string list \<Rightarrow> string list \<Rightarrow> 's \<Rightarrow> consul_error + service_instance list" where
  "consul_ListInstances ops parse_time order serviceName s =
     (case cs_Services ops s of
        None \<Rightarrow> Inl ConsulFailed
      | Some serviceMap \<Rightarrow>
          list_services ops parse_time s
            (\<lambda>service. length serviceName = 0 \<or> serviceName ! 0 = [] \<or> as_Service service = serviceName ! 0)
            (List.map_filter (mget serviceMap) order))"

definition consul_GetInstance ::
  "'s consul_ops \<Rightarrow> (string \<Rightarrow> time option) \<Rightarrow> string \<Rightarrow> 's \<Rightarrow> consul_error + service_instance" where
  "consul_GetInstance ops parse_time instanceID s =
     (case cs_Service ops instanceID s of
        None \<Rightarrow> Inl ConsulFailed
      | Some None \<Rightarrow> Inl (ConsulNotFound instanceID)
      | Some (Some service) \<Rightarrow>
          (case isServiceHealthy ops instanceID s of
             None \<Rightarrow> Inl ConsulFailed
           | Some healthy \<Rightarrow> Inr (with_health healthy (consulServiceToInstance parse_time service))))"

definition consul_Heartbeat ::
  "'s consul_ops \<Rightarrow> (string \<Rightarrow> time option) \<Rightarrow> string \<Rightarrow> consul_discovery \<Rightarrow> 's \<Rightarrow> consul_error option \<times> 's" where
  "consul_Heartbeat ops parse_time instanceID d s =
     (case cs_Service ops instanceID s of
        None \<Rightarrow> (Some ConsulFailed, s)
      | Some None \<Rightarrow> (Some (ConsulNotFound instanceID), s)
      | Some (Some _) \<Rightarrow>
          (case cs_PassTTL ops (check_id instanceID) s of
             (None, s') \<Rightarrow> (None, s')
           | (Some err, s') \<Rightarrow>
               if Contains err ''check not found'' \<or> Contains err ''does not have associated TTL''
               then (case consul_GetInstance ops parse_time instanceID s' of
                       Inl e \<Rightarrow> (Some e, s')
                     | Inr i \<Rightarrow> consul_RegisterInstance ops i d s')
               else (Some (CheckFailed err), s')))"

section \<open>Services\<close>

definition entry_passing :: "service_entry \<Rightarrow> bool" where
  "entry_passing e = list_all (\<lambda>st. st = ''passing'') (sn_Checks e)"

definition entry_version :: "service_entry \<Rightarrow> string" where
  "entry_version e =
     (let fromMeta = (case mget (as_Meta (sn_Service e)) ''version'' of None \<Rightarrow> ''unknown'' | Some v \<Rightarrow> v)
      in if fromMeta = ''unknown''
         then (case find (\<lambda>tag. HasPrefix tag ''version='') (as_Tags (sn_Service e)) of
                 None \<Rightarrow> ''unknown'' | Some tag \<Rightarrow> TrimPrefix tag ''version='')
         else fromMeta)"

definition version_counts :: "service_entry list \<Rightarrow> (string, nat) gomap" where
  "version_counts entries =
     fold (\<lambda>e m. mput (entry_version e) (Suc (case mget m (entry_version e) of None \<Rightarrow> 0 | Some n \<Rightarrow> n)) m) (filter entry_passing entries) []"

fun consul_count_services :: "'s consul_ops \<Rightarrow> 's \<Rightarrow> string list \<Rightarrow> (string, (string, nat) gomap) gomap \<Rightarrow> (string, (string, nat) gomap) gomap option" where
  "consul_count_services ops s [] m = Some m"
| "consul_count_services ops s (name # names) m =
     (if name = ''consul'' then consul_count_services ops s names m
      else case cs_HealthService ops name s of
             None \<Rightarrow> None
           | Some entries \<Rightarrow> consul_count_services ops s names (mput name (version_counts entries) m))"

text \<open>\<open>order\<close> and \<open>vorder\<close> are the orders of the last two loops; the names of the catalog are distinct.\<close>

definition consul_ListServices ::
  "'s consul_ops \<Rightarrow> string list \<Rightarrow> (string \<Rightarrow> string list) \<Rightarrow> 's \<Rightarrow> consul_error + service_info list" where
  "consul_ListServices ops order vorder s =
     (case cs_CatalogServices ops s of
        None \<Rightarrow> Inl ConsulFailed
      | Some names \<Rightarrow>
          (case consul_count_services ops s names [] of
             None \<Rightarrow> Inl ConsulFailed
           | Some m \<Rightarrow>
               Inr (concat (map (\<lambda>name. case mget m name of
                  None \<Rightarrow> []
                | Some versions \<Rightarrow> List.map_filter (\<lambda>v. map_option (\<lambda>n. \<lparr>sv_Name = name, sv_Version = v, sv_Count = n\<rparr>) (mget versions v)) (vorder name))
                order))))"

section \<open>Watching\<close>

definition consul_channels :: "consul_discovery \<Rightarrow> string \<Rightarrow> nat list" where
  "consul_channels d name = (case mget (cn_watchChannels d) name of None \<Rightarrow> [] | Some chs \<Rightarrow> chs)"

definition watch_consul :: "nat \<Rightarrow> string \<Rightarrow> consul_discovery \<Rightarrow> consul_discovery" where
  "watch_consul ch name d =
     (let cancels = (if mget (cn_watchChannels d) name = None \<and> name \<notin> set (cn_watchCancels d) then cn_watchCancels d @ [name] else cn_watchCancels d)
      in d\<lparr>cn_watchCancels := cancels, cn_watchChannels := mput name (consul_channels d name @ [ch]) (cn_watchChannels d)\<rparr>)"

text \<open>The services that a call watches.\<close>

definition watched_services :: "'s consul_ops \<Rightarrow> string list \<Rightarrow> 's \<Rightarrow> string list option" where
  "watched_services ops serviceName s =
     (if length serviceName = 0 \<or> serviceName ! 0 = [] then map_option (filter (\<lambda>name. name \<noteq> ''consul'')) (cs_CatalogServices ops s)
      else Some serviceName)"

definition consul_WatchServices ::
  "'s consul_ops \<Rightarrow> string list \<Rightarrow> consul_discovery \<Rightarrow> 's \<Rightarrow> (consul_error + nat) \<times> consul_discovery" where
  "consul_WatchServices ops serviceName d s =
     (case watched_services ops serviceName s of
        None \<Rightarrow> (Inl ConsulFailed, d)
      | Some names \<Rightarrow>
          let ch = cn_nextChannel d in (Inr ch, fold (watch_consul ch) names (d\<lparr>cn_nextChannel := ch + 1\<rparr>)))"

definition consul_notifyWatchers :: "string \<Rightarrow> service_instance list \<Rightarrow> consul_discovery \<Rightarrow> consul_discovery" where
  "consul_notifyWatchers serviceName is d =
     d\<lparr>cn_sends := cn_sends d @ concat (map (\<lambda>i. map (\<lambda>ch. (ch, i)) (consul_channels d serviceName)) is)\<rparr>"

text \<open>One answer of the blocking query of a watch.\<close>

definition watch_answer :: "(string \<Rightarrow> time option) \<Rightarrow> string \<Rightarrow> service_entry list option \<Rightarrow> consul_discovery \<Rightarrow> consul_discovery" where
  "watch_answer parse_time serviceName answer d =
     (case answer of
        None \<Rightarrow> d
      | Some entries \<Rightarrow>
          consul_notifyWatchers serviceName
            (map (\<lambda>e. with_health (entry_passing e) (consulServiceToInstance parse_time (sn_Service e))) entries) d)"

definition consul_removeWatchChannel :: "string list \<Rightarrow> nat \<Rightarrow> consul_discovery \<Rightarrow> consul_discovery" where
  "consul_removeWatchChannel order ch d =
     fold (\<lambda>name d. case mget (cn_watchChannels d) name of
         None \<Rightarrow> d
       | Some chs \<Rightarrow>
           if ch \<notin> set chs then d
           else if length (remove1 ch chs) = 0 then d\<lparr>cn_watchChannels := mdel name (cn_watchChannels d)\<rparr>
           else d\<lparr>cn_watchChannels := mput name (remove1 ch chs) (cn_watchChannels d)\<rparr>) order d"

definition consul_Close :: "consul_discovery \<Rightarrow> consul_discovery" where
  "consul_Close d = d\<lparr>cn_watchCancels := [], cn_watchChannels := []\<rparr>"

section \<open>What Consul promises\<close>

text \<open>\<open>svc\<close>: the registered services; \<open>chk\<close>: the status of the check of a service. A registration gives a service a check.\<close>

definition consul_laws :: "'s consul_ops \<Rightarrow> ('s \<Rightarrow> string \<Rightarrow> agent_service option) \<Rightarrow> ('s \<Rightarrow> string \<Rightarrow> string option) \<Rightarrow> bool" where
  "consul_laws ops svc chk \<longleftrightarrow>
     (\<forall>reg s s'. cs_ServiceRegister ops reg s = (True, s') \<longrightarrow>
        svc s' = (svc s)(as_ID (rg_Service reg) \<mapsto> rg_Service reg) \<and> chk s' (as_ID (rg_Service reg)) \<noteq> None
        \<and> (\<forall>i. i \<noteq> as_ID (rg_Service reg) \<longrightarrow> chk s' i = chk s i)) \<and>
     (\<forall>i s s'. cs_PassTTL ops (''service:'' @ i) s = (None, s') \<longrightarrow> svc s' = svc s \<and> chk s' = (chk s)(i \<mapsto> ''passing'')) \<and>
     (\<forall>i s s'. cs_FailTTL ops (''service:'' @ i) s = (None, s') \<longrightarrow> svc s' = svc s \<and> chk s' = (chk s)(i \<mapsto> ''critical'')) \<and>
     (\<forall>i s s'. cs_ServiceDeregister ops i s = (True, s') \<longrightarrow> svc s' = (svc s)(i := None) \<and> chk s' = (chk s)(i := None)) \<and>
     (\<forall>s m. cs_Services ops s = Some m \<longrightarrow> mget m = svc s) \<and>
     (\<forall>s cs. cs_Checks ops s = Some cs \<longrightarrow>
        (\<forall>c \<in> set cs. chk s (sk_ServiceID c) = Some (sk_Status c)) \<and> (\<forall>i. chk s i \<noteq> None \<longrightarrow> (\<exists>c \<in> set cs. sk_ServiceID c = i)))"

lemma healthy_iff:
  assumes "consul_laws ops svc chk" "isServiceHealthy ops i s = Some h"
  shows "h \<longleftrightarrow> chk s i = Some ''passing''"
proof -
  from assms(2) obtain cs where cs: "cs_Checks ops s = Some cs"
    and h: "h = (case find (\<lambda>c. sk_ServiceID c = i) cs of None \<Rightarrow> False | Some c \<Rightarrow> sk_Status c = ''passing'')"
    by (auto simp: isServiceHealthy_def)
  from assms(1) cs have l: "c \<in> set cs \<Longrightarrow> chk s (sk_ServiceID c) = Some (sk_Status c)" "chk s i \<noteq> None \<Longrightarrow> \<exists>c \<in> set cs. sk_ServiceID c = i" for c
    by (auto simp: consul_laws_def)
  show ?thesis
  proof (cases "find (\<lambda>c. sk_ServiceID c = i) cs")
    case None
    then have "\<not> (\<exists>c \<in> set cs. sk_ServiceID c = i)" by (auto simp: find_None_iff)
    with l(2) h None show ?thesis by auto
  next
    case (Some c)
    then have "c \<in> set cs" "sk_ServiceID c = i" by (auto simp: find_Some_iff)
    with l(1) [of c] h Some show ?thesis by auto
  qed
qed

lemma list_services_sound:
  assumes "consul_laws ops svc chk"
  shows "list_services ops parse_time s wanted services = Inr xs \<Longrightarrow>
    xs = map (\<lambda>a. with_health (chk s (as_ID a) = Some ''passing'') (consulServiceToInstance parse_time a)) (filter wanted services)"
  by (induction services arbitrary: xs) (auto dest!: healthy_iff [OF assms] split: if_splits option.splits sum.splits)

lemma consul_list_exact:
  assumes "consul_laws ops svc chk" "consul_ListInstances ops parse_time order [name] s = Inr xs" "name \<noteq> []"
    and "\<forall>i. svc s i \<noteq> None \<longrightarrow> i \<in> set order"
  shows "set xs = {with_health (chk s (as_ID a) = Some ''passing'') (consulServiceToInstance parse_time a) | a i. svc s i = Some a \<and> as_Service a = name}"
proof -
  from assms(2) obtain m where m: "cs_Services ops s = Some m"
    and l: "list_services ops parse_time s (\<lambda>a. as_Service a = name) (List.map_filter (mget m) order) = Inr xs"
    using assms(3) by (auto simp: consul_ListInstances_def split: option.splits)
  from assms(1) m have "mget m = svc s" by (auto simp: consul_laws_def)
  with list_services_sound [OF assms(1) l] assms(4) show ?thesis by (auto simp: set_map_filter image_iff)
qed

section \<open>Registration\<close>

lemma read_tags:
  "fold read_tag tags (v, ts) =
     ((if v \<noteq> [] then v else
        (case find (\<lambda>t. t \<noteq> []) (map (\<lambda>t. TrimPrefix t ''version='') (filter (\<lambda>t. HasPrefix t ''version='') tags)) of None \<Rightarrow> [] | Some w \<Rightarrow> w)),
      ts @ filter (\<lambda>t. \<not> HasPrefix t ''version='') tags)"
  by (induction tags arbitrary: v ts) (auto simp: read_tag_def)

text \<open>Reading back a registration: everything but the status and the times, and without the tags that look like a version.\<close>

lemma registration_reads_back:
  assumes "x = consulServiceToInstance parse_time (rg_Service (registration_of config i))"
  shows "si_ID x = si_ID i \<and> si_ServiceName x = si_ServiceName i \<and> si_Address x = si_Address i \<and> si_Port x = si_Port i
    \<and> si_Tags x = filter (\<lambda>t. \<not> HasPrefix t ''version='') (si_Tags i)
    \<and> (si_Version i \<noteq> [] \<longrightarrow> si_Version x = si_Version i \<and> si_Metadata x = mput ''version'' (si_Version i) (si_Metadata i))"
  using assms
  by (auto simp: consulServiceToInstance_def registration_of_def Let_def read_tags mget_mput split: prod.splits)

text \<open>an instance registered in Consul as active is found under its service, active, with its address, port and version and the tags it
  had (less those that look like a version). When its check fails afterwards it is still given, as inactive: the list holds the instances
  that do not answer too, where the local provider and the one over etcd leave them out.\<close>

lemma consul_registered_instance_listed:
  assumes laws: "consul_laws ops svc chk"
    and reg: "consul_RegisterInstance ops i d s = (None, sa)" "si_Status i \<in> {[], ''ACTIVE''}" "si_ServiceName i \<noteq> []"
    and after: "sb = sa \<and> st = ''ACTIVE'' \<or> consul_UpdateInstanceStatus ops (si_ID i) ''INACTIVE'' sa = (None, sb) \<and> st = ''INACTIVE''"
    and listed: "consul_ListInstances ops parse_time order [si_ServiceName i] sb = Inr xs" "\<forall>j. svc sb j \<noteq> None \<longrightarrow> j \<in> set order"
  shows "\<exists>x \<in> set xs. si_ID x = si_ID i \<and> si_Status x = st \<and> si_Address x = si_Address i \<and> si_Port x = si_Port i
    \<and> si_Tags x = filter (\<lambda>t. \<not> HasPrefix t ''version='') (si_Tags i) \<and> (si_Version i \<noteq> [] \<longrightarrow> si_Version x = si_Version i)"
proof -
  let ?a = "rg_Service (registration_of (cn_config d) i)"
  have a: "as_ID ?a = si_ID i" "as_Service ?a = si_ServiceName i" by (auto simp: registration_of_def Let_def)
  from reg obtain s0 where r: "cs_ServiceRegister ops (registration_of (cn_config d) i) s = (True, s0)"
    "cs_PassTTL ops (''service:'' @ si_ID i) s0 = (None, sa)"
    by (auto simp: consul_RegisterInstance_def check_id_def split: prod.splits bool.splits option.splits)
  from laws r(1) have "svc s0 (si_ID i) = Some ?a" by (auto simp: consul_laws_def a)
  with laws r(2) have one: "svc sa (si_ID i) = Some ?a" "chk sa (si_ID i) = Some ''passing''" by (auto simp: consul_laws_def)
  have two: "svc sb (si_ID i) = Some ?a" "(chk sb (si_ID i) = Some ''passing'') = (st = ''ACTIVE'')" "st \<in> {''ACTIVE'', ''INACTIVE''}"
    using after one laws by (auto simp: consul_UpdateInstanceStatus_def check_id_def consul_laws_def split: prod.splits)
  let ?x = "with_health (chk sb (as_ID ?a) = Some ''passing'') (consulServiceToInstance parse_time ?a)"
  have "?x \<in> set xs" using consul_list_exact [OF laws listed(1) reg(3) listed(2)] two(1) a(2) by blast
  moreover have "si_Status ?x = st" using two(2,3) by (auto simp: with_health_def a)
  ultimately show ?thesis
    using registration_reads_back [OF refl, of parse_time "cn_config d" i] by (intro bexI [of _ ?x]) (auto simp: with_health_def)
qed

text \<open>A watch tells of the instances that are there: one that was removed is not announced.\<close>

lemma removal_not_announced:
  assumes "\<forall>e \<in> set entries. as_ID (sn_Service e) \<noteq> i"
  shows "\<exists>sends. cn_sends (watch_answer parse_time name (Some entries) d) = cn_sends d @ sends \<and> (\<forall>(ch, x) \<in> set sends. si_ID x \<noteq> i)"
  using assms
  by (auto simp: watch_answer_def consul_notifyWatchers_def with_health_def consulServiceToInstance_def Let_def split: prod.splits)

section \<open>Witnesses\<close>

text \<open>A Consul that always answers: the services and the status of their checks.\<close>

definition plain_consul :: "((string, agent_service) gomap \<times> (string, string) gomap) consul_ops" where
  "plain_consul =
     \<lparr>cs_ServiceRegister = (\<lambda>reg s. (True, (mput (as_ID (rg_Service reg)) (rg_Service reg) (fst s), mput (as_ID (rg_Service reg)) ''critical'' (snd s)))),
      cs_PassTTL = (\<lambda>c s. (None, (fst s, mput (drop 8 c) ''passing'' (snd s)))), cs_FailTTL = (\<lambda>c s. (None, (fst s, mput (drop 8 c) ''critical'' (snd s)))),
      cs_ServiceDeregister = (\<lambda>i s. (True, (mdel i (fst s), mdel i (snd s)))), cs_Services = (\<lambda>s. Some (fst s)), cs_Service = (\<lambda>i s. Some (mget (fst s) i)),
      cs_Checks = (\<lambda>s. Some (List.map_filter (\<lambda>i. map_option (\<lambda>st. \<lparr>sk_ServiceID = i, sk_Status = st\<rparr>) (mget (snd s) i)) (mkeys (snd s)))),
      cs_CatalogServices = (\<lambda>s. None), cs_HealthService = (\<lambda>n s. None)\<rparr>"

lemma plain_consul_laws: "consul_laws plain_consul (\<lambda>s. mget (fst s)) (\<lambda>s. mget (snd s))"
proof -
  have "\<exists>c \<in> set (List.map_filter (\<lambda>i. map_option (\<lambda>st. \<lparr>sk_ServiceID = i, sk_Status = st\<rparr>) (mget m i)) (mkeys m)). sk_ServiceID c = i"
    if "mget m i = Some st" for m :: "(string, string) gomap" and i st
    using that mget_Some_key [OF that] by (intro bexI [of _ "\<lparr>sk_ServiceID = i, sk_Status = st\<rparr>"]) (auto simp: set_map_filter)
  then show ?thesis
    by (auto simp: consul_laws_def plain_consul_def mget_mput mget_mdel fun_eq_iff set_map_filter)
qed

definition tagged_instance :: service_instance where
  "tagged_instance = empty_instance\<lparr>si_ID := ''i1'', si_ServiceName := ''users'', si_Version := ''2'', si_Address := ''10.0.0.9'', si_Port := 80,
     si_Tags := [''blue'', ''version=1'']\<rparr>"

lemma consul_registered_instance_listed_witness:
  "\<exists>s1 s2 xs x. consul_RegisterInstance plain_consul tagged_instance (NewConsulDiscovery sample_config) ([], []) = (None, s1)
    \<and> consul_UpdateInstanceStatus plain_consul ''i1'' ''INACTIVE'' s1 = (None, s2)
    \<and> consul_ListInstances plain_consul (\<lambda>s. None) [''i1''] [''users''] s2 = Inr xs
    \<and> x \<in> set xs \<and> si_Status x = ''INACTIVE'' \<and> si_Version x = ''2'' \<and> si_Tags x = [''blue'']"
proof -
  let ?r = "consul_RegisterInstance plain_consul tagged_instance (NewConsulDiscovery sample_config) ([], [])"
  let ?u = "consul_UpdateInstanceStatus plain_consul ''i1'' ''INACTIVE'' (snd ?r)"
  let ?l = "consul_ListInstances plain_consul (\<lambda>s. None) [''i1''] [''users''] (snd ?u)"
  have ok: "fst ?r = None" "fst ?u = None" "is_ok ?l" "mkeys (fst (snd ?u)) = [''i1'']" by code_simp+
  then obtain xs where l: "?l = Inr xs" by (auto simp: is_ok_iff)
  have t: "si_Status tagged_instance \<in> {[], ''ACTIVE''}" "si_ServiceName tagged_instance \<noteq> []" "si_ServiceName tagged_instance = ''users''"
    "si_ID tagged_instance = ''i1''" "si_Version tagged_instance = ''2''" "si_Tags tagged_instance = [''blue'', ''version=1'']"
    by (simp_all add: tagged_instance_def empty_instance_def)
  have o: "\<forall>j. mget (fst (snd ?u)) j \<noteq> None \<longrightarrow> j \<in> set [''i1'']" using ok(4) mget_Some_key [of "fst (snd ?u)"] by fastforce
  have r: "?r = (None, snd ?r)" "?u = (None, snd ?u)" using ok by (metis prod.collapse)+
  from consul_registered_instance_listed [OF plain_consul_laws r(1) t(1,2), where st = "''INACTIVE''" and sb = "snd ?u" and parse_time = "\<lambda>s. None"
      and order = "[''i1'']" and xs = xs] r(2) l o t
  obtain x where "x \<in> set xs" "si_Status x = ''INACTIVE''" "si_Version x = ''2''" "si_Tags x = filter (\<lambda>t. \<not> HasPrefix t ''version='') [''blue'', ''version=1'']"
    by auto
  with r l show ?thesis
    by (intro exI [of _ "snd ?r"] exI [of _ "snd ?u"] exI [of _ xs] exI [of _ x]) (simp add: HasPrefix_def)
qed

end
