(* ===== verification/KubeDiscovery.thy ===== *)
theory KubeDiscovery
  imports Discovery Passwords
begin

text \<open>
  Service discovery over Kubernetes (\<open>prism/internal/features/discovery/adapters/provider/kube.go\<close>): an instance is a pod, and what the
  registry knows of it are annotations of the pod.

  The API of Kubernetes is an argument (\<open>kube_ops\<close>), as are the formats of times; what the API promises is stated in \<open>kube_laws\<close>. A nil map
  of annotations is \<open>None\<close>. \<open>order\<close> arguments are the orders of loops over maps. Channels are numbers; sends are recorded in the order in
  which they start.
\<close>

declare nat_digits.simps [simp del]

section \<open>Kubernetes\<close>

datatype phase = PodRunning | PodSucceeded | PodFailed | OtherPhase

record pod =
  po_Name :: string
  po_Labels :: "(string, string) gomap"
  po_Annotations :: "(string, string) gomap option"
  po_PodIP :: string
  po_Phase :: phase
  po_Created :: time

text \<open>Listing by a label that exists, by the value of a field, and without a selector.\<close>

record 's kube_ops =
  kb_Get :: "string \<Rightarrow> 's \<Rightarrow> pod option"
  kb_Update :: "pod \<Rightarrow> 's \<Rightarrow> bool \<times> 's"
  kb_ListLabel :: "string \<Rightarrow> 's \<Rightarrow> pod list option"
  kb_ListField :: "string \<Rightarrow> string \<Rightarrow> 's \<Rightarrow> pod list option"
  kb_List :: "'s \<Rightarrow> pod list option"

record clock_format =
  cf_Format :: "time \<Rightarrow> string"
  cf_Parse :: "string \<Rightarrow> time"

section \<open>Instances and pods\<close>

definition annotation :: "string \<Rightarrow> string" where
  "annotation name = ''service.discovery/'' @ name"

definition annotation_value :: "(string, string) gomap \<Rightarrow> string \<Rightarrow> string" where
  "annotation_value m name = (case mget m (annotation name) of None \<Rightarrow> [] | Some v \<Rightarrow> v)"

text \<open>What \<open>strconv.Atoi\<close> gives beside its error.\<close>

definition Atoi_value :: "string \<Rightarrow> int" where
  "Atoi_value s =
     (let neg = HasPrefix s ''-'';
          ds = (if neg \<or> HasPrefix s ''+'' then tl s else s);
          n = (if neg then - digits_value ds else digits_value ds)
      in if ds \<noteq> [] \<and> list_all is_digit ds then max (- (2 ^ 63)) (min (2 ^ 63 - 1) n) else 0)"

definition phase_status :: "phase \<Rightarrow> string" where
  "phase_status p =
     (case p of PodRunning \<Rightarrow> ''ACTIVE'' | PodSucceeded \<Rightarrow> ''DEREGISTERED'' | PodFailed \<Rightarrow> ''INACTIVE'' | OtherPhase \<Rightarrow> ''INACTIVE'')"

definition pod_metadata :: "string list \<Rightarrow> (string, string) gomap \<Rightarrow> (string, string) gomap" where
  "pod_metadata order m =
     fold (\<lambda>key metadata. case mget m key of
         None \<Rightarrow> metadata
       | Some v \<Rightarrow> if HasPrefix key (annotation ''meta-'') then mput (TrimPrefix key (annotation ''meta-'')) v metadata else metadata) order []"

definition podToServiceInstance :: "clock_format \<Rightarrow> string list \<Rightarrow> pod \<Rightarrow> service_instance option" where
  "podToServiceInstance cf order pod =
     (case po_Annotations pod of
        None \<Rightarrow> None
      | Some m \<Rightarrow>
          if annotation_value m ''service-name'' = [] then None
          else
            let serviceID = (if annotation_value m ''service-id'' = [] then po_Name pod else annotation_value m ''service-id'');
                port = (if annotation_value m ''port'' \<noteq> [] then Atoi_value (annotation_value m ''port'') else 0);
                address = (if annotation_value m ''address'' = [] then po_PodIP pod else annotation_value m ''address'');
                status = (if annotation_value m ''status'' = [] then phase_status (po_Phase pod) else annotation_value m ''status'');
                tags = (if annotation_value m ''tags'' \<noteq> [] then Split CHR '','' (annotation_value m ''tags'') else []);
                registeredAt = (if annotation_value m ''registered-at'' \<noteq> [] then cf_Parse cf (annotation_value m ''registered-at'') else po_Created pod);
                lastHeartbeat = (if annotation_value m ''heartbeat'' \<noteq> [] then cf_Parse cf (annotation_value m ''heartbeat'') else time_zero)
            in Some \<lparr>si_ID = serviceID, si_ServiceName = annotation_value m ''service-name'', si_Version = annotation_value m ''version'',
                 si_Address = address, si_Port = port, si_Status = status, si_Tags = tags, si_Metadata = pod_metadata order m,
                 si_RegisteredAt = registeredAt, si_LastHeartbeat = lastHeartbeat\<rparr>)"

definition instance_annotations :: "clock_format \<Rightarrow> time \<Rightarrow> string list \<Rightarrow> service_instance \<Rightarrow> (string, string) gomap" where
  "instance_annotations cf now order i =
     (let base = [(annotation ''service-id'', si_ID i), (annotation ''service-name'', si_ServiceName i), (annotation ''version'', si_Version i),
                  (annotation ''address'', si_Address i), (annotation ''port'', int_digits (si_Port i)), (annotation ''status'', si_Status i),
                  (annotation ''heartbeat'', cf_Format cf now)];
          tagged = (if length (si_Tags i) > 0 then mput (annotation ''tags'') (Join '','' (si_Tags i)) base else base)
      in fold (\<lambda>k m. case mget (si_Metadata i) k of None \<Rightarrow> m | Some v \<Rightarrow> mput (annotation (''meta-'' @ k)) v m) order tagged)"

definition put_annotations :: "(string, string) gomap \<Rightarrow> pod \<Rightarrow> pod" where
  "put_annotations new pod =
     pod\<lparr>po_Annotations := Some (fold (\<lambda>kv. mput (fst kv) (snd kv)) new (case po_Annotations pod of None \<Rightarrow> [] | Some m \<Rightarrow> m))\<rparr>"

section \<open>Operations\<close>

record kube_discovery =
  kd_watchChannels :: "(string, nat list) gomap"
  kd_nextChannel :: nat
  kd_closed :: "nat list"
  kd_sends :: "(nat \<times> service_instance) list"

definition NewKubernetesDiscovery :: kube_discovery where
  "NewKubernetesDiscovery = \<lparr>kd_watchChannels = [], kd_nextChannel = 0, kd_closed = [], kd_sends = []\<rparr>"

definition kube_namespace :: "kubernetes_config \<Rightarrow> string" where
  "kube_namespace config = (if kc_Namespace config = [] then ''default'' else kc_Namespace config)"

datatype kube_error = NoPodName | PodGetFailed | PodUpdateFailed | PodListFailed | NoPods string | NotAnInstance

definition getPodNameFromInstance :: "service_instance \<Rightarrow> string" where
  "getPodNameFromInstance i = si_ID i"

definition kube_RegisterInstance ::
  "'s kube_ops \<Rightarrow> clock_format \<Rightarrow> time \<Rightarrow> string list \<Rightarrow> service_instance \<Rightarrow> 's \<Rightarrow> kube_error option \<times> 's" where
  "kube_RegisterInstance ops cf now order i s =
     (let podName = getPodNameFromInstance i
      in if podName = [] then (Some NoPodName, s)
         else case kb_Get ops podName s of
                None \<Rightarrow> (Some PodGetFailed, s)
              | Some pod \<Rightarrow>
                  (case kb_Update ops (put_annotations (instance_annotations cf now order i) pod) s of
                     (False, s') \<Rightarrow> (Some PodUpdateFailed, s')
                   | (True, s') \<Rightarrow> (None, s')))"

definition findPodsByInstanceID :: "'s kube_ops \<Rightarrow> string \<Rightarrow> 's \<Rightarrow> kube_error + pod list" where
  "findPodsByInstanceID ops instanceID s =
     (case kb_ListField ops (''metadata.annotations.'' @ annotation ''service-id'') instanceID s of
        None \<Rightarrow> Inl PodListFailed
      | Some pods \<Rightarrow>
          if length pods > 0 then Inr pods
          else case kb_Get ops instanceID s of None \<Rightarrow> Inl PodGetFailed | Some pod \<Rightarrow> Inr [pod])"

definition change_pod :: "'s kube_ops \<Rightarrow> ((string, string) gomap \<Rightarrow> (string, string) gomap) \<Rightarrow> string \<Rightarrow> 's \<Rightarrow> kube_error option \<times> 's" where
  "change_pod ops f instanceID s =
     (case findPodsByInstanceID ops instanceID s of
        Inl err \<Rightarrow> (Some err, s)
      | Inr [] \<Rightarrow> (Some (NoPods instanceID), s)
      | Inr (pod # pods) \<Rightarrow>
          (case kb_Update ops (pod\<lparr>po_Annotations := Some (f (case po_Annotations pod of None \<Rightarrow> [] | Some m \<Rightarrow> m))\<rparr>) s of
             (False, s') \<Rightarrow> (Some PodUpdateFailed, s')
           | (True, s') \<Rightarrow> (None, s')))"

definition kube_DeregisterInstance :: "'s kube_ops \<Rightarrow> clock_format \<Rightarrow> time \<Rightarrow> string \<Rightarrow> 's \<Rightarrow> kube_error option \<times> 's" where
  "kube_DeregisterInstance ops cf now =
     change_pod ops (\<lambda>m. mput (annotation ''heartbeat'') (cf_Format cf now) (mput (annotation ''status'') ''DEREGISTERED'' m))"

definition kube_UpdateInstanceStatus :: "'s kube_ops \<Rightarrow> clock_format \<Rightarrow> time \<Rightarrow> string \<Rightarrow> string \<Rightarrow> 's \<Rightarrow> kube_error option \<times> 's" where
  "kube_UpdateInstanceStatus ops cf now instanceID status =
     change_pod ops (\<lambda>m. mput (annotation ''heartbeat'') (cf_Format cf now) (mput (annotation ''status'') status m)) instanceID"

definition kube_Heartbeat :: "'s kube_ops \<Rightarrow> clock_format \<Rightarrow> time \<Rightarrow> string \<Rightarrow> 's \<Rightarrow> kube_error option \<times> 's" where
  "kube_Heartbeat ops cf now =
     change_pod ops (\<lambda>m. let m' = mput (annotation ''heartbeat'') (cf_Format cf now) m
       in if annotation_value m' ''status'' = ''INACTIVE'' then mput (annotation ''status'') ''ACTIVE'' m' else m')"

text \<open>\<open>order\<close>: for every pod the order of the loop over its annotations.\<close>

definition kube_ListInstances ::
  "'s kube_ops \<Rightarrow> clock_format \<Rightarrow> (pod \<Rightarrow> string list) \<Rightarrow> string list \<Rightarrow> 's \<Rightarrow> kube_error + service_instance list" where
  "kube_ListInstances ops cf order serviceName s =
     (case kb_ListLabel ops ''service.discovery'' s of
        None \<Rightarrow> Inl PodListFailed
      | Some pods \<Rightarrow>
          let all_services = (length serviceName = 0 \<or> serviceName ! 0 = [])
          in Inr (filter (\<lambda>i. (all_services \<or> si_ServiceName i = serviceName ! 0) \<and> (si_Status i = ''ACTIVE'' \<or> \<not> all_services))
               (List.map_filter (\<lambda>pod. podToServiceInstance cf (order pod) pod) pods)))"

definition kube_GetInstance ::
  "'s kube_ops \<Rightarrow> clock_format \<Rightarrow> (pod \<Rightarrow> string list) \<Rightarrow> string \<Rightarrow> 's \<Rightarrow> kube_error + service_instance" where
  "kube_GetInstance ops cf order instanceID s =
     (case findPodsByInstanceID ops instanceID s of
        Inl err \<Rightarrow> Inl err
      | Inr [] \<Rightarrow> Inl (NoPods instanceID)
      | Inr (pod # pods) \<Rightarrow> (case podToServiceInstance cf (order pod) pod of None \<Rightarrow> Inl NotAnInstance | Some i \<Rightarrow> Inr i))"

definition count_pod :: "pod \<Rightarrow> (string, (string, nat) gomap) gomap \<Rightarrow> (string, (string, nat) gomap) gomap" where
  "count_pod pod counts =
     (case po_Annotations pod of
        None \<Rightarrow> counts
      | Some m \<Rightarrow>
          (case mget m (annotation ''service-name'') of
             None \<Rightarrow> counts
           | Some serviceName \<Rightarrow>
               if annotation_value m ''status'' \<noteq> ''ACTIVE'' then counts
               else
                 let versions = (case mget counts serviceName of None \<Rightarrow> [] | Some vs \<Rightarrow> vs);
                     version = annotation_value m ''version''
                 in mput serviceName (mput version (Suc (case mget versions version of None \<Rightarrow> 0 | Some n \<Rightarrow> n)) versions) counts))"

definition kube_ListServices :: "'s kube_ops \<Rightarrow> string list \<Rightarrow> (string \<Rightarrow> string list) \<Rightarrow> 's \<Rightarrow> kube_error + service_info list" where
  "kube_ListServices ops order vorder s =
     (case kb_List ops s of
        None \<Rightarrow> Inl PodListFailed
      | Some pods \<Rightarrow>
          let m = fold count_pod pods []
          in Inr (concat (map (\<lambda>name. case mget m name of
                 None \<Rightarrow> []
               | Some versions \<Rightarrow> List.map_filter (\<lambda>v. map_option (\<lambda>n. \<lparr>sv_Name = name, sv_Version = v, sv_Count = n\<rparr>) (mget versions v)) (vorder name))
               order)))"

section \<open>Watching\<close>

definition kube_channels :: "kube_discovery \<Rightarrow> string \<Rightarrow> nat list" where
  "kube_channels d name = (case mget (kd_watchChannels d) name of None \<Rightarrow> [] | Some chs \<Rightarrow> chs)"

definition kube_WatchServices :: "string list \<Rightarrow> kube_discovery \<Rightarrow> nat \<times> kube_discovery" where
  "kube_WatchServices serviceName d =
     (let ch = kd_nextChannel d; name = (if length serviceName > 0 \<and> serviceName ! 0 \<noteq> [] then serviceName ! 0 else [])
      in (ch, d\<lparr>kd_nextChannel := ch + 1, kd_watchChannels := mput name (kube_channels d name @ [ch]) (kd_watchChannels d)\<rparr>))"

definition kube_notifyWatchers :: "service_instance \<Rightarrow> kube_discovery \<Rightarrow> kube_discovery" where
  "kube_notifyWatchers i d =
     d\<lparr>kd_sends := kd_sends d @ map (\<lambda>ch. (ch, i)) (kube_channels d (si_ServiceName i) @ kube_channels d [])\<rparr>"

text \<open>One event of the watch of pods; its kind (added, changed, deleted) is not looked at.\<close>

definition pod_event :: "clock_format \<Rightarrow> string list \<Rightarrow> pod \<Rightarrow> kube_discovery \<Rightarrow> kube_discovery" where
  "pod_event cf order pod d =
     (case po_Annotations pod of
        None \<Rightarrow> d
      | Some m \<Rightarrow>
          if annotation_value m ''service-name'' = [] then d
          else case podToServiceInstance cf order pod of None \<Rightarrow> d | Some i \<Rightarrow> kube_notifyWatchers i d)"

text \<open>Closing a channel twice is a panic: \<open>None\<close>. The channel that is removed from its list is not closed.\<close>

definition kube_removeWatchChannel :: "nat \<Rightarrow> string \<Rightarrow> kube_discovery \<Rightarrow> kube_discovery option" where
  "kube_removeWatchChannel ch name d =
     (case mget (kd_watchChannels d) name of
        None \<Rightarrow> if ch \<in> set (kd_closed d) then None else Some (d\<lparr>kd_closed := ch # kd_closed d\<rparr>)
      | Some chs \<Rightarrow>
          Some (if ch \<notin> set chs then d
                else if length (remove1 ch chs) = 0 then d\<lparr>kd_watchChannels := mdel name (kd_watchChannels d)\<rparr>
                else d\<lparr>kd_watchChannels := mput name (remove1 ch chs) (kd_watchChannels d)\<rparr>))"

definition kube_Close :: "string list \<Rightarrow> kube_discovery \<Rightarrow> kube_discovery option" where
  "kube_Close order d =
     (let chs = concat (map (kube_channels d) order)
      in if distinct chs \<and> set chs \<inter> set (kd_closed d) = {} then Some (d\<lparr>kd_watchChannels := [], kd_closed := chs @ kd_closed d\<rparr>) else None)"

section \<open>What Kubernetes promises\<close>

definition supported_fields :: "string list" where
  "supported_fields = [''metadata.name'', ''metadata.namespace'', ''spec.nodeName'', ''spec.restartPolicy'', ''spec.schedulerName'',
     ''spec.serviceAccountName'', ''spec.hostNetwork'', ''status.phase'', ''status.podIP'', ''status.podIPs'', ''status.nominatedNodeName'']"

text \<open>\<open>pods\<close>: the pods of the namespace by name. A list by a field that is not among the supported ones is refused.\<close>

definition kube_laws :: "'s kube_ops \<Rightarrow> ('s \<Rightarrow> string \<Rightarrow> pod option) \<Rightarrow> bool" where
  "kube_laws ops pods \<longleftrightarrow>
     (\<forall>n s p. kb_Get ops n s = Some p \<longrightarrow> pods s n = Some p \<and> po_Name p = n) \<and>
     (\<forall>p s s'. kb_Update ops p s = (True, s') \<longrightarrow> pods s' = (pods s)(po_Name p \<mapsto> p)) \<and>
     (\<forall>l s ps. kb_ListLabel ops l s = Some ps \<longrightarrow> set ps = {p. \<exists>n. pods s n = Some p \<and> mget (po_Labels p) l \<noteq> None}) \<and>
     (\<forall>f v s. f \<notin> set supported_fields \<longrightarrow> kb_ListField ops f v s = None)"

lemma find_fails: "kube_laws ops pods \<Longrightarrow> findPodsByInstanceID ops i s = Inl PodListFailed"
proof -
  assume "kube_laws ops pods"
  moreover have "''metadata.annotations.'' @ annotation ''service-id'' \<notin> set supported_fields" by code_simp
  ultimately show ?thesis by (simp add: kube_laws_def findPodsByInstanceID_def)
qed


section \<open>Registered instances\<close>

lemma annotation_inj [simp]: "annotation a = annotation b \<longleftrightarrow> a = b"
  by (simp add: annotation_def)

lemma mget_base_annotation:
  assumes "\<not> HasPrefix k ''meta-''"
  shows "mget (instance_annotations cf now order i) (annotation k) =
    map_of [(''service-id'', si_ID i), (''service-name'', si_ServiceName i), (''version'', si_Version i), (''address'', si_Address i),
      (''port'', int_digits (si_Port i)), (''status'', si_Status i), (''heartbeat'', cf_Format cf now)] k
    \<or> k = ''tags''"
proof -
  have other: "mget (fold (\<lambda>k m. case mget meta k of None \<Rightarrow> m | Some v \<Rightarrow> mput (annotation (''meta-'' @ k)) v m) ks m) (annotation k)
      = mget m (annotation k)" for meta ks m
    using assms by (induction ks arbitrary: m) (auto simp: mget_mput HasPrefix_iff split: option.splits)
  then show ?thesis by (auto simp: instance_annotations_def Let_def other mget_mput)
qed

lemma wf_add_metadata:
  "wfmap m \<Longrightarrow> wfmap (fold (\<lambda>k m. case mget meta k of None \<Rightarrow> m | Some v \<Rightarrow> mput (annotation (''meta-'' @ k)) v m) ks m)"
  by (induction ks arbitrary: m) (auto simp: wfmap_mput split: option.splits)

lemma wf_annotations: "wfmap (instance_annotations cf now order i)"
  by (auto simp: instance_annotations_def Let_def mkeys_def intro!: wf_add_metadata wfmap_mput)

lemma mget_put_all:
  "wfmap new \<Longrightarrow> mget (fold (\<lambda>kv. mput (fst kv) (snd kv)) new m) k = (case mget new k of None \<Rightarrow> mget m k | Some v \<Rightarrow> Some v)"
proof (induction new arbitrary: m)
  case (Cons kv new)
  then have "wfmap new" "mget new (fst kv) = None" by (auto simp: mget_None_iff)
  with Cons.IH show ?case by (cases kv) (auto simp: mget_mput split: option.splits)
qed simp

lemma Atoi_value_digits: "0 \<le> n \<Longrightarrow> n < 2 ^ 63 \<Longrightarrow> Atoi_value (int_digits n) = n"
  using no_sign [of "nat n" "[]"] nat_digits_digits [of _ "nat n"]
  by (simp add: Atoi_value_def int_digits_def digits_value_nat_digits list_all_iff)

text \<open>What is read back from the pod of a registered instance.\<close>

lemma registered_pod_reads_back:
  assumes "podToServiceInstance cf porder (put_annotations (instance_annotations cf now order i) pod) = r" "si_ServiceName i \<noteq> []" "si_ID i \<noteq> []"
    "0 \<le> si_Port i" "si_Port i < 2 ^ 63"
  shows "\<exists>x. r = Some x \<and> si_ID x = si_ID i \<and> si_ServiceName x = si_ServiceName i \<and> si_Version x = si_Version i \<and> si_Port x = si_Port i
    \<and> (si_Address i \<noteq> [] \<longrightarrow> si_Address x = si_Address i) \<and> (si_Status i \<noteq> [] \<longrightarrow> si_Status x = si_Status i)"
proof -
  let ?new = "instance_annotations cf now order i"
  obtain m where m: "po_Annotations (put_annotations ?new pod) = Some m" "\<And>k. mget m k = (case mget ?new k of None \<Rightarrow> mget (case po_Annotations pod of None \<Rightarrow> [] | Some m \<Rightarrow> m) k | Some v \<Rightarrow> Some v)"
    using mget_put_all [OF wf_annotations] by (auto simp: put_annotations_def)
  have v: "annotation_value m ''service-id'' = si_ID i" "annotation_value m ''service-name'' = si_ServiceName i" "annotation_value m ''version'' = si_Version i"
    "annotation_value m ''address'' = si_Address i" "annotation_value m ''port'' = int_digits (si_Port i)" "annotation_value m ''status'' = si_Status i"
    using mget_base_annotation [of "''service-id''" cf now order i] mget_base_annotation [of "''service-name''" cf now order i]
      mget_base_annotation [of "''version''" cf now order i] mget_base_annotation [of "''address''" cf now order i]
      mget_base_annotation [of "''port''" cf now order i] mget_base_annotation [of "''status''" cf now order i]
    by (simp_all add: annotation_value_def m(2))
  have "int_digits (si_Port i) \<noteq> []" using assms(4) by (simp add: int_digits_def)
  with assms v m(1) show ?thesis by (auto simp: podToServiceInstance_def Let_def Atoi_value_digits)
qed

text \<open>A registered instance is listed exactly when its pod has the label of the selector; registering does not set it.\<close>

lemma kube_registered_listed_if_labelled:
  assumes laws: "kube_laws ops pods"
    and reg: "kube_RegisterInstance ops cf now order i s = (None, s')" "si_ServiceName i \<noteq> []" "0 \<le> si_Port i" "si_Port i < 2 ^ 63"
    and unique: "\<forall>n p x. pods s n = Some p \<and> podToServiceInstance cf (porder p) p = Some x \<longrightarrow> si_ID x = si_ID i \<longrightarrow> n = si_ID i"
    and listed: "kube_ListInstances ops cf porder [si_ServiceName i] s' = Inr xs"
  shows "\<exists>pod. pods s (si_ID i) = Some pod \<and> ((\<exists>x \<in> set xs. si_ID x = si_ID i) \<longleftrightarrow> mget (po_Labels pod) ''service.discovery'' \<noteq> None)"
proof -
  from reg(1) obtain pod where g: "kb_Get ops (si_ID i) s = Some pod" "si_ID i \<noteq> []"
    and u: "kb_Update ops (put_annotations (instance_annotations cf now order i) pod) s = (True, s')"
    by (auto simp: kube_RegisterInstance_def getPodNameFromInstance_def Let_def split: if_splits option.splits prod.splits bool.splits)
  let ?pod = "put_annotations (instance_annotations cf now order i) pod"
  from laws g(1) have pod: "pods s (si_ID i) = Some pod" "po_Name pod = si_ID i" by (auto simp: kube_laws_def)
  have new: "po_Name ?pod = si_ID i" "po_Labels ?pod = po_Labels pod" by (simp_all add: put_annotations_def pod(2))
  from laws u new(1) have s': "pods s' = (pods s)(si_ID i \<mapsto> ?pod)" by (auto simp: kube_laws_def)
  from listed obtain ps where ps: "kb_ListLabel ops ''service.discovery'' s' = Some ps"
    "xs = filter (\<lambda>x. si_ServiceName x = si_ServiceName i) (List.map_filter (\<lambda>p. podToServiceInstance cf (porder p) p) ps)"
    using reg(2) by (auto simp: kube_ListInstances_def split: option.splits)
  from laws ps(1) have set_ps: "set ps = {p. \<exists>n. pods s' n = Some p \<and> mget (po_Labels p) ''service.discovery'' \<noteq> None}" by (simp add: kube_laws_def)
  from registered_pod_reads_back [OF refl reg(2) g(2) reg(3,4), of cf "porder ?pod" now order pod] obtain x where
    x: "podToServiceInstance cf (porder ?pod) ?pod = Some x" "si_ID x = si_ID i" "si_ServiceName x = si_ServiceName i" by auto
  have "(\<exists>y \<in> set xs. si_ID y = si_ID i) \<longleftrightarrow> ?pod \<in> set ps"
  proof
    assume "\<exists>y \<in> set xs. si_ID y = si_ID i"
    then obtain y p where y: "p \<in> set ps" "podToServiceInstance cf (porder p) p = Some y" "si_ID y = si_ID i"
      by (auto simp: ps(2) set_map_filter)
    from y(1) set_ps obtain n where n: "pods s' n = Some p" by blast
    have "n = si_ID i"
    proof (rule ccontr)
      assume "n \<noteq> si_ID i"
      with n s' have "pods s n = Some p" by simp
      with unique y(2,3) \<open>n \<noteq> si_ID i\<close> show False by blast
    qed
    with n s' y(1) show "?pod \<in> set ps" by simp
  next
    assume "?pod \<in> set ps"
    with x show "\<exists>y \<in> set xs. si_ID y = si_ID i" by (intro bexI [of _ x]) (auto simp: ps(2) set_map_filter)
  qed
  also have "\<dots> \<longleftrightarrow> mget (po_Labels pod) ''service.discovery'' \<noteq> None"
  proof
    assume "?pod \<in> set ps"
    then show "mget (po_Labels pod) ''service.discovery'' \<noteq> None" by (auto simp: set_ps new(2))
  next
    assume "mget (po_Labels pod) ''service.discovery'' \<noteq> None"
    then show "?pod \<in> set ps" by (auto simp: set_ps s' new(2) intro!: exI [of _ "si_ID i"])
  qed
  finally show ?thesis using pod(1) by blast
qed

text \<open>A removed pod is announced like a changed one: the kind of the event is not looked at.\<close>

lemma deleted_pod_announced_active:
  assumes "podToServiceInstance cf order pod = Some x" "ch \<in> set (kube_channels d (si_ServiceName x))"
  shows "(ch, x) \<in> set (kd_sends (pod_event cf order pod d))"
proof -
  from assms(1) obtain m where "po_Annotations pod = Some m" "annotation_value m ''service-name'' \<noteq> []"
    by (simp add: podToServiceInstance_def split: option.splits if_splits)
  with assms show ?thesis by (simp add: pod_event_def kube_notifyWatchers_def)
qed

lemma kube_cancel_after_close_panics:
  assumes "ch \<in> set (kube_channels d name)" "name \<in> set order" "kube_Close order d = Some d'"
  shows "kube_removeWatchChannel ch name d' = None"
  using assms by (auto simp: kube_Close_def kube_removeWatchChannel_def Let_def split: if_splits)

section \<open>Witnesses\<close>

text \<open>An API with one pod.\<close>

definition pod_api :: "pod kube_ops" where
  "pod_api = \<lparr>kb_Get = (\<lambda>n p. if n = po_Name p then Some p else None), kb_Update = (\<lambda>q p. if po_Name q = po_Name p then (True, q) else (False, p)),
     kb_ListLabel = (\<lambda>l p. Some (if mget (po_Labels p) l \<noteq> None then [p] else [])),
     kb_ListField = (\<lambda>f v p. if f = ''metadata.name'' then Some (if v = po_Name p then [p] else []) else None),
     kb_List = (\<lambda>p. Some [p])\<rparr>"

lemma pod_api_laws: "kube_laws pod_api (\<lambda>p n. if n = po_Name p then Some p else None)"
  by (auto simp: kube_laws_def pod_api_def supported_fields_def fun_eq_iff split: if_splits)

definition web_pod :: pod where
  "web_pod = \<lparr>po_Name = ''web-0'', po_Labels = [], po_Annotations = None, po_PodIP = ''10.0.0.7'', po_Phase = PodRunning, po_Created = 5\<rparr>"


end
